(* ===== verification/Prelude.thy ===== *)
theory Prelude
  imports Main "HOL-Library.Monad_Syntax"
begin

text \<open>
  Shared vocabulary of the development.

  C pointers to objects of a list or a registry are modelled as \<open>'a option\<close>, with
  \<open>None\<close> for the null pointer. An operation that dereferences a null pointer has no
  result: it is an \<open>option\<close> computation whose value is \<open>None\<close> (the program crashes).
  The do-notation of \<open>Monad_Syntax\<close> is used for such computations.

  The theory also holds the collections the components declare their rewrite rules into, and
  the generic facts on lists and options they share.
\<close>

named_theorems dll_simps \<open>rewrite rules for doubly linked segments\<close>
named_theorems machine_simps \<open>rewrite rules for pointer and integer arithmetic\<close>
named_theorems lifo_simps \<open>rewrite rules for memory pool states\<close>
named_theorems cb_simps \<open>rewrite rules for callback and context states\<close>

section \<open>Pointers\<close>

type_synonym 'a ptr = "'a option"

definition hdp :: "'a list \<Rightarrow> 'a ptr \<Rightarrow> 'a ptr" where
  "hdp xs n = (case xs of [] \<Rightarrow> n | x # _ \<Rightarrow> Some x)"

definition lastp :: "'a ptr \<Rightarrow> 'a list \<Rightarrow> 'a ptr" where
  "lastp p xs = (if xs = [] then p else Some (last xs))"

lemma hdp_simps [simp]:
  "hdp [] n = n"
  "hdp (x # xs) n = Some x"
  by (simp_all add: hdp_def)

lemma lastp_simps [simp]:
  "lastp p [] = p"
  "lastp p (x # xs) = lastp (Some x) xs"
  by (simp_all add: lastp_def)

lemma hdp_append: "hdp (xs @ ys) n = hdp xs (hdp ys n)"
  by (cases xs) simp_all

lemma lastp_append: "lastp p (xs @ ys) = lastp (lastp p xs) ys"
  by (simp add: lastp_def)

lemma lastp_nonempty: "xs \<noteq> [] \<Longrightarrow> lastp p xs = Some (last xs)"
  by (simp add: lastp_def)

lemma lastp_None_iff [simp]: "lastp None xs = None \<longleftrightarrow> xs = []"
  by (simp add: lastp_def)

lemma hdp_None_iff [simp]: "hdp xs None = None \<longleftrightarrow> xs = []"
  by (cases xs) simp_all

lemma lastp_Some_in: "lastp p xs = Some x \<Longrightarrow> x \<in> set xs \<or> (xs = [] \<and> p = Some x)"
  by (auto simp: lastp_def split: if_splits)

lemma hdp_Some_in: "hdp xs n = Some x \<Longrightarrow> x \<in> set xs \<or> (xs = [] \<and> n = Some x)"
  by (cases xs) auto

section \<open>Lists\<close>

lemma remove1_middle: "x \<notin> set xs \<Longrightarrow> remove1 x (xs @ x # ys) = xs @ ys"
  by (simp add: remove1_append)

lemma find_None_conv: "find P xs = None \<longleftrightarrow> (\<forall>x \<in> set xs. \<not> P x)"
  by (auto simp: find_None_iff)

lemma find_Some_in: "find P xs = Some x \<Longrightarrow> x \<in> set xs \<and> P x"
  by (induction xs) (auto split: if_splits)

lemma suffix_diff_unique:
  "xs @ zs = ys @ zs \<Longrightarrow> xs = ys"
  by simp

end
