(* ===== verification/Zlist.thy ===== *)
theory Zlist
  imports Prelude
begin

text \<open>
  The type-safe doubly linked lists of \<open>include/zlist.h\<close>.

  Every list element carries a link field (two pointers); the link fields of all objects of
  one type are a function from objects to links, so several lists may share one store, as
  the C lists share memory. A list header is a record of the head, the tail and the count.
  The macros are translated assignment by assignment and in their order, since some of them
  read a field that an earlier assignment has just written. A macro that follows a null
  pointer has no result (\<open>None\<close>); a macro that walks the list is a partial function,
  \<open>None\<close> again where the walk never ends.

  The second half gives each operation its meaning on the list of objects that the links
  represent, and states what the other components rely on as the interface \<open>object_list\<close>.
\<close>

section \<open>Links\<close>

record 'a zlink =
  zl_prev :: "'a ptr"
  zl_next :: "'a ptr"

type_synonym 'a links = "'a \<Rightarrow> 'a zlink"

definition set_prev :: "'a \<Rightarrow> 'a ptr \<Rightarrow> 'a links \<Rightarrow> 'a links" where
  "set_prev p v L = L(p := (L p)\<lparr>zl_prev := v\<rparr>)"

definition set_next :: "'a \<Rightarrow> 'a ptr \<Rightarrow> 'a links \<Rightarrow> 'a links" where
  "set_next p v L = L(p := (L p)\<lparr>zl_next := v\<rparr>)"

definition ZLINK_INIT :: "'a \<Rightarrow> 'a links \<Rightarrow> 'a links" where
  "ZLINK_INIT p L = set_next p None (set_prev p None L)"

definition ZLINK_POSTATTACH :: "'a ptr \<Rightarrow> 'a \<Rightarrow> 'a links \<Rightarrow> 'a links option" where
  "ZLINK_POSTATTACH cur n L = do {
     let L1 = set_prev n cur L;
     c \<leftarrow> cur;
     let L2 = set_next n (zl_next (L1 c)) L1;
     let L3 = set_next c (Some n) L2;
     (case zl_next (L3 n) of
        None \<Rightarrow> Some L3
      | Some x \<Rightarrow> Some (set_prev x (Some n) L3)) }"

definition ZLINK_PREATTACH :: "'a ptr \<Rightarrow> 'a \<Rightarrow> 'a links \<Rightarrow> 'a links option" where
  "ZLINK_PREATTACH cur n L = do {
     let L1 = set_next n cur L;
     c \<leftarrow> cur;
     let L2 = set_prev n (zl_prev (L1 c)) L1;
     let L3 = set_prev c (Some n) L2;
     (case zl_prev (L3 n) of
        None \<Rightarrow> Some L3
      | Some x \<Rightarrow> Some (set_next x (Some n) L3)) }"

definition ZLINK_UNLINK :: "'a \<Rightarrow> 'a links \<Rightarrow> 'a links" where
  "ZLINK_UNLINK p L =
     (let L1 = (case zl_prev (L p) of None \<Rightarrow> L | Some q \<Rightarrow> set_next q (zl_next (L p)) L);
          L2 = (case zl_next (L1 p) of None \<Rightarrow> L1 | Some q \<Rightarrow> set_prev q (zl_prev (L1 p)) L1)
      in set_next p None (set_prev p None L2))"

definition ZLINK_MOVETOFRONT :: "'a \<Rightarrow> 'a \<Rightarrow> 'a links \<Rightarrow> 'a links option" where
  "ZLINK_MOVETOFRONT headptr p L =
     (if headptr \<noteq> p then do {
        q \<leftarrow> zl_prev (L p);
        let L1 = set_next q (zl_next (L p)) L;
        let L2 = (case zl_next (L1 p) of
                    None \<Rightarrow> L1
                  | Some r \<Rightarrow> set_prev r (zl_prev (L1 p)) L1);
        let L3 = set_prev headptr (Some p) L2;
        Some (set_prev p None (set_next p (Some headptr) L3)) }
      else Some L)"

definition ZLINK_SPLIT :: "'a \<Rightarrow> 'a links \<Rightarrow> 'a links" where
  "ZLINK_SPLIT p L =
     (let L1 = (case zl_prev (L p) of None \<Rightarrow> L | Some q \<Rightarrow> set_next q None L)
      in set_prev p None L1)"

text \<open>The walking macros. The object pointer is the loop variable.\<close>

partial_function (option) ZLINK_FIRST :: "'a links \<Rightarrow> 'a \<Rightarrow> 'a option" where
  "ZLINK_FIRST L p = (case zl_prev (L p) of None \<Rightarrow> Some p | Some q \<Rightarrow> ZLINK_FIRST L q)"

partial_function (option) ZLINK_LAST :: "'a links \<Rightarrow> 'a \<Rightarrow> 'a option" where
  "ZLINK_LAST L p = (case zl_next (L p) of None \<Rightarrow> Some p | Some q \<Rightarrow> ZLINK_LAST L q)"

partial_function (option) ZLINK_FIND :: "('a \<Rightarrow> int) \<Rightarrow> 'a links \<Rightarrow> 'a ptr \<Rightarrow> 'a ptr option" where
  "ZLINK_FIND cmp L objptr = (case objptr of
      None \<Rightarrow> Some None
    | Some p \<Rightarrow> (if 0 = cmp p then Some (Some p) else ZLINK_FIND cmp L (zl_next (L p))))"

partial_function (option) ZLINK_LOCATE ::
    "('a \<Rightarrow> 'k) \<Rightarrow> 'k \<Rightarrow> 'a links \<Rightarrow> 'a ptr \<Rightarrow> 'a ptr option" where
  "ZLINK_LOCATE fld k L objptr = (case objptr of
      None \<Rightarrow> Some None
    | Some p \<Rightarrow> (if fld p = k then Some (Some p) else ZLINK_LOCATE fld k L (zl_next (L p))))"

section \<open>Lists\<close>

record 'a zlist =
  zlist_head :: "'a ptr"
  zlist_tail :: "'a ptr"
  zlist_count :: int

type_synonym 'a zstate = "'a links \<times> 'a zlist"

definition ZLIST_INIT :: "'a zlist" where
  "ZLIST_INIT = \<lparr>zlist_head = None, zlist_tail = None, zlist_count = 0\<rparr>"

definition ZLIST_COUNT :: "'a zlist \<Rightarrow> int" where
  "ZLIST_COUNT l = 0 + zlist_count l"

definition ZLIST_ISEMPTY :: "'a zlist \<Rightarrow> bool" where
  "ZLIST_ISEMPTY l \<longleftrightarrow> ZLIST_COUNT l = 0"

partial_function (option) zlist_destroy_loop ::
    "('a \<Rightarrow> 's \<Rightarrow> 's) \<Rightarrow> 'a links \<Rightarrow> 'a ptr \<Rightarrow> 's \<Rightarrow> ('a links \<times> 's) option" where
  "zlist_destroy_loop f L p s = (case p of
      None \<Rightarrow> Some (L, s)
    | Some x \<Rightarrow>
        (let q = zl_next (L x); L1 = ZLINK_INIT x L in zlist_destroy_loop f L1 q (f x s)))"

definition ZLIST_DESTROY ::
    "('a \<Rightarrow> 's \<Rightarrow> 's) \<Rightarrow> 'a zstate \<Rightarrow> 's \<Rightarrow> ('a zstate \<times> 's) option" where
  "ZLIST_DESTROY f z s = do {
     let (L, l) = z;
     (L', s') \<leftarrow> zlist_destroy_loop f L (zlist_head l) s;
     Some ((L', l\<lparr>zlist_head := None, zlist_tail := None, zlist_count := 0\<rparr>), s') }"

definition ZLIST_INSERTAFTER :: "'a \<Rightarrow> 'a \<Rightarrow> 'a zstate \<Rightarrow> 'a zstate option" where
  "ZLIST_INSERTAFTER cur n z = do {
     let (L, l) = z;
     L' \<leftarrow> ZLINK_POSTATTACH (Some cur) n L;
     let l1 = (if zlist_tail l = Some cur then l\<lparr>zlist_tail := Some n\<rparr> else l);
     Some (L', l1\<lparr>zlist_count := zlist_count l1 + 1\<rparr>) }"

definition ZLIST_REMOVE :: "'a \<Rightarrow> 'a zstate \<Rightarrow> 'a zstate" where
  "ZLIST_REMOVE p z =
     (let (L, l) = z;
          l1 = (if zlist_head l = Some p then l\<lparr>zlist_head := zl_next (L p)\<rparr> else l);
          l2 = (if zlist_tail l1 = Some p then l1\<lparr>zlist_tail := zl_prev (L p)\<rparr> else l1)
      in (ZLINK_UNLINK p L, l2\<lparr>zlist_count := zlist_count l2 - 1\<rparr>))"

definition ZLIST_APPEND :: "'a \<Rightarrow> 'a zstate \<Rightarrow> 'a zstate option" where
  "ZLIST_APPEND p z = do {
     let (L, l) = z;
     (L1, l1) \<leftarrow>
       (if ZLIST_ISEMPTY l
        then Some (ZLINK_INIT p L, l\<lparr>zlist_tail := Some p, zlist_head := Some p\<rparr>)
        else do { L' \<leftarrow> ZLINK_POSTATTACH (zlist_tail l) p L; Some (L', l\<lparr>zlist_tail := Some p\<rparr>) });
     Some (L1, l1\<lparr>zlist_count := zlist_count l1 + 1\<rparr>) }"

definition ZLIST_PREPEND :: "'a \<Rightarrow> 'a zstate \<Rightarrow> 'a zstate option" where
  "ZLIST_PREPEND p z = do {
     let (L, l) = z;
     (L1, l1) \<leftarrow>
       (if ZLIST_ISEMPTY l
        then Some (ZLINK_INIT p L, l\<lparr>zlist_tail := Some p, zlist_head := Some p\<rparr>)
        else do { L' \<leftarrow> ZLINK_PREATTACH (zlist_head l) p L; Some (L', l\<lparr>zlist_head := Some p\<rparr>) });
     Some (L1, l1\<lparr>zlist_count := zlist_count l1 + 1\<rparr>) }"

definition ZLIST_MOVETOHEAD :: "'a \<Rightarrow> 'a zstate \<Rightarrow> 'a zstate option" where
  "ZLIST_MOVETOHEAD p z = ZLIST_PREPEND p (ZLIST_REMOVE p z)"

definition ZLIST_CONCAT ::
    "'a links \<Rightarrow> 'a zlist \<Rightarrow> 'a zlist \<Rightarrow> ('a links \<times> 'a zlist \<times> 'a zlist) option" where
  "ZLIST_CONCAT L l1 l2 =
     (if \<not> ZLIST_ISEMPTY l2 then do {
        (L', l1') \<leftarrow>
          (if \<not> ZLIST_ISEMPTY l1 then do {
             t \<leftarrow> zlist_tail l1;
             h \<leftarrow> zlist_head l2;
             Some (set_prev h (zlist_tail l1) (set_next t (zlist_head l2) L), l1) }
           else Some (L, l1\<lparr>zlist_head := zlist_head l2\<rparr>));
        Some (L', l1'\<lparr>zlist_tail := zlist_tail l2,
                      zlist_count := zlist_count l1' + zlist_count l2\<rparr>, ZLIST_INIT) }
      else Some (L, l1, l2))"

definition ZLIST_FIND :: "('a \<Rightarrow> int) \<Rightarrow> 'a zstate \<Rightarrow> 'a ptr option" where
  "ZLIST_FIND cmp z = ZLINK_FIND cmp (fst z) (zlist_head (snd z))"

definition ZLIST_LOCATE :: "('a \<Rightarrow> 'k) \<Rightarrow> 'k \<Rightarrow> 'a zstate \<Rightarrow> 'a ptr option" where
  "ZLIST_LOCATE fld k z = ZLINK_LOCATE fld k (fst z) (zlist_head (snd z))"

section \<open>Doubly linked segments\<close>

text \<open>
  \<open>dseg L p xs n\<close>: the objects \<open>xs\<close> are linked in this order, the first one points
  back to \<open>p\<close> and the last one forward to \<open>n\<close>.
\<close>

fun dseg :: "'a links \<Rightarrow> 'a ptr \<Rightarrow> 'a list \<Rightarrow> 'a ptr \<Rightarrow> bool" where
  "dseg L p [] n \<longleftrightarrow> True"
| "dseg L p (x # xs) n \<longleftrightarrow>
     zl_prev (L x) = p \<and> zl_next (L x) = hdp xs n \<and> dseg L (Some x) xs n"

lemma set_prev_simps [simp, dll_simps]:
  "zl_prev (set_prev p v L q) = (if q = p then v else zl_prev (L q))"
  "zl_next (set_prev p v L q) = zl_next (L q)"
  by (simp_all add: set_prev_def)

lemma set_next_simps [simp, dll_simps]:
  "zl_next (set_next p v L q) = (if q = p then v else zl_next (L q))"
  "zl_prev (set_next p v L q) = zl_prev (L q)"
  by (simp_all add: set_next_def)

lemma ZLINK_INIT_simps [simp, dll_simps]:
  "zl_next (ZLINK_INIT p L q) = (if q = p then None else zl_next (L q))"
  "zl_prev (ZLINK_INIT p L q) = (if q = p then None else zl_prev (L q))"
  by (simp_all add: ZLINK_INIT_def)

lemma zlink_eqI: "zl_prev a = zl_prev b \<Longrightarrow> zl_next a = zl_next b \<Longrightarrow> a = (b :: 'a zlink)"
  by (cases a; cases b) simp

lemma dseg_append [dll_simps]:
  "dseg L p (xs @ ys) n \<longleftrightarrow> dseg L p xs (hdp ys n) \<and> dseg L (lastp p xs) ys n"
  by (induction xs arbitrary: p) (auto simp: hdp_append)

lemma dseg_cong:
  "(\<And>x. x \<in> set xs \<Longrightarrow> zl_prev (L x) = zl_prev (L' x) \<and> zl_next (L x) = zl_next (L' x))
     \<Longrightarrow> dseg L p xs n \<longleftrightarrow> dseg L' p xs n"
  by (induction xs arbitrary: p) auto

lemma dseg_set_prev_notin [simp]: "x \<notin> set xs \<Longrightarrow> dseg (set_prev x v L) p xs n = dseg L p xs n"
  by (rule dseg_cong) auto

lemma dseg_set_next_notin [simp]: "x \<notin> set xs \<Longrightarrow> dseg (set_next x v L) p xs n = dseg L p xs n"
  by (rule dseg_cong) auto

text \<open>Rewriting the link out of either end of a segment moves its boundary.\<close>

lemma dseg_new_first:
  assumes "dseg L p xs n" "distinct xs" "hdp xs None = Some x"
  shows "dseg (set_prev x v L) v xs n"
  using assms by (cases xs) auto

lemma dseg_new_last:
  assumes "dseg L p xs n" "distinct xs" "lastp None xs = Some x"
  shows "dseg (set_next x v L) p xs v"
proof -
  from assms(3) obtain ys where xs: "xs = ys @ [x]"
    by (cases xs rule: rev_cases) (auto simp: lastp_def)
  with assms show ?thesis by (simp add: dseg_append)
qed

section \<open>The list a header represents\<close>

definition zl_rep :: "'a zstate \<Rightarrow> 'a list \<Rightarrow> bool" where
  "zl_rep z xs \<longleftrightarrow> distinct xs \<and> dseg (fst z) None xs None \<and>
     zlist_head (snd z) = hdp xs None \<and> zlist_tail (snd z) = lastp None xs \<and>
     zlist_count (snd z) = int (length xs)"

lemma zl_repI [intro?]:
  "distinct xs \<Longrightarrow> dseg L None xs None \<Longrightarrow> zlist_head l = hdp xs None \<Longrightarrow>
   zlist_tail l = lastp None xs \<Longrightarrow> zlist_count l = int (length xs) \<Longrightarrow> zl_rep (L, l) xs"
  by (simp add: zl_rep_def)

lemma zl_rep_unique: "zl_rep z xs \<Longrightarrow> zl_rep z ys \<Longrightarrow> xs = ys"
proof -
  have "dseg L p xs None \<Longrightarrow> dseg L p ys None \<Longrightarrow> hdp xs None = hdp ys None \<Longrightarrow> xs = ys"
    for L :: "'a links" and p xs ys
  proof (induction xs arbitrary: ys p)
    case Nil
    then show ?case by (cases ys) auto
  next
    case (Cons x xs)
    then obtain ys' where "ys = x # ys'" by (cases ys) auto
    with Cons show ?case by auto
  qed
  then show "zl_rep z xs \<Longrightarrow> zl_rep z ys \<Longrightarrow> xs = ys"
    by (metis zl_rep_def)
qed

lemma zl_rep_isempty: "zl_rep (L, l) xs \<Longrightarrow> ZLIST_ISEMPTY l \<longleftrightarrow> xs = []"
  by (simp add: zl_rep_def ZLIST_ISEMPTY_def ZLIST_COUNT_def)

lemma zl_rep_head: "zl_rep (L, l) xs \<Longrightarrow> zlist_head l = hdp xs None"
  by (simp add: zl_rep_def)

lemma ZLIST_INIT_rep: "zl_rep (L, ZLIST_INIT) []"
  by (simp add: zl_rep_def ZLIST_INIT_def)

text \<open>The links of the objects that are not on the list: no operation on the list touches them.\<close>

definition links_outside :: "'a set \<Rightarrow> 'a links \<Rightarrow> 'a links \<Rightarrow> bool" where
  "links_outside A L L' \<longleftrightarrow> (\<forall>y. y \<notin> A \<longrightarrow> L' y = L y)"

lemma links_outside_set [simp]:
  "x \<in> A \<Longrightarrow> links_outside A L (set_prev x v L') = links_outside A L L'"
  "x \<in> A \<Longrightarrow> links_outside A L (set_next x v L') = links_outside A L L'"
  by (auto simp: links_outside_def set_prev_def set_next_def)

lemma links_outside_refl [simp]: "links_outside A L L"
  by (simp add: links_outside_def)

lemma links_outside_trans:
  "links_outside A L L' \<Longrightarrow> links_outside A L' L'' \<Longrightarrow> links_outside A L L''"
  by (simp add: links_outside_def)

lemma links_outside_mono: "links_outside A L L' \<Longrightarrow> A \<subseteq> B \<Longrightarrow> links_outside B L L'"
  by (auto simp: links_outside_def)

text \<open>A list whose elements another operation leaves alone is still represented.\<close>

lemma zl_rep_frame:
  assumes "zl_rep (L, l) xs" "links_outside A L L'" "A \<inter> set xs = {}"
  shows "zl_rep (L', l) xs"
proof -
  have "dseg L None xs None \<longleftrightarrow> dseg L' None xs None"
    using assms(2,3) by (intro dseg_cong) (auto simp: links_outside_def)
  with assms(1) show ?thesis by (simp add: zl_rep_def)
qed

section \<open>What each operation does to the represented list\<close>

lemma ZLINK_POSTATTACH_dseg:
  assumes "dseg L None (xs @ c # ys) None" "distinct (xs @ c # ys)" "x \<notin> set (xs @ c # ys)"
  shows "\<exists>L'. ZLINK_POSTATTACH (Some c) x L = Some L' \<and>
          dseg L' None (xs @ c # x # ys) None \<and> links_outside (set (xs @ c # x # ys)) L L'"
proof (cases ys)
  case Nil
  with assms show ?thesis
    by (auto simp: ZLINK_POSTATTACH_def dll_simps)
next
  case (Cons y zs)
  with assms show ?thesis
    by (auto simp: ZLINK_POSTATTACH_def dll_simps)
qed

lemma ZLINK_PREATTACH_dseg:
  assumes "dseg L None (c # ys) None" "distinct (c # ys)" "x \<notin> set (c # ys)"
  shows "\<exists>L'. ZLINK_PREATTACH (Some c) x L = Some L' \<and>
          dseg L' None (x # c # ys) None \<and> links_outside (set (x # c # ys)) L L'"
  using assms by (auto simp: ZLINK_PREATTACH_def dll_simps)

lemma ZLINK_UNLINK_dseg:
  assumes "dseg L None (xs @ x # ys) None" "distinct (xs @ x # ys)"
  shows "dseg (ZLINK_UNLINK x L) None (xs @ ys) None"
    and "links_outside (set (xs @ x # ys)) L (ZLINK_UNLINK x L)"
    and "ZLINK_UNLINK x L x = \<lparr>zl_prev = None, zl_next = None\<rparr>"
proof -
  have pn: "zl_prev (L x) = lastp None xs" "zl_next (L x) = hdp ys None"
    using assms by (auto simp: dseg_append)
  show "ZLINK_UNLINK x L x = \<lparr>zl_prev = None, zl_next = None\<rparr>"
    by (rule zlink_eqI) (simp_all add: ZLINK_UNLINK_def Let_def)
  show "links_outside (set (xs @ x # ys)) L (ZLINK_UNLINK x L)"
    using pn lastp_Some_in [of None xs] hdp_Some_in [of ys None]
    by (auto simp: ZLINK_UNLINK_def Let_def split: option.split)
  show "dseg (ZLINK_UNLINK x L) None (xs @ ys) None"
  proof (cases xs rule: rev_cases)
    case Nil
    with assms pn show ?thesis
      by (cases ys) (auto simp: ZLINK_UNLINK_def)
  next
    case (snoc us u)
    with assms pn show ?thesis
      by (cases ys) (auto simp: ZLINK_UNLINK_def dseg_append lastp_append)
  qed
qed

lemma ZLIST_PREPEND_rep:
  assumes "zl_rep z xs" "x \<notin> set xs"
  shows "\<exists>z'. ZLIST_PREPEND x z = Some z' \<and> zl_rep z' (x # xs) \<and>
          links_outside (insert x (set xs)) (fst z) (fst z')"
proof -
  obtain L l where z: "z = (L, l)" by (cases z)
  have rep: "distinct xs" "dseg L None xs None" "zlist_head l = hdp xs None"
      "zlist_tail l = lastp None xs" "zlist_count l = int (length xs)"
    using assms(1) by (simp_all add: z zl_rep_def)
  show ?thesis
  proof (cases xs)
    case Nil
    with rep show ?thesis
      by (auto simp: z ZLIST_PREPEND_def ZLIST_ISEMPTY_def ZLIST_COUNT_def zl_rep_def
          ZLINK_INIT_def)
  next
    case (Cons c ys)
    obtain L' where "ZLINK_PREATTACH (Some c) x L = Some L'"
      "dseg L' None (x # c # ys) None" "links_outside (set (x # c # ys)) L L'"
      using ZLINK_PREATTACH_dseg [of L c ys x] rep assms(2) Cons by auto
    with rep Cons assms(2) show ?thesis
      by (auto simp: z ZLIST_PREPEND_def ZLIST_ISEMPTY_def ZLIST_COUNT_def zl_rep_def)
  qed
qed

lemma ZLIST_APPEND_rep:
  assumes "zl_rep z xs" "x \<notin> set xs"
  shows "\<exists>z'. ZLIST_APPEND x z = Some z' \<and> zl_rep z' (xs @ [x]) \<and>
          links_outside (insert x (set xs)) (fst z) (fst z')"
proof -
  obtain L l where z: "z = (L, l)" by (cases z)
  have rep: "distinct xs" "dseg L None xs None" "zlist_head l = hdp xs None"
      "zlist_tail l = lastp None xs" "zlist_count l = int (length xs)"
    using assms(1) by (simp_all add: z zl_rep_def)
  show ?thesis
  proof (cases xs rule: rev_cases)
    case Nil
    with rep show ?thesis
      by (auto simp: z ZLIST_APPEND_def ZLIST_ISEMPTY_def ZLIST_COUNT_def zl_rep_def
          ZLINK_INIT_def)
  next
    case (snoc ys c)
    obtain L' where "ZLINK_POSTATTACH (Some c) x L = Some L'"
      "dseg L' None (ys @ c # [x]) None" "links_outside (set (ys @ c # [x])) L L'"
      using ZLINK_POSTATTACH_dseg [of L ys c "[]" x] rep assms(2) snoc by auto
    with rep snoc assms(2) show ?thesis
      by (auto simp: z ZLIST_APPEND_def ZLIST_ISEMPTY_def ZLIST_COUNT_def zl_rep_def
          lastp_append hdp_append insert_commute)
  qed
qed

lemma ZLIST_INSERTAFTER_rep:
  assumes "zl_rep z (xs @ c # ys)" "x \<notin> set (xs @ c # ys)"
  shows "\<exists>z'. ZLIST_INSERTAFTER c x z = Some z' \<and> zl_rep z' (xs @ c # x # ys)"
proof -
  obtain L l where z: "z = (L, l)" by (cases z)
  have rep: "distinct (xs @ c # ys)" "dseg L None (xs @ c # ys) None"
      "zlist_head l = hdp (xs @ c # ys) None" "zlist_tail l = lastp None (xs @ c # ys)"
      "zlist_count l = int (length (xs @ c # ys))"
    using assms(1) by (simp_all add: z zl_rep_def)
  obtain L' where L': "ZLINK_POSTATTACH (Some c) x L = Some L'"
      "dseg L' None (xs @ c # x # ys) None"
    using ZLINK_POSTATTACH_dseg [of L xs c ys x] rep assms(2) by auto
  have tl: "zlist_tail l = Some c \<longleftrightarrow> ys = []"
    using rep(1,4) lastp_Some_in [of "Some c" ys c] by (cases ys) (auto simp: lastp_append)
  show ?thesis
    using rep assms(2) L' tl
    by (cases "ys = []")
      (auto simp: z ZLIST_INSERTAFTER_def zl_rep_def hdp_append lastp_append lastp_nonempty)
qed

lemma ZLIST_REMOVE_rep:
  assumes "zl_rep z xs" "x \<in> set xs"
  shows "zl_rep (ZLIST_REMOVE x z) (remove1 x xs)"
    and "links_outside (set xs) (fst z) (fst (ZLIST_REMOVE x z))"
    and "fst (ZLIST_REMOVE x z) x = \<lparr>zl_prev = None, zl_next = None\<rparr>"
proof -
  obtain L l where z: "z = (L, l)" by (cases z)
  obtain us vs where xs: "xs = us @ x # vs" and nx: "x \<notin> set us"
    using split_list_first [OF assms(2)] by blast
  have rep: "distinct xs" "dseg L None xs None" "zlist_head l = hdp xs None"
      "zlist_tail l = lastp None xs" "zlist_count l = int (length xs)"
    using assms(1) by (simp_all add: z zl_rep_def)
  have pn: "zl_prev (L x) = lastp None us" "zl_next (L x) = hdp vs None"
    using rep(2) by (auto simp: xs dseg_append)
  have hd: "zlist_head l = Some x \<longleftrightarrow> us = []"
    using rep(1,3) by (cases us) (auto simp: xs)
  have tl: "zlist_tail l = Some x \<longleftrightarrow> vs = []"
    using rep(1,4) lastp_Some_in [of "Some x" vs x] by (cases vs) (auto simp: xs lastp_append)
  note U = ZLINK_UNLINK_dseg [OF rep(2) [unfolded xs] rep(1) [unfolded xs]]
  show "links_outside (set xs) (fst z) (fst (ZLIST_REMOVE x z))"
    using U(2) by (simp add: z xs ZLIST_REMOVE_def Let_def)
  show "fst (ZLIST_REMOVE x z) x = \<lparr>zl_prev = None, zl_next = None\<rparr>"
    using U(3) by (simp add: z ZLIST_REMOVE_def Let_def)
  have "zl_rep (ZLIST_REMOVE x z) (us @ vs)"
    using U(1) rep pn hd tl
    by (cases us; cases vs rule: rev_cases)
      (auto simp: z xs ZLIST_REMOVE_def Let_def zl_rep_def hdp_append lastp_append)
  then show "zl_rep (ZLIST_REMOVE x z) (remove1 x xs)"
    using nx by (simp add: xs remove1_middle)
qed

lemma ZLIST_MOVETOHEAD_rep:
  assumes "zl_rep z xs" "x \<in> set xs"
  shows "\<exists>z'. ZLIST_MOVETOHEAD x z = Some z' \<and> zl_rep z' (x # remove1 x xs)"
proof -
  have "x \<notin> set (remove1 x xs)"
    using assms(1) by (simp add: zl_rep_def)
  from ZLIST_PREPEND_rep [OF ZLIST_REMOVE_rep(1) [OF assms] this] show ?thesis
    by (auto simp: ZLIST_MOVETOHEAD_def)
qed

lemma ZLIST_CONCAT_rep:
  assumes "zl_rep (L, l1) xs" "zl_rep (L, l2) ys" "set xs \<inter> set ys = {}"
  shows "\<exists>L' l1' l2'. ZLIST_CONCAT L l1 l2 = Some (L', l1', l2') \<and>
           zl_rep (L', l1') (xs @ ys) \<and> zl_rep (L', l2') []"
proof -
  have r1: "distinct xs" "dseg L None xs None" "zlist_head l1 = hdp xs None"
      "zlist_tail l1 = lastp None xs" "zlist_count l1 = int (length xs)"
    using assms(1) by (simp_all add: zl_rep_def)
  have r2: "distinct ys" "dseg L None ys None" "zlist_head l2 = hdp ys None"
      "zlist_tail l2 = lastp None ys" "zlist_count l2 = int (length ys)"
    using assms(2) by (simp_all add: zl_rep_def)
  note e = zl_rep_isempty [OF assms(1)] zl_rep_isempty [OF assms(2)]
  show ?thesis
  proof (cases "xs = [] \<or> ys = []")
    case True
    with r1 r2 e show ?thesis
      by (cases "ys = []") (auto simp: ZLIST_CONCAT_def zl_rep_def ZLIST_INIT_def)
  next
    case False
    then obtain us t where xs: "xs = us @ [t]" by (cases xs rule: rev_cases) auto
    from False obtain h vs where ys: "ys = h # vs" by (cases ys) auto
    have "t \<noteq> h" "t \<notin> set vs" "h \<notin> set us" using assms(3) by (auto simp: xs ys)
    with r1 r2 e False assms(3) show ?thesis
      by (auto simp: ZLIST_CONCAT_def zl_rep_def ZLIST_INIT_def xs ys dseg_append hdp_append
          lastp_append lastp_def)
  qed
qed

section \<open>Walking a list\<close>

lemma ZLINK_FIND_dseg:
  "dseg L p xs None \<Longrightarrow> ZLINK_FIND cmp L (hdp xs None) = Some (find (\<lambda>x. cmp x = 0) xs)"
  by (induction xs arbitrary: p) (auto simp: ZLINK_FIND.simps)

lemma ZLINK_LOCATE_dseg:
  "dseg L p xs None \<Longrightarrow> ZLINK_LOCATE f k L (hdp xs None) = Some (find (\<lambda>x. f x = k) xs)"
  by (induction xs arbitrary: p) (auto simp: ZLINK_LOCATE.simps)

lemma ZLIST_FIND_rep: "zl_rep z xs \<Longrightarrow> ZLIST_FIND cmp z = Some (find (\<lambda>x. cmp x = 0) xs)"
  by (auto simp: ZLIST_FIND_def zl_rep_def intro: ZLINK_FIND_dseg)

lemma ZLIST_LOCATE_rep: "zl_rep z xs \<Longrightarrow> ZLIST_LOCATE f k z = Some (find (\<lambda>x. f x = k) xs)"
  by (auto simp: ZLIST_LOCATE_def zl_rep_def intro: ZLINK_LOCATE_dseg)

lemma ZLINK_LAST_dseg: "dseg L p (x # xs) None \<Longrightarrow> ZLINK_LAST L x = lastp None (x # xs)"
  by (induction xs arbitrary: p x) (auto simp: ZLINK_LAST.simps)

lemma ZLINK_FIRST_dseg:
  "dseg L None (xs @ [x]) n \<Longrightarrow> ZLINK_FIRST L x = hdp (xs @ [x]) None"
proof (induction xs arbitrary: x n rule: rev_induct)
  case Nil
  then show ?case by (simp add: ZLINK_FIRST.simps)
next
  case (snoc y ys)
  then have "dseg L None (ys @ [y]) (Some x)" "zl_prev (L x) = Some y"
    by (simp_all add: dseg_append lastp_append)
  with snoc.IH show ?case by (simp add: ZLINK_FIRST.simps hdp_append)
qed

lemma zlist_destroy_loop_dseg:
  "dseg L p xs None \<Longrightarrow> distinct xs \<Longrightarrow>
   \<exists>L'. zlist_destroy_loop f L (hdp xs None) s = Some (L', fold f xs s) \<and>
        (\<forall>x \<in> set xs. L' x = \<lparr>zl_prev = None, zl_next = None\<rparr>) \<and> links_outside (set xs) L L'"
proof (induction xs arbitrary: p L s)
  case Nil
  then show ?case by (simp add: zlist_destroy_loop.simps)
next
  case (Cons x xs)
  let ?L = "ZLINK_INIT x L"
  have "dseg ?L (Some x) xs None"
    using Cons.prems by (simp add: ZLINK_INIT_def)
  with Cons obtain L' where L': "zlist_destroy_loop f ?L (hdp xs None) (f x s) = Some (L', fold f xs (f x s))"
      "\<forall>x \<in> set xs. L' x = \<lparr>zl_prev = None, zl_next = None\<rparr>" "links_outside (set xs) ?L L'"
    by (metis distinct.simps(2))
  have "L' x = ?L x"
    using L'(3) Cons.prems(2) by (simp add: links_outside_def)
  then have "L' x = \<lparr>zl_prev = None, zl_next = None\<rparr>"
    by (intro zlink_eqI) simp_all
  moreover have "links_outside (set (x # xs)) L L'"
    using L'(3) by (auto simp: links_outside_def ZLINK_INIT_def set_prev_def set_next_def)
  ultimately show ?case
    using Cons.prems L'(1,2) by (auto simp: zlist_destroy_loop.simps)
qed

lemma ZLIST_DESTROY_rep:
  assumes "zl_rep z xs"
  shows "\<exists>z'. ZLIST_DESTROY f z s = Some (z', fold f xs s) \<and> zl_rep z' []"
proof -
  obtain L l where z: "z = (L, l)" by (cases z)
  have rep: "distinct xs" "dseg L None xs None" "zlist_head l = hdp xs None"
    using assms by (simp_all add: z zl_rep_def)
  obtain L' where "zlist_destroy_loop f L (hdp xs None) s = Some (L', fold f xs s)"
    using zlist_destroy_loop_dseg [OF rep(2,1), of f s] by auto
  with rep show ?thesis by (auto simp: z ZLIST_DESTROY_def zl_rep_def)
qed

section \<open>The interface the other components use\<close>

text \<open>
  The contexts, the thread-pool registrations and the directory monitors keep their objects
  on such a list and use five operations of it. Their proofs are made against this interface
  and do not look at links.
\<close>

locale object_list =
  fixes rep :: "'s \<Rightarrow> 'a list \<Rightarrow> bool"
    and prepend :: "'a \<Rightarrow> 's \<Rightarrow> 's option"
    and append :: "'a \<Rightarrow> 's \<Rightarrow> 's option"
    and remove :: "'a \<Rightarrow> 's \<Rightarrow> 's"
    and head :: "'s \<Rightarrow> 'a ptr"
    and locate :: "('a \<Rightarrow> bool) \<Rightarrow> 's \<Rightarrow> 'a ptr option"
  assumes rep_distinct: "rep s xs \<Longrightarrow> distinct xs"
    and rep_unique: "rep s xs \<Longrightarrow> rep s ys \<Longrightarrow> xs = ys"
    and prepend_rep: "rep s xs \<Longrightarrow> x \<notin> set xs \<Longrightarrow> \<exists>s'. prepend x s = Some s' \<and> rep s' (x # xs)"
    and append_rep: "rep s xs \<Longrightarrow> x \<notin> set xs \<Longrightarrow> \<exists>s'. append x s = Some s' \<and> rep s' (xs @ [x])"
    and remove_rep: "rep s xs \<Longrightarrow> x \<in> set xs \<Longrightarrow> rep (remove x s) (remove1 x xs)"
    and head_rep: "rep s xs \<Longrightarrow> head s = hdp xs None"
    and locate_rep: "rep s xs \<Longrightarrow> locate P s = Some (find P xs)"
begin

lemma prepend_total: "rep s xs \<Longrightarrow> x \<notin> set xs \<Longrightarrow> prepend x s \<noteq> None"
  using prepend_rep by fastforce

lemma prependD: "prepend x s = Some s' \<Longrightarrow> rep s xs \<Longrightarrow> x \<notin> set xs \<Longrightarrow> rep s' (x # xs)"
  using prepend_rep by fastforce

lemma appendD: "append x s = Some s' \<Longrightarrow> rep s xs \<Longrightarrow> x \<notin> set xs \<Longrightarrow> rep s' (xs @ [x])"
  using append_rep by fastforce

lemma prepend_then_remove:
  "prepend x s = Some s' \<Longrightarrow> rep s xs \<Longrightarrow> x \<notin> set xs \<Longrightarrow> rep (remove x s') xs"
  using prependD remove_rep by fastforce

lemma locate_prepend:
  "prepend x s = Some s' \<Longrightarrow> rep s xs \<Longrightarrow> x \<notin> set xs \<Longrightarrow> P x \<Longrightarrow> locate P s' = Some (Some x)"
  using prependD locate_rep by fastforce

lemma locate_removed:
  assumes "rep s xs" "x \<in> set xs" "\<And>y. y \<in> set xs \<Longrightarrow> P y \<longleftrightarrow> y = x"
  shows "locate P (remove x s) = Some None"
proof -
  have "distinct xs" using assms(1) by (rule rep_distinct)
  then have "find P (remove1 x xs) = None"
    using assms(3) by (auto simp: find_None_conv)
  with locate_rep [OF remove_rep [OF assms(1,2)]] show ?thesis by simp
qed

lemma locate_SomeD: "rep s xs \<Longrightarrow> locate P s = Some (Some x) \<Longrightarrow> x \<in> set xs \<and> P x"
  by (auto simp: locate_rep dest: find_Some_in)

lemma head_empty_iff: "rep s xs \<Longrightarrow> head s = None \<longleftrightarrow> xs = []"
  by (simp add: head_rep)

lemma head_remove: "rep s (x # xs) \<Longrightarrow> head s = Some x \<and> rep (remove x s) xs"
  using remove_rep [of s "x # xs" x] by (simp add: head_rep)

end

interpretation zl: object_list
  "zl_rep :: 'a zstate \<Rightarrow> 'a list \<Rightarrow> bool" ZLIST_PREPEND ZLIST_APPEND ZLIST_REMOVE
  "\<lambda>z. zlist_head (snd z)" "\<lambda>P z. ZLIST_FIND (\<lambda>x. if P x then 0 else 1) z"
proof
  fix s :: "'a zstate" and xs :: "'a list" and x :: 'a and P :: "'a \<Rightarrow> bool"
  show "zl_rep s xs \<Longrightarrow> distinct xs" by (simp add: zl_rep_def)
  show "zl_rep s xs \<Longrightarrow> x \<notin> set xs \<Longrightarrow> \<exists>s'. ZLIST_PREPEND x s = Some s' \<and> zl_rep s' (x # xs)"
    by (metis ZLIST_PREPEND_rep)
  show "zl_rep s xs \<Longrightarrow> x \<notin> set xs \<Longrightarrow> \<exists>s'. ZLIST_APPEND x s = Some s' \<and> zl_rep s' (xs @ [x])"
    by (metis ZLIST_APPEND_rep)
  show "zl_rep s xs \<Longrightarrow> x \<in> set xs \<Longrightarrow> zl_rep (ZLIST_REMOVE x s) (remove1 x xs)"
    by (rule ZLIST_REMOVE_rep)
  show "zl_rep s xs \<Longrightarrow> zlist_head (snd s) = hdp xs None" by (simp add: zl_rep_def)
  have "(\<lambda>x. (if P x then 0 else 1) = (0::int)) = P" by (rule ext) simp
  then show "zl_rep s xs \<Longrightarrow> ZLIST_FIND (\<lambda>x. if P x then 0 else 1) s = Some (find P xs)"
    by (simp add: ZLIST_FIND_rep)
qed (rule zl_rep_unique)

end
