(* ===== verification/Zlist_Props.thy ===== *)
theory Zlist_Props
  imports Zlist
begin

text \<open>
  The properties of the intrusive lists: any sequence of the list operations has the effect
  of the same operations on a list of objects, and two headers can be joined and emptied.
\<close>

section \<open>Sequences of operations\<close>

datatype 'a zop = Prepend 'a | Append 'a | InsertAfter 'a 'a | Remove 'a | MoveToHead 'a

text \<open>What each operation does to the list of objects, and when the client may call it.\<close>

fun insert_after :: "'a \<Rightarrow> 'a \<Rightarrow> 'a list \<Rightarrow> 'a list" where
  "insert_after c x [] = []"
| "insert_after c x (y # ys) = (if y = c then y # x # ys else y # insert_after c x ys)"

fun zop_spec :: "'a zop \<Rightarrow> 'a list \<Rightarrow> 'a list" where
  "zop_spec (Prepend x) xs = x # xs"
| "zop_spec (Append x) xs = xs @ [x]"
| "zop_spec (InsertAfter c x) xs = insert_after c x xs"
| "zop_spec (Remove x) xs = remove1 x xs"
| "zop_spec (MoveToHead x) xs = x # remove1 x xs"

fun zop_allowed :: "'a zop \<Rightarrow> 'a list \<Rightarrow> bool" where
  "zop_allowed (Prepend x) xs \<longleftrightarrow> x \<notin> set xs"
| "zop_allowed (Append x) xs \<longleftrightarrow> x \<notin> set xs"
| "zop_allowed (InsertAfter c x) xs \<longleftrightarrow> c \<in> set xs \<and> x \<notin> set xs"
| "zop_allowed (Remove x) xs \<longleftrightarrow> x \<in> set xs"
| "zop_allowed (MoveToHead x) xs \<longleftrightarrow> x \<in> set xs"

fun zop_code :: "'a zop \<Rightarrow> 'a zstate \<Rightarrow> 'a zstate option" where
  "zop_code (Prepend x) z = ZLIST_PREPEND x z"
| "zop_code (Append x) z = ZLIST_APPEND x z"
| "zop_code (InsertAfter c x) z = ZLIST_INSERTAFTER c x z"
| "zop_code (Remove x) z = Some (ZLIST_REMOVE x z)"
| "zop_code (MoveToHead x) z = ZLIST_MOVETOHEAD x z"

fun zops_allowed :: "'a zop list \<Rightarrow> 'a list \<Rightarrow> bool" where
  "zops_allowed [] xs \<longleftrightarrow> True"
| "zops_allowed (op # ops) xs \<longleftrightarrow> zop_allowed op xs \<and> zops_allowed ops (zop_spec op xs)"

fun zops_code :: "'a zop list \<Rightarrow> 'a zstate \<Rightarrow> 'a zstate option" where
  "zops_code [] z = Some z"
| "zops_code (op # ops) z = do { z' \<leftarrow> zop_code op z; zops_code ops z' }"

lemma insert_after_split: "c \<notin> set us \<Longrightarrow> insert_after c x (us @ c # vs) = us @ c # x # vs"
  by (induction us) auto

lemma zop_refines:
  assumes "zl_rep z xs" "zop_allowed op xs"
  shows "\<exists>z'. zop_code op z = Some z' \<and> zl_rep z' (zop_spec op xs)"
proof (cases op)
  case (InsertAfter c x)
  then obtain us vs where "xs = us @ c # vs" "c \<notin> set us"
    using assms(2) split_list_first [of c xs] by auto
  with ZLIST_INSERTAFTER_rep [of z us c vs x] assms InsertAfter show ?thesis
    by (simp add: insert_after_split)
next
  case (Prepend x)
  with assms ZLIST_PREPEND_rep [OF assms(1), of x] show ?thesis by auto
next
  case (Append x)
  with assms ZLIST_APPEND_rep [OF assms(1), of x] show ?thesis by auto
next
  case (Remove x)
  with assms ZLIST_REMOVE_rep(1) [OF assms(1), of x] show ?thesis by simp
next
  case (MoveToHead x)
  with assms ZLIST_MOVETOHEAD_rep [OF assms(1), of x] show ?thesis by simp
qed

section \<open>Properties\<close>

text \<open>
  C36. Any sequence of list operations, each called as it may be, runs without dereferencing
  a null link and leaves head, tail, count and links describing the list that the
  same operations on plain lists give.
\<close>

theorem zlist_ops_refine:
  assumes "zl_rep z xs" "zops_allowed ops xs"
  shows "\<exists>z'. zops_code ops z = Some z' \<and> zl_rep z' (fold zop_spec ops xs)"
  using assms
proof (induction ops arbitrary: z xs)
  case (Cons op ops)
  then obtain z1 where "zop_code op z = Some z1" "zl_rep z1 (zop_spec op xs)"
    using zop_refines [of z xs op] by auto
  with Cons show ?case by simp
qed simp

theorem zlist_ops_refine_witness:
  "\<exists>z'. zops_code [Append 1, Append 2, InsertAfter 1 3, MoveToHead 2, Remove 3]
          (\<lambda>_. \<lparr>zl_prev = None, zl_next = None\<rparr>, ZLIST_INIT) = Some z' \<and>
        zl_rep z' [2, 1 :: nat]"
  using zlist_ops_refine [OF ZLIST_INIT_rep,
      of "[Append 1, Append 2, InsertAfter 1 3, MoveToHead 2, Remove 3 :: nat zop]"
         "\<lambda>_. \<lparr>zl_prev = None, zl_next = None\<rparr>"] by simp

text \<open>
  \<open>ZLIST_DESTROY\<close> calls the function on every object of the list, once and in list order,
  after it has reset the links of the object, and leaves the list empty.
\<close>

theorem zlist_destroy_visits_all:
  assumes "zl_rep z xs"
  shows "\<exists>z'. ZLIST_DESTROY f z s = Some (z', fold f xs s) \<and> zl_rep z' []"
  by (rule ZLIST_DESTROY_rep [OF assms])

theorem zlist_destroy_visits_all_witness:
  "\<exists>z z'. ZLIST_APPEND (7 :: nat) (\<lambda>_. \<lparr>zl_prev = None, zl_next = None\<rparr>, ZLIST_INIT) = Some z \<and>
     ZLIST_DESTROY (#) z [] = Some (z', [7]) \<and> zl_rep z' []"
proof -
  let ?z = "(\<lambda>_. \<lparr>zl_prev = None, zl_next = None\<rparr>, ZLIST_INIT)"
  obtain z where z: "ZLIST_APPEND (7 :: nat) ?z = Some z" "zl_rep z [7]"
    using ZLIST_APPEND_rep [OF ZLIST_INIT_rep, of "7 :: nat" "fst ?z"]
    by (metis append_Nil empty_iff empty_set fst_conv)
  from zlist_destroy_visits_all [OF z(2), of "(#)" "[]"] z(1) show ?thesis by auto
qed

text \<open>
  \<open>ZLIST_CONCAT\<close> moves the second list behind the first and empties the second header;
  an empty list on either side is no exception.
\<close>

theorem zlist_concat_joins:
  assumes "zl_rep (L, l1) xs" "zl_rep (L, l2) ys" "set xs \<inter> set ys = {}"
  shows "\<exists>L' l1' l2'. ZLIST_CONCAT L l1 l2 = Some (L', l1', l2') \<and>
           zl_rep (L', l1') (xs @ ys) \<and> zl_rep (L', l2') []"
  by (rule ZLIST_CONCAT_rep [OF assms])

theorem zlist_concat_joins_witness:
  "\<exists>L' l1' l2'. ZLIST_CONCAT (\<lambda>_. \<lparr>zl_prev = None, zl_next = None\<rparr>) ZLIST_INIT
       \<lparr>zlist_head = Some (4 :: nat), zlist_tail = Some 4, zlist_count = 1\<rparr> = Some (L', l1', l2') \<and>
     zl_rep (L', l1') [4] \<and> zl_rep (L', l2') []"
  using zlist_concat_joins [OF ZLIST_INIT_rep, of "\<lambda>_. \<lparr>zl_prev = None, zl_next = None\<rparr>"
      "\<lparr>zlist_head = Some (4 :: nat), zlist_tail = Some 4, zlist_count = 1\<rparr>" "[4]"]
  by (simp add: zl_rep_def)

end
