(* ===== verification/Machine.thy ===== *)
theory Machine
  imports Prelude "HOL-Library.Word"
begin

unbundle bit_operations_syntax

text \<open>
  Addresses and sizes of the 64-bit build, with the pointer macros of \<open>include/twapi.h\<close>.

  Addresses and \<open>DWORD\<close> values are natural numbers with the wrap-around of the C type
  written out; signed 32-bit values are integers. The lemmas at the end of the first section
  show that the alignment macros are the bit masks of the source.
\<close>

section \<open>Fixed-width arithmetic\<close>

type_synonym addr = nat

abbreviation (input) NULL :: addr where "NULL \<equiv> 0"

definition DWORD :: "nat \<Rightarrow> nat" where
  "DWORD n = n mod 2 ^ 32"

definition UDWORD :: "int \<Rightarrow> nat" where
  "UDWORD z = nat (z mod 2 ^ 32)"

definition INT32 :: "int \<Rightarrow> int" where
  "INT32 z = (z + 2 ^ 31) mod 2 ^ 32 - 2 ^ 31"

text \<open>C division of signed integers truncates towards zero.\<close>

definition CDIV :: "int \<Rightarrow> int \<Rightarrow> int" where
  "CDIV a b = sgn a * sgn b * (\<bar>a\<bar> div \<bar>b\<bar>)"

definition INT_MAX :: nat where
  "INT_MAX = 2147483647"

definition ROUNDUP :: "nat \<Rightarrow> nat" where
  "ROUNDUP x = (7 + x) mod 2 ^ 64 div 8 * 8"

definition ROUNDDOWN :: "nat \<Rightarrow> nat" where
  "ROUNDDOWN x = x div 8 * 8"

definition ALIGNPTR :: "addr \<Rightarrow> nat \<Rightarrow> addr" where
  "ALIGNPTR base offset = ROUNDUP ((offset + base) mod 2 ^ 64)"

definition ADDPTR :: "addr \<Rightarrow> nat \<Rightarrow> addr" where
  "ADDPTR p incr = (incr + p) mod 2 ^ 64"

definition SUBPTR :: "addr \<Rightarrow> nat \<Rightarrow> addr" where
  "SUBPTR p decr = nat ((int p - int decr) mod 2 ^ 64)"

definition PTRDIFF32 :: "addr \<Rightarrow> addr \<Rightarrow> int" where
  "PTRDIFF32 p q = INT32 (int p - int q)"

text \<open>\<open>ALIGNMASK\<close> is \<open>~7\<close>: the masks of the source, on 64-bit words.\<close>

lemma and_not_7: "(x :: 64 word) AND NOT 7 = word_of_nat (unat x div 8 * 8)"
proof -
  have m: "(7 :: 64 word) = mask 3" by (simp add: mask_eq_exp_minus_1)
  have "x AND NOT 7 = push_bit 3 (drop_bit 3 x)"
    unfolding m by (rule bit_word_eqI) (auto simp: bit_simps)
  also have "\<dots> = word_of_nat (unat x div 8 * 8)"
    by (simp add: push_bit_eq_mult drop_bit_eq_div word_arith_nat_div)
  finally show ?thesis .
qed

lemma unat_of_nat64: "n < 2 ^ 64 \<Longrightarrow> unat (word_of_nat n :: 64 word) = n"
  by (simp add: unat_of_nat take_bit_nat_eq_self)

lemma ROUNDUP_word: "ROUNDUP (unat x) = unat ((7 + x :: 64 word) AND NOT 7)"
proof -
  have "unat (7 + x) = (7 + unat x) mod 2 ^ 64"
    by (simp add: unat_word_ariths)
  moreover have "(7 + unat x) mod 2 ^ 64 div 8 * 8 < 2 ^ 64"
    by (rule le_less_trans [of _ "(7 + unat x) mod 2 ^ 64"]) simp_all
  ultimately show ?thesis
    unfolding and_not_7 ROUNDUP_def by (simp only: unat_of_nat64)
qed

lemma ROUNDDOWN_word: "ROUNDDOWN (unat x) = unat (NOT 7 AND x :: 64 word)"
proof -
  have "unat x div 8 * 8 < 2 ^ 64"
  proof (rule le_less_trans)
    show "unat x < 2 ^ 64" using unsigned_less [of x, where ?'a = nat] by simp
  qed simp
  then show ?thesis
    unfolding and.commute [of "NOT 7"] and_not_7 ROUNDDOWN_def by (simp only: unat_of_nat64)
qed

section \<open>In range, the macros are plain arithmetic\<close>

lemma DWORD_id [machine_simps]: "n < 2 ^ 32 \<Longrightarrow> DWORD n = n"
  by (simp add: DWORD_def)

lemma INT32_id [machine_simps]: "- (2 ^ 31) \<le> z \<Longrightarrow> z < 2 ^ 31 \<Longrightarrow> INT32 z = z"
  by (simp add: INT32_def)

lemma UDWORD_id [machine_simps]: "0 \<le> z \<Longrightarrow> z < 2 ^ 32 \<Longrightarrow> UDWORD z = nat z"
  by (simp add: UDWORD_def)

lemma ADDPTR_id [machine_simps]: "p + n < 2 ^ 64 \<Longrightarrow> ADDPTR p n = p + n"
  by (simp add: ADDPTR_def)

lemma SUBPTR_id [machine_simps]: "n \<le> p \<Longrightarrow> p < 2 ^ 64 \<Longrightarrow> SUBPTR p n = p - n"
  by (simp add: SUBPTR_def flip: of_nat_diff)

lemma PTRDIFF32_id [machine_simps]: "q \<le> p \<Longrightarrow> p - q < 2 ^ 31 \<Longrightarrow> PTRDIFF32 p q = int (p - q)"
  by (simp add: PTRDIFF32_def INT32_id)

lemma ROUNDUP_bounds:
  assumes "x + 7 < 2 ^ 64"
  shows "x \<le> ROUNDUP x" "ROUNDUP x \<le> x + 7" "8 dvd ROUNDUP x"
  using assms by (simp_all add: ROUNDUP_def)

lemma ROUNDUP_aligned: "8 dvd x \<Longrightarrow> x + 7 < 2 ^ 64 \<Longrightarrow> ROUNDUP x = x"
  by (auto simp: ROUNDUP_def elim!: dvdE)

lemma ROUNDDOWN_bounds: "ROUNDDOWN x \<le> x" "8 dvd ROUNDDOWN x"
  by (simp_all add: ROUNDDOWN_def)

lemma ALIGNPTR_id [machine_simps]:
  "8 dvd base \<Longrightarrow> 8 dvd off \<Longrightarrow> base + off + 7 < 2 ^ 64 \<Longrightarrow> ALIGNPTR base off = base + off"
  by (simp add: ALIGNPTR_def ROUNDUP_aligned add.commute)

end
