(* ===== verification/Memlifo.thy ===== *)
theory Memlifo
  imports Machine
begin

text \<open>
  The last-in-first-out memory pool of \<open>base/memlifo.c\<close> (interface in
  \<open>include/memlifo.h\<close>), as the 64-bit release build compiles it: the fields and the
  assertions that exist only in the debug build are left out.

  The pool and the memory it lives in are one record. Chunk headers and marks are typed
  heaps: maps from the address of a descriptor to its contents. The bytes of the user areas
  are a separate function. That marks, chunk headers and user areas share the same
  chunks without overlapping is what the invariant of the theory \<open>Memlifo_Inv\<close> shows.
  Freeing a chunk removes its header and every mark stored in it; reading a descriptor that
  is not there has no result (\<open>None\<close>).

  The chunk allocator is code of the caller or of Windows: two function parameters kept in
  the pool as the two function pointers are.
\<close>

section \<open>State\<close>

record chunk =
  lc_prev :: addr
  lc_end :: addr

record mark =
  lm_lifo :: addr
  lm_prev :: addr
  lm_last_alloc :: addr
  lm_big_blocks :: addr
  lm_chunks :: addr
  lm_freeptr :: addr

record 'h memlifo =
  lifo_self :: addr
  lifo_allocator_data :: 'h
  lifo_allocFn :: "'h \<Rightarrow> nat \<Rightarrow> 'h \<times> (addr \<times> nat) option"
  lifo_freeFn :: "'h \<Rightarrow> addr \<Rightarrow> 'h"
  lifo_top_mark :: addr
  lifo_bot_mark :: addr
  lifo_chunk_size :: nat
  lifo_flags :: nat
  lifo_magic :: nat
  mem_chunks :: "addr \<rightharpoonup> chunk"
  mem_marks :: "addr \<rightharpoonup> mark"
  mem_bytes :: "addr \<Rightarrow> nat"

text \<open>
  What an operation returns: it panics, or returns a pointer (\<open>NULL\<close> on failure) and, if
  the caller passed a non-null \<open>actual_szP\<close>, the size it stored there.
\<close>

datatype lifo_ret = LPanic | LRet (lr_ptr: addr) (lr_actual: "nat option")

definition sizeof_chunk :: nat where "sizeof_chunk = 16"

definition sizeof_mark :: nat where "sizeof_mark = 56"

definition MEMLIFO_MAX_ALLOC :: nat where "MEMLIFO_MAX_ALLOC = INT_MAX"

definition MEMLIFO_F_PANIC_ON_FAIL :: nat where "MEMLIFO_F_PANIC_ON_FAIL = 1"

definition MEMLIFO_MAGIC :: nat where "MEMLIFO_MAGIC = 0xb92c610a"

definition lifo_fail :: "'h memlifo \<Rightarrow> lifo_ret" where
  "lifo_fail s = (if lifo_flags s AND MEMLIFO_F_PANIC_ON_FAIL \<noteq> 0 then LPanic else LRet NULL None)"

definition set_mark :: "addr \<Rightarrow> mark \<Rightarrow> 'h memlifo \<Rightarrow> 'h memlifo" where
  "set_mark a m s = s\<lparr>mem_marks := (mem_marks s)(a \<mapsto> m)\<rparr>"

definition set_chunk :: "addr \<Rightarrow> chunk \<Rightarrow> 'h memlifo \<Rightarrow> 'h memlifo" where
  "set_chunk a c s = s\<lparr>mem_chunks := (mem_chunks s)(a \<mapsto> c)\<rparr>"

definition call_alloc :: "'h memlifo \<Rightarrow> nat \<Rightarrow> 'h memlifo \<times> (addr \<times> nat) option" where
  "call_alloc s sz =
     (let (h, r) = lifo_allocFn s (lifo_allocator_data s) sz in (s\<lparr>lifo_allocator_data := h\<rparr>, r))"

definition call_free :: "addr \<Rightarrow> 'h memlifo \<Rightarrow> 'h memlifo" where
  "call_free p s =
     (let hi = (case mem_chunks s p of None \<Rightarrow> p | Some c \<Rightarrow> lc_end c) in
      s\<lparr>lifo_allocator_data := lifo_freeFn s (lifo_allocator_data s) p,
        mem_chunks := (mem_chunks s)(p := None),
        mem_marks := (\<lambda>a. if p \<le> a \<and> a < hi then None else mem_marks s a)\<rparr>)"

section \<open>Initialisation\<close>

text \<open>
  The default allocator calls \<open>HeapAlloc\<close>, \<open>HeapSize\<close> and \<open>HeapFree\<close>, which are
  parameters here.
\<close>

definition MemLifoDefaultAlloc ::
    "('h \<Rightarrow> nat \<Rightarrow> 'h \<times> addr) \<Rightarrow> ('h \<Rightarrow> addr \<Rightarrow> nat) \<Rightarrow> 'h \<Rightarrow> nat \<Rightarrow> 'h \<times> (addr \<times> nat) option" where
  "MemLifoDefaultAlloc HeapAlloc HeapSize heap sz =
     (let (h, p) = HeapAlloc heap sz; actual = DWORD (HeapSize h p)
      in (h, if p = NULL then None else Some (p, actual)))"

definition MemLifoDefaultFree :: "('h \<Rightarrow> addr \<Rightarrow> 'h) \<Rightarrow> 'h \<Rightarrow> addr \<Rightarrow> 'h" where
  "MemLifoDefaultFree HeapFree heap p = HeapFree heap p"

datatype 'h lifo_allocator =
    CustomAlloc 'h "'h \<Rightarrow> nat \<Rightarrow> 'h \<times> (addr \<times> nat) option" "'h \<Rightarrow> addr \<Rightarrow> 'h"
  | DefaultAlloc "nat + 'h" "'h \<Rightarrow> nat \<Rightarrow> 'h \<times> addr" "'h \<Rightarrow> addr \<Rightarrow> nat" "'h \<Rightarrow> addr \<Rightarrow> 'h"

datatype 'h lifo_init = InitOk "'h memlifo" | InitErr nat | InitPanic

definition ERROR_OUTOFMEMORY :: nat where "ERROR_OUTOFMEMORY = 14"

definition lifo_init_with ::
    "addr \<Rightarrow> 'h \<Rightarrow> ('h \<Rightarrow> nat \<Rightarrow> 'h \<times> (addr \<times> nat) option) \<Rightarrow> ('h \<Rightarrow> addr \<Rightarrow> 'h) \<Rightarrow>
     nat \<Rightarrow> nat \<Rightarrow> (addr \<Rightarrow> nat) \<Rightarrow> 'h lifo_init" where
  "lifo_init_with l allocator_data allocFunc freeFunc chunk_sz0 flags bytes =
     (let chunk_sz = (if chunk_sz0 < 1000 then 1000 else chunk_sz0);
          (h, r) = allocFunc allocator_data chunk_sz
      in case r of
           None \<Rightarrow> if flags AND MEMLIFO_F_PANIC_ON_FAIL \<noteq> 0 then InitPanic
                   else InitErr ERROR_OUTOFMEMORY
         | Some (c, actual_chunk_sz) \<Rightarrow>
             let m = ALIGNPTR c sizeof_chunk in
             InitOk \<lparr>lifo_self = l, lifo_allocator_data = h, lifo_allocFn = allocFunc,
                 lifo_freeFn = freeFunc, lifo_top_mark = m, lifo_bot_mark = m,
                 lifo_chunk_size = DWORD (ROUNDUP chunk_sz), lifo_flags = flags,
                 lifo_magic = MEMLIFO_MAGIC,
                 mem_chunks = [c \<mapsto> \<lparr>lc_prev = NULL, lc_end = ADDPTR c actual_chunk_sz\<rparr>],
                 mem_marks = [m \<mapsto> \<lparr>lm_lifo = l, lm_prev = m, lm_last_alloc = NULL,
                     lm_big_blocks = NULL, lm_chunks = c,
                     lm_freeptr = ALIGNPTR m sizeof_mark\<rparr>],
                 mem_bytes = bytes\<rparr>)"

definition MemLifoInit ::
    "addr \<Rightarrow> 'h lifo_allocator \<Rightarrow> nat \<Rightarrow> nat \<Rightarrow> (addr \<Rightarrow> nat) \<Rightarrow> 'h lifo_init" where
  "MemLifoInit l a chunk_sz flags bytes = (case a of
      DefaultAlloc heap HeapAlloc HeapSize HeapFree \<Rightarrow>
        (case heap of
           Inl err \<Rightarrow> InitErr err
         | Inr h \<Rightarrow> lifo_init_with l h (MemLifoDefaultAlloc HeapAlloc HeapSize)
                      (MemLifoDefaultFree HeapFree) chunk_sz flags bytes)
    | CustomAlloc h allocFunc freeFunc \<Rightarrow>
        lifo_init_with l h allocFunc freeFunc chunk_sz flags bytes)"

section \<open>Allocation\<close>

text \<open>Little space left in the current chunk: a new chunk is put on the list of the top mark.\<close>

definition lifo_alloc_chunk :: "'h memlifo \<Rightarrow> mark \<Rightarrow> nat \<Rightarrow> bool \<Rightarrow> 'h memlifo \<times> lifo_ret" where
  "lifo_alloc_chunk s m sz want =
     (let chunk_sz = (if sz > lifo_chunk_size s div 2 then DWORD (sz + lifo_chunk_size s)
                      else lifo_chunk_size s);
          chunk_sz = DWORD (chunk_sz + ROUNDUP sizeof_chunk);
          (s1, r) = call_alloc s chunk_sz
      in case r of
           None \<Rightarrow> (s1, lifo_fail s)
         | Some (c, chunk_sz) \<Rightarrow>
             let s2 = set_chunk c \<lparr>lc_prev = lm_chunks m, lc_end = ADDPTR c chunk_sz\<rparr> s1;
                 last_alloc = ALIGNPTR c sizeof_chunk;
                 freeptr = ALIGNPTR last_alloc sz;
                 s3 = set_mark (lifo_top_mark s)
                        (m\<lparr>lm_chunks := c, lm_last_alloc := last_alloc, lm_freeptr := freeptr\<rparr>) s2
             in (s3, LRet last_alloc
                   (if want then Some (UDWORD (PTRDIFF32 freeptr last_alloc)) else None)))"

text \<open>Otherwise the request gets a big block of its own, and the free pointer stays.\<close>

definition lifo_alloc_big :: "'h memlifo \<Rightarrow> mark \<Rightarrow> nat \<Rightarrow> bool \<Rightarrow> 'h memlifo \<times> lifo_ret" where
  "lifo_alloc_big s m sz want =
     (let chunk_sz = DWORD (sz + ROUNDUP sizeof_chunk);
          (s1, r) = call_alloc s chunk_sz
      in case r of
           None \<Rightarrow> (s1, lifo_fail s)
         | Some (c, actual_size) \<Rightarrow>
             let cend = ADDPTR c actual_size;
                 s2 = set_chunk c \<lparr>lc_prev = lm_big_blocks m, lc_end = cend\<rparr> s1;
                 last_alloc = ALIGNPTR c sizeof_chunk;
                 s3 = set_mark (lifo_top_mark s)
                        (m\<lparr>lm_big_blocks := c, lm_last_alloc := last_alloc\<rparr>) s2
             in (s3, LRet last_alloc
                   (if want then Some (UDWORD (PTRDIFF32 cend last_alloc)) else None)))"

definition MemLifoAlloc :: "'h memlifo \<Rightarrow> nat \<Rightarrow> bool \<Rightarrow> ('h memlifo \<times> lifo_ret) option" where
  "MemLifoAlloc s sz0 want =
     (if sz0 > MEMLIFO_MAX_ALLOC then Some (s, lifo_fail s)
      else do {
        m \<leftarrow> mem_marks s (lifo_top_mark s);
        let sz = DWORD (ROUNDUP sz0);
        let p = ADDPTR (lm_freeptr m) sz;
        k \<leftarrow> mem_chunks s (lm_chunks m);
        if p > lm_chunks m \<and> p \<le> lc_end k
        then (let last_alloc = lm_freeptr m;
                  freeptr = (if want then lc_end k else p)
              in Some (set_mark (lifo_top_mark s)
                         (m\<lparr>lm_last_alloc := last_alloc, lm_freeptr := freeptr\<rparr>) s,
                       LRet last_alloc
                         (if want then Some (UDWORD (PTRDIFF32 freeptr last_alloc)) else None)))
        else if PTRDIFF32 (lc_end k) (lm_freeptr m) < CDIV (INT32 (int (lifo_chunk_size s))) 8
        then Some (lifo_alloc_chunk s m sz want)
        else Some (lifo_alloc_big s m sz want) })"

text \<open>\<open>memcpy\<close> and \<open>memset\<close> on the bytes.\<close>

definition copy_bytes :: "addr \<Rightarrow> addr \<Rightarrow> nat \<Rightarrow> 'h memlifo \<Rightarrow> 'h memlifo" where
  "copy_bytes dst src n s =
     s\<lparr>mem_bytes := (\<lambda>a. if dst \<le> a \<and> a < dst + n then mem_bytes s (src + (a - dst))
                         else mem_bytes s a)\<rparr>"

definition zero_bytes :: "addr \<Rightarrow> nat \<Rightarrow> 'h memlifo \<Rightarrow> 'h memlifo" where
  "zero_bytes dst n s =
     s\<lparr>mem_bytes := (\<lambda>a. if dst \<le> a \<and> a < dst + n then 0 else mem_bytes s a)\<rparr>"

definition MemLifoCopy :: "'h memlifo \<Rightarrow> addr \<Rightarrow> nat \<Rightarrow> ('h memlifo \<times> lifo_ret) option" where
  "MemLifoCopy s srcP nbytes = do {
     (s1, r) \<leftarrow> MemLifoAlloc s nbytes False;
     (case r of
        LPanic \<Rightarrow> Some (s1, LPanic)
      | LRet dstP _ \<Rightarrow>
          Some (if dstP \<noteq> NULL then copy_bytes dstP srcP nbytes s1 else s1, LRet dstP None)) }"

definition MemLifoZeroes :: "'h memlifo \<Rightarrow> nat \<Rightarrow> ('h memlifo \<times> lifo_ret) option" where
  "MemLifoZeroes s nbytes = do {
     (s1, r) \<leftarrow> MemLifoAlloc s nbytes False;
     (case r of
        LPanic \<Rightarrow> Some (s1, LPanic)
      | LRet dstP _ \<Rightarrow>
          Some (if dstP \<noteq> NULL then zero_bytes dstP nbytes s1 else s1, LRet dstP None)) }"

section \<open>Marks\<close>

definition MemLifoPushMark :: "'h memlifo \<Rightarrow> ('h memlifo \<times> lifo_ret) option" where
  "MemLifoPushMark s = do {
     m \<leftarrow> mem_marks s (lifo_top_mark s);
     let mark_sz = ROUNDUP sizeof_mark;
     let p = ADDPTR (lm_freeptr m) mark_sz;
     k \<leftarrow> mem_chunks s (lm_chunks m);
     if p > lm_chunks m \<and> p \<le> lc_end k
     then (let n = lm_freeptr m in
           Some (set_mark n \<lparr>lm_lifo = lifo_self s, lm_prev = lifo_top_mark s,
                     lm_last_alloc = NULL, lm_big_blocks = lm_big_blocks m,
                     lm_chunks = lm_chunks m, lm_freeptr = p\<rparr> (s\<lparr>lifo_top_mark := n\<rparr>),
                 LRet n None))
     else (let (s1, r) = call_alloc s (lifo_chunk_size s) in
           case r of
             None \<Rightarrow> Some (s1, lifo_fail s)
           | Some (c, chunk_sz) \<Rightarrow>
               let s2 = set_chunk c \<lparr>lc_prev = lm_chunks m, lc_end = ADDPTR c chunk_sz\<rparr> s1;
                   n = ALIGNPTR c sizeof_chunk
               in Some (set_mark n \<lparr>lm_lifo = lifo_self s, lm_prev = lifo_top_mark s,
                            lm_last_alloc = NULL, lm_big_blocks = lm_big_blocks m,
                            lm_chunks = c, lm_freeptr = ALIGNPTR n sizeof_mark\<rparr>
                          (s2\<lparr>lifo_top_mark := n\<rparr>),
                        LRet n None)) }"

partial_function (option) lifo_free_chain ::
    "addr \<Rightarrow> addr \<Rightarrow> 'h memlifo \<Rightarrow> 'h memlifo option" where
  "lifo_free_chain c1 stop s =
     (if c1 = stop then Some s
      else do {
        k \<leftarrow> mem_chunks s c1;
        lifo_free_chain (lc_prev k) stop (call_free c1 s) })"

definition MemLifoPopMark :: "'h memlifo \<Rightarrow> addr \<Rightarrow> 'h memlifo option" where
  "MemLifoPopMark s mp = do {
     m \<leftarrow> mem_marks s mp;
     let np = lm_prev m;
     n \<leftarrow> mem_marks s np;
     s1 \<leftarrow> (if lm_big_blocks m \<noteq> lm_big_blocks n \<or> lm_chunks m \<noteq> lm_chunks n
           then do {
             s' \<leftarrow> lifo_free_chain (lm_big_blocks m) (lm_big_blocks n) s;
             lifo_free_chain (lm_chunks m) (lm_chunks n) s' }
           else Some s);
     n' \<leftarrow> mem_marks s1 np;
     if lm_lifo n' = lifo_self s1 then Some (s1\<lparr>lifo_top_mark := np\<rparr>) else None }"

definition MemLifoPopFrame :: "'h memlifo \<Rightarrow> 'h memlifo option" where
  "MemLifoPopFrame s = MemLifoPopMark s (lifo_top_mark s)"

text \<open>\<open>MemLifoClose\<close> ends with the pool structure zeroed: no pool is left, only the heap.\<close>

definition MemLifoClose :: "'h memlifo \<Rightarrow> 'h memlifo option" where
  "MemLifoClose s = do {
     s1 \<leftarrow> MemLifoPopMark s (lifo_bot_mark s);
     b \<leftarrow> mem_marks s1 (lifo_bot_mark s1);
     let s2 = call_free (lm_chunks b) s1;
     Some (s2\<lparr>lifo_top_mark := NULL, lifo_bot_mark := NULL, lifo_chunk_size := 0,
              lifo_flags := 0, lifo_magic := 0\<rparr>) }"

section \<open>Frames and the last allocation\<close>

definition MemLifoPushFrame :: "'h memlifo \<Rightarrow> nat \<Rightarrow> bool \<Rightarrow> ('h memlifo \<times> lifo_ret) option" where
  "MemLifoPushFrame s sz0 want =
     (if sz0 > MEMLIFO_MAX_ALLOC then Some (s, lifo_fail s)
      else do {
        m \<leftarrow> mem_marks s (lifo_top_mark s);
        let sz = DWORD (ROUNDUP sz0);
        let total = DWORD (sz + ROUNDUP sizeof_mark);
        let p = ADDPTR (lm_freeptr m) total;
        k \<leftarrow> mem_chunks s (lm_chunks m);
        if p > lm_chunks m \<and> p \<le> lc_end k
        then (let n = lm_freeptr m;
                  last_alloc = ALIGNPTR n sizeof_mark;
                  freeptr = (if want then lc_end k else p)
              in Some (set_mark n \<lparr>lm_lifo = lifo_self s, lm_prev = lifo_top_mark s,
                           lm_last_alloc = last_alloc, lm_big_blocks = lm_big_blocks m,
                           lm_chunks = lm_chunks m, lm_freeptr = freeptr\<rparr>
                         (s\<lparr>lifo_top_mark := n\<rparr>),
                       LRet last_alloc
                         (if want then Some (UDWORD (PTRDIFF32 freeptr last_alloc)) else None)))
        else do {
          (s1, r) \<leftarrow> MemLifoPushMark s;
          (case r of
             LPanic \<Rightarrow> Some (s1, LPanic)
           | LRet n _ \<Rightarrow>
               if n \<noteq> NULL then do {
                 (s2, r2) \<leftarrow> MemLifoAlloc s1 sz want;
                 (case r2 of
                    LPanic \<Rightarrow> Some (s2, LPanic)
                  | LRet p _ \<Rightarrow>
                      if p \<noteq> NULL then Some (s2, r2)
                      else do { s3 \<leftarrow> MemLifoPopMark s2 n; Some (s3, lifo_fail s3) }) }
               else Some (s1, lifo_fail s1)) } })"

definition lifo_is_big_block :: "mark \<Rightarrow> bool" where
  "lifo_is_big_block m \<longleftrightarrow> lm_last_alloc m = ADDPTR (lm_big_blocks m) sizeof_chunk"

definition lifo_expand_move_big ::
    "'h memlifo \<Rightarrow> mark \<Rightarrow> nat \<Rightarrow> nat \<Rightarrow> ('h memlifo \<times> lifo_ret) option" where
  "lifo_expand_move_big s m old_sz sz =
     (let chunk_sz = DWORD (sz + ROUNDUP sizeof_chunk);
          (s1, r) = call_alloc s chunk_sz
      in case r of
           None \<Rightarrow> Some (s1, LRet NULL None)
         | Some (c, actual_size) \<Rightarrow> do {
             let p2 = ADDPTR c sizeof_chunk;
             let s2 = copy_bytes p2 (lm_last_alloc m) old_sz s1;
             k \<leftarrow> mem_chunks s (lm_big_blocks m);
             let s3 = set_chunk c \<lparr>lc_prev = lc_prev k, lc_end = ADDPTR c actual_size\<rparr> s2;
             let s4 = call_free (lm_big_blocks m) s3;
             Some (set_mark (lifo_top_mark s) (m\<lparr>lm_big_blocks := c, lm_last_alloc := p2\<rparr>) s4,
                   LRet p2 None) })"

definition MemLifoExpandLast ::
    "'h memlifo \<Rightarrow> nat \<Rightarrow> bool \<Rightarrow> ('h memlifo \<times> lifo_ret) option" where
  "MemLifoExpandLast s incr0 fix = do {
     m \<leftarrow> mem_marks s (lifo_top_mark s);
     let p = lm_last_alloc m;
     if p = NULL then MemLifoAlloc s incr0 False
     else do {
       let incr = DWORD (ROUNDUP incr0);
       let is_big = lifo_is_big_block m;
       k \<leftarrow> mem_chunks s (lm_chunks m);
       if \<not> is_big \<and> PTRDIFF32 (lc_end k) (lm_freeptr m) \<ge> INT32 (int incr)
       then Some (set_mark (lifo_top_mark s) (m\<lparr>lm_freeptr := ADDPTR (lm_freeptr m) incr\<rparr>) s,
                  LRet p None)
       else if fix then Some (s, LRet NULL None)
       else do {
         old_sz \<leftarrow>
           (if is_big then do {
              kb \<leftarrow> mem_chunks s (lm_big_blocks m);
              Some (UDWORD (PTRDIFF32 (lc_end kb) (lm_big_blocks m) - int (ROUNDUP sizeof_chunk))) }
            else Some (UDWORD (PTRDIFF32 (lm_freeptr m) (lm_last_alloc m))));
         let sz = DWORD (old_sz + incr);
         if sz > MEMLIFO_MAX_ALLOC then Some (s, LRet NULL None)
         else if is_big then lifo_expand_move_big s m old_sz sz
         else do {
           (s1, r) \<leftarrow> MemLifoAlloc s sz False;
           (case r of
              LPanic \<Rightarrow> Some (s1, LPanic)
            | LRet p2 _ \<Rightarrow>
                Some (if p2 = NULL then s1 else copy_bytes p2 p old_sz s1, LRet p2 None)) } } } }"

definition MemLifoShrinkLast ::
    "'h memlifo \<Rightarrow> nat \<Rightarrow> bool \<Rightarrow> ('h memlifo \<times> lifo_ret) option" where
  "MemLifoShrinkLast s decr0 fix = do {
     m \<leftarrow> mem_marks s (lifo_top_mark s);
     if lm_last_alloc m = NULL then Some (s, LRet NULL None)
     else if \<not> lifo_is_big_block m
     then (let old_sz = UDWORD (PTRDIFF32 (lm_freeptr m) (lm_last_alloc m));
               decr = ROUNDDOWN decr0
           in Some (if decr \<le> old_sz
                    then set_mark (lifo_top_mark s) (m\<lparr>lm_freeptr := SUBPTR (lm_freeptr m) decr\<rparr>) s
                    else s,
                    LRet (lm_last_alloc m) None))
     else Some (s, LRet (lm_last_alloc m) None) }"

definition MemLifoResizeLast ::
    "'h memlifo \<Rightarrow> nat \<Rightarrow> bool \<Rightarrow> ('h memlifo \<times> lifo_ret) option" where
  "MemLifoResizeLast s new_sz0 fix = do {
     m \<leftarrow> mem_marks s (lifo_top_mark s);
     if lm_last_alloc m = NULL then Some (s, LRet NULL None)
     else do {
       let is_big = lifo_is_big_block m;
       let new_sz = DWORD (ROUNDUP new_sz0);
       old_sz \<leftarrow>
         (if is_big then do {
            kb \<leftarrow> mem_chunks s (lm_big_blocks m);
            Some (UDWORD (PTRDIFF32 (lc_end kb) (lm_big_blocks m) - int (ROUNDUP sizeof_chunk))) }
          else Some (UDWORD (PTRDIFF32 (lm_freeptr m) (lm_last_alloc m))));
       if \<not> is_big \<and> new_sz \<le> old_sz
       then Some (set_mark (lifo_top_mark s)
                    (m\<lparr>lm_freeptr := SUBPTR (lm_freeptr m) (old_sz - new_sz)\<rparr>) s,
                  LRet (lm_last_alloc m) None)
       else if old_sz \<ge> new_sz then MemLifoShrinkLast s (old_sz - new_sz) fix
       else MemLifoExpandLast s (new_sz - old_sz) fix } }"

section \<open>Validation\<close>

text \<open>
  \<open>heap_valid\<close> is the answer of \<open>HeapValidate\<close> where the pool uses the default
  allocator, and true otherwise. The walk over the marks ends at the mark that is its own
  predecessor.
\<close>

definition lifo_validate_mark :: "'h memlifo \<Rightarrow> mark \<Rightarrow> int option" where
  "lifo_validate_mark s m =
     (if lm_lifo m \<noteq> lifo_self s then Some (- 6)
      else do {
        k \<leftarrow> mem_chunks s (lm_chunks m);
        let r = (if lm_last_alloc m \<noteq> NULL
                 then (if lm_last_alloc m < lm_chunks m then - 8
                       else if lm_last_alloc m \<ge> lc_end k \<and>
                               (lm_big_blocks m = NULL \<or>
                                lm_last_alloc m \<noteq> ADDPTR (lm_big_blocks m) (ROUNDUP sizeof_chunk))
                       then - 9 else 0)
                 else 0);
        Some (if r \<noteq> 0 then r else if lm_freeptr m > lc_end k then - 10 else 0) })"

partial_function (option) lifo_validate_marks :: "'h memlifo \<Rightarrow> addr \<Rightarrow> int option" where
  "lifo_validate_marks s mp = do {
     m \<leftarrow> mem_marks s mp;
     r \<leftarrow> lifo_validate_mark s m;
     if r \<noteq> 0 then Some r
     else if mp = lm_prev m then Some (if mp \<noteq> lifo_bot_mark s then - 7 else 0)
     else lifo_validate_marks s (lm_prev m) }"

definition MemLifoValidate :: "bool \<Rightarrow> 'h memlifo \<Rightarrow> int option" where
  "MemLifoValidate heap_valid s =
     (if lifo_magic s \<noteq> MEMLIFO_MAGIC then Some (- 1)
      else if \<not> heap_valid then Some (- 2)
      else if lifo_top_mark s = NULL \<or> lifo_bot_mark s = NULL then Some (- 3)
      else lifo_validate_marks s (lifo_top_mark s))"

end
