(* ===== verification/Memlifo_Inv.thy ===== *)
theory Memlifo_Inv
  imports Memlifo
begin

text \<open>
  The invariant of the memory pool and the lemma that every operation keeps it.

  The stack of marks is described by a list of frames, topmost first: the address of the
  mark and the two lists of chunks (ordinary chunks and big blocks) its pointers lead to.
  The region of a frame is the set of addresses that are in use when its mark is on top:
  all its chunks but the free tail of the current one. Each frame's region contains the
  mark of the frame and the region of the frame below; an allocation returns a block outside
  the region and adds it to the region. Hence a block, a mark and a chunk header never
  overlap while they are in use.

  About the chunk allocator the invariant assumes what \<open>memlifo.h\<close> asks of it:
  \<open>allocator_ok\<close>.
\<close>

section \<open>Chains of chunks\<close>

fun chain :: "(addr \<rightharpoonup> chunk) \<Rightarrow> addr \<Rightarrow> addr list \<Rightarrow> bool" where
  "chain C p [] \<longleftrightarrow> p = NULL"
| "chain C p (c # cs) \<longleftrightarrow>
     p = c \<and> c \<noteq> NULL \<and> (case C c of None \<Rightarrow> False | Some k \<Rightarrow> chain C (lc_prev k) cs)"

lemma chain_head: "chain C p cs \<Longrightarrow> p = (if cs = [] then NULL else hd cs)"
  by (cases cs) simp_all

lemma chain_dom: "chain C p cs \<Longrightarrow> set cs \<subseteq> dom C"
  by (induction cs arbitrary: p) (auto split: option.splits)

lemma chain_cong: "(\<And>c. c \<in> set cs \<Longrightarrow> C c = C' c) \<Longrightarrow> chain C p cs \<longleftrightarrow> chain C' p cs"
  by (induction cs arbitrary: p) (auto split: option.splits)

lemma chain_unique: "chain C p cs \<Longrightarrow> chain C p ds \<Longrightarrow> cs = ds"
proof (induction cs arbitrary: p ds)
  case Nil
  then show ?case by (cases ds) auto
next
  case (Cons c cs)
  then obtain ds' where "ds = c # ds'" by (cases ds) (auto split: option.splits)
  with Cons show ?case by (auto split: option.splits)
qed

lemma chain_append:
  "chain C p (cs @ ds) \<Longrightarrow> \<exists>q. chain C q ds \<and> q = (if ds = [] then NULL else hd ds)"
proof (induction cs arbitrary: p)
  case Nil
  then show ?case using chain_head [of C p ds] by auto
next
  case (Cons c cs)
  then show ?case by (auto split: option.splits)
qed

definition cend :: "(addr \<rightharpoonup> chunk) \<Rightarrow> addr \<Rightarrow> addr" where
  "cend C c = (case C c of None \<Rightarrow> c | Some k \<Rightarrow> lc_end k)"

definition ext :: "(addr \<rightharpoonup> chunk) \<Rightarrow> addr \<Rightarrow> addr set" where
  "ext C c = {c ..< cend C c}"

definition region :: "(addr \<rightharpoonup> chunk) \<Rightarrow> addr list \<Rightarrow> addr list \<Rightarrow> addr \<Rightarrow> addr set" where
  "region C cs bs fp =
     ((\<Union>c \<in> set cs. ext C c) - {fp ..< cend C (hd cs)}) \<union> (\<Union>b \<in> set bs. ext C b)"

lemma ext_cong: "C c = C' c \<Longrightarrow> ext C c = ext C' c"
  by (simp add: ext_def cend_def)

lemma region_cong:
  assumes "\<And>c. c \<in> set cs \<union> set bs \<Longrightarrow> C c = C' c" "cs \<noteq> []"
  shows "region C cs bs fp = region C' cs bs fp"
proof -
  have "cend C (hd cs) = cend C' (hd cs)"
    using assms by (simp add: cend_def)
  then show ?thesis
    using assms(1) by (simp add: region_def ext_cong [of C _ C'])
qed

section \<open>The allocator\<close>

definition blocks_disjoint :: "(addr \<rightharpoonup> nat) \<Rightarrow> bool" where
  "blocks_disjoint b \<longleftrightarrow>
     (\<forall>p n q m. b p = Some n \<longrightarrow> b q = Some m \<longrightarrow> p \<noteq> q \<longrightarrow> p + n \<le> q \<or> q + m \<le> p)"

text \<open>
  \<open>B h\<close> are the blocks the allocator has handed out and not got back. A new block is
  aligned, at least as long as requested, shorter than 2 GB (the assumption behind
  \<open>PTRDIFF32\<close>), does not wrap around the address space and is disjoint from all others.
\<close>

definition allocator_ok ::
    "('h \<Rightarrow> nat \<Rightarrow> 'h \<times> (addr \<times> nat) option) \<Rightarrow> ('h \<Rightarrow> addr \<Rightarrow> 'h) \<Rightarrow> ('h \<Rightarrow> addr \<rightharpoonup> nat) \<Rightarrow> bool" where
  "allocator_ok al fr B \<longleftrightarrow>
     (\<forall>h sz h' p n. 16 \<le> sz \<longrightarrow> al h sz = (h', Some (p, n)) \<longrightarrow>
        0 < p \<and> 8 dvd p \<and> 8 dvd n \<and> sz \<le> n \<and> n < 2 ^ 31 \<and> p + n + 8 \<le> 2 ^ 64 \<and>
        B h p = None \<and> (\<forall>q m. B h q = Some m \<longrightarrow> p + n \<le> q \<or> q + m \<le> p) \<and>
        B h' = (B h)(p \<mapsto> n)) \<and>
     (\<forall>h sz h'. al h sz = (h', None) \<longrightarrow> B h' = B h) \<and>
     (\<forall>h p. B (fr h p) = (B h)(p := None))"

definition chunk_ok :: "(addr \<rightharpoonup> nat) \<Rightarrow> addr \<Rightarrow> chunk \<Rightarrow> bool" where
  "chunk_ok b c k \<longleftrightarrow> 0 < c \<and> 8 dvd c \<and> 8 dvd lc_end k \<and> c + 16 \<le> lc_end k \<and>
     lc_end k + 8 \<le> 2 ^ 64 \<and> lc_end k < c + 2 ^ 31 \<and> b c = Some (lc_end k - c)"

definition heap_ok :: "('h \<Rightarrow> addr \<rightharpoonup> nat) \<Rightarrow> 'h memlifo \<Rightarrow> bool" where
  "heap_ok B s \<longleftrightarrow> allocator_ok (lifo_allocFn s) (lifo_freeFn s) B \<and>
     blocks_disjoint (B (lifo_allocator_data s)) \<and>
     (\<forall>c k. mem_chunks s c = Some k \<longrightarrow> chunk_ok (B (lifo_allocator_data s)) c k)"

lemma heap_okD:
  "heap_ok B s \<Longrightarrow> mem_chunks s c = Some k \<Longrightarrow> chunk_ok (B (lifo_allocator_data s)) c k"
  by (simp add: heap_ok_def)

lemma live_disjoint:
  assumes "heap_ok B s" "mem_chunks s c = Some k" "mem_chunks s d = Some j" "c \<noteq> d"
  shows "lc_end k \<le> d \<or> lc_end j \<le> c"
proof -
  let ?b = "B (lifo_allocator_data s)"
  have k: "chunk_ok ?b c k" and j: "chunk_ok ?b d j"
    using assms heap_okD by blast+
  have "blocks_disjoint ?b" using assms(1) by (simp add: heap_ok_def)
  then have "c + (lc_end k - c) \<le> d \<or> d + (lc_end j - d) \<le> c"
    using k j assms(4) unfolding blocks_disjoint_def chunk_ok_def by blast
  with k j show ?thesis by (auto simp: chunk_ok_def)
qed

lemma ext_disjoint:
  assumes "heap_ok B s" "c \<in> dom (mem_chunks s)" "d \<in> dom (mem_chunks s)" "c \<noteq> d"
  shows "ext (mem_chunks s) c \<inter> ext (mem_chunks s) d = {}"
  using assms live_disjoint [OF assms(1)] by (fastforce simp: ext_def cend_def)

section \<open>Frames\<close>

record frame =
  fr_mark :: addr
  fr_chunks :: "addr list"
  fr_bigs :: "addr list"

definition storage :: "addr \<Rightarrow> addr set" where
  "storage a = {a ..< a + sizeof_mark}"

definition mk :: "'h memlifo \<Rightarrow> frame \<Rightarrow> mark" where
  "mk s f = (case mem_marks s (fr_mark f) of
     None \<Rightarrow> \<lparr>lm_lifo = 0, lm_prev = 0, lm_last_alloc = 0, lm_big_blocks = 0, lm_chunks = 0,
             lm_freeptr = 0\<rparr>
   | Some m \<Rightarrow> m)"

definition reg :: "'h memlifo \<Rightarrow> frame \<Rightarrow> addr set" where
  "reg s f = region (mem_chunks s) (fr_chunks f) (fr_bigs f) (lm_freeptr (mk s f))"

text \<open>The region without the last allocation of the frame.\<close>

definition base :: "'h memlifo \<Rightarrow> frame \<Rightarrow> addr set" where
  "base s f =
     (if lm_last_alloc (mk s f) = NULL then reg s f
      else if fr_bigs f \<noteq> [] \<and> lm_last_alloc (mk s f) = hd (fr_bigs f) + 16
      then region (mem_chunks s) (fr_chunks f) (tl (fr_bigs f)) (lm_freeptr (mk s f))
      else region (mem_chunks s) (fr_chunks f) (fr_bigs f) (lm_last_alloc (mk s f)))"

definition last_ok :: "'h memlifo \<Rightarrow> frame \<Rightarrow> bool" where
  "last_ok s f \<longleftrightarrow> (let la = lm_last_alloc (mk s f) in
     la = NULL \<or> (fr_bigs f \<noteq> [] \<and> la = hd (fr_bigs f) + 16) \<or>
     (lm_chunks (mk s f) + 16 \<le> la \<and> la \<le> lm_freeptr (mk s f) \<and> 8 dvd la))"

definition frame_ok :: "'h memlifo \<Rightarrow> frame \<Rightarrow> bool" where
  "frame_ok s f \<longleftrightarrow> mem_marks s (fr_mark f) \<noteq> None \<and> lm_lifo (mk s f) = lifo_self s \<and>
     chain (mem_chunks s) (lm_chunks (mk s f)) (fr_chunks f) \<and>
     chain (mem_chunks s) (lm_big_blocks (mk s f)) (fr_bigs f) \<and>
     fr_chunks f \<noteq> [] \<and> distinct (fr_chunks f @ fr_bigs f) \<and>
     lm_chunks (mk s f) + 16 \<le> lm_freeptr (mk s f) \<and>
     lm_freeptr (mk s f) \<le> cend (mem_chunks s) (lm_chunks (mk s f)) \<and>
     8 dvd lm_freeptr (mk s f) \<and> 8 dvd fr_mark f \<and> 0 < fr_mark f \<and> last_ok s f \<and>
     storage (fr_mark f) \<subseteq> base s f"

definition frame_above :: "'h memlifo \<Rightarrow> frame \<Rightarrow> frame \<Rightarrow> bool" where
  "frame_above s f g \<longleftrightarrow> lm_prev (mk s f) = fr_mark g \<and>
     (\<exists>xs. fr_chunks f = xs @ fr_chunks g) \<and> (\<exists>ys. fr_bigs f = ys @ fr_bigs g) \<and>
     reg s g \<subseteq> base s f \<and> storage (fr_mark f) \<inter> reg s g = {}"

fun frames_ok :: "'h memlifo \<Rightarrow> frame list \<Rightarrow> bool" where
  "frames_ok s [] \<longleftrightarrow> False"
| "frames_ok s [f] \<longleftrightarrow> frame_ok s f \<and> lm_prev (mk s f) = fr_mark f"
| "frames_ok s (f # g # fs) \<longleftrightarrow> frame_ok s f \<and> frame_above s f g \<and> frames_ok s (g # fs)"

definition lifo_inv :: "('h \<Rightarrow> addr \<rightharpoonup> nat) \<Rightarrow> 'h memlifo \<Rightarrow> frame list \<Rightarrow> bool" where
  "lifo_inv B s fs \<longleftrightarrow> heap_ok B s \<and> frames_ok s fs \<and>
     lifo_top_mark s = fr_mark (hd fs) \<and> lifo_bot_mark s = fr_mark (last fs) \<and>
     1000 \<le> lifo_chunk_size s \<and> lifo_chunk_size s < 2 ^ 31 - 16 \<and> 8 dvd lifo_chunk_size s \<and>
     lifo_magic s = MEMLIFO_MAGIC"

lemma frames_ok_hd: "frames_ok s (f # fs) \<Longrightarrow> frame_ok s f"
  by (cases fs) simp_all

lemma frames_ok_tl: "frames_ok s (f # fs) \<Longrightarrow> fs \<noteq> [] \<Longrightarrow> frames_ok s fs \<and> frame_above s f (hd fs)"
  by (cases fs) simp_all

lemma region_mono:
  "set bs \<subseteq> set bs' \<Longrightarrow> fp \<le> fp' \<Longrightarrow> region C cs bs fp \<subseteq> region C cs bs' fp'"
  by (auto simp: region_def)

lemma base_subset_reg: "frame_ok s f \<Longrightarrow> base s f \<subseteq> reg s f"
  unfolding base_def reg_def frame_ok_def last_ok_def Let_def
  using region_mono [of "tl (fr_bigs f)" "fr_bigs f" "lm_freeptr (mk s f)" "lm_freeptr (mk s f)"
      "mem_chunks s" "fr_chunks f"]
    region_mono [of "fr_bigs f" "fr_bigs f" "lm_last_alloc (mk s f)" "lm_freeptr (mk s f)"
      "mem_chunks s" "fr_chunks f"]
  by (auto simp: list.set_sel(2) subset_iff split: if_splits)

text \<open>Marks lower in the stack lie in the region of every frame above them.\<close>

lemma lower_in_region:
  "frames_ok s (f # fs) \<Longrightarrow> g \<in> set fs \<Longrightarrow> storage (fr_mark g) \<subseteq> reg s (hd fs) \<and> reg s g \<subseteq> reg s (hd fs)"
proof (induction fs arbitrary: f)
  case Nil
  then show ?case by simp
next
  case (Cons h hs)
  have h: "frames_ok s (h # hs)" using Cons.prems(1) by simp
  then have b: "base s h \<subseteq> reg s h" and sh: "storage (fr_mark h) \<subseteq> base s h"
    using frames_ok_hd base_subset_reg frame_ok_def by blast+
  show ?case
  proof (cases "g = h")
    case True
    with b sh show ?thesis by auto
  next
    case False
    with Cons.prems(2) have g: "g \<in> set hs" by simp
    then have "hs \<noteq> []" by auto
    with h have "reg s (hd hs) \<subseteq> base s h"
      using frames_ok_tl by (auto simp: frame_above_def)
    with Cons.IH [OF h g] b show ?thesis by auto
  qed
qed

lemma storage_nonempty [simp]: "a \<in> storage a"
  by (simp add: storage_def sizeof_mark_def)

lemma top_mark_distinct:
  assumes "frames_ok s (f # fs)" "g \<in> set fs"
  shows "fr_mark f \<noteq> fr_mark g"
proof
  assume eq: "fr_mark f = fr_mark g"
  from assms(2) have "fs \<noteq> []" by auto
  then have "storage (fr_mark f) \<inter> reg s (hd fs) = {}"
    using frames_ok_tl [OF assms(1)] by (simp add: frame_above_def)
  moreover have "fr_mark f \<in> reg s (hd fs)"
    using lower_in_region [OF assms] eq by auto
  ultimately show False using storage_nonempty by blast
qed

text \<open>What the frames depend on: their marks, their chunks and the address of the pool.\<close>

definition same_frames :: "frame list \<Rightarrow> 'h memlifo \<Rightarrow> 'h memlifo \<Rightarrow> bool" where
  "same_frames fs s s' \<longleftrightarrow> lifo_self s' = lifo_self s \<and>
     (\<forall>f \<in> set fs. mem_marks s' (fr_mark f) = mem_marks s (fr_mark f) \<and>
        (\<forall>c \<in> set (fr_chunks f) \<union> set (fr_bigs f). mem_chunks s' c = mem_chunks s c))"

lemma frame_same:
  assumes "same_frames [f] s s'" "fr_chunks f \<noteq> []"
  shows "mk s' f = mk s f" "reg s' f = reg s f" "base s' f = base s f"
proof -
  show mk: "mk s' f = mk s f" using assms by (simp add: same_frames_def mk_def)
  have c: "\<And>bs fp. set bs \<subseteq> set (fr_bigs f) \<Longrightarrow>
      region (mem_chunks s') (fr_chunks f) bs fp = region (mem_chunks s) (fr_chunks f) bs fp"
    using assms by (intro region_cong) (auto simp: same_frames_def)
  show "reg s' f = reg s f" using c mk by (simp add: reg_def)
  then show "base s' f = base s f"
    using c [of "tl (fr_bigs f)"] c [of "fr_bigs f"] mk
    by (auto simp: base_def list.set_sel(2) subset_iff)
qed

lemma frame_ok_same:
  assumes "same_frames [f] s s'" "frame_ok s f"
  shows "frame_ok s' f"
proof -
  have ne: "fr_chunks f \<noteq> []" using assms(2) by (simp add: frame_ok_def)
  note S = frame_same [OF assms(1) ne]
  have ch: "chain (mem_chunks s') p (fr_chunks f) = chain (mem_chunks s) p (fr_chunks f)"
     "chain (mem_chunks s') p (fr_bigs f) = chain (mem_chunks s) p (fr_bigs f)" for p
    using assms(1) by (auto intro!: chain_cong simp: same_frames_def)
  have "lm_chunks (mk s f) = hd (fr_chunks f)"
    using assms(2) ne chain_head by (fastforce simp: frame_ok_def)
  then have "cend (mem_chunks s') (lm_chunks (mk s f)) = cend (mem_chunks s) (lm_chunks (mk s f))"
    using assms(1) ne by (simp add: same_frames_def cend_def)
  with assms ch S show ?thesis
    by (simp add: frame_ok_def last_ok_def same_frames_def)
qed

lemma frames_ok_same: "frames_ok s fs \<Longrightarrow> same_frames fs s s' \<Longrightarrow> frames_ok s' fs"
proof (induction s fs rule: frames_ok.induct)
  case (1 s)
  then show ?case by simp
next
  case (2 s f)
  then show ?case
    using frame_ok_same [of f s s'] frame_same [of f s s'] by (simp add: frame_ok_def)
next
  case (3 s f g fs)
  then have f: "same_frames [f] s s'" and g: "same_frames [g] s s'"
    and gs: "same_frames (g # fs) s s'"
    by (simp_all add: same_frames_def)
  have "frame_ok s f" "frame_ok s g" using 3 frames_ok_hd by auto
  moreover from this have "fr_chunks f \<noteq> []" "fr_chunks g \<noteq> []"
    by (simp_all add: frame_ok_def)
  ultimately show ?case
    using 3 f g gs frame_ok_same [OF f] frame_same [OF f] frame_same [OF g]
    by (simp add: frame_above_def)
qed

end
