(* ===== verification/Memlifo_Ops.thy ===== *)
theory Memlifo_Ops
  imports Memlifo_Inv
begin

text \<open>
  The operations of the pool under its invariant: allocation, marks and frames, resizing of
  the last allocation, and validation. Each operation is total on a pool that satisfies the
  invariant, keeps it, and returns blocks that no earlier block, mark or chunk header
  overlaps.
\<close>

section \<open>The top frame\<close>

lemma mk_mark: "mem_marks s (fr_mark f) = Some m \<Longrightarrow> mk s f = m"
  by (simp add: mk_def)

lemma lifo_inv_top:
  assumes "lifo_inv B s (f # fs)"
  obtains m k where
    "mem_marks s (lifo_top_mark s) = Some m" "mk s f = m" "fr_mark f = lifo_top_mark s"
    "mem_chunks s (lm_chunks m) = Some k" "chunk_ok (B (lifo_allocator_data s)) (lm_chunks m) k"
    "lm_chunks m + 16 \<le> lm_freeptr m" "lm_freeptr m \<le> lc_end k" "8 dvd lm_freeptr m"
    "lm_chunks m = hd (fr_chunks f)" "fr_chunks f \<noteq> []"
    "lm_big_blocks m = (if fr_bigs f = [] then NULL else hd (fr_bigs f))"
proof -
  have f: "frame_ok s f" and h: "heap_ok B s" and t: "fr_mark f = lifo_top_mark s"
    using assms frames_ok_hd by (auto simp: lifo_inv_def)
  from f obtain m where m: "mem_marks s (lifo_top_mark s) = Some m" "mk s f = m"
    by (auto simp: frame_ok_def t mk_def)
  have ch: "chain (mem_chunks s) (lm_chunks m) (fr_chunks f)" and ne: "fr_chunks f \<noteq> []"
    and cb: "chain (mem_chunks s) (lm_big_blocks m) (fr_bigs f)"
    using f m by (auto simp: frame_ok_def)
  have hd: "lm_chunks m = hd (fr_chunks f)" using chain_head [OF ch] ne by simp
  then obtain k where k: "mem_chunks s (lm_chunks m) = Some k"
    using chain_dom [OF ch] hd_in_set [OF ne] by (auto simp: hd)
  show ?thesis
    using that [OF m(1,2) t k heap_okD [OF h k] _ _ _ hd ne chain_head [OF cb]] f m k
    by (simp add: frame_ok_def cend_def)
qed

lemma fits_iff:
  assumes "chunk_ok b c k" "c + 16 \<le> fp" "fp \<le> lc_end k" "n \<le> 2 ^ 31 + 56"
  shows "ADDPTR fp n > c \<and> ADDPTR fp n \<le> lc_end k \<longleftrightarrow> fp + n \<le> lc_end k"
proof (cases "fp + n < 2 ^ 64")
  case True
  then show ?thesis using assms by (auto simp: ADDPTR_id)
next
  case False
  moreover have "fp + n < 2 * 2 ^ 64" using assms by (simp add: chunk_ok_def)
  ultimately have "ADDPTR fp n = fp + n - 2 ^ 64"
    by (simp add: ADDPTR_def add.commute mod_if)
  with False assms show ?thesis by (auto simp: chunk_ok_def)
qed

section \<open>Framing\<close>

lemma set_flags_simps [lifo_simps]:
  "lifo_flags (set_mark a m s) = lifo_flags s" "lifo_flags (set_chunk a c s) = lifo_flags s"
  by (simp_all add: set_mark_def set_chunk_def)

lemma set_mark_simps [lifo_simps]:
  "mem_chunks (set_mark a m s) = mem_chunks s" "mem_marks (set_mark a m s) = (mem_marks s)(a \<mapsto> m)"
  "lifo_self (set_mark a m s) = lifo_self s" "lifo_top_mark (set_mark a m s) = lifo_top_mark s"
  "lifo_bot_mark (set_mark a m s) = lifo_bot_mark s"
  "lifo_chunk_size (set_mark a m s) = lifo_chunk_size s" "lifo_magic (set_mark a m s) = lifo_magic s"
  "lifo_allocator_data (set_mark a m s) = lifo_allocator_data s"
  "lifo_allocFn (set_mark a m s) = lifo_allocFn s" "lifo_freeFn (set_mark a m s) = lifo_freeFn s"
  "mem_bytes (set_mark a m s) = mem_bytes s"
  by (simp_all add: set_mark_def)

lemma set_chunk_simps [lifo_simps]:
  "mem_chunks (set_chunk a c s) = (mem_chunks s)(a \<mapsto> c)" "mem_marks (set_chunk a c s) = mem_marks s"
  "lifo_self (set_chunk a c s) = lifo_self s" "lifo_top_mark (set_chunk a c s) = lifo_top_mark s"
  "lifo_bot_mark (set_chunk a c s) = lifo_bot_mark s"
  "lifo_chunk_size (set_chunk a c s) = lifo_chunk_size s"
  "lifo_magic (set_chunk a c s) = lifo_magic s"
  "lifo_allocator_data (set_chunk a c s) = lifo_allocator_data s"
  "lifo_allocFn (set_chunk a c s) = lifo_allocFn s" "lifo_freeFn (set_chunk a c s) = lifo_freeFn s"
  "mem_bytes (set_chunk a c s) = mem_bytes s"
  by (simp_all add: set_chunk_def)

lemma call_alloc_simps:
  assumes "call_alloc s n = (s1, r)"
  shows "mem_chunks s1 = mem_chunks s" "mem_marks s1 = mem_marks s" "lifo_self s1 = lifo_self s"
    "lifo_top_mark s1 = lifo_top_mark s" "lifo_bot_mark s1 = lifo_bot_mark s"
    "lifo_chunk_size s1 = lifo_chunk_size s" "lifo_magic s1 = lifo_magic s"
    "lifo_allocFn s1 = lifo_allocFn s" "lifo_freeFn s1 = lifo_freeFn s"
    "mem_bytes s1 = mem_bytes s" "lifo_flags s1 = lifo_flags s"
  using assms by (auto simp: call_alloc_def split: prod.splits)

lemma same_frames_refl [simp]: "same_frames fs s s"
  by (simp add: same_frames_def)

lemma same_frames_trans:
  "same_frames fs s s' \<Longrightarrow> same_frames fs s' s'' \<Longrightarrow> same_frames fs s s''"
  by (simp add: same_frames_def)

lemma same_frames_set_mark:
  "(\<And>g. g \<in> set fs \<Longrightarrow> fr_mark g \<noteq> a) \<Longrightarrow> same_frames fs s (set_mark a m s)"
  by (auto simp: same_frames_def lifo_simps)

lemma frames_ok_each: "frames_ok s fs \<Longrightarrow> g \<in> set fs \<Longrightarrow> frame_ok s g"
  by (induction s fs rule: frames_ok.induct) auto

lemma frame_chunks_dom:
  "frame_ok s f \<Longrightarrow> set (fr_chunks f) \<union> set (fr_bigs f) \<subseteq> dom (mem_chunks s)"
  using chain_dom unfolding frame_ok_def by blast

lemma same_frames_set_chunk:
  assumes "frames_ok s fs" "mem_chunks s c = None"
  shows "same_frames fs s (set_chunk c k s)"
  using frame_chunks_dom [OF frames_ok_each [OF assms(1)]] assms(2)
  by (auto simp: same_frames_def lifo_simps)

lemma same_frames_call_alloc: "call_alloc s n = (s1, r) \<Longrightarrow> same_frames fs s s1"
  by (simp add: same_frames_def call_alloc_simps)

definition same_pool :: "'h memlifo \<Rightarrow> 'h memlifo \<Rightarrow> bool" where
  "same_pool s s' \<longleftrightarrow> lifo_self s' = lifo_self s \<and> lifo_bot_mark s' = lifo_bot_mark s \<and>
     lifo_chunk_size s' = lifo_chunk_size s \<and> lifo_magic s' = lifo_magic s"

lemma top_update:
  assumes inv: "lifo_inv B s (f # fs)"
    and s': "heap_ok B s'" "same_pool s s'" "lifo_top_mark s' = lifo_top_mark s" "same_frames fs s s'"
    and f': "frame_ok s' f'" "fr_mark f' = fr_mark f" "lm_prev (mk s' f') = lm_prev (mk s f)"
    and ch: "fs \<noteq> [] \<Longrightarrow> \<exists>xs. fr_chunks f' = xs @ fr_chunks (hd fs)"
    and bg: "fs \<noteq> [] \<Longrightarrow> \<exists>ys. fr_bigs f' = ys @ fr_bigs (hd fs)"
    and base: "base s f \<subseteq> base s' f'"
  shows "lifo_inv B s' (f' # fs)"
proof -
  have fo: "frames_ok s (f # fs)" using inv by (simp add: lifo_inv_def)
  have "frames_ok s' (f' # fs)"
  proof (cases fs)
    case Nil
    with fo f' show ?thesis by simp
  next
    case (Cons g gs)
    then have above: "frame_above s f g" and gs: "frames_ok s (g # gs)"
      using fo by simp_all
    have sg: "same_frames [g] s s'" using s'(4) Cons by (simp add: same_frames_def)
    have ne: "fr_chunks g \<noteq> []" using frames_ok_hd [OF gs] by (simp add: frame_ok_def)
    have "frame_above s' f' g"
      using above ch bg base f'(2,3) frame_same [OF sg ne] Cons by (auto simp: frame_above_def)
    with gs Cons f' frames_ok_same [OF _ s'(4)] show ?thesis by simp
  qed
  with inv s' f'(2) show ?thesis by (simp add: lifo_inv_def same_pool_def split: if_splits)
qed

section \<open>Regions\<close>

lemma region_grow:
  assumes "cs \<noteq> []" "hd cs \<le> fp" "fp \<le> fp'" "fp' \<le> cend C (hd cs)"
  shows "region C cs bs fp' = region C cs bs fp \<union> {fp ..< fp'}"
proof -
  have "ext C (hd cs) \<subseteq> (\<Union>c \<in> set cs. ext C c)" using hd_in_set [OF assms(1)] by blast
  with assms show ?thesis by (auto simp: region_def ext_def)
qed

lemma free_disjoint:
  assumes "heap_ok B s" "frame_ok s f" "set bs \<subseteq> set (fr_bigs f)"
    and "hd (fr_chunks f) \<le> fp"
  shows "{fp ..< cend (mem_chunks s) (hd (fr_chunks f))} \<inter>
     region (mem_chunks s) (fr_chunks f) bs fp = {}"
proof -
  let ?C = "mem_chunks s" and ?c = "hd (fr_chunks f)"
  have ne: "fr_chunks f \<noteq> []" and d: "distinct (fr_chunks f @ fr_bigs f)"
    using assms(2) by (auto simp: frame_ok_def)
  have "ext ?C ?c \<inter> ext ?C b = {}" if "b \<in> set bs" for b
    using that assms(3) frame_chunks_dom [OF assms(2)] hd_in_set [OF ne] d
    by (intro ext_disjoint [OF assms(1)]) auto
  moreover have "{fp ..< cend ?C ?c} \<subseteq> ext ?C ?c" using assms(4) by (auto simp: ext_def)
  ultimately show ?thesis by (fastforce simp: region_def)
qed

lemma last_not_big:
  assumes "heap_ok B s" "frame_ok s f" "b \<in> set (fr_bigs f)"
    and "hd (fr_chunks f) + 16 \<le> la" "la \<le> cend (mem_chunks s) (hd (fr_chunks f))"
  shows "la \<noteq> b + 16"
proof
  assume la: "la = b + 16"
  have ne: "fr_chunks f \<noteq> []" and d: "distinct (fr_chunks f @ fr_bigs f)"
    using assms(2) by (auto simp: frame_ok_def)
  obtain k j where k: "mem_chunks s (hd (fr_chunks f)) = Some k" and j: "mem_chunks s b = Some j"
    using frame_chunks_dom [OF assms(2)] hd_in_set [OF ne] assms(3) by blast
  have "lc_end k \<le> b \<or> lc_end j \<le> hd (fr_chunks f)"
    using d ne assms(3) by (intro live_disjoint [OF assms(1) k j]) (auto dest: hd_in_set)
  with la assms(4,5) k heap_okD [OF assms(1) j] show False
    by (auto simp: cend_def chunk_ok_def)
qed

lemma region_new_chunk:
  assumes "c \<notin> set cs \<union> set bs" "c \<le> fp'" "\<forall>d \<in> set cs. ext C d \<inter> {c ..< lc_end k} = {}"
  shows "region C cs bs fp \<subseteq> region (C(c \<mapsto> k)) (c # cs) bs fp'"
proof
  let ?D = "C(c \<mapsto> k)"
  fix x assume "x \<in> region C cs bs fp"
  then obtain d where d: "d \<in> set cs \<union> set bs" "x \<in> ext C d" and bs: "d \<in> set cs \<or> d \<in> set bs"
    by (auto simp: region_def)
  then have "C d = ?D d" using assms(1) by auto
  with d have "x \<in> ext ?D d" using ext_cong by blast
  moreover have "x \<notin> {fp' ..< cend ?D c}" if "d \<in> set cs"
  proof
    assume "x \<in> {fp' ..< cend ?D c}"
    then have "x \<in> {c ..< lc_end k}" using assms(2) by (simp add: cend_def)
    with that assms(3) d show False by blast
  qed
  ultimately show "x \<in> region ?D (c # cs) bs fp'"
    using bs by (auto simp: region_def)
qed

lemma region_new_big:
  assumes "c \<notin> set cs \<union> set bs" "cs \<noteq> []"
  shows "region (C(c \<mapsto> k)) cs (c # bs) fp = region C cs bs fp \<union> {c ..< lc_end k}"
    and "region (C(c \<mapsto> k)) cs bs fp = region C cs bs fp"
proof -
  have e: "region (C(c \<mapsto> k)) cs bs fp = region C cs bs fp"
    using assms by (intro region_cong) auto
  then show "region (C(c \<mapsto> k)) cs bs fp = region C cs bs fp" .
  have "region (C(c \<mapsto> k)) cs (c # bs) fp = region (C(c \<mapsto> k)) cs bs fp \<union> ext (C(c \<mapsto> k)) c"
    by (auto simp: region_def)
  with e show "region (C(c \<mapsto> k)) cs (c # bs) fp = region C cs bs fp \<union> {c ..< lc_end k}"
    by (simp add: ext_def cend_def)
qed

section \<open>The allocator\<close>

lemma heap_ok_set_mark [simp]: "heap_ok B (set_mark a m s) = heap_ok B s"
  by (simp add: heap_ok_def lifo_simps)

lemma heap_ok_cong:
  "heap_ok B s \<Longrightarrow> mem_chunks s' = mem_chunks s \<Longrightarrow> lifo_allocFn s' = lifo_allocFn s \<Longrightarrow>
   lifo_freeFn s' = lifo_freeFn s \<Longrightarrow>
   B (lifo_allocator_data s') = B (lifo_allocator_data s) \<Longrightarrow> heap_ok B s'"
  by (simp add: heap_ok_def)

lemma alloc_failed:
  assumes "heap_ok B s" "call_alloc s n = (s1, None)"
  shows "heap_ok B s1"
proof -
  obtain h where "lifo_allocFn s (lifo_allocator_data s) n = (h, None)" "s1 = s\<lparr>lifo_allocator_data := h\<rparr>"
    using assms(2) by (auto simp: call_alloc_def split: prod.splits)
  with assms(1) show ?thesis by (simp add: heap_ok_def allocator_ok_def)
qed

lemma new_chunk:
  assumes "heap_ok B s" "call_alloc s sz = (s1, Some (c, n))" "16 \<le> sz"
  shows "mem_chunks s c = None" "0 < c" "8 dvd c" "8 dvd n" "sz \<le> n" "n < 2 ^ 31"
    "c + n + 8 \<le> 2 ^ 64" "ADDPTR c n = c + n"
    "heap_ok B (set_chunk c \<lparr>lc_prev = q, lc_end = c + n\<rparr> s1)"
proof -
  let ?b = "B (lifo_allocator_data s)"
  obtain h where h: "lifo_allocFn s (lifo_allocator_data s) sz = (h, Some (c, n))"
    and s1: "s1 = s\<lparr>lifo_allocator_data := h\<rparr>"
    using assms(2) by (auto simp: call_alloc_def split: prod.splits)
  have al: "allocator_ok (lifo_allocFn s) (lifo_freeFn s) B" and dj: "blocks_disjoint ?b"
    and all: "\<And>d k. mem_chunks s d = Some k \<Longrightarrow> chunk_ok ?b d k"
    using assms(1) by (auto simp: heap_ok_def)
  have new: "0 < c" "8 dvd c" "8 dvd n" "sz \<le> n" "n < 2 ^ 31" "c + n + 8 \<le> 2 ^ 64" "?b c = None"
    "\<And>q m. ?b q = Some m \<Longrightarrow> c + n \<le> q \<or> q + m \<le> c" "B h = ?b(c \<mapsto> n)"
    using al h assms(3) unfolding allocator_ok_def by blast+
  show none: "mem_chunks s c = None"
    using all [of c] new(7) by (cases "mem_chunks s c") (auto simp: chunk_ok_def)
  show "0 < c" "8 dvd c" "8 dvd n" "sz \<le> n" "n < 2 ^ 31" "c + n + 8 \<le> 2 ^ 64" by fact+
  then show "ADDPTR c n = c + n" by (simp add: ADDPTR_id)
  have "blocks_disjoint (B h)"
    using dj new(8) by (fastforce simp: blocks_disjoint_def new(9))
  moreover have "chunk_ok (B h) d k" if "((mem_chunks s)(c \<mapsto> \<lparr>lc_prev = q, lc_end = c + n\<rparr>)) d = Some k" for d k
  proof (cases "d = c")
    case True
    with that new(1-6) assms(3) show ?thesis by (auto simp: chunk_ok_def new(9))
  next
    case False
    with that all show ?thesis by (simp add: chunk_ok_def new(9))
  qed
  ultimately show "heap_ok B (set_chunk c \<lparr>lc_prev = q, lc_end = c + n\<rparr> s1)"
    using al by (simp add: heap_ok_def set_chunk_def s1)
qed

section \<open>Allocation\<close>

text \<open>
  What an allocation in the top frame does: the block is new, aligned, becomes the last
  allocation, and is inside the new region.
\<close>

definition allocated ::
    "'h memlifo \<Rightarrow> frame \<Rightarrow> 'h memlifo \<Rightarrow> frame \<Rightarrow> addr \<Rightarrow> nat \<Rightarrow> bool" where
  "allocated s f s' f' p n \<longleftrightarrow> p \<noteq> NULL \<and> 8 dvd p \<and> reg s f \<subseteq> base s' f' \<and>
     {p ..< p + n} \<inter> base s' f' = {} \<and> {p ..< p + n} \<subseteq> reg s' f' \<and>
     lm_last_alloc (mk s' f') = p \<and> mem_bytes s' = mem_bytes s"

lemma frame_fields:
  assumes "mem_marks s' (fr_mark f) = Some m"
  shows "mk s' f = m"
    "reg s' f = region (mem_chunks s') (fr_chunks f) (fr_bigs f) (lm_freeptr m)"
  using assms by (simp_all add: mk_def reg_def)

lemma base_small:
  assumes "heap_ok B s" "frame_ok s f" "lm_last_alloc (mk s f) = la"
    "hd (fr_chunks f) + 16 \<le> la" "la \<le> cend (mem_chunks s) (hd (fr_chunks f))"
  shows "base s f = region (mem_chunks s) (fr_chunks f) (fr_bigs f) la"
  using last_not_big [OF assms(1,2) hd_in_set assms(4,5)] assms(3,4) by (simp add: base_def) blast

lemma same_frames_set_top:
  assumes "lifo_inv B s (f # fs)"
  shows "same_frames fs s (set_mark (lifo_top_mark s) m s)"
proof (rule same_frames_set_mark)
  have "frames_ok s (f # fs)" "fr_mark f = lifo_top_mark s" using assms by (auto simp: lifo_inv_def)
  then show "fr_mark g \<noteq> lifo_top_mark s" if "g \<in> set fs" for g
    using top_mark_distinct that by metis
qed

lemma same_frames_new_chunk:
  assumes inv: "lifo_inv B s (f # fs)" and al: "call_alloc s csz = (s1, Some (c, n))" and sz: "16 \<le> csz"
  shows "same_frames fs s (set_mark (lifo_top_mark s) m (set_chunk c k s1))"
proof -
  have fo: "frames_ok s (f # fs)" and h: "heap_ok B s" using inv by (auto simp: lifo_inv_def)
  have "same_frames fs s (set_mark (lifo_top_mark s) m s)" by (rule same_frames_set_top [OF inv])
  then show ?thesis
    using frame_chunks_dom [OF frames_ok_each [OF fo]] new_chunk(1) [OF h al sz]
    by (auto simp: same_frames_def lifo_simps call_alloc_simps [OF al])
qed

lemma set_top_ok:
  assumes inv: "lifo_inv B s (f # fs)" and m: "mem_marks s (lifo_top_mark s) = Some m"
    and k: "mem_chunks s (lm_chunks m) = Some k"
    and la: "lm_chunks m + 16 \<le> la" "la \<le> fp" "fp \<le> lc_end k" "8 dvd la" "8 dvd fp"
    and base: "base s f \<subseteq> region (mem_chunks s) (fr_chunks f) (fr_bigs f) la"
  defines "s' \<equiv> set_mark (lifo_top_mark s) (m\<lparr>lm_last_alloc := la, lm_freeptr := fp\<rparr>) s"
  shows "lifo_inv B s' (f # fs)"
    "base s' f = region (mem_chunks s) (fr_chunks f) (fr_bigs f) la"
    "reg s' f = base s' f \<union> {la ..< fp}" "{la ..< fp} \<inter> base s' f = {}"
    "same_frames fs s s'"
proof -
  let ?m = "m\<lparr>lm_last_alloc := la, lm_freeptr := fp\<rparr>"
  have f: "frame_ok s f" and h: "heap_ok B s" and fo: "frames_ok s (f # fs)"
    using inv frames_ok_hd by (auto simp: lifo_inv_def)
  from inv m k have t: "fr_mark f = lifo_top_mark s" and mf: "mk s f = m"
    and hc: "lm_chunks m = hd (fr_chunks f)" and ne: "fr_chunks f \<noteq> []"
    by (auto elim: lifo_inv_top)
  show "same_frames fs s s'" unfolding s'_def by (rule same_frames_set_top [OF inv])
  have C: "mem_chunks s' = mem_chunks s" and m': "mem_marks s' (fr_mark f) = Some ?m"
    by (simp_all add: s'_def lifo_simps t)
  note F = frame_fields [OF m']
  have ce: "cend (mem_chunks s) (hd (fr_chunks f)) = lc_end k" using k hc by (simp add: cend_def)
  have nb: "la \<noteq> hd (fr_bigs f) + 16" if "fr_bigs f \<noteq> []"
    using last_not_big [OF h f hd_in_set [OF that]] la ce hc by simp
  show b: "base s' f = region (mem_chunks s) (fr_chunks f) (fr_bigs f) la"
    using nb la(1) by (simp add: base_def F C) blast
  have "lc_end k = cend (mem_chunks s) (hd (fr_chunks f))" by (simp add: ce)
  then show "reg s' f = base s' f \<union> {la ..< fp}"
    using la ne hc by (simp add: b F C region_grow)
  have "{la ..< fp} \<subseteq> {la ..< cend (mem_chunks s) (hd (fr_chunks f))}" using la ce by auto
  then show "{la ..< fp} \<inter> base s' f = {}"
    using free_disjoint [OF h f subset_refl, of la] la(1) hc unfolding b by (simp add: disjoint_iff subset_iff)
  have self: "lifo_self s' = lifo_self s" by (simp add: s'_def lifo_simps)
  have "storage (fr_mark f) \<subseteq> base s' f" using f base b by (auto simp: frame_ok_def)
  then have f': "frame_ok s' f"
    using f la ce hc unfolding frame_ok_def last_ok_def
    by (simp add: C F m' mf self)
  show "lifo_inv B s' (f # fs)"
  proof (rule top_update [OF inv])
    show "heap_ok B s'" "same_pool s s'" "lifo_top_mark s' = lifo_top_mark s"
      using h by (simp_all add: s'_def same_pool_def lifo_simps)
    show "same_frames fs s s'" unfolding s'_def by (rule same_frames_set_top [OF inv])
    show "base s f \<subseteq> base s' f" using base b by simp
    show "lm_prev (mk s' f) = lm_prev (mk s f)" by (simp add: F mf)
  qed (use f' frames_ok_tl [OF fo] in \<open>auto simp: frame_above_def\<close>)
qed

lemma new_block_ok:
  assumes inv: "lifo_inv B s (f # fs)" and m: "mem_marks s (lifo_top_mark s) = Some m"
    and al: "call_alloc s csz = (s1, Some (c, n))" and sz: "16 + sz \<le> csz" "8 dvd sz"
  shows "let s' = set_mark (lifo_top_mark s)
                    (m\<lparr>lm_chunks := c, lm_last_alloc := c + 16, lm_freeptr := c + 16 + sz\<rparr>)
                    (set_chunk c \<lparr>lc_prev = lm_chunks m, lc_end = c + n\<rparr> s1);
             f' = f\<lparr>fr_chunks := c # fr_chunks f\<rparr>
         in lifo_inv B s' (f' # fs) \<and> allocated s f s' f' (c + 16) sz \<and> same_frames fs s s'"
proof -
  let ?s2 = "set_chunk c \<lparr>lc_prev = lm_chunks m, lc_end = c + n\<rparr> s1"
  let ?m = "m\<lparr>lm_chunks := c, lm_last_alloc := c + 16, lm_freeptr := c + 16 + sz\<rparr>"
  let ?s' = "set_mark (lifo_top_mark s) ?m ?s2"
  let ?f = "f\<lparr>fr_chunks := c # fr_chunks f\<rparr>"
  let ?C = "mem_chunks s" and ?k = "\<lparr>lc_prev = lm_chunks m, lc_end = c + n\<rparr>"
  have f: "frame_ok s f" and h: "heap_ok B s" and fo: "frames_ok s (f # fs)"
    using inv frames_ok_hd by (auto simp: lifo_inv_def)
  from inv m have t: "fr_mark f = lifo_top_mark s" and mf: "mk s f = m"
    by (auto elim: lifo_inv_top)
  have sz': "16 \<le> csz" using sz by simp
  note N = new_chunk [OF h al sz'] and S1 = call_alloc_simps [OF al]
  have C: "mem_chunks ?s' = ?C(c \<mapsto> ?k)" by (simp add: lifo_simps S1)
  have m': "mem_marks ?s' (fr_mark ?f) = Some ?m" by (simp add: lifo_simps t)
  note F = frame_fields [OF m']
  have fresh: "c \<notin> set (fr_chunks f) \<union> set (fr_bigs f)"
    using frame_chunks_dom [OF f] N(1) by blast
  have h': "heap_ok B ?s2" by (rule N(9))
  then have "ext ?C d \<inter> {c ..< c + n} = {}" if "d \<in> set (fr_chunks f)" for d
    using ext_disjoint [OF h', of d c] frame_chunks_dom [OF f] that fresh
    by (auto simp: lifo_simps S1 ext_def cend_def)
  then have sub: "reg s f \<subseteq> region (?C(c \<mapsto> ?k)) (c # fr_chunks f) (fr_bigs f) (c + 16)"
    unfolding reg_def using fresh by (intro region_new_chunk) auto
  have cb: "c + 16 \<noteq> hd (fr_bigs f) + 16" if "fr_bigs f \<noteq> []"
    using fresh hd_in_set [OF that] by auto
  then have b: "base ?s' ?f = region (?C(c \<mapsto> ?k)) (c # fr_chunks f) (fr_bigs f) (c + 16)"
    by (simp add: base_def F C) blast
  have ch: "chain (?C(c \<mapsto> ?k)) p xs = chain ?C p xs" if "xs = fr_chunks f \<or> xs = fr_bigs f" for p xs
    using fresh that by (intro chain_cong) auto
  have st: "storage (fr_mark f) \<subseteq> base ?s' ?f"
    using f base_subset_reg [OF f] sub b by (auto simp: frame_ok_def)
  have f': "frame_ok ?s' ?f"
    using f fresh N(2,3,5) sz st unfolding frame_ok_def last_ok_def
    by (simp add: F C ch mf lifo_simps S1 t cend_def)
  have inv': "lifo_inv B ?s' (?f # fs)"
  proof (rule top_update [OF inv])
    show "same_frames fs s ?s'" by (rule same_frames_new_chunk [OF inv al sz'])
    show "base s f \<subseteq> base ?s' ?f" using base_subset_reg [OF f] sub b by simp
    show "lm_prev (mk ?s' ?f) = lm_prev (mk s f)" by (simp add: F mf)
  qed (use h' f' frames_ok_tl [OF fo] in
        \<open>auto simp: frame_above_def same_pool_def lifo_simps S1\<close>)
  have ce: "cend (?C(c \<mapsto> ?k)) c = c + n" by (simp add: cend_def)
  have "{c + 16 ..< c + 16 + sz} \<inter> base ?s' ?f = {}"
    using free_disjoint [of B ?s' ?f "fr_bigs f" "c + 16"] h' f' N(5) sz b C
    by (simp add: ce disjoint_iff)
  moreover have "reg ?s' ?f = base ?s' ?f \<union> {c + 16 ..< c + 16 + sz}"
    using N(5) sz unfolding F b C by (simp add: ce region_grow)
  ultimately have "allocated s f ?s' ?f (c + 16) sz"
    using N(2,3) sub b by (simp add: allocated_def F lifo_simps S1)
  with inv' same_frames_new_chunk [OF inv al sz'] show ?thesis by simp
qed

lemma new_big_ok:
  assumes inv: "lifo_inv B s (f # fs)" and m: "mem_marks s (lifo_top_mark s) = Some m"
    and al: "call_alloc s csz = (s1, Some (c, n))" and sz: "16 + sz \<le> csz"
  shows "let s' = set_mark (lifo_top_mark s) (m\<lparr>lm_big_blocks := c, lm_last_alloc := c + 16\<rparr>)
                    (set_chunk c \<lparr>lc_prev = lm_big_blocks m, lc_end = c + n\<rparr> s1);
             f' = f\<lparr>fr_bigs := c # fr_bigs f\<rparr>
         in lifo_inv B s' (f' # fs) \<and> allocated s f s' f' (c + 16) (n - 16) \<and> same_frames fs s s'"
proof -
  let ?k = "\<lparr>lc_prev = lm_big_blocks m, lc_end = c + n\<rparr>"
  let ?s2 = "set_chunk c ?k s1"
  let ?m = "m\<lparr>lm_big_blocks := c, lm_last_alloc := c + 16\<rparr>"
  let ?s' = "set_mark (lifo_top_mark s) ?m ?s2"
  let ?f = "f\<lparr>fr_bigs := c # fr_bigs f\<rparr>"
  let ?C = "mem_chunks s"
  have f: "frame_ok s f" and h: "heap_ok B s" and fo: "frames_ok s (f # fs)"
    using inv frames_ok_hd by (auto simp: lifo_inv_def)
  from inv m have t: "fr_mark f = lifo_top_mark s" and mf: "mk s f = m"
    by (auto elim: lifo_inv_top)
  have sz': "16 \<le> csz" using sz by simp
  note N = new_chunk [OF h al sz'] and S1 = call_alloc_simps [OF al]
  have C: "mem_chunks ?s' = ?C(c \<mapsto> ?k)" by (simp add: lifo_simps S1)
  have m': "mem_marks ?s' (fr_mark ?f) = Some ?m" by (simp add: lifo_simps t)
  note F = frame_fields [OF m']
  have fresh: "c \<notin> set (fr_chunks f) \<union> set (fr_bigs f)" and ne: "fr_chunks f \<noteq> []"
    using frame_chunks_dom [OF f] N(1) f by (auto simp: frame_ok_def)
  have h': "heap_ok B ?s2" by (rule N(9))
  have b: "base ?s' ?f = reg s f"
    using region_new_big [OF fresh ne] by (simp add: base_def F C reg_def mf)
  have r: "reg ?s' ?f = reg s f \<union> {c ..< c + n}"
    using region_new_big [OF fresh ne] by (simp add: F C reg_def mf)
  have ch: "chain (?C(c \<mapsto> ?k)) p xs = chain ?C p xs" if "xs = fr_chunks f \<or> xs = fr_bigs f" for p xs
    using fresh that by (intro chain_cong) auto
  have hc: "lm_chunks (mk s f) = hd (fr_chunks f)"
    using f ne chain_head by (fastforce simp: frame_ok_def)
  then have "lm_chunks (mk s f) \<noteq> c" using fresh hd_in_set [OF ne] by auto
  then have ce: "cend (?C(c \<mapsto> ?k)) (lm_chunks (mk s f)) = cend ?C (lm_chunks (mk s f))"
    by (simp add: cend_def)
  have st: "storage (fr_mark f) \<subseteq> base ?s' ?f"
    using f base_subset_reg [OF f] b by (auto simp: frame_ok_def)
  have f': "frame_ok ?s' ?f"
    using f fresh N(2,3,5) sz st ce unfolding frame_ok_def last_ok_def
    by (simp add: F C ch mf lifo_simps S1 t)
  have inv': "lifo_inv B ?s' (?f # fs)"
  proof (rule top_update [OF inv])
    show "same_frames fs s ?s'" by (rule same_frames_new_chunk [OF inv al sz'])
    show "base s f \<subseteq> base ?s' ?f" using base_subset_reg [OF f] b by simp
    show "lm_prev (mk ?s' ?f) = lm_prev (mk s f)" by (simp add: F mf)
  qed (use h' f' frames_ok_tl [OF fo] in
        \<open>auto simp: frame_above_def same_pool_def lifo_simps S1\<close>)
  have "ext ?C d \<inter> {c ..< c + n} = {}" if "d \<in> set (fr_chunks f) \<union> set (fr_bigs f)" for d
    using ext_disjoint [OF h', of d c] frame_chunks_dom [OF f] that fresh
    by (auto simp: lifo_simps S1 ext_def cend_def)
  then have "{c ..< c + n} \<inter> reg s f = {}" by (auto simp: reg_def region_def)
  then have "allocated s f ?s' ?f (c + 16) (n - 16)"
    using N(2,3,5) sz' b r
    by (simp add: allocated_def F lifo_simps S1 disjoint_iff subset_iff)
  with inv' same_frames_new_chunk [OF inv al sz'] show ?thesis by simp
qed

text \<open>The outcome of a request for \<open>sz\<close> bytes.\<close>

definition alloc_failed_ok :: "('h \<Rightarrow> addr \<rightharpoonup> nat) \<Rightarrow> 'h memlifo \<Rightarrow> frame list \<Rightarrow> 'h memlifo \<Rightarrow> lifo_ret \<Rightarrow> bool" where
  "alloc_failed_ok B s fs s' r \<longleftrightarrow> r = lifo_fail s \<and> lifo_inv B s' fs \<and>
     (\<exists>h. s' = s\<lparr>lifo_allocator_data := h\<rparr>)"

definition alloc_outcome ::
    "('h \<Rightarrow> addr \<rightharpoonup> nat) \<Rightarrow> 'h memlifo \<Rightarrow> frame \<Rightarrow> frame list \<Rightarrow> nat \<Rightarrow> bool \<Rightarrow>
     'h memlifo \<Rightarrow> lifo_ret \<Rightarrow> bool" where
  "alloc_outcome B s f fs sz want s' r \<longleftrightarrow> alloc_failed_ok B s (f # fs) s' r \<or>
     (\<exists>p n f'. r = LRet p (if want then Some n else None) \<and> sz \<le> n \<and>
        lifo_inv B s' (f' # fs) \<and> fr_mark f' = fr_mark f \<and> same_frames fs s s' \<and>
        lifo_flags s' = lifo_flags s \<and> allocated s f s' f' p n)"

lemma lifo_inv_alloc_data:
  assumes "lifo_inv B s fs" "heap_ok B s'" "s' = s\<lparr>lifo_allocator_data := h\<rparr>"
  shows "lifo_inv B s' fs"
proof -
  have "same_frames fs s s'" using assms(3) by (simp add: same_frames_def)
  then show ?thesis using assms frames_ok_same by (auto simp: lifo_inv_def)
qed

lemma call_alloc_failed_ok:
  assumes "lifo_inv B s fs" "call_alloc s n = (s1, None)"
  shows "alloc_failed_ok B s fs s1 (lifo_fail s)"
proof -
  obtain h where "s1 = s\<lparr>lifo_allocator_data := h\<rparr>"
    using assms(2) by (auto simp: call_alloc_def split: prod.splits)
  moreover have "heap_ok B s1" using assms alloc_failed by (auto simp: lifo_inv_def)
  ultimately show ?thesis
    using lifo_inv_alloc_data [OF assms(1)] unfolding alloc_failed_ok_def by blast
qed

lemma PTRDIFF_size: "q \<le> p \<Longrightarrow> p - q < 2 ^ 31 \<Longrightarrow> UDWORD (PTRDIFF32 p q) = p - q"
  by (simp add: PTRDIFF32_id UDWORD_id)

lemma round_request:
  assumes "sz \<le> MEMLIFO_MAX_ALLOC"
  shows "sz \<le> DWORD (ROUNDUP sz)" "DWORD (ROUNDUP sz) \<le> 2 ^ 31" "8 dvd DWORD (ROUNDUP sz)"
proof -
  have "sz + 7 < 2 ^ 64" "sz \<le> 2147483647"
    using assms by (simp_all add: MEMLIFO_MAX_ALLOC_def INT_MAX_def)
  note R = ROUNDUP_bounds [OF this(1)] this(2)
  have "ROUNDUP sz \<le> 2 ^ 31" using R(2-4) by (auto elim!: dvdE)
  moreover from this have "DWORD (ROUNDUP sz) = ROUNDUP sz" by (simp add: DWORD_id)
  ultimately show "sz \<le> DWORD (ROUNDUP sz)" "DWORD (ROUNDUP sz) \<le> 2 ^ 31" "8 dvd DWORD (ROUNDUP sz)"
    using R(1,3) by simp_all
qed

lemma ROUNDUP_sizeof [simp]: "ROUNDUP sizeof_chunk = 16" "ROUNDUP sizeof_mark = 56"
  by (simp_all add: ROUNDUP_def sizeof_chunk_def sizeof_mark_def)

lemma ALIGNPTR_chunk:
  "8 dvd c \<Longrightarrow> c + n + 8 \<le> 2 ^ 64 \<Longrightarrow> 16 \<le> n \<Longrightarrow> ALIGNPTR c sizeof_chunk = c + 16"
  by (simp add: ALIGNPTR_id sizeof_chunk_def)

lemma lifo_alloc_chunk_ok:
  assumes inv: "lifo_inv B s (f # fs)" and m: "mem_marks s (lifo_top_mark s) = Some m"
    and sz: "sz \<le> 2 ^ 31" "8 dvd sz" and sz0: "sz0 \<le> sz"
    and r: "lifo_alloc_chunk s m sz want = (s', r)"
  shows "alloc_outcome B s f fs sz0 want s' r"
proof -
  define csz where "csz = (if sz > lifo_chunk_size s div 2 then sz + lifo_chunk_size s
                           else lifo_chunk_size s) + 16"
  have cs: "lifo_chunk_size s < 2 ^ 31 - 16" and h: "heap_ok B s"
    using inv by (simp_all add: lifo_inv_def)
  have bound: "16 + sz \<le> csz" "csz < 2 ^ 32" using cs sz(1) by (auto simp: csz_def)
  have "DWORD (DWORD (if sz > lifo_chunk_size s div 2 then sz + lifo_chunk_size s
                           else lifo_chunk_size s) + 16) = csz"
    using bound by (simp add: csz_def DWORD_id split: if_splits)
  then have eq: "DWORD ((if sz > lifo_chunk_size s div 2 then DWORD (sz + lifo_chunk_size s)
                           else lifo_chunk_size s) + 16) = csz"
    using cs by (simp add: DWORD_id split: if_splits)
  obtain s1 a where al: "call_alloc s csz = (s1, a)" by fastforce
  show ?thesis
  proof (cases a)
    case None
    then show ?thesis
      using r al eq call_alloc_failed_ok [OF inv] by (simp add: lifo_alloc_chunk_def alloc_outcome_def)
  next
    case (Some cn)
    then obtain c n where a: "a = Some (c, n)" by (cases cn) auto
    note al' = al [unfolded a] have "16 \<le> csz" using bound by simp
    note N = new_chunk [OF h al' this]
    have "16 + sz \<le> n" using N(5) bound by simp
    then have A: "ALIGNPTR c sizeof_chunk = c + 16" "ALIGNPTR (c + 16) sz = c + 16 + sz"
      "UDWORD (PTRDIFF32 (c + 16 + sz) (c + 16)) = sz"
      using N sz by (auto simp: ALIGNPTR_chunk ALIGNPTR_id PTRDIFF_size)
    have s': "s' = set_mark (lifo_top_mark s)
        (m\<lparr>lm_chunks := c, lm_last_alloc := c + 16, lm_freeptr := c + 16 + sz\<rparr>)
        (set_chunk c \<lparr>lc_prev = lm_chunks m, lc_end = c + n\<rparr> s1)"
      and r': "r = LRet (c + 16) (if want then Some sz else None)"
      using r al' eq A N(8) by (auto simp: lifo_alloc_chunk_def Let_def)
    have "lifo_flags s' = lifo_flags s" by (simp add: s' lifo_simps call_alloc_simps [OF al])
    then show ?thesis
      using new_block_ok [OF inv m al' bound(1) sz(2)] sz0
      unfolding alloc_outcome_def s' [symmetric] r' Let_def
      by (auto intro!: exI [of _ "f\<lparr>fr_chunks := c # fr_chunks f\<rparr>"])
  qed
qed

lemma allocated_mono: "allocated s f s' f' p n \<Longrightarrow> n' \<le> n \<Longrightarrow> allocated s f s' f' p n'"
  by (simp add: allocated_def disjoint_iff subset_iff)

lemma lifo_alloc_big_ok:
  assumes inv: "lifo_inv B s (f # fs)" and m: "mem_marks s (lifo_top_mark s) = Some m"
    and sz: "sz \<le> 2 ^ 31" "sz0 \<le> sz"
    and r: "lifo_alloc_big s m sz want = (s', r)"
  shows "alloc_outcome B s f fs sz0 want s' r"
proof -
  have h: "heap_ok B s" using inv by (simp add: lifo_inv_def)
  have eq: "DWORD (sz + ROUNDUP sizeof_chunk) = sz + 16" using sz(1) by (simp add: DWORD_id)
  obtain s1 a where al: "call_alloc s (sz + 16) = (s1, a)" by fastforce
  show ?thesis
  proof (cases a)
    case None
    then show ?thesis
      using r al eq call_alloc_failed_ok [OF inv] by (simp add: lifo_alloc_big_def alloc_outcome_def)
  next
    case (Some cn)
    then obtain c n where a: "a = Some (c, n)" by (cases cn) auto
    note al' = al [unfolded a] and N = new_chunk [OF h al [unfolded a]]
    have A: "ALIGNPTR c sizeof_chunk = c + 16" "UDWORD (PTRDIFF32 (c + n) (c + 16)) = n - 16"
      using N by (auto simp: ALIGNPTR_chunk PTRDIFF_size)
    have s': "s' = set_mark (lifo_top_mark s) (m\<lparr>lm_big_blocks := c, lm_last_alloc := c + 16\<rparr>)
        (set_chunk c \<lparr>lc_prev = lm_big_blocks m, lc_end = c + n\<rparr> s1)"
      and r': "r = LRet (c + 16) (if want then Some (n - 16) else None)"
      using r al' eq A N(8) by (auto simp: lifo_alloc_big_def Let_def)
    have "sz0 \<le> n - 16" using N(5) sz(2) by simp
    moreover have "lifo_inv B s' (f\<lparr>fr_bigs := c # fr_bigs f\<rparr> # fs)"
      "allocated s f s' (f\<lparr>fr_bigs := c # fr_bigs f\<rparr>) (c + 16) (n - 16)"
      "same_frames fs s s'"
      using new_big_ok [OF inv m al', of sz] by (simp_all add: s' Let_def)
    moreover have "lifo_flags s' = lifo_flags s" by (simp add: s' lifo_simps call_alloc_simps [OF al])
    moreover have "fr_mark (f\<lparr>fr_bigs := c # fr_bigs f\<rparr>) = fr_mark f" by simp
    ultimately show ?thesis unfolding alloc_outcome_def r' by blast
  qed
qed

lemma MemLifoAlloc_ok:
  assumes inv: "lifo_inv B s (f # fs)"
  shows "\<exists>s' r. MemLifoAlloc s sz want = Some (s', r) \<and> alloc_outcome B s f fs sz want s' r"
proof (cases "sz \<le> MEMLIFO_MAX_ALLOC")
  case False
  have "s = s\<lparr>lifo_allocator_data := lifo_allocator_data s\<rparr>" by simp
  with inv have "alloc_failed_ok B s (f # fs) s (lifo_fail s)" unfolding alloc_failed_ok_def by blast
  with False show ?thesis by (simp add: MemLifoAlloc_def alloc_outcome_def)
next
  case True
  obtain m k where T: "mem_marks s (lifo_top_mark s) = Some m" "mk s f = m" "fr_mark f = lifo_top_mark s"
    "mem_chunks s (lm_chunks m) = Some k" "chunk_ok (B (lifo_allocator_data s)) (lm_chunks m) k"
    "lm_chunks m + 16 \<le> lm_freeptr m" "lm_freeptr m \<le> lc_end k" "8 dvd lm_freeptr m"
    using inv by (rule lifo_inv_top)
  let ?sz = "DWORD (ROUNDUP sz)"
  note R = round_request [OF True] 
  have "DWORD (ROUNDUP sz) \<le> 2 ^ 31 + 56" using R(2) by simp
  note fits = fits_iff [OF T(5-7) this]
  show ?thesis
  proof (cases "lm_freeptr m + ?sz \<le> lc_end k")
    case fit: True
    have f: "frame_ok s f" using inv frames_ok_hd by (auto simp: lifo_inv_def)
    let ?fp = "if want then lc_end k else ADDPTR (lm_freeptr m) ?sz"
    let ?s' = "set_mark (lifo_top_mark s) (m\<lparr>lm_last_alloc := lm_freeptr m, lm_freeptr := ?fp\<rparr>) s"
    have add: "ADDPTR (lm_freeptr m) ?sz = lm_freeptr m + ?sz"
      using fit T(5) by (simp add: ADDPTR_id chunk_ok_def)
    have fp: "lm_freeptr m \<le> ?fp" "?fp \<le> lc_end k" "8 dvd ?fp"
      using fit T(5,7,8) R(3) unfolding add by (auto simp: chunk_ok_def)
    have b: "base s f \<subseteq> region (mem_chunks s) (fr_chunks f) (fr_bigs f) (lm_freeptr m)"
      using base_subset_reg [OF f] by (simp add: reg_def T(2))
    note S = set_top_ok [OF inv T(1,4,6) fp(1,2) T(8) fp(3) b]
    have al: "allocated s f ?s' f (lm_freeptr m) (?fp - lm_freeptr m)"
      using S T(2,3,6,8) fp(1) frame_fields(1) [of ?s' f]
      by (auto simp: allocated_def reg_def [of s] lifo_simps)
    have "?fp - lm_freeptr m < 2 ^ 31" using fp(2) T(5,6) by (auto simp: chunk_ok_def)
    then have u: "UDWORD (PTRDIFF32 ?fp (lm_freeptr m)) = ?fp - lm_freeptr m"
      using fp(1) by (rule PTRDIFF_size [rotated])
    have "sz \<le> ?fp - lm_freeptr m" using fit R(1) by (auto simp: add)
    then have "alloc_outcome B s f fs sz want ?s' (LRet (lm_freeptr m)
        (if want then Some (UDWORD (PTRDIFF32 ?fp (lm_freeptr m))) else None))"
      using S(1,5) al set_flags_simps(1) unfolding u alloc_outcome_def by blast
    with True fit T show ?thesis by (simp add: MemLifoAlloc_def fits Let_def)
  next
    case False
    obtain s' r where c: "lifo_alloc_chunk s m ?sz want = (s', r)" by fastforce
    obtain t q where b: "lifo_alloc_big s m ?sz want = (t, q)" by fastforce
    have "alloc_outcome B s f fs sz want s' r" "alloc_outcome B s f fs sz want t q"
      using lifo_alloc_chunk_ok [OF inv T(1) R(2,3,1) c] lifo_alloc_big_ok [OF inv T(1) R(2,1) b] .
    then show ?thesis
      using True False T c b by (simp add: MemLifoAlloc_def fits Let_def)
  qed
qed

end
