(* ===== verification/Memlifo_Frames.thy ===== *)
theory Memlifo_Frames
  imports Memlifo_Ops
begin

text \<open>
  Marks and frames of the pool: pushing a mark or a frame, popping it, and the initial
  state. Popping the topmost mark restores the frames below it and gives back to the
  allocator exactly the chunks acquired since the mark was pushed.
\<close>

section \<open>Pushing\<close>

lemma top_regions:
  assumes "lifo_inv B s (f # fs)"
  shows "frame_ok s f" "base s f \<subseteq> reg s f" "\<And>g. g \<in> set (f # fs) \<Longrightarrow> storage (fr_mark g) \<subseteq> reg s f"
proof -
  have fo: "frames_ok s (f # fs)" using assms by (simp add: lifo_inv_def)
  show f: "frame_ok s f" using frames_ok_hd [OF fo] .
  show b: "base s f \<subseteq> reg s f" using base_subset_reg [OF f] .
  fix g assume g: "g \<in> set (f # fs)"
  show "storage (fr_mark g) \<subseteq> reg s f"
  proof (cases "g = f")
    case True
    with b f show ?thesis by (auto simp: frame_ok_def)
  next
    case False
    with g have g: "g \<in> set fs" by simp
    then have "fs \<noteq> []" by auto
    with fo have "reg s (hd fs) \<subseteq> base s f" using frames_ok_tl by (auto simp: frame_above_def)
    with lower_in_region [OF fo g] b show ?thesis by blast
  qed
qed

lemma fresh_mark:
  assumes "lifo_inv B s (f # fs)" "n \<notin> reg s f" "g \<in> set (f # fs)"
  shows "fr_mark g \<noteq> n"
  using top_regions(3) [OF assms(1,3)] assms(2) storage_nonempty by blast

lemma push_update:
  assumes inv: "lifo_inv B s (f # fs)"
    and s': "heap_ok B s'" "same_pool s s'" "lifo_top_mark s' = fr_mark f'"
    and same: "same_frames (f # fs) s s'"
    and f': "frame_ok s' f'" "lm_prev (mk s' f') = fr_mark f"
    and ch: "\<exists>xs. fr_chunks f' = xs @ fr_chunks f" "\<exists>ys. fr_bigs f' = ys @ fr_bigs f"
    and reg: "reg s f \<subseteq> base s' f'" "storage (fr_mark f') \<inter> reg s f = {}"
  shows "lifo_inv B s' (f' # f # fs)"
proof -
  have fo: "frames_ok s (f # fs)" using inv by (simp add: lifo_inv_def)
  have sf: "same_frames [f] s s'" using same by (simp add: same_frames_def)
  have "fr_chunks f \<noteq> []" using frames_ok_hd [OF fo] by (simp add: frame_ok_def)
  then have "frame_above s' f' f"
    using f' ch reg frame_same [OF sf] by (simp add: frame_above_def)
  then show ?thesis
    using inv s' f' frames_ok_same [OF fo same] by (simp add: lifo_inv_def same_pool_def)
qed

lemma push_same_chunk:
  assumes inv: "lifo_inv B s (f # fs)" and m: "mem_marks s (lifo_top_mark s) = Some m"
    and k: "mem_chunks s (lm_chunks m) = Some k"
    and fp: "lm_freeptr m + 56 \<le> fp" "fp \<le> lc_end k" "8 dvd fp"
    and la: "la = NULL \<and> fp = lm_freeptr m + 56 \<or> la = lm_freeptr m + 56"
  defines "s' \<equiv> set_mark (lm_freeptr m) \<lparr>lm_lifo = lifo_self s, lm_prev = lifo_top_mark s,
      lm_last_alloc = la, lm_big_blocks = lm_big_blocks m, lm_chunks = lm_chunks m,
      lm_freeptr = fp\<rparr> (s\<lparr>lifo_top_mark := lm_freeptr m\<rparr>)"
    and "f' \<equiv> f\<lparr>fr_mark := lm_freeptr m\<rparr>"
  shows "lifo_inv B s' (f' # f # fs)" "base s' f' = reg s f \<union> storage (lm_freeptr m)"
    "reg s' f' = base s' f' \<union> {lm_freeptr m + 56 ..< fp}"
    "{lm_freeptr m + 56 ..< fp} \<inter> base s' f' = {}"
    "lm_last_alloc (mk s' f') = la"
proof -
  let ?m = "\<lparr>lm_lifo = lifo_self s, lm_prev = lifo_top_mark s, lm_last_alloc = la,
      lm_big_blocks = lm_big_blocks m, lm_chunks = lm_chunks m, lm_freeptr = fp\<rparr>"
  let ?R = "region (mem_chunks s) (fr_chunks f) (fr_bigs f)"
  have h: "heap_ok B s" using inv by (simp add: lifo_inv_def)
  note f = top_regions [OF inv]
  from inv m k have t: "fr_mark f = lifo_top_mark s" and mf: "mk s f = m"
    and hc: "lm_chunks m = hd (fr_chunks f)" and ne: "fr_chunks f \<noteq> []"
    and p: "lm_chunks m + 16 \<le> lm_freeptr m" "8 dvd lm_freeptr m"
    by (auto elim: lifo_inv_top)
  have ce: "cend (mem_chunks s) (hd (fr_chunks f)) = lc_end k" using k hc by (simp add: cend_def)
  have C: "mem_chunks s' = mem_chunks s" and m': "mem_marks s' (fr_mark f') = Some ?m"
    by (simp_all add: s'_def f'_def lifo_simps)
  have L: "fr_chunks f' = fr_chunks f" "fr_bigs f' = fr_bigs f" by (simp_all add: f'_def)
  note F = frame_fields [OF m']
  have grow: "?R (lm_freeptr m + 56) = reg s f \<union> storage (lm_freeptr m)"
    using fp ne p hc by (simp add: region_grow ce reg_def mf storage_def sizeof_mark_def)
  have free: "{lm_freeptr m ..< lc_end k} \<inter> reg s f = {}"
    using free_disjoint [OF h f(1) subset_refl, of "lm_freeptr m"] p hc by (simp add: ce reg_def mf)
  have nb: "lm_freeptr m + 56 \<noteq> hd (fr_bigs f) + 16" if "fr_bigs f \<noteq> []"
    using last_not_big [OF h f(1) hd_in_set [OF that], of "lm_freeptr m + 56"] p fp ce hc by simp
  show b: "base s' f' = reg s f \<union> storage (lm_freeptr m)"
  proof (cases "la = NULL")
    case True
    then show ?thesis using la grow by (simp add: base_def F C L)
  next
    case False
    then have "la = lm_freeptr m + 56" using la by blast
    moreover have "base s' f' = ?R la" using nb False calculation by (simp add: base_def F C L) blast
    ultimately show ?thesis using grow by simp
  qed
  show r: "reg s' f' = base s' f' \<union> {lm_freeptr m + 56 ..< fp}"
    using fp ne p hc unfolding b by (simp add: F C L ce region_grow flip: grow)
  show "{lm_freeptr m + 56 ..< fp} \<inter> base s' f' = {}"
    using free fp unfolding b by (auto simp: disjoint_iff storage_def sizeof_mark_def)
  show "lm_last_alloc (mk s' f') = la" by (simp add: F)
  have self: "lifo_self s' = lifo_self s" by (simp add: s'_def lifo_simps)
  have "last_ok s' f'" using la p fp by (auto simp: last_ok_def F)
  then have f': "frame_ok s' f'"
    using f(1) fp p ce hc m' b unfolding frame_ok_def by (simp add: C F L mf self) (simp add: f'_def)
  have sto: "storage (lm_freeptr m) \<inter> reg s f = {}"
    using free fp by (auto simp: disjoint_iff storage_def sizeof_mark_def)
  then have notin: "lm_freeptr m \<notin> reg s f" using storage_nonempty by blast
  show "lifo_inv B s' (f' # f # fs)"
  proof (rule push_update [OF inv])
    show "same_frames (f # fs) s s'"
      using fresh_mark [OF inv notin] by (simp add: s'_def same_frames_def lifo_simps)
    show "storage (fr_mark f') \<inter> reg s f = {}" using sto by (simp add: f'_def)
  qed (use h f' b L t in \<open>simp_all add: F, simp_all add: s'_def f'_def same_pool_def lifo_simps heap_ok_def\<close>)
qed

lemma push_new_chunk:
  assumes inv: "lifo_inv B s (f # fs)" and m: "mem_marks s (lifo_top_mark s) = Some m"
    and al: "call_alloc s csz = (s1, Some (c, n))" and csz: "72 \<le> csz"
  defines "s' \<equiv> set_mark (c + 16) \<lparr>lm_lifo = lifo_self s, lm_prev = lifo_top_mark s,
      lm_last_alloc = NULL, lm_big_blocks = lm_big_blocks m, lm_chunks = c,
      lm_freeptr = c + 72\<rparr>
      ((set_chunk c \<lparr>lc_prev = lm_chunks m, lc_end = c + n\<rparr> s1)\<lparr>lifo_top_mark := c + 16\<rparr>)"
    and "f' \<equiv> f\<lparr>fr_mark := c + 16, fr_chunks := c # fr_chunks f\<rparr>"
  shows "lifo_inv B s' (f' # f # fs)"
proof -
  let ?k = "\<lparr>lc_prev = lm_chunks m, lc_end = c + n\<rparr>" and ?C = "mem_chunks s"
  let ?s2 = "set_chunk c ?k s1"
  let ?m = "\<lparr>lm_lifo = lifo_self s, lm_prev = lifo_top_mark s, lm_last_alloc = NULL,
      lm_big_blocks = lm_big_blocks m, lm_chunks = c, lm_freeptr = c + 72\<rparr>"
  have h: "heap_ok B s" and fo: "frames_ok s (f # fs)" using inv by (simp_all add: lifo_inv_def)
  note f = top_regions [OF inv] and S1 = call_alloc_simps [OF al]
  from inv m have t: "fr_mark f = lifo_top_mark s" and mf: "mk s f = m"
    by (auto elim: lifo_inv_top)
  have "16 \<le> csz" using csz by simp
  note N = new_chunk [OF h al this]
  have C: "mem_chunks s' = ?C(c \<mapsto> ?k)" and m': "mem_marks s' (fr_mark f') = Some ?m"
    by (simp_all add: s'_def f'_def lifo_simps S1)
  have L: "fr_chunks f' = c # fr_chunks f" "fr_bigs f' = fr_bigs f" by (simp_all add: f'_def)
  note F = frame_fields [OF m']
  have fresh: "c \<notin> set (fr_chunks f) \<union> set (fr_bigs f)"
    using frame_chunks_dom [OF f(1)] N(1) by blast
  have h': "heap_ok B ?s2" by (rule N(9))
  have dj: "ext ?C d \<inter> {c ..< c + n} = {}" if "d \<in> set (fr_chunks f) \<union> set (fr_bigs f)" for d
    using ext_disjoint [OF h', of d c] frame_chunks_dom [OF f(1)] that fresh
    by (auto simp: lifo_simps S1 ext_def cend_def)
  have b: "base s' f' = reg s' f'" by (simp add: base_def F)
  have sub: "reg s f \<subseteq> reg s' f'"
    using fresh dj unfolding F C L reg_def [of s] by (intro region_new_chunk) auto
  have out: "{c ..< c + n} \<inter> reg s f = {}" using dj by (auto simp: reg_def region_def)
  have st: "storage (c + 16) \<subseteq> {c ..< c + n}" "{c ..< c + 72} \<subseteq> reg s' f'"
    using N(5) csz fresh unfolding F C L
    by (auto simp: storage_def sizeof_mark_def region_def ext_def cend_def)
  then have st': "storage (c + 16) \<subseteq> reg s' f'"
    by (auto simp: storage_def sizeof_mark_def)
  have self: "lifo_self s' = lifo_self s" by (simp add: s'_def lifo_simps S1)
  have ch: "chain (?C(c \<mapsto> ?k)) p xs = chain ?C p xs" if "xs = fr_chunks f \<or> xs = fr_bigs f" for p xs
    using fresh that by (intro chain_cong) auto
  have f': "frame_ok s' f'"
    using f(1) fresh N(2,3,5) csz st' m' unfolding frame_ok_def last_ok_def
    by (simp add: F(1) C L ch mf self cend_def b) (simp add: f'_def)
  have notin: "c + 16 \<notin> reg s f" using out N(5) csz by (auto simp: disjoint_iff)
  show "lifo_inv B s' (f' # f # fs)"
  proof (rule push_update [OF inv])
    show "same_frames (f # fs) s s'"
      using fresh_mark [OF inv notin] frame_chunks_dom [OF frames_ok_each [OF fo]] N(1)
      by (auto simp: s'_def same_frames_def lifo_simps S1)
    show "storage (fr_mark f') \<inter> reg s f = {}" using st(1) out by (auto simp: f'_def)
    show "heap_ok B s'" using h' by (simp add: s'_def heap_ok_def lifo_simps)
    show "reg s f \<subseteq> base s' f'" using sub b by simp
    show "lm_prev (mk s' f') = fr_mark f" by (simp add: F t)
  qed (use f' L in \<open>simp_all, simp_all add: s'_def f'_def same_pool_def lifo_simps S1\<close>)
qed

text \<open>The chunks acquired since the topmost mark was pushed.\<close>

definition acquired :: "frame \<Rightarrow> frame \<Rightarrow> addr set" where
  "acquired f g = (set (fr_chunks f) - set (fr_chunks g)) \<union> (set (fr_bigs f) - set (fr_bigs g))"

definition push_outcome ::
    "('h \<Rightarrow> addr \<rightharpoonup> nat) \<Rightarrow> 'h memlifo \<Rightarrow> frame list \<Rightarrow> 'h memlifo \<Rightarrow> lifo_ret \<Rightarrow> bool" where
  "push_outcome B s fs s' r \<longleftrightarrow> alloc_failed_ok B s fs s' r \<or>
     (\<exists>f'. lifo_inv B s' (f' # fs) \<and> r = LRet (fr_mark f') None \<and> mem_bytes s' = mem_bytes s \<and>
        lifo_flags s' = lifo_flags s \<and> same_frames fs s s' \<and>
        mem_chunks s' |` (- acquired f' (hd fs)) = mem_chunks s \<and>
        lm_last_alloc (mk s' f') = NULL)"

lemma lifo_inv_same_above:
  "lifo_inv B s (f # fs) \<Longrightarrow> fr_mark f \<noteq> NULL"
  by (auto simp: lifo_inv_def frame_ok_def dest!: frames_ok_hd)

lemma MemLifoPushMark_ok:
  assumes inv: "lifo_inv B s (f # fs)"
  shows "\<exists>s' r. MemLifoPushMark s = Some (s', r) \<and> push_outcome B s (f # fs) s' r"
proof -
  obtain m k where T: "mem_marks s (lifo_top_mark s) = Some m" "mk s f = m" "fr_mark f = lifo_top_mark s"
    "mem_chunks s (lm_chunks m) = Some k" "chunk_ok (B (lifo_allocator_data s)) (lm_chunks m) k"
    "lm_chunks m + 16 \<le> lm_freeptr m" "lm_freeptr m \<le> lc_end k" "8 dvd lm_freeptr m"
    using inv by (rule lifo_inv_top)
  have fits: "ADDPTR (lm_freeptr m) 56 > lm_chunks m \<and> ADDPTR (lm_freeptr m) 56 \<le> lc_end k \<longleftrightarrow>
      lm_freeptr m + 56 \<le> lc_end k"
    by (rule fits_iff [OF T(5-7)]) simp
  show ?thesis
  proof (cases "lm_freeptr m + 56 \<le> lc_end k")
    case True
    have add: "ADDPTR (lm_freeptr m) 56 = lm_freeptr m + 56"
      using True T(5) by (simp add: ADDPTR_id chunk_ok_def)
    have "8 dvd lm_freeptr m + 56" using T(8) by simp
    note P = push_same_chunk [OF inv T(1,4) order_refl True this disjI1 [OF conjI [OF refl refl]]]
    let ?f' = "f\<lparr>fr_mark := lm_freeptr m\<rparr>"
    let ?s' = "set_mark (lm_freeptr m) \<lparr>lm_lifo = lifo_self s, lm_prev = lifo_top_mark s,
      lm_last_alloc = NULL, lm_big_blocks = lm_big_blocks m, lm_chunks = lm_chunks m,
      lm_freeptr = lm_freeptr m + 56\<rparr> (s\<lparr>lifo_top_mark := lm_freeptr m\<rparr>)"
    have "frames_ok ?s' (?f' # f # fs)" using P(1) by (simp only: lifo_inv_def)
    then have nf: "fr_mark g \<noteq> lm_freeptr m" if "g \<in> set (f # fs)" for g
      using top_mark_distinct [of ?s' ?f' "f # fs"] that by fastforce
    have "same_frames (f # fs) s ?s'" using nf by (simp add: same_frames_def lifo_simps)
    then have "push_outcome B s (f # fs) ?s' (LRet (lm_freeptr m) None)"
      using P(1) unfolding push_outcome_def
      by (intro disjI2 exI [of _ ?f'])
        (simp add: lifo_simps acquired_def restrict_map_def mk_def)
    then show ?thesis using T True by (simp add: MemLifoPushMark_def fits add Let_def)
  next
    case False
    obtain s1 a where al: "call_alloc s (lifo_chunk_size s) = (s1, a)" by fastforce
    show ?thesis
    proof (cases a)
      case None
      then show ?thesis
        using T False al call_alloc_failed_ok [OF inv]
        by (simp add: MemLifoPushMark_def fits Let_def push_outcome_def)
    next
      case (Some cn)
      then obtain c n where a: "a = Some (c, n)" by (cases cn) auto
      note al' = al [unfolded a] and S1 = call_alloc_simps [OF al]
      have cs: "72 \<le> lifo_chunk_size s" "16 \<le> lifo_chunk_size s" and h: "heap_ok B s"
        and fo: "frames_ok s (f # fs)"
        using inv by (simp_all add: lifo_inv_def)
      note N = new_chunk [OF h al' cs(2)]
      have A: "ALIGNPTR c sizeof_chunk = c + 16" "ALIGNPTR (c + 16) sizeof_mark = c + 72"
        using N cs by (simp_all add: ALIGNPTR_chunk ALIGNPTR_id sizeof_mark_def)
      note P = push_new_chunk [OF inv T(1) al' cs(1)]
      let ?s' = "set_mark (c + 16) \<lparr>lm_lifo = lifo_self s, lm_prev = lifo_top_mark s,
        lm_last_alloc = NULL, lm_big_blocks = lm_big_blocks m, lm_chunks = c,
        lm_freeptr = c + 72\<rparr>
        ((set_chunk c \<lparr>lc_prev = lm_chunks m, lc_end = c + n\<rparr> s1)\<lparr>lifo_top_mark := c + 16\<rparr>)"
      let ?f' = "f\<lparr>fr_mark := c + 16, fr_chunks := c # fr_chunks f\<rparr>"
      have "frames_ok ?s' (?f' # f # fs)" using P by (simp only: lifo_inv_def)
      then have "fr_mark g \<noteq> c + 16" if "g \<in> set (f # fs)" for g
        using top_mark_distinct [of ?s' ?f' "f # fs"] that by fastforce
      then have "same_frames (f # fs) s ?s'"
        using frame_chunks_dom [OF frames_ok_each [OF fo]] N(1)
        by (auto simp: same_frames_def lifo_simps S1)
      moreover have "acquired ?f' f = {c}"
        using frame_chunks_dom [OF top_regions(1) [OF inv]] N(1) by (auto simp: acquired_def)
      then have "mem_chunks ?s' |` (- acquired ?f' f) = mem_chunks s"
        using N(1) by (auto simp: lifo_simps S1 restrict_map_def fun_eq_iff)
      moreover have "mem_bytes ?s' = mem_bytes s" "lifo_flags ?s' = lifo_flags s"
        by (simp_all add: lifo_simps S1)
      ultimately have "push_outcome B s (f # fs) ?s' (LRet (c + 16) None)"
        using P unfolding push_outcome_def
        by (intro disjI2 exI [of _ ?f']) (simp add: mk_def lifo_simps)
      then show ?thesis using T False al' S1 N(8) A
        by (simp add: MemLifoPushMark_def fits Let_def)
    qed
  qed
qed

section \<open>Popping\<close>

definition freed :: "('h \<Rightarrow> addr \<rightharpoonup> nat) \<Rightarrow> 'h memlifo \<Rightarrow> addr set \<Rightarrow> 'h memlifo \<Rightarrow> bool" where
  "freed B s X s' \<longleftrightarrow> heap_ok B s' \<and> mem_chunks s' = mem_chunks s |` (- X) \<and>
     B (lifo_allocator_data s') = B (lifo_allocator_data s) |` (- X) \<and>
     (\<forall>a. (\<forall>x \<in> X. a \<notin> ext (mem_chunks s) x) \<longrightarrow> mem_marks s' a = mem_marks s a) \<and>
     same_pool s s' \<and> lifo_top_mark s' = lifo_top_mark s \<and> lifo_flags s' = lifo_flags s \<and>
     mem_bytes s' = mem_bytes s"

lemma freed_refl: "heap_ok B s \<Longrightarrow> freed B s {} s"
  by (simp add: freed_def same_pool_def restrict_map_def)

lemma ext_restrict: "x \<notin> X \<Longrightarrow> ext (C |` (- X)) x = ext C x"
  by (simp add: ext_def cend_def)

lemma freed_trans:
  assumes "freed B s X s1" "freed B s1 Y s2" "X \<inter> Y = {}"
  shows "freed B s (X \<union> Y) s2"
proof -
  have c: "mem_chunks s1 = mem_chunks s |` (- X)" using assms(1) by (simp add: freed_def)
  have e: "ext (mem_chunks s1) y = ext (mem_chunks s) y" if "y \<in> Y" for y
    unfolding c using that assms(3) by (intro ext_restrict) auto
  have "mem_marks s2 a = mem_marks s a" if "\<forall>x \<in> X \<union> Y. a \<notin> ext (mem_chunks s) x" for a
  proof -
    have "mem_marks s2 a = mem_marks s1 a" using assms(2) that e by (simp add: freed_def)
    then show ?thesis using assms(1) that by (simp add: freed_def)
  qed
  then show ?thesis using assms(1,2) unfolding freed_def same_pool_def
    by (simp add: Int_commute)
qed

lemma freed_one:
  assumes h: "heap_ok B s" and k: "mem_chunks s p = Some k"
  shows "freed B s {p} (call_free p s)"
proof -
  let ?s = "call_free p s" and ?b = "B (lifo_allocator_data s)"
  have b: "B (lifo_allocator_data ?s) = ?b(p := None)"
    using h by (simp add: call_free_def heap_ok_def allocator_ok_def)
  have c: "mem_chunks ?s = (mem_chunks s)(p := None)" by (simp add: call_free_def)
  have "blocks_disjoint (?b(p := None))"
    using h by (simp add: heap_ok_def blocks_disjoint_def)
  then have "heap_ok B ?s"
    using h unfolding heap_ok_def b c by (auto simp: call_free_def chunk_ok_def)
  then show ?thesis
    using b c k by (auto simp: freed_def same_pool_def call_free_def restrict_map_def ext_def cend_def)
qed

lemma free_chain_ok:
  assumes "heap_ok B s" "chain (mem_chunks s) p (xs @ cs)" "distinct (xs @ cs)"
    and "stop = (if cs = [] then NULL else hd cs)"
  shows "\<exists>s'. lifo_free_chain p stop s = Some s' \<and> freed B s (set xs) s'"
  using assms
proof (induction xs arbitrary: p s)
  case Nil
  then have "p = stop" using chain_head by fastforce
  with Nil show ?case using freed_refl by (auto simp: lifo_free_chain.simps)
next
  case (Cons x xs)
  then obtain k where p: "p = x" "x \<noteq> NULL" and k: "mem_chunks s x = Some k"
    and ch: "chain (mem_chunks s) (lc_prev k) (xs @ cs)"
    by (auto split: option.splits)
  have "x \<noteq> stop" using Cons.prems(3,4) p(2) hd_in_set [of cs] by (auto split: if_splits)
  note F = freed_one [OF Cons.prems(1) k]
  have h1: "heap_ok B (call_free x s)" using F by (simp add: freed_def)
  have h2: "chain (mem_chunks (call_free x s)) (lc_prev k) (xs @ cs)"
    using ch Cons.prems(3) by (subst chain_cong [of _ _ "mem_chunks s"]) (auto simp: call_free_def)
  obtain s' where s': "lifo_free_chain (lc_prev k) stop (call_free x s) = Some s'"
    "freed B (call_free x s) (set xs) s'"
    using Cons.IH [OF h1 h2 _ Cons.prems(4)] Cons.prems(3) by auto
  have "freed B s ({x} \<union> set xs) s'"
    using freed_trans [OF F s'(2)] Cons.prems(3) by simp
  with s'(1) k p \<open>x \<noteq> stop\<close> show ?case by (simp add: lifo_free_chain.simps)
qed

lemma lower_chunks:
  assumes "frames_ok s (g # gs)" "h \<in> set (g # gs)"
  shows "set (fr_chunks h) \<subseteq> set (fr_chunks g)" "set (fr_bigs h) \<subseteq> set (fr_bigs g)"
proof -
  have "set (fr_chunks h) \<subseteq> set (fr_chunks g) \<and> set (fr_bigs h) \<subseteq> set (fr_bigs g)"
    using assms
  proof (induction gs arbitrary: g)
    case Nil
    then show ?case by simp
  next
    case (Cons f fs)
    then have "set (fr_chunks f) \<subseteq> set (fr_chunks g)" "set (fr_bigs f) \<subseteq> set (fr_bigs g)"
      by (auto simp: frame_above_def)
    with Cons show ?case by fastforce
  qed
  then show "set (fr_chunks h) \<subseteq> set (fr_chunks g)" "set (fr_bigs h) \<subseteq> set (fr_bigs g)"
    by simp_all
qed

lemma reg_subset_exts:
  "reg s g \<subseteq> (\<Union>d \<in> set (fr_chunks g) \<union> set (fr_bigs g). ext (mem_chunks s) d)"
  by (auto simp: reg_def region_def)

lemma freed_frames:
  assumes h: "heap_ok B s" and fo: "frames_ok s (f # g # gs)" and fr: "freed B s X s'"
    and X: "X \<subseteq> dom (mem_chunks s)" "X \<inter> (set (fr_chunks g) \<union> set (fr_bigs g)) = {}"
  shows "same_frames (g # gs) s s'"
  unfolding same_frames_def
proof (intro conjI ballI)
  have go: "frames_ok s (g # gs)" using fo by simp
  show "lifo_self s' = lifo_self s" using fr by (simp add: freed_def same_pool_def)
  fix i assume i: "i \<in> set (g # gs)"
  have "fr_mark i \<in> reg s g"
    using lower_in_region [OF fo i] storage_nonempty by auto
  then obtain d where d: "d \<in> set (fr_chunks g) \<union> set (fr_bigs g)" "fr_mark i \<in> ext (mem_chunks s) d"
    using reg_subset_exts by blast
  have "fr_mark i \<notin> ext (mem_chunks s) x" if "x \<in> X" for x
  proof -
    have "d \<in> dom (mem_chunks s)" using d(1) frame_chunks_dom frames_ok_hd [OF go] by blast
    moreover have "x \<noteq> d" using that d(1) X(2) by auto
    ultimately show ?thesis using ext_disjoint [OF h, of x d] that X(1) d(2) by blast
  qed
  then show "mem_marks s' (fr_mark i) = mem_marks s (fr_mark i)"
    using fr by (simp add: freed_def)
  fix c assume "c \<in> set (fr_chunks i) \<union> set (fr_bigs i)"
  then have "c \<notin> X" using lower_chunks [OF go i] X(2) by blast
  then show "mem_chunks s' c = mem_chunks s c" using fr by (simp add: freed_def)
qed

definition pop_outcome ::
    "('h \<Rightarrow> addr \<rightharpoonup> nat) \<Rightarrow> 'h memlifo \<Rightarrow> frame \<Rightarrow> frame list \<Rightarrow> 'h memlifo \<Rightarrow> bool" where
  "pop_outcome B s f fs s' \<longleftrightarrow> lifo_inv B s' fs \<and> same_frames fs s s' \<and>
     mem_chunks s' = mem_chunks s |` (- acquired f (hd fs)) \<and>
     B (lifo_allocator_data s') = B (lifo_allocator_data s) |` (- acquired f (hd fs)) \<and>
     mem_bytes s' = mem_bytes s \<and> lifo_flags s' = lifo_flags s"

lemma frames_ok_suffix: "frames_ok s (pre @ fs) \<Longrightarrow> fs \<noteq> [] \<Longrightarrow> frames_ok s fs"
  by (induction pre) (use frames_ok_tl in auto)

lemma MemLifoPopMark_at:
  assumes inv0: "lifo_inv B s (pre @ f # g # gs)"
  shows "\<exists>s'. MemLifoPopMark s (fr_mark f) = Some s' \<and> pop_outcome B s f (g # gs) s'"
proof -
  have h: "heap_ok B s" using inv0 by (simp add: lifo_inv_def)
  have fo: "frames_ok s (f # g # gs)"
    by (rule frames_ok_suffix [of s pre]) (use inv0 in \<open>auto simp: lifo_inv_def\<close>)
  then have f: "frame_ok s f" and g: "frame_ok s g" and ab: "frame_above s f g"
    and go: "frames_ok s (g # gs)"
    using frames_ok_hd by auto
  obtain m n where m: "mem_marks s (fr_mark f) = Some m" and n: "mem_marks s (fr_mark g) = Some n"
    using f g by (auto simp: frame_ok_def)
  have M: "mk s f = m" "mk s g = n" using m n by (simp_all add: mk_mark)
  obtain xs ys where xs: "fr_chunks f = xs @ fr_chunks g" and ys: "fr_bigs f = ys @ fr_bigs g"
    and np: "lm_prev m = fr_mark g"
    using ab M by (auto simp: frame_above_def)
  have d: "distinct (xs @ fr_chunks g @ ys @ fr_bigs g)" using f xs ys by (simp add: frame_ok_def)
  then have X: "acquired f g = set xs \<union> set ys" by (auto simp: acquired_def xs ys)
  have ch: "chain (mem_chunks s) (lm_chunks m) (xs @ fr_chunks g)"
    "chain (mem_chunks s) (lm_big_blocks m) (ys @ fr_bigs g)"
    using f M xs ys by (auto simp: frame_ok_def)
  have ng: "fr_chunks g \<noteq> []" and cg: "chain (mem_chunks s) (lm_chunks n) (fr_chunks g)"
    "chain (mem_chunks s) (lm_big_blocks n) (fr_bigs g)"
    using g M by (auto simp: frame_ok_def)
  note stop = chain_head [OF cg(1)] chain_head [OF cg(2)]
  have "\<exists>s1. (if lm_big_blocks m \<noteq> lm_big_blocks n \<or> lm_chunks m \<noteq> lm_chunks n
           then do { s' \<leftarrow> lifo_free_chain (lm_big_blocks m) (lm_big_blocks n) s;
                     lifo_free_chain (lm_chunks m) (lm_chunks n) s' }
           else Some s) = Some s1 \<and> freed B s (set xs \<union> set ys) s1"
  proof (cases "lm_big_blocks m \<noteq> lm_big_blocks n \<or> lm_chunks m \<noteq> lm_chunks n")
    case True
    obtain s' where s': "lifo_free_chain (lm_big_blocks m) (lm_big_blocks n) s = Some s'"
      "freed B s (set ys) s'"
      using free_chain_ok [OF h ch(2) _ stop(2)] d by auto
    have h': "heap_ok B s'" using s'(2) by (simp add: freed_def)
    have c': "chain (mem_chunks s') (lm_chunks m) (xs @ fr_chunks g)"
      using ch(1) s'(2) d by (subst chain_cong [of _ _ "mem_chunks s"]) (auto simp: freed_def restrict_map_def)
    obtain s1 where s1: "lifo_free_chain (lm_chunks m) (lm_chunks n) s' = Some s1"
      "freed B s' (set xs) s1"
      using free_chain_ok [OF h' c' _ stop(1)] d by auto
    have "freed B s (set ys \<union> set xs) s1" using freed_trans [OF s'(2) s1(2)] d by auto
    with True s'(1) s1(1) show ?thesis by (simp add: Un_commute)
  next
    case False
    then have "xs = []" "ys = []"
      using chain_unique [OF ch(1)] chain_unique [OF ch(2)] cg by auto
    with False freed_refl [OF h] show ?thesis by simp
  qed
  then obtain s1 where s1: "(if lm_big_blocks m \<noteq> lm_big_blocks n \<or> lm_chunks m \<noteq> lm_chunks n
           then do { s' \<leftarrow> lifo_free_chain (lm_big_blocks m) (lm_big_blocks n) s;
                     lifo_free_chain (lm_chunks m) (lm_chunks n) s' }
           else Some s) = Some s1" and fr: "freed B s (set xs \<union> set ys) s1"
    by blast
  have "set xs \<union> set ys \<subseteq> dom (mem_chunks s)" using frame_chunks_dom [OF f] xs ys by auto
  moreover have "(set xs \<union> set ys) \<inter> (set (fr_chunks g) \<union> set (fr_bigs g)) = {}" using d by auto
  ultimately have same: "same_frames (g # gs) s s1" by (rule freed_frames [OF h fo fr])
  let ?s = "s1\<lparr>lifo_top_mark := fr_mark g\<rparr>"
  have same': "same_frames (g # gs) s ?s" using same by (simp add: same_frames_def)
  have n1: "mem_marks s1 (fr_mark g) = Some n" using same n by (simp add: same_frames_def)
  have "lm_lifo n = lifo_self s1" using g M fr by (simp add: frame_ok_def freed_def same_pool_def)
  then have "MemLifoPopMark s (fr_mark f) = Some ?s"
    using m n n1 np s1 by (simp add: MemLifoPopMark_def)
  moreover have "heap_ok B s1" using fr by (simp add: freed_def)
  then have "heap_ok B ?s" by (simp add: heap_ok_def)
  then have "lifo_inv B ?s (g # gs)"
    using inv0 fr frames_ok_same [OF go same'] by (simp add: lifo_inv_def freed_def same_pool_def)
  ultimately show ?thesis
    using fr same' X by (simp add: pop_outcome_def freed_def)
qed

lemma MemLifoPopMark_ok:
  assumes "lifo_inv B s (f # g # gs)"
  shows "\<exists>s'. MemLifoPopMark s (lifo_top_mark s) = Some s' \<and> pop_outcome B s f (g # gs) s'"
  using MemLifoPopMark_at [of B s "[]" f g gs] assms by (simp add: lifo_inv_def)

text \<open>
  A frame is a mark and a first allocation on it: either the request fails and the frames
  below are as before, or there is one more frame, holding the block.
\<close>

definition frame_failed ::
    "('h \<Rightarrow> addr \<rightharpoonup> nat) \<Rightarrow> 'h memlifo \<Rightarrow> frame list \<Rightarrow> 'h memlifo \<Rightarrow> lifo_ret \<Rightarrow> bool" where
  "frame_failed B s fs s' r \<longleftrightarrow> r = LRet NULL None \<and> lifo_fail s = r \<and> lifo_inv B s' fs \<and>
     same_frames fs s s' \<and> mem_chunks s' = mem_chunks s \<and> mem_bytes s' = mem_bytes s"

definition frame_outcome ::
    "('h \<Rightarrow> addr \<rightharpoonup> nat) \<Rightarrow> 'h memlifo \<Rightarrow> frame \<Rightarrow> frame list \<Rightarrow> nat \<Rightarrow> bool \<Rightarrow>
     'h memlifo \<Rightarrow> lifo_ret \<Rightarrow> bool" where
  "frame_outcome B s f fs sz want s' r \<longleftrightarrow> r = LPanic \<and> lifo_fail s = LPanic \<or>
     frame_failed B s (f # fs) s' r \<or>
     (\<exists>p n f'. r = LRet p (if want then Some n else None) \<and> sz \<le> n \<and>
        lifo_inv B s' (f' # f # fs) \<and> allocated s f s' f' p n \<and> same_frames (f # fs) s s')"

lemma lifo_fail_cases: "lifo_fail s = LPanic \<or> lifo_fail s = LRet NULL None"
  by (simp add: lifo_fail_def)

lemma lifo_fail_flags: "lifo_flags s' = lifo_flags s \<Longrightarrow> lifo_fail s' = lifo_fail s"
  by (simp add: lifo_fail_def)

lemma alloc_failed_frame:
  "alloc_failed_ok B s (f # fs) s' r \<Longrightarrow> frame_outcome B s f fs sz want s' r"
  using lifo_fail_cases [of s]
  by (auto simp: alloc_failed_ok_def frame_outcome_def frame_failed_def same_frames_def)

text \<open>The slow path of \<open>MemLifoPushFrame\<close>.\<close>

definition push_then_alloc :: "'h memlifo \<Rightarrow> nat \<Rightarrow> bool \<Rightarrow> ('h memlifo \<times> lifo_ret) option" where
  "push_then_alloc s sz want = do {
     (s1, r) \<leftarrow> MemLifoPushMark s;
     (case r of
        LPanic \<Rightarrow> Some (s1, LPanic)
      | LRet n _ \<Rightarrow>
          if n \<noteq> NULL then do {
            (s2, r2) \<leftarrow> MemLifoAlloc s1 sz want;
            (case r2 of
               LPanic \<Rightarrow> Some (s2, LPanic)
             | LRet p _ \<Rightarrow>
                 if p \<noteq> NULL then Some (s2, r2)
                 else do { s3 \<leftarrow> MemLifoPopMark s2 n; Some (s3, lifo_fail s3) }) }
          else Some (s1, lifo_fail s1)) }"

lemma pop_failed_push:
  assumes inv1: "lifo_inv B s1 (f1 # f # fs)" and fail: "alloc_failed_ok B s1 (f1 # f # fs) s2 (LRet NULL None)"
    and inv: "lifo_inv B s (f # fs)" and same: "same_frames (f # fs) s s1"
    and chunks: "mem_chunks s1 |` (- acquired f1 f) = mem_chunks s" "mem_bytes s1 = mem_bytes s"
    and flags: "lifo_flags s1 = lifo_flags s"
  shows "\<exists>s3. MemLifoPopMark s2 (fr_mark f1) = Some s3 \<and> frame_outcome B s f fs sz want s3 (lifo_fail s3)"
proof -
  obtain h where s2: "s2 = s1\<lparr>lifo_allocator_data := h\<rparr>" and inv2: "lifo_inv B s2 (f1 # f # fs)"
    and r: "lifo_fail s1 = LRet NULL None"
    using fail by (auto simp: alloc_failed_ok_def)
  have top: "lifo_top_mark s2 = fr_mark f1" using inv2 by (simp add: lifo_inv_def)
  obtain s3 where s3: "MemLifoPopMark s2 (fr_mark f1) = Some s3" "pop_outcome B s2 f1 (f # fs) s3"
    using MemLifoPopMark_ok [OF inv2] top by auto
  have "same_frames (f # fs) s s2" using same by (simp add: s2 same_frames_def)
  then have "same_frames (f # fs) s s3" using s3(2) same_frames_trans by (auto simp: pop_outcome_def)
  moreover have "lifo_fail s3 = lifo_fail s" "lifo_fail s = LRet NULL None"
    using s3(2) flags r by (simp_all add: pop_outcome_def s2 lifo_fail_def)
  ultimately have "frame_failed B s (f # fs) s3 (lifo_fail s3)"
    using s3(2) chunks by (simp add: frame_failed_def pop_outcome_def s2)
  with s3(1) show ?thesis by (auto simp: frame_outcome_def)
qed

lemma push_then_alloc_ok:
  assumes inv: "lifo_inv B s (f # fs)" and sz: "sz0 \<le> sz"
  shows "\<exists>s' r. push_then_alloc s sz want = Some (s', r) \<and> frame_outcome B s f fs sz0 want s' r"
proof -
  obtain s1 r1 where P: "MemLifoPushMark s = Some (s1, r1)" "push_outcome B s (f # fs) s1 r1"
    using MemLifoPushMark_ok [OF inv] by blast
  show ?thesis
  proof (cases "alloc_failed_ok B s (f # fs) s1 r1")
    case True
    then have fail: "frame_outcome B s f fs sz0 want s1 r1" by (rule alloc_failed_frame)
    have "r1 = lifo_fail s" "lifo_fail s1 = lifo_fail s"
      using True by (auto simp: alloc_failed_ok_def lifo_fail_def)
    with P(1) fail lifo_fail_cases [of s] show ?thesis by (auto simp: push_then_alloc_def)
  next
    case False
    then obtain f1 where inv1: "lifo_inv B s1 (f1 # f # fs)" and r1: "r1 = LRet (fr_mark f1) None"
      and same: "same_frames (f # fs) s s1" and chunks: "mem_chunks s1 |` (- acquired f1 f) = mem_chunks s"
      and bytes: "mem_bytes s1 = mem_bytes s" and flags: "lifo_flags s1 = lifo_flags s"
      using P(2) by (auto simp: push_outcome_def)
    have nz: "fr_mark f1 \<noteq> NULL" by (rule lifo_inv_same_above [OF inv1])
    obtain s2 r2 where A: "MemLifoAlloc s1 sz want = Some (s2, r2)"
      "alloc_outcome B s1 f1 (f # fs) sz want s2 r2"
      using MemLifoAlloc_ok [OF inv1] by blast
    show ?thesis
    proof (cases "alloc_failed_ok B s1 (f1 # f # fs) s2 r2")
      case fail: True
      then have r2: "r2 = lifo_fail s" using flags by (simp add: alloc_failed_ok_def lifo_fail_def)
      show ?thesis
      proof (cases "lifo_fail s")
        case LPanic
        with P A r1 r2 nz show ?thesis by (auto simp: push_then_alloc_def frame_outcome_def)
      next
        case (LRet p a)
        then have r2': "r2 = LRet NULL None" using lifo_fail_cases [of s] r2 by auto
        obtain s3 where "MemLifoPopMark s2 (fr_mark f1) = Some s3"
          "frame_outcome B s f fs sz0 want s3 (lifo_fail s3)"
          using pop_failed_push [OF inv1 fail [unfolded r2'] inv same chunks bytes flags] by blast
        with P(1) A(1) r1 r2' nz show ?thesis by (simp add: push_then_alloc_def)
      qed
    next
      case False
      then obtain p n f2 where r2: "r2 = LRet p (if want then Some n else None)" and n: "sz \<le> n"
        and inv2: "lifo_inv B s2 (f2 # f # fs)" and m2: "fr_mark f2 = fr_mark f1"
        and al: "allocated s1 f1 s2 f2 p n" and same2: "same_frames (f # fs) s1 s2"
        using A(2) by (auto simp: alloc_outcome_def)
      have fo1: "frames_ok s1 (f1 # f # fs)" and fo2: "frames_ok s2 (f2 # f # fs)"
        and fo: "frames_ok s (f # fs)"
        using inv1 inv2 inv by (simp_all only: lifo_inv_def)
      have "fr_chunks f \<noteq> []" using frames_ok_hd [OF fo] by (simp add: frame_ok_def)
      then have rf: "reg s1 f = reg s f" using frame_same(2) [of f s s1] same by (simp add: same_frames_def)
      have "reg s f \<subseteq> reg s1 f1"
        using frames_ok_tl [OF fo1] top_regions(2) [OF inv1] rf by (auto simp: frame_above_def)
      then have al': "allocated s f s2 f2 p n" using al bytes by (auto simp: allocated_def)
      have "same_frames (f # fs) s s2" by (rule same_frames_trans [OF same same2])
      then have "frame_outcome B s f fs sz0 want s2 r2"
        using r2 le_trans [OF sz n] inv2 al' unfolding frame_outcome_def by blast
      moreover have "p \<noteq> NULL" using al by (simp add: allocated_def)
      ultimately show ?thesis using P(1) A(1) r1 r2 nz by (simp add: push_then_alloc_def)
    qed
  qed
qed

lemma MemLifoPushFrame_ok:
  assumes inv: "lifo_inv B s (f # fs)"
  shows "\<exists>s' r. MemLifoPushFrame s sz want = Some (s', r) \<and> frame_outcome B s f fs sz want s' r"
proof (cases "sz \<le> MEMLIFO_MAX_ALLOC")
  case False
  have "s = s\<lparr>lifo_allocator_data := lifo_allocator_data s\<rparr>" by simp
  with inv have "alloc_failed_ok B s (f # fs) s (lifo_fail s)" unfolding alloc_failed_ok_def by blast
  then have "frame_outcome B s f fs sz want s (lifo_fail s)" by (rule alloc_failed_frame)
  with False show ?thesis by (simp add: MemLifoPushFrame_def)
next
  case True
  obtain m k where T: "mem_marks s (lifo_top_mark s) = Some m" "mk s f = m" "fr_mark f = lifo_top_mark s"
    "mem_chunks s (lm_chunks m) = Some k" "chunk_ok (B (lifo_allocator_data s)) (lm_chunks m) k"
    "lm_chunks m + 16 \<le> lm_freeptr m" "lm_freeptr m \<le> lc_end k" "8 dvd lm_freeptr m"
    using inv by (rule lifo_inv_top)
  let ?sz = "DWORD (ROUNDUP sz)"
  note R = round_request [OF True]
  have tot: "DWORD (?sz + 56) = ?sz + 56" using R(2) by (simp add: DWORD_id)
  have fits: "lm_chunks m < ADDPTR (lm_freeptr m) (?sz + 56) \<and>
      ADDPTR (lm_freeptr m) (?sz + 56) \<le> lc_end k \<longleftrightarrow> lm_freeptr m + (?sz + 56) \<le> lc_end k"
    using R(2) by (intro fits_iff [OF T(5-7)]) simp
  show ?thesis
  proof (cases "lm_freeptr m + (?sz + 56) \<le> lc_end k")
    case fit: True
    let ?fp = "if want then lc_end k else ADDPTR (lm_freeptr m) (?sz + 56)"
    let ?la = "lm_freeptr m + 56"
    let ?f' = "f\<lparr>fr_mark := lm_freeptr m\<rparr>"
    let ?s' = "set_mark (lm_freeptr m) \<lparr>lm_lifo = lifo_self s, lm_prev = lifo_top_mark s,
      lm_last_alloc = ?la, lm_big_blocks = lm_big_blocks m, lm_chunks = lm_chunks m,
      lm_freeptr = ?fp\<rparr> (s\<lparr>lifo_top_mark := lm_freeptr m\<rparr>)"
    have add: "ADDPTR (lm_freeptr m) (?sz + 56) = lm_freeptr m + (?sz + 56)"
      using fit T(5) by (simp add: ADDPTR_id chunk_ok_def)
    have fp: "?la \<le> ?fp" "?fp \<le> lc_end k" "8 dvd ?fp"
      using fit T(5,8) R(3) unfolding add by (auto simp: chunk_ok_def)
    have la: "ALIGNPTR (lm_freeptr m) sizeof_mark = ?la"
      using fit T(5,8) by (simp add: ALIGNPTR_id chunk_ok_def sizeof_mark_def)
    note P = push_same_chunk [OF inv T(1,4) fp disjI2 [OF refl]]
    have "frames_ok ?s' (?f' # f # fs)" using P(1) by (simp only: lifo_inv_def)
    then have nf: "fr_mark g \<noteq> lm_freeptr m" if "g \<in> set (f # fs)" for g
      using top_mark_distinct [of ?s' ?f' "f # fs"] that by fastforce
    have same: "same_frames (f # fs) s ?s'" using nf by (simp add: same_frames_def lifo_simps)
    have al: "allocated s f ?s' ?f' ?la (?fp - ?la)"
      using P(2-5) fp(1) T(8) by (simp add: allocated_def lifo_simps)
    have "?fp - ?la < 2 ^ 31" using fp(2) T(5,6) by (auto simp: chunk_ok_def)
    then have u: "UDWORD (PTRDIFF32 ?fp ?la) = ?fp - ?la"
      using fp(1) by (rule PTRDIFF_size [rotated])
    have "sz \<le> ?fp - ?la" using fit R(1) by (auto simp: add)
    then have "frame_outcome B s f fs sz want ?s' (LRet ?la
        (if want then Some (UDWORD (PTRDIFF32 ?fp ?la)) else None))"
      using P(1) al same unfolding u frame_outcome_def by blast
    moreover have "MemLifoPushFrame s sz want = Some (?s', LRet ?la
        (if want then Some (UDWORD (PTRDIFF32 ?fp ?la)) else None))"
      using True fit T by (simp add: MemLifoPushFrame_def tot fits la Let_def)
    ultimately show ?thesis by blast
  next
    case False
    have "MemLifoPushFrame s sz want = push_then_alloc s ?sz want"
      using True False T by (simp add: MemLifoPushFrame_def push_then_alloc_def tot fits Let_def del: neq0_conv)
    then show ?thesis using push_then_alloc_ok [OF inv R(1)] by simp
  qed
qed

section \<open>The initial pool\<close>

text \<open>
  After initialisation there is one frame, in one chunk, and the pool owns nothing else.
\<close>

lemma lifo_init_ok:
  assumes al: "allocator_ok alloc free B" and dj: "blocks_disjoint (B h0)" and sz: "sz < 2 ^ 31 - 24"
  shows "(\<exists>err. lifo_init_with l h0 alloc free sz flags bytes = InitErr err) \<or>
     lifo_init_with l h0 alloc free sz flags bytes = InitPanic \<or>
     (\<exists>s c n. lifo_init_with l h0 alloc free sz flags bytes = InitOk s \<and>
        lifo_inv B s [\<lparr>fr_mark = c + 16, fr_chunks = [c], fr_bigs = []\<rparr>] \<and>
        lm_last_alloc (mk s \<lparr>fr_mark = c + 16, fr_chunks = [c], fr_bigs = []\<rparr>) = NULL \<and>
        dom (mem_chunks s) = {c} \<and> B (lifo_allocator_data s) = (B h0)(c \<mapsto> n) \<and> B h0 c = None)"
proof -
  define csz where "csz = (if sz < 1000 then 1000 else sz)"
  obtain h r where hr: "alloc h0 csz = (h, r)" by fastforce
  show ?thesis
  proof (cases r)
    case None
    with hr show ?thesis by (simp add: lifo_init_with_def csz_def)
  next
    case (Some cn)
    then obtain c n where r: "r = Some (c, n)" by (cases cn) auto
    have "16 \<le> csz" by (simp add: csz_def)
    then have new: "0 < c" "8 dvd c" "8 dvd n" "csz \<le> n" "n < 2 ^ 31" "c + n + 8 \<le> 2 ^ 64"
        "B h0 c = None" "\<And>q m. B h0 q = Some m \<Longrightarrow> c + n \<le> q \<or> q + m \<le> c" "B h = (B h0)(c \<mapsto> n)"
      using al hr [unfolded r] unfolding allocator_ok_def by blast+
    have "1000 \<le> csz" by (simp add: csz_def)
    have A: "ALIGNPTR c sizeof_chunk = c + 16" "ALIGNPTR (c + 16) sizeof_mark = c + 72"
      "ADDPTR c n = c + n"
      using new \<open>1000 \<le> csz\<close>
      by (simp_all add: ALIGNPTR_id ADDPTR_id sizeof_chunk_def sizeof_mark_def)
    have "csz + 7 < 2 ^ 64" using sz by (simp add: csz_def)
    note R = ROUNDUP_bounds [OF this]
    have cs: "DWORD (ROUNDUP csz) = ROUNDUP csz" "ROUNDUP csz < 2 ^ 31 - 16"
      using R sz by (auto simp: csz_def DWORD_id)
    let ?m = "\<lparr>lm_lifo = l, lm_prev = c + 16, lm_last_alloc = NULL, lm_big_blocks = NULL,
        lm_chunks = c, lm_freeptr = c + 72\<rparr>"
    let ?s = "\<lparr>lifo_self = l, lifo_allocator_data = h, lifo_allocFn = alloc,
        lifo_freeFn = free, lifo_top_mark = c + 16, lifo_bot_mark = c + 16,
        lifo_chunk_size = DWORD (ROUNDUP csz), lifo_flags = flags, lifo_magic = MEMLIFO_MAGIC,
        mem_chunks = [c \<mapsto> \<lparr>lc_prev = NULL, lc_end = c + n\<rparr>], mem_marks = [c + 16 \<mapsto> ?m],
        mem_bytes = bytes\<rparr>"
    let ?f = "\<lparr>fr_mark = c + 16, fr_chunks = [c], fr_bigs = []\<rparr>"
    have s: "lifo_init_with l h0 alloc free sz flags bytes = InitOk ?s"
      using hr A unfolding csz_def r by (simp add: lifo_init_with_def Let_def)
    have "blocks_disjoint (B h)" using dj new(8) by (fastforce simp: blocks_disjoint_def new(9))
    then have h: "heap_ok B ?s"
      using al new \<open>1000 \<le> csz\<close> by (auto simp: heap_ok_def chunk_ok_def)
    have mk: "mk ?s ?f = ?m" by (simp add: mk_def)
    have b: "base ?s ?f = {c ..< c + 72}"
      using new \<open>1000 \<le> csz\<close> by (auto simp: base_def reg_def mk region_def ext_def cend_def)
    have "frame_ok ?s ?f"
      using new \<open>1000 \<le> csz\<close> unfolding frame_ok_def b
      by (auto simp: mk last_ok_def cend_def storage_def sizeof_mark_def)
    then have "lifo_inv B ?s [?f]"
      using h cs R \<open>1000 \<le> csz\<close> by (simp add: lifo_inv_def mk_def)
    moreover have "dom (mem_chunks ?s) = {c}" "B (lifo_allocator_data ?s) = (B h0)(c \<mapsto> n)"
      by (simp_all add: new(9))
    moreover have "lm_last_alloc (mk ?s ?f) = NULL" by (simp add: mk)
    ultimately show ?thesis using s new(7) by blast
  qed
qed

end
