(* ===== verification/Memlifo_Resize.thy ===== *)
theory Memlifo_Resize
  imports Memlifo_Frames
begin

text \<open>
  Growing and shrinking the last allocation. The block keeps its contents, stays clear of
  everything else in use, and moves only when the caller allows it. The growth must be
  less than 2 GB: the source compares it as a signed number.
\<close>

section \<open>The last allocation\<close>

lemma frame_heads:
  assumes "frame_ok s f"
  shows "lm_chunks (mk s f) = hd (fr_chunks f)"
    "lm_big_blocks (mk s f) = (if fr_bigs f = [] then NULL else hd (fr_bigs f))"
  using assms chain_head [of "mem_chunks s" "lm_chunks (mk s f)" "fr_chunks f"]
    chain_head [of "mem_chunks s" "lm_big_blocks (mk s f)" "fr_bigs f"]
  by (simp_all add: frame_ok_def)

definition last_size :: "'h memlifo \<Rightarrow> frame \<Rightarrow> nat" where
  "last_size s f = (let m = mk s f in
     if lifo_is_big_block m then cend (mem_chunks s) (lm_big_blocks m) - lm_big_blocks m - 16
     else lm_freeptr m - lm_last_alloc m)"

lemma last_cases:
  assumes inv: "lifo_inv B s (f # fs)" and la: "lm_last_alloc (mk s f) \<noteq> NULL"
  obtains (big) k where "lifo_is_big_block (mk s f)" "fr_bigs f \<noteq> []"
      "lm_big_blocks (mk s f) = hd (fr_bigs f)" "lm_last_alloc (mk s f) = hd (fr_bigs f) + 16"
      "mem_chunks s (hd (fr_bigs f)) = Some k"
      "base s f = region (mem_chunks s) (fr_chunks f) (tl (fr_bigs f)) (lm_freeptr (mk s f))"
      "last_size s f = lc_end k - hd (fr_bigs f) - 16"
  | (small) "\<not> lifo_is_big_block (mk s f)"
      "lm_chunks (mk s f) + 16 \<le> lm_last_alloc (mk s f)" "8 dvd lm_last_alloc (mk s f)"
      "lm_last_alloc (mk s f) \<le> lm_freeptr (mk s f)"
      "base s f = region (mem_chunks s) (fr_chunks f) (fr_bigs f) (lm_last_alloc (mk s f))"
      "last_size s f = lm_freeptr (mk s f) - lm_last_alloc (mk s f)"
proof -
  have f: "frame_ok s f" and h: "heap_ok B s" using inv frames_ok_hd by (auto simp: lifo_inv_def)
  note hc = frame_heads(1) [OF f] and cb = frame_heads(2) [OF f]
  show ?thesis
  proof (cases "fr_bigs f \<noteq> [] \<and> lm_last_alloc (mk s f) = hd (fr_bigs f) + 16")
    case True
    then obtain k where k: "mem_chunks s (hd (fr_bigs f)) = Some k"
      using frame_chunks_dom [OF f] hd_in_set [of "fr_bigs f"] by blast
    have "lifo_is_big_block (mk s f)"
      using True heap_okD [OF h k] cb by (simp add: lifo_is_big_block_def ADDPTR_id sizeof_chunk_def chunk_ok_def)
    then show ?thesis using big [of k] True la cb k by (simp add: base_def last_size_def cend_def)
  next
    case False
    then have s: "lm_chunks (mk s f) + 16 \<le> lm_last_alloc (mk s f)" "8 dvd lm_last_alloc (mk s f)"
      "lm_last_alloc (mk s f) \<le> lm_freeptr (mk s f)"
      using f la by (auto simp: frame_ok_def last_ok_def)
    have "\<not> lifo_is_big_block (mk s f)"
    proof (cases "fr_bigs f = []")
      case True
      have "lm_chunks (mk s f) \<noteq> NULL" using f hc by (cases "fr_chunks f") (auto simp: frame_ok_def)
      with True cb s(1) show ?thesis by (simp add: lifo_is_big_block_def ADDPTR_id sizeof_chunk_def)
    next
      case ne: False
      then obtain k where k: "mem_chunks s (hd (fr_bigs f)) = Some k"
        using frame_chunks_dom [OF f] hd_in_set [of "fr_bigs f"] by blast
      show ?thesis
        using False ne heap_okD [OF h k] cb
        by (simp add: lifo_is_big_block_def ADDPTR_id sizeof_chunk_def chunk_ok_def)
    qed
    then show ?thesis using small s False la by (simp add: base_def last_size_def Let_def)
  qed
qed

definition resized ::
    "'h memlifo \<Rightarrow> frame \<Rightarrow> 'h memlifo \<Rightarrow> frame \<Rightarrow> addr \<Rightarrow> nat \<Rightarrow> bool" where
  "resized s f s' f' p n \<longleftrightarrow> p \<noteq> NULL \<and> 8 dvd p \<and> base s f \<subseteq> base s' f' \<and>
     {p ..< p + n} \<inter> base s' f' = {} \<and> {p ..< p + n} \<subseteq> reg s' f' \<and>
     lm_last_alloc (mk s' f') = p \<and>
     (\<forall>i < min n (last_size s f). mem_bytes s' (p + i) = mem_bytes s (lm_last_alloc (mk s f) + i)) \<and>
     (\<forall>a. a \<notin> {p ..< p + n} \<longrightarrow> mem_bytes s' a = mem_bytes s a)"

definition resize_outcome ::
    "('h \<Rightarrow> addr \<rightharpoonup> nat) \<Rightarrow> 'h memlifo \<Rightarrow> frame \<Rightarrow> frame list \<Rightarrow> nat \<Rightarrow>
     'h memlifo \<Rightarrow> lifo_ret \<Rightarrow> bool" where
  "resize_outcome B s f fs sz s' r \<longleftrightarrow>
     (r = LRet NULL None \<or> r = LPanic \<and> lifo_fail s = LPanic) \<and> lifo_inv B s' (f # fs) \<and>
       (\<exists>h. s' = s\<lparr>lifo_allocator_data := h\<rparr>) \<or>
     (\<exists>p n f'. r = LRet p None \<and> sz \<le> n \<and> lifo_inv B s' (f' # fs) \<and> fr_mark f' = fr_mark f \<and>
        same_frames fs s s' \<and> resized s f s' f' p n)"

lemma resize_none:
  "lifo_inv B s (f # fs) \<Longrightarrow> resize_outcome B s f fs sz s (LRet NULL None)"
  by (auto simp: resize_outcome_def intro!: exI [of _ "lifo_allocator_data s"])

lemma alloc_failed_resize:
  "alloc_failed_ok B s (f # fs) s' r \<Longrightarrow> resize_outcome B s f fs sz s' r"
  using lifo_fail_cases [of s] by (auto simp: alloc_failed_ok_def resize_outcome_def)

text \<open>Moving the free pointer of the chunk, up or down, with a small last allocation.\<close>

lemma move_freeptr:
  assumes inv: "lifo_inv B s (f # fs)" and m: "mem_marks s (lifo_top_mark s) = Some m"
    and k: "mem_chunks s (lm_chunks m) = Some k" and la: "lm_last_alloc m \<noteq> NULL"
    and small: "\<not> lifo_is_big_block m"
    and fp: "lm_last_alloc m \<le> fp" "fp \<le> lc_end k" "8 dvd fp"
  shows "resize_outcome B s f fs (fp - lm_last_alloc m)
           (set_mark (lifo_top_mark s) (m\<lparr>lm_freeptr := fp\<rparr>) s) (LRet (lm_last_alloc m) None)"
proof -
  from inv m have mf: "mk s f = m" and t: "fr_mark f = lifo_top_mark s" by (auto elim: lifo_inv_top)
  let ?s' = "set_mark (lifo_top_mark s) (m\<lparr>lm_freeptr := fp\<rparr>) s"
  have m': "mem_marks ?s' (fr_mark f) = Some (m\<lparr>lm_freeptr := fp\<rparr>)" by (simp add: lifo_simps t)
  show ?thesis
  proof (rule last_cases [OF inv, unfolded mf, OF la])
    assume sm: "lm_chunks m + 16 \<le> lm_last_alloc m" "8 dvd lm_last_alloc m"
      "base s f = region (mem_chunks s) (fr_chunks f) (fr_bigs f) (lm_last_alloc m)"
      "last_size s f = lm_freeptr m - lm_last_alloc m"
    have eq: "m\<lparr>lm_last_alloc := lm_last_alloc m, lm_freeptr := fp\<rparr> = m\<lparr>lm_freeptr := fp\<rparr>" by simp
    note S = set_top_ok [OF inv m k sm(1) fp(1,2) sm(2) fp(3) equalityD1 [OF sm(3)], unfolded eq]
    have "resized s f ?s' f (lm_last_alloc m) (fp - lm_last_alloc m)"
      using S(2-4) sm(3) la sm(2) fp(1) frame_fields(1) [OF m'] mf by (simp add: resized_def lifo_simps)
    then show ?thesis using S(1,5) unfolding resize_outcome_def by blast
  qed (use small in simp)
qed

section \<open>Shrinking\<close>

lemma small_size:
  assumes inv: "lifo_inv B s (f # fs)" and m: "mem_marks s (lifo_top_mark s) = Some m"
    and la: "lm_last_alloc m \<noteq> NULL" and small: "\<not> lifo_is_big_block m"
  shows "UDWORD (PTRDIFF32 (lm_freeptr m) (lm_last_alloc m)) = lm_freeptr m - lm_last_alloc m"
    "lm_last_alloc m \<le> lm_freeptr m" "8 dvd lm_last_alloc m" "8 dvd lm_freeptr m"
    "lm_freeptr m < 2 ^ 64" "last_size s f = lm_freeptr m - lm_last_alloc m"
    "last_size s f < 2 ^ 31"
proof -
  from inv m obtain k where mf: "mk s f = m" and k: "chunk_ok (B (lifo_allocator_data s)) (lm_chunks m) k"
    "lm_freeptr m \<le> lc_end k" "8 dvd lm_freeptr m"
    by (auto elim: lifo_inv_top)
  have *: "lm_chunks m + 16 \<le> lm_last_alloc m" "lm_last_alloc m \<le> lm_freeptr m" "8 dvd lm_last_alloc m"
    "last_size s f = lm_freeptr m - lm_last_alloc m"
    using last_cases [OF inv, unfolded mf, OF la] small by metis+
  with k show "UDWORD (PTRDIFF32 (lm_freeptr m) (lm_last_alloc m)) = lm_freeptr m - lm_last_alloc m"
    by (intro PTRDIFF_size) (auto simp: chunk_ok_def)
  from * k show "lm_last_alloc m \<le> lm_freeptr m" "8 dvd lm_last_alloc m" "8 dvd lm_freeptr m"
    "lm_freeptr m < 2 ^ 64" "last_size s f = lm_freeptr m - lm_last_alloc m" "last_size s f < 2 ^ 31"
    by (auto simp: chunk_ok_def)
qed

lemma resize_same:
  assumes inv: "lifo_inv B s (f # fs)" and la: "lm_last_alloc (mk s f) \<noteq> NULL"
  shows "resize_outcome B s f fs (last_size s f) s (LRet (lm_last_alloc (mk s f)) None)"
proof -
  have f: "frame_ok s f" and h: "heap_ok B s" using inv frames_ok_hd by (auto simp: lifo_inv_def)
  note hc = frame_heads(1) [OF f]
  have ne: "fr_chunks f \<noteq> []" and d: "distinct (fr_chunks f @ fr_bigs f)"
    and fp: "lm_freeptr (mk s f) \<le> cend (mem_chunks s) (hd (fr_chunks f))"
    using f hc by (auto simp: frame_ok_def)
  let ?p = "lm_last_alloc (mk s f)" and ?n = "last_size s f"
  have "8 dvd ?p \<and> {?p ..< ?p + ?n} \<inter> base s f = {} \<and> {?p ..< ?p + ?n} \<subseteq> reg s f"
  proof (rule last_cases [OF inv la])
    fix k assume b: "fr_bigs f \<noteq> []" "?p = hd (fr_bigs f) + 16" "mem_chunks s (hd (fr_bigs f)) = Some k"
      "base s f = region (mem_chunks s) (fr_chunks f) (tl (fr_bigs f)) (lm_freeptr (mk s f))"
      "?n = lc_end k - hd (fr_bigs f) - 16"
    let ?E = "ext (mem_chunks s) (hd (fr_bigs f))"
    have k: "8 dvd hd (fr_bigs f)" "hd (fr_bigs f) + 16 \<le> lc_end k"
      using heap_okD [OF h b(3)] by (simp_all add: chunk_ok_def)
    have sub: "{?p ..< ?p + ?n} \<subseteq> ?E" using k(2) b by (auto simp: ext_def cend_def)
    have "?E \<inter> ext (mem_chunks s) x = {}" if "x \<in> set (fr_chunks f) \<union> set (tl (fr_bigs f))" for x
    proof (rule ext_disjoint [OF h])
      show "hd (fr_bigs f) \<noteq> x" using that d b(1) by (cases "fr_bigs f") auto
      show "hd (fr_bigs f) \<in> dom (mem_chunks s)" using b(3) by blast
      show "x \<in> dom (mem_chunks s)"
        using that frame_chunks_dom [OF f] list.set_sel(2) [OF b(1)] by blast
    qed
    then have "?E \<inter> base s f = {}" unfolding b(4) region_def by blast
    moreover have "?E \<subseteq> reg s f" using hd_in_set [OF b(1)] by (auto simp: reg_def region_def)
    ultimately show ?thesis using sub k(1) b(2) by auto
  next
    assume b: "lm_chunks (mk s f) + 16 \<le> ?p" "8 dvd ?p" "?p \<le> lm_freeptr (mk s f)"
      "base s f = region (mem_chunks s) (fr_chunks f) (fr_bigs f) ?p"
      "?n = lm_freeptr (mk s f) - ?p"
    have "reg s f = base s f \<union> {?p ..< lm_freeptr (mk s f)}"
      unfolding reg_def b(4) using b(1,3) ne hc fp by (intro region_grow) auto
    moreover have "{?p ..< lm_freeptr (mk s f)} \<inter> base s f = {}"
      using free_disjoint [OF h f subset_refl, of ?p] b(1,4) hc fp by (auto simp: disjoint_iff)
    ultimately show ?thesis using b by auto
  qed
  then have "resized s f s f ?p ?n" using la by (simp add: resized_def)
  then show ?thesis using inv unfolding resize_outcome_def by (intro disjI2) force
qed

lemma MemLifoShrinkLast_ok:
  assumes inv: "lifo_inv B s (f # fs)"
  shows "\<exists>s' r. MemLifoShrinkLast s decr fix = Some (s', r) \<and>
     resize_outcome B s f fs (last_size s f - decr) s' r"
proof -
  obtain m k where T: "mem_marks s (lifo_top_mark s) = Some m" "mk s f = m"
    "mem_chunks s (lm_chunks m) = Some k" "lm_freeptr m \<le> lc_end k"
    using inv by (rule lifo_inv_top)
  consider "lm_last_alloc m = NULL" | "lm_last_alloc m \<noteq> NULL" "lifo_is_big_block m \<or>
      last_size s f < ROUNDDOWN decr"
    | "lm_last_alloc m \<noteq> NULL" "\<not> lifo_is_big_block m" "ROUNDDOWN decr \<le> last_size s f"
    by linarith
  then show ?thesis
  proof cases
    case 1
    then show ?thesis using T resize_none [OF inv] by (simp add: MemLifoShrinkLast_def)
  next
    case 2
    have "resize_outcome B s f fs (last_size s f - decr) s (LRet (lm_last_alloc m) None)"
      using resize_same [OF inv] 2(1) T(2) unfolding resize_outcome_def by force
    then show ?thesis
      using 2 T small_size(1,6) [OF inv T(1) 2(1)] by (auto simp: MemLifoShrinkLast_def Let_def)
  next
    case 3
    note S = small_size [OF inv T(1) 3(1,2)]
    let ?fp = "lm_freeptr m - ROUNDDOWN decr"
    have le: "ROUNDDOWN decr \<le> lm_freeptr m - lm_last_alloc m" using 3(3) S(6) by simp
    have sub: "SUBPTR (lm_freeptr m) (ROUNDDOWN decr) = ?fp" using S(5) le by (intro SUBPTR_id) auto
    have fp: "lm_last_alloc m \<le> ?fp" "?fp \<le> lc_end k" "8 dvd ?fp"
      using le S(2,4) T(4) ROUNDDOWN_bounds(2) [of decr] by (auto intro: dvd_diff_nat)
    have "last_size s f - decr \<le> ?fp - lm_last_alloc m"
      using S(6) ROUNDDOWN_bounds(1) [of decr] by simp
    with move_freeptr [OF inv T(1,3) 3(1,2) fp]
    have "resize_outcome B s f fs (last_size s f - decr)
       (set_mark (lifo_top_mark s) (m\<lparr>lm_freeptr := ?fp\<rparr>) s) (LRet (lm_last_alloc m) None)"
      unfolding resize_outcome_def by force
    then show ?thesis using 3 T S(1,6) by (simp add: MemLifoShrinkLast_def Let_def sub)
  qed
qed

section \<open>Growing\<close>

lemma lifo_inv_copy:
  assumes "lifo_inv B s fs"
  shows "lifo_inv B (copy_bytes d a n s) fs"
proof -
  have "same_frames fs s (copy_bytes d a n s)" by (simp add: same_frames_def copy_bytes_def)
  then have "frames_ok (copy_bytes d a n s) fs"
    using assms frames_ok_same by (auto simp: lifo_inv_def)
  with assms show ?thesis by (simp add: lifo_inv_def heap_ok_def copy_bytes_def)
qed

lemma frame_copy: "mk (copy_bytes d a n s) f = mk s f" "reg (copy_bytes d a n s) f = reg s f"
  "base (copy_bytes d a n s) f = base s f"
  by (simp_all add: mk_def reg_def base_def copy_bytes_def)

text \<open>A small block that does not fit is allocated anew and copied.\<close>

lemma expand_move_small:
  assumes inv: "lifo_inv B s (f # fs)" and la: "lm_last_alloc (mk s f) \<noteq> NULL"
    and al: "allocated s f s1 f' p n" "lifo_inv B s1 (f' # fs)" "fr_mark f' = fr_mark f"
      "same_frames fs s s1" and n: "sz \<le> n" "last_size s f \<le> n"
  shows "resize_outcome B s f fs sz
     (copy_bytes p (lm_last_alloc (mk s f)) (last_size s f) s1) (LRet p None)"
proof -
  let ?s = "copy_bytes p (lm_last_alloc (mk s f)) (last_size s f) s1"
  have "base s f \<subseteq> base s1 f'"
    using top_regions(2) [OF inv] al(1) by (auto simp: allocated_def)
  moreover have "mem_bytes ?s (p + i) = mem_bytes s (lm_last_alloc (mk s f) + i)"
    if "i < min n (last_size s f)" for i
    using that al(1) by (simp add: copy_bytes_def allocated_def)
  moreover have "mem_bytes ?s a = mem_bytes s a" if "a \<notin> {p ..< p + n}" for a
    using that al(1) n(2) by (auto simp: copy_bytes_def allocated_def)
  ultimately have "resized s f ?s f' p n"
    using al(1) by (simp add: resized_def allocated_def frame_copy)
  moreover have "same_frames fs s ?s" using al(4) by (simp add: same_frames_def copy_bytes_def)
  ultimately show ?thesis
    using lifo_inv_copy [OF al(2)] al(3) n(1) unfolding resize_outcome_def by blast
qed

lemma big_not_lower:
  assumes inv: "lifo_inv B s (f # fs)" and fs: "fs \<noteq> []" and b: "fr_bigs f \<noteq> []"
    "base s f = region (mem_chunks s) (fr_chunks f) (tl (fr_bigs f)) (lm_freeptr (mk s f))"
  shows "hd (fr_bigs f) \<notin> set (fr_chunks (hd fs)) \<union> set (fr_bigs (hd fs))"
    "reg s (hd fs) \<inter> ext (mem_chunks s) (hd (fr_bigs f)) = {}"
    "\<exists>ys. tl (fr_bigs f) = ys @ fr_bigs (hd fs)"
proof -
  obtain b bs where bs: "fr_bigs f = b # bs" using b(1) by (cases "fr_bigs f") auto
  let ?b = "b" and ?C = "mem_chunks s"
  have fo: "frames_ok s (f # fs)" and h: "heap_ok B s" using inv by (simp_all add: lifo_inv_def)
  then have f: "frame_ok s f" using frames_ok_hd by blast
  have ab: "frame_above s f (hd fs)" using frames_ok_tl [OF fo fs] by simp
  have d: "distinct (fr_chunks f @ ?b # bs)" using f bs by (simp add: frame_ok_def)
  have bd: "?b \<in> dom ?C" using frame_chunks_dom [OF f] bs by simp
  have "ext ?C ?b \<inter> ext ?C x = {}" if "x \<in> set (fr_chunks f) \<union> set bs" for x
  proof (rule ext_disjoint [OF h bd])
    show "x \<in> dom ?C" using that frame_chunks_dom [OF f] bs by (metis Un_iff list.set_intros(2) subsetD)
    show "?b \<noteq> x" using that d by auto
  qed
  then have out: "ext ?C ?b \<inter> base s f = {}" unfolding b(2) bs region_def list.sel by blast
  then show "reg s (hd fs) \<inter> ext ?C (hd (fr_bigs f)) = {}" using ab bs by (auto simp: frame_above_def)
  have "?b \<in> ext ?C ?b" using heap_okD [OF h] bd by (fastforce simp: ext_def cend_def chunk_ok_def)
  then have "?b \<notin> reg s (hd fs)" using out ab by (auto simp: frame_above_def)
  then have nb: "?b \<notin> set (fr_bigs (hd fs))"
    using \<open>?b \<in> ext ?C ?b\<close> by (auto simp: reg_def region_def)
  obtain xs where "fr_chunks f = xs @ fr_chunks (hd fs)" using ab by (auto simp: frame_above_def)
  with nb d bs show "hd (fr_bigs f) \<notin> set (fr_chunks (hd fs)) \<union> set (fr_bigs (hd fs))" by auto
  obtain ys where ys: "fr_bigs f = ys @ fr_bigs (hd fs)" using ab by (auto simp: frame_above_def)
  with nb bs have "ys \<noteq> []" by auto
  with ys show "\<exists>ys. tl (fr_bigs f) = ys @ fr_bigs (hd fs)" by (metis tl_append2)
qed

lemma free_big_same:
  assumes inv: "lifo_inv B s (f # fs)" and fr: "freed B s {hd (fr_bigs f)} s'" and b: "fr_bigs f \<noteq> []"
    "base s f = region (mem_chunks s) (fr_chunks f) (tl (fr_bigs f)) (lm_freeptr (mk s f))"
  shows "same_frames fs s s'"
proof (cases "fs = []")
  case True
  with fr show ?thesis by (simp add: same_frames_def freed_def same_pool_def)
next
  case False
  have fo: "frames_ok s (f # fs)" using inv by (simp add: lifo_inv_def)
  then have fo': "frames_ok s (hd fs # tl fs)" using frames_ok_tl [OF fo False] False by simp
  note N = big_not_lower [OF inv False b]
  have "mem_marks s' (fr_mark g) = mem_marks s (fr_mark g)" if "g \<in> set fs" for g
  proof -
    have "fr_mark g \<in> reg s (hd fs)" using lower_in_region [OF fo that] storage_nonempty by blast
    then have "fr_mark g \<notin> ext (mem_chunks s) (hd (fr_bigs f))" using N(2) by blast
    then show ?thesis using fr by (simp add: freed_def)
  qed
  moreover have "mem_chunks s' c = mem_chunks s c"
    if "g \<in> set fs" "c \<in> set (fr_chunks g) \<union> set (fr_bigs g)" for g c
  proof -
    have "g \<in> set (hd fs # tl fs)" using that(1) False by simp
    then have "c \<noteq> hd (fr_bigs f)" using lower_chunks [OF fo'] that(2) N(1) by blast
    then show ?thesis using fr by (simp add: freed_def)
  qed
  ultimately show ?thesis using fr unfolding same_frames_def by (simp add: freed_def same_pool_def)
qed

text \<open>A big block that moves: the new chunk replaces the old one, which is freed.\<close>

lemma expand_move_big:
  assumes inv: "lifo_inv B s (f # fs)" and m: "mem_marks s (lifo_top_mark s) = Some m" "mk s f = m"
    and b: "fr_bigs f \<noteq> []" "lm_big_blocks m = hd (fr_bigs f)" "mem_chunks s (hd (fr_bigs f)) = Some k"
      "base s f = region (mem_chunks s) (fr_chunks f) (tl (fr_bigs f)) (lm_freeptr m)"
    and al: "call_alloc s csz = (s1, Some (c, n))" and csz: "16 \<le> csz"
    and s2: "s2 = set_chunk c \<lparr>lc_prev = lc_prev k, lc_end = c + n\<rparr> s1"
  defines "s' \<equiv> set_mark (lifo_top_mark s) (m\<lparr>lm_big_blocks := c, lm_last_alloc := c + 16\<rparr>)
                   (call_free (hd (fr_bigs f)) s2)"
    and "f' \<equiv> f\<lparr>fr_bigs := c # tl (fr_bigs f)\<rparr>"
  shows "lifo_inv B s' (f' # fs)" "same_frames fs s s'" "base s' f' = base s f"
    "reg s' f' = base s f \<union> {c ..< c + n}" "{c ..< c + n} \<inter> base s f = {}" "mk s' f' =
       m\<lparr>lm_big_blocks := c, lm_last_alloc := c + 16\<rparr>" "mem_bytes s' = mem_bytes s"
proof -
  let ?m = "m\<lparr>lm_big_blocks := c, lm_last_alloc := c + 16\<rparr>" and ?C = "mem_chunks s"
  let ?k = "\<lparr>lc_prev = lc_prev k, lc_end = c + n\<rparr>"
  obtain b0 bs where bs: "fr_bigs f = b0 # bs" using b(1) by (cases "fr_bigs f") auto
  define D where "D = ?C(c \<mapsto> ?k) |` (- {b0})"
  have f: "frame_ok s f" and h: "heap_ok B s" and fo: "frames_ok s (f # fs)"
    and t: "fr_mark f = lifo_top_mark s"
    using inv frames_ok_hd by (auto simp: lifo_inv_def)
  note N = new_chunk [OF h al csz] and S1 = call_alloc_simps [OF al]
  have h2: "heap_ok B s2" unfolding s2 by (rule N(9))
  have cb: "c \<noteq> b0" using N(1) b(3) bs by auto
  have k2: "mem_chunks s2 b0 = Some k" using cb b(3) bs by (simp add: s2 lifo_simps S1)
  note FR = freed_one [OF h2 k2]
  have c2: "mem_chunks s2 = ?C(c \<mapsto> ?k)" by (simp add: s2 lifo_simps S1)
  have D: "mem_chunks s' = D" using FR by (simp add: s'_def bs lifo_simps freed_def c2 D_def)
  have m': "mem_marks s' (fr_mark f') = Some ?m" by (simp add: s'_def f'_def t lifo_simps)
  have L: "fr_chunks f' = fr_chunks f" "fr_bigs f' = c # bs" by (simp_all add: f'_def bs)
  note F = frame_fields [OF m']
  show "mk s' f' = ?m" by (rule F(1))
  have fresh: "c \<notin> set (fr_chunks f) \<union> set (fr_bigs f)" and ne: "fr_chunks f \<noteq> []"
    and dst: "distinct (fr_chunks f @ b0 # bs)"
    using frame_chunks_dom [OF f] N(1) f bs by (auto simp: frame_ok_def)
  have old: "D x = ?C x" if "x \<in> set (fr_chunks f) \<union> set bs" for x
    using that fresh dst bs by (auto simp: restrict_map_def D_def)
  have rg: "region D (fr_chunks f) bs fp = region ?C (fr_chunks f) bs fp" for fp
    using old ne by (intro region_cong) auto
  have bb: "base s f = region ?C (fr_chunks f) bs (lm_freeptr m)" using b(4) bs by simp
  have "base s' f' = region D (fr_chunks f) bs (lm_freeptr m)" by (simp add: base_def F D L)
  then show base': "base s' f' = base s f" by (simp add: rg bb)
  have Dc: "D c = Some ?k" using cb by (simp add: D_def)
  have "region D (fr_chunks f) (c # bs) fp = region D (fr_chunks f) bs fp \<union> ext D c" for fp
    by (auto simp: region_def)
  then show reg': "reg s' f' = base s f \<union> {c ..< c + n}"
    using Dc by (simp add: F D L rg bb ext_def cend_def)
  have "ext ?C x \<inter> {c ..< c + n} = {}" if "x \<in> set (fr_chunks f) \<union> set (fr_bigs f)" for x
  proof -
    have "x \<in> dom ?C" "x \<noteq> c" using frame_chunks_dom [OF f] that fresh by auto
    then show ?thesis using ext_disjoint [OF h2, of x c]
      by (auto simp: c2 ext_def cend_def)
  qed
  then show "{c ..< c + n} \<inter> base s f = {}" unfolding bb bs by (auto simp: region_def)
  have chD: "chain D p (fr_chunks f) = chain ?C p (fr_chunks f)" for p
    using old by (intro chain_cong) auto
  have "chain ?C b0 (b0 # bs)" using f bs b(2) m(2) by (simp add: frame_ok_def)
  then have "chain ?C (lc_prev k) bs" using b(3) bs by simp
  then have "chain D (lc_prev k) bs" using old by (subst chain_cong [of _ _ ?C]) auto
  then have chb: "chain D c (c # bs)" using Dc N(2) by simp
  have self: "lifo_self s' = lifo_self s" using FR by (simp add: s'_def bs lifo_simps freed_def same_pool_def) (simp add: s2 lifo_simps S1)
  have "cend D (lm_chunks m) = cend ?C (lm_chunks m)"
    using old [of "lm_chunks m"] frame_heads(1) [OF f] m(2) hd_in_set [OF ne] by (simp add: cend_def)
  then have f': "frame_ok s' f'"
    using f m' m(2) chD chb self base' fresh dst bs unfolding frame_ok_def
    by (simp add: F(1) D L last_ok_def) (simp add: f'_def)
  have "same_frames fs s s2"
    using frame_chunks_dom [OF frames_ok_each [OF fo]] N(1)
    by (auto simp: same_frames_def s2 lifo_simps S1)
  moreover have "same_frames fs s2 (call_free b0 s2)"
  proof -
    have sm: "same_frames (f # fs) s s2"
      using frame_chunks_dom [OF frames_ok_each [OF fo]] N(1)
      by (auto simp: same_frames_def s2 lifo_simps S1)
    have "lifo_inv B s2 (f # fs)"
      using inv h2 frames_ok_same [OF fo sm] by (simp add: lifo_inv_def s2 lifo_simps S1)
    moreover have "same_frames [f] s s2" using sm by (simp add: same_frames_def)
    note fs = frame_same [OF this ne]
    have "base s2 f = region (mem_chunks s2) (fr_chunks f) (tl (fr_bigs f)) (lm_freeptr (mk s2 f))"
      unfolding fs bb c2 m(2) using fresh ne bs by (simp add: region_new_big(2))
    ultimately show ?thesis using free_big_same [of B s2 f fs] FR bs by simp
  qed
  ultimately have "same_frames fs s (call_free b0 s2)" by (rule same_frames_trans)
  moreover have "same_frames fs (call_free b0 s2) s'"
    unfolding s'_def bs list.sel
  proof (rule same_frames_set_mark)
    show "fr_mark g \<noteq> lifo_top_mark s" if "g \<in> set fs" for g
      using top_mark_distinct [OF fo that] t by metis
  qed
  ultimately show same: "same_frames fs s s'" by (rule same_frames_trans)
  show "mem_bytes s' = mem_bytes s"
    using FR by (simp add: s'_def bs lifo_simps freed_def) (simp add: s2 lifo_simps S1)
  show "lifo_inv B s' (f' # fs)"
  proof (rule top_update [OF inv _ _ _ same f'])
    show "heap_ok B s'" using FR by (simp add: s'_def bs freed_def)
    show "same_pool s s'" "lifo_top_mark s' = lifo_top_mark s"
      using FR by (simp_all add: s'_def bs lifo_simps freed_def same_pool_def)
        (simp_all add: s2 lifo_simps S1)
    show "base s f \<subseteq> base s' f'" by (simp add: base')
    show "fr_mark f' = fr_mark f" by (simp add: f'_def)
    show "lm_prev (mk s' f') = lm_prev (mk s f)" by (simp add: F m(2))
    show "\<exists>xs. fr_chunks f' = xs @ fr_chunks (hd fs)" if "fs \<noteq> []"
      using frames_ok_tl [OF fo that] L by (auto simp: frame_above_def)
    show "\<exists>ys. fr_bigs f' = ys @ fr_bigs (hd fs)" if "fs \<noteq> []"
      using big_not_lower(3) [OF inv that b(1)] b(4) m(2) L bs by (metis append_Cons list.sel(3))
  qed
qed

lemma lifo_expand_move_big_ok:
  assumes inv: "lifo_inv B s (f # fs)" and m: "mem_marks s (lifo_top_mark s) = Some m" "mk s f = m"
    and b: "fr_bigs f \<noteq> []" "lm_big_blocks m = hd (fr_bigs f)" "mem_chunks s (hd (fr_bigs f)) = Some k"
      "base s f = region (mem_chunks s) (fr_chunks f) (tl (fr_bigs f)) (lm_freeptr m)"
    and sz: "sz \<le> 2 ^ 31" "last_size s f \<le> sz"
  shows "\<exists>s' r. lifo_expand_move_big s m (last_size s f) sz = Some (s', r) \<and>
     resize_outcome B s f fs sz s' r"
proof -
  have h: "heap_ok B s" using inv by (simp add: lifo_inv_def)
  have eq: "DWORD (sz + 16) = sz + 16" using sz(1) by (simp add: DWORD_id)
  obtain s1 a where al: "call_alloc s (sz + 16) = (s1, a)" by fastforce
  show ?thesis
  proof (cases a)
    case None
    with call_alloc_failed_ok [OF inv] al have "alloc_failed_ok B s (f # fs) s1 (lifo_fail s)" by simp
    then have "resize_outcome B s f fs sz s1 (LRet NULL None)"
      by (auto simp: alloc_failed_ok_def resize_outcome_def)
    with None al eq show ?thesis by (simp add: lifo_expand_move_big_def)
  next
    case (Some cn)
    then obtain c n where a: "a = Some (c, n)" by (cases cn) auto
    note al' = al [unfolded a] and S1 = call_alloc_simps [OF al]
    have "16 \<le> sz + 16" by simp
    note N = new_chunk [OF h al' this]
    let ?la = "lm_last_alloc m" and ?cp = "copy_bytes (c + 16) (lm_last_alloc m) (last_size s f)"
    let ?k = "\<lparr>lc_prev = lc_prev k, lc_end = c + n\<rparr>"
    let ?m = "m\<lparr>lm_big_blocks := c, lm_last_alloc := c + 16\<rparr>"
    let ?s' = "set_mark (lifo_top_mark s) ?m (call_free (hd (fr_bigs f)) (set_chunk c ?k s1))"
    let ?f' = "f\<lparr>fr_bigs := c # tl (fr_bigs f)\<rparr>"
    note E = expand_move_big [OF inv m b al' \<open>16 \<le> sz + 16\<close> refl]
    have p2: "ADDPTR c sizeof_chunk = c + 16" using N by (simp add: ADDPTR_id sizeof_chunk_def)
    have comm: "set_mark (lifo_top_mark s) ?m (call_free (hd (fr_bigs f)) (set_chunk c ?k (?cp s1))) = ?cp ?s'"
      by (simp add: set_mark_def call_free_def set_chunk_def copy_bytes_def cong: if_cong)
    have code: "lifo_expand_move_big s m (last_size s f) sz = Some (?cp ?s', LRet (c + 16) None)"
      using al' b p2 N(8) comm by (simp add: lifo_expand_move_big_def eq Let_def)
    have n: "sz \<le> n - 16" using N(5) by simp
    have "{c + 16 ..< c + 16 + (n - 16)} \<subseteq> {c ..< c + n}" using N(5) by auto
    then have "{c + 16 ..< c + 16 + (n - 16)} \<inter> base s f = {}" using E(5) by blast
    moreover have "mem_bytes (?cp ?s') (c + 16 + i) = mem_bytes s (?la + i)"
      if "i < min (n - 16) (last_size s f)" for i
      using that E(7) by (simp add: copy_bytes_def)
    moreover have "mem_bytes (?cp ?s') a = mem_bytes s a" if "a \<notin> {c + 16 ..< c + 16 + (n - 16)}" for a
      using that E(7) n sz(2) by (auto simp: copy_bytes_def)
    moreover have "{c + 16 ..< c + 16 + (n - 16)} \<subseteq> reg (?cp ?s') ?f'"
      unfolding frame_copy(2) E(4) using N(5) by auto
    ultimately have "resized s f (?cp ?s') ?f' (c + 16) (n - 16)"
      using E(3,6) N(3) m(2) by (simp add: resized_def frame_copy)
    moreover have "same_frames fs s (?cp ?s')" using E(2) by (simp add: same_frames_def copy_bytes_def)
    moreover have "fr_mark ?f' = fr_mark f" by simp
    ultimately have "resize_outcome B s f fs sz (?cp ?s') (LRet (c + 16) None)"
      using lifo_inv_copy [OF E(1)] n unfolding resize_outcome_def by blast
    with code show ?thesis by blast
  qed
qed

lemma expand_incr:
  assumes "incr + 7 < 2 ^ 31"
  shows "incr \<le> ROUNDUP incr" "8 dvd ROUNDUP incr" "DWORD (ROUNDUP incr) = ROUNDUP incr"
    "INT32 (int (ROUNDUP incr)) = int (ROUNDUP incr)" "ROUNDUP incr < 2 ^ 31"
proof -
  have "incr + 7 < 2 ^ 64" using assms by simp
  note R = ROUNDUP_bounds [OF this]
  with assms show "incr \<le> ROUNDUP incr" "8 dvd ROUNDUP incr" "DWORD (ROUNDUP incr) = ROUNDUP incr"
    "INT32 (int (ROUNDUP incr)) = int (ROUNDUP incr)" "ROUNDUP incr < 2 ^ 31"
    by (simp_all add: DWORD_id INT32_id)
qed

lemma big_size:
  assumes "chunk_ok b c k"
  shows "UDWORD (PTRDIFF32 (lc_end k) c - 16) = lc_end k - c - 16" "lc_end k - c - 16 < 2 ^ 31"
proof -
  have kb: "c + 16 \<le> lc_end k" "lc_end k < c + 2 ^ 31" using assms by (simp_all add: chunk_ok_def)
  then show "UDWORD (PTRDIFF32 (lc_end k) c - 16) = lc_end k - c - 16" "lc_end k - c - 16 < 2 ^ 31"
    by (simp_all add: PTRDIFF32_id UDWORD_id)
qed

lemma expand_big:
  assumes inv: "lifo_inv B s (f # fs)" and incr: "incr + 7 < 2 ^ 31"
    and m: "mem_marks s (lifo_top_mark s) = Some m" "mk s f = m" "mem_chunks s (lm_chunks m) = Some k"
    and la: "lm_last_alloc m \<noteq> NULL"
    and b: "lifo_is_big_block m" "fr_bigs f \<noteq> []" "lm_big_blocks m = hd (fr_bigs f)"
      "mem_chunks s (hd (fr_bigs f)) = Some kb"
      "base s f = region (mem_chunks s) (fr_chunks f) (tl (fr_bigs f)) (lm_freeptr m)"
      "last_size s f = lc_end kb - hd (fr_bigs f) - 16"
  shows "\<exists>s' r. MemLifoExpandLast s incr fix = Some (s', r) \<and>
     resize_outcome B s f fs (last_size s f + ROUNDUP incr) s' r"
proof -
  have h: "heap_ok B s" using inv by (simp add: lifo_inv_def)
  note D = expand_incr [OF incr]
  note sz = big_size [OF heap_okD [OF h b(4)], folded b(6)]
  have dw: "DWORD (last_size s f + ROUNDUP incr) = last_size s f + ROUNDUP incr"
    using D(5) sz(2) by (simp add: DWORD_id)
  show ?thesis
  proof (cases "fix \<or> MEMLIFO_MAX_ALLOC < last_size s f + ROUNDUP incr")
    case True
    then have "MemLifoExpandLast s incr fix = Some (s, LRet NULL None)"
      using m la b sz D dw by (auto simp: MemLifoExpandLast_def Let_def)
    then show ?thesis using resize_none [OF inv] by blast
  next
    case False
    then have "last_size s f + ROUNDUP incr \<le> 2 ^ 31" by (simp add: MEMLIFO_MAX_ALLOC_def INT_MAX_def)
    note M = lifo_expand_move_big_ok [OF inv m(1,2) b(2,3,4,5) this le_add1]
    have "MemLifoExpandLast s incr fix =
        lifo_expand_move_big s m (last_size s f) (last_size s f + ROUNDUP incr)"
      using False m la b sz D dw by (simp add: MemLifoExpandLast_def Let_def)
    with M show ?thesis by simp
  qed
qed

text \<open>A small block that cannot grow in place.\<close>

definition expand_by_copy :: "'h memlifo \<Rightarrow> mark \<Rightarrow> nat \<Rightarrow> nat \<Rightarrow> ('h memlifo \<times> lifo_ret) option" where
  "expand_by_copy s m old_sz sz = do {
     (s1, r) \<leftarrow> MemLifoAlloc s sz False;
     (case r of
        LPanic \<Rightarrow> Some (s1, LPanic)
      | LRet p2 _ \<Rightarrow>
          Some (if p2 = NULL then s1 else copy_bytes p2 (lm_last_alloc m) old_sz s1, LRet p2 None)) }"

lemma expand_by_copy_ok:
  assumes inv: "lifo_inv B s (f # fs)" and la: "lm_last_alloc (mk s f) \<noteq> NULL" and sz: "last_size s f \<le> sz"
  shows "\<exists>s' r. expand_by_copy s (mk s f) (last_size s f) sz = Some (s', r) \<and>
     resize_outcome B s f fs sz s' r"
proof -
  obtain s1 r where A: "MemLifoAlloc s sz False = Some (s1, r)" "alloc_outcome B s f fs sz False s1 r"
    using MemLifoAlloc_ok [OF inv] by blast
  show ?thesis
  proof (cases "alloc_failed_ok B s (f # fs) s1 r")
    case True
    then have o: "resize_outcome B s f fs sz s1 r" by (rule alloc_failed_resize)
    have "r = LPanic \<or> r = LRet NULL None"
      using True lifo_fail_cases [of s] by (auto simp: alloc_failed_ok_def)
    with o A(1) show ?thesis by (auto simp: expand_by_copy_def)
  next
    case False
    then obtain p n f' where r: "r = LRet p None" "sz \<le> n" "lifo_inv B s1 (f' # fs)"
      "fr_mark f' = fr_mark f" "same_frames fs s s1" "allocated s f s1 f' p n"
      using A(2) by (auto simp: alloc_outcome_def)
    have "p \<noteq> NULL" using r(6) by (simp add: allocated_def)
    then have "expand_by_copy s (mk s f) (last_size s f) sz =
       Some (copy_bytes p (lm_last_alloc (mk s f)) (last_size s f) s1, LRet p None)"
      using A(1) r(1) by (simp add: expand_by_copy_def)
    moreover have "last_size s f \<le> n" using r(2) sz by simp
    note expand_move_small [OF inv la r(6,3,4,5,2) this]
    ultimately show ?thesis by blast
  qed
qed

lemma expand_small:
  assumes inv: "lifo_inv B s (f # fs)" and incr: "incr + 7 < 2 ^ 31"
    and m: "mem_marks s (lifo_top_mark s) = Some m" "mk s f = m" "mem_chunks s (lm_chunks m) = Some k"
      "lm_freeptr m \<le> lc_end k" "lm_chunks m + 16 \<le> lm_freeptr m"
      "chunk_ok (B (lifo_allocator_data s)) (lm_chunks m) k"
    and la: "lm_last_alloc m \<noteq> NULL" and b: "\<not> lifo_is_big_block m"
  shows "\<exists>s' r. MemLifoExpandLast s incr fix = Some (s', r) \<and>
     resize_outcome B s f fs (last_size s f + ROUNDUP incr) s' r"
proof -
  note D = expand_incr [OF incr] and S = small_size [OF inv m(1) la b]
  let ?sz = "last_size s f + ROUNDUP incr" and ?fp = "lm_freeptr m + ROUNDUP incr"
  have dw: "DWORD ?sz = ?sz" using D(5) S(7) by (simp add: DWORD_id)
  have P: "PTRDIFF32 (lc_end k) (lm_freeptr m) = int (lc_end k - lm_freeptr m)"
    using m(4-6) by (intro PTRDIFF32_id) (auto simp: chunk_ok_def)
  show ?thesis
  proof (cases "?fp \<le> lc_end k")
    case True
    have add: "ADDPTR (lm_freeptr m) (ROUNDUP incr) = ?fp"
      using True m(6) by (simp add: ADDPTR_id chunk_ok_def)
    have fp: "lm_last_alloc m \<le> ?fp" "8 dvd ?fp" using S(2,4) D(2) by simp_all
    have "?fp - lm_last_alloc m = ?sz" using S(2,6) by simp
    with move_freeptr [OF inv m(1,3) la b fp(1) True fp(2)]
    have "resize_outcome B s f fs ?sz
      (set_mark (lifo_top_mark s) (m\<lparr>lm_freeptr := ?fp\<rparr>) s) (LRet (lm_last_alloc m) None)" by simp
    moreover have "MemLifoExpandLast s incr fix = Some
      (set_mark (lifo_top_mark s) (m\<lparr>lm_freeptr := ?fp\<rparr>) s, LRet (lm_last_alloc m) None)"
      using True m la b D P add by (simp add: MemLifoExpandLast_def Let_def of_nat_diff)
    ultimately show ?thesis by blast
  next
    case False
    then have slow: "\<not> int (ROUNDUP incr) \<le> int (lc_end k - lm_freeptr m)" using m(4) by linarith
    show ?thesis
    proof (cases "fix \<or> MEMLIFO_MAX_ALLOC < ?sz")
      case True
      then have "MemLifoExpandLast s incr fix = Some (s, LRet NULL None)"
        using m la b S(1,6) D P slow dw by (auto simp: MemLifoExpandLast_def Let_def)
      then show ?thesis using resize_none [OF inv] by blast
    next
      case False
      then have "MemLifoExpandLast s incr fix = expand_by_copy s m (last_size s f) ?sz"
        using m la b S(1,6) D P slow dw
        by (simp add: MemLifoExpandLast_def expand_by_copy_def Let_def del: neq0_conv)
      then show ?thesis using expand_by_copy_ok [OF inv _ le_add1] la m(2) by simp
    qed
  qed
qed

lemma resize_outcome_mono:
  "resize_outcome B s f fs sz s' r \<Longrightarrow> sz' \<le> sz \<Longrightarrow> resize_outcome B s f fs sz' s' r"
  unfolding resize_outcome_def using le_trans by blast

lemma MemLifoExpandLast_ok:
  assumes inv: "lifo_inv B s (f # fs)" and incr: "incr + 7 < 2 ^ 31"
  shows "\<exists>s' r. MemLifoExpandLast s incr fix = Some (s', r) \<and>
     (if lm_last_alloc (mk s f) = NULL then alloc_outcome B s f fs incr False s' r
      else resize_outcome B s f fs (last_size s f + incr) s' r)"
proof -
  obtain m k where T: "mem_marks s (lifo_top_mark s) = Some m" "mk s f = m"
    "mem_chunks s (lm_chunks m) = Some k" "lm_freeptr m \<le> lc_end k" "lm_chunks m + 16 \<le> lm_freeptr m"
    "chunk_ok (B (lifo_allocator_data s)) (lm_chunks m) k"
    using inv by (rule lifo_inv_top)
  show ?thesis
  proof (cases "lm_last_alloc m = NULL")
    case True
    then show ?thesis using MemLifoAlloc_ok [OF inv] T by (simp add: MemLifoExpandLast_def)
  next
    case la: False
    then have la': "lm_last_alloc (mk s f) \<noteq> NULL" by (simp add: T(2))
    have "\<exists>s' r. MemLifoExpandLast s incr fix = Some (s', r) \<and>
        resize_outcome B s f fs (last_size s f + ROUNDUP incr) s' r"
      by (rule last_cases [OF inv la', unfolded T(2)])
        (rule expand_big [OF inv incr T(1-3) la], assumption+,
         rule expand_small [OF inv incr T la], assumption+)
    then show ?thesis
      using la' expand_incr(1) [OF incr] resize_outcome_mono by (metis add_le_cancel_left)
  qed
qed

lemma MemLifoResizeLast_ok:
  assumes inv: "lifo_inv B s (f # fs)" and sz: "sz + 14 < 2 ^ 31"
  shows "\<exists>s' r. MemLifoResizeLast s sz fix = Some (s', r) \<and> resize_outcome B s f fs sz s' r"
proof -
  obtain m k where T: "mem_marks s (lifo_top_mark s) = Some m" "mk s f = m"
    "mem_chunks s (lm_chunks m) = Some k" "lm_freeptr m \<le> lc_end k"
    using inv by (rule lifo_inv_top)
  have h: "heap_ok B s" using inv by (simp add: lifo_inv_def)
  define n where "n = ROUNDUP sz"
  have "sz + 7 < 2 ^ 64" using sz by simp
  note R = ROUNDUP_bounds [OF this, folded n_def]
  have dw: "DWORD (ROUNDUP sz) = n" using R(2) sz by (simp add: DWORD_id n_def)
  have expand: "\<exists>s' r. MemLifoExpandLast s (n - last_size s f) fix = Some (s', r) \<and>
      resize_outcome B s f fs sz s' r" if "lm_last_alloc m \<noteq> NULL" "last_size s f < n"
    using MemLifoExpandLast_ok [OF inv, of "n - last_size s f" "fix"] that R sz T(2) resize_outcome_mono
    by fastforce
  show ?thesis
  proof (cases "lm_last_alloc m = NULL")
    case True
    then show ?thesis using resize_none [OF inv] T by (simp add: MemLifoResizeLast_def)
  next
    case la: False
    then have la': "lm_last_alloc (mk s f) \<noteq> NULL" by (simp add: T(2))
    show ?thesis
    proof (rule last_cases [OF inv la', unfolded T(2)])
      fix kb assume b: "lifo_is_big_block m" "lm_big_blocks m = hd (fr_bigs f)"
        "mem_chunks s (hd (fr_bigs f)) = Some kb" "last_size s f = lc_end kb - hd (fr_bigs f) - 16"
      note old = big_size(1) [OF heap_okD [OF h b(3)], folded b(4)]
      show ?thesis
      proof (cases "n \<le> last_size s f")
        case True
        then have "MemLifoResizeLast s sz fix = MemLifoShrinkLast s (last_size s f - n) fix"
          using T la b old dw by (simp add: MemLifoResizeLast_def Let_def)
        then show ?thesis
          using MemLifoShrinkLast_ok [OF inv, of "last_size s f - n" "fix"] True R(1) resize_outcome_mono
          by fastforce
      next
        case False
        then have "MemLifoResizeLast s sz fix = MemLifoExpandLast s (n - last_size s f) fix"
          using T la b old dw by (simp add: MemLifoResizeLast_def Let_def)
        with expand [OF la] False show ?thesis by simp
      qed
    next
      assume b: "\<not> lifo_is_big_block m"
      note S = small_size [OF inv T(1) la b]
      show ?thesis
      proof (cases "n \<le> last_size s f")
        case True
        let ?fp = "lm_last_alloc m + n"
        have sub: "SUBPTR (lm_freeptr m) (last_size s f - n) = ?fp"
          using S(2,5,6) True by (subst SUBPTR_id) auto
        have fp: "lm_last_alloc m \<le> ?fp" "?fp \<le> lc_end k" "8 dvd ?fp"
          using S(2,3,6) True T(4) R(3) by auto
        have "resize_outcome B s f fs sz
          (set_mark (lifo_top_mark s) (m\<lparr>lm_freeptr := ?fp\<rparr>) s) (LRet (lm_last_alloc m) None)"
          by (rule resize_outcome_mono [OF move_freeptr [OF inv T(1,3) la b fp]]) (simp add: R(1))
        moreover have "MemLifoResizeLast s sz fix = Some
          (set_mark (lifo_top_mark s) (m\<lparr>lm_freeptr := ?fp\<rparr>) s, LRet (lm_last_alloc m) None)"
          using True T la b S(1,6) dw sub by (simp add: MemLifoResizeLast_def Let_def)
        ultimately show ?thesis by blast
      next
        case False
        then have "MemLifoResizeLast s sz fix = MemLifoExpandLast s (n - last_size s f) fix"
          using T la b S(1,6) dw by (simp add: MemLifoResizeLast_def Let_def)
        with expand [OF la] False show ?thesis by simp
      qed
    qed
  qed
qed

end
