(* ===== verification/Memlifo_Client.thy ===== *)
theory Memlifo_Client
  imports Memlifo_Resize
begin

text \<open>
  A client of the pool: any sequence of calls, with the list of the blocks it holds in each
  frame. Whatever the order of the calls, no two live blocks overlap, no live block overlaps
  a mark of the stack, and all of them are memory the allocator handed out.

  A client pops only marks and frames it has pushed (it has no handle of another), the top one
  or a lower one. Nothing is presumed here of the sizes it asks for; that a request to grow or
  resize the last block stays below 2 GB (\<open>moderate\<close>) is a hypothesis of the lemmas.
\<close>

section \<open>Blocks\<close>

definition blk :: "addr \<times> nat \<Rightarrow> addr set" where
  "blk x = {fst x ..< fst x + snd x}"

fun blocks_disjoint_list :: "(addr \<times> nat) list \<Rightarrow> bool" where
  "blocks_disjoint_list [] \<longleftrightarrow> True"
| "blocks_disjoint_list (x # xs) \<longleftrightarrow>
     (\<forall>y \<in> set xs. blk x \<inter> blk y = {}) \<and> blocks_disjoint_list xs"

lemma blocks_disjoint_append:
  "blocks_disjoint_list (xs @ ys) \<longleftrightarrow> blocks_disjoint_list xs \<and> blocks_disjoint_list ys \<and>
     (\<forall>x \<in> set xs. \<forall>y \<in> set ys. blk x \<inter> blk y = {})"
  by (induction xs) auto

definition top_blocks_ok :: "'h memlifo \<Rightarrow> frame \<Rightarrow> addr set \<Rightarrow> (addr \<times> nat) list \<Rightarrow> bool" where
  "top_blocks_ok s f low b \<longleftrightarrow> (b = [] \<longleftrightarrow> lm_last_alloc (mk s f) = NULL) \<and>
     (b \<noteq> [] \<longrightarrow> fst (hd b) = lm_last_alloc (mk s f) \<and> blk (hd b) \<subseteq> reg s f \<and>
        blk (hd b) \<inter> base s f = {} \<and>
        (\<forall>x \<in> set (tl b). blk x \<subseteq> base s f - low - storage (fr_mark f))) \<and>
     blocks_disjoint_list b"

fun blocks_ok :: "'h memlifo \<Rightarrow> frame list \<Rightarrow> (addr \<times> nat) list list \<Rightarrow> bool" where
  "blocks_ok s [f] [b] \<longleftrightarrow> top_blocks_ok s f {} b"
| "blocks_ok s (f # g # fs) (b # bs) \<longleftrightarrow> top_blocks_ok s f (reg s g) b \<and> blocks_ok s (g # fs) bs"
| "blocks_ok s _ _ \<longleftrightarrow> False"

definition low_reg :: "'h memlifo \<Rightarrow> frame list \<Rightarrow> addr set" where
  "low_reg s fs = (case fs of [] \<Rightarrow> {} | g # _ \<Rightarrow> reg s g)"

lemma blocks_ok_Cons:
  "blocks_ok s (f # fs) bl \<longleftrightarrow> (\<exists>b bs. bl = b # bs \<and> top_blocks_ok s f (low_reg s fs) b \<and>
     (if fs = [] then bs = [] else blocks_ok s fs bs))"
  by (cases fs; cases bl; cases "tl bl") (auto simp: low_reg_def)

lemma frames_chunks_ne: "frames_ok s fs \<Longrightarrow> g \<in> set fs \<Longrightarrow> fr_chunks g \<noteq> []"
  using frames_ok_each by (auto simp: frame_ok_def)

lemma blocks_ok_same:
  "blocks_ok s fs bl \<Longrightarrow> frames_ok s fs \<Longrightarrow> same_frames fs s s' \<Longrightarrow> blocks_ok s' fs bl"
proof (induction s fs bl rule: blocks_ok.induct)
  case (1 s f b)
  then show ?case using frame_same [of f s s'] by (simp add: top_blocks_ok_def frame_ok_def)
next
  case (2 s f g fs b bs)
  then have "same_frames [f] s s'" "same_frames [g] s s'" "same_frames (g # fs) s s'"
    by (simp_all add: same_frames_def)
  moreover have "fr_chunks f \<noteq> []" "fr_chunks g \<noteq> []"
    using frames_chunks_ne [OF 2(3)] by simp_all
  ultimately show ?case
    using 2 frame_same [of f s s'] frame_same [of g s s'] by (simp add: top_blocks_ok_def)
qed auto

lemma low_reg_same:
  assumes "frames_ok s (f # fs)" "same_frames fs s s'"
  shows "low_reg s' fs = low_reg s fs"
proof (cases fs)
  case (Cons g gs)
  then have "same_frames [g] s s'" using assms(2) by (simp add: same_frames_def)
  moreover have "fr_chunks g \<noteq> []" using frames_chunks_ne [OF assms(1)] Cons by simp
  ultimately show ?thesis using Cons by (simp add: low_reg_def frame_same)
qed (simp add: low_reg_def)

lemma blocks_in_region:
  assumes "frames_ok s (f # fs)" "blocks_ok s (f # fs) (b # bs)" "x \<in> set b"
  shows "blk x \<subseteq> reg s f" "blk x \<inter> low_reg s fs = {}" "blk x \<inter> storage (fr_mark f) = {}"
proof -
  have f: "frame_ok s f" using assms(1) by (rule frames_ok_hd)
  have low: "low_reg s fs \<subseteq> base s f"
    using frames_ok_tl [OF assms(1)] by (cases fs) (auto simp: low_reg_def frame_above_def)
  have t: "top_blocks_ok s f (low_reg s fs) b" using assms(2) by (simp add: blocks_ok_Cons)
  have st: "storage (fr_mark f) \<subseteq> base s f" using f by (simp add: frame_ok_def)
  obtain y ys where b: "b = y # ys" using assms(3) by (cases b) auto
  show "blk x \<subseteq> reg s f" "blk x \<inter> low_reg s fs = {}" "blk x \<inter> storage (fr_mark f) = {}"
    using t assms(3) base_subset_reg [OF f] low st unfolding top_blocks_ok_def b
    by (auto 0 3)
qed

lemma lower_blocks_in_region:
  "frames_ok s (f # fs) \<Longrightarrow> blocks_ok s (f # fs) (b # bs) \<Longrightarrow> x \<in> set (concat bs) \<Longrightarrow>
   blk x \<subseteq> low_reg s fs"
proof (induction fs arbitrary: f b bs)
  case Nil
  then show ?case by (simp add: blocks_ok_Cons)
next
  case (Cons g gs)
  then obtain c cs where bs: "bs = c # cs" and ok: "blocks_ok s (g # gs) (c # cs)"
    by (auto simp: blocks_ok_Cons)
  have go: "frames_ok s (g # gs)" using Cons.prems(1) by simp
  have "low_reg s gs \<subseteq> reg s g"
    using frames_ok_tl [OF go] base_subset_reg [OF frames_ok_hd [OF go]]
    by (cases gs) (auto simp: low_reg_def frame_above_def)
  with Cons.IH [OF go ok] blocks_in_region(1) [OF go ok] Cons.prems(3) bs
  show ?case by (fastforce simp: low_reg_def)
qed

lemma blocks_ok_disjoint:
  "frames_ok s fs \<Longrightarrow> blocks_ok s fs bl \<Longrightarrow> blocks_disjoint_list (concat bl)"
proof (induction fs arbitrary: bl)
  case Nil
  then show ?case by simp
next
  case (Cons f fs)
  then obtain b bs where bl: "bl = b # bs" and t: "top_blocks_ok s f (low_reg s fs) b"
    by (auto simp: blocks_ok_Cons)
  have "blocks_disjoint_list (concat bs)"
    using Cons frames_ok_tl [OF Cons.prems(1)] bl by (cases "fs = []") (auto simp: blocks_ok_Cons)
  moreover have "blk x \<inter> blk y = {}" if "x \<in> set b" "y \<in> set (concat bs)" for x y
    using blocks_in_region(2) [of s f fs b bs x] lower_blocks_in_region [of s f fs b bs y] that Cons.prems bl
    by blast
  ultimately show ?case using t bl by (simp add: blocks_disjoint_append top_blocks_ok_def)
qed

lemma blocks_ok_marks:
  "frames_ok s fs \<Longrightarrow> blocks_ok s fs bl \<Longrightarrow> x \<in> set (concat bl) \<Longrightarrow> f \<in> set fs \<Longrightarrow>
   blk x \<inter> storage (fr_mark f) = {}"
proof (induction fs arbitrary: bl)
  case Nil
  then show ?case by simp
next
  case (Cons g gs)
  then obtain b bs where bl: "bl = b # bs" by (auto simp: blocks_ok_Cons)
  note R = blocks_in_region [OF Cons.prems(1), of b bs x]
    lower_blocks_in_region [OF Cons.prems(1), of b bs x]
  show ?case
  proof (cases "f = g")
    case True
    show ?thesis
    proof (cases "x \<in> set b")
      case False
      then have x: "blk x \<subseteq> low_reg s gs" using R(4) Cons.prems bl by auto
      have "storage (fr_mark g) \<inter> low_reg s gs = {}"
        using frames_ok_tl [OF Cons.prems(1)] by (cases gs) (auto simp: low_reg_def frame_above_def)
      with x True show ?thesis by blast
    qed (use R(3) Cons.prems(2) bl True in auto)
  next
    case False
    then have f: "f \<in> set gs" using Cons.prems(4) by simp
    then have ne: "gs \<noteq> []" by auto
    show ?thesis
    proof (cases "x \<in> set b")
      case True
      have "storage (fr_mark f) \<subseteq> low_reg s gs"
        using lower_in_region [OF Cons.prems(1) f] ne by (cases gs) (auto simp: low_reg_def)
      with R(2) True Cons.prems(2) bl show ?thesis by blast
    next
      case False
      then show ?thesis
        using Cons.IH [of bs] Cons.prems f ne frames_ok_tl [OF Cons.prems(1) ne] bl
        by (auto simp: blocks_ok_Cons)
    qed
  qed
qed

section \<open>The client\<close>

datatype lifo_op = OpAlloc nat bool | OpPushMark | OpPushFrame nat bool | OpPopFrame
  | OpPopMark nat | OpExpand nat bool | OpShrink nat bool | OpResize nat bool

datatype 'h client = Panicked | Running "'h memlifo" "(addr \<times> nat) list list"

text \<open>Whether the client has the mark to pop: the bottom mark is the pool's own.\<close>

definition has_mark :: "lifo_op \<Rightarrow> (addr \<times> nat) list list \<Rightarrow> bool" where
  "has_mark op bl = (case op of
      OpPopFrame \<Rightarrow> 2 \<le> length bl
    | OpPopMark k \<Rightarrow> k + 2 \<le> length bl
    | _ \<Rightarrow> True)"

text \<open>The requests below 2 GB, counted with the rounding of \<open>ROUNDUP\<close> and the header.\<close>

definition moderate :: "lifo_op \<Rightarrow> bool" where
  "moderate op = (case op of
      OpExpand n _ \<Rightarrow> n + 7 < 2 ^ 31
    | OpResize n _ \<Rightarrow> n + 14 < 2 ^ 31
    | _ \<Rightarrow> True)"

text \<open>The handle of the \<open>k\<close>-th mark below the top one, which the client got when it pushed it.\<close>

fun nth_mark :: "'h memlifo \<Rightarrow> nat \<Rightarrow> addr \<Rightarrow> addr option" where
  "nth_mark s 0 mp = Some mp"
| "nth_mark s (Suc k) mp = do { m \<leftarrow> mem_marks s mp; nth_mark s k (lm_prev m) }"

text \<open>
  \<open>client_keep\<close>: what the client notes for a call that returns a block of \<open>n\<close> bytes (or
  of the size the pool reports), when \<open>old\<close> are the other blocks of the top frame.
\<close>

definition client_keep ::
    "'h memlifo \<times> lifo_ret \<Rightarrow> nat \<Rightarrow> (addr \<times> nat) list list \<Rightarrow> (addr \<times> nat) list \<Rightarrow>
     (addr \<times> nat) list list \<Rightarrow> 'h client" where
  "client_keep res n same old below = (case res of
      (s', LPanic) \<Rightarrow> Panicked
    | (s', LRet p a) \<Rightarrow>
        if p = NULL then Running s' same
        else Running s' (((p, case a of None \<Rightarrow> n | Some k \<Rightarrow> k) # old) # below))"

definition lifo_client :: "lifo_op \<Rightarrow> 'h memlifo \<Rightarrow> (addr \<times> nat) list list \<Rightarrow> 'h client option" where
  "lifo_client op s bl =
     (if \<not> has_mark op bl then Some (Running s bl)
      else case op of
        OpAlloc n want \<Rightarrow> do {
          res \<leftarrow> MemLifoAlloc s n want; Some (client_keep res n bl (hd bl) (tl bl)) }
      | OpPushMark \<Rightarrow> do {
          (s', r) \<leftarrow> MemLifoPushMark s;
          (case r of
             LPanic \<Rightarrow> Some Panicked
           | LRet p _ \<Rightarrow> Some (Running s' (if p = NULL then bl else [] # bl))) }
      | OpPushFrame n want \<Rightarrow> do {
          res \<leftarrow> MemLifoPushFrame s n want; Some (client_keep res n bl [] bl) }
      | OpPopFrame \<Rightarrow> do { s' \<leftarrow> MemLifoPopFrame s; Some (Running s' (tl bl)) }
      | OpPopMark k \<Rightarrow> do {
          mp \<leftarrow> nth_mark s k (lifo_top_mark s);
          s' \<leftarrow> MemLifoPopMark s mp;
          Some (Running s' (drop (Suc k) bl)) }
      | OpExpand n fix \<Rightarrow> do {
          res \<leftarrow> MemLifoExpandLast s n fix;
          Some (if hd bl = [] then client_keep res n bl [] (tl bl)
                else client_keep res (snd (hd (hd bl)) + n) bl (tl (hd bl)) (tl bl)) }
      | OpShrink n fix \<Rightarrow> do {
          res \<leftarrow> MemLifoShrinkLast s n fix;
          Some (client_keep res (snd (hd (hd bl)) - n) bl (tl (hd bl)) (tl bl)) }
      | OpResize n fix \<Rightarrow> do {
          res \<leftarrow> MemLifoResizeLast s n fix;
          Some (client_keep res n bl (tl (hd bl)) (tl bl)) })"

fun lifo_run :: "lifo_op list \<Rightarrow> 'h client \<Rightarrow> 'h client option" where
  "lifo_run [] c = Some c"
| "lifo_run (op # ops) Panicked = Some Panicked"
| "lifo_run (op # ops) (Running s bl) = do { c \<leftarrow> lifo_client op s bl; lifo_run ops c }"

text \<open>The invariant: that of the pool, and that of the client's blocks.\<close>

fun client_inv :: "('h \<Rightarrow> addr \<rightharpoonup> nat) \<Rightarrow> 'h client \<Rightarrow> bool" where
  "client_inv B Panicked \<longleftrightarrow> True"
| "client_inv B (Running s bl) \<longleftrightarrow> (\<exists>fs. lifo_inv B s fs \<and> blocks_ok s fs bl)"

lemma block_le_last:
  assumes inv: "lifo_inv B s (f # fs)" and la: "lm_last_alloc (mk s f) \<noteq> NULL"
    and x: "{lm_last_alloc (mk s f) ..< lm_last_alloc (mk s f) + n} \<subseteq> reg s f"
      "{lm_last_alloc (mk s f) ..< lm_last_alloc (mk s f) + n} \<inter> base s f = {}"
  shows "n \<le> last_size s f"
proof (rule ccontr)
  assume n: "\<not> n \<le> last_size s f"
  let ?x = "lm_last_alloc (mk s f) + last_size s f"
  have f: "frame_ok s f" and h: "heap_ok B s" using inv frames_ok_hd by (auto simp: lifo_inv_def)
  have ne: "fr_chunks f \<noteq> []" using f by (simp add: frame_ok_def)
  have "?x \<in> {lm_last_alloc (mk s f) ..< lm_last_alloc (mk s f) + n}" using n by simp
  then have xr: "?x \<in> reg s f" "?x \<notin> base s f" using x by blast+
  show False
  proof (rule last_cases [OF inv la])
    fix k assume b: "fr_bigs f \<noteq> []" "lm_last_alloc (mk s f) = hd (fr_bigs f) + 16"
      "mem_chunks s (hd (fr_bigs f)) = Some k" "last_size s f = lc_end k - hd (fr_bigs f) - 16"
      "base s f = region (mem_chunks s) (fr_chunks f) (tl (fr_bigs f)) (lm_freeptr (mk s f))"
    have "reg s f = base s f \<union> ext (mem_chunks s) (hd (fr_bigs f))"
      unfolding b(5) using b(1) by (cases "fr_bigs f") (auto simp: reg_def region_def)
    moreover have "?x = lc_end k" using heap_okD [OF h b(3)] b(2,4) by (simp add: chunk_ok_def)
    ultimately show False using xr b(3) by (auto simp: ext_def cend_def)
  next
    assume b: "lm_chunks (mk s f) + 16 \<le> lm_last_alloc (mk s f)"
      "lm_last_alloc (mk s f) \<le> lm_freeptr (mk s f)"
      "base s f = region (mem_chunks s) (fr_chunks f) (fr_bigs f) (lm_last_alloc (mk s f))"
      "last_size s f = lm_freeptr (mk s f) - lm_last_alloc (mk s f)"
    have "lm_freeptr (mk s f) \<le> cend (mem_chunks s) (hd (fr_chunks f))"
      using f frame_heads(1) [OF f] by (simp add: frame_ok_def)
    then have "reg s f = base s f \<union> {lm_last_alloc (mk s f) ..< lm_freeptr (mk s f)}"
      unfolding reg_def b(3) using b(1,2) ne frame_heads(1) [OF f] by (intro region_grow) auto
    with xr b(2,4) show False by auto
  qed
qed

lemma top_block_size:
  assumes inv: "lifo_inv B s (f # fs)" and ok: "blocks_ok s (f # fs) (b # bs)" and b: "b \<noteq> []"
  shows "snd (hd b) \<le> last_size s f"
proof -
  have t: "top_blocks_ok s f (low_reg s fs) b" using ok by (simp add: blocks_ok_Cons)
  show ?thesis
    by (rule block_le_last [OF inv]) (use t b in \<open>auto simp: top_blocks_ok_def blk_def\<close>)
qed

lemma keep_failed:
  assumes "lifo_inv B s' fs" "blocks_ok s fs bl" "frames_ok s fs" "same_frames fs s s'"
    "r = LPanic \<or> r = LRet NULL a"
  shows "client_inv B (client_keep (s', r) n bl old below)"
  using assms blocks_ok_same [OF assms(2-4)] by (auto simp: client_keep_def)

text \<open>A block that replaces the head of the top frame, or is put in front of it.\<close>

lemma keep_block:
  assumes inv: "lifo_inv B s (f # fs)" and ok: "blocks_ok s (f # fs) (b # bs)"
    and inv': "lifo_inv B s' (f' # fs)" and same: "same_frames fs s s'" and m: "fr_mark f' = fr_mark f"
    and p: "p \<noteq> NULL" "lm_last_alloc (mk s' f') = p" "blk (p, n) \<subseteq> reg s' f'" "blk (p, n) \<inter> base s' f' = {}"
    and old: "blocks_disjoint_list b'" "set b' \<subseteq> set b" "\<And>x. x \<in> set b' \<Longrightarrow> blk x \<subseteq> base s' f'"
  shows "client_inv B (Running s' (((p, n) # b') # bs))"
proof -
  have fo: "frames_ok s (f # fs)" using inv by (simp add: lifo_inv_def)
  have low: "low_reg s' fs = low_reg s fs" by (rule low_reg_same [OF fo same])
  have "blk x \<inter> low_reg s fs = {}" "blk x \<inter> storage (fr_mark f') = {}" if "x \<in> set b'" for x
    using blocks_in_region(2,3) [OF fo ok subsetD [OF old(2) that]] m by simp_all
  then have "blk x \<subseteq> base s' f' - low_reg s fs - storage (fr_mark f')" if "x \<in> set b'" for x
    using old(3) [OF that] that by blast
  moreover have "blk (p, n) \<inter> blk x = {}" if "x \<in> set b'" for x
    using old(3) [OF that] p(4) by blast
  ultimately have "top_blocks_ok s' f' (low_reg s' fs) ((p, n) # b')"
    using p old(1) unfolding low by (simp add: top_blocks_ok_def)
  moreover have "if fs = [] then bs = [] else blocks_ok s' fs bs"
    using ok fo same frames_ok_tl [OF fo] by (auto simp: blocks_ok_Cons intro: blocks_ok_same split: if_splits)
  ultimately show ?thesis using inv' by (auto simp: blocks_ok_Cons)
qed

lemma keep_allocated:
  assumes inv: "lifo_inv B s (f # fs)" and ok: "blocks_ok s (f # fs) (b # bs)"
    and out: "alloc_outcome B s f fs n want s' r"
  shows "client_inv B (client_keep (s', r) n (b # bs) b bs)"
proof (cases "alloc_failed_ok B s (f # fs) s' r")
  case True
  then have "same_frames (f # fs) s s'" by (auto simp: alloc_failed_ok_def same_frames_def)
  moreover have "frames_ok s (f # fs)" using inv by (simp add: lifo_inv_def)
  ultimately show ?thesis
    using keep_failed [OF _ ok] True lifo_fail_cases [of s] by (auto simp: alloc_failed_ok_def)
next
  case False
  then obtain p k f' where r: "r = LRet p (if want then Some k else None)" "n \<le> k"
    and inv': "lifo_inv B s' (f' # fs)" and m: "fr_mark f' = fr_mark f" and same: "same_frames fs s s'"
    and al: "allocated s f s' f' p k"
    using out by (auto simp: alloc_outcome_def)
  have fo: "frames_ok s (f # fs)" using inv by (simp add: lifo_inv_def)
  have "p \<noteq> NULL" "lm_last_alloc (mk s' f') = p" "reg s f \<subseteq> base s' f'"
    using al by (simp_all add: allocated_def)
  moreover have "blk (p, j) \<subseteq> reg s' f' \<and> blk (p, j) \<inter> base s' f' = {}" if "j \<le> k" for j
    using allocated_mono [OF al that] by (simp add: allocated_def blk_def)
  moreover have "blocks_disjoint_list b" using ok by (simp add: blocks_ok_Cons top_blocks_ok_def)
  moreover have "blk x \<subseteq> base s' f'" if "x \<in> set b" for x
    using blocks_in_region(1) [OF fo ok that] al by (auto simp: allocated_def)
  ultimately have "client_inv B (Running s' (((p, j) # b) # bs))" if "j \<le> k" for j
    using keep_block [OF inv ok inv' same m, of p j b] that by blast
  then show ?thesis using r \<open>p \<noteq> NULL\<close> by (auto simp: client_keep_def)
qed

lemma keep_resized:
  assumes inv: "lifo_inv B s (f # fs)" and ok: "blocks_ok s (f # fs) (b # bs)"
    and out: "resize_outcome B s f fs k s' r" and n: "n \<le> k"
  shows "client_inv B (client_keep (s', r) n (b # bs) (tl b) bs)"
proof -
  have fo: "frames_ok s (f # fs)" using inv by (simp add: lifo_inv_def)
  from out consider
    "r = LPanic \<or> r = LRet NULL None" "lifo_inv B s' (f # fs)" "same_frames (f # fs) s s'"
    | p j f' where "r = LRet p None" "k \<le> j" "lifo_inv B s' (f' # fs)" "fr_mark f' = fr_mark f"
        "same_frames fs s s'" "resized s f s' f' p j"
    unfolding resize_outcome_def same_frames_def by fastforce
  then show ?thesis
  proof cases
    case 1
    then show ?thesis using keep_failed [OF 1(2) ok fo 1(3)] by blast
  next
    case 2
    have t: "top_blocks_ok s f (low_reg s fs) b" using ok by (simp add: blocks_ok_Cons)
    have p: "p \<noteq> NULL" "lm_last_alloc (mk s' f') = p" "base s f \<subseteq> base s' f'"
      "{p ..< p + j} \<subseteq> reg s' f'" "{p ..< p + j} \<inter> base s' f' = {}"
      using 2(6) by (simp_all add: resized_def)
    have "blk (p, n) \<subseteq> {p ..< p + j}" using n 2(2) by (auto simp: blk_def)
    moreover have "blk x \<subseteq> base s' f'" if "x \<in> set (tl b)" for x
    proof -
      have "b \<noteq> []" using that by auto
      then have "blk x \<subseteq> base s f" using t that by (auto simp: top_blocks_ok_def)
      with p(3) show ?thesis by (rule subset_trans [rotated])
    qed
    moreover have "blocks_disjoint_list (tl b)" using t by (cases b) (auto simp: top_blocks_ok_def)
    moreover have "set (tl b) \<subseteq> set b" by (cases b) auto
    ultimately have "client_inv B (Running s' (((p, n) # tl b) # bs))"
      using keep_block [OF inv ok 2(3,5,4) p(1,2)] p(4,5) by blast
    then show ?thesis using 2(1) p(1) by (simp add: client_keep_def)
  qed
qed

lemma keep_pushed:
  assumes inv: "lifo_inv B s (f # fs)" and ok: "blocks_ok s (f # fs) bl"
    and out: "push_outcome B s (f # fs) s' r"
  shows "r = LPanic \<or> (\<exists>p a. r = LRet p a \<and> client_inv B (Running s' (if p = NULL then bl else [] # bl)))"
proof (cases "alloc_failed_ok B s (f # fs) s' r")
  case True
  have fo: "frames_ok s (f # fs)" using inv by (simp add: lifo_inv_def)
  have "same_frames (f # fs) s s'" using True by (auto simp: alloc_failed_ok_def same_frames_def)
  then have "blocks_ok s' (f # fs) bl" by (rule blocks_ok_same [OF ok fo])
  with True lifo_fail_cases [of s] show ?thesis by (auto simp: alloc_failed_ok_def)
next
  case False
  then obtain f' where r: "r = LRet (fr_mark f') None" and inv': "lifo_inv B s' (f' # f # fs)"
    and same: "same_frames (f # fs) s s'" and la: "lm_last_alloc (mk s' f') = NULL"
    using out by (auto simp: push_outcome_def)
  have fo: "frames_ok s (f # fs)" using inv by (simp add: lifo_inv_def)
  have "top_blocks_ok s' f' low []" for low using la by (simp add: top_blocks_ok_def)
  then have "blocks_ok s' (f' # f # fs) ([] # bl)"
    using blocks_ok_same [OF ok fo same] by (simp add: blocks_ok_Cons)
  then have "client_inv B (Running s' ([] # bl))" using inv' by auto
  then show ?thesis using r lifo_inv_same_above [OF inv'] by simp
qed

lemma keep_frame:
  assumes inv: "lifo_inv B s (f # fs)" and ok: "blocks_ok s (f # fs) bl"
    and out: "frame_outcome B s f fs n want s' r"
  shows "client_inv B (client_keep (s', r) n bl [] bl)"
proof -
  have fo: "frames_ok s (f # fs)" using inv by (simp add: lifo_inv_def)
  consider "r = LPanic" | "frame_failed B s (f # fs) s' r"
    | p k f' where "r = LRet p (if want then Some k else None)" "n \<le> k"
        "lifo_inv B s' (f' # f # fs)" "allocated s f s' f' p k" "same_frames (f # fs) s s'"
    using out by (auto simp: frame_outcome_def)
  then show ?thesis
  proof cases
    case 1
    then show ?thesis by (simp add: client_keep_def)
  next
    case 2
    then show ?thesis
      using blocks_ok_same [OF ok fo] by (auto simp: frame_failed_def client_keep_def)
  next
    case 3
    have "p \<noteq> NULL" "lm_last_alloc (mk s' f') = p" using 3(4) by (simp_all add: allocated_def)
    moreover have "blk (p, j) \<subseteq> reg s' f' \<and> blk (p, j) \<inter> base s' f' = {}" if "j \<le> k" for j
      using allocated_mono [OF 3(4) that] by (simp add: allocated_def blk_def)
    ultimately have "top_blocks_ok s' f' low [(p, j)]" if "j \<le> k" for j low
      using that by (simp add: top_blocks_ok_def)
    then have "blocks_ok s' (f' # f # fs) ([(p, j)] # bl)" if "j \<le> k" for j
      using that blocks_ok_same [OF ok fo 3(5)] by (simp add: blocks_ok_Cons)
    then have "client_inv B (Running s' ([(p, j)] # bl))" if "j \<le> k" for j
      using that 3(3) by auto
    then show ?thesis using 3(1,2) \<open>p \<noteq> NULL\<close> by (auto simp: client_keep_def)
  qed
qed

lemma nth_mark_frame:
  "frames_ok s fs \<Longrightarrow> k < length fs \<Longrightarrow> nth_mark s k (fr_mark (hd fs)) = Some (fr_mark (fs ! k))"
proof (induction k arbitrary: fs)
  case 0
  then show ?case by (cases fs) auto
next
  case (Suc k)
  then obtain f g gs where fs: "fs = f # g # gs" by (cases fs; cases "tl fs") auto
  with Suc.prems have go: "frames_ok s (g # gs)" and ab: "frame_above s f g" by simp_all
  obtain m where m: "mem_marks s (fr_mark f) = Some m"
    using frames_ok_hd [of s f "g # gs"] Suc.prems(1) fs by (auto simp: frame_ok_def)
  moreover have "lm_prev m = fr_mark g" using ab m by (simp add: frame_above_def mk_mark)
  ultimately show ?case using Suc.IH [OF go] Suc.prems(2) fs by simp
qed

lemma blocks_ok_length: "blocks_ok s fs bl \<Longrightarrow> length fs = length bl"
  by (induction s fs bl rule: blocks_ok.induct) auto

lemma blocks_ok_drop: "blocks_ok s fs bl \<Longrightarrow> k < length fs \<Longrightarrow> blocks_ok s (drop k fs) (drop k bl)"
proof (induction k arbitrary: fs bl)
  case (Suc k)
  then obtain f g gs where "fs = f # g # gs" by (cases fs; cases "tl fs") auto
  with Suc.prems obtain b bs where "bl = b # bs" "blocks_ok s (g # gs) bs" by (cases bl) auto
  with Suc \<open>fs = f # g # gs\<close> show ?case by simp
qed simp

lemma keep_mark_popped:
  assumes inv: "lifo_inv B s fs" and ok: "blocks_ok s fs bl" and len: "k + 2 \<le> length bl"
  shows "\<exists>s'. MemLifoPopMark s (fr_mark (fs ! k)) = Some s' \<and>
    client_inv B (Running s' (drop (Suc k) bl))"
proof -
  have lf: "k + 2 \<le> length fs" using len blocks_ok_length [OF ok] by simp
  define f g gs where d: "f = fs ! k" "g = fs ! Suc k" "gs = drop (k + 2) fs"
  have sx: "drop k fs = f # g # gs" "drop (Suc k) fs = g # gs"
    using lf by (simp_all add: d Cons_nth_drop_Suc)
  have fs: "fs = take k fs @ f # g # gs" using sx(1) append_take_drop_id [of k fs] by simp
  have inv': "lifo_inv B s (take k fs @ f # g # gs)" using inv fs by simp
  obtain s' where s': "MemLifoPopMark s (fr_mark f) = Some s'" "pop_outcome B s f (g # gs) s'"
    using MemLifoPopMark_at [OF inv'] by blast
  have "frames_ok s fs" using inv by (simp add: lifo_inv_def)
  then have "frames_ok s (f # g # gs)" using frames_ok_suffix [of s "take k fs" "f # g # gs"] fs by simp
  then have "frames_ok s (g # gs)" by simp
  moreover have "blocks_ok s (g # gs) (drop (Suc k) bl)"
    using blocks_ok_drop [OF ok, of "Suc k"] sx(2) lf by simp
  ultimately have "blocks_ok s' (g # gs) (drop (Suc k) bl)"
    using s'(2) blocks_ok_same by (auto simp: pop_outcome_def)
  then have "client_inv B (Running s' (drop (Suc k) bl))" using s'(2) by (auto simp: pop_outcome_def)
  with s'(1) show ?thesis by (auto simp: d)
qed

lemma keep_popped:
  assumes inv: "lifo_inv B s fs" and ok: "blocks_ok s fs bl" and len: "2 \<le> length bl"
  shows "\<exists>s'. MemLifoPopFrame s = Some s' \<and> client_inv B (Running s' (tl bl))"
proof -
  have "lifo_top_mark s = fr_mark (fs ! 0)"
    using inv by (cases fs) (auto simp: lifo_inv_def)
  with keep_mark_popped [OF inv ok, of 0] len show ?thesis
    by (simp add: MemLifoPopFrame_def drop_Suc)
qed

lemma lifo_client_ok:
  assumes "client_inv B (Running s bl)" and small: "moderate op"
  shows "\<exists>c. lifo_client op s bl = Some c \<and> client_inv B c"
proof (cases "has_mark op bl")
  case False
  with assms(1) show ?thesis by (simp add: lifo_client_def)
next
  case True
  from assms(1) obtain fs0 where inv0: "lifo_inv B s fs0" and ok0: "blocks_ok s fs0 bl" by auto
  then obtain f fs where fs0: "fs0 = f # fs" by (cases fs0) auto
  note inv = inv0 [unfolded fs0] and ok = ok0 [unfolded fs0]
  then obtain b bs where bl: "bl = b # bs" by (auto simp: blocks_ok_Cons)
  note ok' = ok [unfolded bl]
  have la: "b = [] \<longleftrightarrow> lm_last_alloc (mk s f) = NULL"
    using ok' by (simp add: blocks_ok_Cons top_blocks_ok_def)
  show ?thesis
  proof (cases op)
    case (OpAlloc n want)
    with MemLifoAlloc_ok [OF inv, of n want] keep_allocated [OF inv ok'] True bl
    show ?thesis by (fastforce simp: lifo_client_def)
  next
    case OpPushMark
    obtain s' r where "MemLifoPushMark s = Some (s', r)" "push_outcome B s (f # fs) s' r"
      using MemLifoPushMark_ok [OF inv] by blast
    with keep_pushed [OF inv ok] OpPushMark True show ?thesis
      by (fastforce simp: lifo_client_def)
  next
    case (OpPushFrame n want)
    with MemLifoPushFrame_ok [OF inv, of n want] keep_frame [OF inv ok] True
    show ?thesis by (fastforce simp: lifo_client_def)
  next
    case OpPopFrame
    then have "2 \<le> length bl" using True by (simp add: has_mark_def)
    with keep_popped [OF inv0 ok0] OpPopFrame True show ?thesis by (auto simp: lifo_client_def)
  next
    case (OpPopMark k)
    then have k: "k + 2 \<le> length bl" using True by (simp add: has_mark_def)
    have "frames_ok s fs0" "lifo_top_mark s = fr_mark (hd fs0)" using inv0 by (simp_all add: lifo_inv_def)
    then have "nth_mark s k (lifo_top_mark s) = Some (fr_mark (fs0 ! k))"
      using nth_mark_frame [of s fs0 k] k blocks_ok_length [OF ok0] by simp
    with keep_mark_popped [OF inv0 ok0 k] OpPopMark True show ?thesis by (auto simp: lifo_client_def)
  next
    case (OpExpand n "fix")
    then have "n + 7 < 2 ^ 31" using small by (simp add: moderate_def)
    then obtain s' r where e: "MemLifoExpandLast s n fix = Some (s', r)"
      "if lm_last_alloc (mk s f) = NULL then alloc_outcome B s f fs n False s' r
       else resize_outcome B s f fs (last_size s f + n) s' r"
      using MemLifoExpandLast_ok [OF inv] by blast
    show ?thesis
    proof (cases "b = []")
      case b: True
      with e la keep_allocated [OF inv ok'] have "client_inv B (client_keep (s', r) n (b # bs) b bs)" by simp
      with e(1) OpExpand True bl b show ?thesis by (simp add: lifo_client_def)
    next
      case b: False
      then have "snd (hd b) + n \<le> last_size s f + n" using top_block_size [OF inv ok'] by simp
      with keep_resized [OF inv ok'] e(2) b la
      have "client_inv B (client_keep (s', r) (snd (hd b) + n) (b # bs) (tl b) bs)" by auto
      with e(1) OpExpand True bl b show ?thesis by (simp add: lifo_client_def)
    qed
  next
    case (OpShrink n "fix")
    obtain s' r where e: "MemLifoShrinkLast s n fix = Some (s', r)"
      "resize_outcome B s f fs (last_size s f - n) s' r"
      using MemLifoShrinkLast_ok [OF inv] by blast
    have "client_inv B (client_keep (s', r) (snd (hd b) - n) (b # bs) (tl b) bs)"
    proof (cases "b = []")
      case False
      then show ?thesis
        using keep_resized [OF inv ok' e(2)] top_block_size [OF inv ok'] by simp
    next
      case b: True
      then have "MemLifoShrinkLast s n fix = Some (s, LRet NULL None)"
        using la inv by (auto elim!: lifo_inv_top simp: MemLifoShrinkLast_def)
      with e(1) have "s' = s" "r = LRet NULL None" by simp_all
      with assms(1) bl show ?thesis by (simp add: client_keep_def)
    qed
    with e(1) OpShrink True bl show ?thesis by (simp add: lifo_client_def)
  next
    case (OpResize n "fix")
    then have "n + 14 < 2 ^ 31" using small by (simp add: moderate_def)
    with MemLifoResizeLast_ok [OF inv] obtain s' r where "MemLifoResizeLast s n fix = Some (s', r)"
      "resize_outcome B s f fs n s' r" by blast
    with keep_resized [OF inv ok'] OpResize True bl show ?thesis
      by (simp add: lifo_client_def)
  qed
qed

lemma lifo_run_ok:
  "client_inv B c \<Longrightarrow> \<forall>op \<in> set ops. moderate op \<Longrightarrow>
     \<exists>c'. lifo_run ops c = Some c' \<and> client_inv B c'"
proof (induction ops c rule: lifo_run.induct)
  case (3 op ops s bl)
  then obtain c where "lifo_client op s bl = Some c" "client_inv B c"
    using lifo_client_ok [of B s bl op] by auto
  with 3 show ?case by simp
qed auto

text \<open>What the invariant says of the blocks a client holds.\<close>

definition client_safe :: "'h client \<Rightarrow> bool" where
  "client_safe c = (case c of Panicked \<Rightarrow> True
    | Running s bl \<Rightarrow> blocks_disjoint_list (concat bl) \<and>
        (\<forall>x \<in> set (concat bl). blk x \<subseteq> (\<Union>d \<in> dom (mem_chunks s). ext (mem_chunks s) d) \<and>
           blk x \<inter> storage (lifo_top_mark s) = {} \<and> blk x \<inter> storage (lifo_bot_mark s) = {}))"

lemma client_inv_safe: "client_inv B c \<Longrightarrow> client_safe c"
proof (cases c)
  case (Running s bl)
  assume "client_inv B c"
  then obtain fs where inv: "lifo_inv B s fs" and ok: "blocks_ok s fs bl" using Running by auto
  have fo: "frames_ok s fs" and ne: "fs \<noteq> []" using inv by (auto simp: lifo_inv_def)
  have marks: "blk x \<inter> storage (lifo_top_mark s) = {}" "blk x \<inter> storage (lifo_bot_mark s) = {}"
    if "x \<in> set (concat bl)" for x
    using blocks_ok_marks [OF fo ok that] inv ne by (simp_all add: lifo_inv_def)
  have mem: "blk x \<subseteq> (\<Union>d \<in> dom (mem_chunks s). ext (mem_chunks s) d)" if "x \<in> set (concat bl)" for x
  proof -
    obtain f gs where fs: "fs = f # gs" using ne by (cases fs) auto
    then obtain b bs where bl: "bl = b # bs" using ok by (auto simp: blocks_ok_Cons)
    have "low_reg s gs \<subseteq> reg s f"
      using frames_ok_tl [of s f gs] base_subset_reg [of s f] frames_ok_hd [of s f gs] fo fs
      by (cases gs) (auto simp: low_reg_def frame_above_def)
    moreover have "x \<in> set b \<or> x \<in> set (concat bs)" using that bl by auto
    ultimately have "blk x \<subseteq> reg s f"
      using blocks_in_region(1) [OF fo [unfolded fs] ok [unfolded fs bl]]
        lower_blocks_in_region [OF fo [unfolded fs] ok [unfolded fs bl]] by blast
    moreover have "reg s f \<subseteq> (\<Union>d \<in> dom (mem_chunks s). ext (mem_chunks s) d)"
      by (rule subset_trans [OF reg_subset_exts UN_mono [OF frame_chunks_dom subset_refl]])
        (rule frames_ok_hd [OF fo [unfolded fs]])
    ultimately show ?thesis by blast
  qed
  show ?thesis
    unfolding client_safe_def Running client.case
    by (intro conjI ballI blocks_ok_disjoint [OF fo ok] mem marks)
qed (simp add: client_safe_def)

lemma client_inv_init:
  assumes "allocator_ok al fr B" "blocks_disjoint (B h)" "sz < 2 ^ 31 - 24"
    and "MemLifoInit l (CustomAlloc h al fr) sz flags bytes = InitOk s"
  shows "client_inv B (Running s [[]])"
proof -
  obtain c where "lifo_inv B s [\<lparr>fr_mark = c + 16, fr_chunks = [c], fr_bigs = []\<rparr>]"
    "lm_last_alloc (mk s \<lparr>fr_mark = c + 16, fr_chunks = [c], fr_bigs = []\<rparr>) = NULL"
    using lifo_init_ok [OF assms(1-3), of l flags bytes] assms(4) by (auto simp: MemLifoInit_def)
  moreover from this(2) have
    "blocks_ok s [\<lparr>fr_mark = c + 16, fr_chunks = [c], fr_bigs = []\<rparr>] [[]]"
    by (simp add: top_blocks_ok_def)
  ultimately show ?thesis by auto
qed

end
