(* ===== verification/Memlifo_Props.thy ===== *)
theory Memlifo_Props
  imports Memlifo_Client
begin

text \<open>
  The properties of the memory pool, with a bump allocator that shows that the assumptions
  about the chunk allocator can hold, and the places where the code departs from
  \<open>memlifo.h\<close>.
\<close>

section \<open>A concrete allocator\<close>

type_synonym bump = "nat \<times> (addr \<rightharpoonup> nat)"

definition bump_blocks :: "bump \<Rightarrow> addr \<rightharpoonup> nat" where
  "bump_blocks h = (\<lambda>q. case snd h q of None \<Rightarrow> None | Some m \<Rightarrow> if q + m \<le> fst h then Some m else None)"

definition bump_alloc :: "bump \<Rightarrow> nat \<Rightarrow> bump \<times> (addr \<times> nat) option" where
  "bump_alloc h sz =
     (let p = (fst h + 15) div 8 * 8; n = (sz + 7) div 8 * 8
      in if n < 2 ^ 31 \<and> p + n + 8 \<le> 2 ^ 64 then ((p + n, (bump_blocks h)(p \<mapsto> n)), Some (p, n))
         else (h, None))"

definition bump_free :: "bump \<Rightarrow> addr \<Rightarrow> bump" where
  "bump_free h p = (fst h, (snd h)(p := None))"

lemma bump_ok: "allocator_ok bump_alloc bump_free bump_blocks"
  unfolding allocator_ok_def
proof (intro conjI allI impI)
  fix h h' :: bump and sz p n :: nat
  assume sz: "16 \<le> sz" and al: "bump_alloc h sz = (h', Some (p, n))"
  then have p: "p = (fst h + 15) div 8 * 8" and n: "n = (sz + 7) div 8 * 8"
    and lim: "n < 2 ^ 31" "p + n + 8 \<le> 2 ^ 64" and h': "h' = (p + n, (bump_blocks h)(p \<mapsto> n))"
    by (auto simp: bump_alloc_def Let_def split: if_splits)
  have ph: "fst h < p" using p by linarith
  show "0 < p" "8 dvd p" "8 dvd n" "sz \<le> n" "n < 2 ^ 31" "p + n + 8 \<le> 2 ^ 64"
    using p n lim sz by auto
  show none: "bump_blocks h p = None"
    using ph by (auto simp: bump_blocks_def split: option.splits)
  show "p + n \<le> q \<or> q + m \<le> p" if "bump_blocks h q = Some m" for q m
    using that ph by (auto simp: bump_blocks_def split: option.splits if_splits)
  show "bump_blocks h' = (bump_blocks h)(p \<mapsto> n)"
  proof
    fix q
    show "bump_blocks h' q = ((bump_blocks h)(p \<mapsto> n)) q"
      using ph by (cases "snd h q") (auto simp: bump_blocks_def h')
  qed
next
  fix h h' :: bump and sz :: nat
  assume "bump_alloc h sz = (h', None)"
  then show "bump_blocks h' = bump_blocks h" by (auto simp: bump_alloc_def Let_def split: if_splits)
next
  fix h :: bump and p
  show "bump_blocks (bump_free h p) = (bump_blocks h)(p := None)"
    by (rule HOL.ext) (simp add: bump_blocks_def bump_free_def split: option.split)
qed

lemma bump_start: "blocks_disjoint (bump_blocks (n, Map.empty))"
  by (simp add: blocks_disjoint_def bump_blocks_def)

definition demo_pool :: "nat \<Rightarrow> bump memlifo" where
  "demo_pool flags =
     (case MemLifoInit 1 (CustomAlloc (65536, Map.empty) bump_alloc bump_free) 8000 flags (\<lambda>_. 0) of
        InitOk s \<Rightarrow> s | _ \<Rightarrow> undefined)"

lemma demo_pool_init:
  "MemLifoInit 1 (CustomAlloc (65536, Map.empty) bump_alloc bump_free) 8000 flags (\<lambda>_. 0) =
   InitOk (demo_pool flags)"
  by (simp add: demo_pool_def MemLifoInit_def lifo_init_with_def bump_alloc_def Let_def)

lemma demo_pool_client: "client_inv bump_blocks (Running (demo_pool flags) [[]])"
  by (rule client_inv_init [OF bump_ok bump_start _ demo_pool_init]) simp

lemmas demo_defs = demo_pool_def MemLifoInit_def lifo_init_with_def bump_alloc_def Let_def
  sizeof_chunk_def sizeof_mark_def ALIGNPTR_def ROUNDUP_def ADDPTR_def DWORD_def
  MEMLIFO_MAX_ALLOC_def INT_MAX_def set_mark_def set_chunk_def

lemma demo_pool_eq: "demo_pool flags =
  \<lparr>lifo_self = 1, lifo_allocator_data = (73544, [65544 \<mapsto> 8000]), lifo_allocFn = bump_alloc,
   lifo_freeFn = bump_free, lifo_top_mark = 65560, lifo_bot_mark = 65560, lifo_chunk_size = 8000,
   lifo_flags = flags, lifo_magic = MEMLIFO_MAGIC,
   mem_chunks = [65544 \<mapsto> \<lparr>lc_prev = 0, lc_end = 73544\<rparr>],
   mem_marks = [65560 \<mapsto> \<lparr>lm_lifo = 1, lm_prev = 65560, lm_last_alloc = 0, lm_big_blocks = 0,
     lm_chunks = 65544, lm_freeptr = 65616\<rparr>],
   mem_bytes = (\<lambda>_. 0)\<rparr>"
  by (simp add: demo_defs bump_blocks_def)

lemmas demo_run = demo_pool_eq Let_def sizeof_chunk_def sizeof_mark_def ALIGNPTR_def ROUNDUP_def
  ADDPTR_def DWORD_def MEMLIFO_MAX_ALLOC_def INT_MAX_def set_mark_def set_chunk_def

section \<open>Properties\<close>

text \<open>
  C1. From initialisation on, whatever calls a client makes (allocations, marks, frames,
  resizing of the last block, pops of the top mark or of a lower one), as long as each
  request to grow or resize the last block stays below 2 GB, the pool never gets stuck on a
  bad descriptor, the live blocks never overlap each other or the marks at the ends of the
  stack, and they all lie in memory the allocator handed out.
\<close>

theorem lifo_client_safe:
  assumes "allocator_ok al fr B" "blocks_disjoint (B h)" "sz < 2 ^ 31 - 24"
    and "MemLifoInit l (CustomAlloc h al fr) sz flags bytes = InitOk s"
    and "\<forall>op \<in> set ops. moderate op"
  shows "\<exists>c. lifo_run ops (Running s [[]]) = Some c \<and> client_safe c"
  using lifo_run_ok [OF client_inv_init [OF assms(1-4)] assms(5)] client_inv_safe by blast

theorem lifo_client_safe_witness:
  "\<exists>c. lifo_run [OpAlloc 100 False, OpPushMark, OpAlloc 9000 True, OpPushMark, OpExpand 64 False, OpPopMark 1]
         (Running (demo_pool 0) [[]]) = Some c \<and> client_safe c"
  by (rule lifo_client_safe [OF bump_ok bump_start _ demo_pool_init]) (simp_all add: moderate_def)

text \<open>
  An allocation on a well-formed pool either fails, with the pool unchanged but for the
  state of the chunk allocator, or returns an aligned block of at least the requested size
  that is disjoint from all the memory in use, leaves all bytes alone and keeps the pool
  well-formed.
\<close>

theorem lifo_alloc_block:
  assumes "lifo_inv B s (f # fs)"
  shows "\<exists>s' r. MemLifoAlloc s sz want = Some (s', r) \<and> alloc_outcome B s f fs sz want s' r"
  by (rule MemLifoAlloc_ok [OF assms])

text \<open>The demonstration pool as the invariant sees it.\<close>

definition demo_frame :: frame where
  "demo_frame = \<lparr>fr_mark = 65560, fr_chunks = [65544], fr_bigs = []\<rparr>"

lemma demo_pool_inv: "lifo_inv bump_blocks (demo_pool flags) [demo_frame]"
proof -
  have "(8000::nat) < 2 ^ 31 - 24" by simp
  note I = lifo_init_ok [OF bump_ok bump_start this, of 1 65536 flags "\<lambda>_. 0"]
  have "lifo_init_with 1 (65536, Map.empty) bump_alloc bump_free 8000 flags (\<lambda>_. 0) = InitOk (demo_pool flags)"
    using demo_pool_init [of flags] by (simp add: MemLifoInit_def)
  with I obtain c n where c: "lifo_inv bump_blocks (demo_pool flags) [\<lparr>fr_mark = c + 16, fr_chunks = [c], fr_bigs = []\<rparr>]"
    "dom (mem_chunks (demo_pool flags)) = {c}"
    by auto
  have "dom (mem_chunks (demo_pool flags)) = {65544}"
    by (simp add: demo_run)
  with c(2) have "c = 65544" by simp
  with c(1) show ?thesis by (simp add: demo_frame_def)
qed

theorem lifo_alloc_block_witness:
  "\<exists>s' r. MemLifoAlloc (demo_pool 0) 100 False = Some (s', r) \<and>
     alloc_outcome bump_blocks (demo_pool 0) demo_frame [] 100 False s' r"
  by (rule lifo_alloc_block [OF demo_pool_inv])

text \<open>
  C2. Popping the topmost mark never fails, restores the frame below exactly (its marks and
  chunks are untouched), and gives back to the allocator exactly the chunks acquired since
  the mark was pushed.
\<close>

theorem lifo_pop_frame:
  assumes "lifo_inv B s (f # g # fs)"
  shows "\<exists>s'. MemLifoPopFrame s = Some s' \<and> pop_outcome B s f (g # fs) s'"
  using MemLifoPopMark_ok [OF assms] by (simp add: MemLifoPopFrame_def)

definition demo_pushed :: "bump memlifo" where
  "demo_pushed = fst (the (MemLifoPushMark (demo_pool 0)))"

lemma demo_pushed_inv: "\<exists>f. lifo_inv bump_blocks demo_pushed [f, demo_frame]"
proof -
  obtain s' r where p: "MemLifoPushMark (demo_pool 0) = Some (s', r)"
    "push_outcome bump_blocks (demo_pool 0) [demo_frame] s' r"
    using MemLifoPushMark_ok [OF demo_pool_inv] by blast
  have "snd (the (MemLifoPushMark (demo_pool 0))) = LRet 65616 None"
    by (simp add: MemLifoPushMark_def demo_run)
  with p(1) have "r = LRet 65616 None" by simp
  moreover have "lifo_fail (demo_pool 0) = LRet NULL None"
    by (simp add: lifo_fail_def demo_run)
  ultimately show ?thesis
    using p by (auto simp: push_outcome_def alloc_failed_ok_def demo_pushed_def)
qed

theorem lifo_pop_frame_witness:
  "\<exists>f s'. MemLifoPopFrame demo_pushed = Some s' \<and>
     pop_outcome bump_blocks demo_pushed f [demo_frame] s'"
  using demo_pushed_inv lifo_pop_frame by blast

text \<open>
  \<open>MemLifoExpandLast\<close> (by less than 2 GB) returns the last block, grown and with its old
  contents, still clear of everything else in use, or fails and changes nothing; without a
  last block it allocates one.
\<close>

theorem lifo_expand_last:
  assumes "lifo_inv B s (f # fs)" "incr + 7 < 2 ^ 31"
  shows "\<exists>s' r. MemLifoExpandLast s incr fix = Some (s', r) \<and>
     (if lm_last_alloc (mk s f) = NULL then alloc_outcome B s f fs incr False s' r
      else resize_outcome B s f fs (last_size s f + incr) s' r)"
  by (rule MemLifoExpandLast_ok [OF assms])

theorem lifo_expand_last_witness:
  "\<exists>s' r. MemLifoExpandLast (demo_pool 0) 24 True = Some (s', r) \<and>
     (if lm_last_alloc (mk (demo_pool 0) demo_frame) = NULL
      then alloc_outcome bump_blocks (demo_pool 0) demo_frame [] 24 False s' r
      else resize_outcome bump_blocks (demo_pool 0) demo_frame []
             (last_size (demo_pool 0) demo_frame + 24) s' r)"
  by (rule lifo_expand_last [OF demo_pool_inv]) simp

text \<open>
  \<open>MemLifoResizeLast\<close> (to less than 2 GB) returns a block of at least the new size that
  starts with the old contents, up to the smaller of the two sizes, and overlaps nothing
  else; or it fails and changes nothing.
\<close>

theorem lifo_resize_last:
  assumes "lifo_inv B s (f # fs)" "sz + 14 < 2 ^ 31"
  shows "\<exists>s' r. MemLifoResizeLast s sz fix = Some (s', r) \<and> resize_outcome B s f fs sz s' r"
  by (rule MemLifoResizeLast_ok [OF assms])

theorem lifo_resize_last_witness:
  "\<exists>s' r. MemLifoResizeLast (demo_pool 0) 64 False = Some (s', r) \<and>
     resize_outcome bump_blocks (demo_pool 0) demo_frame [] 64 s' r"
  by (rule lifo_resize_last [OF demo_pool_inv]) simp

text \<open>
  A frame is pushed with its first block in one step: if there is no memory for either,
  nothing is left behind.
\<close>

theorem lifo_push_frame:
  assumes "lifo_inv B s (f # fs)"
  shows "\<exists>s' r. MemLifoPushFrame s sz want = Some (s', r) \<and> frame_outcome B s f fs sz want s' r"
  by (rule MemLifoPushFrame_ok [OF assms])

theorem lifo_push_frame_witness:
  "\<exists>s' r. MemLifoPushFrame (demo_pool 0) 300 True = Some (s', r) \<and>
     frame_outcome bump_blocks (demo_pool 0) demo_frame [] 300 True s' r"
  by (rule lifo_push_frame [OF demo_pool_inv])

section \<open>Where the code departs from its interface\<close>

text \<open>
  The growth is compared as a signed number: growing the last block by 2 GB succeeds
  whatever the space left, with a free pointer beyond the end of the chunk.
\<close>

theorem lifo_expand_last_overflow:
  assumes "lifo_inv B s (f # fs)" "mk s f = m" "mem_chunks s (lm_chunks m) = Some k"
    and "lm_last_alloc m \<noteq> NULL" "\<not> lifo_is_big_block m"
    and "lm_chunks m < 2 ^ 63" "2 ^ 31 \<le> incr" "incr < 2 ^ 32 - 8"
  shows "\<exists>s'. MemLifoExpandLast s incr fix = Some (s', LRet (lm_last_alloc m) None) \<and>
     lc_end k < lm_freeptr (mk s' f)"
proof -
  obtain k' where T: "mem_marks s (lifo_top_mark s) = Some m" "fr_mark f = lifo_top_mark s"
    "mem_chunks s (lm_chunks m) = Some k'" "lm_freeptr m \<le> lc_end k'" "lm_chunks m + 16 \<le> lm_freeptr m"
    "chunk_ok (B (lifo_allocator_data s)) (lm_chunks m) k'"
    using assms(1,2) by (auto elim: lifo_inv_top)
  have kk: "k' = k" using T(3) assms(3) by simp
  have "incr + 7 < 2 ^ 64" using assms(8) by simp
  note R = ROUNDUP_bounds [OF this]
  have lt: "ROUNDUP incr < 2 ^ 32" using R(2) assms(8) by simp
  have ge: "2 ^ 31 \<le> ROUNDUP incr" using R(1) assms(7) by simp
  have D: "DWORD (ROUNDUP incr) = ROUNDUP incr" using lt by (simp add: DWORD_id)
  obtain j where j: "ROUNDUP incr = 2 ^ 31 + j" using ge nat_le_iff_add by blast
  have "int (2 ^ 31 + j) + 2 ^ 31 = int j + 2 ^ 32" by simp
  then have neg: "INT32 (int (ROUNDUP incr)) < 0" using lt unfolding INT32_def j by (simp only: mod_add_self2) simp
  have P: "PTRDIFF32 (lc_end k) (lm_freeptr m) = int (lc_end k - lm_freeptr m)"
    using T(4-6) kk by (intro PTRDIFF32_id) (auto simp: chunk_ok_def)
  let ?s = "set_mark (lifo_top_mark s) (m\<lparr>lm_freeptr := ADDPTR (lm_freeptr m) (ROUNDUP incr)\<rparr>) s"
  have "MemLifoExpandLast s incr fix = Some (?s, LRet (lm_last_alloc m) None)"
    using T assms(3-5) D neg P by (simp add: MemLifoExpandLast_def Let_def)
  moreover have "lm_freeptr m + ROUNDUP incr < 2 ^ 64"
    using T(4,6) kk assms(6) lt by (simp add: chunk_ok_def)
  then have "lc_end k < lm_freeptr (mk ?s f)"
    using T(2,4-6) kk ge by (simp add: mk_def lifo_simps ADDPTR_id chunk_ok_def)
  ultimately show ?thesis by blast
qed

definition demo_alloc :: "bump memlifo" where
  "demo_alloc = fst (the (MemLifoAlloc (demo_pool 0) 100 False))"

lemma demo_alloc_step: "MemLifoAlloc (demo_pool 0) 100 False = Some (demo_alloc, LRet 65616 None)"
  by (simp add: demo_alloc_def MemLifoAlloc_def demo_run)

lemma demo_alloc_inv: "\<exists>f. lifo_inv bump_blocks demo_alloc [f] \<and> fr_mark f = 65560"
proof -
  have "alloc_outcome bump_blocks (demo_pool 0) demo_frame [] 100 False demo_alloc (LRet 65616 None)"
    using MemLifoAlloc_ok [OF demo_pool_inv, of 0 100 False] demo_alloc_step by simp
  then show ?thesis
    using lifo_fail_cases [of "demo_pool 0"]
    by (auto simp: alloc_outcome_def alloc_failed_ok_def demo_frame_def)
qed

lemma demo_alloc_mark: "mem_marks demo_alloc 65560 = Some \<lparr>lm_lifo = 1, lm_prev = 65560,
    lm_last_alloc = 65616, lm_big_blocks = 0, lm_chunks = 65544, lm_freeptr = 65720\<rparr>"
  "mem_chunks demo_alloc 65544 = Some \<lparr>lc_prev = 0, lc_end = 73544\<rparr>"
  by (simp_all add: demo_alloc_def MemLifoAlloc_def demo_run)

theorem lifo_expand_last_overflow_witness:
  "\<exists>f s'. MemLifoExpandLast demo_alloc 0x80000000 True = Some (s', LRet 65616 None) \<and>
     73544 < lm_freeptr (mk s' f)"
proof -
  obtain f where f: "lifo_inv bump_blocks demo_alloc [f]" "fr_mark f = 65560"
    using demo_alloc_inv by blast
  let ?m = "\<lparr>lm_lifo = 1, lm_prev = 65560, lm_last_alloc = 65616, lm_big_blocks = 0,
    lm_chunks = 65544, lm_freeptr = 65720\<rparr>"
  have m: "mk demo_alloc f = ?m" using f(2) demo_alloc_mark(1) by (simp add: mk_def)
  have "\<not> lifo_is_big_block ?m" by (simp add: lifo_is_big_block_def demo_run)
  then have "\<exists>s'. MemLifoExpandLast demo_alloc 0x80000000 True = Some (s', LRet 65616 None) \<and>
     73544 < lm_freeptr (mk s' f)"
    using lifo_expand_last_overflow [OF f(1) m, where k = "\<lparr>lc_prev = 0, lc_end = 73544\<rparr>"
      and incr = "0x80000000"] demo_alloc_mark(2) by simp
  then show ?thesis by blast
qed

text \<open>
  \<open>MemLifoClose\<close> pops the bottom mark, which is its own predecessor, and then frees the
  chunk at its head: whatever else the bottom frame and the frames above it acquired is
  never given back.
\<close>

theorem lifo_close_leaks:
  assumes "lifo_inv B s fs"
  shows "\<exists>s'. MemLifoClose s = Some s' \<and> lifo_magic s' = 0 \<and>
     B (lifo_allocator_data s') = (B (lifo_allocator_data s))(hd (fr_chunks (last fs)) := None)"
proof -
  have fo: "frames_ok s fs" and h: "heap_ok B s" and bot: "lifo_bot_mark s = fr_mark (last fs)"
    using assms by (simp_all add: lifo_inv_def)
  let ?f = "last fs"
  have "frame_ok s ?f \<and> lm_prev (mk s ?f) = fr_mark ?f"
    using fo by (induction s fs rule: frames_ok.induct) auto
  then have f: "frame_ok s ?f" and prev: "lm_prev (mk s ?f) = fr_mark ?f" by simp_all
  obtain m where m: "mem_marks s (fr_mark ?f) = Some m" using f by (auto simp: frame_ok_def)
  then have mk: "mk s ?f = m" by (rule mk_mark)
  have "lm_lifo m = lifo_self s" using f mk by (simp add: frame_ok_def)
  then have "MemLifoPopMark s (lifo_bot_mark s) = Some (s\<lparr>lifo_top_mark := fr_mark ?f\<rparr>)"
    using m mk prev bot by (simp add: MemLifoPopMark_def)
  moreover have "B (lifo_freeFn s h p) = (B h)(p := None)" for h p
    using h by (simp add: heap_ok_def allocator_ok_def)
  ultimately show ?thesis
    using m mk bot frame_heads(1) [OF f] by (simp add: MemLifoClose_def call_free_def)
qed

theorem lifo_close_leaks_witness:
  "\<exists>f s'. MemLifoClose demo_pushed = Some s' \<and> lifo_magic s' = 0 \<and>
     bump_blocks (lifo_allocator_data s') =
       (bump_blocks (lifo_allocator_data demo_pushed))(hd (fr_chunks (last [f, demo_frame])) := None)"
  using demo_pushed_inv lifo_close_leaks by blast

definition last_visible :: "'h memlifo \<Rightarrow> frame \<Rightarrow> bool" where
  "last_visible s f \<longleftrightarrow> (let m = mk s f in lm_last_alloc m = NULL \<or>
     lm_chunks m \<le> lm_last_alloc m \<and>
     (lm_last_alloc m < cend (mem_chunks s) (lm_chunks m) \<or> lifo_is_big_block m))"

lemma validate_mark_ok:
  assumes f: "frame_ok s f" and h: "heap_ok B s" and v: "last_visible s f"
  shows "lifo_validate_mark s (mk s f) = Some 0"
proof -
  have ne: "fr_chunks f \<noteq> []" using f by (simp add: frame_ok_def)
  obtain k where k: "mem_chunks s (lm_chunks (mk s f)) = Some k"
    using frame_chunks_dom [OF f] hd_in_set [OF ne] frame_heads(1) [OF f] by auto
  have lifo: "lm_lifo (mk s f) = lifo_self s" and fp: "lm_freeptr (mk s f) \<le> lc_end k"
    using f k by (simp_all add: frame_ok_def cend_def)
  have eq: "lm_last_alloc (mk s f) \<ge> lc_end k \<Longrightarrow> lm_last_alloc (mk s f) \<noteq> NULL \<Longrightarrow>
      lm_big_blocks (mk s f) \<noteq> NULL \<and> lm_last_alloc (mk s f) = ADDPTR (lm_big_blocks (mk s f)) 16"
  proof -
    assume ge: "lm_last_alloc (mk s f) \<ge> lc_end k" and nz: "lm_last_alloc (mk s f) \<noteq> NULL"
    then have big: "lifo_is_big_block (mk s f)"
      using v k by (auto simp: last_visible_def Let_def cend_def)
    have "lm_big_blocks (mk s f) \<noteq> NULL"
    proof
      assume "lm_big_blocks (mk s f) = NULL"
      then have "lm_last_alloc (mk s f) = 16"
        using big by (simp add: lifo_is_big_block_def sizeof_chunk_def ADDPTR_def)
      moreover have "chunk_ok (B (lifo_allocator_data s)) (lm_chunks (mk s f)) k" by (rule heap_okD [OF h k])
      ultimately show False using ge by (simp add: chunk_ok_def)
    qed
    with big show ?thesis by (simp add: lifo_is_big_block_def sizeof_chunk_def)
  qed
  show ?thesis
  proof (cases "lm_last_alloc (mk s f) \<noteq> NULL \<and> lc_end k \<le> lm_last_alloc (mk s f)")
    case True
    then have "lm_big_blocks (mk s f) \<noteq> NULL" "lm_last_alloc (mk s f) = ADDPTR (lm_big_blocks (mk s f)) 16"
      using eq by blast+
    then show ?thesis
      using v k lifo fp True by (auto simp: lifo_validate_mark_def last_visible_def Let_def)
  next
    case False
    then show ?thesis
      using v k lifo fp by (auto simp: lifo_validate_mark_def last_visible_def Let_def)
  qed
qed

lemma validate_marks_ok:
  "frames_ok s fs \<Longrightarrow> heap_ok B s \<Longrightarrow> \<forall>f \<in> set fs. last_visible s f \<Longrightarrow>
   lifo_bot_mark s = fr_mark (last fs) \<Longrightarrow> lifo_validate_marks s (fr_mark (hd fs)) = Some 0"
proof (induction s fs rule: frames_ok.induct)
  case (2 s f)
  then obtain m where "mem_marks s (fr_mark f) = Some m" by (auto simp: frame_ok_def)
  with 2 show ?case
    using validate_mark_ok [of s f B] by (simp add: lifo_validate_marks.simps mk_mark)
next
  case (3 s f g fs)
  then obtain m where m: "mem_marks s (fr_mark f) = Some m" by (auto simp: frame_ok_def)
  have "fr_mark f \<noteq> fr_mark g" using top_mark_distinct [of s f "g # fs"] 3(2) by auto
  with 3 m show ?case
    using validate_mark_ok [of s f B] by (simp add: lifo_validate_marks.simps [of s "fr_mark f"] mk_mark frame_above_def)
qed simp

text \<open>
  \<open>MemLifoValidate\<close> accepts every well-formed pool in which each frame's last block, if it
  has one, lies above the start of the current chunk and is a big block or starts before
  the end of that chunk. (It rejects other well-formed pools: the block of a frame may be a
  big block at a lower address.)
\<close>

theorem lifo_validate_ok:
  assumes "lifo_inv B s fs" "\<forall>f \<in> set fs. last_visible s f"
  shows "MemLifoValidate True s = Some 0"
proof -
  have fo: "frames_ok s fs" and h: "heap_ok B s" and top: "lifo_top_mark s = fr_mark (hd fs)"
    and bot: "lifo_bot_mark s = fr_mark (last fs)" and ne: "fs \<noteq> []"
    using assms(1) by (auto simp: lifo_inv_def)
  have "0 < fr_mark f" if "f \<in> set fs" for f using frames_ok_each [OF fo that] by (simp add: frame_ok_def)
  then have "lifo_top_mark s \<noteq> NULL" "lifo_bot_mark s \<noteq> NULL" using top bot ne by simp_all
  then show ?thesis
    using validate_marks_ok [OF fo h assms(2) bot] assms(1) top
    by (simp add: MemLifoValidate_def lifo_inv_def)
qed

theorem lifo_validate_ok_witness: "MemLifoValidate True demo_alloc = Some 0"
proof -
  obtain f where f: "lifo_inv bump_blocks demo_alloc [f]" "fr_mark f = 65560"
    using demo_alloc_inv by blast
  then have "last_visible demo_alloc f"
    using demo_alloc_mark by (simp add: last_visible_def mk_def cend_def)
  then show ?thesis using lifo_validate_ok [OF f(1)] by simp
qed

end
