(* ===== verification/Refcount.thy ===== *)
theory Refcount
  imports Prelude
begin

text \<open>
  The reference-counting pattern of the program: a count that \<open>InterlockedExchangeAdd\<close>
  changes, and a deletion by the call that finds no more references left than it drops.
  Contexts, callbacks and directory monitors follow it; the interface below states what such
  a component promises, and its lemmas say when the object dies.
\<close>

text \<open>\<open>InterlockedExchangeAdd\<close> returns the old value.\<close>

definition ExchangeAdd :: "int \<Rightarrow> int \<Rightarrow> int \<times> int" where
  "ExchangeAdd v n = (v + n, v)"

datatype ref_op = Ref int | Unref int

fun ref_delta :: "ref_op \<Rightarrow> int" where
  "ref_delta (Ref n) = n"
| "ref_delta (Unref n) = - n"

text \<open>\<open>held c ops\<close>: the count stays positive all along \<open>ops\<close>, starting from \<open>c\<close>.\<close>

fun held :: "int \<Rightarrow> ref_op list \<Rightarrow> bool" where
  "held c [] \<longleftrightarrow> True"
| "held c (op # ops) \<longleftrightarrow> 0 < c + ref_delta op \<and> held (c + ref_delta op) ops"

locale refcounted =
  fixes live :: "'s \<Rightarrow> bool"
    and nrefs :: "'s \<Rightarrow> int"
    and deletions :: "'s \<Rightarrow> nat"
    and ref :: "int \<Rightarrow> 's \<Rightarrow> 's option"
    and unref :: "int \<Rightarrow> 's \<Rightarrow> 's option"
  assumes ref_step: "live s \<Longrightarrow> \<exists>s'. ref n s = Some s' \<and> live s' \<and> nrefs s' = nrefs s + n \<and>
      deletions s' = deletions s"
    and unref_step: "live s \<Longrightarrow> n < nrefs s \<Longrightarrow> \<exists>s'. unref n s = Some s' \<and> live s' \<and>
      nrefs s' = nrefs s - n \<and> deletions s' = deletions s"
    and unref_last: "live s \<Longrightarrow> nrefs s \<le> n \<Longrightarrow> unref n s = Some s' \<Longrightarrow>
      nrefs s' = nrefs s - n \<and> deletions s' = Suc (deletions s)"
begin

fun run :: "ref_op list \<Rightarrow> 's \<Rightarrow> 's option" where
  "run [] s = Some s"
| "run (Ref n # ops) s = Option.bind (ref n s) (run ops)"
| "run (Unref n # ops) s = Option.bind (unref n s) (run ops)"

lemma held_run:
  "live s \<Longrightarrow> held (nrefs s) ops \<Longrightarrow>
   \<exists>s'. run ops s = Some s' \<and> live s' \<and> nrefs s' = nrefs s + sum_list (map ref_delta ops) \<and>
        deletions s' = deletions s"
proof (induction ops arbitrary: s)
  case (Cons op ops)
  show ?case
  proof (cases op)
    case (Ref n)
    then obtain s1 where s1: "ref n s = Some s1" "live s1" "nrefs s1 = nrefs s + n" "deletions s1 = deletions s"
      using ref_step Cons.prems by blast
    have "held (nrefs s1) ops" using Cons.prems(2) Ref s1(3) by simp
    with Cons.IH [OF s1(2) this] s1 Ref show ?thesis by auto
  next
    case (Unref n)
    then have "n < nrefs s" using Cons.prems(2) by simp
    then obtain s1 where s1: "unref n s = Some s1" "live s1" "nrefs s1 = nrefs s - n" "deletions s1 = deletions s"
      using unref_step Cons.prems by blast
    have "held (nrefs s1) ops" using Cons.prems(2) Unref s1(3) by simp
    with Cons.IH [OF s1(2) this] s1 Unref show ?thesis by auto
  qed
qed simp

lemma last_unref_deletes:
  assumes "live s" "held (nrefs s) ops" "nrefs s + sum_list (map ref_delta ops) \<le> n"
    and "run ops s = Some s'" "unref n s' = Some s''"
  shows "deletions s'' = Suc (deletions s)"
  using held_run [OF assms(1,2)] unref_last [of s' n s''] assms(3-5) by auto

end

end
