(* ===== verification/Process.thy ===== *)
theory Process
  imports Zlist Refcount
begin

text \<open>
  The state of the process that the base module keeps (\<open>base/twapi.c\<close> and the types of
  \<open>include/twapi.h\<close>): thread-local blocks, interpreter contexts with their global list,
  module definitions, and the thread-pool registrations of each context.

  Addresses, threads, interpreters and modules are natural numbers; heaps are maps from
  addresses. An access to a missing object and a panic both end the process: the
  operation has no result (\<open>None\<close>). The lists are the intrusive lists of \<open>Zlist\<close>. A
  context is never freed by the code, only deleted, so that contexts stay in the heap; a
  counter records how many times each was deleted.
\<close>

type_synonym tid = nat
type_synonym rid = nat
type_synonym thread = nat
type_synonym interp = nat

record tls =
  tls_thread :: thread
  tls_lifo_open :: bool
  tls_ffi_held :: bool
  tls_nrefs :: int

record modul =
  mod_name :: string
  mod_finalizer :: bool
  mod_log_flags :: nat

record tic =
  tic_nrefs :: int
  tic_suspended :: bool
  tic_regs :: "rid zlist"
  tic_hmod :: nat
  tic_mod :: nat
  tic_data :: "nat option"
  tic_interp :: "interp option"
  tic_thread :: thread
  tic_lifo :: "nat option"
  tic_lock :: bool
  tic_window :: bool
  tic_deletions :: nat

record reg =
  reg_handle :: int
  reg_tp_handle :: int
  reg_tic :: "tid option"
  reg_has_unreg :: bool
  reg_id :: nat
  reg_nrefs :: nat

record proc =
  p_next :: nat
  p_slot :: "thread \<rightharpoonup> nat"
  p_tls :: "nat \<rightharpoonup> tls"
  p_tics :: "tid \<rightharpoonup> tic"
  p_ctx_links :: "tid links"
  p_ctxs :: "tid zlist"
  p_mods :: "nat \<Rightarrow> modul"
  p_base_hmod :: nat
  p_when_deleted :: "interp \<Rightarrow> tid list"
  p_ids :: nat
  p_regs :: "rid \<rightharpoonup> reg"
  p_reg_links :: "rid links"
  p_finalized :: "tid list"
  p_unreg_calls :: "(nat \<times> int) list"

definition INVALID_HANDLE_VALUE :: int where "INVALID_HANDLE_VALUE = - 1"

definition upd_tic :: "tid \<Rightarrow> tic \<Rightarrow> proc \<Rightarrow> proc" where
  "upd_tic c t p = p\<lparr>p_tics := (p_tics p)(c \<mapsto> t)\<rparr>"

definition upd_reg :: "rid \<Rightarrow> reg \<Rightarrow> proc \<Rightarrow> proc" where
  "upd_reg r x p = p\<lparr>p_regs := (p_regs p)(r \<mapsto> x)\<rparr>"

definition ctx_list :: "proc \<Rightarrow> tid zstate" where
  "ctx_list p = (p_ctx_links p, p_ctxs p)"

definition set_ctx_list :: "tid zstate \<Rightarrow> proc \<Rightarrow> proc" where
  "set_ctx_list z p = p\<lparr>p_ctx_links := fst z, p_ctxs := snd z\<rparr>"

definition reg_list :: "tic \<Rightarrow> proc \<Rightarrow> rid zstate" where
  "reg_list t p = (p_reg_links p, tic_regs t)"

definition set_reg_list :: "tid \<Rightarrow> tic \<Rightarrow> rid zstate \<Rightarrow> proc \<Rightarrow> proc" where
  "set_reg_list c t z p = upd_tic c (t\<lparr>tic_regs := snd z\<rparr>) (p\<lparr>p_reg_links := fst z\<rparr>)"

lemma upd_tic_simps [simp]:
  "p_tics (upd_tic c t p) = (p_tics p)(c \<mapsto> t)" "p_slot (upd_tic c t p) = p_slot p"
  "p_tls (upd_tic c t p) = p_tls p" "p_next (upd_tic c t p) = p_next p"
  "p_ctx_links (upd_tic c t p) = p_ctx_links p" "p_ctxs (upd_tic c t p) = p_ctxs p"
  "p_mods (upd_tic c t p) = p_mods p" "p_base_hmod (upd_tic c t p) = p_base_hmod p"
  "p_when_deleted (upd_tic c t p) = p_when_deleted p" "p_ids (upd_tic c t p) = p_ids p"
  "p_regs (upd_tic c t p) = p_regs p" "p_reg_links (upd_tic c t p) = p_reg_links p"
  "p_finalized (upd_tic c t p) = p_finalized p" "p_unreg_calls (upd_tic c t p) = p_unreg_calls p"
  by (simp_all add: upd_tic_def)

lemma upd_reg_simps [simp]:
  "p_regs (upd_reg r x p) = (p_regs p)(r \<mapsto> x)" "p_tics (upd_reg r x p) = p_tics p"
  "p_slot (upd_reg r x p) = p_slot p" "p_tls (upd_reg r x p) = p_tls p"
  "p_ctx_links (upd_reg r x p) = p_ctx_links p" "p_ctxs (upd_reg r x p) = p_ctxs p"
  "p_mods (upd_reg r x p) = p_mods p" "p_ids (upd_reg r x p) = p_ids p"
  "p_reg_links (upd_reg r x p) = p_reg_links p" "p_finalized (upd_reg r x p) = p_finalized p"
  "p_unreg_calls (upd_reg r x p) = p_unreg_calls p"
  by (simp_all add: upd_reg_def)

end
