(* ===== verification/Contexts.thy ===== *)
theory Contexts
  imports Process
begin

text \<open>
  Thread-local blocks and interpreter contexts of \<open>base/twapi.c\<close>, up to the deletion of a
  context by its last reference. The clean-up of a context when its interpreter goes away
  is in \<open>Contexts_Cleanup\<close>: it needs the thread-pool registrations.
\<close>

section \<open>Thread-local blocks\<close>

text \<open>\<open>cur\<close> is the thread that makes the call: \<open>TlsGetValue\<close> reads the slot of that thread.\<close>

definition TwapiTlsUnref :: "thread \<Rightarrow> proc \<Rightarrow> proc option" where
  "TwapiTlsUnref cur p = (case p_slot p cur of
      None \<Rightarrow> Some p
    | Some a \<Rightarrow> do {
        t \<leftarrow> p_tls p a;
        let n = tls_nrefs t - 1;
        Some (if n = 0
              then p\<lparr>p_tls := (p_tls p)(a := None), p_slot := (p_slot p)(cur := None)\<rparr>
              else p\<lparr>p_tls := (p_tls p)(a \<mapsto> t\<lparr>tls_nrefs := n\<rparr>)\<rparr>) })"

text \<open>
  \<open>set_ok\<close> and \<open>lifo_ok\<close>: whether \<open>TlsSetValue\<close> and \<open>MemLifoInit\<close> succeed. The result is
  whether the thread has a block.
\<close>

definition TwapiTlsInit :: "thread \<Rightarrow> bool \<Rightarrow> bool \<Rightarrow> proc \<Rightarrow> (proc \<times> bool) option" where
  "TwapiTlsInit cur set_ok lifo_ok p = (case p_slot p cur of
      None \<Rightarrow>
        (let a = p_next p;
             t = \<lparr>tls_thread = cur, tls_lifo_open = True, tls_ffi_held = True, tls_nrefs = 1\<rparr>
         in Some (if \<not> set_ok then (p\<lparr>p_next := Suc a\<rparr>, False)
                  else if \<not> lifo_ok
                  then (p\<lparr>p_next := Suc a, p_slot := (p_slot p)(cur \<mapsto> a)\<rparr>, False)
                  else (p\<lparr>p_next := Suc a, p_slot := (p_slot p)(cur \<mapsto> a),
                          p_tls := (p_tls p)(a \<mapsto> t)\<rparr>, True)))
    | Some a \<Rightarrow> do {
        t \<leftarrow> p_tls p a;
        Some (p\<lparr>p_tls := (p_tls p)(a \<mapsto> t\<lparr>tls_nrefs := tls_nrefs t + 1\<rparr>)\<rparr>, True) })"

text \<open>The private slots: \<open>gTlsNextSlot\<close> and the result, \<open>-1\<close> when there is none left.\<close>

definition TWAPI_TLS_SLOTS :: int where "TWAPI_TLS_SLOTS = 8"

definition Twapi_AssignTlsSubSlot :: "int \<Rightarrow> int \<times> int" where
  "Twapi_AssignTlsSubSlot next_slot =
     (let slot = next_slot + 1
      in if slot > TWAPI_TLS_SLOTS then (slot - 1, - 1) else (slot, slot - 1))"

definition Twapi_GetTls :: "thread \<Rightarrow> proc \<Rightarrow> nat option" where
  "Twapi_GetTls cur p = p_slot p cur"

definition Twapi_InterpCleanup :: "thread \<Rightarrow> proc \<Rightarrow> proc option" where
  "Twapi_InterpCleanup cur p = TwapiTlsUnref cur p"

section \<open>Contexts\<close>

definition TwapiInterpContextNew :: "thread \<Rightarrow> interp \<Rightarrow> nat \<Rightarrow> nat \<Rightarrow> tic" where
  "TwapiInterpContextNew cur itp hmod md =
     \<lparr>tic_nrefs = 0, tic_suspended = False, tic_regs = ZLIST_INIT, tic_hmod = hmod, tic_mod = md,
      tic_data = None, tic_interp = Some itp, tic_thread = cur, tic_lifo = None, tic_lock = True,
      tic_window = False, tic_deletions = 0\<rparr>"

definition TwapiInterpContextRef :: "tid \<Rightarrow> int \<Rightarrow> proc \<Rightarrow> proc option" where
  "TwapiInterpContextRef c n p = do {
     t \<leftarrow> p_tics p c;
     Some (upd_tic c (t\<lparr>tic_nrefs := fst (ExchangeAdd (tic_nrefs t) n)\<rparr>) p) }"

definition TwapiInterpContextDelete :: "thread \<Rightarrow> tid \<Rightarrow> proc \<Rightarrow> proc option" where
  "TwapiInterpContextDelete cur c p = do {
     t \<leftarrow> p_tics p c;
     TwapiTlsUnref cur
       (upd_tic c (t\<lparr>tic_lock := False, tic_window := False, tic_deletions := Suc (tic_deletions t)\<rparr>) p) }"

definition TwapiInterpContextUnref :: "thread \<Rightarrow> tid \<Rightarrow> int \<Rightarrow> proc \<Rightarrow> proc option" where
  "TwapiInterpContextUnref cur c decr p = do {
     t \<leftarrow> p_tics p c;
     let (n, old) = ExchangeAdd (tic_nrefs t) (- decr);
     let p1 = upd_tic c (t\<lparr>tic_nrefs := n\<rparr>) p;
     if old \<le> decr then TwapiInterpContextDelete cur c p1 else Some p1 }"

definition Twapi_AllocateInterpContext ::
    "thread \<Rightarrow> interp \<Rightarrow> nat \<Rightarrow> nat \<Rightarrow> proc \<Rightarrow> (proc \<times> tid) option" where
  "Twapi_AllocateInterpContext cur itp hmod md p = do {
     let c = p_next p;
     let t = TwapiInterpContextNew cur itp hmod md;
     a \<leftarrow> Twapi_GetTls cur p;
     tl \<leftarrow> p_tls p a;
     let p1 = upd_tic c (t\<lparr>tic_lifo := Some a\<rparr>)
                (p\<lparr>p_next := Suc c, p_tls := (p_tls p)(a \<mapsto> tl\<lparr>tls_nrefs := tls_nrefs tl + 1\<rparr>)\<rparr>);
     p2 \<leftarrow> TwapiInterpContextRef c (1 + 1) p1;
     z \<leftarrow> (if hmod = p_base_hmod p2 then ZLIST_PREPEND c (ctx_list p2)
           else ZLIST_APPEND c (ctx_list p2));
     let p3 = set_ctx_list z p2;
     Some (p3\<lparr>p_when_deleted := (p_when_deleted p3)(itp := c # p_when_deleted p3 itp)\<rparr>, c) }"

text \<open>The comparison of \<open>TwapiGetBaseContext\<close>: zero on a match, as \<open>ZLIST_FIND\<close> wants it.\<close>

definition base_ctx_cmp :: "proc \<Rightarrow> interp \<Rightarrow> tid \<Rightarrow> int" where
  "base_ctx_cmp p itp c = (case p_tics p c of
      None \<Rightarrow> 1
    | Some t \<Rightarrow> if tic_interp t \<noteq> Some itp \<or> mod_name (p_mods p (tic_mod t)) \<noteq> ''twapi_base''
               then 1 else 0)"

definition TwapiGetBaseContext :: "interp \<Rightarrow> proc \<Rightarrow> tid ptr option" where
  "TwapiGetBaseContext itp p = ZLIST_FIND (base_ctx_cmp p itp) (ctx_list p)"

text \<open>\<open>gIdGenerator\<close> is a 64-bit counter.\<close>

definition Twapi_NewId :: "proc \<Rightarrow> proc \<times> nat" where
  "Twapi_NewId p = (let i = (p_ids p + 1) mod 2 ^ 64 in (p\<lparr>p_ids := i\<rparr>, i))"

section \<open>Initialisation of the module\<close>

text \<open>
  \<open>TwapiOneTimeInit\<close> depends on what the system answers: whether there is a TLS index, the
  version of Tcl it runs on, and whether the Windows version and the socket library are
  there. \<open>built\<close> is the version of Tcl it was built against.
\<close>

definition TWAPI_TCL_MAJOR :: nat where "TWAPI_TCL_MAJOR = 8"

definition TWAPI_MIN_TCL_MINOR :: nat where "TWAPI_MIN_TCL_MINOR = 5"

definition TwapiOneTimeInit ::
    "bool \<Rightarrow> nat \<times> nat \<Rightarrow> nat \<times> nat \<Rightarrow> bool \<Rightarrow> bool \<Rightarrow> proc \<Rightarrow> proc \<times> bool" where
  "TwapiOneTimeInit tls_ok running built os_ok wsa_ok p =
     (if \<not> tls_ok then (p, False)
      else
        let p1 = p\<lparr>p_ctxs := ZLIST_INIT\<rparr>
        in if fst running < fst built \<or> fst running = fst built \<and> snd running < snd built
           then (p1, False)
           else (p1, fst running = TWAPI_TCL_MAJOR \<and> TWAPI_MIN_TCL_MINOR \<le> snd running \<and> os_ok \<and> wsa_ok))"

end
