(* ===== verification/Threadpool.thy ===== *)
theory Threadpool
  imports Contexts Machine
begin

text \<open>
  The handles a context has registered with the Windows thread pool (\<open>base/threadpool.c\<close>).

  A registration is on the list of its context and, while the pool knows it, referenced from
  there too: one reference each. \<open>TwapiAlloc\<close> does not clear memory and the code does not
  initialise the counter: \<open>junk\<close> is what it contains. \<open>RegisterWaitForSingleObject\<close> is a
  parameter (the flags give the pool's handle, or nothing). The handlers are code of the
  caller; calls of the unregistration handler are logged.
\<close>

section \<open>Operations\<close>

definition TwapiThreadPoolRegistrationRef :: "rid \<Rightarrow> nat \<Rightarrow> proc \<Rightarrow> proc option" where
  "TwapiThreadPoolRegistrationRef r incr p = do {
     x \<leftarrow> p_regs p r;
     Some (upd_reg r (x\<lparr>reg_nrefs := DWORD (reg_nrefs x + incr)\<rparr>) p) }"

definition TwapiThreadPoolRegistrationUnref :: "rid \<Rightarrow> nat \<Rightarrow> proc \<Rightarrow> proc option" where
  "TwapiThreadPoolRegistrationUnref r unrefs p = do {
     x \<leftarrow> p_regs p r;
     let n = UDWORD (int (reg_nrefs x) - int unrefs);
     Some (if n \<le> 0 then p\<lparr>p_regs := (p_regs p)(r := None)\<rparr>
           else upd_reg r (x\<lparr>reg_nrefs := n\<rparr>) p) }"

definition TwapiThreadPoolRegistrationShutdown :: "thread \<Rightarrow> rid \<Rightarrow> proc \<Rightarrow> proc option" where
  "TwapiThreadPoolRegistrationShutdown cur r p = do {
     x \<leftarrow> p_regs p r;
     let unrefs = (if reg_tp_handle x \<noteq> INVALID_HANDLE_VALUE then 1 else 0);
     let p1 = (if reg_has_unreg x \<and> reg_handle x \<noteq> INVALID_HANDLE_VALUE
               then p\<lparr>p_unreg_calls := p_unreg_calls p @ [(reg_id x, reg_handle x)]\<rparr> else p);
     let x1 = x\<lparr>reg_handle := INVALID_HANDLE_VALUE, reg_tp_handle := INVALID_HANDLE_VALUE\<rparr>;
     let p2 = upd_reg r x1 p1;
     (p3, unrefs') \<leftarrow> (case reg_tic x of
         None \<Rightarrow> Some (p2, unrefs)
       | Some c \<Rightarrow> do {
           t \<leftarrow> p_tics p2 c;
           p' \<leftarrow> TwapiInterpContextUnref cur c 1
                    (set_reg_list c t (ZLIST_REMOVE r (reg_list t p2)) p2);
           Some (upd_reg r (x1\<lparr>reg_tic := None\<rparr>) p', unrefs + 1) });
     if unrefs' \<noteq> 0 then TwapiThreadPoolRegistrationUnref r unrefs' p3 else Some p3 }"

definition WT_EXECUTEONLYONCE :: nat where "WT_EXECUTEONLYONCE = 8"

definition WT_EXECUTEDEFAULT :: nat where "WT_EXECUTEDEFAULT = 0"

definition TwapiThreadPoolRegister ::
    "(nat \<Rightarrow> int option) \<Rightarrow> nat \<Rightarrow> int \<Rightarrow> thread \<Rightarrow> tid \<Rightarrow> int \<Rightarrow> nat \<Rightarrow> bool \<Rightarrow> proc \<Rightarrow>
     (proc \<times> nat option) option" where
  "TwapiThreadPoolRegister register_wait junk junk_tp cur c h flags0 has_unreg p = do {
     let r = p_next p;
     let (p1, i) = Twapi_NewId (p\<lparr>p_next := Suc r\<rparr>);
     let x = \<lparr>reg_handle = h, reg_tp_handle = junk_tp, reg_tic = None, reg_has_unreg = has_unreg,
              reg_id = i, reg_nrefs = junk\<rparr>;
     let flags = (flags0 AND WT_EXECUTEONLYONCE) OR WT_EXECUTEDEFAULT;
     t \<leftarrow> p_tics p1 c;
     z \<leftarrow> ZLIST_PREPEND r (reg_list t p1);
     let p2 = upd_reg r (x\<lparr>reg_tic := Some c\<rparr>) (set_reg_list c t z p1);
     p3 \<leftarrow> TwapiInterpContextRef c 1 p2;
     p4 \<leftarrow> TwapiThreadPoolRegistrationRef r 2 p3;
     x4 \<leftarrow> p_regs p4 r;
     (case register_wait flags of
        Some tp \<Rightarrow> Some (upd_reg r (x4\<lparr>reg_tp_handle := tp\<rparr>) p4, Some i)
      | None \<Rightarrow> do {
          let p5 = upd_reg r (x4\<lparr>reg_tp_handle := INVALID_HANDLE_VALUE\<rparr>) p4;
          p6 \<leftarrow> TwapiThreadPoolRegistrationUnref r 1 p5;
          p7 \<leftarrow> TwapiThreadPoolRegistrationShutdown cur r p6;
          Some (p7, None) }) }"

text \<open>The field \<open>id\<close> of a registration, as \<open>ZLIST_LOCATE\<close> compares it.\<close>

definition reg_id_of :: "proc \<Rightarrow> rid \<Rightarrow> nat option" where
  "reg_id_of p r = map_option reg_id (p_regs p r)"

definition locate_reg :: "tid \<Rightarrow> nat \<Rightarrow> proc \<Rightarrow> rid ptr option" where
  "locate_reg c i p = do {
     t \<leftarrow> p_tics p c;
     ZLIST_LOCATE (reg_id_of p) (Some i) (reg_list t p) }"

definition TwapiThreadPoolUnregister :: "thread \<Rightarrow> tid \<Rightarrow> nat \<Rightarrow> proc \<Rightarrow> proc option" where
  "TwapiThreadPoolUnregister cur c i p = do {
     f \<leftarrow> locate_reg c i p;
     (case f of
        None \<Rightarrow> Some p
      | Some r \<Rightarrow> TwapiThreadPoolRegistrationShutdown cur r p) }"

text \<open>
  When the handle is signalled the pool's thread queues a callback that carries the id, not
  the registration; the interpreter's thread looks the id up when the callback runs.
  \<open>deleted\<close>: \<open>Tcl_InterpDeleted\<close>.
\<close>

definition TwapiThreadPoolRegistrationProc :: "rid \<Rightarrow> bool \<Rightarrow> proc \<Rightarrow> (tid \<times> nat \<times> nat) option" where
  "TwapiThreadPoolRegistrationProc r timer_fired p = do {
     x \<leftarrow> p_regs p r;
     c \<leftarrow> reg_tic x;
     Some (c, reg_id x, if timer_fired then 1 else 0) }"

datatype signal = SigError | SigStale | SigCall tid nat int nat

definition TwapiThreadPoolRegistrationCallback ::
    "bool \<Rightarrow> tid \<Rightarrow> nat \<Rightarrow> nat \<Rightarrow> proc \<Rightarrow> signal option" where
  "TwapiThreadPoolRegistrationCallback deleted c i data2 p = do {
     t \<leftarrow> p_tics p c;
     if tic_interp t = None \<or> deleted then Some SigError
     else do {
       f \<leftarrow> locate_reg c i p;
       (case f of
          None \<Rightarrow> Some SigStale
        | Some r \<Rightarrow> do { x \<leftarrow> p_regs p r; Some (SigCall c i (reg_handle x) data2) }) } }"

text \<open>The command a signalled handle evaluates.\<close>

datatype wait_word = WWord string | WId nat | WHandle int

definition TwapiCallRegisteredWaitScript :: "nat \<Rightarrow> int \<Rightarrow> nat \<Rightarrow> wait_word list" where
  "TwapiCallRegisteredWaitScript i h timeout =
     [WWord ''::twapi::_wait_handler'', WId i, WHandle h,
      if timeout \<noteq> 0 then WWord ''timeout'' else WWord ''signalled'']"

text \<open>The loop of \<open>Twapi_InterpContextCleanup\<close> over the registrations.\<close>

partial_function (option) shutdown_regs :: "thread \<Rightarrow> tid \<Rightarrow> proc \<Rightarrow> proc option" where
  "shutdown_regs cur c p = do {
     t \<leftarrow> p_tics p c;
     (case zlist_head (tic_regs t) of
        None \<Rightarrow> Some p
      | Some r \<Rightarrow> do {
          p' \<leftarrow> TwapiThreadPoolRegistrationShutdown cur r p;
          shutdown_regs cur c p' }) }"

section \<open>Invariant\<close>

definition reg_good :: "proc \<Rightarrow> tid \<Rightarrow> rid \<Rightarrow> bool" where
  "reg_good p c r \<longleftrightarrow> (case p_regs p r of None \<Rightarrow> False | Some x \<Rightarrow> reg_tic x = Some c)"

text \<open>
  What its shutdown leaves of a registration: the references of the list and of the pool are
  subtracted from the counter, and the block is freed only if nothing is left. What is left is
  what the counter held when the block was allocated.
\<close>

definition reg_left :: "reg \<Rightarrow> nat" where
  "reg_left x = UDWORD (int (reg_nrefs x) - (if reg_tp_handle x \<noteq> INVALID_HANDLE_VALUE then 2 else 1))"

definition reg_after :: "reg \<Rightarrow> reg option" where
  "reg_after x = (if reg_left x = 0 then None
     else Some (x\<lparr>reg_handle := INVALID_HANDLE_VALUE, reg_tp_handle := INVALID_HANDLE_VALUE,
                  reg_tic := None, reg_nrefs := reg_left x\<rparr>))"

text \<open>
  \<open>regs_ok p c rs k\<close>: the registrations of context \<open>c\<close> are \<open>rs\<close>, each with the context
  as its own, whatever its counter, and the context holds one reference for each of them and \<open>k\<close> others.
\<close>

definition regs_ok :: "proc \<Rightarrow> tid \<Rightarrow> rid list \<Rightarrow> int \<Rightarrow> bool" where
  "regs_ok p c rs k \<longleftrightarrow> (case p_tics p c of
      None \<Rightarrow> False
    | Some t \<Rightarrow> zl_rep (reg_list t p) rs \<and> tic_nrefs t = k + int (length rs) \<and>
        (\<forall>r \<in> set rs. reg_good p c r) \<and> distinct (map (reg_id_of p) rs))"

lemma regs_okE:
  assumes "regs_ok p c rs k"
  obtains t where "p_tics p c = Some t" "zl_rep (reg_list t p) rs" "tic_nrefs t = k + int (length rs)"
    "\<forall>r \<in> set rs. reg_good p c r" "distinct (map (reg_id_of p) rs)"
  using assms by (auto simp: regs_ok_def split: option.splits)

lemma UDWORD_sub: "n \<le> m \<Longrightarrow> m < 2 ^ 32 \<Longrightarrow> UDWORD (int m - int n) = m - n"
  by (simp add: UDWORD_id)

text \<open>What a shutdown leaves alone.\<close>

definition only_reg_gone :: "tid \<Rightarrow> rid \<Rightarrow> proc \<Rightarrow> proc \<Rightarrow> bool" where
  "only_reg_gone c r p p' \<longleftrightarrow> p_regs p' = (p_regs p)(r := Option.bind (p_regs p r) reg_after) \<and>
     (\<forall>d. d \<noteq> c \<longrightarrow> p_tics p' d = p_tics p d) \<and> p_slot p' = p_slot p \<and> p_tls p' = p_tls p \<and>
     p_ctx_links p' = p_ctx_links p \<and> p_ctxs p' = p_ctxs p \<and> p_mods p' = p_mods p \<and>
     p_ids p' = p_ids p \<and> p_finalized p' = p_finalized p \<and>
     (\<forall>t t'. p_tics p c = Some t \<longrightarrow> p_tics p' c = Some t' \<longrightarrow>
        t' = t\<lparr>tic_nrefs := tic_nrefs t - 1, tic_regs := tic_regs t'\<rparr>)"

lemma shutdown_ok:
  assumes inv: "regs_ok p c rs k" and r: "r \<in> set rs" and k: "0 < k"
  shows "\<exists>p' x. TwapiThreadPoolRegistrationShutdown cur r p = Some p' \<and> regs_ok p' c (remove1 r rs) k \<and>
     only_reg_gone c r p p' \<and> p_regs p r = Some x \<and>
     p_unreg_calls p' = p_unreg_calls p @
       (if reg_has_unreg x \<and> reg_handle x \<noteq> INVALID_HANDLE_VALUE then [(reg_id x, reg_handle x)] else [])"
proof -
  from inv obtain t where T: "p_tics p c = Some t" "zl_rep (reg_list t p) rs"
    "tic_nrefs t = k + int (length rs)" "\<forall>r \<in> set rs. reg_good p c r" "distinct (map (reg_id_of p) rs)"
    by (rule regs_okE)
  from T(4) r obtain x where x: "p_regs p r = Some x" "reg_tic x = Some c"
    by (auto simp: reg_good_def split: option.splits)
  define z where "z = ZLIST_REMOVE r (reg_list t p)"
  have z: "zl_rep z (remove1 r rs)" unfolding z_def by (rule zl.remove_rep [OF T(2) r])
  define calls where "calls = p_unreg_calls p @
    (if reg_has_unreg x \<and> reg_handle x \<noteq> INVALID_HANDLE_VALUE then [(reg_id x, reg_handle x)] else [])"
  let ?t = "t\<lparr>tic_regs := snd z, tic_nrefs := tic_nrefs t - 1\<rparr>"
  let ?p = "p\<lparr>p_unreg_calls := calls, p_reg_links := fst z, p_tics := (p_tics p)(c \<mapsto> ?t),
      p_regs := (p_regs p)(r := reg_after x)\<rparr>"
  have len: "0 < length rs" using r by (cases rs) auto
  have old: "\<not> tic_nrefs t \<le> 1" using T(3) k len by linarith
  have code: "TwapiThreadPoolRegistrationShutdown cur r p = Some ?p"
    using x T(1) old
    by (auto simp: TwapiThreadPoolRegistrationShutdown_def TwapiThreadPoolRegistrationUnref_def
        TwapiInterpContextUnref_def ExchangeAdd_def Let_def reg_list_def set_reg_list_def upd_tic_def
        upd_reg_def z_def calls_def reg_after_def reg_left_def)
  then obtain P where code: "TwapiThreadPoolRegistrationShutdown cur r p = Some P" and P: "P = ?p"
    by blast
  have d: "distinct rs" using T(2) by (simp add: zl_rep_def)
  have gone: "r \<notin> set (remove1 r rs)" using d by simp
  have sub: "set (remove1 r rs) \<subseteq> set rs" by (rule set_remove1_subset)
  have ids: "map (reg_id_of P) (remove1 r rs) = map (reg_id_of p) (remove1 r rs)"
    using gone by (auto simp: reg_id_of_def P)
  have "distinct (map (reg_id_of P) (remove1 r rs))"
    unfolding ids using T(5) sub by (auto simp: distinct_map distinct_remove1 intro: inj_on_subset)
  moreover have "\<forall>q \<in> set (remove1 r rs). reg_good P c q"
  proof (intro ballI)
    fix q assume "q \<in> set (remove1 r rs)"
    then have "q \<noteq> r" "reg_good p c q" using gone sub T(4) by auto
    then show "reg_good P c q" by (simp add: reg_good_def P)
  qed
  moreover have "int (length (remove1 r rs)) = int (length rs) - 1"
    using r len unfolding length_remove1 by (simp only: if_True)
  moreover have "p_tics P c = Some ?t" "p_reg_links P = fst z" by (simp_all add: P)
  ultimately have "regs_ok P c (remove1 r rs) k"
    using z T(3) by (simp add: regs_ok_def reg_list_def)
  moreover have "only_reg_gone c r p P" using T(1) x(1) by (simp add: only_reg_gone_def P)
  moreover have "p_unreg_calls P = calls" by (simp add: P)
  ultimately show ?thesis using code x(1) by (auto simp: calls_def)
qed

lemma shutdown_regs_ok:
  "regs_ok p c rs k \<Longrightarrow> 0 < k \<Longrightarrow>
   \<exists>p'. shutdown_regs cur c p = Some p' \<and> regs_ok p' c [] k \<and>
     p_regs p' = (\<lambda>r. if r \<in> set rs then Option.bind (p_regs p r) reg_after else p_regs p r) \<and>
     p_slot p' = p_slot p \<and> p_tls p' = p_tls p \<and> p_finalized p' = p_finalized p \<and>
     p_ctx_links p' = p_ctx_links p \<and> p_ctxs p' = p_ctxs p \<and> p_mods p' = p_mods p \<and>
     (\<forall>t. p_tics p c = Some t \<longrightarrow> (\<exists>z. p_tics p' c = Some (t\<lparr>tic_nrefs := k, tic_regs := z\<rparr>))) \<and>
     (\<forall>d. d \<noteq> c \<longrightarrow> p_tics p' d = p_tics p d)"
proof (induction rs arbitrary: p)
  case Nil
  from Nil(1) obtain t where T: "p_tics p c = Some t" "zl_rep (reg_list t p) []" "tic_nrefs t = k"
    by (auto elim: regs_okE)
  then have "zlist_head (tic_regs t) = None" by (simp add: zl_rep_def reg_list_def)
  with T Nil show ?case by (auto simp: shutdown_regs.simps [of cur c p] intro!: exI [of _ "tic_regs t"])
next
  case (Cons r rs)
  from Cons.prems(1) obtain t where T: "p_tics p c = Some t" "zl_rep (reg_list t p) (r # rs)"
    by (rule regs_okE)
  then have hd: "zlist_head (tic_regs t) = Some r" by (simp add: zl_rep_def reg_list_def)
  obtain p1 where p1: "TwapiThreadPoolRegistrationShutdown cur r p = Some p1"
    "regs_ok p1 c rs k" "only_reg_gone c r p p1"
    using shutdown_ok [OF Cons.prems(1) _ Cons.prems(2), of r cur] by auto
  from Cons.IH [OF p1(2) Cons.prems(2)] obtain p2 where p2: "shutdown_regs cur c p1 = Some p2"
    "regs_ok p2 c [] k" "p_regs p2 = (\<lambda>q. if q \<in> set rs then Option.bind (p_regs p1 q) reg_after else p_regs p1 q)"
    "p_slot p2 = p_slot p1" "p_tls p2 = p_tls p1" "p_finalized p2 = p_finalized p1"
    "p_ctx_links p2 = p_ctx_links p1" "p_ctxs p2 = p_ctxs p1" "p_mods p2 = p_mods p1"
    "\<forall>t. p_tics p1 c = Some t \<longrightarrow> (\<exists>z. p_tics p2 c = Some (t\<lparr>tic_nrefs := k, tic_regs := z\<rparr>))"
    "\<forall>d. d \<noteq> c \<longrightarrow> p_tics p2 d = p_tics p1 d"
    by blast
  from p1(2) obtain t1 where t1: "p_tics p1 c = Some t1" by (rule regs_okE)
  then have t1': "t1 = t\<lparr>tic_nrefs := tic_nrefs t - 1, tic_regs := tic_regs t1\<rparr>"
    using p1(3) T(1) by (simp add: only_reg_gone_def)
  from p2(10) t1 obtain zz where "p_tics p2 c = Some (t1\<lparr>tic_nrefs := k, tic_regs := zz\<rparr>)" by blast
  then have "p_tics p2 c = Some (t\<lparr>tic_nrefs := k, tic_regs := zz\<rparr>)" by (subst (asm) t1') simp
  moreover have "r \<notin> set rs" using T(2) by (simp add: zl_rep_def)
  then have "p_regs p2 = (\<lambda>q. if q \<in> set (r # rs) then Option.bind (p_regs p q) reg_after else p_regs p q)"
    using p2(3) p1(3) by (auto simp: only_reg_gone_def fun_eq_iff)
  moreover have "shutdown_regs cur c p = Some p2"
    using T(1) hd p1(1) p2(1) by (simp add: shutdown_regs.simps [of cur c p])
  ultimately show ?case using p2 p1(3) T(1) by (simp add: only_reg_gone_def) blast
qed

end
