(* ===== verification/Contexts_Cleanup.thy ===== *)
theory Contexts_Cleanup
  imports Threadpool
begin

text \<open>
  The end of an interpreter context, the registration of modules and the properties of
  contexts and thread-pool registrations.
\<close>

section \<open>Operations\<close>

definition ctx_cmp :: "tid \<Rightarrow> tid \<Rightarrow> int" where
  "ctx_cmp c x = (if x \<noteq> c then 1 else 0)"

text \<open>
  The finalizer is a field of the module definition, which all interpreters share. Its code is
  that of the module (\<open>TwapiStorageCleanup\<close>, \<open>TwapiConsoleCleanup\<close> and others) and changes the
  process: \<open>fin md c\<close> is the finalizer of module \<open>md\<close> called for context \<open>c\<close>.
\<close>

type_synonym finalizers = "nat \<Rightarrow> tid \<Rightarrow> proc \<Rightarrow> proc option"

definition run_finalizer :: "finalizers \<Rightarrow> tid \<Rightarrow> tic \<Rightarrow> proc \<Rightarrow> proc option" where
  "run_finalizer fin c t p =
     (if mod_finalizer (p_mods p (tic_mod t))
      then do {
        p1 \<leftarrow> fin (tic_mod t) c (p\<lparr>p_finalized := p_finalized p @ [c]\<rparr>);
        Some (p1\<lparr>p_mods := (p_mods p1)(tic_mod t := (p_mods p1 (tic_mod t))\<lparr>mod_finalizer := False\<rparr>)\<rparr>) }
      else Some p)"

definition Twapi_InterpContextCleanup :: "finalizers \<Rightarrow> thread \<Rightarrow> tid \<Rightarrow> proc \<Rightarrow> proc option" where
  "Twapi_InterpContextCleanup fin cur c p = do {
     t0 \<leftarrow> p_tics p c;
     p1 \<leftarrow> run_finalizer fin c t0 p;
     f \<leftarrow> ZLIST_FIND (ctx_cmp c) (ctx_list p1);
     (case f of
        None \<Rightarrow> None
      | Some _ \<Rightarrow> do {
          t \<leftarrow> p_tics p1 c;
          let p2 = set_ctx_list (ZLIST_REMOVE c (ctx_list p1)) p1;
          let p3 = upd_tic c (t\<lparr>tic_interp := None, tic_suspended := True\<rparr>) p2;
          p4 \<leftarrow> shutdown_regs cur c p3;
          TwapiInterpContextUnref cur c (1 + 1) p4 }) }"

text \<open>
  What the finalizers of the library do to the process: drop references of the context, one
  for each monitor or notifier that they shut down.
\<close>

fun drop_refs :: "thread \<Rightarrow> tid \<Rightarrow> nat \<Rightarrow> proc \<Rightarrow> proc option" where
  "drop_refs cur c 0 p = Some p"
| "drop_refs cur c (Suc n) p = do { p' \<leftarrow> TwapiInterpContextUnref cur c 1 p; drop_refs cur c n p' }"

text \<open>
  \<open>TwapiRegisterModule\<close>: \<open>init_ok\<close> says whether the initialiser of the module, its script and
  the package registration succeed, \<open>log_var\<close> is the value of the trace variable if it is set
  to a number.
\<close>

definition DEFAULT_TIC :: int where "DEFAULT_TIC = 0"

definition TwapiRegisterModule ::
    "thread \<Rightarrow> interp \<Rightarrow> nat \<Rightarrow> nat \<Rightarrow> int \<Rightarrow> bool \<Rightarrow> nat option \<Rightarrow> proc \<Rightarrow> (proc \<times> tid ptr) option" where
  "TwapiRegisterModule cur itp hmod md context_type init_ok log_var p = do {
     (p1, c) \<leftarrow>
       (if context_type \<noteq> DEFAULT_TIC
        then do { (p', c) \<leftarrow> Twapi_AllocateInterpContext cur itp hmod md p; Some (p', Some c) }
        else do { f \<leftarrow> TwapiGetBaseContext itp p; Some (p, f) });
     if \<not> init_ok
     then (if context_type \<noteq> 0
           then do { c' \<leftarrow> c; p2 \<leftarrow> TwapiInterpContextUnref cur c' 1 p1; Some (p2, None) }
           else Some (p1, None))
     else Some (case log_var of
           None \<Rightarrow> p1
         | Some v \<Rightarrow> p1\<lparr>p_mods := (p_mods p1)(md := (p_mods p1 md)\<lparr>mod_log_flags := v\<rparr>)\<rparr>, c) }"

section \<open>Reference counting of contexts\<close>

definition ctx_refs :: "tid \<Rightarrow> proc \<Rightarrow> int" where
  "ctx_refs c p = (case p_tics p c of None \<Rightarrow> 0 | Some t \<Rightarrow> tic_nrefs t)"

definition ctx_deletions :: "tid \<Rightarrow> proc \<Rightarrow> nat" where
  "ctx_deletions c p = (case p_tics p c of None \<Rightarrow> 0 | Some t \<Rightarrow> tic_deletions t)"

lemma TlsUnref_tics: "TwapiTlsUnref cur p = Some p' \<Longrightarrow> p_tics p' = p_tics p"
  by (auto simp: TwapiTlsUnref_def Let_def split: option.splits bind_splits if_splits)

interpretation ctx: refcounted "\<lambda>p. p_tics p c \<noteq> None" "ctx_refs c" "ctx_deletions c"
    "TwapiInterpContextRef c" "TwapiInterpContextUnref cur c"
proof
  fix p :: proc and n :: int
  assume "p_tics p c \<noteq> None"
  then show "\<exists>p'. TwapiInterpContextRef c n p = Some p' \<and> p_tics p' c \<noteq> None \<and>
      ctx_refs c p' = ctx_refs c p + n \<and> ctx_deletions c p' = ctx_deletions c p"
    by (auto simp: TwapiInterpContextRef_def ExchangeAdd_def ctx_refs_def ctx_deletions_def)
next
  fix p :: proc and n :: int
  assume "p_tics p c \<noteq> None" "n < ctx_refs c p"
  then show "\<exists>p'. TwapiInterpContextUnref cur c n p = Some p' \<and> p_tics p' c \<noteq> None \<and>
      ctx_refs c p' = ctx_refs c p - n \<and> ctx_deletions c p' = ctx_deletions c p"
    by (auto simp: TwapiInterpContextUnref_def ExchangeAdd_def ctx_refs_def ctx_deletions_def Let_def)
next
  fix p p' :: proc and n :: int
  assume "p_tics p c \<noteq> None" "ctx_refs c p \<le> n" "TwapiInterpContextUnref cur c n p = Some p'"
  then show "ctx_refs c p' = ctx_refs c p - n \<and> ctx_deletions c p' = Suc (ctx_deletions c p)"
    by (auto simp: TwapiInterpContextUnref_def TwapiInterpContextDelete_def ExchangeAdd_def
        ctx_refs_def ctx_deletions_def Let_def dest!: TlsUnref_tics)
qed

section \<open>The clean-up\<close>

text \<open>The thread's slot is empty or leads to a live block.\<close>

definition tls_ok :: "thread \<Rightarrow> proc \<Rightarrow> bool" where
  "tls_ok cur p \<longleftrightarrow> (\<forall>a. p_slot p cur = Some a \<longrightarrow> p_tls p a \<noteq> None)"

lemma TlsUnref_total: "tls_ok cur p \<Longrightarrow> \<exists>p'. TwapiTlsUnref cur p = Some p'"
  by (auto simp: tls_ok_def TwapiTlsUnref_def Let_def split: option.splits)

lemma TlsUnref_keeps:
  "TwapiTlsUnref cur p = Some p' \<Longrightarrow> p_ctx_links p' = p_ctx_links p \<and> p_ctxs p' = p_ctxs p \<and>
     p_regs p' = p_regs p \<and> p_mods p' = p_mods p \<and> p_finalized p' = p_finalized p \<and>
     p_reg_links p' = p_reg_links p"
  by (auto simp: TwapiTlsUnref_def Let_def split: option.splits bind_splits if_splits)

lemma Unref_keeps:
  "TwapiInterpContextUnref cur c n p = Some p' \<Longrightarrow> p_ctx_links p' = p_ctx_links p \<and> p_ctxs p' = p_ctxs p \<and>
     p_regs p' = p_regs p \<and> p_mods p' = p_mods p \<and> p_finalized p' = p_finalized p \<and>
     p_reg_links p' = p_reg_links p"
  by (auto simp: TwapiInterpContextUnref_def TwapiInterpContextDelete_def Let_def
      dest!: TlsUnref_keeps split: bind_splits if_splits prod.splits)

lemma Unref_others: "TwapiInterpContextUnref cur c n p = Some p' \<Longrightarrow> y \<noteq> c \<Longrightarrow> p_tics p' y = p_tics p y"
  by (auto simp: TwapiInterpContextUnref_def TwapiInterpContextDelete_def Let_def
      dest!: TlsUnref_tics split: bind_splits if_splits prod.splits)

lemma Unref_total:
  assumes "p_tics p c \<noteq> None" "tls_ok cur p"
  shows "\<exists>p'. TwapiInterpContextUnref cur c n p = Some p'"
proof -
  have "tls_ok cur (upd_tic c t' (upd_tic c t p))" for t t' using assms(2) by (simp add: tls_ok_def)
  then show ?thesis
    using assms(1) TlsUnref_total
    by (fastforce simp: TwapiInterpContextUnref_def TwapiInterpContextDelete_def Let_def split: prod.splits)
qed

lemma Unref_effect:
  assumes "p_tics p c = Some t" "tls_ok cur p"
  shows "\<exists>p' t'. TwapiInterpContextUnref cur c n p = Some p' \<and> p_tics p' c = Some t' \<and>
     tic_nrefs t' = tic_nrefs t - n \<and> tic_interp t' = tic_interp t \<and> tic_regs t' = tic_regs t \<and>
     tic_deletions t' = tic_deletions t + (if tic_nrefs t \<le> n then 1 else 0)"
proof -
  obtain p' where p': "TwapiInterpContextUnref cur c n p = Some p'"
    using Unref_total [of p c cur n] assms by auto
  then show ?thesis
    using assms(1)
    by (auto simp: TwapiInterpContextUnref_def TwapiInterpContextDelete_def ExchangeAdd_def Let_def
        dest!: TlsUnref_tics split: if_splits)
qed

lemma find_ctx_cmp: "c \<in> set cs \<Longrightarrow> find (\<lambda>x. ctx_cmp c x = 0) cs = Some c"
proof -
  have "(\<lambda>x. ctx_cmp c x = 0) = (\<lambda>x. x = c)" by (auto simp: ctx_cmp_def)
  then show "c \<in> set cs \<Longrightarrow> ?thesis" by (induction cs) auto
qed

lemma drop_refs_code:
  "p_tics p c = Some t \<Longrightarrow> int n < tic_nrefs t \<Longrightarrow>
   drop_refs cur c n p = Some (if n = 0 then p else upd_tic c (t\<lparr>tic_nrefs := tic_nrefs t - int n\<rparr>) p)"
proof (induction n arbitrary: p t)
  case (Suc n)
  let ?t = "t\<lparr>tic_nrefs := tic_nrefs t - 1\<rparr>"
  have "TwapiInterpContextUnref cur c 1 p = Some (upd_tic c ?t p)"
    using Suc.prems by (simp add: TwapiInterpContextUnref_def ExchangeAdd_def)
  with Suc.IH [of "upd_tic c ?t p" ?t] Suc.prems show ?case by (simp add: upd_tic_def algebra_simps)
qed simp

text \<open>The references that the finalizer of the context's module drops: none if it was cleared.\<close>

definition fin_drops :: "proc \<Rightarrow> tic \<Rightarrow> nat \<Rightarrow> nat" where
  "fin_drops p t d = (if mod_finalizer (p_mods p (tic_mod t)) then d else 0)"

lemma run_finalizer_ok:
  assumes t: "p_tics p c = Some t" and fin: "\<And>q. fin (tic_mod t) c q = drop_refs cur c d q"
    and regs: "regs_ok p c rs k" "int (fin_drops p t d) < k" and tls: "tls_ok cur p"
  shows "\<exists>p1 t1. run_finalizer fin c t p = Some p1 \<and> p_tics p1 c = Some t1 \<and> regs_ok p1 c rs (k - int (fin_drops p t d)) \<and>
     ctx_list p1 = ctx_list p \<and> tls_ok cur p1 \<and> p_regs p1 = p_regs p \<and> tic_deletions t1 = tic_deletions t \<and>
     \<not> mod_finalizer (p_mods p1 (tic_mod t)) \<and> (\<forall>m. mod_name (p_mods p1 m) = mod_name (p_mods p m)) \<and>
     (\<forall>y. y \<noteq> c \<longrightarrow> p_tics p1 y = p_tics p y)"
proof (cases "mod_finalizer (p_mods p (tic_mod t))")
  case False
  with assms show ?thesis by (simp add: run_finalizer_def fin_drops_def)
next
  case True
  let ?q = "p\<lparr>p_finalized := p_finalized p @ [c]\<rparr>"
  let ?t = "t\<lparr>tic_nrefs := tic_nrefs t - int d\<rparr>"
  have d: "fin_drops p t d = d" using True by (simp add: fin_drops_def)
  have n: "tic_nrefs t = k + int (length rs)" using regs(1) t by (simp add: regs_ok_def)
  then have "drop_refs cur c d ?q = Some (if d = 0 then ?q else upd_tic c ?t ?q)"
    using drop_refs_code [of ?q c t d cur] t regs(2) d by simp
  then have run: "run_finalizer fin c t p = Some ((if d = 0 then ?q else upd_tic c ?t ?q)
      \<lparr>p_mods := (p_mods p)(tic_mod t := (p_mods p (tic_mod t))\<lparr>mod_finalizer := False\<rparr>)\<rparr>)"
    using True by (simp add: run_finalizer_def fin)
  show ?thesis
  proof (cases "d = 0")
    case True
    with run d t regs(1) tls show ?thesis
      by (simp add: regs_ok_def reg_list_def reg_good_def reg_id_of_def [abs_def] tls_ok_def ctx_list_def)
  next
    case False
    with run d t regs(1) tls n show ?thesis
      by (simp add: regs_ok_def reg_list_def reg_good_def reg_id_of_def [abs_def] tls_ok_def ctx_list_def)
  qed
qed

lemma cleanup_ok:
  assumes list: "zl_rep (ctx_list p) cs" "c \<in> set cs" and t: "p_tics p c = Some t"
    and regs: "regs_ok p c rs k" "int (fin_drops p t d) < k" and tls: "tls_ok cur p"
    and fin: "\<And>q. fin (tic_mod t) c q = drop_refs cur c d q"
  shows "\<exists>p' t'. Twapi_InterpContextCleanup fin cur c p = Some p' \<and> zl_rep (ctx_list p') (remove1 c cs) \<and>
     p_tics p' c = Some t' \<and> tic_interp t' = None \<and> tic_nrefs t' = k - int (fin_drops p t d) - 2 \<and>
     tic_deletions t' = tic_deletions t + (if k - int (fin_drops p t d) \<le> 2 then 1 else 0) \<and>
     (\<forall>r \<in> set rs. p_regs p' r = Option.bind (p_regs p r) reg_after) \<and>
     \<not> mod_finalizer (p_mods p' (tic_mod t)) \<and> (\<forall>m. mod_name (p_mods p' m) = mod_name (p_mods p m)) \<and>
     (\<forall>y. y \<noteq> c \<longrightarrow> p_tics p' y = p_tics p y)"
proof -
  define j where "j = k - int (fin_drops p t d)"
  from run_finalizer_ok [where cur = cur and d = d and fin = fin, OF t fin regs tls] obtain p1 t1 where p1: "run_finalizer fin c t p = Some p1"
    "p_tics p1 c = Some t1" "regs_ok p1 c rs j" "ctx_list p1 = ctx_list p" "tls_ok cur p1" "p_regs p1 = p_regs p"
    "tic_deletions t1 = tic_deletions t" "\<not> mod_finalizer (p_mods p1 (tic_mod t))"
    "\<forall>m. mod_name (p_mods p1 m) = mod_name (p_mods p m)" "\<forall>y. y \<noteq> c \<longrightarrow> p_tics p1 y = p_tics p y" by (auto simp: j_def)
  have j: "0 < j" using regs(2) by (simp add: j_def)
  let ?z = "ZLIST_REMOVE c (ctx_list p)"
  let ?p3 = "upd_tic c (t1\<lparr>tic_interp := None, tic_suspended := True\<rparr>) (set_ctx_list ?z p1)"
  have find: "ZLIST_FIND (ctx_cmp c) (ctx_list p) = Some (Some c)"
    using ZLIST_FIND_rep [OF list(1), of "ctx_cmp c"] find_ctx_cmp [OF list(2)] by simp
  have "regs_ok ?p3 c rs j"
    using p1(2,3) by (simp add: regs_ok_def reg_list_def reg_good_def reg_id_of_def [abs_def] set_ctx_list_def)
  from shutdown_regs_ok [OF this j, of cur] obtain p4 where p4: "shutdown_regs cur c ?p3 = Some p4"
    "p_regs p4 = (\<lambda>r. if r \<in> set rs then Option.bind (p_regs ?p3 r) reg_after else p_regs ?p3 r)" "p_slot p4 = p_slot ?p3"
    "p_tls p4 = p_tls ?p3" "p_ctx_links p4 = p_ctx_links ?p3" "p_ctxs p4 = p_ctxs ?p3" "p_mods p4 = p_mods ?p3"
    "\<exists>z. p_tics p4 c = Some (t1\<lparr>tic_interp := None, tic_suspended := True\<rparr>\<lparr>tic_nrefs := j, tic_regs := z\<rparr>)"
    "\<forall>y. y \<noteq> c \<longrightarrow> p_tics p4 y = p_tics ?p3 y"
    by auto
  then obtain t4 where t4: "p_tics p4 c = Some t4" "tic_nrefs t4 = j" "tic_interp t4 = None"
    "tic_deletions t4 = tic_deletions t"
    using p1(7) by auto
  have "tls_ok cur p4" using p1(5) p4(3,4) by (simp add: tls_ok_def set_ctx_list_def)
  from Unref_effect [OF t4(1) this, of 2] obtain p' t' where p': "TwapiInterpContextUnref cur c 2 p4 = Some p'"
    "p_tics p' c = Some t'" "tic_nrefs t' = j - 2" "tic_interp t' = None"
    "tic_deletions t' = tic_deletions t + (if j \<le> 2 then 1 else 0)"
    using t4 by auto
  have "Twapi_InterpContextCleanup fin cur c p = Some p'"
    using t find p4(1) p'(1) p1(1,2,4) by (simp add: Twapi_InterpContextCleanup_def Let_def)
  moreover have "zl_rep (ctx_list p') (remove1 c cs)"
    using zl.remove_rep [OF list] Unref_keeps [OF p'(1)] p4(5,6)
    by (simp add: ctx_list_def set_ctx_list_def)
  moreover have "p_tics p' y = p_tics p y" if "y \<noteq> c" for y
    using Unref_others [OF p'(1) that] p4(9) p1(10) that by (simp add: set_ctx_list_def)
  ultimately show ?thesis
    using p' Unref_keeps [OF p'(1)] p4(2,7) p1(6,8,9) by (auto simp: set_ctx_list_def j_def)
qed

end
