(* ===== verification/Process_Props.thy ===== *)
theory Process_Props
  imports Contexts_Cleanup
begin

text \<open>
  The properties of thread-local blocks, interpreter contexts and thread-pool registrations,
  with a small process that shows that their assumptions can hold.
\<close>

section \<open>A concrete process\<close>

text \<open>
  Thread 1 has a block (at 10, with one reference) and so has thread 2 (at 11). Modules 5 and
  6 are the base module and another one, both with a finalizer.
\<close>

definition demo_tls :: "thread \<Rightarrow> tls" where
  "demo_tls th = \<lparr>tls_thread = th, tls_lifo_open = True, tls_ffi_held = True, tls_nrefs = 1\<rparr>"

definition demo_proc :: proc where
  "demo_proc = \<lparr>p_next = 100, p_slot = [1 \<mapsto> 10, 2 \<mapsto> 11], p_tls = [10 \<mapsto> demo_tls 1, 11 \<mapsto> demo_tls 2],
     p_tics = Map.empty, p_ctx_links = (\<lambda>_. \<lparr>zl_prev = None, zl_next = None\<rparr>), p_ctxs = ZLIST_INIT,
     p_mods = (\<lambda>m. \<lparr>mod_name = (if m = 5 then ''twapi_base'' else ''other''),
                    mod_finalizer = True, mod_log_flags = 0\<rparr>),
     p_base_hmod = 3, p_when_deleted = (\<lambda>_. []), p_ids = 0, p_regs = Map.empty,
     p_reg_links = (\<lambda>_. \<lparr>zl_prev = None, zl_next = None\<rparr>), p_finalized = [], p_unreg_calls = []\<rparr>"

text \<open>The demonstration process with the base context of interpreter 7 in thread 1.\<close>

definition demo_ctx :: proc where
  "demo_ctx = fst (the (Twapi_AllocateInterpContext 1 7 3 5 demo_proc))"

lemma demo_ctx_alloc: "Twapi_AllocateInterpContext 1 7 3 5 demo_proc = Some (demo_ctx, 100)"
  by (simp add: demo_ctx_def Twapi_AllocateInterpContext_def demo_proc_def Twapi_GetTls_def demo_tls_def
      TwapiInterpContextRef_def upd_tic_def ctx_list_def ZLIST_PREPEND_def ZLIST_ISEMPTY_def
      ZLIST_COUNT_def ZLIST_INIT_def set_ctx_list_def TwapiInterpContextNew_def ExchangeAdd_def Let_def)

section \<open>Allocation\<close>

lemma allocate_ok:
  assumes al: "Twapi_AllocateInterpContext cur itp hmod md p = Some (p', c)"
    and list: "zl_rep (ctx_list p) cs" "p_next p \<notin> set cs"
  shows "c = p_next p" "\<exists>t. p_tics p' c = Some t \<and> tic_nrefs t = 2 \<and> tic_deletions t = 0 \<and>
      tic_interp t = Some itp \<and> tic_mod t = md \<and> tic_regs t = ZLIST_INIT"
    "zl_rep (ctx_list p') (if hmod = p_base_hmod p then c # cs else cs @ [c])"
    "p_mods p' = p_mods p" "regs_ok p' c [] 2" "p_slot p' = p_slot p"
    "p_slot p cur = Some a \<Longrightarrow> p_tls p' a \<noteq> None" "y \<noteq> c \<Longrightarrow> p_tics p' y = p_tics p y"
proof -
  obtain b where b: "p_slot p cur = Some b"
    using al by (cases "p_slot p cur") (simp_all add: Twapi_AllocateInterpContext_def Twapi_GetTls_def Let_def)
  obtain tl where tl: "p_tls p b = Some tl"
    using al b by (cases "p_tls p b") (simp_all add: Twapi_AllocateInterpContext_def Twapi_GetTls_def Let_def)
  define zo where "zo = (if hmod = p_base_hmod p then ZLIST_PREPEND (p_next p) (ctx_list p)
             else ZLIST_APPEND (p_next p) (ctx_list p))"
  have al2: "(do { z \<leftarrow> zo;
      let p3 = p\<lparr>p_next := Suc (p_next p), p_tls := (p_tls p)(b \<mapsto> tl\<lparr>tls_nrefs := tls_nrefs tl + 1\<rparr>),
               p_tics := (p_tics p)(p_next p \<mapsto> (TwapiInterpContextNew cur itp hmod md)\<lparr>tic_lifo := Some b, tic_nrefs := 2\<rparr>),
               p_ctx_links := fst z, p_ctxs := snd z\<rparr>;
      Some (p3\<lparr>p_when_deleted := (p_when_deleted p)(itp := p_next p # p_when_deleted p itp)\<rparr>, p_next p) })
      = Some (p', c)"
    using al b tl unfolding zo_def
    by (simp add: Twapi_AllocateInterpContext_def Twapi_GetTls_def TwapiInterpContextRef_def
        upd_tic_def ctx_list_def set_ctx_list_def ExchangeAdd_def TwapiInterpContextNew_def Let_def cong: if_cong)
  then obtain z where z: "zo = Some z" by (cases zo) simp_all
  note P = al2 [unfolded z, simplified bind.bind_lunit Let_def]
  have c: "c = p_next p" using P by simp
  have p': "p' = p\<lparr>p_next := Suc (p_next p), p_tls := (p_tls p)(b \<mapsto> tl\<lparr>tls_nrefs := tls_nrefs tl + 1\<rparr>),
               p_tics := (p_tics p)(p_next p \<mapsto> (TwapiInterpContextNew cur itp hmod md)\<lparr>tic_lifo := Some b, tic_nrefs := 2\<rparr>),
               p_ctx_links := fst z, p_ctxs := snd z,
               p_when_deleted := (p_when_deleted p)(itp := p_next p # p_when_deleted p itp)\<rparr>"
    using conjunct1 [OF P [simplified prod.inject option.inject]] by (rule sym [OF trans [rotated]]) (simp_all)
  show "c = p_next p" by (rule c)
  have t: "p_tics p' c = Some ((TwapiInterpContextNew cur itp hmod md)\<lparr>tic_lifo := Some b, tic_nrefs := 2\<rparr>)"
    using p' c by simp
  then show "\<exists>t. p_tics p' c = Some t \<and> tic_nrefs t = 2 \<and> tic_deletions t = 0 \<and>
      tic_interp t = Some itp \<and> tic_mod t = md \<and> tic_regs t = ZLIST_INIT"
    by (simp add: TwapiInterpContextNew_def)
  show "zl_rep (ctx_list p') (if hmod = p_base_hmod p then c # cs else cs @ [c])"
    using z p' c zl.prependD [OF _ list] zl.appendD [OF _ list] by (auto simp: zo_def ctx_list_def split: if_splits)
  show "p_mods p' = p_mods p" "p_slot p' = p_slot p" using p' by simp_all
  show "regs_ok p' c [] 2"
    using t ZLIST_INIT_rep by (simp add: regs_ok_def reg_list_def TwapiInterpContextNew_def)
  show "p_slot p cur = Some a \<Longrightarrow> p_tls p' a \<noteq> None" using p' b by simp
  show "y \<noteq> c \<Longrightarrow> p_tics p' y = p_tics p y" using p' c by simp
qed

section \<open>Properties of contexts\<close>

text \<open>
  A context is not deleted as long as its count stays positive, whatever references are
  taken and dropped, and the count always is two plus what was taken minus what was dropped.
\<close>

theorem context_held:
  assumes "p_tics p c = Some t" "held (tic_nrefs t) ops"
  shows "\<exists>p'. refcounted.run (TwapiInterpContextRef c) (TwapiInterpContextUnref cur c) ops p = Some p' \<and>
     ctx_refs c p' = tic_nrefs t + sum_list (map ref_delta ops) \<and>
     ctx_deletions c p' = tic_deletions t"
  using ctx.held_run [of p c ops cur] assms by (auto simp: ctx_refs_def ctx_deletions_def)

theorem context_held_witness:
  "\<exists>p'. refcounted.run (TwapiInterpContextRef 100) (TwapiInterpContextUnref 1 100) [Ref 1, Unref 2] demo_ctx = Some p' \<and>
     ctx_refs 100 p' = 1 \<and> ctx_deletions 100 p' = 0"
proof -
  obtain t where "p_tics demo_ctx 100 = Some t" "tic_nrefs t = 2" "tic_deletions t = 0"
    using allocate_ok(2) [OF demo_ctx_alloc, of "[]"] by (auto simp: demo_proc_def ctx_list_def ZLIST_INIT_rep)
  with context_held [of demo_ctx 100 t "[Ref 1, Unref 2]" 1] show ?thesis by simp
qed

lemma demo_ctx_list: "zl_rep (ctx_list demo_ctx) [100]"
  using allocate_ok(1,3) [OF demo_ctx_alloc, of "[]"] by (simp add: demo_proc_def ctx_list_def ZLIST_INIT_rep)

lemma demo_ctx_regs: "regs_ok demo_ctx 100 [] 2"
  using allocate_ok(5) [OF demo_ctx_alloc, of "[]"] by (simp add: demo_proc_def ctx_list_def ZLIST_INIT_rep)

lemma demo_ctx_tic: "\<exists>t. p_tics demo_ctx 100 = Some t \<and> tic_deletions t = 0 \<and> tic_interp t = Some 7 \<and> tic_mod t = 5"
  using allocate_ok(2) [OF demo_ctx_alloc, of "[]"] by (auto simp: demo_proc_def ctx_list_def ZLIST_INIT_rep)

lemma demo_ctx_tls: "tls_ok 1 demo_ctx"
proof -
  have s: "p_slot demo_ctx = p_slot demo_proc" "zl_rep (ctx_list demo_proc) []"
    using allocate_ok(6) [OF demo_ctx_alloc, of "[]"] by (simp_all add: demo_proc_def ctx_list_def ZLIST_INIT_rep)
  have "p_slot demo_proc 1 = Some 10" by (simp add: demo_proc_def)
  with allocate_ok(7) [OF demo_ctx_alloc s(2), of 10] s(1) show ?thesis by (simp add: tls_ok_def)
qed

text \<open>
  C24. When an interpreter goes away its context is taken off the global list and unhooked. The
  finalizer of the module, unless it has been cleared before, drops the \<open>d\<close> references of what
  it shuts down; all thread-pool registrations are shut down, each being freed exactly if
  its counter held nothing but the references of the list and the pool (the code never sets
  the counter to zero); and the context is deleted now if, after that, nobody else holds it
  (two references are the interpreter's and the list's) and not otherwise.
\<close>

theorem context_cleanup:
  assumes "zl_rep (ctx_list p) cs" "c \<in> set cs" "p_tics p c = Some t" "regs_ok p c rs k" "tls_ok cur p"
    and "\<forall>q. fin (tic_mod t) c q = drop_refs cur c d q"
    and "e = (if mod_finalizer (p_mods p (tic_mod t)) then int d else 0)" "e < k"
  shows "\<exists>p' t'. Twapi_InterpContextCleanup fin cur c p = Some p' \<and> zl_rep (ctx_list p') (remove1 c cs) \<and>
     p_tics p' c = Some t' \<and> tic_interp t' = None \<and> tic_nrefs t' = k - e - 2 \<and>
     tic_deletions t' = tic_deletions t + (if k - e \<le> 2 then 1 else 0) \<and>
     (\<forall>r \<in> set rs. \<forall>x. p_regs p r = Some x \<longrightarrow>
        (p_regs p' r = None \<longleftrightarrow> reg_left x = 0) \<and> (\<forall>y. p_regs p' r = Some y \<longrightarrow> reg_tic y = None))"
proof -
  have e: "int (fin_drops p t d) = e" using assms(7) by (simp add: fin_drops_def)
  have fin: "\<And>q. fin (tic_mod t) c q = drop_refs cur c d q" using assms(6) by blast
  from cleanup_ok [where fin = fin and d = d, OF assms(1-4) _ assms(5) fin, unfolded e, OF assms(8)] obtain p' t' where
    "Twapi_InterpContextCleanup fin cur c p = Some p'" "zl_rep (ctx_list p') (remove1 c cs)"
    "p_tics p' c = Some t'" "tic_interp t' = None" "tic_nrefs t' = k - e - 2"
    "tic_deletions t' = tic_deletions t + (if k - e \<le> 2 then 1 else 0)"
    "\<forall>r \<in> set rs. p_regs p' r = Option.bind (p_regs p r) reg_after" by blast
  then show ?thesis by (intro exI [of _ p'] exI [of _ t']) (auto simp: reg_after_def split: if_splits)
qed

text \<open>The witness: a finalizer that drops the one reference of a monitor.\<close>

lemma demo_held: "\<exists>t. p_tics demo_ctx 100 = Some t \<and>
   zl_rep (ctx_list (upd_tic 100 (t\<lparr>tic_nrefs := 3\<rparr>) demo_ctx)) [100] \<and>
   regs_ok (upd_tic 100 (t\<lparr>tic_nrefs := 3\<rparr>) demo_ctx) 100 [] 3 \<and>
   tls_ok 1 (upd_tic 100 (t\<lparr>tic_nrefs := 3\<rparr>) demo_ctx) \<and>
   p_mods (upd_tic 100 (t\<lparr>tic_nrefs := 3\<rparr>) demo_ctx) = p_mods demo_proc \<and> tic_mod t = 5 \<and> tic_deletions t = 0"
proof -
  obtain t where t: "p_tics demo_ctx 100 = Some t" "tic_deletions t = 0" "tic_mod t = 5" using demo_ctx_tic by blast
  moreover have "p_mods demo_ctx = p_mods demo_proc"
    using allocate_ok(4) [OF demo_ctx_alloc, of "[]"] by (simp add: demo_proc_def ctx_list_def ZLIST_INIT_rep)
  ultimately show ?thesis
    using demo_ctx_list demo_ctx_regs demo_ctx_tls
    by (intro exI [of _ t]) (auto simp: regs_ok_def reg_list_def tls_ok_def ctx_list_def)
qed

theorem context_cleanup_witness:
  "\<exists>p p' t'. Twapi_InterpContextCleanup (\<lambda>md c. drop_refs 1 c 1) 1 100 p = Some p' \<and> ctx_refs 100 p = 3 \<and>
     zl_rep (ctx_list p') [] \<and> p_tics p' 100 = Some t' \<and> tic_interp t' = None \<and> tic_deletions t' = 1"
proof -
  obtain t where t: "p_tics demo_ctx 100 = Some t" "tic_mod t = 5" "tic_deletions t = 0"
    and p: "zl_rep (ctx_list (upd_tic 100 (t\<lparr>tic_nrefs := 3\<rparr>) demo_ctx)) [100]"
      "regs_ok (upd_tic 100 (t\<lparr>tic_nrefs := 3\<rparr>) demo_ctx) 100 [] 3"
      "tls_ok 1 (upd_tic 100 (t\<lparr>tic_nrefs := 3\<rparr>) demo_ctx)"
      "p_mods (upd_tic 100 (t\<lparr>tic_nrefs := 3\<rparr>) demo_ctx) = p_mods demo_proc" using demo_held by blast
  let ?p = "upd_tic 100 (t\<lparr>tic_nrefs := 3\<rparr>) demo_ctx"
  have 1: "100 \<in> set [100::tid]" "p_tics ?p 100 = Some (t\<lparr>tic_nrefs := 3\<rparr>)" by simp_all
  have 2: "\<forall>q. (\<lambda>md c. drop_refs 1 c 1) (tic_mod (t\<lparr>tic_nrefs := 3\<rparr>)) 100 q = drop_refs 1 100 1 q"
    "1 = (if mod_finalizer (p_mods ?p (tic_mod (t\<lparr>tic_nrefs := 3\<rparr>))) then int 1 else 0)" "1 < (3::int)"
    using p(4) t(2) by (simp_all add: demo_proc_def)
  from context_cleanup [where fin = "\<lambda>md c. drop_refs 1 c 1" and d = 1, OF p(1) 1 p(2,3) 2] t(3) show ?thesis
    by - (rule exI [of _ ?p], auto simp: ctx_refs_def)
qed

subsection \<open>The base context\<close>

definition is_base :: "proc \<Rightarrow> interp \<Rightarrow> tid \<Rightarrow> bool" where
  "is_base p itp x \<longleftrightarrow> (\<exists>t. p_tics p x = Some t \<and> tic_interp t = Some itp \<and>
     mod_name (p_mods p (tic_mod t)) = ''twapi_base'')"

text \<open>
  What may happen to the list while base context \<open>c\<close> of interpreter \<open>itp\<close> is on it: other
  contexts are allocated (at addresses not in use), in front or at the end, for this interpreter
  or others; other contexts are cleaned up; references are taken and dropped.
\<close>

inductive ctx_step :: "interp \<Rightarrow> tid \<Rightarrow> proc \<Rightarrow> proc \<Rightarrow> bool" for itp c where
  alloc: "Twapi_AllocateInterpContext cur itp' hmod md p = Some (p', x) \<Longrightarrow> p_tics p (p_next p) = None \<Longrightarrow>
     \<not> (itp' = itp \<and> mod_name (p_mods p md) = ''twapi_base'') \<Longrightarrow> ctx_step itp c p p'"
| cleanup: "x \<noteq> c \<Longrightarrow> p_tics p x = Some t \<Longrightarrow> regs_ok p x rs k \<Longrightarrow> int (fin_drops p t d) < k \<Longrightarrow> tls_ok cur p \<Longrightarrow>
     (\<And>q. fin (tic_mod t) x q = drop_refs cur x d q) \<Longrightarrow> zl_rep (ctx_list p) cs \<Longrightarrow> x \<in> set cs \<Longrightarrow>
     Twapi_InterpContextCleanup fin cur x p = Some p' \<Longrightarrow> ctx_step itp c p p'"
| hold: "TwapiInterpContextRef x n p = Some p' \<Longrightarrow> ctx_step itp c p p'"
| drop: "TwapiInterpContextUnref cur x n p = Some p' \<Longrightarrow> ctx_step itp c p p'"

definition base_inv :: "interp \<Rightarrow> tid \<Rightarrow> proc \<Rightarrow> tid list \<Rightarrow> bool" where
  "base_inv itp c p cs \<longleftrightarrow> zl_rep (ctx_list p) cs \<and> c \<in> set cs \<and>
     (\<forall>x \<in> set cs. p_tics p x \<noteq> None \<and> (is_base p itp x \<longleftrightarrow> x = c))"

lemma is_base_cong:
  "map_option (\<lambda>t. (tic_interp t, tic_mod t)) (p_tics p' x) = map_option (\<lambda>t. (tic_interp t, tic_mod t)) (p_tics p x) \<Longrightarrow>
   (\<And>m. mod_name (p_mods p' m) = mod_name (p_mods p m)) \<Longrightarrow> is_base p' itp x = is_base p itp x"
  unfolding is_base_def by (cases "p_tics p x"; cases "p_tics p' x") auto

lemma base_inv_same:
  assumes "base_inv itp c p cs" "ctx_list p' = ctx_list p"
    and "\<And>x. map_option (\<lambda>t. (tic_interp t, tic_mod t)) (p_tics p' x) = map_option (\<lambda>t. (tic_interp t, tic_mod t)) (p_tics p x)"
    and "\<And>m. mod_name (p_mods p' m) = mod_name (p_mods p m)"
  shows "base_inv itp c p' cs"
proof -
  have "is_base p' itp x = is_base p itp x" for x by (rule is_base_cong [OF assms(3,4)])
  moreover have "(p_tics p' x \<noteq> None) = (p_tics p x \<noteq> None)" for x
    using assms(3) [of x] by (cases "p_tics p x"; cases "p_tics p' x") auto
  ultimately show ?thesis using assms(1,2) by (simp add: base_inv_def)
qed

lemma alloc_is_base:
  assumes al: "Twapi_AllocateInterpContext cur itp' hmod md p = Some (p', x)"
    and list: "zl_rep (ctx_list p) cs" "p_next p \<notin> set cs"
  shows "is_base p' itp x \<longleftrightarrow> itp' = itp \<and> mod_name (p_mods p md) = ''twapi_base''" "p_tics p' x \<noteq> None"
    "y \<noteq> x \<Longrightarrow> is_base p' itp y = is_base p itp y"
proof -
  note A = allocate_ok [OF al list]
  obtain t where "p_tics p' x = Some t" "tic_interp t = Some itp'" "tic_mod t = md" using A(2) by blast
  then show "is_base p' itp x \<longleftrightarrow> itp' = itp \<and> mod_name (p_mods p md) = ''twapi_base''" "p_tics p' x \<noteq> None"
    using A(4) by (auto simp: is_base_def)
  show "y \<noteq> x \<Longrightarrow> is_base p' itp y = is_base p itp y" using A(8) A(4) by (simp add: is_base_def)
qed

lemma ctx_step_base: "ctx_step itp c p p' \<Longrightarrow> base_inv itp c p cs \<Longrightarrow> \<exists>cs'. base_inv itp c p' cs'"
proof (induction rule: ctx_step.induct)
  case (alloc cur itp' hmod md p p' x)
  have I: "zl_rep (ctx_list p) cs" "c \<in> set cs" "\<And>y. y \<in> set cs \<Longrightarrow> p_tics p y \<noteq> None \<and> (is_base p itp y \<longleftrightarrow> y = c)"
    using alloc(4) by (auto simp: base_inv_def)
  have new: "p_next p \<notin> set cs" using I(3) alloc(2) by blast
  note A = allocate_ok [OF alloc(1) I(1) new]
  note B = alloc_is_base [OF alloc(1) I(1) new]
  have x: "x \<notin> set cs" using A(1) new by simp
  have "\<forall>y \<in> insert x (set cs). p_tics p' y \<noteq> None \<and> (is_base p' itp y \<longleftrightarrow> y = c)"
  proof
    fix y assume y: "y \<in> insert x (set cs)"
    show "p_tics p' y \<noteq> None \<and> (is_base p' itp y \<longleftrightarrow> y = c)"
    proof (cases "y = x")
      case True
      then show ?thesis using B(1) [of itp] B(2) alloc(3) x I(2) by auto
    next
      case False
      then show ?thesis using B(3) [OF False, of itp] A(8) [OF False] I(3) [of y] y by auto
    qed
  qed
  then show ?case
    using A(3) I(2) by (intro exI [of _ "if hmod = p_base_hmod p then x # cs else cs @ [x]"]) (simp add: base_inv_def)
next
  case (cleanup x p t rs k d cur fin cs0 p')
  have I: "zl_rep (ctx_list p) cs" "c \<in> set cs" "\<And>y. y \<in> set cs \<Longrightarrow> p_tics p y \<noteq> None \<and> (is_base p itp y \<longleftrightarrow> y = c)"
    using cleanup(10) by (auto simp: base_inv_def)
  have "cs0 = cs" using cleanup(7) I(1) by (rule zl_rep_unique)
  with cleanup_ok [where fin = fin and d = d, OF cleanup(7,8,2,3,4,5,6)] cleanup(9)
  have p': "zl_rep (ctx_list p') (remove1 x cs)" "\<And>y. y \<noteq> x \<Longrightarrow> p_tics p' y = p_tics p y"
    "\<And>m. mod_name (p_mods p' m) = mod_name (p_mods p m)" by auto
  have d: "distinct cs" using I(1) by (cases "ctx_list p") (simp add: zl_rep_def)
  have "p_tics p' y \<noteq> None \<and> (is_base p' itp y \<longleftrightarrow> y = c)" if "y \<in> set (remove1 x cs)" for y
  proof -
    have y: "y \<in> set cs" "y \<noteq> x" using that d by auto
    have "is_base p' itp y = is_base p itp y" by (rule is_base_cong) (use p'(2,3) y(2) in simp_all)
    then show ?thesis using I(3) [OF y(1)] p'(2) [OF y(2)] by simp
  qed
  then have "base_inv itp c p' (remove1 x cs)" using p'(1) I(2) cleanup(1) d by (simp add: base_inv_def)
  then show ?case by blast
next
  case (hold x n p p')
  have "base_inv itp c p' cs"
    by (rule base_inv_same [OF hold(2)])
       (use hold(1) in \<open>auto simp: TwapiInterpContextRef_def ctx_list_def Let_def split: bind_splits prod.splits\<close>)
  then show ?case by blast
next
  case (drop cur x n p p')
  have "map_option (\<lambda>t. (tic_interp t, tic_mod t)) (p_tics p' y) = map_option (\<lambda>t. (tic_interp t, tic_mod t)) (p_tics p y)" for y
  proof (cases "y = x")
    case True
    then show ?thesis using drop(1)
      by (auto simp: TwapiInterpContextUnref_def TwapiInterpContextDelete_def Let_def
          dest!: TlsUnref_tics split: bind_splits if_splits prod.splits)
  qed (simp add: Unref_others [OF drop(1)])
  then have "base_inv itp c p' cs"
    by (rule base_inv_same [OF drop(2), rotated]) (use Unref_keeps [OF drop(1)] in \<open>simp_all add: ctx_list_def\<close>)
  then show ?case by blast
qed

lemma ctx_steps_base: "(ctx_step itp c)\<^sup>*\<^sup>* p p' \<Longrightarrow> base_inv itp c p cs \<Longrightarrow> \<exists>cs'. base_inv itp c p' cs'"
  by (induction rule: rtranclp_induct) (auto dest: ctx_step_base)

lemma find_unique: "c \<in> set cs \<Longrightarrow> \<forall>x \<in> set cs. P x \<longleftrightarrow> x = c \<Longrightarrow> find P cs = Some c"
  by (induction cs) auto

lemma base_inv_found:
  assumes "base_inv itp c p cs"
  shows "TwapiGetBaseContext itp p = Some (Some c)"
proof -
  have I: "zl_rep (ctx_list p) cs" "c \<in> set cs" "\<forall>y \<in> set cs. p_tics p y \<noteq> None \<and> (is_base p itp y \<longleftrightarrow> y = c)"
    using assms by (auto simp: base_inv_def)
  have "\<forall>y \<in> set cs. base_ctx_cmp p itp y = 0 \<longleftrightarrow> y = c"
    using I(3) by (force simp: base_ctx_cmp_def is_base_def split: option.splits)
  from find_unique [OF I(2) this] show ?thesis
    using ZLIST_FIND_rep [OF I(1), of "base_ctx_cmp p itp"] by (simp add: TwapiGetBaseContext_def)
qed

text \<open>
  C29. The base context of an interpreter is found from the moment it is allocated for as long as it
  is not cleaned up, whatever other contexts are allocated and cleaned up in the meantime, in
  front of it in the list or behind it, and whatever references are taken and dropped.
\<close>

theorem base_context_found:
  assumes "Twapi_AllocateInterpContext cur itp hmod md p = Some (p0, c)" "mod_name (p_mods p md) = ''twapi_base''"
    and "zl_rep (ctx_list p) cs" "\<forall>x \<in> set cs. p_tics p x \<noteq> None \<and> \<not> is_base p itp x" "p_tics p (p_next p) = None"
    and "(ctx_step itp c)\<^sup>*\<^sup>* p0 p'"
  shows "TwapiGetBaseContext itp p' = Some (Some c)"
proof -
  have new: "p_next p \<notin> set cs" using assms(4,5) by auto
  note A = allocate_ok [OF assms(1,3) new]
  note B = alloc_is_base [OF assms(1,3) new]
  have c: "c \<notin> set cs" using A(1) new by simp
  have "p_tics p0 y \<noteq> None \<and> (is_base p0 itp y \<longleftrightarrow> y = c)" if "y \<in> insert c (set cs)" for y
  proof (cases "y = c")
    case True
    then show ?thesis using B(1) [of itp] B(2) assms(2) by simp
  next
    case False
    then show ?thesis using B(3) [OF False, of itp] A(8) [OF False] assms(4) that by auto
  qed
  then have "base_inv itp c p0 (if hmod = p_base_hmod p then c # cs else cs @ [c])"
    using A(3) by (simp add: base_inv_def)
  from ctx_steps_base [OF assms(6) this] base_inv_found show ?thesis by blast
qed

definition demo_two :: proc where
  "demo_two = fst (the (Twapi_AllocateInterpContext 1 7 3 6 demo_ctx))"

lemma demo_two_alloc: "Twapi_AllocateInterpContext 1 7 3 6 demo_ctx = Some (demo_two, 101)"
  unfolding demo_two_def demo_ctx_def
  by (simp add: Twapi_AllocateInterpContext_def demo_proc_def Twapi_GetTls_def demo_tls_def
      TwapiInterpContextRef_def upd_tic_def ctx_list_def ZLIST_PREPEND_def ZLIST_ISEMPTY_def ZLINK_PREATTACH_def
      ZLIST_COUNT_def ZLIST_INIT_def set_ctx_list_def TwapiInterpContextNew_def ExchangeAdd_def Let_def)

theorem base_context_found_witness:
  "TwapiGetBaseContext 7 demo_two = Some (Some 100) \<and> zl_rep (ctx_list demo_two) [101, 100]"
proof -
  have d: "mod_name (p_mods demo_proc 5) = ''twapi_base''" "zl_rep (ctx_list demo_proc) []"
    "\<forall>x \<in> set []. p_tics demo_proc x \<noteq> None \<and> \<not> is_base demo_proc 7 x" "p_tics demo_proc (p_next demo_proc) = None"
    by (simp_all add: demo_proc_def ctx_list_def ZLIST_INIT_rep)
  have n: "p_next demo_ctx = 101" "p_tics demo_ctx 101 = None" "p_base_hmod demo_ctx = 3"
    unfolding demo_ctx_def
    by (simp_all add: Twapi_AllocateInterpContext_def demo_proc_def Twapi_GetTls_def demo_tls_def
      TwapiInterpContextRef_def upd_tic_def ctx_list_def ZLIST_PREPEND_def ZLIST_ISEMPTY_def
      ZLIST_COUNT_def ZLIST_INIT_def set_ctx_list_def TwapiInterpContextNew_def ExchangeAdd_def Let_def)
  have m: "p_mods demo_ctx = p_mods demo_proc"
    using allocate_ok(4) [OF demo_ctx_alloc d(2)] by simp
  have "\<not> ((7 :: interp) = 7 \<and> mod_name (p_mods demo_ctx 6) = ''twapi_base'')" by (simp add: m demo_proc_def)
  then have "ctx_step 7 100 demo_ctx demo_two"
    by (rule ctx_step.alloc [OF demo_two_alloc, rotated]) (simp add: n)
  then have "(ctx_step 7 100)\<^sup>*\<^sup>* demo_ctx demo_two" by blast
  from base_context_found [OF demo_ctx_alloc d this]
  show ?thesis using allocate_ok(3) [OF demo_two_alloc demo_ctx_list] n by simp
qed

text \<open>
  The finalizer is cleared in the module definition, which is shared: once a context of a
  module has been cleaned up, the finalizer is never called for another context of the same
  module.
\<close>

theorem finalizer_runs_once_per_module:
  assumes "zl_rep (ctx_list p) cs" "c \<in> set cs" "p_tics p c = Some t" "regs_ok p c rs k"
    and "int (fin_drops p t d) < k" "tls_ok cur p" "\<forall>q. fin (tic_mod t) c q = drop_refs cur c d q"
    and "Twapi_InterpContextCleanup fin cur c p = Some p1" "tic_mod u = tic_mod t"
  shows "run_finalizer fin' x u p1 = Some p1"
proof -
  have "\<not> mod_finalizer (p_mods p1 (tic_mod t))"
    using cleanup_ok [where fin = fin and d = d, OF assms(1-6)] assms(7,8) by auto
  then show ?thesis using assms(9) by (simp add: run_finalizer_def)
qed

theorem finalizer_runs_once_per_module_witness:
  "\<exists>p1 u. Twapi_InterpContextCleanup (\<lambda>md c. drop_refs 1 c 0) 1 100 demo_ctx = Some p1 \<and> tic_mod u = 5 \<and>
     run_finalizer (\<lambda>md c. drop_refs 1 c 7) 101 u p1 = Some p1"
proof -
  let ?fin = "\<lambda>md c. drop_refs 1 c 0"
  obtain t where t: "p_tics demo_ctx 100 = Some t" "tic_mod t = 5" using demo_ctx_tic by blast
  have d: "int (fin_drops demo_ctx t 0) < 2" "\<forall>q. ?fin (tic_mod t) 100 q = drop_refs 1 100 0 q"
    by (simp_all add: fin_drops_def)
  obtain p1 where "Twapi_InterpContextCleanup ?fin 1 100 demo_ctx = Some p1"
    using cleanup_ok [where fin = ?fin and d = 0, OF demo_ctx_list _ t(1) demo_ctx_regs d(1) demo_ctx_tls] by auto
  with finalizer_runs_once_per_module [OF demo_ctx_list _ t(1) demo_ctx_regs d(1) demo_ctx_tls d(2) this, of t] t(2)
  show ?thesis by auto
qed

text \<open>
  The last reference to a context may be dropped by any thread, and the deletion then drops
  the block of that thread: the block of another thread is freed under its own interpreter,
  while the block of the context's thread keeps the reference.
\<close>

theorem wrong_thread_loses_its_block:
  assumes "p_tics p c = Some t" "tic_nrefs t \<le> n" "tic_lifo t = Some a"
    and "p_slot p cur = Some b" "b \<noteq> a" "p_tls p b = Some tb" "tls_nrefs tb = 1"
  shows "\<exists>p'. TwapiInterpContextUnref cur c n p = Some p' \<and> p_slot p' cur = None \<and> p_tls p' b = None \<and>
     p_tls p' a = p_tls p a"
  using assms by (simp add: TwapiInterpContextUnref_def TwapiInterpContextDelete_def TwapiTlsUnref_def
      ExchangeAdd_def Let_def)

theorem wrong_thread_loses_its_block_witness:
  "\<exists>p'. TwapiInterpContextUnref 2 100 2 demo_ctx = Some p' \<and> p_slot p' 2 = None \<and> p_tls p' 11 = None"
proof -
  have "p_tics demo_ctx 100 = Some ((TwapiInterpContextNew 1 7 3 5)\<lparr>tic_lifo := Some 10, tic_nrefs := 2\<rparr>)"
    "p_slot demo_ctx 2 = Some 11" "p_tls demo_ctx 11 = Some (demo_tls 2)"
    unfolding demo_ctx_def
    by (simp_all add: Twapi_AllocateInterpContext_def demo_proc_def Twapi_GetTls_def demo_tls_def
      TwapiInterpContextRef_def upd_tic_def ctx_list_def ZLIST_PREPEND_def ZLIST_ISEMPTY_def
      ZLIST_COUNT_def ZLIST_INIT_def set_ctx_list_def TwapiInterpContextNew_def ExchangeAdd_def Let_def)
  with wrong_thread_loses_its_block [of demo_ctx 100 "(TwapiInterpContextNew 1 7 3 5)\<lparr>tic_lifo := Some 10, tic_nrefs := 2\<rparr>"
      2 10 2 11 "demo_tls 2"]
  show ?thesis by (auto simp: demo_tls_def)
qed

text \<open>
  When the memory pool of a new thread block cannot be created, the block is freed but the
  thread's slot still points to it, so that the next initialisation in the thread reads freed
  memory.
\<close>

theorem tls_init_failure_dangles:
  assumes "p_slot p cur = None" "p_tls p (p_next p) = None"
  shows "\<exists>p1. TwapiTlsInit cur True False p = Some (p1, False) \<and> TwapiTlsInit cur set_ok lifo_ok p1 = None \<and>
     TwapiTlsUnref cur p1 = None"
  using assms by (simp add: TwapiTlsInit_def TwapiTlsUnref_def Let_def)

theorem tls_init_failure_dangles_witness:
  "\<exists>p1. TwapiTlsInit 9 True False demo_proc = Some (p1, False) \<and> TwapiTlsInit 9 True True p1 = None"
  using tls_init_failure_dangles [of demo_proc 9] by (auto simp: demo_proc_def)

text \<open>
  The private slots are handed out once each: the first eight calls return 0 to 7 and
  all later ones fail without changing the counter.
\<close>

fun assign_slots :: "nat \<Rightarrow> int \<Rightarrow> int list" where
  "assign_slots 0 s = []"
| "assign_slots (Suc n) s = (let (s', r) = Twapi_AssignTlsSubSlot s in r # assign_slots n s')"

lemma assign_slots_more:
  "0 \<le> s \<Longrightarrow> s + int m \<le> 8 \<Longrightarrow>
   assign_slots (m + n) s = map (\<lambda>i. s + int i) [0..<m] @ assign_slots n (s + int m)"
proof (induction m arbitrary: s)
  case (Suc m)
  have "Twapi_AssignTlsSubSlot s = (s + 1, s)"
    using Suc.prems by (simp add: Twapi_AssignTlsSubSlot_def TWAPI_TLS_SLOTS_def)
  moreover have "map (\<lambda>i. s + int i) [0..<Suc m] = s # map (\<lambda>i. s + 1 + int i) [0..<m]"
    unfolding upt_conv_Cons [OF zero_less_Suc] map_Suc_upt [symmetric] by simp
  ultimately show ?case using Suc.IH [of "s + 1"] Suc.prems by (simp add: algebra_simps)
qed simp

lemma assign_slots_full: "assign_slots n 8 = replicate n (- 1)"
  by (induction n) (simp_all add: Twapi_AssignTlsSubSlot_def TWAPI_TLS_SLOTS_def Let_def)

theorem tls_slots_distinct: "assign_slots (8 + n) 0 = map int [0..<8] @ replicate n (- 1)"
  using assign_slots_more [of 0 8 n] by (simp add: assign_slots_full)

end
