(* ===== verification/Threadpool_Props.thy ===== *)
theory Threadpool_Props
  imports Process_Props
begin

text \<open>
  The properties of thread-pool registrations: what a registration, its signals and its
  removal do, and the effect of the counter that is never initialised.
\<close>

section \<open>Registering\<close>

text \<open>\<open>fresh_reg p c rs\<close>: the next address and the next id are not in use in the context.\<close>

definition fresh_reg :: "proc \<Rightarrow> rid list \<Rightarrow> bool" where
  "fresh_reg p rs \<longleftrightarrow> p_next p \<notin> set rs \<and> p_ids p + 1 < 2 ^ 64 \<and>
     (\<forall>r \<in> set rs. reg_id_of p r \<noteq> Some (p_ids p + 1))"

lemma register_code:
  assumes "p_tics p c = Some t" "zl_rep (reg_list t p) rs" "fresh_reg p rs"
    "register_wait ((flags AND WT_EXECUTEONLYONCE) OR WT_EXECUTEDEFAULT) = Some tp"
  obtains z where "ZLIST_PREPEND (p_next p) (reg_list t p) = Some z" "zl_rep z (p_next p # rs)"
    "TwapiThreadPoolRegister register_wait junk jtp cur c h flags u p =
       Some (p\<lparr>p_next := Suc (p_next p), p_ids := p_ids p + 1, p_reg_links := fst z,
               p_tics := (p_tics p)(c \<mapsto> t\<lparr>tic_regs := snd z, tic_nrefs := tic_nrefs t + 1\<rparr>),
               p_regs := (p_regs p)(p_next p \<mapsto> \<lparr>reg_handle = h, reg_tp_handle = tp, reg_tic = Some c,
                  reg_has_unreg = u, reg_id = p_ids p + 1, reg_nrefs = DWORD (junk + 2)\<rparr>)\<rparr>,
             Some (p_ids p + 1))"
proof -
  obtain z where z: "ZLIST_PREPEND (p_next p) (reg_list t p) = Some z" "zl_rep z (p_next p # rs)"
    using ZLIST_PREPEND_rep [OF assms(2), of "p_next p"] assms(3) unfolding fresh_reg_def by blast
  have "reg_list t (p\<lparr>p_next := Suc (p_next p), p_ids := p_ids p + 1\<rparr>) = reg_list t p"
    by (simp add: reg_list_def)
  with z assms show ?thesis
    by (intro that [OF z])
       (simp add: TwapiThreadPoolRegister_def Twapi_NewId_def Let_def set_reg_list_def upd_tic_def
          upd_reg_def TwapiInterpContextRef_def ExchangeAdd_def TwapiThreadPoolRegistrationRef_def
          fresh_reg_def)
qed

lemma register_ok:
  assumes inv: "regs_ok p c rs k" and fresh: "fresh_reg p rs"
    and w: "register_wait ((flags AND WT_EXECUTEONLYONCE) OR WT_EXECUTEDEFAULT) = Some tp"
  shows "\<exists>p1. TwapiThreadPoolRegister register_wait junk jtp cur c h flags u p = Some (p1, Some (p_ids p + 1)) \<and>
     regs_ok p1 c (p_next p # rs) k \<and>
     p_regs p1 (p_next p) = Some \<lparr>reg_handle = h, reg_tp_handle = tp, reg_tic = Some c,
                  reg_has_unreg = u, reg_id = p_ids p + 1, reg_nrefs = DWORD (junk + 2)\<rparr> \<and>
     p_unreg_calls p1 = p_unreg_calls p"
proof -
  from inv obtain t where T: "p_tics p c = Some t" "zl_rep (reg_list t p) rs"
    "tic_nrefs t = k + int (length rs)" "\<forall>r \<in> set rs. reg_good p c r" "distinct (map (reg_id_of p) rs)"
    by (rule regs_okE)
  let ?r = "p_next p" and ?i = "p_ids p + 1"
  from register_code [where register_wait = register_wait and flags = flags, OF T(1,2) fresh w, of junk jtp cur h u] obtain z p1 where z: "zl_rep z (?r # rs)"
    and code: "TwapiThreadPoolRegister register_wait junk jtp cur c h flags u p = Some (p1, Some ?i)"
    and p1: "p1 = p\<lparr>p_next := Suc (p_next p), p_ids := p_ids p + 1, p_reg_links := fst z,
               p_tics := (p_tics p)(c \<mapsto> t\<lparr>tic_regs := snd z, tic_nrefs := tic_nrefs t + 1\<rparr>),
               p_regs := (p_regs p)(p_next p \<mapsto> \<lparr>reg_handle = h, reg_tp_handle = tp, reg_tic = Some c,
                  reg_has_unreg = u, reg_id = p_ids p + 1, reg_nrefs = DWORD (junk + 2)\<rparr>)\<rparr>"
    by metis
  have nin: "?r \<notin> set rs" using fresh by (simp add: fresh_reg_def)
  have old: "p_regs p1 q = p_regs p q" if "q \<in> set rs" for q using nin that by (auto simp: p1)
  have ids: "map (reg_id_of p1) rs = map (reg_id_of p) rs" using old by (simp add: reg_id_of_def)
  have "\<forall>q \<in> set rs. reg_good p1 c q" using T(4) old by (simp add: reg_good_def)
  moreover have "reg_good p1 c ?r" by (simp add: reg_good_def p1)
  moreover have i: "reg_id_of p1 ?r = Some ?i" by (simp add: reg_id_of_def p1)
  moreover have "p_tics p1 c = Some (t\<lparr>tic_regs := snd z, tic_nrefs := tic_nrefs t + 1\<rparr>)"
    "p_reg_links p1 = fst z" by (simp_all add: p1)
  moreover have "distinct (map (reg_id_of p1) (?r # rs))"
  proof -
    have "Some ?i \<notin> reg_id_of p ` set rs" using fresh by (fastforce simp: fresh_reg_def)
    then show ?thesis using T(5) by (simp only: list.map distinct.simps ids i set_map) simp
  qed
  ultimately have "regs_ok p1 c (?r # rs) k"
    using z T(3) by (simp add: regs_ok_def reg_list_def del: list.map distinct.simps)
  with code show ?thesis by (auto simp: p1)
qed

section \<open>Properties\<close>

lemma reg_left_junk:
  "junk < 2 ^ 32 \<Longrightarrow> tp \<noteq> INVALID_HANDLE_VALUE \<Longrightarrow>
   reg_left \<lparr>reg_handle = h, reg_tp_handle = tp, reg_tic = c, reg_has_unreg = u, reg_id = i,
     reg_nrefs = DWORD (junk + 2)\<rparr> = junk"
proof -
  assume "junk < 2 ^ 32" "tp \<noteq> INVALID_HANDLE_VALUE"
  moreover have "(int ((junk + 2) mod 2 ^ 32) - 2) mod 2 ^ 32 = (int (junk + 2) - 2) mod 2 ^ 32"
    unfolding zmod_int by (simp add: mod_diff_left_eq)
  ultimately show ?thesis by (simp add: reg_left_def DWORD_def UDWORD_def)
qed

lemma unregister_registered:
  assumes "regs_ok p c rs k" "0 < k" "fresh_reg p rs" "h \<noteq> INVALID_HANDLE_VALUE" "junk < 2 ^ 32"
    and "register_wait ((flags AND WT_EXECUTEONLYONCE) OR WT_EXECUTEDEFAULT) = Some tp" "tp \<noteq> INVALID_HANDLE_VALUE"
  shows "\<exists>p1 i p2. TwapiThreadPoolRegister register_wait junk jtp cur c h flags u p = Some (p1, Some i) \<and>
     regs_ok p1 c (p_next p # rs) k \<and> TwapiThreadPoolUnregister cur' c i p1 = Some p2 \<and>
     regs_ok p2 c rs k \<and> i = p_ids p + 1 \<and>
     p_regs p2 (p_next p) = (if junk = 0 then None else Some \<lparr>reg_handle = INVALID_HANDLE_VALUE,
       reg_tp_handle = INVALID_HANDLE_VALUE, reg_tic = None, reg_has_unreg = u, reg_id = i, reg_nrefs = junk\<rparr>) \<and>
     (\<forall>r \<in> set rs. p_regs p2 r = p_regs p1 r \<and> reg_id_of p1 r \<noteq> Some i) \<and>
     p_unreg_calls p2 = p_unreg_calls p @ (if u then [(i, h)] else [])"
proof -
  let ?r = "p_next p" and ?i = "p_ids p + 1"
  let ?x = "\<lparr>reg_handle = h, reg_tp_handle = tp, reg_tic = Some c, reg_has_unreg = u, reg_id = ?i,
    reg_nrefs = DWORD (junk + 2)\<rparr>"
  from register_ok [where register_wait = register_wait and flags = flags, OF assms(1,3,6), of junk jtp cur h u]
  obtain p1 where p1: "TwapiThreadPoolRegister register_wait junk jtp cur c h flags u p = Some (p1, Some ?i)"
    "regs_ok p1 c (?r # rs) k" "p_regs p1 ?r = Some ?x" "p_unreg_calls p1 = p_unreg_calls p"
    by blast
  have "locate_reg c ?i p1 = Some (Some ?r)"
    by (rule regs_okE [OF p1(2)]) (simp add: locate_reg_def ZLIST_LOCATE_rep reg_id_of_def p1(3))
  moreover from shutdown_ok [OF p1(2) _ assms(2), of ?r cur'] obtain p2 where
    p2: "TwapiThreadPoolRegistrationShutdown cur' ?r p1 = Some p2" "regs_ok p2 c rs k"
    "only_reg_gone c ?r p1 p2" "p_unreg_calls p2 = p_unreg_calls p @ (if u then [(?i, h)] else [])"
    using p1(3,4) assms(4) by auto
  ultimately have "TwapiThreadPoolUnregister cur' c ?i p1 = Some p2"
    by (simp add: TwapiThreadPoolUnregister_def)
  moreover have "p_regs p2 ?r = reg_after ?x" using p2(3) p1(3) by (simp add: only_reg_gone_def)
  then have "p_regs p2 ?r = (if junk = 0 then None else Some \<lparr>reg_handle = INVALID_HANDLE_VALUE,
       reg_tp_handle = INVALID_HANDLE_VALUE, reg_tic = None, reg_has_unreg = u, reg_id = ?i, reg_nrefs = junk\<rparr>)"
    unfolding reg_after_def reg_left_junk [OF assms(5,7)] by simp
  moreover have "p_regs p2 r = p_regs p1 r \<and> reg_id_of p1 r \<noteq> Some ?i" if "r \<in> set rs" for r
  proof -
    have d: "distinct (?r # rs)" "distinct (map (reg_id_of p1) (?r # rs))"
      using p1(2) by (auto elim!: regs_okE simp: zl_rep_def)
    then have "r \<noteq> ?r" using that by auto
    moreover have "reg_id_of p1 r \<noteq> reg_id_of p1 ?r" using d(2) that by (auto simp: image_iff)
    ultimately show ?thesis using p2(3) p1(3) by (simp add: only_reg_gone_def reg_id_of_def)
  qed
  ultimately show ?thesis using p1(1,2) p2(2,4) by blast
qed

text \<open>
  C27. Unregistering what was registered undoes it, whatever the memory of the new registration
  held: the context is left with the registrations and the references it had, and the
  unregistration handler runs once, with the id that the registration returned and the
  handle. The block itself is freed exactly if the counter, which the code does not set,
  happened to be zero.
\<close>

theorem wait_unregister_undoes_register:
  assumes "regs_ok p c rs k" "0 < k" "fresh_reg p rs" "h \<noteq> INVALID_HANDLE_VALUE" "junk < 2 ^ 32"
    and "register_wait ((flags AND WT_EXECUTEONLYONCE) OR WT_EXECUTEDEFAULT) = Some tp" "tp \<noteq> INVALID_HANDLE_VALUE"
  shows "\<exists>p1 i p2. TwapiThreadPoolRegister register_wait junk jtp cur c h flags u p = Some (p1, Some i) \<and>
     regs_ok p1 c (p_next p # rs) k \<and> TwapiThreadPoolUnregister cur' c i p1 = Some p2 \<and>
     regs_ok p2 c rs k \<and> (p_regs p2 (p_next p) = None \<longleftrightarrow> junk = 0) \<and>
     p_unreg_calls p2 = p_unreg_calls p @ (if u then [(i, h)] else [])"
proof -
  from unregister_registered [where register_wait = register_wait and flags = flags, OF assms, of jtp cur u cur']
  obtain p1 i p2 where "TwapiThreadPoolRegister register_wait junk jtp cur c h flags u p = Some (p1, Some i)"
    "regs_ok p1 c (p_next p # rs) k" "TwapiThreadPoolUnregister cur' c i p1 = Some p2" "regs_ok p2 c rs k"
    "p_regs p2 (p_next p) = (if junk = 0 then None else Some \<lparr>reg_handle = INVALID_HANDLE_VALUE,
       reg_tp_handle = INVALID_HANDLE_VALUE, reg_tic = None, reg_has_unreg = u, reg_id = i, reg_nrefs = junk\<rparr>)"
    "p_unreg_calls p2 = p_unreg_calls p @ (if u then [(i, h)] else [])" by blast
  then show ?thesis by (intro exI [of _ p1] exI [of _ i] exI [of _ p2]) simp
qed

lemma demo_ctx_rest: "p_next demo_ctx = 101" "p_ids demo_ctx = 0" "p_unreg_calls demo_ctx = []"
  unfolding demo_ctx_def
  by (simp_all add: Twapi_AllocateInterpContext_def demo_proc_def Twapi_GetTls_def demo_tls_def
      TwapiInterpContextRef_def upd_tic_def ctx_list_def ZLIST_PREPEND_def ZLIST_ISEMPTY_def
      ZLIST_COUNT_def ZLIST_INIT_def set_ctx_list_def TwapiInterpContextNew_def ExchangeAdd_def Let_def)

lemma demo_ctx_fresh: "fresh_reg demo_ctx []"
  by (simp add: fresh_reg_def demo_ctx_rest)

theorem wait_unregister_undoes_register_witness:
  "\<exists>p1 i p2. TwapiThreadPoolRegister (\<lambda>_. Some 40) 3 0 1 100 5 8 True demo_ctx = Some (p1, Some i) \<and>
     TwapiThreadPoolUnregister 1 100 i p1 = Some p2 \<and> p_regs p2 101 \<noteq> None \<and> regs_ok p2 100 [] 2 \<and>
     p_unreg_calls p2 = [(i, 5)]"
  using wait_unregister_undoes_register [OF demo_ctx_regs _ demo_ctx_fresh, of 5 3 "\<lambda>_. Some 40" 8 40 0 1 True 1]
  by (auto simp: INVALID_HANDLE_VALUE_def demo_ctx_rest)

text \<open>
  The counter of a registration is not initialised: unless the fresh memory happens to hold
  zero, a registration is never freed, although it is taken off the list and its handlers
  have been called.
\<close>

theorem wait_registration_leaks:
  assumes "regs_ok p c rs k" "0 < k" "fresh_reg p rs" "h \<noteq> INVALID_HANDLE_VALUE" "0 < junk" "junk < 2 ^ 32"
    and "register_wait ((flags AND WT_EXECUTEONLYONCE) OR WT_EXECUTEDEFAULT) = Some tp" "tp \<noteq> INVALID_HANDLE_VALUE"
  shows "\<exists>p1 i p2 x. TwapiThreadPoolRegister register_wait junk jtp cur c h flags u p = Some (p1, Some i) \<and>
     TwapiThreadPoolUnregister cur c i p1 = Some p2 \<and> p_regs p2 (p_next p) = Some x \<and>
     reg_nrefs x = junk \<and> reg_tic x = None \<and> locate_reg c i p2 = Some None"
proof -
  from unregister_registered [where register_wait = register_wait and flags = flags, OF assms(1-4,6-8), of jtp cur u cur]
  obtain p1 i p2 where p: "TwapiThreadPoolRegister register_wait junk jtp cur c h flags u p = Some (p1, Some i)"
    "TwapiThreadPoolUnregister cur c i p1 = Some p2" "regs_ok p2 c rs k"
    "p_regs p2 (p_next p) = (if junk = 0 then None else Some \<lparr>reg_handle = INVALID_HANDLE_VALUE,
       reg_tp_handle = INVALID_HANDLE_VALUE, reg_tic = None, reg_has_unreg = u, reg_id = i, reg_nrefs = junk\<rparr>)"
    "\<forall>r \<in> set rs. p_regs p2 r = p_regs p1 r \<and> reg_id_of p1 r \<noteq> Some i" by blast
  have none: "find (\<lambda>r. reg_id_of p2 r = Some i) rs = None"
    using p(5) by (auto simp: find_None_conv reg_id_of_def)
  have "locate_reg c i p2 = Some None"
    by (rule regs_okE [OF p(3)]) (simp add: locate_reg_def ZLIST_LOCATE_rep none)
  with p(1,2,4) assms(5) show ?thesis by auto
qed

theorem wait_registration_leaks_witness:
  "\<exists>p1 i p2 x. TwapiThreadPoolRegister (\<lambda>_. Some 40) 1 0 1 100 5 8 True demo_ctx = Some (p1, Some i) \<and>
     TwapiThreadPoolUnregister 1 100 i p1 = Some p2 \<and> p_regs p2 101 = Some x \<and> reg_nrefs x = 1"
  using wait_registration_leaks [OF demo_ctx_regs _ demo_ctx_fresh, of 5 1 "\<lambda>_. Some 40" 8 40 0 1 True]
  by (auto simp: INVALID_HANDLE_VALUE_def demo_ctx_rest)

text \<open>
  A signal carries the id of the registration: when it is handled the registration with that
  id is called with its handle if it is still there, and the signal is dropped as stale
  otherwise; nothing is called once the interpreter is gone.
\<close>

theorem wait_signal_dispatch:
  assumes "regs_ok p c rs k" "p_tics p c = Some t"
  shows "TwapiThreadPoolRegistrationCallback deleted c i d p = Some
     (if tic_interp t = None \<or> deleted then SigError
      else case find (\<lambda>r. reg_id_of p r = Some i) rs of
             None \<Rightarrow> SigStale
           | Some r \<Rightarrow> SigCall c i (reg_handle (the (p_regs p r))) d)"
proof -
  from assms have T: "zl_rep (reg_list t p) rs" by (auto elim!: regs_okE)
  have "p_regs p r \<noteq> None" if "find (\<lambda>r. reg_id_of p r = Some i) rs = Some r" for r
    using find_Some_in [OF that] by (auto simp: reg_id_of_def)
  then show ?thesis
    using assms(2)
    by (auto simp: ZLIST_LOCATE_rep [OF T] TwapiThreadPoolRegistrationCallback_def locate_reg_def split: option.splits)
qed

theorem wait_signal_dispatch_witness:
  "TwapiThreadPoolRegistrationCallback False 100 1 0 demo_ctx = Some SigStale"
proof -
  obtain t where "p_tics demo_ctx 100 = Some t" "tic_interp t = Some 7" using demo_ctx_tic by blast
  with wait_signal_dispatch [OF demo_ctx_regs, of t False 1 0] show ?thesis by simp
qed

end
