(* ===== verification/Onetime.thy ===== *)
theory Onetime
  imports Prelude
begin

text \<open>
  \<open>TwapiDoOneTimeInit\<close> of \<open>base/util.c\<close>: the guard that lets one of several threads run an
  initialiser while the others wait. Every access to the shared state is an interlocked
  instruction; a step of the model is one such instruction of one thread.
\<close>

section \<open>The program of a thread\<close>

datatype init_state = NOT_DONE | IN_PROGRESS | INIT_DONE | INIT_ERROR

datatype init_pc = Enter | Running | Waiting | Returned nat

text \<open>
  One instruction: \<open>ok\<close> says whether the initialiser succeeds, in the step that runs it. The
  last component tells that the thread starts the initialiser.
\<close>

fun TwapiDoOneTimeInit :: "bool \<Rightarrow> init_state \<Rightarrow> init_pc \<Rightarrow> init_state \<times> init_pc \<times> bool" where
  "TwapiDoOneTimeInit ok s Enter = (case s of
      INIT_DONE \<Rightarrow> (s, Returned 3, False)
    | IN_PROGRESS \<Rightarrow> (s, Waiting, False)
    | NOT_DONE \<Rightarrow> (IN_PROGRESS, Running, True)
    | INIT_ERROR \<Rightarrow> (s, Returned 0, False))"
| "TwapiDoOneTimeInit ok s Waiting =
     (if s = INIT_DONE then (s, Returned 2, False)
      else if s \<noteq> IN_PROGRESS then (s, Returned 0, False)
      else (s, Waiting, False))"
| "TwapiDoOneTimeInit ok s Running =
     (if \<not> ok then (INIT_ERROR, Returned 0, False) else (INIT_DONE, Returned 1, False))"
| "TwapiDoOneTimeInit ok s (Returned r) = (s, Returned r, False)"

section \<open>Several threads\<close>

text \<open>
  The shared state, the threads, the number of times the initialiser was started, and what
  it returned each time it has ended: the last two are ghosts that record what happened.
\<close>

record init_world =
  iw_state :: init_state
  iw_pc :: "nat \<Rightarrow> init_pc"
  iw_runs :: nat
  iw_results :: "bool list"

definition init_turn :: "bool \<Rightarrow> nat \<Rightarrow> init_world \<Rightarrow> init_world" where
  "init_turn ok t w = (let (s, pc, ran) = TwapiDoOneTimeInit ok (iw_state w) (iw_pc w t)
     in \<lparr>iw_state = s, iw_pc = (iw_pc w)(t := pc), iw_runs = iw_runs w + (if ran then 1 else 0),
         iw_results = iw_results w @ (if iw_pc w t = Running then [ok] else [])\<rparr>)"

definition init_start :: init_world where
  "init_start = \<lparr>iw_state = NOT_DONE, iw_pc = (\<lambda>_. Enter), iw_runs = 0, iw_results = []\<rparr>"

inductive init_reach :: "init_world \<Rightarrow> bool" where
  start: "init_reach init_start"
| turn: "init_reach w \<Longrightarrow> init_reach (init_turn ok t w)"

text \<open>Turns of a schedule: which thread moves, and whether the initialiser succeeds if it ends then.\<close>

fun init_run :: "(nat \<times> bool) list \<Rightarrow> init_world \<Rightarrow> init_world" where
  "init_run [] w = w"
| "init_run ((t, ok) # ts) w = init_run ts (init_turn ok t w)"

lemma init_reach_run: "init_reach w \<Longrightarrow> init_reach (init_run ts w)"
  by (induction ts w rule: init_run.induct) (auto intro: init_reach.turn)

section \<open>Invariant\<close>

definition init_inv :: "init_world \<Rightarrow> bool" where
  "init_inv w \<longleftrightarrow>
     iw_runs w = (if iw_state w = NOT_DONE then 0 else 1) \<and>
     iw_results w = (case iw_state w of INIT_DONE \<Rightarrow> [True] | INIT_ERROR \<Rightarrow> [False] | _ \<Rightarrow> []) \<and>
     (iw_state w = IN_PROGRESS \<longleftrightarrow> (\<exists>t. iw_pc w t = Running)) \<and>
     (\<forall>t u. iw_pc w t = Running \<longrightarrow> iw_pc w u = Running \<longrightarrow> t = u) \<and>
     (\<forall>t. iw_pc w t = Returned 0 \<longrightarrow> iw_state w = INIT_ERROR) \<and>
     (\<forall>t r. iw_pc w t = Returned (Suc r) \<longrightarrow> iw_state w = INIT_DONE) \<and>
     (\<forall>t. iw_pc w t = Waiting \<longrightarrow> iw_state w \<noteq> NOT_DONE) \<and>
     (\<forall>t u. iw_pc w t = Returned 1 \<longrightarrow> iw_pc w u = Returned 1 \<longrightarrow> t = u)"

lemma init_turn_same:
  "iw_pc w t = Returned r \<or> iw_pc w t = Waiting \<and> iw_state w = IN_PROGRESS \<Longrightarrow> init_turn ok t w = w"
  by (auto simp: init_turn_def fun_upd_idem)

lemma init_inv_turn: "init_inv w \<Longrightarrow> init_inv (init_turn ok t w)"
proof (cases "(\<exists>r. iw_pc w t = Returned r) \<or> iw_pc w t = Waiting \<and> iw_state w = IN_PROGRESS")
  case True
  then show "init_inv w \<Longrightarrow> ?thesis" using init_turn_same by metis
next
  case False
  then show "init_inv w \<Longrightarrow> ?thesis"
    by (cases "iw_pc w t"; cases "iw_state w"; cases ok)
       (simp_all add: init_inv_def init_turn_def, (metis init_pc.distinct init_state.distinct nat.distinct)+)
qed

lemma init_reach_inv: "init_reach w \<Longrightarrow> init_inv w"
proof (induction rule: init_reach.induct)
  case start
  show ?case by (simp add: init_inv_def init_start_def)
next
  case (turn w ok t)
  then show ?case by (simp add: init_inv_turn)
qed

section \<open>Properties\<close>

text \<open>
  C3. Whatever the threads and their interleaving, the initialiser is started at most once; a
  thread that returns is told of success exactly when the initialiser has ended and returned
  true, of failure exactly when it has ended and returned false; and one thread at most is
  told that it did the work itself.
\<close>

theorem initialised_once:
  "init_run ts init_start = w \<Longrightarrow>
     iw_runs w \<le> 1 \<and>
     (iw_pc w t = Returned r \<longrightarrow> iw_results w = [r \<noteq> 0]) \<and>
     (iw_pc w t = Returned 1 \<and> iw_pc w u = Returned 1 \<longrightarrow> t = u)"
  using init_reach_inv [OF init_reach_run [OF init_reach.start], of ts]
  by (cases r) (auto simp: init_inv_def)

theorem initialised_once_witness:
  "iw_runs (init_run [(1, True), (2, True), (2, True), (1, False), (2, True)] init_start) \<le> 1 \<and>
   iw_pc (init_run [(1, True), (2, True), (2, True), (1, False), (2, True)] init_start) 2 = Returned 0 \<and>
   iw_results (init_run [(1, True), (2, True), (2, True), (1, False), (2, True)] init_start) = [False]"
proof -
  have "iw_pc (init_run [(1, True), (2, True), (2, True), (1, False), (2, True)] init_start) 2 = Returned 0"
    by (simp add: init_start_def init_turn_def)
  with initialised_once [of "[(1, True), (2, True), (2, True), (1, False), (2, True)]" _ 2 0 2, OF refl]
  show ?thesis by (simp del: init_run.simps)
qed

text \<open>
  Nobody waits in vain: in any reachable state a thread that waits has another thread that
  runs the initialiser, and as soon as that one ends, every waiting or new thread returns with
  its next instruction.
\<close>

theorem waiters_released:
  assumes "w = init_run ts init_start" "iw_pc w t = Waiting \<or> iw_pc w t = Enter"
    "iw_state w \<noteq> NOT_DONE"
  shows "(\<exists>u. iw_pc w u = Running \<and> u \<noteq> t \<and>
            (\<exists>r. iw_pc (init_turn ok' t (init_turn ok u w)) t = Returned r \<and> (0 < r \<longleftrightarrow> ok))) \<or>
         (\<exists>r. iw_pc (init_turn ok' t w) t = Returned r)"
proof -
  have I: "init_inv w" using init_reach_inv [OF init_reach_run [OF init_reach.start], of ts] assms(1) by simp
  show ?thesis
  proof (cases "iw_state w = IN_PROGRESS")
    case True
    with I obtain u where u: "iw_pc w u = Running" by (auto simp: init_inv_def)
    with assms(2) have "u \<noteq> t" by auto
    with u assms(2) show ?thesis by (cases ok) (auto simp: init_turn_def)
  next
    case False
    then have "iw_state w = INIT_DONE \<or> iw_state w = INIT_ERROR" using assms(3) by (cases "iw_state w") auto
    with assms(2) show ?thesis by (auto simp: init_turn_def)
  qed
qed

theorem waiters_released_witness:
  "\<exists>u r. iw_pc (init_run [(1, True), (2, True)] init_start) u = Running \<and>
     iw_pc (init_turn True 2 (init_turn True u (init_run [(1, True), (2, True)] init_start))) 2 = Returned r \<and> 0 < r"
proof -
  have w: "iw_pc (init_run [(1, True), (2, True)] init_start) 2 = Waiting"
    "iw_state (init_run [(1, True), (2, True)] init_start) = IN_PROGRESS"
    "\<not> (\<exists>r. iw_pc (init_turn True 2 (init_run [(1, True), (2, True)] init_start)) 2 = Returned r)"
    by (simp_all add: init_start_def init_turn_def)
  from waiters_released [OF refl, of "[(1, True), (2, True)]" 2 True True] w show ?thesis
    by (auto simp del: init_run.simps)
qed

end
