(* ===== verification/Pointers.thy ===== *)
theory Pointers
  imports Contexts
begin

text \<open>
  The registry of pointers that scripts may hold (\<open>base/twapi.c\<close>): a hash table from
  addresses to a type tag and a count. The Tcl hash table is a map; address and tag 0
  stand for the null pointer. A pointer is registered either plainly, once, or counted.
\<close>

section \<open>Operations\<close>

datatype twapi_code = TWAPI_NO_ERROR | TWAPI_INVALID_ARGS | TWAPI_BUFFER_OVERRUN
  | TWAPI_EXTRA_ARGS | TWAPI_BAD_ARG_COUNT | TWAPI_INTERNAL_LIMIT | TWAPI_INVALID_OPTION
  | TWAPI_INVALID_FUNCTION_CODE | TWAPI_BUG | TWAPI_UNKNOWN_OBJECT | TWAPI_SYSTEM_ERROR
  | TWAPI_REGISTER_WAIT_FAILED | TWAPI_BUG_INVALID_STATE_FOR_OP | TWAPI_OUT_OF_RANGE
  | TWAPI_UNSUPPORTED_TYPE | TWAPI_REGISTERED_POINTER_EXISTS
  | TWAPI_REGISTERED_POINTER_TAG_MISMATCH | TWAPI_REGISTERED_POINTER_NOTFOUND
  | TWAPI_NULL_POINTER | TWAPI_REGISTERED_POINTER_IS_NOT_COUNTED
  | TWAPI_INVALID_COMMAND_SCOPE | TWAPI_SCRIPT_ERROR | TWAPI_INVALID_DATA | TWAPI_INVALID_PTR

record TwapiRegisteredPointer =
  rp_tag :: nat
  rp_nrefs :: int

type_synonym pointers = "nat \<rightharpoonup> TwapiRegisteredPointer"

definition TwapiVerifyPointerTic :: "nat \<Rightarrow> nat \<Rightarrow> pointers \<Rightarrow> twapi_code" where
  "TwapiVerifyPointerTic p typetag ps = (case ps p of
      Some rP \<Rightarrow>
        if typetag \<noteq> 0 \<and> rp_tag rP \<noteq> 0 \<and> rp_tag rP \<noteq> typetag
        then TWAPI_REGISTERED_POINTER_TAG_MISMATCH else TWAPI_NO_ERROR
    | None \<Rightarrow> if p \<noteq> 0 then TWAPI_REGISTERED_POINTER_NOTFOUND else TWAPI_NULL_POINTER)"

text \<open>The other operations return the table and the code; \<open>TWAPI_NO_ERROR\<close> is \<open>TCL_OK\<close>.\<close>

definition TwapiRegisterPointerTic :: "nat \<Rightarrow> nat \<Rightarrow> pointers \<Rightarrow> pointers \<times> twapi_code" where
  "TwapiRegisterPointerTic p typetag ps =
     (if p = 0 then (ps, TWAPI_NULL_POINTER)
      else case ps p of
        None \<Rightarrow> (ps(p \<mapsto> \<lparr>rp_tag = typetag, rp_nrefs = - 1\<rparr>), TWAPI_NO_ERROR)
      | Some _ \<Rightarrow> (ps, TWAPI_REGISTERED_POINTER_EXISTS))"

definition TwapiRegisterCountedPointerTic :: "nat \<Rightarrow> nat \<Rightarrow> pointers \<Rightarrow> pointers \<times> twapi_code" where
  "TwapiRegisterCountedPointerTic p typetag ps =
     (if p = 0 then (ps, TWAPI_NULL_POINTER)
      else case ps p of
        None \<Rightarrow> (ps(p \<mapsto> \<lparr>rp_tag = typetag, rp_nrefs = 1\<rparr>), TWAPI_NO_ERROR)
      | Some rP \<Rightarrow>
          if rp_nrefs rP < 0 then (ps, TWAPI_REGISTERED_POINTER_IS_NOT_COUNTED)
          else if rp_tag rP \<noteq> typetag then (ps, TWAPI_REGISTERED_POINTER_TAG_MISMATCH)
          else (ps(p \<mapsto> rP\<lparr>rp_nrefs := rp_nrefs rP + 1\<rparr>), TWAPI_NO_ERROR))"

definition TwapiUnregisterPointerTic :: "nat \<Rightarrow> nat \<Rightarrow> pointers \<Rightarrow> pointers \<times> twapi_code" where
  "TwapiUnregisterPointerTic p typetag ps =
     (if p = 0 then (ps, TWAPI_NULL_POINTER)
      else case ps p of
        None \<Rightarrow> (ps, TWAPI_REGISTERED_POINTER_NOTFOUND)
      | Some rP \<Rightarrow>
          if rp_tag rP \<noteq> typetag then (ps, TWAPI_REGISTERED_POINTER_TAG_MISMATCH)
          else let n = rp_nrefs rP - 1
               in (if n \<le> 0 then ps(p := None) else ps(p \<mapsto> rP\<lparr>rp_nrefs := n\<rparr>), TWAPI_NO_ERROR))"

text \<open>
  The operations that take an interpreter work on the table of its base context; \<open>B\<close> holds
  the tables of the contexts that have one. Without base context they crash.
\<close>

definition with_base :: "interp \<Rightarrow> proc \<Rightarrow> (tid \<rightharpoonup> pointers) \<Rightarrow> (pointers \<Rightarrow> pointers \<times> 'r) \<Rightarrow>
    ((tid \<rightharpoonup> pointers) \<times> 'r) option" where
  "with_base itp p B f = do {
     r \<leftarrow> TwapiGetBaseContext itp p;
     c \<leftarrow> r;
     ps \<leftarrow> B c;
     let (ps', x) = f ps;
     Some (B(c \<mapsto> ps'), x) }"

definition TwapiVerifyPointer ::
    "interp \<Rightarrow> nat \<Rightarrow> nat \<Rightarrow> proc \<Rightarrow> (tid \<rightharpoonup> pointers) \<Rightarrow> ((tid \<rightharpoonup> pointers) \<times> twapi_code) option" where
  "TwapiVerifyPointer itp a tag p B = with_base itp p B (\<lambda>ps. (ps, TwapiVerifyPointerTic a tag ps))"

definition TwapiRegisterPointer ::
    "interp \<Rightarrow> nat \<Rightarrow> nat \<Rightarrow> proc \<Rightarrow> (tid \<rightharpoonup> pointers) \<Rightarrow> ((tid \<rightharpoonup> pointers) \<times> twapi_code) option" where
  "TwapiRegisterPointer itp a tag p B = with_base itp p B (TwapiRegisterPointerTic a tag)"

definition TwapiRegisterCountedPointer ::
    "interp \<Rightarrow> nat \<Rightarrow> nat \<Rightarrow> proc \<Rightarrow> (tid \<rightharpoonup> pointers) \<Rightarrow> ((tid \<rightharpoonup> pointers) \<times> twapi_code) option" where
  "TwapiRegisterCountedPointer itp a tag p B = with_base itp p B (TwapiRegisterCountedPointerTic a tag)"

definition TwapiUnregisterPointer ::
    "interp \<Rightarrow> nat \<Rightarrow> nat \<Rightarrow> proc \<Rightarrow> (tid \<rightharpoonup> pointers) \<Rightarrow> ((tid \<rightharpoonup> pointers) \<times> twapi_code) option" where
  "TwapiUnregisterPointer itp a tag p B = with_base itp p B (TwapiUnregisterPointerTic a tag)"

section \<open>Histories\<close>

datatype ptr_op = PRegister nat nat | PCounted nat nat | PUnregister nat nat

fun ptr_step :: "ptr_op \<Rightarrow> pointers \<Rightarrow> pointers \<times> twapi_code" where
  "ptr_step (PRegister p t) ps = TwapiRegisterPointerTic p t ps"
| "ptr_step (PCounted p t) ps = TwapiRegisterCountedPointerTic p t ps"
| "ptr_step (PUnregister p t) ps = TwapiUnregisterPointerTic p t ps"

text \<open>
  What a history leaves registered, computed from the successful operations only: for each
  pointer the tags of its registrations that are not yet undone, latest first.
\<close>

fun ptr_history :: "ptr_op \<Rightarrow> twapi_code \<Rightarrow> (nat \<Rightarrow> nat list) \<Rightarrow> nat \<Rightarrow> nat list" where
  "ptr_history (PRegister p t) c h = (if c = TWAPI_NO_ERROR then h(p := t # h p) else h)"
| "ptr_history (PCounted p t) c h = (if c = TWAPI_NO_ERROR then h(p := t # h p) else h)"
| "ptr_history (PUnregister p t) c h = (if c = TWAPI_NO_ERROR then h(p := tl (h p)) else h)"

fun ptr_run :: "ptr_op list \<Rightarrow> pointers \<times> (nat \<Rightarrow> nat list) \<Rightarrow> pointers \<times> (nat \<Rightarrow> nat list)" where
  "ptr_run [] s = s"
| "ptr_run (op # ops) (ps, h) =
     (let (ps', c) = ptr_step op ps in ptr_run ops (ps', ptr_history op c h))"

fun ptr_good :: "TwapiRegisteredPointer option \<Rightarrow> nat list \<Rightarrow> bool" where
  "ptr_good None k \<longleftrightarrow> k = []"
| "ptr_good (Some r) k \<longleftrightarrow>
     (if rp_nrefs r < 0 then rp_nrefs r = - 1 \<and> k = [rp_tag r]
      else 0 < rp_nrefs r \<and> k = replicate (nat (rp_nrefs r)) (rp_tag r))"

definition ptr_inv :: "pointers \<Rightarrow> (nat \<Rightarrow> nat list) \<Rightarrow> bool" where
  "ptr_inv ps h \<longleftrightarrow> ps 0 = None \<and> (\<forall>p. ptr_good (ps p) (h p))"

lemma ptr_inv_good: "ptr_inv ps h \<Longrightarrow> ps p = v \<Longrightarrow> ptr_good v (h p)"
  by (auto simp: ptr_inv_def)

lemma ptr_invD:
  "ptr_inv ps h \<Longrightarrow> ps p = None \<Longrightarrow> h p = []"
  "ptr_inv ps h \<Longrightarrow> ps p = Some r \<Longrightarrow> rp_nrefs r < 0 \<Longrightarrow> rp_nrefs r = - 1 \<and> h p = [rp_tag r]"
  "ptr_inv ps h \<Longrightarrow> ps p = Some r \<Longrightarrow> \<not> rp_nrefs r < 0 \<Longrightarrow>
     0 < rp_nrefs r \<and> h p = replicate (nat (rp_nrefs r)) (rp_tag r)"
  using ptr_inv_good [of ps h p "ps p"] by simp_all

lemma ptr_inv_null: "ptr_inv ps h \<Longrightarrow> ps 0 = None"
  by (simp add: ptr_inv_def)

lemma ptr_inv_upd: "ptr_inv ps h \<Longrightarrow> p \<noteq> 0 \<Longrightarrow> ptr_good v k \<Longrightarrow> ptr_inv (ps(p := v)) (h(p := k))"
  by (simp add: ptr_inv_def)

lemma ptr_inv_step:
  assumes "ptr_inv ps h"
  shows "ptr_inv (fst (ptr_step op ps)) (ptr_history op (snd (ptr_step op ps)) h)"
proof (cases op)
  case (PRegister p t)
  show ?thesis
  proof (cases "p = 0 \<or> ps p \<noteq> None")
    case True
    with PRegister assms show ?thesis by (auto simp: TwapiRegisterPointerTic_def)
  next
    case False
    then have "h p = []" using ptr_invD(1) [OF assms] by simp
    with False PRegister ptr_inv_upd [OF assms, where p = p and v = "Some \<lparr>rp_tag = t, rp_nrefs = - 1\<rparr>" and k = "[t]"]
    show ?thesis by (simp add: TwapiRegisterPointerTic_def)
  qed
next
  case (PCounted p t)
  show ?thesis
  proof (cases "ps p")
    case None
    then have "h p = []" using ptr_invD(1) [OF assms] by simp
    with None PCounted assms ptr_inv_upd [OF assms, where p = p and v = "Some \<lparr>rp_tag = t, rp_nrefs = 1\<rparr>" and k = "[t]"]
    show ?thesis by (simp add: TwapiRegisterCountedPointerTic_def)
  next
    case (Some r)
    show ?thesis
    proof (cases "p = 0 \<or> rp_nrefs r < 0 \<or> rp_tag r \<noteq> t")
      case True
      with Some PCounted assms show ?thesis by (auto simp: TwapiRegisterCountedPointerTic_def)
    next
      case False
      then have r: "0 < rp_nrefs r" "h p = replicate (nat (rp_nrefs r)) t"
        using ptr_invD(3) [OF assms Some] by auto
      then have "t # h p = replicate (nat (rp_nrefs r + 1)) t" by (simp add: nat_add_distrib)
      with r False Some PCounted
        ptr_inv_upd [OF assms, where p = p and v = "Some (r\<lparr>rp_nrefs := rp_nrefs r + 1\<rparr>)" and k = "t # h p"]
      show ?thesis by (simp add: TwapiRegisterCountedPointerTic_def)
    qed
  qed
next
  case (PUnregister p t)
  show ?thesis
  proof (cases "p = 0 \<or> ps p = None \<or> rp_tag (the (ps p)) \<noteq> t")
    case True
    with PUnregister assms show ?thesis by (auto simp: TwapiUnregisterPointerTic_def split: option.splits)
  next
    case False
    then obtain r where r: "ps p = Some r" "rp_tag r = t" "p \<noteq> 0" by auto
    show ?thesis
    proof (cases "rp_nrefs r \<le> 1")
      case True
      then have "tl (h p) = []"
        using ptr_invD(2,3) [OF assms r(1)] by (cases "rp_nrefs r < 0") auto
      with True r PUnregister ptr_inv_upd [OF assms r(3), where v = None and k = "[]"]
      show ?thesis by (simp add: TwapiUnregisterPointerTic_def)
    next
      case False
      then have "h p = replicate (nat (rp_nrefs r)) t" using ptr_invD(3) [OF assms r(1)] r(2) by simp
      then have "tl (h p) = replicate (nat (rp_nrefs r - 1)) t" by (simp add: nat_diff_distrib)
      with False r PUnregister ptr_inv_upd [OF assms r(3), where v = "Some (r\<lparr>rp_nrefs := rp_nrefs r - 1\<rparr>)" and k = "tl (h p)"]
      show ?thesis by (simp add: TwapiUnregisterPointerTic_def)
    qed
  qed
qed

lemma ptr_inv_run: "ptr_inv (fst s) (snd s) \<Longrightarrow> ptr_run ops s = (ps, h) \<Longrightarrow> ptr_inv ps h"
proof (induction ops s rule: ptr_run.induct)
  case (2 op ops ps0 h0)
  have "ptr_inv (fst (ptr_step op ps0)) (ptr_history op (snd (ptr_step op ps0)) h0)"
    using ptr_inv_step [of ps0 h0 op] "2.prems"(1) by simp
  with "2.IH" [OF refl prod.collapse] "2.prems"(2) show ?case by (simp add: Let_def split_beta)
qed simp

section \<open>Properties\<close>

text \<open>
  C30. After any history of registrations and unregistrations, failed ones included, a pointer
  is accepted exactly as long as it has more successful registrations than unregistrations,
  and only with the null tag, with the tag it was registered with, or when that was null.
\<close>

theorem pointer_verified_iff_registered:
  assumes "ptr_run ops (Map.empty, \<lambda>_. []) = (ps, h)"
  shows "TwapiVerifyPointerTic p tag ps = TWAPI_NO_ERROR \<longleftrightarrow>
     h p \<noteq> [] \<and> (tag = 0 \<or> hd (h p) = 0 \<or> hd (h p) = tag)"
proof -
  have inv: "ptr_inv ps h" using assms by (rule ptr_inv_run [rotated]) (simp add: ptr_inv_def)
  show ?thesis
  proof (cases "ps p")
    case None
    then show ?thesis using ptr_invD(1) [OF inv None] by (simp add: TwapiVerifyPointerTic_def)
  next
    case (Some r)
    have "h p \<noteq> [] \<and> hd (h p) = rp_tag r"
      using ptr_invD(2,3) [OF inv Some] by (cases "rp_nrefs r < 0") auto
    then show ?thesis using Some by (auto simp: TwapiVerifyPointerTic_def)
  qed
qed

theorem pointer_verified_iff_registered_witness:
  "TwapiVerifyPointerTic 8 3 (fst (ptr_run [PCounted 8 3, PCounted 8 3, PCounted 8 4, PUnregister 8 3]
     (Map.empty, \<lambda>_. []))) = TWAPI_NO_ERROR"
proof -
  let ?ops = "[PCounted 8 3, PCounted 8 3, PCounted 8 4, PUnregister 8 3]"
  have "snd (ptr_run ?ops (Map.empty, \<lambda>_. [])) 8 = [3]"
    by (simp add: TwapiRegisterCountedPointerTic_def TwapiUnregisterPointerTic_def)
  with pointer_verified_iff_registered [of ?ops "fst (ptr_run ?ops (Map.empty, \<lambda>_. []))"
      "snd (ptr_run ?ops (Map.empty, \<lambda>_. []))" 8 3]
  show ?thesis by (simp del: ptr_run.simps)
qed

text \<open>
  The two kinds of registration do not mix, and a failed operation changes nothing: a
  plainly registered pointer can be registered neither way again, cannot be unregistered with
  another tag, and is gone after one unregistration with its own.
\<close>

theorem pointer_kinds_exclusive:
  assumes "ptr_inv ps h" "ps p = Some r" "rp_nrefs r < 0" "t \<noteq> rp_tag r"
  shows "TwapiRegisterPointerTic p t' ps = (ps, TWAPI_REGISTERED_POINTER_EXISTS) \<and>
    TwapiRegisterCountedPointerTic p t' ps = (ps, TWAPI_REGISTERED_POINTER_IS_NOT_COUNTED) \<and>
    TwapiUnregisterPointerTic p (rp_tag r) ps = (ps(p := None), TWAPI_NO_ERROR) \<and>
    TwapiUnregisterPointerTic p t ps = (ps, TWAPI_REGISTERED_POINTER_TAG_MISMATCH)"
proof -
  have "p \<noteq> 0" using ptr_inv_null [OF assms(1)] assms(2) by (cases "p = 0") auto
  with assms show ?thesis
    by (simp add: TwapiRegisterPointerTic_def TwapiRegisterCountedPointerTic_def TwapiUnregisterPointerTic_def)
qed

theorem pointer_kinds_exclusive_witness:
  "TwapiRegisterCountedPointerTic 8 3 [8 \<mapsto> \<lparr>rp_tag = 3, rp_nrefs = - 1\<rparr>] =
     ([8 \<mapsto> \<lparr>rp_tag = 3, rp_nrefs = - 1\<rparr>], TWAPI_REGISTERED_POINTER_IS_NOT_COUNTED)"
  using pointer_kinds_exclusive [of "[8 \<mapsto> \<lparr>rp_tag = 3, rp_nrefs = - 1\<rparr>]" "(\<lambda>_. [])(8 := [3])" 8
      "\<lparr>rp_tag = 3, rp_nrefs = - 1\<rparr>" 4 3]
  by (simp add: ptr_inv_def)

end
