(* ===== verification/Atoms.thy ===== *)
theory Atoms
  imports Prelude
begin

text \<open>
  The atom table of a base context (\<open>base/twapi.c\<close>): one shared Tcl object per string.

  Tcl objects live in a heap that gives the string and the reference count of each. The Tcl
  hash table is the list of its entries in the order in which \<open>Tcl_FirstHashEntry\<close> and
  \<open>Tcl_NextHashEntry\<close> visit them; where a new entry goes is not specified by Tcl, and none
  of the properties depends on it.
\<close>

section \<open>Tcl objects\<close>

record obj_heap =
  oh_objs :: "nat \<rightharpoonup> string \<times> nat"
  oh_next :: nat

definition ObjFromString :: "string \<Rightarrow> obj_heap \<Rightarrow> obj_heap \<times> nat" where
  "ObjFromString s h = (h\<lparr>oh_objs := (oh_objs h)(oh_next h \<mapsto> (s, 0)), oh_next := Suc (oh_next h)\<rparr>, oh_next h)"

definition ObjIncrRefs :: "nat \<Rightarrow> obj_heap \<Rightarrow> obj_heap option" where
  "ObjIncrRefs x h = do {
     (s, n) \<leftarrow> oh_objs h x;
     Some (h\<lparr>oh_objs := (oh_objs h)(x \<mapsto> (s, n + 1))\<rparr>) }"

definition ObjDecrRefs :: "nat \<Rightarrow> obj_heap \<Rightarrow> obj_heap option" where
  "ObjDecrRefs x h = do {
     (s, n) \<leftarrow> oh_objs h x;
     Some (h\<lparr>oh_objs := (oh_objs h)(x := if n \<le> 1 then None else Some (s, n - 1))\<rparr>) }"

definition Tcl_IsShared :: "nat \<Rightarrow> obj_heap \<Rightarrow> bool option" where
  "Tcl_IsShared x h = map_option (\<lambda>(s, n). 1 < n) (oh_objs h x)"

section \<open>Operations\<close>

type_synonym atoms = "(string \<times> nat) list"

definition TwapiGetAtom :: "string \<Rightarrow> atoms \<times> obj_heap \<Rightarrow> ((atoms \<times> obj_heap) \<times> nat) option" where
  "TwapiGetAtom key s = (let (tab, h) = s in case map_of tab key of
      None \<Rightarrow> do {
        let (h1, objP) = ObjFromString key h;
        h2 \<leftarrow> ObjIncrRefs objP h1;
        Some (((key, objP) # tab, h2), objP) }
    | Some objP \<Rightarrow> Some (s, objP))"

text \<open>The loop of \<open>TwapiPurgeAtoms\<close>: the first argument holds the entries still to be visited.\<close>

fun TwapiPurgeAtoms :: "atoms \<Rightarrow> obj_heap \<Rightarrow> (atoms \<times> obj_heap) option" where
  "TwapiPurgeAtoms [] h = Some ([], h)"
| "TwapiPurgeAtoms ((key, objP) # tab) h = do {
     shared \<leftarrow> Tcl_IsShared objP h;
     if \<not> shared then do {
       h1 \<leftarrow> ObjDecrRefs objP h;
       TwapiPurgeAtoms tab h1 }
     else do {
       (tab', h1) \<leftarrow> TwapiPurgeAtoms tab h;
       Some ((key, objP) # tab', h1) } }"

text \<open>
  \<open>TwapiBaseModuleCleanup\<close>: drops every atom, deletes the table and then frees all the
  registered pointers, given by their number.
\<close>

fun cleanup_atoms :: "atoms \<Rightarrow> obj_heap \<Rightarrow> obj_heap option" where
  "cleanup_atoms [] h = Some h"
| "cleanup_atoms ((key, objP) # tab) h = Option.bind (ObjDecrRefs objP h) (cleanup_atoms tab)"

definition TwapiBaseModuleCleanup ::
    "bool \<Rightarrow> atoms \<Rightarrow> (nat \<rightharpoonup> 'p) \<Rightarrow> obj_heap \<Rightarrow> (atoms \<times> (nat \<rightharpoonup> 'p) \<times> obj_heap) option" where
  "TwapiBaseModuleCleanup has_base tab ps h =
     (if has_base then do { h' \<leftarrow> cleanup_atoms tab h; Some ([], Map.empty, h') }
      else Some (tab, ps, h))"

section \<open>Invariant\<close>

text \<open>Every entry is the string of a live object, on which the table holds a reference.\<close>

definition atoms_ok :: "atoms \<Rightarrow> obj_heap \<Rightarrow> bool" where
  "atoms_ok tab h \<longleftrightarrow> distinct (map fst tab) \<and> distinct (map snd tab) \<and>
     (\<forall>(k, x) \<in> set tab. \<exists>n. oh_objs h x = Some (k, n) \<and> 0 < n) \<and>
     (\<forall>x. oh_next h \<le> x \<longrightarrow> oh_objs h x = None)"

lemma atoms_ok_tl: "atoms_ok (e # tab) h \<Longrightarrow> atoms_ok tab h"
  by (auto simp: atoms_ok_def)

lemma atoms_ok_Cons:
  assumes "atoms_ok ((k, x) # tab) h"
  obtains n where "oh_objs h x = Some (k, n)" "0 < n" "x \<notin> snd ` set tab" "k \<notin> fst ` set tab"
  using assms by (auto simp: atoms_ok_def)

lemma atoms_ok_other:
  assumes "atoms_ok tab h" "x \<notin> snd ` set tab" "x < oh_next h"
  shows "atoms_ok tab (h\<lparr>oh_objs := (oh_objs h)(x := v)\<rparr>)"
proof -
  have "y \<noteq> x" if "(k, y) \<in> set tab" for k y using assms(2) that by (auto simp: rev_image_eqI)
  then show ?thesis using assms(1,3) by (fastforce simp: atoms_ok_def)
qed

lemma atoms_ok_live: "atoms_ok tab h \<Longrightarrow> oh_objs h x \<noteq> None \<Longrightarrow> x < oh_next h"
  unfolding atoms_ok_def by (meson not_le)

lemma GetAtom_ok:
  assumes "atoms_ok tab h"
  shows "\<exists>tab' h' x n. TwapiGetAtom key (tab, h) = Some ((tab', h'), x) \<and> atoms_ok tab' h' \<and>
     map_of tab' key = Some x \<and> oh_objs h' x = Some (key, n) \<and> 0 < n \<and> TwapiGetAtom key (tab', h') = Some ((tab', h'), x)"
proof (cases "map_of tab key")
  case None
  then have "key \<notin> fst ` set tab" by (simp add: map_of_eq_None_iff)
  moreover have "oh_objs h (oh_next h) = None" using assms by (simp add: atoms_ok_def)
  then have "oh_next h \<notin> snd ` set tab" using assms by (fastforce simp: atoms_ok_def)
  moreover have "y \<noteq> oh_next h" if "(k, y) \<in> set tab" for k y
    using calculation(2) that by (auto simp: rev_image_eqI)
  ultimately have "atoms_ok ((key, oh_next h) # tab)
      (h\<lparr>oh_next := Suc (oh_next h), oh_objs := (oh_objs h)(oh_next h \<mapsto> (key, 1))\<rparr>)"
    using assms by (fastforce simp: atoms_ok_def)
  with None show ?thesis
    by (simp add: TwapiGetAtom_def ObjFromString_def ObjIncrRefs_def)
next
  case (Some x)
  then have "(key, x) \<in> set tab" by (rule map_of_SomeD)
  with assms obtain n where "oh_objs h x = Some (key, n)" "0 < n" by (auto simp: atoms_ok_def)
  with Some assms show ?thesis by (simp add: TwapiGetAtom_def)
qed

text \<open>The objects a purge frees: those that only the table references.\<close>

definition unshared :: "obj_heap \<Rightarrow> nat \<Rightarrow> bool" where
  "unshared h x \<longleftrightarrow> (\<exists>k. oh_objs h x = Some (k, 1))"

lemma PurgeAtoms_ok:
  "atoms_ok tab h \<Longrightarrow> \<exists>h'. TwapiPurgeAtoms tab h = Some (filter (\<lambda>(k, x). \<not> unshared h x) tab, h') \<and>
     oh_next h' = oh_next h \<and>
     (\<forall>x. oh_objs h' x = (if x \<in> snd ` set tab \<and> unshared h x then None else oh_objs h x))"
proof (induction tab arbitrary: h)
  case (Cons e tab)
  obtain k x where e: "e = (k, x)" by (cases e)
  obtain n where n: "oh_objs h x = Some (k, n)" "0 < n" "x \<notin> snd ` set tab"
    using atoms_ok_Cons [OF Cons.prems [unfolded e]] by metis
  have ok: "atoms_ok tab h" using Cons.prems by (rule atoms_ok_tl)
  show ?case
  proof (cases "n = 1")
    case False
    then have "Tcl_IsShared x h = Some True" "\<not> unshared h x"
      using n by (auto simp: Tcl_IsShared_def unshared_def)
    with Cons.IH [OF ok] show ?thesis by (auto simp: e)
  next
    case True
    let ?h = "h\<lparr>oh_objs := (oh_objs h)(x := None)\<rparr>"
    have nin: "y \<noteq> x" if "(k', y) \<in> set tab" for k' y using n(3) that by (auto simp: rev_image_eqI)
    have code: "TwapiPurgeAtoms (e # tab) h = TwapiPurgeAtoms tab ?h"
      using n True by (simp add: e Tcl_IsShared_def ObjDecrRefs_def)
    have "atoms_ok tab ?h"
      using atoms_ok_live [OF ok] n(1) by (intro atoms_ok_other [OF ok n(3)]) auto
    from Cons.IH [OF this] obtain h' where h': "TwapiPurgeAtoms tab ?h =
        Some (filter (\<lambda>(k, x). \<not> unshared ?h x) tab, h')" "oh_next h' = oh_next ?h"
      "\<And>y. oh_objs h' y = (if y \<in> snd ` set tab \<and> unshared ?h y then None else oh_objs ?h y)"
      by blast
    have same: "unshared ?h y = unshared h y" if "y \<noteq> x" for y using that by (simp add: unshared_def)
    have "filter (\<lambda>(k, y). \<not> unshared ?h y) tab = filter (\<lambda>(k, y). \<not> unshared h y) tab"
      using nin same by (intro filter_cong) auto
    moreover have "unshared h x" using n True by (simp add: unshared_def)
    ultimately show ?thesis using h' same n(3) code by (auto simp: e)
  qed
qed simp

lemma cleanup_atoms_ok:
  "atoms_ok tab h \<Longrightarrow> \<exists>h'. cleanup_atoms tab h = Some h' \<and>
     (\<forall>x. oh_objs h' x = (if x \<notin> snd ` set tab then oh_objs h x
        else if unshared h x then None else map_option (\<lambda>(k, n). (k, n - 1)) (oh_objs h x)))"
proof (induction tab arbitrary: h)
  case (Cons e tab)
  obtain k x where e: "e = (k, x)" by (cases e)
  obtain n where n: "oh_objs h x = Some (k, n)" "0 < n" "x \<notin> snd ` set tab"
    using atoms_ok_Cons [OF Cons.prems [unfolded e]] by metis
  have ok: "atoms_ok tab h" using Cons.prems by (rule atoms_ok_tl)
  let ?v = "if n \<le> 1 then None else Some (k, n - 1)"
  let ?h = "h\<lparr>oh_objs := (oh_objs h)(x := ?v)\<rparr>"
  have "atoms_ok tab ?h"
    using atoms_ok_live [OF ok] n(1) by (intro atoms_ok_other [OF ok n(3)]) auto
  from Cons.IH [OF this] obtain h' where h': "cleanup_atoms tab ?h = Some h'"
    "\<And>y. oh_objs h' y = (if y \<notin> snd ` set tab then oh_objs ?h y
        else if unshared ?h y then None else map_option (\<lambda>(k, n). (k, n - 1)) (oh_objs ?h y))"
    by blast
  have same: "unshared ?h y = unshared h y" if "y \<noteq> x" for y using that by (simp add: unshared_def)
  have "cleanup_atoms (e # tab) h = Some h'" using n h'(1) by (simp add: e ObjDecrRefs_def)
  moreover have "unshared h x \<longleftrightarrow> n \<le> 1" using n by (auto simp: unshared_def)
  ultimately show ?case using h'(2) same n by (auto simp: e)
qed simp

section \<open>Properties\<close>

text \<open>
  An atom stands for its string, asking for it again gives the same object, and a purge
  removes and frees exactly the atoms that nobody but the table references: an atom that is
  in use survives, with its reference count.
\<close>

theorem atom_survives_purge_iff_used:
  assumes "atoms_ok tab h" "TwapiGetAtom key (tab, h) = Some ((tab', h'), x)"
  shows "oh_objs h' x \<noteq> None \<and> fst (the (oh_objs h' x)) = key \<and>
     TwapiGetAtom key (tab', h') = Some ((tab', h'), x) \<and>
     (\<exists>h''. TwapiPurgeAtoms tab' h' = Some (filter (\<lambda>(k, y). \<not> unshared h' y) tab', h'') \<and>
        (\<forall>y \<in> snd ` set tab'. oh_objs h'' y = (if unshared h' y then None else oh_objs h' y)))"
proof -
  from GetAtom_ok [OF assms(1), of key] assms(2) obtain n where
    g: "atoms_ok tab' h'" "oh_objs h' x = Some (key, n)" "TwapiGetAtom key (tab', h') = Some ((tab', h'), x)"
    by auto
  from PurgeAtoms_ok [OF g(1)] obtain h'' where
    "TwapiPurgeAtoms tab' h' = Some (filter (\<lambda>(k, y). \<not> unshared h' y) tab', h'')"
    "\<forall>y \<in> snd ` set tab'. oh_objs h'' y = (if unshared h' y then None else oh_objs h' y)"
    by auto
  with g show ?thesis by auto
qed

theorem atom_survives_purge_iff_used_witness:
  "\<exists>h''. TwapiPurgeAtoms [(''a'', 0)] \<lparr>oh_objs = [0 \<mapsto> (''a'', 1)], oh_next = 1\<rparr> = Some ([], h'') \<and>
     oh_objs h'' 0 = None"
proof -
  let ?h = "\<lparr>oh_objs = Map.empty, oh_next = 0\<rparr>"
  have "TwapiGetAtom ''a'' ([], ?h) = Some (([(''a'', 0)], \<lparr>oh_objs = [0 \<mapsto> (''a'', 1)], oh_next = 1\<rparr>), 0)"
    by (simp add: TwapiGetAtom_def ObjFromString_def ObjIncrRefs_def)
  from atom_survives_purge_iff_used [OF _ this] show ?thesis
    by (auto simp: atoms_ok_def unshared_def)
qed

text \<open>
  The clean-up of the base module drops the table's reference on every atom: the atoms in
  use elsewhere lose exactly one reference, the others are freed, and both tables end empty.
\<close>

theorem base_cleanup_drops_atoms:
  assumes "atoms_ok tab h"
  shows "\<exists>h'. TwapiBaseModuleCleanup True tab ps h = Some ([], Map.empty, h') \<and>
     (\<forall>(k, x) \<in> set tab. oh_objs h' x =
        (if unshared h x then None else Some (k, snd (the (oh_objs h x)) - 1)))"
proof -
  from cleanup_atoms_ok [OF assms] obtain h' where h': "cleanup_atoms tab h = Some h'"
    "\<And>x. oh_objs h' x = (if x \<notin> snd ` set tab then oh_objs h x
        else if unshared h x then None else map_option (\<lambda>(k, n). (k, n - 1)) (oh_objs h x))"
    by blast
  have "oh_objs h' x = (if unshared h x then None else Some (k, snd (the (oh_objs h x)) - 1))"
    if "(k, x) \<in> set tab" for k x
  proof -
    from that assms obtain n where "oh_objs h x = Some (k, n)" by (auto simp: atoms_ok_def)
    moreover have "x \<in> snd ` set tab" using that by (auto simp: rev_image_eqI)
    ultimately show ?thesis by (simp add: h'(2))
  qed
  with h'(1) show ?thesis by (auto simp: TwapiBaseModuleCleanup_def)
qed

theorem base_cleanup_drops_atoms_witness:
  "\<exists>h'. TwapiBaseModuleCleanup True [(''a'', 0)] [8 \<mapsto> ()] \<lparr>oh_objs = [0 \<mapsto> (''a'', 2)], oh_next = 1\<rparr> =
     Some ([], Map.empty, h') \<and> oh_objs h' 0 = Some (''a'', 1)"
proof -
  have "atoms_ok [(''a'', 0)] \<lparr>oh_objs = [0 \<mapsto> (''a'', 2)], oh_next = 1\<rparr>" by (auto simp: atoms_ok_def)
  from base_cleanup_drops_atoms [OF this, of "[8 \<mapsto> ()]"] show ?thesis by (auto simp: unshared_def)
qed

end
