(* ===== verification/Async.thy ===== *)
theory Async
  imports Contexts_Cleanup "HOL-Library.Multiset"
begin

text \<open>
  Callbacks from notification threads into the Tcl event loop (\<open>base/async.c\<close>) and the
  evaluation of their scripts (\<open>base/util.c\<close>).

  A notification thread creates a callback and enqueues an event for the thread of a context;
  it may wait for the response. The Tcl thread handles the event. The program counter of the
  notification thread of each callback is part of the state (\<open>sender\<close>), and so are the event
  queues and the events that a Tcl thread has started to handle. The functions that block or
  that another thread may interleave with are cut where they do: \<open>TwapiEnqueueCallback\<close>
  before its wait, \<open>Twapi_TclEventProc\<close> after it has signalled the completion event.
\<close>

section \<open>Callbacks\<close>

datatype response = TRT_EMPTY | TRT_CHARS_DYNAMIC string | TRT_UNICODE_DYNAMIC string
  | TRT_LONG int | TRT_INT int | TRT_DWORD nat | TRT_BOOL bool

text \<open>\<open>TwapiClearResult\<close> frees what the result owns and makes it empty.\<close>

definition TwapiClearResult :: "response \<Rightarrow> response" where
  "TwapiClearResult r = TRT_EMPTY"

record cb =
  cb_tic :: "tid option"
  cb_callback :: nat
  cb_nrefs :: int
  cb_event :: "bool option"
  cb_winerr :: nat
  cb_response :: response
  cb_deletions :: nat

datatype sender = Fresh | Fired | Waiting | Owns | Finished nat | TimedOut nat | NotSupported

record async =
  a_proc :: proc
  a_cbs :: "nat \<rightharpoonup> cb"
  a_next :: nat
  a_queue :: "(thread \<times> nat) list"
  a_handling :: "(thread \<times> nat) list"
  a_sender :: "nat \<Rightarrow> sender"

definition ERROR_NOT_SUPPORTED :: nat where "ERROR_NOT_SUPPORTED = 50"

definition ERROR_BAD_ARGUMENTS :: nat where "ERROR_BAD_ARGUMENTS = 160"

definition upd_cb :: "nat \<Rightarrow> cb \<Rightarrow> async \<Rightarrow> async" where
  "upd_cb i x a = a\<lparr>a_cbs := (a_cbs a)(i \<mapsto> x)\<rparr>"

definition set_sender :: "nat \<Rightarrow> sender \<Rightarrow> async \<Rightarrow> async" where
  "set_sender i s a = a\<lparr>a_sender := (a_sender a)(i := s)\<rparr>"

text \<open>\<open>hdr\<close> is the size of the \<open>TwapiCallback\<close> structure.\<close>

definition TwapiCallbackNew :: "nat \<Rightarrow> nat \<Rightarrow> nat \<Rightarrow> async \<Rightarrow> async \<times> nat ptr" where
  "TwapiCallbackNew hdr callback sz a =
     (if sz < hdr then (a, None)
      else let i = a_next a;
               x = \<lparr>cb_tic = None, cb_callback = callback, cb_nrefs = 0, cb_event = None,
                    cb_winerr = 0, cb_response = TRT_EMPTY, cb_deletions = 0\<rparr>
           in (upd_cb i x (a\<lparr>a_next := Suc i\<rparr>), Some i))"

definition TwapiCallbackDelete :: "nat ptr \<Rightarrow> async \<Rightarrow> async option" where
  "TwapiCallbackDelete cbP a = do {
     i \<leftarrow> cbP;
     x \<leftarrow> a_cbs a i;
     Some (upd_cb i (x\<lparr>cb_response := TwapiClearResult (cb_response x),
                       cb_deletions := Suc (cb_deletions x)\<rparr>) a) }"

definition TwapiCallbackRef :: "nat \<Rightarrow> int \<Rightarrow> async \<Rightarrow> async option" where
  "TwapiCallbackRef i n a = do {
     x \<leftarrow> a_cbs a i;
     Some (upd_cb i (x\<lparr>cb_nrefs := fst (ExchangeAdd (cb_nrefs x) n)\<rparr>) a) }"

definition TwapiCallbackUnref :: "nat \<Rightarrow> int \<Rightarrow> async \<Rightarrow> async option" where
  "TwapiCallbackUnref i decr a = do {
     x \<leftarrow> a_cbs a i;
     let (n, old) = ExchangeAdd (cb_nrefs x) (- decr);
     let a1 = upd_cb i (x\<lparr>cb_nrefs := n\<rparr>) a;
     if old \<le> decr then TwapiCallbackDelete (Some i) a1 else Some a1 }"

section \<open>Enqueueing\<close>

definition TwapiEnqueueTclEvent :: "tid \<Rightarrow> nat \<Rightarrow> async \<Rightarrow> async option" where
  "TwapiEnqueueTclEvent c i a = do {
     t \<leftarrow> p_tics (a_proc a) c;
     Some (a\<lparr>a_queue := a_queue a @ [(tic_thread t, i)]\<rparr>) }"

text \<open>
  \<open>TwapiEnqueueCallback\<close> up to its wait. \<open>event_error\<close>: the error of \<open>CreateEvent\<close> if it
  fails. The result is what the function returns, or \<open>None\<close> when it goes on to wait.
\<close>

definition TwapiEnqueueCallback ::
    "tid \<Rightarrow> nat \<Rightarrow> bool \<Rightarrow> nat \<Rightarrow> nat option \<Rightarrow> async \<Rightarrow> (async \<times> nat option) option" where
  "TwapiEnqueueCallback c i enqueue_async timeout event_error a = do {
     x \<leftarrow> a_cbs a i;
     if timeout \<noteq> 0 \<and> event_error \<noteq> None
     then do {
       a' \<leftarrow> TwapiCallbackDelete (Some i) a;
       Some (set_sender i (Finished (the event_error)) a', event_error) }
     else do {
       let a1 = (if timeout \<noteq> 0 then upd_cb i (x\<lparr>cb_event := Some False\<rparr>) a else a);
       if enqueue_async
       then Some (set_sender i NotSupported a1, Some ERROR_NOT_SUPPORTED)
       else do {
         a2 \<leftarrow> TwapiCallbackRef i (if timeout \<noteq> 0 then 2 else 1) a1;
         x2 \<leftarrow> a_cbs a2 i;
         let a3 = upd_cb i (x2\<lparr>cb_tic := Some c\<rparr>) a2;
         p \<leftarrow> TwapiInterpContextRef c 1 (a_proc a3);
         a4 \<leftarrow> TwapiEnqueueTclEvent c i (a3\<lparr>a_proc := p\<rparr>);
         Some (if timeout = 0 then (set_sender i Fired a4, Some 0)
               else (set_sender i Waiting a4, None)) } } }"

text \<open>
  The rest, when the wait ends: \<open>wait_error\<close> is \<open>None\<close> when the event was signalled (it is
  reset by that), the code of a timeout or of a failed wait otherwise.
\<close>

definition enqueue_wait :: "nat \<Rightarrow> nat option \<Rightarrow> bool \<Rightarrow> async \<Rightarrow> (async \<times> nat) option" where
  "enqueue_wait i wait_error wants_response a = do {
     x \<leftarrow> a_cbs a i;
     (case wait_error of
        Some e \<Rightarrow> Some (set_sender i (TimedOut e) a, e)
      | None \<Rightarrow> do {
          let winerr = cb_winerr x;
          let a1 = upd_cb i (x\<lparr>cb_event := Some False\<rparr>) a;
          if wants_response then Some (set_sender i Owns a1, winerr)
          else do {
            a2 \<leftarrow> TwapiCallbackUnref i 1 a1;
            Some (set_sender i (Finished winerr) a2, winerr) } }) }"

section \<open>Handling\<close>

text \<open>
  \<open>Twapi_TclEventProc\<close> for the first event of thread \<open>th\<close>, up to \<open>SetEvent\<close>; \<open>flags_ok\<close>: the
  flags ask for window or file events. The function that the callback stands for is a parameter: whether
  it succeeds, and the error and response it leaves. The result is what Tcl sees: 0 keeps the
  event in the queue.
\<close>

definition Twapi_TclEventProc ::
    "(cb \<Rightarrow> bool \<times> nat \<times> response) \<Rightarrow> thread \<Rightarrow> bool \<Rightarrow> async \<Rightarrow> (async \<times> nat) option" where
  "Twapi_TclEventProc run th flags_ok a = do {
     e \<leftarrow> find (\<lambda>e. fst e = th) (a_queue a);
     if \<not> flags_ok then Some (a, 0)
     else do {
       x \<leftarrow> a_cbs a (snd e);
       let (ok, w, r) = run x;
       let x1 = (if \<not> ok then x\<lparr>cb_winerr := ERROR_BAD_ARGUMENTS, cb_response := TwapiClearResult r\<rparr>
                 else x\<lparr>cb_winerr := w, cb_response := r\<rparr>);
       let x2 = x1\<lparr>cb_event := map_option (\<lambda>_. True) (cb_event x)\<rparr>;
       Some ((upd_cb (snd e) x2 a)\<lparr>a_queue := remove1 e (a_queue a), a_handling := e # a_handling a\<rparr>, 1) } }"

text \<open>The end of the same function.\<close>

definition eventproc_release :: "thread \<Rightarrow> async \<Rightarrow> async option" where
  "eventproc_release th a = do {
     e \<leftarrow> find (\<lambda>e. fst e = th) (a_handling a);
     x \<leftarrow> a_cbs a (snd e);
     c \<leftarrow> cb_tic x;
     p \<leftarrow> TwapiInterpContextUnref th c 1 (a_proc a);
     let a1 = (upd_cb (snd e) (x\<lparr>cb_tic := None\<rparr>) a)\<lparr>a_proc := p\<rparr>;
     a2 \<leftarrow> TwapiCallbackUnref (snd e) 1 a1;
     Some (a2\<lparr>a_handling := remove1 e (a_handling a2)\<rparr>) }"

text \<open>The caller that was given the response drops its reference.\<close>

definition owner_unref :: "nat \<Rightarrow> async \<Rightarrow> async option" where
  "owner_unref i a = do {
     a' \<leftarrow> TwapiCallbackUnref i 1 a;
     Some (set_sender i (Finished 0) a') }"

section \<open>Reference counting of callbacks\<close>

definition cb_refs :: "nat \<Rightarrow> async \<Rightarrow> int" where
  "cb_refs i a = (case a_cbs a i of None \<Rightarrow> 0 | Some x \<Rightarrow> cb_nrefs x)"

definition cb_dels :: "nat \<Rightarrow> async \<Rightarrow> nat" where
  "cb_dels i a = (case a_cbs a i of None \<Rightarrow> 0 | Some x \<Rightarrow> cb_deletions x)"

interpretation cbs: refcounted "\<lambda>a. a_cbs a i \<noteq> None" "cb_refs i" "cb_dels i"
    "TwapiCallbackRef i" "TwapiCallbackUnref i"
  by unfold_locales (auto simp: TwapiCallbackRef_def TwapiCallbackUnref_def TwapiCallbackDelete_def
      cb_refs_def cb_dels_def ExchangeAdd_def upd_cb_def Let_def)

section \<open>Steps\<close>

text \<open>
  References of a context that are not held by pending events: those of its interpreter, of the
  list, and of callers.
\<close>

definition pendingM :: "async \<Rightarrow> nat multiset" where
  "pendingM a = mset (map snd (a_queue a)) + mset (map snd (a_handling a))"

definition tic_of :: "async \<Rightarrow> nat \<Rightarrow> tid option" where
  "tic_of a i = Option.bind (a_cbs a i) cb_tic"

definition pend :: "async \<Rightarrow> tid \<Rightarrow> nat" where
  "pend a c = size (filter_mset (\<lambda>i. tic_of a i = Some c) (pendingM a))"

definition outside :: "async \<Rightarrow> tid \<Rightarrow> int" where
  "outside a c = ctx_refs c (a_proc a) - int (pend a c)"

text \<open>
  What can happen. A caller that enqueues holds a reference on the context (the comment of the
  function demands it) and uses a new callback; the other holders of a context drop no more
  references than they have.
\<close>

inductive astep :: "async \<Rightarrow> async \<Rightarrow> bool" where
  new: "TwapiCallbackNew hdr f sz a = (a', r) \<Longrightarrow> astep a a'"
| send: "a_sender a i = Fresh \<Longrightarrow> 0 < outside a c \<Longrightarrow>
     TwapiEnqueueCallback c i as timeout ev a = Some (a', r) \<Longrightarrow> astep a a'"
| wake: "a_sender a i = Waiting \<Longrightarrow> w = None \<longrightarrow> (\<exists>x. a_cbs a i = Some x \<and> cb_event x = Some True) \<Longrightarrow>
     enqueue_wait i w wants a = Some (a', n) \<Longrightarrow> astep a a'"
| handle: "Twapi_TclEventProc run th flags_ok a = Some (a', n) \<Longrightarrow> astep a a'"
| release: "eventproc_release th a = Some a' \<Longrightarrow> astep a a'"
| owner: "a_sender a i = Owns \<Longrightarrow> owner_unref i a = Some a' \<Longrightarrow> astep a a'"
| hold: "0 < outside a c \<Longrightarrow> 0 < n \<Longrightarrow> TwapiInterpContextRef c n (a_proc a) = Some p \<Longrightarrow>
     astep a (a\<lparr>a_proc := p\<rparr>)"
| drop: "0 < n \<Longrightarrow> n \<le> outside a c \<Longrightarrow> TwapiInterpContextUnref th c n (a_proc a) = Some p \<Longrightarrow>
     astep a (a\<lparr>a_proc := p\<rparr>)"

definition async_start :: "proc \<Rightarrow> async" where
  "async_start p = \<lparr>a_proc = p, a_cbs = Map.empty, a_next = 0, a_queue = [], a_handling = [],
     a_sender = (\<lambda>_. Fresh)\<rparr>"

end
