(* ===== verification/Async_Inv.thy ===== *)
theory Async_Inv
  imports Async
begin

text \<open>
  The reference accounting of callbacks and contexts: an invariant of all steps of \<open>Async\<close>.
\<close>

section \<open>The invariant\<close>

text \<open>The references that the notification thread of a callback holds.\<close>

fun share :: "sender \<Rightarrow> nat" where
  "share Waiting = 1"
| "share Owns = 1"
| "share (TimedOut e) = 1"
| "share _ = 0"

text \<open>
  \<open>cb_good x s q h\<close>: callback \<open>x\<close> whose sender is at \<open>s\<close> and that is \<open>q\<close> times queued and
  \<open>h\<close> times being handled.
\<close>

definition cb_good :: "cb \<Rightarrow> sender \<Rightarrow> nat \<Rightarrow> nat \<Rightarrow> bool" where
  "cb_good x s q h \<longleftrightarrow> cb_nrefs x = int (q + h + share s) \<and>
     cb_deletions x = (if q + h + share s = 0 \<and> s \<noteq> Fresh \<and> s \<noteq> NotSupported then 1 else 0) \<and>
     (s = Fresh \<or> s = NotSupported \<longrightarrow> q + h = 0) \<and>
     (s = Waiting \<longrightarrow> cb_event x = Some (q = 0)) \<and>
     (s = Owns \<or> (\<exists>n. s = Finished n) \<longrightarrow> q = 0)"

definition cnt :: "(thread \<times> nat) list \<Rightarrow> nat \<Rightarrow> nat" where
  "cnt q i = count (mset (map snd q)) i"

definition cb_ok :: "async \<Rightarrow> nat \<Rightarrow> bool" where
  "cb_ok a i \<longleftrightarrow> cnt (a_queue a) i + cnt (a_handling a) i \<le> 1 \<and>
     (case a_cbs a i of
        None \<Rightarrow> a_sender a i = Fresh \<and> cnt (a_queue a) i + cnt (a_handling a) i = 0
      | Some x \<Rightarrow> cb_good x (a_sender a i) (cnt (a_queue a) i) (cnt (a_handling a) i) \<and>
          i < a_next a \<and>
          (0 < cnt (a_queue a) i + cnt (a_handling a) i \<longrightarrow>
             (\<exists>c. cb_tic x = Some c \<and> c \<in> dom (p_tics (a_proc a)))))"

definition ctx_good :: "tic \<Rightarrow> nat \<Rightarrow> bool" where
  "ctx_good t k \<longleftrightarrow> int k \<le> tic_nrefs t \<and> tic_deletions t = (if tic_nrefs t = 0 then 1 else 0)"

definition ctx_ok :: "async \<Rightarrow> tid \<Rightarrow> bool" where
  "ctx_ok a c \<longleftrightarrow> (case p_tics (a_proc a) c of None \<Rightarrow> pend a c = 0 | Some t \<Rightarrow> ctx_good t (pend a c))"

definition a_inv :: "async \<Rightarrow> bool" where
  "a_inv a \<longleftrightarrow> (\<forall>i. cb_ok a i) \<and> (\<forall>c. ctx_ok a c)"

section \<open>Counting\<close>

lemma cnt_simps [simp]:
  "cnt [] i = 0" "cnt (e # q) i = cnt q i + (if snd e = i then 1 else 0)"
  "cnt (q @ q') i = cnt q i + cnt q' i"
  by (simp_all add: cnt_def)

lemma cnt_pos: "e \<in> set q \<Longrightarrow> 0 < cnt q (snd e)"
  by (induction q) auto

lemma cnt_remove1: "e \<in> set q \<Longrightarrow> cnt q i = cnt (remove1 e q) i + (if snd e = i then 1 else 0)"
  by (induction q) auto

lemma count_pendingM: "count (pendingM a) i = cnt (a_queue a) i + cnt (a_handling a) i"
  by (simp add: pendingM_def cnt_def)

lemma pend_add:
  assumes "pendingM a' = add_mset i (pendingM a)" "i \<notin># pendingM a"
    and "\<And>j. j \<noteq> i \<Longrightarrow> tic_of a' j = tic_of a j"
  shows "pend a' d = pend a d + (if tic_of a' i = Some d then 1 else 0)"
proof -
  have "filter_mset (\<lambda>j. tic_of a' j = Some d) (pendingM a) = filter_mset (\<lambda>j. tic_of a j = Some d) (pendingM a)"
    using assms(2,3) by (intro filter_mset_cong) metis+
  then show ?thesis using assms(1) by (simp add: pend_def)
qed

lemma pend_same:
  assumes "pendingM a' = pendingM a" "\<And>j. j \<in># pendingM a \<Longrightarrow> tic_of a' j = tic_of a j"
  shows "pend a' d = pend a d"
proof -
  have "filter_mset (\<lambda>j. tic_of a' j = Some d) (pendingM a) = filter_mset (\<lambda>j. tic_of a j = Some d) (pendingM a)"
    using assms(2) by (intro filter_mset_cong) simp_all
  then show ?thesis using assms(1) by (simp add: pend_def)
qed

lemma find_in: "find P xs = Some x \<Longrightarrow> x \<in> set xs"
  using find_Some_in by fast

section \<open>What the operations do to contexts\<close>

lemma Ref_tics:
  assumes "TwapiInterpContextRef c n p = Some p'"
  obtains t where "p_tics p c = Some t" "p_tics p' = (p_tics p)(c \<mapsto> t\<lparr>tic_nrefs := tic_nrefs t + n\<rparr>)"
  using assms by (cases "p_tics p c") (auto simp: TwapiInterpContextRef_def ExchangeAdd_def)

lemma Unref_tics:
  assumes "TwapiInterpContextUnref cur c n p = Some p'"
  obtains t t' where "p_tics p c = Some t" "p_tics p' = (p_tics p)(c \<mapsto> t')"
    "tic_nrefs t' = tic_nrefs t - n"
    "tic_deletions t' = tic_deletions t + (if tic_nrefs t \<le> n then 1 else 0)"
proof (cases "p_tics p c")
  case None
  with assms show ?thesis by (simp add: TwapiInterpContextUnref_def)
next
  case (Some t)
  show ?thesis
  proof (cases "tic_nrefs t \<le> n")
    case False
    with assms Some show ?thesis
      by (intro that [of t "t\<lparr>tic_nrefs := tic_nrefs t - n\<rparr>"])
         (auto simp: TwapiInterpContextUnref_def ExchangeAdd_def)
  next
    case True
    with assms Some show ?thesis
      by (intro that [of t "t\<lparr>tic_nrefs := tic_nrefs t - n, tic_lock := False, tic_window := False,
            tic_deletions := Suc (tic_deletions t)\<rparr>"])
         (auto simp: TwapiInterpContextUnref_def TwapiInterpContextDelete_def ExchangeAdd_def
           dest!: TlsUnref_tics)
  qed
qed

lemma ctx_good_add:
  "ctx_good t k \<Longrightarrow> 0 < n \<Longrightarrow> 0 < tic_nrefs t \<Longrightarrow> ctx_good (t\<lparr>tic_nrefs := tic_nrefs t + n\<rparr>) k"
  by (auto simp: ctx_good_def)

lemma ctx_good_send:
  "ctx_good t k \<Longrightarrow> 0 < tic_nrefs t \<Longrightarrow> ctx_good (t\<lparr>tic_nrefs := tic_nrefs t + 1\<rparr>) (Suc k)"
  by (auto simp: ctx_good_def)

lemma ctx_good_drop:
  "ctx_good t k' \<Longrightarrow> 0 < n \<Longrightarrow> int k \<le> tic_nrefs t - n \<Longrightarrow> tic_nrefs t' = tic_nrefs t - n \<Longrightarrow>
   tic_deletions t' = tic_deletions t + (if tic_nrefs t \<le> n then 1 else 0) \<Longrightarrow> ctx_good t' k"
  by (auto simp: ctx_good_def)

section \<open>Frames\<close>

text \<open>A step that is about callback \<open>i\<close> and context \<open>c\<close> keeps the rest.\<close>

lemma cb_ok_frame:
  assumes "cb_ok a j" "a_cbs a' j = a_cbs a j" "a_sender a' j = a_sender a j"
    "cnt (a_queue a') j = cnt (a_queue a) j" "cnt (a_handling a') j = cnt (a_handling a) j"
    "a_next a \<le> a_next a'" "dom (p_tics (a_proc a)) \<subseteq> dom (p_tics (a_proc a'))"
  shows "cb_ok a' j"
proof (cases "a_cbs a j")
  case None
  with assms(1) show ?thesis by (simp add: cb_ok_def assms(2-5))
next
  case (Some x)
  have "\<exists>c. cb_tic x = Some c \<and> c \<in> dom (p_tics (a_proc a'))"
    if "\<exists>c. cb_tic x = Some c \<and> c \<in> dom (p_tics (a_proc a))"
    using that assms(7) by blast
  with assms(1,6) Some show ?thesis
    unfolding cb_ok_def assms(2-5) by (simp del: domIff)
qed

lemma ctx_ok_frame:
  "ctx_ok a c \<Longrightarrow> p_tics (a_proc a') c = p_tics (a_proc a) c \<Longrightarrow> pend a' c = pend a c \<Longrightarrow> ctx_ok a' c"
  unfolding ctx_ok_def by (simp only:)

lemma ctx_ok_other:
  assumes "a_inv a" "p_tics (a_proc a') = (p_tics (a_proc a))(c \<mapsto> t')" "ctx_ok a' c"
    and "\<And>d. d \<noteq> c \<Longrightarrow> pend a' d = pend a d"
  shows "ctx_ok a' d"
proof (cases "d = c")
  case False
  have "ctx_ok a d" using assms(1) by (simp add: a_inv_def)
  then show ?thesis
    by (rule ctx_ok_frame) (simp_all only: assms(2) assms(4) [OF False] fun_upd_apply False if_False)
qed (use assms(3) in simp)

lemma a_inv_cb: "a_inv a \<Longrightarrow> a_cbs a i = Some x \<Longrightarrow>
   cb_good x (a_sender a i) (cnt (a_queue a) i) (cnt (a_handling a) i) \<and> i < a_next a \<and>
   cnt (a_queue a) i + cnt (a_handling a) i \<le> 1"
  unfolding a_inv_def by (elim conjE allE [of _ i]) (simp add: cb_ok_def)

lemma a_inv_ctx: "a_inv a \<Longrightarrow> p_tics (a_proc a) c = Some t \<Longrightarrow> ctx_good t (pend a c)"
  unfolding a_inv_def by (elim conjE allE [of _ c]) (simp add: ctx_ok_def)

text \<open>A step that only changes callback \<open>i\<close>, its sender and the places of its event.\<close>

lemma a_inv_local:
  assumes inv: "a_inv a" and i: "cb_ok a' i"
    and cbs: "\<And>j. j \<noteq> i \<Longrightarrow> a_cbs a' j = a_cbs a j" "\<And>j. j \<noteq> i \<Longrightarrow> a_sender a' j = a_sender a j"
    and q: "\<And>j. j \<noteq> i \<Longrightarrow> cnt (a_queue a') j = cnt (a_queue a) j"
      "\<And>j. j \<noteq> i \<Longrightarrow> cnt (a_handling a') j = cnt (a_handling a) j"
    and next': "a_next a \<le> a_next a'"
    and dom: "dom (p_tics (a_proc a)) \<subseteq> dom (p_tics (a_proc a'))"
    and ctx: "\<And>c. ctx_ok a' c"
  shows "a_inv a'"
proof -
  have "cb_ok a' j" for j
  proof (cases "j = i")
    case False
    show ?thesis
      by (rule cb_ok_frame [of a]) (use inv cbs q next' dom False in \<open>auto simp: a_inv_def\<close>)
  qed (use i in simp)
  with ctx show ?thesis by (simp add: a_inv_def)
qed


section \<open>Every step keeps the invariant\<close>

lemma upd_cb_simps [cb_simps]:
  "a_cbs (upd_cb i x a) = (a_cbs a)(i \<mapsto> x)" "a_proc (upd_cb i x a) = a_proc a"
  "a_next (upd_cb i x a) = a_next a" "a_queue (upd_cb i x a) = a_queue a"
  "a_handling (upd_cb i x a) = a_handling a" "a_sender (upd_cb i x a) = a_sender a"
  "a_cbs (set_sender i s a) = a_cbs a" "a_proc (set_sender i s a) = a_proc a"
  "a_next (set_sender i s a) = a_next a" "a_queue (set_sender i s a) = a_queue a"
  "a_handling (set_sender i s a) = a_handling a" "a_sender (set_sender i s a) = (a_sender a)(i := s)"
  by (simp_all add: upd_cb_def set_sender_def)

lemma CallbackUnref_cb:
  assumes "TwapiCallbackUnref i n a = Some a'"
  obtains x y where "a_cbs a i = Some x" "a' = upd_cb i y a" "cb_nrefs y = cb_nrefs x - n"
    "cb_deletions y = cb_deletions x + (if cb_nrefs x \<le> n then 1 else 0)"
    "cb_event y = cb_event x" "cb_tic y = cb_tic x"
proof (cases "a_cbs a i")
  case None
  with assms show ?thesis by (simp add: TwapiCallbackUnref_def)
next
  case (Some x)
  show ?thesis
  proof (cases "cb_nrefs x \<le> n")
    case False
    with assms Some show ?thesis
      by (intro that [of x "x\<lparr>cb_nrefs := cb_nrefs x - n\<rparr>"])
         (auto simp: TwapiCallbackUnref_def ExchangeAdd_def)
  next
    case True
    with assms Some show ?thesis
      by (intro that [of x "x\<lparr>cb_nrefs := cb_nrefs x - n, cb_response := TRT_EMPTY,
            cb_deletions := Suc (cb_deletions x)\<rparr>"])
         (auto simp: TwapiCallbackUnref_def TwapiCallbackDelete_def TwapiClearResult_def ExchangeAdd_def upd_cb_def)
  qed
qed

lemma ctx_ok_keep:
  assumes "a_inv a" "a_proc a' = a_proc a" "pendingM a' = pendingM a"
    "\<And>j. j \<in># pendingM a \<Longrightarrow> tic_of a' j = tic_of a j"
  shows "ctx_ok a' c"
proof (rule ctx_ok_frame [of a])
  show "ctx_ok a c" using assms(1) by (simp add: a_inv_def)
  show "pend a' c = pend a c" by (rule pend_same [OF assms(3,4)])
qed (simp add: assms(2))

lemma step_new:
  assumes "a_inv a" "TwapiCallbackNew hdr f sz a = (a', r)"
  shows "a_inv a'"
proof (cases "sz < hdr")
  case True
  with assms show ?thesis by (simp add: TwapiCallbackNew_def)
next
  case False
  define i where "i = a_next a"
  define x where "x = \<lparr>cb_tic = None, cb_callback = f, cb_nrefs = 0, cb_event = None,
                    cb_winerr = 0, cb_response = TRT_EMPTY, cb_deletions = 0\<rparr>"
  have a': "a' = upd_cb i x (a\<lparr>a_next := Suc i\<rparr>)"
    using assms(2) False by (simp add: TwapiCallbackNew_def Let_def i_def x_def)
  have none: "a_cbs a i = None"
    using a_inv_cb [OF assms(1), of i] by (cases "a_cbs a i") (auto simp: i_def)
  have old: "a_sender a i = Fresh" "cnt (a_queue a) i = 0" "cnt (a_handling a) i = 0"
    using assms(1) none unfolding a_inv_def by (elim conjE allE [of _ i], simp add: cb_ok_def)+
  have ni: "i \<notin># pendingM a" using old by (simp add: count_pendingM flip: count_eq_zero_iff)
  show ?thesis
  proof (rule a_inv_local [OF assms(1), of a' i])
    show "cb_ok a' i" using old by (simp add: a' cb_simps cb_ok_def cb_good_def x_def)
    show "ctx_ok a' c" for c
      by (rule ctx_ok_keep [OF assms(1)]) (use ni in \<open>auto simp: a' cb_simps tic_of_def pendingM_def\<close>)
  qed (simp_all add: a' cb_simps i_def)
qed

lemma step_wake:
  assumes inv: "a_inv a" and s: "a_sender a i = Waiting"
    and ev: "w = None \<longrightarrow> (\<exists>x. a_cbs a i = Some x \<and> cb_event x = Some True)"
    and st: "enqueue_wait i w wants a = Some (a', n)"
  shows "a_inv a'"
proof -
  obtain x where x: "a_cbs a i = Some x" using st by (cases "a_cbs a i") (simp_all add: enqueue_wait_def)
  note G = a_inv_cb [OF inv x] 
  have ok: "cb_ok a i" using inv by (simp add: a_inv_def)
  have same: "ctx_ok a'' c" if "a_proc a'' = a_proc a" "a_queue a'' = a_queue a" "a_handling a'' = a_handling a"
    "a_cbs a'' = (a_cbs a)(i \<mapsto> y)" "cb_tic y = cb_tic x" for a'' y c
    by (rule ctx_ok_keep [OF inv]) (use that x in \<open>auto simp: tic_of_def pendingM_def\<close>)
  have fin: "a_inv a''" if "a_proc a'' = a_proc a" "a_queue a'' = a_queue a" "a_handling a'' = a_handling a"
    "a_next a'' = a_next a" "a_cbs a'' = (a_cbs a)(i \<mapsto> y)" "cb_tic y = cb_tic x"
    "a_sender a'' = (a_sender a)(i := s')" "cb_good y s' (cnt (a_queue a) i) (cnt (a_handling a) i)" for a'' y s'
  proof (rule a_inv_local [OF inv, of a'' i])
    show "cb_ok a'' i" using ok x that by (auto simp: cb_ok_def)
    show "ctx_ok a'' c" for c using same that by blast
  qed (simp_all add: that)
  show ?thesis
  proof (cases w)
    case (Some e)
    then have a': "a' = set_sender i (TimedOut e) a" using st x by (auto simp: enqueue_wait_def)
    show ?thesis
      by (rule fin [of _ x "TimedOut e"]) (use G s x in \<open>auto simp: a' cb_simps cb_good_def\<close>)
  next
    case None
    then have "cb_event x = Some True" using ev x by simp
    then have q: "cnt (a_queue a) i = 0" using G s by (simp add: cb_good_def)
    let ?y = "x\<lparr>cb_event := Some False\<rparr>"
    show ?thesis
    proof (cases wants)
      case True
      then have a': "a' = set_sender i Owns (upd_cb i ?y a)" using st x None by (simp add: enqueue_wait_def Let_def)
      show ?thesis
        by (rule fin [of _ ?y Owns]) (use G s q in \<open>auto simp: a' cb_simps cb_good_def\<close>)
    next
      case False
      then obtain a2 where a2: "TwapiCallbackUnref i 1 (upd_cb i ?y a) = Some a2"
        and a': "a' = set_sender i (Finished (cb_winerr x)) a2"
        using st x None by (cases "TwapiCallbackUnref i 1 (upd_cb i ?y a)") (auto simp: enqueue_wait_def Let_def)
      obtain z where z: "a2 = upd_cb i z (upd_cb i ?y a)" "cb_nrefs z = cb_nrefs x - 1"
        "cb_deletions z = cb_deletions x + (if cb_nrefs x \<le> 1 then 1 else 0)" "cb_tic z = cb_tic x"
        by (rule CallbackUnref_cb [OF a2]) (auto simp: cb_simps)
      show ?thesis
        by (rule fin [of _ z "Finished (cb_winerr x)"]) (use G s q z in \<open>auto simp: a' cb_simps cb_good_def\<close>)
    qed
  qed
qed

lemma step_owner:
  assumes inv: "a_inv a" and s: "a_sender a i = Owns" and st: "owner_unref i a = Some a'"
  shows "a_inv a'"
proof -
  obtain a2 where a2: "TwapiCallbackUnref i 1 a = Some a2" and a': "a' = set_sender i (Finished 0) a2"
    using st by (cases "TwapiCallbackUnref i 1 a") (auto simp: owner_unref_def)
  obtain x z where x: "a_cbs a i = Some x" and z: "a2 = upd_cb i z a" "cb_nrefs z = cb_nrefs x - 1"
    "cb_deletions z = cb_deletions x + (if cb_nrefs x \<le> 1 then 1 else 0)" "cb_tic z = cb_tic x"
    by (rule CallbackUnref_cb [OF a2]) auto
  note G = a_inv_cb [OF inv x]
  have ok: "cb_ok a i" using inv by (simp add: a_inv_def)
  have "cb_good z (Finished 0) (cnt (a_queue a) i) (cnt (a_handling a) i)"
    using G s z by (auto simp: cb_good_def)
  then have "cb_ok a' i" using ok x z(1,4) by (auto simp: cb_ok_def a' cb_simps)
  then show ?thesis
  proof (rule a_inv_local [OF inv])
    show "ctx_ok a' c" for c
      by (rule ctx_ok_keep [OF inv]) (use x z in \<open>auto simp: a' cb_simps tic_of_def pendingM_def\<close>)
  qed (simp_all add: a' cb_simps z)
qed


lemma step_send:
  assumes inv: "a_inv a" and s: "a_sender a i = Fresh" and out: "0 < outside a c"
    and st: "TwapiEnqueueCallback c i as timeout ev a = Some (a', r)"
  shows "a_inv a'"
proof -
  obtain x where x: "a_cbs a i = Some x"
    using st by (cases "a_cbs a i") (simp_all add: TwapiEnqueueCallback_def)
  note G = a_inv_cb [OF inv x]
  have zero: "cnt (a_queue a) i = 0" "cnt (a_handling a) i = 0" using G s by (auto simp: cb_good_def)
  then have ni: "i \<notin># pendingM a" by (simp add: count_pendingM flip: count_eq_zero_iff)
  have ok: "cb_ok a i" using inv by (simp add: a_inv_def)
  have fin: "a_inv a''" if "a_proc a'' = a_proc a" "a_queue a'' = a_queue a" "a_handling a'' = a_handling a"
    "a_next a'' = a_next a" "a_cbs a'' = (a_cbs a)(i \<mapsto> y)"
    "a_sender a'' = (a_sender a)(i := s')" "cb_good y s' 0 0" for a'' y s'
  proof (rule a_inv_local [OF inv, of a'' i])
    show "cb_ok a'' i" using G zero that by (auto simp: cb_ok_def)
    show "ctx_ok a'' c" for c
      by (rule ctx_ok_keep [OF inv]) (use that ni in \<open>auto simp: tic_of_def pendingM_def\<close>)
  qed (simp_all add: that)
  show ?thesis
  proof (cases "timeout \<noteq> 0 \<and> ev \<noteq> None")
    case True
    let ?y = "x\<lparr>cb_response := TRT_EMPTY, cb_deletions := Suc (cb_deletions x)\<rparr>"
    have a': "a' = set_sender i (Finished (the ev)) (upd_cb i ?y a)"
      using st x True by (auto simp: TwapiEnqueueCallback_def TwapiCallbackDelete_def TwapiClearResult_def)
    show ?thesis
      by (rule fin [of _ ?y "Finished (the ev)"]) (use G s zero in \<open>auto simp: a' cb_simps cb_good_def\<close>)
  next
    case False
    let ?x = "if timeout \<noteq> 0 then x\<lparr>cb_event := Some False\<rparr> else x"
    have bind1: "(do { x \<leftarrow> a_cbs a i; f x }) = f x" for f :: "cb \<Rightarrow> 'b option" using x by simp
    show ?thesis
    proof (cases as)
      case True
      have "upd_cb i x a = a" using x by (simp add: upd_cb_def fun_upd_idem)
      then have a': "a' = set_sender i NotSupported (upd_cb i ?x a)"
        using st x False True by (auto simp: TwapiEnqueueCallback_def Let_def)
      show ?thesis
        by (rule fin [of _ ?x NotSupported]) (use G s zero in \<open>auto simp: a' cb_simps cb_good_def\<close>)
    next
      case as: False
      let ?n = "if timeout \<noteq> 0 then 2 else 1 :: int"
      let ?y = "?x\<lparr>cb_nrefs := cb_nrefs x + ?n, cb_tic := Some c\<rparr>"
      let ?s = "if timeout = 0 then Fired else Waiting"
      obtain p where p: "TwapiInterpContextRef c 1 (a_proc a) = Some p"
        using st x False as by (cases "TwapiInterpContextRef c 1 (a_proc a)")
          (auto simp: TwapiEnqueueCallback_def TwapiCallbackRef_def upd_cb_def Let_def split: if_splits)
      obtain t where t: "p_tics (a_proc a) c = Some t"
        "p_tics p = (p_tics (a_proc a))(c \<mapsto> t\<lparr>tic_nrefs := tic_nrefs t + 1\<rparr>)"
        by (rule Ref_tics [OF p])
      have a': "a_cbs a' = (a_cbs a)(i \<mapsto> ?y)" "a_proc a' = p" "a_next a' = a_next a"
        "a_queue a' = a_queue a @ [(tic_thread t, i)]" "a_handling a' = a_handling a"
        "a_sender a' = (a_sender a)(i := ?s)"
        using st x False as p t
        by (auto simp: TwapiEnqueueCallback_def TwapiCallbackRef_def TwapiEnqueueTclEvent_def
            ExchangeAdd_def upd_cb_def set_sender_def Let_def split: if_splits)
      have pend: "pend a' d = pend a d + (if d = c then 1 else 0)" for d
        using pend_add [of a' i a d] ni by (auto simp: a' pendingM_def tic_of_def)
      have "cb_good ?y ?s 1 0" using G s zero by (auto simp: cb_good_def)
      then have i: "cb_ok a' i" using G zero t by (auto simp: cb_ok_def a')
      have "0 < tic_nrefs t" using out t(1) by (simp add: outside_def ctx_refs_def)
      then have c: "ctx_ok a' c"
        using ctx_good_send [OF a_inv_ctx [OF inv t(1)]] by (simp add: ctx_ok_def a' t(2) pend)
      show ?thesis
      proof (rule a_inv_local [OF inv i])
        show "ctx_ok a' d" for d by (rule ctx_ok_other [OF inv _ c]) (simp_all add: a' t(2) pend)
        show "dom (p_tics (a_proc a)) \<subseteq> dom (p_tics (a_proc a'))" by (auto simp: a' t(2))
      qed (simp_all add: a')
    qed
  qed
qed

lemma step_handle:
  assumes inv: "a_inv a" and st: "Twapi_TclEventProc run th fl a = Some (a', n)"
  shows "a_inv a'"
proof -
  obtain e where e: "find (\<lambda>e. fst e = th) (a_queue a) = Some e"
    using st by (cases "find (\<lambda>e. fst e = th) (a_queue a)") (simp_all add: Twapi_TclEventProc_def)
  then have inq: "e \<in> set (a_queue a)" by (rule find_in)
  show ?thesis
  proof (cases fl)
    case False
    with st e inv show ?thesis by (simp add: Twapi_TclEventProc_def)
  next
    case True
    obtain x where x: "a_cbs a (snd e) = Some x"
      using st e True by (cases "a_cbs a (snd e)") (simp_all add: Twapi_TclEventProc_def)
    note G = a_inv_cb [OF inv x]
    let ?i = "snd e"
    obtain y where a': "a' = (upd_cb ?i y a)\<lparr>a_queue := remove1 e (a_queue a), a_handling := e # a_handling a\<rparr>"
      and y: "cb_nrefs y = cb_nrefs x" "cb_deletions y = cb_deletions x" "cb_tic y = cb_tic x"
        "cb_event y = map_option (\<lambda>_. True) (cb_event x)"
    proof -
      obtain ok w r where R: "run x = (ok, w, r)" by (cases "run x")
      show ?thesis
        by (rule that [of "(if \<not> ok then x\<lparr>cb_winerr := ERROR_BAD_ARGUMENTS, cb_response := TwapiClearResult r\<rparr>
                 else x\<lparr>cb_winerr := w, cb_response := r\<rparr>)\<lparr>cb_event := map_option (\<lambda>_. True) (cb_event x)\<rparr>"])
           (use st e True x R in \<open>auto simp: Twapi_TclEventProc_def Let_def split: if_splits\<close>)
    qed
    have q: "cnt (a_queue a) j = cnt (remove1 e (a_queue a)) j + (if ?i = j then 1 else 0)" for j
      by (rule cnt_remove1 [OF inq])
    have one: "cnt (a_queue a) ?i = 1" "cnt (a_handling a) ?i = 0" using cnt_pos [OF inq] G by auto
    have "cb_good y (a_sender a ?i) 0 1" using G one y by (auto simp: cb_good_def)
    moreover have "cb_ok a ?i" using inv by (simp add: a_inv_def)
    ultimately have i: "cb_ok a' ?i" using one q [of ?i] x y by (auto simp: cb_ok_def a' cb_simps)
    show ?thesis
    proof (rule a_inv_local [OF inv i])
      have "pendingM a' = pendingM a"
        using q by (intro multiset_eqI) (simp add: count_pendingM a' cb_simps)
      then show "ctx_ok a' c" for c
        by (rule ctx_ok_keep [OF inv, rotated]) (use x y in \<open>auto simp: a' cb_simps tic_of_def\<close>)
    qed (use q in \<open>auto simp: a' cb_simps\<close>)
  qed
qed

lemma step_release:
  assumes inv: "a_inv a" and st: "eventproc_release th a = Some a'"
  shows "a_inv a'"
proof -
  obtain e where e: "find (\<lambda>e. fst e = th) (a_handling a) = Some e"
    using st by (cases "find (\<lambda>e. fst e = th) (a_handling a)") (simp_all add: eventproc_release_def)
  then have inh: "e \<in> set (a_handling a)" by (rule find_in)
  let ?i = "snd e"
  obtain x where x: "a_cbs a ?i = Some x"
    using st e by (cases "a_cbs a ?i") (simp_all add: eventproc_release_def)
  obtain c where c: "cb_tic x = Some c"
    using st e x by (cases "cb_tic x") (simp_all add: eventproc_release_def)
  obtain p where p: "TwapiInterpContextUnref th c 1 (a_proc a) = Some p"
    using st e x c by (cases "TwapiInterpContextUnref th c 1 (a_proc a)") (simp_all add: eventproc_release_def)
  obtain t t' where t: "p_tics (a_proc a) c = Some t" "p_tics p = (p_tics (a_proc a))(c \<mapsto> t')"
    "tic_nrefs t' = tic_nrefs t - 1" "tic_deletions t' = tic_deletions t + (if tic_nrefs t \<le> 1 then 1 else 0)"
    by (rule Unref_tics [OF p])
  let ?a1 = "(upd_cb ?i (x\<lparr>cb_tic := None\<rparr>) a)\<lparr>a_proc := p\<rparr>"
  obtain a2 where a2: "TwapiCallbackUnref ?i 1 ?a1 = Some a2"
    and a'0: "a' = a2\<lparr>a_handling := remove1 e (a_handling a2)\<rparr>"
    using st e x c p by (cases "TwapiCallbackUnref ?i 1 ?a1") (simp_all add: eventproc_release_def)
  obtain y where y: "a2 = upd_cb ?i y ?a1" "cb_nrefs y = cb_nrefs x - 1"
    "cb_deletions y = cb_deletions x + (if cb_nrefs x \<le> 1 then 1 else 0)" "cb_event y = cb_event x" "cb_tic y = None"
    by (rule CallbackUnref_cb [OF a2]) (auto simp: cb_simps)
  have a': "a_cbs a' = (a_cbs a)(?i \<mapsto> y)" "a_proc a' = p" "a_next a' = a_next a" "a_queue a' = a_queue a"
    "a_handling a' = remove1 e (a_handling a)" "a_sender a' = a_sender a"
    by (simp_all add: a'0 y(1) cb_simps)
  have h: "cnt (a_handling a) j = cnt (remove1 e (a_handling a)) j + (if ?i = j then 1 else 0)" for j
    by (rule cnt_remove1 [OF inh])
  note G = a_inv_cb [OF inv x]
  have one: "cnt (a_handling a) ?i = 1" "cnt (a_queue a) ?i = 0" using cnt_pos [OF inh] G by auto
  have "cb_good y (a_sender a ?i) 0 0" using G one y by (auto simp: cb_good_def)
  then have i: "cb_ok a' ?i" using one h [of ?i] G by (auto simp: cb_ok_def a')
  have mp: "pendingM a = add_mset ?i (pendingM a')"
    using h by (intro multiset_eqI) (simp add: count_pendingM a')
  have "?i \<notin># pendingM a'"
    using one h [of ?i] by (simp add: count_pendingM a' flip: count_eq_zero_iff)
  then have pend: "pend a d = pend a' d + (if d = c then 1 else 0)" for d
    using pend_add [OF mp, of d] x c by (auto simp: tic_of_def a')
  have "ctx_good t (pend a' c + 1)" using a_inv_ctx [OF inv t(1)] pend [of c] by simp
  then have c: "ctx_ok a' c"
    using ctx_good_drop [of t "pend a' c + 1" 1 "pend a' c" t'] t
    by (simp add: ctx_ok_def a') (simp add: ctx_good_def)
  show ?thesis
  proof (rule a_inv_local [OF inv i])
    show "ctx_ok a' d" for d by (rule ctx_ok_other [OF inv _ c]) (simp_all add: a' t(2) pend)
    show "dom (p_tics (a_proc a)) \<subseteq> dom (p_tics (a_proc a'))" by (auto simp: a' t(2))
  qed (use h in \<open>auto simp: a'\<close>)
qed

lemma step_context:
  assumes inv: "a_inv a" and tics: "p_tics (a_proc a) c = Some t" "p_tics p = (p_tics (a_proc a))(c \<mapsto> t')"
    and good: "ctx_good t' (pend a c)"
  shows "a_inv (a\<lparr>a_proc := p\<rparr>)"
proof (rule a_inv_local [OF inv, of _ undefined])
  have pend: "pend (a\<lparr>a_proc := p\<rparr>) d = pend a d" for d
    by (rule pend_same) (simp_all add: pendingM_def tic_of_def)
  have "ctx_ok (a\<lparr>a_proc := p\<rparr>) c" using good by (simp add: ctx_ok_def tics(2) pend)
  then show "ctx_ok (a\<lparr>a_proc := p\<rparr>) d" for d
    by (rule ctx_ok_other [OF inv, rotated]) (simp_all add: tics(2) pend)
  show "dom (p_tics (a_proc a)) \<subseteq> dom (p_tics (a_proc (a\<lparr>a_proc := p\<rparr>)))" by (auto simp: tics(2))
  moreover have "cb_ok a undefined" using inv by (simp add: a_inv_def)
  ultimately show "cb_ok (a\<lparr>a_proc := p\<rparr>) undefined"
    by (intro cb_ok_frame [of a undefined "a\<lparr>a_proc := p\<rparr>"]) simp_all
qed simp_all

lemma astep_inv: "astep a a' \<Longrightarrow> a_inv a \<Longrightarrow> a_inv a'"
proof (induction rule: astep.induct)
  case (hold a c n p)
  obtain t where t: "p_tics (a_proc a) c = Some t" "p_tics p = (p_tics (a_proc a))(c \<mapsto> t\<lparr>tic_nrefs := tic_nrefs t + n\<rparr>)"
    by (rule Ref_tics [OF hold(3)])
  have "0 < tic_nrefs t" using hold(1) t(1) by (simp add: outside_def ctx_refs_def)
  with step_context [OF hold(4) t] ctx_good_add [OF a_inv_ctx [OF hold(4) t(1)] hold(2)] show ?case by simp
next
  case (drop n a c th p)
  obtain t t' where t: "p_tics (a_proc a) c = Some t" "p_tics p = (p_tics (a_proc a))(c \<mapsto> t')"
    "tic_nrefs t' = tic_nrefs t - n" "tic_deletions t' = tic_deletions t + (if tic_nrefs t \<le> n then 1 else 0)"
    by (rule Unref_tics [OF drop(3)])
  have "int (pend a c) \<le> tic_nrefs t - n" using drop(2) t(1) by (simp add: outside_def ctx_refs_def)
  with step_context [OF drop(4) t(1,2)] ctx_good_drop [OF a_inv_ctx [OF drop(4) t(1)] drop(1) _ t(3,4)]
  show ?case by blast
qed (blast intro: step_new step_send step_wake step_handle step_release step_owner)+

end
