(* ===== verification/Async_Props.thy ===== *)
theory Async_Props
  imports Async_Inv Process_Props
begin

text \<open>
  The properties of asynchronous callbacks: reference safety over every interleaving, what
  becomes of a waiting sender, and the callbacks that are never released.
\<close>

section \<open>Reachable states\<close>

text \<open>At the start every context is alive exactly if it is referenced.\<close>

definition proc_fresh :: "proc \<Rightarrow> bool" where
  "proc_fresh p \<longleftrightarrow> (\<forall>c t. p_tics p c = Some t \<longrightarrow> 0 < tic_nrefs t \<and> tic_deletions t = 0)"

lemma async_start_inv:
  assumes "proc_fresh p"
  shows "a_inv (async_start p)"
proof -
  have "ctx_good t 0" if "p_tics p c = Some t" for c t
    using assms that by (fastforce simp: proc_fresh_def ctx_good_def)
  then have "ctx_ok (async_start p) c" for c
    by (simp add: ctx_ok_def async_start_def pend_def pendingM_def split: option.split)
  moreover have "cb_ok (async_start p) i" for i by (simp add: async_start_def cb_ok_def)
  ultimately show ?thesis by (simp add: a_inv_def)
qed

lemma reach_inv:
  assumes "proc_fresh p" "astep\<^sup>*\<^sup>* (async_start p) a"
  shows "a_inv a"
  using assms(2) by (induction rule: rtranclp_induct) (auto intro: async_start_inv [OF assms(1)] astep_inv)

lemma cnt_zero: "i \<notin> snd ` set q \<Longrightarrow> cnt q i = 0"
  by (induction q) auto

lemma queued_cb:
  assumes "a_inv a" "(th, i) \<in> set (a_queue a) \<union> set (a_handling a)"
  obtains x c t where "a_cbs a i = Some x" "cb_tic x = Some c" "p_tics (a_proc a) c = Some t"
    "0 < tic_nrefs t" "0 < cnt (a_queue a) i + cnt (a_handling a) i"
proof -
  have pos: "0 < cnt (a_queue a) i + cnt (a_handling a) i" using assms(2) cnt_pos by fastforce
  have ok: "cb_ok a i" using assms(1) by (simp add: a_inv_def)
  then obtain x c t where x: "a_cbs a i = Some x" "cb_tic x = Some c" "p_tics (a_proc a) c = Some t"
    using pos by (auto simp: cb_ok_def split: option.splits)
  have "i \<in># pendingM a" using pos by (simp add: count_pendingM flip: count_greater_zero_iff)
  then have "pend a c \<noteq> 0" using x by (auto simp: pend_def tic_of_def)
  then have "0 < tic_nrefs t" using a_inv_ctx [OF assms(1) x(3)] by (auto simp: ctx_good_def)
  with x pos show ?thesis by (intro that)
qed

section \<open>Properties\<close>

text \<open>
  C6. Whatever the threads do and in whatever order, a callback that is queued, being handled,
  waited for or handed over has not been deleted, none is deleted twice, and the context of
  an event in the queue or being handled has not been deleted either.
\<close>

theorem callbacks_safe:
  assumes "proc_fresh p" "astep\<^sup>*\<^sup>* (async_start p) a" "a_cbs a i = Some x"
  shows "cb_deletions x \<le> 1 \<and>
     (i \<in> snd ` (set (a_queue a) \<union> set (a_handling a)) \<or> a_sender a i = Waiting \<or> a_sender a i = Owns
        \<longrightarrow> cb_deletions x = 0 \<and> 0 < cb_nrefs x) \<and>
     (i \<in> snd ` (set (a_queue a) \<union> set (a_handling a)) \<longrightarrow>
        (\<exists>c t. cb_tic x = Some c \<and> p_tics (a_proc a) c = Some t \<and> tic_deletions t = 0))"
proof -
  have inv: "a_inv a" by (rule reach_inv [OF assms(1,2)])
  have G: "cb_good x (a_sender a i) (cnt (a_queue a) i) (cnt (a_handling a) i)"
    using a_inv_cb [OF inv assms(3)] by simp
  have Q: "0 < cnt (a_queue a) i + cnt (a_handling a) i \<and>
      (\<exists>c t. cb_tic x = Some c \<and> p_tics (a_proc a) c = Some t \<and> tic_deletions t = 0)"
    if "i \<in> snd ` (set (a_queue a) \<union> set (a_handling a))"
  proof -
    from that obtain e where "e \<in> set (a_queue a) \<union> set (a_handling a)" "i = snd e" by auto
    then have "(fst e, i) \<in> set (a_queue a) \<union> set (a_handling a)" by simp
    then obtain c t where c: "cb_tic x = Some c" "p_tics (a_proc a) c = Some t" "0 < tic_nrefs t"
      "0 < cnt (a_queue a) i + cnt (a_handling a) i"
      by (rule queued_cb [OF inv]) (use assms(3) in simp)
    then show ?thesis using a_inv_ctx [OF inv c(2)] by (auto simp: ctx_good_def)
  qed
  have "cb_deletions x = 0 \<and> 0 < cb_nrefs x"
    if "0 < cnt (a_queue a) i + cnt (a_handling a) i \<or> a_sender a i = Waiting \<or> a_sender a i = Owns"
    using that G by (auto simp: cb_good_def)
  then have "i \<in> snd ` (set (a_queue a) \<union> set (a_handling a)) \<or> a_sender a i = Waiting \<or> a_sender a i = Owns
     \<longrightarrow> cb_deletions x = 0 \<and> 0 < cb_nrefs x" using Q by meson
  moreover have "cb_deletions x \<le> 1" using G by (auto simp: cb_good_def)
  moreover note Q
  ultimately show ?thesis by meson
qed

lemma demo_fresh: "proc_fresh demo_ctx"
proof -
  obtain t where t: "p_tics demo_ctx 100 = Some t" "tic_nrefs t = 2" "tic_deletions t = 0"
    using allocate_ok(2) [OF demo_ctx_alloc, of "[]"] by (auto simp: demo_proc_def ctx_list_def ZLIST_INIT_rep)
  have "p_tics demo_ctx c = None" if "c \<noteq> 100" for c
    unfolding demo_ctx_def using that
    by (simp add: Twapi_AllocateInterpContext_def demo_proc_def Twapi_GetTls_def demo_tls_def
      TwapiInterpContextRef_def upd_tic_def ctx_list_def ZLIST_PREPEND_def ZLIST_ISEMPTY_def
      ZLIST_COUNT_def ZLIST_INIT_def set_ctx_list_def TwapiInterpContextNew_def ExchangeAdd_def Let_def)
  with t show ?thesis unfolding proc_fresh_def by (metis option.inject option.simps(3) zero_less_numeral)
qed

lemma demo_sent:
  obtains a x th where "astep\<^sup>*\<^sup>* (async_start demo_ctx) a" "a_sender a 0 = Waiting" "a_cbs a 0 = Some x"
    "a_queue a = [(th, 0)]" "a_handling a = []"
proof -
  obtain t where t: "p_tics demo_ctx 100 = Some t" "tic_nrefs t = 2"
    using allocate_ok(2) [OF demo_ctx_alloc, of "[]"] by (auto simp: demo_proc_def ctx_list_def ZLIST_INIT_rep)
  obtain a1 where n: "TwapiCallbackNew 0 0 0 (async_start demo_ctx) = (a1, Some 0)"
    and a1: "\<exists>x. a_cbs a1 0 = Some x" "a_proc a1 = demo_ctx" "a_sender a1 = (\<lambda>_. Fresh)" "a_queue a1 = []" "a_handling a1 = []"
    by (simp add: TwapiCallbackNew_def async_start_def Let_def cb_simps)
  have "outside a1 100 = 2" using t a1 by (simp add: outside_def ctx_refs_def pend_def pendingM_def)
  moreover obtain a2 where s: "TwapiEnqueueCallback 100 0 False 5 None a1 = Some (a2, None)"
    "a_sender a2 0 = Waiting" "a_queue a2 = [(tic_thread t, 0)]" "a_handling a2 = []" "\<exists>x. a_cbs a2 0 = Some x"
    using a1 t by (auto simp: TwapiEnqueueCallback_def TwapiCallbackRef_def TwapiInterpContextRef_def
        TwapiEnqueueTclEvent_def upd_cb_def set_sender_def Let_def)
  ultimately have "astep a1 a2" using a1 by (intro astep.send [OF _ _ s(1)]) simp_all
  with astep.new [OF n] have "astep\<^sup>*\<^sup>* (async_start demo_ctx) a2" by simp
  with s show ?thesis by (auto intro: that)
qed

theorem callbacks_safe_witness:
  "\<exists>a x. astep\<^sup>*\<^sup>* (async_start demo_ctx) a \<and> 0 \<in> snd ` set (a_queue a) \<and> a_cbs a 0 = Some x \<and> cb_deletions x = 0"
proof -
  obtain a x th where a: "astep\<^sup>*\<^sup>* (async_start demo_ctx) a" "a_cbs a 0 = Some x" "a_queue a = [(th, 0)]"
    by (rule demo_sent)
  with callbacks_safe [OF demo_fresh a(1,2)] show ?thesis by auto
qed

text \<open>Whoever holds a reference may drop it, and the last one to do so deletes the callback.\<close>

lemma holder_unref:
  assumes "cb_good x st q h" "share st = 1" "a_cbs a i = Some x"
  obtains a' where "TwapiCallbackUnref i 1 a = Some a'" "q + h = 0 \<Longrightarrow> cb_dels i a' = 1"
proof -
  have n: "cb_nrefs x = int (q + h + 1)" "cb_deletions x = 0" using assms(1,2) by (auto simp: cb_good_def)
  then obtain a' where a': "TwapiCallbackUnref i 1 a = Some a'"
    using assms(3) by (cases "cb_nrefs x \<le> 1") (auto simp: TwapiCallbackUnref_def TwapiCallbackDelete_def ExchangeAdd_def cb_simps)
  have "cb_dels i a' = 1" if "q + h = 0"
    using n that a' assms(3) by (auto simp: TwapiCallbackUnref_def TwapiCallbackDelete_def ExchangeAdd_def cb_simps cb_dels_def)
  with a' show thesis by (rule that)
qed

lemma owner_deletes:
  assumes "a_inv b" "a_sender b i = Owns"
  obtains b' where "owner_unref i b = Some b'" "astep b b'" "cb_dels i b = 0" "i \<notin> snd ` set (a_handling b) \<Longrightarrow> cb_dels i b' = 1"
proof -
  have "cb_ok b i" using assms(1) by (simp add: a_inv_def)
  with assms(2) obtain y where y: "a_cbs b i = Some y" by (auto simp: cb_ok_def split: option.splits)
  have G: "cb_good y Owns (cnt (a_queue b) i) (cnt (a_handling b) i)" using a_inv_cb [OF assms(1) y] assms(2) by simp
  have q: "cnt (a_queue b) i = 0" and d: "cb_dels i b = 0" using G y by (auto simp: cb_good_def cb_dels_def)
  obtain a' where a': "TwapiCallbackUnref i 1 b = Some a'" "cnt (a_queue b) i + cnt (a_handling b) i = 0 \<Longrightarrow> cb_dels i a' = 1"
    using holder_unref [OF G _ y] by auto
  have b': "owner_unref i b = Some (set_sender i (Finished 0) a')" using a'(1) by (simp add: owner_unref_def)
  have dels: "cb_dels i (set_sender i (Finished 0) a') = cb_dels i a'" by (simp add: cb_dels_def cb_simps)
  show thesis
    by (rule that [OF b' astep.owner [OF assms(2) b'] d]) (simp add: dels a'(2) q cnt_zero)
qed

text \<open>
  C35. A thread that waits for a callback whose event has left the queue finds the completion event signalled: it can go on and
  returns the error that the handler left. When it wants no response, it drops its reference with that, and the callback is
  deleted if the handler has dropped its own. When it wants the response, the callback is its own from then on, with what the
  handler left in it: it is not deleted as long as the thread has not dropped its reference, whatever happens meanwhile; the
  thread can drop it at any time, and the callback is then deleted, if the handler has dropped its own.
\<close>

theorem waiting_sender_released:
  assumes "proc_fresh p" "astep\<^sup>*\<^sup>* (async_start p) a" "a_cbs a i = Some x" "a_sender a i = Waiting"
    and "i \<notin> snd ` set (a_queue a)"
  shows "\<exists>a'. enqueue_wait i None wants a = Some (a', cb_winerr x) \<and> astep a a' \<and>
     (if \<not> wants then i \<notin> snd ` set (a_handling a) \<longrightarrow> cb_dels i a' = 1
      else a_sender a' i = Owns \<and> a_cbs a' i = Some (x\<lparr>cb_event := Some False\<rparr>) \<and>
        (\<forall>b. astep\<^sup>*\<^sup>* a' b \<and> a_sender b i = Owns \<longrightarrow> cb_dels i b = 0 \<and>
           (\<exists>b'. owner_unref i b = Some b' \<and> astep b b' \<and> (i \<notin> snd ` set (a_handling b) \<longrightarrow> cb_dels i b' = 1))))"
proof -
  have inv: "a_inv a" by (rule reach_inv [OF assms(1,2)])
  have G: "cb_good x Waiting (cnt (a_queue a) i) (cnt (a_handling a) i)"
    using a_inv_cb [OF inv assms(3)] assms(4) by simp
  have q: "cnt (a_queue a) i = 0" by (rule cnt_zero [OF assms(5)])
  have ev: "cb_event x = Some True" using G q by (simp add: cb_good_def)
  define y where "y = x\<lparr>cb_event := Some False\<rparr>"
  have wake: "astep a a'" if "enqueue_wait i None wants a = Some (a', cb_winerr x)" for a'
    by (rule astep.wake [OF assms(4) _ that]) (use assms(3) ev in simp)
  show ?thesis
  proof (cases wants)
    case True
    let ?a = "set_sender i Owns (upd_cb i y a)"
    have code: "enqueue_wait i None wants a = Some (?a, cb_winerr x)"
      using assms(3) True by (simp add: enqueue_wait_def Let_def y_def)
    have inv_b: "a_inv b" if "astep\<^sup>*\<^sup>* ?a b" for b
    proof -
      have "astep\<^sup>*\<^sup>* (async_start p) b" 
        using rtranclp_trans [OF rtranclp.rtrancl_into_rtrancl [OF assms(2) wake [OF code]] that] .
      then show ?thesis by (rule reach_inv [OF assms(1)])
    qed
    have "a_sender ?a i = Owns" "a_cbs ?a i = Some y" by (simp_all add: cb_simps)
    with True code wake [OF code] owner_deletes [OF inv_b] show ?thesis unfolding y_def by metis
  next
    case False
    have n: "cb_nrefs y = cb_nrefs x" "cb_deletions y = cb_deletions x" by (simp_all add: y_def)
    have G': "cb_good y Owns (cnt (a_queue a) i) (cnt (a_handling a) i)" using G q n by (simp add: cb_good_def)
    have y: "a_cbs (upd_cb i y a) i = Some y" by (simp add: cb_simps)
    obtain a2 where a2: "TwapiCallbackUnref i 1 (upd_cb i y a) = Some a2"
      "cnt (a_queue a) i + cnt (a_handling a) i = 0 \<Longrightarrow> cb_dels i a2 = 1"
      using holder_unref [OF G' _ y] by auto
    have code: "enqueue_wait i None wants a = Some (set_sender i (Finished (cb_winerr x)) a2, cb_winerr x)"
      using assms(3) a2(1) False by (simp add: enqueue_wait_def Let_def y_def)
    have "cb_dels i (set_sender i (Finished (cb_winerr x)) a2) = cb_dels i a2" by (simp add: cb_dels_def cb_simps)
    with False code wake [OF code] a2(2) q cnt_zero show ?thesis by auto
  qed
qed

lemma demo_handled:
  obtains a x where "astep\<^sup>*\<^sup>* (async_start demo_ctx) a" "a_sender a 0 = Waiting" "a_cbs a 0 = Some x"
    "a_queue a = []"
proof -
  obtain a x th where a: "astep\<^sup>*\<^sup>* (async_start demo_ctx) a" "a_sender a 0 = Waiting" "a_cbs a 0 = Some x"
    "a_queue a = [(th, 0)]" by (rule demo_sent)
  then obtain b y where b: "Twapi_TclEventProc (\<lambda>_. (True, 0, TRT_EMPTY)) th True a = Some (b, 1)"
    "a_queue b = []" "a_sender b 0 = Waiting" "a_cbs b 0 = Some y"
    by (simp add: Twapi_TclEventProc_def Let_def cb_simps)
  show ?thesis
    by (rule that [OF rtranclp.rtrancl_into_rtrancl [OF a(1) astep.handle [OF b(1)]] b(3,4,2)])
qed

theorem waiting_sender_released_witness:
  "\<exists>a a' w. astep\<^sup>*\<^sup>* (async_start demo_ctx) a \<and> a_sender a 0 = Waiting \<and>
     enqueue_wait 0 None True a = Some (a', w) \<and> a_sender a' 0 = Owns \<and> (\<exists>b. owner_unref 0 a' = Some b)"
proof -
  obtain a x where a: "astep\<^sup>*\<^sup>* (async_start demo_ctx) a" "a_sender a 0 = Waiting" "a_cbs a 0 = Some x"
    "a_queue a = []" by (rule demo_handled)
  have "(0::nat) \<notin> snd ` set (a_queue a)" using a(4) by simp
  from waiting_sender_released [OF demo_fresh a(1,3,2) this, of True]
  obtain a' where "enqueue_wait 0 None True a = Some (a', cb_winerr x)" "a_sender a' 0 = Owns"
    "\<forall>b. astep\<^sup>*\<^sup>* a' b \<and> a_sender b 0 = Owns \<longrightarrow> (\<exists>b'. owner_unref 0 b = Some b')" unfolding if_not_P [OF not_not [THEN iffD2, OF TrueI]] by blast
  then show ?thesis using a(1,2) by blast
qed

lemma sender_stuck:
  assumes "astep a b" "a_sender a i = TimedOut e"
  shows "a_sender b i = TimedOut e"
  using assms
proof (induction rule: astep.induct)
  case (release th a a')
  then show ?case
    by (auto simp: eventproc_release_def cb_simps elim!: CallbackUnref_cb split: bind_splits)
next
  case (owner a j a')
  then show ?case by (auto simp: owner_unref_def cb_simps elim!: CallbackUnref_cb split: bind_splits)
next
  case (wake a j w wants a' n)
  then show ?case
    by (cases "j = i") (auto simp: enqueue_wait_def cb_simps Let_def elim!: CallbackUnref_cb split: bind_splits option.splits if_splits)
next
  case (send a j c as timeout ev a' r)
  then have "j \<noteq> i" by auto
  then show ?case
    using send by (auto simp: TwapiEnqueueCallback_def TwapiCallbackDelete_def TwapiCallbackRef_def
        TwapiEnqueueTclEvent_def cb_simps Let_def split: bind_splits if_splits)
qed (auto simp: TwapiCallbackNew_def Twapi_TclEventProc_def Let_def cb_simps split: if_splits bind_splits prod.splits)

text \<open>
  A sender that times out never drops its reference: the callback is not deleted by
  anything that happens later, and once its event has been handled its count stays at one with
  nobody left to drop it.
\<close>

theorem timeout_leaks_callback:
  assumes "proc_fresh p" "astep\<^sup>*\<^sup>* (async_start p) a" "a_sender a i = TimedOut e"
    and "astep\<^sup>*\<^sup>* a b"
  shows "\<exists>x. a_cbs b i = Some x \<and> cb_deletions x = 0 \<and>
     (i \<notin> snd ` (set (a_queue b) \<union> set (a_handling b)) \<longrightarrow> cb_nrefs x = 1)"
proof -
  have s: "a_sender b i = TimedOut e"
    using assms(4) by (induction rule: rtranclp_induct) (auto intro: assms(3) sender_stuck)
  have "astep\<^sup>*\<^sup>* (async_start p) b" using assms(2,4) by (rule rtranclp_trans)
  then have inv: "a_inv b" by (rule reach_inv [OF assms(1)])
  then have "cb_ok b i" by (simp add: a_inv_def)
  with s obtain x where x: "a_cbs b i = Some x" by (auto simp: cb_ok_def split: option.splits)
  have "cnt (a_queue b) i = 0 \<and> cnt (a_handling b) i = 0"
    if "i \<notin> snd ` (set (a_queue b) \<union> set (a_handling b))"
    using that cnt_zero by (simp add: image_Un)
  then show ?thesis using a_inv_cb [OF inv x] s x by (auto simp: cb_good_def)
qed

theorem timeout_leaks_callback_witness:
  "\<exists>a b x. astep\<^sup>*\<^sup>* (async_start demo_ctx) a \<and> a_sender a 0 = TimedOut 258 \<and> astep a b \<and>
     a_cbs b 0 = Some x \<and> cb_deletions x = 0"
proof -
  obtain a x th where a: "astep\<^sup>*\<^sup>* (async_start demo_ctx) a" "a_sender a 0 = Waiting" "a_cbs a 0 = Some x"
    "a_queue a = [(th, 0)]" by (rule demo_sent)
  let ?b = "set_sender 0 (TimedOut 258) a"
  have "enqueue_wait 0 (Some 258) False a = Some (?b, 258)" using a(3) by (simp add: enqueue_wait_def)
  then have "astep a ?b" by (rule astep.wake [OF a(2), rotated]) simp
  with a(1) have r: "astep\<^sup>*\<^sup>* (async_start demo_ctx) ?b" by (rule rtranclp.rtrancl_into_rtrancl)
  obtain c where c: "Twapi_TclEventProc (\<lambda>_. (True, 0, TRT_EMPTY)) th True ?b = Some (c, 1)"
    using a(3,4) by (simp add: Twapi_TclEventProc_def Let_def cb_simps)
  then have st: "astep ?b c" by (rule astep.handle)
  have s: "a_sender ?b 0 = TimedOut 258" by (simp add: cb_simps)
  from timeout_leaks_callback [OF demo_fresh r s r_into_rtranclp [of astep, OF st]] r s st show ?thesis by blast
qed

end
