(* ===== verification/Evalcb.thy ===== *)
theory Evalcb
  imports Async_Props Atoms
begin

text \<open>
  \<open>TwapiEvalAndUpdateCallback\<close> of \<open>base/util.c\<close>: the evaluation of the script of a callback and
  the response and status that it leaves.

  Tcl is a parameter: \<open>eval\<close> is \<open>Tcl_EvalObjv\<close> (status, result string and what the script did to
  the object heap and the process) and \<open>tcl_conv\<close> holds the conversions of the result.
\<close>

section \<open>Operations\<close>

datatype rtype = RT_EMPTY | RT_CHARS_DYNAMIC | RT_UNICODE_DYNAMIC | RT_LONG | RT_INT | RT_DWORD
  | RT_BOOL | RT_OTHER nat

record tcl_conv =
  conv_long :: "string \<Rightarrow> int option"
  conv_int :: "string \<Rightarrow> int option"
  conv_dword :: "string \<Rightarrow> nat option"
  conv_bool :: "string \<Rightarrow> bool option"

definition ERROR_FUNCTION_FAILED :: nat where "ERROR_FUNCTION_FAILED = 1627"

definition ERROR_DS_NO_SUCH_OBJECT :: nat where "ERROR_DS_NO_SUCH_OBJECT = 8240"

definition ERROR_INVALID_PARAMETER :: nat where "ERROR_INVALID_PARAMETER = 87"

definition convert_response :: "tcl_conv \<Rightarrow> rtype \<Rightarrow> string \<Rightarrow> response option" where
  "convert_response cv rt s = (case rt of
      RT_CHARS_DYNAMIC \<Rightarrow> Some (TRT_CHARS_DYNAMIC s)
    | RT_UNICODE_DYNAMIC \<Rightarrow> Some (TRT_UNICODE_DYNAMIC s)
    | RT_LONG \<Rightarrow> map_option TRT_LONG (conv_long cv s)
    | RT_INT \<Rightarrow> map_option TRT_INT (conv_int cv s)
    | RT_DWORD \<Rightarrow> map_option TRT_DWORD (conv_dword cv s)
    | RT_BOOL \<Rightarrow> map_option TRT_BOOL (conv_bool cv s)
    | RT_EMPTY \<Rightarrow> Some TRT_EMPTY
    | RT_OTHER _ \<Rightarrow> None)"

fun incr_all :: "nat list \<Rightarrow> obj_heap \<Rightarrow> obj_heap option" where
  "incr_all [] h = Some h"
| "incr_all (x # xs) h = Option.bind (ObjIncrRefs x h) (incr_all xs)"

fun decr_all :: "nat list \<Rightarrow> obj_heap \<Rightarrow> obj_heap option" where
  "decr_all [] h = Some h"
| "decr_all (x # xs) h = Option.bind (ObjDecrRefs x h) (decr_all xs)"

text \<open>
  The result: the callback, whether the status is \<open>TCL_OK\<close>, the objects and the process.
  \<open>deleted\<close>: \<open>Tcl_InterpDeleted\<close>.
\<close>

definition TwapiEvalAndUpdateCallback ::
    "tcl_conv \<Rightarrow> (nat list \<Rightarrow> obj_heap \<Rightarrow> proc \<Rightarrow> bool \<times> string \<times> obj_heap \<times> proc) \<Rightarrow> thread \<Rightarrow> bool \<Rightarrow>
     nat list \<Rightarrow> rtype \<Rightarrow> cb \<Rightarrow> obj_heap \<Rightarrow> proc \<Rightarrow> (cb \<times> bool \<times> obj_heap \<times> proc) option" where
  "TwapiEvalAndUpdateCallback cv eval cur deleted objv rt x h p = do {
     h1 \<leftarrow> incr_all objv h;
     c \<leftarrow> cb_tic x;
     t \<leftarrow> p_tics p c;
     if tic_interp t = None \<or> deleted
     then do {
       h2 \<leftarrow> decr_all objv h1;
       Some (x\<lparr>cb_winerr := ERROR_DS_NO_SUCH_OBJECT, cb_response := TRT_EMPTY\<rparr>, True, h2, p) }
     else do {
       p1 \<leftarrow> TwapiInterpContextRef c 1 p;
       let (ok, res, h2, p2) = eval objv h1 p1;
       let (winerr, rt') = (if \<not> ok then (ERROR_FUNCTION_FAILED, RT_CHARS_DYNAMIC) else (0, rt));
       let (resp, st, winerr') = (case convert_response cv rt' res of
             Some r \<Rightarrow> (r, True, winerr)
           | None \<Rightarrow> (TwapiClearResult TRT_EMPTY, False,
               case rt' of RT_OTHER _ \<Rightarrow> ERROR_INVALID_PARAMETER | _ \<Rightarrow> winerr));
       p3 \<leftarrow> TwapiInterpContextUnref cur c 1 p2;
       h3 \<leftarrow> decr_all objv h2;
       Some (x\<lparr>cb_winerr := winerr', cb_response := resp\<rparr>, st, h3, p3) } }"

section \<open>Reference counts of the arguments\<close>

lemma incr_all_ok:
  "\<forall>x \<in> set xs. oh_objs h x \<noteq> None \<Longrightarrow> \<exists>h'. incr_all xs h = Some h' \<and> oh_next h' = oh_next h \<and>
   (\<forall>x. oh_objs h' x = map_option (\<lambda>(s, n). (s, n + count_list xs x)) (oh_objs h x))"
proof (induction xs arbitrary: h)
  case Nil
  show ?case by (auto simp: option.map_ident split: option.split)
next
  case (Cons a xs)
  then obtain s n where a: "oh_objs h a = Some (s, n)" by auto
  let ?h = "h\<lparr>oh_objs := (oh_objs h)(a \<mapsto> (s, n + 1))\<rparr>"
  have "\<forall>x \<in> set xs. oh_objs ?h x \<noteq> None" using Cons.prems by simp
  from Cons.IH [OF this] obtain h' where "incr_all xs ?h = Some h'" "oh_next h' = oh_next h"
    "\<And>x. oh_objs h' x = map_option (\<lambda>(s, n). (s, n + count_list xs x)) (oh_objs ?h x)" by auto
  with a show ?case by (auto simp: ObjIncrRefs_def)
qed

text \<open>What dropping \<open>k\<close> references of an object leaves.\<close>

definition dropped :: "nat \<Rightarrow> (string \<times> nat) option \<Rightarrow> (string \<times> nat) option" where
  "dropped k v = (if k = 0 then v else case v of None \<Rightarrow> None
     | Some (s, n) \<Rightarrow> if n \<le> k then None else Some (s, n - k))"

lemma decr_all_ok:
  "\<forall>x \<in> set xs. \<exists>s n. oh_objs h x = Some (s, n) \<and> count_list xs x \<le> n \<Longrightarrow>
   \<exists>h'. decr_all xs h = Some h' \<and> (\<forall>x. oh_objs h' x = dropped (count_list xs x) (oh_objs h x))"
proof (induction xs arbitrary: h)
  case Nil
  show ?case by (simp add: dropped_def)
next
  case (Cons a xs)
  then obtain s n where a: "oh_objs h a = Some (s, n)" "Suc (count_list xs a) \<le> n" by auto
  let ?h = "h\<lparr>oh_objs := (oh_objs h)(a := if n \<le> 1 then None else Some (s, n - 1))\<rparr>"
  have "\<exists>s n. oh_objs ?h x = Some (s, n) \<and> count_list xs x \<le> n" if "x \<in> set xs" for x
  proof (cases "x = a")
    case True
    then have "0 < count_list xs a" using that by (metis count_list_0_iff neq0_conv)
    then show ?thesis using True a by auto
  next
    case False
    then show ?thesis using Cons.prems that by auto
  qed
  then have "\<forall>x \<in> set xs. \<exists>s n. oh_objs ?h x = Some (s, n) \<and> count_list xs x \<le> n" by blast
  from Cons.IH [OF this] obtain h' where h': "decr_all xs ?h = Some h'"
    "\<And>x. oh_objs h' x = dropped (count_list xs x) (oh_objs ?h x)" by auto
  moreover have "dropped (count_list xs a) (oh_objs ?h a) = dropped (Suc (count_list xs a)) (oh_objs h a)"
    using a by (auto simp: dropped_def)
  ultimately show ?case using a by (auto simp: ObjDecrRefs_def)
qed

section \<open>Properties\<close>

text \<open>The arguments hold one more reference each during the evaluation, and lose it afterwards.\<close>

lemma args_released:
  assumes "\<forall>y \<in> set objv. oh_objs h y \<noteq> None"
    and h1: "\<And>y. oh_objs h1 y = map_option (\<lambda>(s, n). (s, n + count_list objv y)) (oh_objs h y)"
    and h2: "\<forall>y \<in> set objv. oh_objs h2 y = oh_objs h1 y"
  shows "\<exists>h'. decr_all objv h2 = Some h' \<and>
      (\<forall>y \<in> set objv. oh_objs h' y = (if \<exists>s. oh_objs h y = Some (s, 0) then None else oh_objs h y))"
proof -
  have "\<forall>y \<in> set objv. \<exists>s n. oh_objs h2 y = Some (s, n) \<and> count_list objv y \<le> n"
    using h2 assms(1) by (auto simp: h1)
  from decr_all_ok [OF this] obtain h' where h': "decr_all objv h2 = Some h'"
    "\<And>y. oh_objs h' y = dropped (count_list objv y) (oh_objs h2 y)" by blast
  have "oh_objs h' y = (if \<exists>s. oh_objs h y = Some (s, 0) then None else oh_objs h y)"
    if y: "y \<in> set objv" for y
  proof -
    obtain s n where "oh_objs h y = Some (s, n)" using assms(1) y by auto
    moreover have "count_list objv y \<noteq> 0" using y by (simp add: count_list_0_iff)
    ultimately show ?thesis using h2 y by (auto simp: h'(2) h1 dropped_def)
  qed
  with h'(1) show ?thesis by blast
qed

text \<open>The evaluation with an interpreter that is alive.\<close>

lemma eval_callback_live:
  assumes "cb_tic x = Some c" "p_tics p c = Some t" "0 < tic_nrefs t" "\<not> (tic_interp t = None \<or> deleted)"
    and h1: "incr_all objv h = Some h1"
    and ev: "eval objv h1 (upd_tic c (t\<lparr>tic_nrefs := tic_nrefs t + 1\<rparr>) p) =
      (ok, res, h2, upd_tic c (t\<lparr>tic_nrefs := tic_nrefs t + 1\<rparr>) p)"
    and h': "decr_all objv h2 = Some h'"
  shows "\<exists>x' st p'. TwapiEvalAndUpdateCallback cv eval cur deleted objv rt x h p = Some (x', st, h', p') \<and>
     p_tics p' c = Some t \<and>
     (if \<not> ok then st \<and> cb_winerr x' = ERROR_FUNCTION_FAILED \<and> cb_response x' = TRT_CHARS_DYNAMIC res
      else (case convert_response cv rt res of
              Some r \<Rightarrow> st \<and> cb_winerr x' = 0 \<and> cb_response x' = r
            | None \<Rightarrow> \<not> st \<and> cb_response x' = TRT_EMPTY))"
proof -
  let ?p1 = "upd_tic c (t\<lparr>tic_nrefs := tic_nrefs t + 1\<rparr>) p"
  have ref: "TwapiInterpContextRef c 1 p = Some ?p1"
    using assms(2) by (simp add: TwapiInterpContextRef_def ExchangeAdd_def)
  have unref: "TwapiInterpContextUnref cur c 1 ?p1 = Some (upd_tic c t ?p1)"
    using assms(3) by (simp add: TwapiInterpContextUnref_def ExchangeAdd_def)
  show ?thesis
    using assms(1,2,4) h1 ref unref ev h'
    by (cases ok; cases "convert_response cv (if ok then rt else RT_CHARS_DYNAMIC) res")
       (auto simp: TwapiEvalAndUpdateCallback_def TwapiClearResult_def convert_response_def split: option.splits)
qed

text \<open>The same with the references of the arguments.\<close>

lemma eval_callback_runs:
  assumes "cb_tic x = Some c" "p_tics p c = Some t" "0 < tic_nrefs t" "\<not> (tic_interp t = None \<or> deleted)"
    and args: "\<forall>y \<in> set objv. oh_objs h y \<noteq> None"
    and eval: "\<And>h1 p1. \<forall>y \<in> set objv. map_option fst (oh_objs h1 y) = map_option fst (oh_objs h y) \<Longrightarrow>
      \<exists>h2. eval objv h1 p1 = (ok, res, h2, p1) \<and> (\<forall>y \<in> set objv. oh_objs h2 y = oh_objs h1 y)"
  shows "\<exists>x' st h' p'. TwapiEvalAndUpdateCallback cv eval cur deleted objv rt x h p = Some (x', st, h', p') \<and>
     (\<forall>y \<in> set objv. oh_objs h' y = (if \<exists>s. oh_objs h y = Some (s, 0) then None else oh_objs h y)) \<and>
     p_tics p' c = Some t \<and>
     (if \<not> ok then st \<and> cb_winerr x' = ERROR_FUNCTION_FAILED \<and> cb_response x' = TRT_CHARS_DYNAMIC res
      else (case convert_response cv rt res of
              Some r \<Rightarrow> st \<and> cb_winerr x' = 0 \<and> cb_response x' = r
            | None \<Rightarrow> \<not> st \<and> cb_response x' = TRT_EMPTY))"
proof -
  obtain h1 where h1: "incr_all objv h = Some h1"
    "\<And>y. oh_objs h1 y = map_option (\<lambda>(s, n). (s, n + count_list objv y)) (oh_objs h y)"
    using incr_all_ok [OF args] by blast
  let ?p1 = "upd_tic c (t\<lparr>tic_nrefs := tic_nrefs t + 1\<rparr>) p"
  obtain h2 where h2: "eval objv h1 ?p1 = (ok, res, h2, ?p1)" "\<forall>y \<in> set objv. oh_objs h2 y = oh_objs h1 y"
    using eval [of h1 ?p1] by (auto simp: h1(2) option.map_comp comp_def case_prod_beta)
  obtain h' where h': "decr_all objv h2 = Some h'"
    "\<forall>y \<in> set objv. oh_objs h' y = (if \<exists>s. oh_objs h y = Some (s, 0) then None else oh_objs h y)"
    using args_released [OF args h1(2) h2(2)] by blast
  from h'(2) eval_callback_live [where eval = eval, OF assms(1-4) h1(1) h2(1) h'(1), of cv cur rt]
  show ?thesis by blast
qed

text \<open>
  The evaluation of a callback's script always gives the framework a definite answer:
  the error of a missing interpreter, the script's error message with its own error code, the
  converted result, or a failure exactly when the result cannot be converted; the argument
  objects are left with the references they had (one that nobody held is freed) and the
  context with the references that the script left it.
\<close>

theorem eval_callback_result:
  assumes "cb_tic x = Some c" "p_tics p c = Some t" "0 < tic_nrefs t"
    and args: "\<forall>y \<in> set objv. oh_objs h y \<noteq> None"
    and eval: "\<And>h1 p1. \<exists>h2. eval objv h1 p1 = (ok, res, h2, p1) \<and> (\<forall>y \<in> set objv. oh_objs h2 y = oh_objs h1 y)"
  shows "\<exists>x' st h' p'. TwapiEvalAndUpdateCallback cv eval cur deleted objv rt x h p = Some (x', st, h', p') \<and>
     (\<forall>y \<in> set objv. oh_objs h' y = (if \<exists>s. oh_objs h y = Some (s, 0) then None else oh_objs h y)) \<and>
     p_tics p' c = Some t \<and>
     (if tic_interp t = None \<or> deleted
      then st \<and> cb_winerr x' = ERROR_DS_NO_SUCH_OBJECT \<and> cb_response x' = TRT_EMPTY
      else if \<not> ok
      then st \<and> cb_winerr x' = ERROR_FUNCTION_FAILED \<and> cb_response x' = TRT_CHARS_DYNAMIC res
      else (case convert_response cv rt res of
              Some r \<Rightarrow> st \<and> cb_winerr x' = 0 \<and> cb_response x' = r
            | None \<Rightarrow> \<not> st \<and> cb_response x' = TRT_EMPTY))"
proof (cases "tic_interp t = None \<or> deleted")
  case True
  obtain h1 where h1: "incr_all objv h = Some h1"
    "\<And>y. oh_objs h1 y = map_option (\<lambda>(s, n). (s, n + count_list objv y)) (oh_objs h y)"
    using incr_all_ok [OF args] by blast
  with args_released [OF args h1(2), of h1] True assms(1,2) show ?thesis by (auto simp: TwapiEvalAndUpdateCallback_def)
next
  case False
  from eval_callback_runs [where eval = eval, OF assms(1-3) False args eval, of cv cur rt]
  show ?thesis unfolding if_not_P [OF False] .
qed

theorem eval_callback_result_witness:
  "\<forall>cv0. \<exists>x' h' p'. TwapiEvalAndUpdateCallback cv0 (\<lambda>objv h p. (False, ''bad'', h, p)) 1 False [0] RT_INT
       \<lparr>cb_tic = Some 100, cb_callback = 0, cb_nrefs = 1, cb_event = None, cb_winerr = 0, cb_response = TRT_EMPTY, cb_deletions = 0\<rparr>
       \<lparr>oh_objs = [0 \<mapsto> (''cmd'', 0)], oh_next = 1\<rparr> demo_ctx = Some (x', True, h', p') \<and>
     cb_response x' = TRT_CHARS_DYNAMIC ''bad'' \<and> oh_objs h' 0 = None"
proof (intro allI)
  fix cv0
  let ?x = "\<lparr>cb_tic = Some 100, cb_callback = 0, cb_nrefs = 1, cb_event = None, cb_winerr = 0, cb_response = TRT_EMPTY, cb_deletions = 0\<rparr>"
  obtain t where t: "p_tics demo_ctx 100 = Some t" "tic_interp t = Some 7" using demo_ctx_tic by blast
  then have "0 < tic_nrefs t" using demo_fresh by (simp add: proc_fresh_def)
  with eval_callback_result [of ?x 100 demo_ctx t "[0]" "\<lparr>oh_objs = [0 \<mapsto> (''cmd'', 0)], oh_next = 1\<rparr>"
      "\<lambda>objv h p. (False, ''bad'', h, p)" False "''bad''" cv0 1 False RT_INT] t
  show "\<exists>x' h' p'. TwapiEvalAndUpdateCallback cv0 (\<lambda>objv h p. (False, ''bad'', h, p)) 1 False [0] RT_INT ?x
       \<lparr>oh_objs = [0 \<mapsto> (''cmd'', 0)], oh_next = 1\<rparr> demo_ctx = Some (x', True, h', p') \<and>
     cb_response x' = TRT_CHARS_DYNAMIC ''bad'' \<and> oh_objs h' 0 = None" by auto
qed

end
