(* ===== verification/Tcl.thy ===== *)
theory Tcl
  imports Prelude
begin

text \<open>
  What the program uses of the Tcl library, as a parameter of the components that process
  Tcl values. A value is its string representation (every Tcl value has one, and the
  internal representations that the library caches are functions of it), a list of bytes.
  The fields are the conversions of the library; \<open>None\<close> is a conversion error.
\<close>

record tcl =
  t_list :: "string \<Rightarrow> string list option"
  t_mklist :: "string list \<Rightarrow> string"
  t_int :: "string \<Rightarrow> int option"
  t_wide :: "string \<Rightarrow> int option"
  t_bool :: "string \<Rightarrow> bool option"
  t_dictget :: "string \<Rightarrow> string \<Rightarrow> string option option"
  t_utfncmp :: "string \<Rightarrow> string \<Rightarrow> nat \<Rightarrow> int"
  t_lstrcmp :: "string \<Rightarrow> string \<Rightarrow> int"
  t_lstrcmpi :: "string \<Rightarrow> string \<Rightarrow> int"
  t_glob :: "string \<Rightarrow> string \<Rightarrow> bool \<Rightarrow> bool"
  t_setvar_ok :: "string \<Rightarrow> bool"

text \<open>Laws of the library that single theorems rely on: a list that was built can be read back,
  and the comparison of ASCII strings.\<close>

definition list_law :: "tcl \<Rightarrow> bool" where
  "list_law T \<longleftrightarrow> (\<forall>xs. t_list T (t_mklist T xs) = Some xs)"

definition ascii :: "string \<Rightarrow> bool" where
  "ascii s \<longleftrightarrow> (\<forall>c \<in> set s. 0 < (of_char c :: nat) \<and> (of_char c :: nat) < 128)"

definition ncmp_law :: "tcl \<Rightarrow> bool" where
  "ncmp_law T \<longleftrightarrow> (\<forall>s t n. ascii s \<longrightarrow> ascii t \<longrightarrow> (t_utfncmp T s t n = 0 \<longleftrightarrow> take n s = take n t))"

definition num_law :: "tcl \<Rightarrow> bool" where
  "num_law T \<longleftrightarrow> t_wide T ''0'' = Some 0 \<and> t_bool T ''0'' = Some False \<and> t_bool T ''1'' = Some True"

text \<open>The strings of \<open>ObjFromBoolean\<close>.\<close>

definition ObjFromBoolean :: "bool \<Rightarrow> string" where
  "ObjFromBoolean b = (if b then ''1'' else ''0'')"

section \<open>An instance\<close>

text \<open>
  A small instance for which the laws hold: lists are encoded by escaping, numbers are single
  decimal digits and dictionaries are lists of even length.
\<close>

fun esc :: "string \<Rightarrow> string" where
  "esc [] = ''.''"
| "esc (c # s) = CHR ''c'' # c # esc s"

fun enc :: "string list \<Rightarrow> string" where
  "enc [] = []"
| "enc (x # xs) = esc x @ enc xs"

fun dec :: "string \<Rightarrow> string \<Rightarrow> string list option" where
  "dec acc [] = (if acc = [] then Some [] else None)"
| "dec acc [c] = (if c = CHR ''.'' then Some [rev acc] else None)"
| "dec acc (c # d # s) = (if c = CHR ''.'' then map_option (\<lambda>xs. rev acc # xs) (dec [] (d # s))
     else dec (d # acc) s)"

lemma dec_esc: "dec acc (esc x @ r) = map_option (\<lambda>xs. (rev acc @ x) # xs) (dec [] r)"
proof (induction x arbitrary: acc)
  case Nil
  then show ?case by (cases r) auto
qed simp

lemma dec_enc: "dec [] (enc xs) = Some xs"
  by (induction xs) (simp_all add: dec_esc)

fun lookup_pairs :: "string list \<Rightarrow> string \<Rightarrow> string option option" where
  "lookup_pairs [] k = Some None"
| "lookup_pairs [x] k = None"
| "lookup_pairs (x # v # xs) k = (if x = k then Some (Some v) else lookup_pairs xs k)"

definition digit :: "string \<Rightarrow> int option" where
  "digit s = (case s of [c] \<Rightarrow> if 48 \<le> (of_char c :: nat) \<and> (of_char c :: nat) < 58
     then Some (int (of_char c) - 48) else None | _ \<Rightarrow> None)"

definition demo_tcl :: tcl where
  "demo_tcl = \<lparr>t_list = dec [], t_mklist = enc, t_int = digit, t_wide = digit,
     t_bool = (\<lambda>s. if s = ''1'' then Some True else if s = ''0'' then Some False else None),
     t_dictget = (\<lambda>d k. Option.bind (dec [] d) (\<lambda>xs. lookup_pairs xs k)),
     t_utfncmp = (\<lambda>s t n. if take n s = take n t then 0 else 1),
     t_lstrcmp = (\<lambda>s t. if s = t then 0 else 1), t_lstrcmpi = (\<lambda>s t. if s = t then 0 else 1),
     t_glob = (\<lambda>s p nocase. p = ''*'' \<or> s = p), t_setvar_ok = (\<lambda>_. True)\<rparr>"

lemma demo_tcl_laws: "list_law demo_tcl" "ncmp_law demo_tcl" "num_law demo_tcl"
  by (simp_all add: demo_tcl_def list_law_def dec_enc ncmp_law_def num_law_def digit_def)

lemma demo_list: "t_list demo_tcl (enc xs) = Some xs" "t_mklist demo_tcl xs = enc xs"
  by (simp_all add: demo_tcl_def dec_enc)

end
