(* ===== verification/Parseargs.thy ===== *)
theory Parseargs
  imports Tcl
begin

text \<open>
  The option parser \<open>parseargs\<close> (\<open>base/parseargs.c\<close>): the descriptors of the options, their
  conversion from and to a Tcl list, and the command.

  The command is cut into its loops: the flags of the command, the scan of the arguments, and
  the collection of the values. A null pointer that the code would print ends the process: the
  computations over options have the value \<open>None\<close> then.
\<close>

section \<open>Option descriptors\<close>

datatype opt_type = OPT_ANY | OPT_BOOL | OPT_INT | OPT_SWITCH | OPT_SYM

record OptionDescriptor =
  od_name :: string
  od_def :: "string option"
  od_valid :: "string option"
  od_name_len :: nat
  od_type :: opt_type
  od_first :: char

text \<open>\<open>Tcl_UtfFindFirst\<close> for an ASCII character: the prefix before it and the rest after it.\<close>

fun find_first :: "char \<Rightarrow> string \<Rightarrow> (string \<times> string) option" where
  "find_first c [] = None"
| "find_first c (d # s) = (if d = c then Some ([], s) else map_option (\<lambda>(a, b). (d # a, b)) (find_first c s))"

definition opt_type_of :: "string \<Rightarrow> opt_type option" where
  "opt_type_of s = (if s = ''int'' then Some OPT_INT else if s = ''arg'' then Some OPT_ANY
     else if s = ''bool'' then Some OPT_BOOL else if s = ''switch'' then Some OPT_SWITCH
     else if s = ''sym'' then Some OPT_SYM else None)"

definition first_char :: "string \<Rightarrow> char" where
  "first_char s = (case s of [] \<Rightarrow> CHR 0x00 | c # _ \<Rightarrow> c)"

text \<open>One turn of the loop of \<open>SetParseargsOptFromAny\<close>; \<open>None\<close> leads to its error handler.\<close>

definition parse_descriptor :: "tcl \<Rightarrow> string \<Rightarrow> OptionDescriptor option" where
  "parse_descriptor T s = do {
     elems \<leftarrow> t_list T s;
     (case elems of
        [] \<Rightarrow> None
      | name # extra \<Rightarrow> do {
          (name_len, typ) \<leftarrow> (case find_first (CHR ''.'') name of
              None \<Rightarrow> Some (length name mod 2 ^ 16, OPT_SWITCH)
            | Some (pre, typ) \<Rightarrow>
                if pre = [] then None
                else map_option (\<lambda>t. (length pre mod 2 ^ 16, t)) (opt_type_of typ));
          let o1 = \<lparr>od_name = name, od_def = None, od_valid = None, od_name_len = name_len,
                    od_type = typ, od_first = first_char name\<rparr>;
          (case extra of
             [] \<Rightarrow> Some o1
           | [d] \<Rightarrow> Some (o1\<lparr>od_def := Some d\<rparr>)
           | d # v # _ \<Rightarrow> do {
               valid \<leftarrow> t_list T v;
               if valid = [] then None
               else if typ = OPT_SYM \<and> odd (length valid) then None
               else Some (o1\<lparr>od_def := Some d, od_valid := Some v\<rparr>) }) }) }"

text \<open>The descriptors, or the descriptor that the error message quotes (none when the list itself is bad).\<close>

fun parse_descriptors :: "tcl \<Rightarrow> string list \<Rightarrow> string option + OptionDescriptor list" where
  "parse_descriptors T [] = Inr []"
| "parse_descriptors T (s # ss) = (case parse_descriptor T s of
     None \<Rightarrow> Inl (Some s)
   | Some d \<Rightarrow> (case parse_descriptors T ss of Inl e \<Rightarrow> Inl e | Inr ds \<Rightarrow> Inr (d # ds)))"

definition SetParseargsOptFromAny :: "tcl \<Rightarrow> string \<Rightarrow> string option + OptionDescriptor list" where
  "SetParseargsOptFromAny T s = (case t_list T s of None \<Rightarrow> Inl None | Some ss \<Rightarrow> parse_descriptors T ss)"

definition UpdateStringParseargsOpt :: "tcl \<Rightarrow> OptionDescriptor list \<Rightarrow> string" where
  "UpdateStringParseargsOpt T opts = t_mklist T (map (\<lambda>d. t_mklist T
     (od_name d # (case od_def d of None \<Rightarrow> []
        | Some v \<Rightarrow> v # (case od_valid d of None \<Rightarrow> [] | Some w \<Rightarrow> [w])))) opts)"

definition DupParseargsOpt :: "OptionDescriptor list option \<Rightarrow> OptionDescriptor list option" where
  "DupParseargsOpt src = (case src of None \<Rightarrow> None | Some opts \<Rightarrow> Some (map (\<lambda>s.
     \<lparr>od_name = od_name s, od_def = od_def s, od_valid = od_valid s, od_name_len = od_name_len s,
      od_type = od_type s, od_first = od_first s\<rparr>) opts))"

section \<open>The command\<close>

datatype pa_error =
    PaWrongNumArgs
  | PaBadDescriptor "string option"
  | PaMissingMaxleftover
  | PaBadMaxleftover string
  | PaExtraArgument string
  | PaNoVariable string
  | PaBadList string
  | PaNoValue string
  | PaUnknownOption string "string list"
  | PaBadValue string string string
  | PaBadDict string
  | PaExtraArgs "string list"
  | PaSetVar string

record pa_flags =
  pf_nulldefault :: bool
  pf_maxleftover :: int
  pf_setvars :: bool
  pf_ignoreunknown :: bool
  pf_hyphenated :: bool

definition pa_flags0 :: pa_flags where
  "pa_flags0 = \<lparr>pf_nulldefault = False, pf_maxleftover = 2147483647, pf_setvars = False,
     pf_ignoreunknown = False, pf_hyphenated = False\<rparr>"

fun parse_flags :: "tcl \<Rightarrow> string list \<Rightarrow> pa_flags \<Rightarrow> pa_error + pa_flags" where
  "parse_flags T [] f = Inr f"
| "parse_flags T (s # ss) f =
    (if s = ''-nulldefault'' then parse_flags T ss (f\<lparr>pf_nulldefault := True\<rparr>)
     else if s = ''-maxleftover'' then
       (case ss of
          [] \<Rightarrow> Inl PaMissingMaxleftover
        | v # ss' \<Rightarrow> (case t_int T v of
            None \<Rightarrow> Inl (PaBadMaxleftover v)
          | Some n \<Rightarrow> parse_flags T ss' (f\<lparr>pf_maxleftover := n\<rparr>)))
     else if s = ''-setvars'' then parse_flags T ss (f\<lparr>pf_setvars := True\<rparr>)
     else if s = ''-ignoreunknown'' then parse_flags T ss (f\<lparr>pf_ignoreunknown := True\<rparr>)
     else if s = ''-hyphenated'' then parse_flags T ss (f\<lparr>pf_hyphenated := True\<rparr>)
     else Inl (PaExtraArgument s))"

subsection \<open>The scan of the arguments\<close>

definition opt_matches :: "tcl \<Rightarrow> OptionDescriptor \<Rightarrow> string \<Rightarrow> bool" where
  "opt_matches T d arg \<longleftrightarrow> od_name_len d = length arg - 1 \<and> od_first d = first_char (tl arg) \<and>
     t_utfncmp T (od_name d) (tl arg) (length arg - 1) = 0"

fun find_opt :: "tcl \<Rightarrow> OptionDescriptor list \<Rightarrow> string \<Rightarrow> nat option" where
  "find_opt T [] arg = None"
| "find_opt T (d # ds) arg = (if opt_matches T d arg then Some 0 else map_option Suc (find_opt T ds arg))"

definition shown_name :: "OptionDescriptor \<Rightarrow> string" where
  "shown_name d = take (od_name_len d) (od_name d)"

text \<open>The values by option, the new argument list so far, and on success the arguments left.\<close>

fun scan_args :: "tcl \<Rightarrow> OptionDescriptor list \<Rightarrow> bool \<Rightarrow> string list \<Rightarrow> string option list \<Rightarrow> string list \<Rightarrow>
    pa_error + (string option list \<times> string list \<times> string list)" where
  "scan_args T opts ign [] vals new = Inr (vals, new, [])"
| "scan_args T opts ign (arg # rest) vals new =
    (if first_char arg \<noteq> CHR ''-'' then Inr (vals, new, arg # rest)
     else if arg = ''-'' \<or> arg = ''--'' then Inr (vals, new, rest)
     else case find_opt T opts arg of
       Some j \<Rightarrow>
         if od_type (opts ! j) = OPT_SWITCH
         then scan_args T opts ign rest (vals[j := Some (ObjFromBoolean True)]) new
         else (case rest of
             [] \<Rightarrow> Inl (PaNoValue arg)
           | v # rest' \<Rightarrow> scan_args T opts ign rest' (vals[j := Some v]) new)
     | None \<Rightarrow>
         if \<not> ign then Inl (PaUnknownOption arg (map shown_name opts))
         else (case rest of
             [] \<Rightarrow> scan_args T opts ign [] vals (new @ [arg])
           | v # rest' \<Rightarrow>
               if first_char v \<noteq> CHR ''-'' then scan_args T opts ign rest' vals (new @ [arg, v])
               else scan_args T opts ign rest vals (new @ [arg])))"

subsection \<open>The values\<close>

text \<open>The message of a bad value prints the value: a null pointer there is a crash.\<close>

definition TwapiParseargsSetResultBadValue ::
    "string \<Rightarrow> string option \<Rightarrow> OptionDescriptor \<Rightarrow> pa_error option" where
  "TwapiParseargsSetResultBadValue kind v d = map_option (\<lambda>s. PaBadValue kind s (shown_name d)) v"

text \<open>The loop over the allowed integers: found, exhausted, or an entry that is no integer.\<close>

fun int_allowed :: "tcl \<Rightarrow> string list \<Rightarrow> int \<Rightarrow> string + bool" where
  "int_allowed T [] n = Inr False"
| "int_allowed T (v # vs) n = (case t_wide T v of
     None \<Rightarrow> Inl v
   | Some m \<Rightarrow> if m = n then Inr True else int_allowed T vs n)"

fun str_allowed :: "tcl \<Rightarrow> string list \<Rightarrow> string \<Rightarrow> bool" where
  "str_allowed T [] s \<longleftrightarrow> False"
| "str_allowed T (v # vs) s \<longleftrightarrow> t_lstrcmp T v s = 0 \<or> str_allowed T vs s"

definition check_int :: "tcl \<Rightarrow> OptionDescriptor \<Rightarrow> string option \<Rightarrow> (pa_error + string) option" where
  "check_int T d v = (case (case v of None \<Rightarrow> Some 0 | Some s \<Rightarrow> t_wide T s) of
      None \<Rightarrow> map_option Inl (TwapiParseargsSetResultBadValue ''Non-integer'' v d)
    | Some wide \<Rightarrow>
        (case od_valid d of
           None \<Rightarrow> Some (Inr (case v of None \<Rightarrow> ''0'' | Some s \<Rightarrow> s))
         | Some vl \<Rightarrow> (case t_list T vl of
             None \<Rightarrow> Some (Inl (PaBadList vl))
           | Some valid \<Rightarrow> (case int_allowed T valid wide of
               Inl bad \<Rightarrow> map_option Inl (TwapiParseargsSetResultBadValue ''Non-integer enumeration'' (Some bad) d)
             | Inr False \<Rightarrow> map_option Inl (TwapiParseargsSetResultBadValue ''Invalid'' v d)
             | Inr True \<Rightarrow> Some (Inr (case v of None \<Rightarrow> ''0'' | Some s \<Rightarrow> s))))))"

definition check_any :: "tcl \<Rightarrow> OptionDescriptor \<Rightarrow> string option \<Rightarrow> (pa_error + string) option" where
  "check_any T d v = (let s = (case v of None \<Rightarrow> '''' | Some s \<Rightarrow> s) in case od_valid d of
      None \<Rightarrow> Some (Inr s)
    | Some vl \<Rightarrow> (case t_list T vl of
        None \<Rightarrow> Some (Inl (PaBadList vl))
      | Some valid \<Rightarrow> if str_allowed T valid s then Some (Inr s)
          else map_option Inl (TwapiParseargsSetResultBadValue ''Invalid'' v d)))"

definition check_sym :: "tcl \<Rightarrow> OptionDescriptor \<Rightarrow> string option \<Rightarrow> (pa_error + string) option" where
  "check_sym T d v = (case v of
      None \<Rightarrow> Some (Inr ''0'')
    | Some s \<Rightarrow>
        (case (case od_valid d of None \<Rightarrow> Some s
               | Some vl \<Rightarrow> map_option (\<lambda>r. case r of None \<Rightarrow> s | Some x \<Rightarrow> x) (t_dictget T vl s)) of
           None \<Rightarrow> Some (Inl (PaBadDict (the (od_valid d))))
         | Some s' \<Rightarrow> (case t_wide T s' of
             None \<Rightarrow> map_option Inl (TwapiParseargsSetResultBadValue ''Invalid'' (Some s') d)
           | Some _ \<Rightarrow> Some (Inr s'))))"

definition check_bool :: "tcl \<Rightarrow> OptionDescriptor \<Rightarrow> string option \<Rightarrow> (pa_error + string) option" where
  "check_bool T d v = (case v of
      None \<Rightarrow> Some (Inr (ObjFromBoolean False))
    | Some s \<Rightarrow> (case t_bool T s of
        None \<Rightarrow> map_option Inl (TwapiParseargsSetResultBadValue ''Non-boolean'' v d)
      | Some j \<Rightarrow> (case od_valid d of
          Some vl \<Rightarrow> if j then Some (Inr vl) else Some (Inr (ObjFromBoolean j))
        | None \<Rightarrow> Some (Inr (ObjFromBoolean j)))))"

text \<open>One turn of the loop over the options: \<open>Inr None\<close> skips the option.\<close>

definition check_option :: "tcl \<Rightarrow> bool \<Rightarrow> OptionDescriptor \<Rightarrow> string option \<Rightarrow> (pa_error + string option) option" where
  "check_option T nulldefault d v =
     (if od_type d \<noteq> OPT_SWITCH \<and> v = None \<and> od_def d = None \<and> \<not> nulldefault then Some (Inr None)
      else let v' = (if od_type d \<noteq> OPT_SWITCH \<and> v = None then od_def d else v)
        in map_option (map_sum id Some) (case od_type d of
            OPT_INT \<Rightarrow> check_int T d v'
          | OPT_ANY \<Rightarrow> check_any T d v'
          | OPT_SYM \<Rightarrow> check_sym T d v'
          | OPT_SWITCH \<Rightarrow> check_bool T d v'
          | OPT_BOOL \<Rightarrow> check_bool T d v'))"

definition result_name :: "bool \<Rightarrow> OptionDescriptor \<Rightarrow> string" where
  "result_name hyphenated d = (if hyphenated then CHR ''-'' # shown_name d else shown_name d)"

fun collect :: "tcl \<Rightarrow> bool \<Rightarrow> bool \<Rightarrow> (OptionDescriptor \<times> string option) list \<Rightarrow>
    (pa_error + (string \<times> string) list) option" where
  "collect T nd hy [] = Some (Inr [])"
| "collect T nd hy ((d, v) # dvs) = (case check_option T nd d v of
      None \<Rightarrow> None
    | Some (Inl e) \<Rightarrow> Some (Inl e)
    | Some (Inr r) \<Rightarrow> (case collect T nd hy dvs of
        None \<Rightarrow> None
      | Some (Inl e) \<Rightarrow> Some (Inl e)
      | Some (Inr ret) \<Rightarrow> Some (Inr (case r of None \<Rightarrow> ret | Some x \<Rightarrow> (result_name hy d, x) # ret))))"

fun set_vars :: "tcl \<Rightarrow> (string \<times> string) list \<Rightarrow> (string \<rightharpoonup> string) \<Rightarrow> (string \<rightharpoonup> string) \<times> pa_error option" where
  "set_vars T [] vars = (vars, None)"
| "set_vars T ((n, v) # ret) vars =
     (if t_setvar_ok T n then set_vars T ret (vars(n \<mapsto> v)) else (vars, Some (PaSetVar n)))"

subsection \<open>Twapi\_ParseargsObjCmd\<close>

text \<open>
  \<open>objv\<close> are the arguments after the name of the command. The result is the variables and
  an error or the result of the command (its list, empty with \<open>-setvars\<close>).
\<close>

definition Twapi_ParseargsObjCmd ::
    "tcl \<Rightarrow> string list \<Rightarrow> (string \<rightharpoonup> string) \<Rightarrow> ((string \<rightharpoonup> string) \<times> (pa_error + (string \<times> string) list)) option" where
  "Twapi_ParseargsObjCmd T objv vars = (case objv of
      var # optlist # flags \<Rightarrow>
        (case SetParseargsOptFromAny T optlist of
           Inl e \<Rightarrow> Some (vars, Inl (PaBadDescriptor e))
         | Inr opts \<Rightarrow>
        (case parse_flags T flags pa_flags0 of
           Inl e \<Rightarrow> Some (vars, Inl e)
         | Inr f \<Rightarrow>
        (case vars var of
           None \<Rightarrow> Some (vars, Inl (PaNoVariable var))
         | Some argv_value \<Rightarrow>
        (case t_list T argv_value of
           None \<Rightarrow> Some (vars, Inl (PaBadList argv_value))
         | Some argv \<Rightarrow>
        (case scan_args T opts (pf_ignoreunknown f) argv (replicate (length opts) None) [] of
           Inl e \<Rightarrow> Some (vars, Inl e)
         | Inr (vals, new, left) \<Rightarrow>
        (case collect T (pf_nulldefault f) (pf_hyphenated f) (zip opts vals) of
           None \<Rightarrow> None
         | Some (Inl e) \<Rightarrow> Some (vars, Inl e)
         | Some (Inr ret) \<Rightarrow>
             if pf_maxleftover f < int (length left) then Some (vars, Inl (PaExtraArgs left))
             else
               let newargv = t_mklist T (new @ left);
                   (vars1, err) = (if pf_setvars f then set_vars T ret vars else (vars, None))
               in (case err of
                     Some e \<Rightarrow> Some (vars1, Inl e)
                   | None \<Rightarrow>
                       if t_setvar_ok T var
                       then Some (vars1(var \<mapsto> newargv), Inr (if pf_setvars f then [] else ret))
                       else Some (vars1, Inl (PaSetVar var)))))))))
    | _ \<Rightarrow> Some (vars, Inl PaWrongNumArgs))"

end
