(* ===== verification/Parseargs_Props.thy ===== *)
theory Parseargs_Props
  imports Parseargs "HOL-Library.Sublist"
begin

text \<open>
  The properties of \<open>parseargs\<close>: it does not crash, its results have the types and lie in
  the sets that the options declare, what it does not consume comes back in order, options
  that are written out are read back, and its descriptors survive their string form.
\<close>

section \<open>Descriptors\<close>

text \<open>What the conversion of the option list guarantees.\<close>

definition od_wf :: "OptionDescriptor \<Rightarrow> bool" where
  "od_wf d \<longleftrightarrow> (od_valid d \<noteq> None \<longrightarrow> od_def d \<noteq> None) \<and> od_first d = first_char (od_name d) \<and>
     od_name_len d \<le> length (od_name d)"

lemma find_first_Some: "find_first c s = Some (a, b) \<Longrightarrow> s = a @ c # b \<and> c \<notin> set a"
  by (induction s arbitrary: a) (auto split: if_splits)

lemma parse_descriptor_elems:
  assumes "parse_descriptor T s = Some d"
  obtains extra where "t_list T s = Some (od_name d # extra)"
    "od_first d = first_char (od_name d)" "od_name_len d \<le> length (od_name d)"
    "od_def d = (case extra of [] \<Rightarrow> None | x # _ \<Rightarrow> Some x)"
    "od_valid d = (case extra of x # v # _ \<Rightarrow> Some v | _ \<Rightarrow> None)"
proof -
  obtain elems where e: "t_list T s = Some elems" using assms by (cases "t_list T s") (auto simp: parse_descriptor_def)
  obtain name extra where ne: "elems = name # extra" using assms e by (cases elems) (auto simp: parse_descriptor_def)
  have le: "length pre mod 2 ^ 16 \<le> length name" if "find_first (CHR ''.'') name = Some (pre, ty)" for pre ty
    using find_first_Some [OF that] by (auto intro: le_trans [OF mod_less_eq_dividend])
  show ?thesis
    by (rule that [of extra]; use assms e ne in \<open>auto simp: parse_descriptor_def Let_def
        split: option.splits prod.splits list.splits if_splits bind_splits dest!: le\<close>)
qed

lemma parse_descriptor_wf: "parse_descriptor T s = Some d \<Longrightarrow> od_wf d"
  by (erule parse_descriptor_elems) (auto simp: od_wf_def split: list.splits)

lemma parse_descriptors_all:
  "parse_descriptors T ss = Inr ds \<longleftrightarrow> list_all2 (\<lambda>s d. parse_descriptor T s = Some d) ss ds"
proof (induction ss arbitrary: ds)
  case (Cons a ss)
  then show ?case
    by (cases "parse_descriptor T a"; cases "parse_descriptors T ss") (auto simp: list_all2_Cons1)
qed auto

lemma SetParseargs_wf: "SetParseargsOptFromAny T s = Inr ds \<Longrightarrow> d \<in> set ds \<Longrightarrow> od_wf d"
  by (auto simp: SetParseargsOptFromAny_def parse_descriptors_all in_set_conv_nth list_all2_conv_all_nth
      intro: parse_descriptor_wf split: option.splits)

text \<open>
  The string form that is generated for a converted option list converts to the same
  descriptors again.
\<close>

lemma parse_descriptor_again:
  assumes "parse_descriptor T s = Some d" "list_law T"
  shows "parse_descriptor T (t_mklist T (od_name d # (case od_def d of None \<Rightarrow> []
        | Some v \<Rightarrow> v # (case od_valid d of None \<Rightarrow> [] | Some w \<Rightarrow> [w])))) = Some d"
proof -
  obtain extra where e: "t_list T s = Some (od_name d # extra)"
    "od_def d = (case extra of [] \<Rightarrow> None | x # _ \<Rightarrow> Some x)"
    "od_valid d = (case extra of x # v # _ \<Rightarrow> Some v | _ \<Rightarrow> None)"
    using assms(1) by (rule parse_descriptor_elems)
  have same: "parse_descriptor T s' = parse_descriptor T s"
    if new: "t_list T s' = Some (od_name d # extra')" "extra = [] \<longleftrightarrow> extra' = []"
      "\<And>a. extra = [a] \<longleftrightarrow> extra' = [a]" "\<And>a b. (\<exists>r. extra = a # b # r) \<longleftrightarrow> extra' = [a, b]" for s' extra'
  proof -
    consider "extra = [] \<and> extra' = []" | a where "extra = [a] \<and> extra' = [a]"
      | a b r where "extra = a # b # r \<and> extra' = [a, b]"
      using new(2-4) by (metis list.exhaust)
    then show ?thesis by cases (simp_all add: parse_descriptor_def e(1) new(1))
  qed
  have "t_list T (t_mklist T xs) = Some xs" for xs using assms(2) by (simp add: list_law_def)
  then show ?thesis
    using assms(1) e
    by (subst same [of _ "case od_def d of None \<Rightarrow> []
        | Some v \<Rightarrow> v # (case od_valid d of None \<Rightarrow> [] | Some w \<Rightarrow> [w])"]) (auto split: list.splits)
qed

theorem option_list_roundtrip:
  assumes "SetParseargsOptFromAny T s = Inr opts" "list_law T"
  shows "SetParseargsOptFromAny T (UpdateStringParseargsOpt T opts) = Inr opts"
proof -
  obtain ss where ss: "list_all2 (\<lambda>s d. parse_descriptor T s = Some d) ss opts"
    using assms(1) by (auto simp: SetParseargsOptFromAny_def parse_descriptors_all split: option.splits)
  have law: "t_list T (t_mklist T xs) = Some xs" for xs using assms(2) by (simp add: list_law_def)
  show ?thesis
    unfolding SetParseargsOptFromAny_def UpdateStringParseargsOpt_def law option.case parse_descriptors_all
    using ss by (auto simp: list_all2_conv_all_nth intro!: parse_descriptor_again assms(2))
qed

theorem option_list_roundtrip_witness:
  "\<exists>opts. SetParseargsOptFromAny demo_tcl (enc [enc [''n.int'', ''3''], enc [''v'']]) = Inr opts \<and>
     SetParseargsOptFromAny demo_tcl (UpdateStringParseargsOpt demo_tcl opts) = Inr opts"
proof -
  have l: "t_list demo_tcl (enc xs) = Some xs" for xs by (simp add: demo_tcl_def dec_enc)
  have "\<exists>opts. SetParseargsOptFromAny demo_tcl (enc [enc [''n.int'', ''3''], enc [''v'']]) = Inr opts"
    by (simp add: SetParseargsOptFromAny_def l parse_descriptor_def opt_type_of_def Let_def del: enc.simps)
  with option_list_roundtrip demo_tcl_laws(1) show ?thesis by blast
qed

section \<open>No crash\<close>

lemma check_option_total: "od_wf d \<Longrightarrow> check_option T nd d v \<noteq> None"
  by (cases v; cases "od_def d"; cases "od_valid d"; cases "od_type d")
     (auto simp: check_option_def check_int_def check_any_def check_sym_def check_bool_def od_wf_def
        TwapiParseargsSetResultBadValue_def Let_def split: option.splits sum.splits bool.splits)

lemma collect_total: "(\<And>d v. (d, v) \<in> set dvs \<Longrightarrow> od_wf d) \<Longrightarrow> collect T nd hy dvs \<noteq> None"
proof (induction T nd hy dvs rule: collect.induct)
  case (2 T nd hy d v dvs)
  have "od_wf d" using "2.prems" by auto
  then obtain r where r: "check_option T nd d v = Some r" using check_option_total by blast
  show ?case
  proof (cases r)
    case (Inr x)
    have "collect T nd hy dvs \<noteq> None" by (rule "2.IH" [OF r Inr]) (use "2.prems" in auto)
    then show ?thesis using r Inr by (auto split: sum.splits)
  qed (simp add: r)
qed simp

text \<open>
  The command never prints a null pointer: it always comes to a result or an error, whatever
  the options and arguments are and whatever the library answers.
\<close>

theorem parseargs_never_crashes:
  "\<exists>vars' r. Twapi_ParseargsObjCmd T objv vars = Some (vars', r)"
proof -
  have False if "SetParseargsOptFromAny T s = Inr opts" "collect T nd hy (zip opts vals) = None" for s opts vals nd hy
    using that(2) collect_total [of "zip opts vals"] SetParseargs_wf [OF that(1)] by (meson set_zip_leftD)
  then have "Twapi_ParseargsObjCmd T objv vars \<noteq> None"
    by (auto simp: Twapi_ParseargsObjCmd_def Let_def
        split: list.splits sum.splits option.splits prod.splits if_splits) blast
  then show ?thesis by auto
qed

section \<open>Types of the results\<close>

text \<open>What a value returned for an option must be.\<close>

definition value_ok :: "tcl \<Rightarrow> OptionDescriptor \<Rightarrow> string \<Rightarrow> bool" where
  "value_ok T d x \<longleftrightarrow> (case od_type d of
      OPT_INT \<Rightarrow> (\<exists>n. t_wide T x = Some n \<and> (\<forall>vl valid. od_valid d = Some vl \<longrightarrow> t_list T vl = Some valid \<longrightarrow>
          (\<exists>w \<in> set valid. t_wide T w = Some n)))
    | OPT_ANY \<Rightarrow> (\<forall>vl valid. od_valid d = Some vl \<longrightarrow> t_list T vl = Some valid \<longrightarrow>
          (\<exists>w \<in> set valid. t_lstrcmp T w x = 0))
    | OPT_SYM \<Rightarrow> t_wide T x \<noteq> None
    | _ \<Rightarrow> x = ''0'' \<or> x = ''1'' \<or> od_valid d = Some x)"

lemma int_allowed_True: "int_allowed T vs n = Inr True \<Longrightarrow> \<exists>w \<in> set vs. t_wide T w = Some n"
  by (induction T vs n rule: int_allowed.induct) (auto split: option.splits if_splits)

lemma str_allowed_True: "str_allowed T vs s \<Longrightarrow> \<exists>w \<in> set vs. t_lstrcmp T w s = 0"
  by (induction T vs s rule: str_allowed.induct) auto

lemma check_option_value:
  assumes "check_option T nd d v = Some (Inr (Some x))" "num_law T"
  shows "value_ok T d x"
proof (cases "od_type d")
  case OPT_INT
  with assms show ?thesis
    by (auto simp: check_option_def check_int_def value_ok_def num_law_def Let_def
        split: option.splits sum.splits bool.splits if_splits dest!: int_allowed_True)
next
  case OPT_ANY
  with assms show ?thesis
    by (auto simp: check_option_def check_any_def value_ok_def Let_def
        split: option.splits if_splits dest!: str_allowed_True)
next
  case OPT_SYM
  with assms show ?thesis
    by (auto simp: check_option_def check_sym_def value_ok_def num_law_def Let_def split: option.splits if_splits)
next
  case OPT_BOOL
  with assms show ?thesis
    by (auto simp: check_option_def check_bool_def value_ok_def ObjFromBoolean_def Let_def split: option.splits if_splits)
next
  case OPT_SWITCH
  with assms show ?thesis
    by (auto simp: check_option_def check_bool_def value_ok_def ObjFromBoolean_def Let_def split: option.splits if_splits)
qed

lemma collect_values:
  "collect T nd hy dvs = Some (Inr ret) \<Longrightarrow> num_law T \<Longrightarrow> (n, x) \<in> set ret \<Longrightarrow>
   \<exists>(d, v) \<in> set dvs. n = result_name hy d \<and> value_ok T d x"
proof (induction T nd hy dvs arbitrary: ret rule: collect.induct)
  case (2 T nd hy d v dvs)
  obtain r ret' where r: "check_option T nd d v = Some (Inr r)" "collect T nd hy dvs = Some (Inr ret')"
    and ret: "ret = (case r of None \<Rightarrow> ret' | Some x \<Rightarrow> (result_name hy d, x) # ret')"
    using "2.prems"(1) by (auto split: option.splits sum.splits)
  show ?case
  proof (cases "(n, x) \<in> set ret'")
    case True
    then show ?thesis using "2.IH" [OF r(1) refl r(2) "2.prems"(2)] by auto
  next
    case False
    then have "r = Some x" "n = result_name hy d" using "2.prems"(3) ret by (auto split: option.splits)
    then show ?thesis using check_option_value r(1) "2.prems"(2) by fastforce
  qed
qed simp

lemma demo_num: "t_wide demo_tcl ''5'' = Some 5" "t_setvar_ok demo_tcl x"
  "t_utfncmp demo_tcl s t n = (if take n s = take n t then 0 else 1)"
  by (simp_all add: demo_tcl_def digit_def)

definition demo_opts :: "OptionDescriptor list" where
  "demo_opts = [\<lparr>od_name = ''n.int'', od_def = Some ''3'', od_valid = None, od_name_len = 1, od_type = OPT_INT, od_first = CHR ''n''\<rparr>,
     \<lparr>od_name = ''v'', od_def = None, od_valid = None, od_name_len = 1, od_type = OPT_SWITCH, od_first = CHR ''v''\<rparr>]"

lemma demo_descriptors:
  "SetParseargsOptFromAny demo_tcl (enc [enc [''n.int'', ''3''], enc [''v'']]) = Inr demo_opts"
  by (simp add: SetParseargsOptFromAny_def demo_list demo_opts_def parse_descriptor_def opt_type_of_def
      first_char_def Let_def del: enc.simps)

lemma demo_parse:
  "Twapi_ParseargsObjCmd demo_tcl [''a'', enc [enc [''n.int'', ''3''], enc [''v'']]] [''a'' \<mapsto> enc [''-n'', ''5'', ''x'']] =
     Some ([''a'' \<mapsto> enc [''x'']], Inr [(''n'', ''5''), (''v'', ''0'')])"
  by (simp add: Twapi_ParseargsObjCmd_def demo_descriptors demo_list pa_flags0_def del: enc.simps)
     (simp add: demo_opts_def first_char_def opt_matches_def demo_num check_option_def check_int_def demo_list
       check_bool_def ObjFromBoolean_def result_name_def shown_name_def Let_def del: enc.simps)

text \<open>
  C13. Every value the command returns belongs to an option of the list and is what the option
  declares: an integer, and one of the allowed ones if there is a list of them, an allowed
  string, a number for a symbol, and 0, 1 or the declared true value for a boolean or a
  switch.
\<close>

theorem parseargs_values_typed:
  assumes "Twapi_ParseargsObjCmd T (var # optlist # flags) vars = Some (vars', Inr ret)" "num_law T"
    and "(n, x) \<in> set ret"
  shows "\<exists>opts d hy. SetParseargsOptFromAny T optlist = Inr opts \<and> d \<in> set opts \<and>
     n = result_name hy d \<and> value_ok T d x"
proof -
  from assms(1) obtain opts nd hy vals ret' where o: "SetParseargsOptFromAny T optlist = Inr opts"
    "collect T nd hy (zip opts vals) = Some (Inr ret')" "ret = [] \<or> ret = ret'"
    by (auto simp: Twapi_ParseargsObjCmd_def Let_def
        split: sum.splits option.splits prod.splits if_splits)
  from o(3) assms(3) have "(n, x) \<in> set ret'" by auto
  from collect_values [OF o(2) assms(2) this] o(1) show ?thesis by (auto dest: set_zip_leftD)
qed

theorem parseargs_values_typed_witness:
  "\<exists>d hy. d \<in> set demo_opts \<and> ''n'' = result_name hy d \<and> value_ok demo_tcl d ''5''"
  using parseargs_values_typed [OF demo_parse demo_tcl_laws(3), of "''n''" "''5''"] demo_descriptors by auto

section \<open>The scan of the arguments\<close>

lemma scan_subseq:
  "scan_args T opts ign args vals new = Inr (vals', new', left) \<Longrightarrow>
   \<exists>mid. new' = new @ mid \<and> subseq (mid @ left) args"
proof (induction T opts ign args vals new rule: scan_args.induct)
  case (2 T opts ign arg rest vals new)
  consider "first_char arg \<noteq> CHR ''-'' \<or> arg = ''-'' \<or> arg = ''--''"
    | j where "\<not> (first_char arg \<noteq> CHR ''-'')" "\<not> (arg = ''-'' \<or> arg = ''--'')" "find_opt T opts arg = Some j"
    | "\<not> (first_char arg \<noteq> CHR ''-'')" "\<not> (arg = ''-'' \<or> arg = ''--'')" "find_opt T opts arg = None"
    by (cases "find_opt T opts arg") auto
  then show ?case
  proof cases
    case 1
    with "2.prems" show ?thesis by (auto split: if_splits intro: exI [of _ "[]"])
  next
    case (2 j)
    show ?thesis
    proof (cases "od_type (opts ! j) = OPT_SWITCH")
      case True
      with "2.IH"(4) [OF 2 True] "2.prems" 2 show ?thesis by (auto intro: list_emb_Cons)
    next
      case False
      then obtain v rest' where "rest = v # rest'" using "2.prems" 2 by (cases rest) auto
      with "2.IH"(5) [OF 2 False this] "2.prems" 2 False show ?thesis by (auto intro: list_emb_Cons)
    qed
  next
    case 3
    have ign: "\<not> \<not> ign" using "2.prems" 3 by (auto split: if_splits)
    show ?thesis
    proof (cases rest)
      case Nil
      with "2.IH"(1) [OF 3 ign Nil] "2.prems" 3 ign show ?thesis by auto
    next
      case (Cons v rest')
      show ?thesis
      proof (cases "first_char v = CHR ''-''")
        case False
        with "2.IH"(2) [OF 3 ign Cons] "2.prems" 3 ign Cons show ?thesis by auto
      next
        case True
        with "2.IH"(3) [OF 3 ign Cons] "2.prems" 3 ign Cons show ?thesis by auto
      qed
    qed
  qed
qed auto

text \<open>
  What the command leaves in its variable are arguments it was given, none twice and in
  their order: it only ever takes arguments away.
\<close>

theorem parseargs_leftover_in_order:
  assumes "Twapi_ParseargsObjCmd T (var # optlist # flags) vars = Some (vars', Inr ret)" "list_law T"
  shows "\<exists>argv new. (\<exists>a. vars var = Some a \<and> t_list T a = Some argv) \<and>
     vars' var = Some (t_mklist T new) \<and> t_list T (t_mklist T new) = Some new \<and> subseq new argv"
proof -
  from assms(1) obtain opts ign a argv vals0 vals mid left where o:
    "vars var = Some a" "t_list T a = Some argv" "scan_args T opts ign argv vals0 [] = Inr (vals, mid, left)"
    "vars' var = Some (t_mklist T (mid @ left))"
    by (auto simp: Twapi_ParseargsObjCmd_def Let_def
        split: sum.splits option.splits prod.splits if_splits)
  with scan_subseq [OF o(3)] assms(2) show ?thesis
    by (auto simp: list_law_def intro!: exI [of _ argv] exI [of _ "mid @ left"])
qed

theorem parseargs_leftover_in_order_witness: "subseq [''x''] [''-n'', ''5'', ''x'']"
  using parseargs_leftover_in_order [OF demo_parse demo_tcl_laws(1)] by (auto simp: demo_list simp del: enc.simps)

subsection \<open>Reading back what was written\<close>

text \<open>Option lists for which the names can be told apart, in ASCII.\<close>

definition opts_plain :: "OptionDescriptor list \<Rightarrow> bool" where
  "opts_plain opts \<longleftrightarrow> distinct (map shown_name opts) \<and>
     (\<forall>d \<in> set opts. od_wf d \<and> ascii (od_name d) \<and> shown_name d \<noteq> [] \<and> shown_name d \<noteq> ''-'')"

fun written :: "OptionDescriptor list \<Rightarrow> (nat \<times> string) list \<Rightarrow> string list" where
  "written opts [] = []"
| "written opts ((j, v) # jvs) = (CHR ''-'' # shown_name (opts ! j)) #
     (if od_type (opts ! j) = OPT_SWITCH then [] else [v]) @ written opts jvs"

fun assigned :: "OptionDescriptor list \<Rightarrow> (nat \<times> string) list \<Rightarrow> string option list \<Rightarrow> string option list" where
  "assigned opts [] vals = vals"
| "assigned opts ((j, v) # jvs) vals =
     assigned opts jvs (vals[j := Some (if od_type (opts ! j) = OPT_SWITCH then ''1'' else v)])"

lemma opt_matches_name:
  assumes "od_wf d" "ascii (od_name d)" "ascii nm" "nm \<noteq> []" "ncmp_law T"
  shows "opt_matches T d (CHR ''-'' # nm) \<longleftrightarrow> shown_name d = nm"
proof
  assume "opt_matches T d (CHR ''-'' # nm)"
  with assms show "shown_name d = nm" by (simp add: opt_matches_def shown_name_def ncmp_law_def)
next
  assume nm: "shown_name d = nm"
  then have len: "length nm = od_name_len d" using assms(1) by (auto simp: shown_name_def od_wf_def)
  moreover have "first_char (od_name d) = first_char nm"
    using nm assms(4) by (cases "od_name d"; cases "od_name_len d") (auto simp: shown_name_def first_char_def)
  ultimately show "opt_matches T d (CHR ''-'' # nm)"
    using assms nm by (simp add: opt_matches_def shown_name_def ncmp_law_def od_wf_def)
qed

lemma ascii_take: "ascii s \<Longrightarrow> ascii (take n s)"
  by (auto simp: ascii_def dest: in_set_takeD)

lemma find_opt_name:
  "distinct (map shown_name opts) \<Longrightarrow>
   \<forall>d \<in> set opts. od_wf d \<and> ascii (od_name d) \<and> shown_name d \<noteq> [] \<Longrightarrow> ncmp_law T \<Longrightarrow> j < length opts \<Longrightarrow>
   find_opt T opts (CHR ''-'' # shown_name (opts ! j)) = Some j"
proof (induction opts arbitrary: j)
  case (Cons d opts)
  have "(d # opts) ! j \<in> set (d # opts)" using Cons.prems(4) by (rule nth_mem)
  then have nm: "ascii (shown_name ((d # opts) ! j))" "shown_name ((d # opts) ! j) \<noteq> []"
    using Cons.prems(2) by (auto simp: shown_name_def ascii_take)
  have m: "opt_matches T d (CHR ''-'' # shown_name ((d # opts) ! j)) \<longleftrightarrow>
      shown_name d = shown_name ((d # opts) ! j)"
    using Cons.prems(2,3) by (intro opt_matches_name nm) auto
  show ?case
  proof (cases j)
    case 0
    with m show ?thesis by simp
  next
    case (Suc i)
    then have "shown_name d \<noteq> shown_name (opts ! i)" using Cons.prems(1,4) by (auto simp: image_iff)
    with m Suc Cons.IH [of i] Cons.prems show ?thesis by simp
  qed
qed simp

text \<open>
  C16. For options with different ASCII names (none of them empty or a single dash) the loop over
  the arguments reads back what is written as the syntax wants it, options first and then
  \<open>--\<close>: each option ends with its last value, a switch with 1, and the arguments that follow
  are left. A typed option whose name is not ASCII never matches, which is why it is excluded.
\<close>

theorem parseargs_reads_what_is_written:
  assumes "opts_plain opts" "ncmp_law T" "\<forall>(j, v) \<in> set jvs. j < length opts"
  shows "scan_args T opts ign (written opts jvs @ ''--'' # rest) vals new = Inr (assigned opts jvs vals, new, rest)"
  using assms(3)
proof (induction jvs arbitrary: vals)
  case Nil
  show ?case by (simp add: first_char_def)
next
  case (Cons jv jvs)
  obtain j v where jv: "jv = (j, v)" by (cases jv)
  then have j: "j < length opts" using Cons.prems by simp
  then have "opts ! j \<in> set opts" by simp
  then have n: "shown_name (opts ! j) \<noteq> []" "shown_name (opts ! j) \<noteq> ''-''" using assms(1) by (auto simp: opts_plain_def)
  have f: "find_opt T opts (CHR ''-'' # shown_name (opts ! j)) = Some j"
    using assms j by (intro find_opt_name) (auto simp: opts_plain_def)
  show ?case
    using Cons n f by (simp add: jv first_char_def ObjFromBoolean_def)
qed

theorem parseargs_reads_what_is_written_witness:
  "scan_args demo_tcl demo_opts False [''-n'', ''5'', ''-v'', ''--'', ''x''] [None, None] [] =
     Inr ([Some ''5'', Some ''1''], [], [''x''])"
proof -
  have "opts_plain demo_opts"
    by (simp add: opts_plain_def demo_opts_def shown_name_def od_wf_def ascii_def first_char_def)
  from parseargs_reads_what_is_written [OF this demo_tcl_laws(2), of "[(0, ''5''), (1, [])]" False "[''x'']" "[None, None]" "[]"]
  show ?thesis by (simp add: demo_opts_def shown_name_def)
qed

end
