(* ===== verification/Records.thy ===== *)
theory Records
  imports Tcl
begin

text \<open>
  Keyed lists (\<open>base/keylist.c\<close>), the merging of two lists (\<open>base/twine.c\<close>), enumerations
  (\<open>ObjToEnum\<close> of \<open>base/tclobjs.c\<close>), and records and record arrays (\<open>base/recordarray.c\<close>).

  A record array is a list of two elements, the list of its field names and the list of its
  records. Null pointers that the code would put into a list make the result \<open>None\<close>.
\<close>

datatype ra_error =
    RaWrongNumArgs
  | RaBadList string
  | RaBadOption string
  | RaMissingValue string
  | RaInvalidEnum string
  | RaBadFormat
  | RaBadFilter
  | RaBadOperator string
  | RaBadInt string
  | RaTooFewValues
  | RaOddKeylist
  | RaNoField string
  | RaFieldCount
  | RaInvalidArgs

definition get_elements :: "tcl \<Rightarrow> string \<Rightarrow> ra_error + string list" where
  "get_elements T s = (case t_list T s of None \<Rightarrow> Inl (RaBadList s) | Some xs \<Rightarrow> Inr xs)"

text \<open>\<open>ObjListIndex\<close>: an index beyond the end gives the null pointer.\<close>

definition list_index :: "tcl \<Rightarrow> string \<Rightarrow> nat \<Rightarrow> ra_error + string ptr" where
  "list_index T s i = (case get_elements T s of Inl e \<Rightarrow> Inl e
     | Inr xs \<Rightarrow> Inr (if i < length xs then Some (xs ! i) else None))"

section \<open>Keyed lists\<close>

fun kl_search :: "string list \<Rightarrow> string \<Rightarrow> string option" where
  "kl_search (k # v # kl) key = (if key = k then Some v else kl_search kl key)"
| "kl_search _ key = None"

definition Twapi_KlGetObjCmd :: "tcl \<Rightarrow> string list \<Rightarrow> ra_error + string" where
  "Twapi_KlGetObjCmd T objv =
     (if length objv < 2 \<or> length objv > 3 then Inl RaWrongNumArgs
      else case get_elements T (objv ! 0) of
        Inl e \<Rightarrow> Inl e
      | Inr kl \<Rightarrow>
          if odd (length kl) then Inl RaOddKeylist
          else (case kl_search kl (objv ! 1) of
              Some v \<Rightarrow> Inr v
            | None \<Rightarrow> if length objv = 3 then Inr (objv ! 2) else Inl (RaNoField (objv ! 1))))"

section \<open>Merging lists\<close>

definition TwapiTwineObjv :: "string list \<Rightarrow> string list \<Rightarrow> nat \<Rightarrow> string list" where
  "TwapiTwineObjv first second n = concat (map (\<lambda>i. [first ! i, second ! i]) [0..<n])"

text \<open>The elements of the merged list; the null result of the code on a bad list is \<open>Inl\<close>.\<close>

definition TwapiTwine :: "tcl \<Rightarrow> string \<Rightarrow> string \<Rightarrow> ra_error + string" where
  "TwapiTwine T a b = (case get_elements T a of Inl e \<Rightarrow> Inl e | Inr list1 \<Rightarrow>
     (case get_elements T b of Inl e \<Rightarrow> Inl e | Inr list2 \<Rightarrow>
       let n1 = length list1; n2 = length list2;
           nmin = (if n1 > n2 then n2 else n1);
           r = TwapiTwineObjv list1 list2 nmin
       in Inr (t_mklist T
            (if nmin < n1 then r @ concat (map (\<lambda>i. [list1 ! i, '''']) [nmin..<n1])
             else if nmin < n2 then r @ concat (map (\<lambda>i. ['''', list2 ! i]) [nmin..<n2])
             else r))))"

definition Twapi_TwineObjCmd :: "tcl \<Rightarrow> string list \<Rightarrow> ra_error + string" where
  "Twapi_TwineObjCmd T objv = (case objv of
      [l] \<Rightarrow> (case get_elements T l of Inl e \<Rightarrow> Inl e
        | Inr nested \<Rightarrow> if length nested \<noteq> 2 then Inl RaInvalidArgs
            else TwapiTwine T (nested ! 0) (nested ! 1))
    | [l1, l2] \<Rightarrow> TwapiTwine T l1 l2
    | _ \<Rightarrow> Inl RaWrongNumArgs)"

section \<open>Enumerations\<close>

text \<open>
  The index that the code caches in the name is that of the same enumeration object, which the
  cache keeps shared and so unchanged.
\<close>

fun index_of :: "string \<Rightarrow> string list \<Rightarrow> nat option" where
  "index_of s [] = None"
| "index_of s (x # xs) = (if s = x then Some 0 else map_option Suc (index_of s xs))"

definition ObjToEnum :: "tcl \<Rightarrow> string \<Rightarrow> string \<Rightarrow> ra_error + nat" where
  "ObjToEnum T enums name = (case get_elements T enums of Inl e \<Rightarrow> Inl e
     | Inr xs \<Rightarrow> (case index_of name xs of None \<Rightarrow> Inl (RaInvalidEnum name) | Some i \<Rightarrow> Inr i))"

section \<open>Record arrays\<close>

datatype ra_format = RA_ARRAY | RA_FLAT | RA_LIST | RA_DICT

datatype ra_op = RA_EQ | RA_NE | RA_MATCH | RA_NOMATCH | RA_EQ_INT | RA_NE_INT | RA_LT_INT
  | RA_LE_INT | RA_GT_INT | RA_GE_INT

definition ra_format_of :: "string \<Rightarrow> ra_format option" where
  "ra_format_of s = (if s = ''recordarray'' then Some RA_ARRAY else if s = ''flat'' then Some RA_FLAT
     else if s = ''list'' then Some RA_LIST else if s = ''dict'' then Some RA_DICT else None)"

definition ra_op_of :: "string \<Rightarrow> ra_op option" where
  "ra_op_of s = map_of [(''eq'', RA_EQ), (''ne'', RA_NE), (''~'', RA_MATCH), (''!~'', RA_NOMATCH),
     (''=='', RA_EQ_INT), (''!='', RA_NE_INT), (''<'', RA_LT_INT), (''<='', RA_LE_INT),
     (''>'', RA_GT_INT), (''>='', RA_GE_INT)] s"

record ra_opts =
  ro_format :: ra_format
  ro_slice :: "string option"
  ro_filter :: "string option"
  ro_key :: "string option"
  ro_first :: bool

definition ra_opts0 :: ra_opts where
  "ra_opts0 = \<lparr>ro_format = RA_ARRAY, ro_slice = None, ro_filter = None, ro_key = None, ro_first = False\<rparr>"

text \<open>The options; the record array behind them is no longer in the list.\<close>

fun ra_options :: "string list \<Rightarrow> ra_opts \<Rightarrow> ra_error + ra_opts" where
  "ra_options [] ro = Inr ro"
| "ra_options (s # ss) ro =
    (if s = ''-format'' then (case ss of [] \<Rightarrow> Inl (RaMissingValue s)
       | v # ss' \<Rightarrow> (case ra_format_of v of None \<Rightarrow> Inl (RaBadOption v)
           | Some f \<Rightarrow> ra_options ss' (ro\<lparr>ro_format := f\<rparr>)))
     else if s = ''-slice'' then (case ss of [] \<Rightarrow> Inl (RaMissingValue s)
       | v # ss' \<Rightarrow> ra_options ss' (ro\<lparr>ro_slice := Some v\<rparr>))
     else if s = ''-filter'' then (case ss of [] \<Rightarrow> Inl (RaMissingValue s)
       | v # ss' \<Rightarrow> ra_options ss' (ro\<lparr>ro_filter := Some v\<rparr>))
     else if s = ''-key'' then (case ss of [] \<Rightarrow> Inl (RaMissingValue s)
       | v # ss' \<Rightarrow> ra_options ss' (ro\<lparr>ro_key := Some v\<rparr>))
     else if s = ''-first'' then ra_options ss (ro\<lparr>ro_first := True\<rparr>)
     else Inl (RaBadOption s))"

subsection \<open>Filters\<close>

record ra_filter =
  rf_pos :: nat
  rf_op :: ra_op
  rf_nocase :: bool
  rf_wide :: int
  rf_string :: string
  rf_negate :: bool

definition int_op :: "ra_op \<Rightarrow> bool" where
  "int_op op \<longleftrightarrow> op \<in> {RA_EQ_INT, RA_NE_INT, RA_LT_INT, RA_LE_INT, RA_GT_INT, RA_GE_INT}"

definition parse_filter :: "tcl \<Rightarrow> string \<Rightarrow> string \<Rightarrow> ra_error + ra_filter" where
  "parse_filter T flds s = (case get_elements T s of Inl e \<Rightarrow> Inl e | Inr el \<Rightarrow>
     if length el < 3 \<or> length el > 4 then Inl RaBadFilter
     else if length el = 4 \<and> el ! 3 \<noteq> ''-nocase'' then Inl RaBadFilter
     else (case ObjToEnum T flds (el ! 0) of Inl e \<Rightarrow> Inl e | Inr pos \<Rightarrow>
       (case ra_op_of (el ! 1) of None \<Rightarrow> Inl (RaBadOperator (el ! 1)) | Some op \<Rightarrow>
         let f = \<lparr>rf_pos = pos, rf_op = op, rf_nocase = (length el = 4), rf_wide = 0,
                  rf_string = '''', rf_negate = (op = RA_NE \<or> op = RA_NOMATCH)\<rparr>
         in if int_op op
            then (case t_wide T (el ! 2) of None \<Rightarrow> Inl (RaBadInt (el ! 2))
                | Some w \<Rightarrow> Inr (f\<lparr>rf_wide := w\<rparr>))
            else Inr (f\<lparr>rf_string := el ! 2\<rparr>))))"

fun parse_filters :: "tcl \<Rightarrow> string \<Rightarrow> string list \<Rightarrow> ra_error + ra_filter list" where
  "parse_filters T flds [] = Inr []"
| "parse_filters T flds (s # ss) = (case parse_filter T flds s of Inl e \<Rightarrow> Inl e
     | Inr f \<Rightarrow> (case parse_filters T flds ss of Inl e \<Rightarrow> Inl e | Inr fs \<Rightarrow> Inr (f # fs)))"

text \<open>\<open>cmpfn\<close>: zero on a match, as \<open>strcmp\<close>.\<close>

definition cmpfn :: "tcl \<Rightarrow> ra_filter \<Rightarrow> string \<Rightarrow> string \<Rightarrow> int" where
  "cmpfn T f s t =
     (if rf_op f = RA_EQ \<or> rf_op f = RA_NE
      then (if rf_nocase f then t_lstrcmpi T s t else t_lstrcmp T s t)
      else if t_glob T s t (rf_nocase f) then 0 else 1)"

definition int_match :: "ra_op \<Rightarrow> int \<Rightarrow> int \<Rightarrow> bool" where
  "int_match op w x = (case op of RA_EQ_INT \<Rightarrow> w = x | RA_NE_INT \<Rightarrow> w \<noteq> x | RA_LT_INT \<Rightarrow> w < x
     | RA_LE_INT \<Rightarrow> w \<le> x | RA_GT_INT \<Rightarrow> w > x | RA_GE_INT \<Rightarrow> w \<ge> x | _ \<Rightarrow> True)"

definition match_value :: "tcl \<Rightarrow> ra_filter \<Rightarrow> string \<Rightarrow> bool" where
  "match_value T f v =
     (if int_op (rf_op f)
      then (case t_wide T v of None \<Rightarrow> False | Some w \<Rightarrow> int_match (rf_op f) w (rf_wide f))
      else \<not> ((0 = cmpfn T f v (rf_string f)) = rf_negate f))"

fun match_filters :: "tcl \<Rightarrow> ra_filter list \<Rightarrow> string \<Rightarrow> ra_error + bool" where
  "match_filters T [] r = Inr True"
| "match_filters T (f # fs) r = (case list_index T r (rf_pos f) of
     Inl e \<Rightarrow> Inl e
   | Inr None \<Rightarrow> Inl RaTooFewValues
   | Inr (Some v) \<Rightarrow> if match_value T f v then match_filters T fs r else Inr False)"

subsection \<open>Output\<close>

text \<open>What one matching record adds to the output; \<open>slice\<close>: the names and positions.\<close>

definition ra_key :: "tcl \<Rightarrow> nat option \<Rightarrow> string \<Rightarrow> ra_error + string ptr list" where
  "ra_key T key r = (case key of None \<Rightarrow> Inr []
     | Some p \<Rightarrow> (case list_index T r p of Inl e \<Rightarrow> Inl e
         | Inr None \<Rightarrow> Inl RaTooFewValues | Inr (Some k) \<Rightarrow> Inr [Some k]))"

definition ra_row :: "tcl \<Rightarrow> ra_format \<Rightarrow> string \<Rightarrow> nat \<Rightarrow> (string list \<times> nat list) option \<Rightarrow> string \<Rightarrow>
    ra_error + string ptr" where
  "ra_row T fmt flds nfields slice r = (case slice of
      None \<Rightarrow> Inr (if fmt = RA_DICT
          then (case TwapiTwine T flds r of Inl _ \<Rightarrow> None | Inr x \<Rightarrow> Some x) else Some r)
    | Some (names, idx) \<Rightarrow> (case get_elements T r of Inl e \<Rightarrow> Inl e
        | Inr values \<Rightarrow>
            if length values < nfields then Inl RaTooFewValues
            else let sl = map (\<lambda>j. values ! j) idx
              in Inr (Some (t_mklist T (if fmt = RA_DICT then TwapiTwineObjv names sl (length names) else sl)))))"

fun ra_loop :: "tcl \<Rightarrow> ra_filter list \<Rightarrow> nat option \<Rightarrow> ra_format \<Rightarrow> string \<Rightarrow> nat \<Rightarrow>
    (string list \<times> nat list) option \<Rightarrow> bool \<Rightarrow> string list \<Rightarrow> ra_error + string ptr list" where
  "ra_loop T fs key fmt flds nf slice first [] = Inr []"
| "ra_loop T fs key fmt flds nf slice first (r # rs) = (case match_filters T fs r of
     Inl e \<Rightarrow> Inl e
   | Inr False \<Rightarrow> ra_loop T fs key fmt flds nf slice first rs
   | Inr True \<Rightarrow> (case ra_key T key r of Inl e \<Rightarrow> Inl e | Inr k \<Rightarrow>
       (case ra_row T fmt flds nf slice r of Inl e \<Rightarrow> Inl e | Inr x \<Rightarrow>
         if first then Inr (k @ [x])
         else (case ra_loop T fs key fmt flds nf slice first rs of Inl e \<Rightarrow> Inl e
             | Inr out \<Rightarrow> Inr (k @ x # out)))))"

text \<open>\<open>ObjNewList\<close> of an array with a null pointer is a crash.\<close>

definition new_list :: "tcl \<Rightarrow> string ptr list \<Rightarrow> string option" where
  "new_list T xs = (if None \<in> set xs then None else Some (t_mklist T (map the xs)))"

definition ra_result :: "tcl \<Rightarrow> ra_format \<Rightarrow> string \<Rightarrow> string list option \<Rightarrow> string ptr list \<Rightarrow> string option" where
  "ra_result T fmt flds slice out = (case fmt of
      RA_FLAT \<Rightarrow> if None \<in> set out then None else Some (t_mklist T (concat (map (\<lambda>x.
          case t_list T x of None \<Rightarrow> [] | Some xs \<Rightarrow> xs) (map the out))))
    | RA_DICT \<Rightarrow> new_list T out
    | RA_LIST \<Rightarrow> new_list T out
    | RA_ARRAY \<Rightarrow> (case new_list T out of None \<Rightarrow> None
        | Some l \<Rightarrow> Some (t_mklist T [case slice of None \<Rightarrow> flds | Some names \<Rightarrow> t_mklist T names, l])))"

definition enum_all :: "tcl \<Rightarrow> string \<Rightarrow> string list \<Rightarrow> ra_error + nat list" where
  "enum_all T flds names = foldr (\<lambda>n acc. case ObjToEnum T flds n of Inl e \<Rightarrow> Inl e
     | Inr i \<Rightarrow> (case acc of Inl e \<Rightarrow> Inl e | Inr is \<Rightarrow> Inr (i # is))) names (Inr [])"

text \<open>\<open>objv\<close> are the options followed by the record array.\<close>

definition Twapi_RecordArrayHelperObjCmd :: "tcl \<Rightarrow> string list \<Rightarrow> (ra_error + string) option" where
  "Twapi_RecordArrayHelperObjCmd T objv =
    (if objv = [] then Some (Inl RaWrongNumArgs)
     else case ra_options (butlast objv) ra_opts0 of Inl e \<Rightarrow> Some (Inl e) | Inr ro \<Rightarrow>
    (case get_elements T (last objv) of Inl e \<Rightarrow> Some (Inl e) | Inr ra \<Rightarrow>
     if ra = [] then Some (Inr '''')
     else if length ra \<noteq> 2 then Some (Inl RaBadFormat)
     else if length objv = 1 then Some (Inr (last objv))
     else
    (case (case ro_key ro of
             Some k \<Rightarrow> if ro_format ro = RA_LIST \<or> ro_format ro = RA_DICT
               then map_sum id Some (ObjToEnum T (ra ! 0) k) else Inr None
           | None \<Rightarrow> Inr None) of Inl e \<Rightarrow> Some (Inl e) | Inr key \<Rightarrow>
    (case (case ro_filter ro of None \<Rightarrow> Inr [] | Some s \<Rightarrow> (case get_elements T s of Inl e \<Rightarrow> Inl e
           | Inr fl \<Rightarrow> parse_filters T (ra ! 0) fl)) of Inl e \<Rightarrow> Some (Inl e) | Inr filters \<Rightarrow>
    (case (case ro_slice ro of None \<Rightarrow> Inr None | Some s \<Rightarrow> (case get_elements T s of Inl e \<Rightarrow> Inl e
           | Inr names \<Rightarrow> map_sum id (\<lambda>idx. Some (names, idx)) (enum_all T (ra ! 0) names)))
       of Inl e \<Rightarrow> Some (Inl e) | Inr slice \<Rightarrow>
    (case get_elements T (ra ! 1) of Inl e \<Rightarrow> Some (Inl e) | Inr recs \<Rightarrow>
     if recs = [] then Some (Inr '''')
     else
    (case get_elements T (ra ! 0) of Inl e \<Rightarrow> Some (Inl e) | Inr flds \<Rightarrow>
    (case ra_loop T filters key (ro_format ro) (ra ! 0) (length flds) slice (ro_first ro) recs of
       Inl e \<Rightarrow> Some (Inl e)
     | Inr out \<Rightarrow> map_option Inr (ra_result T (ro_format ro) (ra ! 0) (map_option fst slice) out)))))))))"

section \<open>Records\<close>

definition RecordGetField :: "tcl \<Rightarrow> string \<Rightarrow> string \<Rightarrow> string \<Rightarrow> ra_error + string" where
  "RecordGetField T flds r f = (case ObjToEnum T flds f of Inl e \<Rightarrow> Inl e | Inr i \<Rightarrow>
     (case list_index T r i of Inl e \<Rightarrow> Inl e | Inr None \<Rightarrow> Inl RaTooFewValues | Inr (Some v) \<Rightarrow> Inr v))"

text \<open>The loop of \<open>set\<close>: the length is that of the argument, the replacement goes to its copy.\<close>

fun record_set :: "tcl \<Rightarrow> string \<Rightarrow> string \<Rightarrow> string list \<Rightarrow> string \<Rightarrow> ra_error + string" where
  "record_set T flds arg (f # v # fvs) r = (case ObjToEnum T flds f of Inl e \<Rightarrow> Inl e | Inr i \<Rightarrow>
     (case get_elements T arg of Inl e \<Rightarrow> Inl e | Inr xs \<Rightarrow>
       if length xs \<le> i then Inl RaTooFewValues
       else (case get_elements T r of Inl e \<Rightarrow> Inl e
         | Inr ys \<Rightarrow> record_set T flds arg fvs (t_mklist T (ys[i := v])))))"
| "record_set T flds arg _ r = Inr r"

fun record_select :: "tcl \<Rightarrow> string \<Rightarrow> string \<Rightarrow> string list \<Rightarrow> ra_error + string list" where
  "record_select T flds r [] = Inr []"
| "record_select T flds r (f # fs) = (case RecordGetField T flds r f of Inl e \<Rightarrow> Inl e
     | Inr v \<Rightarrow> (case record_select T flds r fs of Inl e \<Rightarrow> Inl e | Inr vs \<Rightarrow> Inr (v # vs)))"

definition RecordInstanceObjCmd :: "tcl \<Rightarrow> string \<Rightarrow> string list \<Rightarrow> ra_error + string" where
  "RecordInstanceObjCmd T flds objv = (case objv of
      [] \<Rightarrow> Inr flds
    | [r] \<Rightarrow> (case get_elements T flds of Inl e \<Rightarrow> Inl e | Inr fs \<Rightarrow>
        (case get_elements T r of Inl e \<Rightarrow> Inl e | Inr vs \<Rightarrow>
          if length fs \<noteq> length vs then Inl RaFieldCount else TwapiTwine T flds r))
    | [f, r] \<Rightarrow> RecordGetField T flds r f
    | cmd # r # args \<Rightarrow>
        (if cmd = ''get'' then (case args of [f] \<Rightarrow> RecordGetField T flds r f | _ \<Rightarrow> Inl RaWrongNumArgs)
         else if cmd = ''set'' then
           (if length args < 2 \<or> odd (length args) then Inl RaWrongNumArgs
            else record_set T flds r args r)
         else if cmd = ''select'' then
           (case args of [l] \<Rightarrow> (case get_elements T l of Inl e \<Rightarrow> Inl e
               | Inr fs \<Rightarrow> map_sum id (t_mklist T) (record_select T flds r fs))
             | _ \<Rightarrow> Inl RaWrongNumArgs)
         else Inl (RaBadOption cmd)))"

text \<open>
  \<open>Twapi_RecordObjCmd\<close>: the name of the new command and the fields it is for. \<open>ns\<close> is the
  current namespace, \<open>glob\<close> whether it is the global one, \<open>num\<close> the decimal form of the new id.
\<close>

definition Twapi_RecordObjCmd :: "tcl \<Rightarrow> string \<Rightarrow> bool \<Rightarrow> string \<Rightarrow> string list \<Rightarrow> ra_error + (string \<times> string)" where
  "Twapi_RecordObjCmd T ns glob num objv =
     (let sep = (if glob then '''' else ''::'') in
      case objv of
        [flds] \<Rightarrow> (case get_elements T flds of Inl e \<Rightarrow> Inl e
          | Inr xs \<Rightarrow> if xs = [] then Inl RaFieldCount else Inr (ns @ sep @ ''record'' @ num, flds))
      | [name, flds] \<Rightarrow> (case get_elements T flds of Inl e \<Rightarrow> Inl e
          | Inr xs \<Rightarrow> if xs = [] then Inl RaFieldCount
              else Inr (if take 2 name = ''::'' then name else ns @ sep @ name, flds))
      | _ \<Rightarrow> Inl RaWrongNumArgs)"

end
