(* ===== verification/Records_Props.thy ===== *)
theory Records_Props
  imports Records
begin

text \<open>
  The properties of keyed lists, merged lists and records: merging and looking up, the record
  array command as a query, reading back what was set in a record, and the record that is no
  list.
\<close>

lemma get_elements_iff [simp]: "get_elements T s = Inr xs \<longleftrightarrow> t_list T s = Some xs"
  by (simp add: get_elements_def split: option.split)

lemma get_elements_law: "list_law T \<Longrightarrow> t_list T (t_mklist T xs) = Some xs"
  by (simp add: list_law_def)

section \<open>Merging and looking up\<close>

text \<open>Two lists, the shorter filled up with empty strings, interleaved.\<close>

definition at :: "string list \<Rightarrow> nat \<Rightarrow> string" where
  "at xs i = (if i < length xs then xs ! i else '''')"

definition interleave :: "string list \<Rightarrow> string list \<Rightarrow> string list" where
  "interleave xs ys = concat (map (\<lambda>i. [at xs i, at ys i]) [0..<max (length xs) (length ys)])"

lemma concat_map_split:
  "m \<le> n \<Longrightarrow> concat (map f [0..<n]) = concat (map f [0..<m]) @ concat (map f [m..<n])"
  by (metis concat_append map_append upt_add_eq_append le_add_diff_inverse zero_le)

lemma twine_interleaves_core:
  assumes "t_list T a = Some xs" "t_list T b = Some ys" "list_law T"
  shows "\<exists>s. TwapiTwine T a b = Inr s \<and> t_list T s = Some (interleave xs ys)"
proof -
  let ?m = "min (length xs) (length ys)"
  have common: "TwapiTwineObjv xs ys ?m = concat (map (\<lambda>i. [at xs i, at ys i]) [0..<?m])"
    unfolding TwapiTwineObjv_def by (intro arg_cong [of _ _ concat] map_cong) (auto simp: at_def)
  have split: "interleave xs ys = TwapiTwineObjv xs ys ?m @
      concat (map (\<lambda>i. [at xs i, at ys i]) [?m..<max (length xs) (length ys)])"
    unfolding interleave_def common by (rule concat_map_split) simp
  have l: "concat (map (\<lambda>i. [at xs i, at ys i]) [length ys..<length xs]) = concat (map (\<lambda>i. [xs ! i, '''']) [length ys..<length xs])"
    by (intro arg_cong [of _ _ concat] map_cong) (auto simp: at_def)
  have r: "concat (map (\<lambda>i. [at xs i, at ys i]) [length xs..<length ys]) = concat (map (\<lambda>i. ['''', ys ! i]) [length xs..<length ys])"
    by (intro arg_cong [of _ _ concat] map_cong) (auto simp: at_def)
  consider "length ys < length xs" | "length xs < length ys" | "length xs = length ys" by linarith
  then show ?thesis
    by cases (use assms split l r get_elements_law [OF assms(3)] in
      \<open>auto simp: TwapiTwine_def get_elements_def Let_def min_def max_def\<close>)
qed

text \<open>
  Merging two lists alternates their elements and fills the shorter one up with empty
  strings, so that no element of either is lost.
\<close>

theorem twine_interleaves:
  assumes "t_list T a = Some xs" "t_list T b = Some ys" "list_law T"
  shows "\<exists>s. TwapiTwine T a b = Inr s \<and> t_list T s = Some (interleave xs ys) \<and>
     length (interleave xs ys) = 2 * max (length xs) (length ys)"
  using twine_interleaves_core [OF assms] by (auto simp: interleave_def length_concat comp_def sum_list_triv)

theorem twine_interleaves_witness:
  "\<exists>s. TwapiTwine demo_tcl (enc [''a'', ''b'']) (enc [''1'']) = Inr s \<and>
     t_list demo_tcl s = Some [''a'', ''1'', ''b'', '''']"
  using twine_interleaves [of demo_tcl "enc [''a'', ''b'']" "[''a'', ''b'']" "enc [''1'']" "[''1'']"]
    demo_tcl_laws(1) demo_list
  by (simp add: interleave_def at_def upt_rec del: enc.simps)

lemma kl_search_interleave:
  assumes "length ks = length vs" "distinct ks" "i < length ks"
  shows "kl_search (concat (map2 (\<lambda>k v. [k, v]) ks vs)) (ks ! i) = Some (vs ! i)"
  using assms by (induction ks vs arbitrary: i rule: list_induct2) (auto simp: nth_Cons split: nat.splits)

lemma interleave_map2:
  "length xs = length ys \<Longrightarrow> interleave xs ys = concat (map2 (\<lambda>x y. [x, y]) xs ys)"
  unfolding interleave_def
  by (intro arg_cong [of _ _ concat] nth_equalityI) (auto simp: at_def)

text \<open>
  A keyed list made by merging distinct keys with as many values gives back the value of
  each key.
\<close>

theorem keylist_of_twine:
  assumes "t_list T a = Some ks" "t_list T b = Some vs" "list_law T"
    and "length ks = length vs" "distinct ks" "i < length ks"
  shows "\<exists>kl. TwapiTwine T a b = Inr kl \<and> Twapi_KlGetObjCmd T [kl, ks ! i] = Inr (vs ! i)"
proof -
  obtain kl where kl: "TwapiTwine T a b = Inr kl" "t_list T kl = Some (interleave ks vs)"
    using twine_interleaves_core assms by blast
  have "even (length (interleave ks vs))" unfolding interleave_def by (simp add: length_concat comp_def sum_list_triv)
  with kl show ?thesis
    using kl_search_interleave [OF assms(4-6)] interleave_map2 [OF assms(4)]
    by (simp add: Twapi_KlGetObjCmd_def get_elements_def)
qed

theorem keylist_of_twine_witness:
  "\<exists>kl. TwapiTwine demo_tcl (enc [''a'', ''b'']) (enc [''1'', ''2'']) = Inr kl \<and>
     Twapi_KlGetObjCmd demo_tcl [kl, ''b''] = Inr ''2''"
  using keylist_of_twine [of demo_tcl "enc [''a'', ''b'']" "[''a'', ''b'']" "enc [''1'', ''2'']" "[''1'', ''2'']" 1]
    demo_tcl_laws(1) demo_list
  by (simp del: enc.simps)

section \<open>Record arrays as queries\<close>

text \<open>
  The query language of the documentation, read from the strings of the caller: the options
  in any order, a filter as a list of a field name, an operator, a value and perhaps
  \<open>-nocase\<close>. Nothing of the command's own parser is used here.
\<close>

datatype query_opt = QFormatList | QSlice string | QFilters string | QFirst

fun query_words :: "query_opt \<Rightarrow> string list" where
  "query_words QFormatList = [''-format'', ''list'']"
| "query_words (QSlice s) = [''-slice'', s]"
| "query_words (QFilters s) = [''-filter'', s]"
| "query_words QFirst = [''-first'']"

definition vals :: "tcl \<Rightarrow> string \<Rightarrow> string list" where
  "vals T r = (case t_list T r of None \<Rightarrow> [] | Some xs \<Rightarrow> xs)"

definition field_value :: "tcl \<Rightarrow> string list \<Rightarrow> string \<Rightarrow> string \<Rightarrow> string" where
  "field_value T flds r name = the (map_of (zip flds (vals T r)) name)"

text \<open>What each documented operator says of a value \<open>v\<close> and the value \<open>x\<close> of the filter.\<close>

definition query_ops :: "tcl \<Rightarrow> bool \<Rightarrow> string \<Rightarrow> string \<Rightarrow> (string \<times> bool) list" where
  "query_ops T nocase v x =
     (let same = (0 = (if nocase then t_lstrcmpi else t_lstrcmp) T v x);
          matches = t_glob T v x nocase;
          ints = (\<lambda>rel. case (t_wide T v, t_wide T x) of (Some i, Some j) \<Rightarrow> rel i j | _ \<Rightarrow> False)
      in [(''eq'', same), (''ne'', \<not> same), (''~'', matches), (''!~'', \<not> matches),
          (''=='', ints (\<lambda>i j. i = j)), (''!='', ints (\<lambda>i j. i \<noteq> j)), (''<'', ints (\<lambda>i j. i < j)),
          (''<='', ints (\<lambda>i j. i < j \<or> i = j)), (''>'', ints (\<lambda>i j. j < i)),
          (''>='', ints (\<lambda>i j. j < i \<or> i = j))])"

fun query_filter :: "tcl \<Rightarrow> string list \<Rightarrow> string \<Rightarrow> string list \<Rightarrow> bool" where
  "query_filter T flds r (name # oper # x # nocase) \<longleftrightarrow>
     map_of (query_ops T (nocase \<noteq> []) (field_value T flds r name) x) oper = Some True"
| "query_filter T flds r _ \<longleftrightarrow> False"

text \<open>A filter the documentation allows: a known field and operator, a number to compare with.\<close>

fun filter_wellformed :: "tcl \<Rightarrow> string list \<Rightarrow> string list \<Rightarrow> bool" where
  "filter_wellformed T flds (name # oper # x # nocase) \<longleftrightarrow> name \<in> set flds \<and>
     (oper \<in> {''eq'', ''ne'', ''~'', ''!~''} \<or>
      oper \<in> {''=='', ''!='', ''<'', ''<='', ''>'', ''>=''} \<and> t_wide T x \<noteq> None) \<and>
     (nocase = [] \<or> nocase = [''-nocase''])"
| "filter_wellformed T flds _ \<longleftrightarrow> False"

definition passes :: "tcl \<Rightarrow> string list \<Rightarrow> string list \<Rightarrow> string \<Rightarrow> bool" where
  "passes T flds filters r \<longleftrightarrow> (\<forall>f \<in> set filters. query_filter T flds r (vals T f))"

definition limit :: "bool \<Rightarrow> 'a list \<Rightarrow> 'a list" where
  "limit first xs = (if first then take 1 xs else xs)"

subsection \<open>The options\<close>

fun query_set :: "query_opt \<Rightarrow> ra_opts \<Rightarrow> ra_opts" where
  "query_set QFormatList ro = ro\<lparr>ro_format := RA_LIST\<rparr>"
| "query_set (QSlice s) ro = ro\<lparr>ro_slice := Some s\<rparr>"
| "query_set (QFilters s) ro = ro\<lparr>ro_filter := Some s\<rparr>"
| "query_set QFirst ro = ro\<lparr>ro_first := True\<rparr>"

lemma ra_options_query: "ra_options (concat (map query_words qs)) ro = Inr (fold query_set qs ro)"
proof (induction qs arbitrary: ro)
  case (Cons q qs)
  then show ?case by (cases q) (simp_all add: ra_format_of_def)
qed simp

lemma query_set_fields:
  "ro_key (fold query_set qs ro) = ro_key ro"
  "ro_first (fold query_set qs ro) \<longleftrightarrow> QFirst \<in> set qs \<or> ro_first ro"
  "QFormatList \<in> set qs \<or> ro_format ro = RA_LIST \<Longrightarrow> ro_format (fold query_set qs ro) = RA_LIST"
  "\<forall>s. QSlice s \<in> set qs \<longrightarrow> s = sl \<Longrightarrow> QSlice sl \<in> set qs \<or> ro_slice ro = Some sl \<Longrightarrow>
     ro_slice (fold query_set qs ro) = Some sl"
  "\<forall>s. QFilters s \<in> set qs \<longrightarrow> s = fl \<Longrightarrow> QFilters fl \<in> set qs \<or> ro_filter ro = Some fl \<Longrightarrow>
     ro_filter (fold query_set qs ro) = Some fl"
  "\<forall>s. QFilters s \<notin> set qs \<Longrightarrow> ro_filter (fold query_set qs ro) = ro_filter ro"
proof (induction qs arbitrary: ro)
  case (Cons q qs)
  { case 1 show ?case using Cons(1) by (cases q) simp_all }
  { case 2 show ?case using Cons(2) by (cases q) auto }
  { case 3 then show ?case using Cons(3) by (cases q) auto }
  { case 4
    then have "\<forall>s. QSlice s \<in> set qs \<longrightarrow> s = sl" "\<And>s. q = QSlice s \<Longrightarrow> s = sl" by auto
    with 4(2) show ?case using Cons(4) by (cases q) auto }
  { case 5
    then have "\<forall>s. QFilters s \<in> set qs \<longrightarrow> s = fl" "\<And>s. q = QFilters s \<Longrightarrow> s = fl" by auto
    with 5(2) show ?case using Cons(5) by (cases q) auto }
  { case 6 then show ?case using Cons(6) by (cases q) auto }
qed auto

subsection \<open>The filters\<close>

lemma index_of_bound: "index_of s xs = Some i \<Longrightarrow> i < length xs \<and> xs ! i = s"
  by (induction s xs arbitrary: i rule: index_of.induct) (auto split: if_splits)

lemma ObjToEnum_bound: "ObjToEnum T e s = Inr i \<Longrightarrow> t_list T e = Some xs \<Longrightarrow> i < length xs \<and> xs ! i = s"
  by (auto simp: ObjToEnum_def get_elements_def index_of_bound split: option.splits)

lemma index_of_zip:
  "s \<in> set xs \<Longrightarrow> length xs \<le> length ys \<Longrightarrow>
   \<exists>i. index_of s xs = Some i \<and> i < length xs \<and> map_of (zip xs ys) s = Some (ys ! i)"
proof (induction xs arbitrary: ys)
  case (Cons x xs)
  then obtain z zs where ys: "ys = z # zs" by (cases ys) auto
  show ?case
  proof (cases "s = x")
    case False
    with Cons.IH [of zs] Cons.prems ys show ?thesis by fastforce
  qed (use ys in simp)
qed simp

definition rec_ok :: "tcl \<Rightarrow> nat \<Rightarrow> string \<Rightarrow> bool" where
  "rec_ok T n r \<longleftrightarrow> (case t_list T r of None \<Rightarrow> False | Some xs \<Rightarrow> n \<le> length xs)"

text \<open>The parsed filter decides as the query language does, for every record.\<close>

definition filter_agrees :: "tcl \<Rightarrow> string list \<Rightarrow> string \<Rightarrow> ra_filter \<Rightarrow> bool" where
  "filter_agrees T flds s f \<longleftrightarrow> rf_pos f < length flds \<and>
     (\<forall>r. rec_ok T (length flds) r \<longrightarrow>
        match_value T f (vals T r ! rf_pos f) = query_filter T flds r (vals T s))"

lemma filter_words:
  assumes "t_list T F = Some flds" "t_list T s = Some el" "el = name # oper # x # nocase"
    and i: "index_of name flds = Some i" and nc: "nocase = [] \<or> nocase = [''-nocase'']"
    and oper: "oper \<in> {''eq'', ''ne'', ''~'', ''!~''} \<or>
      oper \<in> {''=='', ''!='', ''<'', ''<='', ''>'', ''>=''} \<and> t_wide T x \<noteq> None"
  shows "\<exists>f. parse_filter T F s = Inr f \<and> rf_pos f = i \<and>
      (\<forall>y. match_value T f y \<longleftrightarrow> map_of (query_ops T (nocase \<noteq> []) y x) oper = Some True)"
proof -
  have pf: "parse_filter T F s = (case ra_op_of oper of None \<Rightarrow> Inl (RaBadOperator oper) | Some op \<Rightarrow>
      let f = \<lparr>rf_pos = i, rf_op = op, rf_nocase = (nocase \<noteq> []), rf_wide = 0,
               rf_string = [], rf_negate = (op = RA_NE \<or> op = RA_NOMATCH)\<rparr>
      in if int_op op
         then (case t_wide T x of None \<Rightarrow> Inl (RaBadInt x) | Some w \<Rightarrow> Inr (f\<lparr>rf_wide := w\<rparr>))
         else Inr (f\<lparr>rf_string := x\<rparr>))"
    using nc by (auto simp: parse_filter_def assms(1-3) ObjToEnum_def get_elements_def i Let_def
        cong: option.case_cong if_cong)
  note run = pf ra_op_of_def int_op_def Let_def query_ops_def match_value_def cmpfn_def int_match_def
  from oper show ?thesis
  proof
    assume "oper \<in> {''eq'', ''ne'', ''~'', ''!~''}"
    then show ?thesis by (elim insertE emptyE; simp add: run)
  next
    assume "oper \<in> {''=='', ''!='', ''<'', ''<='', ''>'', ''>=''} \<and> t_wide T x \<noteq> None"
    then obtain w where w: "t_wide T x = Some w"
      and "oper \<in> {''=='', ''!='', ''<'', ''<='', ''>'', ''>=''}" by blast
    from this(2) show ?thesis
      by (elim insertE emptyE; simp add: run w le_less split: option.split; (simp add: eq_commute)?)
  qed
qed

lemma parse_filter_agrees:
  assumes "t_list T F = Some flds" "t_list T s = Some el" "filter_wellformed T flds el"
  shows "\<exists>f. parse_filter T F s = Inr f \<and> filter_agrees T flds s f"
proof -
  obtain name oper x nocase where el: "el = name # oper # x # nocase" "name \<in> set flds"
    "oper \<in> {''eq'', ''ne'', ''~'', ''!~''} \<or>
      oper \<in> {''=='', ''!='', ''<'', ''<='', ''>'', ''>=''} \<and> t_wide T x \<noteq> None"
    "nocase = [] \<or> nocase = [''-nocase'']"
    using assms(3) by (cases "(T, flds, el)" rule: filter_wellformed.cases) auto
  obtain i where i: "index_of name flds = Some i" using index_of_zip [OF el(2), of flds] by auto
  have v: "field_value T flds r name = vals T r ! i" if "rec_ok T (length flds) r" for r
    using index_of_zip [OF el(2), of "vals T r"] that i
    by (auto simp: field_value_def rec_ok_def vals_def split: option.splits)
  have q: "query_filter T flds r (vals T s) \<longleftrightarrow>
      map_of (query_ops T (nocase \<noteq> []) (vals T r ! i) x) oper = Some True" if "rec_ok T (length flds) r" for r
    using v [OF that] by (simp add: vals_def assms(2) el(1))
  have "\<exists>f. parse_filter T F s = Inr f \<and> rf_pos f = i \<and>
      (\<forall>y. match_value T f y \<longleftrightarrow> map_of (query_ops T (nocase \<noteq> []) y x) oper = Some True)"
    using filter_words [OF assms(1,2) el(1) i el(4,3)] .
  with index_of_bound [OF i] q show ?thesis by (auto simp: filter_agrees_def)
qed

lemma parse_filters_agree:
  assumes "t_list T F = Some flds" "\<forall>s \<in> set ss. \<exists>el. t_list T s = Some el \<and> filter_wellformed T flds el"
  shows "\<exists>fs. parse_filters T F ss = Inr fs \<and> list_all2 (filter_agrees T flds) ss fs"
  using assms(2)
proof (induction ss)
  case (Cons s ss)
  then obtain f fs where "parse_filter T F s = Inr f" "filter_agrees T flds s f"
    "parse_filters T F ss = Inr fs" "list_all2 (filter_agrees T flds) ss fs"
    using parse_filter_agrees [OF assms(1)] by fastforce
  then show ?case by simp
qed simp

lemma match_filters_passes:
  "list_all2 (filter_agrees T flds) ss fs \<Longrightarrow> rec_ok T (length flds) r \<Longrightarrow>
   match_filters T fs r = Inr (passes T flds ss r)"
  by (induction ss fs rule: list_all2_induct)
     (auto simp: passes_def filter_agrees_def rec_ok_def vals_def list_index_def get_elements_def split: option.splits)

subsection \<open>The rows\<close>

lemma enum_all_query:
  assumes "t_list T F = Some flds" "\<forall>n \<in> set names. n \<in> set flds"
  shows "\<exists>idx. enum_all T F names = Inr idx \<and>
    (\<forall>r. rec_ok T (length flds) r \<longrightarrow> map (\<lambda>j. vals T r ! j) idx = map (field_value T flds r) names)"
  using assms(2)
proof (induction names)
  case (Cons n names)
  then obtain idx where idx: "enum_all T F names = Inr idx"
    "\<forall>r. rec_ok T (length flds) r \<longrightarrow> map (\<lambda>j. vals T r ! j) idx = map (field_value T flds r) names" by auto
  obtain i where i: "index_of n flds = Some i" using index_of_zip [of n flds flds] Cons.prems by auto
  have "vals T r ! i = field_value T flds r n" if "rec_ok T (length flds) r" for r
    using index_of_zip [of n flds "vals T r"] Cons.prems that i
    by (auto simp: field_value_def rec_ok_def vals_def split: option.splits)
  with idx i show ?case
    by (intro exI [of _ "i # idx"]) (simp add: enum_all_def ObjToEnum_def get_elements_def assms(1))
qed (simp add: enum_all_def)

lemma ra_loop_query:
  assumes "\<forall>r \<in> set rs. rec_ok T (length flds) r" "list_all2 (filter_agrees T flds) ss fs"
    and "\<forall>r. rec_ok T (length flds) r \<longrightarrow> map (\<lambda>j. vals T r ! j) idx = map (field_value T flds r) names"
  shows "ra_loop T fs None RA_LIST F (length flds) (Some (names, idx)) first rs =
    Inr (map (\<lambda>r. Some (t_mklist T (map (field_value T flds r) names))) (limit first (filter (passes T flds ss) rs)))"
  using assms(1)
proof (induction rs)
  case Nil
  show ?case by (simp add: limit_def)
next
  case (Cons r rs)
  have r: "rec_ok T (length flds) r" using Cons.prems by simp
  obtain xs where xs: "t_list T r = Some xs" "length flds \<le> length xs"
    using r by (auto simp: rec_ok_def split: option.splits)
  have "map (\<lambda>j. xs ! j) idx = map (field_value T flds r) names"
    using spec [OF assms(3), of r] r xs(1) by (simp add: vals_def)
  with xs have row: "ra_row T RA_LIST F (length flds) (Some (names, idx)) r =
      Inr (Some (t_mklist T (map (field_value T flds r) names)))"
    by (simp add: ra_row_def get_elements_def Let_def)
  show ?case
    using Cons match_filters_passes [OF assms(2) r] row
    by (cases first; cases "passes T flds ss r") (simp_all add: ra_key_def limit_def)
qed

text \<open>
  C11. The record array command is the query the documentation describes: called with the
  options for list format, a slice and perhaps filters and \<open>-first\<close>, in any order, it returns
  for each record for which all the filter expressions hold (for the first one only, with
  \<open>-first\<close>), in their order, the list of its values of the named fields. The conditions are
  that the filters are well formed, the names of the slice are fields and every record has a
  value for each field.
\<close>

theorem recordarray_is_query:
  assumes "t_list T ra = Some [F, R]" "t_list T F = Some flds" "t_list T R = Some recs" "recs \<noteq> []"
    and "\<forall>r \<in> set recs. rec_ok T (length flds) r"
    and "QFormatList \<in> set qs" "QSlice sl \<in> set qs" "\<forall>s. QSlice s \<in> set qs \<longrightarrow> s = sl"
    and "t_list T sl = Some names" "\<forall>n \<in> set names. n \<in> set flds"
    and "if \<exists>s. QFilters s \<in> set qs
         then \<exists>fl. QFilters fl \<in> set qs \<and> (\<forall>s. QFilters s \<in> set qs \<longrightarrow> s = fl) \<and> t_list T fl = Some filters
         else filters = []"
    and "\<forall>f \<in> set filters. \<exists>el. t_list T f = Some el \<and> filter_wellformed T flds el"
  shows "Twapi_RecordArrayHelperObjCmd T (concat (map query_words qs) @ [ra]) = Some (Inr (t_mklist T
       (map (\<lambda>r. t_mklist T (map (field_value T flds r) names))
         (limit (QFirst \<in> set qs) (filter (passes T flds filters) recs)))))"
proof -
  let ?ro = "fold query_set qs ra_opts0"
  obtain idx where idx: "enum_all T F names = Inr idx"
    "\<forall>r. rec_ok T (length flds) r \<longrightarrow> map (\<lambda>j. vals T r ! j) idx = map (field_value T flds r) names"
    using enum_all_query [OF assms(2,10)] by blast
  obtain fs where fs: "parse_filters T F filters = Inr fs" "list_all2 (filter_agrees T flds) filters fs"
    using parse_filters_agree [OF assms(2,12)] by blast
  have key: "ro_key ?ro = None" "ro_first ?ro \<longleftrightarrow> QFirst \<in> set qs"
    by (simp_all add: query_set_fields(1,2) ra_opts0_def)
  have "ro_format ?ro = RA_LIST" "ro_slice ?ro = Some sl"
    by (rule query_set_fields(3), rule disjI1 [OF assms(6)])
       (rule query_set_fields(4) [OF assms(8)], rule disjI1 [OF assms(7)])
  moreover have "(case ro_filter ?ro of None \<Rightarrow> Inr [] | Some s \<Rightarrow> (case get_elements T s of Inl e \<Rightarrow> Inl e
           | Inr fl \<Rightarrow> parse_filters T F fl)) = Inr fs"
  proof (cases "\<exists>s. QFilters s \<in> set qs")
    case True
    obtain fl where fl: "QFilters fl \<in> set qs" "\<forall>s. QFilters s \<in> set qs \<longrightarrow> s = fl" "t_list T fl = Some filters"
      using assms(11) [unfolded if_P [OF True]] by blast
    have "ro_filter ?ro = Some fl" by (rule query_set_fields(5) [OF fl(2)], rule disjI1 [OF fl(1)])
    then show ?thesis using fl(3) fs(1) by (simp add: get_elements_def)
  next
    case False
    then have "ro_filter ?ro = None" "filters = []"
      using query_set_fields(6) [of qs ra_opts0] assms(11) [unfolded if_not_P [OF False]]
      by (simp_all add: ra_opts0_def)
    then show ?thesis using fs(1) by simp
  qed
  moreover define opts ro where d: "opts = concat (map query_words qs)" "ro = ?ro"
  have "opts \<noteq> []" using assms(6) unfolding d by (force intro: bexI [of _ QFormatList])
  moreover have "ra_options opts ra_opts0 = Inr ro" unfolding d by (rule ra_options_query)
  ultimately show ?thesis
    using assms(1-4,9) idx(1) key ra_loop_query [OF assms(5) fs(2) idx(2), of F "QFirst \<in> set qs"]
    unfolding d [symmetric]
    by (simp add: Twapi_RecordArrayHelperObjCmd_def ra_result_def new_list_def comp_def
        get_elements_def cong: option.case_cong sum.case_cong) (auto)
qed

theorem recordarray_is_query_witness:
  "Twapi_RecordArrayHelperObjCmd demo_tcl [''-slice'', enc [''n''], ''-filter'',
      enc [enc [''v'', ''>='', ''2''], enc [''v'', ''<'', ''3'']], ''-format'', ''list'',
      enc [enc [''n'', ''v''], enc [enc [''a'', ''1''], enc [''b'', ''2''], enc [''c'', ''3'']]]] =
     Some (Inr (enc [enc [''b'']]))"
proof -
  let ?filters = "[enc [''v'', ''>='', ''2''], enc [''v'', ''<'', ''3'']]"
  let ?qs = "[QSlice (enc [''n'']), QFilters (enc ?filters), QFormatList]"
  let ?F = "enc [''n'', ''v'']" and ?recs = "[enc [''a'', ''1''], enc [''b'', ''2''], enc [''c'', ''3'']]"
  have w: "t_wide demo_tcl ''1'' = Some 1" "t_wide demo_tcl ''2'' = Some 2" "t_wide demo_tcl ''3'' = Some 3"
    by (simp_all add: demo_tcl_def digit_def)
  have h: "t_list demo_tcl (enc [?F, enc ?recs]) = Some [?F, enc ?recs]" "t_list demo_tcl ?F = Some [''n'', ''v'']"
    "t_list demo_tcl (enc ?recs) = Some ?recs" "?recs \<noteq> []"
    "\<forall>r \<in> set ?recs. rec_ok demo_tcl (length [''n'', ''v'']) r"
    "QFormatList \<in> set ?qs" "QSlice (enc [''n'']) \<in> set ?qs" "\<forall>s. QSlice s \<in> set ?qs \<longrightarrow> s = enc [''n'']"
    "t_list demo_tcl (enc [''n'']) = Some [''n'']" "\<forall>n \<in> set [''n'']. n \<in> set [''n'', ''v'']"
    by (simp_all add: demo_list rec_ok_def del: enc.simps)
  have f: "if \<exists>s. QFilters s \<in> set ?qs
         then \<exists>fl. QFilters fl \<in> set ?qs \<and> (\<forall>s. QFilters s \<in> set ?qs \<longrightarrow> s = fl) \<and> t_list demo_tcl fl = Some ?filters
         else ?filters = []"
    "\<forall>f \<in> set ?filters. \<exists>el. t_list demo_tcl f = Some el \<and> filter_wellformed demo_tcl [''n'', ''v''] el"
    by (simp_all add: demo_list w del: enc.simps)
  from recordarray_is_query [OF h f] show ?thesis
    by (simp add: demo_list limit_def passes_def vals_def field_value_def query_ops_def w Let_def del: enc.simps)
qed

text \<open>
  A record that is no list, in an array that is asked for in dictionary format without filter,
  key and slice, ends the process: the null result of the merge is put into the result list
  (the assertion that should catch it looks at the next slot).
\<close>

theorem recordarray_dict_crash:
  assumes "t_list T ra = Some [F, R]" "t_list T F = Some flds" "t_list T R = Some recs"
    and "r \<in> set recs" "t_list T r = None"
  shows "Twapi_RecordArrayHelperObjCmd T [''-format'', ''dict'', ra] = None"
proof -
  have "\<exists>out. ra_loop T [] None RA_DICT F n None False rs = Inr out \<and> (r \<in> set rs \<longrightarrow> None \<in> set out)" for n rs
    using assms(5) by (induction rs) (auto simp: ra_key_def ra_row_def TwapiTwine_def get_elements_def split: option.splits)
  then obtain out where "ra_loop T [] None RA_DICT F (length flds) None False recs = Inr out" "None \<in> set out"
    using assms(4) by blast
  moreover have "recs \<noteq> []" using assms(4) by auto
  ultimately show ?thesis
    using assms(1-3) by (simp add: Twapi_RecordArrayHelperObjCmd_def ra_options.simps ra_format_of_def
        ra_opts0_def get_elements_def ra_result_def new_list_def)
qed

theorem recordarray_dict_crash_witness:
  "Twapi_RecordArrayHelperObjCmd demo_tcl [''-format'', ''dict'', enc [enc [''n''], enc [''x'']]] = None"
proof -
  have "t_list demo_tcl ''x'' = None" by (simp add: demo_tcl_def)
  then show ?thesis
    using recordarray_dict_crash [of demo_tcl "enc [enc [''n''], enc [''x'']]" "enc [''n'']" "enc [''x'']" "[''n'']" "[''x'']" "''x''"]
    by (simp add: demo_list del: enc.simps)
qed

section \<open>Records\<close>

text \<open>
  What is set in a record is read back: after \<open>set\<close> of one field, \<open>get\<close> of that field gives
  the new value and \<open>get\<close> of any other gives what it gave before.
\<close>

theorem record_set_get:
  assumes "t_list T F = Some flds" "t_list T r = Some xs" "length flds \<le> length xs" "f \<in> set flds" "list_law T"
  shows "\<exists>r'. RecordInstanceObjCmd T F [''set'', r, f, v] = Inr r' \<and>
     RecordInstanceObjCmd T F [''get'', r', f] = Inr v \<and>
     (g \<noteq> f \<longrightarrow> RecordInstanceObjCmd T F [''get'', r', g] = RecordInstanceObjCmd T F [''get'', r, g])"
proof -
  have "index_of f flds \<noteq> None" using assms(4) by (induction flds) auto
  then obtain i where i: "index_of f flds = Some i" by auto
  then have e: "ObjToEnum T F f = Inr i" using assms(1) by (simp add: ObjToEnum_def get_elements_def)
  have b: "i < length xs" "flds ! i = f" using index_of_bound [OF i] assms(3) by auto
  have l: "t_list T (t_mklist T (xs[i := v])) = Some (xs[i := v])" by (rule get_elements_law [OF assms(5)])
  have other: "RecordGetField T F (t_mklist T (xs[i := v])) g = RecordGetField T F r g" if "g \<noteq> f"
  proof (cases "ObjToEnum T F g")
    case (Inr j)
    then have "j \<noteq> i" using ObjToEnum_bound [OF Inr assms(1)] b(2) that by auto
    then show ?thesis using Inr l assms(2) by (simp add: RecordGetField_def list_index_def get_elements_def)
  qed (simp add: RecordGetField_def)
  show ?thesis
    using e b l other assms(2)
    by (intro exI [of _ "t_mklist T (xs[i := v])"])
       (simp add: RecordInstanceObjCmd_def RecordGetField_def list_index_def get_elements_def)
qed

theorem record_set_get_witness:
  "\<exists>r'. RecordInstanceObjCmd demo_tcl (enc [''n'', ''v'']) [''set'', enc [''a'', ''1''], ''v'', ''2''] = Inr r' \<and>
     RecordInstanceObjCmd demo_tcl (enc [''n'', ''v'']) [''get'', r', ''v''] = Inr ''2''"
  using record_set_get [of demo_tcl "enc [''n'', ''v'']" "[''n'', ''v'']" "enc [''a'', ''1'']" "[''a'', ''1'']" "''v''" "''2''" "''n''"]
    demo_tcl_laws(1)
  by (auto simp: demo_list simp del: enc.simps)

end
