(* ===== verification/Trap.thy ===== *)
theory Trap
  imports Tcl
begin

text \<open>
  The command \<open>trap\<close> (\<open>base/trap.c\<close>): a script with error handlers and a final script, and the
  stack of the errors being handled that \<open>trapresult\<close> and \<open>trapoptions\<close> read
  (\<open>base/calls.c\<close>).

  What the command uses of Tcl is a parameter; \<open>'s\<close> is the state of the interpreter and \<open>'v\<close> what
  \<open>Tcl_SaveInterpState\<close> returns. A conversion that is given the interpreter leaves its error
  message there, so that conversions return the state too. Scripts see the trap stack and may
  run the command themselves; they are assumed not to delete the interpreter.
\<close>

section \<open>Operations\<close>

record 's trap_state =
  ts_interp :: 's
  ts_stack :: "string list"

record ('s, 'v) trap_lib =
  tl_lstrcmpA :: "string \<Rightarrow> string \<Rightarrow> int"
  tl_eval :: "string \<Rightarrow> 's trap_state \<Rightarrow> 's trap_state \<times> int"
  tl_elements :: "string \<Rightarrow> 's \<Rightarrow> 's \<times> string list option"
  tl_toint :: "string \<Rightarrow> 's \<Rightarrow> 's \<times> int option"
  tl_result :: "'s \<Rightarrow> string"
  tl_options :: "int \<Rightarrow> 's \<Rightarrow> string"
  tl_errorcode :: "'s \<Rightarrow> string option"
  tl_reset :: "'s \<Rightarrow> 's"
  tl_save :: "int \<Rightarrow> 's \<Rightarrow> 'v"
  tl_restore :: "'v \<Rightarrow> 's \<Rightarrow> 's \<times> int"
  tl_set_result :: "string \<Rightarrow> 's \<Rightarrow> 's"

definition TCL_ERROR :: int where "TCL_ERROR = 1"

definition STREQ :: "('s, 'v) trap_lib \<Rightarrow> string \<Rightarrow> string \<Rightarrow> bool" where
  "STREQ L x y \<longleftrightarrow> take 1 x = take 1 y \<and> tl_lstrcmpA L x y = 0"

text \<open>The loop that checks the syntax: the index of the final script's keyword, 0 for none.\<close>

datatype trap_syntax = SyntaxOk nat | BadArgs | BadSyntax

function trap_parse :: "('s, 'v) trap_lib \<Rightarrow> string list \<Rightarrow> nat \<Rightarrow> nat \<Rightarrow> trap_syntax" where
  "trap_parse L objv i final =
     (if \<not> i < length objv then SyntaxOk final
      else let s = objv ! i in
        if STREQ L ''onerror'' s
        then (if i + 2 \<ge> length objv then BadArgs else trap_parse L objv (i + 3) final)
        else if STREQ L ''finally'' s
        then (if i + 1 \<ge> length objv then BadArgs
              else if final \<noteq> 0 then BadSyntax else trap_parse L objv (i + 2) i)
        else BadSyntax)"
  by pat_completeness auto
termination by (relation "measure (\<lambda>(L, objv, i, final). length objv - i)") auto

text \<open>One pattern against the elements \<open>ec\<close> of the error code.\<close>

definition trap_match :: "('s, 'v) trap_lib \<Rightarrow> string list \<Rightarrow> string list \<Rightarrow> 's \<Rightarrow> 's \<times> bool" where
  "trap_match L ec pat s =
     (let facility = (if ec = [] then '''' else ec ! 0);
          code = (if length ec > 1 then ec ! 1 else '''')
      in if pat = [] then (s, True)
         else if tl_lstrcmpA L facility (pat ! 0) \<noteq> 0 then (s, False)
         else if length pat = 1 then (s, True)
         else if tl_lstrcmpA L code (pat ! 1) = 0 then (s, True)
         else case tl_toint L (pat ! 1) s of
             (s1, None) \<Rightarrow> (s1, False)
           | (s1, Some patInt) \<Rightarrow>
               if code = '''' then (s1, False)
               else (case tl_toint L (ec ! 1) s1 of
                   (s2, None) \<Rightarrow> (s2, False)
                 | (s2, Some errorCodeInt) \<Rightarrow> (s2, errorCodeInt = patInt)))"

text \<open>The loop over the handlers.\<close>

datatype trap_found = NoHandler | BadPattern | Handler nat

function trap_find :: "('s, 'v) trap_lib \<Rightarrow> string list \<Rightarrow> nat \<Rightarrow> string list \<Rightarrow> nat \<Rightarrow> 's \<Rightarrow>
    's \<times> trap_found" where
  "trap_find L objv final ec i s =
     (if \<not> i + 2 < length objv then (s, NoHandler)
      else if i = final then trap_find L objv final ec (i + 2) s
      else case tl_elements L (objv ! (i + 1)) s of
          (s1, None) \<Rightarrow> (s1, BadPattern)
        | (s1, Some pat) \<Rightarrow> (case trap_match L ec pat s1 of
              (s2, True) \<Rightarrow> (s2, Handler i)
            | (s2, False) \<Rightarrow> trap_find L objv final ec (i + 3) s2))"
  by pat_completeness auto
termination by (relation "measure (\<lambda>(L, objv, final, ec, i, s). length objv - i)") auto

definition trap_finalize :: "('s, 'v) trap_lib \<Rightarrow> string list \<Rightarrow> nat \<Rightarrow> int \<Rightarrow> 's trap_state \<Rightarrow>
    's trap_state \<times> int" where
  "trap_finalize L objv final result st =
     (if final \<noteq> 0
      then let saved = tl_save L result (ts_interp st);
               (st1, r) = tl_eval L (objv ! (final + 1)) (st\<lparr>ts_interp := tl_reset L (ts_interp st)\<rparr>)
           in if r = TCL_ERROR then (st1, r)
              else let (s, r') = tl_restore L saved (ts_interp st1) in (st1\<lparr>ts_interp := s\<rparr>, r')
      else (st, result))"

text \<open>\<open>Tcl_ListObjReplace\<close> takes a negative start as 0.\<close>

definition trap_pop :: "string list \<Rightarrow> string list" where
  "trap_pop stack = take (length stack - 2) stack"

definition trap_usage :: string where
  "trap_usage = ''script ?onerror ERROR errorscript? ...?finally FINALSCRIPT?''"

definition trap_syntax_msg :: "string \<Rightarrow> string" where
  "trap_syntax_msg cmd = ''Invalid syntax: should be '' @ cmd @
     '' SCRIPT ?onerror ERROR ERRORSCRIPT? ...?finally FINALSCRIPT?''"

definition Twapi_TrapObjCmd :: "('s, 'v) trap_lib \<Rightarrow> string list \<Rightarrow> 's trap_state \<Rightarrow>
    's trap_state \<times> int" where
  "Twapi_TrapObjCmd L objv st =
     (if length objv < 2 then (st\<lparr>ts_interp := tl_set_result L trap_usage (ts_interp st)\<rparr>, TCL_ERROR)
      else case trap_parse L objv 2 0 of
          BadArgs \<Rightarrow> (st\<lparr>ts_interp := tl_set_result L trap_usage (ts_interp st)\<rparr>, TCL_ERROR)
        | BadSyntax \<Rightarrow>
            (st\<lparr>ts_interp := tl_set_result L (trap_syntax_msg (objv ! 0)) (ts_interp st)\<rparr>, TCL_ERROR)
        | SyntaxOk final \<Rightarrow>
            let (st1, result) = tl_eval L (objv ! 1) st
            in if result \<noteq> TCL_ERROR then trap_finalize L objv final result st1
               else
                 let s1 = ts_interp st1;
                     st2 = st1\<lparr>ts_stack := ts_stack st1 @ [tl_result L s1, tl_options L result s1]\<rparr>;
                     (st3, r3) = (case tl_errorcode L s1 of
                         None \<Rightarrow> trap_finalize L objv final result st2
                       | Some errorCodeVar \<Rightarrow> (case tl_elements L errorCodeVar s1 of
                             (s, None) \<Rightarrow> trap_finalize L objv final result (st2\<lparr>ts_interp := s\<rparr>)
                           | (s, Some ec) \<Rightarrow> (case trap_find L objv final ec 2 s of
                                 (s', BadPattern) \<Rightarrow> (st2\<lparr>ts_interp := s'\<rparr>, result)
                               | (s', NoHandler) \<Rightarrow>
                                   trap_finalize L objv final result (st2\<lparr>ts_interp := s'\<rparr>)
                               | (s', Handler i) \<Rightarrow>
                                   (let (st', r') = tl_eval L (objv ! (i + 2)) (st2\<lparr>ts_interp := s'\<rparr>)
                                    in trap_finalize L objv final r' st'))))
                 in (st3\<lparr>ts_stack := trap_pop (ts_stack st3)\<rparr>, r3))"

text \<open>The commands \<open>trapresult\<close> (\<open>func\<close> is 8) and \<open>trapoptions\<close> (9); \<open>None\<close> is the scope error.\<close>

definition trap_query :: "nat \<Rightarrow> string list \<Rightarrow> string option" where
  "trap_query func stack =
     (let i = length stack
      in if i > 1 then Some (stack ! (i - 1 - (if func = 8 then 1 else 0))) else None)"

declare trap_parse.simps [simp del] trap_find.simps [simp del]

section \<open>The command over clauses\<close>

text \<open>
  What the command evaluates, over its clauses instead of the indices of its words. This
  follows the code, with its two departures from the manual; \<open>Trap_Props\<close> has the command
  of the manual.
\<close>

datatype clause = OnError string string | Finally string

fun clause_words :: "clause \<Rightarrow> string list" where
  "clause_words (OnError pat script) = [''onerror'', pat, script]"
| "clause_words (Finally script) = [''finally'', script]"

fun handlers :: "clause list \<Rightarrow> (string \<times> string) list" where
  "handlers [] = []"
| "handlers (OnError p s # cls) = (p, s) # handlers cls"
| "handlers (Finally s # cls) = handlers cls"

fun finals :: "clause list \<Rightarrow> string list" where
  "finals [] = []"
| "finals (OnError p s # cls) = finals cls"
| "finals (Finally s # cls) = s # finals cls"

definition trap_words :: "string \<Rightarrow> string \<Rightarrow> clause list \<Rightarrow> string list" where
  "trap_words cmd body cls = cmd # body # concat (map clause_words cls)"

text \<open>The first handler whose pattern matches; \<open>None\<close> when a pattern is no list.\<close>

fun select_handler :: "('s, 'v) trap_lib \<Rightarrow> string list \<Rightarrow> (string \<times> string) list \<Rightarrow> 's \<Rightarrow>
    's \<times> string option option" where
  "select_handler L ec [] s = (s, Some None)"
| "select_handler L ec ((p, script) # hs) s = (case tl_elements L p s of
      (s1, None) \<Rightarrow> (s1, None)
    | (s1, Some pat) \<Rightarrow> (case trap_match L ec pat s1 of
          (s2, True) \<Rightarrow> (s2, Some (Some script))
        | (s2, False) \<Rightarrow> select_handler L ec hs s2))"

text \<open>The final script: the outcome before it is kept unless it fails itself.\<close>

definition run_finally :: "('s, 'v) trap_lib \<Rightarrow> string option \<Rightarrow> int \<Rightarrow> 's trap_state \<Rightarrow>
    's trap_state \<times> int" where
  "run_finally L final result st = (case final of
      None \<Rightarrow> (st, result)
    | Some script \<Rightarrow>
        (let (st1, r) = tl_eval L script (st\<lparr>ts_interp := tl_reset L (ts_interp st)\<rparr>)
         in if r = TCL_ERROR then (st1, r)
            else let (s, r') = tl_restore L (tl_save L result (ts_interp st)) (ts_interp st1)
                 in (st1\<lparr>ts_interp := s\<rparr>, r')))"

definition error_elements :: "('s, 'v) trap_lib \<Rightarrow> 's \<Rightarrow> 's \<times> string list option" where
  "error_elements L s = (case tl_errorcode L s of None \<Rightarrow> (s, None) | Some v \<Rightarrow> tl_elements L v s)"

definition trap_clauses :: "('s, 'v) trap_lib \<Rightarrow> string \<Rightarrow> (string \<times> string) list \<Rightarrow> string option \<Rightarrow>
    's trap_state \<Rightarrow> 's trap_state \<times> int" where
  "trap_clauses L body hs final st =
     (let (st1, result) = tl_eval L body st
      in if result \<noteq> TCL_ERROR then run_finally L final result st1
         else
           let st2 = st1\<lparr>ts_stack := ts_stack st1 @ [tl_result L (ts_interp st1), tl_options L result (ts_interp st1)]\<rparr>;
               (s, ec) = error_elements L (ts_interp st1);
               (s', sel) = (case ec of None \<Rightarrow> (s, Some None) | Some xs \<Rightarrow> select_handler L xs hs s);
               st3 = st2\<lparr>ts_interp := s'\<rparr>;
               (st4, r) = (case sel of
                   None \<Rightarrow> (st3, result)
                 | Some None \<Rightarrow> run_finally L final result st3
                 | Some (Some script) \<Rightarrow>
                     (let (st', r') = tl_eval L script st3 in run_finally L final r' st'))
           in (st4\<lparr>ts_stack := trap_pop (ts_stack st4)\<rparr>, r))"

end
