(* ===== verification/Trap_Props.thy ===== *)
theory Trap_Props
  imports Trap
begin

text \<open>The properties of \<open>trap\<close>: the loops over the words of the command against the clauses.\<close>

section \<open>Words and clauses\<close>

abbreviation words :: "clause list \<Rightarrow> string list" where
  "words cls \<equiv> concat (map clause_words cls)"

text \<open>The index that the syntax check remembers, and what the handler loop needs of it.\<close>

fun final_pos :: "nat \<Rightarrow> nat \<Rightarrow> clause list \<Rightarrow> nat" where
  "final_pos i f [] = f"
| "final_pos i f (OnError p s # cls) = final_pos (i + 3) f cls"
| "final_pos i f (Finally s # cls) = final_pos (i + 2) i cls"

fun fits :: "nat \<Rightarrow> nat \<Rightarrow> clause list \<Rightarrow> bool" where
  "fits f i [] \<longleftrightarrow> True"
| "fits f i (OnError p s # cls) \<longleftrightarrow> f \<noteq> i \<and> fits f (i + 3) cls"
| "fits f i (Finally s # cls) \<longleftrightarrow> f = i \<and> fits f (i + 2) cls"

lemma fits_before: "finals cls = [] \<Longrightarrow> f < i \<Longrightarrow> fits f i cls"
  by (induction cls arbitrary: i rule: finals.induct) auto

lemma final_pos_none: "finals cls = [] \<Longrightarrow> final_pos i f cls = f"
  by (induction cls arbitrary: i rule: finals.induct) auto

lemma final_pos_bound:
  "length (finals cls) \<le> 1 \<Longrightarrow> f < i \<Longrightarrow> final_pos j f cls < i \<or> j \<le> final_pos j f cls"
proof (induction cls arbitrary: j rule: finals.induct)
  case (2 p s cls)
  from "2.IH" [of "j + 3"] "2.prems" show ?case by auto
qed (auto simp: final_pos_none)

lemma final_pos_fits: "length (finals cls) \<le> 1 \<Longrightarrow> f < i \<Longrightarrow> fits (final_pos i f cls) i cls"
proof (induction cls arbitrary: i rule: finals.induct)
  case (2 p s cls)
  then have "fits (final_pos (i + 3) f cls) (i + 3) cls" by simp
  moreover from final_pos_bound [of cls f i "i + 3"] "2.prems" have "final_pos (i + 3) f cls \<noteq> i" by auto
  ultimately show ?case by simp
qed (auto simp: final_pos_none fits_before)

lemma final_pos_script:
  "length (finals cls) \<le> 1 \<Longrightarrow> finals cls = s # r \<Longrightarrow>
   length pre \<le> final_pos (length pre) f cls \<and> (pre @ words cls) ! (final_pos (length pre) f cls + 1) = s"
proof (induction cls arbitrary: pre rule: finals.induct)
  case (2 p t cls)
  from "2.IH" [of "pre @ [''onerror'', p, t]"] "2.prems" show ?case by (simp add: numeral_3_eq_3)
next
  case (3 t cls)
  then show ?case by (auto simp: final_pos_none nth_append)
qed simp

text \<open>What the words rely on: \<open>lstrcmpA\<close> finds a string equal to itself.\<close>

definition strcmp_refl :: "('s, 'v) trap_lib \<Rightarrow> bool" where
  "strcmp_refl L \<longleftrightarrow> (\<forall>x. tl_lstrcmpA L x x = 0)"

lemma streq_words:
  "strcmp_refl L \<Longrightarrow> STREQ L ''onerror'' ''onerror''" "strcmp_refl L \<Longrightarrow> STREQ L ''finally'' ''finally''"
  "\<not> STREQ L ''onerror'' ''finally''"
  by (simp_all add: STREQ_def strcmp_refl_def)

lemma parse_words:
  "strcmp_refl L \<Longrightarrow> length (finals cls) + (if f = 0 then 0 else 1) \<le> 1 \<Longrightarrow> 0 < length pre \<Longrightarrow>
   trap_parse L (pre @ words cls) (length pre) f = SyntaxOk (final_pos (length pre) f cls)"
proof (induction cls arbitrary: pre f rule: finals.induct)
  case (2 p s cls)
  from "2.IH" [of f "pre @ [''onerror'', p, s]"] "2.prems" show ?case
    by (subst trap_parse.simps) (simp add: streq_words numeral_3_eq_3)
next
  case (3 s cls)
  then have f: "f = 0" "finals cls = []" by (auto split: if_splits)
  from "3.IH" [of "length pre" "pre @ [''finally'', s]"] "3.prems" f show ?case
    by (subst trap_parse.simps) (simp add: streq_words numeral_2_eq_2)
qed (simp add: trap_parse.simps)

lemma find_words:
  "fits final (length pre) cls \<Longrightarrow>
   \<exists>r. trap_find L (pre @ words cls) final ec (length pre) s = (fst (select_handler L ec (handlers cls) s), r) \<and>
     (case snd (select_handler L ec (handlers cls) s) of
        None \<Rightarrow> r = BadPattern
      | Some None \<Rightarrow> r = NoHandler
      | Some (Some script) \<Rightarrow> \<exists>i. r = Handler i \<and> (pre @ words cls) ! (i + 2) = script)"
proof (induction cls arbitrary: pre s rule: finals.induct)
  case 1
  show ?case by (simp add: trap_find.simps)
next
  case (2 p t cls)
  obtain s1 e where e: "tl_elements L p s = (s1, e)" by (cases "tl_elements L p s")
  show ?case
  proof (cases e)
    case None
    with e "2.prems" show ?thesis by (subst trap_find.simps) (auto simp: nth_append)
  next
    case (Some pat)
    obtain s2 b where b: "trap_match L ec pat s1 = (s2, b)" by (cases "trap_match L ec pat s1")
    show ?thesis
    proof (cases b)
      case True
      with e b Some "2.prems" show ?thesis by (subst trap_find.simps) (auto simp: nth_append)
    next
      case False
      have W: "(pre @ [''onerror'', p, t]) @ words cls = pre @ words (OnError p t # cls)"
        "length (pre @ [''onerror'', p, t]) = length pre + 3" by simp_all
      have "fits final (length pre + 3) cls" using "2.prems" by simp
      note IH = "2.IH" [of "pre @ [''onerror'', p, t]" s2, unfolded W, OF this]
      have "trap_find L (pre @ words (OnError p t # cls)) final ec (length pre) s =
          trap_find L (pre @ words (OnError p t # cls)) final ec (length pre + 3) s2"
        using e b Some False "2.prems" by (subst trap_find.simps) (simp add: nth_append)
      moreover have "select_handler L ec (handlers (OnError p t # cls)) s = select_handler L ec (handlers cls) s2"
        using e b Some False by simp
      ultimately show ?thesis using IH by simp
    qed
  qed
next
  case (3 t cls)
  show ?case
  proof (cases "cls = []")
    case True
    then show ?thesis by (simp add: trap_find.simps)
  next
    case False
    then have "0 < length (words cls)" by (cases "hd cls"; cases cls) auto
    have W: "(pre @ [''finally'', t]) @ words cls = pre @ words (Finally t # cls)"
      "length (pre @ [''finally'', t]) = length pre + 2" by simp_all
    have "fits final (length pre + 2) cls" using "3.prems" by auto
    note IH = "3.IH" [of "pre @ [''finally'', t]" s, unfolded W, OF this]
    have "trap_find L (pre @ words (Finally t # cls)) final ec (length pre) s =
        trap_find L (pre @ words (Finally t # cls)) final ec (length pre + 2) s"
      using \<open>0 < length (words cls)\<close> "3.prems" by (subst trap_find.simps) simp
    with IH show ?thesis by simp
  qed
qed

lemma finalize_words:
  assumes "length (finals cls) \<le> 1" "pre \<noteq> []"
  shows "trap_finalize L (pre @ words cls) (final_pos (length pre) 0 cls) r st =
    run_finally L (case finals cls of [] \<Rightarrow> None | s # _ \<Rightarrow> Some s) r st"
proof (cases "finals cls")
  case Nil
  then show ?thesis by (simp add: trap_finalize_def run_finally_def final_pos_none)
next
  case (Cons s ss)
  from final_pos_script [OF assms(1) Cons, of pre 0] assms(2) Cons show ?thesis
    by (auto simp: trap_finalize_def run_finally_def Let_def)
qed

lemma trap_correct:
  assumes "strcmp_refl L" "length (finals cls) \<le> 1"
  shows "Twapi_TrapObjCmd L (trap_words cmd body cls) st =
    trap_clauses L body (handlers cls) (case finals cls of [] \<Rightarrow> None | s # _ \<Rightarrow> Some s) st"
proof -
  have two: "length [cmd, body] = 2" by simp
  define W where "W = [cmd, body] @ words cls"
  define F where "F = final_pos 2 0 cls"
  have W: "trap_words cmd body cls = W" "\<not> length W < 2" "W ! Suc 0 = body" by (simp_all add: W_def trap_words_def)
  have P: "trap_parse L W 2 0 = SyntaxOk F"
    using parse_words [of L cls 0 "[cmd, body]"] assms by (simp add: W_def F_def numeral_2_eq_2)
  have fin: "trap_finalize L W F r s =
      run_finally L (case finals cls of [] \<Rightarrow> None | s # _ \<Rightarrow> Some s) r s" for r s
    using finalize_words [OF assms(2), of "[cmd, body]"] by (simp add: W_def F_def numeral_2_eq_2)
  have find: "\<exists>r. trap_find L W F ec 2 s = (fst (select_handler L ec (handlers cls) s), r) \<and>
     (case snd (select_handler L ec (handlers cls) s) of
        None \<Rightarrow> r = BadPattern | Some None \<Rightarrow> r = NoHandler
      | Some (Some script) \<Rightarrow> \<exists>i. r = Handler i \<and> W ! (i + 2) = script)" for ec s
    unfolding W_def F_def by (rule find_words [of _ "[cmd, body]", unfolded two], rule final_pos_fits [OF assms(2)]) simp
  obtain st1 r1 where b: "tl_eval L body st = (st1, r1)" by (cases "tl_eval L body st")
  show ?thesis
  proof (cases "r1 = TCL_ERROR")
    case False
    with b P show ?thesis unfolding W(1) trap_clauses_def Twapi_TrapObjCmd_def by (simp add: fin W)
  next
    case err: True
    obtain s e where e: "error_elements L (ts_interp st1) = (s, e)" by (cases "error_elements L (ts_interp st1)")
    show ?thesis
    proof (cases e)
      case None
      with e b err P show ?thesis unfolding W(1) trap_clauses_def Twapi_TrapObjCmd_def
        by (auto simp: fin W error_elements_def Let_def split: option.splits)
    next
      case (Some ec)
      with e obtain v where v: "tl_errorcode L (ts_interp st1) = Some v" "tl_elements L v (ts_interp st1) = (s, Some ec)"
        by (auto simp: error_elements_def split: option.splits)
      obtain s' sel where sel: "select_handler L ec (handlers cls) s = (s', sel)"
        by (cases "select_handler L ec (handlers cls) s")
      from find [of ec s] sel obtain r where r: "trap_find L W F ec 2 s = (s', r)"
        "case sel of None \<Rightarrow> r = BadPattern | Some None \<Rightarrow> r = NoHandler
         | Some (Some script) \<Rightarrow> \<exists>i. r = Handler i \<and> W ! (i + 2) = script" by auto
      from r e b err P v Some sel show ?thesis unfolding W(1) trap_clauses_def Twapi_TrapObjCmd_def
        by (auto simp: fin W Let_def split: option.splits)
    qed
  qed
qed

text \<open>Conversely, words that the syntax check accepts are those of clauses.\<close>

lemma drop3: "i + 2 < length xs \<Longrightarrow> drop i xs = xs ! i # xs ! (i + 1) # xs ! (i + 2) # drop (i + 3) xs"
  by (simp add: Cons_nth_drop_Suc numeral_2_eq_2 numeral_3_eq_3)

lemma drop2: "i + 1 < length xs \<Longrightarrow> drop i xs = xs ! i # xs ! (i + 1) # drop (i + 2) xs"
  by (simp add: Cons_nth_drop_Suc numeral_2_eq_2)

lemma parse_ok:
  "\<forall>x y. tl_lstrcmpA L x y = 0 \<longrightarrow> x = y \<Longrightarrow> trap_parse L objv i f = SyntaxOk f' \<Longrightarrow> 0 < i \<Longrightarrow>
    \<exists>cls. drop i objv = words cls \<and> length (finals cls) + (if f = 0 then 0 else 1) \<le> 1"
proof (induction L objv i f rule: trap_parse.induct)
  case (1 L objv i f)
  have eq: "STREQ L x y \<Longrightarrow> y = x" for x y using "1.prems"(1) by (auto simp: STREQ_def)
  note parse = "1.prems"(2) [unfolded trap_parse.simps [of L objv i f] Let_def]
  consider "\<not> i < length objv" | "i < length objv" "STREQ L ''onerror'' (objv ! i)"
    | "i < length objv" "\<not> STREQ L ''onerror'' (objv ! i)" "STREQ L ''finally'' (objv ! i)"
    using parse by (auto split: if_splits)
  then show ?case
  proof cases
    case 1
    then show ?thesis by (intro exI [of _ "[]"]) simp
  next
    case 2
    then have b: "i + 2 < length objv" and p: "trap_parse L objv (i + 3) f = SyntaxOk f'"
      using parse by (auto split: if_splits)
    obtain cls where "drop (i + 3) objv = words cls" "length (finals cls) + (if f = 0 then 0 else 1) \<le> 1"
      using "1.IH"(1) [OF _ refl 2(2) _ "1.prems"(1) p] 2 b by auto
    with drop3 [OF b] eq [OF 2(2)] show ?thesis
      by (intro exI [of _ "OnError (objv ! (i + 1)) (objv ! (i + 2)) # cls"]) simp
  next
    case 3
    then have b: "i + 1 < length objv" and f: "f = 0" and p: "trap_parse L objv (i + 2) i = SyntaxOk f'"
      using parse by (auto split: if_splits)
    obtain cls where "drop (i + 2) objv = words cls" "length (finals cls) + (if i = 0 then 0 else 1) \<le> 1"
      using "1.IH"(2) [OF _ refl 3(2,3) _ _ "1.prems"(1) p] 3 b f by auto
    with drop2 [OF b] eq [OF 3(3)] f "1.prems"(3) show ?thesis
      by (intro exI [of _ "Finally (objv ! (i + 1)) # cls"]) simp
  qed
qed

section \<open>The stack\<close>

definition keeps_stack :: "('s, 'v) trap_lib \<Rightarrow> bool" where
  "keeps_stack L \<longleftrightarrow> (\<forall>script st. ts_stack (fst (tl_eval L script st)) = ts_stack st)"

lemma keeps_stackD: "tl_eval L script st = (st', r) \<Longrightarrow> keeps_stack L \<Longrightarrow> ts_stack st' = ts_stack st"
  by (metis keeps_stack_def fst_conv)

lemma trap_pop_push: "trap_pop (xs @ [a, b]) = xs"
  by (simp add: trap_pop_def)

lemma finalize_stack: "keeps_stack L \<Longrightarrow> ts_stack (fst (trap_finalize L objv f r st)) = ts_stack st"
  by (auto simp: trap_finalize_def Let_def split: prod.splits dest: keeps_stackD)

lemma finalize_stack': "trap_finalize L objv f r st = (st', r') \<Longrightarrow> keeps_stack L \<Longrightarrow> ts_stack st' = ts_stack st"
  using finalize_stack [of L objv f r st] by simp

section \<open>An instance\<close>

text \<open>Scripts of a small interpreter: \<open>fail\<close> fails, any other script yields itself.\<close>

definition demo_trap :: "(string, string \<times> int) trap_lib" where
  "demo_trap = \<lparr>tl_lstrcmpA = (\<lambda>x y. if x = y then 0 else 1),
     tl_eval = (\<lambda>script st. if script = ''fail'' then (st\<lparr>ts_interp := ''boom''\<rparr>, 1)
        else (st\<lparr>ts_interp := script\<rparr>, 0)),
     tl_elements = (\<lambda>x s. case dec [] x of None \<Rightarrow> (''no list'', None) | Some xs \<Rightarrow> (s, Some xs)),
     tl_toint = (\<lambda>x s. case digit x of None \<Rightarrow> (''no integer'', None) | Some n \<Rightarrow> (s, Some n)),
     tl_result = (\<lambda>s. s), tl_options = (\<lambda>r s. ''options''), tl_errorcode = (\<lambda>s. Some ''cA.c7.''),
     tl_reset = (\<lambda>s. ''''), tl_save = (\<lambda>r s. (s, r)), tl_restore = (\<lambda>v s. v), tl_set_result = (\<lambda>m s. m)\<rparr>"

definition demo_trap_state :: "string trap_state" where
  "demo_trap_state = \<lparr>ts_interp = '''', ts_stack = []\<rparr>"

lemma demo_trap_laws: "strcmp_refl demo_trap" "keeps_stack demo_trap"
  "\<forall>x y. tl_lstrcmpA demo_trap x y = 0 \<longrightarrow> x = y"
  by (simp_all add: demo_trap_def strcmp_refl_def keeps_stack_def)

section \<open>Properties\<close>

subsection \<open>The command of the manual\<close>

text \<open>
  The text of \<open>base.man\<close>, over a reading \<open>E\<close> of strings as lists and \<open>N\<close> as integers: an empty
  pattern matches anything, one element the facility, two elements the facility and the code,
  which is compared as a string first and then as an integer if both operands are integers.
\<close>

definition doc_match :: "(string \<Rightarrow> int option) \<Rightarrow> string list \<Rightarrow> string list \<Rightarrow> bool" where
  "doc_match N ec pat = (case (ec @ ['''', '''']) of
      facility # code # _ \<Rightarrow> (case pat of
          [] \<Rightarrow> True
        | [f] \<Rightarrow> f = facility
        | f # c # _ \<Rightarrow> f = facility \<and> (c = code \<or> (\<exists>n. N c = Some n \<and> N code = Some n)))
    | _ \<Rightarrow> False)"

text \<open>The final script keeps the outcome of what ran before, unless it fails itself.\<close>

definition and_finally :: "('s, 'v) trap_lib \<Rightarrow> string option \<Rightarrow> 's trap_state \<times> int \<Rightarrow> 's trap_state \<times> int" where
  "and_finally L final outcome = (case final of
      None \<Rightarrow> outcome
    | Some script \<Rightarrow>
        (let (st, result) = outcome;
             (st', r) = tl_eval L script (st\<lparr>ts_interp := tl_reset L (ts_interp st)\<rparr>)
         in if r = TCL_ERROR then (st', TCL_ERROR)
            else let (s, r') = tl_restore L (tl_save L result (ts_interp st)) (ts_interp st')
                 in (st'\<lparr>ts_interp := s\<rparr>, r')))"

definition trap_manual :: "('s, 'v) trap_lib \<Rightarrow> (string \<Rightarrow> string list option) \<Rightarrow> (string \<Rightarrow> int option) \<Rightarrow>
    string \<Rightarrow> (string \<times> string) list \<Rightarrow> string option \<Rightarrow> 's trap_state \<Rightarrow> 's trap_state \<times> int" where
  "trap_manual L E N body hs final st =
     (let (st1, result) = tl_eval L body st
      in if result \<noteq> TCL_ERROR then and_finally L final (st1, result)
         else
           let ec = the (E (the (tl_errorcode L (ts_interp st1))));
               caught = st1\<lparr>ts_stack := ts_stack st @
                 [tl_result L (ts_interp st1), tl_options L TCL_ERROR (ts_interp st1)]\<rparr>;
               outcome = (case find (\<lambda>(p, script). doc_match N ec (the (E p))) hs of
                   Some (p, script) \<Rightarrow> tl_eval L script caught
                 | None \<Rightarrow> (caught, TCL_ERROR));
               (st2, r) = and_finally L final outcome
           in (st2\<lparr>ts_stack := ts_stack st\<rparr>, r))"

text \<open>
  What this needs. Conversions that succeed leave the interpreter alone; the error code is set
  and is a list; the patterns are lists, and where a facility matches but the codes differ as
  strings, the codes are integers (or the error has none). The two theorems on the departures
  say what happens otherwise.
\<close>

definition conversions :: "('s, 'v) trap_lib \<Rightarrow> (string \<Rightarrow> string list option) \<Rightarrow> (string \<Rightarrow> int option) \<Rightarrow> bool" where
  "conversions L E N \<longleftrightarrow> (\<forall>x xs s. E x = Some xs \<longrightarrow> tl_elements L x s = (s, Some xs)) \<and>
     (\<forall>x n s. N x = Some n \<longrightarrow> tl_toint L x s = (s, Some n)) \<and> N '''' = None"

definition codes_comparable :: "(string \<Rightarrow> int option) \<Rightarrow> string list \<Rightarrow> string list \<Rightarrow> bool" where
  "codes_comparable N ec pat = (case (ec @ ['''', '''']) of
      facility # code # _ \<Rightarrow> (case pat of
          f # c # _ \<Rightarrow> f = facility \<and> c \<noteq> code \<longrightarrow> N c \<noteq> None \<and> (code = '''' \<or> N code \<noteq> None)
        | _ \<Rightarrow> True)
    | _ \<Rightarrow> True)"

definition patterns_ok :: "('s, 'v) trap_lib \<Rightarrow> (string \<Rightarrow> string list option) \<Rightarrow> (string \<Rightarrow> int option) \<Rightarrow>
    (string \<times> string) list \<Rightarrow> 's \<Rightarrow> bool" where
  "patterns_ok L E N hs s \<longleftrightarrow> (case tl_errorcode L s of None \<Rightarrow> False | Some v \<Rightarrow>
     (case E v of None \<Rightarrow> False | Some ec \<Rightarrow>
       (\<forall>(p, script) \<in> set hs. case E p of None \<Rightarrow> False | Some pat \<Rightarrow> codes_comparable N ec pat)))"

lemma trap_match_manual:
  assumes c: "conversions L E N" "\<forall>x y. tl_lstrcmpA L x y = 0 \<longleftrightarrow> x = y" and ok: "codes_comparable N ec pat"
  shows "trap_match L ec pat s = (s, doc_match N ec pat)"
proof -
  have N: "tl_toint L x s = (s, Some n)" if "N x = Some n" for x n using c(1) that by (simp add: conversions_def)
  have N0: "N [] = None" using c(1) by (simp add: conversions_def)
  consider "pat = []" | f where "pat = [f]" | f k r where "pat = f # k # r"
    by (cases pat; cases "tl pat") auto
  then show ?thesis
  proof cases
    case (3 f k r)
    show ?thesis
      using ok 3 N0 by (cases ec; cases "tl ec"; cases "N k")
        (auto simp: trap_match_def doc_match_def codes_comparable_def c(2) N Let_def split: option.splits)
  qed (cases ec; cases "tl ec"; auto simp: trap_match_def doc_match_def c(2) Let_def)+
qed

lemma select_manual:
  assumes c: "conversions L E N" "\<forall>x y. tl_lstrcmpA L x y = 0 \<longleftrightarrow> x = y"
    and "\<forall>(p, script) \<in> set hs. case E p of None \<Rightarrow> False | Some pat \<Rightarrow> codes_comparable N ec pat"
  shows "select_handler L ec hs s = (s, Some (map_option snd (find (\<lambda>(p, script). doc_match N ec (the (E p))) hs)))"
  using assms(3)
proof (induction hs)
  case (Cons h hs)
  obtain p script where h: "h = (p, script)" by (cases h)
  then obtain pat where pat: "E p = Some pat" "codes_comparable N ec pat"
    using Cons.prems by (auto split: option.splits)
  then have "tl_elements L p s = (s, Some pat)" using c(1) by (simp add: conversions_def)
  with trap_match_manual [OF c pat(2), of s] Cons h pat(1) show ?case by simp
qed simp

lemma and_finally_run: "and_finally L final (st, r) = run_finally L final r st"
  by (simp add: and_finally_def run_finally_def split: option.split prod.split)

lemma run_finally_stack:
  "keeps_stack L \<Longrightarrow> run_finally L final r st = (st', r') \<Longrightarrow> ts_stack st' = ts_stack st"
  by (auto simp: run_finally_def Let_def split: option.splits prod.splits if_splits dest!: keeps_stackD)

text \<open>
  C12. The command does what its manual says, for any handlers and with the final script at any
  place among them: the first handler whose pattern matches runs, then the final script, and
  an unmatched error is raised again after it. The conditions are those under which the code
  keeps to the manual: \<open>::errorCode\<close> is set and a list, the patterns are lists, and codes that
  differ as strings are integers. The scripts leave the stack of caught errors as they find
  it, as this command itself does.
\<close>

theorem trap_is_documented:
  assumes "conversions L E N" "\<forall>x y. tl_lstrcmpA L x y = 0 \<longleftrightarrow> x = y" "keeps_stack L"
    and "length (finals cls) \<le> 1"
    and "\<forall>st1. tl_eval L body st = (st1, TCL_ERROR) \<longrightarrow> patterns_ok L E N (handlers cls) (ts_interp st1)"
  shows "Twapi_TrapObjCmd L (trap_words cmd body cls) st =
    trap_manual L E N body (handlers cls) (case finals cls of [] \<Rightarrow> None | s # _ \<Rightarrow> Some s) st"
proof -
  let ?final = "case finals cls of [] \<Rightarrow> None | s # _ \<Rightarrow> Some s"
  have "strcmp_refl L" using assms(2) by (simp add: strcmp_refl_def)
  note code = trap_correct [OF this assms(4), of cmd body st]
  obtain st1 r1 where b: "tl_eval L body st = (st1, r1)" by (cases "tl_eval L body st")
  show ?thesis
  proof (cases "r1 = TCL_ERROR")
    case False
    with b show ?thesis by (simp add: code trap_clauses_def trap_manual_def and_finally_run)
  next
    case True
    with b assms(5) have ok: "patterns_ok L E N (handlers cls) (ts_interp st1)" by simp
    obtain v ec where v: "tl_errorcode L (ts_interp st1) = Some v" "E v = Some ec"
      using ok by (auto simp: patterns_ok_def split: option.splits)
    have ec: "error_elements L (ts_interp st1) = (ts_interp st1, Some ec)"
      using v assms(1) by (simp add: error_elements_def conversions_def)
    define h where "h = find (\<lambda>(p, script). doc_match N ec (the (E p))) (handlers cls)"
    have sel: "select_handler L ec (handlers cls) (ts_interp st1) = (ts_interp st1, Some (map_option snd h))"
      unfolding h_def by (rule select_manual [OF assms(1,2)]) (use ok v in \<open>auto simp: patterns_ok_def\<close>)
    have st: "ts_stack st1 = ts_stack st" using keeps_stackD [OF b assms(3)] .
    define caught where "caught = st1\<lparr>ts_stack := ts_stack st @
      [tl_result L (ts_interp st1), tl_options L TCL_ERROR (ts_interp st1)]\<rparr>"
    define outcome where "outcome = (case h of None \<Rightarrow> (caught, TCL_ERROR) | Some (p, script) \<Rightarrow> tl_eval L script caught)"
    obtain st2 r2 where o: "outcome = (st2, r2)" by (cases outcome)
    have st2: "ts_stack st2 = ts_stack caught"
      using o assms(3) by (auto simp: outcome_def split: option.splits prod.splits dest: keeps_stackD)
    obtain st3 r3 where f: "run_finally L ?final r2 st2 = (st3, r3)" by (cases "run_finally L ?final r2 st2")
    have "trap_pop (ts_stack st3) = ts_stack st"
      using run_finally_stack [OF assms(3) f] st2 by (simp add: caught_def trap_pop_push)
    moreover have "st1\<lparr>ts_stack := ts_stack st @ [tl_result L (ts_interp st1), tl_options L TCL_ERROR (ts_interp st1)],
        ts_interp := ts_interp st1\<rparr> = caught" by (simp add: caught_def)
    ultimately have "Twapi_TrapObjCmd L (trap_words cmd body cls) st = (st3\<lparr>ts_stack := ts_stack st\<rparr>, r3)"
      using o f unfolding code trap_clauses_def outcome_def
      by (cases h) (auto simp: b True ec sel st Let_def)
    moreover have "trap_manual L E N body (handlers cls) ?final st = (st3\<lparr>ts_stack := ts_stack st\<rparr>, r3)"
      using o f unfolding trap_manual_def outcome_def
      by (cases h) (auto simp: b True v h_def [symmetric] caught_def [symmetric] and_finally_run Let_def split: option.splits)
    ultimately show ?thesis by simp
  qed
qed

theorem trap_is_documented_witness:
  "Twapi_TrapObjCmd demo_trap
     (trap_words ''trap'' ''fail'' [OnError ''cB.'' ''x'', Finally ''f'', OnError ''cA.c7.'' ''h'']) demo_trap_state
   = (\<lparr>ts_interp = ''h'', ts_stack = []\<rparr>, 0)"
proof -
  let ?cls = "[OnError ''cB.'' ''x'', Finally ''f'', OnError ''cA.c7.'' ''h'']"
  have c: "conversions demo_trap (dec []) digit" "\<forall>x y. tl_lstrcmpA demo_trap x y = 0 \<longleftrightarrow> x = y"
    by (simp_all add: conversions_def demo_trap_def digit_def)
  have f: "length (finals ?cls) \<le> 1"
    "\<forall>st1. tl_eval demo_trap ''fail'' demo_trap_state = (st1, TCL_ERROR) \<longrightarrow>
       patterns_ok demo_trap (dec []) digit (handlers ?cls) (ts_interp st1)"
    by (simp_all add: demo_trap_def patterns_ok_def codes_comparable_def)
  from trap_is_documented [OF c demo_trap_laws(2) f, of "''trap''"] show ?thesis
    by (simp add: trap_manual_def demo_trap_def demo_trap_state_def TCL_ERROR_def Let_def doc_match_def and_finally_def)
qed

text \<open>
  Nothing is evaluated unless the syntax is right: whatever its words, the command either
  has the form of clauses with at most one final script, or fails at once with a message and
  leaves everything else as it was.
\<close>

theorem trap_syntax_first:
  assumes "\<forall>x y. tl_lstrcmpA L x y = 0 \<longrightarrow> x = y"
  shows "(\<exists>cmd body cls. objv = trap_words cmd body cls \<and> length (finals cls) \<le> 1) \<or>
    (\<exists>msg. Twapi_TrapObjCmd L objv st = (st\<lparr>ts_interp := tl_set_result L msg (ts_interp st)\<rparr>, TCL_ERROR))"
proof (cases "length objv < 2")
  case True
  then show ?thesis by (auto simp: Twapi_TrapObjCmd_def)
next
  case False
  then obtain cmd body rest where objv: "objv = cmd # body # rest"
    by (cases objv; cases "tl objv") auto
  show ?thesis
  proof (cases "trap_parse L objv 2 0")
    case (SyntaxOk f)
    from parse_ok [OF assms this] objv show ?thesis by (auto simp: trap_words_def)
  qed (use False in \<open>auto simp: Twapi_TrapObjCmd_def\<close>)
qed

theorem trap_syntax_first_witness:
  "\<exists>msg. Twapi_TrapObjCmd demo_trap [''trap'', ''fail'', ''finally'', ''x'', ''finally'', ''y''] demo_trap_state =
     (demo_trap_state\<lparr>ts_interp := tl_set_result demo_trap msg (ts_interp demo_trap_state)\<rparr>, TCL_ERROR)"
proof -
  have "\<nexists>cmd body cls. [''trap'', ''fail'', ''finally'', ''x'', ''finally'', ''y''] = trap_words cmd body cls \<and>
      length (finals cls) \<le> 1"
  proof (clarify)
    fix cmd body cls
    assume w: "[''trap'', ''fail'', ''finally'', ''x'', ''finally'', ''y''] = trap_words cmd body cls"
      and l: "length (finals cls) \<le> 1"
    then obtain c cs where cls: "cls = c # cs" by (cases cls) (simp_all add: trap_words_def)
    with w obtain c' cs' where "cs = c' # cs'" by (cases c; cases cs) (simp_all add: trap_words_def)
    with cls w l show False by (cases c; cases c') (simp_all add: trap_words_def)
  qed
  with trap_syntax_first [OF demo_trap_laws(3), of "[''trap'', ''fail'', ''finally'', ''x'', ''finally'', ''y'']"
      demo_trap_state] show ?thesis by blast
qed

text \<open>
  The command leaves the stack of errors as it found it, whatever its words, if the scripts
  it runs do: on every path, errors of the syntax, the patterns and the scripts included.
\<close>

theorem trap_stack_balanced:
  assumes "keeps_stack L"
  shows "ts_stack (fst (Twapi_TrapObjCmd L objv st)) = ts_stack st"
proof -
  have push: "ts_stack st1 = ts_stack st @ [a, b] \<Longrightarrow> trap_pop (ts_stack st1) = ts_stack st"
    for st1 :: "'a trap_state" and a b by (simp add: trap_pop_push)
  show ?thesis
    using assms
    by (auto simp: Twapi_TrapObjCmd_def Let_def finalize_stack trap_pop_push
        split: trap_syntax.splits prod.splits option.splits trap_found.splits
        dest!: keeps_stackD finalize_stack')
qed

theorem trap_stack_balanced_witness:
  "ts_stack (fst (Twapi_TrapObjCmd demo_trap [''trap'', ''fail'', ''onerror'', ''?'', ''x''] \<lparr>ts_interp = '''', ts_stack = [''a'']\<rparr>))
   = [''a'']"
  using trap_stack_balanced [OF demo_trap_laws(2), of "[''trap'', ''fail'', ''onerror'', ''?'', ''x'']"
      "\<lparr>ts_interp = '''', ts_stack = [''a'']\<rparr>"] by simp

text \<open>
  When a handler runs, the error it handles is on the top of the stack, where \<open>trapresult\<close> and
  \<open>trapoptions\<close> find its message and its options; the final script runs after it.
\<close>

theorem handler_sees_error:
  assumes "strcmp_refl L" "length (finals cls) \<le> 1"
    and "tl_eval L body st = (st1, TCL_ERROR)" "error_elements L (ts_interp st1) = (s, Some ec)"
    and "select_handler L ec (handlers cls) s = (s', Some (Some script))"
  shows "\<exists>st3 st4 r. ts_interp st3 = s' \<and>
    trap_query 8 (ts_stack st3) = Some (tl_result L (ts_interp st1)) \<and>
    trap_query 9 (ts_stack st3) = Some (tl_options L TCL_ERROR (ts_interp st1)) \<and>
    (let (st', r') = tl_eval L script st3
     in run_finally L (case finals cls of [] \<Rightarrow> None | f # _ \<Rightarrow> Some f) r' st' = (st4, r)) \<and>
    Twapi_TrapObjCmd L (trap_words cmd body cls) st = (st4\<lparr>ts_stack := trap_pop (ts_stack st4)\<rparr>, r)"
proof -
  define st3 where "st3 = st1\<lparr>ts_stack := ts_stack st1 @ [tl_result L (ts_interp st1),
      tl_options L TCL_ERROR (ts_interp st1)], ts_interp := s'\<rparr>"
  obtain st' r' where h: "tl_eval L script st3 = (st', r')" by (cases "tl_eval L script st3")
  obtain st4 r where f: "run_finally L (case finals cls of [] \<Rightarrow> None | f # _ \<Rightarrow> Some f) r' st' = (st4, r)"
    by (cases "run_finally L (case finals cls of [] \<Rightarrow> None | f # _ \<Rightarrow> Some f) r' st'")
  have "Twapi_TrapObjCmd L (trap_words cmd body cls) st = (st4\<lparr>ts_stack := trap_pop (ts_stack st4)\<rparr>, r)"
    using assms(3-5) h f by (simp add: trap_correct [OF assms(1,2)] trap_clauses_def Let_def st3_def)
  moreover have "trap_query 8 (ts_stack st3) = Some (tl_result L (ts_interp st1))"
    "trap_query 9 (ts_stack st3) = Some (tl_options L TCL_ERROR (ts_interp st1))" "ts_interp st3 = s'"
    by (simp_all add: st3_def trap_query_def nth_append)
  ultimately show ?thesis using h f by (intro exI [of _ st3] exI [of _ st4] exI [of _ r]) simp
qed

theorem handler_sees_error_witness:
  "\<exists>st3. trap_query 8 (ts_stack st3) = Some ''boom'' \<and> tl_eval demo_trap ''h'' st3 = (st3\<lparr>ts_interp := ''h''\<rparr>, 0)"
proof -
  have "\<exists>st3 st4 r. ts_interp st3 = ''boom'' \<and> trap_query 8 (ts_stack st3) = Some (tl_result demo_trap ''boom'') \<and>
    trap_query 9 (ts_stack st3) = Some (tl_options demo_trap TCL_ERROR ''boom'') \<and>
    (let (st', r') = tl_eval demo_trap ''h'' st3
     in run_finally demo_trap (case finals [OnError ''cA.'' ''h''] of [] \<Rightarrow> None | f # _ \<Rightarrow> Some f) r' st' = (st4, r)) \<and>
    Twapi_TrapObjCmd demo_trap (trap_words ''trap'' ''fail'' [OnError ''cA.'' ''h'']) demo_trap_state =
      (st4\<lparr>ts_stack := trap_pop (ts_stack st4)\<rparr>, r)"
    using handler_sees_error [of demo_trap "[OnError ''cA.'' ''h'']" "''fail''" demo_trap_state
        "\<lparr>ts_interp = ''boom'', ts_stack = []\<rparr>" "''boom''" "[''A'', ''7'']" "''boom''" "''h''" "''trap''"]
      demo_trap_laws(1)
    by (simp add: demo_trap_def demo_trap_state_def TCL_ERROR_def error_elements_def trap_match_def)
  then show ?thesis by (auto simp: demo_trap_def)
qed

text \<open>
  Two departures from the manual. A pattern that is no list makes the command skip the final
  script, so that the outcome does not depend on there being one; and a pattern code that is no
  integer replaces the message of the error, which the command then raises again as it is, by
  that of the failed conversion.
\<close>

theorem trap_pattern_errors:
  assumes "strcmp_refl L" "tl_eval L body st = (st1, TCL_ERROR)"
    and "error_elements L (ts_interp st1) = (s, Some ec)"
  shows "(snd (tl_elements L p s) = None \<longrightarrow>
      Twapi_TrapObjCmd L (trap_words cmd body [OnError p h, Finally f]) st =
      Twapi_TrapObjCmd L (trap_words cmd body [OnError p h]) st) \<and>
    (ec = [fac, code] \<and> c \<noteq> '''' \<and> tl_elements L p s = (s, Some [fac, c]) \<and> tl_lstrcmpA L code c \<noteq> 0 \<and>
       tl_toint L c s = (s', None) \<longrightarrow>
      ts_interp (fst (Twapi_TrapObjCmd L (trap_words cmd body [OnError p h]) st)) = s' \<and>
      snd (Twapi_TrapObjCmd L (trap_words cmd body [OnError p h]) st) = TCL_ERROR)"
proof -
  have "tl_lstrcmpA L fac fac = 0" using assms(1) by (simp add: strcmp_refl_def)
  then show ?thesis using assms
    by (auto simp: trap_correct trap_clauses_def Let_def trap_match_def run_finally_def split: prod.splits)
qed

theorem trap_pattern_errors_witness:
  "fst (Twapi_TrapObjCmd demo_trap (trap_words ''trap'' ''fail'' [OnError ''cA.cx.'' ''h'']) demo_trap_state) =
     \<lparr>ts_interp = ''no integer'', ts_stack = []\<rparr>"
proof -
  have "ts_interp (fst (Twapi_TrapObjCmd demo_trap (trap_words ''trap'' ''fail'' [OnError ''cA.cx.'' ''h'']) demo_trap_state))
     = ''no integer''"
    using trap_pattern_errors [of demo_trap "''fail''" demo_trap_state "\<lparr>ts_interp = ''boom'', ts_stack = []\<rparr>" "''boom''"
        "[''A'', ''7'']" "''cA.cx.''" "''trap''" "''h''" "''f''" "''A''" "''7''" "''x''" "''no integer''"] demo_trap_laws(1)
    by (simp add: demo_trap_def demo_trap_state_def TCL_ERROR_def error_elements_def digit_def)
  moreover have "ts_stack (fst (Twapi_TrapObjCmd demo_trap (trap_words ''trap'' ''fail'' [OnError ''cA.cx.'' ''h'']) demo_trap_state)) = []"
    by (subst trap_correct [OF demo_trap_laws(1)])
       (simp_all add: trap_clauses_def demo_trap_def demo_trap_state_def TCL_ERROR_def
        error_elements_def digit_def trap_match_def run_finally_def trap_pop_def)
  ultimately show ?thesis by simp
qed

end
