(* ===== verification/Dirnotify.thy ===== *)
theory Dirnotify
  imports Prelude "HOL-Library.Word"
begin

text \<open>
  The notification buffer of a directory monitor (\<open>storage/dirmonitor.c\<close>): the walk of
  \<open>TwapiDirectoryMonitorCallbackFn\<close> over the \<open>FILE_NOTIFY_INFORMATION\<close> records that
  \<open>ReadDirectoryChangesW\<close> left, and the matching of file names against the monitor's patterns.

  The buffer is a list of bytes; a read outside of it has no result (\<open>None\<close>). A file name is
  a list of 16-bit units. Pointers are offsets in the buffer: they do not wrap around, as on a
  64-bit system. \<open>Tcl_UniCharCaseMatch\<close> is a parameter.
\<close>

section \<open>Reading\<close>

type_synonym byte = "8 word"
type_synonym wchar = "16 word"

definition get8 :: "byte list \<Rightarrow> nat \<Rightarrow> byte option" where
  "get8 buf i = (if i < length buf then Some (buf ! i) else None)"

definition get32 :: "byte list \<Rightarrow> nat \<Rightarrow> nat option" where
  "get32 buf i = do {
     a \<leftarrow> get8 buf i;
     b \<leftarrow> get8 buf (i + 1);
     c \<leftarrow> get8 buf (i + 2);
     d \<leftarrow> get8 buf (i + 3);
     Some (unat a + 256 * unat b + 65536 * unat c + 16777216 * unat d) }"

text \<open>\<open>n\<close> 16-bit units from offset \<open>i\<close> on.\<close>

fun get_wchars :: "byte list \<Rightarrow> nat \<Rightarrow> nat \<Rightarrow> wchar list option" where
  "get_wchars buf i 0 = Some []"
| "get_wchars buf i (Suc n) = do {
     a \<leftarrow> get8 buf i;
     b \<leftarrow> get8 buf (i + 1);
     cs \<leftarrow> get_wchars buf (i + 2) n;
     Some ((ucast a + 256 * ucast b) # cs) }"

section \<open>Patterns\<close>

text \<open>The code of \<open>-\<close> and \<open>+\<close>.\<close>

definition WCHAR_MINUS :: wchar where "WCHAR_MINUS = 45"

definition WCHAR_PLUS :: wchar where "WCHAR_PLUS = 43"

definition TwapiDirectoryMonitorPatternMatch ::
    "(wchar list \<Rightarrow> wchar list \<Rightarrow> bool) \<Rightarrow> wchar list \<Rightarrow> wchar list \<Rightarrow> int" where
  "TwapiDirectoryMonitorPatternMatch casematch path pattern =
     (let (include, pat) = (case pattern of
          [] \<Rightarrow> (1, [])
        | p # ps \<Rightarrow> if p = WCHAR_MINUS then (- 1, ps) else if p = WCHAR_PLUS then (1, ps) else (1, p # ps))
      in if casematch path pat then include else 0)"

text \<open>The loop over the patterns, and the test before it.\<close>

fun patterns_match :: "(wchar list \<Rightarrow> wchar list \<Rightarrow> bool) \<Rightarrow> wchar list list \<Rightarrow> wchar list \<Rightarrow> bool" where
  "patterns_match casematch [] path = False"
| "patterns_match casematch (p # ps) path =
     (let matched = TwapiDirectoryMonitorPatternMatch casematch path p
      in if matched \<noteq> 0 then 0 < matched else patterns_match casematch ps path)"

definition name_matches :: "(wchar list \<Rightarrow> wchar list \<Rightarrow> bool) \<Rightarrow> wchar list list \<Rightarrow> wchar list \<Rightarrow> bool" where
  "name_matches casematch ps path = (if ps = [] then True else patterns_match casematch ps path)"

section \<open>The walk\<close>

definition action_name :: "nat \<Rightarrow> string" where
  "action_name a = (if a = 1 then ''added'' else if a = 2 then ''removed'' else if a = 3 then ''modified''
     else if a = 4 then ''renameold'' else if a = 5 then ''renamenew'' else ''unknown'')"

text \<open>
  The loop at record \<open>fni\<close> of a buffer whose notifications end at \<open>endP\<close>. The file name is at
  offset 12 of a record. The result: the changes in order.
\<close>

function notify_walk :: "(wchar list \<Rightarrow> bool) \<Rightarrow> byte list \<Rightarrow> nat \<Rightarrow> nat \<Rightarrow>
    (string \<times> wchar list) list \<Rightarrow> (string \<times> wchar list) list option" where
  "notify_walk matches buf endP fni changes =
     (if \<not> int endP - 12 > int fni then Some changes
      else do {
        FileNameLength \<leftarrow> get32 buf (fni + 8);
        if FileNameLength = 0 \<or> FileNameLength mod 2 = 1 then Some changes
        else if FileNameLength + (fni + 12) > endP then Some changes
        else do {
          name \<leftarrow> get_wchars buf (fni + 12) (FileNameLength div 2);
          changes' \<leftarrow> (if matches name
            then do { Action \<leftarrow> get32 buf (fni + 4); Some (changes @ [(action_name Action, name)]) }
            else Some changes);
          NextEntryOffset \<leftarrow> get32 buf fni;
          if NextEntryOffset = 0 then Some changes'
          else notify_walk matches buf endP (NextEntryOffset + fni) changes' } })"
  by pat_completeness auto
termination
  by (relation "measure (\<lambda>(matches, buf, endP, fni, changes). endP - fni)") (auto split: if_splits)

declare notify_walk.simps [simp del]

text \<open>The whole of a buffer in which the system has written \<open>InternalHigh\<close> bytes.\<close>

definition notifications ::
    "(wchar list \<Rightarrow> wchar list \<Rightarrow> bool) \<Rightarrow> wchar list list \<Rightarrow> byte list \<Rightarrow> nat \<Rightarrow>
     (string \<times> wchar list) list option" where
  "notifications casematch ps buf InternalHigh =
     notify_walk (name_matches casematch ps) buf InternalHigh 0 []"

section \<open>Reads stay inside the buffer\<close>

lemma get8_in: "i < length buf \<Longrightarrow> get8 buf i = Some (buf ! i)"
  by (simp add: get8_def)

lemma get32_in: "i + 4 \<le> length buf \<Longrightarrow> \<exists>v. get32 buf i = Some v"
  by (simp add: get32_def get8_in)

lemma get_wchars_in: "i + 2 * n \<le> length buf \<Longrightarrow> \<exists>cs. get_wchars buf i n = Some cs \<and> length cs = n"
proof (induction n arbitrary: i)
  case (Suc n)
  then obtain cs where "get_wchars buf (i + 2) n = Some cs \<and> length cs = n" by fastforce
  with Suc.prems show ?case by (simp add: get8_in)
qed simp

lemma walk_in_bounds:
  "endP \<le> length buf \<Longrightarrow> \<exists>r. notify_walk matches buf endP fni changes = Some (changes @ r) \<and>
     length r \<le> endP - fni \<and> (\<forall>(a, name) \<in> set r. matches name \<and> name \<noteq> [])"
proof (induction matches buf endP fni changes rule: notify_walk.induct)
  case (1 matches buf endP fni changes)
  show ?case
  proof (cases "int endP - 12 > int fni")
    case False
    then show ?thesis by (subst notify_walk.simps) simp
  next
    case in_range: True
    then have b: "fni + 12 < endP" by linarith
    obtain len where len: "get32 buf (fni + 8) = Some len" using get32_in [of "fni + 8" buf] b "1.prems" by auto
    show ?thesis
    proof (cases "len = 0 \<or> len mod 2 = 1 \<or> len + (fni + 12) > endP")
      case True
      with in_range len show ?thesis by (subst notify_walk.simps) auto
    next
      case False
      then have len2: "2 * (len div 2) = len" "0 < len div 2" by presburger+
      obtain name where name: "get_wchars buf (fni + 12) (len div 2) = Some name" "length name = len div 2"
        using get_wchars_in [of "fni + 12" "len div 2" buf] False "1.prems" len2 by auto
      obtain act where act: "get32 buf (fni + 4) = Some act" using get32_in [of "fni + 4" buf] b "1.prems" by auto
      obtain nx where nx: "get32 buf fni = Some nx" using get32_in [of fni buf] b "1.prems" by auto
      define new where "new = (if matches name then [(action_name act, name)] else [])"
      have new: "length new \<le> 1" "\<forall>(a, name) \<in> set new. matches name \<and> name \<noteq> []"
        using name(2) len2 by (auto simp: new_def)
      have changes': "(if matches name then do { Action \<leftarrow> get32 buf (fni + 4); Some (changes @ [(action_name Action, name)]) }
          else Some changes) = Some (changes @ new)" by (simp add: act new_def)
      have step: "notify_walk matches buf endP fni changes = (if nx = 0 then Some (changes @ new)
          else notify_walk matches buf endP (nx + fni) (changes @ new))"
        using in_range len False name(1) nx changes' by (subst notify_walk.simps) simp
      show ?thesis
      proof (cases "nx = 0")
        case True
        with step new b show ?thesis by (intro exI [of _ new]) auto
      next
        case nz: False
        have "\<exists>r. notify_walk matches buf endP (nx + fni) (changes @ new) = Some ((changes @ new) @ r) \<and>
            length r \<le> endP - (nx + fni) \<and> (\<forall>(a, name) \<in> set r. matches name \<and> name \<noteq> [])"
          using "1.IH" [of len name "changes @ new" nx] in_range len False name(1) changes' nx nz "1.prems" by simp
        then obtain r where r: "notify_walk matches buf endP (nx + fni) (changes @ new) = Some ((changes @ new) @ r)"
          "length r \<le> endP - (nx + fni)" "\<forall>(a, name) \<in> set r. matches name \<and> name \<noteq> []" by blast
        with step nz new b show ?thesis by (intro exI [of _ "new @ r"]) auto
      qed
    qed
  qed
qed

end
