(* ===== verification/Dirnotify_Props.thy ===== *)
theory Dirnotify_Props
  imports Dirnotify
begin

text \<open>Properties of the notification buffer: bounds, what is read back, and the patterns.\<close>

section \<open>Writing\<close>

text \<open>
  What the system writes: each record with the distance to the next one, its action, the
  length of its name in bytes and the name, and some padding.
\<close>

definition put32 :: "nat \<Rightarrow> byte list" where
  "put32 n = [of_nat n, of_nat (n div 256), of_nat (n div 65536), of_nat (n div 16777216)]"

fun put_wchars :: "wchar list \<Rightarrow> byte list" where
  "put_wchars [] = []"
| "put_wchars (c # cs) = ucast c # ucast (drop_bit 8 c) # put_wchars cs"

definition notify_record :: "nat \<Rightarrow> nat \<Rightarrow> nat \<Rightarrow> wchar list \<Rightarrow> byte list" where
  "notify_record next_entry pad a name =
     put32 next_entry @ put32 a @ put32 (2 * length name) @ put_wchars name @ replicate pad 0"

fun notify_encode :: "(nat \<times> nat \<times> wchar list) list \<Rightarrow> byte list" where
  "notify_encode [] = []"
| "notify_encode [(pad, a, name)] = notify_record 0 pad a name"
| "notify_encode ((pad, a, name) # e # es) =
     notify_record (12 + 2 * length name + pad) pad a name @ notify_encode (e # es)"

definition entry_ok :: "nat \<times> nat \<times> wchar list \<Rightarrow> bool" where
  "entry_ok = (\<lambda>(pad, a, name). name \<noteq> [] \<and> a < 2 ^ 32 \<and> 12 + 2 * length name + pad < 2 ^ 32)"

section \<open>Reading back\<close>

lemma length_put_wchars [simp]: "length (put_wchars cs) = 2 * length cs"
  by (induction cs) auto

lemma length_put32 [simp]: "length (put32 n) = 4"
  by (simp add: put32_def)

lemma get8_skip [simp]: "get8 (xs @ ys) (length xs + i) = get8 ys i"
  by (simp add: get8_def)

lemma get8_skip_Suc: "get8 (xs @ ys) (Suc (length xs + i)) = get8 ys (Suc i)"
  using get8_skip [of xs ys "Suc i"] by simp

lemma get32_skip: "get32 (xs @ ys) (length xs + i) = get32 ys i"
  using get8_skip [of xs ys "i + 2"] get8_skip [of xs ys "i + 3"]
  by (simp add: get32_def get8_skip_Suc add.assoc)

lemma get_wchars_skip: "get_wchars (xs @ ys) (length xs + i) n = get_wchars ys i n"
proof (induction n arbitrary: i)
  case (Suc n)
  from Suc.IH [of "i + 2"] show ?case by (simp add: get8_skip_Suc)
qed simp

lemma bytes_of_nat:
  fixes n :: nat
  assumes "n < 2 ^ 32"
  shows "n mod 256 + 256 * (n div 256 mod 256) + 65536 * (n div 65536 mod 256) + 16777216 * (n div 16777216 mod 256) = n"
proof -
  define m where "m = n div 256"
  define k where "k = m div 256"
  define j where "j = k div 256"
  have d: "n div 65536 = k" "n div 16777216 = j" by (simp_all add: m_def k_def j_def flip: div_mult2_eq)
  have "j mod 256 = j" using assms by (simp add: j_def k_def m_def flip: div_mult2_eq)
  moreover have "n = 256 * m + n mod 256" "m = 256 * k + m mod 256" "k = 256 * j + k mod 256"
    by (simp_all add: m_def k_def j_def)
  ultimately show ?thesis unfolding d m_def [symmetric] by linarith
qed

lemma get32_put32: "n < 2 ^ 32 \<Longrightarrow> get32 (put32 n @ ys) 0 = Some n"
  using bytes_of_nat [of n] by (simp add: get32_def put32_def get8_def unat_of_nat)

lemma word_halves: "ucast (ucast c :: byte) + 256 * ucast (ucast (drop_bit 8 c) :: byte) = (c :: wchar)"
proof (rule unsigned_word_eqI [where 'a = nat])
  have "unat c < 65536" using unsigned_less [of c] by simp
  then have h: "unat c div 256 < 256" by simp
  have "unat (ucast (ucast c :: byte) + 256 * ucast (ucast (drop_bit 8 c) :: byte) :: wchar) =
      (unat c mod 256 + 256 * (unat c div 256)) mod 65536"
    using h by (simp add: unat_word_ariths unsigned_ucast_eq take_bit_eq_mod unsigned_drop_bit_eq drop_bit_eq_div)
  also have "\<dots> = unat c" using \<open>unat c < 65536\<close> by simp
  finally show "unat (ucast (ucast c :: byte) + 256 * ucast (ucast (drop_bit 8 c) :: byte) :: wchar) = unat c" .
qed

lemma get_wchars_put: "get_wchars (put_wchars cs @ ys) 0 (length cs) = Some cs"
proof (induction cs)
  case (Cons c cs)
  have "get_wchars ((ucast c # ucast (drop_bit 8 c) # put_wchars cs) @ ys) 2 (length cs) = Some cs"
    using get_wchars_skip [of "[ucast c, ucast (drop_bit 8 c)]" "put_wchars cs @ ys" 0 "length cs"] Cons
    by (simp add: numeral_2_eq_2)
  then show ?case by (simp add: get8_def word_halves numeral_2_eq_2)
qed simp

lemma get32_at: "n < 2 ^ 32 \<Longrightarrow> i = length xs \<Longrightarrow> get32 (xs @ put32 n @ ys) i = Some n"
  using get32_skip [of xs "put32 n @ ys" 0] get32_put32 [of n ys] by simp

lemma get_wchars_at: "i = length xs \<Longrightarrow> n = length cs \<Longrightarrow> get_wchars (xs @ put_wchars cs @ ys) i n = Some cs"
  using get_wchars_skip [of xs "put_wchars cs @ ys" 0 n] get_wchars_put [of cs ys] by simp

lemma length_record [simp]: "length (notify_record nx pad a name) = 12 + 2 * length name + pad"
  by (simp add: notify_record_def)

lemma read_record:
  fixes pre rest :: "byte list" and pad :: nat
  assumes "nx < 2 ^ 32" "a < 2 ^ 32" "2 * length name < 2 ^ 32"
  defines "buf \<equiv> pre @ notify_record nx pad a name @ rest"
  shows "get32 buf (length pre) = Some nx" "get32 buf (length pre + 4) = Some a"
    "get32 buf (length pre + 8) = Some (2 * length name)"
    "get_wchars buf (length pre + 12) (length name) = Some name"
proof -
  let ?tl = "replicate pad 0 @ rest"
  show "get32 buf (length pre) = Some nx"
    using get32_at [OF assms(1) refl, of pre] by (simp add: buf_def notify_record_def)
  show "get32 buf (length pre + 4) = Some a"
    using get32_at [OF assms(2), of "length pre + 4" "pre @ put32 nx"] by (simp add: buf_def notify_record_def)
  show "get32 buf (length pre + 8) = Some (2 * length name)"
    using get32_at [OF assms(3), of "length pre + 8" "pre @ put32 nx @ put32 a"] by (simp add: buf_def notify_record_def)
  show "get_wchars buf (length pre + 12) (length name) = Some name"
    using get_wchars_at [of "length pre + 12" "pre @ put32 nx @ put32 a @ put32 (2 * length name)" "length name" name ?tl]
    by (simp add: buf_def notify_record_def)
qed

text \<open>One step of the walk, at a record of the encoding.\<close>

lemma walk_record:
  assumes "nx < 2 ^ 32" "a < 2 ^ 32" "2 * length name < 2 ^ 32" "name \<noteq> []"
    and "endP = length pre + 12 + 2 * length name + pad + length rest"
  shows "notify_walk matches (pre @ notify_record nx pad a name @ rest) endP (length pre) changes =
    (let changes' = changes @ (if matches name then [(action_name a, name)] else [])
     in if nx = 0 then Some changes'
        else notify_walk matches (pre @ notify_record nx pad a name @ rest) endP (nx + length pre) changes')"
proof -
  have "0 < length name" using assms(4) by simp
  then have "int (length pre) < int endP - 12" using assms(5) by linarith
  with assms(4,5) read_record [OF assms(1-3), of pre pad rest] show ?thesis
    by (subst notify_walk.simps) (auto simp: Let_def)
qed

definition changes_of :: "(wchar list \<Rightarrow> bool) \<Rightarrow> (nat \<times> nat \<times> wchar list) list \<Rightarrow> (string \<times> wchar list) list" where
  "changes_of matches es = map (\<lambda>(pad, a, name). (action_name a, name)) (filter (\<lambda>(pad, a, name). matches name) es)"

lemma walk_encode:
  "\<forall>e \<in> set es. entry_ok e \<Longrightarrow> es \<noteq> [] \<Longrightarrow>
   notify_walk matches (pre @ notify_encode es) (length pre + length (notify_encode es)) (length pre) changes =
     Some (changes @ changes_of matches es)"
proof (induction es arbitrary: pre changes rule: notify_encode.induct)
  case (2 pad a name)
  then show ?case
    using walk_record [of 0 a name "length pre + length (notify_encode [(pad, a, name)])" pre pad "[]" matches changes]
    by (auto simp: entry_ok_def changes_of_def)
next
  case (3 pad a name e es)
  let ?nx = "12 + 2 * length name + pad"
  let ?R = "notify_record ?nx pad a name"
  have "\<forall>e \<in> set (e # es). entry_ok e" using "3.prems" by simp
  from "3.IH" [OF this, of "pre @ ?R" "changes @ (if matches name then [(action_name a, name)] else [])"]
  have "notify_walk matches (pre @ ?R @ notify_encode (e # es))
      (length pre + ?nx + length (notify_encode (e # es))) (?nx + length pre)
      (changes @ (if matches name then [(action_name a, name)] else [])) =
    Some (changes @ changes_of matches ((pad, a, name) # e # es))"
    by (simp add: add.commute add.left_commute changes_of_def)
  with "3.prems" show ?case
    using walk_record [of ?nx a name "length pre + ?nx + length (notify_encode (e # es))" pre pad "notify_encode (e # es)" matches changes]
    by (simp add: entry_ok_def add.commute add.left_commute)
qed simp

section \<open>Patterns\<close>

fun pattern_body :: "wchar list \<Rightarrow> wchar list" where
  "pattern_body [] = []"
| "pattern_body (c # cs) = (if c = WCHAR_MINUS \<or> c = WCHAR_PLUS then cs else c # cs)"

definition excluding :: "wchar list \<Rightarrow> bool" where
  "excluding p \<longleftrightarrow> take 1 p = [WCHAR_MINUS]"

lemma pattern_result: "TwapiDirectoryMonitorPatternMatch casematch path p =
    (if casematch path (pattern_body p) then if excluding p then - 1 else 1 else 0)"
  by (cases p) (auto simp: TwapiDirectoryMonitorPatternMatch_def excluding_def WCHAR_MINUS_def WCHAR_PLUS_def)

lemma patterns_match_find:
  "patterns_match casematch ps path =
     (case find (\<lambda>p. casematch path (pattern_body p)) ps of None \<Rightarrow> False | Some p \<Rightarrow> \<not> excluding p)"
  by (induction ps) (simp_all add: pattern_result)

lemma patterns_match_iff:
  "patterns_match casematch ps path \<longleftrightarrow> (\<exists>i < length ps. casematch path (pattern_body (ps ! i)) \<and>
     \<not> excluding (ps ! i) \<and> (\<forall>j < i. \<not> casematch path (pattern_body (ps ! j))))"
proof (cases "find (\<lambda>p. casematch path (pattern_body p)) ps")
  case None
  then have "\<forall>p \<in> set ps. \<not> casematch path (pattern_body p)" by (simp add: find_None_conv)
  with None show ?thesis by (auto simp: patterns_match_find)
next
  case (Some p)
  then obtain i where i: "i < length ps" "casematch path (pattern_body (ps ! i))" "p = ps ! i"
    "\<forall>j < i. \<not> casematch path (pattern_body (ps ! j))"
    by (auto simp: find_Some_iff)
  have u: "i' = i" if "casematch path (pattern_body (ps ! i'))" "\<forall>j < i'. \<not> casematch path (pattern_body (ps ! j))" for i'
    using that i(2,4) by (meson linorder_neqE_nat)
  have "patterns_match casematch ps path \<longleftrightarrow> \<not> excluding (ps ! i)" using Some i(3) by (simp add: patterns_match_find)
  with i(1,2,4) u show ?thesis by metis
qed

section \<open>Properties\<close>

text \<open>
  C20. The walk never reads outside of the buffer and always ends, whatever the system (or a broken
  driver) left in it: it has a result for any bytes, provided no more than the buffer was
  filled, with at most one change per byte, each of a file whose non-empty name matches.
\<close>

theorem notifications_in_bounds:
  assumes "InternalHigh \<le> length buf"
  shows "\<exists>changes. notifications casematch ps buf InternalHigh = Some changes \<and>
    length changes \<le> InternalHigh \<and> (\<forall>(a, name) \<in> set changes. name_matches casematch ps name \<and> name \<noteq> [])"
  using walk_in_bounds [OF assms, of "name_matches casematch ps" 0 "[]"] by (simp add: notifications_def)

theorem notifications_in_bounds_witness:
  "\<exists>changes. notifications (=) [] (replicate 20 255) 20 = Some changes \<and> length changes \<le> 20"
  using notifications_in_bounds [of 20 "replicate 20 255" "(=)" "[]"] by auto

text \<open>
  The changes the system wrote are read back: in their order, with the names of their actions,
  without those whose names do not match the patterns, whatever the padding between the records.
\<close>

theorem notifications_roundtrip:
  assumes "es \<noteq> []" "\<forall>(pad, a, name) \<in> set es. name \<noteq> [] \<and> a < 2 ^ 32 \<and> 12 + 2 * length name + pad < 2 ^ 32"
  shows "notifications casematch ps (notify_encode es) (length (notify_encode es)) =
    Some (map (\<lambda>(pad, a, name). (action_name a, name)) (filter (\<lambda>(pad, a, name). name_matches casematch ps name) es))"
proof -
  have "\<forall>e \<in> set es. entry_ok e" using assms(2) by (simp add: entry_ok_def)
  from walk_encode [OF this assms(1), of "name_matches casematch ps" "[]" "[]"] show ?thesis
    by (simp add: notifications_def changes_of_def)
qed

theorem notifications_roundtrip_witness:
  "notifications (=) [[45, 98], [97]] (notify_encode [(2, 1, [97]), (0, 3, [98]), (1, 9, [97])])
     (length (notify_encode [(2, 1, [97]), (0, 3, [98]), (1, 9, [97])])) = Some [(''added'', [97]), (''unknown'', [97])]"
  by (subst notifications_roundtrip)
     (simp_all add: name_matches_def TwapiDirectoryMonitorPatternMatch_def WCHAR_MINUS_def WCHAR_PLUS_def action_name_def)

text \<open>
  Patterns are tried in order and the first that matches the name decides: without patterns
  every name is reported, with patterns one whose first matching pattern is not an exclusion.
\<close>

theorem first_pattern_decides:
  "name_matches casematch ps path \<longleftrightarrow> ps = [] \<or> (\<exists>i < length ps. casematch path (pattern_body (ps ! i)) \<and>
     \<not> excluding (ps ! i) \<and> (\<forall>j < i. \<not> casematch path (pattern_body (ps ! j))))"
  by (simp add: name_matches_def patterns_match_iff)

theorem first_pattern_decides_witness:
  "\<not> name_matches (=) [[98], [45, 97], [43, 97]] [97]"
  unfolding first_pattern_decides
  by (auto simp: less_Suc_eq WCHAR_MINUS_def WCHAR_PLUS_def excluding_def)

end
