(* ===== verification/Dirmon.thy ===== *)
theory Dirmon
  imports Contexts_Cleanup Dirnotify
begin

text \<open>
  Directory change monitors (\<open>storage/dirmonitor.c\<close>, with the clean-up of the module in
  \<open>storage/storage.c\<close>).

  A monitor is on the list of its context and known to the thread pool, with one reference
  each, and every notification that the pool queues for the interpreter's thread holds one
  more. Monitors, read buffers and callbacks are objects of a heap, and the code frees
  them: an access to a freed object has no result (\<open>None\<close>). \<open>dw_lists\<close> is the list that
  the context's \<open>module.data\<close> points to, if it is there. The system calls are parameters:
  their results, or the error codes they leave. Callbacks are enqueued without waiting;
  \<open>Async\<close> models the queue itself, here a queued callback is its entry in \<open>dw_queue\<close> and
  the reference on its context.
\<close>

section \<open>State\<close>

record dmon =
  dm_tic :: "tid option"
  dm_dir :: int
  dm_pool :: int
  dm_event :: "int option"
  dm_nrefs :: int
  dm_iob :: "nat option"
  dm_path :: "wchar list"
  dm_filter :: nat
  dm_subtree :: bool
  dm_patterns :: "wchar list list"

record iob =
  iob_event :: "int option"
  iob_high :: nat
  iob_buf :: "byte list"

record notif =
  nt_id :: nat
  nt_tic :: tid
  nt_dm :: nat
  nt_iob :: "nat option"
  nt_winerr :: nat

record dirw =
  dw_proc :: proc
  dw_dms :: "nat \<rightharpoonup> dmon"
  dw_links :: "nat links"
  dw_lists :: "tid \<rightharpoonup> nat zlist"
  dw_iobs :: "nat \<rightharpoonup> iob"
  dw_next :: nat
  dw_queue :: "notif list"
  dw_handling :: "tid list"
  dw_open :: "int list"
  dw_freed :: "nat list"

definition upd_dm :: "nat \<Rightarrow> dmon \<Rightarrow> dirw \<Rightarrow> dirw" where
  "upd_dm m d w = w\<lparr>dw_dms := (dw_dms w)(m \<mapsto> d)\<rparr>"

definition CloseHandle :: "int \<Rightarrow> dirw \<Rightarrow> dirw" where
  "CloseHandle h w = w\<lparr>dw_open := remove1 h (dw_open w)\<rparr>"

definition free_iob :: "nat \<Rightarrow> dirw \<Rightarrow> dirw option" where
  "free_iob b w = (case dw_iobs w b of None \<Rightarrow> None | Some _ \<Rightarrow> Some (w\<lparr>dw_iobs := (dw_iobs w)(b := None)\<rparr>))"

section \<open>Monitors\<close>

definition MAXPATTERNS :: nat where "MAXPATTERNS = 32"

text \<open>More patterns than the limit are a panic.\<close>

definition TwapiDirectoryMonitorContextNew ::
    "wchar list \<Rightarrow> bool \<Rightarrow> nat \<Rightarrow> wchar list list \<Rightarrow> dirw \<Rightarrow> (dirw \<times> nat) option" where
  "TwapiDirectoryMonitorContextNew path include_subtree flt patterns w =
     (if length patterns > MAXPATTERNS then None
      else let m = dw_next w;
               d = \<lparr>dm_tic = None, dm_dir = INVALID_HANDLE_VALUE, dm_pool = INVALID_HANDLE_VALUE,
                    dm_event = None, dm_nrefs = 0, dm_iob = None, dm_path = path, dm_filter = flt,
                    dm_subtree = include_subtree, dm_patterns = patterns\<rparr>
           in Some (w\<lparr>dw_dms := (dw_dms w)(m \<mapsto> d), dw_links := ZLINK_INIT m (dw_links w),
                      dw_next := Suc m\<rparr>, m))"

definition TwapiDirectoryMonitorContextDelete :: "nat \<Rightarrow> dirw \<Rightarrow> dirw option" where
  "TwapiDirectoryMonitorContextDelete m w = do {
     d \<leftarrow> dw_dms w m;
     w1 \<leftarrow> (case dm_iob d of None \<Rightarrow> Some w | Some b \<Rightarrow> free_iob b w);
     Some (w1\<lparr>dw_dms := (dw_dms w1)(m := None), dw_freed := m # dw_freed w1\<rparr>) }"

definition TwapiDirectoryMonitorContextRef :: "nat \<Rightarrow> int \<Rightarrow> dirw \<Rightarrow> dirw option" where
  "TwapiDirectoryMonitorContextRef m n w = do {
     d \<leftarrow> dw_dms w m;
     Some (upd_dm m (d\<lparr>dm_nrefs := fst (ExchangeAdd (dm_nrefs d) n)\<rparr>) w) }"

definition TwapiDirectoryMonitorContextUnref :: "nat \<Rightarrow> int \<Rightarrow> dirw \<Rightarrow> dirw option" where
  "TwapiDirectoryMonitorContextUnref m decr w = do {
     d \<leftarrow> dw_dms w m;
     let (n, old) = ExchangeAdd (dm_nrefs d) (- decr);
     let w1 = upd_dm m (d\<lparr>dm_nrefs := n\<rparr>) w;
     if old \<le> decr then TwapiDirectoryMonitorContextDelete m w1 else Some w1 }"

text \<open>\<open>err\<close>: the error of \<open>ReadDirectoryChangesW\<close>, 0 for none.\<close>

definition DIRMON_BUFSZ :: nat where "DIRMON_BUFSZ = 8000"

definition ERROR_IO_PENDING :: nat where "ERROR_IO_PENDING = 997"

definition TwapiDirectoryMonitorInitiateRead :: "nat \<Rightarrow> nat \<Rightarrow> dirw \<Rightarrow> (dirw \<times> nat) option" where
  "TwapiDirectoryMonitorInitiateRead m err w = do {
     d \<leftarrow> dw_dms w m;
     let (w1, b) = (case dm_iob d of
         None \<Rightarrow> (let b = dw_next w
                  in (w\<lparr>dw_dms := (dw_dms w)(m \<mapsto> d\<lparr>dm_iob := Some b\<rparr>), dw_next := Suc b,
                        dw_iobs := (dw_iobs w)(b \<mapsto> \<lparr>iob_event = None, iob_high = 0,
                           iob_buf = replicate DIRMON_BUFSZ 0\<rparr>)\<rparr>, b))
       | Some b \<Rightarrow> (w, b));
     x \<leftarrow> dw_iobs w1 b;
     let w2 = w1\<lparr>dw_iobs := (dw_iobs w1)(b \<mapsto> x\<lparr>iob_high := 0, iob_event := dm_event d\<rparr>)\<rparr>;
     if err = 0 then Some (w2, 0)
     else if err = ERROR_IO_PENDING then Some (w2, 0)
     else do {
       w3 \<leftarrow> free_iob b w2;
       Some (upd_dm m (d\<lparr>dm_iob := None\<rparr>) w3, err) } }"

section \<open>Shutting down\<close>

definition dm_list :: "nat zlist \<Rightarrow> dirw \<Rightarrow> nat zstate" where
  "dm_list l w = (dw_links w, l)"

definition set_dm_list :: "tid \<Rightarrow> nat zstate \<Rightarrow> dirw \<Rightarrow> dirw" where
  "set_dm_list c z w = w\<lparr>dw_links := fst z, dw_lists := (dw_lists w)(c \<mapsto> snd z)\<rparr>"

text \<open>The third part of the shutdown closes the handles.\<close>

definition close_monitor :: "nat \<Rightarrow> dirw \<Rightarrow> dirw option" where
  "close_monitor m w = do {
     d \<leftarrow> dw_dms w m;
     let (d1, w1) = (if dm_dir d \<noteq> INVALID_HANDLE_VALUE
         then (d\<lparr>dm_dir := INVALID_HANDLE_VALUE\<rparr>,
               upd_dm m (d\<lparr>dm_dir := INVALID_HANDLE_VALUE\<rparr>) (CloseHandle (dm_dir d) w))
         else (d, w));
     (case dm_event d1 of
        None \<Rightarrow> Some w1
      | Some e \<Rightarrow> (case dm_iob d1 of
            None \<Rightarrow> Some w1
          | Some b \<Rightarrow> do {
              x \<leftarrow> dw_iobs w1 b;
              if iob_event x \<noteq> None
              then Some (upd_dm m (d1\<lparr>dm_event := None\<rparr>)
                    ((CloseHandle e w1)\<lparr>dw_iobs := (dw_iobs w1)(b \<mapsto> x\<lparr>iob_event := None\<rparr>)\<rparr>))
              else Some w1 })) }"

definition TwapiShutdownDirectoryMonitor :: "thread \<Rightarrow> nat \<Rightarrow> dirw \<Rightarrow> dirw option" where
  "TwapiShutdownDirectoryMonitor cur m w = do {
     d \<leftarrow> dw_dms w m;
     let (d1, unrefs) = (if dm_pool d \<noteq> INVALID_HANDLE_VALUE
                         then (d\<lparr>dm_pool := INVALID_HANDLE_VALUE\<rparr>, 1) else (d, 0));
     let w1 = upd_dm m d1 w;
     (unrefs2, w2) \<leftarrow> (case dm_tic d1 of
         None \<Rightarrow> Some (unrefs, w1)
       | Some c \<Rightarrow> do {
           _ \<leftarrow> p_tics (dw_proc w1) c;
           (case dw_lists w1 c of
              None \<Rightarrow> Some (unrefs, w1)
            | Some l \<Rightarrow> Some (unrefs + 1,
                upd_dm m (d1\<lparr>dm_tic := None\<rparr>) (set_dm_list c (ZLIST_REMOVE m (dm_list l w1)) w1))) });
     w4 \<leftarrow> close_monitor m w2;
     w5 \<leftarrow> (case dm_tic d1 of
         None \<Rightarrow> Some w4
       | Some c \<Rightarrow> do {
           p \<leftarrow> TwapiInterpContextUnref cur c 1 (dw_proc w4);
           Some (w4\<lparr>dw_proc := p\<rparr>) });
     if unrefs2 \<noteq> 0 then TwapiDirectoryMonitorContextUnref m unrefs2 w5 else Some w5 }"

section \<open>Registering\<close>

text \<open>
  \<open>dir\<close>, \<open>event\<close> and \<open>pool\<close>: the handles that \<open>CreateFileW\<close>, \<open>CreateEvent\<close> and
  \<open>RegisterWaitForSingleObject\<close> give, or the error code; \<open>left\<close> is what the last one leaves in
  the monitor's handle when it fails.
\<close>

definition Twapi_RegisterDirectoryMonitorObjCmd ::
    "thread \<Rightarrow> tid \<Rightarrow> wchar list \<Rightarrow> bool \<Rightarrow> nat \<Rightarrow> wchar list list \<Rightarrow> nat + int \<Rightarrow> nat + int \<Rightarrow> nat \<Rightarrow>
     nat + int \<Rightarrow> int \<Rightarrow> dirw \<Rightarrow> (dirw \<times> (nat + int)) option" where
  "Twapi_RegisterDirectoryMonitorObjCmd cur c path include_subtree flt patterns dir event read_err pool left w = do {
     (w0, m) \<leftarrow> TwapiDirectoryMonitorContextNew path include_subtree flt patterns w;
     d \<leftarrow> dw_dms w0 m;
     (case dir of
        Inl e \<Rightarrow> do { w' \<leftarrow> TwapiShutdownDirectoryMonitor cur m w0; Some (w', Inl e) }
      | Inr h \<Rightarrow>
        (let d1 = d\<lparr>dm_dir := h\<rparr>;
             w1 = upd_dm m d1 (w0\<lparr>dw_open := h # dw_open w0\<rparr>)
         in case event of
              Inl e \<Rightarrow> do { w' \<leftarrow> TwapiShutdownDirectoryMonitor cur m w1; Some (w', Inl e) }
            | Inr ev \<Rightarrow> do {
                let w2 = upd_dm m (d1\<lparr>dm_event := Some ev\<rparr>) (w1\<lparr>dw_open := ev # dw_open w1\<rparr>);
                (w3, winerr) \<leftarrow> TwapiDirectoryMonitorInitiateRead m read_err w2;
                if winerr \<noteq> 0
                then do { w' \<leftarrow> TwapiShutdownDirectoryMonitor cur m w3; Some (w', Inl winerr) }
                else do {
                  w4 \<leftarrow> TwapiDirectoryMonitorContextRef m 2 w3;
                  l \<leftarrow> dw_lists w4 c;
                  z \<leftarrow> ZLIST_PREPEND m (dm_list l w4);
                  let w5 = set_dm_list c z w4;
                  d5 \<leftarrow> dw_dms w5 m;
                  let w6 = upd_dm m (d5\<lparr>dm_tic := Some c\<rparr>) w5;
                  p \<leftarrow> TwapiInterpContextRef c 1 (dw_proc w6);
                  let w7 = w6\<lparr>dw_proc := p\<rparr>;
                  (case pool of
                     Inr tp \<Rightarrow> Some (upd_dm m (d5\<lparr>dm_tic := Some c, dm_pool := tp\<rparr>) w7, Inr (dm_dir d5))
                   | Inl e \<Rightarrow> do {
                       let w8 = upd_dm m (d5\<lparr>dm_tic := Some c, dm_pool := left\<rparr>) w7;
                       l8 \<leftarrow> dw_lists w8 c;
                       let w9 = set_dm_list c (ZLIST_REMOVE m (dm_list l8 w8)) w8;
                       w' \<leftarrow> TwapiShutdownDirectoryMonitor cur m w9;
                       Some (w', Inl e) }) } })) }"

definition dm_dir_of :: "dirw \<Rightarrow> nat \<Rightarrow> int option" where
  "dm_dir_of w m = map_option dm_dir (dw_dms w m)"

text \<open>The result: whether the handle was that of a monitor (otherwise \<open>TWAPI_UNKNOWN_OBJECT\<close>).\<close>

definition Twapi_UnregisterDirectoryMonitorObjCmd ::
    "thread \<Rightarrow> tid \<Rightarrow> int \<Rightarrow> dirw \<Rightarrow> (dirw \<times> bool) option" where
  "Twapi_UnregisterDirectoryMonitorObjCmd cur c dirhandle w = do {
     l \<leftarrow> dw_lists w c;
     f \<leftarrow> ZLIST_LOCATE (dm_dir_of w) (Some dirhandle) (dm_list l w);
     (case f of
        None \<Rightarrow> Some (w, False)
      | Some m \<Rightarrow> do { w' \<leftarrow> TwapiShutdownDirectoryMonitor cur m w; Some (w', True) }) }"

section \<open>Notifications\<close>

text \<open>\<open>TwapiCallbackNew\<close> and \<open>TwapiEnqueueCallback\<close>, which takes a reference on the context.\<close>

definition queue_note :: "nat \<Rightarrow> nat option \<Rightarrow> nat \<Rightarrow> dirw \<Rightarrow> dirw option" where
  "queue_note m b winerr w = do {
     d \<leftarrow> dw_dms w m;
     w1 \<leftarrow> TwapiDirectoryMonitorContextRef m 1 w;
     c \<leftarrow> dm_tic d;
     p \<leftarrow> TwapiInterpContextRef c 1 (dw_proc w1);
     Some (w1\<lparr>dw_proc := p, dw_next := Suc (dw_next w1),
              dw_queue := dw_queue w1 @ [\<lparr>nt_id = dw_next w1, nt_tic = c, nt_dm = m, nt_iob = b, nt_winerr = winerr\<rparr>]\<rparr>) }"

text \<open>
  The function the pool runs when the event is signalled. \<open>res\<close>: the error of
  \<open>GetOverlappedResult\<close>, or the number of bytes and the buffer that the system has filled.
\<close>

definition ERROR_IO_INCOMPLETE :: nat where "ERROR_IO_INCOMPLETE = 996"

definition pool_error :: "nat \<Rightarrow> nat \<Rightarrow> dirw \<Rightarrow> dirw option" where
  "pool_error m winerr w = do {
     d \<leftarrow> dw_dms w m;
     w1 \<leftarrow> (case dm_iob d of
         None \<Rightarrow> Some w
       | Some b \<Rightarrow> do { w' \<leftarrow> free_iob b w; Some (upd_dm m (d\<lparr>dm_iob := None\<rparr>) w') });
     queue_note m None winerr w1 }"

definition TwapiDirectoryMonitorThreadPoolFn ::
    "nat \<Rightarrow> bool \<Rightarrow> nat + nat \<times> byte list \<Rightarrow> nat \<Rightarrow> dirw \<Rightarrow> dirw option" where
  "TwapiDirectoryMonitorThreadPoolFn m timeout res read_err w =
     (if timeout then None
      else do {
        d \<leftarrow> dw_dms w m;
        b \<leftarrow> dm_iob d;
        x \<leftarrow> dw_iobs w b;
        (case res of
           Inl winerr \<Rightarrow> if winerr = ERROR_IO_INCOMPLETE then Some w else pool_error m winerr w
         | Inr (high, bytes) \<Rightarrow> do {
             let w1 = upd_dm m (d\<lparr>dm_iob := None\<rparr>)
                        (w\<lparr>dw_iobs := (dw_iobs w)(b \<mapsto> x\<lparr>iob_high := high, iob_buf := bytes, iob_event := None\<rparr>)\<rparr>);
             w2 \<leftarrow> queue_note m (Some b) 0 w1;
             (w3, winerr) \<leftarrow> TwapiDirectoryMonitorInitiateRead m read_err w2;
             if winerr \<noteq> 0 then pool_error m winerr w3 else Some w3 }) })"

text \<open>What the handler of the notification gives to the script.\<close>

datatype dm_report = DmDead | DmQuiet | DmError int nat | DmChanges int "(string \<times> wchar list) list"

definition TwapiDirectoryMonitorCallbackFn ::
    "thread \<Rightarrow> bool \<Rightarrow> (wchar list \<Rightarrow> wchar list \<Rightarrow> bool) \<Rightarrow> notif \<Rightarrow> dirw \<Rightarrow> (dirw \<times> dm_report) option" where
  "TwapiDirectoryMonitorCallbackFn cur deleted casematch n w = do {
     let m = nt_dm n;
     d \<leftarrow> dw_dms w m;
     dead \<leftarrow> (case dm_tic d of
         None \<Rightarrow> Some True
       | Some c \<Rightarrow> do { t \<leftarrow> p_tics (dw_proc w) c; Some (tic_interp t = None \<or> deleted) });
     if dead
     then do {
       w1 \<leftarrow> (case nt_iob n of None \<Rightarrow> Some w | Some b \<Rightarrow> free_iob b w);
       w2 \<leftarrow> (if dm_tic d \<noteq> None then TwapiShutdownDirectoryMonitor cur m w1 else Some w1);
       w3 \<leftarrow> TwapiDirectoryMonitorContextUnref m 1 w2;
       Some (w3, DmDead) }
     else do {
       report \<leftarrow>
         (if nt_winerr n \<noteq> 0 then Some (DmError (dm_dir d) (nt_winerr n))
          else do {
            b \<leftarrow> nt_iob n;
            x \<leftarrow> dw_iobs w b;
            ch \<leftarrow> notifications casematch (dm_patterns d) (iob_buf x) (iob_high x);
            Some (if ch = [] then DmQuiet else DmChanges (dm_dir d) ch) });
       w1 \<leftarrow> TwapiDirectoryMonitorContextUnref m 1 w;
       w2 \<leftarrow> (case nt_iob n of None \<Rightarrow> Some w1 | Some b \<Rightarrow> free_iob b w1);
       Some (w2, report) } }"

text \<open>The loop of the module's clean-up.\<close>

partial_function (option) shutdown_monitors :: "thread \<Rightarrow> tid \<Rightarrow> dirw \<Rightarrow> dirw option" where
  "shutdown_monitors cur c w = do {
     l \<leftarrow> dw_lists w c;
     if ZLIST_COUNT l \<noteq> 0
     then do {
       m \<leftarrow> zlist_head l;
       w' \<leftarrow> TwapiShutdownDirectoryMonitor cur m w;
       shutdown_monitors cur c w' }
     else Some w }"

definition TwapiStorageCleanup :: "thread \<Rightarrow> tid \<Rightarrow> dirw \<Rightarrow> dirw option" where
  "TwapiStorageCleanup cur c w = (case dw_lists w c of
      None \<Rightarrow> Some w
    | Some _ \<Rightarrow> do {
        w' \<leftarrow> shutdown_monitors cur c w;
        Some (w'\<lparr>dw_lists := (dw_lists w')(c := None)\<rparr>) })"

end
