(* ===== verification/Dirmon_Inv.thy ===== *)
theory Dirmon_Inv
  imports Dirmon Async_Inv
begin

text \<open>
  The invariant of the directory monitors: who holds the references of a monitor and of its
  context, which list a monitor is on, and who owns a read buffer. Each operation of
  \<open>Dirmon\<close> keeps it, and has a result in every state in which it holds.
\<close>

section \<open>Frames\<close>

lemma upd_dm_simps [simp]:
  "dw_dms (upd_dm m d w) = (dw_dms w)(m \<mapsto> d)" "dw_proc (upd_dm m d w) = dw_proc w"
  "dw_links (upd_dm m d w) = dw_links w" "dw_lists (upd_dm m d w) = dw_lists w"
  "dw_iobs (upd_dm m d w) = dw_iobs w" "dw_next (upd_dm m d w) = dw_next w"
  "dw_queue (upd_dm m d w) = dw_queue w" "dw_handling (upd_dm m d w) = dw_handling w"
  "dw_open (upd_dm m d w) = dw_open w" "dw_freed (upd_dm m d w) = dw_freed w"
  by (simp_all add: upd_dm_def)

lemma CloseHandle_simps [simp]:
  "dw_dms (CloseHandle h w) = dw_dms w" "dw_proc (CloseHandle h w) = dw_proc w"
  "dw_links (CloseHandle h w) = dw_links w" "dw_lists (CloseHandle h w) = dw_lists w"
  "dw_iobs (CloseHandle h w) = dw_iobs w" "dw_next (CloseHandle h w) = dw_next w"
  "dw_queue (CloseHandle h w) = dw_queue w" "dw_handling (CloseHandle h w) = dw_handling w"
  "dw_open (CloseHandle h w) = remove1 h (dw_open w)" "dw_freed (CloseHandle h w) = dw_freed w"
  by (simp_all add: CloseHandle_def)

lemma set_dm_list_simps [simp]:
  "dw_dms (set_dm_list c z w) = dw_dms w" "dw_proc (set_dm_list c z w) = dw_proc w"
  "dw_links (set_dm_list c z w) = fst z" "dw_lists (set_dm_list c z w) = (dw_lists w)(c \<mapsto> snd z)"
  "dw_iobs (set_dm_list c z w) = dw_iobs w" "dw_next (set_dm_list c z w) = dw_next w"
  "dw_queue (set_dm_list c z w) = dw_queue w" "dw_handling (set_dm_list c z w) = dw_handling w"
  "dw_open (set_dm_list c z w) = dw_open w" "dw_freed (set_dm_list c z w) = dw_freed w"
  by (simp_all add: set_dm_list_def)

section \<open>The invariant\<close>

text \<open>
  \<open>L c\<close> are the monitors on the list of context \<open>c\<close>. \<open>Q\<close> are the notifications that hold
  references: those in the queue and the one that is being handled. \<open>E\<close> are the references of
  monitors that running code holds.
\<close>

definition for_dm :: "notif list \<Rightarrow> nat \<Rightarrow> nat" where
  "for_dm Q m = length (filter (\<lambda>n. nt_dm n = m) Q)"

definition for_tic :: "notif list \<Rightarrow> tid \<Rightarrow> nat" where
  "for_tic Q c = length (filter (\<lambda>n. nt_tic n = c) Q)"

definition lists_ok :: "(tid \<Rightarrow> nat list) \<Rightarrow> dirw \<Rightarrow> bool" where
  "lists_ok L w \<longleftrightarrow> (\<forall>c. case dw_lists w c of None \<Rightarrow> L c = [] | Some l \<Rightarrow> zl_rep (dw_links w, l) (L c))"

definition dm_ok :: "(tid \<Rightarrow> nat list) \<Rightarrow> notif list \<Rightarrow> (nat \<Rightarrow> nat) \<Rightarrow> dirw \<Rightarrow> nat \<Rightarrow> bool" where
  "dm_ok L Q E w m \<longleftrightarrow> (case dw_dms w m of
      None \<Rightarrow> for_dm Q m + E m = 0 \<and> (\<forall>c. m \<notin> set (L c))
    | Some d \<Rightarrow> (\<forall>c. m \<in> set (L c) \<longleftrightarrow> dm_tic d = Some c) \<and>
        (dm_pool d \<noteq> INVALID_HANDLE_VALUE \<longleftrightarrow> dm_tic d \<noteq> None) \<and>
        dm_nrefs d = (if dm_tic d = None then 0 else 2) + int (for_dm Q m + E m) \<and>
        m < dw_next w \<and> m \<notin> set (dw_freed w))"

text \<open>The references on a context.\<close>

definition tic_refs :: "(tid \<Rightarrow> nat list) \<Rightarrow> notif list \<Rightarrow> dirw \<Rightarrow> tid \<Rightarrow> nat" where
  "tic_refs L Q w c = length (L c) + for_tic Q c + count_list (dw_handling w) c"

definition tic_ok :: "(tid \<Rightarrow> nat list) \<Rightarrow> notif list \<Rightarrow> dirw \<Rightarrow> tid \<Rightarrow> bool" where
  "tic_ok L Q w c \<longleftrightarrow> (case p_tics (dw_proc w) c of
      None \<Rightarrow> tic_refs L Q w c = 0 | Some t \<Rightarrow> ctx_good t (tic_refs L Q w c))"

text \<open>Each buffer has one owner: a monitor, a notification, or the code that handles it (\<open>T\<close>).\<close>

datatype owner = OMon nat | ONote nat | OCode

fun holds :: "notif list \<Rightarrow> nat option \<Rightarrow> dirw \<Rightarrow> owner \<Rightarrow> nat \<Rightarrow> bool" where
  "holds Q T w (OMon m) b \<longleftrightarrow> (\<exists>d. dw_dms w m = Some d \<and> dm_iob d = Some b)"
| "holds Q T w (ONote i) b \<longleftrightarrow> (\<exists>n \<in> set Q. nt_id n = i \<and> nt_iob n = Some b)"
| "holds Q T w OCode b \<longleftrightarrow> T = Some b"

text \<open>A buffer that has left its monitor has been filled.\<close>

definition filled :: "owner \<Rightarrow> iob \<Rightarrow> bool" where
  "filled k x \<longleftrightarrow> (\<exists>m. k = OMon m) \<or> iob_high x \<le> length (iob_buf x)"

definition iobs_ok :: "notif list \<Rightarrow> nat option \<Rightarrow> dirw \<Rightarrow> bool" where
  "iobs_ok Q T w \<longleftrightarrow>
     (\<forall>k b. holds Q T w k b \<longrightarrow> (\<exists>x. dw_iobs w b = Some x \<and> filled k x)) \<and>
     (\<forall>k k' b. holds Q T w k b \<longrightarrow> holds Q T w k' b \<longrightarrow> k = k') \<and>
     (\<forall>b x. dw_iobs w b = Some x \<longrightarrow> b < dw_next w \<and> (\<exists>k. holds Q T w k b))"

definition notes_ok :: "notif list \<Rightarrow> dirw \<Rightarrow> bool" where
  "notes_ok Q w \<longleftrightarrow> distinct (map nt_id Q) \<and> (\<forall>n \<in> set Q. nt_id n < dw_next w) \<and>
     distinct (dw_freed w) \<and> (\<forall>m \<in> set (dw_freed w). m < dw_next w)"

definition d_good :: "(tid \<Rightarrow> nat list) \<Rightarrow> notif list \<Rightarrow> nat option \<Rightarrow> (nat \<Rightarrow> nat) \<Rightarrow> dirw \<Rightarrow> bool" where
  "d_good L Q T E w \<longleftrightarrow> lists_ok L w \<and> (\<forall>m. dm_ok L Q E w m) \<and> (\<forall>c. tic_ok L Q w c) \<and>
     iobs_ok Q T w \<and> notes_ok Q w"

definition d_inv :: "dirw \<Rightarrow> bool" where
  "d_inv w \<longleftrightarrow> (\<exists>L. d_good L (dw_queue w) None (\<lambda>_. 0) w) \<and>
     (\<forall>n \<in> set (dw_queue w). nt_winerr n = 0 \<longrightarrow> nt_iob n \<noteq> None)"

lemma d_goodD:
  assumes "d_good L Q T E w"
  shows "lists_ok L w" "dm_ok L Q E w m" "tic_ok L Q w c" "iobs_ok Q T w" "notes_ok Q w"
  using assms by (auto simp: d_good_def)

lemma lists_okD: "lists_ok L w \<Longrightarrow> dw_lists w c = Some l \<Longrightarrow> zl_rep (dw_links w, l) (L c)"
  unfolding lists_ok_def by (elim allE [of _ c]) simp

lemma lists_ok_in: "lists_ok L w \<Longrightarrow> m \<in> set (L c) \<Longrightarrow> \<exists>l. dw_lists w c = Some l"
  unfolding lists_ok_def by (elim allE [of _ c]) (auto split: option.splits)

text \<open>A monitor is on one list only.\<close>

lemma dm_ok_one: "dm_ok L Q E w m \<Longrightarrow> m \<in> set (L c) \<Longrightarrow> m \<in> set (L c') \<Longrightarrow> c = c'"
  by (auto simp: dm_ok_def split: option.splits)

lemma lists_disjoint: "\<forall>m. dm_ok L Q E w m \<Longrightarrow> c \<noteq> c' \<Longrightarrow> set (L c) \<inter> set (L c') = {}"
  using dm_ok_one by blast

lemma lists_ok_set:
  assumes "lists_ok L w" "\<forall>m. dm_ok L Q E w m" "dw_lists w c = Some l"
    and "links_outside A (dw_links w) links'" "zl_rep (links', l') ms'"
    and "\<And>c'. c' \<noteq> c \<Longrightarrow> A \<inter> set (L c') = {}"
    and "dw_links w' = links'" "dw_lists w' = (dw_lists w)(c \<mapsto> l')"
  shows "lists_ok (L(c := ms')) w'"
  unfolding lists_ok_def
proof (intro allI)
  fix c'
  show "case dw_lists w' c' of None \<Rightarrow> (L(c := ms')) c' = [] | Some l \<Rightarrow> zl_rep (dw_links w', l) ((L(c := ms')) c')"
  proof (cases "c' = c")
    case True
    with assms show ?thesis by simp
  next
    case False
    have "case dw_lists w c' of None \<Rightarrow> L c' = [] | Some l \<Rightarrow> zl_rep (dw_links w, l) (L c')"
      using assms(1) by (simp add: lists_ok_def)
    with False assms(4,6,7,8) show ?thesis
      by (auto split: option.splits intro: zl_rep_frame)
  qed
qed

lemma lists_ok_cong: "lists_ok L w \<Longrightarrow> dw_links w' = dw_links w \<Longrightarrow> dw_lists w' = dw_lists w \<Longrightarrow> lists_ok L w'"
  by (simp add: lists_ok_def cong: option.case_cong)

lemma for_simps [simp]:
  "for_dm (n # Q) m = (if nt_dm n = m then Suc (for_dm Q m) else for_dm Q m)" "for_dm [] m = 0"
  "for_tic (n # Q) c = (if nt_tic n = c then Suc (for_tic Q c) else for_tic Q c)" "for_tic [] c = 0"
  "for_dm (Q @ Q') m = for_dm Q m + for_dm Q' m" "for_tic (Q @ Q') c = for_tic Q c + for_tic Q' c"
  by (simp_all add: for_dm_def for_tic_def)

lemma for_dm_pos: "n \<in> set Q \<Longrightarrow> 0 < for_dm Q (nt_dm n)"
  by (induction Q) auto

lemma for_dm_None: "dm_ok L Q E w m \<Longrightarrow> dw_dms w m = None \<Longrightarrow> n \<in> set Q \<Longrightarrow> nt_dm n \<noteq> m"
  using for_dm_pos [of n Q] by (auto simp: dm_ok_def)

lemma holds_eq: "holds Q T w k b \<longleftrightarrow> (case k of
    OMon m \<Rightarrow> \<exists>d. dw_dms w m = Some d \<and> dm_iob d = Some b
  | ONote i \<Rightarrow> \<exists>n \<in> set Q. nt_id n = i \<and> nt_iob n = Some b
  | OCode \<Rightarrow> T = Some b)"
  by (cases k) simp_all

lemma holds_iobs: "holds Q T (w\<lparr>dw_iobs := bs\<rparr>) k b \<longleftrightarrow> holds Q T w k b"
  by (cases k) simp_all

lemma d_good_perm: "d_good L (Q @ n # Q') T E w \<longleftrightarrow> d_good L (n # Q @ Q') T E w"
proof -
  have 1: "for_dm (Q @ n # Q') = for_dm (n # Q @ Q')" "for_tic (Q @ n # Q') = for_tic (n # Q @ Q')"
    "set (Q @ n # Q') = set (n # Q @ Q')" "distinct (map nt_id (Q @ n # Q')) = distinct (map nt_id (n # Q @ Q'))"
    by (auto simp: fun_eq_iff)
  show ?thesis
    unfolding d_good_def dm_ok_def tic_ok_def tic_refs_def iobs_ok_def notes_ok_def holds_eq 1 by (rule refl)
qed

lemma d_goodI:
  "lists_ok L w \<Longrightarrow> (\<And>m. dm_ok L Q E w m) \<Longrightarrow> (\<And>c. tic_ok L Q w c) \<Longrightarrow> iobs_ok Q T w \<Longrightarrow>
   notes_ok Q w \<Longrightarrow> d_good L Q T E w"
  by (simp add: d_good_def)

text \<open>Steps that change one monitor only.\<close>

lemma dm_ok_other:
  assumes "dm_ok L Q E w m'" "dw_dms w' m' = dw_dms w m'" "for_dm Q' m' + E' m' = for_dm Q m' + E m'"
    and "\<And>c. m' \<in> set (L' c) \<longleftrightarrow> m' \<in> set (L c)" "dw_next w \<le> dw_next w'"
    and "m' \<in> set (dw_freed w') \<longleftrightarrow> m' \<in> set (dw_freed w)"
  shows "dm_ok L' Q' E' w' m'"
  using assms by (auto simp: dm_ok_def split: option.splits)

lemma dm_ok_frame:
  assumes "\<forall>m. dm_ok L Q E w m" "dm_ok L' Q' E' w' m"
    and "\<And>m'. m' \<noteq> m \<Longrightarrow> dw_dms w' m' = dw_dms w m'" "\<And>m'. m' \<noteq> m \<Longrightarrow> for_dm Q' m' + E' m' = for_dm Q m' + E m'"
    and "\<And>m' c. m' \<noteq> m \<Longrightarrow> m' \<in> set (L' c) \<longleftrightarrow> m' \<in> set (L c)" "dw_next w \<le> dw_next w'"
    and "\<And>m'. m' \<noteq> m \<Longrightarrow> m' \<in> set (dw_freed w') \<longleftrightarrow> m' \<in> set (dw_freed w)"
  shows "dm_ok L' Q' E' w' m'"
proof (cases "m' = m")
  case False
  show ?thesis by (rule dm_ok_other [of L Q E w]) (use assms False in auto)
qed (use assms(2) in simp)

lemma tic_ok_cong:
  assumes "tic_ok L Q w c" "p_tics (dw_proc w') c = p_tics (dw_proc w) c" "tic_refs L' Q' w' c = tic_refs L Q w c"
  shows "tic_ok L' Q' w' c"
  using assms unfolding tic_ok_def by (simp only:)

text \<open>A change of a monitor's fields that the invariant does not speak of.\<close>

lemma d_good_upd:
  assumes G: "d_good L Q T E w" and d: "dw_dms w m = Some d"
    and same: "dm_tic d' = dm_tic d" "dm_pool d' = dm_pool d" "dm_nrefs d' = dm_nrefs d" "dm_iob d' = dm_iob d"
  shows "d_good L Q T E (upd_dm m d' w)"
proof (rule d_goodI)
  show "lists_ok L (upd_dm m d' w)" using G by (auto simp: d_good_def intro: lists_ok_cong)
  show "dm_ok L Q E (upd_dm m d' w) m'" for m'
  proof (rule dm_ok_frame [where m = m])
    show "\<forall>m. dm_ok L Q E w m" using d_goodD(2) [OF G] by blast
    show "dm_ok L Q E (upd_dm m d' w) m" using d_goodD(2) [OF G, of m] d same by (auto simp: dm_ok_def)
  qed simp_all
  show "tic_ok L Q (upd_dm m d' w) c" for c
    by (rule tic_ok_cong [OF d_goodD(3) [OF G]]) (simp_all add: tic_refs_def)
  have "holds Q T (upd_dm m d' w) = holds Q T w" using d same(4) by (auto simp: holds_eq fun_eq_iff split: owner.splits)
  then show "iobs_ok Q T (upd_dm m d' w)" using d_goodD(4) [OF G] by (simp add: iobs_ok_def)
  show "notes_ok Q (upd_dm m d' w)" using d_goodD(5) [OF G] by (simp add: notes_ok_def)
qed

lemma d_good_open: "d_good L Q T E (w\<lparr>dw_open := hs\<rparr>) = d_good L Q T E w"
proof -
  have "holds Q T (w\<lparr>dw_open := hs\<rparr>) = holds Q T w" by (auto simp: holds_eq fun_eq_iff split: owner.splits)
  then show ?thesis
    by (simp add: d_good_def lists_ok_def dm_ok_def tic_ok_def tic_refs_def iobs_ok_def notes_ok_def
        cong: option.case_cong)
qed

lemma d_good_CloseHandle: "d_good L Q T E (CloseHandle h w) = d_good L Q T E w"
  by (simp add: CloseHandle_def d_good_open)


section \<open>Buffers\<close>

lemma iobs_okD:
  assumes "iobs_ok Q T w"
  shows "holds Q T w k b \<Longrightarrow> \<exists>x. dw_iobs w b = Some x \<and> filled k x"
    and "holds Q T w k b \<Longrightarrow> holds Q T w k' b \<Longrightarrow> k = k'"
    and "dw_iobs w b = Some x \<Longrightarrow> b < dw_next w \<and> (\<exists>k. holds Q T w k b)"
  using assms by (auto simp: iobs_ok_def)

lemma iobs_move:
  assumes I: "iobs_ok Q T w" and b: "dw_iobs w' b = Some x" "filled k1 x" "b < dw_next w'"
    and h: "\<And>k b'. holds Q' T' w' k b' \<longleftrightarrow> (if b' = b then k = k1 else holds Q T w k b')"
    and same: "\<And>b'. b' \<noteq> b \<Longrightarrow> dw_iobs w' b' = dw_iobs w b'" "dw_next w \<le> dw_next w'"
  shows "iobs_ok Q' T' w'"
  unfolding iobs_ok_def h
proof (intro conjI allI impI)
  fix k b' assume "if b' = b then k = k1 else holds Q T w k b'"
  then show "\<exists>x. dw_iobs w' b' = Some x \<and> filled k x"
    using b same(1) iobs_okD(1) [OF I] by (cases "b' = b") auto
next
  fix k k' b' assume "if b' = b then k = k1 else holds Q T w k b'" "if b' = b then k' = k1 else holds Q T w k' b'"
  then show "k = k'" using iobs_okD(2) [OF I] by (cases "b' = b") auto
next
  fix b' y assume y: "dw_iobs w' b' = Some y"
  show "b' < dw_next w'"
    using y b(3) same iobs_okD(3) [OF I, of b' y] by (cases "b' = b") auto
  show "\<exists>k. if b' = b then k = k1 else holds Q T w k b'"
    using y same(1) iobs_okD(3) [OF I, of b' y] by (cases "b' = b") auto
qed

lemma iobs_same:
  assumes "iobs_ok Q T w" "\<And>k b. holds Q' T' w' k b \<longleftrightarrow> holds Q T w k b"
    and "dw_iobs w' = dw_iobs w" "dw_next w \<le> dw_next w'"
  shows "iobs_ok Q' T' w'"
  using assms(1) unfolding iobs_ok_def assms(2,3) using assms(4) by (meson order.strict_trans2)

lemma iobs_free:
  assumes I: "iobs_ok Q T w" and h: "\<And>k b'. holds Q' T' w' k b' \<longleftrightarrow> b' \<noteq> b \<and> holds Q T w k b'"
    and same: "dw_iobs w' = (dw_iobs w)(b := None)" "dw_next w \<le> dw_next w'"
  shows "iobs_ok Q' T' w'"
  using I unfolding iobs_ok_def h same(1) using same(2)
  by (auto split: if_splits)

text \<open>Taking the buffer of a notification, and freeing what was taken.\<close>

lemma take_note_iob:
  assumes G: "d_good L (n # Q) None E w"
  shows "d_good L (n\<lparr>nt_iob := None\<rparr> # Q) (nt_iob n) E w"
proof (cases "nt_iob n")
  case None
  then have "n\<lparr>nt_iob := None\<rparr> = n" by (cases n) simp
  with None show ?thesis using G by (simp only:)
next
  case (Some b)
  note I = d_goodD(4) [OF G]
  have h: "holds (n # Q) None w (ONote (nt_id n)) b" using Some by simp
  have d: "nt_id n \<notin> nt_id ` set Q" using d_goodD(5) [OF G] by (simp add: notes_ok_def)
  obtain x where x: "dw_iobs w b = Some x" "filled (ONote (nt_id n)) x" using iobs_okD(1) [OF I h] by blast
  have one: "holds (n # Q) None w k b \<Longrightarrow> k = ONote (nt_id n)" for k using iobs_okD(2) [OF I h] by metis
  have "iobs_ok (n\<lparr>nt_iob := None\<rparr> # Q) (Some b) w"
  proof (rule iobs_move [OF I x(1), of OCode])
    show "filled OCode x" using x(2) by (simp add: filled_def)
    show "b < dw_next w" using iobs_okD(3) [OF I x(1)] by simp
    fix k b'
    show "holds (n\<lparr>nt_iob := None\<rparr> # Q) (Some b) w k b' = (if b' = b then k = OCode else holds (n # Q) None w k b')"
    proof (cases "b' = b")
      case False
      then show ?thesis using Some by (cases k) auto
    next
      case True
      have "\<not> holds (n\<lparr>nt_iob := None\<rparr> # Q) (Some b) w (ONote i) b" for i
      proof
        assume "holds (n\<lparr>nt_iob := None\<rparr> # Q) (Some b) w (ONote i) b"
        then obtain n' where n': "n' \<in> set Q" "nt_id n' = i" "nt_iob n' = Some b" by auto
        then have "holds (n # Q) None w (ONote i) b" by auto
        from one [OF this] have "nt_id n' = nt_id n" using n'(2) by simp
        with n'(1) d show False by (metis imageI)
      qed
      with True one [of k] show ?thesis by (cases k) auto
    qed
  qed simp_all
  moreover have "notes_ok (n\<lparr>nt_iob := None\<rparr> # Q) w" using d_goodD(5) [OF G] by (simp add: notes_ok_def)
  ultimately show ?thesis
    using G Some by (simp add: d_good_def dm_ok_def tic_ok_def tic_refs_def cong: option.case_cong)
qed

lemma d_good_only_iobs:
  assumes "d_good L Q T E w" "iobs_ok Q T' (w\<lparr>dw_iobs := bs\<rparr>)"
  shows "d_good L Q T' E (w\<lparr>dw_iobs := bs\<rparr>)"
  using assms by (simp add: d_good_def lists_ok_def dm_ok_def tic_ok_def tic_refs_def notes_ok_def cong: option.case_cong)

lemma free_taken:
  assumes G: "d_good L Q (Some b) E w"
  shows "free_iob b w = Some (w\<lparr>dw_iobs := (dw_iobs w)(b := None)\<rparr>)"
    "d_good L Q None E (w\<lparr>dw_iobs := (dw_iobs w)(b := None)\<rparr>)"
proof -
  note I = d_goodD(4) [OF G]
  have h: "holds Q (Some b) w OCode b" by simp
  show "free_iob b w = Some (w\<lparr>dw_iobs := (dw_iobs w)(b := None)\<rparr>)"
    using iobs_okD(1) [OF I h] by (auto simp: free_iob_def)
  show "d_good L Q None E (w\<lparr>dw_iobs := (dw_iobs w)(b := None)\<rparr>)"
  proof (rule d_good_only_iobs [OF G], rule iobs_free [OF I])
    fix k b'
    show "holds Q None (w\<lparr>dw_iobs := (dw_iobs w)(b := None)\<rparr>) k b' = (b' \<noteq> b \<and> holds Q (Some b) w k b')"
      using iobs_okD(2) [OF I h, of k] by (cases k) auto
  qed simp_all
qed

section \<open>Dropping references of a monitor\<close>

definition free_dm :: "nat \<Rightarrow> dmon \<Rightarrow> dirw \<Rightarrow> dirw" where
  "free_dm m d w = w\<lparr>dw_iobs := (case dm_iob d of None \<Rightarrow> dw_iobs w | Some b \<Rightarrow> (dw_iobs w)(b := None)),
     dw_dms := (dw_dms w)(m := None), dw_freed := m # dw_freed w\<rparr>"

lemma free_dm_simps [simp]:
  "dw_dms (free_dm m d w) = (dw_dms w)(m := None)" "dw_proc (free_dm m d w) = dw_proc w"
  "dw_links (free_dm m d w) = dw_links w" "dw_lists (free_dm m d w) = dw_lists w"
  "dw_next (free_dm m d w) = dw_next w" "dw_queue (free_dm m d w) = dw_queue w"
  "dw_handling (free_dm m d w) = dw_handling w" "dw_open (free_dm m d w) = dw_open w"
  "dw_freed (free_dm m d w) = m # dw_freed w"
  by (simp_all add: free_dm_def)

lemma dm_unref_effect:
  assumes d: "dw_dms w m = Some d" and b: "\<And>b. dm_iob d = Some b \<Longrightarrow> dw_iobs w b \<noteq> None"
  shows "TwapiDirectoryMonitorContextUnref m k w =
    Some (if dm_nrefs d \<le> k then free_dm m d w else upd_dm m (d\<lparr>dm_nrefs := dm_nrefs d - k\<rparr>) w)"
proof (cases "dm_iob d")
  case None
  with d show ?thesis
    by (auto simp: TwapiDirectoryMonitorContextUnref_def TwapiDirectoryMonitorContextDelete_def ExchangeAdd_def
        Let_def free_dm_def upd_dm_def)
next
  case (Some i)
  with b obtain x where "dw_iobs w i = Some x" by blast
  with d Some show ?thesis
    by (auto simp: TwapiDirectoryMonitorContextUnref_def TwapiDirectoryMonitorContextDelete_def ExchangeAdd_def
        Let_def free_dm_def upd_dm_def free_iob_def)
qed

lemma iobs_free_dm:
  assumes I: "iobs_ok Q T w" and d: "dw_dms w m = Some d"
  shows "iobs_ok Q T (free_dm m d w)"
proof (cases "dm_iob d")
  case None
  show ?thesis
  proof (rule iobs_same [OF I])
    fix k b show "holds Q T (free_dm m d w) k b = holds Q T w k b" using d None by (cases k) auto
  qed (simp_all add: free_dm_def None)
next
  case (Some i)
  have h: "holds Q T w (OMon m) i" using d Some by simp
  show ?thesis
  proof (rule iobs_free [OF I])
    fix k b
    show "holds Q T (free_dm m d w) k b = (b \<noteq> i \<and> holds Q T w k b)"
    proof (cases "b = i")
      case True
      then show ?thesis using iobs_okD(2) [OF I h, of k] by (cases k) auto
    next
      case False
      then show ?thesis using d Some by (cases k) auto
    qed
  qed (simp_all add: free_dm_def Some)
qed

lemma d_good_iob_ex: "d_good L Q T E w \<Longrightarrow> dw_dms w m = Some d \<Longrightarrow> dm_iob d = Some b \<Longrightarrow> dw_iobs w b \<noteq> None"
  using iobs_okD(1) [of Q T w "OMon m" b] by (auto dest: d_goodD(4))

lemma unref_held:
  assumes G: "d_good L Q T E w" and E: "k \<le> E m" "0 < k"
  shows "\<exists>w'. TwapiDirectoryMonitorContextUnref m (int k) w = Some w' \<and> d_good L Q T (E(m := E m - k)) w' \<and>
    dw_proc w' = dw_proc w \<and> dw_queue w' = dw_queue w \<and> dw_handling w' = dw_handling w \<and>
    dw_next w' = dw_next w \<and> dw_lists w' = dw_lists w \<and> dw_open w' = dw_open w \<and>
    (\<forall>m'. m' \<noteq> m \<longrightarrow> dw_dms w' m' = dw_dms w m') \<and>
    (\<forall>d. dw_dms w m = Some d \<longrightarrow> dm_nrefs d \<le> int k \<longrightarrow> dw_dms w' m = None)"
proof -
  note M = d_goodD(2) [OF G, of m]
  obtain d where d: "dw_dms w m = Some d" using M E by (auto simp: dm_ok_def split: option.splits)
  have n: "dm_nrefs d = (if dm_tic d = None then 0 else 2) + int (for_dm Q m + E m)"
    using M d by (simp add: dm_ok_def)
  define w' where "w' = (if dm_nrefs d \<le> int k then free_dm m d w else upd_dm m (d\<lparr>dm_nrefs := dm_nrefs d - int k\<rparr>) w)"
  have code: "TwapiDirectoryMonitorContextUnref m (int k) w = Some w'"
    unfolding w'_def by (rule dm_unref_effect [OF d]) (rule d_good_iob_ex [OF G d])
  have "d_good L Q T (E(m := E m - k)) w'"
  proof (rule d_goodI)
    show "lists_ok L w'" using d_goodD(1) [OF G] by (rule lists_ok_cong) (simp_all add: w'_def)
    show "tic_ok L Q w' c" for c
      by (rule tic_ok_cong [OF d_goodD(3) [OF G]]) (simp_all add: w'_def tic_refs_def)
    show "dm_ok L Q (E(m := E m - k)) w' m'" for m'
    proof (rule dm_ok_frame [where m = m])
      show "\<forall>m. dm_ok L Q E w m" using d_goodD(2) [OF G] by blast
      show "dm_ok L Q (E(m := E m - k)) w' m"
        using M d n E by (auto simp: dm_ok_def w'_def split: if_splits)
    qed (auto simp: w'_def)
    show "iobs_ok Q T w'"
    proof (cases "dm_nrefs d \<le> int k")
      case True
      then show ?thesis using iobs_free_dm [OF d_goodD(4) [OF G] d] by (simp add: w'_def)
    next
      case False
      show ?thesis
        by (rule iobs_same [OF d_goodD(4) [OF G]]) (use d False in \<open>auto simp: w'_def holds_eq split: owner.splits\<close>)
    qed
    show "notes_ok Q w'" using d_goodD(5) [OF G] M d by (auto simp: notes_ok_def w'_def dm_ok_def)
  qed
  with code d show ?thesis by (intro exI [of _ w']) (auto simp: w'_def)
qed

text \<open>The reference of a notification passes to the code that handles it.\<close>

lemma hold_note:
  assumes G: "d_good L (n # Q) T E w" and n: "nt_iob n = None"
  shows "d_good L Q T (E(nt_dm n := Suc (E (nt_dm n)))) (w\<lparr>dw_handling := nt_tic n # dw_handling w\<rparr>)"
proof (rule d_goodI)
  let ?w = "w\<lparr>dw_handling := nt_tic n # dw_handling w\<rparr>"
  let ?E = "E(nt_dm n := Suc (E (nt_dm n)))"
  show "lists_ok L ?w" using d_goodD(1) [OF G] by (rule lists_ok_cong) simp_all
  show "dm_ok L Q ?E ?w m" for m
    by (rule dm_ok_other [OF d_goodD(2) [OF G]]) auto
  show "tic_ok L Q ?w c" for c
    by (rule tic_ok_cong [OF d_goodD(3) [OF G]]) (simp_all add: tic_refs_def)
  show "iobs_ok Q T ?w"
    by (rule iobs_same [OF d_goodD(4) [OF G]]) (use n in \<open>auto simp: holds_eq split: owner.splits\<close>)
  show "notes_ok Q ?w" using d_goodD(5) [OF G] by (simp add: notes_ok_def)
qed

section \<open>Shutting down\<close>

lemma close_proc:
  "close_monitor m (w\<lparr>dw_proc := p\<rparr>) = map_option (\<lambda>w'. w'\<lparr>dw_proc := p\<rparr>) (close_monitor m w)"
proof (cases "dw_dms w m")
  case (Some d)
  show ?thesis
  proof (cases "dm_event d")
    case None
    with Some show ?thesis by (simp add: close_monitor_def upd_dm_def CloseHandle_def)
  next
    case (Some e)
    show ?thesis
    proof (cases "dm_iob d")
      case None
      with Some \<open>dw_dms w m = Some d\<close> show ?thesis by (simp add: close_monitor_def upd_dm_def CloseHandle_def)
    next
      case (Some b)
      with \<open>dm_event d = Some e\<close> \<open>dw_dms w m = Some d\<close> show ?thesis
        by (cases "dw_iobs w b") (simp_all add: close_monitor_def upd_dm_def CloseHandle_def)
    qed
  qed
qed (simp add: close_monitor_def)

lemma close_keeps_proc: "close_monitor m w = Some w' \<Longrightarrow> dw_proc w' = dw_proc w"
proof -
  assume "close_monitor m w = Some w'"
  then have "close_monitor m (w\<lparr>dw_proc := dw_proc w\<rparr>) = Some (w'\<lparr>dw_proc := dw_proc w\<rparr>)"
    by (simp only: close_proc) simp
  then have "w' = w'\<lparr>dw_proc := dw_proc w\<rparr>" using \<open>close_monitor m w = Some w'\<close> by simp
  then show ?thesis by (metis dirw.select_convs(1) dirw.surjective dirw.update_convs(1))
qed

lemma d_good_iob_upd:
  assumes G: "d_good L Q T E w" and x: "dw_iobs w b = Some x" and y: "iob_high y = iob_high x" "iob_buf y = iob_buf x"
  shows "d_good L Q T E (w\<lparr>dw_iobs := (dw_iobs w)(b \<mapsto> y)\<rparr>)"
proof (rule d_good_only_iobs [OF G])
  note I = d_goodD(4) [OF G]
  obtain k where k: "holds Q T w k b" "b < dw_next w" using iobs_okD(3) [OF I x] by blast
  then have f: "filled k y" using iobs_okD(1) [OF I k(1)] x y by (auto simp: filled_def)
  show "iobs_ok Q T (w\<lparr>dw_iobs := (dw_iobs w)(b \<mapsto> y)\<rparr>)"
  proof (rule iobs_move [OF I _ f])
    fix k' b'
    show "holds Q T (w\<lparr>dw_iobs := (dw_iobs w)(b \<mapsto> y)\<rparr>) k' b' = (if b' = b then k' = k else holds Q T w k' b')"
      using k(1) iobs_okD(2) [OF I k(1), of k'] by (auto simp: holds_iobs)
  qed (use k in auto)
qed

lemma close_ok:
  assumes G: "d_good L Q T E w" and d: "dw_dms w m = Some d"
  shows "\<exists>w' d'. close_monitor m w = Some w' \<and> d_good L Q T E w' \<and> dw_dms w' m = Some d' \<and>
    dm_tic d' = dm_tic d \<and> dm_pool d' = dm_pool d \<and> dm_nrefs d' = dm_nrefs d \<and> dm_dir d' = INVALID_HANDLE_VALUE \<and>
    dw_proc w' = dw_proc w \<and> dw_queue w' = dw_queue w \<and> dw_handling w' = dw_handling w \<and>
    dw_next w' = dw_next w \<and> dw_lists w' = dw_lists w"
proof -
  define d1 where "d1 = (if dm_dir d \<noteq> INVALID_HANDLE_VALUE then d\<lparr>dm_dir := INVALID_HANDLE_VALUE\<rparr> else d)"
  define w1 where "w1 = (if dm_dir d \<noteq> INVALID_HANDLE_VALUE then upd_dm m d1 (CloseHandle (dm_dir d) w) else w)"
  have same: "dm_tic d1 = dm_tic d" "dm_pool d1 = dm_pool d" "dm_nrefs d1 = dm_nrefs d" "dm_iob d1 = dm_iob d"
    "dm_event d1 = dm_event d" "dm_dir d1 = INVALID_HANDLE_VALUE" by (simp_all add: d1_def)
  have G1: "d_good L Q T E w1"
    using d_good_upd [of L Q T E "CloseHandle (dm_dir d) w" m d d1] G d same by (simp add: w1_def d_good_CloseHandle)
  have d1: "dw_dms w1 m = Some d1" using d by (simp add: w1_def d1_def)
  have fr: "dw_proc w1 = dw_proc w" "dw_queue w1 = dw_queue w" "dw_handling w1 = dw_handling w"
    "dw_next w1 = dw_next w" "dw_lists w1 = dw_lists w" by (simp_all add: w1_def)
  have pair: "(if dm_dir d \<noteq> INVALID_HANDLE_VALUE
      then (d\<lparr>dm_dir := INVALID_HANDLE_VALUE\<rparr>, upd_dm m (d\<lparr>dm_dir := INVALID_HANDLE_VALUE\<rparr>) (CloseHandle (dm_dir d) w))
      else (d, w)) = (d1, w1)" by (simp add: d1_def w1_def)
  have code: "close_monitor m w = (case dm_event d1 of
        None \<Rightarrow> Some w1
      | Some e \<Rightarrow> (case dm_iob d1 of
            None \<Rightarrow> Some w1
          | Some b \<Rightarrow> do {
              x \<leftarrow> dw_iobs w1 b;
              if iob_event x \<noteq> None
              then Some (upd_dm m (d1\<lparr>dm_event := None\<rparr>)
                    ((CloseHandle e w1)\<lparr>dw_iobs := (dw_iobs w1)(b \<mapsto> x\<lparr>iob_event := None\<rparr>)\<rparr>))
              else Some w1 }))"
    by (simp only: close_monitor_def d bind.bind_lunit Let_def pair prod.case)
  have stay: ?thesis if "close_monitor m w = Some w1"
    using that G1 d1 same fr by (intro exI [of _ w1] exI [of _ d1]) simp
  show ?thesis
  proof (cases "\<exists>e b x. dm_event d1 = Some e \<and> dm_iob d1 = Some b \<and> dw_iobs w1 b = Some x \<and> iob_event x \<noteq> None")
    case False
    have "close_monitor m w = Some w1"
      using False d_good_iob_ex [OF G1 d1] unfolding code by (auto split: option.splits)
    then show ?thesis by (rule stay)
  next
    case True
    then obtain e b x where e: "dm_event d1 = Some e" "dm_iob d1 = Some b" "dw_iobs w1 b = Some x" "iob_event x \<noteq> None"
      by blast
    let ?w = "(CloseHandle e w1)\<lparr>dw_iobs := (dw_iobs w1)(b \<mapsto> x\<lparr>iob_event := None\<rparr>)\<rparr>"
    have "d_good L Q T E ?w"
      using d_good_iob_upd [of L Q T E "CloseHandle e w1" b x "x\<lparr>iob_event := None\<rparr>"] G1 e(3)
      by (simp add: d_good_CloseHandle)
    then have "d_good L Q T E (upd_dm m (d1\<lparr>dm_event := None\<rparr>) ?w)"
      by (rule d_good_upd [of _ _ _ _ _ _ d1]) (use d1 in simp_all)
    with e same fr show ?thesis
      by (intro exI [of _ "upd_dm m (d1\<lparr>dm_event := None\<rparr>) ?w"] exI [of _ "d1\<lparr>dm_event := None\<rparr>"]) (simp add: code)
  qed
qed

text \<open>The second part: the monitor leaves the list of its context, which loses the reference.\<close>

lemma unlink_ok:
  assumes G: "d_good L Q T E w" and d: "dw_dms w m = Some d" "dm_tic d = Some c"
    and l: "dw_lists w c = Some l"
    and p: "TwapiInterpContextUnref cur c 1 (dw_proc w) = Some p"
    and d': "dm_tic d' = None" "dm_pool d' = INVALID_HANDLE_VALUE" "dm_nrefs d' = dm_nrefs d" "dm_iob d' = dm_iob d"
  shows "d_good (L(c := remove1 m (L c))) Q T (E(m := E m + 2))
      ((upd_dm m d' (set_dm_list c (ZLIST_REMOVE m (dm_list l w)) w))\<lparr>dw_proc := p\<rparr>)" (is "d_good ?L Q T ?E ?w")
proof (rule d_goodI)
  note M = d_goodD(2) [OF G]
  have m: "m \<in> set (L c)" using M [of m] d by (simp add: dm_ok_def)
  have rep: "zl_rep (dm_list l w) (L c)" using lists_okD [OF d_goodD(1) [OF G] l] by (simp add: dm_list_def)
  have dist: "distinct (L c)" using rep by (simp add: zl_rep_def)
  note R = ZLIST_REMOVE_rep [OF rep m]
  show "lists_ok ?L ?w"
  proof (rule lists_ok_set [of L w Q E c l "set (L c)" "fst (ZLIST_REMOVE m (dm_list l w))" "snd (ZLIST_REMOVE m (dm_list l w))"])
    show "lists_ok L w" using d_goodD(1) [OF G] .
    show "\<forall>m. dm_ok L Q E w m" using M by blast
    show "links_outside (set (L c)) (dw_links w) (fst (ZLIST_REMOVE m (dm_list l w)))" using R(2) by (simp add: dm_list_def)
    show "zl_rep (fst (ZLIST_REMOVE m (dm_list l w)), snd (ZLIST_REMOVE m (dm_list l w))) (remove1 m (L c))" using R(1) by simp
    show "set (L c) \<inter> set (L c') = {}" if "c' \<noteq> c" for c' using lists_disjoint [of L Q E w c c'] M that by blast
  qed (use l in simp_all)
  show "dm_ok ?L Q ?E ?w m'" for m'
  proof (rule dm_ok_frame [where m = m])
    show "\<forall>m. dm_ok L Q E w m" using M by blast
    show "dm_ok ?L Q ?E ?w m" using M [of m] d d' dist by (auto simp: dm_ok_def)
  qed auto
  obtain t t' where t: "p_tics (dw_proc w) c = Some t" "p_tics p = (p_tics (dw_proc w))(c \<mapsto> t')"
    "tic_nrefs t' = tic_nrefs t - 1" "tic_deletions t' = tic_deletions t + (if tic_nrefs t \<le> 1 then 1 else 0)"
    by (rule Unref_tics [OF p])
  have g: "ctx_good t (tic_refs L Q w c)" using d_goodD(3) [OF G, of c] t(1) by (simp add: tic_ok_def)
  have k: "Suc (tic_refs ?L Q ?w c) = tic_refs L Q w c"
    using m length_pos_if_in_set [OF m] by (simp add: tic_refs_def length_remove1)
  show "tic_ok ?L Q ?w c'" for c'
  proof (cases "c' = c")
    case True
    have "ctx_good t' (tic_refs ?L Q ?w c)"
      by (rule ctx_good_drop [OF g _ _ t(3,4)]) (use g k in \<open>auto simp: ctx_good_def\<close>)
    then show ?thesis using True t(2) by (simp add: tic_ok_def)
  next
    case False
    show ?thesis by (rule tic_ok_cong [OF d_goodD(3) [OF G]]) (use False t(2) in \<open>simp_all add: tic_refs_def\<close>)
  qed
  show "iobs_ok Q T ?w"
  proof (rule iobs_same [OF d_goodD(4) [OF G]])
    fix k b show "holds Q T ?w k b = holds Q T w k b" using d d'(4) by (cases k) auto
  qed simp_all
  show "notes_ok Q ?w" using d_goodD(5) [OF G] by (simp add: notes_ok_def)
qed

lemma dm_shutdown_ok:
  assumes G: "d_good L Q T E w" and d: "dw_dms w m = Some d" "dm_tic d = Some c"
    and p: "TwapiInterpContextUnref cur c 1 (dw_proc w) = Some p"
  shows "\<exists>w'. TwapiShutdownDirectoryMonitor cur m w = Some w' \<and> d_good (L(c := remove1 m (L c))) Q T E w' \<and>
    dw_proc w' = p \<and> dw_queue w' = dw_queue w \<and> dw_handling w' = dw_handling w \<and> dw_next w' = dw_next w \<and>
    (\<forall>c'. dw_lists w' c' = None \<longleftrightarrow> dw_lists w c' = None) \<and>
    (\<forall>d'. dw_dms w' m = Some d' \<longrightarrow> dm_tic d' = None) \<and> (for_dm Q m + E m = 0 \<longrightarrow> dw_dms w' m = None)"
proof -
  note M = d_goodD(2) [OF G, of m]
  have pool: "dm_pool d \<noteq> INVALID_HANDLE_VALUE" using M d by (simp add: dm_ok_def)
  have m: "m \<in> set (L c)" using M d by (simp add: dm_ok_def)
  obtain l where l: "dw_lists w c = Some l" using lists_ok_in [OF d_goodD(1) [OF G] m] by blast
  obtain t where t: "p_tics (dw_proc w) c = Some t" by (rule Unref_tics [OF p])
  define d2 where "d2 = d\<lparr>dm_pool := INVALID_HANDLE_VALUE, dm_tic := None\<rparr>"
  define w2 where "w2 = upd_dm m d2 (set_dm_list c (ZLIST_REMOVE m (dm_list l w)) w)"
  have G2: "d_good (L(c := remove1 m (L c))) Q T (E(m := E m + 2)) (w2\<lparr>dw_proc := p\<rparr>)"
    unfolding w2_def by (rule unlink_ok [OF G d l p]) (simp_all add: d2_def)
  have d2: "dw_dms (w2\<lparr>dw_proc := p\<rparr>) m = Some d2" by (simp add: w2_def)
  from close_ok [OF G2 d2] obtain w4 d4 where w4: "close_monitor m (w2\<lparr>dw_proc := p\<rparr>) = Some w4"
    "d_good (L(c := remove1 m (L c))) Q T (E(m := E m + 2)) w4" "dw_dms w4 m = Some d4" "dm_tic d4 = None" "dm_nrefs d4 = dm_nrefs d"
    "dw_proc w4 = p" "dw_queue w4 = dw_queue w" "dw_handling w4 = dw_handling w" "dw_next w4 = dw_next w"
    "dw_lists w4 = (dw_lists w)(c \<mapsto> snd (ZLIST_REMOVE m (dm_list l w)))"
    by (auto simp: w2_def d2_def)
  then obtain w3 where w3: "close_monitor m w2 = Some w3" "w4 = w3\<lparr>dw_proc := p\<rparr>"
    by (auto simp: close_proc)
  have "dw_proc w3 = dw_proc w"
    using close_keeps_proc [OF w3(1)] by (simp add: w2_def)
  have links: "upd_dm m (d\<lparr>dm_pool := INVALID_HANDLE_VALUE, dm_tic := None\<rparr>)
      (set_dm_list c (ZLIST_REMOVE m (dm_list l (upd_dm m (d\<lparr>dm_pool := INVALID_HANDLE_VALUE\<rparr>) w)))
        (upd_dm m (d\<lparr>dm_pool := INVALID_HANDLE_VALUE\<rparr>) w)) = w2"
    by (simp add: w2_def d2_def upd_dm_def set_dm_list_def dm_list_def)
  have code: "TwapiShutdownDirectoryMonitor cur m w = TwapiDirectoryMonitorContextUnref m 2 w4"
    using d pool t l w3 p \<open>dw_proc w3 = dw_proc w\<close> links by (simp add: TwapiShutdownDirectoryMonitor_def)
  from unref_held [OF w4(2), of 2 m] obtain w' where w': "TwapiDirectoryMonitorContextUnref m 2 w4 = Some w'"
    "d_good (L(c := remove1 m (L c))) Q T E w'"
    "dw_proc w' = dw_proc w4" "dw_queue w' = dw_queue w4" "dw_handling w' = dw_handling w4"
    "dw_next w' = dw_next w4" "dw_lists w' = dw_lists w4"
    "\<forall>d. dw_dms w4 m = Some d \<longrightarrow> dm_nrefs d \<le> 2 \<longrightarrow> dw_dms w' m = None" by auto
  have "for_dm Q m + E m = 0 \<longrightarrow> dw_dms w' m = None"
    using w'(8) w4(3,5) M d by (simp add: dm_ok_def)
  moreover have gone: "dm_tic d' = None" if "dw_dms w' m = Some d'" for d'
  proof -
    have "m \<notin> set ((L(c := remove1 m (L c))) c')" for c'
      using d_goodD(2) [OF w4(2), of m] w4(3,4) by (simp add: dm_ok_def)
    then show ?thesis using d_goodD(2) [OF w'(2), of m] that
      by (cases "dm_tic d'") (auto simp: dm_ok_def)
  qed
  ultimately show ?thesis using code w' w4 l by (intro exI [of _ w']) simp
qed

lemma shutdown_unref:
  assumes "TwapiShutdownDirectoryMonitor cur m w = Some w'" "dw_dms w m = Some d" "dm_tic d = Some c"
  shows "\<exists>p. TwapiInterpContextUnref cur c 1 (dw_proc w) = Some p"
  using assms
  by (auto simp: TwapiShutdownDirectoryMonitor_def Let_def split: if_splits option.splits bind_splits
      dest!: close_keeps_proc)

text \<open>A monitor that was never registered is only closed.\<close>

lemma shutdown_idle:
  assumes G: "d_good L Q T E w" and d: "dw_dms w m = Some d" "dm_tic d = None"
  shows "\<exists>w'. TwapiShutdownDirectoryMonitor cur m w = Some w' \<and> d_good L Q T E w' \<and>
    dw_proc w' = dw_proc w \<and> dw_queue w' = dw_queue w \<and> dw_handling w' = dw_handling w \<and>
    dw_next w' = dw_next w \<and> dw_lists w' = dw_lists w \<and> (\<exists>d'. dw_dms w' m = Some d' \<and> dm_tic d' = None)"
proof -
  have pool: "dm_pool d = INVALID_HANDLE_VALUE" using d_goodD(2) [OF G, of m] d by (simp add: dm_ok_def)
  have "upd_dm m d w = w" using d(1) by (simp add: upd_dm_def fun_upd_idem)
  then have code: "TwapiShutdownDirectoryMonitor cur m w = close_monitor m w"
    using d pool by (simp add: TwapiShutdownDirectoryMonitor_def)
  from close_ok [OF G d(1)] d(2) show ?thesis unfolding code by auto
qed

section \<open>The blocks of the threads\<close>

text \<open>Each thread's slot is empty or holds a live block of that thread.\<close>

definition tls_inv :: "proc \<Rightarrow> bool" where
  "tls_inv p \<longleftrightarrow> (\<forall>th a. p_slot p th = Some a \<longrightarrow> (\<exists>t. p_tls p a = Some t \<and> tls_thread t = th))"

lemma tls_inv_upd_tic [simp]: "tls_inv (upd_tic c t p) = tls_inv p"
  by (simp add: tls_inv_def)

lemma TlsUnref_ok:
  assumes inv: "tls_inv p"
  shows "\<exists>p'. TwapiTlsUnref cur p = Some p' \<and> tls_inv p'"
proof (cases "p_slot p cur")
  case None
  with inv show ?thesis by (simp add: TwapiTlsUnref_def)
next
  case (Some a)
  with inv obtain t where t: "p_tls p a = Some t" "tls_thread t = cur" unfolding tls_inv_def by blast
  define n where "n = tls_nrefs t - 1"
  show ?thesis
  proof (cases "n = 0")
    case True
    with Some t have "TwapiTlsUnref cur p = Some (p\<lparr>p_tls := (p_tls p)(a := None), p_slot := (p_slot p)(cur := None)\<rparr>)"
      by (simp add: TwapiTlsUnref_def n_def)
    moreover have "tls_inv (p\<lparr>p_tls := (p_tls p)(a := None), p_slot := (p_slot p)(cur := None)\<rparr>)"
      unfolding tls_inv_def
    proof (intro allI impI)
      fix th b assume "p_slot (p\<lparr>p_tls := (p_tls p)(a := None), p_slot := (p_slot p)(cur := None)\<rparr>) th = Some b"
      then have b: "p_slot p th = Some b" "th \<noteq> cur" by (auto split: if_splits)
      then obtain u where "p_tls p b = Some u" "tls_thread u = th" using inv unfolding tls_inv_def by blast
      with t b(2) show "\<exists>t. p_tls (p\<lparr>p_tls := (p_tls p)(a := None), p_slot := (p_slot p)(cur := None)\<rparr>) b = Some t \<and>
          tls_thread t = th" by auto
    qed
    ultimately show ?thesis by blast
  next
    case False
    with Some t have "TwapiTlsUnref cur p = Some (p\<lparr>p_tls := (p_tls p)(a \<mapsto> t\<lparr>tls_nrefs := n\<rparr>)\<rparr>)"
      by (simp add: TwapiTlsUnref_def n_def)
    moreover have "tls_inv (p\<lparr>p_tls := (p_tls p)(a \<mapsto> t\<lparr>tls_nrefs := n\<rparr>)\<rparr>)"
      using inv t Some unfolding tls_inv_def by auto (metis option.inject)
    ultimately show ?thesis by blast
  qed
qed

lemma ContextUnref_ok:
  assumes "tls_inv p" "p_tics p c = Some t"
  shows "\<exists>p'. TwapiInterpContextUnref cur c n p = Some p' \<and> tls_inv p'"
proof (cases "tic_nrefs t \<le> n")
  case True
  let ?t = "t\<lparr>tic_nrefs := tic_nrefs t - n, tic_lock := False, tic_window := False, tic_deletions := Suc (tic_deletions t)\<rparr>"
  from TlsUnref_ok [of "upd_tic c ?t (upd_tic c (t\<lparr>tic_nrefs := tic_nrefs t - n\<rparr>) p)" cur] assms True
  show ?thesis by (simp add: TwapiInterpContextUnref_def TwapiInterpContextDelete_def ExchangeAdd_def)
next
  case False
  with assms show ?thesis by (simp add: TwapiInterpContextUnref_def ExchangeAdd_def)
qed

lemma ContextRef_ok:
  "tls_inv p \<Longrightarrow> p_tics p c = Some t \<Longrightarrow> TwapiInterpContextRef c n p = Some (upd_tic c (t\<lparr>tic_nrefs := tic_nrefs t + n\<rparr>) p)"
  by (simp add: TwapiInterpContextRef_def ExchangeAdd_def)

section \<open>The clean-up of the module\<close>

lemma monitor_tic:
  assumes "d_good L Q T E w" "m \<in> set (L c)"
  shows "\<exists>d. dw_dms w m = Some d \<and> dm_tic d = Some c" "\<exists>t. p_tics (dw_proc w) c = Some t"
proof -
  show "\<exists>d. dw_dms w m = Some d \<and> dm_tic d = Some c"
    using d_goodD(2) [OF assms(1), of m] assms(2) by (auto simp: dm_ok_def split: option.splits)
  have "0 < length (L c)" using assms(2) by (rule length_pos_if_in_set)
  then show "\<exists>t. p_tics (dw_proc w) c = Some t"
    using d_goodD(3) [OF assms(1), of c] by (auto simp: tic_ok_def tic_refs_def split: option.splits)
qed

lemma monitors_loop:
  "d_good L Q T E w \<Longrightarrow> tls_inv (dw_proc w) \<Longrightarrow> L c = ms \<Longrightarrow> dw_lists w c \<noteq> None \<Longrightarrow>
   \<exists>w'. shutdown_monitors cur c w = Some w' \<and> d_good (L(c := [])) Q T E w' \<and> tls_inv (dw_proc w') \<and>
     dw_queue w' = dw_queue w \<and> dw_handling w' = dw_handling w \<and> dw_next w' = dw_next w \<and>
     (\<forall>c'. dw_lists w' c' = None \<longleftrightarrow> dw_lists w c' = None) \<and>
     drop_refs cur c (length ms) (dw_proc w) = Some (dw_proc w')"
proof (induction ms arbitrary: L w)
  case Nil
  then obtain l where l: "dw_lists w c = Some l" by blast
  have "zl_rep (dw_links w, l) []" using lists_okD [OF d_goodD(1) [OF Nil(1)] l] Nil(3) by simp
  then have "ZLIST_COUNT l = 0" by (simp add: zl_rep_def ZLIST_COUNT_def)
  moreover have "L(c := []) = L" using Nil(3) by (simp add: fun_upd_idem)
  ultimately show ?case using Nil l by (subst shutdown_monitors.simps) auto
next
  case (Cons m ms)
  then obtain l where l: "dw_lists w c = Some l" by blast
  have rep: "zl_rep (dw_links w, l) (m # ms)" using lists_okD [OF d_goodD(1) [OF Cons.prems(1)] l] Cons.prems(3) by simp
  then have l': "ZLIST_COUNT l \<noteq> 0" "zlist_head l = Some m" by (simp_all add: zl_rep_def ZLIST_COUNT_def)
  have m: "m \<in> set (L c)" using Cons.prems(3) by simp
  obtain d t where d: "dw_dms w m = Some d" "dm_tic d = Some c" "p_tics (dw_proc w) c = Some t"
    using monitor_tic [OF Cons.prems(1) m] by blast
  obtain p where p: "TwapiInterpContextUnref cur c 1 (dw_proc w) = Some p" "tls_inv p"
    using ContextUnref_ok [OF Cons.prems(2) d(3)] by blast
  from dm_shutdown_ok [OF Cons.prems(1) d(1,2) p(1)] obtain w1 where w1: "TwapiShutdownDirectoryMonitor cur m w = Some w1"
    "d_good (L(c := remove1 m (L c))) Q T E w1" "dw_proc w1 = p" "dw_queue w1 = dw_queue w"
    "dw_handling w1 = dw_handling w" "dw_next w1 = dw_next w" "\<forall>c'. dw_lists w1 c' = None \<longleftrightarrow> dw_lists w c' = None" by blast
  have "(L(c := remove1 m (L c))) c = ms" using Cons.prems(3) by simp
  have E: "(L(c := remove1 m (L c)))(c := []) = L(c := [])" by simp
  from Cons.IH [OF w1(2) _ \<open>(L(c := remove1 m (L c))) c = ms\<close>, unfolded E] w1(3,7) p(2) l obtain w' where "shutdown_monitors cur c w1 = Some w'"
    "d_good (L(c := [])) Q T E w'" "tls_inv (dw_proc w')" "dw_queue w' = dw_queue w1" "dw_handling w' = dw_handling w1"
    "dw_next w' = dw_next w1" "\<forall>c'. dw_lists w' c' = None \<longleftrightarrow> dw_lists w1 c' = None"
    "drop_refs cur c (length ms) (dw_proc w1) = Some (dw_proc w')"
    by (auto simp del: fun_upd_apply)
  with w1 p(1) l l' show ?case by (subst shutdown_monitors.simps) simp
qed

lemma storage_cleanup_ok:
  assumes G: "d_good L Q T E w" and tls: "tls_inv (dw_proc w)"
  shows "\<exists>w'. TwapiStorageCleanup cur c w = Some w' \<and> d_good (L(c := [])) Q T E w' \<and> tls_inv (dw_proc w') \<and>
    dw_queue w' = dw_queue w \<and> dw_handling w' = dw_handling w \<and> dw_lists w' c = None \<and>
    drop_refs cur c (length (L c)) (dw_proc w) = Some (dw_proc w')"
proof (cases "dw_lists w c")
  case None
  then have "L c = []" using d_goodD(1) [OF G] unfolding lists_ok_def by (elim allE [of _ c]) simp
  then have "L(c := []) = L" by (simp add: fun_upd_idem)
  with None G tls \<open>L c = []\<close> show ?thesis by (simp add: TwapiStorageCleanup_def)
next
  case (Some l)
  from monitors_loop [OF G tls refl, of c cur] Some obtain w' where w': "shutdown_monitors cur c w = Some w'"
    "d_good (L(c := [])) Q T E w'" "tls_inv (dw_proc w')" "dw_queue w' = dw_queue w" "dw_handling w' = dw_handling w"
    "drop_refs cur c (length (L c)) (dw_proc w) = Some (dw_proc w')" by auto
  let ?w = "w'\<lparr>dw_lists := (dw_lists w')(c := None)\<rparr>"
  have "d_good (L(c := [])) Q T E ?w"
  proof (rule d_goodI)
    show "lists_ok (L(c := [])) ?w" unfolding lists_ok_def
    proof
      fix c'
      from spec [OF d_goodD(1) [OF w'(2), unfolded lists_ok_def], of c']
      show "case dw_lists ?w c' of None \<Rightarrow> (L(c := [])) c' = [] | Some l \<Rightarrow> zl_rep (dw_links ?w, l) ((L(c := [])) c')"
        by (cases "c' = c") (auto split: option.splits)
    qed
    show "dm_ok (L(c := [])) Q E ?w m" for m by (rule dm_ok_other [OF d_goodD(2) [OF w'(2)]]) simp_all
    show "tic_ok (L(c := [])) Q ?w c'" for c' by (rule tic_ok_cong [OF d_goodD(3) [OF w'(2)]]) (simp_all add: tic_refs_def)
    show "iobs_ok Q T ?w"
      by (rule iobs_same [OF d_goodD(4) [OF w'(2)]]) (auto simp: holds_eq split: owner.splits)
    show "notes_ok Q ?w" using d_goodD(5) [OF w'(2)] by (simp add: notes_ok_def)
  qed
  with w' Some show ?thesis by (simp add: TwapiStorageCleanup_def)
qed

end
