(* ===== verification/Dirmon_Steps.thy ===== *)
theory Dirmon_Steps
  imports Dirmon_Inv
begin

text \<open>The remaining operations of directory monitors: reads, notifications, registration.\<close>

section \<open>Reads\<close>

lemma d_good_own_iob:
  assumes G: "d_good L Q T E w" and d: "dw_dms w m = Some d" "dm_iob d = Some b"
  shows "d_good L Q T E (w\<lparr>dw_iobs := (dw_iobs w)(b \<mapsto> y)\<rparr>)"
proof (rule d_good_only_iobs [OF G])
  note I = d_goodD(4) [OF G]
  have h: "holds Q T w (OMon m) b" using d by simp
  obtain x where x: "dw_iobs w b = Some x" using iobs_okD(1) [OF I h] by blast
  have one: "holds Q T w k b \<longleftrightarrow> k = OMon m" for k using iobs_okD(2) [OF I h, of k] h by auto
  show "iobs_ok Q T (w\<lparr>dw_iobs := (dw_iobs w)(b \<mapsto> y)\<rparr>)"
    by (rule iobs_move [OF I, of _ b y "OMon m"]) (use one iobs_okD(3) [OF I x] in \<open>auto simp: holds_iobs filled_def\<close>)
qed

text \<open>A buffer that belongs to the monitor is freed, or leaves it.\<close>

lemma release_iob:
  assumes G: "d_good L Q None E w" and d: "dw_dms w m = Some d" "dm_iob d = Some b"
    and y: "iob_high y \<le> length (iob_buf y)"
    and d': "dm_tic d' = dm_tic d" "dm_pool d' = dm_pool d" "dm_nrefs d' = dm_nrefs d" "dm_iob d' = None"
  shows "d_good L Q (Some b) E (upd_dm m d' (w\<lparr>dw_iobs := (dw_iobs w)(b \<mapsto> y)\<rparr>))" (is "d_good L Q _ E ?w")
proof (rule d_goodI)
  note I = d_goodD(4) [OF G]
  have h: "holds Q None w (OMon m) b" using d by simp
  show "lists_ok L ?w" using d_goodD(1) [OF G] by (rule lists_ok_cong) simp_all
  show "dm_ok L Q E ?w m'" for m'
  proof (rule dm_ok_frame [where m = m])
    show "\<forall>m. dm_ok L Q E w m" using d_goodD(2) [OF G] by blast
    show "dm_ok L Q E ?w m" using d_goodD(2) [OF G, of m] d d' by (auto simp: dm_ok_def)
  qed simp_all
  show "tic_ok L Q ?w c" for c by (rule tic_ok_cong [OF d_goodD(3) [OF G]]) (simp_all add: tic_refs_def)
  show "iobs_ok Q (Some b) ?w"
  proof (rule iobs_move [OF I, of _ b y OCode])
    fix k b'
    show "holds Q (Some b) ?w k b' = (if b' = b then k = OCode else holds Q None w k b')"
    proof (cases "b' = b")
      case True
      then show ?thesis using iobs_okD(2) [OF I h, of k] d d'(4) by (cases k) (auto split: if_splits)
    next
      case False
      then show ?thesis using d d'(4) by (cases k) (auto split: if_splits)
    qed
  qed (use y iobs_okD(3) [OF I, of b] d_good_iob_ex [OF G d] in \<open>auto simp: filled_def\<close>)
  show "notes_ok Q ?w" using d_goodD(5) [OF G] by (simp add: notes_ok_def)
qed

lemma alloc_iob:
  assumes G: "d_good L Q T E w" and d: "dw_dms w m = Some d" "dm_iob d = None"
  shows "d_good L Q T E (w\<lparr>dw_dms := (dw_dms w)(m \<mapsto> d\<lparr>dm_iob := Some (dw_next w)\<rparr>), dw_next := Suc (dw_next w),
     dw_iobs := (dw_iobs w)(dw_next w \<mapsto> y)\<rparr>)" (is "d_good L Q T E ?w")
proof (rule d_goodI)
  note I = d_goodD(4) [OF G]
  let ?b = "dw_next w"
  have fresh: "\<not> holds Q T w k ?b" for k using iobs_okD(1) [OF I, of k ?b] iobs_okD(3) [OF I, of ?b] by auto
  show "lists_ok L ?w" using d_goodD(1) [OF G] by (rule lists_ok_cong) simp_all
  show "dm_ok L Q E ?w m'" for m'
  proof (rule dm_ok_frame [where m = m])
    show "\<forall>m. dm_ok L Q E w m" using d_goodD(2) [OF G] by blast
    show "dm_ok L Q E ?w m" using d_goodD(2) [OF G, of m] d by (auto simp: dm_ok_def)
  qed simp_all
  show "tic_ok L Q ?w c" for c by (rule tic_ok_cong [OF d_goodD(3) [OF G]]) (simp_all add: tic_refs_def)
  show "iobs_ok Q T ?w"
  proof (rule iobs_move [OF I, of _ ?b y "OMon m"])
    fix k b'
    show "holds Q T ?w k b' = (if b' = ?b then k = OMon m else holds Q T w k b')"
    proof (cases "b' = ?b")
      case True
      then show ?thesis using fresh [of k] d by (cases k) (auto split: if_splits)
    next
      case False
      then show ?thesis using d by (cases k) (auto split: if_splits)
    qed
  qed (auto simp: filled_def)
  show "notes_ok Q ?w" using d_goodD(5) [OF G] by (auto simp: notes_ok_def)
qed

text \<open>What a read that is set up, or fails, leaves alone.\<close>

definition same_but_iob :: "nat \<Rightarrow> dmon \<Rightarrow> dirw \<Rightarrow> dirw \<Rightarrow> bool" where
  "same_but_iob m d w w' \<longleftrightarrow> dw_proc w' = dw_proc w \<and> dw_queue w' = dw_queue w \<and> dw_handling w' = dw_handling w \<and>
     dw_lists w' = dw_lists w \<and> dw_links w' = dw_links w \<and> dw_freed w' = dw_freed w \<and>
     (\<exists>d'. dw_dms w' m = Some d' \<and> dm_tic d' = dm_tic d \<and> dm_pool d' = dm_pool d \<and> dm_nrefs d' = dm_nrefs d \<and>
        dm_dir d' = dm_dir d \<and> dm_event d' = dm_event d)"

lemma initiate_ok:
  assumes G: "d_good L Q None E w" and d: "dw_dms w m = Some d"
  shows "\<exists>w' r. TwapiDirectoryMonitorInitiateRead m err w = Some (w', r) \<and> d_good L Q None E w' \<and>
    same_but_iob m d w w' \<and> r = (if err = ERROR_IO_PENDING then 0 else err)"
proof -
  define b where "b = (case dm_iob d of None \<Rightarrow> dw_next w | Some b \<Rightarrow> b)"
  define w1 where "w1 = (case dm_iob d of None \<Rightarrow> w\<lparr>dw_dms := (dw_dms w)(m \<mapsto> d\<lparr>dm_iob := Some (dw_next w)\<rparr>),
      dw_next := Suc (dw_next w), dw_iobs := (dw_iobs w)(dw_next w \<mapsto> \<lparr>iob_event = None, iob_high = 0,
      iob_buf = replicate DIRMON_BUFSZ 0\<rparr>)\<rparr> | Some _ \<Rightarrow> w)"
  have G1: "d_good L Q None E w1"
    using alloc_iob [OF G d] G by (auto simp: w1_def split: option.splits)
  have d1: "dw_dms w1 m = Some (d\<lparr>dm_iob := Some b\<rparr>)" using d by (cases "dm_iob d") (auto simp: w1_def b_def)
  then obtain x where x: "dw_iobs w1 b = Some x" using d_good_iob_ex [OF G1 d1, of b] by auto
  define y where "y = x\<lparr>iob_high := 0, iob_event := dm_event d\<rparr>"
  define w2 where "w2 = w1\<lparr>dw_iobs := (dw_iobs w1)(b \<mapsto> y)\<rparr>"
  have G2: "d_good L Q None E w2" unfolding w2_def by (rule d_good_own_iob [OF G1 d1]) simp
  have pair: "(case dm_iob d of
         None \<Rightarrow> (let b = dw_next w
                  in (w\<lparr>dw_dms := (dw_dms w)(m \<mapsto> d\<lparr>dm_iob := Some b\<rparr>), dw_next := Suc b,
                        dw_iobs := (dw_iobs w)(b \<mapsto> \<lparr>iob_event = None, iob_high = 0,
                           iob_buf = replicate DIRMON_BUFSZ 0\<rparr>)\<rparr>, b))
       | Some b \<Rightarrow> (w, b)) = (w1, b)" by (cases "dm_iob d") (simp_all add: w1_def b_def Let_def)
  have code: "TwapiDirectoryMonitorInitiateRead m err w = (if err = 0 then Some (w2, 0)
     else if err = ERROR_IO_PENDING then Some (w2, 0)
     else do { w3 \<leftarrow> free_iob b w2; Some (upd_dm m (d\<lparr>dm_iob := None\<rparr>) w3, err) })"
    by (simp only: TwapiDirectoryMonitorInitiateRead_def d bind.bind_lunit pair,
        simp only: Let_def prod.case x bind.bind_lunit w2_def y_def)
  have s2: "same_but_iob m d w w2" using d1 by (simp add: same_but_iob_def w2_def w1_def split: option.splits)
  show ?thesis
  proof (cases "err = 0 \<or> err = ERROR_IO_PENDING")
    case True
    with G2 s2 show ?thesis by (auto simp: code)
  next
    case False
    have d2: "dw_dms w2 m = Some (d\<lparr>dm_iob := Some b\<rparr>)" using d1 by (simp add: w2_def)
    have T: "d_good L Q (Some b) E (upd_dm m (d\<lparr>dm_iob := None\<rparr>) (w2\<lparr>dw_iobs := (dw_iobs w2)(b \<mapsto> y)\<rparr>))"
      by (rule release_iob [OF G2 d2]) (simp_all add: y_def)
    have "w2\<lparr>dw_iobs := (dw_iobs w2)(b \<mapsto> y)\<rparr> = w2" by (simp add: w2_def)
    with T have T: "d_good L Q (Some b) E (upd_dm m (d\<lparr>dm_iob := None\<rparr>) w2)" by simp
    have "free_iob b w2 = Some (w2\<lparr>dw_iobs := (dw_iobs w2)(b := None)\<rparr>)" by (simp add: free_iob_def w2_def)
    moreover have eq: "upd_dm m (d\<lparr>dm_iob := None\<rparr>) (w2\<lparr>dw_iobs := (dw_iobs w2)(b := None)\<rparr>) =
        (upd_dm m (d\<lparr>dm_iob := None\<rparr>) w2)\<lparr>dw_iobs := (dw_iobs w2)(b := None)\<rparr>" by (simp add: upd_dm_def)
    moreover have "d_good L Q None E ((upd_dm m (d\<lparr>dm_iob := None\<rparr>) w2)\<lparr>dw_iobs := (dw_iobs w2)(b := None)\<rparr>)"
      using free_taken(2) [OF T] by simp
    moreover have "same_but_iob m d w ((upd_dm m (d\<lparr>dm_iob := None\<rparr>) w2)\<lparr>dw_iobs := (dw_iobs w2)(b := None)\<rparr>)"
      using s2 by (simp add: same_but_iob_def)
    ultimately show ?thesis using False by (simp add: code eq del: upd_dm_simps)
  qed
qed

section \<open>Queueing\<close>

lemma queue_ok:
  assumes G: "d_good L (dw_queue w) T E w" and tls: "tls_inv (dw_proc w)"
    and d: "dw_dms w m = Some d" "dm_tic d = Some c"
  shows "\<exists>w' n. queue_note m T winerr w = Some w' \<and> dw_queue w' = dw_queue w @ [n] \<and> nt_dm n = m \<and>
    nt_iob n = T \<and> nt_winerr n = winerr \<and> nt_tic n = c \<and>
    d_good L (dw_queue w') None E w' \<and> tls_inv (dw_proc w') \<and> dw_handling w' = dw_handling w \<and>
    dw_lists w' = dw_lists w \<and> dw_dms w' m = Some (d\<lparr>dm_nrefs := dm_nrefs d + 1\<rparr>)"
proof -
  have m: "m \<in> set (L c)" using d_goodD(2) [OF G, of m] d by (simp add: dm_ok_def)
  obtain t where t: "p_tics (dw_proc w) c = Some t" using monitor_tic(2) [OF G m] by blast
  have g: "ctx_good t (tic_refs L (dw_queue w) w c)" using d_goodD(3) [OF G, of c] t by (simp add: tic_ok_def)
  have pos: "0 < tic_nrefs t" using g length_pos_if_in_set [OF m] unfolding ctx_good_def tic_refs_def by linarith
  define n where "n = \<lparr>nt_id = dw_next w, nt_tic = c, nt_dm = m, nt_iob = T, nt_winerr = winerr\<rparr>"
  define p where "p = upd_tic c (t\<lparr>tic_nrefs := tic_nrefs t + 1\<rparr>) (dw_proc w)"
  define w' where "w' = (upd_dm m (d\<lparr>dm_nrefs := dm_nrefs d + 1\<rparr>) w)\<lparr>dw_proc := p, dw_next := Suc (dw_next w),
      dw_queue := dw_queue w @ [n]\<rparr>"
  have code: "queue_note m T winerr w = Some w'"
    using d ContextRef_ok [OF tls t, of 1]
    by (simp add: queue_note_def TwapiDirectoryMonitorContextRef_def ExchangeAdd_def w'_def p_def n_def)
  have "d_good L (dw_queue w @ [n]) None E w'"
  proof (rule d_goodI)
    show "lists_ok L w'" using d_goodD(1) [OF G] by (rule lists_ok_cong) (simp_all add: w'_def)
    show "dm_ok L (dw_queue w @ [n]) E w' m'" for m'
    proof (rule dm_ok_frame [where m = m])
      show "\<forall>m. dm_ok L (dw_queue w) E w m" using d_goodD(2) [OF G] by blast
      show "dm_ok L (dw_queue w @ [n]) E w' m" using d_goodD(2) [OF G, of m] d by (auto simp: dm_ok_def w'_def n_def)
    qed (simp_all add: w'_def n_def)
    show "tic_ok L (dw_queue w @ [n]) w' c'" for c'
    proof (cases "c' = c")
      case True
      have "ctx_good (t\<lparr>tic_nrefs := tic_nrefs t + 1\<rparr>) (Suc (tic_refs L (dw_queue w) w c))"
        by (rule ctx_good_send [OF g pos])
      then show ?thesis using True by (simp add: tic_ok_def tic_refs_def w'_def p_def n_def)
    next
      case False
      show ?thesis by (rule tic_ok_cong [OF d_goodD(3) [OF G]]) (use False in \<open>simp_all add: tic_refs_def w'_def p_def n_def\<close>)
    qed
    note I = d_goodD(4) [OF G]
    have ids: "\<forall>n' \<in> set (dw_queue w). nt_id n' \<noteq> dw_next w" using d_goodD(5) [OF G] by (auto simp: notes_ok_def)
    show "iobs_ok (dw_queue w @ [n]) None w'"
    proof (cases T)
      case None
      show ?thesis
        by (rule iobs_same [OF I]) (use None d in \<open>auto simp: holds_eq w'_def n_def split: owner.splits\<close>)
    next
      case (Some b)
      have h: "holds (dw_queue w) T w OCode b" using Some by simp
      obtain x where x: "dw_iobs w b = Some x" "filled OCode x" using iobs_okD(1) [OF I h] by blast
      show ?thesis
      proof (rule iobs_move [OF I, of w' b x "ONote (dw_next w)"])
        fix k b'
        show "holds (dw_queue w @ [n]) None w' k b' = (if b' = b then k = ONote (dw_next w) else holds (dw_queue w) T w k b')"
        proof (cases "b' = b")
          case True
          then show ?thesis using iobs_okD(2) [OF I h, of k] Some ids d
            by (cases k) (auto simp: w'_def n_def split: if_splits)
        next
          case False
          then show ?thesis using Some d by (cases k) (auto simp: w'_def n_def split: if_splits)
        qed
      qed (use x iobs_okD(3) [OF I x(1)] in \<open>auto simp: w'_def filled_def\<close>)
    qed
    show "notes_ok (dw_queue w @ [n]) w'" using d_goodD(5) [OF G] ids
      by (auto simp: notes_ok_def w'_def n_def)
  qed
  moreover have "tls_inv p" using tls by (simp add: p_def)
  ultimately show ?thesis using code by (intro exI [of _ w'] exI [of _ n]) (simp add: w'_def n_def)
qed

section \<open>The function of the pool\<close>

text \<open>The invariant between the operations.\<close>

definition d_state :: "(tid \<Rightarrow> nat list) \<Rightarrow> dirw \<Rightarrow> bool" where
  "d_state L w \<longleftrightarrow> d_good L (dw_queue w) None (\<lambda>_. 0) w \<and> tls_inv (dw_proc w) \<and>
     (\<forall>n \<in> set (dw_queue w). nt_winerr n = 0 \<longrightarrow> nt_iob n \<noteq> None)"

lemma d_stateD:
  "d_state L w \<Longrightarrow> d_good L (dw_queue w) None (\<lambda>_. 0) w" "d_state L w \<Longrightarrow> tls_inv (dw_proc w)"
  "d_state L w \<Longrightarrow> n \<in> set (dw_queue w) \<Longrightarrow> nt_winerr n = 0 \<Longrightarrow> nt_iob n \<noteq> None"
  by (auto simp: d_state_def)

lemma upd_dm_iobs: "(upd_dm m d w)\<lparr>dw_iobs := bs\<rparr> = upd_dm m d (w\<lparr>dw_iobs := bs\<rparr>)"
  "(upd_dm m d (w\<lparr>dw_iobs := as\<rparr>))\<lparr>dw_iobs := bs\<rparr> = upd_dm m d (w\<lparr>dw_iobs := bs\<rparr>)"
  by (simp_all add: upd_dm_def)

lemma pool_error_ok:
  assumes S: "d_state L w" and d: "dw_dms w m = Some d" "dm_tic d = Some c" and e: "winerr \<noteq> 0"
  shows "\<exists>w'. pool_error m winerr w = Some w' \<and> d_state L w' \<and> dw_lists w' = dw_lists w \<and>
    dw_handling w' = dw_handling w \<and> length (dw_queue w') = Suc (length (dw_queue w))"
proof -
  note G = d_stateD(1) [OF S]
  have "\<exists>w1 d1. (case dm_iob d of None \<Rightarrow> Some w
       | Some b \<Rightarrow> do { w' \<leftarrow> free_iob b w; Some (upd_dm m (d\<lparr>dm_iob := None\<rparr>) w') }) = Some w1 \<and>
     d_good L (dw_queue w1) None (\<lambda>_. 0) w1 \<and> dw_dms w1 m = Some d1 \<and> dm_tic d1 = Some c \<and> dw_proc w1 = dw_proc w \<and>
     dw_queue w1 = dw_queue w \<and> dw_handling w1 = dw_handling w \<and> dw_lists w1 = dw_lists w"
  proof (cases "dm_iob d")
    case None
    with G d show ?thesis by auto
  next
    case (Some b)
    then obtain x where x: "dw_iobs w b = Some x" using d_good_iob_ex [OF G d(1)] by blast
    let ?y = "\<lparr>iob_event = None, iob_high = 0, iob_buf = []\<rparr>"
    define d1 where "d1 = d\<lparr>dm_iob := None\<rparr>"
    have "d_good L (dw_queue w) (Some b) (\<lambda>_. 0) (upd_dm m d1 (w\<lparr>dw_iobs := (dw_iobs w)(b \<mapsto> ?y)\<rparr>))"
      by (rule release_iob [OF G d(1) Some]) (simp_all add: d1_def)
    from free_taken(2) [OF this] have "d_good L (dw_queue w) None (\<lambda>_. 0)
        (upd_dm m d1 (w\<lparr>dw_iobs := (dw_iobs w)(b := None)\<rparr>))" by (simp add: upd_dm_iobs)
    with x Some d show ?thesis
      by (intro exI [of _ "upd_dm m d1 (w\<lparr>dw_iobs := (dw_iobs w)(b := None)\<rparr>)"] exI [of _ d1])
         (simp add: free_iob_def d1_def)
  qed
  then obtain w1 d1 where w1: "(case dm_iob d of None \<Rightarrow> Some w
       | Some b \<Rightarrow> do { w' \<leftarrow> free_iob b w; Some (upd_dm m (d\<lparr>dm_iob := None\<rparr>) w') }) = Some w1"
    "d_good L (dw_queue w1) None (\<lambda>_. 0) w1" "dw_dms w1 m = Some d1" "dm_tic d1 = Some c" "dw_proc w1 = dw_proc w"
    "dw_queue w1 = dw_queue w" "dw_handling w1 = dw_handling w" "dw_lists w1 = dw_lists w" by blast
  have tls: "tls_inv (dw_proc w1)" using d_stateD(2) [OF S] w1(5) by simp
  from queue_ok [OF w1(2) tls w1(3,4), of winerr] obtain w' n where w': "queue_note m None winerr w1 = Some w'"
    "dw_queue w' = dw_queue w1 @ [n]" "nt_winerr n = winerr" "d_good L (dw_queue w') None (\<lambda>_. 0) w'"
    "tls_inv (dw_proc w')" "dw_handling w' = dw_handling w1" "dw_lists w' = dw_lists w1" by blast
  then have "d_state L w'" using e d_stateD(3) [OF S] w1(6) by (auto simp: d_state_def)
  with w' w1 d show ?thesis by (simp add: pool_error_def)
qed

text \<open>
  The contract of the system: what has been read fits into the buffer, and the calls fail with
  an error code.
\<close>

definition read_ok :: "nat + nat \<times> byte list \<Rightarrow> bool" where
  "read_ok res \<longleftrightarrow> (case res of Inl e \<Rightarrow> e \<noteq> 0 | Inr (n, bytes) \<Rightarrow> n \<le> length bytes)"

lemma pool_fn_ok:
  assumes S: "d_state L w" and d: "dw_dms w m = Some d" "dm_pool d \<noteq> INVALID_HANDLE_VALUE" "dm_iob d \<noteq> None"
    and res: "read_ok res"
  shows "\<exists>w'. TwapiDirectoryMonitorThreadPoolFn m False res read_err w = Some w' \<and> d_state L w' \<and>
    dw_lists w' = dw_lists w \<and> dw_handling w' = dw_handling w"
proof -
  note G = d_stateD(1) [OF S]
  obtain c where c: "dm_tic d = Some c" using d_goodD(2) [OF G, of m] d by (auto simp: dm_ok_def)
  obtain b where b: "dm_iob d = Some b" using d(3) by blast
  obtain x where x: "dw_iobs w b = Some x" using d_good_iob_ex [OF G d(1) b] by blast
  show ?thesis
  proof (cases res)
    case (Inl e)
    with res have "e \<noteq> 0" by (simp add: read_ok_def)
    with pool_error_ok [OF S d(1) c, of e] Inl d(1) b x S show ?thesis
      by (auto simp: TwapiDirectoryMonitorThreadPoolFn_def)
  next
    case (Inr r)
    then obtain high bytes where r: "res = Inr (high, bytes)" by (cases r) auto
    with res have hb: "high \<le> length bytes" by (simp add: read_ok_def)
    define d1 where "d1 = d\<lparr>dm_iob := None\<rparr>"
    define w1 where "w1 = upd_dm m d1 (w\<lparr>dw_iobs := (dw_iobs w)(b \<mapsto> x\<lparr>iob_high := high, iob_buf := bytes, iob_event := None\<rparr>)\<rparr>)"
    have G1: "d_good L (dw_queue w1) (Some b) (\<lambda>_. 0) w1"
      using release_iob [OF G d(1) b, of "x\<lparr>iob_high := high, iob_buf := bytes, iob_event := None\<rparr>" d1] hb
      by (simp add: w1_def d1_def)
    have d1: "dw_dms w1 m = Some d1" "dm_tic d1 = Some c" using c by (simp_all add: w1_def d1_def)
    have tls: "tls_inv (dw_proc w1)" using d_stateD(2) [OF S] by (simp add: w1_def)
    from queue_ok [OF G1 tls d1, of 0] obtain w2 n where w2: "queue_note m (Some b) 0 w1 = Some w2"
      "dw_queue w2 = dw_queue w1 @ [n]" "nt_iob n = Some b" "d_good L (dw_queue w2) None (\<lambda>_. 0) w2"
      "tls_inv (dw_proc w2)" "dw_handling w2 = dw_handling w1" "dw_lists w2 = dw_lists w1"
      "dw_dms w2 m = Some (d1\<lparr>dm_nrefs := dm_nrefs d1 + 1\<rparr>)" by blast
    from initiate_ok [OF w2(4,8), of read_err] obtain w3 e where w3: "TwapiDirectoryMonitorInitiateRead m read_err w2 = Some (w3, e)"
      "d_good L (dw_queue w2) None (\<lambda>_. 0) w3" "same_but_iob m (d1\<lparr>dm_nrefs := dm_nrefs d1 + 1\<rparr>) w2 w3" by blast
    have q3: "dw_queue w3 = dw_queue w2" "dw_proc w3 = dw_proc w2" "dw_lists w3 = dw_lists w2" "dw_handling w3 = dw_handling w2"
      using w3(3) by (simp_all add: same_but_iob_def)
    obtain d3 where d3: "dw_dms w3 m = Some d3" "dm_tic d3 = Some c" using w3(3) d1(2) by (auto simp: same_but_iob_def)
    have S3: "d_state L w3"
      using w3(2) w2(2,3,5) q3 d_stateD(3) [OF S] by (auto simp: d_state_def w1_def)
    have code: "TwapiDirectoryMonitorThreadPoolFn m False res read_err w = (if e \<noteq> 0 then pool_error m e w3 else Some w3)"
      using d(1) b x r w2(1) w3(1) by (simp add: TwapiDirectoryMonitorThreadPoolFn_def w1_def d1_def)
    have fr: "dw_lists w3 = dw_lists w" "dw_handling w3 = dw_handling w" using q3 w2 by (simp_all add: w1_def)
    show ?thesis using pool_error_ok [OF S3 d3, of e] S3 fr unfolding code by (cases "e = 0") auto
  qed
qed

section \<open>The handler of a notification\<close>

lemma handling_iobs: "w\<lparr>dw_handling := h, dw_iobs := bs\<rparr> = w\<lparr>dw_iobs := bs, dw_handling := h\<rparr>"
  by simp

lemma unref_handling:
  assumes "d_good L Q T ((\<lambda>_. 0)(m := 1)) (w\<lparr>dw_handling := h # dw_handling w\<rparr>)"
  shows "\<exists>w'. TwapiDirectoryMonitorContextUnref m 1 w = Some w' \<and>
    d_good L Q T (\<lambda>_. 0) (w'\<lparr>dw_handling := h # dw_handling w'\<rparr>) \<and>
    dw_proc w' = dw_proc w \<and> dw_queue w' = dw_queue w \<and> dw_handling w' = dw_handling w"
proof -
  let ?w = "w\<lparr>dw_handling := h # dw_handling w\<rparr>"
  from unref_held [OF assms, of 1 m] obtain w1 where w1: "TwapiDirectoryMonitorContextUnref m 1 ?w = Some w1"
    "d_good L Q T (\<lambda>_. 0) w1" by (auto simp: fun_upd_idem)
  obtain d where d: "dw_dms w m = Some d"
    using d_goodD(2) [OF assms, of m] by (auto simp: dm_ok_def split: option.splits)
  have b: "dw_iobs w b \<noteq> None" if "dm_iob d = Some b" for b
    using d_good_iob_ex [OF assms, of m d b] d that by simp
  define w' where "w' = (if dm_nrefs d \<le> 1 then free_dm m d w else upd_dm m (d\<lparr>dm_nrefs := dm_nrefs d - 1\<rparr>) w)"
  have "TwapiDirectoryMonitorContextUnref m 1 w = Some w'" unfolding w'_def by (rule dm_unref_effect [OF d b])
  moreover have "w1 = w'\<lparr>dw_handling := h # dw_handling w'\<rparr>"
    using dm_unref_effect [of ?w m d 1] d b w1(1)
    by (cases "dm_iob d") (auto simp: w'_def free_dm_def upd_dm_def split: if_splits)
  ultimately show ?thesis using w1(2) by (auto simp: w'_def)
qed

text \<open>Handling notification \<open>n\<close>, which has been taken off the queue.\<close>

lemma callback_ok:
  assumes G: "d_good L (n # dw_queue w) None (\<lambda>_. 0) w" and tls: "tls_inv (dw_proc w)"
    and full: "nt_winerr n = 0 \<longrightarrow> nt_iob n \<noteq> None"
  shows "\<exists>w' report L'. TwapiDirectoryMonitorCallbackFn cur deleted casematch n w = Some (w', report) \<and>
    d_good L' (dw_queue w) None (\<lambda>_. 0) (w'\<lparr>dw_handling := nt_tic n # dw_handling w'\<rparr>) \<and>
    tls_inv (dw_proc w') \<and> dw_queue w' = dw_queue w \<and> dw_handling w' = dw_handling w"
proof -
  let ?m = "nt_dm n" let ?n = "n\<lparr>nt_iob := None\<rparr>" let ?E = "(\<lambda>_. 0)(nt_dm n := 1 :: nat)"
  obtain d where d: "dw_dms w ?m = Some d" using d_goodD(2) [OF G, of ?m] by (auto simp: dm_ok_def split: option.splits)
  have tic: "\<exists>t. p_tics (dw_proc w) c = Some t" if "dm_tic d = Some c" for c
    using monitor_tic(2) [OF G, of ?m c] d_goodD(2) [OF G, of ?m] d that by (simp add: dm_ok_def)
  obtain dead where dead: "(case dm_tic d of None \<Rightarrow> Some True
       | Some c \<Rightarrow> do { t \<leftarrow> p_tics (dw_proc w) c; Some (tic_interp t = None \<or> deleted) }) = Some dead"
    using tic by (cases "dm_tic d") auto
  note taken = take_note_iob [OF G]
  have free: "\<exists>w1. (case nt_iob n of None \<Rightarrow> Some v | Some b \<Rightarrow> free_iob b v) = Some w1 \<and> d_good L' Q None E w1 \<and>
      dw_proc w1 = dw_proc v \<and> dw_queue w1 = dw_queue v \<and> dw_handling w1 = dw_handling v \<and> dw_dms w1 = dw_dms v"
    if "d_good L' Q (nt_iob n) E v" for v L' Q E
    using that free_taken [of L' Q _ E v] by (cases "nt_iob n") auto
  show ?thesis
  proof (cases dead)
    case True
    from free [OF taken] obtain w1 where w1: "(case nt_iob n of None \<Rightarrow> Some w | Some b \<Rightarrow> free_iob b w) = Some w1"
      "d_good L (?n # dw_queue w) None (\<lambda>_. 0) w1" "dw_proc w1 = dw_proc w" "dw_queue w1 = dw_queue w"
      "dw_handling w1 = dw_handling w" "dw_dms w1 = dw_dms w" by blast
    have d1: "dw_dms w1 ?m = Some d" using d w1(6) by simp
    have "\<exists>w2 L'. (if dm_tic d \<noteq> None then TwapiShutdownDirectoryMonitor cur ?m w1 else Some w1) = Some w2 \<and>
        d_good L' (?n # dw_queue w) None (\<lambda>_. 0) w2 \<and> tls_inv (dw_proc w2) \<and> dw_queue w2 = dw_queue w \<and>
        dw_handling w2 = dw_handling w"
    proof (cases "dm_tic d")
      case None
      with w1 tls show ?thesis by auto
    next
      case (Some c)
      obtain t where "p_tics (dw_proc w1) c = Some t" using tic [OF Some] w1(3) by auto
      moreover have "tls_inv (dw_proc w1)" using tls w1(3) by simp
      ultimately obtain p where p: "TwapiInterpContextUnref cur c 1 (dw_proc w1) = Some p" "tls_inv p"
        using ContextUnref_ok by blast
      from dm_shutdown_ok [OF w1(2) d1 Some p(1)] Some w1(4,5) p(2) show ?thesis by auto
    qed
    then obtain w2 L' where w2: "(if dm_tic d \<noteq> None then TwapiShutdownDirectoryMonitor cur ?m w1 else Some w1) = Some w2"
        "d_good L' (?n # dw_queue w) None (\<lambda>_. 0) w2" "tls_inv (dw_proc w2)" "dw_queue w2 = dw_queue w"
        "dw_handling w2 = dw_handling w" by blast
    have "d_good L' (dw_queue w) None ?E (w2\<lparr>dw_handling := nt_tic n # dw_handling w2\<rparr>)"
      using hold_note [OF w2(2)] by simp
    from unref_handling [OF this] w2(3-5) obtain w3 where "TwapiDirectoryMonitorContextUnref ?m 1 w2 = Some w3"
      "d_good L' (dw_queue w) None (\<lambda>_. 0) (w3\<lparr>dw_handling := nt_tic n # dw_handling w3\<rparr>)"
      "dw_proc w3 = dw_proc w2" "dw_queue w3 = dw_queue w2" "dw_handling w3 = dw_handling w2" by blast
    with d dead True w1(1) w2 show ?thesis
      by (simp add: TwapiDirectoryMonitorCallbackFn_def) blast
  next
    case False
    then obtain c where c: "dm_tic d = Some c" using dead by (cases "dm_tic d") auto
    have "\<exists>report. (if nt_winerr n \<noteq> 0 then Some (DmError (dm_dir d) (nt_winerr n))
          else do {
            b \<leftarrow> nt_iob n;
            x \<leftarrow> dw_iobs w b;
            ch \<leftarrow> notifications casematch (dm_patterns d) (iob_buf x) (iob_high x);
            Some (if ch = [] then DmQuiet else DmChanges (dm_dir d) ch) }) = Some report"
    proof (cases "nt_winerr n = 0")
      case True
      then obtain b where b: "nt_iob n = Some b" using full by blast
      then have "holds (n # dw_queue w) None w (ONote (nt_id n)) b" by simp
      from iobs_okD(1) [OF d_goodD(4) [OF G] this] obtain x where x: "dw_iobs w b = Some x"
        "iob_high x \<le> length (iob_buf x)" by (auto simp: filled_def)
      from walk_in_bounds [OF x(2), of "name_matches casematch (dm_patterns d)" 0 "[]"] x(1) b True show ?thesis
        by (auto simp: notifications_def)
    qed simp
    then obtain report where report: "(if nt_winerr n \<noteq> 0 then Some (DmError (dm_dir d) (nt_winerr n))
          else do {
            b \<leftarrow> nt_iob n;
            x \<leftarrow> dw_iobs w b;
            ch \<leftarrow> notifications casematch (dm_patterns d) (iob_buf x) (iob_high x);
            Some (if ch = [] then DmQuiet else DmChanges (dm_dir d) ch) }) = Some report" by blast
    have "d_good L (dw_queue w) (nt_iob n) ?E (w\<lparr>dw_handling := nt_tic n # dw_handling w\<rparr>)"
      using hold_note [OF taken] by simp
    from unref_handling [OF this] obtain w1 where w1: "TwapiDirectoryMonitorContextUnref ?m 1 w = Some w1"
      "d_good L (dw_queue w) (nt_iob n) (\<lambda>_. 0) (w1\<lparr>dw_handling := nt_tic n # dw_handling w1\<rparr>)"
      "dw_proc w1 = dw_proc w" "dw_queue w1 = dw_queue w" "dw_handling w1 = dw_handling w" by blast
    have "\<exists>w2. (case nt_iob n of None \<Rightarrow> Some w1 | Some b \<Rightarrow> free_iob b w1) = Some w2 \<and>
        d_good L (dw_queue w) None (\<lambda>_. 0) (w2\<lparr>dw_handling := nt_tic n # dw_handling w2\<rparr>) \<and>
        dw_proc w2 = dw_proc w \<and> dw_queue w2 = dw_queue w \<and> dw_handling w2 = dw_handling w"
    proof (cases "nt_iob n")
      case None
      with w1 show ?thesis by auto
    next
      case (Some b)
      with w1(2) free_taken [of L "dw_queue w" b "\<lambda>_. 0" "w1\<lparr>dw_handling := nt_tic n # dw_handling w1\<rparr>"] w1(3-5)
      show ?thesis by (auto simp: free_iob_def handling_iobs split: option.splits)
    qed
    then obtain w2 where w2: "(case nt_iob n of None \<Rightarrow> Some w1 | Some b \<Rightarrow> free_iob b w1) = Some w2"
        "d_good L (dw_queue w) None (\<lambda>_. 0) (w2\<lparr>dw_handling := nt_tic n # dw_handling w2\<rparr>)"
        "dw_proc w2 = dw_proc w" "dw_queue w2 = dw_queue w" "dw_handling w2 = dw_handling w" by blast
    have "TwapiDirectoryMonitorCallbackFn cur deleted casematch n w = Some (w2, report)"
      unfolding TwapiDirectoryMonitorCallbackFn_def Let_def d bind.bind_lunit dead report w1(1) w2(1)
      using False by simp
    with w2 tls show ?thesis by (intro exI [of _ w2] exI [of _ report] exI [of _ L]) simp
  qed
qed

section \<open>Registration\<close>

lemma new_ok:
  assumes G: "d_good L Q T E w" and new: "TwapiDirectoryMonitorContextNew path sub flt ps w = Some (w0, m)"
    and E: "E m = 0"
  shows "d_good L Q T E w0" "m = dw_next w" "\<exists>d. dw_dms w0 m = Some d \<and> dm_tic d = None \<and> dm_nrefs d = 0 \<and>
    dm_dir d = INVALID_HANDLE_VALUE \<and> dm_event d = None \<and> dm_iob d = None"
    "dw_proc w0 = dw_proc w" "dw_queue w0 = dw_queue w" "dw_handling w0 = dw_handling w" "dw_lists w0 = dw_lists w"
proof -
  define d where "d = \<lparr>dm_tic = None, dm_dir = INVALID_HANDLE_VALUE, dm_pool = INVALID_HANDLE_VALUE,
      dm_event = None, dm_nrefs = 0, dm_iob = None, dm_path = path, dm_filter = flt, dm_subtree = sub, dm_patterns = ps\<rparr>"
  have w0: "w0 = w\<lparr>dw_dms := (dw_dms w)(m \<mapsto> d), dw_links := ZLINK_INIT m (dw_links w), dw_next := Suc m\<rparr>"
    and m: "m = dw_next w"
    using new by (auto simp: TwapiDirectoryMonitorContextNew_def d_def Let_def split: if_splits)
  show "m = dw_next w" by (rule m)
  show "\<exists>d. dw_dms w0 m = Some d \<and> dm_tic d = None \<and> dm_nrefs d = 0 \<and> dm_dir d = INVALID_HANDLE_VALUE \<and>
      dm_event d = None \<and> dm_iob d = None"
    "dw_proc w0 = dw_proc w" "dw_queue w0 = dw_queue w" "dw_handling w0 = dw_handling w" "dw_lists w0 = dw_lists w"
    by (simp_all add: w0 d_def)
  have none: "dw_dms w m = None"
    using d_goodD(2) [OF G, of m] m by (cases "dw_dms w m") (auto simp: dm_ok_def)
  have out: "m \<notin> set (L c)" for c using d_goodD(2) [OF G, of m] none by (simp add: dm_ok_def)
  have freed: "m \<notin> set (dw_freed w)" using d_goodD(5) [OF G] m by (auto simp: notes_ok_def)
  show "d_good L Q T E w0"
  proof (rule d_goodI)
    show "lists_ok L w0" unfolding lists_ok_def
    proof
      fix c
      have o: "links_outside {m} (dw_links w) (ZLINK_INIT m (dw_links w))" by (simp add: ZLINK_INIT_def)
      show "case dw_lists w0 c of None \<Rightarrow> L c = [] | Some l \<Rightarrow> zl_rep (dw_links w0, l) (L c)"
        using spec [OF d_goodD(1) [OF G, unfolded lists_ok_def], of c] zl_rep_frame [OF _ o] out [of c]
        by (auto simp: w0 split: option.splits)
    qed
    show "dm_ok L Q E w0 m'" for m'
    proof (rule dm_ok_frame [where m = m])
      show "\<forall>m. dm_ok L Q E w m" using d_goodD(2) [OF G] by blast
      show "dm_ok L Q E w0 m" using d_goodD(2) [OF G, of m] none freed out E by (simp add: dm_ok_def w0 d_def)
    qed (use m in \<open>simp_all add: w0\<close>)
    show "tic_ok L Q w0 c" for c by (rule tic_ok_cong [OF d_goodD(3) [OF G]]) (simp_all add: tic_refs_def w0)
    show "iobs_ok Q T w0"
      by (rule iobs_same [OF d_goodD(4) [OF G]]) (use none m in \<open>auto simp: w0 d_def holds_eq split: owner.splits\<close>)
    show "notes_ok Q w0" using d_goodD(5) [OF G] m by (auto simp: notes_ok_def w0)
  qed
qed

lemma link_ok:
  assumes G: "d_good L Q T E w" and d: "dw_dms w m = Some d" "dm_tic d = None"
    and l: "dw_lists w c = Some l" and t: "p_tics (dw_proc w) c = Some t" "0 < tic_nrefs t"
    and z: "ZLIST_PREPEND m (dm_list l w) = Some z" "zl_rep z (m # L c)"
      "links_outside (insert m (set (L c))) (dw_links w) (fst z)"
    and d': "dm_tic d' = Some c" "dm_pool d' \<noteq> INVALID_HANDLE_VALUE" "dm_nrefs d' = dm_nrefs d + 2" "dm_iob d' = dm_iob d"
    and w': "dw_dms w' = (dw_dms w)(m \<mapsto> d')" "dw_links w' = fst z" "dw_lists w' = (dw_lists w)(c \<mapsto> snd z)"
      "dw_proc w' = upd_tic c (t\<lparr>tic_nrefs := tic_nrefs t + 1\<rparr>) (dw_proc w)" "dw_iobs w' = dw_iobs w"
      "dw_next w' = dw_next w" "dw_handling w' = dw_handling w" "dw_freed w' = dw_freed w"
  shows "d_good (L(c := m # L c)) Q T E w'" (is "d_good ?L Q T E w'")
proof (rule d_goodI)
  note M = d_goodD(2) [OF G]
  have out: "m \<notin> set (L c')" for c' using M [of m] d by (simp add: dm_ok_def)
  show "lists_ok ?L w'"
  proof (rule lists_ok_set [of L w Q E c l "insert m (set (L c))" "fst z" "snd z"])
    show "\<forall>m. dm_ok L Q E w m" using M by blast
    show "insert m (set (L c)) \<inter> set (L c') = {}" if "c' \<noteq> c" for c'
      using lists_disjoint [of L Q E w c c'] M that out by blast
  qed (use d_goodD(1) [OF G] l z w' in simp_all)
  show "dm_ok ?L Q E w' m'" for m'
  proof (rule dm_ok_frame [where m = m])
    show "\<forall>m. dm_ok L Q E w m" using M by blast
    show "dm_ok ?L Q E w' m" using M [of m] d d' out w' by (auto simp: dm_ok_def)
  qed (use w' in auto)
  have g: "ctx_good t (tic_refs L Q w c)" using d_goodD(3) [OF G, of c] t(1) by (simp add: tic_ok_def)
  show "tic_ok ?L Q w' c'" for c'
  proof (cases "c' = c")
    case True
    then show ?thesis using ctx_good_send [OF g t(2)] w' by (simp add: tic_ok_def tic_refs_def)
  next
    case False
    show ?thesis by (rule tic_ok_cong [OF d_goodD(3) [OF G]]) (use False w' in \<open>simp_all add: tic_refs_def\<close>)
  qed
  show "iobs_ok Q T w'"
    by (rule iobs_same [OF d_goodD(4) [OF G]]) (use d d' w' in \<open>auto simp: holds_eq split: owner.splits\<close>)
  show "notes_ok Q w'" using d_goodD(5) [OF G] w' by (simp add: notes_ok_def)
qed

lemma d_state_cong:
  "d_state L w \<Longrightarrow> d_good L' (dw_queue w') None (\<lambda>_. 0) w' \<Longrightarrow> dw_queue w' = dw_queue w \<Longrightarrow>
   tls_inv (dw_proc w') \<Longrightarrow> d_state L' w'"
  by (simp add: d_state_def)

text \<open>A registration that fails early leaves its monitor behind, without references.\<close>

definition orphan :: "nat \<Rightarrow> dirw \<Rightarrow> bool" where
  "orphan m w \<longleftrightarrow> (\<exists>d. dw_dms w m = Some d \<and> dm_tic d = None \<and> dm_nrefs d = 0)"

lemma idle_orphan:
  assumes S: "d_state L w" and G: "d_good L (dw_queue w0) None (\<lambda>_. 0) w0"
    and q: "dw_queue w0 = dw_queue w" "dw_proc w0 = dw_proc w" "dw_lists w0 = dw_lists w" "dw_handling w0 = dw_handling w"
    and d: "dw_dms w0 m = Some d" "dm_tic d = None" and n: "for_dm (dw_queue w) m = 0"
  shows "\<exists>w'. TwapiShutdownDirectoryMonitor cur m w0 = Some w' \<and> d_state L w' \<and> orphan m w' \<and>
    dw_queue w' = dw_queue w \<and> dw_lists w' = dw_lists w \<and> dw_handling w' = dw_handling w"
proof -
  from shutdown_idle [OF G d] obtain w' d' where w': "TwapiShutdownDirectoryMonitor cur m w0 = Some w'"
    "d_good L (dw_queue w0) None (\<lambda>_. 0) w'" "dw_proc w' = dw_proc w0" "dw_queue w' = dw_queue w0"
    "dw_lists w' = dw_lists w0" "dw_handling w' = dw_handling w0" "dw_dms w' m = Some d'" "dm_tic d' = None" by blast
  have "dm_nrefs d' = 0" using d_goodD(2) [OF w'(2), of m] w'(7,8) n q by (simp add: dm_ok_def)
  moreover have "d_state L w'" by (rule d_state_cong [OF S]) (use w' q d_stateD(2) [OF S] in simp_all)
  ultimately show ?thesis using w' q by (auto simp: orphan_def)
qed

text \<open>What a registration leaves: a monitor at the head of the list of its context.\<close>

definition registered :: "tid \<Rightarrow> nat \<Rightarrow> int \<Rightarrow> dirw \<Rightarrow> bool" where
  "registered c m h w \<longleftrightarrow> (\<exists>d. dw_dms w m = Some d \<and> dm_tic d = Some c \<and> dm_dir d = h \<and>
     dm_pool d \<noteq> INVALID_HANDLE_VALUE \<and> dm_nrefs d = 2)"

lemma fresh_dm: "d_good L Q T E w \<Longrightarrow> dw_dms w (dw_next w) = None \<and> for_dm Q (dw_next w) = 0"
  using d_goodD(2) [of L Q T E w "dw_next w"] by (cases "dw_dms w (dw_next w)") (auto simp: dm_ok_def)

lemma dm_register_ok:
  assumes S: "d_state L w" and l: "dw_lists w c \<noteq> None" and t: "p_tics (dw_proc w) c = Some t" "0 < tic_nrefs t"
    and ps: "length ps \<le> MAXPATTERNS" and tp: "tp \<noteq> INVALID_HANDLE_VALUE"
  shows "\<exists>w' r. Twapi_RegisterDirectoryMonitorObjCmd cur c path sub flt ps dir event read_err (Inr tp) left w = Some (w', r) \<and>
    dw_queue w' = dw_queue w \<and> dw_handling w' = dw_handling w \<and>
    (case r of Inr h \<Rightarrow> dir = Inr h \<and> d_state (L(c := dw_next w # L c)) w' \<and> registered c (dw_next w) h w'
     | Inl e \<Rightarrow> d_state L w' \<and> orphan (dw_next w) w')"
proof -
  note G = d_stateD(1) [OF S]
  let ?m = "dw_next w"
  obtain w0 where w0: "TwapiDirectoryMonitorContextNew path sub flt ps w = Some (w0, ?m)"
    using ps by (auto simp: TwapiDirectoryMonitorContextNew_def Let_def)
  note N = new_ok [OF G w0 refl]
  obtain d where d: "dw_dms w0 ?m = Some d" "dm_tic d = None" "dm_nrefs d = 0" using N(3) by blast
  have zero: "for_dm (dw_queue w) ?m = 0" using fresh_dm [OF G] by simp
  have idle: "\<exists>w'. TwapiShutdownDirectoryMonitor cur ?m v = Some w' \<and> d_state L w' \<and> orphan ?m w' \<and>
      dw_queue w' = dw_queue w \<and> dw_handling w' = dw_handling w"
    if "d_good L (dw_queue w) None (\<lambda>_. 0) v" "dw_queue v = dw_queue w" "dw_proc v = dw_proc w" "dw_lists v = dw_lists w"
      "dw_handling v = dw_handling w" "dw_dms v ?m = Some d'" "dm_tic d' = None" for v d'
    using idle_orphan [OF S _ that(2-7) zero, of cur] that(1,2) by auto
  show ?thesis
  proof (cases dir)
    case (Inl e)
    from idle [OF N(1) N(5) N(4) N(7) N(6) d(1,2)] Inl w0 d(1) show ?thesis
      by (auto simp: Twapi_RegisterDirectoryMonitorObjCmd_def)
  next
    case dirh: (Inr h)
    define d1 where "d1 = d\<lparr>dm_dir := h\<rparr>"
    define w1 where "w1 = upd_dm ?m d1 (w0\<lparr>dw_open := h # dw_open w0\<rparr>)"
    have G1: "d_good L (dw_queue w) None (\<lambda>_. 0) w1" unfolding w1_def
      by (rule d_good_upd [of _ _ _ _ _ _ d]) (use N(1) d in \<open>simp_all add: d_good_open d1_def\<close>)
    have f1: "dw_queue w1 = dw_queue w" "dw_proc w1 = dw_proc w" "dw_lists w1 = dw_lists w" "dw_handling w1 = dw_handling w"
      "dw_dms w1 ?m = Some d1" "dm_tic d1 = None" using N d by (simp_all add: w1_def d1_def)
    show ?thesis
    proof (cases event)
      case (Inl e)
      from idle [OF G1 f1] Inl w0 d(1) dirh show ?thesis
        by (auto simp: Twapi_RegisterDirectoryMonitorObjCmd_def w1_def d1_def)
    next
      case evh: (Inr ev)
      define d2 where "d2 = d1\<lparr>dm_event := Some ev\<rparr>"
      define w2 where "w2 = upd_dm ?m d2 (w1\<lparr>dw_open := ev # dw_open w1\<rparr>)"
      have G2: "d_good L (dw_queue w) None (\<lambda>_. 0) w2" unfolding w2_def
        by (rule d_good_upd [of _ _ _ _ _ _ d1]) (use G1 f1 in \<open>simp_all add: d_good_open d2_def\<close>)
      have d2: "dw_dms w2 ?m = Some d2" by (simp add: w2_def)
      from initiate_ok [OF G2 d2, of read_err] obtain w3 e where w3: "TwapiDirectoryMonitorInitiateRead ?m read_err w2 = Some (w3, e)"
        "d_good L (dw_queue w) None (\<lambda>_. 0) w3" "same_but_iob ?m d2 w2 w3" by blast
      then obtain d3 where d3: "dw_dms w3 ?m = Some d3" "dm_tic d3 = None" "dm_nrefs d3 = 0" "dm_dir d3 = h"
        "dw_queue w3 = dw_queue w" "dw_proc w3 = dw_proc w" "dw_lists w3 = dw_lists w" "dw_handling w3 = dw_handling w"
        using f1 d(3) by (auto simp: same_but_iob_def d2_def w2_def d1_def)
      have upto: "Twapi_RegisterDirectoryMonitorObjCmd cur c path sub flt ps dir event read_err (Inr tp) left w =
         (if e \<noteq> 0 then do { w' \<leftarrow> TwapiShutdownDirectoryMonitor cur ?m w3; Some (w', Inl e) }
          else do {
                  w4 \<leftarrow> TwapiDirectoryMonitorContextRef ?m 2 w3;
                  l \<leftarrow> dw_lists w4 c;
                  z \<leftarrow> ZLIST_PREPEND ?m (dm_list l w4);
                  let w5 = set_dm_list c z w4;
                  d5 \<leftarrow> dw_dms w5 ?m;
                  let w6 = upd_dm ?m (d5\<lparr>dm_tic := Some c\<rparr>) w5;
                  p \<leftarrow> TwapiInterpContextRef c 1 (dw_proc w6);
                  let w7 = w6\<lparr>dw_proc := p\<rparr>;
                  Some (upd_dm ?m (d5\<lparr>dm_tic := Some c, dm_pool := tp\<rparr>) w7, Inr (dm_dir d5)) })"
        using w0 d(1) dirh evh w3(1) by (simp add: Twapi_RegisterDirectoryMonitorObjCmd_def w1_def d1_def w2_def d2_def)
      show ?thesis
      proof (cases "e = 0")
        case False
        from idle [OF w3(2) d3(5-8) d3(1,2)] False show ?thesis unfolding upto by auto
      next
        case True
        obtain l where l: "dw_lists w c = Some l" using assms(2) by blast
        have out: "?m \<notin> set (L c)" using d_goodD(2) [OF w3(2), of ?m] d3(1,2) by (simp add: dm_ok_def)
        have rep: "zl_rep (dm_list l w3) (L c)"
          using lists_okD [OF d_goodD(1) [OF w3(2)]] d3(7) l by (simp add: dm_list_def)
        from ZLIST_PREPEND_rep [OF rep out] obtain z where z: "ZLIST_PREPEND ?m (dm_list l w3) = Some z"
          "zl_rep z (?m # L c)" "links_outside (insert ?m (set (L c))) (dw_links w3) (fst z)" by (auto simp: dm_list_def)
        define d' where "d' = d3\<lparr>dm_nrefs := dm_nrefs d3 + 2, dm_tic := Some c, dm_pool := tp\<rparr>"
        define w4 where "w4 = upd_dm ?m (d3\<lparr>dm_nrefs := dm_nrefs d3 + 2\<rparr>) w3"
        define w6 where "w6 = upd_dm ?m (d3\<lparr>dm_nrefs := dm_nrefs d3 + 2, dm_tic := Some c\<rparr>) (set_dm_list c z w4)"
        define w' where "w' = upd_dm ?m d' (w6\<lparr>dw_proc := upd_tic c (t\<lparr>tic_nrefs := tic_nrefs t + 1\<rparr>) (dw_proc w)\<rparr>)"
        have z4: "ZLIST_PREPEND ?m (dm_list l w4) = Some z" using z(1) by (simp add: dm_list_def w4_def)
        have ref: "TwapiInterpContextRef c 1 (dw_proc w6) = Some (upd_tic c (t\<lparr>tic_nrefs := tic_nrefs t + 1\<rparr>) (dw_proc w))"
          using ContextRef_ok [OF d_stateD(2) [OF S] t(1), of 1] d3(6) by (simp add: w6_def w4_def)
        have code: "Twapi_RegisterDirectoryMonitorObjCmd cur c path sub flt ps dir event read_err (Inr tp) left w =
            Some (w', Inr h)"
          using True d3 l z4 ref
          by (simp add: upto TwapiDirectoryMonitorContextRef_def ExchangeAdd_def w'_def d'_def w4_def w6_def)
        have G': "d_good (L(c := ?m # L c)) (dw_queue w) None (\<lambda>_. 0) w'"
        proof (rule link_ok [OF w3(2) d3(1,2) _ _ t(2) z])
          show "dm_nrefs d' = dm_nrefs d3 + 2" "dm_tic d' = Some c" "dm_pool d' \<noteq> INVALID_HANDLE_VALUE" "dm_iob d' = dm_iob d3"
            using tp by (simp_all add: d'_def)
        qed (use l t d3 in \<open>simp_all add: w'_def w6_def w4_def\<close>)
        have "d_state (L(c := ?m # L c)) w'"
          by (rule d_state_cong [OF S]) (use G' d3 d_stateD(2) [OF S] in \<open>simp_all add: w'_def w6_def w4_def\<close>)
        moreover have "registered c ?m h w'" using d3 tp by (simp add: registered_def w'_def d'_def)
        ultimately show ?thesis unfolding code using dirh d3 by (simp add: w'_def w6_def w4_def)
      qed
    qed
  qed
qed

section \<open>Unregistration\<close>

lemma unregister_ok:
  assumes S: "d_state L w" and l: "dw_lists w c \<noteq> None"
  shows "\<exists>w' found. Twapi_UnregisterDirectoryMonitorObjCmd cur c h w = Some (w', found) \<and>
    dw_queue w' = dw_queue w \<and> dw_handling w' = dw_handling w \<and>
    (case find (\<lambda>m. dm_dir_of w m = Some h) (L c) of
       None \<Rightarrow> \<not> found \<and> w' = w
     | Some m \<Rightarrow> found \<and> d_state (L(c := remove1 m (L c))) w' \<and> (\<forall>d. dw_dms w' m = Some d \<longrightarrow> dm_tic d = None) \<and>
         (for_dm (dw_queue w) m = 0 \<longrightarrow> dw_dms w' m = None))"
proof -
  note G = d_stateD(1) [OF S]
  obtain l where l: "dw_lists w c = Some l" using assms(2) by blast
  have rep: "zl_rep (dm_list l w) (L c)" using lists_okD [OF d_goodD(1) [OF G] l] by (simp add: dm_list_def)
  note loc = ZLIST_LOCATE_rep [OF rep, of "dm_dir_of w" "Some h"]
  show ?thesis
  proof (cases "find (\<lambda>m. dm_dir_of w m = Some h) (L c)")
    case None
    with l loc show ?thesis by (auto simp: Twapi_UnregisterDirectoryMonitorObjCmd_def)
  next
    case (Some m)
    then have m: "m \<in> set (L c)" using find_Some_in by fast
    obtain d t where d: "dw_dms w m = Some d" "dm_tic d = Some c" "p_tics (dw_proc w) c = Some t"
      using monitor_tic [OF G m] by blast
    obtain p where p: "TwapiInterpContextUnref cur c 1 (dw_proc w) = Some p" "tls_inv p"
      using ContextUnref_ok [OF d_stateD(2) [OF S] d(3)] by blast
    from dm_shutdown_ok [OF G d(1,2) p(1)] obtain w' where w': "TwapiShutdownDirectoryMonitor cur m w = Some w'"
      "d_good (L(c := remove1 m (L c))) (dw_queue w) None (\<lambda>_. 0) w'" "dw_proc w' = p" "dw_queue w' = dw_queue w"
      "dw_handling w' = dw_handling w" "\<forall>d'. dw_dms w' m = Some d' \<longrightarrow> dm_tic d' = None"
      "for_dm (dw_queue w) m = 0 \<longrightarrow> dw_dms w' m = None" by (auto simp del: fun_upd_apply)
    have "d_state (L(c := remove1 m (L c))) w'" by (rule d_state_cong [OF S]) (use w' p in simp_all)
    with w' l loc Some show ?thesis by (auto simp: Twapi_UnregisterDirectoryMonitorObjCmd_def)
  qed
qed

end
