(* ===== verification/Dirmon_Props.thy ===== *)
theory Dirmon_Props
  imports Dirmon_Steps Process_Props
begin

text \<open>
  Directory monitors under any interleaving of the interpreter's thread, the thread pool and the
  clean-up of the module, and the failures of registration.
\<close>

section \<open>Steps\<close>

text \<open>
  One event of the program: \<open>cur\<close> is the thread. The thread pool accepts the wait of a
  registration or refuses it; the label of a step says that it refuses one; the pool calls its function when a read that is pending
  has completed; the queue hands out a notification, whose context is released when the
  event procedure returns. Other code takes and drops references on contexts, but only its own.
\<close>

definition pending :: "dirw \<Rightarrow> tid \<Rightarrow> nat" where
  "pending w c = card {m. \<exists>d. dw_dms w m = Some d \<and> dm_tic d = Some c} + for_tic (dw_queue w) c +
     count_list (dw_handling w) c"

inductive dstep :: "bool \<Rightarrow> dirw \<Rightarrow> dirw \<Rightarrow> bool" where
  register: "dw_lists w c \<noteq> None \<Longrightarrow> p_tics (dw_proc w) c = Some t \<Longrightarrow> 0 < tic_nrefs t \<Longrightarrow>
     wait \<noteq> Inr INVALID_HANDLE_VALUE \<Longrightarrow>
     Twapi_RegisterDirectoryMonitorObjCmd cur c path sub flt ps dir event read_err wait left w = Some (w', r) \<Longrightarrow>
     dstep (isl wait) w w'"
| unregister: "Twapi_UnregisterDirectoryMonitorObjCmd cur c h w = Some (w', found) \<Longrightarrow> dstep False w w'"
| signal: "dw_dms w m = Some d \<Longrightarrow> dm_pool d \<noteq> INVALID_HANDLE_VALUE \<Longrightarrow> dm_iob d \<noteq> None \<Longrightarrow> read_ok res \<Longrightarrow>
     TwapiDirectoryMonitorThreadPoolFn m False res read_err w = Some w' \<Longrightarrow> dstep False w w'"
| event: "dw_queue w = q @ n # q' \<Longrightarrow>
     TwapiDirectoryMonitorCallbackFn cur deleted casematch n (w\<lparr>dw_queue := q @ q'\<rparr>) = Some (w', report) \<Longrightarrow>
     dstep False w (w'\<lparr>dw_handling := nt_tic n # dw_handling w'\<rparr>)"
| release: "c \<in> set (dw_handling w) \<Longrightarrow> TwapiInterpContextUnref cur c 1 (dw_proc w) = Some p \<Longrightarrow>
     dstep False w (w\<lparr>dw_proc := p, dw_handling := remove1 c (dw_handling w)\<rparr>)"
| cleanup: "TwapiStorageCleanup cur c w = Some w' \<Longrightarrow> dstep False w w'"
| gone: "p_tics (dw_proc w) c = Some t \<Longrightarrow>
     dstep False w (w\<lparr>dw_proc := upd_tic c (t\<lparr>tic_interp := None\<rparr>) (dw_proc w)\<rparr>)"
| hold: "0 < n \<Longrightarrow> p_tics (dw_proc w) c = Some t \<Longrightarrow> 0 < tic_nrefs t \<Longrightarrow>
     TwapiInterpContextRef c n (dw_proc w) = Some p \<Longrightarrow> dstep False w (w\<lparr>dw_proc := p\<rparr>)"
| drop: "0 < n \<Longrightarrow> p_tics (dw_proc w) c = Some t \<Longrightarrow> n + int (pending w c) \<le> tic_nrefs t \<Longrightarrow>
     TwapiInterpContextUnref cur c n (dw_proc w) = Some p \<Longrightarrow> dstep False w (w\<lparr>dw_proc := p\<rparr>)"

text \<open>The module before any monitor: a process with sound blocks and contexts.\<close>

definition dirw_start :: "proc \<Rightarrow> tid set \<Rightarrow> dirw" where
  "dirw_start p cs = \<lparr>dw_proc = p, dw_dms = Map.empty, dw_links = (\<lambda>_. \<lparr>zl_prev = None, zl_next = None\<rparr>),
     dw_lists = (\<lambda>c. if c \<in> cs then Some ZLIST_INIT else None), dw_iobs = Map.empty, dw_next = 0,
     dw_queue = [], dw_handling = [], dw_open = [], dw_freed = []\<rparr>"

lemma start_ok:
  assumes "tls_inv p" "\<forall>c t. p_tics p c = Some t \<longrightarrow> ctx_good t 0"
  shows "d_state (\<lambda>_. []) (dirw_start p cs)"
  using assms
  by (auto simp: d_state_def d_good_def dirw_start_def lists_ok_def ZLIST_INIT_rep dm_ok_def tic_ok_def tic_refs_def
      iobs_ok_def notes_ok_def holds_eq split: option.splits owner.splits)

section \<open>Every step keeps the invariant\<close>

lemma pending_refs: "d_state L w \<Longrightarrow> pending w c = tic_refs L (dw_queue w) w c"
proof -
  assume S: "d_state L w"
  note G = d_stateD(1) [OF S]
  have "(\<exists>d. dw_dms w m = Some d \<and> dm_tic d = Some c) \<longleftrightarrow> m \<in> set (L c)" for m
    using d_goodD(2) [OF G, of m] by (auto simp: dm_ok_def split: option.splits)
  then have "{m. \<exists>d. dw_dms w m = Some d \<and> dm_tic d = Some c} = set (L c)" by simp
  moreover have "distinct (L c)"
  proof (cases "dw_lists w c")
    case None
    then show ?thesis using spec [OF d_goodD(1) [OF G, unfolded lists_ok_def], of c] by simp
  next
    case (Some l)
    then show ?thesis using lists_okD [OF d_goodD(1) [OF G]] by (simp add: zl_rep_def)
  qed
  ultimately show ?thesis by (simp add: pending_def tic_refs_def distinct_card)
qed

text \<open>A change of one context.\<close>

lemma d_state_tic:
  assumes S: "d_state L w" and p: "p_tics p = (p_tics (dw_proc w))(c \<mapsto> t')" "tls_inv p"
    and t: "ctx_good t' (length (L c) + for_tic (dw_queue w) c + count_list h c)"
    and h: "\<And>c'. c' \<noteq> c \<Longrightarrow> count_list h c' = count_list (dw_handling w) c'"
  shows "d_state L (w\<lparr>dw_proc := p, dw_handling := h\<rparr>)"
proof -
  note G = d_stateD(1) [OF S]
  let ?w = "w\<lparr>dw_proc := p, dw_handling := h\<rparr>"
  have "d_good L (dw_queue w) None (\<lambda>_. 0) ?w"
  proof (rule d_goodI)
    show "lists_ok L ?w" using d_goodD(1) [OF G] by (rule lists_ok_cong) simp_all
    show "dm_ok L (dw_queue w) (\<lambda>_. 0) ?w m" for m by (rule dm_ok_other [OF d_goodD(2) [OF G]]) simp_all
    show "tic_ok L (dw_queue w) ?w c'" for c'
    proof (cases "c' = c")
      case True
      with t p show ?thesis by (simp add: tic_ok_def tic_refs_def)
    next
      case False
      show ?thesis by (rule tic_ok_cong [OF d_goodD(3) [OF G]]) (use False p h in \<open>simp_all add: tic_refs_def\<close>)
    qed
    show "iobs_ok (dw_queue w) None ?w"
      by (rule iobs_same [OF d_goodD(4) [OF G]]) (auto simp: holds_eq split: owner.splits)
    show "notes_ok (dw_queue w) ?w" using d_goodD(5) [OF G] by (simp add: notes_ok_def)
  qed
  then show ?thesis using S p(2) by (auto simp: d_state_def)
qed

lemma d_state_ctx: "d_state L w \<Longrightarrow> p_tics (dw_proc w) c = Some t \<Longrightarrow>
   ctx_good t (length (L c) + for_tic (dw_queue w) c + count_list (dw_handling w) c)"
  using d_goodD(3) [OF d_stateD(1), of L w c] by (simp add: tic_ok_def tic_refs_def)

lemma ContextUnref_tls: "tls_inv p \<Longrightarrow> TwapiInterpContextUnref cur c n p = Some p' \<Longrightarrow> tls_inv p'"
  by (rule Unref_tics, assumption) (use ContextUnref_ok [of p c _ cur n] in auto)

lemma count_list_remove1: "c \<in> set xs \<Longrightarrow> count_list xs x = count_list (remove1 c xs) x + (if x = c then 1 else 0)"
  by (induction xs) auto

lemma event_ok:
  assumes S: "d_state L w" and q: "dw_queue w = q @ n # q'"
  shows "\<exists>w' report L'. TwapiDirectoryMonitorCallbackFn cur deleted casematch n (w\<lparr>dw_queue := q @ q'\<rparr>) = Some (w', report) \<and>
    d_state L' (w'\<lparr>dw_handling := nt_tic n # dw_handling w'\<rparr>) \<and> dw_queue w' = q @ q'"
proof -
  let ?w = "w\<lparr>dw_queue := q @ q'\<rparr>"
  have "d_good L (n # q @ q') None (\<lambda>_. 0) w" using d_stateD(1) [OF S] q d_good_perm by metis
  moreover have "holds Q T ?w = holds Q T w" for Q T by (auto simp: holds_eq fun_eq_iff split: owner.splits)
  ultimately have G: "d_good L (n # dw_queue ?w) None (\<lambda>_. 0) ?w"
    by (simp add: d_good_def lists_ok_def dm_ok_def tic_ok_def tic_refs_def iobs_ok_def notes_ok_def cong: option.case_cong)
  have "n \<in> set (dw_queue w)" using q by simp
  then have full: "nt_winerr n = 0 \<longrightarrow> nt_iob n \<noteq> None" using d_stateD(3) [OF S] by blast
  have "tls_inv (dw_proc ?w)" using d_stateD(2) [OF S] by simp
  from callback_ok [OF G this full, of cur deleted casematch] obtain w' report L' where
    w': "TwapiDirectoryMonitorCallbackFn cur deleted casematch n ?w = Some (w', report)"
    "d_good L' (q @ q') None (\<lambda>_. 0) (w'\<lparr>dw_handling := nt_tic n # dw_handling w'\<rparr>)" "tls_inv (dw_proc w')"
    "dw_queue w' = q @ q'" "dw_handling w' = dw_handling w" by auto
  have "\<forall>n' \<in> set (q @ q'). nt_winerr n' = 0 \<longrightarrow> nt_iob n' \<noteq> None" using d_stateD(3) [OF S] q by auto
  then have "d_state L' (w'\<lparr>dw_handling := nt_tic n # dw_handling w'\<rparr>)" using w' by (simp add: d_state_def)
  with w' show ?thesis by blast
qed

lemma dm_cleanup_ok:
  assumes S: "d_state L w"
  shows "\<exists>w'. TwapiStorageCleanup cur c w = Some w' \<and> d_state (L(c := [])) w' \<and> dw_lists w' c = None \<and>
    drop_refs cur c (length (L c)) (dw_proc w) = Some (dw_proc w')"
proof -
  from storage_cleanup_ok [OF d_stateD(1,2) [OF S], of cur c] obtain w' where w': "TwapiStorageCleanup cur c w = Some w'"
    "d_good (L(c := [])) (dw_queue w) None (\<lambda>_. 0) w'" "tls_inv (dw_proc w')" "dw_queue w' = dw_queue w" "dw_lists w' c = None"
    "drop_refs cur c (length (L c)) (dw_proc w) = Some (dw_proc w')"
    by blast
  have "d_state (L(c := [])) w'" by (rule d_state_cong [OF S]) (use w' in simp_all)
  with w' show ?thesis by blast
qed

lemma release_ok:
  assumes S: "d_state L w" and c: "c \<in> set (dw_handling w)" and p: "TwapiInterpContextUnref cur c 1 (dw_proc w) = Some p"
  shows "d_state L (w\<lparr>dw_proc := p, dw_handling := remove1 c (dw_handling w)\<rparr>)"
proof -
  obtain t t' where t: "p_tics (dw_proc w) c = Some t" "p_tics p = (p_tics (dw_proc w))(c \<mapsto> t')"
    "tic_nrefs t' = tic_nrefs t - 1" "tic_deletions t' = tic_deletions t + (if tic_nrefs t \<le> 1 then 1 else 0)"
    by (rule Unref_tics [OF p])
  note g = d_state_ctx [OF S t(1)]
  note k = count_list_remove1 [OF c]
  show ?thesis
  proof (rule d_state_tic [OF S t(2) ContextUnref_tls [OF d_stateD(2) [OF S] p]])
    show "ctx_good t' (length (L c) + for_tic (dw_queue w) c + count_list (remove1 c (dw_handling w)) c)"
    proof (rule ctx_good_drop [OF g _ _ t(3,4)])
      have "int (length (L c) + for_tic (dw_queue w) c + count_list (dw_handling w) c) \<le> tic_nrefs t"
        using g by (simp add: ctx_good_def)
      then show "int (length (L c) + for_tic (dw_queue w) c + count_list (remove1 c (dw_handling w)) c) \<le> tic_nrefs t - 1"
        unfolding k [of c] by simp
    qed simp
    show "count_list (remove1 c (dw_handling w)) c' = count_list (dw_handling w) c'" if "c' \<noteq> c" for c'
      using k [of c'] that by simp
  qed
qed

lemma dstep_ok: "dstep refused w w' \<Longrightarrow> \<not> refused \<Longrightarrow> d_state L w \<Longrightarrow> \<exists>L'. d_state L' w'"
proof (induction rule: dstep.induct)
  case (register w c t wait cur path sub flt ps dir event read_err left w' r)
  have "length ps \<le> MAXPATTERNS"
  proof (rule ccontr)
    assume "\<not> length ps \<le> MAXPATTERNS"
    then have "TwapiDirectoryMonitorContextNew path sub flt ps w = None" by (simp add: TwapiDirectoryMonitorContextNew_def)
    then show False using register(5) by (simp add: Twapi_RegisterDirectoryMonitorObjCmd_def)
  qed
  moreover obtain tp where tp: "wait = Inr tp" "tp \<noteq> INVALID_HANDLE_VALUE"
    using register(4,6) by (cases wait) auto
  ultimately show ?case
    using dm_register_ok [OF register(7,1-3) _ tp(2), of ps cur path sub flt dir event read_err left] register(5)
    by (auto split: sum.splits simp del: fun_upd_apply)
next
  case (unregister cur c h w w' found)
  have "dw_lists w c \<noteq> None" using unregister(1)
    by (cases "dw_lists w c") (simp_all add: Twapi_UnregisterDirectoryMonitorObjCmd_def)
  from unregister_ok [OF unregister(3) this, of cur h] unregister show ?case
    by (auto split: option.splits simp del: fun_upd_apply)
next
  case (signal w m d res read_err w')
  from pool_fn_ok [OF signal(7,1-4), of read_err] signal(5) show ?case by auto
next
  case (event w q n q' cur deleted casematch w' report)
  from event_ok [OF event(4,1), of cur deleted casematch] event(2) show ?case by auto
next
  case (release c w cur p)
  from release_ok [OF release(4,1,2)] show ?case by blast
next
  case (cleanup cur c w w')
  from dm_cleanup_ok [OF cleanup(3), of cur c] cleanup(1) show ?case by (auto simp del: fun_upd_apply)
next
  case (gone w c t)
  have "d_state L (w\<lparr>dw_proc := upd_tic c (t\<lparr>tic_interp := None\<rparr>) (dw_proc w), dw_handling := dw_handling w\<rparr>)"
    by (rule d_state_tic [OF gone(3), where t' = "t\<lparr>tic_interp := None\<rparr>"]) (use d_state_ctx [OF gone(3,1)] d_stateD(2) [OF gone(3)] in \<open>auto simp: ctx_good_def\<close>)
  then show ?case by auto
next
  case (hold n w c t p)
  have p: "p = upd_tic c (t\<lparr>tic_nrefs := tic_nrefs t + n\<rparr>) (dw_proc w)"
    using ContextRef_ok [OF d_stateD(2) [OF hold(6)] hold(2), of n] hold(4) by simp
  have "d_state L (w\<lparr>dw_proc := p, dw_handling := dw_handling w\<rparr>)"
    by (rule d_state_tic [OF hold(6)])
       (use ctx_good_add [OF d_state_ctx [OF hold(6,2)] hold(1,3)] d_stateD(2) [OF hold(6)] in \<open>auto simp: p\<close>)
  then show ?case by auto
next
  case (drop n w c t cur p)
  obtain t1 t' where t: "p_tics (dw_proc w) c = Some t1" "p_tics p = (p_tics (dw_proc w))(c \<mapsto> t')"
    "tic_nrefs t' = tic_nrefs t1 - n" "tic_deletions t' = tic_deletions t1 + (if tic_nrefs t1 \<le> n then 1 else 0)"
    by (rule Unref_tics [OF drop(4)])
  have "d_state L (w\<lparr>dw_proc := p, dw_handling := dw_handling w\<rparr>)"
  proof (rule d_state_tic [OF drop(6) t(2) ContextUnref_tls [OF d_stateD(2) [OF drop(6)] drop(4)]])
    show "ctx_good t' (length (L c) + for_tic (dw_queue w) c + count_list (dw_handling w) c)"
      by (rule ctx_good_drop [OF d_state_ctx [OF drop(6) t(1)] drop(1) _ t(3,4)])
         (use drop(2,3) t(1) pending_refs [OF drop(6), of c] in \<open>simp add: tic_refs_def\<close>)
  qed simp
  then show ?case by auto
qed

text \<open>The states of a module that starts in a sound process; \<open>k\<close> counts the refused waits.\<close>

inductive dirmon_reach :: "proc \<Rightarrow> tid set \<Rightarrow> nat \<Rightarrow> dirw \<Rightarrow> bool" for p cs where
  start: "tls_inv p \<Longrightarrow> (\<And>c t. p_tics p c = Some t \<Longrightarrow> ctx_good t 0) \<Longrightarrow>
     dirmon_reach p cs 0 (dirw_start p cs)"
| step: "dirmon_reach p cs k w \<Longrightarrow> dstep refused w w' \<Longrightarrow>
     dirmon_reach p cs (if refused then Suc k else k) w'"

lemma reach_state: "dirmon_reach p cs k w \<Longrightarrow> k = 0 \<Longrightarrow> \<exists>L. d_state L w"
proof (induction rule: dirmon_reach.induct)
  case start
  then show ?case using start_ok by blast
next
  case (step k w refused w')
  then show ?case using dstep_ok by (auto split: if_splits)
qed

lemma live_tic:
  assumes "d_state L w" "0 < tic_refs L (dw_queue w) w c"
  shows "\<exists>t. p_tics (dw_proc w) c = Some t \<and> 0 < tic_nrefs t \<and> tic_deletions t = 0"
  using d_goodD(3) [OF d_stateD(1) [OF assms(1)], of c] assms(2)
  by (cases "p_tics (dw_proc w) c") (auto simp: tic_ok_def ctx_good_def)

lemma note_refs:
  assumes S: "d_state L w" and n: "n \<in> set (dw_queue w)"
  shows "\<exists>d. dw_dms w (nt_dm n) = Some d \<and> 0 < dm_nrefs d" "0 < tic_refs L (dw_queue w) w (nt_tic n)"
    "nt_iob n = Some b \<Longrightarrow> dw_iobs w b \<noteq> None"
proof -
  note G = d_stateD(1) [OF S]
  show "\<exists>d. dw_dms w (nt_dm n) = Some d \<and> 0 < dm_nrefs d"
    using d_goodD(2) [OF G, of "nt_dm n"] for_dm_pos [OF n] by (auto simp: dm_ok_def split: option.splits)
  have "0 < for_tic (dw_queue w) (nt_tic n)" using n by (induction "dw_queue w") (auto simp: for_tic_def filter_empty_conv)
  then show "0 < tic_refs L (dw_queue w) w (nt_tic n)" by (simp add: tic_refs_def)
  show "dw_iobs w b \<noteq> None" if "nt_iob n = Some b"
    using iobs_okD(1) [OF d_goodD(4) [OF G], of "ONote (nt_id n)" b] n that by auto
qed

lemma pool_refs:
  assumes S: "d_state L w" and d: "dw_dms w m = Some d" "dm_pool d \<noteq> INVALID_HANDLE_VALUE"
  shows "2 \<le> dm_nrefs d" "\<exists>c. dm_tic d = Some c \<and> 0 < tic_refs L (dw_queue w) w c"
proof -
  note M = d_goodD(2) [OF d_stateD(1) [OF S], of m]
  show "2 \<le> dm_nrefs d" using M d by (auto simp: dm_ok_def split: if_splits)
  obtain c where c: "dm_tic d = Some c" "m \<in> set (L c)" using M d by (auto simp: dm_ok_def)
  then show "\<exists>c. dm_tic d = Some c \<and> 0 < tic_refs L (dw_queue w) w c"
    using length_pos_if_in_set [OF c(2)] by (auto simp: tic_refs_def)
qed

lemma iob_owner:
  assumes S: "d_state L w" and b: "dw_iobs w b \<noteq> None"
  shows "(\<exists>m d. dw_dms w m = Some d \<and> dm_iob d = Some b) \<or> (\<exists>n \<in> set (dw_queue w). nt_iob n = Some b)"
proof -
  obtain x where "dw_iobs w b = Some x" using b by blast
  from iobs_okD(3) [OF d_goodD(4) [OF d_stateD(1) [OF S]] this] obtain k where "holds (dw_queue w) None w k b" by blast
  then show ?thesis by (cases k) auto
qed

lemma iob_one_owner:
  assumes S: "d_state L w" and h: "dw_dms w m = Some d" "dm_iob d = Some b"
  shows "dw_dms w m' = Some d' \<Longrightarrow> dm_iob d' = Some b \<Longrightarrow> m = m'" "n \<in> set (dw_queue w) \<Longrightarrow> nt_iob n \<noteq> Some b"
proof -
  note I = d_goodD(4) [OF d_stateD(1) [OF S]]
  have k: "holds (dw_queue w) None w (OMon m) b" using h by simp
  show "dw_dms w m' = Some d' \<Longrightarrow> dm_iob d' = Some b \<Longrightarrow> m = m'"
    using iobs_okD(2) [OF I k, of "OMon m'"] by simp
  show "n \<in> set (dw_queue w) \<Longrightarrow> nt_iob n \<noteq> Some b"
    using iobs_okD(2) [OF I k, of "ONote (nt_id n)"] by auto
qed






section \<open>Properties\<close>

text \<open>
  C4. Under every interleaving of registrations, notifications, errors, unregistrations, deleted
  interpreters and module clean-ups in which the thread pool refuses no wait, nothing is used after it was freed: the monitor, the context
  and the buffer of every queued notification are there, a monitor that the pool may signal
  holds its two references and its context is alive, no monitor is freed twice, and every buffer
  has exactly one owner, so that none is lost and none is freed twice.
\<close>

theorem monitors_safe:
  assumes "dirmon_reach p cs 0 w"
  shows "(\<forall>n \<in> set (dw_queue w). (\<exists>d. dw_dms w (nt_dm n) = Some d \<and> 0 < dm_nrefs d) \<and>
      (\<exists>t. p_tics (dw_proc w) (nt_tic n) = Some t \<and> 0 < tic_nrefs t \<and> tic_deletions t = 0) \<and>
      (\<forall>b. nt_iob n = Some b \<longrightarrow> dw_iobs w b \<noteq> None)) \<and>
    (\<forall>m d. dw_dms w m = Some d \<and> dm_pool d \<noteq> INVALID_HANDLE_VALUE \<longrightarrow> 2 \<le> dm_nrefs d \<and>
      (\<exists>c t. dm_tic d = Some c \<and> p_tics (dw_proc w) c = Some t \<and> 0 < tic_nrefs t \<and> tic_deletions t = 0)) \<and>
    distinct (dw_freed w) \<and> (\<forall>m \<in> set (dw_freed w). dw_dms w m = None) \<and>
    (\<forall>b. dw_iobs w b \<noteq> None \<longrightarrow>
      (\<exists>m d. dw_dms w m = Some d \<and> dm_iob d = Some b) \<or> (\<exists>n \<in> set (dw_queue w). nt_iob n = Some b)) \<and>
    (\<forall>m d b. dw_dms w m = Some d \<and> dm_iob d = Some b \<longrightarrow>
      (\<forall>m' d'. dw_dms w m' = Some d' \<and> dm_iob d' = Some b \<longrightarrow> m = m') \<and>
      (\<forall>n \<in> set (dw_queue w). nt_iob n \<noteq> Some b))"
proof -
  obtain L where S: "d_state L w" using reach_state [OF assms refl] by blast
  note G = d_stateD(1) [OF S]
  have 1: "dw_dms w m = None" if "m \<in> set (dw_freed w)" for m
    using d_goodD(2) [OF G, of m] that by (auto simp: dm_ok_def split: option.splits)
  have 2: "distinct (dw_freed w)" using d_goodD(5) [OF G] by (simp add: notes_ok_def)
  have 3: "\<exists>c t. dm_tic d = Some c \<and> p_tics (dw_proc w) c = Some t \<and> 0 < tic_nrefs t \<and> tic_deletions t = 0"
    if d: "dw_dms w m = Some d" "dm_pool d \<noteq> INVALID_HANDLE_VALUE" for m d
    using pool_refs(2) [OF S d] live_tic [OF S] by blast
  have 4: "\<exists>t. p_tics (dw_proc w) (nt_tic n) = Some t \<and> 0 < tic_nrefs t \<and> tic_deletions t = 0"
    if "n \<in> set (dw_queue w)" for n using live_tic [OF S note_refs(2) [OF S that]] .
  show ?thesis
    by (intro conjI ballI allI impI; (elim conjE)?;
        (rule 2 | erule 1 | erule (1) 3 | erule 4 | erule note_refs [OF S] | erule (1) note_refs(3) [OF S]
         | erule (1) pool_refs(1) [OF S] | erule iob_owner [OF S] | erule (3) iob_one_owner(1) [OF S]
         | erule (2) iob_one_owner(2) [OF S]))
qed


text \<open>
  Unregistering finds a monitor exactly if the context has one with that handle. The monitor
  is taken from the pool; it is freed at once when none of its notifications is pending, and
  otherwise stays with one reference for each of these.
\<close>

theorem unregister_releases:
  assumes "dirmon_reach p cs 0 w" "dw_lists w c \<noteq> None"
  shows "\<exists>w' found. Twapi_UnregisterDirectoryMonitorObjCmd cur c h w = Some (w', found) \<and>
    (found \<longleftrightarrow> (\<exists>m d. dw_dms w m = Some d \<and> dm_tic d = Some c \<and> dm_dir d = h)) \<and>
    (if found
     then \<exists>m d. dw_dms w m = Some d \<and> dm_tic d = Some c \<and> dm_dir d = h \<and>
       (case dw_dms w' m of
          None \<Rightarrow> True
        | Some d' \<Rightarrow> 0 < for_dm (dw_queue w) m \<and> dm_tic d' = None \<and> dm_pool d' = INVALID_HANDLE_VALUE \<and>
            dm_nrefs d' = int (for_dm (dw_queue w) m))
     else w' = w)"
proof -
  obtain L where S: "d_state L w" using reach_state [OF assms(1) refl] by blast
  have in_list: "m \<in> set (L c) \<longleftrightarrow> (\<exists>d. dw_dms w m = Some d \<and> dm_tic d = Some c)" for m
    using d_goodD(2) [OF d_stateD(1) [OF S], of m] by (auto simp: dm_ok_def split: option.splits)
  obtain w' found where w': "Twapi_UnregisterDirectoryMonitorObjCmd cur c h w = Some (w', found)" "dw_queue w' = dw_queue w"
    "case find (\<lambda>m. dm_dir_of w m = Some h) (L c) of
       None \<Rightarrow> \<not> found \<and> w' = w
     | Some m \<Rightarrow> found \<and> d_state (L(c := remove1 m (L c))) w' \<and> (\<forall>d. dw_dms w' m = Some d \<longrightarrow> dm_tic d = None) \<and>
         (for_dm (dw_queue w) m = 0 \<longrightarrow> dw_dms w' m = None)"
    using unregister_ok [OF S assms(2), of cur h] by blast
  show ?thesis
  proof (cases "find (\<lambda>m. dm_dir_of w m = Some h) (L c)")
    case None
    then have "\<not> (\<exists>m d. dw_dms w m = Some d \<and> dm_tic d = Some c \<and> dm_dir d = h)"
      using in_list by (auto simp: find_None_conv dm_dir_of_def)
    with None w' show ?thesis by auto
  next
    case (Some m)
    then have m: "m \<in> set (L c)" "dm_dir_of w m = Some h" using find_Some_in [OF Some] by auto
    then obtain d where d: "dw_dms w m = Some d" "dm_tic d = Some c" "dm_dir d = h"
      using in_list [of m] by (auto simp: dm_dir_of_def)
    have S': "d_state (L(c := remove1 m (L c))) w'" "\<forall>d. dw_dms w' m = Some d \<longrightarrow> dm_tic d = None"
      "for_dm (dw_queue w) m = 0 \<longrightarrow> dw_dms w' m = None" "found" using w'(3) Some by simp_all
    have "case dw_dms w' m of None \<Rightarrow> True
        | Some d' \<Rightarrow> 0 < for_dm (dw_queue w) m \<and> dm_tic d' = None \<and> dm_pool d' = INVALID_HANDLE_VALUE \<and>
            dm_nrefs d' = int (for_dm (dw_queue w) m)"
      using d_goodD(2) [OF d_stateD(1) [OF S'(1)], of m] S'(2,3) w'(2) by (auto simp: dm_ok_def split: option.splits)
    with w'(1) S'(4) d show ?thesis by (intro exI [of _ w'] exI [of _ found]) auto
  qed
qed


section \<open>Registration\<close>

text \<open>
  A registration either succeeds, and then its monitor is known to the list of the context and
  to the pool with one reference each, or reports the error of the call that failed; in that
  case nothing is left registered, but the monitor itself is never freed: it stays allocated
  without references or list, since the shutdown frees it only if it drops a reference.
\<close>

theorem register_outcome:
  assumes "dirmon_reach p cs 0 w" "dw_lists w c \<noteq> None" "p_tics (dw_proc w) c = Some t" "0 < tic_nrefs t"
    and "length ps \<le> 32" "tp \<noteq> INVALID_HANDLE_VALUE"
  shows "\<exists>w' r. Twapi_RegisterDirectoryMonitorObjCmd cur c path sub flt ps dir event read_err (Inr tp) left w = Some (w', r) \<and>
    dw_queue w' = dw_queue w \<and>
    (case r of
       Inr h \<Rightarrow> dir = Inr h \<and> (\<exists>d. dw_dms w' (dw_next w) = Some d \<and> dm_tic d = Some c \<and> dm_dir d = h \<and>
         dm_pool d \<noteq> INVALID_HANDLE_VALUE \<and> dm_nrefs d = 2)
     | Inl e \<Rightarrow> \<exists>d. dw_dms w' (dw_next w) = Some d \<and> dm_tic d = None \<and> dm_nrefs d = 0)"
proof -
  obtain L where S: "d_state L w" using reach_state [OF assms(1) refl] by blast
  have ps: "length ps \<le> MAXPATTERNS" using assms(5) by (simp add: MAXPATTERNS_def)
  from dm_register_ok [OF S assms(2-4) ps assms(6), of cur path sub flt dir event read_err left] obtain w' r where
    w': "Twapi_RegisterDirectoryMonitorObjCmd cur c path sub flt ps dir event read_err (Inr tp) left w = Some (w', r)"
    "dw_queue w' = dw_queue w"
    "case r of Inr h \<Rightarrow> dir = Inr h \<and> d_state (L(c := dw_next w # L c)) w' \<and> registered c (dw_next w) h w'
     | Inl e \<Rightarrow> d_state L w' \<and> orphan (dw_next w) w'" by blast
  then show ?thesis
    by (intro exI [of _ w'] exI [of _ r]) (cases r; simp add: registered_def orphan_def)
qed

text \<open>
  When the pool refuses the wait, the monitor is taken from the list twice. In the state
  that a first registration with a refused wait reaches, the list of the context has the
  count -1, one reference of the monitor is never dropped, and the clean-up of the module
  crashes.
\<close>

theorem register_wait_failure:
  assumes "c \<in> cs" "p_tics p c = Some t" "0 < tic_nrefs t" "length ps \<le> 32" "h \<noteq> INVALID_HANDLE_VALUE"
    and sound: "tls_inv p" "\<forall>c t. p_tics p c = Some t \<longrightarrow> ctx_good t 0"
  shows "\<exists>w' l d. Twapi_RegisterDirectoryMonitorObjCmd cur c path sub flt ps (Inr h) (Inr ev) 0 (Inl e)
      INVALID_HANDLE_VALUE (dirw_start p cs) = Some (w', Inl e) \<and> dirmon_reach p cs 1 w' \<and>
    dw_lists w' c = Some l \<and> zlist_count l = - 1 \<and> dw_dms w' 0 = Some d \<and> dm_nrefs d = 1 \<and> dm_tic d = None \<and>
    TwapiStorageCleanup cur' c w' = None"
proof -
  define d where "d = \<lparr>dm_tic = None, dm_dir = INVALID_HANDLE_VALUE, dm_pool = INVALID_HANDLE_VALUE, dm_event = None,
      dm_nrefs = 1, dm_iob = Some 1, dm_path = path, dm_filter = flt, dm_subtree = sub, dm_patterns = ps\<rparr>"
  define l :: "nat zlist" where "l = \<lparr>zlist_head = None, zlist_tail = None, zlist_count = - 1\<rparr>"
  have "\<exists>w'. Twapi_RegisterDirectoryMonitorObjCmd cur c path sub flt ps (Inr h) (Inr ev) 0 (Inl e)
      INVALID_HANDLE_VALUE (dirw_start p cs) = Some (w', Inl e) \<and> dw_lists w' c = Some l \<and> dw_dms w' 0 = Some d"
    using assms
    by (simp add: Twapi_RegisterDirectoryMonitorObjCmd_def dirw_start_def TwapiDirectoryMonitorContextNew_def MAXPATTERNS_def
        TwapiDirectoryMonitorInitiateRead_def TwapiDirectoryMonitorContextRef_def ExchangeAdd_def dm_list_def
        ZLIST_PREPEND_def ZLIST_ISEMPTY_def ZLIST_COUNT_def ZLIST_INIT_def TwapiInterpContextRef_def
        ZLIST_REMOVE_def TwapiShutdownDirectoryMonitor_def close_monitor_def TwapiInterpContextUnref_def
        TwapiDirectoryMonitorContextUnref_def Let_def l_def d_def)
  then obtain w' where w': "Twapi_RegisterDirectoryMonitorObjCmd cur c path sub flt ps (Inr h) (Inr ev) 0 (Inl e)
      INVALID_HANDLE_VALUE (dirw_start p cs) = Some (w', Inl e)" "dw_lists w' c = Some l" "dw_dms w' 0 = Some d" by blast
  have "shutdown_monitors cur' c w' = None"
    using w'(2) by (subst shutdown_monitors.simps) (simp add: l_def ZLIST_COUNT_def)
  moreover have "dstep (isl (Inl e :: nat + int)) (dirw_start p cs) w'"
    by (rule dstep.register [OF _ _ assms(3) _ w'(1)]) (use assms in \<open>simp_all add: dirw_start_def\<close>)
  then have "dirmon_reach p cs 1 w'" using dirmon_reach.step [OF dirmon_reach.start [OF sound(1)]] sound(2) by fastforce
  ultimately show ?thesis using w' by (intro exI [of _ w'] exI [of _ l] exI [of _ d]) (simp add: TwapiStorageCleanup_def l_def d_def)
qed

section \<open>Handles\<close>

lemma Unref_open: "TwapiDirectoryMonitorContextUnref m k w = Some w' \<Longrightarrow> dw_open w' = dw_open w"
  by (auto simp: TwapiDirectoryMonitorContextUnref_def TwapiDirectoryMonitorContextDelete_def free_iob_def upd_dm_def
      ExchangeAdd_def Let_def split: bind_splits option.splits if_splits)

lemma queue_note_keeps:
  "queue_note m bo e w = Some w' \<Longrightarrow> dw_dms w m = Some d \<Longrightarrow>
   dw_dms w' m = Some (d\<lparr>dm_nrefs := dm_nrefs d + 1\<rparr>) \<and> dw_open w' = dw_open w"
  by (auto simp: queue_note_def TwapiDirectoryMonitorContextRef_def ExchangeAdd_def split: bind_splits)

lemma pool_error_keeps:
  assumes "pool_error m e w = Some w'" "dw_dms w m = Some d"
  shows "dw_dms w' m = Some (d\<lparr>dm_iob := None, dm_nrefs := dm_nrefs d + 1\<rparr>) \<and> dw_open w' = dw_open w"
proof (cases "dm_iob d")
  case None
  then have "d\<lparr>dm_iob := None\<rparr> = d" by (cases d) simp
  with None assms queue_note_keeps [of m None e w w' d] show ?thesis by (auto simp: pool_error_def)
next
  case (Some b)
  then obtain w1 where "free_iob b w = Some w1" "queue_note m None e (upd_dm m (d\<lparr>dm_iob := None\<rparr>) w1) = Some w'"
    using assms by (auto simp: pool_error_def split: bind_splits)
  moreover from this(1) have "dw_open w1 = dw_open w" by (auto simp: free_iob_def split: option.splits)
  ultimately show ?thesis using queue_note_keeps [of m None e _ w' "d\<lparr>dm_iob := None\<rparr>"] by auto
qed

lemma close_no_read:
  "close_monitor m w = Some w' \<Longrightarrow>
   case dw_dms w m of None \<Rightarrow> True
   | Some d \<Rightarrow> dm_iob d = None \<longrightarrow>
       dw_open w' = (if dm_dir d \<noteq> INVALID_HANDLE_VALUE then remove1 (dm_dir d) (dw_open w) else dw_open w)"
  by (auto simp: close_monitor_def Let_def split: option.splits if_splits)

lemma shutdown_no_read:
  "TwapiShutdownDirectoryMonitor cur m w = Some w' \<Longrightarrow> dw_dms w m = Some d \<Longrightarrow> dm_iob d = None \<Longrightarrow>
   dw_open w' = (if dm_dir d \<noteq> INVALID_HANDLE_VALUE then remove1 (dm_dir d) (dw_open w) else dw_open w)"
  by (auto simp: TwapiShutdownDirectoryMonitor_def Let_def split: option.splits if_splits bind_splits
      dest!: Unref_open close_no_read)

text \<open>
  After a failed read the monitor has no buffer, and the shutdown closes the event only if
  there is one: the event handle of such a monitor is never closed.
\<close>

theorem read_error_leaks_event:
  assumes "dw_dms w m = Some d" "dm_event d = Some ev" "ev \<in> set (dw_open w)" "ev \<noteq> dm_dir d"
    and "TwapiDirectoryMonitorThreadPoolFn m False (Inl e) read_err w = Some w1" "e \<noteq> ERROR_IO_INCOMPLETE"
    and "TwapiShutdownDirectoryMonitor cur m w1 = Some w'"
  shows "ev \<in> set (dw_open w')"
proof -
  have "pool_error m e w = Some w1"
    using assms(1,5,6) by (auto simp: TwapiDirectoryMonitorThreadPoolFn_def split: bind_splits)
  from pool_error_keeps [OF this assms(1)] have w1: "dw_dms w1 m = Some (d\<lparr>dm_iob := None, dm_nrefs := dm_nrefs d + 1\<rparr>)"
    "dw_open w1 = dw_open w" by simp_all
  from shutdown_no_read [OF assms(7) w1(1)] w1(2) assms(3,4) show ?thesis by (auto split: if_splits)
qed

section \<open>Witnesses\<close>

definition demo_tic :: tic where
  "demo_tic = (TwapiInterpContextNew 1 7 3 5)\<lparr>tic_lifo := Some 10, tic_nrefs := 2\<rparr>"

lemma demo_tics: "p_tics demo_ctx = [100 \<mapsto> demo_tic]"
  by (simp add: demo_ctx_def demo_proc_def demo_tls_def demo_tic_def Twapi_AllocateInterpContext_def Twapi_GetTls_def
      TwapiInterpContextRef_def upd_tic_def ctx_list_def ZLIST_PREPEND_def ZLIST_ISEMPTY_def ZLIST_COUNT_def
      ZLIST_INIT_def set_ctx_list_def TwapiInterpContextNew_def ExchangeAdd_def Let_def)

lemma demo_tic_simps [simp]: "tic_nrefs demo_tic = 2" "tic_deletions demo_tic = 0"
  by (simp_all add: demo_tic_def TwapiInterpContextNew_def)

lemma demo_tls_inv: "tls_inv demo_ctx"
  by (simp add: tls_inv_def demo_ctx_def demo_proc_def demo_tls_def Twapi_AllocateInterpContext_def Twapi_GetTls_def
      TwapiInterpContextRef_def upd_tic_def ctx_list_def ZLIST_PREPEND_def ZLIST_ISEMPTY_def ZLIST_COUNT_def
      ZLIST_INIT_def set_ctx_list_def TwapiInterpContextNew_def ExchangeAdd_def Let_def)

lemma demo_start: "dirmon_reach demo_ctx {100} 0 (dirw_start demo_ctx {100})"
  by (rule dirmon_reach.start [OF demo_tls_inv]) (auto simp: ctx_good_def demo_tics split: if_splits)

lemma demo_start_simps: "dw_lists (dirw_start demo_ctx {100}) 100 \<noteq> None"
  "p_tics (dw_proc (dirw_start demo_ctx {100})) 100 = Some demo_tic"
  by (simp_all add: dirw_start_def demo_tics)

lemma demo_registered:
  "\<exists>w d x. dirmon_reach demo_ctx {100} 0 w \<and> dw_lists w 100 \<noteq> None \<and> dw_dms w 0 = Some d \<and> dm_tic d = Some 100 \<and>
     dm_dir d = 5 \<and> dm_pool d = 9 \<and> dm_nrefs d = 2 \<and> dm_iob d = Some 1 \<and> dm_event d = Some 6 \<and>
     dw_iobs w 1 = Some x \<and> dw_open w = [6, 5] \<and> dw_queue w = []"
proof -
  define d where "d = \<lparr>dm_tic = Some 100, dm_dir = 5, dm_pool = 9, dm_event = Some 6,
      dm_nrefs = 2, dm_iob = Some 1, dm_path = [], dm_filter = 0, dm_subtree = False, dm_patterns = []\<rparr>"
  have "\<exists>w x. Twapi_RegisterDirectoryMonitorObjCmd 1 100 [] False 0 [] (Inr 5) (Inr 6) 0 (Inr 9) 0
      (dirw_start demo_ctx {100}) = Some (w, Inr 5) \<and> dw_dms w 0 = Some d \<and> dw_iobs w 1 = Some x \<and> dw_open w = [6, 5] \<and>
      dw_queue w = [] \<and> dw_lists w 100 \<noteq> None"
    by (simp add: demo_tics Twapi_RegisterDirectoryMonitorObjCmd_def dirw_start_def TwapiDirectoryMonitorContextNew_def MAXPATTERNS_def
        TwapiDirectoryMonitorInitiateRead_def TwapiDirectoryMonitorContextRef_def ExchangeAdd_def dm_list_def
        ZLIST_PREPEND_def ZLIST_ISEMPTY_def ZLIST_COUNT_def ZLIST_INIT_def TwapiInterpContextRef_def Let_def d_def)
  then obtain w x where w: "Twapi_RegisterDirectoryMonitorObjCmd 1 100 [] False 0 [] (Inr 5) (Inr 6) 0 (Inr 9) 0
      (dirw_start demo_ctx {100}) = Some (w, Inr 5)" "dw_dms w 0 = Some d" "dw_iobs w 1 = Some x" "dw_open w = [6, 5]"
    "dw_queue w = []" "dw_lists w 100 \<noteq> None" by blast
  have "dstep (isl (Inr 9 :: nat + int)) (dirw_start demo_ctx {100}) w"
    by (rule dstep.register [OF demo_start_simps _ _ w(1)]) (simp_all add: INVALID_HANDLE_VALUE_def)
  then have "dirmon_reach demo_ctx {100} 0 w" using dirmon_reach.step [OF demo_start] by fastforce
  with w show ?thesis by (intro exI [of _ w] exI [of _ d] exI [of _ x]) (simp add: d_def)
qed

theorem monitors_safe_witness:
  "\<exists>w d t. dirmon_reach demo_ctx {100} 0 w \<and> dw_dms w 0 = Some d \<and> 2 \<le> dm_nrefs d \<and>
     p_tics (dw_proc w) 100 = Some t \<and> 0 < tic_nrefs t"
proof -
  obtain w d where w: "dirmon_reach demo_ctx {100} 0 w" "dw_dms w 0 = Some d" "dm_pool d \<noteq> INVALID_HANDLE_VALUE"
    "dm_tic d = Some 100" using demo_registered by (auto simp: INVALID_HANDLE_VALUE_def)
  with monitors_safe [OF w(1)] show ?thesis by fastforce
qed



theorem unregister_releases_witness:
  "\<exists>w w'. dirmon_reach demo_ctx {100} 0 w \<and> Twapi_UnregisterDirectoryMonitorObjCmd 1 100 5 w = Some (w', True)"
proof -
  obtain w d where w: "dirmon_reach demo_ctx {100} 0 w" "dw_lists w 100 \<noteq> None" "dw_dms w 0 = Some d"
    "dm_tic d = Some 100" "dm_dir d = 5" using demo_registered by blast
  obtain w' found where w': "Twapi_UnregisterDirectoryMonitorObjCmd 1 100 5 w = Some (w', found)"
    "found \<longleftrightarrow> (\<exists>m d. dw_dms w m = Some d \<and> dm_tic d = Some 100 \<and> dm_dir d = 5)"
    using unregister_releases [OF w(1,2), of 1 5] by blast
  from w'(2) w(3-5) have found by blast
  with w(1) w'(1) show ?thesis by auto
qed

theorem register_outcome_witness:
  "\<exists>w' r. Twapi_RegisterDirectoryMonitorObjCmd 1 100 [] False 0 [] (Inl 3) (Inr 6) 0 (Inr 9) 0
      (dirw_start demo_ctx {100}) = Some (w', r)"
proof -
  have "0 < tic_nrefs demo_tic" "length [] \<le> 32" "(9::int) \<noteq> INVALID_HANDLE_VALUE" by (simp_all add: INVALID_HANDLE_VALUE_def)
  from register_outcome [OF demo_start demo_start_simps this, of 1 "[]" False 0 "Inl 3" "Inr 6" 0 0] show ?thesis by blast
qed

theorem register_wait_failure_witness:
  "\<exists>w' l. dirmon_reach demo_ctx {100} 1 w' \<and> dw_lists w' 100 = Some l \<and> zlist_count l = - 1 \<and>
     TwapiStorageCleanup 1 100 w' = None"
proof -
  have 1: "100 \<in> {100::tid}" "p_tics demo_ctx 100 = Some demo_tic" "0 < tic_nrefs demo_tic" "length [] \<le> 32"
    "(5::int) \<noteq> INVALID_HANDLE_VALUE" by (simp_all add: demo_tics INVALID_HANDLE_VALUE_def)
  have 2: "\<forall>c t. p_tics demo_ctx c = Some t \<longrightarrow> ctx_good t 0"
    by (auto simp: ctx_good_def demo_tics split: if_splits)
  from register_wait_failure [OF 1 demo_tls_inv 2, where cur' = 1] show ?thesis by blast
qed

theorem read_error_leaks_event_witness:
  "\<exists>w w1 w'. dirmon_reach demo_ctx {100} 0 w \<and> TwapiDirectoryMonitorThreadPoolFn 0 False (Inl 5) 0 w = Some w1 \<and>
     TwapiShutdownDirectoryMonitor 1 0 w1 = Some w' \<and> 6 \<in> set (dw_open w')"
proof -
  obtain w d where w: "dirmon_reach demo_ctx {100} 0 w" "dw_dms w 0 = Some d" "dm_pool d \<noteq> INVALID_HANDLE_VALUE"
    "dm_iob d \<noteq> None" "dm_event d = Some 6" "6 \<in> set (dw_open w)" "6 \<noteq> dm_dir d" "dm_tic d = Some 100"
    using demo_registered by (auto simp: INVALID_HANDLE_VALUE_def)
  obtain L where S: "d_state L w" using reach_state [OF w(1) refl] by blast
  have m: "0 \<in> set (L 100)" using d_goodD(2) [OF d_stateD(1) [OF S], of 0] w(2,8) by (simp add: dm_ok_def)
  from pool_fn_ok [OF S w(2-4), of "Inl 5" 0] obtain w1 where w1: "TwapiDirectoryMonitorThreadPoolFn 0 False (Inl 5) 0 w = Some w1"
    "d_state L w1" by (auto simp: read_ok_def)
  obtain d1 t where d1: "dw_dms w1 0 = Some d1" "dm_tic d1 = Some 100" "p_tics (dw_proc w1) 100 = Some t"
    using monitor_tic [OF d_stateD(1) [OF w1(2)] m] by blast
  obtain p where p: "TwapiInterpContextUnref 1 100 1 (dw_proc w1) = Some p"
    using ContextUnref_ok [OF d_stateD(2) [OF w1(2)] d1(3)] by blast
  from dm_shutdown_ok [OF d_stateD(1) [OF w1(2)] d1(1,2) p] obtain w' where w': "TwapiShutdownDirectoryMonitor 1 0 w1 = Some w'" by blast
  have "(5::nat) \<noteq> ERROR_IO_INCOMPLETE" by (simp add: ERROR_IO_INCOMPLETE_def)
  from read_error_leaks_event [OF w(2,5,6,7) w1(1) this w'] w(1) w1(1) w' show ?thesis by blast
qed

end
