(* ===== verification/Errors.thy ===== *)
theory Errors
  imports Prelude "HOL-Library.Word" "HOL-Library.Sublist"
begin

text \<open>
  Errors as results and error codes of the interpreter (\<open>base/errors.c\<close>, the error macros of
  \<open>include/twapi.h\<close>). The messages of the system and of the modules that have messages are a
  parameter, as is the printing of numbers. Strings of the system are given as they are; a
  conversion between character sets does not occur in the model.
\<close>

section \<open>Codes\<close>

definition error_map :: "(int \<times> string) list" where
  "error_map = [
    (0, ''No error.''),
    (1, ''Invalid or badly formatted arguments specified.''),
    (2, ''Attempt to write past the end of memory buffer.''),
    (3, ''Extra arguments specified.''),
    (4, ''Incorrect number of arguments.''),
    (5, ''Internal limit exceeded.''),
    (6, ''Invalid option specified.''),
    (7, ''Invalid or unknown function code passed to Win32 API dispatcher.''),
    (8, ''An internal error has been detected.''),
    (9, ''Specified resource or object not found.''),
    (10, ''System error.''),
    (11, ''Could not register thread pool wait.''),
    (12, ''Internal error: requested operation is not valid for current state.''),
    (13, ''Value is out of range.''),
    (14, ''Unsupported type, format or function.''),
    (15, ''Attempt to register duplicate pointer.''),
    (16, ''Type of pointer does not match registered type.''),
    (17, ''Pointer is not registered. Probably invalid or already freed.''),
    (18, ''Pointer is NULL.''),
    (19, ''Pointer is registered as an uncounted pointer.''),
    (20, ''Command cannot be called in this scope.''),
    (21, ''Script error.''),
    (22, ''Invalid data.''),
    (23, ''Invalid pointer.'')]"

text \<open>The entry at the index of the code, or else a search.\<close>

definition TwapiMapErrorCode :: "int \<Rightarrow> string option" where
  "TwapiMapErrorCode error =
     (if 0 \<le> error \<and> error < int (length error_map) \<and> fst (error_map ! nat error) = error
      then Some (snd (error_map ! nat error)) else map_of error_map error)"

definition TWAPI_WIN32_ERROR_FAC :: nat where "TWAPI_WIN32_ERROR_FAC = 2748"

text \<open>\<open>TWAPI_ERROR_TO_WIN32\<close> as it is written, with a comparison in the place of a shift.\<close>

definition TWAPI_ERROR_TO_WIN32 :: "32 word \<Rightarrow> 32 word" where
  "TWAPI_ERROR_TO_WIN32 code =
     or (or 3758096384 (if TWAPI_WIN32_ERROR_FAC < 16 then 1 else 0)) code"

definition IS_TWAPI_WIN32_ERROR :: "32 word \<Rightarrow> bool" where
  "IS_TWAPI_WIN32_ERROR code \<longleftrightarrow> drop_bit 16 code = or 57344 (word_of_nat TWAPI_WIN32_ERROR_FAC)"

definition TWAPI_WIN32_ERROR_TO_CODE :: "32 word \<Rightarrow> 32 word" where
  "TWAPI_WIN32_ERROR_TO_CODE winerr = and winerr 65535"

section \<open>Messages\<close>

datatype msg_source = SYSTEM_MSGS | NETMSG_DLL | NTDLL_DLL | WMIUTILS_DLL | PDH_DLL

text \<open>
  \<open>e_wide\<close> and \<open>e_ansi\<close>: the message \<open>FormatMessage\<close> finds, if it finds one; \<open>e_loaded\<close>: the
  module can be loaded; \<open>e_int\<close>: the decimal string of a number.
\<close>

record elib =
  e_int :: "int \<Rightarrow> string"
  e_wide :: "msg_source \<Rightarrow> 32 word \<Rightarrow> string option"
  e_ansi :: "msg_source \<Rightarrow> 32 word \<Rightarrow> string option"
  e_loaded :: "msg_source \<Rightarrow> bool"

definition strip_crlf :: "string \<Rightarrow> string" where
  "strip_crlf s =
     (let s1 = (if last s = CHR 0x0A then butlast s else s)
      in if s1 \<noteq> [] \<and> last s1 = CHR 0x0D then butlast s1 else s1)"

definition Twapi_FormatMsgFromModule :: "elib \<Rightarrow> 32 word \<Rightarrow> msg_source \<Rightarrow> string option" where
  "Twapi_FormatMsgFromModule E error m =
     (case e_wide E m error of
        Some s \<Rightarrow> if s \<noteq> [] then Some (strip_crlf s)
                  else (case e_ansi E m error of Some t \<Rightarrow> if t \<noteq> [] then Some (strip_crlf t) else None | None \<Rightarrow> None)
      | None \<Rightarrow> (case e_ansi E m error of Some t \<Rightarrow> if t \<noteq> [] then Some (strip_crlf t) else None | None \<Rightarrow> None))"

definition TwapiGetErrorMsg :: "elib \<Rightarrow> int \<Rightarrow> string" where
  "TwapiGetErrorMsg E error = (case TwapiMapErrorCode error of
      Some msg \<Rightarrow> msg
    | None \<Rightarrow> ''Twapi error '' @ e_int E error @ ''.'')"

definition NERR_BASE :: "32 word" where "NERR_BASE = 2100"
definition MAX_NERR :: "32 word" where "MAX_NERR = 2999"
definition ERROR_CALL_NOT_IMPLEMENTED :: "32 word" where "ERROR_CALL_NOT_IMPLEMENTED = 120"
definition ERROR_INVALID_PARAMETER :: "32 word" where "ERROR_INVALID_PARAMETER = 87"

text \<open>The message of the first module of the list that has one.\<close>

fun first_message :: "elib \<Rightarrow> 32 word \<Rightarrow> msg_source list \<Rightarrow> string option" where
  "first_message E error [] = None"
| "first_message E error (m # ms) =
     (case (if m = SYSTEM_MSGS \<or> e_loaded E m then Twapi_FormatMsgFromModule E error m else None) of
        Some s \<Rightarrow> Some s
      | None \<Rightarrow> first_message E error ms)"

definition Twapi_MapWindowsErrorToString :: "elib \<Rightarrow> 32 word \<Rightarrow> string" where
  "Twapi_MapWindowsErrorToString E error =
     (case first_message E error
         ([SYSTEM_MSGS] @ (if NERR_BASE \<le> error \<and> error \<le> MAX_NERR then [NETMSG_DLL] else []) @
          [NTDLL_DLL, WMIUTILS_DLL, PDH_DLL]) of
        Some s \<Rightarrow> s
      | None \<Rightarrow>
          if IS_TWAPI_WIN32_ERROR error then TwapiGetErrorMsg E (sint (TWAPI_WIN32_ERROR_TO_CODE error))
          else if error = ERROR_CALL_NOT_IMPLEMENTED then ''Function not supported under this Windows version''
          else ''Windows error: '' @ e_int E (sint error))"

section \<open>Results\<close>

text \<open>The result and the error code of the interpreter; an operation with no interpreter changes nothing.\<close>

record ires =
  ir_result :: string
  ir_code :: "string list"

definition Twapi_MakeTwapiErrorCodeObj :: "elib \<Rightarrow> int \<Rightarrow> string list" where
  "Twapi_MakeTwapiErrorCodeObj E error = [''TWAPI'', e_int E error, TwapiGetErrorMsg E error]"

definition Twapi_MakeWindowsErrorCodeObj :: "elib \<Rightarrow> 32 word \<Rightarrow> string option \<Rightarrow> string list" where
  "Twapi_MakeWindowsErrorCodeObj E error extra =
     [''TWAPI_WIN32'', e_int E (sint error), Twapi_MapWindowsErrorToString E error] @ (case extra of None \<Rightarrow> [] | Some x \<Rightarrow> [x])"

definition TwapiReturnError :: "elib \<Rightarrow> int \<Rightarrow> ires option \<Rightarrow> ires option" where
  "TwapiReturnError E code itp =
     map_option (\<lambda>_. \<lparr>ir_result = TwapiGetErrorMsg E code, ir_code = Twapi_MakeTwapiErrorCodeObj E code\<rparr>) itp"

definition TwapiReturnErrorEx :: "elib \<Rightarrow> int \<Rightarrow> string option \<Rightarrow> ires option \<Rightarrow> ires option" where
  "TwapiReturnErrorEx E code ob itp =
     (case ob of
        None \<Rightarrow> TwapiReturnError E code itp
      | Some s \<Rightarrow> map_option (\<lambda>_.
          \<lparr>ir_result = s @ (case TwapiMapErrorCode code of
              Some msg \<Rightarrow> '' TWAPI error: '' @ msg
            | None \<Rightarrow> '' TWAPI error code: '' @ e_int E code),
           ir_code = Twapi_MakeTwapiErrorCodeObj E code\<rparr>) itp)"

definition TwapiReturnErrorMsg :: "elib \<Rightarrow> int \<Rightarrow> string option \<Rightarrow> ires option \<Rightarrow> ires option" where
  "TwapiReturnErrorMsg E code msg itp =
     (case msg of Some s \<Rightarrow> TwapiReturnErrorEx E code (Some s) itp | None \<Rightarrow> TwapiReturnError E code itp)"

definition Twapi_AppendSystemErrorEx :: "elib \<Rightarrow> 32 word \<Rightarrow> string option \<Rightarrow> ires option \<Rightarrow> ires option" where
  "Twapi_AppendSystemErrorEx E error extra itp =
     map_option (\<lambda>r.
        let code = Twapi_MakeWindowsErrorCodeObj E error extra;
            res = ir_result r @ (if ir_result r \<noteq> [] then '' '' else []) @ code ! 2
        in \<lparr>ir_result = res, ir_code = code\<rparr>) itp"

definition Twapi_AppendSystemError :: "elib \<Rightarrow> 32 word \<Rightarrow> ires option \<Rightarrow> ires option" where
  "Twapi_AppendSystemError E error itp = Twapi_AppendSystemErrorEx E error None itp"

definition TwapiReturnSystemError :: "elib \<Rightarrow> 32 word \<Rightarrow> ires option \<Rightarrow> ires option" where
  "TwapiReturnSystemError E last_error itp =
     Twapi_AppendSystemError E (if last_error = 0 then ERROR_INVALID_PARAMETER else last_error)
       (map_option (\<lambda>_. \<lparr>ir_result = [], ir_code = []\<rparr>) itp)"

definition Twapi_GenerateWin32Error :: "elib \<Rightarrow> 32 word \<Rightarrow> string option \<Rightarrow> ires option \<Rightarrow> ires option" where
  "Twapi_GenerateWin32Error E error msg itp =
     (case msg of
        Some s \<Rightarrow> Twapi_AppendSystemError E error (map_option (\<lambda>r. r\<lparr>ir_result := s\<rparr>) itp)
      | None \<Rightarrow> Twapi_AppendSystemError E error itp)"

definition Twapi_WrongLevelError :: "elib \<Rightarrow> int \<Rightarrow> ires option \<Rightarrow> ires option" where
  "Twapi_WrongLevelError E level itp =
     TwapiReturnErrorEx E 1 (Some (''Invalid info level '' @ e_int E level @ ''.'')) itp"

text \<open>
  The error of a WNet function: \<open>extended\<close> is the provider's error, if it can be read.
\<close>

definition ERROR_EXTENDED_ERROR :: "32 word" where "ERROR_EXTENDED_ERROR = 1208"

definition Twapi_AppendWNetError :: "elib \<Rightarrow> 32 word \<Rightarrow> (string \<times> string) option \<Rightarrow> ires option \<Rightarrow> ires option" where
  "Twapi_AppendWNetError E error extended itp =
     (let itp1 = Twapi_AppendSystemError E error itp
      in case (if error = ERROR_EXTENDED_ERROR then extended else None) of
           None \<Rightarrow> itp1
         | Some (provider, errorbuf) \<Rightarrow>
             map_option (\<lambda>r. r\<lparr>ir_result := ir_result r @ '' '' @ provider @ '': '' @ errorbuf\<rparr>) itp1)"

text \<open>The error of a COM call: the description of its error object, if the object supports one.\<close>

definition Twapi_AppendCOMError :: "elib \<Rightarrow> 32 word \<Rightarrow> string option \<Rightarrow> ires option \<Rightarrow> ires option" where
  "Twapi_AppendCOMError E hr description itp =
     (case description of
        Some msg \<Rightarrow> Twapi_AppendSystemErrorEx E hr (Some msg) itp
      | None \<Rightarrow> Twapi_AppendSystemError E hr itp)"

section \<open>Properties\<close>

text \<open>The index shortcut finds what the search finds.\<close>

lemma map_error_search: "TwapiMapErrorCode error = map_of error_map error"
proof (cases "0 \<le> error \<and> error < int (length error_map)")
  case True
  have d: "distinct (map fst error_map)" by (simp add: error_map_def)
  have "nat error < length error_map" using True nat_less_iff by blast
  then have "(fst (error_map ! nat error), snd (error_map ! nat error)) \<in> set error_map" by (simp only: prod.collapse nth_mem)
  from map_of_is_SomeI [OF d this] have "map_of error_map (fst (error_map ! nat error)) = Some (snd (error_map ! nat error))" .
  then show ?thesis by (auto simp: TwapiMapErrorCode_def)
qed (auto simp: TwapiMapErrorCode_def)

lemma high_half: "code < 65536 \<Longrightarrow> drop_bit 16 (TWAPI_ERROR_TO_WIN32 code) = (57344 :: 32 word)"
proof -
  assume "code < 65536"
  moreover have "unat (drop_bit 16 code) = drop_bit 16 (unat code)" by (simp add: unat_drop_bit_eq)
  ultimately have "unat (drop_bit 16 code) = 0" by (simp add: drop_bit_eq_div word_less_nat_alt)
  then have "drop_bit 16 code = (0 :: 32 word)" by (simp add: unsigned_eq_0_iff)
  then show ?thesis by (simp add: TWAPI_ERROR_TO_WIN32_def TWAPI_WIN32_ERROR_FAC_def drop_bit_or)
qed

text \<open>
  An error of the program in the form of a Windows error is not recognised: unless a module of the system
  has a message for it by chance, its message is only its number, although the program has one.
\<close>

theorem win32_form_loses_message:
  assumes "code < 65536" "\<And>m. e_wide E m (TWAPI_ERROR_TO_WIN32 code) = None" "\<And>m. e_ansi E m (TWAPI_ERROR_TO_WIN32 code) = None"
  shows "\<not> IS_TWAPI_WIN32_ERROR (TWAPI_ERROR_TO_WIN32 code) \<and>
    Twapi_MapWindowsErrorToString E (TWAPI_ERROR_TO_WIN32 code) = ''Windows error: '' @ e_int E (sint (TWAPI_ERROR_TO_WIN32 code))"
proof -
  have no: "\<not> IS_TWAPI_WIN32_ERROR (TWAPI_ERROR_TO_WIN32 code)"
    by (simp add: IS_TWAPI_WIN32_ERROR_def high_half [OF assms(1)] TWAPI_WIN32_ERROR_FAC_def)
  have none: "first_message E (TWAPI_ERROR_TO_WIN32 code) ms = None" for ms
    by (induction ms) (simp_all add: Twapi_FormatMsgFromModule_def assms(2,3))
  have "TWAPI_ERROR_TO_WIN32 code \<noteq> ERROR_CALL_NOT_IMPLEMENTED"
  proof
    assume "TWAPI_ERROR_TO_WIN32 code = ERROR_CALL_NOT_IMPLEMENTED"
    then have "(57344 :: 32 word) = drop_bit 16 120" using high_half [OF assms(1)] by (simp add: ERROR_CALL_NOT_IMPLEMENTED_def)
    then show False by simp
  qed
  with no show ?thesis unfolding Twapi_MapWindowsErrorToString_def none by simp
qed

text \<open>
  Every way of reporting an error sets an error code whose third element is a message, and the result
  of the interpreter ends with that message or contains the text of the caller before it.
\<close>

theorem error_code_agrees_with_result:
  assumes "op \<in> {TwapiReturnError E c, TwapiReturnErrorMsg E c msg, TwapiReturnErrorEx E c msg,
      Twapi_AppendSystemErrorEx E w msg, Twapi_AppendSystemError E w, TwapiReturnSystemError E w,
      Twapi_GenerateWin32Error E w msg, Twapi_AppendCOMError E w msg}"
    and "TwapiMapErrorCode c \<noteq> None"
  shows "op None = None \<and> (\<exists>r. op (Some r0) = Some r \<and> 3 \<le> length (ir_code r) \<and>
    hd (ir_code r) \<in> {''TWAPI'', ''TWAPI_WIN32''} \<and> suffix (ir_code r ! 2) (ir_result r))"
proof -
  note defs = TwapiReturnError_def TwapiReturnErrorMsg_def TwapiReturnErrorEx_def Twapi_AppendSystemErrorEx_def
    Twapi_AppendSystemError_def TwapiReturnSystemError_def Twapi_GenerateWin32Error_def Twapi_AppendCOMError_def
    Twapi_MakeTwapiErrorCodeObj_def Twapi_MakeWindowsErrorCodeObj_def TwapiGetErrorMsg_def Let_def
  show ?thesis
    using assms by (auto simp: defs split: option.splits intro!: suffix_appendI suffix_ConsI)
qed

section \<open>Witnesses\<close>

definition demo_elib :: elib where
  "demo_elib = \<lparr>e_int = (\<lambda>n. ''n''), e_wide = (\<lambda>_ _. None), e_ansi = (\<lambda>_ _. None), e_loaded = (\<lambda>_. True)\<rparr>"

theorem win32_form_loses_message_witness:
  "Twapi_MapWindowsErrorToString demo_elib (TWAPI_ERROR_TO_WIN32 11) = ''Windows error: n'' \<and>
   TwapiGetErrorMsg demo_elib 11 = ''Could not register thread pool wait.''"
proof -
  have "\<And>m. e_wide demo_elib m (TWAPI_ERROR_TO_WIN32 11) = None" "\<And>m. e_ansi demo_elib m (TWAPI_ERROR_TO_WIN32 11) = None"
    by (simp_all add: demo_elib_def)
  from win32_form_loses_message [OF _ this] show ?thesis
    by (simp add: demo_elib_def TwapiGetErrorMsg_def map_error_search error_map_def)
qed

theorem error_code_agrees_with_result_witness:
  "\<exists>r. TwapiReturnError demo_elib 18 (Some \<lparr>ir_result = ''x'', ir_code = []\<rparr>) = Some r \<and> suffix (ir_code r ! 2) (ir_result r)"
proof -
  have "TwapiMapErrorCode 18 \<noteq> None" by (simp add: map_error_search error_map_def)
  from error_code_agrees_with_result [OF insertI1 this, where E = demo_elib and ?r0.0 = "\<lparr>ir_result = ''x'', ir_code = []\<rparr>"]
  show ?thesis by blast
qed

end
