(* ===== verification/Npipe.thy ===== *)
theory Npipe
  imports Process Errors
begin

text \<open>
  Named pipe channels (\<open>namedpipe/namedpipe.c\<close>).

  A pipe is a Tcl channel whose reads and writes are overlapped operations. The thread pool waits
  for their completion and changes the state of the operation; the event source of the pipe's
  thread turns states into Tcl events, and the event handler notifies the channel. A pipe is
  counted by its Tcl channel, by the list of its thread, and by each wait of the thread pool.

  Pipes are objects of a heap that the code frees: an access to a freed pipe has no result
  (\<open>None\<close>), nor has one through the pipe list of a thread that has none. The answers of the
  system are parameters. Errors of the channel driver are the Windows error codes that
  \<open>tclWinConvertError\<close> maps to an \<open>errno\<close>.
\<close>

section \<open>State\<close>

type_synonym octet = "8 word"

datatype iobuf_state = IOBUF_IDLE | IOBUF_IO_PENDING | IOBUF_IO_COMPLETED | IOBUF_IO_COMPLETED_WITH_ERROR

datatype npdir = READER | WRITER

datatype npflag = NPIPE_F_WATCHREAD | NPIPE_F_WATCHWRITE | NPIPE_F_NONBLOCKING | NPIPE_F_CONNECTED
  | NPIPE_F_EVENT_QUEUED | NPIPE_F_EOF_NOTIFIED

datatype tcl_mask = TCL_READABLE | TCL_WRITABLE

text \<open>
  One direction: the event and the status field of its \<open>OVERLAPPED\<close>, the wait, the event, the byte
  that is read ahead (reader) and the buffer for data on its way (writer).
\<close>

record npio =
  io_ovl_event :: "int option"
  io_internal :: nat
  io_hwait :: int
  io_hevent :: "int option"
  io_read_ahead :: octet
  io_write_buf :: "octet list option"
  io_write_sz :: nat
  io_state :: iobuf_state

record npipe =
  np_thread :: "thread option"
  np_channel :: "nat option"
  np_hpipe :: int
  np_hsync :: "int option"
  np_reader :: npio
  np_writer :: npio
  np_flags :: "npflag set"
  np_nrefs :: int
  np_winerr :: nat

text \<open>\<open>nw_lists\<close>: the pipes of each thread that has a list; \<open>nw_events\<close>: the Tcl event queues.\<close>

record npw =
  nw_pipes :: "nat \<rightharpoonup> npipe"
  nw_links :: "nat links"
  nw_lists :: "thread \<rightharpoonup> nat zlist"
  nw_events :: "(thread \<times> int) list"
  nw_open :: "int set"
  nw_freed :: "nat list"
  nw_next :: nat

definition np_io :: "npdir \<Rightarrow> npipe \<Rightarrow> npio" where
  "np_io d pc = (case d of READER \<Rightarrow> np_reader pc | WRITER \<Rightarrow> np_writer pc)"

definition set_io :: "npdir \<Rightarrow> npio \<Rightarrow> npipe \<Rightarrow> npipe" where
  "set_io d io pc = (case d of READER \<Rightarrow> pc\<lparr>np_reader := io\<rparr> | WRITER \<Rightarrow> pc\<lparr>np_writer := io\<rparr>)"

definition set_flag :: "npflag \<Rightarrow> npipe \<Rightarrow> npipe" where
  "set_flag f pc = pc\<lparr>np_flags := insert f (np_flags pc)\<rparr>"

definition clear_flag :: "npflag \<Rightarrow> npipe \<Rightarrow> npipe" where
  "clear_flag f pc = pc\<lparr>np_flags := np_flags pc - {f}\<rparr>"

definition upd_np :: "nat \<Rightarrow> npipe \<Rightarrow> npw \<Rightarrow> npw" where
  "upd_np m pc w = w\<lparr>nw_pipes := (nw_pipes w)(m \<mapsto> pc)\<rparr>"

definition np_list :: "nat zlist \<Rightarrow> npw \<Rightarrow> nat zstate" where
  "np_list l w = (nw_links w, l)"

definition set_np_list :: "thread \<Rightarrow> nat zstate \<Rightarrow> npw \<Rightarrow> npw" where
  "set_np_list t z w = w\<lparr>nw_links := fst z, nw_lists := (nw_lists w)(t \<mapsto> snd z)\<rparr>"

definition close_handle :: "int \<Rightarrow> npw \<Rightarrow> npw" where
  "close_handle h w = w\<lparr>nw_open := nw_open w - {h}\<rparr>"

section \<open>Conditions\<close>

definition ERROR_HANDLE_EOF :: nat where "ERROR_HANDLE_EOF = 38"
definition ERROR_BROKEN_PIPE :: nat where "ERROR_BROKEN_PIPE = 109"
definition STATUS_PIPE_BROKEN :: nat where "STATUS_PIPE_BROKEN = 3221225803"
definition ERROR_PIPE_BUSY :: nat where "ERROR_PIPE_BUSY = 231"
definition ERROR_PIPE_NOT_CONNECTED :: nat where "ERROR_PIPE_NOT_CONNECTED = 233"
definition ERROR_PIPE_CONNECTED :: nat where "ERROR_PIPE_CONNECTED = 535"
definition ERROR_IO_PENDING :: nat where "ERROR_IO_PENDING = 997"

text \<open>The status the system keeps in an \<open>OVERLAPPED\<close> until the operation ends.\<close>

definition STATUS_PENDING :: nat where "STATUS_PENDING = 259"

definition WAIT_FAILED_ERROR :: nat where
  "WAIT_FAILED_ERROR = unat (TWAPI_ERROR_TO_WIN32 11)"

definition SET_NPIPE_ERROR :: "nat \<Rightarrow> npipe \<Rightarrow> npipe" where
  "SET_NPIPE_ERROR err pc = (if np_winerr pc = 0 then pc\<lparr>np_winerr := err\<rparr> else pc)"

definition NPIPE_CONNECTED :: "npipe \<Rightarrow> bool" where
  "NPIPE_CONNECTED pc \<longleftrightarrow> NPIPE_F_CONNECTED \<in> np_flags pc"

definition NPIPE_EOF :: "npipe \<Rightarrow> bool" where
  "NPIPE_EOF pc \<longleftrightarrow> np_winerr pc = ERROR_HANDLE_EOF \<or> np_winerr pc = ERROR_BROKEN_PIPE \<or>
     np_winerr pc = STATUS_PIPE_BROKEN"

definition NPIPE_EOF_NOTIFIABLE :: "npipe \<Rightarrow> bool" where
  "NPIPE_EOF_NOTIFIABLE pc \<longleftrightarrow> NPIPE_EOF pc \<and> NPIPE_F_EOF_NOTIFIED \<notin> np_flags pc"

definition NPIPE_READ_NOTIFIABLE :: "npipe \<Rightarrow> bool" where
  "NPIPE_READ_NOTIFIABLE pc \<longleftrightarrow> io_state (np_reader pc) = IOBUF_IO_COMPLETED \<or>
     io_state (np_reader pc) = IOBUF_IO_COMPLETED_WITH_ERROR \<or>
     np_winerr pc \<noteq> 0 \<and> \<not> NPIPE_CONNECTED pc"

definition NPIPE_WRITE_NOTIFIABLE :: "npipe \<Rightarrow> bool" where
  "NPIPE_WRITE_NOTIFIABLE pc \<longleftrightarrow> io_state (np_writer pc) = IOBUF_IO_COMPLETED \<or>
     io_state (np_writer pc) = IOBUF_IO_COMPLETED_WITH_ERROR \<or>
     np_winerr pc \<noteq> 0 \<and> \<not> NPIPE_CONNECTED pc"

definition NPIPE_NOTIFIABLE :: "npipe \<Rightarrow> bool" where
  "NPIPE_NOTIFIABLE pc \<longleftrightarrow> io_state (np_reader pc) = IOBUF_IO_COMPLETED \<or>
     io_state (np_reader pc) = IOBUF_IO_COMPLETED_WITH_ERROR \<or>
     io_state (np_writer pc) = IOBUF_IO_COMPLETED \<or>
     io_state (np_writer pc) = IOBUF_IO_COMPLETED_WITH_ERROR \<or>
     NPIPE_EOF_NOTIFIABLE pc \<or> np_winerr pc \<noteq> 0 \<and> \<not> NPIPE_CONNECTED pc"

section \<open>The event source\<close>

text \<open>The result of the set-up: whether Tcl is told not to wait.\<close>

partial_function (option) setup_loop :: "nat ptr \<Rightarrow> npw \<Rightarrow> bool option" where
  "setup_loop p w = (case p of
      None \<Rightarrow> Some False
    | Some m \<Rightarrow> do {
        pc \<leftarrow> nw_pipes w m;
        if NPIPE_NOTIFIABLE pc then Some True else setup_loop (zl_next (nw_links w m)) w })"

definition NPipeSetupProc :: "thread \<Rightarrow> bool \<Rightarrow> npw \<Rightarrow> bool option" where
  "NPipeSetupProc cur file_events w =
     (if \<not> file_events then Some False
      else do { l \<leftarrow> nw_lists w cur; setup_loop (zlist_head l) w })"

definition queue_event :: "thread \<Rightarrow> nat \<Rightarrow> npw \<Rightarrow> npw option" where
  "queue_event cur m w = do {
     pc \<leftarrow> nw_pipes w m;
     l \<leftarrow> nw_lists w cur;
     z \<leftarrow> ZLIST_MOVETOHEAD m (np_list l w);
     Some (upd_np m (set_flag NPIPE_F_EVENT_QUEUED pc)
             ((set_np_list cur z w)\<lparr>nw_events := nw_events w @ [(cur, np_hpipe pc)]\<rparr>)) }"

partial_function (option) check_loop :: "thread \<Rightarrow> nat ptr \<Rightarrow> npw \<Rightarrow> npw option" where
  "check_loop cur p w = (case p of
      None \<Rightarrow> Some w
    | Some m \<Rightarrow> do {
        pc \<leftarrow> nw_pipes w m;
        w' \<leftarrow> (if NPIPE_NOTIFIABLE pc \<and> NPIPE_F_EVENT_QUEUED \<notin> np_flags pc
               then queue_event cur m w else Some w);
        check_loop cur (zl_next (nw_links w' m)) w' })"

definition NPipeCheckProc :: "thread \<Rightarrow> bool \<Rightarrow> npw \<Rightarrow> npw option" where
  "NPipeCheckProc cur file_events w =
     (if \<not> file_events then Some w
      else do { l \<leftarrow> nw_lists w cur; check_loop cur (zlist_head l) w })"

definition GetNPipeTls :: "thread \<Rightarrow> npw \<Rightarrow> npw" where
  "GetNPipeTls cur w = (case nw_lists w cur of
      Some _ \<Rightarrow> w
    | None \<Rightarrow> w\<lparr>nw_lists := (nw_lists w)(cur \<mapsto> ZLIST_INIT)\<rparr>)"

section \<open>Pipes\<close>

definition npio_new :: npio where
  "npio_new = \<lparr>io_ovl_event = None, io_internal = 0, io_hwait = INVALID_HANDLE_VALUE, io_hevent = None,
     io_read_ahead = 0, io_write_buf = None, io_write_sz = 0, io_state = IOBUF_IDLE\<rparr>"

definition NPipeChannelNew :: "npw \<Rightarrow> npw \<times> nat" where
  "NPipeChannelNew w =
     (let m = nw_next w;
          pc = \<lparr>np_thread = None, np_channel = None, np_hpipe = INVALID_HANDLE_VALUE, np_hsync = None,
                np_reader = npio_new, np_writer = npio_new, np_flags = {}, np_nrefs = 0, np_winerr = 0\<rparr>
      in (w\<lparr>nw_pipes := (nw_pipes w)(m \<mapsto> pc), nw_links := ZLINK_INIT m (nw_links w), nw_next := Suc m\<rparr>, m))"

definition NPipeChannelDelete :: "nat \<Rightarrow> npw \<Rightarrow> npw option" where
  "NPipeChannelDelete m w = do {
     _ \<leftarrow> nw_pipes w m;
     Some (w\<lparr>nw_pipes := (nw_pipes w)(m := None), nw_freed := m # nw_freed w\<rparr>) }"

definition NPipeChannelRef :: "nat \<Rightarrow> int \<Rightarrow> npw \<Rightarrow> npw option" where
  "NPipeChannelRef m n w = do {
     pc \<leftarrow> nw_pipes w m;
     Some (upd_np m (pc\<lparr>np_nrefs := fst (ExchangeAdd (np_nrefs pc) n)\<rparr>) w) }"

definition NPipeChannelUnref :: "nat \<Rightarrow> int \<Rightarrow> npw \<Rightarrow> npw option" where
  "NPipeChannelUnref m decr w = do {
     pc \<leftarrow> nw_pipes w m;
     let (n, old) = ExchangeAdd (np_nrefs pc) (- decr);
     let w1 = upd_np m (pc\<lparr>np_nrefs := n\<rparr>) w;
     if old \<le> decr then NPipeChannelDelete m w1 else Some w1 }"

section \<open>The thread pool\<close>

text \<open>The system ends an operation: it stores the status, and the byte of a read.\<close>

definition system_completes :: "nat \<Rightarrow> octet \<Rightarrow> npio \<Rightarrow> npio" where
  "system_completes status b io =
     (if io_internal io = STATUS_PENDING then io\<lparr>io_internal := status, io_read_ahead := b\<rparr> else io)"

text \<open>The compare-and-exchange of the handler.\<close>

definition pool_io :: "npio \<Rightarrow> npio" where
  "pool_io io =
     (let state = (if io_internal io = 0 then IOBUF_IO_COMPLETED else IOBUF_IO_COMPLETED_WITH_ERROR)
      in if io_state io = IOBUF_IO_PENDING then io\<lparr>io_state := state\<rparr> else io)"

definition NPipeThreadPoolHandler :: "npdir \<Rightarrow> nat \<Rightarrow> npw \<Rightarrow> npw option" where
  "NPipeThreadPoolHandler d m w = do {
     pc \<leftarrow> nw_pipes w m;
     Some (upd_np m (set_io d (pool_io (np_io d pc)) pc) w) }"

text \<open>
  \<open>UnregisterWaitEx\<close> waits for running callbacks: \<open>during\<close> is what the system stores if the
  operation ends and the handler runs meanwhile.
\<close>

definition UnregisterWaitEx :: "npdir \<Rightarrow> (nat \<times> octet) option \<Rightarrow> npipe \<Rightarrow> npipe" where
  "UnregisterWaitEx d during pc = (case during of
      None \<Rightarrow> pc
    | Some (status, b) \<Rightarrow> set_io d (pool_io (system_completes status b (np_io d pc))) pc)"

section \<open>Events\<close>

definition hpipe_of :: "npw \<Rightarrow> nat \<Rightarrow> int option" where
  "hpipe_of w m = map_option np_hpipe (nw_pipes w m)"

text \<open>The flags and error of a pipe after an event, and the directions that are notified.\<close>

definition event_errors :: "npipe \<Rightarrow> npipe" where
  "event_errors pc =
     (let pc1 = clear_flag NPIPE_F_EVENT_QUEUED pc;
          pc2 = (if io_state (np_reader pc1) = IOBUF_IO_COMPLETED_WITH_ERROR
                 then SET_NPIPE_ERROR (io_internal (np_reader pc1)) pc1 else pc1)
      in if io_state (np_writer pc2) = IOBUF_IO_COMPLETED_WITH_ERROR
         then SET_NPIPE_ERROR (io_internal (np_writer pc2)) pc2 else pc2)"

definition watched :: "npipe \<Rightarrow> tcl_mask set" where
  "watched pc = (if NPIPE_F_WATCHWRITE \<in> np_flags pc then {TCL_WRITABLE} else {}) \<union>
     (if NPIPE_F_WATCHREAD \<in> np_flags pc then {TCL_READABLE} else {})"

definition event_mask :: "npipe \<Rightarrow> npipe \<times> tcl_mask set" where
  "event_mask pc =
     (let dirs = (if NPIPE_F_WATCHREAD \<in> np_flags pc \<and> NPIPE_READ_NOTIFIABLE pc then {TCL_READABLE} else {});
          (pc1, dirs1) =
            (if NPIPE_WRITE_NOTIFIABLE pc
             then (let (pc', dirs') =
                     (if \<not> NPIPE_CONNECTED pc
                      then (set_flag NPIPE_F_CONNECTED pc,
                            if NPIPE_F_WATCHREAD \<in> np_flags pc then insert TCL_READABLE dirs else dirs)
                      else (pc, dirs))
                   in (pc', if NPIPE_F_WATCHWRITE \<in> np_flags pc' then insert TCL_WRITABLE dirs' else dirs'))
             else (pc, dirs))
      in if NPIPE_EOF_NOTIFIABLE pc1 then (set_flag NPIPE_F_EOF_NOTIFIED pc1, dirs1 \<union> watched pc1)
         else (pc1, dirs1))"

text \<open>The compare-and-exchange at the end.\<close>

definition write_idle :: "npipe \<Rightarrow> npipe" where
  "write_idle pc = (if io_state (np_writer pc) = IOBUF_IO_COMPLETED
     then pc\<lparr>np_writer := (np_writer pc)\<lparr>io_state := IOBUF_IDLE\<rparr>\<rparr> else pc)"

text \<open>
  The event handler: whether the event was processed, and the pipe with the directions of the call
  of \<open>Tcl_NotifyChannel\<close>, with which the handler ends.
\<close>

definition NPipeEventProc ::
    "thread \<Rightarrow> bool \<Rightarrow> int \<Rightarrow> npw \<Rightarrow> (npw \<times> bool \<times> (nat \<times> tcl_mask set) option) option" where
  "NPipeEventProc cur file_events hpipe w =
     (if \<not> file_events then Some (w, False, None)
      else do {
        l \<leftarrow> nw_lists w cur;
        f \<leftarrow> ZLIST_LOCATE (hpipe_of w) (Some hpipe) (np_list l w);
        (case f of
           None \<Rightarrow> Some (w, True, None)
         | Some m \<Rightarrow> do {
             pc \<leftarrow> nw_pipes w m;
             let (pc1, dirs) = event_mask (event_errors pc);
             Some (upd_np m (write_idle pc1) w, True, if dirs \<noteq> {} then Some (m, dirs) else None) }) })"

section \<open>Watching\<close>

text \<open>
  \<open>rd\<close>: the error of \<open>ReadFile\<close>, or the byte of a read that ends at once. \<open>reg\<close>: the handle of
  \<open>RegisterWaitForSingleObject\<close>, if it succeeds.
\<close>

definition start_read :: "nat + octet \<Rightarrow> npio \<Rightarrow> npio + nat" where
  "start_read rd io =
     (let io1 = io\<lparr>io_state := IOBUF_IO_PENDING, io_internal := 0, io_ovl_event := io_hevent io\<rparr>
      in case rd of
           Inr b \<Rightarrow> Inl (io1\<lparr>io_read_ahead := b\<rparr>)
         | Inl winerr \<Rightarrow> if winerr \<noteq> ERROR_IO_PENDING then Inr winerr
                       else Inl (io1\<lparr>io_internal := STATUS_PENDING\<rparr>))"

text \<open>The part of \<open>NPipeWatchReads\<close> and \<open>NPipeOutputProc\<close> that has the thread pool wait.\<close>

definition register_wait :: "npdir \<Rightarrow> nat \<Rightarrow> int option \<Rightarrow> npw \<Rightarrow> (npw \<times> bool) option" where
  "register_wait d m reg w = do {
     pc0 \<leftarrow> nw_pipes w m;
     if io_hwait (np_io d pc0) \<noteq> INVALID_HANDLE_VALUE then Some (w, True)
     else do {
       w1 \<leftarrow> NPipeChannelRef m 1 w;
       pc \<leftarrow> nw_pipes w1 m;
       (case reg of
          Some h \<Rightarrow> Some (upd_np m (set_io d ((np_io d pc)\<lparr>io_hwait := h\<rparr>) pc) w1, True)
        | None \<Rightarrow> do {
            w2 \<leftarrow> NPipeChannelUnref m 1 w1;
            pc2 \<leftarrow> nw_pipes w2 m;
            Some (upd_np m ((set_io d ((np_io d pc2)\<lparr>io_hwait := INVALID_HANDLE_VALUE\<rparr>) pc2)
                     \<lparr>np_winerr := WAIT_FAILED_ERROR\<rparr>) w2, False) }) } }"

definition NPipeWatchReads :: "nat \<Rightarrow> nat + octet \<Rightarrow> int option \<Rightarrow> npw \<Rightarrow> npw option" where
  "NPipeWatchReads m rd reg w = do {
     pc \<leftarrow> nw_pipes w m;
     if np_winerr pc \<noteq> 0 \<or> io_state (np_reader pc) = IOBUF_IO_COMPLETED \<or>
        io_state (np_reader pc) = IOBUF_IO_COMPLETED_WITH_ERROR
     then Some w
     else if io_state (np_reader pc) \<noteq> IOBUF_IO_PENDING
     then (case start_read rd (np_reader pc) of
             Inr winerr \<Rightarrow> Some (upd_np m (pc\<lparr>np_reader := (np_reader pc)\<lparr>io_state := IOBUF_IDLE, io_internal := 0,
                 io_ovl_event := io_hevent (np_reader pc)\<rparr>, np_winerr := winerr\<rparr>) w)
           | Inl io \<Rightarrow> map_option fst (register_wait READER m reg (upd_np m (pc\<lparr>np_reader := io\<rparr>) w)))
     else map_option fst (register_wait READER m reg w) }"

definition NPipeDisableWatch :: "nat \<Rightarrow> npdir \<Rightarrow> (nat \<times> octet) option \<Rightarrow> npw \<Rightarrow> npw option" where
  "NPipeDisableWatch m d during w = do {
     pc \<leftarrow> nw_pipes w m;
     if io_hwait (np_io d pc) \<noteq> INVALID_HANDLE_VALUE
     then do {
       let pc1 = UnregisterWaitEx d during pc;
       NPipeChannelUnref m 1 (upd_np m (set_io d ((np_io d pc1)\<lparr>io_hwait := INVALID_HANDLE_VALUE\<rparr>) pc1) w) }
     else Some w }"

text \<open>What the system answers to the calls of one operation.\<close>

record npsys =
  s_read_watch :: "nat + octet"
  s_register :: "int option"
  s_during_read :: "(nat \<times> octet) option"
  s_during_write :: "(nat \<times> octet) option"
  s_wait_read :: "bool \<times> nat \<times> octet"
  s_peek :: "nat + nat"
  s_read :: "nat \<Rightarrow> nat + octet list"
  s_overlapped :: "nat + octet list"

text \<open>The result: whether Tcl is told not to wait.\<close>

definition NPipeWatchProc :: "nat \<Rightarrow> tcl_mask set \<Rightarrow> npsys \<Rightarrow> npw \<Rightarrow> (npw \<times> bool) option" where
  "NPipeWatchProc m dirs s w = do {
     pc \<leftarrow> nw_pipes w m;
     w1 \<leftarrow> (if TCL_READABLE \<in> dirs
            then (if NPIPE_F_WATCHREAD \<notin> np_flags pc
                  then (let w' = upd_np m (set_flag NPIPE_F_WATCHREAD pc) w
                        in if NPIPE_CONNECTED pc then NPipeWatchReads m (s_read_watch s) (s_register s) w' else Some w')
                  else Some w)
            else NPipeDisableWatch m READER (s_during_read s) (upd_np m (clear_flag NPIPE_F_WATCHREAD pc) w));
     pc1 \<leftarrow> nw_pipes w1 m;
     w2 \<leftarrow> (if TCL_WRITABLE \<in> dirs
            then (if NPIPE_F_WATCHWRITE \<notin> np_flags pc1
                  then Some (upd_np m (set_flag NPIPE_F_WATCHWRITE pc1) w1) else Some w1)
            else if NPIPE_F_WATCHWRITE \<in> np_flags pc1
            then (let w' = upd_np m (clear_flag NPIPE_F_WATCHWRITE pc1) w1
                  in if NPIPE_F_NONBLOCKING \<notin> np_flags pc1
                     then NPipeDisableWatch m WRITER (s_during_write s) w' else Some w')
            else Some w1);
     pc2 \<leftarrow> nw_pipes w2 m;
     Some (w2, dirs \<noteq> {} \<and> (NPIPE_EOF_NOTIFIABLE pc2 \<or>
        TCL_READABLE \<in> dirs \<and> NPIPE_READ_NOTIFIABLE pc2 \<or>
        TCL_WRITABLE \<in> dirs \<and> NPIPE_WRITE_NOTIFIABLE pc2)) }"

definition NPipeBlockProc :: "nat \<Rightarrow> bool \<Rightarrow> npw \<Rightarrow> npw option" where
  "NPipeBlockProc m nonblocking w = do {
     pc \<leftarrow> nw_pipes w m;
     Some (upd_np m (if nonblocking then set_flag NPIPE_F_NONBLOCKING pc
                     else clear_flag NPIPE_F_NONBLOCKING pc) w) }"

definition NPipeGetHandleProc :: "nat \<Rightarrow> npw \<Rightarrow> int option" where
  "NPipeGetHandleProc m w = map_option np_hpipe (nw_pipes w m)"

section \<open>Reading\<close>

text \<open>
  \<open>s_peek\<close>: the number of bytes in the pipe, or an error. \<open>s_read n\<close>: the bytes of a read of at
  most \<open>n\<close>, or an error; after \<open>ERROR_IO_PENDING\<close> the read ends with \<open>s_overlapped\<close>.
\<close>

definition NPipeReadData :: "nat \<Rightarrow> nat \<Rightarrow> npsys \<Rightarrow> npw \<Rightarrow> (npw \<times> octet list) option" where
  "NPipeReadData m bufsz s w = do {
     pc0 \<leftarrow> nw_pipes w m;
     let (pc, got, bufsz1) =
       (if io_state (np_reader pc0) = IOBUF_IO_COMPLETED
        then (pc0\<lparr>np_reader := (np_reader pc0)\<lparr>io_state := IOBUF_IDLE\<rparr>\<rparr>, [io_read_ahead (np_reader pc0)], bufsz - 1)
        else (pc0, [], bufsz));
     if bufsz1 = 0 then Some (upd_np m pc w, got)
     else (case s_peek s of
        Inl winerr \<Rightarrow> Some (upd_np m (pc\<lparr>np_winerr := winerr\<rparr>) w, [])
      | Inr avail \<Rightarrow>
          if avail = 0 \<and> NPIPE_F_NONBLOCKING \<in> np_flags pc then Some (upd_np m pc w, got)
          else (let num_to_read = min (if avail = 0 then 1 else avail) bufsz1;
                    pc1 = pc\<lparr>np_reader := (np_reader pc)\<lparr>io_internal := 0, io_ovl_event := None\<rparr>\<rparr>
                in case s_read s num_to_read of
                     Inr bytes \<Rightarrow> Some (upd_np m pc1 w, got @ bytes)
                   | Inl winerr \<Rightarrow>
                       if winerr \<noteq> ERROR_IO_PENDING
                       then Some (upd_np m (pc1\<lparr>np_winerr := winerr\<rparr>) w, [])
                       else (case s_overlapped s of
                           Inl e \<Rightarrow> Some (upd_np m (pc1\<lparr>np_winerr := e\<rparr>) w, [])
                         | Inr bytes \<Rightarrow> Some (upd_np m pc1 w, got @ bytes)))) }"

text \<open>The wait of a blocking read for a read that is pending. \<open>None\<close>: an error is set.\<close>

definition wait_pending :: "nat \<Rightarrow> npsys \<Rightarrow> npw \<Rightarrow> (npw \<times> bool) option" where
  "wait_pending m s w = do {
     pc \<leftarrow> nw_pipes w m;
     w1 \<leftarrow> (if io_hwait (np_reader pc) \<noteq> INVALID_HANDLE_VALUE
            then do {
              w' \<leftarrow> NPipeChannelUnref m 1 (upd_np m (UnregisterWaitEx READER (s_during_read s) pc) w);
              pc' \<leftarrow> nw_pipes w' m;
              Some (upd_np m (pc'\<lparr>np_reader := (np_reader pc')\<lparr>io_hwait := INVALID_HANDLE_VALUE\<rparr>\<rparr>) w') }
            else Some w);
     pc1 \<leftarrow> nw_pipes w1 m;
     let io = (if io_state (np_reader pc1) = IOBUF_IO_PENDING
               then (let (done, status, b) = s_wait_read s;
                         io1 = system_completes status b (np_reader pc1)
                     in io1\<lparr>io_state := if done then IOBUF_IO_COMPLETED else IOBUF_IO_COMPLETED_WITH_ERROR\<rparr>)
               else np_reader pc1);
     let pc2 = pc1\<lparr>np_reader := io\<rparr>;
     if io_state io = IOBUF_IO_COMPLETED_WITH_ERROR
     then Some (upd_np m (SET_NPIPE_ERROR (io_internal io) pc2) w1, False)
     else Some (upd_np m pc2 w1, True) }"

text \<open>The result of the channel driver: an error, or the bytes; none of these are end of file.\<close>

definition input_error :: "nat \<Rightarrow> npw \<Rightarrow> (npw \<times> (nat + octet list)) option" where
  "input_error m w = do {
     pc \<leftarrow> nw_pipes w m;
     Some (w, if NPIPE_EOF pc then Inr [] else Inl (np_winerr pc)) }"

definition input_data :: "nat \<Rightarrow> nat \<Rightarrow> npsys \<Rightarrow> npw \<Rightarrow> (npw \<times> (nat + octet list)) option" where
  "input_data m buf_sz s w = do {
     (w1, bytes) \<leftarrow> NPipeReadData m buf_sz s w;
     pc \<leftarrow> nw_pipes w1 m;
     if np_winerr pc \<noteq> 0 then input_error m w1
     else do {
       w2 \<leftarrow> (if NPIPE_F_WATCHREAD \<in> np_flags pc
              then NPipeWatchReads m (s_read_watch s) (s_register s) w1 else Some w1);
       Some (w2, Inr bytes) } }"

definition NPipeInputProc :: "nat \<Rightarrow> nat \<Rightarrow> npsys \<Rightarrow> npw \<Rightarrow> (npw \<times> (nat + octet list)) option" where
  "NPipeInputProc m buf_sz s w = do {
     pc0 \<leftarrow> nw_pipes w m;
     if \<not> NPIPE_CONNECTED pc0 then Some (w, Inl ERROR_PIPE_NOT_CONNECTED)
     else do {
       let pc = (if io_state (np_reader pc0) = IOBUF_IO_COMPLETED_WITH_ERROR
                 then SET_NPIPE_ERROR (io_internal (np_reader pc0)) pc0 else pc0);
       let w1 = upd_np m pc w;
       if np_winerr pc \<noteq> 0 then input_error m w1
       else if io_state (np_reader pc) = IOBUF_IO_PENDING
       then (if NPIPE_F_NONBLOCKING \<in> np_flags pc then Some (w1, Inl ERROR_PIPE_BUSY)
             else do {
               (w2, ok) \<leftarrow> wait_pending m s w1;
               if ok then input_data m buf_sz s w2 else input_error m w2 })
       else input_data m buf_sz s w1 } }"

section \<open>Writing\<close>

text \<open>
  \<open>actual\<close>: the size of the block \<open>TwapiAllocSize\<close> gives. \<open>wr\<close>: the error of \<open>WriteFile\<close>, 0 for
  none; \<open>ovl\<close>: how a pending synchronous write ends. The last part of the result are the bytes
  that were given to \<open>WriteFile\<close>. A copy beyond the buffer has no result.
\<close>

definition fill_buf :: "octet list \<Rightarrow> nat \<Rightarrow> npio \<Rightarrow> npio option" where
  "fill_buf data actual io =
     (let io1 = (if io_write_sz io < length data
                 then io\<lparr>io_write_buf := Some (replicate actual 0), io_write_sz := actual\<rparr> else io)
      in if data = [] then Some io1
         else do {
           old \<leftarrow> io_write_buf io1;
           if length data \<le> length old
           then Some (io1\<lparr>io_write_buf := Some (data @ drop (length data) old)\<rparr>) else None })"

definition NPipeOutputProc :: "nat \<Rightarrow> octet list \<Rightarrow> nat \<Rightarrow> nat \<Rightarrow> int option \<Rightarrow> nat + nat \<Rightarrow> npw \<Rightarrow>
    (npw \<times> (nat + nat) \<times> octet list) option" where
  "NPipeOutputProc m data actual wr reg ovl w = do {
     pc0 \<leftarrow> nw_pipes w m;
     if \<not> NPIPE_CONNECTED pc0 then Some (w, Inl ERROR_PIPE_NOT_CONNECTED, [])
     else do {
       let pc = (if io_state (np_writer pc0) = IOBUF_IO_COMPLETED_WITH_ERROR
                 then SET_NPIPE_ERROR (io_internal (np_writer pc0)) pc0 else pc0);
       let w1 = upd_np m pc w;
       if np_winerr pc \<noteq> 0 then Some (w1, Inl (np_winerr pc), [])
       else if NPIPE_F_NONBLOCKING \<in> np_flags pc
       then (if io_state (np_writer pc) = IOBUF_IO_PENDING then Some (w1, Inl ERROR_PIPE_BUSY, [])
             else do {
               io \<leftarrow> fill_buf data actual ((np_writer pc)\<lparr>io_internal := 0, io_ovl_event := io_hevent (np_writer pc)\<rparr>);
               let io1 = io\<lparr>io_state := IOBUF_IO_PENDING\<rparr>;
               if wr = 0
               then Some (upd_np m (pc\<lparr>np_writer := io1\<lparr>io_state := IOBUF_IO_COMPLETED\<rparr>\<rparr>) w1, Inr (length data), data)
               else if wr \<noteq> ERROR_IO_PENDING
               then Some (upd_np m (pc\<lparr>np_writer := io1, np_winerr := wr\<rparr>) w1, Inl wr, data)
               else do {
                 (w2, ok) \<leftarrow> register_wait WRITER m reg (upd_np m (pc\<lparr>np_writer := io1\<lparr>io_internal := STATUS_PENDING\<rparr>\<rparr>) w1);
                 Some (w2, if ok then Inr (length data) else Inl WAIT_FAILED_ERROR, data) } })
       else if wr \<noteq> 0 \<and> wr \<noteq> ERROR_IO_PENDING
       then Some (upd_np m (pc\<lparr>np_winerr := wr\<rparr>) w1, Inl wr, data)
       else (case (if wr = 0 then Inr (length data) else ovl) of
           Inl e \<Rightarrow> Some (upd_np m (pc\<lparr>np_winerr := e\<rparr>) w1, Inl e, data)
         | Inr count \<Rightarrow> Some (upd_np m (if io_state (np_writer pc) = IOBUF_IDLE
               then pc\<lparr>np_writer := (np_writer pc)\<lparr>io_state := IOBUF_IO_COMPLETED\<rparr>\<rparr> else pc) w1, Inr count, data)) } }"

section \<open>Threads and shutdown\<close>

definition NPipeThreadActionProc :: "thread \<Rightarrow> bool \<Rightarrow> nat \<Rightarrow> npw \<Rightarrow> npw option" where
  "NPipeThreadActionProc cur insert_it m w = do {
     pc \<leftarrow> nw_pipes w m;
     if insert_it
     then (if np_thread pc \<noteq> Some cur
           then do {
             w1 \<leftarrow> NPipeChannelRef m 1 (upd_np m (pc\<lparr>np_thread := Some cur\<rparr>) w);
             l \<leftarrow> nw_lists w1 cur;
             z \<leftarrow> ZLIST_PREPEND m (np_list l w1);
             Some (set_np_list cur z w1) }
           else Some w)
     else do {
       l \<leftarrow> nw_lists w cur;
       let w1 = upd_np m (pc\<lparr>np_thread := None\<rparr>) w;
       NPipeChannelUnref m 1 (set_np_list cur (ZLIST_REMOVE m (np_list l w1)) w1) } }"

text \<open>One direction of the shutdown: the wait, and later the event.\<close>

definition stop_wait :: "npdir \<Rightarrow> (nat \<times> octet) option \<Rightarrow> npipe \<times> int \<Rightarrow> npipe \<times> int" where
  "stop_wait d during x =
     (let (pc, unrefs) = x
      in if io_hwait (np_io d pc) \<noteq> INVALID_HANDLE_VALUE
         then (let pc1 = UnregisterWaitEx d during pc
               in (set_io d ((np_io d pc1)\<lparr>io_hwait := INVALID_HANDLE_VALUE\<rparr>) pc1, unrefs + 1))
         else (pc, unrefs))"

definition close_event :: "npdir \<Rightarrow> npipe \<times> int set \<Rightarrow> npipe \<times> int set" where
  "close_event d x =
     (let (pc, closed) = x
      in case io_hevent (np_io d pc) of
           None \<Rightarrow> (pc, closed)
         | Some e \<Rightarrow> (set_io d ((np_io d pc)\<lparr>io_ovl_event := None, io_hevent := None\<rparr>) pc, insert e closed))"

text \<open>The handles that the shutdown closes, and the pipe afterwards.\<close>

definition close_pipe :: "npipe \<Rightarrow> npipe \<times> int set" where
  "close_pipe pc =
     (let (pc1, c1) = (if np_hpipe pc \<noteq> INVALID_HANDLE_VALUE
                       then (pc\<lparr>np_hpipe := INVALID_HANDLE_VALUE\<rparr>, {np_hpipe pc}) else (pc, {}));
          (pc2, c2) = close_event READER (close_event WRITER (pc1, c1))
      in case np_hsync pc2 of
           None \<Rightarrow> (pc2, c2)
         | Some h \<Rightarrow> (pc2\<lparr>np_hsync := None\<rparr>, insert h c2))"

definition NPipeShutdown :: "nat \<Rightarrow> int \<Rightarrow> npsys \<Rightarrow> npw \<Rightarrow> npw option" where
  "NPipeShutdown m unrefs0 s w = do {
     pc0 \<leftarrow> nw_pipes w m;
     let (pc, unrefs) = stop_wait WRITER (s_during_write s) (stop_wait READER (s_during_read s) (pc0, unrefs0));
     let (pc1, closed) = close_pipe pc;
     let w1 = upd_np m pc1 (w\<lparr>nw_open := nw_open w - closed\<rparr>);
     if unrefs \<noteq> 0 then NPipeChannelUnref m unrefs w1 else Some w1 }"

definition NPipeCloseProc :: "nat \<Rightarrow> npsys \<Rightarrow> npw \<Rightarrow> npw option" where
  "NPipeCloseProc m s w = NPipeShutdown m 1 s w"

text \<open>
  What the Tcl channel layer does with a driver: a new channel is given to the current thread, and
  before a channel is closed it is taken from its thread.
\<close>

definition Tcl_CreateChannel :: "thread \<Rightarrow> nat \<Rightarrow> nat \<Rightarrow> npw \<Rightarrow> npw option" where
  "Tcl_CreateChannel cur i m w = do {
     w1 \<leftarrow> NPipeThreadActionProc cur True m w;
     pc \<leftarrow> nw_pipes w1 m;
     Some (upd_np m (pc\<lparr>np_channel := Some i\<rparr>) w1) }"

definition Tcl_UnregisterChannel :: "thread \<Rightarrow> nat \<Rightarrow> npsys \<Rightarrow> npw \<Rightarrow> npw option" where
  "Tcl_UnregisterChannel cur m s w = do {
     w1 \<leftarrow> NPipeThreadActionProc cur False m w;
     NPipeCloseProc m s w1 }"

section \<open>Servers and clients\<close>

text \<open>
  \<open>conn\<close>: the error of \<open>ConnectNamedPipe\<close>, 0 for none. \<open>reg\<close>: the handle of the wait, or the error.
\<close>

definition NPipeAccept :: "nat \<Rightarrow> nat \<Rightarrow> nat + int \<Rightarrow> npw \<Rightarrow> (npw \<times> nat) option" where
  "NPipeAccept m conn reg w = do {
     pc0 \<leftarrow> nw_pipes w m;
     let io = (np_writer pc0)\<lparr>io_internal := 0, io_ovl_event := io_hevent (np_writer pc0)\<rparr>;
     let pc = pc0\<lparr>np_writer := io\<rparr>;
     if conn = 0 \<or> conn = ERROR_PIPE_CONNECTED
     then Some (upd_np m (set_flag NPIPE_F_CONNECTED pc) w, 0)
     else if conn = ERROR_IO_PENDING
     then do {
       w1 \<leftarrow> NPipeChannelRef m 1 (upd_np m (pc\<lparr>np_writer := io\<lparr>io_internal := STATUS_PENDING\<rparr>\<rparr>) w);
       pc1 \<leftarrow> nw_pipes w1 m;
       (case reg of
          Inr h \<Rightarrow> Some (upd_np m (pc1\<lparr>np_writer := (np_writer pc1)\<lparr>io_hwait := h, io_state := IOBUF_IO_PENDING\<rparr>\<rparr>) w1,
                        ERROR_IO_PENDING)
        | Inl e \<Rightarrow> do { w2 \<leftarrow> NPipeChannelUnref m 1 w1; Some (w2, e) }) }
     else Some (upd_np m pc w, conn) }"

text \<open>
  The part of both commands that sets up a pipe whose handle is there: the three events, and the
  channel with the number \<open>i\<close>. The events are the handles, or the error that ends the set-up.
\<close>

definition new_event :: "(int \<Rightarrow> npipe \<Rightarrow> npipe) \<Rightarrow> nat + int \<Rightarrow> nat \<Rightarrow> npw \<Rightarrow> (npw \<times> nat option) option" where
  "new_event set_it ev m w = do {
     pc \<leftarrow> nw_pipes w m;
     (case ev of
        Inl e \<Rightarrow> Some (w, Some e)
      | Inr h \<Rightarrow> Some (upd_np m (set_it h pc) (w\<lparr>nw_open := insert h (nw_open w)\<rparr>), None)) }"

definition open_channel :: "thread \<Rightarrow> nat \<Rightarrow> nat + int \<Rightarrow> nat + int \<Rightarrow> nat + int \<Rightarrow> nat \<Rightarrow> npw \<Rightarrow>
    (npw \<times> nat option) option" where
  "open_channel cur m sync ev_rd ev_wr i w = do {
     (w1, e1) \<leftarrow> new_event (\<lambda>h pc. pc\<lparr>np_hsync := Some h\<rparr>) sync m w;
     if e1 \<noteq> None then Some (w1, e1)
     else do {
       (w2, e2) \<leftarrow> new_event (\<lambda>h pc. pc\<lparr>np_reader := (np_reader pc)\<lparr>io_hevent := Some h\<rparr>\<rparr>) ev_rd m w1;
       if e2 \<noteq> None then Some (w2, e2)
       else do {
         (w3, e3) \<leftarrow> new_event (\<lambda>h pc. pc\<lparr>np_writer := (np_writer pc)\<lparr>io_hevent := Some h\<rparr>\<rparr>) ev_wr m w2;
         if e3 \<noteq> None then Some (w3, e3)
         else do {
           w4 \<leftarrow> NPipeChannelRef m 1 w3;
           w5 \<leftarrow> Tcl_CreateChannel cur i m w4;
           Some (w5, None) } } } }"

text \<open>The end of both commands after an error: the results of \<open>Twapi_AppendSystemError\<close>.\<close>

definition open_failed :: "nat \<Rightarrow> nat \<Rightarrow> npsys \<Rightarrow> npw \<Rightarrow> (npw \<times> (nat + nat)) option" where
  "open_failed m winerr s w = do {
     pc \<leftarrow> nw_pipes w m;
     w' \<leftarrow> NPipeShutdown m 0 s (upd_np m (pc\<lparr>np_winerr := winerr\<rparr>) w);
     Some (w', Inl winerr) }"

datatype np_open = NpError nat | NpBadMode | NpBadSecurity | NpNotAPipe | NpChannel nat

text \<open>
  The commands behind the parsing of their arguments. \<open>bad_mode\<close>: the mode of the pipe is not that
  of bytes; \<open>secattr\<close>: the security attributes are well-formed; \<open>i\<close>: the new number.
\<close>

definition Twapi_NPipeServerObjCmd :: "thread \<Rightarrow> bool \<Rightarrow> bool \<Rightarrow> nat + int \<Rightarrow> nat + int \<Rightarrow> nat + int \<Rightarrow> nat + int \<Rightarrow>
    nat \<Rightarrow> nat \<Rightarrow> nat + int \<Rightarrow> npsys \<Rightarrow> npw \<Rightarrow> (npw \<times> np_open) option" where
  "Twapi_NPipeServerObjCmd cur bad_mode secattr hpipe sync ev_rd ev_wr i conn reg s w0 =
     (let w1 = GetNPipeTls cur w0
      in if bad_mode then Some (w1, NpBadMode)
         else (let (w2, m) = NPipeChannelNew w1
               in if \<not> secattr then Some (w2, NpBadSecurity)
                  else (case hpipe of
                      Inl e \<Rightarrow> map_option (\<lambda>(w, _). (w, NpError e)) (open_failed m e s w2)
                    | Inr h \<Rightarrow> do {
                        pc \<leftarrow> nw_pipes w2 m;
                        (w3, e) \<leftarrow> open_channel cur m sync ev_rd ev_wr i
                           (upd_np m (pc\<lparr>np_hpipe := h\<rparr>) (w2\<lparr>nw_open := insert h (nw_open w2)\<rparr>));
                        (case e of
                          Some e' \<Rightarrow> map_option (\<lambda>(w, _). (w, NpError e')) (open_failed m e' s w3)
                        | None \<Rightarrow> do {
                          (w4, winerr) \<leftarrow> NPipeAccept m conn reg w3;
                          if winerr = 0 \<or> winerr = ERROR_IO_PENDING then Some (w4, NpChannel i)
                          else do {
                            w5 \<leftarrow> Tcl_UnregisterChannel cur m s w4;
                            pc5 \<leftarrow> nw_pipes w5 m;
                            map_option (\<lambda>(w, _). (w, NpError winerr))
                              (open_failed m winerr s (upd_np m (pc5\<lparr>np_channel := None\<rparr>) w5)) } }) })))"

definition Twapi_NPipeClientObjCmd :: "thread \<Rightarrow> bool \<Rightarrow> nat + int \<Rightarrow> bool \<Rightarrow> nat + int \<Rightarrow> nat + int \<Rightarrow> nat + int \<Rightarrow>
    nat \<Rightarrow> npsys \<Rightarrow> npw \<Rightarrow> (npw \<times> np_open) option" where
  "Twapi_NPipeClientObjCmd cur secattr hpipe is_pipe sync ev_rd ev_wr i s w0 =
     (let w1 = GetNPipeTls cur w0
      in if \<not> secattr then Some (w1, NpBadSecurity)
         else (case hpipe of
             Inl e \<Rightarrow> Some (w1, NpError e)
           | Inr h \<Rightarrow>
               if \<not> is_pipe then Some (w1, NpNotAPipe)
               else (let (w2, m) = NPipeChannelNew w1
                     in do {
                       pc \<leftarrow> nw_pipes w2 m;
                       (w3, e) \<leftarrow> open_channel cur m sync ev_rd ev_wr i
                          (upd_np m (pc\<lparr>np_hpipe := h\<rparr>) (w2\<lparr>nw_open := insert h (nw_open w2)\<rparr>));
                       (case e of
                         Some e' \<Rightarrow> map_option (\<lambda>(w, _). (w, NpError e')) (open_failed m e' s w3)
                       | None \<Rightarrow> do {
                           pc3 \<leftarrow> nw_pipes w3 m;
                           Some (upd_np m (set_flag NPIPE_F_CONNECTED pc3) w3, NpChannel i) }) })))"

end
