(* ===== verification/Npipe_Inv.thy ===== *)
theory Npipe_Inv
  imports Npipe
begin

text \<open>
  The invariant of the named pipes: the references of a pipe are those of its channel, of the list
  of its thread and of its waits, and the list of a thread holds the pipes of that thread. Each
  driver operation has a result for a pipe with a channel, and only changes that pipe.
\<close>

section \<open>Frames\<close>

lemma np_io_simps [simp]:
  "np_io READER pc = np_reader pc" "np_io WRITER pc = np_writer pc"
  "set_io READER io pc = pc\<lparr>np_reader := io\<rparr>" "set_io WRITER io pc = pc\<lparr>np_writer := io\<rparr>"
  by (simp_all add: np_io_def set_io_def)

lemma upd_np_simps [simp]:
  "nw_pipes (upd_np m pc w) = (nw_pipes w)(m \<mapsto> pc)" "nw_links (upd_np m pc w) = nw_links w"
  "nw_lists (upd_np m pc w) = nw_lists w" "nw_events (upd_np m pc w) = nw_events w"
  "nw_open (upd_np m pc w) = nw_open w" "nw_freed (upd_np m pc w) = nw_freed w"
  "nw_next (upd_np m pc w) = nw_next w" "upd_np m pc' (upd_np m pc w) = upd_np m pc' w"
  by (simp_all add: upd_np_def)

lemma upd_np_same: "nw_pipes w m = Some pc \<Longrightarrow> upd_np m pc w = w"
  by (simp add: upd_np_def fun_upd_idem)

lemma set_np_list_simps [simp]:
  "nw_pipes (set_np_list t z w) = nw_pipes w" "nw_links (set_np_list t z w) = fst z"
  "nw_lists (set_np_list t z w) = (nw_lists w)(t \<mapsto> snd z)" "nw_events (set_np_list t z w) = nw_events w"
  "nw_open (set_np_list t z w) = nw_open w" "nw_freed (set_np_list t z w) = nw_freed w"
  "nw_next (set_np_list t z w) = nw_next w"
  by (simp_all add: set_np_list_def)

lemma flag_simps [simp]:
  "np_flags (set_flag f pc) = insert f (np_flags pc)" "np_flags (clear_flag f pc) = np_flags pc - {f}"
  "np_thread (set_flag f pc) = np_thread pc" "np_thread (clear_flag f pc) = np_thread pc"
  "np_channel (set_flag f pc) = np_channel pc" "np_channel (clear_flag f pc) = np_channel pc"
  "np_hpipe (set_flag f pc) = np_hpipe pc" "np_hpipe (clear_flag f pc) = np_hpipe pc"
  "np_hsync (set_flag f pc) = np_hsync pc" "np_hsync (clear_flag f pc) = np_hsync pc"
  "np_reader (set_flag f pc) = np_reader pc" "np_reader (clear_flag f pc) = np_reader pc"
  "np_writer (set_flag f pc) = np_writer pc" "np_writer (clear_flag f pc) = np_writer pc"
  "np_nrefs (set_flag f pc) = np_nrefs pc" "np_nrefs (clear_flag f pc) = np_nrefs pc"
  "np_winerr (set_flag f pc) = np_winerr pc" "np_winerr (clear_flag f pc) = np_winerr pc"
  by (simp_all add: set_flag_def clear_flag_def)

lemma set_error_simps [simp]:
  "np_thread (SET_NPIPE_ERROR e pc) = np_thread pc" "np_channel (SET_NPIPE_ERROR e pc) = np_channel pc"
  "np_hpipe (SET_NPIPE_ERROR e pc) = np_hpipe pc" "np_hsync (SET_NPIPE_ERROR e pc) = np_hsync pc"
  "np_reader (SET_NPIPE_ERROR e pc) = np_reader pc" "np_writer (SET_NPIPE_ERROR e pc) = np_writer pc"
  "np_nrefs (SET_NPIPE_ERROR e pc) = np_nrefs pc" "np_flags (SET_NPIPE_ERROR e pc) = np_flags pc"
  by (simp_all add: SET_NPIPE_ERROR_def)

lemma pool_io_simps [simp]:
  "io_hwait (pool_io io) = io_hwait io" "io_hwait (system_completes s b io) = io_hwait io"
  "io_hevent (pool_io io) = io_hevent io" "io_hevent (system_completes s b io) = io_hevent io"
  "io_write_buf (pool_io io) = io_write_buf io" "io_write_buf (system_completes s b io) = io_write_buf io"
  "io_write_sz (pool_io io) = io_write_sz io" "io_write_sz (system_completes s b io) = io_write_sz io"
  by (simp_all add: pool_io_def system_completes_def Let_def)

section \<open>One pipe\<close>

definition np_refs :: "npipe \<Rightarrow> int" where
  "np_refs pc = of_bool (np_channel pc \<noteq> None) + of_bool (np_thread pc \<noteq> None) +
     of_bool (io_hwait (np_reader pc) \<noteq> INVALID_HANDLE_VALUE) + of_bool (io_hwait (np_writer pc) \<noteq> INVALID_HANDLE_VALUE)"

definition buf_ok :: "npio \<Rightarrow> bool" where
  "buf_ok io \<longleftrightarrow> (case io_write_buf io of None \<Rightarrow> io_write_sz io = 0 | Some b \<Rightarrow> length b = io_write_sz io)"

lemma buf_ok_upd [simp]:
  "buf_ok (io\<lparr>io_hwait := h\<rparr>) = buf_ok io" "buf_ok (io\<lparr>io_state := st\<rparr>) = buf_ok io"
  "buf_ok (io\<lparr>io_internal := k\<rparr>) = buf_ok io" "buf_ok (io\<lparr>io_ovl_event := e\<rparr>) = buf_ok io"
  "buf_ok (io\<lparr>io_hevent := e\<rparr>) = buf_ok io" "buf_ok (pool_io io) = buf_ok io"
  "buf_ok (system_completes k b io) = buf_ok io"
  by (simp_all add: buf_ok_def cong: option.case_cong)

definition np_sound :: "npipe \<Rightarrow> bool" where
  "np_sound pc \<longleftrightarrow> np_nrefs pc = np_refs pc \<and> buf_ok (np_writer pc)"

definition same_id :: "npipe \<Rightarrow> npipe \<Rightarrow> bool" where
  "same_id pc pc' \<longleftrightarrow> np_thread pc' = np_thread pc \<and> np_channel pc' = np_channel pc \<and> np_hpipe pc' = np_hpipe pc"

text \<open>The pipe of a channel, and the outcome of an operation on it.\<close>

definition np_live :: "npw \<Rightarrow> nat \<Rightarrow> npipe \<Rightarrow> bool" where
  "np_live w m pc \<longleftrightarrow> nw_pipes w m = Some pc \<and> np_sound pc \<and> np_channel pc \<noteq> None"

definition np_step :: "npw \<Rightarrow> nat \<Rightarrow> npipe \<Rightarrow> npw \<Rightarrow> bool" where
  "np_step w m pc w' \<longleftrightarrow> (\<exists>pc'. w' = upd_np m pc' w \<and> np_sound pc' \<and> same_id pc pc')"

lemma same_id_refl [simp]: "same_id pc pc"
  by (simp add: same_id_def)

lemma same_id_trans: "same_id a b \<Longrightarrow> same_id b c \<Longrightarrow> same_id a c"
  by (simp add: same_id_def)

lemma np_step_refl: "np_live w m pc \<Longrightarrow> np_step w m pc w"
  unfolding np_step_def np_live_def by (intro exI [of _ pc]) (simp add: upd_np_same)

lemma np_stepI: "np_sound pc' \<Longrightarrow> same_id pc pc' \<Longrightarrow> np_step w m pc (upd_np m pc' w)"
  by (auto simp: np_step_def)

lemma np_step_live: "np_live w m pc \<Longrightarrow> np_step w m pc w' \<Longrightarrow>
   \<exists>pc'. np_live w' m pc' \<and> same_id pc pc' \<and> w' = upd_np m pc' w"
  by (auto simp: np_step_def np_live_def same_id_def)

lemma np_step_trans: "np_live w m pc \<Longrightarrow> w1 = upd_np m pc1 w \<Longrightarrow> same_id pc pc1 \<Longrightarrow> np_step w1 m pc1 w2 \<Longrightarrow> np_step w m pc w2"
  by (auto simp: np_step_def same_id_def)

lemma np_live_upd: "np_live w m pc \<Longrightarrow> np_sound pc' \<Longrightarrow> same_id pc pc' \<Longrightarrow> np_live (upd_np m pc' w) m pc'"
  by (simp add: np_live_def same_id_def)

lemma Ref_eq: "nw_pipes w m = Some pc \<Longrightarrow> NPipeChannelRef m n w = Some (upd_np m (pc\<lparr>np_nrefs := np_nrefs pc + n\<rparr>) w)"
  by (simp add: NPipeChannelRef_def ExchangeAdd_def)

lemma NUnref_keeps: "nw_pipes w m = Some pc \<Longrightarrow> n < np_nrefs pc \<Longrightarrow>
   NPipeChannelUnref m n w = Some (upd_np m (pc\<lparr>np_nrefs := np_nrefs pc - n\<rparr>) w)"
  by (simp add: NPipeChannelUnref_def ExchangeAdd_def)

lemma Unref_frees: "nw_pipes w m = Some pc \<Longrightarrow> np_nrefs pc \<le> n \<Longrightarrow>
   NPipeChannelUnref m n w = Some (w\<lparr>nw_pipes := (nw_pipes w)(m := None), nw_freed := m # nw_freed w\<rparr>)"
  by (simp add: NPipeChannelUnref_def NPipeChannelDelete_def ExchangeAdd_def upd_np_def)

section \<open>The driver\<close>

lemma register_wait_ok:
  assumes "np_live w m pc" "reg \<noteq> Some INVALID_HANDLE_VALUE"
  shows "\<exists>w' ok. register_wait d m reg w = Some (w', ok) \<and> np_step w m pc w'"
proof (cases "io_hwait (np_io d pc) \<noteq> INVALID_HANDLE_VALUE")
  case True
  with assms np_step_refl show ?thesis by (fastforce simp: register_wait_def np_live_def)
next
  case False
  have pc: "nw_pipes w m = Some pc" "np_sound pc" "np_channel pc \<noteq> None" using assms by (auto simp: np_live_def)
  show ?thesis
  proof (cases reg)
    case (Some h)
    with False pc assms(2) show ?thesis
      by (cases d) (auto simp: register_wait_def Ref_eq np_sound_def np_refs_def same_id_def intro!: np_stepI)
  next
    case None
    have "1 < np_nrefs pc + 1" using pc(2,3) by (simp add: np_sound_def np_refs_def)
    with None False pc show ?thesis
      by (cases d) (auto simp: register_wait_def Ref_eq NUnref_keeps np_sound_def np_refs_def same_id_def intro!: np_stepI)
  qed
qed

lemma WatchReads_ok:
  assumes L: "np_live w m pc" and reg: "reg \<noteq> Some INVALID_HANDLE_VALUE"
  shows "\<exists>w'. NPipeWatchReads m rd reg w = Some w' \<and> np_step w m pc w'"
proof -
  have pc: "nw_pipes w m = Some pc" "np_sound pc" "np_channel pc \<noteq> None" using L by (auto simp: np_live_def)
  show ?thesis
  proof (cases "np_winerr pc \<noteq> 0 \<or> io_state (np_reader pc) = IOBUF_IO_COMPLETED \<or>
        io_state (np_reader pc) = IOBUF_IO_COMPLETED_WITH_ERROR")
    case True
    with pc(1) np_step_refl [OF L] show ?thesis by (auto simp: NPipeWatchReads_def)
  next
    case idle: False
    show ?thesis
    proof (cases "io_state (np_reader pc) = IOBUF_IO_PENDING")
      case True
      from register_wait_ok [OF L reg, of READER] idle True pc(1) show ?thesis by (auto simp: NPipeWatchReads_def)
    next
      case False
      show ?thesis
      proof (cases "start_read rd (np_reader pc)")
        case (Inr e)
        with idle False pc show ?thesis
          by (auto simp: NPipeWatchReads_def np_sound_def np_refs_def same_id_def intro!: np_stepI)
      next
        case (Inl io)
        then have io: "io_hwait io = io_hwait (np_reader pc)" by (auto simp: start_read_def Let_def split: sum.splits if_splits)
        let ?pc = "pc\<lparr>np_reader := io\<rparr>"
        have s: "np_sound ?pc" "same_id pc ?pc" using pc io by (simp_all add: np_sound_def np_refs_def same_id_def)
        from register_wait_ok [OF np_live_upd [OF L this] reg, of READER] obtain w' ok where
          w': "register_wait READER m reg (upd_np m ?pc w) = Some (w', ok)" "np_step (upd_np m ?pc w) m ?pc w'" by blast
        with np_step_trans [OF L refl s(2) w'(2)] idle False pc(1) Inl show ?thesis by (auto simp: NPipeWatchReads_def)
      qed
    qed
  qed
qed

lemma UnregisterWaitEx_simps [simp]:
  "np_thread (UnregisterWaitEx d x pc) = np_thread pc" "np_channel (UnregisterWaitEx d x pc) = np_channel pc"
  "np_hpipe (UnregisterWaitEx d x pc) = np_hpipe pc" "np_nrefs (UnregisterWaitEx d x pc) = np_nrefs pc"
  "np_hsync (UnregisterWaitEx d x pc) = np_hsync pc" "np_flags (UnregisterWaitEx d x pc) = np_flags pc"
  "np_winerr (UnregisterWaitEx d x pc) = np_winerr pc"
  "io_hwait (np_reader (UnregisterWaitEx d x pc)) = io_hwait (np_reader pc)"
  "io_hwait (np_writer (UnregisterWaitEx d x pc)) = io_hwait (np_writer pc)"
  "io_hevent (np_reader (UnregisterWaitEx d x pc)) = io_hevent (np_reader pc)"
  "io_hevent (np_writer (UnregisterWaitEx d x pc)) = io_hevent (np_writer pc)"
  "buf_ok (np_writer (UnregisterWaitEx d x pc)) = buf_ok (np_writer pc)"
  by (cases d; auto simp: UnregisterWaitEx_def split: option.splits prod.splits)+

lemma DisableWatch_ok:
  assumes L: "np_live w m pc"
  shows "\<exists>w'. NPipeDisableWatch m d during w = Some w' \<and> np_step w m pc w'"
proof (cases "io_hwait (np_io d pc) \<noteq> INVALID_HANDLE_VALUE")
  case False
  with L np_step_refl [OF L] show ?thesis by (auto simp: NPipeDisableWatch_def np_live_def)
next
  case True
  have pc: "nw_pipes w m = Some pc" "np_sound pc" "np_channel pc \<noteq> None" using L by (auto simp: np_live_def)
  have "1 < np_nrefs pc" using True pc(2,3) by (cases d) (auto simp: np_sound_def np_refs_def)
  with True pc show ?thesis
    by (cases d) (auto simp: NPipeDisableWatch_def Let_def NUnref_keeps np_sound_def np_refs_def same_id_def
        intro!: np_stepI)
qed

text \<open>Changes that keep the references.\<close>

lemma np_sound_upd [simp]:
  "np_sound (set_flag f pc) = np_sound pc" "np_sound (clear_flag f pc) = np_sound pc"
  "np_sound (SET_NPIPE_ERROR e pc) = np_sound pc" "np_sound (pc\<lparr>np_winerr := e\<rparr>) = np_sound pc"
  "np_sound (UnregisterWaitEx d x pc) = np_sound pc"
  by (simp_all add: np_sound_def np_refs_def)

lemma same_id_upd [simp]:
  "same_id pc (set_flag f pc') = same_id pc pc'" "same_id pc (clear_flag f pc') = same_id pc pc'"
  "same_id pc (SET_NPIPE_ERROR e pc') = same_id pc pc'" "same_id pc (pc'\<lparr>np_winerr := e\<rparr>) = same_id pc pc'"
  "same_id pc (UnregisterWaitEx d x pc') = same_id pc pc'" "same_id pc (pc'\<lparr>np_reader := io\<rparr>) = same_id pc pc'"
  "same_id pc (pc'\<lparr>np_writer := io\<rparr>) = same_id pc pc'" "same_id pc (pc'\<lparr>np_nrefs := n\<rparr>) = same_id pc pc'"
  by (simp_all add: same_id_def)

lemma np_sound_reader: "io_hwait io = io_hwait (np_reader pc) \<Longrightarrow> np_sound (pc\<lparr>np_reader := io\<rparr>) = np_sound pc"
  by (simp add: np_sound_def np_refs_def)

lemma np_sound_writer: "io_hwait io = io_hwait (np_writer pc) \<Longrightarrow> np_sound (pc\<lparr>np_writer := io\<rparr>) \<longleftrightarrow>
   np_nrefs pc = np_refs pc \<and> buf_ok io"
  by (simp add: np_sound_def np_refs_def)

text \<open>An operation on a changed pipe is one on the pipe.\<close>

lemma np_step_upd:
  "np_live w m pc \<Longrightarrow> np_sound pc1 \<Longrightarrow> same_id pc pc1 \<Longrightarrow>
   (np_live (upd_np m pc1 w) m pc1 \<Longrightarrow> \<exists>w'. f (upd_np m pc1 w) = Some w' \<and> np_step (upd_np m pc1 w) m pc1 w') \<Longrightarrow>
   \<exists>w'. f (upd_np m pc1 w) = Some w' \<and> np_step w m pc w'"
  using np_live_upd np_step_trans by blast

lemma WatchReads_upd:
  "np_live w m pc \<Longrightarrow> np_sound pc1 \<Longrightarrow> same_id pc pc1 \<Longrightarrow> reg \<noteq> Some INVALID_HANDLE_VALUE \<Longrightarrow>
   \<exists>w'. NPipeWatchReads m rd reg (upd_np m pc1 w) = Some w' \<and> np_step w m pc w'"
  using np_step_upd [where f = "NPipeWatchReads m rd reg"] WatchReads_ok by blast

lemma DisableWatch_upd:
  "np_live w m pc \<Longrightarrow> np_sound pc1 \<Longrightarrow> same_id pc pc1 \<Longrightarrow>
   \<exists>w'. NPipeDisableWatch m d x (upd_np m pc1 w) = Some w' \<and> np_step w m pc w'"
  using np_step_upd [where f = "NPipeDisableWatch m d x"] DisableWatch_ok by blast

lemma WatchProc_ok:
  assumes L: "np_live w m pc" and reg: "s_register s \<noteq> Some INVALID_HANDLE_VALUE"
  shows "\<exists>w' b. NPipeWatchProc m dirs s w = Some (w', b) \<and> np_step w m pc w'"
proof -
  have pc: "nw_pipes w m = Some pc" "np_sound pc" "np_channel pc \<noteq> None" using L by (auto simp: np_live_def)
  define r where "r = (if TCL_READABLE \<in> dirs
            then (if NPIPE_F_WATCHREAD \<notin> np_flags pc
                  then (let w' = upd_np m (set_flag NPIPE_F_WATCHREAD pc) w
                        in if NPIPE_CONNECTED pc then NPipeWatchReads m (s_read_watch s) (s_register s) w' else Some w')
                  else Some w)
            else NPipeDisableWatch m READER (s_during_read s) (upd_np m (clear_flag NPIPE_F_WATCHREAD pc) w))"
  have 1: "\<exists>w1. r = Some w1 \<and> np_step w m pc w1"
    unfolding r_def Let_def
    using WatchReads_upd [OF L _ _ reg, of "set_flag NPIPE_F_WATCHREAD pc" "s_read_watch s"]
      DisableWatch_upd [OF L, of "clear_flag NPIPE_F_WATCHREAD pc" READER "s_during_read s"]
      np_step_refl [OF L] np_stepI [of "set_flag NPIPE_F_WATCHREAD pc" pc w m] pc(2) by simp
  then obtain w1 where r: "r = Some w1" "np_step w m pc w1" by blast
  from np_step_live [OF L r(2)] obtain pc1 where L1: "np_live w1 m pc1" "same_id pc pc1" "w1 = upd_np m pc1 w" by blast
  have pc1: "nw_pipes w1 m = Some pc1" "np_sound pc1" using L1(1) by (auto simp: np_live_def)
  define r2 where "r2 = (if TCL_WRITABLE \<in> dirs
            then (if NPIPE_F_WATCHWRITE \<notin> np_flags pc1
                  then Some (upd_np m (set_flag NPIPE_F_WATCHWRITE pc1) w1) else Some w1)
            else if NPIPE_F_WATCHWRITE \<in> np_flags pc1
            then (let w' = upd_np m (clear_flag NPIPE_F_WATCHWRITE pc1) w1
                  in if NPIPE_F_NONBLOCKING \<notin> np_flags pc1
                     then NPipeDisableWatch m WRITER (s_during_write s) w' else Some w')
            else Some w1)"
  have "\<exists>w2. r2 = Some w2 \<and> np_step w1 m pc1 w2"
    unfolding r2_def Let_def
    using DisableWatch_upd [OF L1(1), of "clear_flag NPIPE_F_WATCHWRITE pc1" WRITER "s_during_write s"]
      np_step_refl [OF L1(1)] np_stepI [of "set_flag NPIPE_F_WATCHWRITE pc1" pc1 w1 m]
      np_stepI [of "clear_flag NPIPE_F_WATCHWRITE pc1" pc1 w1 m] pc1(2) by simp
  then obtain w2 where r2: "r2 = Some w2" "np_step w1 m pc1 w2" by blast
  from np_step_live [OF L1(1) r2(2)] obtain pc2 where "np_live w2 m pc2" by blast
  then have "\<exists>b. NPipeWatchProc m dirs s w = Some (w2, b)"
    unfolding NPipeWatchProc_def using pc(1) r(1) pc1(1) r2(1) unfolding r_def r2_def by (simp add: np_live_def)
  with np_step_trans [OF L L1(3,2) r2(2)] show ?thesis by blast
qed

lemma BlockProc_ok:
  assumes L: "np_live w m pc"
  shows "\<exists>w'. NPipeBlockProc m nonblocking w = Some w' \<and> np_step w m pc w'"
  using L by (auto simp: NPipeBlockProc_def np_live_def intro!: np_stepI)

lemma Handler_ok:
  assumes "nw_pipes w m = Some pc" "np_sound pc"
  shows "\<exists>w'. NPipeThreadPoolHandler d m w = Some w' \<and> np_step w m pc w'"
  using assms by (cases d) (simp_all add: NPipeThreadPoolHandler_def np_sound_def np_refs_def np_stepI)

lemma ReadData_ok:
  assumes L: "np_live w m pc"
  shows "\<exists>w' bs. NPipeReadData m bufsz s w = Some (w', bs) \<and> np_step w m pc w'"
proof -
  have pc: "nw_pipes w m = Some pc" "np_sound pc" using L by (auto simp: np_live_def)
  define st where "st = (if io_state (np_reader pc) = IOBUF_IO_COMPLETED
        then (pc\<lparr>np_reader := (np_reader pc)\<lparr>io_state := IOBUF_IDLE\<rparr>\<rparr>, [io_read_ahead (np_reader pc)], bufsz - 1)
        else (pc, [], bufsz))"
  obtain p got n where st: "st = (p, got, n)" by (cases st)
  have p: "np_sound p" "same_id pc p" using st pc(2) by (auto simp: st_def np_sound_reader split: if_splits)
  have 2: "np_sound (p\<lparr>np_reader := (np_reader p)\<lparr>io_internal := 0, io_ovl_event := None\<rparr>\<rparr>)" using p(1) by (simp add: np_sound_reader)
  show ?thesis
    unfolding NPipeReadData_def pc(1) bind.bind_lunit st_def [symmetric] st Let_def prod.case
    using p 2 by (auto intro!: np_stepI split: sum.splits simp: Let_def)
qed

lemma wait_pending_ok:
  assumes L: "np_live w m pc"
  shows "\<exists>w' ok. wait_pending m s w = Some (w', ok) \<and> np_step w m pc w'"
proof -
  have pc: "nw_pipes w m = Some pc" "np_sound pc" "np_channel pc \<noteq> None" using L by (auto simp: np_live_def)
  define r where "r = (if io_hwait (np_reader pc) \<noteq> INVALID_HANDLE_VALUE
            then do {
              w' \<leftarrow> NPipeChannelUnref m 1 (upd_np m (UnregisterWaitEx READER (s_during_read s) pc) w);
              pc' \<leftarrow> nw_pipes w' m;
              Some (upd_np m (pc'\<lparr>np_reader := (np_reader pc')\<lparr>io_hwait := INVALID_HANDLE_VALUE\<rparr>\<rparr>) w') }
            else Some w)"
  have "\<exists>w1. r = Some w1 \<and> np_step w m pc w1"
  proof (cases "io_hwait (np_reader pc) \<noteq> INVALID_HANDLE_VALUE")
    case True
    have "1 < np_nrefs pc" using True pc(2,3) by (simp add: np_sound_def np_refs_def)
    with True pc show ?thesis
      by (auto simp: r_def NUnref_keeps np_sound_def np_refs_def same_id_def intro!: np_stepI)
  next
    case False
    with np_step_refl [OF L] show ?thesis by (simp add: r_def)
  qed
  then obtain w1 where r: "r = Some w1" "np_step w m pc w1" by blast
  from np_step_live [OF L r(2)] obtain pc1 where L1: "np_live w1 m pc1" "same_id pc pc1" "w1 = upd_np m pc1 w" by blast
  have pc1: "nw_pipes w1 m = Some pc1" "np_sound pc1" using L1(1) by (auto simp: np_live_def)
  define io where "io = (if io_state (np_reader pc1) = IOBUF_IO_PENDING
               then (let (done, status, b) = s_wait_read s;
                         io1 = system_completes status b (np_reader pc1)
                     in io1\<lparr>io_state := if done then IOBUF_IO_COMPLETED else IOBUF_IO_COMPLETED_WITH_ERROR\<rparr>)
               else np_reader pc1)"
  have "io_hwait io = io_hwait (np_reader pc1)" by (simp add: io_def Let_def split: prod.splits)
  then have io: "np_sound (pc1\<lparr>np_reader := io\<rparr>)" using pc1(2) by (simp add: np_sound_reader)
  have "\<exists>w2 ok. wait_pending m s w = Some (w2, ok) \<and> np_step w1 m pc1 w2"
    unfolding wait_pending_def pc(1) bind.bind_lunit r_def [symmetric] r(1) pc1(1) Let_def io_def [unfolded Let_def, symmetric]
    using io by (auto intro!: np_stepI)
  with np_step_trans [OF L L1(3,2)] show ?thesis by blast
qed

lemma input_error_ok: "np_live w m pc \<Longrightarrow> \<exists>r. input_error m w = Some (w, r)"
  by (simp add: input_error_def np_live_def)

lemma input_data_ok:
  assumes L: "np_live w m pc" and reg: "s_register s \<noteq> Some INVALID_HANDLE_VALUE"
  shows "\<exists>w' r. input_data m n s w = Some (w', r) \<and> np_step w m pc w'"
proof -
  obtain w1 bs where w1: "NPipeReadData m n s w = Some (w1, bs)" "np_step w m pc w1" using ReadData_ok [OF L] by blast
  from np_step_live [OF L w1(2)] obtain pc1 where L1: "np_live w1 m pc1" "same_id pc pc1" "w1 = upd_np m pc1 w" by blast
  have pc1: "nw_pipes w1 m = Some pc1" using L1(1) by (simp add: np_live_def)
  obtain w2 where "NPipeWatchReads m (s_read_watch s) (s_register s) w1 = Some w2" "np_step w1 m pc1 w2"
    using WatchReads_ok [OF L1(1) reg] by blast
  with w1 pc1 input_error_ok [OF L1(1)] np_step_trans [OF L L1(3,2)] show ?thesis
    by (cases "np_winerr pc1 = 0"; cases "NPIPE_F_WATCHREAD \<in> np_flags pc1") (auto simp: input_data_def)
qed

lemma InputProc_ok:
  assumes L: "np_live w m pc" and reg: "s_register s \<noteq> Some INVALID_HANDLE_VALUE"
  shows "\<exists>w' r. NPipeInputProc m n s w = Some (w', r) \<and> np_step w m pc w'"
proof -
  have pc: "nw_pipes w m = Some pc" "np_sound pc" using L by (auto simp: np_live_def)
  define p where "p = (if io_state (np_reader pc) = IOBUF_IO_COMPLETED_WITH_ERROR
                 then SET_NPIPE_ERROR (io_internal (np_reader pc)) pc else pc)"
  let ?w1 = "upd_np m p w"
  have p: "np_sound p" "same_id pc p" using pc(2) by (simp_all add: p_def)
  have L1: "np_live ?w1 m p" using np_live_upd [OF L p] .
  note lift = np_step_trans [OF L refl p(2)]
  obtain w2 ok where w2: "wait_pending m s ?w1 = Some (w2, ok)" "np_step ?w1 m p w2" using wait_pending_ok [OF L1] by blast
  from np_step_live [OF L1 w2(2)] obtain p2 where L2: "np_live w2 m p2" "same_id p p2" "w2 = upd_np m p2 ?w1" by blast
  note lift2 = lift [OF np_step_trans [OF L1 L2(3,2)]]
  show ?thesis
  proof (cases "NPIPE_CONNECTED pc")
    case False
    with pc(1) np_step_refl [OF L] show ?thesis by (auto simp: NPipeInputProc_def)
  next
    case True
    have eq: "NPipeInputProc m n s w = (if np_winerr p \<noteq> 0 then input_error m ?w1
       else if io_state (np_reader p) = IOBUF_IO_PENDING
       then (if NPIPE_F_NONBLOCKING \<in> np_flags p then Some (?w1, Inl ERROR_PIPE_BUSY)
             else if ok then input_data m n s w2 else input_error m w2)
       else input_data m n s ?w1)"
      using True pc(1) w2(1) unfolding NPipeInputProc_def p_def by simp
    show ?thesis
      unfolding eq using input_error_ok [OF L1] input_error_ok [OF L2(1)] lift [OF np_step_refl [OF L1]]
        input_data_ok [OF L1 reg, of n] input_data_ok [OF L2(1) reg, of n] lift lift2 lift [OF w2(2)] by auto
  qed
qed

lemma fill_buf_ok:
  assumes "buf_ok io" "length data \<le> actual"
  shows "\<exists>io'. fill_buf data actual io = Some io' \<and> buf_ok io' \<and> io_hwait io' = io_hwait io \<and>
     (data \<noteq> [] \<longrightarrow> (\<exists>b. io_write_buf io' = Some b \<and> take (length data) b = data))"
proof (cases "io_write_sz io < length data")
  case True
  with assms(2) show ?thesis by (auto simp: fill_buf_def buf_ok_def Let_def)
next
  case False
  with assms(1) show ?thesis by (cases "io_write_buf io") (auto simp: fill_buf_def buf_ok_def Let_def)
qed

lemma OutputProc_ok:
  assumes L: "np_live w m pc" and reg: "reg \<noteq> Some INVALID_HANDLE_VALUE" and sz: "length data \<le> actual"
  shows "\<exists>w' r given. NPipeOutputProc m data actual wr reg ovl w = Some (w', r, given) \<and> np_step w m pc w'"
proof -
  have pc: "nw_pipes w m = Some pc" "np_sound pc" using L by (auto simp: np_live_def)
  define p where "p = (if io_state (np_writer pc) = IOBUF_IO_COMPLETED_WITH_ERROR
                 then SET_NPIPE_ERROR (io_internal (np_writer pc)) pc else pc)"
  let ?w1 = "upd_np m p w"
  have p: "np_sound p" "same_id pc p" using pc(2) by (simp_all add: p_def)
  have p': "np_nrefs p = np_refs p" "buf_ok (np_writer p)" using p(1) by (simp_all add: np_sound_def)
  have L1: "np_live ?w1 m p" using np_live_upd [OF L p] .
  obtain io where io: "fill_buf data actual ((np_writer p)\<lparr>io_internal := 0, io_ovl_event := io_hevent (np_writer p)\<rparr>) = Some io"
    "buf_ok io" "io_hwait io = io_hwait (np_writer p)"
    using fill_buf_ok [OF _ sz, of "(np_writer p)\<lparr>io_internal := 0, io_ovl_event := io_hevent (np_writer p)\<rparr>"] p'(2) by auto
  let ?p = "p\<lparr>np_writer := io\<lparr>io_state := IOBUF_IO_PENDING, io_internal := STATUS_PENDING\<rparr>\<rparr>"
  have q: "np_sound ?p" "same_id pc ?p" using p(2) p'(1) io(2,3) by (simp_all add: np_sound_writer)
  obtain w3 ok where w3: "register_wait WRITER m reg (upd_np m ?p w) = Some (w3, ok)" "np_step (upd_np m ?p w) m ?p w3"
    using register_wait_ok [OF np_live_upd [OF L q] reg] by blast
  note w3' = np_step_trans [OF L refl q(2) w3(2)]
  have wr: "np_sound (p\<lparr>np_writer := (np_writer p)\<lparr>io_state := IOBUF_IO_COMPLETED\<rparr>\<rparr>)" using p' by (simp add: np_sound_writer)
  show ?thesis
  proof (cases "NPIPE_CONNECTED pc")
    case False
    with pc(1) np_step_refl [OF L] show ?thesis by (auto simp: NPipeOutputProc_def)
  next
    case True
    show ?thesis
      unfolding NPipeOutputProc_def pc(1) bind.bind_lunit p_def [symmetric] Let_def io(1)
      using True p p'(1) io w3 w3' wr
      by (auto simp: np_sound_writer intro!: np_stepI split: sum.splits)
  qed
qed

lemma event_errors_ok: "np_sound (event_errors pc) = np_sound pc" "same_id p (event_errors pc) = same_id p pc"
  by (simp_all add: event_errors_def Let_def)

lemma event_mask_ok: "np_sound (fst (event_mask pc)) = np_sound pc" "same_id p (fst (event_mask pc)) = same_id p pc"
  by (simp_all add: event_mask_def Let_def)

lemma write_idle_ok: "np_sound (write_idle pc) = np_sound pc" "same_id p (write_idle pc) = same_id p pc"
  by (simp_all add: write_idle_def np_sound_writer) (simp_all add: np_sound_def)

lemma event_pc_ok:
  assumes "np_sound pc"
  shows "np_step w m pc (upd_np m (write_idle (fst (event_mask (event_errors pc)))) w)"
  using assms by (intro np_stepI) (simp_all add: event_errors_ok event_mask_ok write_idle_ok)

section \<open>All pipes\<close>

text \<open>\<open>L t\<close> are the pipes on the list of thread \<open>t\<close>.\<close>

definition np_lists_ok :: "(thread \<Rightarrow> nat list) \<Rightarrow> npw \<Rightarrow> bool" where
  "np_lists_ok L w \<longleftrightarrow> (\<forall>t. case nw_lists w t of None \<Rightarrow> L t = [] | Some l \<Rightarrow> zl_rep (nw_links w, l) (L t))"

definition np_pipe_ok :: "(thread \<Rightarrow> nat list) \<Rightarrow> npw \<Rightarrow> nat \<Rightarrow> bool" where
  "np_pipe_ok L w m \<longleftrightarrow> (case nw_pipes w m of
      None \<Rightarrow> \<forall>t. m \<notin> set (L t)
    | Some pc \<Rightarrow> (\<forall>t. m \<in> set (L t) \<longleftrightarrow> np_thread pc = Some t) \<and> np_sound pc \<and>
        m < nw_next w \<and> m \<notin> set (nw_freed w))"

definition np_good :: "(thread \<Rightarrow> nat list) \<Rightarrow> npw \<Rightarrow> bool" where
  "np_good L w \<longleftrightarrow> np_lists_ok L w \<and> (\<forall>m. np_pipe_ok L w m) \<and>
     distinct (nw_freed w) \<and> (\<forall>m \<in> set (nw_freed w). m < nw_next w)"

lemma np_lists_okI:
  "(\<And>t. case nw_lists w t of None \<Rightarrow> L t = [] | Some l \<Rightarrow> zl_rep (K, l) (L t)) \<Longrightarrow> nw_links w = K \<Longrightarrow> np_lists_ok L w"
  by (simp only: np_lists_ok_def) blast

lemma np_lists_ok_cong:
  "np_lists_ok L w \<Longrightarrow> nw_links w' = nw_links w \<Longrightarrow> nw_lists w' = nw_lists w \<Longrightarrow> np_lists_ok L w'"
  by (simp only: np_lists_ok_def simp_thms)

lemma np_goodD:
  assumes "np_good L w"
  shows "np_lists_ok L w" "np_pipe_ok L w m" "distinct (nw_freed w)" "m \<in> set (nw_freed w) \<Longrightarrow> m < nw_next w"
  using assms by (auto simp: np_good_def)

lemma np_pipe_okD:
  assumes "np_good L w" "nw_pipes w m = Some pc"
  shows "m \<in> set (L t) \<longleftrightarrow> np_thread pc = Some t" "np_sound pc" "m < nw_next w" "m \<notin> set (nw_freed w)"
  using np_goodD(2) [OF assms(1), of m] assms(2) by (simp_all add: np_pipe_ok_def)

lemma np_in_list: "np_good L w \<Longrightarrow> m \<in> set (L t) \<Longrightarrow> \<exists>pc. nw_pipes w m = Some pc \<and> np_thread pc = Some t"
  using np_goodD(2) [of L w m] by (cases "nw_pipes w m") (auto simp: np_pipe_ok_def)

lemma np_disjoint:
  assumes "np_good L w" "t \<noteq> t'"
  shows "set (L t) \<inter> set (L t') = {}"
proof (rule ccontr)
  assume "set (L t) \<inter> set (L t') \<noteq> {}"
  then obtain m where "m \<in> set (L t)" "m \<in> set (L t')" by blast
  with np_in_list [OF assms(1), of m t] np_in_list [OF assms(1), of m t'] assms(2) show False by auto
qed

lemma np_listsD: "np_good L w \<Longrightarrow> case nw_lists w t of None \<Rightarrow> L t = [] | Some l \<Rightarrow> zl_rep (nw_links w, l) (L t)"
  by (simp add: np_good_def np_lists_ok_def)

lemma np_list_rep: "np_good L w \<Longrightarrow> nw_lists w t = Some l \<Longrightarrow> zl_rep (nw_links w, l) (L t)"
  using np_listsD [of L w t] by simp

lemma np_has_list: "np_good L w \<Longrightarrow> m \<in> set (L t) \<Longrightarrow> \<exists>l. nw_lists w t = Some l"
  using np_listsD [of L w t] by (cases "nw_lists w t") auto

lemma np_pipe_ok_other:
  "np_pipe_ok L w k \<Longrightarrow> nw_pipes w' k = nw_pipes w k \<Longrightarrow> (\<And>t. k \<in> set (L' t) \<longleftrightarrow> k \<in> set (L t)) \<Longrightarrow>
   nw_next w \<le> nw_next w' \<Longrightarrow> (k \<in> set (nw_freed w') \<longleftrightarrow> k \<in> set (nw_freed w)) \<Longrightarrow> np_pipe_ok L' w' k"
  by (simp add: np_pipe_ok_def split: option.splits)

lemma np_good_step:
  assumes G: "np_good L w" and pc: "nw_pipes w m = Some pc" and st: "np_step w m pc w'"
  shows "np_good L w'"
proof -
  obtain pc' where pc': "w' = upd_np m pc' w" "np_sound pc'" "same_id pc pc'" using st by (auto simp: np_step_def)
  have "np_pipe_ok L w' k" for k
  proof (cases "k = m")
    case True
    with np_pipe_okD [OF G pc] pc' show ?thesis by (simp add: np_pipe_ok_def same_id_def)
  next
    case False
    show ?thesis by (rule np_pipe_ok_other [OF np_goodD(2) [OF G]]) (use False pc'(1) in simp_all)
  qed
  moreover have "np_lists_ok L w'" by (rule np_lists_ok_cong [OF np_goodD(1) [OF G]]) (simp_all add: pc'(1))
  ultimately show ?thesis using G pc'(1) by (simp add: np_good_def)
qed

text \<open>The list of one thread changes.\<close>

lemma np_lists_set:
  assumes G: "np_good L w" and links: "links_outside A (nw_links w) links'" and rep: "zl_rep (links', l') ms"
    and A: "\<And>t'. t' \<noteq> t \<Longrightarrow> A \<inter> set (L t') = {}"
    and w': "nw_links w' = links'" "nw_lists w' = (nw_lists w)(t \<mapsto> l')"
  shows "np_lists_ok (L(t := ms)) w'"
  unfolding np_lists_ok_def
proof (intro allI)
  fix t'
  note np_listsD [OF G, of t']
  then show "case nw_lists w' t' of None \<Rightarrow> (L(t := ms)) t' = [] | Some l \<Rightarrow> zl_rep (nw_links w', l) ((L(t := ms)) t')"
    using links rep A [of t'] w' by (cases "t' = t") (auto split: option.splits intro: zl_rep_frame)
qed

lemma insert_thread:
  assumes G: "np_good L w" and pc: "nw_pipes w m = Some pc" "np_thread pc = None" and l: "nw_lists w t = Some l"
    and w0: "w0 = w\<lparr>nw_pipes := (nw_pipes w)(m \<mapsto> pc0)\<rparr>" "np_thread pc0 = None"
  shows "\<exists>w'. NPipeThreadActionProc t True m w0 = Some w' \<and> np_lists_ok (L(t := m # L t)) w' \<and>
    nw_pipes w' = (nw_pipes w)(m \<mapsto> pc0\<lparr>np_thread := Some t, np_nrefs := np_nrefs pc0 + 1\<rparr>) \<and>
    nw_freed w' = nw_freed w \<and> nw_next w' = nw_next w \<and> nw_events w' = nw_events w \<and> nw_open w' = nw_open w"
proof -
  have m: "m \<notin> set (L t')" for t' using np_pipe_okD(1) [OF G pc(1)] pc(2) by simp
  from ZLIST_PREPEND_rep [OF np_list_rep [OF G l] m] obtain z where
    z: "ZLIST_PREPEND m (nw_links w, l) = Some z" "zl_rep z (m # L t)" "links_outside (insert m (set (L t))) (nw_links w) (fst z)" by auto
  let ?w = "set_np_list t z (upd_np m (pc0\<lparr>np_thread := Some t, np_nrefs := np_nrefs pc0 + 1\<rparr>) w)"
  have "NPipeThreadActionProc t True m w0 = Some ?w"
    using l w0(2) z(1) unfolding w0(1) by (simp add: NPipeThreadActionProc_def Ref_eq np_list_def upd_np_def)
  moreover have "np_lists_ok (L(t := m # L t)) ?w"
    by (rule np_lists_set [OF G z(3), where l' = "snd z"]) (use z(2) m np_disjoint [OF G] in auto)
  ultimately show ?thesis by auto
qed

lemma attach_ok:
  assumes G: "np_good L w" and pc: "nw_pipes w m = Some pc" "np_thread pc = None" and l: "nw_lists w t \<noteq> None"
  shows "\<exists>w'. NPipeThreadActionProc t True m w = Some w' \<and> np_good (L(t := m # L t)) w' \<and>
    nw_pipes w' m = Some (pc\<lparr>np_thread := Some t, np_nrefs := np_nrefs pc + 1\<rparr>) \<and>
    (\<forall>k. k \<noteq> m \<longrightarrow> nw_pipes w' k = nw_pipes w k)"
proof -
  obtain l0 where "nw_lists w t = Some l0" using l by blast
  moreover have "w = w\<lparr>nw_pipes := (nw_pipes w)(m \<mapsto> pc)\<rparr>" using pc(1) by (simp add: fun_upd_idem)
  ultimately obtain w' where w': "NPipeThreadActionProc t True m w = Some w'" "np_lists_ok (L(t := m # L t)) w'"
    "nw_pipes w' = (nw_pipes w)(m \<mapsto> pc\<lparr>np_thread := Some t, np_nrefs := np_nrefs pc + 1\<rparr>)"
    "nw_freed w' = nw_freed w" "nw_next w' = nw_next w" using insert_thread [OF G pc] pc(2) by blast
  have "np_pipe_ok (L(t := m # L t)) w' k" for k
  proof (cases "k = m")
    case True
    with np_pipe_okD [OF G pc(1)] pc(2) w'(3-5) show ?thesis
      by (simp add: np_pipe_ok_def np_sound_def np_refs_def)
  next
    case False
    show ?thesis by (rule np_pipe_ok_other [OF np_goodD(2) [OF G]]) (use False w'(3-5) in simp_all)
  qed
  with w' np_goodD(3,4) [OF G] show ?thesis by (auto simp: np_good_def)
qed

lemma detach_ok:
  assumes G: "np_good L w" and pc: "nw_pipes w m = Some pc" "np_thread pc = Some t" "np_channel pc \<noteq> None"
  shows "\<exists>w'. NPipeThreadActionProc t False m w = Some w' \<and> np_good (L(t := remove1 m (L t))) w' \<and>
    nw_pipes w' m = Some (pc\<lparr>np_thread := None, np_nrefs := np_nrefs pc - 1\<rparr>) \<and>
    (\<forall>k. k \<noteq> m \<longrightarrow> nw_pipes w' k = nw_pipes w k) \<and> nw_open w' = nw_open w \<and> nw_freed w' = nw_freed w \<and>
    (\<forall>t'. nw_lists w' t' = None \<longleftrightarrow> nw_lists w t' = None)"
proof -
  have m: "m \<in> set (L t)" using np_pipe_okD(1) [OF G pc(1)] pc(2) by simp
  obtain l where l: "nw_lists w t = Some l" using np_has_list [OF G m] by blast
  note rem = ZLIST_REMOVE_rep [OF np_list_rep [OF G l] m]
  define z where "z = ZLIST_REMOVE m (nw_links w, l)"
  let ?pc = "pc\<lparr>np_thread := None, np_nrefs := np_nrefs pc - 1\<rparr>"
  let ?w = "set_np_list t z (upd_np m ?pc w)"
  have sound: "np_sound pc" using np_pipe_okD(2) [OF G pc(1)] .
  then have "1 < np_nrefs pc" using pc(2,3) by (simp add: np_sound_def np_refs_def)
  then have eq: "NPipeThreadActionProc t False m w = Some ?w"
    using l pc(1) by (simp add: NPipeThreadActionProc_def np_list_def z_def NUnref_keeps)
  have dist: "distinct (L t)" using np_list_rep [OF G l] by (simp add: zl_rep_def)
  have "np_lists_ok (L(t := remove1 m (L t))) ?w"
    by (rule np_lists_set [OF G rem(2) [unfolded fst_conv], where l' = "snd z"]) (use rem(1) np_disjoint [OF G] in \<open>auto simp: z_def\<close>)
  moreover have "np_pipe_ok (L(t := remove1 m (L t))) ?w k" for k
  proof (cases "k = m")
    case True
    with np_pipe_okD [OF G pc(1)] pc(2) dist sound show ?thesis
      by (simp add: np_pipe_ok_def np_sound_def np_refs_def)
  next
    case False
    show ?thesis by (rule np_pipe_ok_other [OF np_goodD(2) [OF G]]) (use False in simp_all)
  qed
  ultimately have "np_good (L(t := remove1 m (L t))) ?w" using np_goodD(3,4) [OF G] by (simp add: np_good_def)
  with eq l show ?thesis by simp
qed

end
