(* ===== verification/Npipe_Steps.thy ===== *)
theory Npipe_Steps
  imports Npipe_Inv
begin

text \<open>
  Closing a pipe, the event source, and the commands that open a pipe: their results and what they
  keep of the invariant.
\<close>

section \<open>Shutdown\<close>

definition np_handles :: "npipe \<Rightarrow> int set" where
  "np_handles pc = (if np_hpipe pc \<noteq> INVALID_HANDLE_VALUE then {np_hpipe pc} else {}) \<union>
     set_option (io_hevent (np_writer pc)) \<union> set_option (io_hevent (np_reader pc)) \<union> set_option (np_hsync pc)"

definition waits :: "npipe \<Rightarrow> int" where
  "waits pc = of_bool (io_hwait (np_reader pc) \<noteq> INVALID_HANDLE_VALUE) + of_bool (io_hwait (np_writer pc) \<noteq> INVALID_HANDLE_VALUE)"

lemma stop_waits:
  "\<exists>pc'. stop_wait WRITER a (stop_wait READER b (pc, u)) = (pc', u + waits pc) \<and> np_nrefs pc' = np_nrefs pc \<and>
     np_channel pc' = np_channel pc \<and> np_thread pc' = np_thread pc \<and> np_handles pc' = np_handles pc \<and>
     io_hwait (np_reader pc') = INVALID_HANDLE_VALUE \<and> io_hwait (np_writer pc') = INVALID_HANDLE_VALUE \<and>
     buf_ok (np_writer pc') = buf_ok (np_writer pc)"
  by (simp add: stop_wait_def waits_def np_handles_def Let_def)

lemma close_pipe_ok:
  "\<exists>pc'. close_pipe pc = (pc', np_handles pc) \<and> np_nrefs pc' = np_nrefs pc \<and> np_channel pc' = np_channel pc \<and>
     np_thread pc' = np_thread pc \<and> io_hwait (np_reader pc') = io_hwait (np_reader pc) \<and>
     io_hwait (np_writer pc') = io_hwait (np_writer pc) \<and> buf_ok (np_writer pc') = buf_ok (np_writer pc) \<and> np_handles pc' = {}"
  by (cases "io_hevent (np_reader pc)"; cases "io_hevent (np_writer pc)"; cases "np_hsync pc")
     (auto simp: close_pipe_def close_event_def np_handles_def Let_def)

lemma shutdown_closes:
  "\<exists>pc1. close_pipe (fst (stop_wait WRITER a (stop_wait READER b (pc, u)))) = (pc1, np_handles pc) \<and> np_nrefs pc1 = np_nrefs pc \<and>
     np_channel pc1 = np_channel pc \<and> np_thread pc1 = np_thread pc \<and>
     io_hwait (np_reader pc1) = INVALID_HANDLE_VALUE \<and> io_hwait (np_writer pc1) = INVALID_HANDLE_VALUE \<and>
     buf_ok (np_writer pc1) = buf_ok (np_writer pc) \<and> np_handles pc1 = {}"
proof -
  obtain pc' where pc': "stop_wait WRITER a (stop_wait READER b (pc, u)) = (pc', u + waits pc)" "np_nrefs pc' = np_nrefs pc"
     "np_channel pc' = np_channel pc" "np_thread pc' = np_thread pc" "np_handles pc' = np_handles pc"
     "io_hwait (np_reader pc') = INVALID_HANDLE_VALUE" "io_hwait (np_writer pc') = INVALID_HANDLE_VALUE"
     "buf_ok (np_writer pc') = buf_ok (np_writer pc)" using stop_waits by blast
  with close_pipe_ok [of pc'] show ?thesis by auto
qed

lemma Shutdown_eq:
  assumes "nw_pipes w m = Some pc"
  shows "\<exists>pc1. NPipeShutdown m u s w =
      (if u + waits pc \<noteq> 0 then NPipeChannelUnref m (u + waits pc) (upd_np m pc1 (w\<lparr>nw_open := nw_open w - np_handles pc\<rparr>))
       else Some (upd_np m pc1 (w\<lparr>nw_open := nw_open w - np_handles pc\<rparr>))) \<and>
    np_nrefs pc1 = np_nrefs pc \<and> np_channel pc1 = np_channel pc \<and> np_thread pc1 = np_thread pc \<and>
    io_hwait (np_reader pc1) = INVALID_HANDLE_VALUE \<and> io_hwait (np_writer pc1) = INVALID_HANDLE_VALUE \<and>
    buf_ok (np_writer pc1) = buf_ok (np_writer pc) \<and> np_handles pc1 = {}"
proof -
  let ?st = "stop_wait WRITER (s_during_write s) (stop_wait READER (s_during_read s) (pc, u))"
  obtain pc' where st: "?st = (pc', u + waits pc)" using stop_waits [of "s_during_write s" "s_during_read s" pc u] by blast
  obtain pc1 where pc1: "close_pipe pc' = (pc1, np_handles pc)" "np_nrefs pc1 = np_nrefs pc"
     "np_channel pc1 = np_channel pc" "np_thread pc1 = np_thread pc"
     "io_hwait (np_reader pc1) = INVALID_HANDLE_VALUE" "io_hwait (np_writer pc1) = INVALID_HANDLE_VALUE"
     "buf_ok (np_writer pc1) = buf_ok (np_writer pc)" "np_handles pc1 = {}"
    using shutdown_closes [of "s_during_write s" "s_during_read s" pc u] st by auto
  then show ?thesis using assms st by (intro exI [of _ pc1]) (simp add: NPipeShutdown_def Let_def)
qed

text \<open>Closing a pipe frees it: the channel and the waits hold the last references.\<close>

lemma np_close_ok:
  assumes G: "np_good L w" and pc: "nw_pipes w m = Some pc" "np_thread pc = None" "np_channel pc \<noteq> None"
  shows "\<exists>w'. NPipeCloseProc m s w = Some w' \<and> np_good L w' \<and> nw_pipes w' = (nw_pipes w)(m := None) \<and>
    nw_freed w' = m # nw_freed w \<and> nw_open w' = nw_open w - np_handles pc \<and> nw_events w' = nw_events w \<and>
    nw_lists w' = nw_lists w"
proof -
  have refs: "np_nrefs pc = 1 + waits pc" "waits pc \<ge> 0"
    using np_pipe_okD(2) [OF G pc(1)] pc(2,3) by (simp_all add: np_sound_def np_refs_def waits_def)
  obtain pc1 where "NPipeShutdown m 1 s w = NPipeChannelUnref m (1 + waits pc) (upd_np m pc1 (w\<lparr>nw_open := nw_open w - np_handles pc\<rparr>))"
    "np_nrefs pc1 = np_nrefs pc" using Shutdown_eq [OF pc(1), of 1 s] refs by (auto split: if_splits)
  with refs have eq: "NPipeCloseProc m s w = Some (w\<lparr>nw_pipes := (nw_pipes w)(m := None), nw_open := nw_open w - np_handles pc,
      nw_freed := m # nw_freed w\<rparr>)" (is "_ = Some ?w")
    by (simp add: NPipeCloseProc_def Unref_frees)
  have m: "m \<notin> set (L t)" for t using np_pipe_okD(1) [OF G pc(1)] pc(2) by simp
  have "np_pipe_ok L ?w k" for k
  proof (cases "k = m")
    case True
    with m show ?thesis by (simp add: np_pipe_ok_def)
  next
    case False
    show ?thesis by (rule np_pipe_ok_other [OF np_goodD(2) [OF G]]) (use False in simp_all)
  qed
  moreover have "np_lists_ok L ?w" by (rule np_lists_ok_cong [OF np_goodD(1) [OF G]]) simp_all
  ultimately have "np_good L ?w" using np_goodD(3,4) [OF G] np_pipe_okD(3,4) [OF G pc(1)] by (simp add: np_good_def)
  with eq show ?thesis by auto
qed

section \<open>The event source\<close>

definition due :: "npw \<Rightarrow> nat \<Rightarrow> bool" where
  "due w m \<longleftrightarrow> (case nw_pipes w m of None \<Rightarrow> False
     | Some pc \<Rightarrow> NPIPE_NOTIFIABLE pc \<and> NPIPE_F_EVENT_QUEUED \<notin> np_flags pc)"

definition flagged :: "npipe \<Rightarrow> npipe" where
  "flagged pc = set_flag NPIPE_F_EVENT_QUEUED pc"

lemma MOVETOHEAD_links:
  assumes "zl_rep z xs" "x \<in> set xs"
  shows "\<exists>z'. ZLIST_MOVETOHEAD x z = Some z' \<and> zl_rep z' (x # remove1 x xs) \<and> links_outside (set xs) (fst z) (fst z')"
proof -
  have x: "x \<notin> set (remove1 x xs)" using assms(1) by (simp add: zl_rep_def)
  note rem = ZLIST_REMOVE_rep [OF assms]
  from ZLIST_PREPEND_rep [OF rem(1) x] obtain z' where z': "ZLIST_PREPEND x (ZLIST_REMOVE x z) = Some z'"
    "zl_rep z' (x # remove1 x xs)" "links_outside (insert x (set (remove1 x xs))) (fst (ZLIST_REMOVE x z)) (fst z')" by blast
  have "links_outside (set xs) (fst (ZLIST_REMOVE x z)) (fst z')"
    using z'(3) assms(2) set_remove1_subset [of x xs] by (auto simp: links_outside_def)
  with links_outside_trans rem(2) z'(1,2) show ?thesis by (auto simp: ZLIST_MOVETOHEAD_def)
qed

lemma queue_event_ok:
  assumes G: "np_good L w" and m: "m \<in> set (L t)" and pc: "nw_pipes w m = Some pc"
  shows "\<exists>w'. queue_event t m w = Some w' \<and> np_good (L(t := m # remove1 m (L t))) w' \<and>
    nw_pipes w' = (nw_pipes w)(m \<mapsto> flagged pc) \<and> nw_events w' = nw_events w @ [(t, np_hpipe pc)] \<and>
    nw_open w' = nw_open w \<and> nw_freed w' = nw_freed w"
proof -
  obtain l where l: "nw_lists w t = Some l" using np_has_list [OF G m] by blast
  obtain z where z: "ZLIST_MOVETOHEAD m (nw_links w, l) = Some z" "zl_rep z (m # remove1 m (L t))"
    "links_outside (set (L t)) (nw_links w) (fst z)" using MOVETOHEAD_links [OF np_list_rep [OF G l] m] by auto
  let ?L = "L(t := m # remove1 m (L t))"
  let ?w = "upd_np m (flagged pc) ((set_np_list t z w)\<lparr>nw_events := nw_events w @ [(t, np_hpipe pc)]\<rparr>)"
  have "queue_event t m w = Some ?w" using pc l z(1) by (simp add: queue_event_def np_list_def flagged_def)
  moreover have "np_lists_ok ?L ?w"
    by (rule np_lists_set [OF G z(3), where l' = "snd z"]) (use z(2) np_disjoint [OF G] in auto)
  moreover have same: "k \<in> set (?L t') \<longleftrightarrow> k \<in> set (L t')" for k t'
  proof (cases "t' = t")
    case True
    have "k \<in> set (m # remove1 m (L t)) \<longleftrightarrow> k \<in> set (L t)"
      using m by (cases "k = m") (simp_all add: in_set_remove1)
    with True show ?thesis by simp
  qed simp
  moreover have "np_pipe_ok ?L ?w k" for k
  proof (cases "k = m")
    case True
    with np_pipe_okD [OF G pc] same [of m] show ?thesis by (simp add: np_pipe_ok_def flagged_def del: fun_upd_apply) simp
  next
    case False
    show ?thesis by (rule np_pipe_ok_other [OF np_goodD(2) [OF G] _ same]) (use False in simp_all)
  qed
  ultimately have "np_good ?L ?w" using np_goodD(3,4) [OF G] by (simp add: np_good_def del: fun_upd_apply)
  with \<open>queue_event t m w = Some ?w\<close> show ?thesis by auto
qed

lemma zl_next_rep: "zl_rep (K, l) (xs @ x # ys) \<Longrightarrow> zl_next (K x) = hdp ys None"
  by (simp add: zl_rep_def dseg_append)

lemma due_flagged: "nw_pipes w' = (nw_pipes w)(m \<mapsto> flagged pc) \<Longrightarrow> due w' k \<longleftrightarrow> k \<noteq> m \<and> due w k"
  by (simp add: due_def flagged_def split: option.splits)

lemma check_loop_ok:
  assumes "np_good L w" "L t = pre @ ys" "\<forall>x \<in> set pre. \<not> due w x"
  shows "\<exists>w'. check_loop t (hdp ys None) w = Some w' \<and>
    np_good (L(t := rev (filter (due w) ys) @ pre @ filter (\<lambda>x. \<not> due w x) ys)) w' \<and>
    nw_events w' = nw_events w @ map (\<lambda>m. (t, the (hpipe_of w m))) (filter (due w) ys) \<and>
    (\<forall>m. nw_pipes w' m = (if m \<in> set ys \<and> due w m then map_option flagged (nw_pipes w m) else nw_pipes w m)) \<and>
    nw_open w' = nw_open w \<and> nw_freed w' = nw_freed w"
  using assms
proof (induction "length (filter (due w) ys) * Suc (length (L t)) + length ys" arbitrary: L w pre ys rule: less_induct)
  case less
  show ?case
  proof (cases ys)
    case Nil
    with less.prems show ?thesis by (subst check_loop.simps) (simp add: fun_upd_idem)
  next
    case (Cons m zs)
    have m: "m \<in> set (L t)" using less.prems(2) Cons by simp
    obtain pc where pc: "nw_pipes w m = Some pc" using np_in_list [OF less.prems(1) m] by blast
    obtain l where l: "nw_lists w t = Some l" using np_has_list [OF less.prems(1) m] by blast
    have rep: "zl_rep (nw_links w, l) (pre @ m # zs)" using np_list_rep [OF less.prems(1) l] less.prems(2) Cons by simp
    then have dist: "distinct (pre @ m # zs)" by (simp add: zl_rep_def)
    show ?thesis
    proof (cases "due w m")
      case False
      have "check_loop t (hdp ys None) w = check_loop t (hdp zs None) w"
        using False pc zl_next_rep [OF rep] unfolding Cons by (subst check_loop.simps) (auto simp: due_def)
      moreover have "length (filter (due w) zs) * Suc (length (L t)) + length zs
          < length (filter (due w) ys) * Suc (length (L t)) + length ys" using False Cons by simp
      from less.hyps [OF this less.prems(1), of "pre @ [m]"] less.prems(2,3) False Cons
      have "\<exists>w'. check_loop t (hdp zs None) w = Some w' \<and>
        np_good (L(t := rev (filter (due w) zs) @ (pre @ [m]) @ filter (\<lambda>x. \<not> due w x) zs)) w' \<and>
        nw_events w' = nw_events w @ map (\<lambda>m. (t, the (hpipe_of w m))) (filter (due w) zs) \<and>
        (\<forall>m. nw_pipes w' m = (if m \<in> set zs \<and> due w m then map_option flagged (nw_pipes w m) else nw_pipes w m)) \<and>
        nw_open w' = nw_open w \<and> nw_freed w' = nw_freed w" by auto
      ultimately show ?thesis using False Cons by auto
    next
      case True
      from queue_event_ok [OF less.prems(1) m pc] obtain w1 where w1: "queue_event t m w = Some w1"
        "np_good (L(t := m # remove1 m (L t))) w1" "nw_pipes w1 = (nw_pipes w)(m \<mapsto> flagged pc)"
        "nw_events w1 = nw_events w @ [(t, np_hpipe pc)]" "nw_open w1 = nw_open w" "nw_freed w1 = nw_freed w" by blast
      have L': "m # remove1 m (L t) = [m] @ (pre @ zs)" using less.prems(2) Cons dist by (simp add: remove1_append)
      note d1 = due_flagged [OF w1(3)]
      have f1: "filter (due w1) (pre @ zs) = filter (due w) zs"
      proof -
        have "filter (due w1) pre = []" using less.prems(3) d1 by (simp add: filter_empty_conv)
        moreover have "filter (due w1) zs = filter (due w) zs" using dist d1 by (intro filter_cong) auto
        ultimately show ?thesis by simp
      qed
      have f2: "filter (\<lambda>x. \<not> due w1 x) (pre @ zs) = pre @ filter (\<lambda>x. \<not> due w x) zs"
      proof -
        have "filter (\<lambda>x. \<not> due w1 x) pre = pre" using less.prems(3) d1 by (simp add: filter_id_conv)
        moreover have "filter (\<lambda>x. \<not> due w1 x) zs = filter (\<lambda>x. \<not> due w x) zs" using dist d1 by (intro filter_cong) auto
        ultimately show ?thesis by simp
      qed
      obtain l1 where "nw_lists w1 t = Some l1" using np_has_list [OF w1(2), of m t] by auto
      then have "zl_rep (nw_links w1, l1) ([] @ m # (pre @ zs))" using np_list_rep [OF w1(2)] L' by fastforce
      from zl_next_rep [OF this] have step: "check_loop t (hdp ys None) w = check_loop t (hdp (pre @ zs) None) w1"
        using True pc w1(1) unfolding Cons by (subst check_loop.simps) (auto simp: due_def)
      have len: "length (filter (due w1) (pre @ zs)) * Suc (length ((L(t := m # remove1 m (L t))) t)) + length (pre @ zs)
          < length (filter (due w) ys) * Suc (length (L t)) + length ys"
        unfolding f1 using True Cons less.prems(2) L' by (simp add: algebra_simps)
      have "\<exists>w'. check_loop t (hdp (pre @ zs) None) w1 = Some w' \<and>
        np_good ((L(t := m # remove1 m (L t)))(t := rev (filter (due w) zs) @ [m] @ pre @ filter (\<lambda>x. \<not> due w x) zs)) w' \<and>
        nw_events w' = nw_events w1 @ map (\<lambda>m. (t, the (hpipe_of w1 m))) (filter (due w) zs) \<and>
        (\<forall>k. nw_pipes w' k = (if k \<in> set (pre @ zs) \<and> due w1 k then map_option flagged (nw_pipes w1 k) else nw_pipes w1 k)) \<and>
        nw_open w' = nw_open w1 \<and> nw_freed w' = nw_freed w1"
        using less.hyps [OF len w1(2), of "[m]"] L' d1 unfolding f1 f2 by simp
      then obtain w' where w': "check_loop t (hdp (pre @ zs) None) w1 = Some w'"
        "np_good (L(t := rev (filter (due w) zs) @ [m] @ pre @ filter (\<lambda>x. \<not> due w x) zs)) w'"
        "nw_events w' = nw_events w1 @ map (\<lambda>m. (t, the (hpipe_of w1 m))) (filter (due w) zs)"
        "\<And>k. nw_pipes w' k = (if k \<in> set (pre @ zs) \<and> due w1 k then map_option flagged (nw_pipes w1 k) else nw_pipes w1 k)"
        "nw_open w' = nw_open w1" "nw_freed w' = nw_freed w1" by auto
      have "map (\<lambda>m. (t, the (hpipe_of w1 m))) (filter (due w) zs) = map (\<lambda>m. (t, the (hpipe_of w m))) (filter (due w) zs)"
        using dist w1(3) by (intro map_cong) (auto simp: hpipe_of_def)
      moreover have "nw_pipes w' k = (if k \<in> set ys \<and> due w k then map_option flagged (nw_pipes w k) else nw_pipes w k)" for k
        using w'(4) [of k] d1 [of k] True pc w1(3) less.prems(3) Cons by auto
      ultimately show ?thesis
        using step w' w1(4-6) True Cons pc by (intro exI [of _ w']) (simp add: hpipe_of_def)
    qed
  qed
qed

lemma CheckProc_ok:
  assumes G: "np_good L w" and l: "nw_lists w t \<noteq> None"
  shows "\<exists>w'. NPipeCheckProc t True w = Some w' \<and>
    np_good (L(t := rev (filter (due w) (L t)) @ filter (\<lambda>x. \<not> due w x) (L t))) w' \<and>
    nw_events w' = nw_events w @ map (\<lambda>m. (t, the (hpipe_of w m))) (filter (due w) (L t)) \<and>
    (\<forall>m. nw_pipes w' m = (if m \<in> set (L t) \<and> due w m then map_option flagged (nw_pipes w m) else nw_pipes w m)) \<and>
    nw_open w' = nw_open w \<and> nw_freed w' = nw_freed w"
proof -
  obtain l0 where l0: "nw_lists w t = Some l0" using l by blast
  have "zlist_head l0 = hdp (L t) None" using np_list_rep [OF G l0] by (rule zl_rep_head)
  with check_loop_ok [OF G, of t "[]" "L t"] l0 show ?thesis by (simp add: NPipeCheckProc_def)
qed

lemma setup_loop_ok:
  "np_good L w \<Longrightarrow> L t = pre @ ys \<Longrightarrow> nw_lists w t = Some l \<Longrightarrow>
   setup_loop (hdp ys None) w = Some (\<exists>m \<in> set ys. \<exists>pc. nw_pipes w m = Some pc \<and> NPIPE_NOTIFIABLE pc)"
proof (induction ys arbitrary: pre)
  case Nil
  then show ?case by (subst setup_loop.simps) simp
next
  case (Cons m zs)
  have "m \<in> set (L t)" using Cons.prems(2) by simp
  from np_in_list [OF Cons.prems(1) this] obtain pc where pc: "nw_pipes w m = Some pc" by blast
  have "zl_rep (nw_links w, l) (pre @ m # zs)" using np_list_rep [OF Cons.prems(1,3)] Cons.prems(2) by simp
  note nxt = zl_next_rep [OF this]
  have IH: "setup_loop (hdp zs None) w = Some (\<exists>m \<in> set zs. \<exists>pc. nw_pipes w m = Some pc \<and> NPIPE_NOTIFIABLE pc)"
    using Cons.IH [OF Cons.prems(1) _ Cons.prems(3), of "pre @ [m]"] Cons.prems(2) by simp
  show ?case using pc nxt IH by (subst setup_loop.simps) auto
qed

lemma SetupProc_ok:
  assumes "np_good L w" "nw_lists w t = Some l"
  shows "NPipeSetupProc t True w = Some (\<exists>m \<in> set (L t). \<exists>pc. nw_pipes w m = Some pc \<and> NPIPE_NOTIFIABLE pc)"
  using setup_loop_ok [OF assms(1) _ assms(2), of "[]" "L t"] zl_rep_head [OF np_list_rep [OF assms]] assms(2)
  by (simp add: NPipeSetupProc_def)

section \<open>Events\<close>

lemma EventProc_ok:
  assumes G: "np_good L w" and l: "nw_lists w t \<noteq> None"
  shows "\<exists>w' notify. NPipeEventProc t True h w = Some (w', True, notify) \<and> np_good L w' \<and>
    (case find (\<lambda>m. hpipe_of w m = Some h) (L t) of
       None \<Rightarrow> w' = w \<and> notify = None
     | Some m \<Rightarrow> \<exists>pc. nw_pipes w m = Some pc \<and> np_hpipe pc = h \<and>
         w' = upd_np m (write_idle (fst (event_mask (event_errors pc)))) w \<and>
         notify = (if snd (event_mask (event_errors pc)) \<noteq> {} then Some (m, snd (event_mask (event_errors pc))) else None))"
proof -
  obtain l0 where l0: "nw_lists w t = Some l0" using l by blast
  have loc: "ZLIST_LOCATE (hpipe_of w) (Some h) (np_list l0 w) = Some (find (\<lambda>m. hpipe_of w m = Some h) (L t))"
    using ZLIST_LOCATE_rep [OF np_list_rep [OF G l0]] by (simp add: np_list_def)
  show ?thesis
  proof (cases "find (\<lambda>m. hpipe_of w m = Some h) (L t)")
    case None
    with G l0 loc show ?thesis by (simp add: NPipeEventProc_def)
  next
    case (Some m)
    then have m: "m \<in> set (L t)" "hpipe_of w m = Some h" using find_Some_in [OF Some] by auto
    then obtain pc where pc: "nw_pipes w m = Some pc" "np_hpipe pc = h" by (auto simp: hpipe_of_def)
    have "np_good L (upd_np m (write_idle (fst (event_mask (event_errors pc)))) w)"
      using np_good_step [OF G pc(1) event_pc_ok] np_pipe_okD(2) [OF G pc(1)] by blast
    with l0 loc Some pc show ?thesis by (simp add: NPipeEventProc_def split: prod.splits)
  qed
qed

section \<open>Opening\<close>

text \<open>A pipe changes, and handles are opened or closed.\<close>

lemma np_good_upd:
  assumes G: "np_good L w" and pc: "nw_pipes w m = Some pc" and pc': "np_sound pc'" "np_thread pc' = np_thread pc"
    and w': "w' = upd_np m pc' (w\<lparr>nw_open := H\<rparr>)"
  shows "np_good L w'"
proof -
  have "np_pipe_ok L w' k" for k
  proof (cases "k = m")
    case True
    with np_pipe_okD [OF G pc] pc' w' show ?thesis by (simp add: np_pipe_ok_def)
  next
    case False
    show ?thesis by (rule np_pipe_ok_other [OF np_goodD(2) [OF G]]) (use False w' in simp_all)
  qed
  moreover have "np_lists_ok L w'" by (rule np_lists_ok_cong [OF np_goodD(1) [OF G]]) (simp_all add: w')
  ultimately show ?thesis using G w' by (simp add: np_good_def)
qed

lemma GetNPipeTls_ok:
  assumes G: "np_good L w"
  shows "np_good L (GetNPipeTls t w)" "nw_lists (GetNPipeTls t w) t \<noteq> None" "nw_pipes (GetNPipeTls t w) = nw_pipes w"
    "nw_next (GetNPipeTls t w) = nw_next w"
proof -
  have 1: "nw_links (GetNPipeTls t w) = nw_links w" "nw_freed (GetNPipeTls t w) = nw_freed w"
    "nw_pipes (GetNPipeTls t w) = nw_pipes w" "nw_next (GetNPipeTls t w) = nw_next w"
    "nw_lists (GetNPipeTls t w) = (if nw_lists w t = None then (nw_lists w)(t \<mapsto> ZLIST_INIT) else nw_lists w)"
    by (auto simp: GetNPipeTls_def split: option.splits)
  show "nw_lists (GetNPipeTls t w) t \<noteq> None" "nw_pipes (GetNPipeTls t w) = nw_pipes w" "nw_next (GetNPipeTls t w) = nw_next w"
    using 1 by auto
  have "case nw_lists (GetNPipeTls t w) t' of None \<Rightarrow> L t' = [] | Some l \<Rightarrow> zl_rep (nw_links w, l) (L t')" for t'
    using np_listsD [OF G, of t'] 1(5) by (auto simp: ZLIST_INIT_rep split: option.splits)
  then have "np_lists_ok L (GetNPipeTls t w)" unfolding np_lists_ok_def 1(1) by blast
  moreover have "np_pipe_ok L (GetNPipeTls t w) k" for k
    by (rule np_pipe_ok_other [OF np_goodD(2) [OF G]]) (simp_all add: 1)
  ultimately show "np_good L (GetNPipeTls t w)" using np_goodD(3,4) [OF G] by (simp add: np_good_def 1)
qed

text \<open>A pipe without channel, thread and waits.\<close>

definition np_bare :: "npw \<Rightarrow> nat \<Rightarrow> npipe \<Rightarrow> bool" where
  "np_bare w m pc \<longleftrightarrow> nw_pipes w m = Some pc \<and> np_channel pc = None \<and> np_thread pc = None \<and>
     io_hwait (np_reader pc) = INVALID_HANDLE_VALUE \<and> io_hwait (np_writer pc) = INVALID_HANDLE_VALUE \<and>
     np_nrefs pc = 0 \<and> buf_ok (np_writer pc)"

lemma np_bare_sound: "np_bare w m pc \<Longrightarrow> np_sound pc"
  by (simp add: np_bare_def np_sound_def np_refs_def)

lemma New_ok:
  assumes G: "np_good L w"
  shows "\<exists>w' pc. NPipeChannelNew w = (w', nw_next w) \<and> np_good L w' \<and> np_bare w' (nw_next w) pc \<and> np_handles pc = {} \<and>
    np_winerr pc = 0 \<and> nw_lists w' = nw_lists w \<and> (\<forall>k. k \<noteq> nw_next w \<longrightarrow> nw_pipes w' k = nw_pipes w k)"
proof -
  define m where "m = nw_next w"
  define pc where "pc = \<lparr>np_thread = None, np_channel = None, np_hpipe = INVALID_HANDLE_VALUE, np_hsync = None,
                np_reader = npio_new, np_writer = npio_new, np_flags = {}, np_nrefs = 0, np_winerr = 0\<rparr>"
  let ?w = "w\<lparr>nw_pipes := (nw_pipes w)(m \<mapsto> pc), nw_links := ZLINK_INIT m (nw_links w), nw_next := Suc m\<rparr>"
  have eq: "NPipeChannelNew w = (?w, m)" by (simp add: NPipeChannelNew_def m_def pc_def Let_def)
  have m: "nw_pipes w m = None" "m \<notin> set (L t)" "m \<notin> set (nw_freed w)" for t
  proof -
    show 0: "nw_pipes w m = None" using np_pipe_okD(3) [OF G] by (cases "nw_pipes w m") (auto simp: m_def)
    show "m \<notin> set (L t)" using np_in_list [OF G] 0 by fastforce
    show "m \<notin> set (nw_freed w)" using np_goodD(4) [OF G] by (fastforce simp: m_def)
  qed
  have "links_outside {m} (nw_links w) (ZLINK_INIT m (nw_links w))"
    by (simp add: links_outside_def ZLINK_INIT_def set_prev_def set_next_def)
  then have "case nw_lists w t of None \<Rightarrow> L t = [] | Some l \<Rightarrow> zl_rep (ZLINK_INIT m (nw_links w), l) (L t)" for t
    using np_listsD [OF G, of t] m(2) [of t] by (auto split: option.splits intro: zl_rep_frame)
  then have "np_lists_ok L ?w" by (intro np_lists_okI [where K = "ZLINK_INIT m (nw_links w)"]) simp_all
  moreover have "np_pipe_ok L ?w k" for k
  proof (cases "k = m")
    case True
    with m show ?thesis
      by (simp add: np_pipe_ok_def pc_def np_sound_def np_refs_def npio_new_def buf_ok_def)
  next
    case False
    show ?thesis by (rule np_pipe_ok_other [OF np_goodD(2) [OF G]]) (use False in \<open>simp_all add: m_def\<close>)
  qed
  ultimately have "np_good L ?w" using np_goodD(3,4) [OF G] by (simp add: np_good_def m_def less_SucI)
  moreover have "np_bare ?w m pc" "np_handles pc = {}" "np_winerr pc = 0"
    by (simp_all add: np_bare_def pc_def npio_new_def buf_ok_def np_handles_def)
  ultimately show ?thesis using eq unfolding m_def by auto
qed

lemma open_failed_ok:
  assumes G: "np_good L w" and b: "np_bare w m pc"
  shows "\<exists>w' pc'. open_failed m e s w = Some (w', Inl e) \<and> np_good L w' \<and> np_bare w' m pc' \<and> np_handles pc' = {} \<and>
    nw_open w' = nw_open w - np_handles pc"
proof -
  let ?w = "upd_np m (pc\<lparr>np_winerr := e\<rparr>) w"
  have pc: "nw_pipes w m = Some pc" "waits (pc\<lparr>np_winerr := e\<rparr>) = 0" "np_handles (pc\<lparr>np_winerr := e\<rparr>) = np_handles pc"
    using b by (simp_all add: np_bare_def waits_def np_handles_def)
  have "nw_pipes ?w m = Some (pc\<lparr>np_winerr := e\<rparr>)" by simp
  from Shutdown_eq [OF this, of 0 s] pc obtain pc1 where
    pc1: "NPipeShutdown m 0 s ?w = Some (upd_np m pc1 (?w\<lparr>nw_open := nw_open ?w - np_handles pc\<rparr>))"
    "np_nrefs pc1 = np_nrefs pc" "np_channel pc1 = np_channel pc" "np_thread pc1 = np_thread pc"
    "io_hwait (np_reader pc1) = INVALID_HANDLE_VALUE" "io_hwait (np_writer pc1) = INVALID_HANDLE_VALUE"
    "buf_ok (np_writer pc1) = buf_ok (np_writer pc)" "np_handles pc1 = {}" by auto
  let ?w' = "upd_np m pc1 (w\<lparr>nw_open := nw_open w - np_handles pc\<rparr>)"
  have "upd_np m pc1 (?w\<lparr>nw_open := nw_open ?w - np_handles pc\<rparr>) = ?w'" by (simp add: upd_np_def)
  then have eq: "open_failed m e s w = Some (?w', Inl e)" using pc(1) pc1(1) by (simp add: open_failed_def)
  have bare: "np_bare ?w' m pc1" using b pc1 by (simp add: np_bare_def)
  have "np_good L ?w'" by (rule np_good_upd [OF G pc(1) np_bare_sound [OF bare] pc1(4) refl])
  with eq bare pc1(8) show ?thesis by auto
qed

text \<open>The set-up fails with the pipe as it was, or puts it on the list of its thread.\<close>

lemma new_event_ok:
  assumes G: "np_good L w" and b: "np_bare w m pc"
    and f: "\<And>h. np_bare (upd_np m (f h pc) w) m (f h pc)" "\<And>h. np_thread (f h pc) = np_thread pc"
  shows "\<exists>w' e pc'. new_event f ev m w = Some (w', e) \<and> np_good L w' \<and> np_bare w' m pc' \<and> nw_lists w' = nw_lists w \<and>
    (\<forall>h. ev = Inr h \<longrightarrow> e = None \<and> pc' = f h pc) \<and> (\<forall>x. ev = Inl x \<longrightarrow> e = Some x \<and> pc' = pc)"
proof (cases ev)
  case (Inl x)
  with G b show ?thesis by (auto simp: new_event_def np_bare_def)
next
  case (Inr h)
  have pc: "nw_pipes w m = Some pc" using b by (simp add: np_bare_def)
  let ?w = "upd_np m (f h pc) (w\<lparr>nw_open := insert h (nw_open w)\<rparr>)"
  have "np_good L ?w" by (rule np_good_upd [OF G pc np_bare_sound [OF f(1)] f(2) refl])
  moreover have "np_bare ?w m (f h pc)" using f(1) [of h] by (simp add: np_bare_def)
  ultimately show ?thesis using Inr pc by (simp add: new_event_def)
qed

lemma CreateChannel_ok:
  assumes G: "np_good L w" and b: "np_bare w m pc" and l: "nw_lists w t \<noteq> None"
  shows "\<exists>w' w1. NPipeChannelRef m 1 w = Some w1 \<and> Tcl_CreateChannel t i m w1 = Some w' \<and> np_good (L(t := m # L t)) w' \<and>
    nw_pipes w' m = Some (pc\<lparr>np_thread := Some t, np_nrefs := 2, np_channel := Some i\<rparr>) \<and>
    nw_lists w' t \<noteq> None"
proof -
  have pc: "nw_pipes w m = Some pc" "np_thread pc = None" "np_nrefs pc = 0" "np_channel pc = None"
    using b by (simp_all add: np_bare_def)
  let ?pc0 = "pc\<lparr>np_nrefs := 1\<rparr>"
  obtain l0 where l0: "nw_lists w t = Some l0" using l by blast
  have w1: "NPipeChannelRef m 1 w = Some (upd_np m ?pc0 w)" using pc by (simp add: Ref_eq)
  from insert_thread [OF G pc(1,2) l0, of "upd_np m ?pc0 w" ?pc0] pc obtain w2 where
    w2: "NPipeThreadActionProc t True m (upd_np m ?pc0 w) = Some w2" "np_lists_ok (L(t := m # L t)) w2"
    "nw_pipes w2 = (nw_pipes w)(m \<mapsto> pc\<lparr>np_thread := Some t, np_nrefs := 2\<rparr>)"
    "nw_freed w2 = nw_freed w" "nw_next w2 = nw_next w" by (auto simp: upd_np_def)
  let ?pc' = "pc\<lparr>np_thread := Some t, np_nrefs := 2, np_channel := Some i\<rparr>"
  let ?w' = "upd_np m ?pc' w2"
  have eq: "Tcl_CreateChannel t i m (upd_np m ?pc0 w) = Some ?w'" using w2(1,3) by (simp add: Tcl_CreateChannel_def)
  have lists: "np_lists_ok (L(t := m # L t)) ?w'" by (rule np_lists_ok_cong [OF w2(2)]) simp_all
  have "np_pipe_ok (L(t := m # L t)) ?w' k" for k
  proof (cases "k = m")
    case True
    have "np_sound ?pc'" using b by (simp add: np_bare_def np_sound_def np_refs_def)
    with True np_pipe_okD [OF G pc(1)] pc(2) w2(4,5) show ?thesis by (simp add: np_pipe_ok_def)
  next
    case False
    show ?thesis by (rule np_pipe_ok_other [OF np_goodD(2) [OF G]]) (use False w2(3-5) in simp_all)
  qed
  with lists np_goodD(3,4) [OF G] w2(4,5) have G': "np_good (L(t := m # L t)) ?w'" by (simp add: np_good_def del: fun_upd_apply)
  have "nw_lists ?w' t \<noteq> None" using np_listsD [OF G', of t] by (auto split: option.splits)
  with w1 eq G' show ?thesis by auto
qed

lemma open_channel_ok:
  assumes G: "np_good L w" and b: "np_bare w m pc" and l: "nw_lists w t \<noteq> None"
  shows "\<exists>w' e. open_channel t m sync er ew i w = Some (w', e) \<and>
    (case e of
       Some x \<Rightarrow> \<exists>pc'. np_good L w' \<and> np_bare w' m pc' \<and> (sync = Inl x \<or> er = Inl x \<or> ew = Inl x)
     | None \<Rightarrow> \<exists>pc'. np_good (L(t := m # L t)) w' \<and> np_live w' m pc' \<and> np_thread pc' = Some t \<and>
         io_hwait (np_writer pc') = INVALID_HANDLE_VALUE \<and> (\<exists>h1 h2 h3. sync = Inr h1 \<and> er = Inr h2 \<and> ew = Inr h3))"
proof -
  from new_event_ok [OF G b, of "\<lambda>h pc. pc\<lparr>np_hsync := Some h\<rparr>" sync] b obtain w1 e1 pc1 where
    1: "new_event (\<lambda>h pc. pc\<lparr>np_hsync := Some h\<rparr>) sync m w = Some (w1, e1)" "np_good L w1" "np_bare w1 m pc1"
    "nw_lists w1 = nw_lists w" "\<And>h. sync = Inr h \<Longrightarrow> e1 = None" "\<And>x. sync = Inl x \<Longrightarrow> e1 = Some x"
    by (auto simp: np_bare_def)
  from new_event_ok [OF 1(2,3), of "\<lambda>h pc. pc\<lparr>np_reader := (np_reader pc)\<lparr>io_hevent := Some h\<rparr>\<rparr>" er] 1(3) obtain w2 e2 pc2 where
    2: "new_event (\<lambda>h pc. pc\<lparr>np_reader := (np_reader pc)\<lparr>io_hevent := Some h\<rparr>\<rparr>) er m w1 = Some (w2, e2)" "np_good L w2" "np_bare w2 m pc2"
    "nw_lists w2 = nw_lists w1" "\<And>h. er = Inr h \<Longrightarrow> e2 = None" "\<And>x. er = Inl x \<Longrightarrow> e2 = Some x"
    by (auto simp: np_bare_def)
  from new_event_ok [OF 2(2,3), of "\<lambda>h pc. pc\<lparr>np_writer := (np_writer pc)\<lparr>io_hevent := Some h\<rparr>\<rparr>" ew] 2(3) obtain w3 e3 pc3 where
    3: "new_event (\<lambda>h pc. pc\<lparr>np_writer := (np_writer pc)\<lparr>io_hevent := Some h\<rparr>\<rparr>) ew m w2 = Some (w3, e3)" "np_good L w3" "np_bare w3 m pc3"
    "nw_lists w3 = nw_lists w2" "\<And>h. ew = Inr h \<Longrightarrow> e3 = None" "\<And>x. ew = Inl x \<Longrightarrow> e3 = Some x"
    by (auto simp: np_bare_def)
  have l3: "nw_lists w3 t \<noteq> None" using l 1(4) 2(4) 3(4) by simp
  from CreateChannel_ok [OF 3(2,3) l3, of i] obtain w4 w5 where
    4: "NPipeChannelRef m 1 w3 = Some w4" "Tcl_CreateChannel t i m w4 = Some w5" "np_good (L(t := m # L t)) w5"
    "nw_pipes w5 m = Some (pc3\<lparr>np_thread := Some t, np_nrefs := 2, np_channel := Some i\<rparr>)" by blast
  have live: "np_live w5 m (pc3\<lparr>np_thread := Some t, np_nrefs := 2, np_channel := Some i\<rparr>)"
    using 3(3) 4(4) by (simp add: np_live_def np_sound_def np_refs_def np_bare_def)
  show ?thesis
  proof (cases e1)
    case (Some x)
    then have "sync = Inl x" using 1(5,6) by (cases sync) auto
    with Some 1 show ?thesis by (intro exI [of _ w1] exI [of _ e1]) (auto simp: open_channel_def)
  next
    case n1: None
    show ?thesis
    proof (cases e2)
      case (Some x)
      then have "er = Inl x" using 2(5,6) by (cases er) auto
      with Some n1 1 2 show ?thesis by (intro exI [of _ w2] exI [of _ e2]) (auto simp: open_channel_def)
    next
      case n2: None
      show ?thesis
      proof (cases e3)
        case (Some x)
        then have "ew = Inl x" using 3(5,6) by (cases ew) auto
        with Some n1 n2 1 2 3 show ?thesis by (intro exI [of _ w3] exI [of _ e3]) (auto simp: open_channel_def)
      next
        case None
        have "open_channel t m sync er ew i w = Some (w5, None)"
          using None n1 n2 1(1) 2(1) 3(1) 4(1,2) by (simp add: open_channel_def)
        moreover have "io_hwait (np_writer (pc3\<lparr>np_thread := Some t, np_nrefs := 2, np_channel := Some i\<rparr>)) = INVALID_HANDLE_VALUE"
          using 3(3) by (simp add: np_bare_def)
        moreover have "\<exists>h1 h2 h3. sync = Inr h1 \<and> er = Inr h2 \<and> ew = Inr h3"
          using None n1 n2 1(6) 2(6) 3(6) by (cases sync; cases er; cases ew) auto
        ultimately show ?thesis using 4(3) live by fastforce
      qed
    qed
  qed
qed

text \<open>The connection of a server is there, is pending, or fails.\<close>

definition accepts :: "nat \<Rightarrow> nat + int \<Rightarrow> bool" where
  "accepts conn reg \<longleftrightarrow> conn = 0 \<or> conn = ERROR_PIPE_CONNECTED \<or>
     conn = ERROR_IO_PENDING \<and> (\<exists>h. reg = Inr h \<and> h \<noteq> INVALID_HANDLE_VALUE)"

lemma Accept_ok:
  assumes L: "np_live w m pc" and w: "io_hwait (np_writer pc) = INVALID_HANDLE_VALUE"
    and reg: "\<And>h. reg = Inr h \<Longrightarrow> h \<noteq> INVALID_HANDLE_VALUE"
  shows "\<exists>w' e. NPipeAccept m conn reg w = Some (w', e) \<and> np_step w m pc w' \<and>
     (accepts conn reg \<longrightarrow> e = 0 \<or> e = ERROR_IO_PENDING) \<and>
     (\<not> accepts conn reg \<longrightarrow> conn \<noteq> 0 \<and> (if conn = ERROR_IO_PENDING then reg = Inl e else e = conn))"
proof -
  have pc: "nw_pipes w m = Some pc" "np_nrefs pc = np_refs pc" "buf_ok (np_writer pc)" "np_channel pc \<noteq> None"
    using L by (auto simp: np_live_def np_sound_def)
  have n: "1 < np_nrefs pc + 1" using pc(2,4) by (simp add: np_refs_def)
  show ?thesis
  proof (cases "conn = 0 \<or> conn = ERROR_PIPE_CONNECTED")
    case True
    with pc show ?thesis by (auto simp: NPipeAccept_def Let_def accepts_def np_sound_writer intro!: np_stepI)
  next
    case f: False
    show ?thesis
    proof (cases "conn = ERROR_IO_PENDING")
      case False
      with f pc show ?thesis by (auto simp: NPipeAccept_def Let_def accepts_def np_sound_writer intro!: np_stepI)
    next
      case True
      show ?thesis
      proof (cases reg)
        case (Inr h)
        with True f pc w reg show ?thesis
          by (auto simp: NPipeAccept_def Let_def accepts_def Ref_eq np_sound_def np_refs_def intro!: np_stepI)
      next
        case (Inl e)
        with True f pc w n show ?thesis
          by (auto simp: NPipeAccept_def Let_def accepts_def Ref_eq NUnref_keeps np_sound_def np_refs_def intro!: np_stepI)
      qed
    qed
  qed
qed

lemma Unregister_ok:
  assumes G: "np_good L w" and L: "np_live w m pc" and t: "np_thread pc = Some t"
  shows "\<exists>w'. Tcl_UnregisterChannel t m s w = Some w' \<and> nw_pipes w' m = None"
proof -
  have pc: "nw_pipes w m = Some pc" "np_channel pc \<noteq> None" using L by (auto simp: np_live_def)
  from detach_ok [OF G pc(1) t pc(2)] obtain w1 where w1: "NPipeThreadActionProc t False m w = Some w1"
    "np_good (L(t := remove1 m (L t))) w1" "nw_pipes w1 m = Some (pc\<lparr>np_thread := None, np_nrefs := np_nrefs pc - 1\<rparr>)" by blast
  from np_close_ok [OF w1(2,3), of s] pc(2) obtain w2 where "NPipeCloseProc m s w1 = Some w2" "nw_pipes w2 m = None" by auto
  with w1(1) show ?thesis by (simp add: Tcl_UnregisterChannel_def)
qed

text \<open>The two commands.\<close>

lemma client_ok:
  assumes G: "np_good L w"
  shows "\<exists>w' r L'. Twapi_NPipeClientObjCmd t sec hp is_pipe sync er ew i s w = Some (w', r) \<and> np_good L' w'"
proof -
  define w1 where "w1 = GetNPipeTls t w"
  have G1: "np_good L w1" "nw_lists w1 t \<noteq> None" using GetNPipeTls_ok [OF G, of t] by (simp_all add: w1_def)
  show ?thesis
  proof (cases "sec \<and> is_pipe \<and> (\<exists>h. hp = Inr h)")
    case False
    with G1 show ?thesis by (auto simp: Twapi_NPipeClientObjCmd_def Let_def w1_def [symmetric] split: sum.splits)
  next
    case True
    then obtain h where h: "sec" "is_pipe" "hp = Inr h" by blast
    define m where "m = nw_next w1"
    from New_ok [OF G1(1)] obtain w2 pc where w2: "NPipeChannelNew w1 = (w2, m)" "np_good L w2" "np_bare w2 m pc"
      "nw_lists w2 = nw_lists w1" by (auto simp: m_def)
    have pc: "nw_pipes w2 m = Some pc" using w2(3) by (simp add: np_bare_def)
    let ?w2 = "upd_np m (pc\<lparr>np_hpipe := h\<rparr>) (w2\<lparr>nw_open := insert h (nw_open w2)\<rparr>)"
    have b: "np_bare ?w2 m (pc\<lparr>np_hpipe := h\<rparr>)" using w2(3) by (simp add: np_bare_def)
    have g: "np_good L ?w2" by (rule np_good_upd [OF w2(2) pc np_bare_sound [OF b] _ refl]) simp
    have l: "nw_lists ?w2 t \<noteq> None" using w2(4) G1(2) by simp
    from open_channel_ok [OF g b l, of sync er ew i] obtain w3 e where w3: "open_channel t m sync er ew i ?w2 = Some (w3, e)"
      "case e of Some x \<Rightarrow> \<exists>pc'. np_good L w3 \<and> np_bare w3 m pc' \<and> (sync = Inl x \<or> er = Inl x \<or> ew = Inl x)
       | None \<Rightarrow> \<exists>pc'. np_good (L(t := m # L t)) w3 \<and> np_live w3 m pc' \<and> np_thread pc' = Some t \<and>
         io_hwait (np_writer pc') = INVALID_HANDLE_VALUE \<and> (\<exists>h1 h2 h3. sync = Inr h1 \<and> er = Inr h2 \<and> ew = Inr h3)" by blast
    have eq: "Twapi_NPipeClientObjCmd t sec hp is_pipe sync er ew i s w = (case e of
                         Some e' \<Rightarrow> map_option (\<lambda>(w, _). (w, NpError e')) (open_failed m e' s w3)
                       | None \<Rightarrow> do {
                           pc3 \<leftarrow> nw_pipes w3 m;
                           Some (upd_np m (set_flag NPIPE_F_CONNECTED pc3) w3, NpChannel i) })"
      using h w2(1) pc w3(1) by (simp add: Twapi_NPipeClientObjCmd_def Let_def w1_def [symmetric])
    show ?thesis
    proof (cases e)
      case (Some x)
      then obtain pc' where "np_good L w3" "np_bare w3 m pc'" using w3(2) by auto
      from open_failed_ok [OF this, of x s] Some show ?thesis unfolding eq by auto
    next
      case None
      then obtain pc' where pc': "np_good (L(t := m # L t)) w3" "np_live w3 m pc'" using w3(2) by auto
      have "np_good (L(t := m # L t)) (upd_np m (set_flag NPIPE_F_CONNECTED pc') w3)"
        by (rule np_good_step [OF pc'(1), where m = m and pc = pc']) (use pc'(2) in \<open>auto simp: np_live_def intro!: np_stepI\<close>)
      with None pc'(2) show ?thesis unfolding eq np_live_def by auto
    qed
  qed
qed

text \<open>A server whose connection fails uses the pipe that the channel has freed.\<close>

lemma server_ok:
  assumes G: "np_good L w" and reg: "\<And>h. reg = Inr h \<Longrightarrow> h \<noteq> INVALID_HANDLE_VALUE"
  shows "if bad \<or> \<not> sec \<or> (\<exists>e. hp = Inl e \<or> sync = Inl e \<or> er = Inl e \<or> ew = Inl e) \<or> accepts conn reg
    then \<exists>w' r L'. Twapi_NPipeServerObjCmd t bad sec hp sync er ew i conn reg s w = Some (w', r) \<and> np_good L' w'
    else (if conn = ERROR_IO_PENDING then reg \<noteq> Inl 0 \<and> reg \<noteq> Inl ERROR_IO_PENDING else True) \<longrightarrow>
      Twapi_NPipeServerObjCmd t bad sec hp sync er ew i conn reg s w = None"
proof -
  define w1 where "w1 = GetNPipeTls t w"
  have G1: "np_good L w1" "nw_lists w1 t \<noteq> None" using GetNPipeTls_ok [OF G, of t] by (simp_all add: w1_def)
  define m where "m = nw_next w1"
  from New_ok [OF G1(1)] obtain w2 pc where w2: "NPipeChannelNew w1 = (w2, m)" "np_good L w2" "np_bare w2 m pc"
    "nw_lists w2 = nw_lists w1" by (auto simp: m_def)
  have pc: "nw_pipes w2 m = Some pc" using w2(3) by (simp add: np_bare_def)
  note unf = Twapi_NPipeServerObjCmd_def Let_def w1_def [symmetric]
  consider (no_pipe) "bad \<or> \<not> sec" | (no_handle) e where "\<not> bad" "sec" "hp = Inl e" | (opened) h where "\<not> bad" "sec" "hp = Inr h"
    by (cases hp) auto
  then show ?thesis
  proof cases
    case no_pipe
    with G1 w2 show ?thesis by (auto simp: unf)
  next
    case no_handle
    with open_failed_ok [OF w2(2,3), of e s] w2(1) show ?thesis by (auto simp: unf)
  next
    case opened
    let ?w2 = "upd_np m (pc\<lparr>np_hpipe := h\<rparr>) (w2\<lparr>nw_open := insert h (nw_open w2)\<rparr>)"
    have b: "np_bare ?w2 m (pc\<lparr>np_hpipe := h\<rparr>)" using w2(3) by (simp add: np_bare_def)
    have g: "np_good L ?w2" by (rule np_good_upd [OF w2(2) pc np_bare_sound [OF b] _ refl]) simp
    have l: "nw_lists ?w2 t \<noteq> None" using w2(4) G1(2) by simp
    from open_channel_ok [OF g b l, of sync er ew i] obtain w3 e where w3: "open_channel t m sync er ew i ?w2 = Some (w3, e)"
      "case e of Some x \<Rightarrow> \<exists>pc'. np_good L w3 \<and> np_bare w3 m pc' \<and> (sync = Inl x \<or> er = Inl x \<or> ew = Inl x)
       | None \<Rightarrow> \<exists>pc'. np_good (L(t := m # L t)) w3 \<and> np_live w3 m pc' \<and> np_thread pc' = Some t \<and>
         io_hwait (np_writer pc') = INVALID_HANDLE_VALUE \<and> (\<exists>h1 h2 h3. sync = Inr h1 \<and> er = Inr h2 \<and> ew = Inr h3)" by blast
    show ?thesis
    proof (cases e)
      case (Some x)
      then obtain pc' where pc': "np_good L w3" "np_bare w3 m pc'" "sync = Inl x \<or> er = Inl x \<or> ew = Inl x" using w3(2) by auto
      from open_failed_ok [OF pc'(1,2), of x s] opened w2(1) pc w3(1) Some pc'(3) show ?thesis by (auto simp: unf)
    next
      case None
      then obtain pc' where pc': "np_good (L(t := m # L t)) w3" "np_live w3 m pc'" "np_thread pc' = Some t"
        "io_hwait (np_writer pc') = INVALID_HANDLE_VALUE" "\<exists>h1 h2 h3. sync = Inr h1 \<and> er = Inr h2 \<and> ew = Inr h3" using w3(2) by auto
      from Accept_ok [OF pc'(2,4) reg, where conn = conn] obtain w4 x where w4: "NPipeAccept m conn reg w3 = Some (w4, x)"
        "np_step w3 m pc' w4" "accepts conn reg \<longrightarrow> x = 0 \<or> x = ERROR_IO_PENDING"
        "\<not> accepts conn reg \<longrightarrow> conn \<noteq> 0 \<and> (if conn = ERROR_IO_PENDING then reg = Inl x else x = conn)" by blast
      have G4: "np_good (L(t := m # L t)) w4" using np_good_step [OF pc'(1) _ w4(2)] pc'(2) by (simp add: np_live_def)
      have eq: "Twapi_NPipeServerObjCmd t bad sec hp sync er ew i conn reg s w =
          (if x = 0 \<or> x = ERROR_IO_PENDING then Some (w4, NpChannel i)
           else do {
             w5 \<leftarrow> Tcl_UnregisterChannel t m s w4;
             pc5 \<leftarrow> nw_pipes w5 m;
             map_option (\<lambda>(w, _). (w, NpError x)) (open_failed m x s (upd_np m (pc5\<lparr>np_channel := None\<rparr>) w5)) })"
        using opened w2(1) pc w3(1) None w4(1) by (simp add: unf)
      from np_step_live [OF pc'(2) w4(2)] pc'(3) obtain pc4 where pc4: "np_live w4 m pc4" "np_thread pc4 = Some t"
        by (auto simp: same_id_def)
      from Unregister_ok [OF G4 pc4, of s] obtain w5 where w5: "Tcl_UnregisterChannel t m s w4 = Some w5" "nw_pipes w5 m = None" by blast
      show ?thesis
      proof (cases "accepts conn reg")
        case True
        with eq w4(3) G4 show ?thesis by auto
      next
        case False
        have "Twapi_NPipeServerObjCmd t bad sec hp sync er ew i conn reg s w = None"
          if "if conn = ERROR_IO_PENDING then reg \<noteq> Inl 0 \<and> reg \<noteq> Inl ERROR_IO_PENDING else True"
        proof -
          have "x \<noteq> 0 \<and> x \<noteq> ERROR_IO_PENDING" using w4(4) False that by (auto split: if_splits)
          with eq w5 show ?thesis by simp
        qed
        moreover have "\<exists>w' r L'. Twapi_NPipeServerObjCmd t bad sec hp sync er ew i conn reg s w = Some (w', r) \<and> np_good L' w'"
          if "\<exists>e. hp = Inl e \<or> sync = Inl e \<or> er = Inl e \<or> ew = Inl e" using that opened pc'(5)
          by auto
        ultimately show ?thesis using False opened by simp
      qed
    qed
  qed
qed

end
