(* ===== verification/Npipe_Props.thy ===== *)
theory Npipe_Props
  imports Npipe_Steps
begin

text \<open>
  Named pipes under any interleaving of the channel driver, the event source and the thread pool,
  what a read and a write give, and the paths on which notifications, data or pipes are lost.
\<close>

section \<open>Steps\<close>

text \<open>
  One event of the program. Tcl calls the driver for open channels only, gives a channel to a thread
  when no thread has it, and closes a channel that has been taken from its thread. The pool runs
  a handler while the wait is registered. The handles of waits are not \<open>INVALID_HANDLE_VALUE\<close>.
\<close>

definition sys_ok :: "npsys \<Rightarrow> bool" where
  "sys_ok s \<longleftrightarrow> s_register s \<noteq> Some INVALID_HANDLE_VALUE"

inductive npstep :: "npw \<Rightarrow> npw \<Rightarrow> bool" where
  server: "reg \<noteq> Inr INVALID_HANDLE_VALUE \<Longrightarrow>
     bad \<or> \<not> sec \<or> (\<exists>e. hp = Inl e \<or> sync = Inl e \<or> er = Inl e \<or> ew = Inl e) \<or> accepts conn reg \<Longrightarrow>
     Twapi_NPipeServerObjCmd t bad sec hp sync er ew i conn reg s w = Some (w', r) \<Longrightarrow> npstep w w'"
| client: "Twapi_NPipeClientObjCmd t sec hp is_pipe sync er ew i s w = Some (w', r) \<Longrightarrow> npstep w w'"
| system: "nw_pipes w m = Some pc \<Longrightarrow>
     npstep w (upd_np m (set_io d (system_completes st b (np_io d pc)) pc) w)"
| pool: "nw_pipes w m = Some pc \<Longrightarrow> io_hwait (np_io d pc) \<noteq> INVALID_HANDLE_VALUE \<Longrightarrow>
     NPipeThreadPoolHandler d m w = Some w' \<Longrightarrow> npstep w w'"
| check: "NPipeCheckProc t True w = Some w' \<Longrightarrow> npstep w w'"
| event: "nw_events w = q @ (t, h) # q' \<Longrightarrow>
     NPipeEventProc t True h (w\<lparr>nw_events := q @ q'\<rparr>) = Some (w', True, note_it) \<Longrightarrow> npstep w w'"
| watch: "nw_pipes w m = Some pc \<Longrightarrow> np_channel pc \<noteq> None \<Longrightarrow> sys_ok s \<Longrightarrow>
     NPipeWatchProc m dirs s w = Some (w', now) \<Longrightarrow> npstep w w'"
| block: "nw_pipes w m = Some pc \<Longrightarrow> np_channel pc \<noteq> None \<Longrightarrow>
     NPipeBlockProc m nonblocking w = Some w' \<Longrightarrow> npstep w w'"
| recv: "nw_pipes w m = Some pc \<Longrightarrow> np_channel pc \<noteq> None \<Longrightarrow> sys_ok s \<Longrightarrow>
     NPipeInputProc m n s w = Some (w', res) \<Longrightarrow> npstep w w'"
| send: "nw_pipes w m = Some pc \<Longrightarrow> np_channel pc \<noteq> None \<Longrightarrow> wreg \<noteq> Some INVALID_HANDLE_VALUE \<Longrightarrow>
     length data \<le> actual \<Longrightarrow> NPipeOutputProc m data actual wr wreg ovl w = Some (w', ores, given) \<Longrightarrow> npstep w w'"
| attach: "nw_pipes w m = Some pc \<Longrightarrow> np_channel pc \<noteq> None \<Longrightarrow> np_thread pc = None \<Longrightarrow>
     NPipeThreadActionProc t True m w = Some w' \<Longrightarrow> npstep w w'"
| detach: "nw_pipes w m = Some pc \<Longrightarrow> np_channel pc \<noteq> None \<Longrightarrow> np_thread pc = Some t \<Longrightarrow>
     NPipeThreadActionProc t False m w = Some w' \<Longrightarrow> npstep w w'"
| close: "nw_pipes w m = Some pc \<Longrightarrow> np_channel pc \<noteq> None \<Longrightarrow> np_thread pc = None \<Longrightarrow>
     NPipeCloseProc m s w = Some w' \<Longrightarrow> npstep w w'"

text \<open>The module before the first pipe.\<close>

definition np_start :: npw where
  "np_start = \<lparr>nw_pipes = Map.empty, nw_links = (\<lambda>_. \<lparr>zl_prev = None, zl_next = None\<rparr>), nw_lists = Map.empty,
     nw_events = [], nw_open = {}, nw_freed = [], nw_next = 0\<rparr>"

definition np_reach :: "npw \<Rightarrow> bool" where
  "np_reach w \<longleftrightarrow> npstep\<^sup>*\<^sup>* np_start w"

lemma np_start_good: "np_good (\<lambda>_. []) np_start"
  by (simp add: np_good_def np_lists_ok_def np_pipe_ok_def np_start_def)

lemma np_good_live: "np_good L w \<Longrightarrow> nw_pipes w m = Some pc \<Longrightarrow> np_channel pc \<noteq> None \<Longrightarrow> np_live w m pc"
  using np_pipe_okD(2) by (simp add: np_live_def)

lemma np_good_events: "np_good L w \<Longrightarrow> np_good L (w\<lparr>nw_events := q\<rparr>)"
  by (simp add: np_good_def np_pipe_ok_def cong: option.case_cong) (auto intro: np_lists_ok_cong)

lemma system_ok:
  assumes "np_good L w" "nw_pipes w m = Some pc"
  shows "np_good L (upd_np m (set_io d (system_completes st b (np_io d pc)) pc) w)"
proof (rule np_good_step [OF assms np_stepI])
  show "np_sound (set_io d (system_completes st b (np_io d pc)) pc)"
    using np_pipe_okD(2) [OF assms] by (cases d) (simp_all add: np_sound_def np_refs_def)
  show "same_id pc (set_io d (system_completes st b (np_io d pc)) pc)" by (cases d) simp_all
qed

lemma npstep_ok: "npstep w w' \<Longrightarrow> np_good L w \<Longrightarrow> \<exists>L'. np_good L' w'"
proof (induction arbitrary: L rule: npstep.induct)
  case (server reg bad sec hp sync er ew conn t i s w w' r)
  have reg: "\<And>h. reg = Inr h \<Longrightarrow> h \<noteq> INVALID_HANDLE_VALUE" using server(1) by blast
  have "\<exists>w' r L'. Twapi_NPipeServerObjCmd t bad sec hp sync er ew i conn reg s w = Some (w', r) \<and> np_good L' w'"
    using server_ok [where reg = reg, OF server(4) reg, of bad sec hp sync er ew conn t i s] server(2) by (simp only: if_True)
  with server(3) show ?case by auto
next
  case (client t sec hp is_pipe sync er ew i s w w' r)
  from client_ok [OF client(2), of t sec hp is_pipe sync er ew i s] client(1) show ?case by auto
next
  case (system w m pc d st b)
  from system_ok [OF system(2,1)] show ?case by blast
next
  case (pool w m pc d w')
  from Handler_ok [OF pool(1) np_pipe_okD(2) [OF pool(4,1)], of d] pool(3) np_good_step [OF pool(4,1)] show ?case by auto
next
  case (check t w w')
  have "nw_lists w t \<noteq> None" using check(1) by (cases "nw_lists w t") (simp_all add: NPipeCheckProc_def)
  from CheckProc_ok [OF check(2) this] check(1) show ?case by auto
next
  case (event w q t h q' w' note_it)
  have "nw_lists (w\<lparr>nw_events := q @ q'\<rparr>) t \<noteq> None"
    using event(2) by (cases "nw_lists w t") (simp_all add: NPipeEventProc_def)
  from EventProc_ok [OF np_good_events [OF event(3)] this, of h] event(2) show ?case by auto
next
  case (watch w m pc s dirs w' now)
  from WatchProc_ok [OF np_good_live [OF watch(5,1,2)], of s dirs] watch(3,4) np_good_step [OF watch(5,1)]
  show ?case by (auto simp: sys_ok_def)
next
  case (block w m pc nonblocking w')
  from BlockProc_ok [OF np_good_live [OF block(4,1,2)], of nonblocking] block(3) np_good_step [OF block(4,1)]
  show ?case by auto
next
  case (recv w m pc s n w' res)
  from InputProc_ok [OF np_good_live [OF recv(5,1,2)], of s n] recv(3,4) np_good_step [OF recv(5,1)]
  show ?case by (auto simp: sys_ok_def)
next
  case (send w m pc wreg data actual wr ovl w' ores given)
  from OutputProc_ok [OF np_good_live [OF send(6,1,2)] send(3,4), of wr ovl] send(5) np_good_step [OF send(6,1)]
  show ?case by auto
next
  case (attach w m pc t w')
  have "nw_lists w t \<noteq> None"
    using attach(1,3,4) by (cases "nw_lists w t") (simp_all add: NPipeThreadActionProc_def NPipeChannelRef_def)
  from attach_ok [OF attach(5,1,3) this] attach(4) show ?case by auto
next
  case (detach w m pc t w')
  from detach_ok [OF detach(5,1,3,2)] detach(4) show ?case by auto
next
  case (close w m pc s w')
  from np_close_ok [OF close(5,1,3,2), of s] close(4) show ?case by auto
qed

lemma np_reach_good: "np_reach w \<Longrightarrow> \<exists>L. np_good L w"
  unfolding np_reach_def by (induction rule: rtranclp_induct) (use np_start_good npstep_ok in blast)+

section \<open>Properties\<close>

text \<open>
  C5. Under every interleaving the count of a pipe is exactly the number of its holders: the
  channel, the thread that lists it and the waits of the thread pool. The list of a thread holds
  exactly the pipes of that thread, and no pipe is freed twice or used after it was freed.
\<close>

theorem pipes_safe:
  assumes "np_reach w"
  shows "(\<forall>m pc. nw_pipes w m = Some pc \<longrightarrow>
      np_nrefs pc = of_bool (np_channel pc \<noteq> None) + of_bool (np_thread pc \<noteq> None) +
        of_bool (io_hwait (np_reader pc) \<noteq> INVALID_HANDLE_VALUE) + of_bool (io_hwait (np_writer pc) \<noteq> INVALID_HANDLE_VALUE)) \<and>
    (\<forall>t l. nw_lists w t = Some l \<longrightarrow> (\<exists>ms. zl_rep (nw_links w, l) ms \<and>
      set ms = {m. \<exists>pc. nw_pipes w m = Some pc \<and> np_thread pc = Some t})) \<and>
    (\<forall>m pc t. nw_pipes w m = Some pc \<and> np_thread pc = Some t \<longrightarrow> nw_lists w t \<noteq> None) \<and>
    distinct (nw_freed w) \<and> (\<forall>m \<in> set (nw_freed w). nw_pipes w m = None)"
proof -
  obtain L where G: "np_good L w" using np_reach_good [OF assms] by blast
  have 1: "np_nrefs pc = np_refs pc" if "nw_pipes w m = Some pc" for m pc
    using np_pipe_okD(2) [OF G that] by (simp add: np_sound_def)
  have 2: "set (L t) = {m. \<exists>pc. nw_pipes w m = Some pc \<and> np_thread pc = Some t}" for t
    using np_in_list [OF G] np_pipe_okD(1) [OF G] by blast
  have 3: "nw_lists w t \<noteq> None" if "nw_pipes w m = Some pc" "np_thread pc = Some t" for m pc t
    using np_has_list [OF G] np_pipe_okD(1) [OF G that(1)] that(2) by blast
  have 4: "nw_pipes w m = None" if "m \<in> set (nw_freed w)" for m
    using np_pipe_okD(4) [OF G, of m] that by (cases "nw_pipes w m") auto
  show ?thesis
    using 1 2 3 4 np_goodD(3) [OF G] np_list_rep [OF G] unfolding np_refs_def by blast
qed


text \<open>
  Closing a channel frees its pipe, exactly once, and closes all of its handles, whatever waits are
  registered and operations pending.
\<close>

theorem pipe_close_frees:
  assumes "np_reach w" "nw_pipes w m = Some pc" "np_channel pc \<noteq> None" "np_thread pc = Some t"
  shows "\<exists>w'. Tcl_UnregisterChannel t m s w = Some w' \<and> nw_pipes w' = (nw_pipes w)(m := None) \<and>
    nw_freed w' = m # nw_freed w \<and>
    nw_open w' = nw_open w - ((if np_hpipe pc \<noteq> INVALID_HANDLE_VALUE then {np_hpipe pc} else {}) \<union> set_option (np_hsync pc) \<union>
      set_option (io_hevent (np_reader pc)) \<union> set_option (io_hevent (np_writer pc)))"
proof -
  obtain L where G: "np_good L w" using np_reach_good [OF assms(1)] by blast
  from detach_ok [OF G assms(2,4,3)] obtain w1 where w1: "NPipeThreadActionProc t False m w = Some w1"
    "np_good (L(t := remove1 m (L t))) w1" "nw_pipes w1 m = Some (pc\<lparr>np_thread := None, np_nrefs := np_nrefs pc - 1\<rparr>)"
    "\<forall>k. k \<noteq> m \<longrightarrow> nw_pipes w1 k = nw_pipes w k" "nw_open w1 = nw_open w" "nw_freed w1 = nw_freed w" by blast
  from np_close_ok [OF w1(2,3), of s] assms(3) obtain w2 where w2: "NPipeCloseProc m s w1 = Some w2"
    "nw_pipes w2 = (nw_pipes w1)(m := None)" "nw_freed w2 = m # nw_freed w1"
    "nw_open w2 = nw_open w1 - np_handles (pc\<lparr>np_thread := None, np_nrefs := np_nrefs pc - 1\<rparr>)" by auto
  have "nw_pipes w2 = (nw_pipes w)(m := None)" using w2(2) w1(4) by auto
  with w1 w2 show ?thesis by (intro exI [of _ w2]) (auto simp: Tcl_UnregisterChannel_def np_handles_def)
qed

text \<open>
  C7. One round of the event source ends and queues exactly one event for each pipe of the thread that
  has something to report and no event queued, in the order of the list, although the loop moves
  these pipes to the front of the list it walks over. A second round queues nothing.
\<close>

theorem pipes_due_queued:
  assumes "np_reach w" "nw_lists w t = Some l" "zl_rep (nw_links w, l) ms"
  shows "\<exists>w' l'. NPipeCheckProc t True w = Some w' \<and>
    nw_events w' = nw_events w @ map (\<lambda>m. (t, the (hpipe_of w m))) (filter (due w) ms) \<and>
    nw_lists w' t = Some l' \<and> zl_rep (nw_links w', l') (rev (filter (due w) ms) @ filter (\<lambda>m. \<not> due w m) ms) \<and>
    (\<forall>m \<in> set ms. \<not> due w' m) \<and> NPipeCheckProc t True w' = Some w'"
proof -
  obtain L where G: "np_good L w" using np_reach_good [OF assms(1)] by blast
  have ms: "L t = ms" using np_list_rep [OF G assms(2)] assms(3) by (rule zl_rep_unique)
  let ?L = "L(t := rev (filter (due w) ms) @ filter (\<lambda>m. \<not> due w m) ms)"
  from CheckProc_ok [OF G, of t] assms(2) obtain w' where w': "NPipeCheckProc t True w = Some w'" "np_good ?L w'"
    "nw_events w' = nw_events w @ map (\<lambda>m. (t, the (hpipe_of w m))) (filter (due w) ms)"
    "\<And>m. nw_pipes w' m = (if m \<in> set ms \<and> due w m then map_option flagged (nw_pipes w m) else nw_pipes w m)"
    unfolding ms by auto
  have nd: "\<not> due w' m" if "m \<in> set ms" for m
    using that w'(4) [of m] by (auto simp: due_def flagged_def split: option.splits if_splits)
  have "nw_lists w' t \<noteq> None"
  proof
    assume no: "nw_lists w' t = None"
    then have "?L t = []" using np_listsD [OF w'(2), of t] by simp
    then have "ms = []" by (cases ms) (auto split: if_splits)
    then have "NPipeCheckProc t True w = Some w" using assms(2,3) zl_rep_head [OF assms(3)]
      by (simp add: NPipeCheckProc_def check_loop.simps)
    with w'(1) no assms(2) show False by simp
  qed
  then obtain l' where l': "nw_lists w' t = Some l'" by blast
  have rep: "zl_rep (nw_links w', l') (rev (filter (due w) ms) @ filter (\<lambda>m. \<not> due w m) ms)"
    using np_list_rep [OF w'(2) l'] by simp
  have "check_loop t (hdp ys None) w' = Some w'" if "rev (filter (due w) ms) @ filter (\<lambda>m. \<not> due w m) ms = pre @ ys" for pre ys
    using that
  proof (induction ys arbitrary: pre)
    case Nil
    show ?case by (simp add: check_loop.simps)
  next
    case (Cons m zs)
    have "m \<in> set (rev (filter (due w) ms) @ filter (\<lambda>m. \<not> due w m) ms)" using Cons.prems by simp
    then have m: "m \<in> set ms" "m \<in> set (?L t)" by auto
    obtain pc where pc: "nw_pipes w' m = Some pc" using np_in_list [OF w'(2) m(2)] by blast
    have "zl_next (nw_links w' m) = hdp zs None" using zl_next_rep rep Cons.prems by metis
    with Cons.IH [of "pre @ [m]"] Cons.prems pc nd [OF m(1)] show ?case
      by (subst check_loop.simps) (auto simp: due_def)
  qed
  from this [of "[]"] have "NPipeCheckProc t True w' = Some w'"
    using l' zl_rep_head [OF rep] by (simp add: NPipeCheckProc_def)
  with w' l' rep nd show ?thesis by blast
qed

section \<open>Reading\<close>

text \<open>The byte that was read ahead, and what the system gives to a read of at most \<open>k\<close> bytes.\<close>

definition np_buffered :: "npipe \<Rightarrow> octet list" where
  "np_buffered pc = (if io_state (np_reader pc) = IOBUF_IO_COMPLETED then [io_read_ahead (np_reader pc)] else [])"

definition sys_answer :: "npsys \<Rightarrow> bool \<Rightarrow> nat \<Rightarrow> nat + octet list" where
  "sys_answer s nonblocking k =
     (if k = 0 then Inr []
      else case s_peek s of
          Inl e \<Rightarrow> Inl e
        | Inr avail \<Rightarrow>
            if avail = 0 \<and> nonblocking then Inr []
            else case s_read s (min (max 1 avail) k) of
                Inr bs \<Rightarrow> Inr bs
              | Inl e \<Rightarrow> if e = ERROR_IO_PENDING then s_overlapped s else Inl e)"

definition eof_code :: "nat \<Rightarrow> bool" where
  "eof_code e \<longleftrightarrow> e = ERROR_HANDLE_EOF \<or> e = ERROR_BROKEN_PIPE \<or> e = STATUS_PIPE_BROKEN"

lemma ReadData_answer:
  assumes pc: "nw_pipes w m = Some pc" and st: "io_state (np_reader pc) \<noteq> IOBUF_IO_PENDING" "np_winerr pc = 0" "0 < n"
  shows "\<exists>w' pc'. (case sys_answer s (NPIPE_F_NONBLOCKING \<in> np_flags pc) (n - length (np_buffered pc)) of
      Inl e \<Rightarrow> NPipeReadData m n s w = Some (w', []) \<and> np_winerr pc' = e
    | Inr bs \<Rightarrow> NPipeReadData m n s w = Some (w', np_buffered pc @ bs) \<and> np_winerr pc' = 0) \<and>
    w' = upd_np m pc' w \<and> np_flags pc' = np_flags pc \<and> np_channel pc' = np_channel pc"
proof -
  let ?p = "if io_state (np_reader pc) = IOBUF_IO_COMPLETED
        then pc\<lparr>np_reader := (np_reader pc)\<lparr>io_state := IOBUF_IDLE\<rparr>\<rparr> else pc"
  let ?q = "?p\<lparr>np_reader := (np_reader ?p)\<lparr>io_internal := 0, io_ovl_event := None\<rparr>\<rparr>"
  have start: "(if io_state (np_reader pc) = IOBUF_IO_COMPLETED
        then (pc\<lparr>np_reader := (np_reader pc)\<lparr>io_state := IOBUF_IDLE\<rparr>\<rparr>, [io_read_ahead (np_reader pc)], n - 1)
        else (pc, [], n)) = (?p, np_buffered pc, n - length (np_buffered pc))"
    by (simp add: np_buffered_def)
  have p: "np_flags ?p = np_flags pc" "np_channel ?p = np_channel pc" "np_winerr ?p = 0" using st(2) by simp_all
  have mx: "(if avail = 0 then 1 else avail) = max 1 avail" for avail :: nat by (cases avail) simp_all
  define k where "k = n - length (np_buffered pc)"
  define P where "P = ?p"
  define Q where "Q = P\<lparr>np_reader := (np_reader P)\<lparr>io_internal := 0, io_ovl_event := None\<rparr>\<rparr>"
  have P: "np_flags P = np_flags pc" "np_channel P = np_channel pc" "np_winerr P = 0" using p by (simp_all add: P_def)
  have Q: "np_flags Q = np_flags pc" "np_channel Q = np_channel pc" "np_winerr Q = 0" using P by (simp_all add: Q_def)
  have eq: "NPipeReadData m n s w = (if k = 0 then Some (upd_np m P w, np_buffered pc)
     else (case s_peek s of
        Inl winerr \<Rightarrow> Some (upd_np m (P\<lparr>np_winerr := winerr\<rparr>) w, [])
      | Inr avail \<Rightarrow>
          if avail = 0 \<and> NPIPE_F_NONBLOCKING \<in> np_flags pc then Some (upd_np m P w, np_buffered pc)
          else (case s_read s (min (max 1 avail) k) of
                     Inr bytes \<Rightarrow> Some (upd_np m Q w, np_buffered pc @ bytes)
                   | Inl winerr \<Rightarrow>
                       if winerr \<noteq> ERROR_IO_PENDING
                       then Some (upd_np m (Q\<lparr>np_winerr := winerr\<rparr>) w, [])
                       else (case s_overlapped s of
                           Inl e \<Rightarrow> Some (upd_np m (Q\<lparr>np_winerr := e\<rparr>) w, [])
                         | Inr bytes \<Rightarrow> Some (upd_np m Q w, np_buffered pc @ bytes)))))"
    unfolding NPipeReadData_def pc bind.bind_lunit start Let_def prod.case mx k_def [symmetric] P_def [symmetric] Q_def [symmetric] P(1)
    by (rule refl)
  show ?thesis
    unfolding eq sys_answer_def k_def [symmetric] using P Q
    by (auto split: sum.splits)
qed

text \<open>
  A read of a connected pipe without error gives the byte that was read ahead and then what the
  system gives now, never more than was asked for; an error of the system is reported, or is the
  end of the file. When the system has no data for a pipe that does not block, the result is
  empty, which the channel layer takes for the end of the file; when it has an error, the byte
  that was read ahead is lost.
\<close>

theorem pipe_read_result:
  assumes "np_reach w" "nw_pipes w m = Some pc" "np_channel pc \<noteq> None" "NPIPE_CONNECTED pc" "np_winerr pc = 0"
    and "io_state (np_reader pc) \<in> {IOBUF_IDLE, IOBUF_IO_COMPLETED}" "0 < n" "sys_ok s"
    and answers: "\<And>k nb bs e. 0 < k \<Longrightarrow> (sys_answer s nb k = Inr bs \<longrightarrow> length bs \<le> k) \<and> (sys_answer s nb k = Inl e \<longrightarrow> e \<noteq> 0)"
  shows "\<exists>w' r. NPipeInputProc m n s w = Some (w', r) \<and>
    r = (case sys_answer s (NPIPE_F_NONBLOCKING \<in> np_flags pc) (n - length (np_buffered pc)) of
        Inr bs \<Rightarrow> Inr (np_buffered pc @ bs)
      | Inl e \<Rightarrow> if eof_code e then Inr [] else Inl e) \<and>
    (case r of Inr bs \<Rightarrow> length bs \<le> n | Inl e \<Rightarrow> e \<noteq> 0)"
proof -
  obtain L where G: "np_good L w" using np_reach_good [OF assms(1)] by blast
  let ?nb = "NPIPE_F_NONBLOCKING \<in> np_flags pc" and ?k = "n - length (np_buffered pc)"
  have st: "io_state (np_reader pc) \<noteq> IOBUF_IO_PENDING" "io_state (np_reader pc) \<noteq> IOBUF_IO_COMPLETED_WITH_ERROR"
    using assms(6) by auto
  have len: "length (np_buffered pc) \<le> n" using assms(7) by (simp add: np_buffered_def)
  have in_data: "NPipeInputProc m n s w = input_data m n s w"
    using assms(2,4,5) st by (simp add: NPipeInputProc_def upd_np_same)
  from ReadData_answer [OF assms(2) st(1) assms(5,7), of s] obtain w1 pc1 where
    w1: "case sys_answer s ?nb ?k of
      Inl e \<Rightarrow> NPipeReadData m n s w = Some (w1, []) \<and> np_winerr pc1 = e
    | Inr bs \<Rightarrow> NPipeReadData m n s w = Some (w1, np_buffered pc @ bs) \<and> np_winerr pc1 = 0"
    "w1 = upd_np m pc1 w" "np_flags pc1 = np_flags pc" "np_channel pc1 = np_channel pc" by blast
  show ?thesis
  proof (cases "sys_answer s ?nb ?k")
    case (Inl e)
    have "e \<noteq> 0" using answers [of ?k ?nb] Inl by (cases "?k = 0") (auto simp: sys_answer_def)
    moreover have "NPipeReadData m n s w = Some (w1, [])" "np_winerr pc1 = e" using w1(1) Inl by simp_all
    ultimately show ?thesis using w1(2) Inl
      by (simp add: in_data input_data_def input_error_def NPIPE_EOF_def eof_code_def)
  next
    case (Inr bs)
    have rd: "NPipeReadData m n s w = Some (w1, np_buffered pc @ bs)" "np_winerr pc1 = 0" using w1(1) Inr by simp_all
    from ReadData_ok [OF np_good_live [OF G assms(2,3)], of n s] rd(1) have "np_step w m pc w1" by auto
    from np_step_live [OF np_good_live [OF G assms(2,3)] this] have L1: "np_live w1 m pc1"
      using w1(2) by (auto simp: np_live_def)
    from WatchReads_ok [OF L1, of "s_register s" "s_read_watch s"] assms(8) obtain w2 where
      "NPipeWatchReads m (s_read_watch s) (s_register s) w1 = Some w2" by (auto simp: sys_ok_def)
    then have "\<exists>w'. input_data m n s w = Some (w', Inr (np_buffered pc @ bs))"
      using rd w1(2) by (simp add: input_data_def)
    moreover have "length (np_buffered pc @ bs) \<le> n"
    proof (cases "?k = 0")
      case True
      then show ?thesis using Inr len by (simp add: sys_answer_def)
    next
      case False
      then show ?thesis using answers [of ?k ?nb bs] Inr by simp
    qed
    ultimately show ?thesis using Inr by (auto simp: in_data)
  qed
qed

section \<open>Notification\<close>

lemma completed_read_notified:
  assumes G: "np_good L w" and pc: "nw_pipes w m = Some pc" "np_thread pc = Some t" "np_channel pc \<noteq> None"
    and st: "io_state (np_reader pc) = IOBUF_IO_COMPLETED" "io_state (np_writer pc) \<noteq> IOBUF_IO_COMPLETED_WITH_ERROR"
    and fl: "NPIPE_F_WATCHREAD \<in> np_flags pc" "NPIPE_F_EVENT_QUEUED \<notin> np_flags pc" "NPIPE_CONNECTED pc" "np_winerr pc = 0"
    and uniq: "\<forall>m' pc'. nw_pipes w m' = Some pc' \<and> np_thread pc' = Some t \<and> np_hpipe pc' = np_hpipe pc \<longrightarrow> m' = m"
  shows "NPipeSetupProc t True w = Some True \<and>
    (\<exists>w1 w2 dirs pc2. NPipeCheckProc t True w = Some w1 \<and> (t, np_hpipe pc) \<in> set (nw_events w1) \<and>
      NPipeEventProc t True (np_hpipe pc) w1 = Some (w2, True, Some (m, dirs)) \<and> TCL_READABLE \<in> dirs \<and>
      (\<exists>L2. np_good L2 w2) \<and> nw_pipes w2 m = Some pc2 \<and> np_reader pc2 = np_reader pc \<and> np_winerr pc2 = 0 \<and>
      np_flags pc2 = np_flags pc \<and> np_channel pc2 \<noteq> None)"
proof -
  have m: "m \<in> set (L t)" using np_pipe_okD(1) [OF G pc(1)] pc(2) by simp
  obtain l where l: "nw_lists w t = Some l" using np_has_list [OF G m] by blast
  have nt: "NPIPE_NOTIFIABLE pc" using st(1) by (simp add: NPIPE_NOTIFIABLE_def)
  have due: "due w m" using pc(1) nt fl(2) by (simp add: due_def)
  have ready: "NPipeSetupProc t True w = Some True" using SetupProc_ok [OF G l] m pc(1) nt by auto
  let ?L = "L(t := rev (filter (due w) (L t)) @ filter (\<lambda>x. \<not> due w x) (L t))"
  from CheckProc_ok [OF G, of t] l obtain w1 where w1: "NPipeCheckProc t True w = Some w1" "np_good ?L w1"
    "nw_events w1 = nw_events w @ map (\<lambda>m. (t, the (hpipe_of w m))) (filter (due w) (L t))"
    "\<And>m. nw_pipes w1 m = (if m \<in> set (L t) \<and> due w m then map_option flagged (nw_pipes w m) else nw_pipes w m)"
    by auto
  have pc1: "nw_pipes w1 m = Some (flagged pc)" using w1(4) [of m] m due pc(1) by simp
  have ev: "(t, np_hpipe pc) \<in> set (nw_events w1)" using w1(3) m due pc(1) by (force simp: hpipe_of_def)
  have m1: "m \<in> set (?L t)" using m due by simp
  have "\<exists>x \<in> set (?L t). hpipe_of w1 x = Some (np_hpipe pc)" using m1 pc1 by (intro bexI [of _ m]) (simp_all add: hpipe_of_def flagged_def)
  then obtain m' where m': "find (\<lambda>x. hpipe_of w1 x = Some (np_hpipe pc)) (?L t) = Some m'"
    by (cases "find (\<lambda>x. hpipe_of w1 x = Some (np_hpipe pc)) (?L t)") (auto simp: find_None_conv)
  have "m' = m"
  proof -
    have x: "m' \<in> set (?L t)" "hpipe_of w1 m' = Some (np_hpipe pc)" using find_Some_in [OF m'] by auto
    obtain p where p: "nw_pipes w m' = Some p" "np_thread p = Some t" using np_in_list [OF G, of m' t] x(1) by auto
    moreover have "np_hpipe p = np_hpipe pc" using x(2) w1(4) [of m'] p(1) by (auto simp: hpipe_of_def flagged_def split: if_splits)
    ultimately show ?thesis using uniq by blast
  qed
  have "nw_lists w1 t \<noteq> None" using np_has_list [OF w1(2) m1] by auto
  from EventProc_ok [OF w1(2) this, of "np_hpipe pc"] m' \<open>m' = m\<close> pc1 obtain w2 note_it where
    w2: "NPipeEventProc t True (np_hpipe pc) w1 = Some (w2, True, note_it)" "np_good ?L w2"
    "w2 = upd_np m (write_idle (fst (event_mask (event_errors (flagged pc))))) w1"
    "note_it = (if snd (event_mask (event_errors (flagged pc))) \<noteq> {} then Some (m, snd (event_mask (event_errors (flagged pc)))) else None)"
    by auto
  define q where "q = event_errors (flagged pc)"
  have q: "np_reader q = np_reader pc" "np_writer q = np_writer pc" "np_winerr q = 0" "np_channel q = np_channel pc"
    "np_flags q = np_flags pc" using st fl(2,4) by (auto simp: q_def event_errors_def flagged_def Let_def)
  have conn: "NPIPE_CONNECTED q" "\<not> NPIPE_EOF_NOTIFIABLE q"
    using fl(3) q(3,5) by (simp_all add: NPIPE_CONNECTED_def NPIPE_EOF_NOTIFIABLE_def NPIPE_EOF_def ERROR_HANDLE_EOF_def
        ERROR_BROKEN_PIPE_def STATUS_PIPE_BROKEN_def)
  have "NPIPE_READ_NOTIFIABLE q" using st(1) q(1) by (simp add: NPIPE_READ_NOTIFIABLE_def)
  then have rd_ev: "TCL_READABLE \<in> snd (event_mask q)" "fst (event_mask q) = q"
    using fl(1) q(5) conn by (simp_all add: event_mask_def Let_def)
  have "np_reader (write_idle q) = np_reader pc" "np_winerr (write_idle q) = 0" "np_flags (write_idle q) = np_flags pc"
    "np_channel (write_idle q) \<noteq> None"
    using q pc(3) by (simp_all add: write_idle_def)
  with ready w1(1) ev w2 rd_ev show ?thesis unfolding q_def [symmetric] by auto
qed

text \<open>Watching an idle pipe starts a read; its end and the handler leave the byte for the next read.\<close>

lemma watched_read_completes:
  assumes G: "np_good L w" and pc: "nw_pipes w m = Some pc" "np_channel pc \<noteq> None" "io_state (np_reader pc) = IOBUF_IDLE"
    "NPIPE_F_CONNECTED \<in> np_flags pc" "NPIPE_F_WATCHREAD \<notin> np_flags pc" "NPIPE_F_WATCHWRITE \<notin> np_flags pc"
    "np_winerr pc = 0" and s: "s_read_watch s = Inl ERROR_IO_PENDING" "s_register s = Some h" "h \<noteq> INVALID_HANDLE_VALUE"
  shows "\<exists>pc1 now pc2. NPipeWatchProc m {TCL_READABLE} s w = Some (upd_np m pc1 w, now) \<and>
    io_hwait (np_reader pc1) \<noteq> INVALID_HANDLE_VALUE \<and>
    NPipeThreadPoolHandler READER m (upd_np m (set_io READER (system_completes 0 b (np_io READER pc1)) pc1) w) = Some (upd_np m pc2 w) \<and>
    np_good L (upd_np m pc2 w) \<and> same_id pc pc2 \<and> np_writer pc2 = np_writer pc \<and> np_winerr pc2 = 0 \<and>
    np_flags pc2 = insert NPIPE_F_WATCHREAD (np_flags pc) \<and>
    io_state (np_reader pc2) = IOBUF_IO_COMPLETED \<and> io_read_ahead (np_reader pc2) = b"
proof -
  define rd where "rd = (np_reader pc)\<lparr>io_state := IOBUF_IO_PENDING, io_ovl_event := io_hevent (np_reader pc),
      io_internal := STATUS_PENDING\<rparr>"
  define pc1 where "pc1 = (if io_hwait (np_reader pc) = INVALID_HANDLE_VALUE
     then (set_flag NPIPE_F_WATCHREAD pc)\<lparr>np_nrefs := np_nrefs pc + 1, np_reader := rd\<lparr>io_hwait := h\<rparr>\<rparr>
     else (set_flag NPIPE_F_WATCHREAD pc)\<lparr>np_reader := rd\<rparr>)"
  define pc2 where "pc2 = pc1\<lparr>np_reader := (np_reader pc1)\<lparr>io_internal := 0, io_read_ahead := b, io_state := IOBUF_IO_COMPLETED\<rparr>\<rparr>"
  have "\<exists>now. NPipeWatchProc m {TCL_READABLE} s w = Some (upd_np m pc1 w, now)"
    using pc s(1,2)
    by (cases "io_hwait (np_reader pc) = INVALID_HANDLE_VALUE")
       (simp_all add: NPipeWatchProc_def NPipeWatchReads_def NPIPE_CONNECTED_def start_read_def register_wait_def Ref_eq
         Let_def pc1_def rd_def set_flag_def)
  then obtain now where w1: "NPipeWatchProc m {TCL_READABLE} s w = Some (upd_np m pc1 w, now)" by blast
  with WatchProc_ok [OF np_good_live [OF G pc(1,2)], of s "{TCL_READABLE}"] s(2,3)
  have "np_step w m pc (upd_np m pc1 w)" by auto
  then have G1: "np_good L (upd_np m pc1 w)" by (rule np_good_step [OF G pc(1)])
  have pend: "io_internal (np_reader pc1) = STATUS_PENDING" "io_state (np_reader pc1) = IOBUF_IO_PENDING"
    "io_hwait (np_reader pc1) \<noteq> INVALID_HANDLE_VALUE" using s(3) by (simp_all add: pc1_def rd_def)
  let ?x = "set_io READER (system_completes 0 b (np_io READER pc1)) pc1"
  have w2: "NPipeThreadPoolHandler READER m (upd_np m ?x w) = Some (upd_np m pc2 w)"
    using pend by (simp add: NPipeThreadPoolHandler_def pc2_def system_completes_def pool_io_def)
  have g: "np_good L (upd_np m ?x w)" using system_ok [OF G1, of m pc1 READER 0 b] by simp
  have x: "nw_pipes (upd_np m ?x w) m = Some ?x" by simp
  from Handler_ok [OF x np_pipe_okD(2) [OF g x], of READER] w2 have "np_step (upd_np m ?x w) m ?x (upd_np m pc2 w)" by auto
  then have "np_good L (upd_np m pc2 w)" by (rule np_good_step [OF g x])
  with w1 w2 pend(3) pc(4-7) show ?thesis
    by (intro exI [of _ pc1] exI [of _ now] exI [of _ pc2]) (simp add: pc1_def pc2_def same_id_def set_flag_def)
qed

lemma completed_read_gives:
  assumes G: "np_good L w" and pc: "nw_pipes w m = Some pc" "np_channel pc \<noteq> None" "NPIPE_CONNECTED pc" "np_winerr pc = 0"
    "io_state (np_reader pc) = IOBUF_IO_COMPLETED" and s: "sys_ok s" "0 < n"
    "sys_answer s (NPIPE_F_NONBLOCKING \<in> np_flags pc) (n - 1) = Inr rest"
  shows "\<exists>w'. NPipeInputProc m n s w = Some (w', Inr (io_read_ahead (np_reader pc) # rest))"
proof -
  have buf: "np_buffered pc = [io_read_ahead (np_reader pc)]" using pc(5) by (simp add: np_buffered_def)
  have no_pend: "io_state (np_reader pc) \<noteq> IOBUF_IO_PENDING" using pc(5) by simp
  from ReadData_answer [OF pc(1) no_pend pc(4) s(2), of s] buf s(3) obtain w5 pc5 where
    r: "NPipeReadData m n s w = Some (w5, io_read_ahead (np_reader pc) # rest)" "np_winerr pc5 = 0" "w5 = upd_np m pc5 w"
    "np_flags pc5 = np_flags pc" by auto
  note L = np_good_live [OF G pc(1,2)]
  from ReadData_ok [OF L, of n s] r(1) have "np_step w m pc w5" by auto
  from np_step_live [OF L this] r(3) have "np_live w5 m pc5" by (auto simp: np_live_def)
  from WatchReads_ok [OF this, of "s_register s" "s_read_watch s"] s(1) obtain w6 where
    "NPipeWatchReads m (s_read_watch s) (s_register s) w5 = Some w6" by (auto simp: sys_ok_def)
  with pc r show ?thesis by (simp add: NPipeInputProc_def input_data_def upd_np_same)
qed

text \<open>
  C10. Data that arrives on a connected pipe reaches the script: when a channel that is not watched
  comes to be watched for reading while no read is going on, no event is queued and no error is noted, and the
  channel stays with its thread, then after the read started by the watch ends with a byte, the
  event source reports that it is ready and queues an event, the event handler notifies the
  channel as readable, and the next read of any size gives that byte and then what the system
  has. No other pipe of the thread has the same handle.
\<close>

theorem data_reaches_script:
  assumes "np_reach w" "nw_pipes w m = Some pc" "np_thread pc = Some t" "np_channel pc \<noteq> None"
    and "io_state (np_reader pc) = IOBUF_IDLE" "io_state (np_writer pc) \<noteq> IOBUF_IO_COMPLETED_WITH_ERROR"
    and "NPIPE_F_CONNECTED \<in> np_flags pc" "NPIPE_F_WATCHREAD \<notin> np_flags pc" "NPIPE_F_WATCHWRITE \<notin> np_flags pc"
    and "NPIPE_F_EVENT_QUEUED \<notin> np_flags pc" "np_winerr pc = 0"
    and "\<forall>m' pc'. nw_pipes w m' = Some pc' \<and> np_thread pc' = Some t \<and> np_hpipe pc' = np_hpipe pc \<longrightarrow> m' = m"
    and "s_read_watch s = Inl ERROR_IO_PENDING" "s_register s = Some h" "h \<noteq> INVALID_HANDLE_VALUE"
    and "sys_ok s'" "0 < n" "sys_answer s' (NPIPE_F_NONBLOCKING \<in> np_flags pc) (n - 1) = Inr rest"
  shows "\<exists>w1 now pc1 w2 w3 w4 dirs w5. NPipeWatchProc m {TCL_READABLE} s w = Some (w1, now) \<and>
    nw_pipes w1 m = Some pc1 \<and> io_hwait (np_reader pc1) \<noteq> INVALID_HANDLE_VALUE \<and>
    NPipeThreadPoolHandler READER m (upd_np m (set_io READER (system_completes 0 b (np_io READER pc1)) pc1) w1) = Some w2 \<and>
    NPipeSetupProc t True w2 = Some True \<and> NPipeCheckProc t True w2 = Some w3 \<and> (t, np_hpipe pc) \<in> set (nw_events w3) \<and>
    NPipeEventProc t True (np_hpipe pc) w3 = Some (w4, True, Some (m, dirs)) \<and> TCL_READABLE \<in> dirs \<and>
    NPipeInputProc m n s' w4 = Some (w5, Inr (b # rest))"
proof -
  obtain L where G: "np_good L w" using np_reach_good [OF assms(1)] by blast
  from watched_read_completes [OF G assms(2,4,5,7,8,9,11,13-15), of b] obtain pc1 now pc2 where
    w1: "NPipeWatchProc m {TCL_READABLE} s w = Some (upd_np m pc1 w, now)" "io_hwait (np_reader pc1) \<noteq> INVALID_HANDLE_VALUE"
    and w2: "NPipeThreadPoolHandler READER m (upd_np m (set_io READER (system_completes 0 b (np_io READER pc1)) pc1) w) = Some (upd_np m pc2 w)"
    and G2: "np_good L (upd_np m pc2 w)" and id: "same_id pc pc2" "np_writer pc2 = np_writer pc" "np_winerr pc2 = 0"
      "np_flags pc2 = insert NPIPE_F_WATCHREAD (np_flags pc)"
    and st: "io_state (np_reader pc2) = IOBUF_IO_COMPLETED" "io_read_ahead (np_reader pc2) = b" by blast
  let ?w2 = "upd_np m pc2 w"
  have p2: "nw_pipes ?w2 m = Some pc2" "np_thread pc2 = Some t" "np_channel pc2 \<noteq> None" "np_hpipe pc2 = np_hpipe pc"
    "io_state (np_writer pc2) \<noteq> IOBUF_IO_COMPLETED_WITH_ERROR"
    "NPIPE_F_WATCHREAD \<in> np_flags pc2" "NPIPE_F_EVENT_QUEUED \<notin> np_flags pc2" "NPIPE_CONNECTED pc2"
    using assms(3,4,6,7,10) id by (simp_all add: same_id_def NPIPE_CONNECTED_def)
  have uniq: "\<forall>m' p'. nw_pipes ?w2 m' = Some p' \<and> np_thread p' = Some t \<and> np_hpipe p' = np_hpipe pc2 \<longrightarrow> m' = m"
    using assms(12) p2(4) by auto
  from completed_read_notified [OF G2 p2(1-3) st(1) p2(5-8) id(3) uniq] obtain w3 w4 dirs pc4 L4 where
    e: "NPipeSetupProc t True ?w2 = Some True" "NPipeCheckProc t True ?w2 = Some w3" "(t, np_hpipe pc) \<in> set (nw_events w3)"
    "NPipeEventProc t True (np_hpipe pc) w3 = Some (w4, True, Some (m, dirs))" "TCL_READABLE \<in> dirs" "np_good L4 w4"
    "nw_pipes w4 m = Some pc4" "np_reader pc4 = np_reader pc2" "np_winerr pc4 = 0" "np_flags pc4 = np_flags pc2" "np_channel pc4 \<noteq> None"
    unfolding p2(4) by (elim conjE exE) (rule that; assumption)
  have c4: "NPIPE_CONNECTED pc4" "io_state (np_reader pc4) = IOBUF_IO_COMPLETED"
    using p2(8) e(8,10) st(1) by (simp_all add: NPIPE_CONNECTED_def)
  have "sys_answer s' (NPIPE_F_NONBLOCKING \<in> np_flags pc4) (n - 1) = Inr rest" using assms(18) e(10) id(4) by simp
  from completed_read_gives [OF e(6,7,11) c4(1) e(9) c4(2) assms(16,17) this] e(8) st(2)
  have "\<exists>w'. NPipeInputProc m n s' w4 = Some (w', Inr (b # rest))" by simp
  with w1 w2 e(1-5) show ?thesis by (auto simp del: set_io_def)
qed

section \<open>Lost connections, events and data\<close>

text \<open>
  When the connection of a new server pipe fails after its channel was made, the command closes
  the channel, which frees the pipe, and then still uses it.
\<close>

theorem server_accept_failure:
  assumes "np_reach w" "sec" "hp = Inr h" "sync = Inr h1" "er = Inr h2" "ew = Inr h3"
    and "conn \<noteq> 0" "conn \<noteq> ERROR_PIPE_CONNECTED"
    and "conn = ERROR_IO_PENDING \<Longrightarrow> reg = Inl e \<and> e \<noteq> 0 \<and> e \<noteq> ERROR_IO_PENDING"
  shows "Twapi_NPipeServerObjCmd t False sec hp sync er ew i conn reg s w = None"
proof -
  obtain L where G: "np_good L w" using np_reach_good [OF assms(1)] by blast
  define reg' where "reg' = (if conn = ERROR_IO_PENDING then reg else Inl 0)"
  have reg': "\<And>h. reg' = Inr h \<Longrightarrow> h \<noteq> INVALID_HANDLE_VALUE" using assms(9) by (auto simp: reg'_def split: if_splits)
  have "\<not> accepts conn reg'" using assms(7-9) by (auto simp: accepts_def reg'_def)
  then have none: "Twapi_NPipeServerObjCmd t False sec hp sync er ew i conn reg' s w = None"
    using server_ok [where reg = reg', OF G reg', of False sec hp sync er ew conn t i s] assms(2-9)
    by (auto simp: reg'_def)
  have same: "NPipeAccept m conn reg' w' = NPipeAccept m conn reg w'" for m w'
    using assms(7,8) by (simp add: NPipeAccept_def reg'_def Let_def cong: option.case_cong)
  from none show ?thesis unfolding Twapi_NPipeServerObjCmd_def same .
qed

lemma DisableWatch_off:
  assumes L: "np_live w m pc"
  shows "\<exists>pc'. NPipeDisableWatch m d during w = Some (upd_np m pc' w) \<and> np_live (upd_np m pc' w) m pc' \<and>
    io_hwait (np_io d pc') = INVALID_HANDLE_VALUE \<and> np_flags pc' = np_flags pc \<and>
    (\<forall>d'. d' \<noteq> d \<longrightarrow> np_io d' pc' = np_io d' pc) \<and> (during = None \<longrightarrow> io_state (np_io d pc') = io_state (np_io d pc))"
proof (cases "io_hwait (np_io d pc) = INVALID_HANDLE_VALUE")
  case True
  with L show ?thesis by (intro exI [of _ pc]) (simp add: NPipeDisableWatch_def np_live_def upd_np_same)
next
  case False
  have pc: "nw_pipes w m = Some pc" "np_sound pc" "np_channel pc \<noteq> None" using L by (auto simp: np_live_def)
  have "1 < np_nrefs pc" using False pc(2,3) by (cases d) (auto simp: np_sound_def np_refs_def)
  define q where "q = UnregisterWaitEx d during pc"
  define pc' where "pc' = (set_io d ((np_io d q)\<lparr>io_hwait := INVALID_HANDLE_VALUE\<rparr>) q)\<lparr>np_nrefs := np_nrefs pc - 1\<rparr>"
  have eq: "NPipeDisableWatch m d during w = Some (upd_np m pc' w)"
    using False pc(1) \<open>1 < np_nrefs pc\<close> by (cases d) (simp_all add: NPipeDisableWatch_def Let_def NUnref_keeps pc'_def q_def)
  have frame: "np_io d' q = np_io d' pc" if "d' \<noteq> d" for d'
    using that by (cases d; cases d') (auto simp: q_def UnregisterWaitEx_def split: option.splits)
  have "np_io d' pc' = np_io d' pc" if "d' \<noteq> d" for d'
    using that frame [OF that] by (cases d; cases d') (simp_all add: pc'_def)
  moreover have "during = None \<longrightarrow> io_state (np_io d pc') = io_state (np_io d pc)"
    by (cases d) (simp_all add: pc'_def q_def UnregisterWaitEx_def)
  moreover have "io_hwait (np_io d pc') = INVALID_HANDLE_VALUE" "np_flags pc' = np_flags pc"
    by (cases d; simp add: pc'_def q_def)+
  moreover have "np_live (upd_np m pc' w) m pc'"
  proof -
    have "np_step w m pc (upd_np m pc' w)" using DisableWatch_ok [OF L, of d during] eq by simp
    from np_step_live [OF L this] show ?thesis by (auto simp: np_live_def)
  qed
  ultimately show ?thesis using eq by blast
qed

text \<open>
  A blocking server pipe that waits for a client loses its connection when the script stops watching
  the channel for writing: the only wait is unregistered, the writer stays pending, and as long as
  the pipe is not connected watching it again does not register a wait.
\<close>

theorem watch_off_loses_connection:
  assumes "np_reach w" "nw_pipes w m = Some pc" "np_channel pc \<noteq> None" "\<not> NPIPE_CONNECTED pc"
    and "NPIPE_F_WATCHWRITE \<in> np_flags pc" "NPIPE_F_NONBLOCKING \<notin> np_flags pc"
    and "io_state (np_writer pc) = IOBUF_IO_PENDING" "s_during_write s = None"
  shows "\<exists>w1 now pc1. NPipeWatchProc m {} s w = Some (w1, now) \<and> nw_pipes w1 m = Some pc1 \<and>
    io_hwait (np_writer pc1) = INVALID_HANDLE_VALUE \<and> io_state (np_writer pc1) = IOBUF_IO_PENDING \<and>
    (\<forall>s'. \<exists>w2 now2 pc2. NPipeWatchProc m {TCL_READABLE, TCL_WRITABLE} s' w1 = Some (w2, now2) \<and> nw_pipes w2 m = Some pc2 \<and>
      io_hwait (np_writer pc2) = INVALID_HANDLE_VALUE \<and> io_hwait (np_reader pc2) = INVALID_HANDLE_VALUE \<and>
      io_state (np_writer pc2) = IOBUF_IO_PENDING \<and> \<not> NPIPE_CONNECTED pc2)"
proof -
  obtain L where G: "np_good L w" using np_reach_good [OF assms(1)] by blast
  let ?p = "clear_flag NPIPE_F_WATCHREAD pc"
  have live: "np_live (upd_np m ?p w) m ?p"
    by (rule np_live_upd [OF np_good_live [OF G assms(2,3)]]) (use np_pipe_okD(2) [OF G assms(2)] in simp_all)
  from DisableWatch_off [OF live, of READER "s_during_read s"] obtain p1 where
    p1: "NPipeDisableWatch m READER (s_during_read s) (upd_np m ?p w) = Some (upd_np m p1 w)" "np_live (upd_np m p1 w) m p1"
    "io_hwait (np_reader p1) = INVALID_HANDLE_VALUE" "np_flags p1 = np_flags pc - {NPIPE_F_WATCHREAD}"
    "np_writer p1 = np_writer pc" by (auto dest: spec [of _ WRITER])
  let ?q = "clear_flag NPIPE_F_WATCHWRITE p1"
  have liveq: "np_live (upd_np m ?q w) m ?q"
    using p1(2) by (simp add: np_live_def)
  from DisableWatch_off [OF liveq, of WRITER None] obtain p2 where
    p2: "NPipeDisableWatch m WRITER None (upd_np m ?q w) = Some (upd_np m p2 w)"
    "io_hwait (np_writer p2) = INVALID_HANDLE_VALUE" "np_flags p2 = np_flags p1 - {NPIPE_F_WATCHWRITE}"
    "np_reader p2 = np_reader p1" "io_state (np_writer p2) = io_state (np_writer p1)" by (auto dest: spec [of _ READER])
  have off: "NPipeWatchProc m {} s w = Some (upd_np m p2 w, False)"
    using assms(2,5,6,8) p1 p2 by (simp add: NPipeWatchProc_def Let_def)
  have "\<exists>w2 now2 pc2. NPipeWatchProc m {TCL_READABLE, TCL_WRITABLE} s' (upd_np m p2 w) = Some (w2, now2) \<and> nw_pipes w2 m = Some pc2 \<and>
      io_hwait (np_writer pc2) = INVALID_HANDLE_VALUE \<and> io_hwait (np_reader pc2) = INVALID_HANDLE_VALUE \<and>
      io_state (np_writer pc2) = IOBUF_IO_PENDING \<and> \<not> NPIPE_CONNECTED pc2" for s'
    using assms(4,7) p1 p2 by (simp add: NPipeWatchProc_def NPIPE_CONNECTED_def Let_def)
  with off p1 p2 assms(7) show ?thesis
    by (intro exI [of _ "upd_np m p2 w"] exI [of _ False] exI [of _ p2]) simp
qed

text \<open>A pipe without a thread whose event is queued, once it is given to a thread.\<close>

lemma moved_pipe:
  assumes G: "np_good L w1" and p: "nw_pipes w1 m = Some p" "np_thread p = None" and l: "nw_lists w1 t' \<noteq> None"
    and q: "NPIPE_F_EVENT_QUEUED \<in> np_flags p" "NPIPE_NOTIFIABLE p"
    and uniq: "\<forall>m' p'. nw_pipes w1 m' = Some p' \<and> np_hpipe p' = np_hpipe p \<longrightarrow> m' = m"
  shows "\<exists>w2 w3 evs. NPipeThreadActionProc t' True m w1 = Some w2 \<and>
      NPipeSetupProc t' True w2 = Some True \<and> NPipeCheckProc t' True w2 = Some w3 \<and>
      nw_events w3 = nw_events w2 @ evs \<and> (t', np_hpipe p) \<notin> set evs \<and>
      nw_pipes w3 m = Some (p\<lparr>np_thread := Some t', np_nrefs := np_nrefs p + 1\<rparr>)"
proof -
  define M where "M = L(t' := m # L t')"
  let ?q = "p\<lparr>np_thread := Some t', np_nrefs := np_nrefs p + 1\<rparr>"
  from attach_ok [OF G p l] obtain w2 where w2: "NPipeThreadActionProc t' True m w1 = Some w2" "np_good M w2"
    "nw_pipes w2 m = Some ?q" "\<forall>k. k \<noteq> m \<longrightarrow> nw_pipes w2 k = nw_pipes w1 k" by (auto simp: M_def)
  have m: "m \<in> set (M t')" by (simp add: M_def)
  obtain l2 where l2: "nw_lists w2 t' = Some l2" using np_has_list [OF w2(2) m] by blast
  have "NPIPE_NOTIFIABLE ?q" using q(2)
    by (simp add: NPIPE_NOTIFIABLE_def NPIPE_EOF_NOTIFIABLE_def NPIPE_EOF_def NPIPE_CONNECTED_def)
  then have wake: "NPipeSetupProc t' True w2 = Some True" using SetupProc_ok [OF w2(2) l2] m w2(3) by auto
  have nd: "\<not> due w2 m" using w2(3) q(1) by (simp add: due_def)
  define evs where "evs = map (\<lambda>m. (t', the (hpipe_of w2 m))) (filter (due w2) (M t'))"
  from CheckProc_ok [OF w2(2), of t'] l2 obtain w3 where w3: "NPipeCheckProc t' True w2 = Some w3"
    "nw_events w3 = nw_events w2 @ evs" "nw_pipes w3 m = nw_pipes w2 m" using nd by (auto simp: evs_def)
  have "(t', np_hpipe p) \<notin> set evs"
  proof
    assume "(t', np_hpipe p) \<in> set evs"
    then obtain x where x: "x \<in> set (M t')" "due w2 x" "np_hpipe p = the (hpipe_of w2 x)" by (auto simp: evs_def)
    then obtain p' where p': "nw_pipes w2 x = Some p'" "np_hpipe p' = np_hpipe p"
      using np_in_list [OF w2(2) x(1)] by (auto simp: hpipe_of_def)
    have "x \<noteq> m" using x(2) nd by blast
    with p' w2(4) uniq show False by auto
  qed
  moreover have "nw_pipes w3 m = Some ?q" using w3(3) w2(3) by simp
  ultimately show ?thesis using w2(1) wake w3(1,2)
    by - (rule exI [of _ w2], rule exI [of _ w3], rule exI, intro conjI, assumption+)
qed

text \<open>
  Moving a channel between threads loses notifications. An event that was queued before the channel
  was taken from its thread does nothing when it is handled, but the pipe keeps the mark that an
  event is queued, and the event source of its new thread, which is told to run in every round,
  never queues one. A thread that has not used a pipe yet has no list, and the move has no result.
\<close>

theorem transfer_loses_events:
  assumes "np_reach w" "nw_pipes w m = Some pc" "np_channel pc \<noteq> None" "np_thread pc = Some t" "t' \<noteq> t"
    and "NPIPE_F_EVENT_QUEUED \<in> np_flags pc" "NPIPE_NOTIFIABLE pc" "nw_lists w t \<noteq> None"
    and uniq: "\<forall>m' pc'. nw_pipes w m' = Some pc' \<and> np_hpipe pc' = np_hpipe pc \<longrightarrow> m' = m"
  shows "\<exists>w1. NPipeThreadActionProc t False m w = Some w1 \<and>
    NPipeEventProc t True (np_hpipe pc) w1 = Some (w1, True, None) \<and>
    (nw_lists w t' = None \<longrightarrow> NPipeThreadActionProc t' True m w1 = None) \<and>
    (nw_lists w t' \<noteq> None \<longrightarrow> (\<exists>w2 w3 evs. NPipeThreadActionProc t' True m w1 = Some w2 \<and>
      NPipeSetupProc t' True w2 = Some True \<and> NPipeCheckProc t' True w2 = Some w3 \<and>
      nw_events w3 = nw_events w2 @ evs \<and> (t', np_hpipe pc) \<notin> set evs \<and>
      nw_pipes w3 m = Some (pc\<lparr>np_thread := Some t'\<rparr>)))"
proof -
  obtain L where G: "np_good L w" using np_reach_good [OF assms(1)] by blast
  let ?p = "pc\<lparr>np_thread := None, np_nrefs := np_nrefs pc - 1\<rparr>"
  from detach_ok [OF G assms(2,4,3)] obtain w1 where w1: "NPipeThreadActionProc t False m w = Some w1"
    "np_good (L(t := remove1 m (L t))) w1" "nw_pipes w1 m = Some ?p"
    "\<forall>k. k \<noteq> m \<longrightarrow> nw_pipes w1 k = nw_pipes w k" "\<And>t'. nw_lists w1 t' = None \<longleftrightarrow> nw_lists w t' = None" by blast
  let ?L = "L(t := remove1 m (L t))"
  have single: "m' = m" if "nw_pipes w1 m' = Some p" "np_hpipe p = np_hpipe pc" for m' p
    using that w1(4) uniq by (cases "m' = m") auto
  have "find (\<lambda>x. hpipe_of w1 x = Some (np_hpipe pc)) (?L t) = None"
    unfolding find_None_iff
  proof
    assume "\<exists>x. x \<in> set (?L t) \<and> hpipe_of w1 x = Some (np_hpipe pc)"
    then obtain x p where x: "x \<in> set (?L t)" "nw_pipes w1 x = Some p" "np_thread p = Some t" "np_hpipe p = np_hpipe pc"
      using np_in_list [OF w1(2)] by (fastforce simp: hpipe_of_def)
    with single w1(3) show False by fastforce
  qed
  with EventProc_ok [OF w1(2), of t "np_hpipe pc"] assms(8) w1(5) have
    ev: "NPipeEventProc t True (np_hpipe pc) w1 = Some (w1, True, None)" by auto
  have none: "NPipeThreadActionProc t' True m w1 = None" if "nw_lists w t' = None"
    using that w1(3) w1(5) [of t'] by (simp add: NPipeThreadActionProc_def Ref_eq)
  have rest: "\<exists>w2 w3 evs. NPipeThreadActionProc t' True m w1 = Some w2 \<and>
      NPipeSetupProc t' True w2 = Some True \<and> NPipeCheckProc t' True w2 = Some w3 \<and>
      nw_events w3 = nw_events w2 @ evs \<and> (t', np_hpipe pc) \<notin> set evs \<and>
      nw_pipes w3 m = Some (pc\<lparr>np_thread := Some t'\<rparr>)" if l: "nw_lists w t' \<noteq> None"
  proof -
    have "nw_lists w1 t' \<noteq> None" using l w1(5) [of t'] by simp
    moreover have "NPIPE_NOTIFIABLE ?p" using assms(7)
      by (simp add: NPIPE_NOTIFIABLE_def NPIPE_EOF_NOTIFIABLE_def NPIPE_EOF_def NPIPE_CONNECTED_def)
    moreover have "\<forall>m' p'. nw_pipes w1 m' = Some p' \<and> np_hpipe p' = np_hpipe ?p \<longrightarrow> m' = m" using single by simp
    ultimately show ?thesis using moved_pipe [OF w1(2,3), of t'] assms(6) by simp
  qed
  show ?thesis by (rule exI [of _ w1], intro conjI impI) (fact w1(1), fact ev, erule none, erule rest)
qed

text \<open>
  The handler of the thread pool can run late, for an operation whose end the program has seen
  already; if a new write is under way then, the handler takes it for a failed one, although the
  system has not finished it, and the channel gets the error \<open>STATUS_PENDING\<close>.
\<close>

theorem late_callback:
  assumes "np_reach w" "nw_pipes w m = Some pc" "np_channel pc \<noteq> None" "NPIPE_CONNECTED pc" "np_winerr pc = 0"
    and "NPIPE_F_NONBLOCKING \<in> np_flags pc" "io_state (np_writer pc) = IOBUF_IDLE"
    and "io_hwait (np_writer pc) \<noteq> INVALID_HANDLE_VALUE" "length data \<le> actual"
  shows "\<exists>w1 w2 pc2 w3. NPipeOutputProc m data actual ERROR_IO_PENDING reg ovl w = Some (w1, Inr (length data), data) \<and>
    NPipeThreadPoolHandler WRITER m w1 = Some w2 \<and> nw_pipes w2 m = Some pc2 \<and>
    io_internal (np_writer pc2) = STATUS_PENDING \<and> io_state (np_writer pc2) = IOBUF_IO_COMPLETED_WITH_ERROR \<and>
    NPipeOutputProc m data actual wr reg ovl w2 = Some (w3, Inl STATUS_PENDING, [])"
proof -
  obtain L where G: "np_good L w" using np_reach_good [OF assms(1)] by blast
  let ?io = "(np_writer pc)\<lparr>io_internal := 0, io_ovl_event := io_hevent (np_writer pc)\<rparr>"
  have "buf_ok ?io" using np_pipe_okD(2) [OF G assms(2)] by (simp add: np_sound_def)
  from fill_buf_ok [OF this assms(9)] obtain io where io: "fill_buf data actual ?io = Some io" "io_hwait io = io_hwait (np_writer pc)" by auto
  let ?io1 = "io\<lparr>io_state := IOBUF_IO_PENDING, io_internal := STATUS_PENDING\<rparr>"
  let ?pc = "pc\<lparr>np_writer := ?io1\<rparr>"
  have send: "NPipeOutputProc m data actual ERROR_IO_PENDING reg ovl w = Some (upd_np m ?pc w, Inr (length data), data)"
    using assms(2,4-8) io by (simp add: NPipeOutputProc_def Let_def register_wait_def ERROR_IO_PENDING_def)
  let ?pc2 = "pc\<lparr>np_writer := ?io1\<lparr>io_state := IOBUF_IO_COMPLETED_WITH_ERROR\<rparr>\<rparr>"
  have handler: "NPipeThreadPoolHandler WRITER m (upd_np m ?pc w) = Some (upd_np m ?pc2 w)"
    by (simp add: NPipeThreadPoolHandler_def pool_io_def STATUS_PENDING_def)
  obtain w3 where "NPipeOutputProc m data actual wr reg ovl (upd_np m ?pc2 w) = Some (w3, Inl STATUS_PENDING, [])"
    using assms(4,5) by (simp add: NPipeOutputProc_def Let_def SET_NPIPE_ERROR_def NPIPE_CONNECTED_def STATUS_PENDING_def)
  with send handler show ?thesis
    by (intro exI [of _ "upd_np m ?pc w"] exI [of _ "upd_np m ?pc2 w"] exI [of _ ?pc2] exI [of _ w3]) simp
qed

section \<open>Witnesses\<close>

definition demo_sys :: npsys where
  "demo_sys = \<lparr>s_read_watch = Inl ERROR_IO_PENDING, s_register = Some 21, s_during_read = None, s_during_write = None,
     s_wait_read = (True, 0, 0), s_peek = Inr 1, s_read = (\<lambda>n. Inr [66]), s_overlapped = Inl 5\<rparr>"

definition demo_io :: "int \<Rightarrow> npio" where
  "demo_io h = npio_new\<lparr>io_hevent := Some h\<rparr>"

definition demo_client :: npipe where
  "demo_client = \<lparr>np_thread = Some 1, np_channel = Some 0, np_hpipe = 7, np_hsync = Some 11, np_reader = demo_io 12,
     np_writer = demo_io 13, np_flags = {NPIPE_F_CONNECTED}, np_nrefs = 2, np_winerr = 0\<rparr>"

text \<open>A server that waits for its client.\<close>

definition demo_server :: npipe where
  "demo_server = \<lparr>np_thread = Some 1, np_channel = Some 0, np_hpipe = 7, np_hsync = Some 11, np_reader = demo_io 12,
     np_writer = (demo_io 13)\<lparr>io_ovl_event := Some 13, io_internal := STATUS_PENDING, io_hwait := 20, io_state := IOBUF_IO_PENDING\<rparr>,
     np_flags = {}, np_nrefs = 3, np_winerr = 0\<rparr>"

definition demo_at :: "npw \<Rightarrow> npipe \<Rightarrow> bool" where
  "demo_at w pc \<longleftrightarrow> np_reach w \<and> nw_pipes w = [0 \<mapsto> pc] \<and> nw_lists w 1 \<noteq> None"

lemma demo_atD:
  assumes "demo_at w pc"
  shows "np_reach w" "nw_pipes w 0 = Some pc" "nw_lists w 1 \<noteq> None"
    "nw_pipes w m = Some p \<Longrightarrow> m = 0 \<and> p = pc"
  using assms by (auto simp: demo_at_def split: if_splits)

lemmas np_open_defs = Let_def GetNPipeTls_def np_start_def NPipeChannelNew_def open_channel_def new_event_def
  NPipeChannelRef_def ExchangeAdd_def Tcl_CreateChannel_def NPipeThreadActionProc_def np_list_def ZLIST_PREPEND_def
  ZLIST_ISEMPTY_def ZLIST_COUNT_def ZLIST_INIT_def ZLINK_INIT_def set_flag_def npio_new_def demo_io_def

lemma demo_client_at: "\<exists>w. demo_at w demo_client"
proof -
  have "\<exists>w. Twapi_NPipeClientObjCmd 1 True (Inr 7) True (Inr 11) (Inr 12) (Inr 13) 0 demo_sys np_start = Some (w, NpChannel 0) \<and>
      nw_pipes w = [0 \<mapsto> demo_client] \<and> nw_lists w 1 \<noteq> None"
    by (simp add: Twapi_NPipeClientObjCmd_def np_open_defs demo_client_def)
  then obtain w where w: "Twapi_NPipeClientObjCmd 1 True (Inr 7) True (Inr 11) (Inr 12) (Inr 13) 0 demo_sys np_start = Some (w, NpChannel 0)"
    "nw_pipes w = [0 \<mapsto> demo_client]" "nw_lists w 1 \<noteq> None" by blast
  have "np_reach w" unfolding np_reach_def by (rule r_into_rtranclp, rule npstep.client, rule w(1))
  with w show ?thesis by (auto simp: demo_at_def)
qed

lemma demo_server_at: "\<exists>w. demo_at w demo_server"
proof -
  have "\<exists>w. Twapi_NPipeServerObjCmd 1 False True (Inr 7) (Inr 11) (Inr 12) (Inr 13) 0 ERROR_IO_PENDING (Inr 20) demo_sys np_start = Some (w, NpChannel 0) \<and>
      nw_pipes w = [0 \<mapsto> demo_server] \<and> nw_lists w 1 \<noteq> None"
    by (simp add: Twapi_NPipeServerObjCmd_def NPipeAccept_def np_open_defs demo_server_def ERROR_IO_PENDING_def ERROR_PIPE_CONNECTED_def)
  then obtain w where w: "Twapi_NPipeServerObjCmd 1 False True (Inr 7) (Inr 11) (Inr 12) (Inr 13) 0 ERROR_IO_PENDING (Inr 20) demo_sys np_start = Some (w, NpChannel 0)"
    "nw_pipes w = [0 \<mapsto> demo_server]" "nw_lists w 1 \<noteq> None" by blast
  have "np_reach w" unfolding np_reach_def
    by (rule r_into_rtranclp, rule npstep.server [OF _ _ w(1)]) (simp_all add: accepts_def INVALID_HANDLE_VALUE_def)
  with w show ?thesis by (auto simp: demo_at_def)
qed

lemma demo_step:
  assumes "demo_at w pc" "npstep w w'" "nw_pipes w' = (nw_pipes w)(0 \<mapsto> pc')" "nw_lists w' 1 \<noteq> None"
  shows "demo_at w' pc'"
  using assms by (auto simp: demo_at_def np_reach_def)

text \<open>The client has come: the system ends the connection, the pool runs its handler, and an event is queued.\<close>

definition demo_came :: npipe where
  "demo_came = demo_server\<lparr>np_writer := (np_writer demo_server)\<lparr>io_internal := 0, io_state := IOBUF_IO_COMPLETED\<rparr>\<rparr>"

lemma demo_came_at: "\<exists>w. demo_at w demo_came"
proof -
  obtain w where w: "demo_at w demo_server" using demo_server_at by blast
  let ?p = "set_io WRITER (system_completes 0 0 (np_io WRITER demo_server)) demo_server"
  let ?w1 = "upd_np 0 ?p w" and ?w2 = "upd_np 0 demo_came w"
  have 1: "demo_at ?w1 ?p"
    by (rule demo_step [OF w npstep.system [OF demo_atD(2) [OF w]]]) (use demo_atD(3) [OF w] in simp_all)
  have "NPipeThreadPoolHandler WRITER 0 ?w1 = Some ?w2"
    by (simp add: NPipeThreadPoolHandler_def system_completes_def pool_io_def demo_server_def demo_came_def demo_io_def npio_new_def)
  moreover have "io_hwait (np_io WRITER ?p) \<noteq> INVALID_HANDLE_VALUE" by (simp add: demo_server_def INVALID_HANDLE_VALUE_def)
  ultimately have "npstep ?w1 ?w2" by (intro npstep.pool [OF demo_atD(2) [OF 1]])
  then have "demo_at ?w2 demo_came"
    by (rule demo_step [OF 1]) (use demo_atD(3) [OF w] in simp_all)
  then show ?thesis by blast
qed

lemma singleton_list: "distinct xs \<Longrightarrow> set xs = {a} \<Longrightarrow> xs = [a]"
  by (cases xs; cases "tl xs") auto

lemma demo_pipe_list:
  assumes "demo_at w pc" "np_thread pc = Some 1"
  shows "\<exists>L l. np_good L w \<and> L 1 = [0] \<and> nw_lists w 1 = Some l \<and> zl_rep (nw_links w, l) [0]"
proof -
  obtain L where G: "np_good L w" using np_reach_good [OF demo_atD(1) [OF assms(1)]] by blast
  obtain l where l: "nw_lists w 1 = Some l" using demo_atD(3) [OF assms(1)] by blast
  have rep: "zl_rep (nw_links w, l) (L 1)" by (rule np_list_rep [OF G l])
  have "set (L 1) = {0}"
    using np_in_list [OF G, of _ 1] np_pipe_okD(1) [OF G demo_atD(2) [OF assms(1)]] demo_atD(4) [OF assms(1)] assms(2) by auto
  moreover have "distinct (L 1)" using rep by (simp add: zl_rep_def)
  ultimately have "L 1 = [0]" by (rule singleton_list [rotated])
  with G l rep show ?thesis by auto
qed

lemma demo_due: "demo_at w demo_came \<Longrightarrow> due w 0"
  by (simp add: due_def demo_atD(2) NPIPE_NOTIFIABLE_def demo_came_def demo_server_def)

lemma demo_queued_at:
  "\<exists>w q. demo_at w (flagged demo_came) \<and> nw_events w = q @ [(1, 7)]"
proof -
  obtain w where w: "demo_at w demo_came" using demo_came_at by blast
  obtain L l where L: "np_good L w" "L 1 = [0]" "nw_lists w 1 = Some l"
    using demo_pipe_list [OF w] by (auto simp: demo_came_def demo_server_def)
  have d: "filter (due w) [0] = [0]" "filter (\<lambda>x. \<not> due w x) [0] = []" using demo_due [OF w] by simp_all
  from CheckProc_ok [OF L(1), of 1] L(3) obtain w' where w': "NPipeCheckProc 1 True w = Some w'" "np_good (L(1 := [0])) w'"
    "nw_events w' = nw_events w @ [(1, the (hpipe_of w 0))]"
    "\<forall>m. nw_pipes w' m = (if m \<in> {0} \<and> due w m then map_option flagged (nw_pipes w m) else nw_pipes w m)"
    unfolding L(2) d by (auto simp del: One_nat_def)
  have p: "nw_pipes w' = (nw_pipes w)(0 \<mapsto> flagged demo_came)"
    using w'(4) demo_due [OF w] demo_atD(2) [OF w] by (auto simp: fun_eq_iff)
  have "nw_lists w' 1 \<noteq> None" using np_has_list [OF w'(2), of 0 1] by auto
  then have "demo_at w' (flagged demo_came)" by (rule demo_step [OF w npstep.check [OF w'(1)] p])
  moreover have "the (hpipe_of w 0) = 7" by (simp add: hpipe_of_def demo_atD(2) [OF w] demo_came_def demo_server_def)
  ultimately show ?thesis using w'(3) by (intro exI [of _ w'] exI [of _ "nw_events w"]) simp
qed

lemma np_reach_start: "np_reach np_start"
  by (simp add: np_reach_def)

lemma demo_sys_ok: "sys_ok demo_sys"
  by (simp add: sys_ok_def demo_sys_def INVALID_HANDLE_VALUE_def)

theorem pipes_safe_witness:
  "\<exists>w pc l. np_reach w \<and> nw_pipes w 0 = Some pc \<and> np_nrefs pc = 3 \<and> nw_lists w 1 = Some l \<and> (\<exists>ms. zl_rep (nw_links w, l) ms \<and> 0 \<in> set ms)"
proof -
  obtain w where w: "demo_at w demo_came" using demo_came_at by blast
  obtain l where l: "nw_lists w 1 = Some l" using demo_atD(3) [OF w] by blast
  have t: "np_thread demo_came = Some 1" by (simp add: demo_came_def demo_server_def)
  from pipes_safe [OF demo_atD(1) [OF w]] l obtain ms where ms: "zl_rep (nw_links w, l) ms"
    "set ms = {m. \<exists>pc. nw_pipes w m = Some pc \<and> np_thread pc = Some 1}" by blast
  have "0 \<in> set ms" using ms(2) demo_atD(2) [OF w] t by simp
  moreover have "np_nrefs demo_came = 3"
  proof -
    have "np_nrefs demo_came = of_bool (np_channel demo_came \<noteq> None) + of_bool (np_thread demo_came \<noteq> None) +
        of_bool (io_hwait (np_reader demo_came) \<noteq> INVALID_HANDLE_VALUE) + of_bool (io_hwait (np_writer demo_came) \<noteq> INVALID_HANDLE_VALUE)"
      using pipes_safe [OF demo_atD(1) [OF w]] demo_atD(2) [OF w] by blast
    then show ?thesis by (simp add: demo_came_def demo_server_def)
  qed
  ultimately show ?thesis using demo_atD(1,2) [OF w] l ms(1) by blast
qed


theorem pipe_close_frees_witness:
  "\<exists>w w'. nw_pipes w 0 = Some demo_came \<and> Tcl_UnregisterChannel 1 0 demo_sys w = Some w' \<and> nw_pipes w' 0 = None \<and> hd (nw_freed w') = 0"
proof -
  obtain w where w: "demo_at w demo_came" using demo_came_at by blast
  have "np_channel demo_came \<noteq> None" "np_thread demo_came = Some 1" by (simp_all add: demo_came_def demo_server_def)
  from pipe_close_frees [OF demo_atD(1,2) [OF w] this, of demo_sys] obtain w' where
    "Tcl_UnregisterChannel 1 0 demo_sys w = Some w'" "nw_pipes w' = (nw_pipes w)(0 := None)" "nw_freed w' = 0 # nw_freed w" by blast
  with demo_atD(2) [OF w] show ?thesis by (intro exI [of _ w] exI [of _ w']) simp
qed

theorem pipes_due_queued_witness:
  "\<exists>w w'. np_reach w \<and> NPipeCheckProc 1 True w = Some w' \<and> nw_events w' = nw_events w @ [(1, 7)] \<and> NPipeCheckProc 1 True w' = Some w'"
proof -
  obtain w where w: "demo_at w demo_came" using demo_came_at by blast
  obtain l where l: "nw_lists w 1 = Some l" "zl_rep (nw_links w, l) [0]"
    using demo_pipe_list [OF w] by (auto simp: demo_came_def demo_server_def)
  have "the (hpipe_of w 0) = 7" by (simp add: hpipe_of_def demo_atD(2) [OF w] demo_came_def demo_server_def)
  with pipes_due_queued [OF demo_atD(1) [OF w] l] demo_due [OF w] demo_atD(1) [OF w] show ?thesis by auto
qed

theorem pipe_read_result_witness:
  "\<exists>w w'. np_reach w \<and> NPipeInputProc 0 4 demo_sys w = Some (w', Inr [66])"
proof -
  obtain w where w: "demo_at w demo_client" using demo_client_at by blast
  have a: "(sys_answer demo_sys nb k = Inr bs \<longrightarrow> length bs \<le> k) \<and> (sys_answer demo_sys nb k = Inl e \<longrightarrow> e \<noteq> 0)"
    if "0 < k" for k nb bs e using that by (auto simp: sys_answer_def demo_sys_def)
  have "np_channel demo_client \<noteq> None" "NPIPE_CONNECTED demo_client" "np_winerr demo_client = 0"
    "io_state (np_reader demo_client) \<in> {IOBUF_IDLE, IOBUF_IO_COMPLETED}" "0 < (4::nat)"
    by (simp_all add: demo_client_def NPIPE_CONNECTED_def demo_io_def npio_new_def)
  from pipe_read_result [OF demo_atD(1,2) [OF w] this demo_sys_ok a] obtain w' r where
    "NPipeInputProc 0 4 demo_sys w = Some (w', r)"
    "r = (case sys_answer demo_sys (NPIPE_F_NONBLOCKING \<in> np_flags demo_client) (4 - length (np_buffered demo_client)) of
        Inr bs \<Rightarrow> Inr (np_buffered demo_client @ bs)
      | Inl e \<Rightarrow> if eof_code e then Inr [] else Inl e)" by blast
  with demo_atD(1) [OF w] show ?thesis
    by (auto simp: sys_answer_def demo_sys_def demo_client_def np_buffered_def demo_io_def npio_new_def)
qed

theorem data_reaches_script_witness:
  "\<exists>w w1 now w4 w5. np_reach w \<and> NPipeWatchProc 0 {TCL_READABLE} demo_sys w = Some (w1, now) \<and>
     NPipeInputProc 0 4 demo_sys w4 = Some (w5, Inr [65, 66])"
proof -
  obtain w where w: "demo_at w demo_client" using demo_client_at by blast
  have a: "np_thread demo_client = Some 1" "np_channel demo_client \<noteq> None" "io_state (np_reader demo_client) = IOBUF_IDLE"
    "io_state (np_writer demo_client) \<noteq> IOBUF_IO_COMPLETED_WITH_ERROR" "NPIPE_F_CONNECTED \<in> np_flags demo_client"
    "NPIPE_F_WATCHREAD \<notin> np_flags demo_client" "NPIPE_F_WATCHWRITE \<notin> np_flags demo_client" "NPIPE_F_EVENT_QUEUED \<notin> np_flags demo_client" "np_winerr demo_client = 0"
    by (simp_all add: demo_client_def demo_io_def npio_new_def)
  have s: "s_read_watch demo_sys = Inl ERROR_IO_PENDING" "s_register demo_sys = Some 21" "(21::int) \<noteq> INVALID_HANDLE_VALUE"
    by (simp_all add: demo_sys_def INVALID_HANDLE_VALUE_def)
  have r: "0 < (4::nat)" "sys_answer demo_sys (NPIPE_F_NONBLOCKING \<in> np_flags demo_client) (4 - 1) = Inr [66]"
    by (simp_all add: sys_answer_def demo_sys_def)
  have u: "\<forall>m' p'. nw_pipes w m' = Some p' \<and> np_thread p' = Some 1 \<and> np_hpipe p' = np_hpipe demo_client \<longrightarrow> m' = 0"
    using demo_atD(4) [OF w] by blast
  from data_reaches_script [OF demo_atD(1,2) [OF w] a u s demo_sys_ok r, where b = 65] demo_atD(1) [OF w]
  show ?thesis by blast
qed

theorem server_accept_failure_witness:
  "Twapi_NPipeServerObjCmd 1 False True (Inr 7) (Inr 11) (Inr 12) (Inr 13) 0 5 (Inl 0) demo_sys np_start = None"
  by (rule server_accept_failure [OF np_reach_start, of True "Inr 7" 7 "Inr 11" 11 "Inr 12" 12 "Inr 13" 13 5 "Inl 0" 0])
    (simp_all add: ERROR_PIPE_CONNECTED_def ERROR_IO_PENDING_def)

theorem watch_off_loses_connection_witness:
  "\<exists>w w1 now pc1. np_reach w \<and> NPipeWatchProc 0 {} demo_sys w = Some (w1, now) \<and> nw_pipes w1 0 = Some pc1 \<and>
     io_hwait (np_writer pc1) = INVALID_HANDLE_VALUE \<and> io_state (np_writer pc1) = IOBUF_IO_PENDING"
proof -
  obtain w where w: "demo_at w demo_server" using demo_server_at by blast
  let ?p = "set_flag NPIPE_F_WATCHWRITE demo_server"
  have "NPipeWatchProc 0 {TCL_WRITABLE} demo_sys w = Some (upd_np 0 ?p w, False)"
    by (simp add: NPipeWatchProc_def NPipeDisableWatch_def demo_atD(2) [OF w] demo_server_def clear_flag_def set_flag_def
        demo_io_def npio_new_def NPIPE_EOF_NOTIFIABLE_def NPIPE_EOF_def NPIPE_WRITE_NOTIFIABLE_def
        ERROR_HANDLE_EOF_def ERROR_BROKEN_PIPE_def STATUS_PIPE_BROKEN_def)
  from npstep.watch [OF demo_atD(2) [OF w] _ demo_sys_ok this] have "npstep w (upd_np 0 ?p w)" by (simp add: demo_server_def)
  then have 1: "demo_at (upd_np 0 ?p w) ?p" by (rule demo_step [OF w]) (use demo_atD(3) [OF w] in simp_all)
  have "np_channel ?p \<noteq> None" "\<not> NPIPE_CONNECTED ?p" "NPIPE_F_WATCHWRITE \<in> np_flags ?p" "NPIPE_F_NONBLOCKING \<notin> np_flags ?p"
    "io_state (np_writer ?p) = IOBUF_IO_PENDING" "s_during_write demo_sys = None"
    by (simp_all add: demo_server_def NPIPE_CONNECTED_def demo_sys_def)
  from watch_off_loses_connection [OF demo_atD(1,2) [OF 1] this] demo_atD(1) [OF 1] show ?thesis by blast
qed

lemma demo_move_at:
  "\<exists>w. demo_at w (flagged demo_came) \<and> nw_lists w 2 \<noteq> None"
proof -
  obtain w where w: "demo_at w (flagged demo_came)" using demo_queued_at by blast
  let ?w = "GetNPipeTls 2 w"
  have "Twapi_NPipeClientObjCmd 2 False (Inl 0) True (Inl 0) (Inl 0) (Inl 0) 0 demo_sys w = Some (?w, NpBadSecurity)"
    by (simp add: Twapi_NPipeClientObjCmd_def)
  from npstep.client [OF this] have "npstep w ?w" .
  then have "demo_at ?w (flagged demo_came)"
    by (rule demo_step [OF w]) (use demo_atD(2,3) [OF w] in \<open>auto simp: GetNPipeTls_def fun_upd_idem split: option.splits\<close>)
  moreover have "nw_lists ?w 2 \<noteq> None" by (simp add: GetNPipeTls_def split: option.splits)
  ultimately show ?thesis by blast
qed

theorem transfer_loses_events_witness:
  "\<exists>w w1 w2 w3 evs. np_reach w \<and> NPipeThreadActionProc 1 False 0 w = Some w1 \<and> NPipeThreadActionProc 2 True 0 w1 = Some w2 \<and>
     NPipeSetupProc 2 True w2 = Some True \<and> NPipeCheckProc 2 True w2 = Some w3 \<and> nw_events w3 = nw_events w2 @ evs \<and> (2, 7) \<notin> set evs"
proof -
  obtain w where w: "demo_at w (flagged demo_came)" "nw_lists w 2 \<noteq> None" using demo_move_at by blast
  let ?p = "flagged demo_came"
  have a: "np_channel ?p \<noteq> None" "np_thread ?p = Some 1" "(2::thread) \<noteq> 1" "NPIPE_F_EVENT_QUEUED \<in> np_flags ?p"
    "NPIPE_NOTIFIABLE ?p" by (simp_all add: flagged_def demo_came_def demo_server_def NPIPE_NOTIFIABLE_def)
  have u: "\<forall>m' pc'. nw_pipes w m' = Some pc' \<and> np_hpipe pc' = np_hpipe ?p \<longrightarrow> m' = 0" using demo_atD(4) [OF w(1)] by blast
  have "np_hpipe ?p = 7" by (simp add: flagged_def demo_came_def demo_server_def)
  with transfer_loses_events [OF demo_atD(1,2) [OF w(1)] a demo_atD(3) [OF w(1)] u] w(2) demo_atD(1) [OF w(1)] show ?thesis by metis
qed

definition demo_idle :: npipe where
  "demo_idle = set_flag NPIPE_F_NONBLOCKING (write_idle (fst (event_mask (event_errors (flagged demo_came)))))"

lemma demo_idle_fields:
  "np_channel demo_idle = Some 0" "NPIPE_CONNECTED demo_idle" "np_winerr demo_idle = 0" "NPIPE_F_NONBLOCKING \<in> np_flags demo_idle"
  "io_state (np_writer demo_idle) = IOBUF_IDLE" "io_hwait (np_writer demo_idle) = 20"
  by (simp_all add: demo_idle_def write_idle_def event_mask_def event_errors_def flagged_def demo_came_def demo_server_def Let_def
      demo_io_def npio_new_def set_flag_def clear_flag_def NPIPE_CONNECTED_def NPIPE_WRITE_NOTIFIABLE_def NPIPE_READ_NOTIFIABLE_def
      NPIPE_EOF_NOTIFIABLE_def NPIPE_EOF_def ERROR_HANDLE_EOF_def ERROR_BROKEN_PIPE_def STATUS_PIPE_BROKEN_def)

lemma demo_idle_at: "\<exists>w. demo_at w demo_idle"
proof -
  obtain w q where w: "demo_at w (flagged demo_came)" "nw_events w = q @ (1, 7) # []" using demo_queued_at by blast
  obtain L where L: "np_good L w" "L 1 = [0]" using demo_pipe_list [OF w(1)] by (auto simp: flagged_def demo_came_def demo_server_def)
  let ?w = "w\<lparr>nw_events := q @ []\<rparr>" and ?p = "write_idle (fst (event_mask (event_errors (flagged demo_came))))"
  have l: "nw_lists ?w 1 \<noteq> None" using demo_atD(3) [OF w(1)] by simp
  have f: "find (\<lambda>m. hpipe_of ?w m = Some 7) (L 1) = Some 0"
    using L(2) demo_atD(2) [OF w(1)] by (simp add: hpipe_of_def flagged_def demo_came_def demo_server_def)
  from EventProc_ok [OF np_good_events [OF L(1)] l, of 7] f demo_atD(2) [OF w(1)] obtain note_it where
    "NPipeEventProc 1 True 7 ?w = Some (upd_np 0 ?p ?w, True, note_it)" by (auto simp del: One_nat_def)
  from npstep.event [OF w(2) this] have "npstep w (upd_np 0 ?p ?w)" .
  then have 1: "demo_at (upd_np 0 ?p ?w) ?p" by (rule demo_step [OF w(1)]) (use demo_atD(3) [OF w(1)] in simp_all)
  have "NPipeBlockProc 0 True (upd_np 0 ?p ?w) = Some (upd_np 0 demo_idle ?w)"
    by (simp add: NPipeBlockProc_def demo_idle_def)
  moreover have "np_channel ?p \<noteq> None" using demo_idle_fields(1) by (simp add: demo_idle_def)
  ultimately have "npstep (upd_np 0 ?p ?w) (upd_np 0 demo_idle ?w)" using npstep.block [OF demo_atD(2) [OF 1]] by blast
  then have "demo_at (upd_np 0 demo_idle ?w) demo_idle" by (rule demo_step [OF 1]) (use demo_atD(3) [OF w(1)] in simp_all)
  then show ?thesis by blast
qed

theorem late_callback_witness:
  "\<exists>w w1 w2 w3. np_reach w \<and> NPipeOutputProc 0 [1] 16 ERROR_IO_PENDING None (Inl 0) w = Some (w1, Inr 1, [1]) \<and>
     NPipeThreadPoolHandler WRITER 0 w1 = Some w2 \<and>
     NPipeOutputProc 0 [1] 16 0 None (Inl 0) w2 = Some (w3, Inl STATUS_PENDING, [])"
proof -
  obtain w where w: "demo_at w demo_idle" using demo_idle_at by blast
  have "np_channel demo_idle \<noteq> None" "io_hwait (np_writer demo_idle) \<noteq> INVALID_HANDLE_VALUE" "length [1::octet] \<le> 16"
    by (simp_all add: demo_idle_fields INVALID_HANDLE_VALUE_def)
  with late_callback [OF demo_atD(1,2) [OF w] this(1) demo_idle_fields(2,3,4,5) this(2,3), of None "Inl 0" 0] demo_atD(1) [OF w]
  show ?thesis by auto
qed

end
