(* ===== verification/Opaque.thy ===== *)
theory Opaque
  imports Tcl Pointers
begin

text \<open>
  Pointers and handles as Tcl values (\<open>base/tclobjs.c\<close>) and the commands that scripts use on
  them (\<open>base/calls.c\<close>).

  A Tcl object has a string, or an internal representation from which the string is made when
  it is needed, or both. The internal representation of a pointer is its address and its type.
  Other conversions of an object discard this representation and leave the string.
\<close>

section \<open>Objects\<close>

text \<open>What the component uses of Tcl beyond the conversions of \<open>tcl\<close>: the decimal string of a number.\<close>

record otcl = tcl +
  o_decimal :: "nat \<Rightarrow> string"

record tobj =
  ob_bytes :: "string option"
  ob_rep :: "(nat \<times> string option) option"

definition UpdateOpaqueTypeString :: "otcl \<Rightarrow> nat \<Rightarrow> string option \<Rightarrow> string" where
  "UpdateOpaqueTypeString T pv ctype =
     t_mklist T [o_decimal T pv, case ctype of None \<Rightarrow> [] | Some c \<Rightarrow> c]"

definition obj_string :: "otcl \<Rightarrow> tobj \<Rightarrow> string" where
  "obj_string T ob = (case ob_bytes ob of Some s \<Rightarrow> s
     | None \<Rightarrow> (case ob_rep ob of Some (pv, ctype) \<Rightarrow> UpdateOpaqueTypeString T pv ctype | None \<Rightarrow> []))"

text \<open>An object whose internal representation is not that of a pointer.\<close>

definition str_obj :: "string \<Rightarrow> tobj" where
  "str_obj s = \<lparr>ob_bytes = Some s, ob_rep = None\<rparr>"

text \<open>What another conversion of the object (to a list, to a number) leaves of it.\<close>

definition shimmer :: "otcl \<Rightarrow> tobj \<Rightarrow> tobj" where
  "shimmer T ob = str_obj (obj_string T ob)"

definition ObjFromOpaque :: "nat \<Rightarrow> string option \<Rightarrow> tobj" where
  "ObjFromOpaque pv name = \<lparr>ob_bytes = None, ob_rep = Some (pv, name)\<rparr>"

section \<open>Conversion\<close>

text \<open>\<open>Tcl_GetWideIntFromObj\<close> with the cast to \<open>DWORD_PTR\<close>.\<close>

definition ObjToDWORD_PTR :: "otcl \<Rightarrow> string \<Rightarrow> nat option" where
  "ObjToDWORD_PTR T s = map_option (\<lambda>v. nat (v mod 2 ^ 64)) (t_wide T s)"

definition streq :: "otcl \<Rightarrow> string \<Rightarrow> string \<Rightarrow> bool" where
  "streq T x y \<longleftrightarrow> take 1 x = take 1 y \<and> t_lstrcmp T x y = 0"

datatype opq_error = BadOpaque string | BadType string string | PtrError twapi_code

definition SetOpaqueFromAny :: "otcl \<Rightarrow> tobj \<Rightarrow> tobj \<times> opq_error option" where
  "SetOpaqueFromAny T ob =
     (if ob_rep ob \<noteq> None then (ob, None)
      else let s = obj_string T ob;
               converted = (\<lambda>pv ctype. (\<lparr>ob_bytes = Some s, ob_rep = Some (pv, ctype)\<rparr>, None))
           in if streq T s ''NULL'' \<or> t_int T s = Some 0 then converted 0 None
              else case t_list T s of
                  Some [a, c] \<Rightarrow>
                    (case ObjToDWORD_PTR T a of
                       None \<Rightarrow> (str_obj s, Some (BadOpaque a))
                     | Some pv \<Rightarrow> converted pv (if c = [] then None else Some c))
                | _ \<Rightarrow> (str_obj s, Some (BadOpaque s)))"

text \<open>The result is the object and an error or the pointer.\<close>

definition ObjToOpaque :: "otcl \<Rightarrow> tobj \<Rightarrow> string option \<Rightarrow> tobj \<times> (opq_error + nat)" where
  "ObjToOpaque T ob name =
     (case SetOpaqueFromAny T ob of
        (ob', Some e) \<Rightarrow> (ob', Inl e)
      | (ob', None) \<Rightarrow>
          (case ob_rep ob' of
             None \<Rightarrow> (ob', Inr 0)
           | Some (pv, ctype) \<Rightarrow>
               (case (if name = Some [] then None else name, ctype) of
                  (Some n, Some c) \<Rightarrow> if streq T n c then (ob', Inr pv) else (ob', Inl (BadType c n))
                | _ \<Rightarrow> (ob', Inr pv))))"

definition ObjToLPVOID :: "otcl \<Rightarrow> tobj \<Rightarrow> tobj \<times> (opq_error + nat)" where
  "ObjToLPVOID T ob = ObjToOpaque T ob None"

fun opaque_any :: "otcl \<Rightarrow> tobj \<Rightarrow> string list \<Rightarrow> opq_error \<Rightarrow> tobj \<times> (opq_error + nat)" where
  "opaque_any T ob [] e = (ob, Inl e)"
| "opaque_any T ob (ty # types) e =
     (case ObjToOpaque T ob (Some ty) of
        (ob', Inr pv) \<Rightarrow> (ob', Inr pv)
      | (ob', Inl e') \<Rightarrow> opaque_any T ob' types e')"

definition ObjToOpaqueMulti :: "otcl \<Rightarrow> tobj \<Rightarrow> string list \<Rightarrow> tobj \<times> (opq_error + nat)" where
  "ObjToOpaqueMulti T ob types =
     (if types = [] then ObjToOpaque T ob None else opaque_any T ob types (BadOpaque []))"

definition ObjToIDispatch :: "otcl \<Rightarrow> tobj \<Rightarrow> tobj \<times> (opq_error + nat)" where
  "ObjToIDispatch T ob =
     (case ObjToOpaque T ob (Some ''IDispatchEx'') of
        (ob', Inr pv) \<Rightarrow> (ob', Inr pv)
      | (ob', Inl _) \<Rightarrow> ObjToOpaque T ob' (Some ''IDispatch''))"

definition ObjToVerifiedPointerOrNullTic ::
    "otcl \<Rightarrow> pointers \<Rightarrow> tobj \<Rightarrow> string option \<Rightarrow> nat \<Rightarrow> tobj \<times> (opq_error + nat)" where
  "ObjToVerifiedPointerOrNullTic T ps ob name verifier =
     (case ObjToOpaque T ob name of
        (ob', Inl e) \<Rightarrow> (ob', Inl e)
      | (ob', Inr pv) \<Rightarrow>
          if pv \<noteq> 0 \<and> TwapiVerifyPointerTic pv verifier ps \<noteq> TWAPI_NO_ERROR
          then (ob', Inl (PtrError (TwapiVerifyPointerTic pv verifier ps)))
          else (ob', Inr pv))"

definition ObjToVerifiedPointerTic ::
    "otcl \<Rightarrow> pointers \<Rightarrow> tobj \<Rightarrow> string option \<Rightarrow> nat \<Rightarrow> tobj \<times> (opq_error + nat)" where
  "ObjToVerifiedPointerTic T ps ob name verifier =
     (case ObjToVerifiedPointerOrNullTic T ps ob name verifier of
        (ob', Inl e) \<Rightarrow> (ob', Inl e)
      | (ob', Inr pv) \<Rightarrow> if pv = 0 then (ob', Inl (PtrError TWAPI_NULL_POINTER)) else (ob', Inr pv))"

section \<open>Commands\<close>

text \<open>
  The memory that scripts allocate: \<open>ho_live\<close> are the blocks of the C heap that \<open>malloc\<close> made and that
  are not freed; the command of the code panics, which is \<open>None\<close>, if a new block cannot be
  registered. A block that is not live is not freed twice: freeing it is \<open>None\<close> too.
\<close>

record hob =
  ho_live :: "nat set"
  ho_ps :: pointers

definition TwapiAlloc_tag :: nat where "TwapiAlloc_tag = 1"

definition cmd_malloc :: "nat \<Rightarrow> string \<Rightarrow> hob \<Rightarrow> (hob \<times> tobj) option" where
  "cmd_malloc pv type h =
     (case TwapiRegisterPointerTic pv TwapiAlloc_tag (ho_ps h) of
        (ps, code) \<Rightarrow>
          if code \<noteq> TWAPI_NO_ERROR then None
          else Some (\<lparr>ho_live = insert pv (ho_live h), ho_ps = ps\<rparr>,
                     ObjFromOpaque pv (Some (if type \<noteq> [] then type else ''void*''))))"

definition cmd_free :: "otcl \<Rightarrow> tobj \<Rightarrow> hob \<Rightarrow> (hob \<times> tobj \<times> opq_error option) option" where
  "cmd_free T ob h =
     (case ObjToLPVOID T ob of
        (ob', Inl e) \<Rightarrow> Some (h, ob', Some e)
      | (ob', Inr pv) \<Rightarrow>
          (case TwapiUnregisterPointerTic pv TwapiAlloc_tag (ho_ps h) of
             (ps, code) \<Rightarrow>
               if code \<noteq> TWAPI_NO_ERROR then Some (h\<lparr>ho_ps := ps\<rparr>, ob', Some (PtrError code))
               else if pv = 0 then Some (h\<lparr>ho_ps := ps\<rparr>, ob', None)
               else if pv \<in> ho_live h
               then Some (\<lparr>ho_live = ho_live h - {pv}, ho_ps = ps\<rparr>, ob', None)
               else None))"

definition cmd_pointer_registered :: "otcl \<Rightarrow> tobj \<Rightarrow> hob \<Rightarrow> opq_error + bool" where
  "cmd_pointer_registered T ob h =
     (case ObjToLPVOID T ob of
        (_, Inl e) \<Rightarrow> Inl e
      | (_, Inr pv) \<Rightarrow> Inr (TwapiVerifyPointerTic pv 0 (ho_ps h) = TWAPI_NO_ERROR))"

definition cmd_pointer_to_address :: "otcl \<Rightarrow> tobj \<Rightarrow> opq_error + nat" where
  "cmd_pointer_to_address T ob = snd (ObjToOpaque T ob None)"

definition cmd_pointer_type :: "otcl \<Rightarrow> tobj \<Rightarrow> opq_error + string" where
  "cmd_pointer_type T ob =
     (case SetOpaqueFromAny T ob of
        (_, Some e) \<Rightarrow> Inl e
      | (ob', None) \<Rightarrow> Inr (case ob_rep ob' of Some (_, Some c) \<Rightarrow> c | _ \<Rightarrow> []))"

definition cmd_pointer_equal :: "otcl \<Rightarrow> tobj \<Rightarrow> tobj \<Rightarrow> opq_error + bool" where
  "cmd_pointer_equal T ob1 ob2 =
     (case snd (ObjToOpaque T ob1 None) of
        Inl e \<Rightarrow> Inl e
      | Inr pv \<Rightarrow> (case snd (ObjToOpaque T ob2 None) of Inl e \<Rightarrow> Inl e | Inr pv2 \<Rightarrow> Inr (pv = pv2)))"

definition cmd_is_pointer :: "otcl \<Rightarrow> tobj \<Rightarrow> string option \<Rightarrow> bool" where
  "cmd_is_pointer T ob type = (case snd (ObjToOpaque T ob type) of Inr _ \<Rightarrow> True | Inl _ \<Rightarrow> False)"

definition cmd_pointer_null :: "otcl \<Rightarrow> tobj \<Rightarrow> string option \<Rightarrow> opq_error + bool" where
  "cmd_pointer_null T ob type =
     (case snd (ObjToOpaque T ob type) of Inr pv \<Rightarrow> Inr (pv = 0) | Inl e \<Rightarrow> Inl e)"

definition cmd_pointer_from_address :: "otcl \<Rightarrow> string \<Rightarrow> string option \<Rightarrow> tobj option" where
  "cmd_pointer_from_address T s type = map_option (\<lambda>dwp. ObjFromOpaque dwp type) (ObjToDWORD_PTR T s)"

section \<open>Round trip\<close>

text \<open>Laws of the library for the strings of pointers.\<close>

definition opaque_law :: "otcl \<Rightarrow> bool" where
  "opaque_law T \<longleftrightarrow> (\<forall>xs. t_list T (t_mklist T xs) = Some xs) \<and>
     (\<forall>n < 2 ^ 64. ObjToDWORD_PTR T (o_decimal T n) = Some n) \<and>
     (\<forall>a c. t_int T (t_mklist T [a, c]) = None \<and> \<not> streq T (t_mklist T [a, c]) ''NULL'')"

lemma set_opaque_fresh [simp]: "SetOpaqueFromAny T (ObjFromOpaque pv name) = (ObjFromOpaque pv name, None)"
  by (simp add: SetOpaqueFromAny_def ObjFromOpaque_def)

lemma set_opaque_again: "SetOpaqueFromAny T ob = (ob', None) \<Longrightarrow> SetOpaqueFromAny T ob' = (ob', None)"
  by (auto simp: SetOpaqueFromAny_def Let_def split: if_splits option.splits list.splits)

lemma set_opaque_string: "obj_string T (fst (SetOpaqueFromAny T ob)) = obj_string T ob"
  by (auto simp: SetOpaqueFromAny_def Let_def obj_string_def str_obj_def split: if_splits option.splits list.splits)

lemma set_opaque_shimmered:
  assumes "opaque_law T" "pv < 2 ^ 64"
  shows "SetOpaqueFromAny T (shimmer T (ObjFromOpaque pv name)) =
    (\<lparr>ob_bytes = Some (obj_string T (ObjFromOpaque pv name)), ob_rep = Some (pv, if name = Some [] then None else name)\<rparr>, None)"
  using assms
  by (cases name) (simp_all add: SetOpaqueFromAny_def shimmer_def str_obj_def obj_string_def ObjFromOpaque_def
      UpdateOpaqueTypeString_def opaque_law_def Let_def)

text \<open>Which types a pointer of a type may be used as.\<close>

definition type_ok :: "otcl \<Rightarrow> string option \<Rightarrow> string option \<Rightarrow> bool" where
  "type_ok T wanted ctype \<longleftrightarrow> wanted = None \<or> wanted = Some [] \<or> ctype = None \<or> streq T (the wanted) (the ctype)"

lemma ObjToOpaque_rep:
  assumes "SetOpaqueFromAny T ob = (ob', None)" "ob_rep ob' = Some (pv, ctype)"
  shows "ObjToOpaque T ob name = (ob', if type_ok T name ctype then Inr pv else Inl (BadType (the ctype) (the name)))"
  using assms by (auto simp: ObjToOpaque_def type_ok_def split: option.splits)

end
