(* ===== verification/Opaque_Props.thy ===== *)
theory Opaque_Props
  imports Opaque
begin

text \<open>
  Pointers that scripts hold: they survive their conversion to strings and back, and whatever a
  script does with the strings, memory is freed at most once.
\<close>

section \<open>Round trip\<close>

text \<open>
  A pointer that was given to a script is read back with its address and type, whether the script kept
  the object or only its string, exactly when the wanted type is empty, or the pointer has no
  type, or the types are equal. Reading it does not change its string.
\<close>

theorem pointer_roundtrip:
  assumes "opaque_law T" "pv < 2 ^ 64" "name \<noteq> Some []"
    and "ob = ObjFromOpaque pv name \<or> ob = shimmer T (ObjFromOpaque pv name)"
  shows "snd (ObjToOpaque T ob wanted) =
      (if type_ok T wanted name then Inr pv else Inl (BadType (the name) (the wanted))) \<and>
    cmd_pointer_type T ob = Inr (case name of None \<Rightarrow> [] | Some c \<Rightarrow> c) \<and>
    cmd_pointer_to_address T ob = Inr pv \<and>
    obj_string T (fst (ObjToOpaque T ob wanted)) = obj_string T (ObjFromOpaque pv name)"
proof -
  have "\<exists>ob'. SetOpaqueFromAny T ob = (ob', None) \<and> ob_rep ob' = Some (pv, name)"
    using assms(4)
  proof
    assume "ob = ObjFromOpaque pv name"
    then show ?thesis using set_opaque_fresh by (intro exI [of _ ob]) (simp add: ObjFromOpaque_def)
  next
    assume "ob = shimmer T (ObjFromOpaque pv name)"
    then show ?thesis using set_opaque_shimmered [OF assms(1,2), of name] assms(3) by simp
  qed
  then obtain ob' where ob': "SetOpaqueFromAny T ob = (ob', None)" "ob_rep ob' = Some (pv, name)" by blast
  have "obj_string T ob' = obj_string T (ObjFromOpaque pv name)"
    using set_opaque_string [of T ob] ob'(1) assms(4) by (auto simp: shimmer_def str_obj_def obj_string_def)
  with ob' ObjToOpaque_rep [OF ob'] show ?thesis
    by (auto simp: cmd_pointer_type_def cmd_pointer_to_address_def type_ok_def split: option.splits)
qed

text \<open>
  A pointer with the empty type is not a function of its string: as an object it is refused where a type
  is wanted, and it is accepted once something else has converted it to its string.
\<close>

theorem empty_type_depends_on_representation:
  assumes "opaque_law T" "pv < 2 ^ 64" "n \<noteq> []"
  shows "obj_string T (shimmer T (ObjFromOpaque pv (Some []))) = obj_string T (ObjFromOpaque pv (Some [])) \<and>
    snd (ObjToOpaque T (ObjFromOpaque pv (Some [])) (Some n)) = Inl (BadType [] n) \<and>
    snd (ObjToOpaque T (shimmer T (ObjFromOpaque pv (Some []))) (Some n)) = Inr pv"
proof -
  have "\<not> streq T n []" using assms(3) by (cases n) (simp_all add: streq_def)
  then have "snd (ObjToOpaque T (ObjFromOpaque pv (Some [])) (Some n)) = Inl (BadType [] n)"
    using ObjToOpaque_rep [OF set_opaque_fresh, of pv "Some []" pv "Some []" T "Some n"] assms(3)
    by (simp add: ObjFromOpaque_def type_ok_def)
  moreover have "snd (ObjToOpaque T (shimmer T (ObjFromOpaque pv (Some []))) (Some n)) = Inr pv"
    using ObjToOpaque_rep [OF set_opaque_shimmered [OF assms(1,2), of "Some []"], of pv None "Some n"]
    by (simp add: type_ok_def)
  ultimately show ?thesis by (simp add: shimmer_def str_obj_def obj_string_def)
qed

section \<open>Memory\<close>

text \<open>
  What scripts and the modules do: \<open>malloc\<close> gives a block that is not in use, \<open>free\<close> is given
  any object, and the modules register and unregister other pointers under their own tags.
\<close>

definition ptr_op_tag :: "ptr_op \<Rightarrow> nat" where
  "ptr_op_tag op = (case op of PRegister p t \<Rightarrow> t | PCounted p t \<Rightarrow> t | PUnregister p t \<Rightarrow> t)"

inductive hob_step :: "otcl \<Rightarrow> hob \<Rightarrow> hob \<Rightarrow> bool" for T where
  malloc: "pv \<noteq> 0 \<Longrightarrow> pv \<notin> ho_live h \<Longrightarrow> cmd_malloc pv type h = Some (h', ob) \<Longrightarrow> hob_step T h h'"
| free: "cmd_free T ob h = Some (h', ob', e) \<Longrightarrow> hob_step T h h'"
| other: "ptr_op_tag op \<noteq> TwapiAlloc_tag \<Longrightarrow> hob_step T h (h\<lparr>ho_ps := fst (ptr_step op (ho_ps h))\<rparr>)"

definition hob_reach :: "otcl \<Rightarrow> hob \<Rightarrow> bool" where
  "hob_reach T h \<longleftrightarrow> (hob_step T)\<^sup>*\<^sup>* \<lparr>ho_live = {}, ho_ps = Map.empty\<rparr> h"

text \<open>The live blocks are the pointers that are registered with the tag of the allocator, once each.\<close>

definition hob_inv :: "hob \<Rightarrow> bool" where
  "hob_inv h \<longleftrightarrow> ho_ps h 0 = None \<and>
     (\<forall>p. p \<in> ho_live h \<longleftrightarrow> (\<exists>r. ho_ps h p = Some r \<and> rp_tag r = TwapiAlloc_tag)) \<and>
     (\<forall>p r. ho_ps h p = Some r \<and> rp_tag r = TwapiAlloc_tag \<longrightarrow> rp_nrefs r = - 1)"

lemma hob_invD:
  "hob_inv h \<Longrightarrow> ho_ps h 0 = None"
  "hob_inv h \<Longrightarrow> p \<in> ho_live h \<longleftrightarrow> (\<exists>r. ho_ps h p = Some r \<and> rp_tag r = TwapiAlloc_tag)"
  "hob_inv h \<Longrightarrow> ho_ps h p = Some r \<Longrightarrow> rp_tag r = TwapiAlloc_tag \<Longrightarrow> rp_nrefs r = - 1"
  by (auto simp: hob_inv_def)

lemma unregister_block:
  assumes "hob_inv h"
  shows "TwapiUnregisterPointerTic p TwapiAlloc_tag (ho_ps h) =
    (if p \<in> ho_live h then ((ho_ps h)(p := None), TWAPI_NO_ERROR)
     else (ho_ps h, if p = 0 then TWAPI_NULL_POINTER else if ho_ps h p = None then TWAPI_REGISTERED_POINTER_NOTFOUND
       else TWAPI_REGISTERED_POINTER_TAG_MISMATCH))"
  using hob_invD [OF assms] by (auto simp: TwapiUnregisterPointerTic_def Let_def split: option.splits)

lemma cmd_free_eq:
  assumes "hob_inv h" "ObjToLPVOID T ob = (ob', r)"
  shows "\<exists>h' e. cmd_free T ob h = Some (h', ob', e) \<and> hob_inv h' \<and>
    (case r of
       Inl x \<Rightarrow> h' = h \<and> e = Some x
     | Inr p \<Rightarrow> if p \<in> ho_live h then e = None \<and> ho_live h' = ho_live h - {p} \<and> ho_ps h' = (ho_ps h)(p := None)
         else h' = h \<and> e \<noteq> None)"
proof (cases r)
  case (Inl x)
  with assms show ?thesis by (simp add: cmd_free_def)
next
  case (Inr p)
  have inv: "hob_inv \<lparr>ho_live = ho_live h - {p}, ho_ps = (ho_ps h)(p := None)\<rparr>"
    using hob_invD [OF assms(1)] by (auto simp: hob_inv_def)
  have "p \<noteq> 0" if "p \<in> ho_live h" using that hob_invD(1,2) [OF assms(1)] by (metis option.distinct(1))
  with inv Inr assms show ?thesis by (cases "p \<in> ho_live h") (auto simp: cmd_free_def unregister_block)
qed

lemma malloc_ok:
  assumes "hob_inv h" "pv \<noteq> 0" "cmd_malloc pv type h = Some (h', ob)"
  shows "hob_inv h'"
  using hob_invD [OF assms(1)] assms(2,3)
  by (auto simp: cmd_malloc_def TwapiRegisterPointerTic_def hob_inv_def split: option.splits if_splits)

lemma other_ok:
  assumes "hob_inv h" "ptr_op_tag op \<noteq> TwapiAlloc_tag"
  shows "hob_inv (h\<lparr>ho_ps := fst (ptr_step op (ho_ps h))\<rparr>)"
proof (cases op)
  case (PRegister p t)
  with assms(2) hob_invD [OF assms(1)] show ?thesis
    by (auto simp: hob_inv_def TwapiRegisterPointerTic_def ptr_op_tag_def split: option.splits)
next
  case (PCounted p t)
  with assms(2) hob_invD [OF assms(1)] show ?thesis
    by (auto simp: hob_inv_def TwapiRegisterCountedPointerTic_def ptr_op_tag_def split: option.splits)
next
  case (PUnregister p t)
  with assms(2) hob_invD [OF assms(1)] show ?thesis
    by (auto simp: hob_inv_def TwapiUnregisterPointerTic_def ptr_op_tag_def Let_def split: option.splits)
qed

lemma hob_step_ok: "hob_step T h h' \<Longrightarrow> hob_inv h \<Longrightarrow> hob_inv h'"
proof (induction rule: hob_step.induct)
  case (malloc pv h type h' ob)
  then show ?case using malloc_ok by blast
next
  case (free ob h h' ob' e)
  from cmd_free_eq [OF free(2) prod.collapse [symmetric], of T ob] free(1) show ?case by auto
next
  case (other op h)
  then show ?case using other_ok by blast
qed

lemma hob_reach_inv: "hob_reach T h \<Longrightarrow> hob_inv h"
  unfolding hob_reach_def by (induction rule: rtranclp_induct) (simp add: hob_inv_def, rule hob_step_ok)

text \<open>
  C25. Whatever scripts allocate, free and make up, no block is freed that is not in use: freeing an object
  succeeds exactly when it is the address of a block that \<open>malloc\<close> gave and that was not freed,
  and freeing it again is an error.
\<close>

theorem script_frees_once:
  assumes "hob_reach T h" "ObjToLPVOID T ob = (ob', r)"
  shows "\<exists>h' e. cmd_free T ob h = Some (h', ob', e) \<and>
    (e = None \<longleftrightarrow> (\<exists>p. r = Inr p \<and> p \<in> ho_live h)) \<and>
    (e = None \<longrightarrow> ho_live h' = ho_live h - {projr r} \<and> (\<exists>ob2 e2. cmd_free T ob h' = Some (h', ob2, Some e2))) \<and>
    (e \<noteq> None \<longrightarrow> h' = h)"
proof -
  note inv = hob_reach_inv [OF assms(1)]
  from cmd_free_eq [OF inv assms(2)] obtain h' e where f: "cmd_free T ob h = Some (h', ob', e)" "hob_inv h'"
    "case r of Inl x \<Rightarrow> h' = h \<and> e = Some x
     | Inr p \<Rightarrow> if p \<in> ho_live h then e = None \<and> ho_live h' = ho_live h - {p} \<and> ho_ps h' = (ho_ps h)(p := None)
         else h' = h \<and> e \<noteq> None" by blast
  show ?thesis
  proof (cases "\<exists>p. r = Inr p \<and> p \<in> ho_live h")
    case True
    then obtain p where p: "r = Inr p" "p \<in> ho_live h" by blast
    have "\<exists>ob2 e2. cmd_free T ob h' = Some (h', ob2, Some e2)"
      using cmd_free_eq [OF f(2) assms(2)] p f(3) by auto
    with f p show ?thesis by simp
  next
    case False
    with f show ?thesis by (cases r) auto
  qed
qed

section \<open>Witnesses\<close>

definition demo_otcl :: otcl where
  "demo_otcl = tcl.extend demo_tcl \<lparr>o_decimal = (\<lambda>n. replicate n (CHR ''1''))\<rparr>
     \<lparr>t_int := (\<lambda>_. None), t_wide := (\<lambda>s. Some (int (length s)))\<rparr>"

lemma demo_opaque_law: "opaque_law demo_otcl"
proof -
  have "enc [a, c] \<noteq> ''NULL''" for a c
    by (cases a) auto
  then show ?thesis
    by (simp add: opaque_law_def demo_otcl_def tcl.defs demo_tcl_def dec_enc ObjToDWORD_PTR_def streq_def)
qed

theorem pointer_roundtrip_witness:
  "snd (ObjToOpaque demo_otcl (shimmer demo_otcl (ObjFromOpaque 5 (Some ''HKEY''))) (Some ''HKEY'')) = Inr 5"
  using pointer_roundtrip [OF demo_opaque_law, of 5 "Some ''HKEY''" "shimmer demo_otcl (ObjFromOpaque 5 (Some ''HKEY''))" "Some ''HKEY''"]
  by (simp add: type_ok_def streq_def demo_otcl_def tcl.defs demo_tcl_def)

theorem empty_type_depends_on_representation_witness:
  "snd (ObjToOpaque demo_otcl (ObjFromOpaque 5 (Some [])) (Some ''HKEY'')) = Inl (BadType [] ''HKEY'') \<and>
   snd (ObjToOpaque demo_otcl (shimmer demo_otcl (ObjFromOpaque 5 (Some []))) (Some ''HKEY'')) = Inr 5"
  using empty_type_depends_on_representation [OF demo_opaque_law, of 5 "''HKEY''"] by simp

lemma demo_block:
  "hob_reach demo_otcl \<lparr>ho_live = {8}, ho_ps = [8 \<mapsto> \<lparr>rp_tag = TwapiAlloc_tag, rp_nrefs = - 1\<rparr>]\<rparr>"
  unfolding hob_reach_def
  by (rule r_into_rtranclp, rule hob_step.malloc [where pv = 8 and type = "[]"])
    (simp_all add: cmd_malloc_def TwapiRegisterPointerTic_def)

theorem script_frees_once_witness:
  "\<exists>h' ob'. cmd_free demo_otcl (ObjFromOpaque 8 None) \<lparr>ho_live = {8}, ho_ps = [8 \<mapsto> \<lparr>rp_tag = TwapiAlloc_tag, rp_nrefs = - 1\<rparr>]\<rparr> =
     Some (h', ob', None) \<and> ho_live h' = {}"
proof -
  have "ObjToLPVOID demo_otcl (ObjFromOpaque 8 None) = (ObjFromOpaque 8 None, Inr 8)"
    by (simp add: ObjToLPVOID_def ObjToOpaque_def) (simp add: ObjFromOpaque_def)
  from script_frees_once [OF demo_block this] show ?thesis by auto
qed

end
