(* ===== verification/Getargs.thy ===== *)
theory Getargs
  imports Opaque "HOL-Library.Word"
begin

text \<open>
  The parsing of command arguments (\<open>TwapiGetArgs\<close> and \<open>TwapiGetArgsEx\<close> of \<open>base/calls.c\<close>).

  The variable arguments of the C functions are a list of formats, each with the parameters that
  follow its format character; a flag says whether the caller gave a place for the value (a
  null pointer asks for the check only). A double is its bits. The result are the values stored, in order, and the
  error, if any. A copy in the memory pool is its contents. A conversion function of the caller
  gets the object, or \<open>None\<close> for the default.
\<close>

record gtcl = otcl +
  g_double :: "string \<Rightarrow> 64 word option"
  g_wchars :: "string \<Rightarrow> 16 word list"
  g_bytes :: "string \<Rightarrow> 8 word list"

datatype 'v argfmt =
    ARGUSEDEFAULT
  | ARGSKIP
  | ARGBOOL bool
  | ARGDOUBLE bool
  | ARGINT bool
  | ARGWIDE bool
  | ARGOBJ bool
  | ARGVERIFIEDPTR bool "string option" nat
  | ARGVERIFIEDORNULL bool "string option" nat
  | ARGPTR bool "string option"
  | ARGDWORD_PTR bool
  | ARGASTR bool
  | ARGASTRN bool bool
  | ARGWORD bool
  | ARGVAR bool "tobj option \<Rightarrow> 'v option"
  | ARGVARWITHDEFAULT bool "tobj option \<Rightarrow> 'v option"
  | ARGBA bool bool
  | ARGWSTR bool
  | ARGEMPTYASNULL bool
  | ARGTOKENNULL bool
  | ARGWSTRN bool bool
  | ARGVA bool bool
  | ARGVW bool bool

datatype 'v argval =
    VInt int
  | VDouble "64 word"
  | VObj "tobj option"
  | VPtr nat
  | VStr string
  | VWord "16 word"
  | VBytes "8 word list"
  | VWStr "16 word list option"
  | VArgv "string list"
  | VArgvW "16 word list list"
  | VUser 'v

datatype arg_error = ArgCount | ArgValue | ArgOpaque opq_error | ArgNoFit16 int | ArgNoDefault | ArgFormat

type_synonym 'v argres = "'v argval list \<times> arg_error option"

definition otcl_of :: "gtcl \<Rightarrow> otcl" where
  "otcl_of G = otcl.truncate G"

definition str_of :: "gtcl \<Rightarrow> tobj \<Rightarrow> string" where
  "str_of G ob = obj_string (otcl_of G) ob"

definition wchars_of :: "gtcl \<Rightarrow> tobj option \<Rightarrow> 16 word list" where
  "wchars_of G arg = (case arg of None \<Rightarrow> [] | Some ob \<Rightarrow> g_wchars G (str_of G ob))"

text \<open>A conversion with its default, and the store.\<close>

definition get_conv :: "bool \<Rightarrow> 'a \<Rightarrow> ('a \<Rightarrow> 'v argval) \<Rightarrow> (tobj \<Rightarrow> 'a option) \<Rightarrow> tobj option \<Rightarrow> 'v argres" where
  "get_conv p dflt store conv arg =
     (case (case arg of None \<Rightarrow> Some dflt | Some ob \<Rightarrow> conv ob) of
        None \<Rightarrow> ([], Some ArgValue)
      | Some v \<Rightarrow> (if p then [store v] else [], None))"

definition get_opaque :: "bool \<Rightarrow> (tobj \<Rightarrow> tobj \<times> (opq_error + nat)) \<Rightarrow> bool \<Rightarrow> tobj option \<Rightarrow> 'v argres" where
  "get_opaque p conv nonnull arg =
     (case (case arg of None \<Rightarrow> Inr 0 | Some ob \<Rightarrow> snd (conv ob)) of
        Inl e \<Rightarrow> ([], Some (ArgOpaque e))
      | Inr pv \<Rightarrow>
          if nonnull \<and> pv = 0 then ([], Some (ArgOpaque (PtrError TWAPI_NULL_POINTER)))
          else (if p then [VPtr pv] else [], None))"

text \<open>One argument: the formats that both functions have. \<open>ps\<close> is the pointer registry.\<close>

fun get_common :: "gtcl \<Rightarrow> pointers \<Rightarrow> 'v argfmt \<Rightarrow> tobj option \<Rightarrow> 'v argres" where
  "get_common G ps ARGSKIP arg = ([], None)"
| "get_common G ps (ARGBOOL p) arg =
     get_conv p False (\<lambda>b. VInt (if b then 1 else 0)) (\<lambda>ob. t_bool G (str_of G ob)) arg"
| "get_common G ps (ARGDOUBLE p) arg = get_conv p 0 VDouble (\<lambda>ob. g_double G (str_of G ob)) arg"
| "get_common G ps (ARGINT p) arg = get_conv p 0 VInt (\<lambda>ob. t_int G (str_of G ob)) arg"
| "get_common G ps (ARGWIDE p) arg = get_conv p 0 VInt (\<lambda>ob. t_wide G (str_of G ob)) arg"
| "get_common G ps (ARGOBJ p) arg = (if p then [VObj arg] else [], None)"
| "get_common G ps (ARGVERIFIEDPTR p ty tag) arg =
     get_opaque p (\<lambda>ob. ObjToVerifiedPointerOrNullTic (otcl_of G) ps ob ty tag) True arg"
| "get_common G ps (ARGVERIFIEDORNULL p ty tag) arg =
     get_opaque p (\<lambda>ob. ObjToVerifiedPointerOrNullTic (otcl_of G) ps ob ty tag) False arg"
| "get_common G ps (ARGPTR p ty) arg = get_opaque p (\<lambda>ob. ObjToOpaque (otcl_of G) ob ty) False arg"
| "get_common G ps (ARGDWORD_PTR p) arg =
     get_conv p 0 VPtr (\<lambda>ob. ObjToDWORD_PTR (otcl_of G) (str_of G ob)) arg"
| "get_common G ps (ARGASTR p) arg = (if p then [VStr (case arg of None \<Rightarrow> [] | Some ob \<Rightarrow> str_of G ob)] else [], None)"
| "get_common G ps (ARGASTRN p l) arg =
     (let s = (case arg of None \<Rightarrow> [] | Some ob \<Rightarrow> str_of G ob)
      in ((if p then [VStr s] else []) @ (if l then [VInt (int (length s))] else []), None))"
| "get_common G ps (ARGWORD p) arg =
     (case (case arg of None \<Rightarrow> Some 0 | Some ob \<Rightarrow> t_int G (str_of G ob)) of
        None \<Rightarrow> ([], Some ArgValue)
      | Some ival \<Rightarrow>
          if ival < 0 \<or> 65535 < ival then ([], Some (ArgNoFit16 ival))
          else (if p then [VWord (word_of_int ival)] else [], None))"
| "get_common G ps (ARGVAR p conv) arg =
     (if arg = None then ([], Some ArgNoDefault)
      else if \<not> p then ([], None)
      else (case conv arg of None \<Rightarrow> ([], Some ArgValue) | Some v \<Rightarrow> ([VUser v], None)))"
| "get_common G ps (ARGVARWITHDEFAULT p conv) arg =
     (if \<not> p then ([], None)
      else (case conv arg of None \<Rightarrow> ([], Some ArgValue) | Some v \<Rightarrow> ([VUser v], None)))"
| "get_common G ps _ arg = ([], Some ArgFormat)"

text \<open>The formats that only \<open>TwapiGetArgsEx\<close> has.\<close>

definition get_wstr :: "bool \<Rightarrow> ('w list \<Rightarrow> bool) \<Rightarrow> 'w list \<Rightarrow> 'w list option list" where
  "get_wstr p is_null s = (if p then [if is_null s then None else Some s] else [])"

definition NULL_TOKEN_L :: "16 word list" where
  "NULL_TOKEN_L = map (\<lambda>c. of_nat (of_char c)) ''__null__''"

definition get_argv :: "gtcl \<Rightarrow> bool \<Rightarrow> bool \<Rightarrow> (string list \<Rightarrow> 'v argval) \<Rightarrow> tobj option \<Rightarrow> 'v argres" where
  "get_argv G p n store arg =
     (case arg of
        None \<Rightarrow> (if n then [VInt 0] else [], None)
      | Some ob \<Rightarrow>
          (case t_list G (str_of G ob) of
             None \<Rightarrow> ([], Some ArgValue)
           | Some xs \<Rightarrow> ((if n then [VInt (int (length xs))] else []) @ (if p then [store xs] else []), None)))"

fun get_ex :: "gtcl \<Rightarrow> pointers \<Rightarrow> 'v argfmt \<Rightarrow> tobj option \<Rightarrow> 'v argres" where
  "get_ex G ps (ARGBA p l) arg =
     (let bs = (case arg of None \<Rightarrow> [] | Some ob \<Rightarrow> g_bytes G (str_of G ob))
      in ((if p then [VBytes bs] else []) @ (if l then [VInt (int (length bs))] else []), None))"
| "get_ex G ps (ARGWSTR p) arg = (map VWStr (get_wstr p (\<lambda>_. False) (wchars_of G arg)), None)"
| "get_ex G ps (ARGEMPTYASNULL p) arg = (map VWStr (get_wstr p (\<lambda>s. s = []) (wchars_of G arg)), None)"
| "get_ex G ps (ARGTOKENNULL p) arg = (map VWStr (get_wstr p (\<lambda>s. s = NULL_TOKEN_L) (wchars_of G arg)), None)"
| "get_ex G ps (ARGWSTRN p l) arg =
     (map VWStr (get_wstr p (\<lambda>_. False) (wchars_of G arg)) @
      (if l then [VInt (int (length (wchars_of G arg)))] else []), None)"
| "get_ex G ps (ARGVA p n) arg = get_argv G p n VArgv arg"
| "get_ex G ps (ARGVW p n) arg = get_argv G p n (\<lambda>xs. VArgvW (map (g_wchars G) xs)) arg"
| "get_ex G ps f arg = get_common G ps f arg"

text \<open>
  The loop over the formats. \<open>exact\<close>: the formats end with \<open>ARGEND\<close>, not with \<open>ARGTERM\<close>.
\<close>

fun getargs_loop :: "('v argfmt \<Rightarrow> tobj option \<Rightarrow> 'v argres) \<Rightarrow> 'v argfmt list \<Rightarrow> tobj list \<Rightarrow> bool \<Rightarrow> bool \<Rightarrow>
    'v argval list \<Rightarrow> 'v argres" where
  "getargs_loop get [] objs use_default exact st =
     (st, if exact \<and> objs \<noteq> [] then Some ArgCount else None)"
| "getargs_loop get (f # fs) objs use_default exact st =
     (case f of
        ARGUSEDEFAULT \<Rightarrow> getargs_loop get fs objs True exact st
      | _ \<Rightarrow>
         if objs = [] \<and> \<not> use_default then (st, Some ArgCount)
         else (case get f (case objs of [] \<Rightarrow> None | ob # _ \<Rightarrow> Some ob) of
             (vs, Some e) \<Rightarrow> (st @ vs, Some e)
           | (vs, None) \<Rightarrow> getargs_loop get fs (tl objs) use_default exact (st @ vs)))"

definition TwapiGetArgs :: "gtcl \<Rightarrow> pointers \<Rightarrow> tobj list \<Rightarrow> 'v argfmt list \<Rightarrow> bool \<Rightarrow> 'v argres" where
  "TwapiGetArgs G ps objv fs exact = getargs_loop (get_common G ps) fs objv False exact []"

definition TwapiGetArgsObj :: "gtcl \<Rightarrow> pointers \<Rightarrow> tobj \<Rightarrow> 'v argfmt list \<Rightarrow> bool \<Rightarrow> 'v argres" where
  "TwapiGetArgsObj G ps ob fs exact = (case t_list G (str_of G ob) of
      None \<Rightarrow> ([], Some ArgValue)
    | Some xs \<Rightarrow> TwapiGetArgs G ps (map str_obj xs) fs exact)"

definition TwapiGetArgsEx :: "gtcl \<Rightarrow> pointers \<Rightarrow> tobj list \<Rightarrow> 'v argfmt list \<Rightarrow> bool \<Rightarrow> 'v argres" where
  "TwapiGetArgsEx G ps objv fs exact = getargs_loop (get_ex G ps) fs objv False exact []"

definition TwapiGetArgsExObj :: "gtcl \<Rightarrow> pointers \<Rightarrow> tobj \<Rightarrow> 'v argfmt list \<Rightarrow> bool \<Rightarrow> 'v argres" where
  "TwapiGetArgsExObj G ps ob fs exact = (case t_list G (str_of G ob) of
      None \<Rightarrow> ([], Some ArgValue)
    | Some xs \<Rightarrow> TwapiGetArgsEx G ps (map str_obj xs) fs exact)"

section \<open>What the formats say\<close>

text \<open>The formats of the arguments, each with whether its argument may be left out.\<close>

fun fmt_items :: "bool \<Rightarrow> 'v argfmt list \<Rightarrow> ('v argfmt \<times> bool) list" where
  "fmt_items ud [] = []"
| "fmt_items ud (ARGUSEDEFAULT # fs) = fmt_items True fs"
| "fmt_items ud (f # fs) = (f, ud) # fmt_items ud fs"

definition nth_arg :: "'a list \<Rightarrow> nat \<Rightarrow> 'a option" where
  "nth_arg xs i = (if i < length xs then Some (xs ! i) else None)"

text \<open>
  Item \<open>i\<close> fails if its argument is missing and may not be left out, or if its conversion fails.
  The arguments are accepted if no item fails and, for \<open>ARGEND\<close>, none is left.
\<close>

definition item_result :: "('v argfmt \<Rightarrow> tobj option \<Rightarrow> 'v argres) \<Rightarrow> ('v argfmt \<times> bool) list \<Rightarrow> tobj list \<Rightarrow> nat \<Rightarrow> 'v argres" where
  "item_result get items objs i =
     (if length objs \<le> i \<and> \<not> snd (items ! i) then ([], Some ArgCount)
      else get (fst (items ! i)) (nth_arg objs i))"

definition args_spec :: "('v argfmt \<Rightarrow> tobj option \<Rightarrow> 'v argres) \<Rightarrow> ('v argfmt \<times> bool) list \<Rightarrow> tobj list \<Rightarrow> bool \<Rightarrow> 'v argres" where
  "args_spec get items objs exact =
     (let n = length items; failing = filter (\<lambda>i. snd (item_result get items objs i) \<noteq> None) [0..<n]
      in case failing of
           k # _ \<Rightarrow> (concat (map (\<lambda>i. fst (item_result get items objs i)) [0..<Suc k]), snd (item_result get items objs k))
         | [] \<Rightarrow> (concat (map (\<lambda>i. fst (item_result get items objs i)) [0..<n]),
                  if exact \<and> n < length objs then Some ArgCount else None))"

lemma item_result_0: "item_result get (it # items) objs 0 =
   (if objs = [] \<and> \<not> snd it then ([], Some ArgCount)
    else get (fst it) (case objs of [] \<Rightarrow> None | ob # _ \<Rightarrow> Some ob))"
  by (cases objs) (simp_all add: item_result_def nth_arg_def)

lemma item_result_Suc: "item_result get (it # items) objs (Suc i) = item_result get items (tl objs) i"
  by (cases objs) (auto simp: item_result_def nth_arg_def)

lemma upt_Suc_shift: "[0..<Suc n] = 0 # map Suc [0..<n]"
  by (simp add: upt_conv_Cons map_Suc_upt del: upt_Suc)

lemma args_spec_Cons:
  "args_spec get (it # items) objs exact =
     (case item_result get (it # items) objs 0 of
        (vs, Some e) \<Rightarrow> (vs, Some e)
      | (vs, None) \<Rightarrow> (let (ws, r) = args_spec get items (tl objs) exact in (vs @ ws, r)))"
proof -
  let ?r = "item_result get (it # items) objs" and ?s = "item_result get items (tl objs)"
  have s: "?r (Suc i) = ?s i" for i by (rule item_result_Suc)
  have tl: "length items < length objs - Suc 0 \<longleftrightarrow> Suc (length items) < length objs" by auto
  have f: "filter (\<lambda>i. snd (?r i) \<noteq> None) [0..<Suc (length items)] =
      (if snd (?r 0) \<noteq> None then [0] else []) @ map Suc (filter (\<lambda>i. snd (?s i) \<noteq> None) [0..<length items])"
    unfolding upt_Suc_shift by (simp add: filter_map comp_def s)
  have c: "concat (map (\<lambda>i. fst (?r i)) [0..<Suc k]) = fst (?r 0) @ concat (map (\<lambda>i. fst (?s i)) [0..<k])" for k
    unfolding upt_Suc_shift by (simp add: comp_def s)
  show ?thesis
  proof (cases "snd (?r 0)")
    case (Some e)
    then show ?thesis unfolding args_spec_def Let_def length_Cons f c by (cases "?r 0") simp
  next
    case None
    show ?thesis
    proof (cases "filter (\<lambda>i. snd (?s i) \<noteq> None) [0..<length items]")
      case Nil
      with None show ?thesis unfolding args_spec_def Let_def length_Cons f c by (cases "?r 0") (simp add: tl)
    next
      case (Cons k ks)
      with None show ?thesis unfolding args_spec_def Let_def length_Cons f c by (cases "?r 0") (simp add: s)
    qed
  qed
qed

lemma getargs_loop_spec:
  "getargs_loop get fs objs ud exact st =
     (let (vs, r) = args_spec get (fmt_items ud fs) objs exact in (st @ vs, r))"
proof (induction fs arbitrary: objs ud st)
  case Nil
  show ?case by (simp add: args_spec_def)
next
  case (Cons f fs)
  show ?case
  proof (cases "f = ARGUSEDEFAULT")
    case True
    with Cons.IH show ?thesis by simp
  next
    case False
    then have items: "fmt_items ud (f # fs) = (f, ud) # fmt_items ud fs" by (cases f) simp_all
    have loop: "getargs_loop get (f # fs) objs ud exact st =
       (if objs = [] \<and> \<not> ud then (st, Some ArgCount)
        else (case get f (case objs of [] \<Rightarrow> None | ob # _ \<Rightarrow> Some ob) of
             (vs, Some e) \<Rightarrow> (st @ vs, Some e)
           | (vs, None) \<Rightarrow> getargs_loop get fs (tl objs) ud exact (st @ vs)))"
      using False by (cases f) simp_all
    show ?thesis
      unfolding loop items args_spec_Cons item_result_0
      by (auto simp: Cons.IH split: prod.splits option.splits)
  qed
qed

text \<open>
  C26. The arguments of a command are parsed as its formats say: the first item whose argument is missing
  or badly formed decides the error, the items before it have been stored in order, and without
  such an item all values are stored and only superfluous arguments are an error.
\<close>

theorem getargs_meets_spec:
  "TwapiGetArgs G ps objv fs exact = args_spec (get_common G ps) (fmt_items False fs) objv exact \<and>
   TwapiGetArgsEx G ps objv fs exact = args_spec (get_ex G ps) (fmt_items False fs) objv exact"
  by (simp add: TwapiGetArgs_def TwapiGetArgsEx_def getargs_loop_spec)

end
