(* ===== verification/Service.thy ===== *)
theory Service
  imports Evalcb Getargs Machine
begin

text \<open>
  Windows services written in Tcl (\<open>service/service.c\<close>): one interpreter of the process becomes the
  service; the service control manager calls a thread for each service and a handler for
  its controls, and both pass what they are told to the interpreter as callbacks
  (\<open>Async\<close>).

  \<open>Twapi_BecomeAService\<close> is cut into its claim (the compare-and-exchange), one part per
  service specification, and the launch, because the commands of other interpreters can run between them.
  The handler is cut at its wait for a response. The answers of the system are arguments; a
  comparison of names is \<open>lstrcmpi\<close>.
\<close>

section \<open>State\<close>

record sctx =
  sc_handle :: nat
  sc_controls :: nat
  sc_name :: string

record payload =
  pl_index :: int
  pl_ctrl :: nat
  pl_event :: nat
  pl_info :: nat

text \<open>What is left of a call of \<open>Twapi_BecomeAService\<close>: the service type, the specifications and the index.\<close>

datatype svc_setup = NoSetup | Filling tid nat "tobj list" nat

record svc_status =
  ss_type :: nat
  ss_state :: int
  ss_exit :: int
  ss_specific :: int
  ss_checkpoint :: int
  ss_hint :: int
  ss_accepted :: int

text \<open>
  \<open>gServiceInterpContextP\<close>, \<open>gServiceContexts\<close>, \<open>gNumServiceContexts\<close>, \<open>gServiceType\<close> and
  whether there is a master thread; \<open>sv_payload\<close>: the fields of the control callbacks;
  \<open>sv_reports\<close>: the calls of \<open>SetServiceStatus\<close>, the last one first.
\<close>

record svc =
  sv_async :: async
  sv_payload :: "nat \<rightharpoonup> payload"
  sv_tic :: "tid option"
  sv_contexts :: "sctx option list option"
  sv_num :: int
  sv_type :: nat
  sv_setup :: svc_setup
  sv_master :: bool
  sv_reports :: "(nat \<times> svc_status) list"

datatype svc_err = BadArgCount | BadServiceType | MultipleInvocations | InvalidSpecification
  | ConsoleHandlerFailed | SystemError nat | BadArguments arg_error | InvalidName

section \<open>Service names\<close>

text \<open>The characters up to the terminator.\<close>

definition cstr :: "string \<Rightarrow> string" where
  "cstr s = takeWhile (\<lambda>c. c \<noteq> CHR 0x00) s"

text \<open>The loop over \<open>n\<close> entries; a null entry, or one beyond the array, is dereferenced.\<close>

fun find_service :: "gtcl \<Rightarrow> string \<Rightarrow> nat \<Rightarrow> sctx option list \<Rightarrow> int \<Rightarrow> int option" where
  "find_service G name 0 cs i = Some (- 1)"
| "find_service G name (Suc n) [] i = None"
| "find_service G name (Suc n) (c # cs) i =
     (case c of
        None \<Rightarrow> None
      | Some sc \<Rightarrow> if t_lstrcmpi G (cstr (sc_name sc)) (cstr name) = 0 then Some i
                   else find_service G name n cs (i + 1))"

definition TwapiFindServiceIndex :: "gtcl \<Rightarrow> string \<Rightarrow> svc \<Rightarrow> int option" where
  "TwapiFindServiceIndex G name s =
     (case sv_contexts s of
        None \<Rightarrow> Some (- 1)
      | Some cs \<Rightarrow> find_service G name (nat (sv_num s)) cs 0)"

text \<open>\<open>gServiceContexts[i]\<close>\<close>

definition service_at :: "int \<Rightarrow> svc \<Rightarrow> sctx option" where
  "service_at i s = do {
     cs \<leftarrow> sv_contexts s;
     if 0 \<le> i \<and> nat i < length cs then cs ! nat i else None }"

definition set_service :: "int \<Rightarrow> sctx \<Rightarrow> svc \<Rightarrow> svc" where
  "set_service i c s = s\<lparr>sv_contexts := map_option (\<lambda>cs. cs[nat i := Some c]) (sv_contexts s)\<rparr>"

section \<open>Becoming a service\<close>

definition SERVICE_WIN32 :: nat where "SERVICE_WIN32 = 48"

definition SERVICE_INTERACTIVE_PROCESS :: nat where "SERVICE_INTERACTIVE_PROCESS = 256"

text \<open>Up to the allocation of the array. The result is the error, if there is one.\<close>

definition become_claim :: "gtcl \<Rightarrow> tid \<Rightarrow> tobj list \<Rightarrow> svc \<Rightarrow> (svc \<times> svc_err option) option" where
  "become_claim G c objv s =
     (case objv of
        ty # specs \<Rightarrow>
          if specs = [] then Some (s, Some BadArgCount)
          else (case t_int G (str_of G ty) of
             None \<Rightarrow> Some (s, Some BadServiceType)
           | Some n \<Rightarrow>
               if sv_tic s \<noteq> None then Some (s, Some MultipleInvocations)
               else do {
                 p \<leftarrow> TwapiInterpContextRef c 1 (a_proc (sv_async s));
                 Some (s\<lparr>sv_async := (sv_async s)\<lparr>a_proc := p\<rparr>, sv_tic := Some c,
                         sv_contexts := Some (replicate (length specs) None), sv_num := int (length specs),
                         sv_setup := Filling c (UDWORD n) specs 0\<rparr>, None) })
      | [] \<Rightarrow> Some (s, Some BadArgCount))"

definition TwapiFreeServiceContexts :: "svc \<Rightarrow> svc" where
  "TwapiFreeServiceContexts s = s\<lparr>sv_contexts := None\<rparr>"

text \<open>The error exit.\<close>

definition become_error :: "thread \<Rightarrow> tid \<Rightarrow> svc \<Rightarrow> svc option" where
  "become_error cur c s =
     (let s1 = (TwapiFreeServiceContexts s)\<lparr>sv_setup := NoSetup\<rparr>
      in if sv_tic s1 = Some c
         then do {
           p \<leftarrow> TwapiInterpContextUnref cur c 1 (a_proc (sv_async s1));
           Some (s1\<lparr>sv_async := (sv_async s1)\<lparr>a_proc := p\<rparr>, sv_tic := None\<rparr>) }
         else Some s1)"

definition parse_spec :: "gtcl \<Rightarrow> tobj \<Rightarrow> sctx option" where
  "parse_spec G spec =
     (case t_list G (str_of G spec) of
        Some [name, ctrls] \<Rightarrow>
          map_option (\<lambda>n. \<lparr>sc_handle = 0, sc_controls = UDWORD n, sc_name = name\<rparr>) (t_int G ctrls)
      | _ \<Rightarrow> None)"

text \<open>One round of the loop over the specifications.\<close>

definition become_fill :: "gtcl \<Rightarrow> thread \<Rightarrow> svc \<Rightarrow> (svc \<times> svc_err option) option" where
  "become_fill G cur s =
     (case sv_setup s of
        Filling c ty (spec # specs) i \<Rightarrow>
          (case parse_spec G spec of
             None \<Rightarrow> do { s' \<leftarrow> become_error cur c s; Some (s', Some InvalidSpecification) }
           | Some sc \<Rightarrow> Some ((set_service (int i) sc s)\<lparr>sv_setup := Filling c ty specs (Suc i)\<rparr>, None))
      | _ \<Rightarrow> None)"

text \<open>\<open>console_ok\<close>: \<open>SetConsoleCtrlHandler\<close> succeeds; \<open>thread_error\<close>: the error of the creation of the thread.\<close>

definition become_launch :: "bool \<Rightarrow> nat option \<Rightarrow> svc \<Rightarrow> (svc \<times> svc_err option) option" where
  "become_launch console_ok thread_error s =
     (case sv_setup s of
        Filling c ty [] i \<Rightarrow>
          (if \<not> console_ok then Some (s\<lparr>sv_setup := NoSetup\<rparr>, Some ConsoleHandlerFailed)
           else let s1 = s\<lparr>sv_type := and ty (or SERVICE_WIN32 SERVICE_INTERACTIVE_PROCESS), sv_setup := NoSetup\<rparr>
                in (case thread_error of
                      Some e \<Rightarrow> Some (s1, Some (SystemError e))
                    | None \<Rightarrow> Some (s1\<lparr>sv_master := True\<rparr>, None)))
      | _ \<Rightarrow> None)"

primrec become_rest :: "gtcl \<Rightarrow> thread \<Rightarrow> bool \<Rightarrow> nat option \<Rightarrow> nat \<Rightarrow> svc \<Rightarrow> (svc \<times> svc_err option) option" where
  "become_rest G cur ok te 0 s = become_launch ok te s"
| "become_rest G cur ok te (Suc n) s = do {
     (s', r) \<leftarrow> become_fill G cur s;
     (case r of Some e \<Rightarrow> Some (s', Some e) | None \<Rightarrow> become_rest G cur ok te n s') }"

definition Twapi_BecomeAService ::
    "gtcl \<Rightarrow> thread \<Rightarrow> tid \<Rightarrow> tobj list \<Rightarrow> bool \<Rightarrow> nat option \<Rightarrow> svc \<Rightarrow> (svc \<times> svc_err option) option" where
  "Twapi_BecomeAService G cur c objv ok te s = do {
     (s', r) \<leftarrow> become_claim G c objv s;
     (case r of Some e \<Rightarrow> Some (s', Some e) | None \<Rightarrow> become_rest G cur ok te (length objv - 1) s') }"

text \<open>The table that the master thread gives to the control manager: the names, and the end of the table.\<close>

fun service_table :: "nat \<Rightarrow> sctx option list \<Rightarrow> string option list option" where
  "service_table 0 cs = Some [None]"
| "service_table (Suc n) [] = None"
| "service_table (Suc n) (c # cs) = do { sc \<leftarrow> c; t \<leftarrow> service_table n cs; Some (Some (cstr (sc_name sc)) # t) }"

definition TwapiServiceMasterThread :: "svc \<Rightarrow> string option list option" where
  "TwapiServiceMasterThread s = do { cs \<leftarrow> sv_contexts s; service_table (nat (sv_num s)) cs }"

section \<open>Status reports\<close>

text \<open>\<open>report_error\<close>: the error of \<open>SetServiceStatus\<close>, if it fails.\<close>

definition SetServiceStatus :: "nat \<Rightarrow> svc_status \<Rightarrow> svc \<Rightarrow> svc" where
  "SetServiceStatus h ss s = s\<lparr>sv_reports := (h, ss) # sv_reports s\<rparr>"

definition status_formats :: "unit argfmt list" where
  "status_formats = [ARGSKIP, ARGINT True, ARGINT True, ARGINT True, ARGINT True, ARGINT True, ARGINT True]"

definition Twapi_SetServiceStatus ::
    "gtcl \<Rightarrow> pointers \<Rightarrow> tobj list \<Rightarrow> nat option \<Rightarrow> svc \<Rightarrow> (svc \<times> svc_err option) option" where
  "Twapi_SetServiceStatus G ps objv report_error s =
     (case TwapiGetArgs G ps objv status_formats True of
        (vs, Some e) \<Rightarrow> Some (s, Some (BadArguments e))
      | (vs, None) \<Rightarrow>
          (case vs of
             [VInt state, VInt exit, VInt specific, VInt checkpoint, VInt hint, VInt accepted] \<Rightarrow> do {
               i \<leftarrow> TwapiFindServiceIndex G (str_of G (objv ! 0)) s;
               if i < 0 then Some (s, Some InvalidName)
               else do {
                 c \<leftarrow> service_at i s;
                 Some (SetServiceStatus (sc_handle c)
                         \<lparr>ss_type = sv_type s, ss_state = state, ss_exit = exit, ss_specific = specific,
                          ss_checkpoint = checkpoint, ss_hint = hint, ss_accepted = accepted\<rparr> s,
                       map_option SystemError report_error) } }
           | _ \<Rightarrow> None))"

section \<open>Controls\<close>

definition control_names :: "(nat \<times> string) list" where
  "control_names = [(0, ''start''), (1, ''stop''), (2, ''pause''), (3, ''continue''), (4, ''interrogate''),
     (5, ''shutdown''), (6, ''paramchange''), (7, ''netbindadd''), (8, ''netbindremove''), (9, ''netbindenable''),
     (10, ''netbinddisable''), (12, ''hardwareprofilechange''), (13, ''powerevent''), (14, ''sessionchange'')]"

definition hardware_events :: "(nat \<times> string) list" where
  "hardware_events = [(25, ''configchangecanceled''), (24, ''configchanged''), (23, ''querychangeconfig'')]"

definition power_events :: "(nat \<times> string) list" where
  "power_events = [(4, ''apmsuspend''), (5, ''apmstandby''), (6, ''apmresumecritical''), (7, ''apmresumesuspend''),
     (8, ''apmresumestandby''), (9, ''apmbatterylow''), (10, ''apmpowerstatuschange''), (11, ''apmoemevent''),
     (18, ''apmresumeautomatic''), (0, ''apmquerysuspend''), (1, ''apmquerystandby''),
     (2, ''apmquerysuspendfailed''), (3, ''apmquerystandbyfailed'')]"

definition session_events :: "(nat \<times> string) list" where
  "session_events = [(1, ''console_connect''), (2, ''console_disconnect''), (3, ''remote_connect''),
     (4, ''remote_disconnect''), (5, ''session_login''), (6, ''session_logoff''), (7, ''session_lock''),
     (8, ''session_unlock''), (9, ''session_remote_control'')]"

definition SERVICE_CONTROL_DEVICEEVENT :: nat where "SERVICE_CONTROL_DEVICEEVENT = 11"
definition SERVICE_CONTROL_HARDWAREPROFILECHANGE :: nat where "SERVICE_CONTROL_HARDWAREPROFILECHANGE = 12"
definition SERVICE_CONTROL_POWEREVENT :: nat where "SERVICE_CONTROL_POWEREVENT = 13"
definition SERVICE_CONTROL_SESSIONCHANGE :: nat where "SERVICE_CONTROL_SESSIONCHANGE = 14"

text \<open>The two strings that the callback function chooses.\<close>

definition control_string :: "nat \<Rightarrow> string option" where
  "control_string ctrl = (case map_of control_names ctrl of
      Some s \<Rightarrow> Some s
    | None \<Rightarrow> if 128 \<le> ctrl \<and> ctrl \<le> 255 then Some ''userdefined'' else None)"

definition event_string :: "nat \<Rightarrow> nat \<Rightarrow> string option" where
  "event_string ctrl event =
     (if ctrl = SERVICE_CONTROL_HARDWAREPROFILECHANGE then map_of hardware_events event
      else if ctrl = SERVICE_CONTROL_POWEREVENT then map_of power_events event
      else if ctrl = SERVICE_CONTROL_SESSIONCHANGE then map_of session_events event
      else None)"

text \<open>
  What the handler does with a control: it returns a code at once, or passes the control on and
  waits for a response or not.
\<close>

definition ERROR_NOT_IMPLEMENTED :: nat where "ERROR_NOT_IMPLEMENTED = 120"

definition control_need :: "nat \<Rightarrow> nat \<Rightarrow> nat + bool" where
  "control_need ctrl event =
     (if ctrl \<in> {1, 2, 3, 4, 5, 6, 7, 8, 9, 10} then Inr False
      else if ctrl = SERVICE_CONTROL_HARDWAREPROFILECHANGE
      then (if event \<in> {25, 24} then Inr False else if event = 23 then Inr True else Inl 0)
      else if ctrl = SERVICE_CONTROL_POWEREVENT
      then (if event \<in> {4, 5, 6, 7, 8, 9, 10, 11, 18} then Inr False
            else if event \<in> {0, 1, 2, 3} then Inr True else Inl 0)
      else if ctrl = SERVICE_CONTROL_SESSIONCHANGE then Inr False
      else if ctrl = SERVICE_CONTROL_DEVICEEVENT then Inl 0
      else if 128 \<le> ctrl \<and> ctrl \<le> 255 then Inr False
      else Inl ERROR_NOT_IMPLEMENTED)"

section \<open>The handler\<close>

text \<open>
  A new callback for the interpreter: \<open>hdr\<close> is the size of its header, \<open>event_error\<close> the error
  of the creation of the completion event.
\<close>

definition SERVICE_CALLBACK :: nat where "SERVICE_CALLBACK = 0"

definition send_control ::
    "nat \<Rightarrow> payload \<Rightarrow> nat \<Rightarrow> nat option \<Rightarrow> svc \<Rightarrow> (svc \<times> nat \<times> nat option) option" where
  "send_control hdr pl timeout event_error s =
     (case TwapiCallbackNew hdr SERVICE_CALLBACK (hdr + 16) (sv_async s) of
        (a1, r) \<Rightarrow> do {
          i \<leftarrow> r;
          c \<leftarrow> sv_tic s;
          (a2, res) \<leftarrow> TwapiEnqueueCallback c i False timeout event_error a1;
          Some (s\<lparr>sv_async := a2, sv_payload := (sv_payload s)(i \<mapsto> pl)\<rparr>, i, res) })"

text \<open>The status that the handler returns after it got the error code and the callback.\<close>

definition handler_status :: "cb \<Rightarrow> nat \<Rightarrow> nat" where
  "handler_status x winerr =
     (if winerr = 0 then (case cb_response x of TRT_DWORD n \<Rightarrow> n | TRT_LONG n \<Rightarrow> UDWORD n | _ \<Rightarrow> 0) else 0)"

datatype handler_result = Returns nat | Awaits nat

text \<open>\<open>info\<close> is the second double word of the event data, read for a session change only.\<close>

definition TwapiServiceControlHandler ::
    "nat \<Rightarrow> int \<Rightarrow> nat \<Rightarrow> nat \<Rightarrow> nat \<Rightarrow> nat option \<Rightarrow> svc \<Rightarrow> (svc \<times> handler_result) option" where
  "TwapiServiceControlHandler hdr index ctrl event info event_error s =
     (if sv_num s \<le> index then Some (s, Returns 0)
      else (case control_need ctrl event of
         Inl status \<Rightarrow> Some (s, Returns status)
       | Inr need \<Rightarrow> do {
           let pl = \<lparr>pl_index = index, pl_ctrl = ctrl, pl_event = event,
                     pl_info = (if ctrl = SERVICE_CONTROL_SESSIONCHANGE then info else 0)\<rparr>;
           (s1, i, r) \<leftarrow> send_control hdr pl (if need then 30000 else 0) event_error s;
           if \<not> need then Some (s1, Returns 0)
           else Some (s1, case r of None \<Rightarrow> Awaits i | Some winerr \<Rightarrow> Returns 0) }))"

text \<open>
  The rest of the handler, when its wait for callback \<open>i\<close> ends. \<open>TwapiEnqueueCallback\<close> sets the pointer of
  the handler to null at its start: when it fails, there is nothing the handler could release.
\<close>

definition handler_rest :: "nat \<Rightarrow> nat option \<Rightarrow> svc \<Rightarrow> (svc \<times> nat) option" where
  "handler_rest i wait_error s = do {
     (a1, winerr) \<leftarrow> enqueue_wait i wait_error True (sv_async s);
     if wait_error \<noteq> None then Some (s\<lparr>sv_async := a1\<rparr>, 0)
     else do {
       x \<leftarrow> a_cbs a1 i;
       a2 \<leftarrow> owner_unref i a1;
       Some (s\<lparr>sv_async := a2\<rparr>, handler_status x winerr) } }"

text \<open>
  The thread of a service. \<open>argv\<close> is the array of arguments or null; \<open>h_reg\<close> is the
  handle of \<open>RegisterServiceCtrlHandlerEx\<close>, zero if it fails.
\<close>

definition SERVICE_START_PENDING :: int where "SERVICE_START_PENDING = 2"

definition TwapiServiceThread ::
    "gtcl \<Rightarrow> nat \<Rightarrow> string option list option \<Rightarrow> nat \<Rightarrow> bool \<Rightarrow> svc \<Rightarrow> svc option" where
  "TwapiServiceThread G hdr argv h_reg status_ok s = do {
     i \<leftarrow> (case argv of
            Some (Some name # _) \<Rightarrow> TwapiFindServiceIndex G name s
          | _ \<Rightarrow> Some 0);
     if i = - 1 \<or> sv_num s \<le> i then Some s
     else do {
       c \<leftarrow> service_at i s;
       args \<leftarrow> argv;
       _ \<leftarrow> (if args = [] then None else Some (hd args));
       let s1 = set_service i (c\<lparr>sc_handle := h_reg\<rparr>) s;
       if h_reg = 0 then Some s1
       else do {
         let s2 = SetServiceStatus h_reg
           \<lparr>ss_type = sv_type s, ss_state = SERVICE_START_PENDING, ss_exit = 0, ss_specific = 0, ss_checkpoint = 1,
            ss_hint = 5000, ss_accepted = int (sc_controls c)\<rparr> s1;
         if \<not> status_ok then Some s2
         else do {
           (s3, _, _) \<leftarrow> send_control hdr \<lparr>pl_index = i, pl_ctrl = 0, pl_event = 0, pl_info = 0\<rparr> 0 None s2;
           Some s3 } } } }"

section \<open>The callback function\<close>

definition ERROR_INVALID_STATE :: nat where "ERROR_INVALID_STATE = 5023"
definition ERROR_INVALID_FUNCTION :: nat where "ERROR_INVALID_FUNCTION = 1"

text \<open>The words of the script; \<open>prt\<close> prints a number.\<close>

definition service_words :: "gtcl \<Rightarrow> (int \<Rightarrow> string) \<Rightarrow> payload \<Rightarrow> sctx \<Rightarrow> string list option" where
  "service_words G prt pl c =
     map_option (\<lambda>cs.
       [''twapi::_service_handler'', cstr (sc_name c),
        UpdateOpaqueTypeString (otcl_of G) (sc_handle c) (Some ''SERVICE_STATUS_HANDLE''), cs, prt (INT32 (int (pl_ctrl pl)))] @
       (case event_string (pl_ctrl pl) (pl_event pl) of
          None \<Rightarrow> []
        | Some es \<Rightarrow> es # (if pl_ctrl pl = SERVICE_CONTROL_SESSIONCHANGE then [prt (INT32 (int (pl_info pl)))] else [])))
     (control_string (pl_ctrl pl))"

fun new_objs :: "string list \<Rightarrow> obj_heap \<Rightarrow> obj_heap \<times> nat list" where
  "new_objs [] h = (h, [])"
| "new_objs (w # ws) h = (let (h1, x) = ObjFromString w h; (h2, xs) = new_objs ws h1 in (h2, x # xs))"

text \<open>The arguments are those of \<open>TwapiEvalAndUpdateCallback\<close>, which evaluates the script.\<close>

definition TwapiServiceControlCallbackFn ::
    "gtcl \<Rightarrow> (int \<Rightarrow> string) \<Rightarrow> tcl_conv \<Rightarrow> (nat list \<Rightarrow> obj_heap \<Rightarrow> proc \<Rightarrow> bool \<times> string \<times> obj_heap \<times> proc) \<Rightarrow>
     thread \<Rightarrow> bool \<Rightarrow> svc \<Rightarrow> payload \<Rightarrow> cb \<Rightarrow> obj_heap \<Rightarrow> (cb \<times> bool \<times> obj_heap \<times> proc) option" where
  "TwapiServiceControlCallbackFn G prt cv eval cur deleted s pl x h = do {
     let p = a_proc (sv_async s);
     c \<leftarrow> cb_tic x;
     t \<leftarrow> p_tics p c;
     if tic_interp t = None \<or> deleted
     then Some (x\<lparr>cb_winerr := ERROR_INVALID_STATE, cb_response := TRT_EMPTY\<rparr>, False, h, p)
     else if sv_num s \<le> pl_index pl then Some (x\<lparr>cb_winerr := 87\<rparr>, False, h, p)
     else if control_string (pl_ctrl pl) = None then Some (x\<lparr>cb_winerr := ERROR_INVALID_FUNCTION\<rparr>, False, h, p)
     else do {
       sc \<leftarrow> service_at (pl_index pl) s;
       ws \<leftarrow> service_words G prt pl sc;
       let (h1, objs) = new_objs ws h;
       TwapiEvalAndUpdateCallback cv eval cur deleted objs RT_LONG x h1 p } }"

end
