(* ===== verification/Async_Send.thy ===== *)
theory Async_Send
  imports Async_Props
begin

text \<open>
  What a notification thread finds that makes a callback and enqueues it at once, as the handlers of
  services and of the console do: the effect on the state of \<open>Async\<close>, under its invariant.
\<close>

definition sent_cb :: "nat \<Rightarrow> tid \<Rightarrow> nat \<Rightarrow> cb" where
  "sent_cb f c timeout =
     \<lparr>cb_tic = Some c, cb_callback = f, cb_nrefs = (if timeout = 0 then 1 else 2),
      cb_event = (if timeout = 0 then None else Some False), cb_winerr = 0, cb_response = TRT_EMPTY, cb_deletions = 0\<rparr>"

text \<open>The state after a callback with function \<open>f\<close> was sent to context \<open>c\<close>, which is \<open>t\<close>.\<close>

definition sent :: "nat \<Rightarrow> tid \<Rightarrow> tic \<Rightarrow> nat \<Rightarrow> async \<Rightarrow> async" where
  "sent f c t timeout a =
     a\<lparr>a_proc := upd_tic c (t\<lparr>tic_nrefs := tic_nrefs t + 1\<rparr>) (a_proc a),
       a_cbs := (a_cbs a)(a_next a \<mapsto> sent_cb f c timeout), a_next := Suc (a_next a),
       a_queue := a_queue a @ [(tic_thread t, a_next a)],
       a_sender := (a_sender a)(a_next a := if timeout = 0 then Fired else Waiting)\<rparr>"

lemma find_append_None: "find P xs = None \<Longrightarrow> find P (xs @ ys) = find P ys"
  by (induction xs) (auto split: if_splits)

text \<open>The number of a new callback is unused.\<close>

lemma new_number:
  assumes "a_inv a"
  shows "a_cbs a (a_next a) = None" "a_sender a (a_next a) = Fresh" "a_next a \<notin># pendingM a"
proof -
  show none: "a_cbs a (a_next a) = None"
    using a_inv_cb [OF assms, of "a_next a"] by (cases "a_cbs a (a_next a)") auto
  have ok: "cb_ok a (a_next a)" using assms by (simp add: a_inv_def)
  then show "a_sender a (a_next a) = Fresh" using none by (simp add: cb_ok_def)
  have "cnt (a_queue a) (a_next a) + cnt (a_handling a) (a_next a) = 0" using ok none by (simp add: cb_ok_def)
  then show "a_next a \<notin># pendingM a" by (simp add: count_pendingM flip: count_eq_zero_iff)
qed

lemma new_then_enqueue:
  assumes "p_tics (a_proc a) c = Some t"
  shows "\<exists>a1. TwapiCallbackNew hdr f (hdr + k) a = (a1, Some (a_next a)) \<and>
    p_tics (a_proc a1) = p_tics (a_proc a) \<and> a_sender a1 = a_sender a \<and> a_cbs a1 (a_next a) \<noteq> None \<and>
    a_queue a1 = a_queue a \<and> a_handling a1 = a_handling a \<and> (\<forall>j. j \<noteq> a_next a \<longrightarrow> a_cbs a1 j = a_cbs a j) \<and>
    TwapiEnqueueCallback c (a_next a) False timeout None a1 =
      Some (sent f c t timeout a, if timeout = 0 then Some 0 else None)"
  using assms
  by (auto simp: TwapiCallbackNew_def TwapiEnqueueCallback_def TwapiCallbackRef_def TwapiInterpContextRef_def
      TwapiEnqueueTclEvent_def ExchangeAdd_def upd_cb_def set_sender_def upd_tic_def sent_def sent_cb_def Let_def)

lemma outside_cong:
  assumes "p_tics (a_proc a') d = p_tics (a_proc a) d" "pend a' d = pend a d"
  shows "outside a' d = outside a d"
  using assms by (simp add: outside_def ctx_refs_def)

lemma sent_outside:
  assumes "a_inv a" "p_tics (a_proc a) c = Some t"
  shows "outside (sent f c t timeout a) d = outside a d"
proof -
  let ?a = "sent f c t timeout a"
  have "pend ?a d = pend a d + (if tic_of ?a (a_next a) = Some d then 1 else 0)"
    by (rule pend_add [OF _ new_number(3) [OF assms(1)]]) (auto simp: sent_def pendingM_def tic_of_def)
  moreover have "tic_of ?a (a_next a) = Some c" by (simp add: sent_def tic_of_def sent_cb_def)
  moreover have "ctx_refs d (a_proc ?a) = ctx_refs d (a_proc a) + (if d = c then 1 else 0)"
    using assms(2) by (simp add: sent_def ctx_refs_def upd_tic_def)
  ultimately show ?thesis by (auto simp: outside_def)
qed

lemma sent_steps:
  assumes inv: "a_inv a" and t: "p_tics (a_proc a) c = Some t" and out: "0 < outside a c"
  shows "astep\<^sup>*\<^sup>* a (sent f c t timeout a)"
proof -
  obtain a1 where a1: "TwapiCallbackNew 0 f (0 + 0) a = (a1, Some (a_next a))"
    "p_tics (a_proc a1) = p_tics (a_proc a)" "a_sender a1 = a_sender a" "a_queue a1 = a_queue a"
    "a_handling a1 = a_handling a" "\<forall>j. j \<noteq> a_next a \<longrightarrow> a_cbs a1 j = a_cbs a j"
    "TwapiEnqueueCallback c (a_next a) False timeout None a1 =
      Some (sent f c t timeout a, if timeout = 0 then Some 0 else None)"
    using new_then_enqueue [where hdr = 0 and k = 0 and f = f and timeout = timeout, OF t] by blast
  have "pend a1 c = pend a c"
  proof (rule pend_same)
    show "pendingM a1 = pendingM a" by (simp add: pendingM_def a1(4,5))
    show "tic_of a1 j = tic_of a j" if "j \<in># pendingM a" for j
    proof -
      have "j \<noteq> a_next a" using that new_number(3) [OF inv] by metis
      then show ?thesis using a1(6) by (simp add: tic_of_def)
    qed
  qed
  then have "outside a1 c = outside a c" by (intro outside_cong) (simp_all add: a1(2))
  with out have "astep a1 (sent f c t timeout a)"
    by (intro astep.send [OF _ _ a1(7)]) (simp_all add: a1(3) new_number(2) [OF inv])
  with astep.new [OF a1(1)] show ?thesis by (rule converse_rtranclp_into_rtranclp [OF _ r_into_rtranclp])
qed

lemma steps_inv: "astep\<^sup>*\<^sup>* a a' \<Longrightarrow> a_inv a \<Longrightarrow> a_inv a'"
  by (induction rule: rtranclp_induct) (auto intro: astep_inv)

text \<open>A context with a reference outside of the queue is there and was not deleted.\<close>

lemma outside_live:
  assumes "a_inv a" "0 < outside a c"
  obtains t where "p_tics (a_proc a) c = Some t" "tic_deletions t = 0" "0 < tic_nrefs t"
proof (cases "p_tics (a_proc a) c")
  case None
  then show ?thesis using assms(2) by (simp add: outside_def ctx_refs_def)
next
  case (Some t)
  with a_inv_ctx [OF assms(1) Some] assms(2) show ?thesis
    by (intro that [of t]) (auto simp: outside_def ctx_refs_def ctx_good_def)
qed

text \<open>A step that only changes what a callback holds, but not its context, changes nothing about contexts.\<close>

lemma outside_same_cb:
  assumes "a_cbs a i = Some x" "a_cbs a' = (a_cbs a)(i \<mapsto> y)" "cb_tic y = cb_tic x"
    "a_proc a' = a_proc a" "a_queue a' = a_queue a" "a_handling a' = a_handling a"
  shows "outside a' d = outside a d"
proof (intro outside_cong pend_same)
  show "tic_of a' j = tic_of a j" for j using assms(1-3) by (simp add: tic_of_def)
qed (simp_all add: assms(4-6) pendingM_def)

lemma owner_unref_effect:
  assumes "owner_unref i a = Some a'"
  obtains x y where "a_cbs a i = Some x" "a_cbs a' = (a_cbs a)(i \<mapsto> y)" "cb_tic y = cb_tic x"
    "a_proc a' = a_proc a" "a_queue a' = a_queue a" "a_handling a' = a_handling a"
    "a_sender a' = (a_sender a)(i := Finished 0)"
proof -
  obtain a2 where a2: "TwapiCallbackUnref i 1 a = Some a2" and a': "a' = set_sender i (Finished 0) a2"
    using assms by (cases "TwapiCallbackUnref i 1 a") (simp_all add: owner_unref_def)
  obtain x y where "a_cbs a i = Some x" "a2 = upd_cb i y a" "cb_tic y = cb_tic x"
    by (rule CallbackUnref_cb [OF a2]) (rule that)
  then show ?thesis by (intro that [of x y]) (simp_all add: a' cb_simps)
qed

lemma wait_for_response:
  assumes "enqueue_wait i w True a = Some (a', n)"
  obtains x y where "a_cbs a i = Some x" "a_cbs a' = (a_cbs a)(i \<mapsto> y)" "cb_tic y = cb_tic x"
    "cb_response y = cb_response x" "a_proc a' = a_proc a" "a_queue a' = a_queue a" "a_handling a' = a_handling a"
    "a_sender a' = (a_sender a)(i := case w of None \<Rightarrow> Owns | Some e \<Rightarrow> TimedOut e)"
    "n = (case w of None \<Rightarrow> cb_winerr x | Some e \<Rightarrow> e)"
proof -
  obtain x where x: "a_cbs a i = Some x" using assms by (cases "a_cbs a i") (simp_all add: enqueue_wait_def)
  show ?thesis
  proof (cases w)
    case None
    with assms x show ?thesis
      by (intro that [of x "x\<lparr>cb_event := Some False\<rparr>"]) (auto simp: enqueue_wait_def Let_def cb_simps)
  next
    case (Some e)
    with assms x show ?thesis
      by (intro that [of x x]) (auto simp: enqueue_wait_def Let_def cb_simps fun_upd_idem)
  qed
qed

end
