(* ===== verification/Service_Inv.thy ===== *)
theory Service_Inv
  imports Service Async_Send
begin

text \<open>
  The invariant of the service state under the commands of all interpreters, the threads of the control
  manager and everything that happens to callbacks and contexts meanwhile, and what it
  gives: the interpreter is kept, controls reach its script and responses come back.
\<close>

section \<open>Steps\<close>

text \<open>
  A caller has its own reference on its context. \<open>other\<close>: the holders of contexts drop no more than they have,
  so that the reference of the service is left. The creation of the completion event succeeds.
\<close>

inductive sstep :: "gtcl \<Rightarrow> svc \<Rightarrow> svc \<Rightarrow> bool" for G where
  claim: "0 < outside (sv_async s) c \<Longrightarrow> become_claim G c objv s = Some (s', r) \<Longrightarrow> sstep G s s'"
| fill: "become_fill G cur s = Some (s', r) \<Longrightarrow> sstep G s s'"
| launch: "become_launch ok te s = Some (s', r) \<Longrightarrow> sstep G s s'"
| status: "Twapi_SetServiceStatus G ps objv e s = Some (s', r) \<Longrightarrow> sstep G s s'"
| thread: "sv_master s \<Longrightarrow> TwapiServiceThread G hdr argv h ok s = Some s' \<Longrightarrow> sstep G s s'"
| control: "sv_master s \<Longrightarrow> 0 \<le> i \<Longrightarrow> TwapiServiceControlHandler hdr i ctrl event info None s = Some (s', r) \<Longrightarrow> sstep G s s'"
| rest: "a_sender (sv_async s) i = Waiting \<Longrightarrow>
     w = None \<longrightarrow> (\<exists>x. a_cbs (sv_async s) i = Some x \<and> cb_event x = Some True) \<Longrightarrow>
     handler_rest i w s = Some (s', n) \<Longrightarrow> sstep G s s'"
| other: "astep (sv_async s) a \<Longrightarrow> \<forall>c. sv_tic s = Some c \<longrightarrow> 0 < outside a c \<Longrightarrow> sstep G s (s\<lparr>sv_async := a\<rparr>)"

definition svc_start :: "proc \<Rightarrow> svc" where
  "svc_start p = \<lparr>sv_async = async_start p, sv_payload = Map.empty, sv_tic = None, sv_contexts = None, sv_num = 0,
     sv_type = 0, sv_setup = NoSetup, sv_master = False, sv_reports = []\<rparr>"

section \<open>The invariant\<close>

definition setup_ok :: "tid \<Rightarrow> sctx option list \<Rightarrow> svc \<Rightarrow> bool" where
  "setup_ok c cs s \<longleftrightarrow> (case sv_setup s of
      NoSetup \<Rightarrow> None \<notin> set cs
    | Filling c' ty specs i \<Rightarrow> c' = c \<and> \<not> sv_master s \<and> i + length specs = length cs \<and> None \<notin> set (take i cs))"

definition sv_ok :: "svc \<Rightarrow> bool" where
  "sv_ok s \<longleftrightarrow> (case sv_tic s of
      None \<Rightarrow> sv_contexts s = None \<and> sv_setup s = NoSetup \<and> \<not> sv_master s
    | Some c \<Rightarrow> 0 < outside (sv_async s) c \<and>
        (\<exists>cs. sv_contexts s = Some cs \<and> sv_num s = int (length cs) \<and> cs \<noteq> [] \<and> setup_ok c cs s))"

definition payloads_ok :: "svc \<Rightarrow> bool" where
  "payloads_ok s \<longleftrightarrow> (\<forall>i pl. sv_payload s i = Some pl \<longrightarrow>
     sv_master s \<and> 0 \<le> pl_index pl \<and> pl_index pl < sv_num s \<and> control_string (pl_ctrl pl) \<noteq> None)"

definition sv_inv :: "svc \<Rightarrow> bool" where
  "sv_inv s \<longleftrightarrow> a_inv (sv_async s) \<and> sv_ok s \<and> payloads_ok s"

text \<open>What the invariant says of a service whose master thread runs.\<close>

lemma master_started:
  assumes "sv_inv s" "sv_master s"
  obtains c cs t where "sv_tic s = Some c" "sv_contexts s = Some cs" "sv_num s = int (length cs)" "cs \<noteq> []"
    "None \<notin> set cs" "sv_setup s = NoSetup" "0 < outside (sv_async s) c" "p_tics (a_proc (sv_async s)) c = Some t"
    "tic_deletions t = 0" "0 < tic_nrefs t"
proof -
  obtain c where c: "sv_tic s = Some c" using assms by (cases "sv_tic s") (auto simp: sv_inv_def sv_ok_def)
  with assms obtain cs where cs: "sv_contexts s = Some cs" "sv_num s = int (length cs)" "cs \<noteq> []" "setup_ok c cs s"
    "0 < outside (sv_async s) c" by (auto simp: sv_inv_def sv_ok_def)
  have "sv_setup s = NoSetup" "None \<notin> set cs" using cs(4) assms(2) by (auto simp: setup_ok_def split: svc_setup.splits)
  moreover obtain t where "p_tics (a_proc (sv_async s)) c = Some t" "tic_deletions t = 0" "0 < tic_nrefs t"
    by (rule outside_live [OF _ cs(5)]) (use assms(1) in \<open>auto simp: sv_inv_def\<close>)
  ultimately show ?thesis using that c cs by blast
qed

lemma started_service:
  assumes "None \<notin> set cs" "sv_contexts s = Some cs" "sv_num s = int (length cs)" "0 \<le> i" "i < sv_num s"
  obtains sc where "service_at i s = Some sc" "cs ! nat i = Some sc"
proof -
  have n: "nat i < length cs" using assms(3-5) by simp
  then have "cs ! nat i \<in> set cs" by (rule nth_mem)
  then have "cs ! nat i \<noteq> None" using assms(1) by metis
  then obtain sc where sc: "cs ! nat i = Some sc" by (rule not_None_eq [THEN iffD1, THEN exE])
  then have "service_at i s = Some sc" using assms(2,4) n by (simp add: service_at_def)
  then show ?thesis using sc by (rule that)
qed

lemma set_service_simps [simp]:
  "sv_async (set_service i c s) = sv_async s" "sv_payload (set_service i c s) = sv_payload s"
  "sv_tic (set_service i c s) = sv_tic s" "sv_num (set_service i c s) = sv_num s"
  "sv_setup (set_service i c s) = sv_setup s" "sv_master (set_service i c s) = sv_master s"
  "sv_type (set_service i c s) = sv_type s" "sv_reports (set_service i c s) = sv_reports s"
  "sv_contexts (set_service i c s) = map_option (\<lambda>cs. cs[nat i := Some c]) (sv_contexts s)"
  by (simp_all add: set_service_def)

lemma report_simps [simp]:
  "sv_async (SetServiceStatus h r s) = sv_async s" "sv_payload (SetServiceStatus h r s) = sv_payload s"
  "sv_tic (SetServiceStatus h r s) = sv_tic s" "sv_num (SetServiceStatus h r s) = sv_num s"
  "sv_setup (SetServiceStatus h r s) = sv_setup s" "sv_master (SetServiceStatus h r s) = sv_master s"
  "sv_contexts (SetServiceStatus h r s) = sv_contexts s" "sv_type (SetServiceStatus h r s) = sv_type s"
  by (simp_all add: SetServiceStatus_def)

lemma sv_inv_cong:
  assumes "sv_inv s" "sv_async s' = sv_async s" "sv_payload s' = sv_payload s" "sv_tic s' = sv_tic s"
    "sv_num s' = sv_num s" "sv_setup s' = sv_setup s" "sv_master s' = sv_master s" "sv_contexts s' = sv_contexts s"
  shows "sv_inv s'"
  using assms(1) unfolding sv_inv_def sv_ok_def payloads_ok_def setup_ok_def assms(2-8) .

lemma None_update: "None \<notin> set cs \<Longrightarrow> None \<notin> set (cs[i := Some c])"
  by (auto dest!: set_update_subset_insert [THEN subsetD])

text \<open>A change of a service that is there.\<close>

lemma set_service_inv:
  assumes "sv_inv s" "sv_master s"
  shows "sv_inv (set_service i sc s)"
proof -
  obtain c cs where c: "sv_tic s = Some c" "sv_contexts s = Some cs" "sv_num s = int (length cs)" "cs \<noteq> []"
    "None \<notin> set cs" "sv_setup s = NoSetup" "0 < outside (sv_async s) c"
    using assms by (rule master_started)
  have "sv_ok (set_service i sc s)" using c None_update by (simp add: sv_ok_def setup_ok_def)
  then show ?thesis using assms(1) by (simp add: sv_inv_def payloads_ok_def)
qed

section \<open>Every step keeps the invariant\<close>

text \<open>A callback that is sent to the interpreter of the service.\<close>

definition with_control :: "tid \<Rightarrow> tic \<Rightarrow> nat \<Rightarrow> payload \<Rightarrow> svc \<Rightarrow> svc" where
  "with_control c t timeout pl s =
     s\<lparr>sv_async := sent SERVICE_CALLBACK c t timeout (sv_async s),
       sv_payload := (sv_payload s)(a_next (sv_async s) \<mapsto> pl)\<rparr>"

lemma send_control_ok:
  assumes inv: "sv_inv s" and m: "sv_master s" and c: "sv_tic s = Some c"
    and t: "p_tics (a_proc (sv_async s)) c = Some t"
    and pl: "0 \<le> pl_index pl" "pl_index pl < sv_num s" "control_string (pl_ctrl pl) \<noteq> None"
  shows "send_control hdr pl timeout None s =
      Some (with_control c t timeout pl s, a_next (sv_async s), if timeout = 0 then Some 0 else None) \<and>
    sv_inv (with_control c t timeout pl s)"
proof
  define i where "i = a_next (sv_async s)"
  define s' where "s' = with_control c t timeout pl s"
  note s'_def = s'_def [unfolded with_control_def, folded i_def]
  obtain a1 where a1: "TwapiCallbackNew hdr SERVICE_CALLBACK (hdr + 16) (sv_async s) = (a1, Some i)"
    "TwapiEnqueueCallback c i False timeout None a1 =
       Some (sent SERVICE_CALLBACK c t timeout (sv_async s), if timeout = 0 then Some 0 else None)"
    using new_then_enqueue [where hdr = hdr and k = 16 and f = SERVICE_CALLBACK and timeout = timeout, OF t]
    unfolding i_def by blast
  then show "send_control hdr pl timeout None s =
      Some (with_control c t timeout pl s, a_next (sv_async s), if timeout = 0 then Some 0 else None)"
    using c by (simp add: send_control_def with_control_def i_def)
  have a: "a_inv (sv_async s)" using inv by (simp add: sv_inv_def)
  obtain c' cs where cs: "sv_tic s = Some c'" "sv_contexts s = Some cs" "sv_num s = int (length cs)" "cs \<noteq> []"
    "None \<notin> set cs" "sv_setup s = NoSetup" "0 < outside (sv_async s) c'"
    using inv m by (rule master_started)
  then have out: "0 < outside (sv_async s) c" using c by simp
  have "a_inv (sv_async s')" using steps_inv [OF sent_steps [OF a t out] a] by (simp add: s'_def)
  moreover have "sv_ok s'"
    using cs c out sent_outside [OF a t] by (simp add: sv_ok_def setup_ok_def s'_def)
  moreover have "payloads_ok s'" using inv m pl by (auto simp: sv_inv_def payloads_ok_def s'_def)
  ultimately show "sv_inv (with_control c t timeout pl s)" by (simp add: sv_inv_def with_control_def s'_def i_def)
qed

text \<open>The controls that the handler passes on are those that the callback function knows.\<close>

lemma passed_on_known: "control_need ctrl event = Inr need \<Longrightarrow> control_string ctrl \<noteq> None"
  by (simp add: control_need_def control_string_def control_names_def SERVICE_CONTROL_HARDWAREPROFILECHANGE_def
      SERVICE_CONTROL_POWEREVENT_def SERVICE_CONTROL_SESSIONCHANGE_def SERVICE_CONTROL_DEVICEEVENT_def split: if_splits) blast

lemma passed_on_event:
  assumes "control_need ctrl event = Inr need"
    "ctrl = SERVICE_CONTROL_HARDWAREPROFILECHANGE \<or> ctrl = SERVICE_CONTROL_POWEREVENT"
  shows "event_string ctrl event \<noteq> None"
  using assms(2)
proof
  assume c: "ctrl = SERVICE_CONTROL_HARDWAREPROFILECHANGE"
  then have "event \<in> {25, 24, 23}"
    using assms(1) by (simp add: control_need_def SERVICE_CONTROL_HARDWAREPROFILECHANGE_def split: if_splits) blast
  then show ?thesis using c by (elim insertE emptyE; simp add: event_string_def hardware_events_def)
next
  assume c: "ctrl = SERVICE_CONTROL_POWEREVENT"
  then have "event \<in> {4, 5, 6, 7, 8, 9, 10, 11, 18} \<union> {0, 1, 2, 3}"
    using assms(1) by (simp add: control_need_def SERVICE_CONTROL_POWEREVENT_def
        SERVICE_CONTROL_HARDWAREPROFILECHANGE_def split: if_splits)
  then show ?thesis using c
    by (elim UnE insertE emptyE; simp add: event_string_def power_events_def SERVICE_CONTROL_POWEREVENT_def
        SERVICE_CONTROL_HARDWAREPROFILECHANGE_def)
qed

lemma a_inv_tics:
  assumes "a_inv a" "p_tics (a_proc a) c = Some t" "p_tics p = (p_tics (a_proc a))(c \<mapsto> t')" "ctx_good t' (pend a c)"
  shows "a_inv (a\<lparr>a_proc := p\<rparr>)"
  by (rule step_context [OF assms])

lemma outside_tics:
  assumes "p_tics (a_proc a) c = Some t" "p_tics p = (p_tics (a_proc a))(c \<mapsto> t')"
  shows "outside (a\<lparr>a_proc := p\<rparr>) d = outside a d + (if d = c then tic_nrefs t' - tic_nrefs t else 0)"
proof -
  have "pend (a\<lparr>a_proc := p\<rparr>) d = pend a d" by (rule pend_same) (simp_all add: pendingM_def tic_of_def)
  then show ?thesis using assms by (simp add: outside_def ctx_refs_def)
qed

lemma no_payloads: "sv_inv s \<Longrightarrow> \<not> sv_master s \<Longrightarrow> sv_payload s = Map.empty"
  unfolding sv_inv_def payloads_ok_def by (intro ext) (metis option.exhaust)

text \<open>A claim while there is a service changes nothing.\<close>

lemma claim_refused:
  assumes "sv_tic s \<noteq> None"
  shows "\<exists>e. become_claim G c objv s = Some (s, Some e) \<and> e \<in> {BadArgCount, BadServiceType, MultipleInvocations}"
  using assms by (auto simp: become_claim_def split: list.split option.split)

lemma claim_ok:
  assumes inv: "sv_inv s" and out: "0 < outside (sv_async s) c" and st: "become_claim G c objv s = Some (s', r)"
  shows "sv_inv s'"
proof (cases "s' = s")
  case True
  with inv show ?thesis by simp
next
  case False
  then obtain ty specs n p where objv: "objv = ty # specs" "specs \<noteq> []" "sv_tic s = None"
    and p: "TwapiInterpContextRef c 1 (a_proc (sv_async s)) = Some p"
    and s': "s' = s\<lparr>sv_async := (sv_async s)\<lparr>a_proc := p\<rparr>, sv_tic := Some c,
                         sv_contexts := Some (replicate (length specs) None), sv_num := int (length specs),
                         sv_setup := Filling c (UDWORD n) specs 0\<rparr>"
    using st by (auto simp: become_claim_def split: list.splits if_splits option.splits bind_splits)
  obtain t where t: "p_tics (a_proc (sv_async s)) c = Some t"
    "p_tics p = (p_tics (a_proc (sv_async s)))(c \<mapsto> t\<lparr>tic_nrefs := tic_nrefs t + 1\<rparr>)"
    by (rule Ref_tics [OF p])
  have a: "a_inv (sv_async s)" and m: "\<not> sv_master s" using inv objv(3) by (auto simp: sv_inv_def sv_ok_def)
  have "0 < tic_nrefs t" using out t(1) by (simp add: outside_def ctx_refs_def)
  then have "a_inv ((sv_async s)\<lparr>a_proc := p\<rparr>)"
    by (intro a_inv_tics [OF a t] ctx_good_add [OF a_inv_ctx [OF a t(1)]]) simp_all
  moreover have "sv_ok s'"
    using objv(2) out m outside_tics [OF t, of c] by (simp add: sv_ok_def setup_ok_def s')
  ultimately show ?thesis using objv(3) no_payloads [OF inv m] by (simp add: sv_inv_def payloads_ok_def s')
qed

lemma fill_ok:
  assumes inv: "sv_inv s" and st: "become_fill G cur s = Some (s', r)"
  shows "sv_inv s'"
proof -
  obtain c ty spec specs i where su: "sv_setup s = Filling c ty (spec # specs) i"
    using st by (auto simp: become_fill_def split: svc_setup.splits list.splits)
  then obtain cs where cs: "sv_tic s = Some c" "sv_contexts s = Some cs" "sv_num s = int (length cs)" "cs \<noteq> []"
    "i + Suc (length specs) = length cs" "None \<notin> set (take i cs)" "0 < outside (sv_async s) c" "\<not> sv_master s"
    using inv by (auto simp: sv_inv_def sv_ok_def setup_ok_def split: option.splits)
  have a: "a_inv (sv_async s)" using inv by (simp add: sv_inv_def)
  show ?thesis
  proof (cases "parse_spec G spec")
    case (Some sc)
    then have s': "s' = (set_service (int i) sc s)\<lparr>sv_setup := Filling c ty specs (Suc i)\<rparr>"
      using st su by (simp add: become_fill_def)
    have "take (Suc i) (cs[i := Some sc]) = take i cs @ [Some sc]"
      using cs(5) by (simp add: take_Suc_conv_app_nth)
    then have "None \<notin> set (take (Suc i) (cs[i := Some sc]))" using cs(6) by simp
    then have "sv_ok s'" using cs by (simp add: s' sv_ok_def setup_ok_def)
    then show ?thesis using a no_payloads [OF inv cs(8)] by (simp add: sv_inv_def payloads_ok_def s')
  next
    case None
    then obtain p where p: "TwapiInterpContextUnref cur c 1 (a_proc (sv_async s)) = Some p"
      and s': "s' = s\<lparr>sv_contexts := None, sv_setup := NoSetup, sv_async := (sv_async s)\<lparr>a_proc := p\<rparr>, sv_tic := None\<rparr>"
      using st su cs(1) by (auto simp: become_fill_def become_error_def TwapiFreeServiceContexts_def Let_def split: bind_splits)
    obtain t t' where t: "p_tics (a_proc (sv_async s)) c = Some t" "p_tics p = (p_tics (a_proc (sv_async s)))(c \<mapsto> t')"
      "tic_nrefs t' = tic_nrefs t - 1" "tic_deletions t' = tic_deletions t + (if tic_nrefs t \<le> 1 then 1 else 0)"
      by (rule Unref_tics [OF p])
    have "int (pend (sv_async s) c) \<le> tic_nrefs t - 1" using cs(7) t(1) by (simp add: outside_def ctx_refs_def)
    then have "ctx_good t' (pend (sv_async s) c)"
      by (intro ctx_good_drop [OF a_inv_ctx [OF a t(1)] _ _ t(3,4)]) simp_all
    then have "a_inv ((sv_async s)\<lparr>a_proc := p\<rparr>)" by (rule a_inv_tics [OF a t(1,2)])
    then show ?thesis using cs(8) no_payloads [OF inv cs(8)] by (simp add: sv_inv_def sv_ok_def payloads_ok_def s')
  qed
qed

lemma launch_ok:
  assumes inv: "sv_inv s" and st: "become_launch ok te s = Some (s', r)"
  shows "sv_inv s'"
proof -
  obtain c ty i where su: "sv_setup s = Filling c ty [] i"
    using st by (auto simp: become_launch_def split: svc_setup.splits list.splits)
  then obtain cs where cs: "sv_tic s = Some c" "sv_contexts s = Some cs" "sv_num s = int (length cs)" "cs \<noteq> []"
    "None \<notin> set cs" "0 < outside (sv_async s) c" "\<not> sv_master s"
    using inv by (auto simp: sv_inv_def sv_ok_def setup_ok_def split: option.splits)
  have s': "sv_async s' = sv_async s" "sv_payload s' = sv_payload s" "sv_tic s' = sv_tic s" "sv_num s' = sv_num s"
    "sv_setup s' = NoSetup" "sv_contexts s' = sv_contexts s"
    using st su by (auto simp: become_launch_def Let_def split: if_splits option.splits)
  have "sv_ok s'" using cs by (simp add: sv_ok_def setup_ok_def s')
  then show ?thesis using inv no_payloads [OF inv cs(7)] by (simp add: sv_inv_def payloads_ok_def s')
qed

lemma find_service_some:
  assumes "None \<notin> set cs"
  shows "\<exists>i. find_service G name (length cs) cs k = Some i \<and> (i = - 1 \<or> k \<le> i \<and> i < k + int (length cs))"
  using assms
proof (induction cs arbitrary: k)
  case (Cons c cs)
  then obtain sc where c: "c = Some sc" by (cases c) auto
  show ?case
  proof (cases "t_lstrcmpi G (cstr (sc_name sc)) (cstr name) = 0")
    case False
    from Cons obtain i where "find_service G name (length cs) cs (k + 1) = Some i"
      "i = - 1 \<or> k + 1 \<le> i \<and> i < k + 1 + int (length cs)" by fastforce
    with False c show ?thesis by auto
  qed (use c in simp)
qed simp

lemma find_index_some:
  assumes "sv_contexts s = Some cs" "sv_num s = int (length cs)" "None \<notin> set cs"
  shows "\<exists>i. TwapiFindServiceIndex G name s = Some i \<and> (i = - 1 \<or> 0 \<le> i \<and> i < sv_num s)"
  using find_service_some [OF assms(3), of G name 0] by (simp add: TwapiFindServiceIndex_def assms(1,2))

lemma status_ok:
  assumes "sv_inv s" "Twapi_SetServiceStatus G ps objv e s = Some (s', r)"
  shows "sv_inv s'"
proof -
  have "s' = s \<or> (\<exists>h ss. s' = SetServiceStatus h ss s)"
    using assms(2) by (auto simp: Twapi_SetServiceStatus_def split: prod.splits list.splits option.splits argval.splits bind_splits if_splits)
  then show ?thesis using assms(1) by (auto intro: sv_inv_cong [OF assms(1)])
qed

text \<open>The thread of a service: it ends, and keeps the invariant, if it is given its arguments.\<close>

lemma thread_ok:
  assumes inv: "sv_inv s" and m: "sv_master s"
  shows "argv = Some (a # args) \<Longrightarrow> TwapiServiceThread G hdr argv h ok s \<noteq> None"
    and "TwapiServiceThread G hdr argv h ok s = Some s' \<Longrightarrow> sv_inv s'"
proof -
  obtain c cs t where c: "sv_tic s = Some c" "sv_contexts s = Some cs" "sv_num s = int (length cs)" "cs \<noteq> []"
    "None \<notin> set cs" "p_tics (a_proc (sv_async s)) c = Some t"
    using inv m by (rule master_started)
  have "\<exists>i. (case argv of Some (Some name # _) \<Rightarrow> TwapiFindServiceIndex G name s | _ \<Rightarrow> Some 0) = Some i \<and>
    (i = - 1 \<or> 0 \<le> i \<and> i < sv_num s)"
  proof (cases "\<exists>name xs. argv = Some (Some name # xs)")
    case True
    then obtain name xs where "argv = Some (Some name # xs)" by blast
    then show ?thesis using find_index_some [OF c(2,3,5), of G name] by simp
  next
    case False
    then have "(case argv of Some (Some name # _) \<Rightarrow> TwapiFindServiceIndex G name s | _ \<Rightarrow> Some 0) = Some 0"
      by (auto split: option.split list.split)
    then show ?thesis using c(3,4) by simp
  qed
  then obtain i where
    i: "(case argv of Some (Some name # _) \<Rightarrow> TwapiFindServiceIndex G name s | _ \<Rightarrow> Some 0) = Some i"
      "i = - 1 \<or> 0 \<le> i \<and> i < sv_num s" by blast
  define R where "R = TwapiServiceThread G hdr argv h ok s"
  consider (none) "i = - 1" | (svc) sc where "0 \<le> i" "i < sv_num s" "service_at i s = Some sc"
    using i(2) started_service [OF c(5,2,3)] by metis
  then have "(argv = Some (a # args) \<longrightarrow> R \<noteq> None) \<and> (\<forall>s'. R = Some s' \<longrightarrow> sv_inv s')"
  proof cases
    case none
    then have "R = Some s" unfolding R_def TwapiServiceThread_def i(1) by simp
    then show ?thesis using inv by simp
  next
    case svc
    define s1 where "s1 = set_service i (sc\<lparr>sc_handle := h\<rparr>) s"
    define s2 where "s2 = SetServiceStatus h \<lparr>ss_type = sv_type s, ss_state = SERVICE_START_PENDING, ss_exit = 0,
      ss_specific = 0, ss_checkpoint = 1, ss_hint = 5000, ss_accepted = int (sc_controls sc)\<rparr> s1"
    have inv1: "sv_inv s1" unfolding s1_def by (rule set_service_inv [OF inv m])
    then have inv2: "sv_inv s2" by (rule sv_inv_cong) (simp_all add: s2_def)
    have "control_string 0 \<noteq> None" by (simp add: control_string_def control_names_def)
    then obtain s3 where s3: "send_control hdr \<lparr>pl_index = i, pl_ctrl = 0, pl_event = 0, pl_info = 0\<rparr> 0 None s2 =
        Some (s3, a_next (sv_async s2), Some 0)" "sv_inv s3"
      using send_control_ok [OF inv2, of c t "\<lparr>pl_index = i, pl_ctrl = 0, pl_event = 0, pl_info = 0\<rparr>" hdr 0]
        m c svc by (auto simp: s2_def s1_def)
    have R: "R = (case argv of Some (x # xs) \<Rightarrow> Some (if h = 0 then s1 else if \<not> ok then s2 else s3) | _ \<Rightarrow> None)"
    proof (cases "\<exists>x xs. argv = Some (x # xs)")
      case True
      then obtain x xs where argv: "argv = Some (x # xs)" by blast
      show ?thesis
      proof (cases "h = 0")
        case h: True
        then show ?thesis unfolding R_def TwapiServiceThread_def i(1) using svc argv by (simp add: s1_def)
      next
        case False
        then show ?thesis
          unfolding R_def TwapiServiceThread_def i(1) using svc s3(1) argv
          by (simp add: s1_def [symmetric] s2_def [symmetric] Let_def)
      qed
    next
      case False
      then show ?thesis
        unfolding R_def TwapiServiceThread_def i(1) using svc by (simp split: option.split list.split) 
    qed
    then show ?thesis using inv1 inv2 s3(2) by (simp split: option.split list.split)
  qed
  then show "argv = Some (a # args) \<Longrightarrow> TwapiServiceThread G hdr argv h ok s \<noteq> None"
    and "TwapiServiceThread G hdr argv h ok s = Some s' \<Longrightarrow> sv_inv s'"
    unfolding R_def by blast+
qed

text \<open>The handler, with a completion event.\<close>

definition control_payload :: "int \<Rightarrow> nat \<Rightarrow> nat \<Rightarrow> nat \<Rightarrow> payload" where
  "control_payload i ctrl event info = \<lparr>pl_index = i, pl_ctrl = ctrl, pl_event = event,
     pl_info = (if ctrl = SERVICE_CONTROL_SESSIONCHANGE then info else 0)\<rparr>"

lemma handler_ok:
  fixes info ctrl event :: nat and i :: int
  defines "pl \<equiv> control_payload i ctrl event info"
  assumes inv: "sv_inv s" and m: "sv_master s" and i: "0 \<le> i" "i < sv_num s"
    and c: "sv_tic s = Some c" "p_tics (a_proc (sv_async s)) c = Some t" and need: "control_need ctrl event = Inr need"
  shows "TwapiServiceControlHandler hdr i ctrl event info None s =
      Some (with_control c t (if need then 30000 else 0) pl s, if need then Awaits (a_next (sv_async s)) else Returns 0) \<and>
    sv_inv (with_control c t (if need then 30000 else 0) pl s)"
proof -
  have "send_control hdr pl (if need then 30000 else 0) None s =
      Some (with_control c t (if need then 30000 else 0) pl s, a_next (sv_async s), if need then None else Some 0) \<and>
    sv_inv (with_control c t (if need then 30000 else 0) pl s)"
    using send_control_ok [OF inv m c, of pl hdr "if need then 30000 else 0"] i passed_on_known [OF need]
    by (simp add: pl_def control_payload_def)
  then show ?thesis
    using i need by (simp add: TwapiServiceControlHandler_def pl_def [unfolded control_payload_def, symmetric] Let_def)
qed

lemma handler_inv:
  assumes "sv_inv s" "sv_master s" "0 \<le> i" "TwapiServiceControlHandler hdr i ctrl event info None s = Some (s', r)"
  shows "sv_inv s'"
proof (cases "sv_num s \<le> i \<or> (\<exists>st. control_need ctrl event = Inl st)")
  case True
  then have "s' = s"
    by (elim disjE exE) (use assms(4) in \<open>simp_all add: TwapiServiceControlHandler_def split: if_splits\<close>)
  then show ?thesis using assms(1) by simp
next
  case False
  then obtain need where need: "control_need ctrl event = Inr need" by (cases "control_need ctrl event") auto
  obtain c t where "sv_tic s = Some c" "p_tics (a_proc (sv_async s)) c = Some t"
    using assms(1,2) by (rule master_started)
  from handler_ok [OF assms(1-3) _ this need, of hdr info] False assms(4) show ?thesis by auto
qed

lemma sv_inv_async:
  assumes "sv_inv s" "a_inv a" "\<forall>c. sv_tic s = Some c \<longrightarrow> 0 < outside a c"
  shows "sv_inv (s\<lparr>sv_async := a\<rparr>)"
proof -
  have "setup_ok c cs (s\<lparr>sv_async := a\<rparr>) = setup_ok c cs s" for c cs
    by (cases "sv_setup s") (simp_all add: setup_ok_def)
  then have "sv_ok (s\<lparr>sv_async := a\<rparr>)" using assms(1,3) by (simp add: sv_inv_def sv_ok_def split: option.splits)
  then show ?thesis using assms(1,2) by (simp add: sv_inv_def payloads_ok_def)
qed

lemma rest_ok:
  assumes inv: "sv_inv s" and s: "a_sender (sv_async s) i = Waiting"
    and ev: "w = None \<longrightarrow> (\<exists>x. a_cbs (sv_async s) i = Some x \<and> cb_event x = Some True)"
    and st: "handler_rest i w s = Some (s', n)"
  shows "sv_inv s' \<and> (\<exists>a'. s' = s\<lparr>sv_async := a'\<rparr>)"
proof -
  obtain a1 m where a1: "enqueue_wait i w True (sv_async s) = Some (a1, m)"
    using st by (cases "enqueue_wait i w True (sv_async s)") (auto simp: handler_rest_def)
  have st1: "astep (sv_async s) a1" by (rule astep.wake [OF s ev a1])
  obtain x y where x: "a_cbs (sv_async s) i = Some x" "a_cbs a1 = (a_cbs (sv_async s))(i \<mapsto> y)" "cb_tic y = cb_tic x"
    "a_proc a1 = a_proc (sv_async s)" "a_queue a1 = a_queue (sv_async s)" "a_handling a1 = a_handling (sv_async s)"
    "a_sender a1 = (a_sender (sv_async s))(i := case w of None \<Rightarrow> Owns | Some e \<Rightarrow> TimedOut e)"
    using a1 by (rule wait_for_response)
  have out1: "outside a1 d = outside (sv_async s) d" for d by (rule outside_same_cb [OF x(1-6)])
  obtain a2 where s': "s' = s\<lparr>sv_async := a2\<rparr>" and st2: "a2 = a1 \<or> astep a1 a2" and out2: "\<And>d. outside a2 d = outside a1 d"
  proof (cases w)
    case None
    then obtain a2 where a2: "owner_unref i a1 = Some a2" "s' = s\<lparr>sv_async := a2\<rparr>"
      using st a1 x(2) by (auto simp: handler_rest_def split: bind_splits)
    have "outside a2 d = outside a1 d" for d
      by (rule owner_unref_effect [OF a2(1)]) (rule outside_same_cb)
    then show ?thesis using astep.owner [OF _ a2(1)] None x(7) a2(2) by (intro that [of a2]) simp_all
  next
    case (Some e)
    then show ?thesis using st a1 by (intro that [of a1]) (auto simp: handler_rest_def)
  qed
  have "a_inv a2" using astep_inv [OF st1] st2 astep_inv inv by (auto simp: sv_inv_def)
  moreover have "\<forall>c. sv_tic s = Some c \<longrightarrow> 0 < outside a2 c"
    using inv out1 out2 by (simp add: sv_inv_def sv_ok_def split: option.splits)
  ultimately show ?thesis using sv_inv_async [OF inv] s' by blast
qed

lemma sstep_inv: "sstep G s s' \<Longrightarrow> sv_inv s \<Longrightarrow> sv_inv s'"
proof (induction rule: sstep.induct)
  case (other s a)
  then have "a_inv a" by (auto simp: sv_inv_def intro: astep_inv)
  then show ?case using other(2) by (rule sv_inv_async [OF other(3)])
qed (blast intro: claim_ok fill_ok launch_ok status_ok thread_ok(2) handler_inv dest: rest_ok)+

lemma svc_reach_inv:
  assumes "proc_fresh p" "(sstep G)\<^sup>*\<^sup>* (svc_start p) s"
  shows "sv_inv s"
  using assms(2)
proof (induction rule: rtranclp_induct)
  case base
  show ?case using async_start_inv [OF assms(1)] by (simp add: svc_start_def sv_inv_def sv_ok_def payloads_ok_def)
qed (rule sstep_inv)

end
