(* ===== verification/Service_Props.thy ===== *)
theory Service_Props
  imports Service_Inv
begin

text \<open>
  What the invariant of \<open>Service_Inv\<close> gives: the service keeps its interpreter, its threads do not
  crash, controls reach the script and responses come back; and the exits of
  \<open>service/service.c\<close> that lose the service.
\<close>

section \<open>Arguments and names\<close>

lemma int_formats:
  "snd (getargs_loop (get_common G ps) (replicate n (ARGINT True)) objs False exact st) = None \<Longrightarrow>
   \<exists>vs. fst (getargs_loop (get_common G ps) (replicate n (ARGINT True)) objs False exact st) = st @ map VInt vs \<and>
     length vs = n"
proof (induction n arbitrary: objs st)
  case (Suc n)
  then obtain ob objs' v where o: "objs = ob # objs'" "t_int G (str_of G ob) = Some v"
    by (cases objs) (auto simp: get_conv_def split: option.splits)
  with Suc.prems have "snd (getargs_loop (get_common G ps) (replicate n (ARGINT True)) objs' False exact (st @ [VInt v])) = None"
    by (simp add: get_conv_def)
  from Suc.IH [OF this] obtain vs where vs:
    "fst (getargs_loop (get_common G ps) (replicate n (ARGINT True)) objs' False exact (st @ [VInt v])) =
       (st @ [VInt v]) @ map VInt vs" "length vs = n" by blast
  then show ?case using o by (intro exI [of _ "v # vs"]) (simp add: get_conv_def)
qed simp

lemma status_args:
  fixes r :: "unit argval list"
  assumes "TwapiGetArgs G ps objv status_formats True = (r, None)"
  obtains a b c d e f where "r = [VInt a, VInt b, VInt c, VInt d, VInt e, VInt f]" "objv \<noteq> []"
proof -
  have fmt: "status_formats = ARGSKIP # replicate 6 (ARGINT True)" by (simp add: status_formats_def numeral_eq_Suc)
  obtain ob objs where o: "objv = ob # objs" using assms by (cases objv) (auto simp: TwapiGetArgs_def fmt)
  with assms have "getargs_loop (get_common G ps) (replicate 6 (ARGINT True)) objs False True [] = (r, None)"
    by (simp add: TwapiGetArgs_def fmt)
  with int_formats [of G ps 6 objs True "[] :: unit argval list"] obtain vs where "r = map VInt vs" "length vs = 6" by auto
  with o that show ?thesis by (auto simp: numeral_eq_Suc length_Suc_conv)
qed

text \<open>Reporting a status has a result once all services are entered.\<close>

lemma status_total:
  assumes "sv_contexts s = Some cs" "sv_num s = int (length cs)" "None \<notin> set cs"
  shows "Twapi_SetServiceStatus G ps objv e s \<noteq> None"
proof (cases "TwapiGetArgs G ps objv status_formats True :: unit argres")
  case (Pair r err)
  show ?thesis
  proof (cases err)
    case None
    then obtain a b c d e' f where r: "r = [VInt a, VInt b, VInt c, VInt d, VInt e', VInt f]"
      using Pair status_args by metis
    obtain i where i: "TwapiFindServiceIndex G (str_of G (objv ! 0)) s = Some i" "i = - 1 \<or> 0 \<le> i \<and> i < sv_num s"
      using find_index_some [OF assms] by metis
    show ?thesis
    proof (cases "i < 0")
      case False
      then obtain sc where "service_at i s = Some sc" using started_service [OF assms(3,1,2), of i] i(2) by auto
      with False i(1) show ?thesis by (simp add: Twapi_SetServiceStatus_def Pair None r)
    qed (simp add: Twapi_SetServiceStatus_def Pair None r i(1))
  qed (simp add: Twapi_SetServiceStatus_def Pair)
qed

lemma service_table_all:
  "None \<notin> set cs \<Longrightarrow> service_table (length cs) cs = Some (map (\<lambda>c. Some (cstr (sc_name (the c)))) cs @ [None])"
proof (induction cs)
  case (Cons c cs)
  then show ?case by (cases c) auto
qed simp

text \<open>The names of the services.\<close>

definition service_names :: "svc \<Rightarrow> string option list" where
  "service_names s = (case sv_contexts s of None \<Rightarrow> [] | Some cs \<Rightarrow> map (map_option sc_name) cs)"

lemma names_set_service:
  assumes "service_at i s = Some sc" "sc_name sc' = sc_name sc"
  shows "service_names (set_service i sc' s) = service_names s"
proof -
  obtain cs where cs: "sv_contexts s = Some cs" "nat i < length cs" "cs ! nat i = Some sc"
    using assms(1) by (auto simp: service_at_def split: bind_splits if_splits)
  have "(map (map_option sc_name) cs)[nat i := Some (sc_name sc')] = map (map_option sc_name) cs"
    using cs assms(2) by (simp add: list_update_same_conv)
  then show ?thesis using cs(1) by (simp add: service_names_def map_update)
qed

text \<open>What never changes once the master thread runs.\<close>

definition same_service :: "svc \<Rightarrow> svc \<Rightarrow> bool" where
  "same_service s s' \<longleftrightarrow> sv_tic s' = sv_tic s \<and> sv_master s' \<and> sv_num s' = sv_num s \<and> service_names s' = service_names s"

lemma send_control_same:
  "send_control hdr pl timeout ev s = Some (s', i, r) \<Longrightarrow> \<exists>a p. s' = s\<lparr>sv_async := a, sv_payload := p\<rparr>"
  by (auto simp: send_control_def split: prod.splits bind_splits)

lemma thread_same:
  assumes "sv_master s" "TwapiServiceThread G hdr argv h ok s = Some s'"
  shows "same_service s s'"
proof -
  obtain i where i: "(case argv of Some (Some name # _) \<Rightarrow> TwapiFindServiceIndex G name s | _ \<Rightarrow> Some 0) = Some i"
    using assms(2) unfolding TwapiServiceThread_def
    by (cases "(case argv of Some (Some name # _) \<Rightarrow> TwapiFindServiceIndex G name s | _ \<Rightarrow> Some 0)") auto
  show ?thesis
  proof (cases "i = - 1 \<or> sv_num s \<le> i")
    case True
    then have "s' = s" using assms(2) unfolding TwapiServiceThread_def i by auto
    then show ?thesis using assms(1) by (simp add: same_service_def)
  next
    case False
    then obtain sc where sc: "service_at i s = Some sc"
      using assms(2) unfolding TwapiServiceThread_def i by (cases "service_at i s") auto
    let ?s1 = "set_service i (sc\<lparr>sc_handle := h\<rparr>) s"
    obtain x xs where argv: "argv = Some (x # xs)"
      using assms(2) False sc unfolding TwapiServiceThread_def i
      by (cases argv; cases "the argv") (simp_all split: if_splits)
    have "\<exists>rs a p. s' = ?s1\<lparr>sv_reports := rs, sv_async := a, sv_payload := p\<rparr>"
    proof (cases "h = 0")
      case h: True
      then have "s' = ?s1" using assms(2) False sc argv unfolding TwapiServiceThread_def i by simp
      then show ?thesis by (intro exI [of _ "sv_reports ?s1"] exI [of _ "sv_async ?s1"] exI [of _ "sv_payload ?s1"]) simp
    next
      case h: False
      define s2 where "s2 = SetServiceStatus h \<lparr>ss_type = sv_type s, ss_state = SERVICE_START_PENDING, ss_exit = 0,
        ss_specific = 0, ss_checkpoint = 1, ss_hint = 5000, ss_accepted = int (sc_controls sc)\<rparr> ?s1"
      have "s' = s2 \<or> (\<exists>j r. send_control hdr \<lparr>pl_index = i, pl_ctrl = 0, pl_event = 0, pl_info = 0\<rparr> 0 None s2 = Some (s', j, r))"
        using assms(2) False sc argv h unfolding TwapiServiceThread_def i s2_def
        by (cases ok) (auto split: bind_splits)
      then obtain a p where "s' = s2\<lparr>sv_async := a, sv_payload := p\<rparr>"
      proof
        assume "s' = s2"
        then show ?thesis by (intro that [where a = "sv_async s2" and p = "sv_payload s2"]) simp
      qed (use send_control_same that in blast)
      then show ?thesis unfolding s2_def SetServiceStatus_def by (intro exI) simp
    qed
    then obtain rs a p where s': "s' = ?s1\<lparr>sv_reports := rs, sv_async := a, sv_payload := p\<rparr>" by blast
    have "service_names s' = service_names ?s1" by (simp add: s' service_names_def)
    also have "\<dots> = service_names s" by (rule names_set_service [OF sc]) simp
    finally show ?thesis using assms(1) by (simp add: same_service_def s')
  qed
qed

lemma sstep_same:
  assumes "sstep G s s'" "sv_inv s" "sv_master s"
  shows "same_service s s'"
proof -
  obtain c cs where c: "sv_tic s = Some c" "sv_setup s = NoSetup"
    using assms(2,3) by (rule master_started)
  from assms(1) show ?thesis
  proof cases
    case (claim c' objv r)
    then have "s' = s" using claim_refused [of s G c' objv] c(1) by auto
    then show ?thesis using assms(3) by (simp add: same_service_def)
  next
    case (status ps objv e r)
    then have "s' = s \<or> (\<exists>h ss. s' = SetServiceStatus h ss s)"
      by (auto simp: Twapi_SetServiceStatus_def split: prod.splits list.splits option.splits argval.splits bind_splits if_splits)
    then show ?thesis using assms(3) by (auto simp: same_service_def service_names_def)
  next
    case (control i hdr ctrl event info r)
    have "s' = s \<or> (\<exists>a p. s' = s\<lparr>sv_async := a, sv_payload := p\<rparr>)"
      using control(3)
      by (auto simp: TwapiServiceControlHandler_def Let_def split: if_splits sum.splits bind_splits dest!: send_control_same)
    then show ?thesis using assms(3) by (auto simp: same_service_def service_names_def)
  next
    case (rest i w n)
    then obtain a where "s' = s\<lparr>sv_async := a\<rparr>" using rest_ok [OF assms(2)] by blast
    then show ?thesis using assms(3) by (simp add: same_service_def service_names_def)
  qed (use assms(3) c(2) thread_same in \<open>auto simp: become_fill_def become_launch_def same_service_def service_names_def\<close>)
qed

section \<open>Safety\<close>

text \<open>
  C8. Whatever the interpreters, the control manager and the Tcl threads do: the context of the service has
  not been deleted, while the master thread runs every service is entered in the table,
  every control that was passed on names an entry of the table and a control that has a
  name, and no callback in a queue has been deleted.
\<close>

theorem service_safe:
  assumes "proc_fresh p" "(sstep G)\<^sup>*\<^sup>* (svc_start p) s"
  shows "(\<forall>c. sv_tic s = Some c \<longrightarrow> (\<exists>t. p_tics (a_proc (sv_async s)) c = Some t \<and> tic_deletions t = 0)) \<and>
    (sv_master s \<longrightarrow> (\<forall>i. 0 \<le> i \<and> i < sv_num s \<longrightarrow> service_at i s \<noteq> None) \<and> sv_tic s \<noteq> None) \<and>
    (\<forall>k pl. sv_payload s k = Some pl \<longrightarrow> service_at (pl_index pl) s \<noteq> None \<and> control_string (pl_ctrl pl) \<noteq> None) \<and>
    (\<forall>th k. (th, k) \<in> set (a_queue (sv_async s)) \<longrightarrow> cb_dels k (sv_async s) = 0)"
proof -
  have inv: "sv_inv s" by (rule svc_reach_inv [OF assms])
  then have a: "a_inv (sv_async s)" by (simp add: sv_inv_def)
  have 1: "\<exists>t. p_tics (a_proc (sv_async s)) c = Some t \<and> tic_deletions t = 0" if "sv_tic s = Some c" for c
  proof -
    have "0 < outside (sv_async s) c" using inv that by (simp add: sv_inv_def sv_ok_def)
    then show ?thesis by (rule outside_live [OF a]) blast
  qed
  have 2: "service_at i s \<noteq> None \<and> sv_tic s \<noteq> None" if m: "sv_master s" and i: "0 \<le> i" "i < sv_num s" for i
  proof -
    obtain c cs where c: "sv_tic s = Some c" "sv_contexts s = Some cs" "sv_num s = int (length cs)" "None \<notin> set cs"
      using inv m by (rule master_started)
    from started_service [OF c(4,2,3) i] c(1) show ?thesis by auto
  qed
  have 3: "sv_tic s \<noteq> None" if "sv_master s" by (rule master_started [OF inv that]) simp
  have 4: "service_at (pl_index pl) s \<noteq> None \<and> control_string (pl_ctrl pl) \<noteq> None" if "sv_payload s k = Some pl" for k pl
  proof -
    have "sv_master s \<and> 0 \<le> pl_index pl \<and> pl_index pl < sv_num s \<and> control_string (pl_ctrl pl) \<noteq> None"
      using inv that by (simp add: sv_inv_def payloads_ok_def)
    then show ?thesis using 2 by simp
  qed
  have 5: "cb_dels k (sv_async s) = 0" if "(th, k) \<in> set (a_queue (sv_async s))" for th k
  proof -
    have "(th, k) \<in> set (a_queue (sv_async s)) \<union> set (a_handling (sv_async s))" using that by simp
    then obtain x where x: "a_cbs (sv_async s) k = Some x"
      "0 < cnt (a_queue (sv_async s)) k + cnt (a_handling (sv_async s)) k"
      by (rule queued_cb [OF a])
    with a_inv_cb [OF a x(1)] show ?thesis by (auto simp: cb_dels_def cb_good_def)
  qed
  from 1 2 3 4 5 show ?thesis by blast
qed

text \<open>
  Once the master thread runs, the process keeps its service: the interpreter, the number and the names of the
  services never change, and every further attempt to become a service is refused and has no effect.
\<close>

theorem service_is_kept:
  assumes "proc_fresh p" "(sstep G)\<^sup>*\<^sup>* (svc_start p) s" "sv_master s" "(sstep G)\<^sup>*\<^sup>* s s'"
  shows "same_service s s' \<and> sv_tic s' \<noteq> None \<and>
    (\<exists>e. Twapi_BecomeAService G cur c objv ok te s' = Some (s', Some e) \<and>
       (\<forall>n. 2 \<le> length objv \<and> t_int G (str_of G (hd objv)) = Some n \<longrightarrow> e = MultipleInvocations))"
proof -
  have inv: "sv_inv s" by (rule svc_reach_inv [OF assms(1,2)])
  have same: "same_service s s' \<and> sv_inv s'" using assms(4)
  proof (induction rule: rtranclp_induct)
    case base
    show ?case using inv assms(3) by (simp add: same_service_def)
  next
    case (step u v)
    then have "sv_inv u" "same_service s u" "sv_master u" by (auto simp: same_service_def)
    with sstep_same [OF step(2)] sstep_inv [OF step(2)] show ?case by (auto simp: same_service_def)
  qed
  then have tic: "sv_tic s' \<noteq> None" using master_started [of s'] by (metis option.simps(3) same_service_def)
  obtain e where e: "become_claim G c objv s' = Some (s', Some e)" using claim_refused [OF tic] by blast
  have "e = MultipleInvocations" if "2 \<le> length objv" "t_int G (str_of G (hd objv)) = Some n" for n
    using e tic that by (auto simp: become_claim_def split: list.splits if_splits)
  with e same tic show ?thesis by (auto simp: Twapi_BecomeAService_def)
qed

text \<open>The thread of a service without an argument array, or with an empty one, reads \<open>argv[0]\<close> all the same.\<close>

lemma thread_no_arguments:
  assumes "sv_inv s" "sv_master s" "argv = None \<or> argv = Some []"
  shows "TwapiServiceThread G hdr argv h ok s = None"
proof -
  obtain c cs where c: "sv_tic s = Some c" "sv_contexts s = Some cs" "sv_num s = int (length cs)" "cs \<noteq> []" "None \<notin> set cs"
    using assms(1,2) by (rule master_started)
  obtain sc where "service_at 0 s = Some sc" using started_service [OF c(5,2,3), of 0] c(3,4) by auto
  then show ?thesis using c(3,4) assms(3) by (auto simp: TwapiServiceThread_def)
qed

lemma thread_crashes_iff:
  assumes "sv_inv s" "sv_master s"
  shows "TwapiServiceThread G hdr argv h ok s = None \<longleftrightarrow> argv = None \<or> argv = Some []"
proof (cases "\<exists>a args. argv = Some (a # args)")
  case True
  then show ?thesis using thread_ok(1) [OF assms, of argv _ _ G hdr h ok] by blast
next
  case False
  then have none: "argv = None \<or> argv = Some []" by (metis list.exhaust option.exhaust)
  from thread_no_arguments [OF assms none] none show ?thesis by simp
qed

text \<open>
  C28. While the master thread runs, the handler has a result for every control, event and service index, status
  reports have one for all arguments, and the table of the master thread lists every service. The thread of a
  service has one for every array of at least one argument, a null one included, and it crashes exactly when the
  control manager passes no array or an empty one: it then chooses the first service, as its comment says, but
  still gives \<open>argv[0]\<close> to \<open>RegisterServiceCtrlHandlerExW\<close>.
\<close>

theorem service_never_crashes:
  assumes "proc_fresh p" "(sstep G)\<^sup>*\<^sup>* (svc_start p) s" "sv_master s" "0 \<le> i"
  shows "TwapiServiceControlHandler hdr i ctrl event info None s \<noteq> None \<and>
    (TwapiServiceThread G hdr argv h ok s = None \<longleftrightarrow> argv = None \<or> argv = Some []) \<and>
    Twapi_SetServiceStatus G ps objv e s \<noteq> None \<and>
    (\<exists>cs. sv_contexts s = Some cs \<and>
       TwapiServiceMasterThread s = Some (map (\<lambda>c. Some (cstr (sc_name (the c)))) cs @ [None]))"
proof -
  have inv: "sv_inv s" by (rule svc_reach_inv [OF assms(1,2)])
  obtain c cs t where c: "sv_tic s = Some c" "sv_contexts s = Some cs" "sv_num s = int (length cs)" "None \<notin> set cs"
    "p_tics (a_proc (sv_async s)) c = Some t" using inv assms(3) by (rule master_started)
  have "TwapiServiceControlHandler hdr i ctrl event info None s \<noteq> None"
  proof (cases "i < sv_num s")
    case True
    show ?thesis
    proof (cases "control_need ctrl event")
      case (Inr need)
      then show ?thesis using handler_ok [OF inv assms(3,4) True c(1,5), of ctrl event need hdr info] by simp
    qed (use True in \<open>simp add: TwapiServiceControlHandler_def\<close>)
  qed (simp add: TwapiServiceControlHandler_def)
  moreover note thread_crashes_iff [OF inv assms(3), of G hdr argv h ok]
  moreover have "TwapiServiceMasterThread s = Some (map (\<lambda>c. Some (cstr (sc_name (the c)))) cs @ [None])"
    using service_table_all [OF c(4)] by (simp add: TwapiServiceMasterThread_def c(2,3))
  ultimately show ?thesis using status_total [OF c(2-4)] c(2) by blast
qed

section \<open>Controls and their answers\<close>









section \<open>Exits that lose the service\<close>

text \<open>
  When the console handler or the master thread cannot be set up, \<open>Twapi_BecomeAService\<close> reports the error but keeps
  the interpreter and its reference: every later attempt of any interpreter is refused as a
  second one, although there is no service.
\<close>

theorem failed_launch_locks_out:
  assumes "proc_fresh p" "(sstep G)\<^sup>*\<^sup>* (svc_start p) s" "become_launch ok te s = Some (s', Some e)"
    and "2 \<le> length objv" "t_int G (str_of G (hd objv)) = Some n"
  shows "\<not> sv_master s' \<and> sv_setup s' = NoSetup \<and> sv_tic s' = sv_tic s \<and> sv_tic s' \<noteq> None \<and>
    Twapi_BecomeAService G cur c objv ok' te' s' = Some (s', Some MultipleInvocations)"
proof -
  have inv: "sv_inv s" by (rule svc_reach_inv [OF assms(1,2)])
  obtain c' ty i where su: "sv_setup s = Filling c' ty [] i"
    using assms(3) by (auto simp: become_launch_def split: svc_setup.splits list.splits)
  then obtain c'' where tic: "sv_tic s = Some c''" "\<not> sv_master s"
    using inv by (auto simp: sv_inv_def sv_ok_def setup_ok_def split: option.splits)
  have s': "sv_tic s' = sv_tic s" "sv_setup s' = NoSetup" "\<not> sv_master s'"
    using assms(3) su tic(2) by (auto simp: become_launch_def Let_def split: if_splits option.splits)
  obtain ty' specs where "objv = ty' # specs" "specs \<noteq> []" using assms(4) by (cases objv; cases "tl objv") auto
  then have "become_claim G c objv s' = Some (s', Some MultipleInvocations)"
    using assms(5) s'(1) tic(1) by (simp add: become_claim_def)
  with s' tic show ?thesis by (simp add: Twapi_BecomeAService_def)
qed

text \<open>
  The thread of a service crashes when the control manager gives it no arguments, the case that its comment and its test
  provide for: it chooses the first service and then reads \<open>argv[0]\<close>.
\<close>

theorem no_arguments_crash:
  assumes "proc_fresh p" "(sstep G)\<^sup>*\<^sup>* (svc_start p) s" "sv_master s"
  shows "TwapiServiceThread G hdr None h ok s = None"
  using thread_no_arguments [OF svc_reach_inv [OF assms(1,2)] assms(3)] by simp

section \<open>Witnesses\<close>

definition demo_gtcl :: gtcl where
  "demo_gtcl = \<lparr>t_list = dec [], t_mklist = enc, t_int = digit, t_wide = digit, t_bool = (\<lambda>s. None),
     t_dictget = (\<lambda>d k. None), t_utfncmp = (\<lambda>s t n. 0), t_lstrcmp = (\<lambda>s t. if s = t then 0 else 1),
     t_lstrcmpi = (\<lambda>s t. if s = t then 0 else 1), t_glob = (\<lambda>s p nocase. True), t_setvar_ok = (\<lambda>_. True),
     o_decimal = (\<lambda>n. ''n''), g_double = (\<lambda>s. None), g_wchars = (\<lambda>s. []), g_bytes = (\<lambda>s. [])\<rparr>"

definition demo_specs :: "tobj list" where
  "demo_specs = [str_obj ''9'', str_obj (enc [''svc'', ''5''])]"

lemma str_of_str_obj [simp]: "str_of G (str_obj s) = s"
  by (simp add: str_of_def obj_string_def str_obj_def)

lemma demo_filled:
  obtains s t ty where "(sstep demo_gtcl)\<^sup>*\<^sup>* (svc_start demo_ctx) s" "sv_setup s = Filling 100 ty [] 1" "sv_tic s = Some 100"
    "sv_num s = 1" "p_tics (a_proc (sv_async s)) 100 = Some t" "tic_interp t = Some 7" "a_queue (sv_async s) = []"
proof -
  obtain t0 where t0: "p_tics demo_ctx 100 = Some t0" "tic_interp t0 = Some 7" using demo_ctx_tic by blast
  have pos: "0 < tic_nrefs t0" using t0(1) demo_fresh by (simp add: proc_fresh_def)
  obtain p where p: "TwapiInterpContextRef 100 1 demo_ctx = Some p" "p_tics p 100 = Some (t0\<lparr>tic_nrefs := tic_nrefs t0 + 1\<rparr>)"
    using t0 by (simp add: TwapiInterpContextRef_def ExchangeAdd_def upd_tic_def)
  let ?s1 = "(svc_start demo_ctx)\<lparr>sv_async := (async_start demo_ctx)\<lparr>a_proc := p\<rparr>, sv_tic := Some 100,
    sv_contexts := Some [None], sv_num := 1, sv_setup := Filling 100 (UDWORD 9) [str_obj (enc [''svc'', ''5''])] 0\<rparr>"
  have "become_claim demo_gtcl 100 demo_specs (svc_start demo_ctx) = Some (?s1, None)"
    using p(1) by (simp add: become_claim_def demo_specs_def demo_gtcl_def digit_def svc_start_def async_start_def)
  moreover have "0 < outside (sv_async (svc_start demo_ctx)) 100"
    using t0 pos by (simp add: svc_start_def async_start_def outside_def ctx_refs_def pend_def pendingM_def)
  ultimately have st1: "sstep demo_gtcl (svc_start demo_ctx) ?s1" by (intro sstep.claim)
  let ?s2 = "(set_service 0 \<lparr>sc_handle = 0, sc_controls = UDWORD 5, sc_name = ''svc''\<rparr> ?s1)\<lparr>sv_setup := Filling 100 (UDWORD 9) [] (Suc 0)\<rparr>"
  have "parse_spec demo_gtcl (str_obj (enc [''svc'', ''5''])) = Some \<lparr>sc_handle = 0, sc_controls = UDWORD 5, sc_name = ''svc''\<rparr>"
    unfolding parse_spec_def by (simp add: demo_gtcl_def dec_enc digit_def del: enc.simps)
  then have "become_fill demo_gtcl 1 ?s1 = Some (?s2, None)" by (simp add: become_fill_def)
  then have "sstep demo_gtcl ?s1 ?s2" by (rule sstep.fill)
  with st1 have "(sstep demo_gtcl)\<^sup>*\<^sup>* (svc_start demo_ctx) ?s2" by (rule converse_rtranclp_into_rtranclp [OF _ r_into_rtranclp])
  then show ?thesis by (rule that [where t = "t0\<lparr>tic_nrefs := tic_nrefs t0 + 1\<rparr>"]) (simp_all add: p t0 async_start_def)
qed

lemma demo_master:
  obtains s t where "(sstep demo_gtcl)\<^sup>*\<^sup>* (svc_start demo_ctx) s" "sv_master s" "sv_tic s = Some 100"
    "sv_num s = 1" "p_tics (a_proc (sv_async s)) 100 = Some t" "tic_interp t = Some 7" "a_queue (sv_async s) = []"
proof -
  obtain s t ty where s: "(sstep demo_gtcl)\<^sup>*\<^sup>* (svc_start demo_ctx) s" "sv_setup s = Filling 100 ty [] 1" "sv_tic s = Some 100"
    "sv_num s = 1" "p_tics (a_proc (sv_async s)) 100 = Some t" "tic_interp t = Some 7" "a_queue (sv_async s) = []"
    by (rule demo_filled)
  let ?s = "s\<lparr>sv_type := and ty (or SERVICE_WIN32 SERVICE_INTERACTIVE_PROCESS), sv_setup := NoSetup, sv_master := True\<rparr>"
  have "become_launch True None s = Some (?s, None)" using s(2) by (simp add: become_launch_def Let_def)
  then have "sstep demo_gtcl s ?s" by (rule sstep.launch)
  with s(1) have "(sstep demo_gtcl)\<^sup>*\<^sup>* (svc_start demo_ctx) ?s" by (rule rtranclp.rtrancl_into_rtrancl)
  then show ?thesis by (rule that [where t = t]) (simp_all add: s)
qed

theorem service_safe_witness:
  "\<exists>s t. (sstep demo_gtcl)\<^sup>*\<^sup>* (svc_start demo_ctx) s \<and> sv_master s \<and> service_at 0 s \<noteq> None \<and>
     p_tics (a_proc (sv_async s)) 100 = Some t \<and> tic_deletions t = 0"
proof -
  obtain s where s: "(sstep demo_gtcl)\<^sup>*\<^sup>* (svc_start demo_ctx) s" "sv_master s" "sv_tic s = Some 100" "sv_num s = 1"
    by (rule demo_master)
  note safe = service_safe [OF demo_fresh s(1)]
  have "service_at 0 s \<noteq> None" using conjunct1 [OF conjunct2 [OF safe]] s(2,4) by simp
  with conjunct1 [OF safe] s show ?thesis by blast
qed

theorem service_is_kept_witness:
  "\<exists>s. (sstep demo_gtcl)\<^sup>*\<^sup>* (svc_start demo_ctx) s \<and> sv_master s \<and>
     Twapi_BecomeAService demo_gtcl 1 100 demo_specs True None s = Some (s, Some MultipleInvocations)"
proof -
  obtain s where s: "(sstep demo_gtcl)\<^sup>*\<^sup>* (svc_start demo_ctx) s" "sv_master s" by (rule demo_master)
  have "2 \<le> length demo_specs" "t_int demo_gtcl (str_of demo_gtcl (hd demo_specs)) = Some 9"
    by (simp_all add: demo_specs_def demo_gtcl_def digit_def)
  with service_is_kept [OF demo_fresh s rtranclp.rtrancl_refl, of 1 100 demo_specs True None] s show ?thesis by blast
qed

theorem service_never_crashes_witness:
  "\<exists>s. (sstep demo_gtcl)\<^sup>*\<^sup>* (svc_start demo_ctx) s \<and> sv_master s \<and>
     TwapiServiceControlHandler 8 0 13 0 0 None s \<noteq> None \<and>
     TwapiServiceThread demo_gtcl 8 (Some [Some ''svc'']) 5 True s \<noteq> None \<and>
     TwapiServiceThread demo_gtcl 8 (Some []) 5 True s = None"
proof -
  obtain s where s: "(sstep demo_gtcl)\<^sup>*\<^sup>* (svc_start demo_ctx) s" "sv_master s" by (rule demo_master)
  note safe = service_never_crashes [OF demo_fresh s, of 0 8 13 0 0 _ 5 True]
  from safe [of "Some [Some ''svc'']"] safe [of "Some []"] s show ?thesis by blast
qed



theorem failed_launch_locks_out_witness:
  "\<exists>s s'. (sstep demo_gtcl)\<^sup>*\<^sup>* (svc_start demo_ctx) s \<and> become_launch True (Some 8) s = Some (s', Some (SystemError 8)) \<and>
     \<not> sv_master s' \<and> Twapi_BecomeAService demo_gtcl 1 100 demo_specs True None s' = Some (s', Some MultipleInvocations)"
proof -
  obtain s ty where s: "(sstep demo_gtcl)\<^sup>*\<^sup>* (svc_start demo_ctx) s" "sv_setup s = Filling 100 ty [] 1" by (rule demo_filled)
  have l: "become_launch True (Some 8) s =
      Some (s\<lparr>sv_type := and ty (or SERVICE_WIN32 SERVICE_INTERACTIVE_PROCESS), sv_setup := NoSetup\<rparr>, Some (SystemError 8))"
    using s(2) by (simp add: become_launch_def Let_def)
  have "2 \<le> length demo_specs" "t_int demo_gtcl (str_of demo_gtcl (hd demo_specs)) = Some 9"
    by (simp_all add: demo_specs_def demo_gtcl_def digit_def)
  from failed_launch_locks_out [OF demo_fresh s(1) l this, of 1 100 True None] l s(1) show ?thesis by blast
qed

theorem no_arguments_crash_witness:
  "\<exists>s. (sstep demo_gtcl)\<^sup>*\<^sup>* (svc_start demo_ctx) s \<and> TwapiServiceThread demo_gtcl 8 None 5 True s = None"
proof -
  obtain s where s: "(sstep demo_gtcl)\<^sup>*\<^sup>* (svc_start demo_ctx) s" "sv_master s" by (rule demo_master)
  with no_arguments_crash [OF demo_fresh s, of 8 5 True] show ?thesis by blast
qed

end
