(* ===== verification/Secrets.thy ===== *)
theory Secrets
  imports Machine "HOL-Library.Word" "HOL-Library.Monad_Syntax"
begin

text \<open>
  Encryption of passwords in memory (\<open>base/tclobjs.c\<close>, from \<open>TwapiEncryptData\<close> to
  \<open>ObjDecryptPasswordSWS\<close>). The functions \<open>SystemFunction040\<close> and \<open>041\<close> of the system, which work in
  place on blocks of eight bytes, are parameters; one that cannot be loaded is \<open>None\<close>.

  A buffer is a list of bytes. An access outside of a buffer has no result (the outer \<open>option\<close>). What a new buffer
  holds is a parameter. The secure erasure of buffers does not show in the model.
\<close>

unbundle bit_operations_syntax

section \<open>Buffers\<close>

type_synonym bytes = "8 word list"

datatype sec_error = ProcNotFound | BufferOverrun | BadPad int | SystemStatus nat

text \<open>Operations end with an error or a value.\<close>

definition buf_get :: "bytes \<Rightarrow> int \<Rightarrow> 8 word option" where
  "buf_get b i = (if 0 \<le> i \<and> i < int (length b) then Some (b ! nat i) else None)"

definition buf_set :: "bytes \<Rightarrow> int \<Rightarrow> 8 word \<Rightarrow> bytes option" where
  "buf_set b i v = (if 0 \<le> i \<and> i < int (length b) then Some (b[nat i := v]) else None)"

text \<open>\<open>CopyMemory\<close> of \<open>n\<close> bytes to the start of a buffer.\<close>

definition CopyMemory :: "bytes \<Rightarrow> bytes \<Rightarrow> int \<Rightarrow> bytes option" where
  "CopyMemory dst src n =
     (if 0 \<le> n \<and> n \<le> int (length dst) \<and> n \<le> int (length src)
      then Some (take (nat n) src @ drop (nat n) dst) else None)"

definition buf_new :: "(nat \<Rightarrow> 8 word) \<Rightarrow> int \<Rightarrow> bytes" where
  "buf_new junk n = map junk [0..<nat n]"

text \<open>A call of a function of the system on the first \<open>n\<close> bytes.\<close>

type_synonym sysfn = "bytes \<Rightarrow> nat + bytes"

definition in_place :: "sysfn \<Rightarrow> bytes \<Rightarrow> int \<Rightarrow> (nat + bytes) option" where
  "in_place f b n =
     (if 0 \<le> n \<and> n \<le> int (length b)
      then Some (case f (take (nat n) b) of Inl e \<Rightarrow> Inl e | Inr c \<Rightarrow> Inr (c @ drop (nat n) b)) else None)"

section \<open>Blocks\<close>

definition BLOCK_SIZE_MASK :: int where "BLOCK_SIZE_MASK = 7"

definition RTL_ENCRYPT_MEMORY_SIZE :: int where "RTL_ENCRYPT_MEMORY_SIZE = 8"

text \<open>The size of the ciphertext and the length of the padding.\<close>

definition padded :: "int \<Rightarrow> int \<times> int" where
  "padded nin =
     (if nin AND BLOCK_SIZE_MASK \<noteq> 0
      then let sz = INT32 (nin + BLOCK_SIZE_MASK) AND NOT BLOCK_SIZE_MASK in (sz, INT32 (sz - nin))
      else (INT32 (nin + RTL_ENCRYPT_MEMORY_SIZE), RTL_ENCRYPT_MEMORY_SIZE))"

text \<open>
  \<open>outP\<close> is the output buffer or null, \<open>nout\<close> its size. The result is the buffer and the value of
  \<open>*noutP\<close>, or the error; the buffer after an error is not looked at.
\<close>

definition TwapiEncryptData ::
    "sysfn option \<Rightarrow> bytes \<Rightarrow> int \<Rightarrow> bytes option \<Rightarrow> int \<Rightarrow> (sec_error + bytes option \<times> int) option" where
  "TwapiEncryptData fn inP nin outP nout =
     (case fn of
        None \<Rightarrow> Some (Inl ProcNotFound)
      | Some f \<Rightarrow>
          (case padded nin of
             (sz, pad_len) \<Rightarrow>
               (case outP of
                  None \<Rightarrow> Some (Inr (None, sz))
                | Some b \<Rightarrow>
                    if sz > nout then Some (Inl BufferOverrun)
                    else do {
                      b1 \<leftarrow> buf_set b (sz - 1) (word_of_int pad_len);
                      b2 \<leftarrow> CopyMemory b1 inP nin;
                      r \<leftarrow> in_place f b2 sz;
                      Some (case r of Inl st \<Rightarrow> Inl (SystemStatus st) | Inr b3 \<Rightarrow> Inr (Some b3, sz)) })))"

definition TwapiDecryptData ::
    "sysfn option \<Rightarrow> bytes \<Rightarrow> int \<Rightarrow> bytes option \<Rightarrow> int \<Rightarrow> (sec_error + bytes option \<times> int) option" where
  "TwapiDecryptData fn encP nenc outP nout =
     (case fn of
        None \<Rightarrow> Some (Inl ProcNotFound)
      | Some f \<Rightarrow>
          if nenc = 0 \<or> nenc AND BLOCK_SIZE_MASK \<noteq> 0 then Some (Inl (BadPad nenc))
          else (case outP of
             None \<Rightarrow> Some (Inr (None, nenc))
           | Some b \<Rightarrow>
               if nout < nenc then Some (Inl BufferOverrun)
               else do {
                 b1 \<leftarrow> CopyMemory b encP nenc;
                 r \<leftarrow> in_place f b1 nenc;
                 (case r of
                    Inl st \<Rightarrow> Some (Inl (SystemStatus st))
                  | Inr b2 \<Rightarrow> do {
                      p \<leftarrow> buf_get b2 (nenc - 1);
                      let pad_len = uint p;
                      Some (if pad_len = 0 \<or> pad_len > RTL_ENCRYPT_MEMORY_SIZE \<or> pad_len > nenc
                            then Inl (BadPad pad_len) else Inr (Some b2, nenc - pad_len)) }) }))"

definition TwapiDecryptDataSWS :: "(nat \<Rightarrow> 8 word) \<Rightarrow> sysfn option \<Rightarrow> bytes \<Rightarrow> (sec_error + bytes \<times> int) option" where
  "TwapiDecryptDataSWS junk fn encP = do {
     r \<leftarrow> TwapiDecryptData fn encP (int (length encP)) None 0;
     (case r of
        Inl e \<Rightarrow> Some (Inl e)
      | Inr (_, n) \<Rightarrow> do {
          r' \<leftarrow> TwapiDecryptData fn encP (int (length encP)) (Some (buf_new junk n)) n;
          (case r' of
             Inl e \<Rightarrow> Some (Inl e)
           | Inr (Some b, n') \<Rightarrow> Some (Inr (b, n'))
           | Inr (None, n') \<Rightarrow> None) }) }"

section \<open>Characters\<close>

text \<open>The bytes of 16-bit characters, little endian, and back.\<close>

definition wbytes :: "16 word list \<Rightarrow> bytes" where
  "wbytes ws = concat (map (\<lambda>w. [ucast w, ucast (drop_bit 8 w)]) ws)"

fun wchars :: "bytes \<Rightarrow> 16 word list" where
  "wchars (a # b # bs) = (ucast a OR push_bit 8 (ucast b)) # wchars bs"
| "wchars _ = []"

text \<open>\<open>nchars < 0\<close> asks for the characters up to the terminator, at most all that are given.\<close>

definition ObjEncryptWinChars ::
    "(nat \<Rightarrow> 8 word) \<Rightarrow> sysfn option \<Rightarrow> 16 word list \<Rightarrow> int \<Rightarrow> (sec_error + bytes) option" where
  "ObjEncryptWinChars junk fn uni nchars0 = do {
     let nchars = (if nchars0 < 0 then int (length (takeWhile (\<lambda>w. w \<noteq> 0) uni)) else nchars0);
     let src = wbytes uni;
     r \<leftarrow> TwapiEncryptData fn src (nchars * 2) None 0;
     (case r of
        Inl e \<Rightarrow> Some (Inl e)
      | Inr (_, nenc) \<Rightarrow> do {
          r' \<leftarrow> TwapiEncryptData fn src (nchars * 2) (Some (buf_new junk nenc)) nenc;
          (case r' of
             Inl e \<Rightarrow> Some (Inl e)
           | Inr (Some b, n) \<Rightarrow> Some (Inr (take (nat n) b))
           | Inr (None, n) \<Rightarrow> None) }) }"

definition ObjEncryptBytes :: "(nat \<Rightarrow> 8 word) \<Rightarrow> sysfn option \<Rightarrow> bytes \<Rightarrow> (sec_error + bytes) option" where
  "ObjEncryptBytes junk fn pv = ObjEncryptWinChars junk fn (map ucast pv) (int (length pv))"

text \<open>
  The buffer has two bytes more than the ciphertext, for the terminator. The result are the characters before
  it, as many as are reported.
\<close>

definition ObjDecryptWinCharsSWS :: "(nat \<Rightarrow> 8 word) \<Rightarrow> sysfn option \<Rightarrow> bytes \<Rightarrow> (sec_error + 16 word list) option" where
  "ObjDecryptWinCharsSWS junk fn enc = do {
     r \<leftarrow> TwapiDecryptData fn enc (int (length enc)) None 0;
     (case r of
        Inl e \<Rightarrow> Some (Inl e)
      | Inr (_, ndec0) \<Rightarrow> do {
          r' \<leftarrow> TwapiDecryptData fn enc (int (length enc)) (Some (buf_new junk (ndec0 + 2))) ndec0;
          (case r' of
             Inl e \<Rightarrow> Some (Inl e)
           | Inr (Some dec, ndec1) \<Rightarrow> do {
               let ndec = ndec1 div 2;
               d1 \<leftarrow> buf_set dec (2 * ndec) 0;
               d2 \<leftarrow> buf_set d1 (2 * ndec + 1) 0;
               Some (Inr (take (nat ndec) (wchars d2))) }
           | Inr (None, _) \<Rightarrow> None) }) }"

text \<open>The bytes after the leading space, the low halves of the characters.\<close>

definition ObjDecryptBytesExSWS ::
    "(nat \<Rightarrow> 8 word) \<Rightarrow> sysfn option \<Rightarrow> bytes \<Rightarrow> nat \<Rightarrow> (sec_error + bytes \<times> nat) option" where
  "ObjDecryptBytesExSWS junk fn enc nleading = do {
     r \<leftarrow> ObjDecryptWinCharsSWS junk fn enc;
     Some (case r of
        Inl e \<Rightarrow> Inl e
      | Inr uni \<Rightarrow> Inr (buf_new junk (int nleading) @ map ucast uni, length uni)) }"

text \<open>
  A password that may be encrypted or not: the object's bytes, if they decrypt, and otherwise its characters.
  An object has both representations.
\<close>

definition ObjDecryptPasswordSWS ::
    "(nat \<Rightarrow> 8 word) \<Rightarrow> sysfn option \<Rightarrow> bytes \<times> 16 word list \<Rightarrow> 16 word list option" where
  "ObjDecryptPasswordSWS junk fn ob = do {
     r \<leftarrow> ObjDecryptWinCharsSWS junk fn (fst ob);
     Some (case r of Inr uni \<Rightarrow> uni | Inl _ \<Rightarrow> snd ob) }"

end
