(* ===== verification/Secrets_Props.thy ===== *)
theory Secrets_Props
  imports Secrets
begin

text \<open>
  Round trips of \<open>Secrets\<close> for any pair of system functions that undo each other on whole blocks, and
  the safety of decrypting arbitrary data.
\<close>

section \<open>Sizes\<close>

lemma and_7: "x AND 7 = x mod 8" for x :: int
proof -
  have m: "(7 :: int) = mask 3" by (simp add: mask_eq_exp_minus_1)
  have "x AND 7 = take_bit 3 x" by (simp only: m take_bit_eq_mask)
  then show ?thesis by (simp add: take_bit_eq_mod)
qed

lemma and_not_7_int: "x AND NOT 7 = x - x mod 8" for x :: int
proof -
  have "x = (x AND NOT 7) + (x AND 7)"
    by (subst disjunctive_add) (auto simp: bit_simps simp flip: bit.conj_disj_distrib)
  then show ?thesis by (simp add: and_7)
qed

lemma and_minus_8: "x AND - 8 = x - x mod 8" for x :: int
  using and_not_7_int [of x] by simp

lemma padded_ok:
  assumes "0 \<le> nin" "nin < 2 ^ 31 - 8"
  shows "padded nin = (8 * (nin div 8 + 1), 8 * (nin div 8 + 1) - nin)"
proof (cases "nin mod 8 = 0")
  case True
  then have "8 * (nin div 8) = nin" by presburger
  then show ?thesis using assms True
    by (simp add: padded_def BLOCK_SIZE_MASK_def RTL_ENCRYPT_MEMORY_SIZE_def and_7 INT32_id)
next
  case False
  have e: "nin + 7 - (nin + 7) mod 8 = 8 * (nin div 8 + 1)" using False by presburger
  have "8 * (nin div 8 + 1) - nin \<le> 8" "0 \<le> 8 * (nin div 8 + 1) - nin" by presburger+
  then have "INT32 (8 * (nin div 8 + 1) - nin) = 8 * (nin div 8 + 1) - nin" by (intro INT32_id) simp_all
  with e False assms show ?thesis
    by (simp add: padded_def BLOCK_SIZE_MASK_def and_7 and_minus_8 INT32_id Let_def)
qed

lemma padded_bounds:
  assumes "0 \<le> nin" "nin < 2 ^ 31 - 8"
  obtains sz pad where "padded nin = (sz, pad)" "sz = nin + pad" "1 \<le> pad" "pad \<le> 8" "8 dvd sz" "nin < sz" "0 < sz"
proof -
  have b: "1 \<le> 8 * (nin div 8 + 1) - nin" "8 * (nin div 8 + 1) - nin \<le> 8" by presburger+
  from b assms(1) show ?thesis by (intro that [OF padded_ok [OF assms]]) auto
qed

section \<open>Buffers\<close>

lemma length_buf_new [simp]: "length (buf_new junk n) = nat n"
  by (simp add: buf_new_def)

lemma length_wbytes [simp]: "length (wbytes ws) = 2 * length ws"
  by (induction ws) (simp_all add: wbytes_def)

lemma wchars_wbytes: "wchars (wbytes ws @ bs) = ws @ wchars bs"
proof (induction ws)
  case (Cons w ws)
  have "ucast (ucast w :: 8 word) OR push_bit 8 (ucast (ucast (drop_bit 8 w) :: 8 word)) = w"
    by (rule bit_word_eqI) (auto simp: bit_simps)
  with Cons show ?case by (simp add: wbytes_def)
qed (simp add: wbytes_def)

lemma wchars_length: "length (wchars bs) = length bs div 2"
  by (induction bs rule: wchars.induct) simp_all

lemma take_wchars: "2 * n \<le> length bs \<Longrightarrow> take n (wchars bs) = wchars (take (2 * n) bs)"
proof (induction bs arbitrary: n rule: wchars.induct)
  case (1 a b bs)
  then show ?case by (cases n) simp_all
qed (case_tac [!] n, simp_all)

lemma buf_set_eq: "0 \<le> i \<Longrightarrow> i < int (length b) \<Longrightarrow> buf_set b i v = Some (b[nat i := v])"
  by (simp add: buf_set_def)

lemma CopyMemory_eq: "0 \<le> n \<Longrightarrow> n \<le> int (length dst) \<Longrightarrow> n \<le> int (length src) \<Longrightarrow>
   CopyMemory dst src n = Some (take (nat n) src @ drop (nat n) dst)"
  by (simp add: CopyMemory_def)

section \<open>The system\<close>

text \<open>
  What the functions of the system promise: they keep the length; on whole blocks, encryption succeeds
  and decryption undoes it.
\<close>

definition keeps_length :: "sysfn \<Rightarrow> bool" where
  "keeps_length f \<longleftrightarrow> (\<forall>b c. f b = Inr c \<longrightarrow> length c = length b)"

definition crypt_law :: "sysfn \<Rightarrow> sysfn \<Rightarrow> bool" where
  "crypt_law E D \<longleftrightarrow> keeps_length E \<and> keeps_length D \<and>
     (\<forall>b. 8 dvd length b \<longrightarrow> (\<exists>c. E b = Inr c \<and> D c = Inr b))"

text \<open>One encryption: the input, its padding whose last byte is the length of the padding, and the encrypted blocks.\<close>

lemma encrypt_data:
  assumes "crypt_law E D" "nin = int (length inP)" "nin < 2 ^ 31 - 8" "padded nin = (sz, pad)"
  obtains c f where "TwapiEncryptData (Some E) inP nin None 0 = Some (Inr (None, sz))"
    "TwapiEncryptData (Some E) inP nin (Some (buf_new junk sz)) sz = Some (Inr (Some c, sz))"
    "length c = nat sz" "D c = Inr (inP @ f @ [word_of_int pad])" "length f = nat pad - 1"
proof -
  have n: "0 \<le> nin" using assms(2) by simp
  obtain sz' pad' where sp: "padded nin = (sz', pad')" "sz' = nin + pad'" "1 \<le> pad'" "pad' \<le> 8" "8 dvd sz'" "nin < sz'" "0 < sz'"
    using padded_bounds [OF n assms(3)] by metis
  have eq: "sz' = sz" "pad' = pad" using sp(1) assms(4) by simp_all
  note sp = sp [unfolded eq]
  define b where "b = (buf_new junk sz)[nat (sz - 1) := word_of_int pad]"
  define m where "m = inP @ drop (nat nin) b"
  have lb: "length b = nat sz" by (simp add: b_def)
  have len: "length m = nat sz" using sp(6) assms(2) by (simp add: m_def lb)
  have last: "drop (nat nin) b = take (nat pad - 1) (drop (nat nin) b) @ [word_of_int pad]"
  proof -
    have l: "length (drop (nat nin) b) = Suc (nat pad - 1)" using sp lb n by simp
    have "drop (nat nin) b ! (nat pad - 1) = word_of_int pad"
      using sp n lb by (simp add: b_def nth_list_update nat_add_distrib nat_diff_distrib)
    then show ?thesis using l by (metis lessI order_refl take_Suc_conv_app_nth take_all)
  qed
  have "int (length m) = sz" using len sp(7) by simp
  then have "int 8 dvd int (length m)" using sp(5) by simp
  then have "8 dvd length m" by (simp only: of_nat_dvd_iff)
  then obtain c where c: "E m = Inr c" "D c = Inr m" using assms(1) by (auto simp: crypt_law_def)
  have lc: "length c = nat sz" using assms(1) c(1) len by (auto simp: crypt_law_def keeps_length_def)
  have set: "buf_set (buf_new junk sz) (sz - 1) (word_of_int pad) = Some b"
    using sp(7) by (simp add: buf_set_def b_def)
  have copy: "CopyMemory b inP nin = Some m" using sp(6) n assms(2) lb by (simp add: CopyMemory_def m_def)
  have sys: "in_place E m sz = Some (Inr c)" using sp(7) len c(1) by (simp add: in_place_def)
  have "TwapiEncryptData (Some E) inP nin (Some (buf_new junk sz)) sz = Some (Inr (Some c, sz))"
    using assms(4) set copy sys by (simp add: TwapiEncryptData_def)
  moreover have "TwapiEncryptData (Some E) inP nin None 0 = Some (Inr (None, sz))"
    using assms(4) by (simp add: TwapiEncryptData_def)
  moreover have "D c = Inr (inP @ take (nat pad - 1) (drop (nat nin) b) @ [word_of_int pad])"
    using c(2) last by (simp add: m_def)
  moreover have "length (take (nat pad - 1) (drop (nat nin) b)) = nat pad - 1" using sp lb n by simp
  ultimately show ?thesis using lc by (intro that)
qed

text \<open>One decryption into a buffer with room for it.\<close>

lemma decrypt_data:
  assumes "keeps_length D" "0 < length enc" "8 dvd length enc" "int (length enc) \<le> int (length buf)"
    and m: "D enc = Inr m" "last m = word_of_int pad" "1 \<le> pad" "pad \<le> 8"
  shows "TwapiDecryptData (Some D) enc (int (length enc)) (Some buf) (int (length enc)) =
    Some (Inr (Some (m @ drop (length enc) buf), int (length enc) - pad))"
proof -
  have lm: "length m = length enc" using assms(1) m(1) by (auto simp: keeps_length_def)
  then have ne: "m \<noteq> []" using assms(2) by auto
  have i: "nat (int (length enc) - 1) = length enc - 1" using assms(2) by linarith
  have "(m @ drop (length enc) buf) ! (length enc - 1) = last m"
    using lm assms(2) last_conv_nth [OF ne] by (simp add: nth_append)
  then have get: "buf_get (m @ drop (length enc) buf) (int (length enc) - 1) = Some (word_of_int pad)"
    using assms(2) lm m(2) i by (simp add: buf_get_def)
  have p: "uint (word_of_int pad :: 8 word) = pad" using m(3,4) by (simp add: uint_word_of_int)
  have b: "int (length enc) AND BLOCK_SIZE_MASK = 0"
  proof -
    have "int 8 dvd int (length enc)" using assms(3) by (simp only: of_nat_dvd_iff)
    then show ?thesis by (simp add: BLOCK_SIZE_MASK_def and_7)
  qed
  have "8 \<le> length enc" using assms(2,3) by (simp add: dvd_imp_le)
  then have pe: "pad \<le> int (length enc)" using m(4) by linarith
  have cm: "CopyMemory buf enc (int (length enc)) = Some (enc @ drop (length enc) buf)"
    using assms(4) by (simp add: CopyMemory_def)
  have ip: "in_place D (enc @ drop (length enc) buf) (int (length enc)) = Some (Inr (m @ drop (length enc) buf))"
    using m(1) by (simp add: in_place_def)
  have ok: "\<not> (pad = 0 \<or> pad > RTL_ENCRYPT_MEMORY_SIZE \<or> pad > int (length enc))"
    using m(3,4) pe by (simp add: RTL_ENCRYPT_MEMORY_SIZE_def)
  have nz: "\<not> (int (length enc) = 0 \<or> int (length enc) AND BLOCK_SIZE_MASK \<noteq> 0)" using assms(2) b by simp
  show ?thesis
    unfolding TwapiDecryptData_def option.case if_not_P [OF nz] cm ip Option.bind.bind_lunit sum.case get p Let_def if_not_P [OF ok]
    by simp
qed

text \<open>The whole function: the characters that fit before the padding.\<close>

lemma decrypt_chars:
  assumes "keeps_length D" "0 < length enc" "8 dvd length enc"
    and m: "D enc = Inr m" "last m = word_of_int pad" "1 \<le> pad" "pad \<le> 8"
  shows "ObjDecryptWinCharsSWS junk (Some D) enc = Some (Inr (wchars (take (2 * nat ((int (length enc) - pad) div 2)) m)))"
proof -
  define len where "len = int (length enc)"
  define d where "d = m @ drop (length enc) (buf_new junk (len + 2))"
  define k where "k = nat ((len - pad) div 2)"
  have lm: "length m = length enc" using assms(1) m(1) by (auto simp: keeps_length_def)
  have len: "0 < len" using assms(2) by (simp add: len_def)
  have "int 8 dvd len" unfolding len_def using assms(3) by (simp only: of_nat_dvd_iff)
  then have b: "len AND BLOCK_SIZE_MASK = 0" and "8 \<le> len"
    using len by (simp_all add: BLOCK_SIZE_MASK_def and_7 zdvd_imp_le)
  then have dec0: "TwapiDecryptData (Some D) enc len None 0 = Some (Inr (None, len))"
    using len by (simp add: TwapiDecryptData_def)
  have dec: "TwapiDecryptData (Some D) enc len (Some (buf_new junk (len + 2))) len = Some (Inr (Some d, len - pad))"
    unfolding len_def d_def by (rule decrypt_data) (use assms m in \<open>simp_all add: len_def\<close>)
  have ld: "length d = length enc + 2" using lm by (simp add: d_def len_def nat_add_distrib)
  have k: "(len - pad) div 2 = int k" "2 * k + 1 < length d" "2 * k \<le> length m"
    using \<open>8 \<le> len\<close> m(3,4) ld lm by (auto simp: k_def len_def)
  then have sets: "buf_set d (2 * int k) 0 = Some (d[2 * k := 0])"
    "buf_set (d[2 * k := 0]) (2 * int k + 1) 0 = Some (d[2 * k := 0, Suc (2 * k) := 0])"
    by (auto simp: buf_set_def nat_mult_distrib nat_add_distrib)
  have "take (2 * k) d = take (2 * k) m" using k(3) by (simp add: d_def)
  then have "take k (wchars (d[2 * k := 0, Suc (2 * k) := 0])) = wchars (take (2 * k) m)"
    using k(2) by (simp add: take_wchars)
  then show ?thesis
    using dec0 dec sets by (simp add: ObjDecryptWinCharsSWS_def len_def [symmetric] k(1) Let_def)
qed

section \<open>Properties\<close>

text \<open>
  C31. What is encrypted is decrypted again: the ciphertext of a string of characters is longer than the string and made of
  whole blocks, it decrypts to the same characters, whatever the new buffers hold, and
  the same holds for strings of bytes.
\<close>

theorem secret_roundtrip:
  assumes "crypt_law E D" "length ws < 2 ^ 30 - 4" "length bs < 2 ^ 30 - 4"
  shows "(\<exists>ct. ObjEncryptWinChars junk (Some E) ws (int (length ws)) = Some (Inr ct) \<and>
      8 dvd length ct \<and> 2 * length ws < length ct \<and> length ct \<le> 2 * length ws + 8 \<and>
      ObjDecryptWinCharsSWS junk' (Some D) ct = Some (Inr ws)) \<and>
    (\<exists>ct. ObjEncryptBytes junk (Some E) bs = Some (Inr ct) \<and>
      ObjDecryptBytesExSWS junk' (Some D) ct n = Some (Inr (buf_new junk' (int n) @ bs, length bs)))"
proof -
  have W: "\<exists>ct. ObjEncryptWinChars junk (Some E) ws (int (length ws)) = Some (Inr ct) \<and>
      8 dvd length ct \<and> 2 * length ws < length ct \<and> length ct \<le> 2 * length ws + 8 \<and>
      ObjDecryptWinCharsSWS junk' (Some D) ct = Some (Inr ws)"
    if l: "length ws < 2 ^ 30 - 4" for ws
  proof -
    define nin where "nin = int (length (wbytes ws))"
    have nin: "0 \<le> nin" "nin < 2 ^ 31 - 8" "nin = int (length ws) * 2" using l by (simp_all add: nin_def)
    obtain sz pad where sp: "padded nin = (sz, pad)" "sz = nin + pad" "1 \<le> pad" "pad \<le> 8" "8 dvd sz" "nin < sz" "0 < sz"
      by (rule padded_bounds [OF nin(1,2)])
    obtain c f where c: "TwapiEncryptData (Some E) (wbytes ws) nin None 0 = Some (Inr (None, sz))"
      "TwapiEncryptData (Some E) (wbytes ws) nin (Some (buf_new junk sz)) sz = Some (Inr (Some c, sz))"
      "length c = nat sz" "D c = Inr (wbytes ws @ f @ [word_of_int pad])" "length f = nat pad - 1"
      by (rule encrypt_data [OF assms(1) nin_def nin(2) sp(1)])
    have enc: "ObjEncryptWinChars junk (Some E) ws (int (length ws)) = Some (Inr c)"
      using c(1-3) nin(3) by (simp add: ObjEncryptWinChars_def)
    have "int 8 dvd int (length c)" using sp(5,7) c(3) by simp
    then have d8: "8 dvd length c" by (simp only: of_nat_dvd_iff)
    define m where "m = wbytes ws @ f @ [word_of_int pad]"
    have lc: "int (length c) = sz" using c(3) sp(7) by simp
    have dec: "ObjDecryptWinCharsSWS junk' (Some D) c =
        Some (Inr (wchars (take (2 * nat ((int (length c) - pad) div 2)) m)))"
    proof (rule decrypt_chars)
      show "keeps_length D" using assms(1) by (simp add: crypt_law_def)
      show "0 < length c" using lc sp(7) by linarith
      show "D c = Inr m" using c(4) by (simp add: m_def)
      show "last m = word_of_int pad" by (simp add: m_def)
    qed (use d8 sp in simp_all)
    have "2 * nat ((int (length c) - pad) div 2) = length (wbytes ws)" using lc sp(2) nin(3) by simp
    then have "ObjDecryptWinCharsSWS junk' (Some D) c = Some (Inr ws)"
      using dec wchars_wbytes [of ws "[]"] by (simp add: m_def)
    moreover have "2 * length ws < length c" "length c \<le> 2 * length ws + 8" using lc sp(2,3,4) nin(3) by linarith+
    ultimately show ?thesis using enc d8 by blast
  qed
  have "\<exists>ct. ObjEncryptBytes junk (Some E) bs = Some (Inr ct) \<and>
      ObjDecryptBytesExSWS junk' (Some D) ct n = Some (Inr (buf_new junk' (int n) @ bs, length bs))"
  proof -
    have "length (map ucast bs :: 16 word list) < 2 ^ 30 - 4" using assms(3) by simp
    from W [OF this] obtain ct where ct: "ObjEncryptBytes junk (Some E) bs = Some (Inr ct)"
      "ObjDecryptWinCharsSWS junk' (Some D) ct = Some (Inr (map ucast bs))" by (auto simp: ObjEncryptBytes_def)
    have "(ucast (ucast b :: 16 word) :: 8 word) = b" for b :: "8 word" by (rule bit_word_eqI) (auto simp: bit_simps)
    then have "map ucast (map ucast bs :: 16 word list) = bs" by (simp add: comp_def)
    with ct show ?thesis by (auto simp: ObjDecryptBytesExSWS_def)
  qed
  with W [OF assms(2)] show ?thesis by blast
qed

text \<open>
  Decrypting what is not a ciphertext is harmless: for every string of bytes and every answer of the system, the decryption ends
  without an access outside of its buffers, with an error or with fewer characters than the ciphertext has room for.
\<close>

theorem decrypt_in_bounds:
  assumes "keeps_length D"
  shows "\<exists>r. ObjDecryptWinCharsSWS junk (Some D) enc = Some r \<and> (\<forall>ws. r = Inr ws \<longrightarrow> 2 * length ws < length enc)"
proof (cases "length enc = 0 \<or> int (length enc) AND BLOCK_SIZE_MASK \<noteq> 0")
  case True
  then show ?thesis by (auto simp: ObjDecryptWinCharsSWS_def TwapiDecryptData_def)
next
  case False
  define len where "len = int (length enc)"
  have len: "0 < len" "len AND BLOCK_SIZE_MASK = 0" using False by (simp_all add: len_def)
  then have "len mod 8 = 0" by (simp add: BLOCK_SIZE_MASK_def and_7)
  then have "int 8 dvd int (length enc)" by (simp add: len_def mod_eq_0_iff_dvd)
  then have d8: "8 dvd length enc" by (simp only: of_nat_dvd_iff)
  define buf where "buf = buf_new junk (len + 2)"
  have cm: "CopyMemory buf enc len = Some (enc @ drop (length enc) buf)"
    by (simp add: CopyMemory_def buf_def len_def)
  have dec0: "TwapiDecryptData (Some D) enc len None 0 = Some (Inr (None, len))"
    using len by (simp add: TwapiDecryptData_def)
  show ?thesis
  proof (cases "D enc")
    case (Inl st)
    then have "in_place D (enc @ drop (length enc) buf) len = Some (Inl st)" by (simp add: in_place_def len_def)
    then have "TwapiDecryptData (Some D) enc len (Some buf) len = Some (Inl (SystemStatus st))"
      using len cm by (simp add: TwapiDecryptData_def)
    then show ?thesis using dec0 by (simp add: ObjDecryptWinCharsSWS_def len_def [symmetric] buf_def)
  next
    case (Inr m)
    then have lm: "length m = length enc" using assms by (auto simp: keeps_length_def)
    then have ne: "m \<noteq> []" using len by (auto simp: len_def)
    define pad where "pad = uint (last m)"
    show ?thesis
    proof (cases "1 \<le> pad \<and> pad \<le> 8")
      case True
      have "last m = word_of_int pad" by (simp add: pad_def)
      then have "ObjDecryptWinCharsSWS junk (Some D) enc = Some (Inr (wchars (take (2 * nat ((int (length enc) - pad) div 2)) m)))"
        using decrypt_chars [OF assms _ d8 Inr _ conjunct1 [OF True] conjunct2 [OF True], of junk] len by (simp add: len_def)
      moreover have "2 * length (wchars (take (2 * nat ((int (length enc) - pad) div 2)) m)) < length enc"
        using True len(1) by (auto simp: wchars_length lm len_def min_def)
      ultimately show ?thesis by blast
    next
      case False
      have i: "nat (len - 1) = length enc - 1" using len(1) unfolding len_def by linarith
      have ip: "in_place D (enc @ drop (length enc) buf) len = Some (Inr (m @ drop (length enc) buf))"
        using Inr by (simp add: in_place_def len_def)
      have "(m @ drop (length enc) buf) ! (length enc - 1) = last m"
        using lm len(1) last_conv_nth [OF ne] by (simp add: nth_append len_def)
      then have get: "buf_get (m @ drop (length enc) buf) (len - 1) = Some (last m)"
        using len(1) lm i by (simp add: buf_get_def len_def)
      have bad: "pad = 0 \<or> pad > RTL_ENCRYPT_MEMORY_SIZE \<or> pad > len"
        using False uint_nonnegative [of "last m"] unfolding pad_def RTL_ENCRYPT_MEMORY_SIZE_def by linarith
      have "TwapiDecryptData (Some D) enc len (Some buf) len = Some (Inl (BadPad pad))"
        using len cm ip get bad by (simp add: TwapiDecryptData_def pad_def [symmetric] Let_def)
      then show ?thesis using dec0 by (simp add: ObjDecryptWinCharsSWS_def len_def [symmetric] buf_def)
    qed
  qed
qed

text \<open>
  A password that is not encrypted is taken for a ciphertext when its length is a multiple of eight bytes and the last byte
  that the system makes of it lies between one and eight: the caller then gets other characters than
  the password, and no error.
\<close>

theorem plain_password_misread:
  assumes "keeps_length D" "0 < length pw" "8 dvd length pw" "D pw = Inr m" "1 \<le> uint (last m)" "uint (last m) \<le> 8"
  shows "\<exists>ws. ObjDecryptPasswordSWS junk (Some D) (pw, map ucast pw) = Some ws \<and> length ws < length pw"
proof -
  have "length m = length pw" using assms(1,4) by (auto simp: keeps_length_def)
  then have "length (wchars (take (2 * nat ((int (length pw) - uint (last m)) div 2)) m)) < length pw"
    using assms(2,5) by (auto simp: wchars_length min_def)
  moreover have "ObjDecryptWinCharsSWS junk (Some D) pw =
      Some (Inr (wchars (take (2 * nat ((int (length pw) - uint (last m)) div 2)) m)))"
    by (rule decrypt_chars [OF assms(1-4) _ assms(5,6)]) simp
  ultimately show ?thesis by (simp add: ObjDecryptPasswordSWS_def)
qed

section \<open>Witnesses\<close>

definition demo_crypt :: sysfn where
  "demo_crypt b = Inr (map NOT b)"

lemma demo_crypt_law: "crypt_law demo_crypt demo_crypt" "keeps_length demo_crypt"
  by (simp_all add: crypt_law_def keeps_length_def demo_crypt_def comp_def)

theorem secret_roundtrip_witness:
  "\<exists>ct. ObjEncryptWinChars (\<lambda>_. 0) (Some demo_crypt) [65, 66, 67] 3 = Some (Inr ct) \<and> length ct = 8 \<and>
     ObjDecryptWinCharsSWS (\<lambda>_. 0) (Some demo_crypt) ct = Some (Inr [65, 66, 67])"
proof -
  obtain ct where ct: "ObjEncryptWinChars (\<lambda>_. 0) (Some demo_crypt) [65, 66, 67] 3 = Some (Inr ct)" "8 dvd length ct"
    "6 < length ct" "length ct \<le> 14" "ObjDecryptWinCharsSWS (\<lambda>_. 0) (Some demo_crypt) ct = Some (Inr [65, 66, 67])"
    using conjunct1 [OF secret_roundtrip [OF demo_crypt_law(1), of "[65, 66, 67]" "[]" "\<lambda>_. 0" "\<lambda>_. 0"]] by auto
  then have "length ct = 8" by presburger
  with ct show ?thesis by blast
qed

theorem decrypt_in_bounds_witness:
  "ObjDecryptWinCharsSWS (\<lambda>_. 0) (Some demo_crypt) [1, 2, 3, 4, 5, 6, 7, 8, 9] \<noteq> None"
  using decrypt_in_bounds [OF demo_crypt_law(2), of "\<lambda>_. 0" "[1, 2, 3, 4, 5, 6, 7, 8, 9]"] by auto

theorem plain_password_misread_witness:
  "\<exists>ws. ObjDecryptPasswordSWS (\<lambda>_. 0) (Some demo_crypt) ([112, 97, 115, 115, 119, 111, 114, 252], map ucast [112, 97, 115, 115, 119, 111, 114, 252 :: 8 word]) = Some ws \<and>
     length ws < 8"
proof -
  let ?pw = "[112, 97, 115, 115, 119, 111, 114, 252] :: 8 word list"
  have l: "length ?pw = 8" by simp
  have "\<exists>ws. ObjDecryptPasswordSWS (\<lambda>_. 0) (Some demo_crypt) (?pw, map ucast ?pw) = Some ws \<and> length ws < length ?pw"
    by (rule plain_password_misread [OF demo_crypt_law(2), of ?pw "map NOT ?pw"]) (simp_all only: l, simp_all add: demo_crypt_def)
  then show ?thesis unfolding l .
qed

end
