(* ===== verification/Winval.thy ===== *)
theory Winval
  imports Tcl Machine "HOL-Library.Word" "HOL-Library.Char_ord"
begin

text \<open>
  Values of the Windows API as Tcl values and back (\<open>base/tclobjs.c\<close>): bounded integers, times,
  rectangles and points, LUIDs, hexadecimal numbers, strings of limited length, item identifier
  lists, string lists (\<open>MULTI_SZ\<close>), argument vectors and registry values.

  Memory that is read is a list of its units; a read beyond its end has no result (\<open>None\<close>).
  \<open>w_chars\<close> and \<open>w_string\<close> are the conversions between the string of a value and UTF-16, \<open>w_len\<close> its number of
  characters as Tcl counts them, \<open>w_print\<close> the decimal string of an integer.
\<close>

record wtcl = tcl +
  w_chars :: "string \<Rightarrow> 16 word list"
  w_string :: "16 word list \<Rightarrow> string"
  w_len :: "string \<Rightarrow> nat"
  w_print :: "int \<Rightarrow> string"

datatype val_error = ConversionError | OutOfRange | BadFormat | InternalLimit

section \<open>Bounded integers\<close>

definition ObjToRangedInt :: "wtcl \<Rightarrow> string \<Rightarrow> int \<Rightarrow> int \<Rightarrow> val_error + int" where
  "ObjToRangedInt T s low high =
     (case t_int T s of
        None \<Rightarrow> Inl ConversionError
      | Some i \<Rightarrow> if i < low \<or> i > high then Inl OutOfRange else Inr i)"

definition ObjToUCHAR :: "wtcl \<Rightarrow> string \<Rightarrow> val_error + 8 word" where
  "ObjToUCHAR T s = map_sum id word_of_int (ObjToRangedInt T s 0 255)"

definition ObjToCHAR :: "wtcl \<Rightarrow> string \<Rightarrow> val_error + 8 word" where
  "ObjToCHAR T s = map_sum id word_of_int (ObjToRangedInt T s (- 128) 127)"

definition ObjToUSHORT :: "wtcl \<Rightarrow> string \<Rightarrow> val_error + 16 word" where
  "ObjToUSHORT T s = map_sum id word_of_int (ObjToRangedInt T s 0 65535)"

definition ObjToSHORT :: "wtcl \<Rightarrow> string \<Rightarrow> val_error + 16 word" where
  "ObjToSHORT T s = map_sum id word_of_int (ObjToRangedInt T s (- 32768) 32767)"

section \<open>Times\<close>

record SYSTEMTIME =
  wYear :: "16 word"
  wMonth :: "16 word"
  wDay :: "16 word"
  wHour :: "16 word"
  wMinute :: "16 word"
  wSecond :: "16 word"
  wMilliseconds :: "16 word"
  wDayOfWeek :: "16 word"

definition ObjFromSYSTEMTIME :: "wtcl \<Rightarrow> SYSTEMTIME \<Rightarrow> string" where
  "ObjFromSYSTEMTIME T t =
     t_mklist T (map (\<lambda>w. w_print T (uint w))
       [wYear t, wMonth t, wDay t, wHour t, wMinute t, wSecond t, wMilliseconds t, wDayOfWeek t])"

text \<open>
  \<open>now\<close>: \<open>GetSystemTime\<close>; \<open>valid\<close>: \<open>SystemTimeToFileTime\<close> succeeds; \<open>old\<close>: what the structure
  holds before. Its day of the week is not set.
\<close>

definition get_word :: "wtcl \<Rightarrow> string list \<Rightarrow> nat \<Rightarrow> 16 word option" where
  "get_word T objv i = (if length objv \<le> i then Some 0
     else case ObjToUSHORT T (objv ! i) of Inl _ \<Rightarrow> None | Inr w \<Rightarrow> Some w)"

definition ObjToSYSTEMTIME ::
    "wtcl \<Rightarrow> SYSTEMTIME \<Rightarrow> (SYSTEMTIME \<Rightarrow> bool) \<Rightarrow> SYSTEMTIME \<Rightarrow> string \<Rightarrow> val_error + SYSTEMTIME" where
  "ObjToSYSTEMTIME T now valid old s =
     (case t_list T s of
        None \<Rightarrow> Inl BadFormat
      | Some objv \<Rightarrow>
          if objv = [] then Inr now
          else if length objv < 3 then Inl BadFormat
          else (case do { y \<leftarrow> get_word T objv 0; mo \<leftarrow> get_word T objv 1; d \<leftarrow> get_word T objv 2;
                          ms \<leftarrow> get_word T objv 6; sec \<leftarrow> get_word T objv 5;
                          mi \<leftarrow> get_word T objv 4; h \<leftarrow> get_word T objv 3;
                          Some (old\<lparr>wYear := y, wMonth := mo, wDay := d, wHour := h, wMinute := mi, wSecond := sec,
                                    wMilliseconds := ms\<rparr>) } of
               None \<Rightarrow> Inl BadFormat
             | Some t \<Rightarrow> if valid t then Inr t else Inl BadFormat))"

text \<open>A 64-bit time is the pair of its high and low halves.\<close>

type_synonym FILETIME = "32 word \<times> 32 word"

definition ObjFromFILETIME :: "wtcl \<Rightarrow> FILETIME \<Rightarrow> string" where
  "ObjFromFILETIME T ft = w_print T (sint (word_cat (fst ft) (snd ft) :: 64 word))"

definition ObjToFILETIME :: "wtcl \<Rightarrow> string \<Rightarrow> FILETIME option" where
  "ObjToFILETIME T s =
     map_option (\<lambda>n. let w = word_of_int n :: 64 word in (ucast (drop_bit 32 w), ucast w)) (t_wide T s)"

record TIME_ZONE_INFORMATION =
  tz_Bias :: int
  tz_StandardName :: "16 word list"
  tz_StandardDate :: SYSTEMTIME
  tz_StandardBias :: int
  tz_DaylightName :: "16 word list"
  tz_DaylightDate :: SYSTEMTIME
  tz_DaylightBias :: int

text \<open>Reading at most \<open>limit\<close> units: the units before the terminator and how many are left after it.\<close>

definition limited :: "'a::zero list \<Rightarrow> int \<Rightarrow> ('a list \<times> int) option" where
  "limited mem limit =
     (if limit < 0
      then (if 0 \<in> set mem then Some (takeWhile (\<lambda>c. c \<noteq> 0) mem, 0) else None)
      else let p = takeWhile (\<lambda>c. c \<noteq> 0) (take (nat limit) mem)
           in if length mem < nat limit \<and> length p = length mem then None
              else Some (p, if length p = nat limit then 0 else limit - int (length p) - 1))"

definition ObjFromStringLimited :: "8 word list \<Rightarrow> int \<Rightarrow> (8 word list \<times> int) option" where
  "ObjFromStringLimited mem limit = limited mem limit"

definition ObjFromWinCharsLimited :: "16 word list \<Rightarrow> int \<Rightarrow> (16 word list \<times> int) option" where
  "ObjFromWinCharsLimited mem limit = limited mem limit"

definition ObjFromWinCharsNoTrailingSpace :: "16 word list \<Rightarrow> 16 word list option" where
  "ObjFromWinCharsNoTrailingSpace mem = do {
     (s, _) \<leftarrow> limited mem (- 1);
     Some (if s \<noteq> [] \<and> last s = 32 then butlast s else s) }"

definition ObjFromTIME_ZONE_INFORMATION :: "wtcl \<Rightarrow> TIME_ZONE_INFORMATION \<Rightarrow> string option" where
  "ObjFromTIME_ZONE_INFORMATION T tz = do {
     (std, _) \<leftarrow> ObjFromWinCharsLimited (tz_StandardName tz) 32;
     (dl, _) \<leftarrow> ObjFromWinCharsLimited (tz_DaylightName tz) 32;
     Some (t_mklist T [w_print T (tz_Bias tz), w_string T std, ObjFromSYSTEMTIME T (tz_StandardDate tz),
             w_print T (tz_StandardBias tz), w_string T dl, ObjFromSYSTEMTIME T (tz_DaylightDate tz),
             w_print T (tz_DaylightBias tz)]) }"

text \<open>\<open>wcscpy\<close> writes the name and its terminator over the start of the array.\<close>

definition wcscpy :: "16 word list \<Rightarrow> 16 word list \<Rightarrow> 16 word list" where
  "wcscpy dst src = (let s = takeWhile (\<lambda>c. c \<noteq> 0) src @ [0] in s @ drop (length s) dst)"

definition ObjToTIME_ZONE_INFORMATION ::
    "wtcl \<Rightarrow> SYSTEMTIME \<Rightarrow> (SYSTEMTIME \<Rightarrow> bool) \<Rightarrow> TIME_ZONE_INFORMATION \<Rightarrow> string \<Rightarrow> val_error + TIME_ZONE_INFORMATION" where
  "ObjToTIME_ZONE_INFORMATION T now valid old s =
     (case t_list T s of
        Some [bias, std, sd, sb, dl, dd, db] \<Rightarrow>
          (case (t_int T bias, ObjToSYSTEMTIME T now valid (tz_StandardDate old) sd, t_int T sb,
                 ObjToSYSTEMTIME T now valid (tz_DaylightDate old) dd, t_int T db) of
             (Some b, Inr std_date, Some sbias, Inr dl_date, Some dbias) \<Rightarrow>
               if length (w_chars T std) < 32 \<and> length (w_chars T dl) < 32
               then Inr \<lparr>tz_Bias = b, tz_StandardName = wcscpy (tz_StandardName old) (w_chars T std),
                         tz_StandardDate = std_date, tz_StandardBias = sbias,
                         tz_DaylightName = wcscpy (tz_DaylightName old) (w_chars T dl),
                         tz_DaylightDate = dl_date, tz_DaylightBias = dbias\<rparr>
               else Inl BadFormat
           | _ \<Rightarrow> Inl BadFormat)
      | _ \<Rightarrow> Inl BadFormat)"

section \<open>Rectangles and points\<close>

definition get_ints :: "wtcl \<Rightarrow> nat \<Rightarrow> string \<Rightarrow> val_error + int list" where
  "get_ints T n s =
     (case t_list T s of
        None \<Rightarrow> Inl ConversionError
      | Some objv \<Rightarrow>
          if length objv \<noteq> n then Inl BadFormat
          else if \<exists>x \<in> set objv. t_int T x = None then Inl ConversionError
          else Inr (map (\<lambda>x. the (t_int T x)) objv))"

definition ObjToRECT :: "wtcl \<Rightarrow> string \<Rightarrow> val_error + int list" where
  "ObjToRECT T s = get_ints T 4 s"

definition ObjToRECT_NULL :: "wtcl \<Rightarrow> string \<Rightarrow> val_error + int list option" where
  "ObjToRECT_NULL T s =
     (case t_list T s of
        None \<Rightarrow> Inl ConversionError
      | Some objv \<Rightarrow> if objv = [] then Inr None else map_sum id Some (ObjToRECT T s))"

definition ObjFromRECT :: "wtcl \<Rightarrow> int list \<Rightarrow> string" where
  "ObjFromRECT T r = t_mklist T (map (w_print T) r)"

definition ObjToPOINT :: "wtcl \<Rightarrow> string \<Rightarrow> val_error + int list" where
  "ObjToPOINT T s = get_ints T 2 s"

definition ObjFromPOINT :: "wtcl \<Rightarrow> int list \<Rightarrow> string" where
  "ObjFromPOINT T p = t_mklist T (map (w_print T) p)"

definition ObjFromPOINTS :: "wtcl \<Rightarrow> 16 word \<times> 16 word \<Rightarrow> string" where
  "ObjFromPOINTS T p = t_mklist T [w_print T (sint (fst p)), w_print T (sint (snd p))]"

section \<open>Hexadecimal numbers\<close>

definition hexmap :: string where "hexmap = ''0123456789abcdef''"

definition hex_digit :: "'w::len word \<Rightarrow> nat \<Rightarrow> char" where
  "hex_digit v i = hexmap ! unat (and (drop_bit (4 * i) v) 15)"

text \<open>The digits of the \<open>n\<close> lowest half-bytes, the highest first.\<close>

definition hex_digits :: "nat \<Rightarrow> 'w::len word \<Rightarrow> string" where
  "hex_digits n v = map (hex_digit v) (rev [0..<n])"

definition ObjFromUCHARHex :: "8 word \<Rightarrow> string" where
  "ObjFromUCHARHex v = ''0x'' @ hex_digits 2 v"

definition ObjFromUSHORTHex :: "16 word \<Rightarrow> string" where
  "ObjFromUSHORTHex v = ''0x'' @ hex_digits 4 v"

definition ObjFromULONGHex :: "32 word \<Rightarrow> string" where
  "ObjFromULONGHex v = ''0x'' @ hex_digits 8 v"

definition ObjFromULONGLONGHex :: "64 word \<Rightarrow> string" where
  "ObjFromULONGLONGHex v = ''0x'' @ hex_digits 16 v"

definition ObjFromByteArrayHex :: "8 word list \<Rightarrow> string" where
  "ObjFromByteArrayHex bs = concat (map (\<lambda>b. [hex_digit b 1, hex_digit b 0]) bs)"

text \<open>
  \<open>strtoul\<close> of the C library for base 16: white space, a sign, the prefix and the digits. The result is the value
  and the number of characters used, none when there is no digit.
\<close>

definition hex_value :: "char \<Rightarrow> nat option" where
  "hex_value c =
     (if CHR ''0'' \<le> c \<and> c \<le> CHR ''9'' then Some (of_char c - 48)
      else if CHR ''a'' \<le> c \<and> c \<le> CHR ''f'' then Some (of_char c - 87)
      else if CHR ''A'' \<le> c \<and> c \<le> CHR ''F'' then Some (of_char c - 55)
      else None)"

definition is_space :: "char \<Rightarrow> bool" where
  "is_space c \<longleftrightarrow> c \<in> {CHR '' '', CHR 0x09, CHR 0x0A, CHR 0x0B, CHR 0x0C, CHR 0x0D}"

fun hex_run :: "string \<Rightarrow> nat \<Rightarrow> nat \<Rightarrow> nat \<times> nat" where
  "hex_run [] v n = (v, n)"
| "hex_run (c # s) v n = (case hex_value c of None \<Rightarrow> (v, n) | Some d \<Rightarrow> hex_run s (16 * v + d) (Suc n))"

definition strtoul16 :: "string \<Rightarrow> 32 word \<times> nat" where
  "strtoul16 s =
     (let sp = length (takeWhile is_space s);
          s1 = drop sp s;
          sg = (if s1 \<noteq> [] \<and> hd s1 \<in> {CHR ''+'', CHR ''-''} then 1 else 0);
          neg = (s1 \<noteq> [] \<and> hd s1 = CHR ''-'');
          s2 = drop sg s1;
          pre = (if 2 < length s2 \<and> s2 ! 0 = CHR ''0'' \<and> s2 ! 1 \<in> {CHR ''x'', CHR ''X''} \<and> hex_value (s2 ! 2) \<noteq> None
                 then 2 else 0);
          (v, n) = hex_run (drop pre s2) 0 0
      in if n = 0 then (0, 0)
         else (if 2 ^ 32 \<le> v then - 1 else if neg then - of_nat v else of_nat v, sp + sg + pre + n))"

section \<open>LUIDs\<close>

type_synonym LUID = "32 word \<times> 32 word"

definition ObjFromLUID :: "LUID \<Rightarrow> string" where
  "ObjFromLUID l = hex_digits 8 (fst l) @ ''-'' @ hex_digits 8 (snd l)"

definition ObjToLUID :: "string \<Rightarrow> LUID option" where
  "ObjToLUID s =
     (if length s = 17 \<and> s ! 8 = CHR ''-''
      then (case strtoul16 s of
              (high, m) \<Rightarrow>
                if m = 8
                then (case strtoul16 (drop 9 s) of (low, m') \<Rightarrow> if 9 + m' = 17 then Some (high, low) else None)
                else None)
      else None)"

definition ObjToLUID_NULL :: "wtcl \<Rightarrow> string \<Rightarrow> LUID option option" where
  "ObjToLUID_NULL T s = (if w_len T s = 0 then Some None else map_option Some (ObjToLUID s))"

section \<open>Byte order\<close>

definition swap2 :: "16 word \<Rightarrow> 16 word" where
  "swap2 us = or (push_bit 8 us) (drop_bit 8 us)"

definition swap4 :: "32 word \<Rightarrow> 32 word" where
  "swap4 ul0 =
     (let ul = or (and (push_bit 8 ul0) 0xFF00FF00) (and (drop_bit 8 ul0) 0x00FF00FF)
      in or (push_bit 16 ul) (drop_bit 16 ul))"

definition swap8 :: "64 word \<Rightarrow> 64 word" where
  "swap8 u0 =
     (let u1 = or (and (push_bit 8 u0) 0xFF00FF00FF00FF00) (and (drop_bit 8 u0) 0x00FF00FF00FF00FF);
          u2 = or (and (push_bit 16 u1) 0xFFFF0000FFFF0000) (and (drop_bit 16 u1) 0x0000FFFF0000FFFF)
      in or (push_bit 32 u2) (drop_bit 32 u2))"

section \<open>Item identifier lists\<close>

text \<open>The length of the item at the start, little endian.\<close>

definition item_len :: "8 word list \<Rightarrow> nat option" where
  "item_len p = (case p of a # b # _ \<Rightarrow> Some (256 * unat b + unat a) | _ \<Rightarrow> None)"

text \<open>The walk to the terminator: the number of bytes before it. A walk may leave the memory.\<close>

function pidl_walk :: "8 word list \<Rightarrow> nat option" where
  "pidl_walk p =
     (case item_len p of
        None \<Rightarrow> None
      | Some n \<Rightarrow> if n = 0 then Some 0 else map_option (\<lambda>k. n + k) (pidl_walk (drop n p)))"
  by pat_completeness auto
termination
  by (relation "measure length") (auto simp: item_len_def split: list.splits)

declare pidl_walk.simps [simp del]

definition ObjFromPIDL :: "8 word list \<Rightarrow> 8 word list option" where
  "ObjFromPIDL mem = map_option (\<lambda>n. take (n + 2) mem) (pidl_walk mem)"

text \<open>The check: \<open>numbytes\<close> is what is left of the buffer, \<open>p\<close> the buffer from the item on.\<close>

function pidl_check :: "8 word list \<Rightarrow> nat \<Rightarrow> bool option" where
  "pidl_check p numbytes =
     (case item_len p of
        None \<Rightarrow> None
      | Some n \<Rightarrow>
          if n = 0 then Some True
          else if int n > int numbytes - 2 then Some False
          else pidl_check (drop n p) (numbytes - n))"
  by pat_completeness auto
termination
  by (relation "measure (\<lambda>(p, n). length p)") (auto simp: item_len_def split: list.splits)

declare pidl_check.simps [simp del]

text \<open>The result: the null pointer for less than two bytes, or a copy; \<open>alloc_ok\<close>: the allocation succeeds.\<close>

definition ObjToPIDL :: "bool \<Rightarrow> 8 word list \<Rightarrow> (val_error + 8 word list option) option" where
  "ObjToPIDL alloc_ok bytes =
     (if length bytes < 2 then Some (Inr None)
      else do {
        ok \<leftarrow> pidl_check bytes (length bytes);
        Some (if \<not> ok then Inl BadFormat else if \<not> alloc_ok then Inl InternalLimit else Inr (Some bytes)) })"

section \<open>String lists\<close>

text \<open>
  \<open>ObjToMultiSzEx\<close> with what the new buffer held before (\<open>junk\<close>). The buffer has the size that the
  character counts of the elements give; what is copied are the elements in UTF-16 with their terminators. A copy
  beyond the end of the buffer has no result.
\<close>

definition multisz_size :: "wtcl \<Rightarrow> string list \<Rightarrow> nat" where
  "multisz_size T elems = sum_list (map (\<lambda>s. w_len T s + 1) elems) + 1"

fun multisz_copy :: "wtcl \<Rightarrow> string list \<Rightarrow> nat \<Rightarrow> 16 word list \<Rightarrow> (16 word list \<times> nat) option" where
  "multisz_copy T [] dst buf = Some (buf, dst)"
| "multisz_copy T (s # ss) dst buf =
     (let src = w_chars T s @ [0]
      in if dst + length src \<le> length buf
         then multisz_copy T ss (dst + length src) (take dst buf @ src @ drop (dst + length src) buf)
         else None)"

definition ObjToMultiSzEx :: "wtcl \<Rightarrow> (nat \<Rightarrow> 16 word) \<Rightarrow> string \<Rightarrow> (val_error + 16 word list) option" where
  "ObjToMultiSzEx T junk s =
     (case t_list T s of
        None \<Rightarrow> Some (Inl ConversionError)
      | Some elems \<Rightarrow> do {
          (buf, dst) \<leftarrow> multisz_copy T elems 0 (map junk [0..<multisz_size T elems]);
          if dst < length buf then Some (Inr (buf[dst := 0])) else None })"

text \<open>
  Reading a list, at most \<open>maxlen\<close> units, or up to the end when it is \<open>-1\<close>. \<open>pos\<close> is the offset from the start.
\<close>

definition INT_MAXLEN :: int where "INT_MAXLEN = 2 ^ 31 - 1"

function multisz_read :: "16 word list \<Rightarrow> int \<Rightarrow> int \<Rightarrow> 16 word list list option" where
  "multisz_read mem pos maxlen =
     (if \<not> pos < maxlen then Some []
      else case mem of
        [] \<Rightarrow> None
      | c # _ \<Rightarrow>
          if c = 0 then Some []
          else let p = takeWhile (\<lambda>c. c \<noteq> 0) (take (nat (maxlen - pos)) mem); n = length p
               in if n = length mem \<and> pos + int n < maxlen then None
                  else map_option (\<lambda>ss. p # ss) (multisz_read (drop (Suc n) mem) (pos + int n + 1) maxlen))"
  by pat_completeness auto
termination
  by (relation "measure (\<lambda>(mem, pos, maxlen). length mem)") auto

declare multisz_read.simps [simp del]

definition ObjFromMultiSz :: "16 word list option \<Rightarrow> int \<Rightarrow> 16 word list list option" where
  "ObjFromMultiSz lpcw maxlen =
     (case lpcw of
        None \<Rightarrow> Some []
      | Some mem \<Rightarrow> if maxlen = 0 then Some []
                    else multisz_read mem 0 (if maxlen = - 1 then INT_MAXLEN else maxlen))"

section \<open>Argument vectors\<close>

text \<open>
  The strings are stored in an array of \<open>argc\<close> pointers, of which the last one used is null; \<open>old\<close>: the array before.
\<close>

definition ObjToArgv :: "wtcl \<Rightarrow> (string \<Rightarrow> 'a) \<Rightarrow> 'a option list \<Rightarrow> string \<Rightarrow> val_error + 'a option list \<times> nat" where
  "ObjToArgv T conv old s =
     (case t_list T s of
        None \<Rightarrow> Inl ConversionError
      | Some objv \<Rightarrow>
          if length objv + 1 > length old then Inl InternalLimit
          else Inr (map (\<lambda>x. Some (conv x)) objv @ [None] @ drop (Suc (length objv)) old, length objv))"

definition ObjToArgvA :: "wtcl \<Rightarrow> string option list \<Rightarrow> string \<Rightarrow> val_error + string option list \<times> nat" where
  "ObjToArgvA T old s = ObjToArgv T (\<lambda>x. x) old s"

definition ObjToArgvW :: "wtcl \<Rightarrow> 16 word list option list \<Rightarrow> string \<Rightarrow> val_error + 16 word list option list \<times> nat" where
  "ObjToArgvW T old s = ObjToArgv T (w_chars T) old s"

text \<open>A vector in the memory pool has exactly the size that it needs.\<close>

definition ObjToMemLifoArgvW :: "wtcl \<Rightarrow> string \<Rightarrow> (16 word list option list \<times> nat) option" where
  "ObjToMemLifoArgvW T s =
     map_option (\<lambda>objv. (map (\<lambda>x. Some (w_chars T x)) objv @ [None], length objv)) (t_list T s)"

text \<open>Reading a vector: up to \<open>argc\<close> entries or the first null one.\<close>

fun argv_read :: "nat \<Rightarrow> string option list \<Rightarrow> string list option" where
  "argv_read 0 argv = Some []"
| "argv_read (Suc n) [] = None"
| "argv_read (Suc n) (None # argv) = Some []"
| "argv_read (Suc n) (Some s # argv) = map_option (\<lambda>ss. s # ss) (argv_read n argv)"

definition ObjFromArgvA :: "wtcl \<Rightarrow> int \<Rightarrow> string option list option \<Rightarrow> string option" where
  "ObjFromArgvA T argc argv =
     map_option (t_mklist T) (case argv of None \<Rightarrow> Some [] | Some a \<Rightarrow> argv_read (nat argc) a)"

section \<open>Registry values\<close>

definition REG_SZ :: nat where "REG_SZ = 1"
definition REG_EXPAND_SZ :: nat where "REG_EXPAND_SZ = 2"
definition REG_BINARY :: nat where "REG_BINARY = 3"
definition REG_DWORD :: nat where "REG_DWORD = 4"
definition REG_DWORD_BIG_ENDIAN :: nat where "REG_DWORD_BIG_ENDIAN = 5"
definition REG_LINK :: nat where "REG_LINK = 6"
definition REG_MULTI_SZ :: nat where "REG_MULTI_SZ = 7"
definition REG_QWORD :: nat where "REG_QWORD = 11"

text \<open>Little-endian reads from a buffer.\<close>

fun units :: "8 word list \<Rightarrow> 16 word list" where
  "units (a # b # bs) = or (ucast a) (push_bit 8 (ucast b)) # units bs"
| "units _ = []"

definition read_le :: "8 word list \<Rightarrow> nat \<Rightarrow> int option" where
  "read_le buf n =
     (if length buf < n then None
      else Some (\<Sum>i<n. uint (buf ! i) * 256 ^ i))"

datatype regval = RegChars "16 word list" | RegInt int | RegList "16 word list list" | RegBytes "8 word list"

text \<open>The characters of a string value, without a terminator at the end.\<close>

definition reg_chars :: "8 word list \<Rightarrow> int \<Rightarrow> (16 word list \<times> bool) option" where
  "reg_chars buf count =
     (let n = nat (count div 2); ws = units buf
      in if length ws < n then None
         else if n \<noteq> 0 \<and> ws ! (n - 1) = 0 then Some (take (n - 1) ws, True)
         else Some (take n ws, False))"

definition reg_bytes :: "8 word list \<Rightarrow> int \<Rightarrow> 8 word list option" where
  "reg_bytes buf count = (if int (length buf) < count then None else Some (take (nat count) buf))"

definition signed32 :: "int \<Rightarrow> int" where "signed32 n = sint (word_of_int n :: 32 word)"
definition signed64 :: "int \<Rightarrow> int" where "signed64 n = sint (word_of_int n :: 64 word)"

text \<open>
  The typed value: the name of the type, or \<open>Inr\<close> its number, and the value. The inner \<open>None\<close> is a badly
  formatted value.
\<close>

definition ObjFromRegValue :: "nat \<Rightarrow> 8 word list \<Rightarrow> int \<Rightarrow> ((string + nat) \<times> regval) option option" where
  "ObjFromRegValue regtype buf count =
     (if regtype \<in> {REG_LINK, REG_SZ, REG_EXPAND_SZ}
      then map_option (\<lambda>(ws, _). Some (Inl (if regtype = REG_LINK then ''link'' else if regtype = REG_SZ then ''sz'' else ''expand_sz''),
             RegChars ws)) (reg_chars buf count)
      else if regtype \<in> {REG_DWORD_BIG_ENDIAN, REG_DWORD}
      then (if count \<noteq> 4 then Some None
            else map_option (\<lambda>n. Some (Inl (if regtype = REG_DWORD then ''dword'' else ''dword_be''), RegInt (signed32 n))) (read_le buf 4))
      else if regtype = REG_QWORD
      then (if count \<noteq> 8 then Some None
            else map_option (\<lambda>n. Some (Inl ''qword'', RegInt (signed64 n))) (read_le buf 8))
      else if regtype = REG_MULTI_SZ
      then map_option (\<lambda>ss. Some (Inl ''multi_sz'', RegList ss)) (ObjFromMultiSz (Some (units buf)) (count div 2))
      else map_option (\<lambda>bs. Some (if regtype = REG_BINARY then Inl ''binary'' else Inr regtype, RegBytes bs)) (reg_bytes buf count))"

text \<open>
  \<open>ObjFromEXPAND_SZW\<close>: \<open>expand\<close> is \<open>ExpandEnvironmentStringsW\<close> at its first and second call, \<open>None\<close> when it fails. The
  environment may grow between the calls. The string is read up to its terminator.
\<close>

definition required_size :: "16 word list option \<Rightarrow> nat" where
  "required_size r = (case r of None \<Rightarrow> 0 | Some s \<Rightarrow> length s + 1)"

definition ObjFromEXPAND_SZW :: "(nat \<Rightarrow> 16 word list \<Rightarrow> 16 word list option) \<Rightarrow> 16 word list \<Rightarrow> 16 word list option" where
  "ObjFromEXPAND_SZW expand mem = do {
     (ws, _) \<leftarrow> limited mem (- 1);
     let r1 = expand 1 ws;
     let (sz, r) = (if required_size r1 > 261 then (required_size r1, expand 2 ws) else (261, r1));
     Some (if required_size r = 0 \<or> required_size r > sz then ws else the r) }"

definition ObjFromRegValueCooked ::
    "(nat \<Rightarrow> 16 word list \<Rightarrow> 16 word list option) \<Rightarrow> nat \<Rightarrow> 8 word list \<Rightarrow> int \<Rightarrow> regval option option" where
  "ObjFromRegValueCooked expand regtype buf count =
     (if regtype \<in> {REG_LINK, REG_SZ, REG_EXPAND_SZ}
      then do {
        (ws, terminated) \<leftarrow> reg_chars buf count;
        if regtype \<noteq> REG_EXPAND_SZ \<or> ws = [] then Some (Some (RegChars ws))
        else if terminated then map_option (\<lambda>r. Some (RegChars r)) (ObjFromEXPAND_SZW expand (units buf))
        else map_option (\<lambda>r. Some (RegChars r)) (ObjFromEXPAND_SZW expand (ws @ [0])) }
      else if regtype = REG_DWORD_BIG_ENDIAN
      then (if count \<noteq> 4 then Some None
            else map_option (\<lambda>n. Some (RegInt (sint (swap4 (word_of_int n))))) (read_le buf 4))
      else if regtype = REG_DWORD
      then (if count \<noteq> 4 then Some None else map_option (\<lambda>n. Some (RegInt (signed32 n))) (read_le buf 4))
      else if regtype = REG_QWORD
      then (if count \<noteq> 8 then Some None else map_option (\<lambda>n. Some (RegInt (signed64 n))) (read_le buf 8))
      else if regtype = REG_MULTI_SZ
      then map_option (\<lambda>ss. Some (RegList ss)) (ObjFromMultiSz (Some (units buf)) (count div 2))
      else map_option (\<lambda>bs. Some (RegBytes bs)) (reg_bytes buf count))"

end
