(* ===== verification/Secdesc.thy ===== *)
theory Secdesc
  imports Winval
begin

text \<open>
  Security identifiers, access control entries (ACEs) and lists (ACLs), security descriptors and LSA strings as Tcl values and back
  (\<open>base/tclobjs.c\<close>).

  An ACE is what it is in memory, a list of bytes: type, flags, its size in two bytes, and what depends on the type.
  The identifiers and lists of the system are opaque; \<open>'a\<close> is the type of an ACL. A read beyond the memory of an ACE has no
  result (the outer \<open>option\<close>).
\<close>

type_synonym bytes = "8 word list"

record 'a stcl = wtcl +
  s_long :: "string \<Rightarrow> int option"
  s_bytes :: "bytes \<Rightarrow> string"
  s_getbytes :: "string \<Rightarrow> bytes"
  s_guid :: "bytes \<Rightarrow> string"
  s_parse :: "string \<Rightarrow> bytes option"
  s_print :: "bytes \<Rightarrow> string option"
  s_valid :: "bytes \<Rightarrow> bool"
  s_len :: "bytes \<Rightarrow> nat"
  s_required :: nat
  s_copy :: "nat \<Rightarrow> bytes \<Rightarrow> bool"
  s_acl_init :: "nat \<Rightarrow> nat \<Rightarrow> 'a"
  s_acl_refuses :: "'a \<Rightarrow> nat \<Rightarrow> nat \<Rightarrow> bytes \<Rightarrow> bool"
  s_acl_add :: "'a \<Rightarrow> nat \<Rightarrow> bytes \<Rightarrow> 'a option"
  s_acl_valid :: "'a \<Rightarrow> bool"
  s_acl_info :: "'a \<Rightarrow> (nat \<times> nat) option"
  s_acl_get :: "'a \<Rightarrow> nat \<Rightarrow> bytes option"

text \<open>
  \<open>s_long\<close>: \<open>Tcl_GetLongFromObj\<close>; \<open>s_parse\<close>, \<open>s_print\<close>: \<open>ConvertStringSidToSid\<close> and back; \<open>s_valid\<close>, \<open>s_len\<close>,
  \<open>s_required\<close>, \<open>s_copy\<close>: \<open>IsValidSid\<close>, \<open>GetLengthSid\<close>, \<open>GetSidLengthRequired\<close> for the longest identifier, \<open>CopySid\<close> (whether it
  succeeds with that many bytes); \<open>s_acl_init\<close>: the list after \<open>InitializeAcl\<close>, whether or not it succeeds (the code does not look);
  \<open>s_acl_refuses\<close>: whether \<open>AddAce\<close> fails on the list, the revision, the length that it is given and the header of the entry
  (its first four bytes), before it reads the rest of the entry; \<open>s_acl_add\<close>: what it does with all the bytes of that length if it
  does not; \<open>s_acl_valid\<close>, \<open>s_acl_info\<close> (revision and count), \<open>s_acl_get\<close>: \<open>IsValidAcl\<close>, \<open>GetAclInformation\<close>, \<open>GetAce\<close> (the
  memory from the ACE on).
\<close>

datatype sec_error = ConvError | Format string | System

section \<open>LSA strings\<close>

text \<open>The units in the buffer and the length in bytes.\<close>

type_synonym lsa_string = "16 word list \<times> 16 word"

definition ObjFromLSA_UNICODE_STRING :: "'a stcl \<Rightarrow> lsa_string \<Rightarrow> string option" where
  "ObjFromLSA_UNICODE_STRING T u =
     (let n = unat (snd u) div 2 in if length (fst u) < n then None else Some (w_string T (take n (fst u))))"

definition ObjToLSA_UNICODE_STRING :: "'a stcl \<Rightarrow> string \<Rightarrow> lsa_string" where
  "ObjToLSA_UNICODE_STRING T s = (w_chars T s @ [0], of_nat (2 * length (w_chars T s)))"

fun lsa_strings :: "'a stcl \<Rightarrow> string list \<Rightarrow> sec_error + lsa_string list" where
  "lsa_strings T [] = Inr []"
| "lsa_strings T (x # xs) =
     (let w = w_chars T x
      in if 32767 \<le> length w then Inl (Format ''LSA_UNICODE_STRING length must be less than 32767.'')
         else map_sum id (\<lambda>us. (w @ [0], of_nat (2 * length w)) # us) (lsa_strings T xs))"

definition ObjToLSASTRINGARRAYSWS :: "'a stcl \<Rightarrow> string \<Rightarrow> sec_error + lsa_string list" where
  "ObjToLSASTRINGARRAYSWS T s = (case t_list T s of None \<Rightarrow> Inl ConvError | Some xs \<Rightarrow> lsa_strings T xs)"

section \<open>Security identifiers\<close>

definition ObjFromSID :: "'a stcl \<Rightarrow> bytes \<Rightarrow> sec_error + string" where
  "ObjFromSID T sidP = (case s_print T sidP of None \<Rightarrow> Inl System | Some s \<Rightarrow> Inr s)"

definition ObjFromSIDNoFail :: "'a stcl \<Rightarrow> bytes option \<Rightarrow> string" where
  "ObjFromSIDNoFail T sidP =
     (case sidP of None \<Rightarrow> [] | Some m \<Rightarrow> (case ObjFromSID T m of Inl _ \<Rightarrow> [] | Inr s \<Rightarrow> s))"

definition TwapiSidFromStringSWS :: "'a stcl \<Rightarrow> string \<Rightarrow> bytes option" where
  "TwapiSidFromStringSWS T s =
     (case s_parse T s of
        None \<Rightarrow> None
      | Some sid \<Rightarrow> let len = s_len T sid in if s_copy T len sid then Some (take len sid) else None)"

definition SIZEOF_SID :: nat where "SIZEOF_SID = 12"

definition ObjToPSIDNonNullSWS :: "'a stcl \<Rightarrow> string \<Rightarrow> sec_error + bytes" where
  "ObjToPSIDNonNullSWS T s =
     (case TwapiSidFromStringSWS T s of
        Some sid \<Rightarrow> Inr sid
      | None \<Rightarrow>
          let sid = s_getbytes T s; len = length sid
          in if SIZEOF_SID \<le> len \<and> s_valid T sid \<and> s_len T sid = len \<and> s_copy T len sid then Inr sid else Inl System)"

definition ObjToPSIDSWS :: "'a stcl \<Rightarrow> string \<Rightarrow> sec_error + bytes option" where
  "ObjToPSIDSWS T s = (if s = [] then Inr None else map_sum id Some (ObjToPSIDNonNullSWS T s))"

section \<open>Access control entries\<close>

definition ACCESS_ALLOWED_ACE_TYPE :: int where "ACCESS_ALLOWED_ACE_TYPE = 0"
definition ACCESS_DENIED_ACE_TYPE :: int where "ACCESS_DENIED_ACE_TYPE = 1"
definition SYSTEM_AUDIT_ACE_TYPE :: int where "SYSTEM_AUDIT_ACE_TYPE = 2"
definition SYSTEM_MANDATORY_LABEL_ACE_TYPE :: int where "SYSTEM_MANDATORY_LABEL_ACE_TYPE = 17"
definition ACCESS_ALLOWED_OBJECT_ACE_TYPE :: int where "ACCESS_ALLOWED_OBJECT_ACE_TYPE = 5"
definition ACCESS_DENIED_OBJECT_ACE_TYPE :: int where "ACCESS_DENIED_OBJECT_ACE_TYPE = 6"
definition SYSTEM_AUDIT_OBJECT_ACE_TYPE :: int where "SYSTEM_AUDIT_OBJECT_ACE_TYPE = 7"

lemmas ace_types = ACCESS_ALLOWED_ACE_TYPE_def ACCESS_DENIED_ACE_TYPE_def SYSTEM_AUDIT_ACE_TYPE_def
  SYSTEM_MANDATORY_LABEL_ACE_TYPE_def ACCESS_ALLOWED_OBJECT_ACE_TYPE_def ACCESS_DENIED_OBJECT_ACE_TYPE_def
  SYSTEM_AUDIT_OBJECT_ACE_TYPE_def

definition mask_ace :: "int \<Rightarrow> bool" where
  "mask_ace ty \<longleftrightarrow> ty \<in> {ACCESS_ALLOWED_ACE_TYPE, ACCESS_DENIED_ACE_TYPE, SYSTEM_AUDIT_ACE_TYPE, SYSTEM_MANDATORY_LABEL_ACE_TYPE}"

definition object_ace :: "int \<Rightarrow> bool" where
  "object_ace ty \<longleftrightarrow> ty \<in> {ACCESS_ALLOWED_OBJECT_ACE_TYPE, ACCESS_DENIED_OBJECT_ACE_TYPE, SYSTEM_AUDIT_OBJECT_ACE_TYPE}"

text \<open>The types for which the revision of the list changes: the object types 5 to 8, with callbacks 11, 12, 15 and 16.\<close>

definition ds_ace :: "int \<Rightarrow> bool" where
  "ds_ace ty \<longleftrightarrow> ty \<in> {5, 6, 7, 8, 11, 12, 15, 16}"

definition SIZEOF_ACCESS_ALLOWED_ACE :: nat where "SIZEOF_ACCESS_ALLOWED_ACE = 12"

text \<open>The fields, little endian, and what follows them.\<close>

definition byte_at :: "bytes \<Rightarrow> nat \<Rightarrow> int option" where
  "byte_at m i = (if i < length m then Some (uint (m ! i)) else None)"

definition ace_size :: "bytes \<Rightarrow> nat option" where
  "ace_size m = map_option nat (read_le (drop 2 m) 2)"

definition mem_from :: "bytes \<Rightarrow> nat \<Rightarrow> nat \<Rightarrow> bytes option" where
  "mem_from m i n = (if length m < i + n then None else Some (drop i m))"

definition with_sid :: "'a stcl \<Rightarrow> string list \<Rightarrow> bytes \<Rightarrow> sec_error + string list" where
  "with_sid T xs m = map_sum id (\<lambda>s. xs @ [s]) (ObjFromSID T m)"

definition ACE_OBJECT_TYPE_PRESENT :: "32 word" where "ACE_OBJECT_TYPE_PRESENT = 1"
definition ACE_INHERITED_OBJECT_TYPE_PRESENT :: "32 word" where "ACE_INHERITED_OBJECT_TYPE_PRESENT = 2"

text \<open>The identifiers of an object ACE, and the offset at which its SID starts.\<close>

definition object_types :: "'a stcl \<Rightarrow> bytes \<Rightarrow> 32 word \<Rightarrow> (string list \<times> nat) option" where
  "object_types T m flags =
     (if and flags ACE_OBJECT_TYPE_PRESENT \<noteq> 0
      then do {
        g \<leftarrow> mem_from m 12 16;
        if and flags ACE_INHERITED_OBJECT_TYPE_PRESENT \<noteq> 0
        then do { i \<leftarrow> mem_from m 28 16; Some ([s_guid T (take 16 g), s_guid T (take 16 i)], 44) }
        else Some ([s_guid T (take 16 g), []], 28) }
      else if and flags ACE_INHERITED_OBJECT_TYPE_PRESENT \<noteq> 0
      then do { i \<leftarrow> mem_from m 12 16; Some ([[], s_guid T (take 16 i)], 28) }
      else Some ([[], []], 12))"

definition ObjFromACE :: "'a stcl \<Rightarrow> bytes option \<Rightarrow> (sec_error + string) option" where
  "ObjFromACE T aceP =
     (case aceP of
        None \<Rightarrow> Some (Inl (Format ''NULL ACE pointer''))
      | Some m \<Rightarrow> do {
          ty \<leftarrow> byte_at m 0;
          fl \<leftarrow> byte_at m 1;
          let hd = [w_print T ty, w_print T fl];
          r \<leftarrow> (if mask_ace ty
                then do {
                  mask \<leftarrow> read_le (drop 4 m) 4;
                  Some (with_sid T (hd @ [w_print T mask]) (drop 8 m)) }
                else if object_ace ty
                then do {
                  mask \<leftarrow> read_le (drop 4 m) 4;
                  flags \<leftarrow> read_le (drop 8 m) 4;
                  (guids, off) \<leftarrow> object_types T m (word_of_int flags);
                  Some (with_sid T (hd @ w_print T mask # guids) (drop off m)) }
                else do {
                  sz \<leftarrow> ace_size m;
                  bin \<leftarrow> mem_from m 0 sz;
                  Some (Inr (hd @ [s_bytes T (take sz bin)])) });
          Some (map_sum id (t_mklist T) r) })"

text \<open>
  The reader allocates \<open>acesz\<close> bytes, which hold \<open>junk\<close> where nothing is written. An ACE with a mask gets the size of the
  allocation; of any other one the bytes are copied as they are.
\<close>

definition le :: "nat \<Rightarrow> int \<Rightarrow> bytes" where
  "le n v = map (\<lambda>i. word_of_int (v div 256 ^ i)) [0..<n]"

definition over :: "bytes \<Rightarrow> nat \<Rightarrow> bytes \<Rightarrow> bytes" where
  "over m i bs = take i m @ bs @ drop (i + length bs) m"

definition ObjToACESWS :: "'a stcl \<Rightarrow> (nat \<Rightarrow> 8 word) \<Rightarrow> string \<Rightarrow> sec_error + bytes" where
  "ObjToACESWS T junk aceobj =
     (case t_list T aceobj of
        None \<Rightarrow> Inl ConvError
      | Some objv \<Rightarrow>
          if length objv < 2 then Inl (Format ''Invalid ACE format.'')
          else (case (t_int T (objv ! 0), t_int T (objv ! 1)) of
             (Some acetype, Some aceflags) \<Rightarrow>
               if mask_ace acetype
               then if length objv \<noteq> 4 then Inl (Format ''Invalid ACE format.'')
                    else let acesz = s_required T + SIZEOF_ACCESS_ALLOWED_ACE;
                             m0 = map junk [0..<acesz];
                             m1 = over m0 0 (le 1 acetype @ le 1 aceflags @ le 2 (int acesz))
                         in (case s_long T (objv ! 2) of
                               None \<Rightarrow> Inl (Format ''Invalid ACE format.'')
                             | Some access \<Rightarrow>
                                 (case TwapiSidFromStringSWS T (objv ! 3) of
                                    None \<Rightarrow> Inl System
                                  | Some sid \<Rightarrow>
                                      if s_copy T (nat (int acesz mod 2 ^ 16) - SIZEOF_ACCESS_ALLOWED_ACE + 4) sid
                                      then Inr (over (over m1 4 (le 4 access)) 8 sid)
                                      else Inl System))
               else if length objv \<noteq> 3 then Inl (Format ''Invalid ACE format.'')
               else let bin = s_getbytes T (objv ! 2)
                    in Inr (over (map junk [0..<s_required T + length bin]) 0 bin)
           | _ \<Rightarrow> Inl ConvError))"

section \<open>Access control lists\<close>

definition ACL_REVISION :: nat where "ACL_REVISION = 2"
definition ACL_REVISION_DS :: nat where "ACL_REVISION_DS = 4"
definition SIZEOF_ACL :: nat where "SIZEOF_ACL = 8"

text \<open>The first error of a list of conversions that may crash, or all values.\<close>

fun conv_all :: "('x \<Rightarrow> ('e + 'y) option) \<Rightarrow> 'x list \<Rightarrow> ('e + 'y list) option" where
  "conv_all f [] = Some (Inr [])"
| "conv_all f (x # xs) = do {
     r \<leftarrow> f x;
     (case r of
        Inl e \<Rightarrow> Some (Inl e)
      | Inr y \<Rightarrow> map_option (map_sum id (\<lambda>ys. y # ys)) (conv_all f xs)) }"

definition ObjFromACL :: "'a stcl \<Rightarrow> 'a option \<Rightarrow> (sec_error + string) option" where
  "ObjFromACL T aclP =
     (case aclP of
        None \<Rightarrow> Some (Inr ''null'')
      | Some acl \<Rightarrow>
          (case s_acl_info T acl of
             None \<Rightarrow> Some (Inl System)
           | Some (revision, count) \<Rightarrow>
               map_option (map_sum id (\<lambda>aces. t_mklist T [w_print T (int revision), t_mklist T aces]))
                 (conv_all (\<lambda>i. case s_acl_get T acl i of None \<Rightarrow> Some (Inl System) | Some m \<Rightarrow> ObjFromACE T (Some m)) [0..<count])))"

text \<open>One entry of the list that is read: the memory, the size and the type that it states of itself.\<close>

definition read_ace :: "'a stcl \<Rightarrow> (nat \<Rightarrow> 8 word) \<Rightarrow> string \<Rightarrow> (sec_error + bytes \<times> nat \<times> int) option" where
  "read_ace T junk s =
     (case ObjToACESWS T junk s of
        Inl e \<Rightarrow> Some (Inl e)
      | Inr m \<Rightarrow> do { sz \<leftarrow> ace_size m; ty \<leftarrow> byte_at m 0; Some (Inr (m, sz, ty)) })"

fun add_aces :: "'a stcl \<Rightarrow> nat \<Rightarrow> (bytes \<times> nat \<times> int) list \<Rightarrow> 'a \<Rightarrow> (sec_error + 'a) option" where
  "add_aces T revision [] acl = Some (Inr acl)"
| "add_aces T revision ((m, sz, ty) # aces) acl =
     (if s_acl_refuses T acl revision sz (take 4 m) then Some (Inl System)
      else do {
        bin \<leftarrow> mem_from m 0 sz;
        (case s_acl_add T acl revision (take sz bin) of
           None \<Rightarrow> Some (Inl System)
         | Some acl' \<Rightarrow> add_aces T revision aces acl') })"

definition ObjToPACLSWS :: "'a stcl \<Rightarrow> (nat \<Rightarrow> 8 word) \<Rightarrow> string \<Rightarrow> (sec_error + 'a option) option" where
  "ObjToPACLSWS T junk s =
     (if s = ''null'' then Some (Inr None)
      else case t_list T s of
        None \<Rightarrow> Some (Inl ConvError)
      | Some objv \<Rightarrow>
          if length objv \<noteq> 2 then Some (Inl (Format ''Invalid ACL format.''))
          else (case t_list T (objv ! 1) of
             None \<Rightarrow> Some (Inl ConvError)
           | Some aceobjv \<Rightarrow> do {
               r \<leftarrow> conv_all (read_ace T junk) aceobjv;
               (case r of
                  Inl e \<Rightarrow> Some (Inl e)
                | Inr aces \<Rightarrow> do {
                    let aclsz = SIZEOF_ACL + sum_list (map (\<lambda>(_, sz, _). sz) aces);
                    let aclrev = (if \<exists>(_, _, ty) \<in> set aces. ds_ace ty then ACL_REVISION_DS else ACL_REVISION);
                    a \<leftarrow> add_aces T aclrev aces (s_acl_init T aclsz aclrev);
                    (case a of
                       Inl e \<Rightarrow> Some (Inl e)
                     | Inr acl \<Rightarrow>
                         if s_acl_valid T acl then Some (Inr (Some acl))
                         else Some (Inl (Format ''Internal error constructing ACL''))) }) }))"

section \<open>Security descriptors\<close>

text \<open>What the system returns for a descriptor: a failed call is \<open>None\<close>.\<close>

record 'a secd_view =
  v_control :: "(nat \<times> nat) option"
  v_owner :: "bytes option option"
  v_group :: "bytes option option"
  v_dacl :: "(bool \<times> 'a option) option"
  v_sacl :: "(bool \<times> 'a option) option"

definition SECURITY_DESCRIPTOR_REVISION :: nat where "SECURITY_DESCRIPTOR_REVISION = 1"

definition sid_field :: "'a stcl \<Rightarrow> bytes option \<Rightarrow> sec_error + string" where
  "sid_field T sidP = (case sidP of None \<Rightarrow> Inr [] | Some m \<Rightarrow> ObjFromSID T m)"

text \<open>Steps that may fail, one after the other.\<close>

definition stepwise :: "('e + 'x) option \<Rightarrow> ('x \<Rightarrow> ('e + 'y) option) \<Rightarrow> ('e + 'y) option" where
  "stepwise r f = (case r of None \<Rightarrow> None | Some (Inl e) \<Rightarrow> Some (Inl e) | Some (Inr x) \<Rightarrow> f x)"

definition need :: "'e \<Rightarrow> 'x option \<Rightarrow> ('e + 'x) option" where
  "need e x = Some (case x of None \<Rightarrow> Inl e | Some v \<Rightarrow> Inr v)"

definition check :: "'e \<Rightarrow> bool \<Rightarrow> ('e + unit) option" where
  "check e b = Some (if b then Inr () else Inl e)"

lemma stepwise_simps [simp]:
  "stepwise None f = None" "stepwise (Some (Inl e)) f = Some (Inl e)" "stepwise (Some (Inr x)) f = f x"
  "need e None = Some (Inl e)" "need e (Some x) = Some (Inr x)" "check e True = Some (Inr ())" "check e False = Some (Inl e)"
  by (simp_all add: stepwise_def need_def check_def)

text \<open>A list element that is the null pointer crashes the creation of the list.\<close>

definition ObjFromSECURITY_DESCRIPTOR :: "'a stcl \<Rightarrow> 'a secd_view option \<Rightarrow> (sec_error + string) option" where
  "ObjFromSECURITY_DESCRIPTOR T secdP =
     (case secdP of
        None \<Rightarrow> Some (Inr (t_mklist T []))
      | Some v \<Rightarrow>
          stepwise (need System (v_control v)) (\<lambda>(control, revision).
          stepwise (check (Format ''Unsupported SECURITY_DESCRIPTOR version'') (revision = SECURITY_DESCRIPTOR_REVISION)) (\<lambda>_.
          stepwise (need System (v_owner v)) (\<lambda>ownerP.
          stepwise (Some (sid_field T ownerP)) (\<lambda>owner.
          stepwise (need System (v_group v)) (\<lambda>groupP.
          stepwise (Some (sid_field T groupP)) (\<lambda>grp.
          stepwise (need System (v_dacl v)) (\<lambda>(dacl_present, daclP). do {
            dacl \<leftarrow> ObjFromACL T (if dacl_present then daclP else None);
            stepwise (need System (v_sacl v)) (\<lambda>(sacl_present, saclP). do {
              sacl \<leftarrow> ObjFromACL T (if sacl_present then saclP else None);
              (case (dacl, sacl) of
                 (Inr ds, Inr ss) \<Rightarrow> Some (Inr (t_mklist T [w_print T (int control), owner, grp, ds, ss]))
               | _ \<Rightarrow> None) }) }))))))))"

text \<open>
  What the calls store in a new descriptor: the control bits, and the owner, group and lists, each with its
  default flag. The calls themselves succeed: their arguments are what they were made for.
\<close>

record 'a secd =
  sd_control :: "16 word"
  sd_owner :: "(bytes \<times> bool) option"
  sd_group :: "(bytes \<times> bool) option"
  sd_dacl :: "('a option \<times> bool) option"
  sd_sacl :: "('a option \<times> bool) option"

definition SE_OWNER_DEFAULTED :: "16 word" where "SE_OWNER_DEFAULTED = 0x0001"
definition SE_GROUP_DEFAULTED :: "16 word" where "SE_GROUP_DEFAULTED = 0x0002"
definition SE_DACL_PRESENT :: "16 word" where "SE_DACL_PRESENT = 0x0004"
definition SE_DACL_DEFAULTED :: "16 word" where "SE_DACL_DEFAULTED = 0x0008"
definition SE_SACL_PRESENT :: "16 word" where "SE_SACL_PRESENT = 0x0010"
definition SE_SACL_DEFAULTED :: "16 word" where "SE_SACL_DEFAULTED = 0x0020"
definition secd_control_mask :: "16 word" where "secd_control_mask = 0x3F00"

definition has :: "16 word \<Rightarrow> 16 word \<Rightarrow> bool" where
  "has control bits \<longleftrightarrow> and control bits \<noteq> 0"

definition set_sid :: "'a stcl \<Rightarrow> string \<Rightarrow> bool \<Rightarrow> sec_error + (bytes \<times> bool) option" where
  "set_sid T s defaulted =
     (if s = [] then Inr None
      else case TwapiSidFromStringSWS T s of None \<Rightarrow> Inl System | Some sid \<Rightarrow> Inr (Some (sid, defaulted)))"

definition set_acl :: "'a stcl \<Rightarrow> (nat \<Rightarrow> 8 word) \<Rightarrow> string \<Rightarrow> bool \<Rightarrow> bool \<Rightarrow>
    (sec_error + ('a option \<times> bool) option) option" where
  "set_acl T junk s present defaulted =
     (if \<not> present then Some (Inr None)
      else map_option (map_sum id (\<lambda>aclP. if aclP \<noteq> None \<or> defaulted then Some (aclP, defaulted) else None)) (ObjToPACLSWS T junk s))"

definition ObjToPSECURITY_DESCRIPTORSWS :: "'a stcl \<Rightarrow> (nat \<Rightarrow> 8 word) \<Rightarrow> string \<Rightarrow> (sec_error + 'a secd option) option" where
  "ObjToPSECURITY_DESCRIPTORSWS T junk secdObj =
     stepwise (need ConvError (t_list T secdObj)) (\<lambda>objv.
       if objv = [] then Some (Inr None)
       else
         stepwise (check (Format ''Invalid SECURITY_DESCRIPTOR format.'') (length objv = 5)) (\<lambda>_.
         stepwise (need ConvError (t_int T (objv ! 0))) (\<lambda>temp.
         let control = word_of_int temp :: 16 word in
         stepwise (check (Format ''Invalid control flags for SECURITY_DESCRIPTOR'') (uint control = temp)) (\<lambda>_.
         stepwise (Some (set_sid T (objv ! 1) (has control SE_OWNER_DEFAULTED))) (\<lambda>owner.
         stepwise (Some (set_sid T (objv ! 2) (has control SE_GROUP_DEFAULTED))) (\<lambda>grp.
         stepwise (set_acl T junk (objv ! 3) (has control SE_DACL_PRESENT) (has control SE_DACL_DEFAULTED)) (\<lambda>dacl.
         stepwise (set_acl T junk (objv ! 4) (has control SE_SACL_PRESENT) (has control SE_SACL_DEFAULTED)) (\<lambda>sacl.
         Some (Inr (Some \<lparr>sd_control = and secd_control_mask control, sd_owner = owner, sd_group = grp,
           sd_dacl = dacl, sd_sacl = sacl\<rparr>))))))))))"

text \<open>The security attributes: whether handles are inherited, and the descriptor.\<close>

definition ObjToPSECURITY_ATTRIBUTESSWS ::
    "'a stcl \<Rightarrow> (nat \<Rightarrow> 8 word) \<Rightarrow> string \<Rightarrow> (sec_error + (bool \<times> 'a secd option) option) option" where
  "ObjToPSECURITY_ATTRIBUTESSWS T junk s =
     (case t_list T s of
        None \<Rightarrow> Some (Inl ConvError)
      | Some objv \<Rightarrow>
          if objv = [] then Some (Inr None)
          else if length objv \<noteq> 2 then Some (Inl (Format ''Invalid SECURITY_ATTRIBUTES format.''))
          else (case t_int T (objv ! 1) of
             None \<Rightarrow> Some (Inl ConvError)
           | Some inherit \<Rightarrow>
               map_option (map_sum id (\<lambda>d. Some (inherit \<noteq> 0, d))) (ObjToPSECURITY_DESCRIPTORSWS T junk (objv ! 0))))"

end
