(* ===== verification/Winval_Props.thy ===== *)
theory Winval_Props
  imports Winval "HOL-Library.Sublist"
begin

text \<open>
  Round trips and bounds of the conversions of \<open>Winval\<close>. Values that are written as a Tcl list or a string and
  read back share the interface \<open>codec\<close>.
\<close>

section \<open>The conversions of Tcl\<close>

text \<open>What is used of Tcl: lists and numbers in the ranges of their C types can be read back.\<close>

definition wtcl_law :: "wtcl \<Rightarrow> bool" where
  "wtcl_law T \<longleftrightarrow> (\<forall>xs. t_list T (t_mklist T xs) = Some xs) \<and>
     (\<forall>n. - (2 ^ 31) \<le> n \<longrightarrow> n < 2 ^ 31 \<longrightarrow> t_int T (w_print T n) = Some n) \<and>
     (\<forall>n. - (2 ^ 63) \<le> n \<longrightarrow> n < 2 ^ 63 \<longrightarrow> t_wide T (w_print T n) = Some n)"

lemma wtcl_list: "wtcl_law T \<Longrightarrow> t_list T (t_mklist T xs) = Some xs"
  by (simp add: wtcl_law_def)

lemma wtcl_int: "wtcl_law T \<Longrightarrow> - (2 ^ 31) \<le> n \<Longrightarrow> n < 2 ^ 31 \<Longrightarrow> t_int T (w_print T n) = Some n"
  by (simp add: wtcl_law_def)

section \<open>Codecs\<close>

text \<open>
  A codec writes the values of a set and reads them back up to \<open>seen\<close>, what the readers keep of a value. A list of values is written and
  read element by element.
\<close>

locale codec =
  fixes put :: "'a \<Rightarrow> 'b" and get :: "'b \<Rightarrow> 'c option" and seen :: "'a \<Rightarrow> 'c" and good :: "'a \<Rightarrow> bool"
  assumes get_put: "good x \<Longrightarrow> get (put x) = Some (seen x)"
begin

lemma put_inj: "good x \<Longrightarrow> good y \<Longrightarrow> put x = put y \<Longrightarrow> seen x = seen y"
  by (metis option.inject get_put)

text \<open>A list of values, element by element.\<close>

lemma get_all: "\<forall>x \<in> set xs. good x \<Longrightarrow> those (map (\<lambda>x. get (put x)) xs) = Some (map seen xs)"
  by (induction xs) (simp_all add: get_put)

end

definition right :: "'e + 'a \<Rightarrow> 'a option" where
  "right r = (case r of Inl _ \<Rightarrow> None | Inr v \<Rightarrow> Some v)"

lemma right_simps [simp]: "right (Inl e) = None" "right (Inr v) = Some v"
  by (simp_all add: right_def)

definition int32s :: "nat \<Rightarrow> int list \<Rightarrow> bool" where
  "int32s n xs \<longleftrightarrow> length xs = n \<and> (\<forall>x \<in> set xs. - (2 ^ 31) \<le> x \<and> x < 2 ^ 31)"

lemma get_ints_print:
  assumes "wtcl_law T" "int32s n xs"
  shows "get_ints T n (t_mklist T (map (w_print T) xs)) = Inr xs"
proof -
  have "\<forall>x \<in> set xs. t_int T (w_print T x) = Some x" using assms by (auto simp: int32s_def intro: wtcl_int)
  then have "map (\<lambda>x. the (t_int T x)) (map (w_print T) xs) = xs" "\<forall>x \<in> set (map (w_print T) xs). t_int T x \<noteq> None"
    by (auto simp: comp_def intro: map_idI)
  then show ?thesis using assms by (simp add: get_ints_def wtcl_list int32s_def)
qed

interpretation rect: codec "ObjFromRECT T" "\<lambda>s. right (ObjToRECT T s)" "\<lambda>r. r" "\<lambda>r. wtcl_law T \<and> int32s 4 r" for T
  by unfold_locales (simp add: ObjFromRECT_def ObjToRECT_def get_ints_print)

interpretation point: codec "ObjFromPOINT T" "\<lambda>s. right (ObjToPOINT T s)" "\<lambda>r. r" "\<lambda>r. wtcl_law T \<and> int32s 2 r" for T
  by unfold_locales (simp add: ObjFromPOINT_def ObjToPOINT_def get_ints_print)

lemma ranged_print:
  assumes "wtcl_law T" "low \<le> n" "n \<le> high" "- (2 ^ 31) \<le> low" "high < 2 ^ 31"
  shows "ObjToRangedInt T (w_print T n) low high = Inr n"
  using assms wtcl_int [OF assms(1), of n] by (simp add: ObjToRangedInt_def)

lemma ushort_print: "wtcl_law T \<Longrightarrow> ObjToUSHORT T (w_print T (uint w)) = Inr w"
proof -
  assume T: "wtcl_law T"
  have "uint w \<le> 65535" using uint_lt2p [of w] by simp
  then have "ObjToRangedInt T (w_print T (uint w)) 0 65535 = Inr (uint w)" using T by (intro ranged_print) simp_all
  then show ?thesis by (simp add: ObjToUSHORT_def)
qed

lemma SYSTEMTIME_read:
  assumes "wtcl_law T" "valid (t\<lparr>wDayOfWeek := wDayOfWeek old\<rparr>)"
  shows "ObjToSYSTEMTIME T now valid old (ObjFromSYSTEMTIME T t) = Inr (t\<lparr>wDayOfWeek := wDayOfWeek old\<rparr>)"
proof -
  let ?objv = "map (\<lambda>w. w_print T (uint w))
       [wYear t, wMonth t, wDay t, wHour t, wMinute t, wSecond t, wMilliseconds t, wDayOfWeek t]"
  have w: "get_word T ?objv i = Some ([wYear t, wMonth t, wDay t, wHour t, wMinute t, wSecond t, wMilliseconds t, wDayOfWeek t] ! i)"
    if "i < 8" for i
    using that ushort_print [OF assms(1)] by (simp add: get_word_def nth_map del: list.map)
  have eq: "old\<lparr>wYear := wYear t, wMonth := wMonth t, wDay := wDay t, wHour := wHour t, wMinute := wMinute t,
      wSecond := wSecond t, wMilliseconds := wMilliseconds t\<rparr> = t\<lparr>wDayOfWeek := wDayOfWeek old\<rparr>"
    by (cases t, cases old) simp
  then show ?thesis
    using assms(2) w [of 0] w [of 1] w [of 2] w [of 3] w [of 4] w [of 5] w [of 6]
    by (simp add: ObjToSYSTEMTIME_def ObjFromSYSTEMTIME_def wtcl_list [OF assms(1)] eq)
qed

interpretation systime: codec "ObjFromSYSTEMTIME T" "\<lambda>s. right (ObjToSYSTEMTIME T now valid old s)"
    "\<lambda>t. t\<lparr>wDayOfWeek := wDayOfWeek old\<rparr>" "\<lambda>t. wtcl_law T \<and> valid (t\<lparr>wDayOfWeek := wDayOfWeek old\<rparr>)" for T now valid old
  by unfold_locales (simp add: SYSTEMTIME_read)

lemma FILETIME_read:
  assumes "wtcl_law T"
  shows "ObjToFILETIME T (ObjFromFILETIME T ft) = Some ft"
proof -
  let ?w = "word_cat (fst ft) (snd ft) :: 64 word"
  have "- (2 ^ 63) \<le> sint ?w" "sint ?w < 2 ^ 63" using sint_range_size [of ?w] by (simp_all add: word_size)
  then have t: "t_wide T (w_print T (sint ?w)) = Some (sint ?w)" using assms by (simp add: wtcl_law_def)
  have "ucast (drop_bit 32 ?w) = fst ft" "ucast ?w = snd ft"
    by (rule bit_word_eqI, auto simp: bit_simps)+
  then show ?thesis by (simp add: ObjToFILETIME_def ObjFromFILETIME_def t Let_def)
qed

interpretation filetime: codec "ObjFromFILETIME T" "ObjToFILETIME T" "\<lambda>t. t" "\<lambda>_. wtcl_law T" for T
  by unfold_locales (rule FILETIME_read)

section \<open>Hexadecimal numbers\<close>

lemma hexmap_value: "n < 16 \<Longrightarrow> hex_value (hexmap ! n) = Some n"
proof -
  have "list_all (\<lambda>n. hex_value (hexmap ! n) = Some n) [0..<16]" by code_simp
  then show "n < 16 \<Longrightarrow> hex_value (hexmap ! n) = Some n" by (simp add: list_all_iff)
qed

text \<open>The number that a list of half-bytes stands for, and the run of \<open>strtoul\<close> over their digits.\<close>

lemma hex_run_digits:
  assumes "\<forall>n \<in> set ns. n < 16" "r = [] \<or> hex_value (hd r) = None"
  shows "hex_run (map (\<lambda>n. hexmap ! n) ns @ r) v k = (foldl (\<lambda>v n. 16 * v + n) v ns, k + length ns)"
  using assms(1)
proof (induction ns arbitrary: v k)
  case Nil
  then show ?case using assms(2) by (cases r) simp_all
qed (simp add: hexmap_value)

definition nibble :: "'w::len word \<Rightarrow> nat \<Rightarrow> nat" where
  "nibble v i = unat v div 16 ^ i mod 16"

lemma hex_digit_nibble: "hex_digit v i = hexmap ! nibble v i"
proof -
  have "unat (and (drop_bit (4 * i) v) 15) = nibble v i"
  proof -
    have "(15 :: 'a word) = mask 4" by (simp add: mask_eq_exp_minus_1)
    then have "and (drop_bit (4 * i) v) 15 = take_bit 4 (drop_bit (4 * i) v)" by (simp add: take_bit_eq_mask)
    then have "unat (and (drop_bit (4 * i) v) 15) = take_bit 4 (drop_bit (4 * i) (unat v))"
      by (simp add: unsigned_take_bit_eq unat_drop_bit_eq)
    then show ?thesis by (simp add: nibble_def take_bit_eq_mod drop_bit_eq_div power_mult)
  qed
  then show ?thesis by (simp add: hex_digit_def)
qed

lemma foldl_digits: "foldl (\<lambda>v n. 16 * v + n) a ns = a * 16 ^ length ns + foldl (\<lambda>v n. 16 * v + n) (0 :: nat) ns"
proof (induction ns arbitrary: a)
  case (Cons n ns)
  show ?case using Cons [of "16 * a + n"] Cons [of n] by (simp add: algebra_simps)
qed simp

lemma foldl_nibbles: "foldl (\<lambda>v n. 16 * v + n) 0 (map (nibble v) (rev [0..<n])) = unat v mod 16 ^ n"
proof (induction n)
  case (Suc n)
  have "unat v mod 16 ^ Suc n = 16 ^ n * (unat v div 16 ^ n mod 16) + unat v mod 16 ^ n"
    by (simp only: power_Suc2 mod_mult2_eq)
  then show ?case using Suc foldl_digits [of "nibble v n" "map (nibble v) (rev [0..<n])"]
    by (simp add: nibble_def [of v n] mult.commute)
qed simp

lemma hex_digits_run:
  assumes "r = [] \<or> hex_value (hd r) = None"
  shows "hex_run (hex_digits n v @ r) 0 0 = (unat v mod 16 ^ n, n)"
proof -
  have "hex_digits n v = map (\<lambda>n. hexmap ! n) (map (nibble v) (rev [0..<n]))"
    by (simp add: hex_digits_def hex_digit_nibble comp_def)
  moreover have "\<forall>n \<in> set (map (nibble v) (rev [0..<n])). n < 16" by (auto simp: nibble_def)
  ultimately show ?thesis using hex_run_digits [OF _ assms, of "map (nibble v) (rev [0..<n])" 0 0] by (simp add: foldl_nibbles)
qed

lemma hex_digits_first:
  assumes "0 < n"
  shows "\<exists>d s. hex_digits n v = (hexmap ! d) # s \<and> d < 16"
proof -
  obtain m where "n = Suc m" using assms by (cases n) auto
  then have "hex_digits n v = (hexmap ! nibble v m) # hex_digits m v" by (simp add: hex_digits_def hex_digit_nibble)
  then show ?thesis by (auto simp: nibble_def)
qed

lemma hexmap_char:
  assumes "d < 16"
  shows "\<not> is_space (hexmap ! d)" "hexmap ! d \<notin> {CHR ''+'', CHR ''-'', CHR ''x'', CHR ''X''}"
proof -
  have "list_all (\<lambda>d. \<not> is_space (hexmap ! d) \<and> hexmap ! d \<notin> {CHR ''+'', CHR ''-'', CHR ''x'', CHR ''X''}) [0..<16]"
    by code_simp
  then show "\<not> is_space (hexmap ! d)" "hexmap ! d \<notin> {CHR ''+'', CHR ''-'', CHR ''x'', CHR ''X''}"
    using assms by (simp_all add: list_all_iff)
qed

lemma hex_digits_char: "c \<in> set (hex_digits n v) \<Longrightarrow> c \<notin> {CHR ''x'', CHR ''X''}"
proof -
  assume "c \<in> set (hex_digits n v)"
  then obtain i where "c = hexmap ! nibble v i" by (auto simp: hex_digits_def hex_digit_nibble)
  moreover have "nibble v i < 16" by (simp add: nibble_def)
  ultimately show ?thesis using hexmap_char(2) [of "nibble v i"] by simp
qed

lemma length_hex_digits [simp]: "length (hex_digits n v) = n"
  by (simp add: hex_digits_def)

text \<open>Digits that are followed by something else are read as their number, all of them.\<close>

lemma strtoul16_digits:
  assumes "2 \<le> n" "n \<le> 8" "r = [] \<or> hex_value (hd r) = None"
  shows "strtoul16 (hex_digits n v @ r) = (of_nat (unat v mod 16 ^ n), n)"
proof -
  let ?s = "hex_digits n v @ r"
  obtain d s where d: "hex_digits n v = (hexmap ! d) # s" "d < 16" using hex_digits_first [of n v] assms(1) by auto
  have sp: "takeWhile is_space ?s = []" using d hexmap_char(1) [OF d(2)] by simp
  have hd: "?s \<noteq> []" "hd ?s \<notin> {CHR ''+'', CHR ''-''}" using d hexmap_char(2) [OF d(2)] by auto
  have "?s ! 1 = hex_digits n v ! 1" using assms(1) by (simp add: nth_append)
  moreover have "hex_digits n v ! 1 \<in> set (hex_digits n v)" using assms(1) by (intro nth_mem) simp
  ultimately have pre: "?s ! 1 \<notin> {CHR ''x'', CHR ''X''}" using hex_digits_char by metis
  have "unat v mod 16 ^ n < 16 ^ n" by simp
  also have "(16 :: nat) ^ n \<le> 16 ^ 8" using assms(2) by (intro power_increasing) simp_all
  finally have "\<not> 2 ^ 32 \<le> unat v mod 16 ^ n" by simp
  moreover have "n \<noteq> 0" using assms(1) by simp
  ultimately show ?thesis
    using hd pre by (simp add: strtoul16_def sp hex_digits_run [OF assms(3)] Let_def)
qed

lemma strtoul16_0x:
  assumes "2 \<le> n" "n \<le> 8"
  shows "strtoul16 (''0x'' @ hex_digits n v) = (of_nat (unat v mod 16 ^ n), n + 2)"
proof -
  obtain d s where d: "hex_digits n v = (hexmap ! d) # s" "d < 16" using hex_digits_first [of n v] assms(1) by auto
  define ds where "ds = hex_digits n v"
  have sp: "takeWhile is_space (CHR ''0'' # CHR ''x'' # ds) = []" by (simp add: is_space_def)
  have hv: "hex_value (ds ! 0) \<noteq> None" "ds \<noteq> []" using d hexmap_value by (simp_all add: ds_def)
  have run: "hex_run ds 0 0 = (unat v mod 16 ^ n, n)" using hex_digits_run [of "[]" n v] by (simp add: ds_def)
  have "unat v mod 16 ^ n < 16 ^ n" by simp
  also have "(16 :: nat) ^ n \<le> 16 ^ 8" using assms(2) by (intro power_increasing) simp_all
  finally have "\<not> 2 ^ 32 \<le> unat v mod 16 ^ n" by simp
  moreover have "n \<noteq> 0" using assms(1) by simp
  ultimately have "strtoul16 (CHR ''0'' # CHR ''x'' # ds) = (of_nat (unat v mod 16 ^ n), n + 2)"
    using hv unfolding strtoul16_def sp by (simp add: run Let_def)
  then show ?thesis by (simp add: ds_def)
qed

lemma LUID_read: "ObjToLUID (ObjFromLUID l) = Some l"
proof -
  have u: "unat w mod 4294967296 = unat w" for w :: "32 word" using unsigned_less [of w, where ?'a = nat] by simp
  have len: "length (ObjFromLUID l) = 17" by (simp add: ObjFromLUID_def)
  have dash: "ObjFromLUID l ! 8 = CHR ''-''" by (simp add: ObjFromLUID_def nth_append)
  have high: "strtoul16 (ObjFromLUID l) = (fst l, 8)"
    using strtoul16_digits [of 8 "''-'' @ hex_digits 8 (snd l)" "fst l"]
    by (simp add: ObjFromLUID_def hex_value_def less_eq_char_def u)
  have "drop 9 (ObjFromLUID l) = hex_digits 8 (snd l)" by (simp add: ObjFromLUID_def)
  then have low: "strtoul16 (drop 9 (ObjFromLUID l)) = (snd l, 8)"
    using strtoul16_digits [of 8 "[]" "snd l"] by (simp add: u)
  show ?thesis by (simp add: ObjToLUID_def len dash high low)
qed

interpretation luid: codec ObjFromLUID ObjToLUID "\<lambda>l. l" "\<lambda>_. True"
  by unfold_locales (rule LUID_read)

section \<open>Item identifier lists\<close>

lemma item_len_short: "length p < 2 \<Longrightarrow> item_len p = None"
  by (auto simp: item_len_def split: list.splits)

lemma item_len_take: "2 \<le> n \<Longrightarrow> item_len (take n p) = item_len p"
proof (cases p)
  case (Cons a q)
  assume "2 \<le> n"
  then obtain m where "n = Suc (Suc m)" by (metis add_2_eq_Suc le_Suc_ex)
  then show ?thesis using Cons by (cases q) (simp_all add: item_len_def)
qed simp

lemma item_len_append: "item_len p \<noteq> None \<Longrightarrow> item_len (p @ r) = item_len p"
  by (auto simp: item_len_def split: list.splits)

text \<open>The check accepts exactly the buffers in which the walk ends.\<close>

lemma pidl_check_walk:
  "2 \<le> nb \<Longrightarrow> nb \<le> length p \<Longrightarrow> pidl_check p nb = Some (pidl_walk (take nb p) \<noteq> None)"
proof (induction p nb rule: pidl_check.induct)
  case (1 p nb)
  obtain a b q where p: "p = a # b # q" using "1.prems" by (cases p; cases "tl p") auto
  then obtain n where n: "item_len p = Some n" by (simp add: item_len_def)
  have take: "item_len (take nb p) = Some n" using n "1.prems" by (simp add: item_len_take)
  consider "n = 0" | "n \<noteq> 0" "int n > int nb - 2" | "n \<noteq> 0" "\<not> int n > int nb - 2" by blast
  then show ?case
  proof cases
    case 1
    then show ?thesis using n take by (subst pidl_check.simps, subst pidl_walk.simps) simp
  next
    case 2
    have "item_len (drop n (take nb p)) = None" using 2 by (intro item_len_short) auto
    then have "pidl_walk (drop n (take nb p)) = None" by (subst pidl_walk.simps) simp
    then show ?thesis using 2 n take by (subst pidl_check.simps, subst pidl_walk.simps) simp
  next
    case 3
    then have "pidl_check (drop n p) (nb - n) = Some (pidl_walk (take (nb - n) (drop n p)) \<noteq> None)"
      using n "1.prems" by (intro "1.IH") auto
    then show ?thesis
      using 3 n take by (subst pidl_check.simps, subst pidl_walk.simps) (simp add: drop_take)
  qed
qed

text \<open>The walk stays within the list and does not see what follows.\<close>

lemma pidl_walk_bound: "pidl_walk p = Some k \<Longrightarrow> k + 2 \<le> length p \<and> pidl_walk (p @ r) = Some k"
proof (induction p arbitrary: k rule: pidl_walk.induct)
  case (1 p)
  obtain n where n: "item_len p = Some n" using "1.prems" by (subst (asm) pidl_walk.simps) (auto split: option.splits)
  then have app: "item_len (p @ r) = Some n" using item_len_append by fastforce
  have two: "2 \<le> length p" using n item_len_short [of p] by (cases "length p < 2") auto
  show ?case
  proof (cases "n = 0")
    case True
    then have "k = 0" using n "1.prems" by (subst (asm) pidl_walk.simps) simp
    then show ?thesis using True app two by (subst pidl_walk.simps) simp
  next
    case False
    then obtain j where j: "pidl_walk (drop n p) = Some j" "k = n + j"
      using n "1.prems" by (subst (asm) pidl_walk.simps) auto
    then have ih: "j + 2 \<le> length (drop n p)" "pidl_walk (drop n p @ r) = Some j"
      using "1.IH" [OF n False j(1)] by simp_all
    then show ?thesis using False app j(2) by (subst pidl_walk.simps) (simp add: drop_append)
  qed
qed

text \<open>
  C33. Item identifier lists from a script: the check never reads outside of the bytes that are given. With two bytes or more a list is
  accepted exactly when the walk over its items reaches the terminator; then a walk over the copy ends inside of it
  whatever follows in memory, and writing it as a value gives its bytes up to the terminator.\<close>

theorem pidl_accepted_iff_terminated:
  assumes "2 \<le> length bytes"
  shows "ObjToPIDL True bytes = Some (if pidl_walk bytes \<noteq> None then Inr (Some bytes) else Inl BadFormat) \<and>
    (\<forall>k r. pidl_walk bytes = Some k \<longrightarrow>
       k + 2 \<le> length bytes \<and> ObjFromPIDL (bytes @ r) = Some (take (k + 2) bytes))"
proof -
  have "pidl_check bytes (length bytes) = Some (pidl_walk bytes \<noteq> None)"
    using pidl_check_walk [of "length bytes" bytes] assms by simp
  then have "ObjToPIDL True bytes = Some (if pidl_walk bytes \<noteq> None then Inr (Some bytes) else Inl BadFormat)"
    using assms by (simp add: ObjToPIDL_def)
  moreover have "k + 2 \<le> length bytes \<and> ObjFromPIDL (bytes @ r) = Some (take (k + 2) bytes)"
    if "pidl_walk bytes = Some k" for k r
    using pidl_walk_bound [OF that, of r] by (simp add: ObjFromPIDL_def)
  ultimately show ?thesis by blast
qed

theorem pidl_accepted_iff_terminated_witness:
  "ObjToPIDL True [3, 0, 7, 0, 0] = Some (Inr (Some [3, 0, 7, 0, 0])) \<and>
   ObjFromPIDL ([3, 0, 7, 0, 0] @ [9]) = Some [3, 0, 7, 0, 0] \<and>
   ObjToPIDL True [3, 0, 7, 1] = Some (Inl BadFormat)"
proof -
  have w: "pidl_walk [3, 0, 7, 0, 0] = Some 3" "pidl_walk [3, 0, 7, 1] = None"
    by (simp_all add: pidl_walk.simps item_len_def)
  have 2: "ObjFromPIDL ([3, 0, 7, 0, 0] @ [9]) = Some (take (3 + 2) [3, 0, 7, 0, 0])"
    using pidl_accepted_iff_terminated [of "[3, 0, 7, 0, 0]"] w(1) by fastforce
  show ?thesis
    using pidl_accepted_iff_terminated [of "[3, 0, 7, 0, 0]"] pidl_accepted_iff_terminated [of "[3, 0, 7, 1]"] 2 by (simp add: w)
qed

section \<open>String lists\<close>

text \<open>The elements of a list in UTF-16, each with its terminator.\<close>

definition flat :: "wtcl \<Rightarrow> string list \<Rightarrow> 16 word list" where
  "flat T xs = concat (map (\<lambda>s. w_chars T s @ [0]) xs)"

lemma flat_simps [simp]: "flat T [] = []" "flat T (s # ss) = w_chars T s @ 0 # flat T ss"
  by (simp_all add: flat_def)

lemma multisz_copy_fits:
  "dst + length (flat T xs) \<le> length buf \<Longrightarrow>
   multisz_copy T xs dst buf =
     Some (take dst buf @ flat T xs @ drop (dst + length (flat T xs)) buf, dst + length (flat T xs))"
proof (induction xs arbitrary: dst buf)
  case (Cons s xs)
  let ?src = "w_chars T s @ [0]"
  let ?buf = "take dst buf @ ?src @ drop (dst + length ?src) buf"
  have fit: "dst + length ?src \<le> length buf" using Cons.prems by simp
  have len: "length ?buf = length buf" using fit by simp
  have "multisz_copy T (s # xs) dst buf = multisz_copy T xs (dst + length ?src) ?buf"
    using fit by (simp add: Let_def)
  also have "\<dots> = Some (take (dst + length ?src) ?buf @ flat T xs @ drop (dst + length ?src + length (flat T xs)) ?buf,
      dst + length ?src + length (flat T xs))"
    using Cons.prems len by (intro Cons.IH) simp
  also have "take (dst + length ?src) ?buf = take dst buf @ ?src" using fit by simp
  also have "drop (dst + length ?src + length (flat T xs)) ?buf = drop (dst + length (flat T (s # xs))) buf"
    using fit by (simp add: add.commute add.left_commute)
  finally show ?case by (simp add: add.assoc)
qed simp

lemma multisz_copy_overflow:
  "dst \<le> length buf \<Longrightarrow> length buf < dst + length (flat T xs) \<Longrightarrow> multisz_copy T xs dst buf = None"
  by (induction xs arbitrary: dst buf) (simp_all add: Let_def)

text \<open>The whole result: the elements, the last terminator and what the buffer held after it.\<close>

lemma ObjToMultiSzEx_result:
  assumes "t_list T s = Some xs"
  shows "ObjToMultiSzEx T junk s =
    (if length (flat T xs) < multisz_size T xs
     then Some (Inr (flat T xs @ 0 # drop (Suc (length (flat T xs))) (map junk [0..<multisz_size T xs])))
     else None)"
proof -
  define buf where "buf = map junk [0..<multisz_size T xs]"
  have len: "length buf = multisz_size T xs" by (simp add: buf_def)
  consider "length (flat T xs) < length buf" | "length (flat T xs) = length buf" | "length buf < length (flat T xs)"
    by linarith
  then show ?thesis
  proof cases
    case 1
    have "multisz_copy T xs 0 buf = Some (flat T xs @ drop (length (flat T xs)) buf, length (flat T xs))"
      using multisz_copy_fits [of 0 T xs buf] 1 by simp
    moreover have "drop (length (flat T xs)) buf = buf ! length (flat T xs) # drop (Suc (length (flat T xs))) buf"
      using 1 by (simp add: Cons_nth_drop_Suc)
    ultimately show ?thesis using 1 assms len by (simp add: ObjToMultiSzEx_def list_update_append flip: buf_def)
  next
    case 2
    then show ?thesis using multisz_copy_fits [of 0 T xs buf] assms len by (simp add: ObjToMultiSzEx_def flip: buf_def)
  next
    case 3
    then show ?thesis using multisz_copy_overflow [of 0 buf T xs] assms len by (simp add: ObjToMultiSzEx_def flip: buf_def)
  qed
qed

lemma multisz_read_flat:
  assumes "\<forall>x \<in> set xs. 0 \<notin> set (w_chars T x)" "pos + int (length (flat T xs)) < maxlen"
  shows "multisz_read (flat T xs @ 0 # r) pos maxlen = Some (takeWhile (\<lambda>w. w \<noteq> []) (map (w_chars T) xs))"
  using assms
proof (induction xs arbitrary: pos)
  case Nil
  then show ?case by (subst multisz_read.simps) simp
next
  case (Cons x xs)
  let ?w = "w_chars T x"
  have lt: "pos < maxlen" using Cons.prems(2) by linarith
  show ?case
  proof (cases "?w = []")
    case True
    then show ?thesis using lt by (subst multisz_read.simps) simp
  next
    case False
    then obtain c cs where w: "?w = c # cs" "c \<noteq> 0" "0 \<notin> set cs" using Cons.prems(1) by (cases ?w) auto
    have lim: "Suc (length cs) \<le> nat (maxlen - pos)" using Cons.prems(2) w(1) by simp
    have "takeWhile (\<lambda>c. c \<noteq> 0) (take (nat (maxlen - pos)) (?w @ 0 # flat T xs @ 0 # r)) = ?w"
    proof -
      obtain m where m: "nat (maxlen - pos) = length ?w + m" using lim w(1) by (metis le_Suc_ex length_Cons)
      show ?thesis unfolding m using Cons.prems(1) by (cases m) (auto simp: takeWhile_append)
    qed
    moreover have "multisz_read (flat T xs @ 0 # r) (pos + int (length ?w) + 1) maxlen =
        Some (takeWhile (\<lambda>w. w \<noteq> []) (map (w_chars T) xs))"
      using Cons.prems by (intro Cons.IH) auto
    ultimately show ?thesis
      using lt w by (subst multisz_read.simps) (simp add: Let_def)
  qed
qed

text \<open>
  String lists: when the characters that Tcl counts are UTF-16 units and contain no NUL, the list that is written is
  read back, up to its first empty element. Whenever the strings are longer in UTF-16 than Tcl counts, the copy leaves
  its buffer.\<close>

theorem multisz_roundtrip:
  assumes "t_list T s = Some xs" "\<forall>x \<in> set xs. 0 \<notin> set (w_chars T x)"
    "int (length (flat T xs)) < INT_MAXLEN"
  shows "((\<forall>x \<in> set xs. length (w_chars T x) = w_len T x) \<longrightarrow>
      (\<exists>buf. ObjToMultiSzEx T junk s = Some (Inr buf) \<and>
         ObjFromMultiSz (Some (buf @ r)) (- 1) = Some (takeWhile (\<lambda>w. w \<noteq> []) (map (w_chars T) xs)))) \<and>
    ((\<Sum>x\<leftarrow>xs. w_len T x) < (\<Sum>x\<leftarrow>xs. length (w_chars T x)) \<longrightarrow> ObjToMultiSzEx T junk s = None)"
proof (intro conjI impI)
  have len: "length (flat T ys) = (\<Sum>x\<leftarrow>ys. length (w_chars T x)) + length ys" for ys by (induction ys) simp_all
  have size: "multisz_size T ys = Suc ((\<Sum>x\<leftarrow>ys. w_len T x) + length ys)" for ys
    by (induction ys) (simp_all add: multisz_size_def)
  show "ObjToMultiSzEx T junk s = None" if "(\<Sum>x\<leftarrow>xs. w_len T x) < (\<Sum>x\<leftarrow>xs. length (w_chars T x))"
    using that assms(1) by (simp add: ObjToMultiSzEx_result len size)
  assume "\<forall>x \<in> set xs. length (w_chars T x) = w_len T x"
  then have "length (flat T xs) < multisz_size T xs" by (simp add: len size cong: map_cong)
  then obtain q where "ObjToMultiSzEx T junk s = Some (Inr (flat T xs @ 0 # q))"
    using ObjToMultiSzEx_result [OF assms(1)] by simp
  moreover have "ObjFromMultiSz (Some ((flat T xs @ 0 # q) @ r)) (- 1) =
      Some (takeWhile (\<lambda>w. w \<noteq> []) (map (w_chars T) xs))"
    using multisz_read_flat [OF assms(2), of 0 INT_MAXLEN "q @ r"] assms(3) by (simp add: ObjFromMultiSz_def)
  ultimately show "\<exists>buf. ObjToMultiSzEx T junk s = Some (Inr buf) \<and>
      ObjFromMultiSz (Some (buf @ r)) (- 1) = Some (takeWhile (\<lambda>w. w \<noteq> []) (map (w_chars T) xs))" by blast
qed

section \<open>An instance\<close>

text \<open>Numbers as a sign and strokes; the byte 240 stands for a character outside of the basic plane.\<close>

definition strokes :: "int \<Rightarrow> string" where
  "strokes n = (if n < 0 then ''-'' else []) @ replicate (nat \<bar>n\<bar>) (CHR ''1'')"

definition count_strokes :: "string \<Rightarrow> int option" where
  "count_strokes s = Some (if s \<noteq> [] \<and> hd s = CHR ''-'' then - int (length (tl s)) else int (length s))"

lemma count_strokes_print: "count_strokes (strokes n) = Some n"
proof (cases "n < 0")
  case False
  then show ?thesis by (cases "n = 0") (simp_all add: strokes_def count_strokes_def hd_replicate)
qed (simp add: strokes_def count_strokes_def)

definition demo_units :: "char \<Rightarrow> 16 word list" where
  "demo_units c = (if of_char c = (240 :: nat) then [0xD83D, 0xDE00] else [of_nat (of_char c)])"

definition demo_wtcl :: wtcl where
  "demo_wtcl = tcl.extend (demo_tcl\<lparr>t_int := count_strokes, t_wide := count_strokes\<rparr>)
     \<lparr>w_chars = \<lambda>s. concat (map demo_units s), w_string = map (\<lambda>w. char_of (unat w)), w_len = length, w_print = strokes\<rparr>"

lemma demo_wtcl_simps [simp]:
  "t_list demo_wtcl = dec []" "t_mklist demo_wtcl = enc" "t_int demo_wtcl = count_strokes"
  "t_wide demo_wtcl = count_strokes" "w_chars demo_wtcl = (\<lambda>s. concat (map demo_units s))"
  "w_len demo_wtcl = length" "w_print demo_wtcl = strokes" "w_string demo_wtcl = map (\<lambda>w. char_of (unat w))"
  by (simp_all add: demo_wtcl_def tcl.defs demo_tcl_def)

lemma demo_wtcl_law: "wtcl_law demo_wtcl"
  by (simp add: wtcl_law_def dec_enc count_strokes_print)

section \<open>Properties\<close>

text \<open>
  Rectangles, points, times and LUIDs that are written as a value are read back unchanged, except that the day of the week of a
  system time is not read: the structure keeps what it held before.\<close>

theorem values_roundtrip:
  assumes "wtcl_law T" "int32s 4 r" "int32s 2 p" "valid (t\<lparr>wDayOfWeek := wDayOfWeek old\<rparr>)"
  shows "ObjToRECT T (ObjFromRECT T r) = Inr r \<and> ObjToPOINT T (ObjFromPOINT T p) = Inr p \<and>
    ObjToSYSTEMTIME T now valid old (ObjFromSYSTEMTIME T t) = Inr (t\<lparr>wDayOfWeek := wDayOfWeek old\<rparr>) \<and>
    ObjToFILETIME T (ObjFromFILETIME T ft) = Some ft \<and> ObjToLUID (ObjFromLUID l) = Some l"
proof -
  have right: "right x = Some v \<Longrightarrow> x = Inr v" for x :: "'e + 'v" and v by (cases x) simp_all
  have "right (ObjToRECT T (ObjFromRECT T r)) = Some r" using assms by (intro rect.get_put) simp
  moreover have "right (ObjToPOINT T (ObjFromPOINT T p)) = Some p" using assms by (intro point.get_put) simp
  moreover have "right (ObjToSYSTEMTIME T now valid old (ObjFromSYSTEMTIME T t)) = Some (t\<lparr>wDayOfWeek := wDayOfWeek old\<rparr>)"
    using assms by (intro systime.get_put) simp
  ultimately show ?thesis using filetime.get_put [OF assms(1)] luid.get_put [of l] by (simp add: right)
qed

definition demo_time :: SYSTEMTIME where
  "demo_time = \<lparr>wYear = 3, wMonth = 2, wDay = 1, wHour = 0, wMinute = 5, wSecond = 0, wMilliseconds = 0, wDayOfWeek = 6\<rparr>"

theorem values_roundtrip_witness:
  "ObjToRECT demo_wtcl (ObjFromRECT demo_wtcl [-1, 2, 0, 4]) = Inr [-1, 2, 0, 4] \<and>
   ObjToSYSTEMTIME demo_wtcl demo_time (\<lambda>t. wMonth t \<noteq> 0) (demo_time\<lparr>wDayOfWeek := 9\<rparr>) (ObjFromSYSTEMTIME demo_wtcl demo_time) =
     Inr (demo_time\<lparr>wDayOfWeek := 9\<rparr>) \<and> ObjToLUID (ObjFromLUID (7, 0xABCDEF01)) = Some (7, 0xABCDEF01)"
  using values_roundtrip [OF demo_wtcl_law, where r = "[-1, 2, 0, 4]" and p = "[1, 2]" and t = demo_time and now = demo_time
      and valid = "\<lambda>t. wMonth t \<noteq> 0" and old = "demo_time\<lparr>wDayOfWeek := 9\<rparr>" and l = "(7, 0xABCDEF01)"]
  by (simp add: int32s_def demo_time_def)

text \<open>
  The hexadecimal forms of integers are read by the C library as the same number, up to their last digit.\<close>

theorem hex_reads_back:
  "strtoul16 (ObjFromULONGHex v) = (v, 10) \<and> strtoul16 (ObjFromUSHORTHex u) = (ucast u, 6) \<and>
   strtoul16 (ObjFromUCHARHex c) = (ucast c, 4)"
proof -
  have "unat v mod 4294967296 = unat v" using unsigned_less [of v, where ?'a = nat] by simp
  moreover have "unat u mod 65536 = unat u" using unsigned_less [of u, where ?'a = nat] by simp
  moreover have "unat c mod 256 = unat c" using unsigned_less [of c, where ?'a = nat] by simp
  ultimately show ?thesis
    using strtoul16_0x [of 8 v] strtoul16_0x [of 4 u] strtoul16_0x [of 2 c]
    by (simp add: ObjFromULONGHex_def ObjFromUSHORTHex_def ObjFromUCHARHex_def)
qed

theorem multisz_roundtrip_witness:
  "ObjFromMultiSz (Some [97, 98, 0, 99, 0, 0]) (- 1) = Some [[97, 98], [99]] \<and>
   ObjToMultiSzEx demo_wtcl (\<lambda>_. 7) (enc [''ab'', ''c'']) = Some (Inr [97, 98, 0, 99, 0, 0]) \<and>
   ObjToMultiSzEx demo_wtcl (\<lambda>_. 7) (enc [[char_of (240 :: nat)]]) = None"
proof -
  have l: "t_list demo_wtcl (enc xs) = Some xs" for xs by (simp add: dec_enc)
  let ?xs = "[''ab'', ''c'']" and ?ys = "[[char_of (240 :: nat)]]"
  have a: "((\<forall>x \<in> set ?xs. length (w_chars demo_wtcl x) = w_len demo_wtcl x) \<longrightarrow>
      (\<exists>buf. ObjToMultiSzEx demo_wtcl (\<lambda>_. 7) (enc ?xs) = Some (Inr buf) \<and>
         ObjFromMultiSz (Some (buf @ [])) (- 1) = Some (takeWhile (\<lambda>w. w \<noteq> []) (map (w_chars demo_wtcl) ?xs))))"
    using multisz_roundtrip [OF l [of ?xs], of "\<lambda>_. 7" "[]"] by (simp add: demo_units_def INT_MAXLEN_def)
  have b: "ObjToMultiSzEx demo_wtcl (\<lambda>_. 7) (enc ?xs) = Some (Inr [97, 98, 0, 99, 0, 0])"
    using ObjToMultiSzEx_result [OF l [of ?xs]] by (simp add: multisz_size_def demo_units_def)
  have c: "ObjToMultiSzEx demo_wtcl (\<lambda>_. 7) (enc ?ys) = None"
    using multisz_roundtrip [OF l [of ?ys], of "\<lambda>_. 7" "[]"] by (simp add: demo_units_def INT_MAXLEN_def)
  show ?thesis using a b c by (simp add: demo_units_def)
qed

section \<open>Registry values\<close>

lemma length_units: "length (units buf) = length buf div 2"
  by (induction buf rule: units.induct) simp_all

lemma units_append: "even (length buf) \<Longrightarrow> units (buf @ r) = units buf @ units r"
  by (induction buf rule: units.induct) auto

lemma multisz_read_bounded: "maxlen \<le> pos + int (length mem) \<Longrightarrow> multisz_read mem pos maxlen \<noteq> None"
proof (induction mem pos maxlen rule: multisz_read.induct)
  case (1 mem pos maxlen)
  show ?case
  proof (cases "pos < maxlen \<and> mem \<noteq> [] \<and> hd mem \<noteq> 0")
    case False
    then show ?thesis using "1.prems" by (subst multisz_read.simps) (auto split: list.splits)
  next
    case True
    then obtain c q where m: "mem = c # q" "c \<noteq> 0" "pos < maxlen" by (cases mem) auto
    define p where "p = takeWhile (\<lambda>c. c \<noteq> 0) (take (nat (maxlen - pos)) mem)"
    have in_range: "\<not> (length p = length mem \<and> pos + int (length p) < maxlen)" using "1.prems" by auto
    have "maxlen \<le> pos + int (length p) + 1 + int (length (drop (Suc (length p)) mem))"
      using "1.prems" by simp
    then have "multisz_read (drop (Suc (length p)) mem) (pos + int (length p) + 1) maxlen \<noteq> None"
      using "1.IH" [of c q p "length p"] m in_range by (auto simp: p_def)
    then show ?thesis
      using m in_range by (subst multisz_read.simps) (auto simp: Let_def p_def)
  qed
qed

lemma ObjFromMultiSz_bounded:
  "0 \<le> maxlen \<Longrightarrow> maxlen \<le> int (length mem) \<Longrightarrow> ObjFromMultiSz (Some mem) maxlen \<noteq> None"
  using multisz_read_bounded [of maxlen 0 mem] by (simp add: ObjFromMultiSz_def)

lemma reg_chars_bounded:
  assumes "0 \<le> count" "count \<le> int (length buf)"
  shows "\<exists>ws t. reg_chars buf count = Some (ws, t) \<and> (t \<longrightarrow> 0 \<in> set (units buf))"
proof -
  define n where "n = nat (count div 2)"
  have n: "n \<le> length (units buf)" using assms by (simp add: n_def length_units)
  then have "n \<noteq> 0 \<Longrightarrow> units buf ! (n - 1) \<in> set (units buf)" by (intro nth_mem) linarith
  then show ?thesis
    using n
    by (cases "n \<noteq> 0 \<and> units buf ! (n - 1) = 0") (auto simp: reg_chars_def Let_def simp flip: n_def)
qed

lemma EXPAND_SZW_bounded: "0 \<in> set mem \<Longrightarrow> ObjFromEXPAND_SZW expand mem \<noteq> None"
  by (simp add: ObjFromEXPAND_SZW_def limited_def Let_def split: prod.splits)

text \<open>
  C32. A registry value of \<open>count\<close> bytes, of whatever type and content, is converted without a read beyond its bytes, as it is and
  with its variables expanded; a string value gives the same characters whether or not a terminator was stored with it.\<close>

theorem registry_in_bounds:
  assumes "0 \<le> count" "count \<le> int (length buf)"
  shows "ObjFromRegValue regtype buf count \<noteq> None \<and> ObjFromRegValueCooked expand regtype buf count \<noteq> None \<and>
    (even count \<and> count = int (length buf) \<and> 0 \<notin> set (units buf) \<longrightarrow>
      map_option fst (reg_chars (buf @ [0, 0]) (count + 2)) = map_option fst (reg_chars buf count))"
proof (intro conjI impI)
  have ms: "ObjFromMultiSz (Some (units buf)) (count div 2) \<noteq> None"
    using assms by (intro ObjFromMultiSz_bounded) (simp_all add: length_units)
  obtain ws t where rc: "reg_chars buf count = Some (ws, t)" "t \<longrightarrow> 0 \<in> set (units buf)"
    using reg_chars_bounded [OF assms] by blast
  have rd: "count = int n \<Longrightarrow> read_le buf n \<noteq> None" for n using assms by (simp add: read_le_def)
  have rb: "reg_bytes buf count \<noteq> None" using assms by (simp add: reg_bytes_def)
  show "ObjFromRegValue regtype buf count \<noteq> None"
    using ms rc(1) rd [of 4] rd [of 8] rb
    by (cases "count = 4"; cases "count = 8"; auto simp: ObjFromRegValue_def)
  have ex: "ObjFromEXPAND_SZW expand (ws @ [0]) \<noteq> None" "t \<Longrightarrow> ObjFromEXPAND_SZW expand (units buf) \<noteq> None"
    using rc(2) by (simp_all add: EXPAND_SZW_bounded)
  show "ObjFromRegValueCooked expand regtype buf count \<noteq> None"
    using ms rc(1) rd [of 4] rd [of 8] rb ex
    by (cases "count = 4"; cases "count = 8"; cases t; auto simp: ObjFromRegValueCooked_def)
next
  assume a: "even count \<and> count = int (length buf) \<and> 0 \<notin> set (units buf)"
  then have even: "even (length buf)" by auto
  have n: "nat (count div 2) = length (units buf)" "nat ((count + 2) div 2) = Suc (length (units buf))"
    using a by (simp_all add: length_units)
  have u: "units (buf @ [0, 0]) = units buf @ [0]" using units_append [OF even, of "[0, 0]"] by simp
  have "units buf ! (length (units buf) - 1) \<noteq> 0" if "units buf \<noteq> []"
    using a that by (metis last_conv_nth last_in_set)
  then show "map_option fst (reg_chars (buf @ [0, 0]) (count + 2)) = map_option fst (reg_chars buf count)"
    by (auto simp: reg_chars_def n u Let_def)
qed

theorem registry_in_bounds_witness:
  "ObjFromRegValue 7 [65, 0, 66] 3 \<noteq> None \<and> ObjFromRegValueCooked (\<lambda>_ _. None) 2 [65, 0, 66, 0] 4 \<noteq> None"
  using registry_in_bounds [of 3 "[65, 0, 66]" 7] registry_in_bounds [of 4 "[65, 0, 66, 0]" 2 "\<lambda>_ _. None"] by simp

section \<open>Time zones\<close>

lemma wtcl_read_times:
  assumes "wtcl_law T"
  shows "ObjToSYSTEMTIME T now valid old (ObjFromSYSTEMTIME T t) =
    (if valid (t\<lparr>wDayOfWeek := wDayOfWeek old\<rparr>) then Inr (t\<lparr>wDayOfWeek := wDayOfWeek old\<rparr>) else Inl BadFormat)"
proof -
  let ?t = "t\<lparr>wDayOfWeek := wDayOfWeek old\<rparr>"
  have dec: "ObjToSYSTEMTIME T now valid old s = Inl BadFormat"
    if "ObjToSYSTEMTIME T now (\<lambda>_. True) old s = Inr u" "\<not> valid u" "t_list T s \<noteq> Some []" for s u
    using that by (auto simp: ObjToSYSTEMTIME_def split: option.splits if_splits)
  have "t_list T (ObjFromSYSTEMTIME T t) \<noteq> Some []"
    using wtcl_list [OF assms] by (simp add: ObjFromSYSTEMTIME_def)
  then show ?thesis using SYSTEMTIME_read [OF assms, where valid = "\<lambda>_. True" and t = t and old = old and now = now]
      SYSTEMTIME_read [OF assms, where valid = valid and t = t and old = old and now = now] dec
    by auto
qed

lemma name_units:
  fixes ws :: "16 word list"
  assumes "length ws = 32" "0 \<in> set ws"
  shows "length (takeWhile (\<lambda>c. c \<noteq> 0) ws) < 32" "0 \<notin> set (takeWhile (\<lambda>c. c \<noteq> 0) ws)"
proof -
  have "dropWhile (\<lambda>c. c \<noteq> 0) ws \<noteq> []" using assms(2) by auto
  then have "0 < length (dropWhile (\<lambda>c. c \<noteq> 0) ws)" by blast
  moreover have "length ws = length (takeWhile (\<lambda>c. c \<noteq> 0) ws) + length (dropWhile (\<lambda>c. c \<noteq> 0) ws)"
    by (metis length_append takeWhile_dropWhile_id)
  ultimately show "length (takeWhile (\<lambda>c. c \<noteq> 0) ws) < 32" using assms(1) by linarith
  show "0 \<notin> set (takeWhile (\<lambda>c. c \<noteq> 0) ws)" by (auto dest: set_takeWhileD)
qed

text \<open>
  The time zone information that the system reports is read back exactly when both of its dates are valid as times. The system marks a zone without
  daylight saving time by the month zero in both dates, which is not a valid time, so such a zone cannot be set from what was read.\<close>

theorem time_zone_readable_iff:
  assumes "wtcl_law T" "\<forall>t. valid t \<longrightarrow> wMonth t \<noteq> 0"
    and ints: "\<forall>n \<in> {tz_Bias tz, tz_StandardBias tz, tz_DaylightBias tz}. - (2 ^ 31) \<le> n \<and> n < 2 ^ 31"
    and names: "\<forall>ws \<in> {tz_StandardName tz, tz_DaylightName tz}. length ws = 32 \<and> 0 \<in> set ws \<and>
      w_chars T (w_string T (takeWhile (\<lambda>c. c \<noteq> 0) ws)) = takeWhile (\<lambda>c. c \<noteq> 0) ws"
    and s: "ObjFromTIME_ZONE_INFORMATION T tz = Some s"
  shows "(right (ObjToTIME_ZONE_INFORMATION T now valid old s) \<noteq> None \<longleftrightarrow>
      valid ((tz_StandardDate tz)\<lparr>wDayOfWeek := wDayOfWeek (tz_StandardDate old)\<rparr>) \<and>
      valid ((tz_DaylightDate tz)\<lparr>wDayOfWeek := wDayOfWeek (tz_DaylightDate old)\<rparr>)) \<and>
    (wMonth (tz_DaylightDate tz) = 0 \<longrightarrow> ObjToTIME_ZONE_INFORMATION T now valid old s = Inl BadFormat)"
proof -
  let ?n = "takeWhile (\<lambda>c. c \<noteq> 0) (tz_StandardName tz)" and ?d = "takeWhile (\<lambda>c. c \<noteq> 0) (tz_DaylightName tz)"
  let ?vs = "valid ((tz_StandardDate tz)\<lparr>wDayOfWeek := wDayOfWeek (tz_StandardDate old)\<rparr>)"
    and ?vd = "valid ((tz_DaylightDate tz)\<lparr>wDayOfWeek := wDayOfWeek (tz_DaylightDate old)\<rparr>)"
  let ?tz = "\<lambda>n d. \<lparr>tz_Bias = tz_Bias tz, tz_StandardName = wcscpy (tz_StandardName old) n,
      tz_StandardDate = (tz_StandardDate tz)\<lparr>wDayOfWeek := wDayOfWeek (tz_StandardDate old)\<rparr>,
      tz_StandardBias = tz_StandardBias tz, tz_DaylightName = wcscpy (tz_DaylightName old) d,
      tz_DaylightDate = (tz_DaylightDate tz)\<lparr>wDayOfWeek := wDayOfWeek (tz_DaylightDate old)\<rparr>,
      tz_DaylightBias = tz_DaylightBias tz\<rparr>"
  have nm: "w_chars T (w_string T ?n) = ?n" "w_chars T (w_string T ?d) = ?d" "length ?n < 32" "length ?d < 32"
    using names name_units by simp_all
  have lim: "limited ws 32 = Some (takeWhile (\<lambda>c. c \<noteq> 0) ws, if length (takeWhile (\<lambda>c. c \<noteq> 0) ws) = 32 then 0
      else 31 - int (length (takeWhile (\<lambda>c. c \<noteq> 0) ws)))" if "length ws = 32" for ws :: "16 word list"
    using that by (simp add: limited_def Let_def)
  have "t_list T s = Some [w_print T (tz_Bias tz), w_string T ?n, ObjFromSYSTEMTIME T (tz_StandardDate tz),
      w_print T (tz_StandardBias tz), w_string T ?d, ObjFromSYSTEMTIME T (tz_DaylightDate tz), w_print T (tz_DaylightBias tz)]"
    using s names by (auto simp: ObjFromTIME_ZONE_INFORMATION_def ObjFromWinCharsLimited_def lim wtcl_list [OF assms(1)])
  moreover have "t_int T (w_print T (tz_Bias tz)) = Some (tz_Bias tz)"
    "t_int T (w_print T (tz_StandardBias tz)) = Some (tz_StandardBias tz)"
    "t_int T (w_print T (tz_DaylightBias tz)) = Some (tz_DaylightBias tz)"
    using ints wtcl_int [OF assms(1)] by simp_all
  ultimately have r: "ObjToTIME_ZONE_INFORMATION T now valid old s = (if ?vs \<and> ?vd then Inr (?tz ?n ?d) else Inl BadFormat)"
    using nm by (simp add: ObjToTIME_ZONE_INFORMATION_def wtcl_read_times [OF assms(1)])
  have "wMonth (tz_DaylightDate tz) = 0 \<Longrightarrow> \<not> ?vd" using assms(2) by fastforce
  then show ?thesis unfolding r by simp
qed

definition demo_zone :: TIME_ZONE_INFORMATION where
  "demo_zone = \<lparr>tz_Bias = -60, tz_StandardName = 65 # replicate 31 0, tz_StandardDate = demo_time\<lparr>wMonth := 0\<rparr>,
     tz_StandardBias = 0, tz_DaylightName = 66 # replicate 31 0, tz_DaylightDate = demo_time\<lparr>wMonth := 0\<rparr>, tz_DaylightBias = 0\<rparr>"

theorem time_zone_readable_iff_witness:
  "\<exists>s. ObjFromTIME_ZONE_INFORMATION demo_wtcl demo_zone = Some s \<and>
     ObjToTIME_ZONE_INFORMATION demo_wtcl demo_time (\<lambda>t. wMonth t \<noteq> 0) demo_zone s = Inl BadFormat"
proof -
  have u: "wMonth (tz_DaylightDate demo_zone) = 0" by (simp add: demo_zone_def)
  have n: "\<forall>ws \<in> {tz_StandardName demo_zone, tz_DaylightName demo_zone}. length ws = 32 \<and> 0 \<in> set ws \<and>
      w_chars demo_wtcl (w_string demo_wtcl (takeWhile (\<lambda>c. c \<noteq> 0) ws)) = takeWhile (\<lambda>c. c \<noteq> 0) ws"
    by (simp add: demo_zone_def demo_units_def takeWhile_replicate)
  obtain s where s: "ObjFromTIME_ZONE_INFORMATION demo_wtcl demo_zone = Some s"
    by (simp add: ObjFromTIME_ZONE_INFORMATION_def ObjFromWinCharsLimited_def limited_def demo_zone_def Let_def)
  show ?thesis
    using time_zone_readable_iff [OF demo_wtcl_law _ _ n s, where valid = "\<lambda>t. wMonth t \<noteq> 0" and now = demo_time and old = demo_zone]
      s u by (simp add: demo_zone_def)
qed

end
