(* ===== verification/Secdesc_Props.thy ===== *)
theory Secdesc_Props
  imports Secdesc Winval_Props
begin

text \<open>
  What of \<open>Secdesc\<close> comes back as it was written, and what does not: access control lists, LSA strings, and the
  entries and descriptors on which the code fails.
\<close>

section \<open>The conversions of Tcl and of the system\<close>

definition stcl_law :: "'a stcl \<Rightarrow> bool" where
  "stcl_law T \<longleftrightarrow> (\<forall>xs. t_list T (t_mklist T xs) = Some xs) \<and> (\<forall>x y. t_mklist T [x, y] \<noteq> ''null'') \<and>
     (\<forall>n. 0 \<le> n \<longrightarrow> n < 2 ^ 31 \<longrightarrow> t_int T (w_print T n) = Some n) \<and>
     (\<forall>n. 0 \<le> n \<longrightarrow> n < 2 ^ 32 \<longrightarrow> s_long T (w_print T n) = Some n) \<and> s_required T \<le> 1000 \<and> 4 dvd s_required T"

lemma stcl_laws:
  assumes "stcl_law T"
  shows "t_list T (t_mklist T xs) = Some xs" "t_mklist T [x, y] \<noteq> ''null''"
    "0 \<le> n \<Longrightarrow> n < 2 ^ 31 \<Longrightarrow> t_int T (w_print T n) = Some n" "0 \<le> n \<Longrightarrow> n < 2 ^ 32 \<Longrightarrow> s_long T (w_print T n) = Some n"
    "s_required T \<le> 1000" "4 dvd s_required T"
  using assms by (simp_all add: stcl_law_def)

text \<open>
  A string that the system converts to an identifier, and the string that it prints for it: another one when the first is an
  alias. What is a valid identifier, how long it is and how it is printed does not depend on the bytes behind it.
\<close>

definition sid_of :: "'a stcl \<Rightarrow> string \<Rightarrow> bytes" where
  "sid_of T s = (case s_parse T s of None \<Rightarrow> [] | Some b \<Rightarrow> b)"

definition printed :: "'a stcl \<Rightarrow> string \<Rightarrow> string" where
  "printed T s = (case s_print T (sid_of T s) of None \<Rightarrow> [] | Some s' \<Rightarrow> s')"

definition good_sid :: "'a stcl \<Rightarrow> string \<Rightarrow> bool" where
  "good_sid T s \<longleftrightarrow> s_parse T s \<noteq> None \<and> length (sid_of T s) \<le> s_required T \<and>
     (\<forall>n. length (sid_of T s) \<le> n \<longrightarrow> s_copy T n (sid_of T s)) \<and>
     (\<forall>r. s_valid T (sid_of T s @ r) \<and> s_len T (sid_of T s @ r) = length (sid_of T s) \<and>
        s_print T (sid_of T s @ r) = Some (printed T s))"

lemma TwapiSidFromStringSWS_good: "good_sid T s \<Longrightarrow> TwapiSidFromStringSWS T s = Some (sid_of T s)"
proof -
  assume g: "good_sid T s"
  then obtain y where y: "s_parse T s = Some y" "sid_of T s = y" by (auto simp: good_sid_def sid_of_def)
  with g have "\<forall>r. s_len T (y @ r) = length y" "s_copy T (length y) y" by (simp_all add: good_sid_def)
  then have "s_len T y = length y" "s_copy T (length y) y" using append_Nil2 [of y] by metis+
  with y show ?thesis by (simp add: TwapiSidFromStringSWS_def Let_def)
qed

text \<open>
  An entry with an access mask as the system takes it into a list: it states its own size, a multiple of four, and holds a valid
  identifier behind the mask.
\<close>

definition mask_entry :: "'a stcl \<Rightarrow> bytes \<Rightarrow> bool" where
  "mask_entry T a \<longleftrightarrow> (\<exists>ty. byte_at a 0 = Some ty \<and> mask_ace ty) \<and> ace_size a = Some (length a) \<and> 4 dvd length a \<and>
     s_valid T (drop 8 a) \<and> 8 + s_len T (drop 8 a) \<le> length a"

definition AddAce :: "'a stcl \<Rightarrow> nat \<Rightarrow> 'a option \<Rightarrow> bytes \<Rightarrow> 'a option" where
  "AddAce T revision acl a =
     Option.bind acl (\<lambda>x. if s_acl_refuses T x revision (length a) (take 4 a) then None else s_acl_add T x revision a)"

text \<open>
  Such entries can be added to a list of revision \<open>ACL_REVISION\<close> that was made large enough, of less than 64 KB, and the list is
  valid and has them in order.
\<close>

definition acl_law :: "'a stcl \<Rightarrow> bool" where
  "acl_law T \<longleftrightarrow> (\<forall>aces. SIZEOF_ACL + sum_list (map length aces) < 2 ^ 16 \<longrightarrow> (\<forall>a \<in> set aces. mask_entry T a) \<longrightarrow>
     (\<exists>acl. foldl (AddAce T ACL_REVISION) (Some (s_acl_init T (SIZEOF_ACL + sum_list (map length aces)) ACL_REVISION)) aces = Some acl \<and>
        s_acl_valid T acl \<and> s_acl_info T acl = Some (ACL_REVISION, length aces) \<and>
        (\<forall>i < length aces. \<exists>r. s_acl_get T acl i = Some (aces ! i @ r))))"

section \<open>Little-endian fields\<close>

lemma length_le [simp]: "length (le n v) = n"
  by (simp add: le_def)

lemma le_sum: "(\<Sum>i<n. uint (word_of_int (v div 256 ^ i) :: 8 word) * 256 ^ i) = v mod 256 ^ n"
proof (induction n)
  case (Suc n)
  have "uint (word_of_int (v div 256 ^ n) :: 8 word) = v div 256 ^ n mod 256"
    by (simp add: uint_word_of_int)
  moreover have "v mod 256 ^ Suc n = 256 ^ n * (v div 256 ^ n mod 256) + v mod 256 ^ n"
    using zmod_zmult2_eq [of 256 v "256 ^ n"] by (simp add: mult.commute)
  ultimately show ?case using Suc by simp
qed simp

lemma read_le_le: "0 \<le> v \<Longrightarrow> v < 256 ^ n \<Longrightarrow> read_le (le n v @ r) n = Some v"
proof -
  assume v: "0 \<le> v" "v < 256 ^ n"
  have "(\<Sum>i<n. uint ((le n v @ r) ! i) * 256 ^ i) = (\<Sum>i<n. uint (word_of_int (v div 256 ^ i) :: 8 word) * 256 ^ i)"
    by (rule sum.cong) (simp_all add: le_def nth_append)
  then show ?thesis using v by (simp add: read_le_def le_sum)
qed

lemma byte_at_le: "byte_at (a @ le 1 v @ r) (length a) = Some (v mod 256)"
  by (simp add: byte_at_def le_def uint_word_of_int)

lemma over_append: "length a = i \<Longrightarrow> over (a @ r) i bs = a @ bs @ drop (length bs) r"
  by (simp add: over_def)

section \<open>Entries with an access mask\<close>

text \<open>Type, flags, access mask and the string of the identifier; as a Tcl list and in memory.\<close>

type_synonym entry = "int \<times> int \<times> int \<times> string"

fun entry_text :: "'a stcl \<Rightarrow> entry \<Rightarrow> string" where
  "entry_text T (ty, fl, access, s) = t_mklist T [w_print T ty, w_print T fl, w_print T access, s]"

text \<open>What is stored of it: the flags are cut off to a byte, and an alias is replaced by its identifier.\<close>

fun stored :: "'a stcl \<Rightarrow> entry \<Rightarrow> entry" where
  "stored T (ty, fl, access, s) = (ty, fl mod 256, access, printed T s)"

fun good_entry :: "'a stcl \<Rightarrow> entry \<Rightarrow> bool" where
  "good_entry T (ty, fl, access, s) \<longleftrightarrow> mask_ace ty \<and> 0 \<le> fl \<and> fl < 2 ^ 31 \<and> 0 \<le> access \<and> access < 2 ^ 32 \<and> good_sid T s"

definition entry_size :: "'a stcl \<Rightarrow> nat" where
  "entry_size T = s_required T + SIZEOF_ACCESS_ALLOWED_ACE"

fun entry_mem :: "'a stcl \<Rightarrow> (nat \<Rightarrow> 8 word) \<Rightarrow> entry \<Rightarrow> bytes" where
  "entry_mem T junk (ty, fl, access, s) =
     le 1 ty @ le 1 fl @ le 2 (int (entry_size T)) @ le 4 access @ sid_of T s @
     drop (8 + length (sid_of T s)) (map junk [0..<entry_size T])"

lemma mask_ace_range: "mask_ace ty \<Longrightarrow> 0 \<le> ty \<and> ty < 256 \<and> \<not> ds_ace ty"
  by (auto simp: mask_ace_def ds_ace_def ace_types)

lemma length_entry_mem: "good_entry T e \<Longrightarrow> length (entry_mem T junk e) = entry_size T"
  by (cases e) (auto simp: good_sid_def entry_size_def SIZEOF_ACCESS_ALLOWED_ACE_def)

lemma entry_fields:
  assumes "stcl_law T" "good_entry T (ty, fl, access, s)"
  shows "byte_at (entry_mem T junk (ty, fl, access, s) @ r) 0 = Some ty"
    "byte_at (entry_mem T junk (ty, fl, access, s) @ r) 1 = Some (fl mod 256)"
    "ace_size (entry_mem T junk (ty, fl, access, s) @ r) = Some (entry_size T)"
    "read_le (drop 4 (entry_mem T junk (ty, fl, access, s) @ r)) 4 = Some access"
    "drop 8 (entry_mem T junk (ty, fl, access, s) @ r) =
       sid_of T s @ drop (8 + length (sid_of T s)) (map junk [0..<entry_size T]) @ r"
proof -
  have ty: "0 \<le> ty" "ty < 256" using assms(2) mask_ace_range by auto
  show "byte_at (entry_mem T junk (ty, fl, access, s) @ r) 0 = Some ty"
    using byte_at_le [of "[]" ty] ty by simp
  show "byte_at (entry_mem T junk (ty, fl, access, s) @ r) 1 = Some (fl mod 256)"
    using byte_at_le [of "le 1 ty" fl] by simp
  have "entry_size T < 256 ^ 2" using stcl_laws(5) [OF assms(1)] by (simp add: entry_size_def SIZEOF_ACCESS_ALLOWED_ACE_def)
  then show "ace_size (entry_mem T junk (ty, fl, access, s) @ r) = Some (entry_size T)"
    using read_le_le [of "int (entry_size T)" 2] by (simp add: ace_size_def)
  show "read_le (drop 4 (entry_mem T junk (ty, fl, access, s) @ r)) 4 = Some access"
    using read_le_le [of access 4] assms(2) by simp
  show "drop 8 (entry_mem T junk (ty, fl, access, s) @ r) =
       sid_of T s @ drop (8 + length (sid_of T s)) (map junk [0..<entry_size T]) @ r" by simp
qed

lemma ace_size_entry: "stcl_law T \<Longrightarrow> good_entry T e \<Longrightarrow> ace_size (entry_mem T junk e) = Some (entry_size T)"
  using entry_fields(3) [where r = "[]"] by (cases e) (simp del: entry_mem.simps)

lemma mask_entry_mem:
  assumes "stcl_law T" "good_entry T e"
  shows "mask_entry T (entry_mem T junk e)"
proof -
  obtain ty fl access s where e: "e = (ty, fl, access, s)" by (cases e)
  note f = entry_fields [OF assms(1) assms(2) [unfolded e], of junk "[]", unfolded append_Nil2, folded e]
  note len = length_entry_mem [OF assms(2), of junk]
  let ?r = "drop (8 + length (sid_of T s)) (map junk [0..<entry_size T])"
  have "s_valid T (sid_of T s @ ?r) \<and> s_len T (sid_of T s @ ?r) = length (sid_of T s)" "length (sid_of T s) \<le> s_required T"
    using assms(2) by (simp_all add: e good_sid_def)
  moreover have "4 dvd entry_size T" using stcl_laws(6) [OF assms(1)] by (simp add: entry_size_def SIZEOF_ACCESS_ALLOWED_ACE_def)
  moreover have "mask_ace ty" using assms(2) by (simp add: e)
  ultimately show ?thesis using f(1,3,5) by (simp add: mask_entry_def len) (simp add: entry_size_def SIZEOF_ACCESS_ALLOWED_ACE_def)
qed

lemma ObjToACESWS_entry:
  assumes "stcl_law T" "good_entry T e"
  shows "ObjToACESWS T junk (entry_text T e) = Inr (entry_mem T junk e)"
proof -
  obtain ty fl access s where e: "e = (ty, fl, access, s)" by (cases e)
  note g = assms(2) [unfolded e]
  have ty: "0 \<le> ty" "ty < 256" using g mask_ace_range by auto
  have ints: "t_int T (w_print T ty) = Some ty" "t_int T (w_print T fl) = Some fl" "s_long T (w_print T access) = Some access"
    using g ty by (simp_all add: stcl_laws [OF assms(1)])
  let ?sz = "entry_size T" and ?b = "sid_of T s"
  have small: "?sz < 2 ^ 16" using stcl_laws(5) [OF assms(1)] by (simp add: entry_size_def SIZEOF_ACCESS_ALLOWED_ACE_def)
  have copy: "s_copy T (nat (int ?sz mod 2 ^ 16) - SIZEOF_ACCESS_ALLOWED_ACE + 4) ?b"
  proof -
    have "nat (int ?sz mod 2 ^ 16) = ?sz" using small by simp
    moreover have "length ?b \<le> ?sz - SIZEOF_ACCESS_ALLOWED_ACE + 4" using g by (simp add: good_sid_def entry_size_def)
    ultimately show ?thesis using g by (simp add: good_sid_def)
  qed
  define m0 where "m0 = map junk [0..<?sz]"
  define h where "h = le 1 ty @ le 1 fl @ le 2 (int ?sz)"
  have h: "length h = 4" by (simp add: h_def)
  have "over m0 0 h = h @ drop 4 m0" by (simp add: over_def h)
  then have "over (over (over m0 0 h) 4 (le 4 access)) 8 ?b = h @ le 4 access @ ?b @ drop (8 + length ?b) m0"
    using over_append [OF h, of "drop 4 m0" "le 4 access"] over_append [of "h @ le 4 access" 8 "drop 8 m0" ?b] h
    by (simp add: add.commute)
  then have mem: "over (over (over m0 0 (le 1 ty @ le 1 fl @ le 2 (int ?sz))) 4 (le 4 access)) 8 ?b = entry_mem T junk e"
    by (simp add: h_def m0_def e)
  show ?thesis
    using g ints copy mem TwapiSidFromStringSWS_good [of T s]
    by (simp add: e ObjToACESWS_def stcl_laws(1) [OF assms(1)] Let_def flip: entry_size_def m0_def)
qed

lemma ObjFromACE_entry:
  assumes "stcl_law T" "good_entry T e"
  shows "ObjFromACE T (Some (entry_mem T junk e @ r)) = Some (Inr (entry_text T (stored T e)))"
proof -
  obtain ty fl access s where e: "e = (ty, fl, access, s)" by (cases e)
  note g = assms(2) [unfolded e]
  have "s_print T (sid_of T s @ x) = Some (printed T s)" for x using g by (simp add: good_sid_def)
  then show ?thesis
    using g entry_fields [OF assms(1) g] unfolding e
    by (simp add: ObjFromACE_def with_sid_def ObjFromSID_def del: entry_mem.simps)
qed

section \<open>Lists of entries\<close>

lemma conv_all_Inr: "\<forall>x \<in> set xs. f (h x) = Some (Inr (g x)) \<Longrightarrow> conv_all f (map h xs) = Some (Inr (map g xs))"
  by (induction xs) simp_all

lemma conv_all_nth:
  assumes "\<forall>i < length ys. f i = Some (Inr (ys ! i))"
  shows "conv_all f [0..<length ys] = Some (Inr ys)"
  using conv_all_Inr [of "[0..<length ys]" f "\<lambda>i. i" "\<lambda>i. ys ! i"] assms by (simp add: map_nth)

lemma read_ace_entry:
  assumes "stcl_law T" "good_entry T e"
  shows "read_ace T junk (entry_text T e) = Some (Inr (entry_mem T junk e, entry_size T, fst e))"
  using ObjToACESWS_entry [OF assms] entry_fields(1,3) [of T _ _ _ _ junk "[]"] assms
  by (cases e) (simp add: read_ace_def del: entry_mem.simps entry_text.simps)

lemma AddAce_None: "foldl (AddAce T revision) None xs = None"
  by (induction xs) (simp_all add: AddAce_def)

lemma AddAce_Some:
  "AddAce T revision (Some x) a = (if s_acl_refuses T x revision (length a) (take 4 a) then None else s_acl_add T x revision a)"
  by (simp add: AddAce_def)

lemma add_aces_fold:
  assumes "\<forall>(m, n, _) \<in> set aces. length m = n"
  shows "add_aces T revision aces acl =
    Some (case foldl (AddAce T revision) (Some acl) (map fst aces) of None \<Rightarrow> Inl System | Some a \<Rightarrow> Inr a)"
  using assms
proof (induction aces arbitrary: acl)
  case (Cons a aces)
  obtain m n ty where a: "a = (m, n, ty)" by (cases a)
  show ?case using Cons AddAce_None [of T revision]
    by (cases "s_acl_add T acl revision m") (auto simp: a mem_from_def AddAce_Some)
qed simp

text \<open>
  C34. An access control list of less than 64 KB whose entries have an access mask and identifiers that the system knows is built
  without a read beyond an entry, whatever the new memory held before. Converting the list back gives its entries in order, with
  the revision of such lists, the flags modulo 256 and the identifiers as the system prints them: the value it was built from,
  when the flags are at most 255 and no identifier is given by an alias.\<close>

theorem acl_roundtrip:
  assumes "stcl_law T" "acl_law T" "\<forall>e \<in> set es. good_entry T e"
    "SIZEOF_ACL + length es * (s_required T + SIZEOF_ACCESS_ALLOWED_ACE) < 2 ^ 16"
  shows "\<exists>acl. ObjToPACLSWS T junk (t_mklist T [v, t_mklist T (map (entry_text T) es)]) = Some (Inr (Some acl)) \<and>
    ObjFromACL T (Some acl) = Some (Inr (t_mklist T [w_print T (int ACL_REVISION), t_mklist T (map (\<lambda>e. entry_text T (stored T e)) es)]))"
proof -
  let ?again = "\<lambda>e. entry_text T (stored T e)"
  let ?mems = "map (entry_mem T junk) es"
  define aces where "aces = map (\<lambda>e. (entry_mem T junk e, entry_size T, fst e)) es"
  have read: "conv_all (read_ace T junk) (map (entry_text T) es) = Some (Inr aces)"
    unfolding aces_def using assms(1,3) read_ace_entry by (intro conv_all_Inr) blast
  have lens: "\<forall>e \<in> set es. length (entry_mem T junk e) = entry_size T" using assms(3) length_entry_mem by blast
  then have len: "length m = entry_size T" if "m \<in> set ?mems" for m using that unfolding set_map by blast
  have "map length ?mems = map (\<lambda>_. entry_size T) es" using lens by simp
  then have "sum_list (map length ?mems) = sum_list (map (\<lambda>_. entry_size T) es)" by (simp only:)
  then have total: "sum_list (map length ?mems) = length es * entry_size T"
    "sum_list (map (\<lambda>(_, sz, _). sz) aces) = length es * entry_size T"
    by (simp_all add: sum_list_triv aces_def comp_def)
  have good: "\<forall>a \<in> set ?mems. mask_entry T a" using assms(3) mask_entry_mem [OF assms(1)] unfolding set_map by blast
  have rev2: "\<not> (\<exists>(_, _, ty) \<in> set aces. ds_ace ty)" using assms(3) mask_ace_range by (auto simp: aces_def)
  obtain acl where acl: "foldl (AddAce T ACL_REVISION)
      (Some (s_acl_init T (SIZEOF_ACL + length es * entry_size T) ACL_REVISION)) ?mems = Some acl"
    "s_acl_valid T acl" "s_acl_info T acl = Some (ACL_REVISION, length es)"
    "\<forall>i < length es. \<exists>r. s_acl_get T acl i = Some (?mems ! i @ r)"
  proof -
    have "SIZEOF_ACL + sum_list (map length ?mems) < 2 ^ 16"
      using assms(4) unfolding total(1) entry_size_def .
    then have "\<exists>acl. foldl (AddAce T ACL_REVISION)
        (Some (s_acl_init T (SIZEOF_ACL + sum_list (map length ?mems)) ACL_REVISION)) ?mems = Some acl \<and>
      s_acl_valid T acl \<and> s_acl_info T acl = Some (ACL_REVISION, length ?mems) \<and>
      (\<forall>i < length ?mems. \<exists>r. s_acl_get T acl i = Some (?mems ! i @ r))"
      using assms(2) [unfolded acl_law_def, rule_format, of ?mems] good by blast
    then show thesis using that unfolding total(1) length_map by blast
  qed
  have "add_aces T ACL_REVISION aces (s_acl_init T (SIZEOF_ACL + length es * entry_size T) ACL_REVISION) = Some (Inr acl)"
    using acl(1) len by (subst add_aces_fold) (auto simp: aces_def comp_def)
  then have "ObjToPACLSWS T junk (t_mklist T [v, t_mklist T (map (entry_text T) es)]) = Some (Inr (Some acl))"
    using read rev2 acl(2) total(2) by (simp add: ObjToPACLSWS_def stcl_laws [OF assms(1)] Let_def)
  moreover have all: "\<forall>i < length (map ?again es).
      (case s_acl_get T acl i of None \<Rightarrow> Some (Inl System) | Some m \<Rightarrow> ObjFromACE T (Some m)) = Some (Inr (map ?again es ! i))"
  proof (intro allI impI)
    fix i
    assume i: "i < length (map ?again es)"
    then obtain r where "s_acl_get T acl i = Some (entry_mem T junk (es ! i) @ r)" using acl(4) by (metis length_map nth_map)
    moreover have "good_entry T (es ! i)" using assms(3) i by (metis length_map nth_mem)
    ultimately show "(case s_acl_get T acl i of None \<Rightarrow> Some (Inl System) | Some m \<Rightarrow> ObjFromACE T (Some m)) =
        Some (Inr (map ?again es ! i))"
      using ObjFromACE_entry [OF assms(1), of "es ! i" junk r] i
      by (simp del: entry_mem.simps entry_text.simps good_entry.simps stored.simps)
  qed
  have "ObjFromACL T (Some acl) = Some (Inr (t_mklist T [w_print T (int ACL_REVISION), t_mklist T (map ?again es)]))"
    using conv_all_nth [OF all] acl(3) by (simp add: ObjFromACL_def)
  ultimately show ?thesis by blast
qed

section \<open>What is not read back\<close>

lemma object_types_two: "object_types T m flags = Some (gs, n) \<Longrightarrow> length gs = 2"
  by (auto simp: object_types_def bind_eq_Some_conv split: if_splits)

lemma ObjFromACE_object:
  assumes "byte_at m 0 = Some ty" "object_ace ty" "ObjFromACE T (Some m) = Some (Inr s)"
  shows "\<exists>f xs. s = t_mklist T (w_print T ty # w_print T f # xs) \<and> length xs = 4 \<and> byte_at m 1 = Some f"
proof -
  have "\<not> mask_ace ty" using assms(2) by (auto simp: object_ace_def mask_ace_def ace_types)
  then obtain f access guids off where f: "byte_at m 1 = Some f" "length guids = 2"
    "map_sum id (t_mklist T) (with_sid T (w_print T ty # w_print T f # w_print T access # guids) (drop off m)) = Inr s"
    using assms object_types_two by (fastforce simp: ObjFromACE_def bind_eq_Some_conv)
  then show ?thesis
    by (cases "ObjFromSID T (drop off m)") (auto simp: with_sid_def)
qed

text \<open>
  C40. An entry of another type is given as its bytes, and its size is taken from them: when the size field says more than was allocated, the
  entry is read beyond its memory, unless \<open>AddAce\<close> refuses the list, the length or the header of the entry before it reads the rest. An object entry, which is converted to a list of six elements, is never read back.\<close>

theorem other_entries_fail:
  assumes "stcl_law T" "0 \<le> ty" "ty < 2 ^ 31" "0 \<le> fl" "fl < 2 ^ 31" "\<not> mask_ace ty"
    "4 \<le> length (s_getbytes T x)" "ace_size (s_getbytes T x) = Some sz" "s_required T + length (s_getbytes T x) < sz"
  shows "ObjToPACLSWS T junk (t_mklist T [v, t_mklist T [t_mklist T [w_print T ty, w_print T fl, x]]]) =
      (let revision = (if ds_ace (uint (hd (s_getbytes T x))) then ACL_REVISION_DS else ACL_REVISION)
       in if s_acl_refuses T (s_acl_init T (SIZEOF_ACL + sz) revision) revision sz (take 4 (s_getbytes T x))
          then Some (Inl System) else None) \<and>
    (\<forall>m s. byte_at m 0 = Some ty \<and> object_ace ty \<and> ObjFromACE T (Some m) = Some (Inr s) \<longrightarrow>
      ObjToACESWS T junk s = Inl (Format ''Invalid ACE format.''))"
proof (intro conjI allI impI)
  note laws = stcl_laws [OF assms(1)]
  let ?e = "t_mklist T [w_print T ty, w_print T fl, x]" and ?bin = "s_getbytes T x"
  let ?m = "over (map junk [0..<s_required T + length ?bin]) 0 ?bin"
  have e: "ObjToACESWS T junk ?e = Inr ?m" using assms by (simp add: ObjToACESWS_def laws Let_def)
  have m: "?m = ?bin @ drop (length ?bin) (map junk [0..<s_required T + length ?bin])" by (simp add: over_def)
  have sz: "ace_size ?m = Some sz"
    using assms(7,8) unfolding m by (auto simp: ace_size_def read_le_def nth_append split: if_splits)
  have "?bin \<noteq> []" using assms(7) by auto
  then have b: "byte_at ?m 0 = Some (uint (hd ?bin))" unfolding m by (simp add: byte_at_def nth_append hd_conv_nth)
  have hdr: "take 4 ?m = take 4 ?bin" using assms(7) unfolding m by simp
  have "mem_from ?m 0 sz = None" using assms(9) unfolding m by (simp add: mem_from_def)
  then show "ObjToPACLSWS T junk (t_mklist T [v, t_mklist T [?e]]) =
      (let revision = (if ds_ace (uint (hd ?bin)) then ACL_REVISION_DS else ACL_REVISION)
       in if s_acl_refuses T (s_acl_init T (SIZEOF_ACL + sz) revision) revision sz (take 4 ?bin) then Some (Inl System) else None)"
    using e sz b hdr by (simp add: ObjToPACLSWS_def read_ace_def laws Let_def)
next
  note laws = stcl_laws [OF assms(1)]
  fix m s
  assume a: "byte_at m 0 = Some ty \<and> object_ace ty \<and> ObjFromACE T (Some m) = Some (Inr s)"
  then obtain f xs where xs: "s = t_mklist T (w_print T ty # w_print T f # xs)" "length xs = 4" "byte_at m 1 = Some f"
    using ObjFromACE_object [of m ty T s] by blast
  have "0 \<le> f" "f < 2 ^ 31" using xs(3) uint_lt2p [of "m ! 1"] by (auto simp: byte_at_def split: if_splits)
  then show "ObjToACESWS T junk s = Inl (Format ''Invalid ACE format.'')"
    using assms(2,3,6) xs by (simp add: ObjToACESWS_def laws)
qed

text \<open>
  A descriptor one of whose lists cannot be converted crashes the conversion once every call of the system has succeeded: the
  missing element goes into the result list.\<close>

theorem descriptor_with_bad_list_crashes:
  assumes "v_control v = Some (control, SECURITY_DESCRIPTOR_REVISION)" "v_owner v = Some None" "v_group v = Some None"
    "v_dacl v = Some (True, Some acl)" "v_sacl v \<noteq> None" "ObjFromACL T (Some acl) = Some (Inl e)"
  shows "ObjFromSECURITY_DESCRIPTOR T (Some v) = None"
proof -
  obtain sp sa where "v_sacl v = Some (sp, sa)" using assms(5) by auto
  then show ?thesis
    using assms by (cases "ObjFromACL T (if sp then sa else None)") (simp_all add: ObjFromSECURITY_DESCRIPTOR_def sid_field_def)
qed

text \<open>
  Strings of up to 32767 UTF-16 units go through an LSA string unchanged, alone or in an array, which refuses longer ones. A single
  longer string is cut off silently: its length is kept modulo 65536 bytes.\<close>

theorem lsa_roundtrip:
  assumes "t_list T s = Some xs"
  shows "ObjFromLSA_UNICODE_STRING T (ObjToLSA_UNICODE_STRING T x) =
      Some (w_string T (take (length (w_chars T x) mod 32768) (w_chars T x))) \<and>
    (case ObjToLSASTRINGARRAYSWS T s of
       Inl _ \<Rightarrow> \<exists>y \<in> set xs. 32767 \<le> length (w_chars T y)
     | Inr us \<Rightarrow> map (ObjFromLSA_UNICODE_STRING T) us = map (\<lambda>y. Some (w_string T (w_chars T y))) xs)"
proof
  have single: "ObjFromLSA_UNICODE_STRING T (w @ [0], of_nat (2 * length w)) = Some (w_string T (take (length w mod 32768) w))" for w
  proof -
    have "unat (of_nat n :: 16 word) = n mod 65536" for n by (simp add: unat_of_nat)
    from this [of "2 * length w"] have "unat (of_nat (2 * length w) :: 16 word) = 2 * (length w mod 32768)"
      using mult_mod_right [of 2 "length w" 32768] by (simp only: mult_numeral_left_semiring_numeral) simp
    moreover have "length w mod 32768 \<le> length w" by simp
    ultimately show ?thesis by (simp add: ObjFromLSA_UNICODE_STRING_def Let_def)
  qed
  then show "ObjFromLSA_UNICODE_STRING T (ObjToLSA_UNICODE_STRING T x) =
      Some (w_string T (take (length (w_chars T x) mod 32768) (w_chars T x)))"
    by (simp add: ObjToLSA_UNICODE_STRING_def)
  have "case lsa_strings T ys of
       Inl _ \<Rightarrow> \<exists>y \<in> set ys. 32767 \<le> length (w_chars T y)
     | Inr us \<Rightarrow> map (ObjFromLSA_UNICODE_STRING T) us = map (\<lambda>y. Some (w_string T (w_chars T y))) ys" for ys
    using single by (induction ys) (auto simp: Let_def split: sum.splits)
  then show "case ObjToLSASTRINGARRAYSWS T s of
       Inl _ \<Rightarrow> \<exists>y \<in> set xs. 32767 \<le> length (w_chars T y)
     | Inr us \<Rightarrow> map (ObjFromLSA_UNICODE_STRING T) us = map (\<lambda>y. Some (w_string T (w_chars T y))) xs"
    using assms by (simp add: ObjToLSASTRINGARRAYSWS_def)
qed

section \<open>An instance\<close>

text \<open>One identifier, of everyone, and lists that hold whatever is added.\<close>

definition everyone :: bytes where
  "everyone = [1, 1, 0, 0, 0, 0, 0, 1, 0, 0, 0, 0]"

definition demo_stcl :: "(nat \<times> bytes list) stcl" where
  "demo_stcl = wtcl.extend demo_wtcl
     \<lparr>s_long = count_strokes, s_bytes = map (\<lambda>b. char_of (unat b)), s_getbytes = map (\<lambda>c. of_nat (of_char c)),
      s_guid = (\<lambda>_. ''{}''), s_parse = (\<lambda>s. if s = ''S-1-1-0'' then Some everyone else None),
      s_print = (\<lambda>m. if take 12 m = everyone then Some ''S-1-1-0'' else None), s_valid = (\<lambda>m. take 12 m = everyone),
      s_len = (\<lambda>_. 12), s_required = 68, s_copy = (\<lambda>n _. 12 \<le> n), s_acl_init = (\<lambda>_ r. (r, [])), s_acl_refuses = (\<lambda>_ _ n _. 2 ^ 16 \<le> SIZEOF_ACL + n),
      s_acl_add = (\<lambda>acl _ a. Some (fst acl, snd acl @ [a])), s_acl_valid = (\<lambda>_. True),
      s_acl_info = (\<lambda>acl. Some (fst acl, length (snd acl))),
      s_acl_get = (\<lambda>acl i. if i < length (snd acl) then Some (snd acl ! i) else None)\<rparr>"

lemma demo_stcl_simps [simp]:
  "t_list demo_stcl = dec []" "t_mklist demo_stcl = enc" "t_int demo_stcl = count_strokes" "w_print demo_stcl = strokes"
  "w_chars demo_stcl = w_chars demo_wtcl" "w_string demo_stcl = w_string demo_wtcl"
  "s_long demo_stcl = count_strokes" "s_getbytes demo_stcl = map (\<lambda>c. of_nat (of_char c))" "s_required demo_stcl = 68"
  "s_parse demo_stcl = (\<lambda>s. if s = ''S-1-1-0'' then Some everyone else None)" "s_len demo_stcl = (\<lambda>_. 12)"
  "s_print demo_stcl = (\<lambda>m. if take 12 m = everyone then Some ''S-1-1-0'' else None)" "s_copy demo_stcl = (\<lambda>n _. 12 \<le> n)"
  "s_acl_init demo_stcl = (\<lambda>_ r. (r, []))" "s_acl_refuses demo_stcl = (\<lambda>_ _ n _. 2 ^ 16 \<le> SIZEOF_ACL + n)"
  "s_valid demo_stcl = (\<lambda>m. take 12 m = everyone)"
  "s_acl_add demo_stcl = (\<lambda>acl _ a. Some (fst acl, snd acl @ [a]))"
  "s_acl_valid demo_stcl = (\<lambda>_. True)" "s_acl_info demo_stcl = (\<lambda>acl. Some (fst acl, length (snd acl)))"
  "s_acl_get demo_stcl = (\<lambda>acl i. if i < length (snd acl) then Some (snd acl ! i) else None)"
  by (simp_all add: demo_stcl_def wtcl.defs tcl.defs demo_wtcl_def demo_tcl_def)

lemma demo_stcl_law: "stcl_law demo_stcl"
proof -
  have "enc [x, y] \<noteq> ''null''" for x y by (cases x) simp_all
  then show ?thesis by (simp add: stcl_law_def dec_enc count_strokes_print)
qed

lemma demo_acl_law: "acl_law demo_stcl"
proof -
  have "foldl (AddAce demo_stcl ACL_REVISION) (Some (r, bs)) as = Some (r, bs @ as)"
    if "SIZEOF_ACL + sum_list (map length as) < 2 ^ 16" for r :: nat and as bs :: "bytes list"
    using that
  proof (induction as arbitrary: bs)
    case (Cons a as)
    then have "SIZEOF_ACL + sum_list (map length as) < 2 ^ 16" "SIZEOF_ACL + length a < 2 ^ 16" by simp_all
    then show ?case using Cons.IH [of "bs @ [a]"] by (simp add: AddAce_Some)
  qed simp
  then show ?thesis by (simp add: acl_law_def)
qed

lemma demo_good_sid: "good_sid demo_stcl ''S-1-1-0''" "printed demo_stcl ''S-1-1-0'' = ''S-1-1-0''"
  by (simp_all add: good_sid_def printed_def sid_of_def everyone_def)

theorem acl_roundtrip_witness:
  "\<exists>acl. ObjToPACLSWS demo_stcl (\<lambda>_. 9) (enc [''.'', enc [entry_text demo_stcl (1, 259, 0x1F01FF, ''S-1-1-0'')]]) = Some (Inr (Some acl)) \<and>
     ObjFromACL demo_stcl (Some acl) = Some (Inr (enc [strokes 2, enc [entry_text demo_stcl (1, 3, 0x1F01FF, ''S-1-1-0'')]]))"
  using acl_roundtrip [OF demo_stcl_law demo_acl_law, of "[(1, 259, 0x1F01FF, ''S-1-1-0'')]" "\<lambda>_. 9" "''.''"] demo_good_sid
  by (auto simp: mask_ace_def ace_types SIZEOF_ACL_def SIZEOF_ACCESS_ALLOWED_ACE_def ACL_REVISION_def simp del: entry_text.simps)

theorem other_entries_fail_witness:
  "ObjToPACLSWS demo_stcl (\<lambda>_. 9) (enc [''.'', enc [enc [strokes 9, strokes 0, ''abcd'']]]) = None"
proof -
  have "ace_size (s_getbytes demo_stcl ''abcd'') = Some 25699"
    by (simp add: ace_size_def read_le_def numeral_2_eq_2 take_bit_eq_mod)
  then show ?thesis
    using other_entries_fail [OF demo_stcl_law, of 9 0 "''abcd''" 25699 "\<lambda>_. 9" "''.''"] 
    by (simp add: mask_ace_def ace_types SIZEOF_ACL_def)
qed

theorem descriptor_with_bad_list_crashes_witness:
  "ObjFromSECURITY_DESCRIPTOR demo_stcl (Some \<lparr>v_control = Some (4, 1), v_owner = Some None, v_group = Some None,
     v_dacl = Some (True, Some (2, [[0, 0, 20, 0, 1, 0, 0, 0, 7]])), v_sacl = Some (False, None)\<rparr>) = None"
proof -
  have "ObjFromACL demo_stcl (Some (2, [[0, 0, 20, 0, 1, 0, 0, 0, 7]])) = Some (Inl System)"
    by (simp add: ObjFromACL_def ObjFromACE_def byte_at_def mask_ace_def ace_types read_le_def with_sid_def ObjFromSID_def everyone_def)
  then show ?thesis
    by (intro descriptor_with_bad_list_crashes [where control = 4 and e = System]) (simp_all add: SECURITY_DESCRIPTOR_REVISION_def)
qed

theorem lsa_roundtrip_witness:
  "ObjFromLSA_UNICODE_STRING demo_stcl (ObjToLSA_UNICODE_STRING demo_stcl (replicate 32768 (CHR ''a''))) = Some []"
proof -
  have c: "w_chars demo_stcl (replicate n (CHR ''a'')) = replicate n 97" for n by (induction n) (simp_all add: demo_units_def)
  have "t_list demo_stcl (enc []) = Some []" by simp
  from lsa_roundtrip [OF this, of "replicate 32768 (CHR ''a'')"] show ?thesis by (simp add: c del: demo_stcl_simps demo_wtcl_simps) simp
qed

end
