(* ===== verification/Cstruct.thy ===== *)
theory Cstruct
  imports Secdesc_Props Opaque
begin

text \<open>
  C structures described by scripts (\<open>base/ffi.c\<close>): the definition of a structure with the layout of its fields, the conversion
  of a Tcl list to the bytes of the structure and back, and the parameters of foreign calls.

  Sizes and offsets are 32-bit words, as in the code, with their wrap-around. A structure is written into a buffer, a list of bytes; an
  access outside of it has no result (the outer \<open>option\<close>).
\<close>

text \<open>
  \<open>c_w\<close>, \<open>c_o\<close>: the conversions of \<open>Winval\<close> and of \<open>Opaque\<close>. \<open>c_long\<close>: \<open>Tcl_GetLongFromObj\<close>; \<open>c_double\<close>, \<open>c_narrow\<close>: the bits of the number
  of a string, and the nearest number of single precision; \<open>c_str\<close>, \<open>c_wstr\<close>, \<open>c_sid\<close>: the address of the copy of a string or of an
  identifier; \<open>c_get_str\<close>, \<open>c_get_wstr\<close>, \<open>c_get_sid\<close>: what is at an address.
\<close>

record ctcl =
  c_w :: wtcl
  c_o :: otcl
  c_long :: "string \<Rightarrow> int option"
  c_double :: "string \<Rightarrow> 64 word option"
  c_narrow :: "64 word \<Rightarrow> 32 word"
  c_str :: "string \<Rightarrow> 64 word"
  c_wstr :: "string \<Rightarrow> 64 word"
  c_sid :: "string \<Rightarrow> 64 word option"
  c_print_double :: "64 word \<Rightarrow> string"
  c_print_float :: "32 word \<Rightarrow> string"
  c_get_str :: "64 word \<Rightarrow> string option"
  c_get_wstr :: "64 word \<Rightarrow> string option"
  c_get_sid :: "64 word \<Rightarrow> string option"

definition ObjToFloat :: "ctcl \<Rightarrow> string \<Rightarrow> 32 word option" where
  "ObjToFloat T s = map_option (c_narrow T) (c_double T s)"

definition ObjToHANDLE :: "ctcl \<Rightarrow> string \<Rightarrow> nat option" where
  "ObjToHANDLE T s = (case snd (ObjToLPVOID (c_o T) (str_obj s)) of Inl _ \<Rightarrow> None | Inr pv \<Rightarrow> Some pv)"

definition ObjFromHANDLE :: "ctcl \<Rightarrow> nat \<Rightarrow> string" where
  "ObjFromHANDLE T h = obj_string (c_o T) (ObjFromOpaque h (Some ''HANDLE''))"

definition ObjToFARPROC :: "ctcl \<Rightarrow> string \<Rightarrow> nat option" where
  "ObjToFARPROC T s = (case snd (ObjToOpaque (c_o T) (str_obj s) (Some ''FARPROC'')) of Inl _ \<Rightarrow> None | Inr pv \<Rightarrow> Some pv)"

section \<open>Definitions of structures\<close>

datatype ctype = CSTRUCT_VOID | CSTRUCT_BOOLEAN | CSTRUCT_CHAR | CSTRUCT_UCHAR | CSTRUCT_SHORT | CSTRUCT_USHORT
  | CSTRUCT_INT | CSTRUCT_UINT | CSTRUCT_INT64 | CSTRUCT_UINT64 | CSTRUCT_FLOAT | CSTRUCT_DOUBLE | CSTRUCT_STRING
  | CSTRUCT_WSTRING | CSTRUCT_CBSIZE | CSTRUCT_HANDLE | CSTRUCT_PSID | CSTRUCT_STRUCT

definition cstruct_types :: "(string \<times> ctype) list" where
  "cstruct_types = [(''void'', CSTRUCT_VOID), (''bool'', CSTRUCT_BOOLEAN), (''i1'', CSTRUCT_CHAR), (''ui1'', CSTRUCT_UCHAR),
     (''i2'', CSTRUCT_SHORT), (''ui2'', CSTRUCT_USHORT), (''i4'', CSTRUCT_INT), (''ui4'', CSTRUCT_UINT), (''i8'', CSTRUCT_INT64),
     (''ui8'', CSTRUCT_UINT64), (''r4'', CSTRUCT_FLOAT), (''r8'', CSTRUCT_DOUBLE), (''lpstr'', CSTRUCT_STRING),
     (''lpwstr'', CSTRUCT_WSTRING), (''cbsize'', CSTRUCT_CBSIZE), (''handle'', CSTRUCT_HANDLE), (''psid'', CSTRUCT_PSID),
     (''struct'', CSTRUCT_STRUCT)]"

text \<open>The size of an element, except of a nested structure.\<close>

definition type_size :: "ctype \<Rightarrow> nat" where
  "type_size ty = (case ty of
      CSTRUCT_VOID \<Rightarrow> 0 | CSTRUCT_STRUCT \<Rightarrow> 0
    | CSTRUCT_CHAR \<Rightarrow> 1 | CSTRUCT_UCHAR \<Rightarrow> 1
    | CSTRUCT_SHORT \<Rightarrow> 2 | CSTRUCT_USHORT \<Rightarrow> 2
    | CSTRUCT_BOOLEAN \<Rightarrow> 4 | CSTRUCT_INT \<Rightarrow> 4 | CSTRUCT_UINT \<Rightarrow> 4 | CSTRUCT_FLOAT \<Rightarrow> 4 | CSTRUCT_CBSIZE \<Rightarrow> 4
    | _ \<Rightarrow> 8)"

text \<open>
  A structure: its fields, size and alignment. A field: its name, type, nested structure, the number of elements of an array (zero for a
  scalar), its offset and the size of an element.
\<close>

datatype cstruct = CStruct (cs_fields: "cfield list") (cs_size: "32 word") (cs_align: "32 word")
  and cfield = CField (cf_name: string) (cf_type: ctype) (cf_child: "cstruct option") (cf_count: nat)
    (cf_offset: "32 word") (cf_size: "32 word")

datatype cs_error = CsConversion | InvalidDefinition | InvalidValue | TooFewElements | CsBufferOverrun | SizeMismatch | TooManyFields
  | CsSystem | ArraysNotSupported | UnsupportedType | CsArgCount | InvalidFunction

definition align_up :: "32 word \<Rightarrow> 32 word \<Rightarrow> 32 word" where
  "align_up off al = and (off + al - 1) (not (al - 1))"

text \<open>The nested structure, the element size and the alignment (zero for that of the element) of a field.\<close>

definition field_elem ::
    "(string \<Rightarrow> (cs_error + cstruct) option) \<Rightarrow> nat \<Rightarrow> ctype \<Rightarrow> int \<Rightarrow> string list \<Rightarrow>
     (cs_error + cstruct option \<times> 32 word \<times> 32 word) option" where
  "field_elem nested nfields ty array_size defs =
     (case ty of
        CSTRUCT_VOID \<Rightarrow> Some (if nfields \<noteq> 1 then Inl InvalidDefinition else Inr (None, 0, 0))
      | CSTRUCT_CBSIZE \<Rightarrow> Some (if array_size \<noteq> 0 then Inl InvalidDefinition else Inr (None, 4, 0))
      | CSTRUCT_STRUCT \<Rightarrow>
          if length defs < 4 then Some (Inl InvalidDefinition)
          else stepwise (nested (defs ! 3)) (\<lambda>cs. Some (Inr (Some cs, cs_size cs, cs_align cs)))
      | _ \<Rightarrow> Some (Inr (None, of_nat (type_size ty), 0)))"

definition cast_field ::
    "(string \<Rightarrow> (cs_error + cstruct) option) \<Rightarrow> ctcl \<Rightarrow> nat \<Rightarrow> string \<Rightarrow> 32 word \<Rightarrow> 32 word \<Rightarrow>
     (cs_error + cfield \<times> 32 word \<times> 32 word) option" where
  "cast_field nested T nfields s off al =
     stepwise (need InvalidDefinition (t_list (c_w T) s)) (\<lambda>defs.
     stepwise (check InvalidDefinition (2 \<le> length defs \<and> length defs \<le> 4)) (\<lambda>_.
     stepwise (need InvalidDefinition (map_of cstruct_types (defs ! 1))) (\<lambda>ty.
     stepwise (need InvalidDefinition (if 2 < length defs then t_int (c_w T) (defs ! 2) else Some 0)) (\<lambda>array_size.
     stepwise (check InvalidDefinition (0 \<le> array_size)) (\<lambda>_.
     stepwise (field_elem nested nfields ty array_size defs) (\<lambda>(child, elem_size, al0).
     let field_alignment = (if al0 = 0 then elem_size else al0);
         offset = align_up off field_alignment
     in Some (Inr (CField (defs ! 0) ty child (nat array_size) offset elem_size,
                   offset + (if array_size = 0 then elem_size else word_of_int array_size * elem_size),
                   if al < field_alignment then field_alignment else al))))))))"

fun cast_fields ::
    "(string \<Rightarrow> (cs_error + cstruct) option) \<Rightarrow> ctcl \<Rightarrow> nat \<Rightarrow> string list \<Rightarrow> 32 word \<Rightarrow> 32 word \<Rightarrow>
     (cs_error + cfield list \<times> 32 word \<times> 32 word) option" where
  "cast_fields nested T nfields [] off al = Some (Inr ([], off, al))"
| "cast_fields nested T nfields (s # ss) off al =
     stepwise (cast_field nested T nfields s off al) (\<lambda>(f, off', al').
     stepwise (cast_fields nested T nfields ss off' al') (\<lambda>(fs, off'', al''). Some (Inr (f # fs, off'', al''))))"

text \<open>The first argument bounds the nesting of definitions; there is no result when it is too small.\<close>

fun ObjCastToCStruct :: "nat \<Rightarrow> ctcl \<Rightarrow> bool \<Rightarrow> string \<Rightarrow> (cs_error + cstruct) option" where
  "ObjCastToCStruct 0 T allow_empty s = None"
| "ObjCastToCStruct (Suc n) T allow_empty s =
     stepwise (need CsConversion (t_list (c_w T) s)) (\<lambda>fields.
     stepwise (check InvalidDefinition (fields \<noteq> [] \<or> allow_empty)) (\<lambda>_.
     stepwise (cast_fields (ObjCastToCStruct n T False) T (length fields) fields 0 1) (\<lambda>(fs, off, al).
     Some (Inr (CStruct fs (align_up off al) al)))))"

text \<open>
  The definition is kept in the object: once converted, it is accepted as it is, before the code looks at \<open>allow_empty\<close>. An object
  is its kept definition, if any, and its string. The conversions of an object without one are those of its string; the
  objects of nested definitions are taken without one, since a kept one differs only when it is empty.
\<close>

type_synonym cs_obj = "cstruct option \<times> string"

definition ObjCastToCStruct_obj :: "nat \<Rightarrow> ctcl \<Rightarrow> bool \<Rightarrow> cs_obj \<Rightarrow> (cs_error + cstruct \<times> cs_obj) option" where
  "ObjCastToCStruct_obj n T allow_empty csobj =
     (case csobj of
        (Some cs, _) \<Rightarrow> Some (Inr (cs, csobj))
      | (None, s) \<Rightarrow> stepwise (ObjCastToCStruct n T allow_empty s) (\<lambda>cs. Some (Inr (cs, (Some cs, s)))))"

section \<open>Values to structures\<close>

text \<open>The bytes of an element.\<close>

definition enc_elem :: "ctcl \<Rightarrow> ctype \<Rightarrow> string \<Rightarrow> cs_error + bytes" where
  "enc_elem T ty s =
     (let num = (\<lambda>n v. case v of None \<Rightarrow> Inl CsConversion | Some i \<Rightarrow> Inr (le n i));
          ranged = (\<lambda>n v. case v of Inl _ \<Rightarrow> Inl CsConversion | Inr w \<Rightarrow> Inr (le n (uint w)))
      in case ty of
        CSTRUCT_BOOLEAN \<Rightarrow> num 4 (map_option of_bool (t_bool (c_w T) s))
      | CSTRUCT_CHAR \<Rightarrow> (case ObjToCHAR (c_w T) s of Inl _ \<Rightarrow> Inl CsConversion | Inr w \<Rightarrow> Inr (le 1 (uint w)))
      | CSTRUCT_UCHAR \<Rightarrow> (case ObjToUCHAR (c_w T) s of Inl _ \<Rightarrow> Inl CsConversion | Inr w \<Rightarrow> Inr (le 1 (uint w)))
      | CSTRUCT_SHORT \<Rightarrow> ranged 2 (ObjToSHORT (c_w T) s)
      | CSTRUCT_USHORT \<Rightarrow> ranged 2 (ObjToUSHORT (c_w T) s)
      | CSTRUCT_INT \<Rightarrow> num 4 (c_long T s)
      | CSTRUCT_UINT \<Rightarrow> num 4 (c_long T s)
      | CSTRUCT_INT64 \<Rightarrow> num 8 (t_wide (c_w T) s)
      | CSTRUCT_UINT64 \<Rightarrow> num 8 (t_wide (c_w T) s)
      | CSTRUCT_FLOAT \<Rightarrow> num 4 (map_option uint (ObjToFloat T s))
      | CSTRUCT_DOUBLE \<Rightarrow> num 8 (map_option uint (c_double T s))
      | CSTRUCT_HANDLE \<Rightarrow> num 8 (map_option int (ObjToHANDLE T s))
      | CSTRUCT_STRING \<Rightarrow> Inr (le 8 (uint (c_str T s)))
      | CSTRUCT_WSTRING \<Rightarrow> Inr (le 8 (uint (c_wstr T s)))
      | CSTRUCT_PSID \<Rightarrow> (case c_sid T s of None \<Rightarrow> Inl InvalidValue | Some p \<Rightarrow> Inr (le 8 (uint p)))
      | CSTRUCT_CBSIZE \<Rightarrow> num 4 (t_int (c_w T) s)
      | CSTRUCT_VOID \<Rightarrow> Inl InvalidValue
      | CSTRUCT_STRUCT \<Rightarrow> Inl InvalidValue)"

definition buf_put :: "bytes \<Rightarrow> nat \<Rightarrow> bytes \<Rightarrow> bytes option" where
  "buf_put m i bs = (if i + length bs \<le> length m then Some (over m i bs) else None)"

type_synonym 'v packer = "nat \<Rightarrow> 'v \<Rightarrow> bytes \<Rightarrow> (cs_error + bytes) option"

text \<open>The elements of an array, and the fields of a structure, one after the other.\<close>

fun pack_elems :: "'v packer \<Rightarrow> nat \<Rightarrow> 'v list \<Rightarrow> nat \<Rightarrow> bytes \<Rightarrow> (cs_error + bytes) option" where
  "pack_elems p sz [] pos m = Some (Inr m)"
| "pack_elems p sz (x # xs) pos m = stepwise (p pos x m) (\<lambda>m'. pack_elems p sz xs (pos + sz) m')"

fun run_packers :: "'v packer list \<Rightarrow> 'v list \<Rightarrow> nat \<Rightarrow> bytes \<Rightarrow> (cs_error + bytes) option" where
  "run_packers (p # ps) (v # vs) base m = stepwise (p base v m) (\<lambda>m'. run_packers ps vs base m')"
| "run_packers _ _ base m = Some (Inr m)"

text \<open>A size field: zero stands for the size of the structure.\<close>

definition pack_cbsize :: "ctcl \<Rightarrow> 32 word \<Rightarrow> string packer" where
  "pack_cbsize T sz pos x m =
     stepwise (need CsConversion (t_int (c_w T) x)) (\<lambda>n.
     let ssize = word_of_int n :: 32 word in
     (case buf_put m pos (le 4 n) of
        None \<Rightarrow> None
      | Some m1 \<Rightarrow>
          if sz < ssize then Some (Inl InvalidValue)
          else map_option Inr (if ssize = 0 then buf_put m1 pos (le 4 (uint sz)) else Some m1)))"

text \<open>
  One element of a field; \<open>nested\<close>: what a nested structure does, with the size that is expected of it. \<open>sz\<close> is the size of the structure that the
  field belongs to.
\<close>

definition pack_elem :: "ctcl \<Rightarrow> 32 word \<Rightarrow> ctype \<Rightarrow> (32 word \<Rightarrow> string packer) option \<Rightarrow> 32 word \<Rightarrow> string packer" where
  "pack_elem T sz ty nested esz pos x m =
     (case ty of
        CSTRUCT_STRUCT \<Rightarrow>
          (case nested of
             None \<Rightarrow> None
           | Some p \<Rightarrow> (case p esz pos x m of Some (Inl _) \<Rightarrow> Some (Inl InvalidValue) | r \<Rightarrow> r))
      | CSTRUCT_CBSIZE \<Rightarrow> pack_cbsize T sz pos x m
      | _ \<Rightarrow> stepwise (Some (enc_elem T ty x)) (\<lambda>bs. map_option Inr (buf_put m pos bs)))"

primrec pack_struct :: "cstruct \<Rightarrow> ctcl \<Rightarrow> 32 word \<Rightarrow> string packer"
  and pack_field :: "cfield \<Rightarrow> ctcl \<Rightarrow> 32 word \<Rightarrow> string packer" where
  "pack_struct (CStruct fs sz al) = (\<lambda>T expected base v m.
     stepwise (check CsBufferOverrun (sz = expected)) (\<lambda>_.
     stepwise (need InvalidValue (t_list (c_w T) v)) (\<lambda>vs.
     stepwise (check InvalidValue (length vs = length fs)) (\<lambda>_.
     run_packers (map (\<lambda>p. p T sz) (map pack_field fs)) vs base m))))"
| "pack_field (CField name ty child count off esz) = (\<lambda>T sz base v m.
     let p = pack_elem T sz ty (map_option (\<lambda>q. q T) (map_option pack_struct child)) esz
     in if count = 0 then p (base + unat off) v m
        else
          stepwise (need CsConversion (t_list (c_w T) v)) (\<lambda>xs.
          stepwise (check TooFewElements (count \<le> length xs)) (\<lambda>_.
          stepwise (check InvalidValue (ty \<noteq> CSTRUCT_VOID)) (\<lambda>_.
          pack_elems p (unat esz) (take count xs) (base + unat off) m))))"

text \<open>
  A value of two elements, the definition and the list of the values; or the null pointer. \<open>junk\<close>: what the new memory holds.
\<close>

definition TwapiCStructParse ::
    "nat \<Rightarrow> ctcl \<Rightarrow> (nat \<Rightarrow> 8 word) \<Rightarrow> bool \<Rightarrow> string \<Rightarrow> (cs_error + (32 word \<times> bytes) option) option" where
  "TwapiCStructParse n T junk allow_null csval =
     stepwise (need InvalidValue (t_list (c_w T) csval)) (\<lambda>objs.
     stepwise (check InvalidValue (length objs = 2 \<or> objs = [] \<and> allow_null)) (\<lambda>_.
     if objs = [] then Some (Inr None)
     else
       stepwise (ObjCastToCStruct n T False (objs ! 0)) (\<lambda>cs.
       (case pack_struct cs T (cs_size cs) 0 (objs ! 1) (map junk [0..<unat (cs_size cs)]) of
          Some (Inl _) \<Rightarrow> Some (Inl InvalidValue)
        | Some (Inr m) \<Rightarrow> Some (Inr (Some (cs_size cs, m)))
        | None \<Rightarrow> None))))"

section \<open>Structures to values\<close>

text \<open>The string of an element, from the number that its bytes are, and from the memory.\<close>

definition dec_val :: "ctcl \<Rightarrow> ctype \<Rightarrow> int \<Rightarrow> (cs_error + string) option" where
  "dec_val T ty n =
     (let print = w_print (c_w T) in case ty of
        CSTRUCT_BOOLEAN \<Rightarrow> Some (Inr (ObjFromBoolean (n \<noteq> 0)))
      | CSTRUCT_CHAR \<Rightarrow> Some (Inr (print (sint (word_of_int n :: 8 word))))
      | CSTRUCT_UCHAR \<Rightarrow> Some (Inr (print n))
      | CSTRUCT_SHORT \<Rightarrow> Some (Inr (print (sint (word_of_int n :: 16 word))))
      | CSTRUCT_USHORT \<Rightarrow> Some (Inr (print n))
      | CSTRUCT_INT \<Rightarrow> Some (Inr (print (signed32 n)))
      | CSTRUCT_UINT \<Rightarrow> Some (Inr (print n))
      | CSTRUCT_INT64 \<Rightarrow> Some (Inr (print (signed64 n)))
      | CSTRUCT_UINT64 \<Rightarrow> Some (Inr (print (signed64 n)))
      | CSTRUCT_FLOAT \<Rightarrow> Some (Inr (c_print_float T (word_of_int n)))
      | CSTRUCT_DOUBLE \<Rightarrow> Some (Inr (c_print_double T (word_of_int n)))
      | CSTRUCT_HANDLE \<Rightarrow> Some (Inr (ObjFromHANDLE T (nat n)))
      | CSTRUCT_STRING \<Rightarrow> map_option Inr (c_get_str T (word_of_int n))
      | CSTRUCT_WSTRING \<Rightarrow> map_option Inr (c_get_wstr T (word_of_int n))
      | CSTRUCT_CBSIZE \<Rightarrow> Some (Inr (print n))
      | CSTRUCT_PSID \<Rightarrow> (case c_get_sid T (word_of_int n) of None \<Rightarrow> Some (Inl CsSystem) | Some s \<Rightarrow> Some (Inr s))
      | CSTRUCT_VOID \<Rightarrow> None
      | CSTRUCT_STRUCT \<Rightarrow> None)"

definition dec_elem :: "ctcl \<Rightarrow> ctype \<Rightarrow> nat \<Rightarrow> bytes \<Rightarrow> (cs_error + string) option" where
  "dec_elem T ty pos m = Option.bind (read_le (drop pos m) (type_size ty)) (dec_val T ty)"

type_synonym 'r unpacker = "nat \<Rightarrow> bytes \<Rightarrow> (cs_error + 'r) option"

fun unpack_elems :: "'r unpacker \<Rightarrow> nat \<Rightarrow> nat \<Rightarrow> nat \<Rightarrow> bytes \<Rightarrow> (cs_error + 'r list) option" where
  "unpack_elems u sz 0 pos m = Some (Inr [])"
| "unpack_elems u sz (Suc n) pos m =
     stepwise (u pos m) (\<lambda>x. stepwise (unpack_elems u sz n (pos + sz) m) (\<lambda>xs. Some (Inr (x # xs))))"

text \<open>The words of all fields; a field of type void gives none.\<close>

fun run_unpackers :: "'r list unpacker list \<Rightarrow> nat \<Rightarrow> bytes \<Rightarrow> (cs_error + 'r list) option" where
  "run_unpackers [] base m = Some (Inr [])"
| "run_unpackers (u # us) base m =
     stepwise (u base m) (\<lambda>xs. stepwise (run_unpackers us base m) (\<lambda>ys. Some (Inr (xs @ ys))))"

primrec unpack_struct :: "cstruct \<Rightarrow> ctcl \<Rightarrow> bool \<Rightarrow> 32 word \<Rightarrow> string unpacker"
  and unpack_field :: "cfield \<Rightarrow> ctcl \<Rightarrow> bool \<Rightarrow> string list unpacker" where
  "unpack_struct (CStruct fs sz al) = (\<lambda>T dict nbytes base m.
     stepwise (check SizeMismatch (nbytes = 0 \<or> nbytes = sz)) (\<lambda>_.
     stepwise (check TooManyFields (length fs \<le> (if dict then 32 else 64))) (\<lambda>_.
     stepwise (run_unpackers (map (\<lambda>u. u T dict) (map unpack_field fs)) base m) (\<lambda>xs.
     Some (Inr (t_mklist (c_w T) xs))))))"
| "unpack_field (CField name ty child count off esz) = (\<lambda>T dict base m.
     let key = (if dict then [name] else []);
         u = (if ty = CSTRUCT_STRUCT
              then (\<lambda>pos m. case map_option unpack_struct child of None \<Rightarrow> None | Some v \<Rightarrow> v T dict esz pos m)
              else dec_elem T ty);
         sz = (if ty = CSTRUCT_STRUCT \<or> ty = CSTRUCT_PSID then unat esz else type_size ty)
     in if ty = CSTRUCT_VOID then Some (Inr [])
        else if count = 0 then stepwise (u (base + unat off) m) (\<lambda>x. Some (Inr (key @ [x])))
        else stepwise (unpack_elems u sz count (base + unat off) m) (\<lambda>xs. Some (Inr (key @ [t_mklist (c_w T) xs]))))"

definition ObjFromCStruct :: "nat \<Rightarrow> ctcl \<Rightarrow> bytes \<Rightarrow> 32 word \<Rightarrow> string \<Rightarrow> bool \<Rightarrow> (cs_error + string) option" where
  "ObjFromCStruct n T m nbytes csdef dict =
     stepwise (ObjCastToCStruct n T False csdef) (\<lambda>cs. unpack_struct cs T dict nbytes 0 m)"

definition TwapiCStructSize :: "nat \<Rightarrow> ctcl \<Rightarrow> string \<Rightarrow> (cs_error + int) option" where
  "TwapiCStructSize n T csdef =
     stepwise (ObjCastToCStruct n T False csdef) (\<lambda>cs. Some (Inr (sint (cs_size cs))))"

section \<open>Foreign calls\<close>

text \<open>The parameters as they are given to the call, and how the call is made.\<close>

datatype dc_arg = DcInt "32 word" | DcChar "8 word" | DcShort "16 word" | DcLongLong "64 word" | DcDouble "64 word"
  | DcFloat "32 word" | DcPointer "64 word"

datatype dc_call = DcCallVoid | DcCallInt | DcCallChar | DcCallShort | DcCallLongLong | DcCallDouble | DcCallFloat | DcCallPointer

definition store_arg :: "('x \<Rightarrow> dc_arg) \<Rightarrow> 'x option \<Rightarrow> cs_error + dc_arg" where
  "store_arg c v = (case v of None \<Rightarrow> Inl CsConversion | Some x \<Rightarrow> Inr (c x))"

definition ffi_arg :: "ctcl \<Rightarrow> ctype \<Rightarrow> string \<Rightarrow> cs_error + dc_arg" where
  "ffi_arg T ty s =
     (case ty of
        CSTRUCT_BOOLEAN \<Rightarrow> store_arg (\<lambda>b. DcInt (of_bool b)) (t_bool (c_w T) s)
      | CSTRUCT_INT \<Rightarrow> store_arg (\<lambda>i. DcInt (word_of_int i)) (t_int (c_w T) s)
      | CSTRUCT_UINT \<Rightarrow> store_arg (\<lambda>i. DcInt (word_of_int i)) (c_long T s)
      | CSTRUCT_CHAR \<Rightarrow> store_arg DcChar (right (ObjToCHAR (c_w T) s))
      | CSTRUCT_UCHAR \<Rightarrow> store_arg DcChar (right (ObjToUCHAR (c_w T) s))
      | CSTRUCT_SHORT \<Rightarrow> store_arg DcShort (right (ObjToSHORT (c_w T) s))
      | CSTRUCT_USHORT \<Rightarrow> store_arg DcShort (right (ObjToUSHORT (c_w T) s))
      | CSTRUCT_INT64 \<Rightarrow> store_arg (\<lambda>i. DcLongLong (word_of_int i)) (t_wide (c_w T) s)
      | CSTRUCT_UINT64 \<Rightarrow> store_arg (\<lambda>i. DcLongLong (word_of_int i)) (t_wide (c_w T) s)
      | CSTRUCT_DOUBLE \<Rightarrow> store_arg DcDouble (c_double T s)
      | CSTRUCT_FLOAT \<Rightarrow> store_arg (\<lambda>d. DcFloat (c_narrow T d)) (c_double T s)
      | CSTRUCT_HANDLE \<Rightarrow> store_arg (\<lambda>h. DcPointer (of_nat h)) (ObjToHANDLE T s)
      | CSTRUCT_STRING \<Rightarrow> Inr (DcPointer (c_str T s))
      | _ \<Rightarrow> Inl UnsupportedType)"

fun ffi_args :: "ctcl \<Rightarrow> cfield list \<Rightarrow> string list \<Rightarrow> cs_error + dc_arg list" where
  "ffi_args T (f # fs) (s # ss) =
     (if cf_count f \<noteq> 0 then Inl ArraysNotSupported
      else case ffi_arg T (cf_type f) s of
        Inl e \<Rightarrow> Inl e
      | Inr a \<Rightarrow> map_sum id (\<lambda>as. a # as) (ffi_args T fs ss))"
| "ffi_args T _ _ = Inr []"

text \<open>The call for a type of result, and the word of the result (the bits that the function returns, zero-extended).\<close>

definition ffi_ret :: "ctcl \<Rightarrow> ctype \<Rightarrow> (dc_call \<times> (int \<Rightarrow> string option)) option" where
  "ffi_ret T ty =
     (let print = (\<lambda>n. Some (w_print (c_w T) n))
      in case ty of
        CSTRUCT_VOID \<Rightarrow> Some (DcCallVoid, \<lambda>_. Some [])
      | CSTRUCT_BOOLEAN \<Rightarrow> Some (DcCallInt, \<lambda>n. Some (ObjFromBoolean ((word_of_int n :: 32 word) \<noteq> 0)))
      | CSTRUCT_INT \<Rightarrow> Some (DcCallInt, \<lambda>n. print (signed32 n))
      | CSTRUCT_UINT \<Rightarrow> Some (DcCallInt, \<lambda>n. print (uint (word_of_int n :: 32 word)))
      | CSTRUCT_CHAR \<Rightarrow> Some (DcCallChar, \<lambda>n. print (sint (word_of_int n :: 8 word)))
      | CSTRUCT_UCHAR \<Rightarrow> Some (DcCallChar, \<lambda>n. print (uint (word_of_int n :: 8 word)))
      | CSTRUCT_SHORT \<Rightarrow> Some (DcCallShort, \<lambda>n. print (sint (word_of_int n :: 16 word)))
      | CSTRUCT_USHORT \<Rightarrow> Some (DcCallShort, \<lambda>n. print (uint (word_of_int n :: 16 word)))
      | CSTRUCT_INT64 \<Rightarrow> Some (DcCallLongLong, \<lambda>n. print (signed64 n))
      | CSTRUCT_UINT64 \<Rightarrow> Some (DcCallLongLong, \<lambda>n. print (signed64 n))
      | CSTRUCT_DOUBLE \<Rightarrow> Some (DcCallDouble, \<lambda>n. Some (c_print_double T (word_of_int n)))
      | CSTRUCT_FLOAT \<Rightarrow> Some (DcCallFloat, \<lambda>n. Some (c_print_float T (word_of_int n)))
      | CSTRUCT_HANDLE \<Rightarrow> Some (DcCallPointer, \<lambda>n. Some (ObjFromHANDLE T (unat (word_of_int n :: 64 word))))
      | CSTRUCT_STRING \<Rightarrow> Some (DcCallPointer, \<lambda>n. c_get_str T (word_of_int n))
      | CSTRUCT_WSTRING \<Rightarrow> Some (DcCallPointer, \<lambda>n. c_get_wstr T (word_of_int n))
      | _ \<Rightarrow> None)"

text \<open>
  What is called, if anything, and how the word that it returns becomes the result. The arguments are the pointer, the type of the result,
  the types of the parameters and the list of their values.
\<close>

definition Twapi_FfiCallObjCmd ::
    "nat \<Rightarrow> ctcl \<Rightarrow> string list \<Rightarrow> (cs_error + (dc_call \<times> nat \<times> dc_arg list) \<times> (int \<Rightarrow> string option)) option" where
  "Twapi_FfiCallObjCmd n T objv =
     stepwise (check CsArgCount (length objv = 4)) (\<lambda>_.
     stepwise (need InvalidFunction (ObjToFARPROC T (objv ! 0))) (\<lambda>fn.
     stepwise (check InvalidFunction (fn \<noteq> 0)) (\<lambda>_.
     stepwise (ObjCastToCStruct n T False (objv ! 1)) (\<lambda>fntype.
     stepwise (ObjCastToCStruct n T True (objv ! 2)) (\<lambda>paramtypes.
     stepwise (check TooManyFields (length (cs_fields fntype) \<le> 1)) (\<lambda>_.
     stepwise (need CsConversion (t_list (c_w T) (objv ! 3))) (\<lambda>params.
     stepwise (check CsArgCount (length params = length (cs_fields paramtypes))) (\<lambda>_.
     stepwise (Some (ffi_args T (cs_fields paramtypes) params)) (\<lambda>args.
     stepwise (need UnsupportedType (ffi_ret T (cf_type (cs_fields fntype ! 0)))) (\<lambda>(call, result).
     Some (Inr ((call, fn, args), result))))))))))))"

text \<open>
  The same with the objects of the two types, which may have been converted before. The type of the result is read from the first
  field, for which there is no memory when the definition is empty; the objects keep their definitions.
\<close>

definition Twapi_FfiCallObjCmd_objs ::
    "nat \<Rightarrow> ctcl \<Rightarrow> string \<Rightarrow> cs_obj \<Rightarrow> cs_obj \<Rightarrow> string \<Rightarrow>
     (cs_error + (dc_call \<times> nat \<times> dc_arg list) \<times> (int \<Rightarrow> string option)) option" where
  "Twapi_FfiCallObjCmd_objs n T p ret types vals =
     stepwise (need InvalidFunction (ObjToFARPROC T p)) (\<lambda>fn.
     stepwise (check InvalidFunction (fn \<noteq> 0)) (\<lambda>_.
     stepwise (ObjCastToCStruct_obj n T False ret) (\<lambda>(fntype, _).
     stepwise (ObjCastToCStruct_obj n T True types) (\<lambda>(paramtypes, _).
     stepwise (check TooManyFields (length (cs_fields fntype) \<le> 1)) (\<lambda>_.
     stepwise (need CsConversion (t_list (c_w T) vals)) (\<lambda>params.
     stepwise (check CsArgCount (length params = length (cs_fields paramtypes))) (\<lambda>_.
     stepwise (Some (ffi_args T (cs_fields paramtypes) params)) (\<lambda>args.
     stepwise (case cs_fields fntype of [] \<Rightarrow> None | rf # _ \<Rightarrow> need UnsupportedType (ffi_ret T (cf_type rf))) (\<lambda>(call, result).
     Some (Inr ((call, fn, args), result)))))))))))"

end
