(* ===== verification/Cstruct_Layout.thy ===== *)
theory Cstruct_Layout
  imports Cstruct
begin

text \<open>
  What definitions of structures describe: the layout of a structure in unbounded numbers (\<open>nat_struct\<close>), the layout that the code computes
  (\<open>shape_struct\<close>), that they agree below four gigabytes (\<open>shape_natural\<close>), that fields then lie one after the other within the structure
  (\<open>fits_struct\<close>), and that the nesting of definitions is bounded by their length.
\<close>

section \<open>Sequences of steps\<close>

lemma stepwise_Inr: "stepwise r f = Some (Inr y) \<longleftrightarrow> (\<exists>x. r = Some (Inr x) \<and> f x = Some (Inr y))"
  by (cases r) (auto simp: stepwise_def split: sum.splits)

lemma need_Inr [simp]: "need e x = Some (Inr y) \<longleftrightarrow> x = Some y"
  by (cases x) simp_all

lemma check_Inr [simp]: "check e b = Some (Inr y) \<longleftrightarrow> b"
  by (cases b) simp_all

lemma stepwise_Some: "r \<noteq> None \<Longrightarrow> (\<And>x. r = Some (Inr x) \<Longrightarrow> f x \<noteq> None) \<Longrightarrow> stepwise r f \<noteq> None"
  by (auto simp: stepwise_def split: option.splits sum.splits)

lemma need_Some [simp]: "need e x \<noteq> None" and check_Some [simp]: "check e b \<noteq> None"
  by (simp_all add: need_def check_def)

section \<open>Layout\<close>

definition round_up :: "nat \<Rightarrow> nat \<Rightarrow> nat" where
  "round_up n al = (if al = 0 then n else (n + al - 1) div al * al)"

text \<open>Offsets and end of parts, each with its size and alignment.\<close>

fun nat_place :: "(nat \<times> nat) list \<Rightarrow> nat \<Rightarrow> nat list \<times> nat" where
  "nat_place [] off = ([], off)"
| "nat_place ((n, al) # parts) off =
     (let (offs, e) = nat_place parts (round_up off al + n) in (round_up off al # offs, e))"

definition nat_align :: "(nat \<times> nat) list \<Rightarrow> nat \<Rightarrow> nat" where
  "nat_align parts al = foldl (\<lambda>a p. max a (snd p)) al parts"

text \<open>The size and alignment of a structure, and those of a field.\<close>

primrec nat_struct :: "cstruct \<Rightarrow> nat \<times> nat" and nat_field :: "cfield \<Rightarrow> nat \<times> nat" where
  "nat_struct (CStruct fs sz al) =
     (let parts = map nat_field fs; a = nat_align parts 1 in (round_up (snd (nat_place parts 0)) a, a))"
| "nat_field (CField name ty child count off esz) =
     (let (n, al) = (case map_option nat_struct child of None \<Rightarrow> (type_size ty, type_size ty) | Some p \<Rightarrow> p)
      in ((if count = 0 then 1 else count) * n, al))"

definition powers :: "nat set" where "powers = {1, 2, 4, 8}"

lemma powers_word:
  assumes "unat (al :: 32 word) \<in> powers"
  shows "\<exists>k < 4. al = 2 ^ k \<and> unat al = 2 ^ k"
proof -
  from assms have "\<exists>k < 4. unat al = 2 ^ k"
    by (auto simp: powers_def intro: exI [of _ "0 :: nat"] exI [of _ "1 :: nat"] exI [of _ "2 :: nat"] exI [of _ "3 :: nat"])
  then obtain k :: nat where k: "k < 4" "unat al = 2 ^ k" by blast
  then have "k = 0 \<or> k = 1 \<or> k = 2 \<or> k = 3" by arith
  with k have "unat al = unat ((2 :: 32 word) ^ k)" by auto
  with k show ?thesis by (auto simp: word_unat_eq_iff)
qed

lemma and_not_low: "and (w :: 32 word) (not (2 ^ k - 1)) = push_bit k (drop_bit k w)"
  by (rule bit_word_eqI) (auto simp: bit_simps simp flip: mask_eq_exp_minus_1)

lemma unat_low_cleared: "unat (push_bit k (drop_bit k w) :: 32 word) = unat w div 2 ^ k * 2 ^ k mod 2 ^ 32"
proof -
  have "unat (push_bit k (drop_bit k w)) = take_bit 32 (push_bit k (unat (drop_bit k w)))" by (simp add: unsigned_push_bit_eq)
  also have "unat (drop_bit k w) = unat w div 2 ^ k" 

    using take_bit_nat_eq_self [OF unsigned_less [of w, where ?'a = nat]]
    unfolding unsigned_drop_bit_eq by (simp add: drop_bit_eq_div)
  finally show ?thesis by (simp add: push_bit_eq_mult take_bit_eq_mod)
qed

lemma align_up_round:
  assumes "unat al \<in> insert 0 powers" "al = 0 \<Longrightarrow> off = 0" "round_up (unat off) (unat al) < 2 ^ 32"
  shows "unat (align_up off al) = round_up (unat off) (unat al)"
proof (cases "al = 0")
  case False
  then have "unat al \<in> powers" using assms(1) by (simp add: unat_eq_0)
  then obtain k where k: "k < 4" "al = 2 ^ k" "unat al = 2 ^ k" using powers_word by blast
  define q where "q = (unat off + 2 ^ k - 1) div 2 ^ k"
  have r: "round_up (unat off) (unat al) = q * 2 ^ k" by (simp add: round_up_def k(3) q_def)
  have split: "(2 :: nat) ^ 32 = 2 ^ (32 - k) * 2 ^ k" using k(1) by (simp flip: power_add)
  have "q * 2 ^ k < 2 ^ (32 - k) * 2 ^ k" using assms(3) r split by metis
  then have "Suc q * 2 ^ k \<le> 2 ^ 32" unfolding split by (intro mult_right_mono) simp_all
  moreover have "unat off + 2 ^ k - 1 < Suc q * 2 ^ k"
    using dividend_less_div_times [of "2 ^ k" "unat off + 2 ^ k - 1"] by (simp add: q_def)
  ultimately have "unat off + (2 ^ k - 1) < 2 ^ 32" by (simp add: add.commute)
  moreover have low: "unat (2 ^ k - 1 :: 32 word) = 2 ^ k - 1" using k by (simp add: unat_sub word_le_nat_alt)
  ultimately have "unat (off + (2 ^ k - 1)) = unat off + (2 ^ k - 1)"
    by (simp add: unat_word_ariths)
  moreover have "align_up off al = push_bit k (drop_bit k (off + (2 ^ k - 1)))"
    by (simp add: align_up_def k(2) and_not_low add_diff_eq)
  ultimately have "unat (align_up off al) = (unat off + (2 ^ k - 1)) div 2 ^ k * 2 ^ k mod 2 ^ 32"
    by (simp only: unat_low_cleared)
  also have "\<dots> = q * 2 ^ k mod 2 ^ 32" by (simp add: q_def add.commute)
  finally show ?thesis using assms(3) r by simp
qed (use assms(2) in \<open>simp add: align_up_def round_up_def\<close>)

lemma round_up_ge: "n \<le> round_up n al"
proof (cases "al = 0")
  case False
  then have "n + al - 1 < (n + al - 1) div al * al + al" using dividend_less_div_times [of al "n + al - 1"] by (simp add: add.commute)
  then show ?thesis using False by (simp add: round_up_def)
qed (simp add: round_up_def)

lemma dvd_round_up: "al \<noteq> 0 \<Longrightarrow> al dvd round_up n al"
  by (simp add: round_up_def)

lemma nat_place_ge: "off \<le> snd (nat_place parts off)"
proof (induction parts off rule: nat_place.induct)
  case (2 n al parts off)
  then show ?case using round_up_ge [of off al] by (simp add: case_prod_unfold Let_def)
qed simp

lemma nat_place_part: "p \<in> set parts \<Longrightarrow> fst p \<le> snd (nat_place parts off)"
proof (induction parts off rule: nat_place.induct)
  case (2 n al parts off)
  then show ?case using nat_place_ge [of "round_up off al + n" parts] by (auto simp: case_prod_unfold Let_def)
qed simp

section \<open>What a definition describes\<close>

definition fld_align :: "cfield \<Rightarrow> 32 word" where
  "fld_align f = (case cf_child f of None \<Rightarrow> cf_size f | Some cs \<Rightarrow> cs_align cs)"

definition elems :: "cfield \<Rightarrow> nat" where
  "elems f = (if cf_count f = 0 then 1 else cf_count f)"

fun placed :: "cfield list \<Rightarrow> 32 word \<Rightarrow> 32 word \<Rightarrow> 32 word \<times> 32 word \<Rightarrow> bool" where
  "placed [] off al r \<longleftrightarrow> r = (off, al)"
| "placed (f # fs) off al r \<longleftrightarrow>
     cf_offset f = align_up off (fld_align f) \<and> placed fs (cf_offset f + of_nat (elems f) * cf_size f) (max al (fld_align f)) r"

primrec shape_struct :: "cstruct \<Rightarrow> bool" and shape_field :: "cfield \<Rightarrow> bool" where
  "shape_struct (CStruct fs sz al) \<longleftrightarrow>
     (\<exists>e. placed fs 0 1 (e, al) \<and> sz = align_up e al) \<and> list_all (\<lambda>b. b) (map shape_field fs) \<and>
     (\<forall>f \<in> set fs. cf_type f = CSTRUCT_VOID \<longrightarrow> fs = [f])"
| "shape_field (CField name ty child count off esz) \<longleftrightarrow>
     (case child of None \<Rightarrow> ty \<noteq> CSTRUCT_STRUCT \<and> unat esz = type_size ty | Some cs \<Rightarrow> ty = CSTRUCT_STRUCT \<and> esz = cs_size cs) \<and>
     (case map_option shape_struct child of None \<Rightarrow> True | Some b \<Rightarrow> b) \<and> (ty = CSTRUCT_CBSIZE \<longrightarrow> count = 0)"

lemma type_size_powers: "type_size ty \<in> insert 0 powers"
  by (cases ty) (simp_all add: type_size_def powers_def)

definition aligned :: "cfield \<Rightarrow> bool" where
  "aligned f \<longleftrightarrow> unat (fld_align f) \<in> insert 0 powers \<and> snd (nat_field f) = unat (fld_align f)"

lemma placed_align:
  assumes "placed fs off al (e, a)" "list_all aligned fs" "unat al \<in> powers"
  shows "unat a \<in> powers \<and> unat a = nat_align (map nat_field fs) (unat al)"
  using assms
proof (induction fs arbitrary: off al)
  case (Cons f fs)
  define b where "b = max al (fld_align f)"
  have max: "unat b = max (unat al) (unat (fld_align f))"
    by (simp add: b_def max_def word_le_nat_alt)
  then have b: "unat b \<in> powers" using Cons.prems(2,3) by (auto simp: aligned_def powers_def max_def)
  have p: "placed fs (cf_offset f + of_nat (elems f) * cf_size f) b (e, a)"
    using Cons.prems(1) unfolding b_def placed.simps by blast
  have "list_all aligned fs" using Cons.prems(2) by simp
  from Cons.IH [OF p this b] have "unat a \<in> powers \<and> unat a = nat_align (map nat_field fs) (unat b)" .
  moreover have "nat_align (map nat_field (f # fs)) (unat al) = nat_align (map nat_field fs) (unat b)"
    using Cons.prems(2) max by (simp add: nat_align_def aligned_def)
  ultimately show ?case by metis
qed (simp add: nat_align_def)

lemma shape_align:
  shows "shape_struct cs \<Longrightarrow> unat (cs_align cs) \<in> powers \<and> unat (cs_align cs) = snd (nat_struct cs)"
    and "shape_field f \<Longrightarrow> aligned f"
proof (induction cs and f)
  case (CStruct fs sz al)
  then have "list_all aligned fs" by (auto simp: list_all_iff)
  then show ?case using CStruct.prems placed_align [of fs 0 1 _ al] by (auto simp: powers_def Let_def)
next
  case (CField name ty child count off esz)
  then show ?case using type_size_powers [of ty]
    by (cases child) (auto simp: aligned_def fld_align_def case_prod_unfold Let_def)
qed

section \<open>Structures that fit\<close>

text \<open>Fields one after the other between two offsets; in a structure that fits, so are the fields of each nested structure.\<close>

definition extent :: "cfield \<Rightarrow> nat" where
  "extent f = elems f * unat (cf_size f)"

fun in_order :: "nat \<Rightarrow> cfield list \<Rightarrow> nat \<Rightarrow> bool" where
  "in_order lo [] hi \<longleftrightarrow> lo \<le> hi"
| "in_order lo (f # fs) hi \<longleftrightarrow> lo \<le> unat (cf_offset f) \<and> in_order (unat (cf_offset f) + extent f) fs hi"

primrec fits_struct :: "cstruct \<Rightarrow> bool" and fits_field :: "cfield \<Rightarrow> bool" where
  "fits_struct (CStruct fs sz al) \<longleftrightarrow> in_order 0 fs (unat sz) \<and> list_all (\<lambda>b. b) (map fits_field fs)"
| "fits_field (CField name ty child count off esz) \<longleftrightarrow>
     (case child of None \<Rightarrow> ty \<noteq> CSTRUCT_STRUCT \<and> unat esz = type_size ty | Some cs \<Rightarrow> ty = CSTRUCT_STRUCT \<and> esz = cs_size cs) \<and>
     (case map_option fits_struct child of None \<Rightarrow> True | Some b \<Rightarrow> b) \<and> (ty = CSTRUCT_CBSIZE \<longrightarrow> count = 0)"

lemma in_order_mono: "in_order lo fs hi \<Longrightarrow> hi \<le> hi' \<Longrightarrow> in_order lo fs hi'"
  by (induction lo fs hi rule: in_order.induct) auto

lemma in_order_bounds: "in_order lo fs hi \<Longrightarrow> f \<in> set fs \<Longrightarrow> lo \<le> unat (cf_offset f) \<and> unat (cf_offset f) + extent f \<le> hi"
proof (induction lo fs hi rule: in_order.induct)
  case (2 lo g fs hi)
  have "in_order lo' gs hi' \<Longrightarrow> lo' \<le> hi'" for lo' gs hi' by (induction lo' gs hi' rule: in_order.induct) auto
  with 2 show ?case by fastforce
qed simp

text \<open>What a field is, given that its nested structure has its natural size.\<close>

definition natural :: "cfield \<Rightarrow> bool" where
  "natural f \<longleftrightarrow> aligned f \<and> (fst (nat_field f) < 2 ^ 32 \<longrightarrow> fst (nat_field f) = extent f) \<and> (fld_align f = 0 \<longrightarrow> cf_type f = CSTRUCT_VOID)"

lemma placed_natural:
  assumes "placed fs off al (e, a)" "list_all natural fs" "\<forall>f \<in> set fs. cf_type f = CSTRUCT_VOID \<longrightarrow> fs = [f] \<and> off = 0"
    and "snd (nat_place (map nat_field fs) (unat off)) < 2 ^ 32"
  shows "map (\<lambda>f. unat (cf_offset f)) fs = fst (nat_place (map nat_field fs) (unat off)) \<and>
    unat e = snd (nat_place (map nat_field fs) (unat off)) \<and> in_order (unat off) fs (unat e) \<and>
    (\<forall>f \<in> set fs. snd (nat_field f) \<noteq> 0 \<longrightarrow> snd (nat_field f) dvd unat (cf_offset f))"
  using assms
proof (induction fs arbitrary: off al)
  case (Cons f fs)
  define n where "n = fst (nat_field f)"
  define r where "r = round_up (unat off) (unat (fld_align f))"
  define off' where "off' = cf_offset f + of_nat (elems f) * cf_size f"
  have f: "nat_field f = (n, unat (fld_align f))" "unat (fld_align f) \<in> insert 0 powers" "natural f"
    using Cons.prems(2) by (auto simp: natural_def aligned_def n_def prod_eq_iff)
  have place: "nat_place (map nat_field (f # fs)) (unat off) =
      (r # fst (nat_place (map nat_field fs) (r + n)), snd (nat_place (map nat_field fs) (r + n)))"
    by (simp add: f(1) r_def case_prod_unfold Let_def)
  have bound: "r + n < 2 ^ 32"
    using Cons.prems(4) nat_place_ge [of "r + n" "map nat_field fs"] unfolding place by simp
  have zero: "fld_align f = 0 \<Longrightarrow> off = 0" using f(3) Cons.prems(3) by (auto simp: natural_def)
  have off: "cf_offset f = align_up off (fld_align f)" and rest: "placed fs off' (max al (fld_align f)) (e, a)"
    using Cons.prems(1) unfolding off'_def placed.simps by blast+
  then have o: "unat (cf_offset f) = r" using align_up_round [OF f(2) zero] bound by (simp add: r_def)
  have n: "n = extent f" using f(3) bound by (simp add: natural_def n_def)
  have "unat (of_nat (elems f) * cf_size f) = extent f mod 2 ^ 32"
    by (simp add: unat_word_ariths unat_of_nat extent_def mod_mult_left_eq)
  then have o': "unat off' = r + n" using bound o n by (simp add: off'_def unat_word_ariths)
  have "\<forall>g \<in> set fs. cf_type g = CSTRUCT_VOID \<longrightarrow> fs = [g] \<and> off' = 0"
    using Cons.prems(3) by fastforce
  from Cons.IH [OF rest _ this] Cons.prems(2,4) show ?case
    unfolding place o' using o n dvd_round_up [of "unat (fld_align f)" "unat off"] f(1)
    by (auto simp: r_def round_up_ge o')
qed simp

text \<open>The layout of a structure is its natural layout as long as that is less than four gigabytes.\<close>

lemma shape_natural:
  shows "shape_struct cs \<Longrightarrow> fst (nat_struct cs) < 2 ^ 32 \<Longrightarrow>
      unat (cs_size cs) = fst (nat_struct cs) \<and> fits_struct cs \<and> in_order 0 (cs_fields cs) (unat (cs_size cs)) \<and>
      map (\<lambda>f. unat (cf_offset f)) (cs_fields cs) = fst (nat_place (map nat_field (cs_fields cs)) 0) \<and>
      (\<forall>f \<in> set (cs_fields cs). snd (nat_field f) \<noteq> 0 \<longrightarrow> snd (nat_field f) dvd unat (cf_offset f))"
    and "shape_field f \<Longrightarrow> natural f \<and> (fst (nat_field f) < 2 ^ 32 \<longrightarrow> fits_field f)"
proof (induction cs and f)
  case (CStruct fs sz al)
  define p where "p = nat_place (map nat_field fs) 0"
  from CStruct.prems(1) obtain e where e: "placed fs 0 1 (e, al)" "sz = align_up e al" by auto
  have al: "unat al \<in> powers" "unat al = nat_align (map nat_field fs) 1"
    using shape_align(1) [OF CStruct.prems(1)] by (auto simp: Let_def simp del: One_nat_def)
  have total: "fst (nat_struct (CStruct fs sz al)) = round_up (snd p) (unat al)" by (simp add: p_def al(2) Let_def)
  have small: "snd p < 2 ^ 32" using CStruct.prems(2) round_up_ge [of "snd p" "unat al"] unfolding total by simp
  have nat: "list_all natural fs" using CStruct by (auto simp: list_all_iff)
  have void: "\<forall>f \<in> set fs. cf_type f = CSTRUCT_VOID \<longrightarrow> fs = [f] \<and> (0 :: 32 word) = 0" using CStruct.prems(1) by simp
  have pl: "map (\<lambda>f. unat (cf_offset f)) fs = fst p \<and> unat e = snd p \<and> in_order 0 fs (unat e) \<and>
      (\<forall>f \<in> set fs. snd (nat_field f) \<noteq> 0 \<longrightarrow> snd (nat_field f) dvd unat (cf_offset f))"
    using placed_natural [OF e(1) nat void, unfolded unat_0, folded p_def] small by blast
  have "al \<noteq> 0" using al(1) by (auto simp: powers_def)
  moreover have "round_up (unat e) (unat al) < 2 ^ 32" using CStruct.prems(2) pl unfolding total by simp
  ultimately have sz: "unat sz = round_up (snd p) (unat al)"
    using align_up_round [of al e] al(1) pl unfolding e(2) by simp
  have order: "in_order 0 fs (unat sz)" using pl in_order_mono round_up_ge unfolding sz by auto
  have "fits_field f" if f: "f \<in> set fs" for f
  proof -
    have "fst (nat_field f) < 2 ^ 32" using nat_place_part [of "nat_field f" "map nat_field fs" 0] f small by (auto simp: p_def)
    then show ?thesis using CStruct f by (auto simp: list_all_iff)
  qed
  then show ?case using order pl total sz by (simp add: list_all_iff p_def)
next
  case (CField name ty child count off esz)
  define c where "c = (if count = 0 then 1 else count)"
  have shape: "aligned (CField name ty child count off esz)" using shape_align(2) [OF CField.prems] .
  show ?case
  proof (cases child)
    case None
    then have ty: "ty \<noteq> CSTRUCT_STRUCT" "unat esz = type_size ty" "ty = CSTRUCT_CBSIZE \<longrightarrow> count = 0" using CField.prems by simp_all
    have "esz = 0 \<Longrightarrow> ty = CSTRUCT_VOID" using ty(1,2) by (cases ty) (simp_all add: type_size_def)
    with None ty shape show ?thesis by (simp add: natural_def extent_def elems_def fld_align_def)
  next
    case (Some cs)
    then have cs: "ty = CSTRUCT_STRUCT" "esz = cs_size cs" "shape_struct cs" using CField.prems by simp_all
    have "cs_align cs \<noteq> 0" using shape_align(1) [OF cs(3)] by (auto simp: powers_def)
    moreover have "c * fst (nat_struct cs) < 2 ^ 32 \<Longrightarrow> fst (nat_struct cs) < 2 ^ 32"
      by (rule le_less_trans [of _ "c * fst (nat_struct cs)"]) (simp add: c_def)
    then have "c * fst (nat_struct cs) < 2 ^ 32 \<Longrightarrow> fst (nat_struct cs) = unat (cs_size cs) \<and> fits_struct cs"
      using CField.IH [of cs] Some cs by simp
    ultimately show ?thesis using shape Some cs
      by (auto simp: natural_def extent_def elems_def fld_align_def case_prod_unfold Let_def c_def)
  qed
qed

text \<open>Definitions describe such structures.\<close>

lemma field_elem_shape:
  assumes "field_elem nested nfields ty array_size defs = Some (Inr (child, esz, al))"
    and "\<And>s cs. nested s = Some (Inr cs) \<Longrightarrow> shape_struct cs"
  shows "shape_field (CField name ty child (nat array_size) off esz) \<and>
     fld_align (CField name ty child (nat array_size) off esz) = (if al = 0 then esz else al) \<and>
     (ty = CSTRUCT_VOID \<longrightarrow> nfields = 1)"
proof (cases "ty = CSTRUCT_STRUCT")
  case True
  then obtain cs where cs: "nested (defs ! 3) = Some (Inr cs)" "child = Some cs" "esz = cs_size cs" "al = cs_align cs"
    using assms(1) by (auto simp: field_elem_def stepwise_Inr split: if_splits)
  then have "al \<noteq> 0" using shape_align(1) [OF assms(2) [OF cs(1)]] by (auto simp: powers_def)
  with cs assms(2) [OF cs(1)] True show ?thesis by (simp add: fld_align_def)
next
  case False
  then show ?thesis using assms(1) by (cases ty) (auto simp: field_elem_def fld_align_def type_size_def split: if_splits)
qed

lemma cast_field_shape:
  assumes "cast_field nested T nfields s off al = Some (Inr (f, off', al'))"
    and "\<And>s cs. nested s = Some (Inr cs) \<Longrightarrow> shape_struct cs"
  shows "shape_field f \<and> cf_offset f = align_up off (fld_align f) \<and> off' = cf_offset f + of_nat (elems f) * cf_size f \<and>
     al' = max al (fld_align f) \<and> (cf_type f = CSTRUCT_VOID \<longrightarrow> nfields = 1)"
proof -
  from assms(1) obtain defs ty array_size child esz al0 where
    el: "field_elem nested nfields ty array_size defs = Some (Inr (child, esz, al0))" "0 \<le> array_size"
    and f: "f = CField (defs ! 0) ty child (nat array_size) (align_up off (if al0 = 0 then esz else al0)) esz"
    and r: "off' = cf_offset f + (if array_size = 0 then esz else word_of_int array_size * esz)"
      "al' = (if al < (if al0 = 0 then esz else al0) then (if al0 = 0 then esz else al0) else al)"
    by (auto simp: cast_field_def stepwise_Inr Let_def)
  note shape = field_elem_shape [OF el(1) assms(2), where name = "defs ! 0" and off = "align_up off (if al0 = 0 then esz else al0)"]
  have "(of_nat (nat array_size) :: 32 word) = word_of_int array_size" using el(2) by (simp add: of_nat_nat)
  with shape r el(2) show ?thesis unfolding f by (auto simp: elems_def max_def)
qed

lemma cast_fields_shape:
  assumes "cast_fields nested T nfields ss off al = Some (Inr (fs, r))"
    and "\<And>s cs. nested s = Some (Inr cs) \<Longrightarrow> shape_struct cs"
  shows "placed fs off al r \<and> list_all shape_field fs \<and> length fs = length ss \<and> (\<forall>f \<in> set fs. cf_type f = CSTRUCT_VOID \<longrightarrow> nfields = 1)"
  using assms(1)
proof (induction ss arbitrary: off al fs r)
  case (Cons s ss)
  then obtain f off' al' fs' where f: "cast_field nested T nfields s off al = Some (Inr (f, off', al'))"
    and fs: "cast_fields nested T nfields ss off' al' = Some (Inr (fs', r))" "fs = f # fs'"
    by (auto simp: stepwise_Inr)
  from Cons.IH [OF fs(1)] cast_field_shape [OF f assms(2)] fs(2) show ?case by auto
qed simp

lemma cast_shape: "ObjCastToCStruct n T e s = Some (Inr cs) \<Longrightarrow> shape_struct cs"
proof (induction n arbitrary: e s cs)
  case (Suc n)
  then obtain fields fs off al where
    fs: "cast_fields (ObjCastToCStruct n T False) T (length fields) fields 0 1 = Some (Inr (fs, off, al))"
      "cs = CStruct fs (align_up off al) al"
    by (auto simp: stepwise_Inr)
  have shape: "placed fs 0 1 (off, al) \<and> list_all shape_field fs \<and> length fs = length fields \<and>
      (\<forall>f \<in> set fs. cf_type f = CSTRUCT_VOID \<longrightarrow> length fields = 1)"
    by (rule cast_fields_shape [OF fs(1) Suc.IH])
  have "fs = [f]" if "f \<in> set fs" "cf_type f = CSTRUCT_VOID" for f
    using that shape by (cases fs) auto
  with shape fs(2) show ?case by (auto simp: list_all_iff)
qed simp

section \<open>Nested definitions\<close>

text \<open>Elements of a list are not longer than the list, and shorter if there are several of them.\<close>

definition list_shrinks :: "ctcl \<Rightarrow> bool" where
  "list_shrinks T \<longleftrightarrow> (\<forall>s xs. t_list (c_w T) s = Some xs \<longrightarrow>
     (\<forall>x \<in> set xs. length x \<le> length s \<and> (2 \<le> length xs \<longrightarrow> length x < length s)))"

text \<open>Both sides agree and have a result.\<close>

definition agree :: "'x option \<Rightarrow> 'x option \<Rightarrow> bool" where
  "agree x y \<longleftrightarrow> x = y \<and> x \<noteq> None"

lemma agree_Some [intro]: "agree (Some x) (Some x)"
  by (simp add: agree_def)

lemma agree_stepwise: "agree r r' \<Longrightarrow> (\<And>x. r = Some (Inr x) \<Longrightarrow> agree (f x) (f' x)) \<Longrightarrow> agree (stepwise r f) (stepwise r' f')"
proof -
  assume r: "agree r r'" and f: "\<And>x. r = Some (Inr x) \<Longrightarrow> agree (f x) (f' x)"
  from r obtain v where v: "r = Some v" "r' = Some v" by (auto simp: agree_def)
  then show "agree (stepwise r f) (stepwise r' f')" using f by (cases v) auto
qed

lemma agree_need [intro]: "agree (need e x) (need e x)" and agree_check [intro]: "agree (check e b) (check e b)"
  by (simp_all add: agree_def)

lemma cast_field_agree:
  assumes law: "list_shrinks T" and nested: "\<And>d. length d < length s \<Longrightarrow> agree (nested d) (nested' d)"
  shows "agree (cast_field nested T nfields s off al) (cast_field nested' T nfields s off al)"
  unfolding cast_field_def
proof (intro agree_stepwise agree_need agree_check)
  fix defs ty array_size
  assume "need InvalidDefinition (t_list (c_w T) s) = Some (Inr defs)"
  then have "t_list (c_w T) s = Some defs" by simp
  then have "4 \<le> length defs \<Longrightarrow> length (defs ! 3) < length s" using law unfolding list_shrinks_def by (auto simp: nth_mem)
  then have "4 \<le> length defs \<Longrightarrow> agree (nested (defs ! 3)) (nested' (defs ! 3))" using nested by simp
  then show "agree (field_elem nested nfields ty array_size defs) (field_elem nested' nfields ty array_size defs)"
    by (cases ty) (auto simp: field_elem_def intro!: agree_stepwise)
qed (auto simp: Let_def)

lemma cast_fields_agree:
  assumes law: "list_shrinks T" and nested: "\<And>d. length d < k \<Longrightarrow> agree (nested d) (nested' d)"
  shows "\<forall>s \<in> set ss. length s \<le> k \<Longrightarrow> agree (cast_fields nested T nfields ss off al) (cast_fields nested' T nfields ss off al)"
proof (induction ss arbitrary: off al)
  case (Cons s ss)
  have "agree (cast_field nested T nfields s off al) (cast_field nested' T nfields s off al)" for off al
    by (rule cast_field_agree [OF law]) (use Cons.prems nested in auto)
  with Cons show ?case by (auto intro!: agree_stepwise split: prod.splits)
qed auto

lemma cast_agree:
  assumes law: "list_shrinks T"
  shows "length s < n \<Longrightarrow> length s < n' \<Longrightarrow> agree (ObjCastToCStruct n T e s) (ObjCastToCStruct n' T e s)"
proof (induction "length s" arbitrary: s n n' e rule: less_induct)
  case less
  then obtain i j where ij: "n = Suc i" "n' = Suc j" "length s \<le> i" "length s \<le> j" by (cases n; cases n') auto
  have nested: "agree (ObjCastToCStruct i T False d) (ObjCastToCStruct j T False d)" if "length d < length s" for d
    using less.hyps [OF that, of i j False] that ij by simp
  have "agree (cast_fields (ObjCastToCStruct i T False) T nf fs off al) (cast_fields (ObjCastToCStruct j T False) T nf fs off al)"
    if "t_list (c_w T) s = Some fs" for fs nf off al
    by (rule cast_fields_agree [OF law nested]) (use law that in \<open>auto simp: list_shrinks_def\<close>)
  then show ?case unfolding ij(1,2) by (auto intro!: agree_stepwise split: prod.splits)
qed

end
