(* ===== verification/Cstruct_Props.thy ===== *)
theory Cstruct_Props
  imports Cstruct_Layout Opaque_Props
begin

text \<open>
  What writing values into structures and reading them does. Writing stays within the structure (\<open>pack_stays\<close>); parts of a structure that
  are written and read back share the interface \<open>region_codec\<close>: elements and whole structures are such parts, and so are arrays of such
  parts and sequences of fields.
\<close>

section \<open>Parts of a buffer\<close>

definition same_outside :: "nat \<Rightarrow> nat \<Rightarrow> bytes \<Rightarrow> bytes \<Rightarrow> bool" where
  "same_outside lo n m m' \<longleftrightarrow> length m' = length m \<and> (\<forall>i < length m. i < lo \<or> lo + n \<le> i \<longrightarrow> m' ! i = m ! i)"

definition same_inside :: "nat \<Rightarrow> nat \<Rightarrow> bytes \<Rightarrow> bytes \<Rightarrow> bool" where
  "same_inside lo n m m' \<longleftrightarrow> lo + n \<le> length m \<and> length m' = length m \<and> (\<forall>i < n. m' ! (lo + i) = m ! (lo + i))"

lemma same_outside_refl [simp]: "same_outside lo n m m"
  by (simp add: same_outside_def)

lemma same_outside_trans:
  assumes "same_outside lo n m m'" "same_outside lo' n' m' m''" "lo1 \<le> lo" "lo + n \<le> lo1 + n1" "lo1 \<le> lo'" "lo' + n' \<le> lo1 + n1"
  shows "same_outside lo1 n1 m m''"
  using assms unfolding same_outside_def by auto

lemma same_outside_sub: "same_outside lo n m m' \<Longrightarrow> lo1 \<le> lo \<Longrightarrow> lo + n \<le> lo1 + n1 \<Longrightarrow> same_outside lo1 n1 m m'"
  unfolding same_outside_def by auto

lemma same_inside_sub: "same_inside lo n m m' \<Longrightarrow> lo \<le> lo1 \<Longrightarrow> lo1 + n1 \<le> lo + n \<Longrightarrow> same_inside lo1 n1 m m'"
  unfolding same_inside_def
proof safe
  fix i assume "lo \<le> lo1" "lo1 + n1 \<le> lo + n" "\<forall>i < n. m' ! (lo + i) = m ! (lo + i)" "i < n1"
  then show "m' ! (lo1 + i) = m ! (lo1 + i)" by (elim allE [of _ "lo1 + i - lo"]) simp
qed auto

lemma outside_inside:
  "same_outside lo n m m' \<Longrightarrow> lo1 + n1 \<le> length m \<Longrightarrow> lo1 + n1 \<le> lo \<or> lo + n \<le> lo1 \<Longrightarrow> same_inside lo1 n1 m m'"
  unfolding same_outside_def same_inside_def by auto

lemma buf_put_outside: "i + length bs \<le> length m \<Longrightarrow> \<exists>m'. buf_put m i bs = Some m' \<and> same_outside i (length bs) m m'"
  by (auto simp: buf_put_def same_outside_def over_def nth_append)

lemma read_le_put:
  assumes "buf_put m i (le n v) = Some m'"
  shows "read_le (drop i m') n = Some (v mod 256 ^ n)"
proof -
  have m': "m' = take i m @ le n v @ drop (i + n) m" "i + n \<le> length m"
    using assms by (auto simp: buf_put_def over_def split: if_splits)
  then have "drop i m' = le n v @ drop (i + n) m" by simp
  then have "read_le (drop i m') n = Some (\<Sum>j<n. uint (word_of_int (v div 256 ^ j) :: 8 word) * 256 ^ j)"
    by (simp add: read_le_def nth_append le_def)
  then show ?thesis by (simp only: le_sum)
qed

lemma read_le_inside: "same_inside i n m m' \<Longrightarrow> read_le (drop i m') n = read_le (drop i m) n"
  by (simp add: read_le_def same_inside_def)

section \<open>Writing stays in a region\<close>

definition stays :: "'v packer \<Rightarrow> nat \<Rightarrow> nat \<Rightarrow> bool" where
  "stays p off n \<longleftrightarrow> (\<forall>pos x m. pos + off + n \<le> length m \<longrightarrow>
     (\<exists>r. p pos x m = Some r \<and> (\<forall>m'. r = Inr m' \<longrightarrow> same_outside (pos + off) n m m')))"

lemma staysD:
  assumes "stays p off n" "pos + off + n \<le> length m"
  shows "(\<exists>e. p pos x m = Some (Inl e)) \<or> (\<exists>m'. p pos x m = Some (Inr m') \<and> same_outside (pos + off) n m m')"
proof -
  from assms obtain r where "p pos x m = Some r" "\<forall>m'. r = Inr m' \<longrightarrow> same_outside (pos + off) n m m'"
    unfolding stays_def by blast
  then show ?thesis by (cases r) auto
qed

lemma stays_sub: "stays p off n \<Longrightarrow> off1 \<le> off \<Longrightarrow> off + n \<le> off1 + n1 \<Longrightarrow> stays p off1 n1"
  unfolding stays_def
proof (intro allI impI)
  fix pos x and m :: bytes
  assume s: "\<forall>pos x m. pos + off + n \<le> length m \<longrightarrow> (\<exists>r. p pos x m = Some r \<and> (\<forall>m'. r = Inr m' \<longrightarrow> same_outside (pos + off) n m m'))"
    and le: "off1 \<le> off" "off + n \<le> off1 + n1" "pos + off1 + n1 \<le> length m"
  then have "pos + off + n \<le> length m" by simp
  with s obtain r where "p pos x m = Some r" "\<forall>m'. r = Inr m' \<longrightarrow> same_outside (pos + off) n m m'" by blast
  then show "\<exists>r. p pos x m = Some r \<and> (\<forall>m'. r = Inr m' \<longrightarrow> same_outside (pos + off1) n1 m m')"
    using same_outside_sub [of "pos + off" n m _ "pos + off1" n1] le by auto
qed

lemma stays_elems: "stays p 0 n \<Longrightarrow> pos + length xs * n \<le> length m \<Longrightarrow>
    \<exists>r. pack_elems p n xs pos m = Some r \<and> (\<forall>m'. r = Inr m' \<longrightarrow> same_outside pos (length xs * n) m m')"
proof (induction xs arbitrary: pos m)
  case (Cons x xs)
  from Cons.prems have "pos + 0 + n \<le> length m" by simp
  from staysD [OF Cons.prems(1) this, of x] show ?case
  proof (elim disjE exE conjE)
    fix m1 assume m1: "p pos x m = Some (Inr m1)" "same_outside (pos + 0) n m m1"
    then have "pos + n + length xs * n \<le> length m1" using Cons.prems(2) by (simp add: same_outside_def add.assoc)
    from Cons.IH [OF Cons.prems(1) this] obtain r where
      r: "pack_elems p n xs (pos + n) m1 = Some r" "\<forall>m'. r = Inr m' \<longrightarrow> same_outside (pos + n) (length xs * n) m1 m'"
      by blast
    have "same_outside pos (length (x # xs) * n) m m'" if "r = Inr m'" for m'
      by (rule same_outside_trans [OF m1(2) r(2) [rule_format, OF that]]) simp_all
    then show ?thesis using m1(1) r(1) by simp
  qed simp
qed simp

lemma stays_run:
  assumes "in_order lo fs hi" "\<forall>f \<in> set fs. stays (P f) (unat (cf_offset f)) (extent f)" "base + hi \<le> length m"
  shows "\<exists>r. run_packers (map P fs) vs base m = Some r \<and> (\<forall>m'. r = Inr m' \<longrightarrow> same_outside (base + lo) (hi - lo) m m')"
  using assms
proof (induction fs arbitrary: lo vs m)
  case (Cons f fs)
  show ?case
  proof (cases vs)
    case (Cons v vs')
    define mid where "mid = unat (cf_offset f) + extent f"
    have le: "lo \<le> unat (cf_offset f)" "mid \<le> hi"
      using in_order_bounds [OF Cons.prems(1), of f] by (simp_all add: mid_def)
    then have fit: "base + unat (cf_offset f) + extent f \<le> length m" using Cons.prems(3) by (simp add: mid_def)
    have "stays (P f) (unat (cf_offset f)) (extent f)" using Cons.prems(2) by simp
    from staysD [OF this fit, of v] have "(\<exists>e. P f base v m = Some (Inl e)) \<or>
        (\<exists>m1. P f base v m = Some (Inr m1) \<and> same_outside (base + unat (cf_offset f)) (extent f) m m1)" .
    then show ?thesis
    proof (elim disjE exE conjE)
      fix m1 assume m1: "P f base v m = Some (Inr m1)" "same_outside (base + unat (cf_offset f)) (extent f) m m1"
      have "in_order mid fs hi" "base + hi \<le> length m1"
        using Cons.prems(1,3) m1(2) by (simp_all add: mid_def same_outside_def)
      from Cons.IH [OF this(1) _ this(2), of vs'] Cons.prems(2) obtain r where
        r: "run_packers (map P fs) vs' base m1 = Some r" "\<forall>m'. r = Inr m' \<longrightarrow> same_outside (base + mid) (hi - mid) m1 m'"
        by auto
      have "same_outside (base + lo) (hi - lo) m m'" if "r = Inr m'" for m'
        by (rule same_outside_trans [OF m1(2) r(2) [rule_format, OF that]]) (use le in \<open>simp_all add: mid_def\<close>)
      then show ?thesis using m1(1) r(1) Cons by simp
    qed (simp add: Cons)
  qed simp
qed simp

lemma length_enc_elem: "enc_elem T ty x = Inr bs \<Longrightarrow> length bs = type_size ty"
  by (auto simp: enc_elem_def type_size_def Let_def split: ctype.splits option.splits sum.splits)

lemma pack_cbsize_stays: "stays (pack_cbsize T sz) 0 4"
  unfolding stays_def
proof (intro allI impI)
  fix pos x and m :: bytes
  assume fit: "pos + 0 + 4 \<le> length m"
  show "\<exists>r. pack_cbsize T sz pos x m = Some r \<and> (\<forall>m'. r = Inr m' \<longrightarrow> same_outside (pos + 0) 4 m m')"
  proof (cases "t_int (c_w T) x")
    case (Some n)
    obtain m1 where m1: "buf_put m pos (le 4 n) = Some m1" "same_outside pos 4 m m1"
      using buf_put_outside [of pos "le 4 n" m] fit by auto
    then obtain m2 where m2: "buf_put m1 pos (le 4 (uint sz)) = Some m2" "same_outside pos 4 m1 m2"
      using buf_put_outside [of pos "le 4 (uint sz)" m1] fit by (auto simp: same_outside_def)
    have "same_outside pos 4 m m2" by (rule same_outside_trans [OF m1(2) m2(2)]) simp_all
    then show ?thesis using Some m1 m2 by (simp add: pack_cbsize_def Let_def)
  qed (simp add: pack_cbsize_def)
qed

lemma pack_elem_stays: "ty \<noteq> CSTRUCT_STRUCT \<Longrightarrow> stays (pack_elem T sz ty nested esz) 0 (type_size ty)"
proof (cases "ty = CSTRUCT_CBSIZE")
  case True
  have "pack_elem T sz CSTRUCT_CBSIZE nested esz = pack_cbsize T sz" by (intro ext) (simp add: pack_elem_def)
  with True show ?thesis using pack_cbsize_stays by (simp add: type_size_def)
next
  case False
  assume "ty \<noteq> CSTRUCT_STRUCT"
  with False have eq: "pack_elem T sz ty nested esz pos x m =
      stepwise (Some (enc_elem T ty x)) (\<lambda>bs. map_option Inr (buf_put m pos bs))" for pos x m
    by (cases ty) (simp_all add: pack_elem_def)
  show ?thesis
    unfolding stays_def
  proof (intro allI impI)
    fix pos x and m :: bytes
    assume fit: "pos + 0 + type_size ty \<le> length m"
    show "\<exists>r. pack_elem T sz ty nested esz pos x m = Some r \<and> (\<forall>m'. r = Inr m' \<longrightarrow> same_outside (pos + 0) (type_size ty) m m')"
    proof (cases "enc_elem T ty x")
      case (Inr bs)
      then show ?thesis using buf_put_outside [of pos bs m] length_enc_elem [OF Inr] fit by (auto simp: eq)
    qed (simp add: eq)
  qed
qed

lemma pack_elem_nested: "stays (p esz) 0 n \<Longrightarrow> stays (pack_elem T sz CSTRUCT_STRUCT (Some p) esz) 0 n"
  unfolding stays_def
proof (intro allI impI)
  fix pos x and m :: bytes
  assume s: "\<forall>pos x m. pos + 0 + n \<le> length m \<longrightarrow> (\<exists>r. p esz pos x m = Some r \<and> (\<forall>m'. r = Inr m' \<longrightarrow> same_outside (pos + 0) n m m'))"
    and fit: "pos + 0 + n \<le> length m"
  then obtain r where "p esz pos x m = Some r" "\<forall>m'. r = Inr m' \<longrightarrow> same_outside (pos + 0) n m m'" by blast
  then show "\<exists>r. pack_elem T sz CSTRUCT_STRUCT (Some p) esz pos x m = Some r \<and> (\<forall>m'. r = Inr m' \<longrightarrow> same_outside (pos + 0) n m m')"
    by (cases r) (simp_all add: pack_elem_def)
qed

lemma pack_field_stays:
  assumes p: "stays (pack_elem T sz ty (map_option (\<lambda>q. q T) (map_option pack_struct child)) esz) 0 (unat esz)"
  shows "stays (pack_field (CField name ty child count off esz) T sz) (unat off) ((if count = 0 then 1 else count) * unat esz)"
  unfolding stays_def
proof (intro allI impI)
  fix base v and m :: bytes
  define q where "q = pack_elem T sz ty (map_option (\<lambda>q. q T) (map_option pack_struct child)) esz"
  assume fit: "base + unat off + (if count = 0 then 1 else count) * unat esz \<le> length m"
  show "\<exists>r. pack_field (CField name ty child count off esz) T sz base v m = Some r \<and>
      (\<forall>m'. r = Inr m' \<longrightarrow> same_outside (base + unat off) ((if count = 0 then 1 else count) * unat esz) m m')"
  proof (cases "count = 0")
    case True
    then show ?thesis using p [folded q_def] fit unfolding stays_def by (simp add: q_def [symmetric] Let_def)
  next
    case False
    show ?thesis
    proof (cases "\<exists>xs. t_list (c_w T) v = Some xs \<and> count \<le> length xs \<and> ty \<noteq> CSTRUCT_VOID")
      case True
      then obtain xs where xs: "t_list (c_w T) v = Some xs" "count \<le> length xs" "ty \<noteq> CSTRUCT_VOID" by blast
      then have "base + unat off + length (take count xs) * unat esz \<le> length m" using fit False by simp
      moreover have "length (take count xs) = count" using xs(2) by simp
      ultimately show ?thesis using stays_elems [OF p [folded q_def], of "base + unat off" "take count xs" m] xs False
        by (simp add: q_def [symmetric] Let_def del: length_take)
    next
      case no: False
      then show ?thesis using False
        by (cases "t_list (c_w T) v") (auto simp: Let_def check_def stepwise_def)
    qed
  qed
qed

lemma pack_stays:
  shows "fits_struct cs \<Longrightarrow> stays (pack_struct cs T expected) 0 (unat (cs_size cs))"
    and "fits_field f \<Longrightarrow> stays (pack_field f T sz) (unat (cf_offset f)) (extent f)"
proof (induction cs and f arbitrary: expected and sz)
  case (CStruct fs sz al)
  have fs: "in_order 0 fs (unat sz)" "\<forall>f \<in> set fs. stays (pack_field f T sz) (unat (cf_offset f)) (extent f)"
    using CStruct by (auto simp: list_all_iff)
  show ?case
    unfolding stays_def
  proof (intro allI impI)
    fix base v and m :: bytes
    assume "base + 0 + unat (cs_size (CStruct fs sz al)) \<le> length m"
    then have fit: "base + unat sz \<le> length m" by simp
    have "(\<exists>e. pack_struct (CStruct fs sz al) T expected base v m = Some (Inl e)) \<or>
        (\<exists>vs. pack_struct (CStruct fs sz al) T expected base v m = run_packers (map (\<lambda>f. pack_field f T sz) fs) vs base m)"
      by (cases "sz = expected"; cases "t_list (c_w T) v"; auto simp: o_def check_def stepwise_def)
    then show "\<exists>r. pack_struct (CStruct fs sz al) T expected base v m = Some r \<and>
        (\<forall>m'. r = Inr m' \<longrightarrow> same_outside (base + 0) (unat (cs_size (CStruct fs sz al))) m m')"
      using stays_run [OF fs fit] by (elim disjE exE) auto
  qed
next
  case (CField name ty child count off esz)
  show ?case
  proof (cases child)
    case None
    then have ty: "ty \<noteq> CSTRUCT_STRUCT" "unat esz = type_size ty" using CField.prems by simp_all
    have "stays (pack_elem T sz ty (map_option (\<lambda>q. q T) (map_option pack_struct child)) esz) 0 (unat esz)"
      unfolding ty(2) by (rule pack_elem_stays [OF ty(1)])
    from pack_field_stays [OF this] show ?thesis
      by (simp only: cfield.sel extent_def elems_def)
  next
    case (Some cs)
    then have cs: "ty = CSTRUCT_STRUCT" "esz = cs_size cs" "fits_struct cs" using CField.prems by simp_all
    have "stays (pack_struct cs T esz) 0 (unat esz)" using CField.IH [of cs] Some cs by simp
    from pack_elem_nested [where p = "pack_struct cs T", OF this] show ?thesis
      using pack_field_stays [of T sz ty child esz name count off] Some cs(1)
      by (simp only: cfield.sel extent_def elems_def option.map)
  qed
qed

section \<open>Values that are read back\<close>

text \<open>
  A part of a buffer that is written and read: \<open>p\<close> writes values of a set and nothing outside of the part, \<open>u\<close> reads what \<open>shown\<close> gives of
  the value, and looks at nothing outside of the part.
\<close>

locale region_codec =
  fixes p :: "nat \<Rightarrow> 'v \<Rightarrow> bytes \<Rightarrow> (cs_error + bytes) option" and u :: "nat \<Rightarrow> bytes \<Rightarrow> (cs_error + 'r) option"
    and off n :: nat and good :: "'v \<Rightarrow> bool" and shown :: "'v \<Rightarrow> 'r"
  assumes write_read: "good x \<Longrightarrow> pos + off + n \<le> length m \<Longrightarrow>
      \<exists>m'. p pos x m = Some (Inr m') \<and> same_outside (pos + off) n m m' \<and> u pos m' = Some (Inr (shown x))"
    and reads_inside: "good x \<Longrightarrow> same_inside (pos + off) n m m' \<Longrightarrow> u pos m' = u pos m"
begin

lemma still_read:
  assumes "good x" "u pos m = Some (Inr (shown x))" "same_outside lo k m m'" "pos + off + n \<le> length m"
    and "pos + off + n \<le> lo \<or> lo + k \<le> pos + off"
  shows "u pos m' = Some (Inr (shown x))"
  using reads_inside [OF assms(1) outside_inside [OF assms(3,4,5)]] assms(2) by simp

lemma elems_write_read:
  assumes "off = 0" "list_all good xs" "pos + length xs * n \<le> length m"
  shows "\<exists>m'. pack_elems p n xs pos m = Some (Inr m') \<and> same_outside pos (length xs * n) m m' \<and>
    unpack_elems u n (length xs) pos m' = Some (Inr (map shown xs))"
  using assms(2,3)
proof (induction xs arbitrary: pos m)
  case (Cons x xs)
  then have fit: "pos + off + n \<le> length m" using assms(1) by simp
  obtain m1 where m1: "p pos x m = Some (Inr m1)" "same_outside (pos + off) n m m1" "u pos m1 = Some (Inr (shown x))"
    using write_read [of x pos m] Cons.prems(1) fit by auto
  then have "pos + n + length xs * n \<le> length m1" using Cons.prems(2) by (simp add: same_outside_def add.assoc)
  from Cons.IH [OF _ this] Cons.prems(1) obtain m2 where
    m2: "pack_elems p n xs (pos + n) m1 = Some (Inr m2)" "same_outside (pos + n) (length xs * n) m1 m2"
      "unpack_elems u n (length xs) (pos + n) m2 = Some (Inr (map shown xs))" by auto
  have "u pos m2 = Some (Inr (shown x))"
    by (rule still_read [OF _ m1(3) m2(2)]) (use Cons.prems(1) fit m1(2) assms(1) in \<open>auto simp: same_outside_def\<close>)
  moreover have "same_outside pos (length (x # xs) * n) m m2"
    by (rule same_outside_trans [OF m1(2) m2(2)]) (use assms(1) in simp_all)
  ultimately show ?case using m1(1) m2 by auto
qed simp

lemma elems_reads_inside:
  assumes "off = 0" "list_all good xs" "same_inside pos (length xs * n) m m'"
  shows "unpack_elems u n (length xs) pos m' = unpack_elems u n (length xs) pos m"
  using assms(2,3)
proof (induction xs arbitrary: pos)
  case (Cons x xs)
  have "u pos m' = u pos m"
    by (rule reads_inside [of x]) (use Cons.prems assms(1) in \<open>auto intro: same_inside_sub\<close>)
  moreover have "unpack_elems u n (length xs) (pos + n) m' = unpack_elems u n (length xs) (pos + n) m"
    by (rule Cons.IH) (use Cons.prems in \<open>auto intro: same_inside_sub\<close>)
  ultimately show ?case by simp
qed simp

end

text \<open>The fields of a structure, one after the other.\<close>

lemma region_run:
  assumes "in_order lo fs hi"
    and "\<forall>f \<in> set fs. region_codec (P f) (U f) (unat (cf_offset f)) (extent f) (G f) (\<lambda>v. [v])"
  shows "region_codec (\<lambda>base vs m. run_packers (map P fs) vs base m) (\<lambda>base m. run_unpackers (map U fs) base m) lo (hi - lo)
    (\<lambda>vs. list_all2 G fs vs) (\<lambda>vs. vs)"
  using assms
proof (induction fs arbitrary: lo)
  case Nil
  show ?case by unfold_locales auto
next
  case (Cons f fs)
  define mid where "mid = unat (cf_offset f) + extent f"
  have le: "lo \<le> unat (cf_offset f)" "mid \<le> hi"
    using in_order_bounds [OF Cons.prems(1), of f] by (simp_all add: mid_def)
  have head: "region_codec (P f) (U f) (unat (cf_offset f)) (extent f) (G f) (\<lambda>v. [v])" using Cons.prems(2) by simp
  have tail: "region_codec (\<lambda>base vs m. run_packers (map P fs) vs base m) (\<lambda>base m. run_unpackers (map U fs) base m) mid (hi - mid)
      (\<lambda>vs. list_all2 G fs vs) (\<lambda>vs. vs)"
    using Cons by (simp add: mid_def)
  show ?case
  proof
    fix vs pos and m :: bytes
    assume "list_all2 G (f # fs) vs" and fit: "pos + lo + (hi - lo) \<le> length m"
    then obtain v vs' where vs: "vs = v # vs'" "G f v" "list_all2 G fs vs'" by (auto simp: list_all2_Cons1)
    have fits: "pos + unat (cf_offset f) + extent f \<le> length m" using fit le by (simp add: mid_def)
    from region_codec.write_read [OF head, OF vs(2) fits] obtain m1 where
      m1: "P f pos v m = Some (Inr m1)" "same_outside (pos + unat (cf_offset f)) (extent f) m m1" "U f pos m1 = Some (Inr [v])" by blast
    then have "pos + mid + (hi - mid) \<le> length m1" using fit le by (simp add: same_outside_def)
    from region_codec.write_read [OF tail, OF vs(3) this] obtain m2 where
      m2: "run_packers (map P fs) vs' pos m1 = Some (Inr m2)" "same_outside (pos + mid) (hi - mid) m1 m2"
        "run_unpackers (map U fs) pos m2 = Some (Inr vs')" by blast
    have "U f pos m2 = Some (Inr [v])"
      by (rule region_codec.still_read [OF head, OF vs(2) m1(3) m2(2)]) (use fits m1(2) in \<open>auto simp: same_outside_def mid_def\<close>)
    moreover have "same_outside (pos + lo) (hi - lo) m m2"
      by (rule same_outside_trans [OF m1(2) m2(2)]) (use le in \<open>simp_all add: mid_def\<close>)
    ultimately show "\<exists>m'. run_packers (map P (f # fs)) vs pos m = Some (Inr m') \<and> same_outside (pos + lo) (hi - lo) m m' \<and>
        run_unpackers (map U (f # fs)) pos m' = Some (Inr vs)"
      using m1(1) m2 vs(1) by auto
  next
    fix vs pos and m m' :: bytes
    assume "list_all2 G (f # fs) vs" and same: "same_inside (pos + lo) (hi - lo) m m'"
    then obtain v vs' where vs: "G f v" "list_all2 G fs vs'" by (auto simp: list_all2_Cons1)
    have "U f pos m' = U f pos m"
      by (rule region_codec.reads_inside [OF head, OF vs(1)]) (rule same_inside_sub [OF same], use le in \<open>simp_all add: mid_def\<close>)
    moreover have "run_unpackers (map U fs) pos m' = run_unpackers (map U fs) pos m"
      by (rule region_codec.reads_inside [OF tail, OF vs(2)]) (rule same_inside_sub [OF same], use le in \<open>simp_all add: mid_def\<close>)
    ultimately show "run_unpackers (map U (f # fs)) pos m' = run_unpackers (map U (f # fs)) pos m" by simp
  qed
qed

text \<open>What is used of Tcl: lists and numbers, and the numbers of \<open>long\<close>, which are taken modulo \<open>2 ^ 32\<close>.\<close>

definition ctcl_law :: "ctcl \<Rightarrow> bool" where
  "ctcl_law T \<longleftrightarrow> wtcl_law (c_w T) \<and> opaque_law (c_o T) \<and> (\<forall>b. t_bool (c_w T) (ObjFromBoolean b) = Some b) \<and>
     (\<forall>n. - (2 ^ 31) \<le> n \<longrightarrow> n < 2 ^ 32 \<longrightarrow> c_long T (w_print (c_w T) n) = Some (signed32 n))"

text \<open>
  Strings in the form in which elements are read: numbers in the range of their type, and strings, floating point numbers and identifiers
  that are found again at the address, or in the bits, that were stored. \<open>sz\<close> is the size of the structure.
\<close>

definition canon_leaf :: "ctcl \<Rightarrow> 32 word \<Rightarrow> ctype \<Rightarrow> string \<Rightarrow> bool" where
  "canon_leaf T sz ty x \<longleftrightarrow>
     (let num = (\<lambda>lo hi. \<exists>n. lo \<le> n \<and> n < hi \<and> x = w_print (c_w T) n)
      in case ty of
        CSTRUCT_BOOLEAN \<Rightarrow> x = ObjFromBoolean True \<or> x = ObjFromBoolean False
      | CSTRUCT_CHAR \<Rightarrow> num (- (2 ^ 7)) (2 ^ 7) | CSTRUCT_UCHAR \<Rightarrow> num 0 (2 ^ 8)
      | CSTRUCT_SHORT \<Rightarrow> num (- (2 ^ 15)) (2 ^ 15) | CSTRUCT_USHORT \<Rightarrow> num 0 (2 ^ 16)
      | CSTRUCT_INT \<Rightarrow> num (- (2 ^ 31)) (2 ^ 31) | CSTRUCT_UINT \<Rightarrow> num 0 (2 ^ 32)
      | CSTRUCT_INT64 \<Rightarrow> num (- (2 ^ 63)) (2 ^ 63) | CSTRUCT_UINT64 \<Rightarrow> num (- (2 ^ 63)) (2 ^ 63)
      | CSTRUCT_CBSIZE \<Rightarrow> num 1 (min (2 ^ 31) (uint sz + 1))
      | CSTRUCT_FLOAT \<Rightarrow> \<exists>w. ObjToFloat T x = Some w \<and> x = c_print_float T w
      | CSTRUCT_DOUBLE \<Rightarrow> \<exists>w. c_double T x = Some w \<and> x = c_print_double T w
      | CSTRUCT_HANDLE \<Rightarrow> \<exists>h < 2 ^ 64. x = ObjFromHANDLE T h
      | CSTRUCT_STRING \<Rightarrow> c_get_str T (c_str T x) = Some x
      | CSTRUCT_WSTRING \<Rightarrow> c_get_wstr T (c_wstr T x) = Some x
      | CSTRUCT_PSID \<Rightarrow> \<exists>p. c_sid T x = Some p \<and> c_get_sid T p = Some x
      | CSTRUCT_VOID \<Rightarrow> False | CSTRUCT_STRUCT \<Rightarrow> False)"

lemma ctcl_laws:
  assumes "ctcl_law T"
  shows "t_list (c_w T) (t_mklist (c_w T) xs) = Some xs"
    and "- (2 ^ 31) \<le> n \<Longrightarrow> n < 2 ^ 31 \<Longrightarrow> t_int (c_w T) (w_print (c_w T) n) = Some n"
    and "- (2 ^ 63) \<le> n \<Longrightarrow> n < 2 ^ 63 \<Longrightarrow> t_wide (c_w T) (w_print (c_w T) n) = Some n"
    and "- (2 ^ 31) \<le> n \<Longrightarrow> n < 2 ^ 32 \<Longrightarrow> c_long T (w_print (c_w T) n) = Some (signed32 n)"
    and "t_bool (c_w T) (ObjFromBoolean b) = Some b"
  using assms by (auto simp: ctcl_law_def wtcl_law_def)

lemma handle_read: "ctcl_law T \<Longrightarrow> h < 2 ^ 64 \<Longrightarrow> ObjToHANDLE T (ObjFromHANDLE T h) = Some h"
  using set_opaque_shimmered [of "c_o T" h "Some ''HANDLE''"]
  by (simp add: ctcl_law_def ObjToHANDLE_def ObjFromHANDLE_def ObjToLPVOID_def ObjToOpaque_def shimmer_def)

lemma uint_wrapped: "uint (word_of_int n :: 'a::len word) = n mod 2 ^ LENGTH('a)"
  by (simp add: unsigned_of_int take_bit_eq_mod)

lemma sint_wrapped:
  assumes "- (2 ^ (LENGTH('a) - 1)) \<le> n" "n < 2 ^ (LENGTH('a) - 1)"
  shows "sint (word_of_int (n mod 2 ^ LENGTH('a)) :: 'a::len word) = n"
proof -
  have "(word_of_int (n mod 2 ^ LENGTH('a)) :: 'a word) = word_of_int n"
    unfolding uint_wrapped [symmetric, where 'a = 'a] by simp
  then show ?thesis using assms by (simp add: signed_of_int signed_take_bit_int_eq_self)
qed

lemmas wrapped = sint_wrapped [where 'a = 8, simplified] sint_wrapped [where 'a = 16, simplified]
  sint_wrapped [where 'a = 32, simplified] sint_wrapped [where 'a = 64, simplified]

lemma signed32_mod: "signed32 n mod 2 ^ 32 = n mod 2 ^ 32"
proof -
  have "uint (word_of_int (signed32 n) :: 32 word) = uint (word_of_int n :: 32 word)" by (simp add: signed32_def)
  then show ?thesis by (simp add: uint_wrapped)
qed

lemma word_int_mod: "word_of_int (uint w mod 2 ^ LENGTH('a)) = (w :: 'a::len word)"
  using uint_wrapped [of "uint w", where 'a = 'a] by simp

lemmas word_bits = word_int_mod [where 'a = 32, simplified] word_int_mod [where 'a = 64, simplified]

lemmas leaf_defs = canon_leaf_def enc_elem_def dec_val_def type_size_def Let_def

lemma leaf_read:
  assumes law: "ctcl_law T" and x: "canon_leaf T sz ty x" and ty: "ty \<noteq> CSTRUCT_CBSIZE"
  shows "\<exists>v. enc_elem T ty x = Inr (le (type_size ty) v) \<and> dec_val T ty (v mod 256 ^ type_size ty) = Some (Inr x)"
proof (cases ty)
  case CSTRUCT_BOOLEAN
  then show ?thesis using x ctcl_laws(5) [OF law] by (auto simp: leaf_defs)
next
  case CSTRUCT_CHAR
  then show ?thesis using x ctcl_laws(2) [OF law] wrapped(1) by (auto simp: leaf_defs ObjToCHAR_def ObjToRangedInt_def uint_wrapped)
next
  case CSTRUCT_UCHAR
  then show ?thesis using x ctcl_laws(2) [OF law] by (auto simp: leaf_defs ObjToUCHAR_def ObjToRangedInt_def uint_wrapped)
next
  case CSTRUCT_SHORT
  then show ?thesis using x ctcl_laws(2) [OF law] wrapped(2) by (auto simp: leaf_defs ObjToSHORT_def ObjToRangedInt_def uint_wrapped)
next
  case CSTRUCT_USHORT
  then show ?thesis using x ctcl_laws(2) [OF law] by (auto simp: leaf_defs ObjToUSHORT_def ObjToRangedInt_def uint_wrapped)
next
  case CSTRUCT_INT
  then show ?thesis using x ctcl_laws(4) [OF law] signed32_mod wrapped(3) by (auto simp: leaf_defs signed32_def)
next
  case CSTRUCT_UINT
  then show ?thesis using x ctcl_laws(4) [OF law] signed32_mod by (auto simp: leaf_defs)
next
  case CSTRUCT_INT64
  then show ?thesis using x ctcl_laws(3) [OF law] wrapped(4) by (auto simp: leaf_defs signed64_def)
next
  case CSTRUCT_UINT64
  then show ?thesis using x ctcl_laws(3) [OF law] wrapped(4) by (auto simp: leaf_defs signed64_def)
next
  case CSTRUCT_FLOAT
  then obtain w where "ObjToFloat T x = Some w" "x = c_print_float T w" using x by (auto simp: leaf_defs)
  with CSTRUCT_FLOAT show ?thesis by (intro exI [of _ "uint w"]) (simp add: leaf_defs word_bits)
next
  case CSTRUCT_DOUBLE
  then obtain w where "c_double T x = Some w" "x = c_print_double T w" using x by (auto simp: leaf_defs)
  with CSTRUCT_DOUBLE show ?thesis by (intro exI [of _ "uint w"]) (simp add: leaf_defs word_bits)
next
  case CSTRUCT_HANDLE
  then show ?thesis using x handle_read [OF law] by (auto simp: leaf_defs)
next
  case CSTRUCT_STRING
  with x show ?thesis by (intro exI [of _ "uint (c_str T x)"]) (simp add: leaf_defs word_bits)
next
  case CSTRUCT_WSTRING
  with x show ?thesis by (intro exI [of _ "uint (c_wstr T x)"]) (simp add: leaf_defs word_bits)
next
  case CSTRUCT_PSID
  then obtain p where "c_sid T x = Some p" "c_get_sid T p = Some x" using x by (auto simp: leaf_defs)
  with CSTRUCT_PSID show ?thesis by (intro exI [of _ "uint p"]) (simp add: leaf_defs word_bits)
qed (use x ty in \<open>simp_all add: leaf_defs\<close>)

lemma leaf_codec:
  "region_codec (pack_elem T sz ty nested esz) (dec_elem T ty) 0 (type_size ty) (\<lambda>x. ctcl_law T \<and> canon_leaf T sz ty x) (\<lambda>x. x)"
proof
  fix x pos and m :: bytes
  assume good: "ctcl_law T \<and> canon_leaf T sz ty x" and fit: "pos + 0 + type_size ty \<le> length m"
  show "\<exists>m'. pack_elem T sz ty nested esz pos x m = Some (Inr m') \<and> same_outside (pos + 0) (type_size ty) m m' \<and>
      dec_elem T ty pos m' = Some (Inr x)"
  proof (cases "ty = CSTRUCT_CBSIZE")
    case True
    then obtain n where n: "1 \<le> n" "n < min (2 ^ 31) (uint sz + 1)" "x = w_print (c_w T) n" using good by (auto simp: leaf_defs)
    then have int: "t_int (c_w T) x = Some n" "uint (word_of_int n :: 32 word) = n"
      using ctcl_laws(2) [of T n] good by (simp_all add: uint_wrapped)
    obtain m1 where m1: "buf_put m pos (le 4 n) = Some m1" "same_outside pos 4 m m1"
      using buf_put_outside [of pos "le 4 n" m] fit True by (auto simp: type_size_def)
    have "\<not> sz < (word_of_int n :: 32 word)" "(word_of_int n :: 32 word) \<noteq> 0"
      using n int(2) by (auto simp: word_less_def)
    then have "pack_elem T sz ty nested esz pos x m = Some (Inr m1)"
      using True int(1) m1(1) by (simp add: pack_elem_def pack_cbsize_def Let_def)
    moreover have "dec_elem T ty pos m1 = Some (Inr x)"
      using read_le_put [OF m1(1)] n True by (simp add: dec_elem_def dec_val_def type_size_def)
    ultimately show ?thesis using m1(2) True by (simp add: type_size_def)
  next
    case False
    from good leaf_read [OF _ _ False] obtain v where
      v: "enc_elem T ty x = Inr (le (type_size ty) v)" "dec_val T ty (v mod 256 ^ type_size ty) = Some (Inr x)" by blast
    obtain m1 where m1: "buf_put m pos (le (type_size ty) v) = Some m1" "same_outside pos (type_size ty) m m1"
      using buf_put_outside [of pos "le (type_size ty) v" m] fit by auto
    have "ty \<noteq> CSTRUCT_STRUCT" using good by (auto simp: leaf_defs)
    then have "pack_elem T sz ty nested esz pos x m = Some (Inr m1)"
      using False v(1) m1(1) by (cases ty) (simp_all add: pack_elem_def)
    then show ?thesis using read_le_put [OF m1(1)] m1(2) v(2) by (simp add: dec_elem_def)
  qed
next
  fix x pos and m m' :: bytes
  assume "same_inside (pos + 0) (type_size ty) m m'"
  then show "dec_elem T ty pos m' = dec_elem T ty pos m" by (simp add: dec_elem_def read_le_inside)
qed

text \<open>Values of a structure.\<close>

primrec canon_struct :: "cstruct \<Rightarrow> ctcl \<Rightarrow> string \<Rightarrow> bool" and canon_field :: "cfield \<Rightarrow> ctcl \<Rightarrow> 32 word \<Rightarrow> string \<Rightarrow> bool" where
  "canon_struct (CStruct fs sz al) = (\<lambda>T v. length fs \<le> 64 \<and>
     (\<exists>vs. v = t_mklist (c_w T) vs \<and> list_all2 (\<lambda>g v. g T sz v) (map canon_field fs) vs))"
| "canon_field (CField name ty child count off esz) = (\<lambda>T sz v.
     let good = (case map_option canon_struct child of None \<Rightarrow> canon_leaf T sz ty | Some g \<Rightarrow> g T)
     in if count = 0 then good v else \<exists>xs. v = t_mklist (c_w T) xs \<and> length xs = count \<and> list_all good xs)"

lemma field_codec:
  assumes codec: "region_codec p u 0 (unat esz) good (\<lambda>x. x)" and law: "ctcl_law T" and ty: "ty \<noteq> CSTRUCT_VOID"
    and p: "p = pack_elem T sz ty (map_option (\<lambda>q. q T) (map_option pack_struct child)) esz"
    and u: "u = (if ty = CSTRUCT_STRUCT
              then (\<lambda>pos m. case map_option unpack_struct child of None \<Rightarrow> None | Some v \<Rightarrow> v T False esz pos m) else dec_elem T ty)"
    and esz: "ty \<noteq> CSTRUCT_STRUCT \<Longrightarrow> unat esz = type_size ty"
    and good: "good = (case map_option canon_struct child of None \<Rightarrow> canon_leaf T sz ty | Some g \<Rightarrow> g T)"
  shows "region_codec (pack_field (CField name ty child count off esz) T sz) (unpack_field (CField name ty child count off esz) T False)
     (unat off) ((if count = 0 then 1 else count) * unat esz) (canon_field (CField name ty child count off esz) T sz) (\<lambda>v. [v])"
proof -
  have sz: "(if ty = CSTRUCT_STRUCT \<or> ty = CSTRUCT_PSID then unat esz else type_size ty) = unat esz" using esz by auto
  have pack: "pack_field (CField name ty child count off esz) T sz base v m =
      (if count = 0 then p (base + unat off) v m
       else stepwise (need CsConversion (t_list (c_w T) v)) (\<lambda>xs. stepwise (check TooFewElements (count \<le> length xs)) (\<lambda>_.
         pack_elems p (unat esz) (take count xs) (base + unat off) m)))" for base v m
    using ty by (simp add: p Let_def)
  have unpack: "unpack_field (CField name ty child count off esz) T False base m =
      (if count = 0 then stepwise (u (base + unat off) m) (\<lambda>x. Some (Inr [x]))
       else stepwise (unpack_elems u (unat esz) count (base + unat off) m) (\<lambda>xs. Some (Inr [t_mklist (c_w T) xs])))" for base m
    using ty by (simp add: u sz Let_def)
  have canon: "canon_field (CField name ty child count off esz) T sz v \<longleftrightarrow>
      (if count = 0 then good v else \<exists>xs. v = t_mklist (c_w T) xs \<and> length xs = count \<and> list_all good xs)" for v
    by (simp add: good Let_def)
  show ?thesis
  proof
    fix v pos and m :: bytes
    assume v: "canon_field (CField name ty child count off esz) T sz v"
      and fit: "pos + unat off + (if count = 0 then 1 else count) * unat esz \<le> length m"
    show "\<exists>m'. pack_field (CField name ty child count off esz) T sz pos v m = Some (Inr m') \<and>
        same_outside (pos + unat off) ((if count = 0 then 1 else count) * unat esz) m m' \<and>
        unpack_field (CField name ty child count off esz) T False pos m' = Some (Inr [v])"
    proof (cases "count = 0")
      case True
      then show ?thesis using region_codec.write_read [OF codec, of v "pos + unat off" m] v fit
        unfolding canon pack unpack by auto
    next
      case False
      then obtain xs where xs: "v = t_mklist (c_w T) xs" "length xs = count" "list_all good xs" using v unfolding canon by auto
      then have "pos + unat off + length xs * unat esz \<le> length m" using fit False by simp
      from region_codec.elems_write_read [OF codec refl xs(3) this] show ?thesis
        using xs False ctcl_laws(1) [OF law] unfolding pack unpack by auto
    qed
  next
    fix v pos and m m' :: bytes
    assume v: "canon_field (CField name ty child count off esz) T sz v"
      and same: "same_inside (pos + unat off) ((if count = 0 then 1 else count) * unat esz) m m'"
    show "unpack_field (CField name ty child count off esz) T False pos m' = unpack_field (CField name ty child count off esz) T False pos m"
    proof (cases "count = 0")
      case True
      then show ?thesis using region_codec.reads_inside [OF codec, of v "pos + unat off" m m'] v same
        unfolding canon unpack by simp
    next
      case False
      then obtain xs where xs: "v = t_mklist (c_w T) xs" "length xs = count" "list_all good xs" using v unfolding canon by auto
      with same False have "same_inside (pos + unat off) (length xs * unat esz) m m'" by simp
      from region_codec.elems_reads_inside [OF codec refl xs(3) this] show ?thesis
        using xs False unfolding unpack by simp
    qed
  qed
qed

lemma struct_codec:
  assumes law: "ctcl_law T"
  shows "fits_struct cs \<Longrightarrow>
      region_codec (pack_struct cs T (cs_size cs)) (unpack_struct cs T False (cs_size cs)) 0 (unat (cs_size cs)) (canon_struct cs T) (\<lambda>v. v)"
    and "fits_field f \<Longrightarrow>
      region_codec (pack_field f T sz) (unpack_field f T False) (unat (cf_offset f)) (extent f) (canon_field f T sz) (\<lambda>v. [v])"
proof (induction cs and f arbitrary: and sz)
  case (CStruct fs sz al)
  have "in_order 0 fs (unat sz)" "\<forall>f \<in> set fs. fits_field f" using CStruct.prems by (simp_all add: list_all_iff)
  then have fs: "in_order 0 fs (unat sz)"
    "\<forall>f \<in> set fs. region_codec (pack_field f T sz) (unpack_field f T False) (unat (cf_offset f)) (extent f) (canon_field f T sz) (\<lambda>v. [v])"
    using CStruct.IH by blast+
  note run = region_run [OF fs]
  have pack: "pack_struct (CStruct fs sz al) T sz base v m = stepwise (need InvalidValue (t_list (c_w T) v)) (\<lambda>vs.
      stepwise (check InvalidValue (length vs = length fs)) (\<lambda>_. run_packers (map (\<lambda>f. pack_field f T sz) fs) vs base m))" for base v m
    by (simp add: o_def)
  have unpack: "length fs \<le> 64 \<Longrightarrow> unpack_struct (CStruct fs sz al) T False sz base m =
      stepwise (run_unpackers (map (\<lambda>f. unpack_field f T False) fs) base m) (\<lambda>xs. Some (Inr (t_mklist (c_w T) xs)))" for base m
    by (simp add: o_def)
  have canon: "canon_struct (CStruct fs sz al) T v \<longleftrightarrow>
      length fs \<le> 64 \<and> (\<exists>vs. v = t_mklist (c_w T) vs \<and> list_all2 (\<lambda>f v. canon_field f T sz v) fs vs)" for v
    by (simp add: list_all2_map1)
  show ?case
    unfolding cstruct.sel
  proof
    fix v pos and m :: bytes
    assume v: "canon_struct (CStruct fs sz al) T v" and fit: "pos + 0 + unat sz \<le> length m"
    then obtain vs where vs: "length fs \<le> 64" "v = t_mklist (c_w T) vs" "list_all2 (\<lambda>f v. canon_field f T sz v) fs vs"
      unfolding canon by blast
    from fit have "pos + 0 + (unat sz - 0) \<le> length m" by simp
    from region_codec.write_read [OF run, OF vs(3) this] vs ctcl_laws(1) [OF law] list_all2_lengthD [OF vs(3)]
    show "\<exists>m'. pack_struct (CStruct fs sz al) T sz pos v m = Some (Inr m') \<and> same_outside (pos + 0) (unat sz) m m' \<and>
        unpack_struct (CStruct fs sz al) T False sz pos m' = Some (Inr v)"
      unfolding pack unpack [OF vs(1)] by auto
  next
    fix v pos and m m' :: bytes
    assume v: "canon_struct (CStruct fs sz al) T v" and same: "same_inside (pos + 0) (unat sz) m m'"
    then obtain vs where vs: "length fs \<le> 64" "list_all2 (\<lambda>f v. canon_field f T sz v) fs vs" unfolding canon by blast
    from same have "same_inside (pos + 0) (unat sz - 0) m m'" by simp
    from region_codec.reads_inside [OF run, OF vs(2) this]
    show "unpack_struct (CStruct fs sz al) T False sz pos m' = unpack_struct (CStruct fs sz al) T False sz pos m"
      unfolding unpack [OF vs(1)] by simp
  qed
next
  case (CField name ty child count off esz)
  show ?case
  proof (cases "ty = CSTRUCT_VOID")
    case True
    then have "\<not> canon_field (CField name ty child count off esz) T sz v" for v
      using CField.prems by (cases child; cases count) (auto simp: canon_leaf_def Let_def list_all_length)
    then show ?thesis by unfold_locales simp_all
  next
    case void: False
    show ?thesis
    proof (cases child)
      case None
      then have ty: "ty \<noteq> CSTRUCT_STRUCT" "unat esz = type_size ty" using CField.prems by simp_all
      have codec: "region_codec (pack_elem T sz ty None esz) (dec_elem T ty) 0 (unat esz) (canon_leaf T sz ty) (\<lambda>x. x)"
        using leaf_codec [of T sz ty None esz] law by (simp add: ty(2))
      show ?thesis
        unfolding extent_def elems_def cfield.sel by (rule field_codec [OF codec law void]) (simp_all add: None ty)
    next
      case (Some cs)
      then have cs: "ty = CSTRUCT_STRUCT" "esz = cs_size cs" "fits_struct cs" using CField.prems by simp_all
      have st: "region_codec (pack_struct cs T esz) (unpack_struct cs T False esz) 0 (unat esz) (canon_struct cs T) (\<lambda>v. v)"
        using CField.IH [of cs] Some cs by simp
      have "region_codec (pack_elem T sz ty (Some (pack_struct cs T)) esz) (unpack_struct cs T False esz) 0 (unat esz) (canon_struct cs T) (\<lambda>v. v)"
      proof
        fix x pos and m :: bytes
        assume "canon_struct cs T x" "pos + 0 + unat esz \<le> length m"
        from region_codec.write_read [OF st, OF this]
        show "\<exists>m'. pack_elem T sz ty (Some (pack_struct cs T)) esz pos x m = Some (Inr m') \<and> same_outside (pos + 0) (unat esz) m m' \<and>
            unpack_struct cs T False esz pos m' = Some (Inr x)"
          by (auto simp: cs(1) pack_elem_def)
      qed (rule region_codec.reads_inside [OF st])
      then show ?thesis
        unfolding extent_def elems_def cfield.sel by (rule field_codec [OF _ law void]) (simp_all add: Some cs(1))
    qed
  qed
qed

text \<open>Elements, and whole structures, are such parts.\<close>

interpretation cleaf: region_codec "pack_elem T sz ty nested esz" "dec_elem T ty" 0 "type_size ty"
  "\<lambda>x. ctcl_law T \<and> canon_leaf T sz ty x" "\<lambda>x. x" for T sz ty nested esz
  by (rule leaf_codec)

interpretation cstr: region_codec "pack_struct cs T (cs_size cs)" "unpack_struct cs T False (cs_size cs)" 0 "unat (cs_size cs)"
  "\<lambda>v. ctcl_law T \<and> fits_struct cs \<and> canon_struct cs T v" "\<lambda>v. v" for cs T
proof
  fix v pos and m :: bytes
  assume v: "ctcl_law T \<and> fits_struct cs \<and> canon_struct cs T v" and fit: "pos + 0 + unat (cs_size cs) \<le> length m"
  then have "region_codec (pack_struct cs T (cs_size cs)) (unpack_struct cs T False (cs_size cs)) 0 (unat (cs_size cs)) (canon_struct cs T) (\<lambda>v. v)"
    using struct_codec(1) by blast
  from region_codec.write_read [OF this, OF _ fit] v
  show "\<exists>m'. pack_struct cs T (cs_size cs) pos v m = Some (Inr m') \<and> same_outside (pos + 0) (unat (cs_size cs)) m m' \<and>
      unpack_struct cs T False (cs_size cs) pos m' = Some (Inr v)" by blast
next
  fix v pos and m m' :: bytes
  assume v: "ctcl_law T \<and> fits_struct cs \<and> canon_struct cs T v" and same: "same_inside (pos + 0) (unat (cs_size cs)) m m'"
  then have "region_codec (pack_struct cs T (cs_size cs)) (unpack_struct cs T False (cs_size cs)) 0 (unat (cs_size cs)) (canon_struct cs T) (\<lambda>v. v)"
    using struct_codec(1) by blast
  from region_codec.reads_inside [OF this, OF _ same] v
  show "unpack_struct cs T False (cs_size cs) pos m' = unpack_struct cs T False (cs_size cs) pos m" by blast
qed

section \<open>Properties\<close>

text \<open>
  C23. A structure is laid out as in C as long as its natural size is less than four gigabytes: the offsets of its fields are those of fields
  that are placed one after the other at multiples of their alignment, which do not overlap and end within the structure; its size and alignment
  are the natural ones.\<close>

theorem cstruct_layout:
  assumes "ObjCastToCStruct n T e s = Some (Inr cs)" "fst (nat_struct cs) < 2 ^ 32"
  shows "map (\<lambda>f. unat (cf_offset f)) (cs_fields cs) = fst (nat_place (map nat_field (cs_fields cs)) 0) \<and>
    unat (cs_size cs) = fst (nat_struct cs) \<and> unat (cs_align cs) = snd (nat_struct cs) \<and>
    (\<forall>f \<in> set (cs_fields cs). snd (nat_field f) \<noteq> 0 \<longrightarrow> snd (nat_field f) dvd unat (cf_offset f)) \<and>
    in_order 0 (cs_fields cs) (unat (cs_size cs))"
  using shape_natural(1) [OF cast_shape [OF assms(1)] assms(2)] shape_align(1) [OF cast_shape [OF assms(1)]] by blast

text \<open>
  C21. For a definition whose natural size is below 4 GB, whatever the value, writing it into memory of the size of the structure does not access
  anything outside of the structure, and if it succeeds, nothing outside has changed. Beyond 4 GB the size wraps around, see
  \<open>cstruct_size_overflow\<close>.\<close>

theorem cstruct_pack_in_bounds:
  assumes "ObjCastToCStruct n T e s = Some (Inr cs)" "fst (nat_struct cs) < 2 ^ 32" "base + unat (cs_size cs) \<le> length m"
  shows "\<exists>r. pack_struct cs T (cs_size cs) base v m = Some r \<and> (\<forall>m'. r = Inr m' \<longrightarrow> same_outside base (unat (cs_size cs)) m m')"
proof -
  have "fits_struct cs" using shape_natural(1) [OF cast_shape [OF assms(1)] assms(2)] by blast
  from pack_stays(1) [OF this, of T "cs_size cs"] assms(3) show ?thesis unfolding stays_def by simp
qed

text \<open>
  C22. A value in canonical form (elements as they are printed, exactly as many as there are fields and array elements) is written to a structure of
  that size, and reading the structure with the same definition gives the value back.\<close>

theorem cstruct_roundtrip:
  assumes "ctcl_law T" "ObjCastToCStruct n T False d = Some (Inr cs)" "fst (nat_struct cs) < 2 ^ 32" "canon_struct cs T v"
  shows "\<exists>m. TwapiCStructParse n T junk nul (t_mklist (c_w T) [d, v]) = Some (Inr (Some (cs_size cs, m))) \<and>
    length m = unat (cs_size cs) \<and> ObjFromCStruct n T m (cs_size cs) d False = Some (Inr v)"
proof -
  have "fits_struct cs" using shape_natural(1) [OF cast_shape [OF assms(2)] assms(3)] by blast
  with cstr.write_read [of T cs v 0 "map junk [0..<unat (cs_size cs)]"] assms obtain m where
    m: "pack_struct cs T (cs_size cs) 0 v (map junk [0..<unat (cs_size cs)]) = Some (Inr m)" "length m = unat (cs_size cs)"
      "unpack_struct cs T False (cs_size cs) 0 m = Some (Inr v)"
    by (auto simp: same_outside_def)
  then show ?thesis using assms(2) ctcl_laws(1) [OF assms(1)]
    by (simp add: TwapiCStructParse_def ObjFromCStruct_def)
qed

text \<open>
  C37. The size is computed modulo \<open>2 ^ 32\<close>: an array of 65536 structures of 65536 bytes has size zero, and writing a value of as many
  elements, all of which can be the same one, starts outside of the memory that was allocated for it.\<close>

theorem cstruct_size_overflow:
  assumes d: "t_list (c_w T) d = Some [f]" "t_list (c_w T) f = Some [a, ''struct'', na, e]" "t_int (c_w T) na = Some 65536"
    and e: "t_list (c_w T) e = Some [g]" "t_list (c_w T) g = Some [b, ''i8'', nb]" "t_int (c_w T) nb = Some 8192"
    and v: "t_list (c_w T) arg = Some [d, v]" "t_list (c_w T) v = Some [w]" "t_list (c_w T) w = Some xs" "65536 \<le> length xs"
      "t_list (c_w T) (xs ! 0) = Some [y]" "t_list (c_w T) y = Some zs" "8192 \<le> length zs" "t_wide (c_w T) (zs ! 0) = Some i"
  shows "TwapiCStructSize (Suc (Suc n)) T d = Some (Inr 0) \<and> TwapiCStructParse (Suc (Suc n)) T junk nul arg = None"
proof -
  define ci where "ci = CStruct [CField b CSTRUCT_INT64 None 8192 0 8] 65536 8"
  define cs where "cs = CStruct [CField a CSTRUCT_STRUCT (Some ci) 65536 0 65536] 0 8"
  have ci: "ObjCastToCStruct (Suc n) T False e = Some (Inr ci)"
    using e by (simp add: cast_field_def field_elem_def cstruct_types_def Let_def align_up_def type_size_def ci_def)
  have cs: "ObjCastToCStruct (Suc (Suc n)) T False d = Some (Inr cs)"
    using d ci by (subst ObjCastToCStruct.simps)
      (simp add: cast_field_def field_elem_def cstruct_types_def Let_def align_up_def cs_def ci_def del: ObjCastToCStruct.simps)
  obtain z zs' where zs: "take 8192 zs = z # zs'" "z = zs ! 0" using v(7) by (cases zs) auto
  obtain x xs' where xs: "take 65536 xs = x # xs'" "x = xs ! 0" using v(4) by (cases xs) auto
  have "pack_struct ci T 65536 0 x [] = None"
    using v zs xs by (simp add: ci_def pack_elem_def enc_elem_def buf_put_def Let_def)
  then have "pack_struct cs T 0 0 v [] = None"
    using v xs by (simp add: cs_def pack_elem_def Let_def)
  with cs v(1) show ?thesis by (simp add: TwapiCStructSize_def TwapiCStructParse_def cs_def del: ObjCastToCStruct.simps pack_struct.simps)
qed

text \<open>
  C38. Definitions are nested only as deep as their text is long: every definition is accepted or rejected, and the result does not depend on the
  depth that is allowed, once that is more than its length.\<close>

theorem cstruct_definition_terminates:
  assumes "list_shrinks T"
  shows "\<exists>r. \<forall>n > length s. ObjCastToCStruct n T e s = Some r"
proof -
  obtain r where "ObjCastToCStruct (Suc (length s)) T e s = Some r"
    using cast_agree [OF assms, of s "Suc (length s)" "Suc (length s)" e] by (auto simp: agree_def simp del: ObjCastToCStruct.simps)
  then show ?thesis using cast_agree [OF assms, of s _ "Suc (length s)" e] by (auto simp: agree_def simp del: ObjCastToCStruct.simps)
qed

definition converts :: "ctcl \<Rightarrow> cfield \<Rightarrow> string \<Rightarrow> bool" where
  "converts T f v \<longleftrightarrow> cf_count f = 0 \<and> (\<exists>a. ffi_arg T (cf_type f) v = Inr a)"

lemma ffi_args_all:
  "length fs = length vs \<Longrightarrow>
     (if list_all2 (converts T) fs vs
      then \<exists>args. ffi_args T fs vs = Inr args \<and> map2 (\<lambda>f v. ffi_arg T (cf_type f) v) fs vs = map Inr args
      else \<exists>err. ffi_args T fs vs = Inl err)"
  by (induction fs vs rule: list_induct2)
    (auto simp: converts_def split: if_splits sum.splits intro: exI [of _ "a # as" for a as])

text \<open>
  C39. A foreign function is called exactly when there are as many values as parameters, no parameter is an array, every value can be converted to
  the type of its parameter, and the type of the result is supported; otherwise the command is an error and nothing is called. The arguments are the
  converted values, in order.\<close>

theorem ffi_calls_iff:
  assumes "ObjToFARPROC T p = Some fn" "fn \<noteq> 0" "ObjCastToCStruct n T False ret = Some (Inr (CStruct [rf] rs ra))"
    and "ObjCastToCStruct n T True types = Some (Inr ps)" "t_list (c_w T) vals = Some vs"
  shows "if list_all2 (converts T) (cs_fields ps) vs \<and> ffi_ret T (cf_type rf) \<noteq> None
    then \<exists>call args result. Twapi_FfiCallObjCmd n T [p, ret, types, vals] = Some (Inr ((call, fn, args), result)) \<and>
      ffi_ret T (cf_type rf) = Some (call, result) \<and> map2 (\<lambda>f v. ffi_arg T (cf_type f) v) (cs_fields ps) vs = map Inr args
    else \<exists>err. Twapi_FfiCallObjCmd n T [p, ret, types, vals] = Some (Inl err)"
proof -
  have cmd: "Twapi_FfiCallObjCmd n T [p, ret, types, vals] =
      stepwise (check CsArgCount (length vs = length (cs_fields ps))) (\<lambda>_.
      stepwise (Some (ffi_args T (cs_fields ps) vs)) (\<lambda>args.
      stepwise (need UnsupportedType (ffi_ret T (cf_type rf))) (\<lambda>(call, result). Some (Inr ((call, fn, args), result)))))"
    using assms by (simp add: Twapi_FfiCallObjCmd_def numeral_2_eq_2 numeral_3_eq_3)
  show ?thesis
  proof (cases "length vs = length (cs_fields ps)")
    case True
    from ffi_args_all [OF True [symmetric], of T] True show ?thesis
      unfolding cmd by (cases "ffi_ret T (cf_type rf)") (auto split: if_splits)
  qed (auto simp: cmd dest: list_all2_lengthD)
qed

section \<open>Definitions that were converted before\<close>

lemma cast_obj_fresh:
  "ObjCastToCStruct_obj n T e (None, s) = stepwise (ObjCastToCStruct n T e s) (\<lambda>cs. Some (Inr (cs, (Some cs, s))))"
  by (simp add: ObjCastToCStruct_obj_def)

lemma cast_obj_kept: "ObjCastToCStruct_obj n T e (Some cs, s) = Some (Inr (cs, (Some cs, s)))"
  by (simp add: ObjCastToCStruct_obj_def)

lemma cast_nonempty: "ObjCastToCStruct n T False s = Some (Inr cs) \<Longrightarrow> cs_fields cs \<noteq> []"
proof (cases n)
  case (Suc m)
  assume "ObjCastToCStruct n T False s = Some (Inr cs)"
  then obtain f fs where "t_list (c_w T) s = Some (f # fs)"
    "stepwise (cast_fields (ObjCastToCStruct m T False) T (length (f # fs)) (f # fs) 0 1)
       (\<lambda>(fs, off, al). Some (Inr (CStruct fs (align_up off al) al))) = Some (Inr cs)"
    by (cases "t_list (c_w T) s") (auto simp: Suc need_def check_def neq_Nil_conv split: if_splits)
  then show ?thesis by (auto simp: stepwise_def split: option.splits sum.splits)
qed simp

text \<open>With objects that were never converted the command is the one over their strings.\<close>

lemma ffi_call_fresh:
  "Twapi_FfiCallObjCmd_objs n T p (None, ret) (None, types) vals = Twapi_FfiCallObjCmd n T [p, ret, types, vals]"
proof (cases "ObjCastToCStruct n T False ret")
  case (Some r)
  show ?thesis
  proof (cases r)
    case (Inr cs)
    then obtain rf rest where "cs_fields cs = rf # rest" using cast_nonempty [of n T ret cs] Some by (cases "cs_fields cs") auto
    with Some Inr show ?thesis
      by (simp add: Twapi_FfiCallObjCmd_objs_def Twapi_FfiCallObjCmd_def cast_obj_fresh numeral_2_eq_2 numeral_3_eq_3)
         (auto simp: stepwise_def split: option.splits sum.splits)
  qed (use Some in \<open>simp add: Twapi_FfiCallObjCmd_objs_def Twapi_FfiCallObjCmd_def cast_obj_fresh\<close>)
qed (simp add: Twapi_FfiCallObjCmd_objs_def Twapi_FfiCallObjCmd_def cast_obj_fresh)

text \<open>
  An empty definition is refused as the type of a result. But an object with one that was converted as an empty list of parameters
  keeps it, and is then accepted as the type of a result as well: the command reads the type of a field that does not exist.
\<close>

theorem kept_empty_result_type:
  assumes "ObjToFARPROC T p = Some fn" "fn \<noteq> 0" "t_list (c_w T) s = Some []"
  shows "\<exists>kept. ObjCastToCStruct_obj (Suc n) T True (None, s) = Some (Inr (CStruct [] 0 1, kept)) \<and>
    Twapi_FfiCallObjCmd_objs (Suc n) T p (None, s) kept s = Some (Inl InvalidDefinition) \<and>
    Twapi_FfiCallObjCmd_objs (Suc n) T p kept kept s = None"
proof -
  have cast: "ObjCastToCStruct (Suc n) T True s = Some (Inr (CStruct [] 0 1))"
    "ObjCastToCStruct (Suc n) T False s = Some (Inl InvalidDefinition)"
    using assms(3) by (simp_all add: align_up_def)
  have pos: "0 < fn" "fn \<noteq> 0" using assms(2) by simp_all
  show ?thesis
    by (rule exI [of _ "(Some (CStruct [] 0 1), s)"])
      (simp add: Twapi_FfiCallObjCmd_objs_def cast_obj_fresh cast_obj_kept cast assms pos check_def del: ObjCastToCStruct.simps)
qed

section \<open>Witnesses\<close>

definition demo_ctcl :: ctcl where
  "demo_ctcl = \<lparr>c_w = demo_wtcl, c_o = demo_otcl, c_long = (\<lambda>s. map_option signed32 (count_strokes s)), c_double = (\<lambda>_. None),
     c_narrow = (\<lambda>_. 0), c_str = (\<lambda>_. 16), c_wstr = (\<lambda>_. 0), c_sid = (\<lambda>_. None), c_print_double = (\<lambda>_. []),
     c_print_float = (\<lambda>_. []), c_get_str = (\<lambda>_. Some ''dir''), c_get_wstr = (\<lambda>_. None), c_get_sid = (\<lambda>_. None)\<rparr>"

lemma demo_bool: "t_bool demo_wtcl (ObjFromBoolean b) = Some b"
  by (simp add: demo_wtcl_def tcl.defs demo_tcl_def ObjFromBoolean_def)

lemma demo_ctcl_law: "ctcl_law demo_ctcl"
  by (simp add: ctcl_law_def demo_ctcl_def demo_wtcl_law demo_opaque_law demo_bool count_strokes_print)

lemma demo_ctcl_simps [simp]:
  "t_list (c_w demo_ctcl) (enc xs) = Some xs" "t_mklist (c_w demo_ctcl) = enc" "w_print (c_w demo_ctcl) = strokes"
  "t_int (c_w demo_ctcl) (strokes n) = Some n"
  by (simp_all add: demo_ctcl_def dec_enc count_strokes_print)

lemma dec_shrinks: "dec acc s = Some xs \<Longrightarrow> x \<in> set xs \<Longrightarrow> length x < length acc + length s"
  by (induction acc s arbitrary: xs rule: dec.induct) (fastforce split: if_splits)+

definition demo_cdef :: string where
  "demo_cdef = enc [enc [''c'', ''i1''], enc [''n'', ''i4'', strokes 2], enc [''s'', ''lpstr'']]"

definition demo_cs :: cstruct where
  "demo_cs = CStruct [CField ''c'' CSTRUCT_CHAR None 0 0 1, CField ''n'' CSTRUCT_INT None 2 4 4, CField ''s'' CSTRUCT_STRING None 0 16 8] 24 8"

lemma demo_cast: "ObjCastToCStruct (Suc n) demo_ctcl e demo_cdef = Some (Inr demo_cs)"
  by (simp add: demo_cdef_def demo_cs_def cast_field_def field_elem_def cstruct_types_def Let_def align_up_def type_size_def del: enc.simps)

lemma demo_size: "fst (nat_struct demo_cs) = 24"
  by (simp add: demo_cs_def nat_align_def round_up_def type_size_def Let_def)

theorem cstruct_layout_witness:
  "map (\<lambda>f. unat (cf_offset f)) (cs_fields demo_cs) = fst (nat_place (map nat_field (cs_fields demo_cs)) 0)"
  using cstruct_layout [OF demo_cast [of 0 False]] by (simp add: demo_size)

theorem cstruct_pack_in_bounds_witness:
  "\<exists>r. pack_struct demo_cs demo_ctcl (cs_size demo_cs) 2 ''x'' (replicate 30 7) = Some r \<and>
     (\<forall>m'. r = Inr m' \<longrightarrow> same_outside 2 (unat (cs_size demo_cs)) (replicate 30 7) m')"
  by (rule cstruct_pack_in_bounds [OF demo_cast [of 0 False]]) (simp_all add: demo_size, simp add: demo_cs_def)

definition demo_cval :: string where
  "demo_cval = enc [strokes (- 5), enc [strokes 1, strokes (- 2)], ''dir'']"

theorem cstruct_roundtrip_witness:
  "\<exists>m. TwapiCStructParse 1 demo_ctcl (\<lambda>_. 0) False (enc [demo_cdef, demo_cval]) = Some (Inr (Some (24, m))) \<and>
     ObjFromCStruct 1 demo_ctcl m 24 demo_cdef False = Some (Inr demo_cval)"
proof -
  have "canon_leaf demo_ctcl 24 CSTRUCT_CHAR (strokes (- 5))" "canon_leaf demo_ctcl 24 CSTRUCT_INT (strokes 1)"
    "canon_leaf demo_ctcl 24 CSTRUCT_INT (strokes (- 2))"
    unfolding canon_leaf_def Let_def ctype.case demo_ctcl_simps by (intro exI conjI; (rule refl)?; simp)+
  then have "canon_field (CField ''n'' CSTRUCT_INT None 2 4 4) demo_ctcl 24 (enc [strokes 1, strokes (- 2)])"
      "canon_field (CField ''c'' CSTRUCT_CHAR None 0 0 1) demo_ctcl 24 (strokes (- 5))"
    by (simp_all add: exI [of _ "[strokes 1, strokes (- 2)]"] del: enc.simps)
  moreover have "canon_field (CField ''s'' CSTRUCT_STRING None 0 16 8) demo_ctcl 24 ''dir''"
    by (simp add: canon_leaf_def demo_ctcl_def)
  ultimately have "canon_struct demo_cs demo_ctcl demo_cval"
    unfolding demo_cs_def demo_cval_def canon_struct.simps demo_ctcl_simps
    by (intro conjI exI [of _ "[strokes (- 5), enc [strokes 1, strokes (- 2)], ''dir'']"]) (simp_all del: canon_field.simps enc.simps)
  moreover have "fst (nat_struct demo_cs) < 2 ^ 32" "cs_size demo_cs = 24" unfolding demo_size by (simp_all add: demo_cs_def)
  ultimately show ?thesis
    using cstruct_roundtrip [OF demo_ctcl_law demo_cast [of 0 False], of demo_cval "\<lambda>_. 0" False] by auto
qed

definition huge_ctcl :: ctcl where
  "huge_ctcl = demo_ctcl\<lparr>c_w := demo_wtcl
     \<lparr>t_list := \<lambda>s. if s = ''d'' then Some [''f''] else if s = ''f'' then Some [''a'', ''struct'', ''65536'', ''e'']
        else if s = ''e'' then Some [''g''] else if s = ''g'' then Some [''b'', ''i8'', ''8192'']
        else if s = ''v'' then Some [''w''] else if s = ''w'' then Some (replicate 65536 ''x'')
        else if s = ''x'' then Some [''y''] else if s = ''y'' then Some (replicate 8192 ''0'')
        else if s = ''dv'' then Some [''d'', ''v''] else None,
      t_int := \<lambda>s. if s = ''65536'' then Some 65536 else if s = ''8192'' then Some 8192 else None,
      t_wide := \<lambda>_. Some 0\<rparr>\<rparr>"

theorem cstruct_size_overflow_witness:
  "TwapiCStructSize 2 huge_ctcl ''d'' = Some (Inr 0) \<and> TwapiCStructParse 2 huge_ctcl (\<lambda>_. 0) False ''dv'' = None"
proof -
  have "TwapiCStructSize (Suc (Suc 0)) huge_ctcl ''d'' = Some (Inr 0) \<and> TwapiCStructParse (Suc (Suc 0)) huge_ctcl (\<lambda>_. 0) False ''dv'' = None"
    by (rule cstruct_size_overflow [where f = "''f''" and a = "''a''" and na = "''65536''" and e = "''e''" and g = "''g''" and b = "''b''"
      and nb = "''8192''" and v = "''v''" and w = "''w''" and xs = "replicate 65536 ''x''" and y = "''y''" and zs = "replicate 8192 ''0''" and i = 0])
      (simp_all add: huge_ctcl_def)
  then show ?thesis by (simp add: numeral_2_eq_2)
qed

theorem cstruct_definition_terminates_witness: "\<exists>r. \<forall>n > length demo_cdef. ObjCastToCStruct n demo_ctcl False demo_cdef = Some r"
proof (rule cstruct_definition_terminates)
  show "list_shrinks demo_ctcl"
    using dec_shrinks [of "[]"] by (auto simp: list_shrinks_def demo_ctcl_def less_imp_le)
qed

lemma demo_fn: "ObjToFARPROC demo_ctcl (obj_string demo_otcl (ObjFromOpaque 5 (Some ''FARPROC''))) = Some 5"
  using set_opaque_shimmered [OF demo_opaque_law, of 5 "Some ''FARPROC''"]
  by (simp add: ObjToFARPROC_def ObjToOpaque_def shimmer_def demo_ctcl_def streq_def demo_otcl_def tcl.defs demo_tcl_def)

theorem ffi_calls_iff_witness:
  "\<exists>result. Twapi_FfiCallObjCmd 1 demo_ctcl [obj_string demo_otcl (ObjFromOpaque 5 (Some ''FARPROC'')), enc [enc [''r'', ''i4'']],
      enc [enc [''n'', ''i4'']], enc [strokes 3]] = Some (Inr ((DcCallInt, 5, [DcInt 3]), result))"
proof -
  have cast: "ObjCastToCStruct 1 demo_ctcl e (enc [enc [k, ''i4'']]) = Some (Inr (CStruct [CField k CSTRUCT_INT None 0 0 4] 4 4))" for e k
    by (simp add: cast_field_def field_elem_def cstruct_types_def Let_def align_up_def type_size_def del: enc.simps)
  from ffi_calls_iff [OF demo_fn _ cast cast demo_ctcl_simps(1) [of "[strokes 3]"]] show ?thesis
    by (auto simp: converts_def ffi_arg_def store_arg_def ffi_ret_def Let_def simp del: enc.simps)
qed

theorem kept_empty_result_type_witness:
  "\<exists>kept. ObjCastToCStruct_obj 1 demo_ctcl True (None, enc []) = Some (Inr (CStruct [] 0 1, kept)) \<and>
     Twapi_FfiCallObjCmd_objs 1 demo_ctcl (obj_string demo_otcl (ObjFromOpaque 5 (Some ''FARPROC''))) kept kept (enc []) = None"
  using kept_empty_result_type [OF demo_fn _ demo_ctcl_simps(1) [of "[]"], of 0] by auto

end
