(* ===== verification/Console.thy ===== *)
theory Console
  imports Service_Props Winval
begin

text \<open>
  The console (\<open>console/console.c\<close>): the notifier that passes control signals to the interpreter that asked for them, and the
  structures of the console as Tcl values.

  The system calls the handler in a thread of its own for every signal. The handler looks at the pointer to the notifier's
  context once to see whether there is one and again when it sends the callback (\<open>Async\<close>); it is cut between the two, since the commands of
  the interpreter run in other threads, and at its wait for the response.
\<close>

section \<open>The notifier\<close>

text \<open>
  \<open>cn_tic\<close>: \<open>console_control_ticP\<close>; \<open>cn_hooked\<close>: the interpreters that have \<open>module.data.ival\<close> set; \<open>cn_passed\<close>: the signals whose handler
  has found a context and not sent its callback yet; \<open>cn_ctrl\<close>: the client data of callbacks.
\<close>

record con =
  cn_async :: async
  cn_tic :: "tid option"
  cn_hooked :: "tid set"
  cn_passed :: "nat list"
  cn_ctrl :: "nat \<rightharpoonup> nat"

datatype con_error = AlreadySet | NotSetHere | ConSystemError | ConBadArgCount | ConNotInteger

text \<open>\<open>ok\<close>: \<open>SetConsoleCtrlHandler\<close> succeeds.\<close>

definition Twapi_StartConsoleEventNotifier :: "tid \<Rightarrow> bool \<Rightarrow> con \<Rightarrow> (con \<times> con_error option) option" where
  "Twapi_StartConsoleEventNotifier c ok s =
     (if cn_tic s \<noteq> None then Some (s, Some AlreadySet)
      else if ok
      then do {
        p \<leftarrow> TwapiInterpContextRef c 1 (a_proc (cn_async s));
        Some (s\<lparr>cn_async := (cn_async s)\<lparr>a_proc := p\<rparr>, cn_tic := Some c, cn_hooked := insert c (cn_hooked s)\<rparr>, None) }
      else Some (s, Some ConSystemError))"

definition Twapi_StopConsoleEventNotifier :: "thread \<Rightarrow> tid \<Rightarrow> con \<Rightarrow> (con \<times> con_error option) option" where
  "Twapi_StopConsoleEventNotifier cur c s =
     (if cn_tic s \<noteq> Some c then Some (s, Some NotSetHere)
      else do {
        p \<leftarrow> TwapiInterpContextUnref cur c 1 (a_proc (cn_async s));
        Some (s\<lparr>cn_async := (cn_async s)\<lparr>a_proc := p\<rparr>, cn_tic := None, cn_hooked := cn_hooked s - {c}\<rparr>, None) })"

text \<open>\<open>objv\<close>: the words after the command.\<close>

definition Twapi_ConsoleEventNotifierObjCmd ::
    "tcl \<Rightarrow> thread \<Rightarrow> tid \<Rightarrow> bool \<Rightarrow> string list \<Rightarrow> con \<Rightarrow> (con \<times> con_error option) option" where
  "Twapi_ConsoleEventNotifierObjCmd T cur c ok objv s =
     (if length objv \<noteq> 1 then Some (s, Some ConBadArgCount)
      else case t_int T (hd objv) of
        None \<Rightarrow> Some (s, Some ConNotInteger)
      | Some func \<Rightarrow> if func \<noteq> 0 then Twapi_StartConsoleEventNotifier c ok s else Twapi_StopConsoleEventNotifier cur c s)"

definition TwapiConsoleCleanup :: "thread \<Rightarrow> tid \<Rightarrow> con \<Rightarrow> con option" where
  "TwapiConsoleCleanup cur c s =
     (if c \<in> cn_hooked s then map_option fst (Twapi_StopConsoleEventNotifier cur c s) else Some s)"

section \<open>The handler\<close>

datatype con_result = ConReturns bool | ConAwaits nat

text \<open>The first look at the pointer; the result is what the handler returns, if it ends here.\<close>

definition handler_check :: "nat \<Rightarrow> con \<Rightarrow> con \<times> bool option" where
  "handler_check ctrl s = (if cn_tic s = None then (s, Some False) else (s\<lparr>cn_passed := ctrl # cn_passed s\<rparr>, None))"

definition CONSOLE_CALLBACK :: nat where "CONSOLE_CALLBACK = 2"

text \<open>
  The callback: \<open>TwapiEnqueueCallback\<close> follows the pointer that it is given now. The completion event can be created. \<open>hdr\<close> is the size
  of a callback.
\<close>

definition handler_send :: "nat \<Rightarrow> nat \<Rightarrow> con \<Rightarrow> (con \<times> con_result) option" where
  "handler_send hdr ctrl s = do {
     let (a1, r) = TwapiCallbackNew hdr CONSOLE_CALLBACK hdr (cn_async s);
     i \<leftarrow> r;
     c \<leftarrow> cn_tic s;
     (a2, res) \<leftarrow> TwapiEnqueueCallback c i False 100 None a1;
     Some (s\<lparr>cn_async := a2, cn_ctrl := (cn_ctrl s)(i \<mapsto> ctrl), cn_passed := remove1 ctrl (cn_passed s)\<rparr>,
           case res of None \<Rightarrow> ConAwaits i | Some winerr \<Rightarrow> ConReturns False) }"

definition WAIT_TIMEOUT :: nat where "WAIT_TIMEOUT = 258"

text \<open>The rest, when the wait ends (\<open>enqueue_wait\<close>): a script that does not answer in time has handled the signal.\<close>

definition con_rest :: "nat \<Rightarrow> nat option \<Rightarrow> con \<Rightarrow> (con \<times> bool) option" where
  "con_rest i w s = do {
     (a1, winerr) \<leftarrow> enqueue_wait i w True (cn_async s);
     if w \<noteq> None then Some (s\<lparr>cn_async := a1\<rparr>, winerr = WAIT_TIMEOUT)
     else do {
       x \<leftarrow> a_cbs a1 i;
       a2 \<leftarrow> owner_unref i a1;
       Some (s\<lparr>cn_async := a2\<rparr>,
             if winerr = 0 then (case cb_response x of TRT_BOOL b \<Rightarrow> b | _ \<Rightarrow> False) else winerr = WAIT_TIMEOUT) } }"

definition ctrl_events :: "(nat \<times> string) list" where
  "ctrl_events = [(0, ''ctrl-c''), (1, ''ctrl-break''), (2, ''close''), (5, ''logoff''), (6, ''shutdown'')]"

definition TwapiConsoleCtrlCallbackFn ::
    "tcl_conv \<Rightarrow> (nat list \<Rightarrow> obj_heap \<Rightarrow> proc \<Rightarrow> bool \<times> string \<times> obj_heap \<times> proc) \<Rightarrow>
     thread \<Rightarrow> bool \<Rightarrow> nat \<Rightarrow> proc \<Rightarrow> cb \<Rightarrow> obj_heap \<Rightarrow> (cb \<times> bool \<times> obj_heap \<times> proc) option" where
  "TwapiConsoleCtrlCallbackFn cv eval cur deleted ctrl p x h =
     (case map_of ctrl_events ctrl of
        None \<Rightarrow> Some (x, False, h, p)
      | Some event_str \<Rightarrow>
          let (h1, objs) = new_objs [''twapi::_console_ctrl_handler'', event_str] h
          in TwapiEvalAndUpdateCallback cv eval cur deleted objs RT_BOOL x h1 p)"

section \<open>Structures\<close>

type_synonym COORD = "16 word \<times> 16 word"

definition ObjToCHAR_INFO :: "wtcl \<Rightarrow> string \<Rightarrow> (16 word \<times> 16 word) option" where
  "ObjToCHAR_INFO T s =
     (case t_list T s of
        Some [chars, attr] \<Rightarrow> map_option (\<lambda>i. (hd (w_chars T chars @ [0]), word_of_int i)) (t_int T attr)
      | _ \<Rightarrow> None)"

definition ObjToCOORD :: "wtcl \<Rightarrow> string \<Rightarrow> val_error + COORD" where
  "ObjToCOORD T s =
     (case t_list T s of
        None \<Rightarrow> Inl ConversionError
      | Some objv \<Rightarrow>
          if length objv \<noteq> 2 then Inl BadFormat
          else (case (t_int T (objv ! 0), t_int T (objv ! 1)) of
             (Some x, Some y) \<Rightarrow>
               if x < 0 \<or> x > 32767 \<or> y < 0 \<or> y > 32767 then Inl BadFormat else Inr (word_of_int x, word_of_int y)
           | _ \<Rightarrow> Inl BadFormat))"

definition ObjFromCOORD :: "wtcl \<Rightarrow> COORD \<Rightarrow> string" where
  "ObjFromCOORD T p = t_mklist T [w_print T (sint (fst p)), w_print T (sint (snd p))]"

text \<open>Left, top, right, bottom.\<close>

definition ObjToSMALL_RECT :: "wtcl \<Rightarrow> string \<Rightarrow> val_error + 16 word list" where
  "ObjToSMALL_RECT T s = map_sum id (map word_of_int) (get_ints T 4 s)"

definition ObjFromSMALL_RECT :: "wtcl \<Rightarrow> 16 word list \<Rightarrow> string" where
  "ObjFromSMALL_RECT T r = t_mklist T (map (\<lambda>w. w_print T (sint w)) r)"

record CONSOLE_SCREEN_BUFFER_INFO =
  dwSize :: COORD
  dwCursorPosition :: COORD
  wAttributes :: "16 word"
  srWindow :: "16 word list"
  dwMaximumWindowSize :: COORD

definition ObjFromCONSOLE_SCREEN_BUFFER_INFO :: "wtcl \<Rightarrow> CONSOLE_SCREEN_BUFFER_INFO \<Rightarrow> string" where
  "ObjFromCONSOLE_SCREEN_BUFFER_INFO T b =
     t_mklist T [ObjFromCOORD T (dwSize b), ObjFromCOORD T (dwCursorPosition b), w_print T (uint (wAttributes b)),
       ObjFromSMALL_RECT T (srWindow b), ObjFromCOORD T (dwMaximumWindowSize b)]"

text \<open>An input record; one of a type that the code does not know is its bytes.\<close>

datatype INPUT_RECORD =
    KeyEvent bool "16 word" "16 word" "16 word" "16 word" "32 word"
  | MouseEvent COORD "32 word" "32 word" "32 word"
  | WindowBufferSizeEvent COORD
  | MenuEvent "32 word"
  | FocusEvent bool
  | OtherEvent "16 word" "8 word list"

definition event_type :: "INPUT_RECORD \<Rightarrow> int" where
  "event_type r = (case r of KeyEvent _ _ _ _ _ _ \<Rightarrow> 1 | MouseEvent _ _ _ _ \<Rightarrow> 2 | WindowBufferSizeEvent _ \<Rightarrow> 4
     | MenuEvent _ \<Rightarrow> 8 | FocusEvent _ \<Rightarrow> 16 | OtherEvent ty _ \<Rightarrow> uint ty)"

text \<open>\<open>bin\<close> makes a value of bytes.\<close>

definition ObjFromINPUT_RECORD :: "wtcl \<Rightarrow> (8 word list \<Rightarrow> string) \<Rightarrow> INPUT_RECORD \<Rightarrow> string" where
  "ObjFromINPUT_RECORD T bin r =
     t_mklist T [w_print T (event_type r),
       (case r of
          KeyEvent down repeat_count key scan uchar state \<Rightarrow>
            t_mklist T [ObjFromBoolean down, w_print T (uint repeat_count), w_print T (uint key), w_print T (uint scan),
              if uchar \<noteq> 0 then w_string T [uchar] else [], w_print T (uint state)]
        | MouseEvent pos button state flags \<Rightarrow>
            t_mklist T [ObjFromCOORD T pos, w_print T (sint button), w_print T (uint state), w_print T (uint flags)]
        | WindowBufferSizeEvent sz \<Rightarrow> ObjFromCOORD T sz
        | MenuEvent cmd \<Rightarrow> w_print T (uint cmd)
        | FocusEvent b \<Rightarrow> ObjFromBoolean b
        | OtherEvent _ bs \<Rightarrow> bin bs)]"

text \<open>\<open>Twapi_ReadConsole\<close>: \<open>read\<close> is \<open>ReadConsoleW\<close> with the size of its buffer; \<open>None\<close> is the failure.\<close>

definition Twapi_ReadConsole :: "wtcl \<Rightarrow> (nat \<Rightarrow> 16 word list option) \<Rightarrow> nat \<Rightarrow> string option" where
  "Twapi_ReadConsole T read numchars = map_option (w_string T) (read numchars)"

end
