(* ===== verification/Console_Props.thy ===== *)
theory Console_Props
  imports Console Winval_Props
begin

text \<open>
  Console signals under all interleavings of the commands of the interpreters, the handler's threads and what happens to callbacks and
  contexts; the signal that crashes the process; and the structures that come back.
\<close>

section \<open>Steps\<close>

text \<open>A command is run by an interpreter, which holds a reference on its context, besides the one of the notifier.\<close>

inductive cstep :: "con \<Rightarrow> con \<Rightarrow> bool" where
  start: "0 < outside (cn_async s) c \<Longrightarrow> Twapi_StartConsoleEventNotifier c ok s = Some (s', r) \<Longrightarrow> cstep s s'"
| stop: "0 < outside (cn_async s) c \<Longrightarrow> Twapi_StopConsoleEventNotifier cur c s = Some (s', r) \<Longrightarrow> cstep s s'"
| signal: "handler_check ctrl s = (s', r) \<Longrightarrow> cstep s s'"
| send: "ctrl \<in> set (cn_passed s) \<Longrightarrow> handler_send hdr ctrl s = Some (s', r) \<Longrightarrow> cstep s s'"
| rest: "a_sender (cn_async s) i = Waiting \<Longrightarrow>
     w = None \<longrightarrow> (\<exists>x. a_cbs (cn_async s) i = Some x \<and> cb_event x = Some True) \<Longrightarrow>
     con_rest i w s = Some (s', n) \<Longrightarrow> cstep s s'"
| other: "astep (cn_async s) a \<Longrightarrow> \<forall>c. cn_tic s = Some c \<longrightarrow> 0 < outside a c \<Longrightarrow> cstep s (s\<lparr>cn_async := a\<rparr>)"

definition con_start :: "proc \<Rightarrow> con" where
  "con_start p = \<lparr>cn_async = async_start p, cn_tic = None, cn_hooked = {}, cn_passed = [], cn_ctrl = Map.empty\<rparr>"

definition con_inv :: "con \<Rightarrow> bool" where
  "con_inv s \<longleftrightarrow> a_inv (cn_async s) \<and> (\<forall>c. cn_tic s = Some c \<longrightarrow> 0 < outside (cn_async s) c) \<and>
     cn_hooked s = (case cn_tic s of None \<Rightarrow> {} | Some c \<Rightarrow> {c})"

section \<open>Every step keeps the invariant\<close>

lemma start_inv:
  assumes inv: "con_inv s" and out: "0 < outside (cn_async s) c"
    and st: "Twapi_StartConsoleEventNotifier c ok s = Some (s', r)"
  shows "con_inv s'"
proof (cases "cn_tic s = None \<and> ok")
  case False
  then have "s' = s" using st by (auto simp: Twapi_StartConsoleEventNotifier_def split: if_splits)
  then show ?thesis using inv by simp
next
  case True
  then obtain p where p: "TwapiInterpContextRef c 1 (a_proc (cn_async s)) = Some p"
    and s': "s' = s\<lparr>cn_async := (cn_async s)\<lparr>a_proc := p\<rparr>, cn_tic := Some c, cn_hooked := insert c (cn_hooked s)\<rparr>"
    using st by (cases "TwapiInterpContextRef c 1 (a_proc (cn_async s))") (auto simp: Twapi_StartConsoleEventNotifier_def)
  obtain t where t: "p_tics (a_proc (cn_async s)) c = Some t" "p_tics p = (p_tics (a_proc (cn_async s)))(c \<mapsto> t\<lparr>tic_nrefs := tic_nrefs t + 1\<rparr>)"
    by (rule Ref_tics [OF p])
  have "astep (cn_async s) ((cn_async s)\<lparr>a_proc := p\<rparr>)" using out p by (intro astep.hold [where n = 1]) simp_all
  then have "a_inv ((cn_async s)\<lparr>a_proc := p\<rparr>)" using inv astep_inv by (auto simp: con_inv_def)
  then show ?thesis
    using inv True out outside_tics [OF t, of c] by (simp add: con_inv_def s')
qed

lemma stop_inv:
  assumes inv: "con_inv s" and st: "Twapi_StopConsoleEventNotifier cur c s = Some (s', r)"
  shows "con_inv s'"
proof (cases "cn_tic s = Some c")
  case False
  then have "s' = s" using st by (auto simp: Twapi_StopConsoleEventNotifier_def split: if_splits)
  then show ?thesis using inv by simp
next
  case True
  then obtain p where p: "TwapiInterpContextUnref cur c 1 (a_proc (cn_async s)) = Some p"
    and s': "s' = s\<lparr>cn_async := (cn_async s)\<lparr>a_proc := p\<rparr>, cn_tic := None, cn_hooked := cn_hooked s - {c}\<rparr>"
    using st by (cases "TwapiInterpContextUnref cur c 1 (a_proc (cn_async s))") (auto simp: Twapi_StopConsoleEventNotifier_def)
  have "1 \<le> outside (cn_async s) c" using inv True by (simp add: con_inv_def)
  then have "astep (cn_async s) ((cn_async s)\<lparr>a_proc := p\<rparr>)" using p by (intro astep.drop [where n = 1]) simp_all
  then have "a_inv ((cn_async s)\<lparr>a_proc := p\<rparr>)" using inv astep_inv by (auto simp: con_inv_def)
  then show ?thesis using inv True by (simp add: con_inv_def s')
qed

text \<open>Sending from the context of the notifier has a result, and keeps the invariant.\<close>

definition signalled :: "tid \<Rightarrow> tic \<Rightarrow> nat \<Rightarrow> con \<Rightarrow> con" where
  "signalled c t ctrl s =
     s\<lparr>cn_async := sent CONSOLE_CALLBACK c t 100 (cn_async s), cn_ctrl := (cn_ctrl s)(a_next (cn_async s) \<mapsto> ctrl),
       cn_passed := remove1 ctrl (cn_passed s)\<rparr>"

lemma send_ok:
  assumes inv: "con_inv s" and c: "cn_tic s = Some c" and t: "p_tics (a_proc (cn_async s)) c = Some t"
  shows "handler_send hdr ctrl s = Some (signalled c t ctrl s, ConAwaits (a_next (cn_async s))) \<and> con_inv (signalled c t ctrl s)"
proof
  obtain a1 where "TwapiCallbackNew hdr CONSOLE_CALLBACK hdr (cn_async s) = (a1, Some (a_next (cn_async s)))"
    "TwapiEnqueueCallback c (a_next (cn_async s)) False 100 None a1 = Some (sent CONSOLE_CALLBACK c t 100 (cn_async s), None)"
    using new_then_enqueue [where hdr = hdr and k = 0 and f = CONSOLE_CALLBACK and timeout = 100, OF t] by auto
  then show "handler_send hdr ctrl s = Some (signalled c t ctrl s, ConAwaits (a_next (cn_async s)))"
    using c by (simp add: handler_send_def signalled_def)
  have a: "a_inv (cn_async s)" and out: "0 < outside (cn_async s) c" using inv c by (simp_all add: con_inv_def)
  have "a_inv (sent CONSOLE_CALLBACK c t 100 (cn_async s))" using steps_inv [OF sent_steps [OF a t out] a] .
  then show "con_inv (signalled c t ctrl s)"
    using inv c out sent_outside [OF a t] by (simp add: con_inv_def signalled_def)
qed

lemma notifier_context:
  assumes "con_inv s" "cn_tic s = Some c"
  obtains t where "p_tics (a_proc (cn_async s)) c = Some t" "tic_deletions t = 0" "0 < tic_nrefs t"
  using assms by (auto simp: con_inv_def intro: outside_live [of "cn_async s" c])

lemma con_rest_inv:
  assumes inv: "con_inv s" and s: "a_sender (cn_async s) i = Waiting"
    and ev: "w = None \<longrightarrow> (\<exists>x. a_cbs (cn_async s) i = Some x \<and> cb_event x = Some True)"
    and st: "con_rest i w s = Some (s', n)"
  shows "con_inv s'"
proof -
  obtain a1 m where a1: "enqueue_wait i w True (cn_async s) = Some (a1, m)"
    using st by (cases "enqueue_wait i w True (cn_async s)") (auto simp: con_rest_def)
  have st1: "astep (cn_async s) a1" by (rule astep.wake [OF s ev a1])
  obtain x y where x: "a_cbs (cn_async s) i = Some x" "a_cbs a1 = (a_cbs (cn_async s))(i \<mapsto> y)" "cb_tic y = cb_tic x"
    "a_proc a1 = a_proc (cn_async s)" "a_queue a1 = a_queue (cn_async s)" "a_handling a1 = a_handling (cn_async s)"
    "a_sender a1 = (a_sender (cn_async s))(i := case w of None \<Rightarrow> Owns | Some e \<Rightarrow> TimedOut e)"
    using a1 by (rule wait_for_response)
  have out1: "outside a1 d = outside (cn_async s) d" for d by (rule outside_same_cb [OF x(1-6)])
  obtain a2 where s': "s' = s\<lparr>cn_async := a2\<rparr>" and st2: "a2 = a1 \<or> astep a1 a2" and out2: "\<And>d. outside a2 d = outside a1 d"
  proof (cases w)
    case None
    then obtain a2 where a2: "owner_unref i a1 = Some a2" "s' = s\<lparr>cn_async := a2\<rparr>"
      using st a1 x(2) by (auto simp: con_rest_def split: bind_splits)
    have "outside a2 d = outside a1 d" for d
      by (rule owner_unref_effect [OF a2(1)]) (rule outside_same_cb)
    then show ?thesis using astep.owner [OF _ a2(1)] None x(7) a2(2) by (intro that [of a2]) simp_all
  next
    case (Some e)
    then show ?thesis using st a1 by (intro that [of a1]) (auto simp: con_rest_def)
  qed
  have "a_inv a2" using astep_inv [OF st1] st2 astep_inv inv by (auto simp: con_inv_def)
  then show ?thesis using inv out1 out2 s' by (simp add: con_inv_def)
qed

lemma cstep_inv: "cstep s s' \<Longrightarrow> con_inv s \<Longrightarrow> con_inv s'"
proof (induction rule: cstep.induct)
  case (signal ctrl s s' r)
  then have "con_inv (s\<lparr>cn_passed := ctrl # cn_passed s\<rparr>)" by (simp add: con_inv_def)
  with signal show ?case by (auto simp: handler_check_def split: if_splits)
next
  case (send ctrl s hdr s' r)
  then obtain c where c: "cn_tic s = Some c" by (cases "cn_tic s") (auto simp: handler_send_def split: prod.splits bind_splits)
  then obtain t where "p_tics (a_proc (cn_async s)) c = Some t" using send(3) by (auto elim: notifier_context)
  from send_ok [OF send(3) c this, of hdr ctrl] send(2) show ?case by simp
next
  case (other s a)
  then show ?case using astep_inv by (auto simp: con_inv_def)
qed (blast intro: start_inv stop_inv con_rest_inv)+

lemma con_reach_inv:
  assumes "proc_fresh p" "cstep\<^sup>*\<^sup>* (con_start p) s"
  shows "con_inv s"
  using assms(2)
proof (induction rule: rtranclp_induct)
  case base
  show ?case using async_start_inv [OF assms(1)] by (simp add: con_start_def con_inv_def)
qed (rule cstep_inv)

section \<open>Properties\<close>

text \<open>
  C18. However the commands, signals and everything else interleave: the notifier's context is alive and exactly its interpreter is marked as hooked, no
  queued callback has been deleted, and a signal that has found a context is sent, unless the notifier was stopped in between: then its handler
  follows the null pointer and the process crashes.\<close>

theorem console_safe_unless_stopped:
  assumes "proc_fresh p" "cstep\<^sup>*\<^sup>* (con_start p) s"
  shows "(\<forall>c. cn_tic s = Some c \<longrightarrow>
      cn_hooked s = {c} \<and> (\<exists>t. p_tics (a_proc (cn_async s)) c = Some t \<and> tic_deletions t = 0)) \<and>
    (\<forall>th k. (th, k) \<in> set (a_queue (cn_async s)) \<longrightarrow> cb_dels k (cn_async s) = 0) \<and>
    (handler_send hdr ctrl s = None \<longleftrightarrow> cn_tic s = None)"
proof -
  have inv: "con_inv s" by (rule con_reach_inv [OF assms])
  then have a: "a_inv (cn_async s)" by (simp add: con_inv_def)
  have 1: "cn_hooked s = {c} \<and> (\<exists>t. p_tics (a_proc (cn_async s)) c = Some t \<and> tic_deletions t = 0)" if "cn_tic s = Some c" for c
    using inv that by (auto simp: con_inv_def elim: notifier_context [OF inv])
  have 2: "cb_dels k (cn_async s) = 0" if "(th, k) \<in> set (a_queue (cn_async s))" for th k
  proof -
    have "(th, k) \<in> set (a_queue (cn_async s)) \<union> set (a_handling (cn_async s))" using that by simp
    then obtain x where x: "a_cbs (cn_async s) k = Some x"
      "0 < cnt (a_queue (cn_async s)) k + cnt (a_handling (cn_async s)) k"
      by (rule queued_cb [OF a])
    with a_inv_cb [OF a x(1)] show ?thesis by (auto simp: cb_dels_def cb_good_def)
  qed
  have 3: "handler_send hdr ctrl s = None \<longleftrightarrow> cn_tic s = None"
  proof (cases "cn_tic s")
    case None
    then show ?thesis by (simp add: handler_send_def split: prod.split bind_split)
  next
    case (Some c)
    then obtain t where "p_tics (a_proc (cn_async s)) c = Some t" by (rule notifier_context [OF inv])
    with send_ok [OF inv Some this, of hdr ctrl] Some show ?thesis by simp
  qed
  from 1 2 3 show ?thesis by blast
qed




text \<open>
  Console coordinates are read back when they are not negative; a rectangle is read back always, and one with numbers beyond 16 bits
  is accepted and wrapped around.\<close>

theorem console_values:
  assumes "wtcl_law T" "length r = 4" "int32s 4 ns"
  shows "ObjToCOORD T (ObjFromCOORD T p) = (if 0 \<le> sint (fst p) \<and> 0 \<le> sint (snd p) then Inr p else Inl BadFormat) \<and>
    ObjToSMALL_RECT T (ObjFromSMALL_RECT T r) = Inr r \<and>
    ObjToSMALL_RECT T (t_mklist T (map (w_print T) ns)) = Inr (map word_of_int ns)"
proof -
  have rng: "- (2 ^ 31) \<le> sint w" "sint w < 2 ^ 31" "sint w \<le> 32767" for w :: "16 word"
    using sint_range_size [of w] by (simp_all add: word_size)
  have int: "t_int T (w_print T (sint w)) = Some (sint w)" for w :: "16 word" using rng wtcl_int [OF assms(1)] by blast
  have "ObjToCOORD T (ObjFromCOORD T p) = (if 0 \<le> sint (fst p) \<and> 0 \<le> sint (snd p) then Inr p else Inl BadFormat)"
    using rng(3) [of "fst p"] rng(3) [of "snd p"]
    by (cases p) (auto simp: ObjToCOORD_def ObjFromCOORD_def wtcl_list [OF assms(1)] int)
  moreover have "int32s 4 (map sint r)" using assms(2) rng by (auto simp: int32s_def)
  from get_ints_print [OF assms(1) this] have "ObjToSMALL_RECT T (ObjFromSMALL_RECT T r) = Inr r"
    by (simp add: ObjToSMALL_RECT_def ObjFromSMALL_RECT_def comp_def)
  moreover have "ObjToSMALL_RECT T (t_mklist T (map (w_print T) ns)) = Inr (map word_of_int ns)"
    using get_ints_print [OF assms(1,3)] by (simp add: ObjToSMALL_RECT_def)
  ultimately show ?thesis by blast
qed

section \<open>Witnesses\<close>

lemma demo_console:
  obtains s t where "cstep\<^sup>*\<^sup>* (con_start demo_ctx) s" "cn_tic s = Some 100" "p_tics (a_proc (cn_async s)) 100 = Some t"
    "tic_interp t = Some 7" "a_queue (cn_async s) = []" "1 < tic_nrefs t" "0 < outside (cn_async s) 100"
proof -
  obtain t0 where t0: "p_tics demo_ctx 100 = Some t0" "tic_interp t0 = Some 7" using demo_ctx_tic by blast
  have pos: "0 < tic_nrefs t0" using t0(1) demo_fresh by (simp add: proc_fresh_def)
  obtain p where p: "TwapiInterpContextRef 100 1 demo_ctx = Some p" "p_tics p 100 = Some (t0\<lparr>tic_nrefs := tic_nrefs t0 + 1\<rparr>)"
    using t0 by (simp add: TwapiInterpContextRef_def ExchangeAdd_def upd_tic_def)
  let ?s = "(con_start demo_ctx)\<lparr>cn_async := (async_start demo_ctx)\<lparr>a_proc := p\<rparr>, cn_tic := Some 100, cn_hooked := {100}\<rparr>"
  have "Twapi_StartConsoleEventNotifier 100 True (con_start demo_ctx) = Some (?s, None)"
    using p(1) by (simp add: Twapi_StartConsoleEventNotifier_def con_start_def async_start_def)
  moreover have out: "0 < outside (cn_async (con_start demo_ctx)) 100"
    using t0 pos by (simp add: con_start_def async_start_def outside_def ctx_refs_def pend_def pendingM_def)
  ultimately have "cstep (con_start demo_ctx) ?s" by (intro cstep.start)
  moreover have "0 < outside (cn_async ?s) 100"
    using p(2) pos by (simp add: con_start_def async_start_def outside_def ctx_refs_def pend_def pendingM_def)
  ultimately show ?thesis
    by (intro that [of ?s "t0\<lparr>tic_nrefs := tic_nrefs t0 + 1\<rparr>"] r_into_rtranclp)
      (simp_all add: p t0 pos con_start_def async_start_def)
qed

text \<open>The notifier is stopped between the two looks of the handler.\<close>

theorem console_safe_unless_stopped_witness:
  "\<exists>s. cstep\<^sup>*\<^sup>* (con_start demo_ctx) s \<and> 0 \<in> set (cn_passed s) \<and> handler_send 8 0 s = None"
proof -
  obtain s t where s: "cstep\<^sup>*\<^sup>* (con_start demo_ctx) s" "cn_tic s = Some 100" "p_tics (a_proc (cn_async s)) 100 = Some t"
    "1 < tic_nrefs t" "0 < outside (cn_async s) 100" by (rule demo_console)
  define s1 where "s1 = s\<lparr>cn_passed := 0 # cn_passed s\<rparr>"
  have st1: "cstep s s1" using s(2) by (intro cstep.signal [of 0 _ _ None]) (simp add: handler_check_def s1_def)
  obtain p where p: "TwapiInterpContextUnref 1 100 1 (a_proc (cn_async s)) = Some p"
    using s(3,4) by (simp add: TwapiInterpContextUnref_def ExchangeAdd_def)
  define s2 where "s2 = s1\<lparr>cn_async := (cn_async s)\<lparr>a_proc := p\<rparr>, cn_tic := None, cn_hooked := cn_hooked s - {100}\<rparr>"
  have "Twapi_StopConsoleEventNotifier 1 100 s1 = Some (s2, None)"
    using s(2) p by (simp add: Twapi_StopConsoleEventNotifier_def s1_def s2_def)
  then have st2: "cstep s1 s2" using s(5) by (intro cstep.stop) (simp_all add: s1_def)
  have reach: "cstep\<^sup>*\<^sup>* (con_start demo_ctx) s2" using s(1) st1 st2 by (meson rtranclp.rtrancl_into_rtrancl)
  have "cn_tic s2 = None" "0 \<in> set (cn_passed s2)" by (simp_all add: s1_def s2_def)
  with console_safe_unless_stopped [OF demo_fresh reach, of 8 0] reach show ?thesis by blast
qed


theorem console_values_witness:
  "ObjToCOORD demo_wtcl (ObjFromCOORD demo_wtcl (80, 25)) = Inr (80, 25) \<and>
   ObjToSMALL_RECT demo_wtcl (enc (map strokes [0, 0, 65537, 1])) = Inr [0, 0, 1, 1]"
  using console_values [OF demo_wtcl_law, of "[0, 0, 0, 0]" "[0, 0, 65537, 1]" "(80, 25)"] by (simp add: int32s_def)

end
