(* ===== verification/Spec2Isabelle.thy ===== *)
theory Spec2Isabelle
  imports Zlist_Props Memlifo_Props Threadpool_Props Onetime Pointers Atoms Evalcb Parseargs_Props Records_Props Trap_Props Dirnotify_Props Dirmon_Props Npipe_Props Errors Opaque_Props Getargs Service_Props Secrets_Props Secdesc_Props Cstruct_Props Console_Props
begin

text \<open>
  A verification library for the TWAPI extension of Tcl (\<open>src/twapi\<close>), in its 64-bit release build.

  \<^bold>\<open>The program.\<close> TWAPI makes the Windows API available to Tcl scripts. Most of its volume are commands
  that convert their arguments, call the system once and convert the answer. Its own logic is in the base
  module, which every other module links: memory pools, intrusive lists, the contexts of threads and
  interpreters, the argument parsers and value conversions, and the delivery of events from foreign threads
  into the Tcl event loop. On top of that stand the modules with state of their own: directory monitors,
  named pipes, services and the console. This library models the base module and those modules.

  \<^bold>\<open>Conventions.\<close> A definition has the name of the C function it translates and takes the state it works on
  as its last arguments. Computations that may dereference a null or freed pointer, read or write beyond a
  buffer, or panic, have type \<open>option\<close>: \<open>None\<close> is the crash. Errors the code reports are values: \<open>Inl\<close> of
  a sum type with the error, or the status code itself. Heaps are maps from numbers; freed objects are absent. What belongs to
  Tcl, to the system or to scripts is a parameter: a record of functions (\<open>tcl\<close>, \<open>otcl\<close>, \<open>gtcl\<close>, \<open>wtcl\<close>, \<open>stcl\<close>, \<open>ctcl\<close>, \<open>trap_lib\<close>, \<open>elib\<close>) or an
  argument with the answer of one call. The laws of such functions that a theorem needs are its hypotheses,
  and its witness instantiates them. Functions that block, or between whose parts other threads may run, are cut into parts,
  and the interleavings are the paths of an inductive step relation.

  \<^bold>\<open>Foundations.\<close>
  \<^item> \<open>Prelude\<close>: null pointers, simplification sets and list lemmas. \<open>Machine\<close>: sizes, addresses and the macros of
    \<open>twapi.h\<close> for alignment and pointer differences, with wrap-around.
  \<^item> \<open>Zlist\<close>, \<open>Zlist_Props\<close> (\<open>include/zlist.h\<close>): the list macros on link fields, assignment by assignment, refined to lists; the interface
    \<open>object_list\<close> is what the other components use.
  \<^item> \<open>Refcount\<close>: the locale of counters with \<open>InterlockedExchangeAdd\<close>.
  \<^item> \<open>Tcl\<close>: the conversions of the Tcl library and their laws, with a small instance for the witnesses.

  \<^bold>\<open>Memory.\<close> \<open>Memlifo\<close> and its seven companions (\<open>base/memlifo.c\<close>): chunks, marks, frames, the resizing of the last block, validation. \<open>Memlifo_Inv\<close>
  has the invariant, \<open>Memlifo_Client\<close> a client that makes any sequence of calls, pops of older marks included: no crash, live blocks disjoint
  from each other and from the marks, as long as no block grows or is resized by 2 GB or more, which corrupts the pool (\<open>lifo_expand_last_overflow\<close>).

  \<^bold>\<open>Process state\<close> (\<open>base/twapi.c\<close>, \<open>base/util.c\<close>, \<open>base/threadpool.c\<close>).
  \<^item> \<open>Process\<close>, \<open>Contexts\<close>, \<open>Contexts_Cleanup\<close>, \<open>Process_Props\<close>: thread-local blocks, interpreter contexts, modules, and the
    clean-up of a context, whose finalizers drop references of their own.
  \<^item> \<open>Threadpool\<close>, \<open>Threadpool_Props\<close>: registered waits, whose counter
    starts with whatever the memory held, as in the code. \<open>Onetime\<close>: the initialisation guard under all interleavings.
  \<^item> \<open>Pointers\<close>, \<open>Atoms\<close>: the registry of pointers given to scripts and the atom table.

  \<^bold>\<open>Values and arguments.\<close>
  \<^item> \<open>Parseargs\<close>, \<open>Records\<close>, \<open>Trap\<close> with their properties (\<open>base/parseargs.c\<close>, \<open>keylist.c\<close>, \<open>twine.c\<close>, \<open>recordarray.c\<close>, \<open>trap.c\<close>): the commands of the base
    module that are algorithms of their own, against reference definitions of what they compute: \<open>Records_Props\<close> defines the query a
    record array answers from the words of the command, \<open>Trap_Props\<close> what the manual says of \<open>trap\<close>, with the two cases in which the
    code departs from it.
  \<^item> \<open>Errors\<close> (\<open>base/errors.c\<close>): codes, messages and results. \<open>Getargs\<close> (\<open>base/calls.c\<close>): the argument parser of every command, equal to a
    specification of its formats.
  \<^item> \<open>Opaque\<close>, \<open>Opaque_Props\<close> (\<open>base/tclobjs.c\<close>, \<open>base/calls.c\<close>): pointers as values, over \<open>Pointers\<close>: a script frees a block at most once.
  \<^item> \<open>Secrets\<close>, \<open>Secrets_Props\<close> (\<open>base/tclobjs.c\<close>): encrypted passwords. \<open>Winval\<close>, \<open>Winval_Props\<close> (\<open>base/tclobjs.c\<close>): structures
    of the system as Tcl values; the locale \<open>codec\<close> is the shared contract of their two directions.
  \<^item> \<open>Secdesc\<close>, \<open>Secdesc_Props\<close> (\<open>base/tclobjs.c\<close>): identifiers, access control lists and security descriptors, whose entries are bytes in memory;
    \<open>AddAce\<close> may refuse an entry before or after reading it.
  \<^item> \<open>Cstruct\<close>, \<open>Cstruct_Layout\<close>, \<open>Cstruct_Props\<close> (\<open>base/ffi.c\<close>): structures that scripts define, with their layout in 32-bit words against the natural one;
    values written to them and read back, over the locale \<open>region_codec\<close>; the arguments of foreign calls;
    definitions kept in their objects.

  \<^bold>\<open>Events.\<close>
  \<^item> \<open>Async\<close>, \<open>Async_Inv\<close>, \<open>Async_Props\<close>, \<open>Evalcb\<close>, \<open>Async_Send\<close> (\<open>base/async.c\<close>, \<open>base/util.c\<close>): callbacks between threads, the accounting of their references, the
    scripts they run, and what a sender finds.
  \<^item> \<open>Dirnotify\<close>, \<open>Dirmon\<close> and companions (\<open>storage/dirmonitor.c\<close>): the walk over the system's notification buffer, and monitors under all interleavings of
    the interpreter, the thread pool and the clean-up. A wait registration that the pool refuses corrupts the list of monitors; the step relation
    has it, with a label, and the theorems say how far they hold after one.
  \<^item> \<open>Npipe\<close> and companions (\<open>namedpipe/namedpipe.c\<close>): the channel driver with its event source.
  \<^item> \<open>Service\<close>, \<open>Service_Inv\<close>, \<open>Service_Props\<close> (\<open>service/service.c\<close>): a service over \<open>Async\<close>, with everything that happens to contexts and callbacks meanwhile.
  \<^item> \<open>Console\<close>, \<open>Console_Props\<close> (\<open>console/console.c\<close>): the notifier of console signals, over \<open>Async\<close> in the same way, and the structures of the console.

  \<^bold>\<open>How the components compose.\<close> \<open>Threadpool\<close>, \<open>Async\<close>, \<open>Dirmon\<close>, \<open>Npipe\<close>, \<open>Service\<close> and \<open>Console\<close> all hold references on the contexts of \<open>Process\<close>; their
  invariants count these references with those of the other holders. \<open>Service\<close> and \<open>Console\<close> extend the step relation of \<open>Async\<close>. \<open>Dirmon\<close> uses \<open>Dirnotify\<close>, \<open>Npipe\<close> uses
  \<open>Errors\<close>, \<open>Opaque\<close> uses \<open>Pointers\<close>, \<open>Getargs\<close> uses \<open>Opaque\<close>, \<open>Service\<close> uses \<open>Getargs\<close>, and the commands and conversions use \<open>Tcl\<close>.

  \<^bold>\<open>The lemmas.\<close> For each component with state there is an invariant that every operation keeps and under which it has a
  result (no crash); reachability follows by rule induction. For commands and conversions there is the result on every branch, a reference
  definition or the inverse. Departures of the code from its comments, and defects, are theorems too, at concrete inputs or in general.

  \<^bold>\<open>Bounds and termination.\<close> Loops over lists and buffers are structural or have a measure. Walks over link fields are
  \<open>partial_function\<close>s, shown to end for well-formed lists. The only fuel is the depth of nested definitions in \<open>Cstruct\<close>,
  for which the length of the definition is enough. The growth of a block by \<open>MemLifoExpandLast\<close>, for a client, and the lengths in \<open>Secrets\<close> are below 2 GB, the
  range in which the signed arithmetic of the code is exact; reference counts are unbounded integers.

  \<^bold>\<open>Not modelled.\<close>
  \<^item> Vendored code: the headers of Tcl, \<open>lzmadec.c\<close>, \<open>pbkdf2.c\<close>, the dyncall library.
  \<^item> Modules whose commands convert arguments for one call of the system and hold no state: crypto, sspi, network, security, account, share, device,
    process, os, pdh, etw, evt, eventlog, scm, shell, mstask, ui, input, clipboard, resource, nls, winsta, rds, apputil. What they do is decided by the system, for which there is no source here.
  \<^item> COM (\<open>com.c\<close>, \<open>comserver.c\<close>, \<open>wmi.c\<close>, \<open>adsi.c\<close>): calls through function tables of foreign objects; \<open>VARIANT\<close> and \<open>SAFEARRAY\<close> values with them.
  \<^item> The conversion between UTF-8 and UTF-16 (\<open>winchars.c\<close>), which is that of the system: a parameter.
  \<^item> The tables of commands and the initialisation of modules (\<open>calls.c\<close>, \<open>twapi.c\<close>); printing for debugging; reference counts of Tcl objects outside of \<open>Atoms\<close> and \<open>Evalcb\<close>.
\<close>

end
